(* ===== verification/Prelude.thy ===== *)
theory Prelude
  imports Main "HOL-Library.Word"
begin

text \<open>
  What every component shares: the C integer types, the error codes of
  \<^verbatim>\<open>rtdef.h\<close>, the search loop that the fixed-size tables of the
  code use, and lemmas on words, lists and bits.
\<close>

unbundle bit_operations_syntax

section \<open>C types\<close>

type_synonym u8 = "8 word"
type_synonym u16 = "16 word"
type_synonym u32 = "32 word"

text \<open>A function pointer of the C program is an address; the null pointer is \<open>None\<close>.\<close>

type_synonym fptr = nat

text \<open>Status codes (\<^verbatim>\<open>rt_err_t\<close>, \<^verbatim>\<open>int32_t\<close>): no arithmetic is done on them.\<close>

type_synonym rt_err = int

abbreviation RT_EOK :: rt_err where "RT_EOK \<equiv> 0"
abbreviation RT_ERROR :: rt_err where "RT_ERROR \<equiv> 1"
abbreviation RT_ETIMEOUT :: rt_err where "RT_ETIMEOUT \<equiv> 2"
abbreviation RT_EFULL :: rt_err where "RT_EFULL \<equiv> 3"
abbreviation RT_EEMPTY :: rt_err where "RT_EEMPTY \<equiv> 4"
abbreviation RT_ENOSYS :: rt_err where "RT_ENOSYS \<equiv> 6"
abbreviation RT_EIO :: rt_err where "RT_EIO \<equiv> 8"
abbreviation RT_EINVAL :: rt_err where "RT_EINVAL \<equiv> 10"

abbreviation RT_TICK_MAX :: u32 where "RT_TICK_MAX \<equiv> 0xFFFFFFFF"

text \<open>\<^verbatim>\<open>RT_ALIGN\<close>, \<^verbatim>\<open>RT_ALIGN_DOWN\<close> to \<^verbatim>\<open>RT_ALIGN_SIZE\<close>, 4 bytes.\<close>

definition RT_ALIGN :: "u32 \<Rightarrow> u32" where "RT_ALIGN n = (n + 4 - 1) AND NOT (4 - 1)"
definition RT_ALIGN_DOWN :: "u32 \<Rightarrow> u32" where "RT_ALIGN_DOWN n = n AND NOT (4 - 1)"

section \<open>Fact collections\<close>

named_theorems frame_simps \<open>which fields an operation leaves alone\<close>
named_theorems wf_intros \<open>preservation of the well-formedness invariants\<close>

section \<open>The search loop of the fixed-size tables\<close>

text \<open>
  \<^verbatim>\<open>for (i = 0; i < N; i++) if (p(list[i])) { ...; break; }\<close>: the index the
  loop stops at, if any.
\<close>

fun first_index :: "('a \<Rightarrow> bool) \<Rightarrow> 'a list \<Rightarrow> nat option" where
  "first_index p [] = None"
| "first_index p (x # xs) = (if p x then Some 0 else map_option Suc (first_index p xs))"

lemma first_index_None: "first_index p xs = None \<longleftrightarrow> (\<forall>x \<in> set xs. \<not> p x)"
  by (induction xs) auto

lemma first_index_SomeD:
  "first_index p xs = Some i \<Longrightarrow> i < length xs \<and> p (xs ! i) \<and> (\<forall>j < i. \<not> p (xs ! j))"
proof (induction xs arbitrary: i)
  case Nil
  then show ?case by simp
next
  case (Cons x xs)
  show ?case
  proof (cases "p x")
    case True
    with Cons.prems show ?thesis by simp
  next
    case False
    with Cons.prems obtain k where k: "first_index p xs = Some k" and i: "i = Suc k"
      by auto
    from Cons.IH [OF k] False show ?thesis
      by (auto simp: i nth_Cons split: nat.splits)
  qed
qed

lemma first_index_SomeI:
  "i < length xs \<Longrightarrow> p (xs ! i) \<Longrightarrow> (\<And>j. j < i \<Longrightarrow> \<not> p (xs ! j)) \<Longrightarrow>
   first_index p xs = Some i"
proof (induction xs arbitrary: i)
  case Nil
  then show ?case by simp
next
  case (Cons x xs)
  show ?case
  proof (cases i)
    case 0
    with Cons.prems show ?thesis by simp
  next
    case (Suc k)
    with Cons.prems(3) [of 0] have "\<not> p x" by simp
    moreover have "first_index p xs = Some k"
      using Cons.prems Suc by (intro Cons.IH) force+
    ultimately show ?thesis using Suc by simp
  qed
qed

lemma first_index_lt [simp]: "first_index p xs = Some i \<Longrightarrow> i < length xs"
  by (drule first_index_SomeD) simp

lemma first_index_hit [simp]: "first_index p xs = Some i \<Longrightarrow> p (xs ! i)"
  by (drule first_index_SomeD) simp

lemma first_index_append:
  "first_index p (xs @ ys) = (case first_index p xs of
     None \<Rightarrow> map_option (\<lambda>i. length xs + i) (first_index p ys) | Some i \<Rightarrow> Some i)"
  by (induction xs; cases "first_index p ys") (auto split: option.splits)

lemma first_index_cong:
  "\<forall>x \<in> set xs. p x = q x \<Longrightarrow> first_index p xs = first_index q xs"
  by (induction xs) auto

text \<open>The loop over the elements is the loop over the indices.\<close>

lemma first_index_nth:
  "first_index p xs = first_index (\<lambda>i. p (xs ! i)) [0..<length xs]"
proof (induction xs rule: rev_induct)
  case (snoc x xs)
  have "first_index (\<lambda>i. p ((xs @ [x]) ! i)) [0..<length xs] = first_index (\<lambda>i. p (xs ! i)) [0..<length xs]"
    by (rule first_index_cong) (simp add: nth_append)
  with snoc show ?case by (simp add: first_index_append nth_append split: option.splits)
qed simp

section \<open>Words and bits\<close>

lemma word_nonzero_bit: "(w :: 'a::len word) \<noteq> 0 \<longleftrightarrow> (\<exists>n < LENGTH('a). bit w n)"
  by (metis bit_0_eq bit_imp_le_length bit_word_eqI bot_apply bot_bool_def)

lemma bit_set_at:
  "bit (w OR push_bit k 1) n \<longleftrightarrow> bit w n \<or> (n = k \<and> n < LENGTH('a))"
  for w :: "'a::len word"
  by (auto simp: bit_or_iff bit_exp_iff possible_bit_word)

lemma bit_clear_at:
  "bit (w AND NOT (push_bit k 1)) n \<longleftrightarrow> bit w n \<and> n \<noteq> k"
  for w :: "'a::len word"
  by (auto simp: bit_and_iff bit_not_iff bit_exp_iff possible_bit_word dest: bit_imp_le_length)

lemma word_less_3: "(w :: u8) < 3 \<longleftrightarrow> w = 0 \<or> w = 1 \<or> w = 2"
  by (simp add: word_less_nat_alt word_unat_eq_iff) arith

lemma unat_sub_le: "b \<le> a \<Longrightarrow> unat (a - b) = unat a - unat b" for a b :: "'a::len word"
  by (simp add: unat_sub)

section \<open>Lists\<close>

lemma nth_list_update_iff:
  "i < length xs \<Longrightarrow> xs[i := x] ! j = (if i = j then x else xs ! j)"
  by auto

lemma list_ex_nth: "list_ex (\<lambda>i. P (xs ! i)) [0..<length xs] = list_ex P xs"
  by (auto simp: list_ex_length)

lemma remove1_absent [simp]: "x \<notin> set xs \<Longrightarrow> remove1 x xs = xs"
  by (rule remove1_idem)

section \<open>Rounding\<close>

text \<open>Rounding to multiples of four and other powers of two, as numbers.\<close>

lemma unat_and_not_mask:
  fixes x :: u32
  assumes "k < 32"
  shows "unat (x AND NOT (mask k)) = unat x div 2 ^ k * 2 ^ k"
proof -
  have "x AND NOT (mask k) = push_bit k (drop_bit k x)"
  proof (rule bit_word_eqI)
    fix n
    show "bit (x AND NOT (mask k)) n \<longleftrightarrow> bit (push_bit k (drop_bit k x)) n" if "n < LENGTH(32)"
    proof (cases "n < k")
      case False
      then obtain j where "n = k + j" by (metis le_Suc_ex not_less)
      with that show ?thesis by (simp add: bit_simps)
    qed (use that in \<open>simp add: bit_simps\<close>)
  qed
  then have "unat (x AND NOT (mask k)) = unat (push_bit k (drop_bit k x))" by (simp only:)
  also have "\<dots> = take_bit 32 (push_bit k (drop_bit k (take_bit 32 (unat x))))"
    by (simp add: unsigned_push_bit_eq unsigned_drop_bit_eq del: push_bit_of_nat)
  also have "\<dots> = take_bit 32 (unat x div 2 ^ k * 2 ^ k)"
  proof -
    have "take_bit 32 (unat x) = unat x"
      using unsigned_less [of x, where ?'a = nat] by (intro take_bit_nat_eq_self) simp
    then show ?thesis by (simp add: push_bit_eq_mult drop_bit_eq_div)
  qed
  finally have "unat (x AND NOT (mask k)) = take_bit 32 (unat x div 2 ^ k * 2 ^ k)" .
  moreover have "unat x div 2 ^ k * 2 ^ k < 2 ^ 32"
    using unsigned_less [of x, where ?'a = nat] by (simp add: le_less_trans [OF div_times_less_eq_dividend])
  ultimately show ?thesis by (simp add: take_bit_nat_eq_self)
qed

lemma unat_and_mask: "unat (x AND mask k :: u32) = unat x mod 2 ^ k"
proof -
  have "unat (x AND mask k) = take_bit k (unat x)" by (simp add: unsigned_take_bit_eq flip: take_bit_eq_mask)
  then show ?thesis by (simp add: take_bit_eq_mod)
qed

lemma unat_and_not_3: "unat (x AND NOT 3 :: u32) = unat x div 4 * 4"
proof -
  have "(3 :: u32) = mask 2" by (simp add: mask_eq_exp_minus_1)
  with unat_and_not_mask [of 2 x] show ?thesis by simp
qed

text \<open>Rounding up wraps around for the last three sizes.\<close>

lemma unat_RT_ALIGN: "unat (RT_ALIGN n) = (unat n + 3) mod 2 ^ 32 div 4 * 4"
proof -
  have "RT_ALIGN n = (n + 3) AND NOT 3" by (simp add: RT_ALIGN_def add.commute)
  then show ?thesis by (simp only: unat_and_not_3) (simp add: unat_word_ariths)
qed

lemma RT_ALIGN_dvd: "4 dvd unat (RT_ALIGN n)"
  by (simp add: unat_RT_ALIGN)

definition align_up :: "nat \<Rightarrow> nat" where "align_up n = (n + 3) div 4 * 4"

lemma RT_ALIGN_up: "unat n \<le> 0xFFFFFFFC \<Longrightarrow> unat (RT_ALIGN n) = align_up (unat n)"
  by (simp add: unat_RT_ALIGN align_up_def)

lemma align_up_ge: "n \<le> align_up n" "align_up n < n + 4"
  by (simp_all add: align_up_def)

lemma unat_RT_ALIGN_DOWN: "unat (RT_ALIGN_DOWN n) = unat n div 4 * 4"
proof -
  have "(4 - 1 :: u32) = 3" by simp
  then show ?thesis unfolding RT_ALIGN_DOWN_def by (simp only: unat_and_not_3)
qed

section \<open>Circular ranges\<close>

text \<open>
  Ranges of a list that go on at its start: what ring buffers and mailboxes hold.
\<close>

lemma mod_once: "a < 2 * s \<Longrightarrow> a mod s = (if a < s then a else a - s)" for a s :: nat
  by (simp add: le_mod_geq)

definition circ :: "nat \<Rightarrow> nat \<Rightarrow> nat \<Rightarrow> 'a list \<Rightarrow> 'a list" where
  "circ s i n buf = map (\<lambda>k. buf ! ((i + k) mod s)) [0..<n]"

lemma circ_length [simp]: "length (circ s i n buf) = n"
  by (simp add: circ_def)

lemma circ_nth [simp]: "k < n \<Longrightarrow> circ s i n buf ! k = buf ! ((i + k) mod s)"
  by (simp add: circ_def)

lemma circ_zero [simp]: "circ s i 0 buf = []" by (simp add: circ_def)

lemma circ_take: "m \<le> n \<Longrightarrow> take m (circ s i n buf) = circ s i m buf"
  by (rule nth_equalityI) simp_all

lemma circ_drop: "circ s ((i + m) mod s) (n - m) buf = drop m (circ s i n buf)"
  by (rule nth_equalityI) (simp_all add: mod_add_left_eq add.assoc)

text \<open>Growing and shrinking a range by one element at either end.\<close>

lemma circ_Suc: "circ s i (Suc n) buf = circ s i n buf @ [buf ! ((i + n) mod s)]"
  by (simp add: circ_def)

lemma circ_rewind:
  assumes "i < s"
  shows "circ s ((i + s - 1) mod s) (Suc n) buf = buf ! ((i + s - 1) mod s) # circ s i n buf"
proof (rule nth_equalityI)
  fix k assume "k < length (circ s ((i + s - 1) mod s) (Suc n) buf)"
  then have k: "k < Suc n" by simp
  show "circ s ((i + s - 1) mod s) (Suc n) buf ! k = (buf ! ((i + s - 1) mod s) # circ s i n buf) ! k"
  proof (cases k)
    case 0
    then show ?thesis by simp
  next
    case (Suc j)
    have "i + s - 1 + Suc j = i + j + s" using assms by simp
    then have "((i + s - 1) mod s + Suc j) mod s = (i + j) mod s" by (simp only: mod_add_left_eq) simp
    with k Suc show ?thesis by simp
  qed
qed simp

text \<open>A write outside the range is not seen in it.\<close>

lemma circ_update:
  assumes "\<And>k. k < n \<Longrightarrow> (i + k) mod s \<noteq> j"
  shows "circ s i n (buf[j := v]) = circ s i n buf"
proof (rule nth_equalityI)
  fix k assume "k < length (circ s i n (buf[j := v]))"
  with assms [of k] show "circ s i n (buf[j := v]) ! k = circ s i n buf ! k" by simp
qed simp

lemma mod_inj:
  fixes i k l s :: nat
  assumes eq: "(i + k) mod s = (i + l) mod s" and less: "k < s" "l < s"
  shows "k = l"
proof -
  have "a = b" if "a \<le> b" "b < s" "(i + b) mod s = (i + a) mod s" for a b
  proof -
    have "s dvd (i + b) - (i + a)" using mod_eq_dvd_iff_nat [of "i + a" "i + b" s] that by simp
    with that(1,2) show ?thesis by (auto dest: dvd_imp_le)
  qed
  from this [of k l] this [of l k] eq less show ?thesis by (cases "k \<le> l") auto
qed

section \<open>Numbers in strings\<close>

text \<open>
  What the modelled files use of the C library beyond memory copies: \<^verbatim>\<open>atoi\<close>, which
  skips white space, reads a sign and decimal digits. A value outside \<^verbatim>\<open>int\<close> is undefined
  in C; here it is the mathematical value.
\<close>

definition is_space :: "char \<Rightarrow> bool" where
  "is_space c \<longleftrightarrow> (of_char c :: nat) = 32 \<or> (9 \<le> (of_char c :: nat) \<and> (of_char c :: nat) \<le> 13)"

fun digits :: "int \<Rightarrow> string \<Rightarrow> int" where
  "digits acc [] = acc"
| "digits acc (c # cs) =
    (if 48 \<le> (of_char c :: int) \<and> (of_char c :: int) \<le> 57
     then digits (10 * acc + (of_char c - 48)) cs else acc)"

definition atoi :: "string \<Rightarrow> int" where
  "atoi s = (case dropWhile is_space s of
     [] \<Rightarrow> 0
   | c # cs \<Rightarrow> if of_char c = (45 :: nat) then - digits 0 cs
               else if of_char c = (43 :: nat) then digits 0 cs else digits 0 (c # cs))"

end
