(* ===== verification/Lpms_State.thy ===== *)
theory Lpms_State
  imports Prelude
begin

text \<open>
  The control block of LPMS (\<^verbatim>\<open>lpms.h\<close>, \<^verbatim>\<open>lpms_config.h\<close>), the table of
  platform operations and the wrappers of \<^verbatim>\<open>lpms.c\<close> that call them.

  The platform is a type parameter \<open>'e\<close>: LPMS is platform independent and reaches
  the platform only through the function pointers of \<^verbatim>\<open>struct lpms_ops\<close>, each
  of which may be null. A pointer that is not null is a function on \<open>'e\<close>;
  a getter also returns the platform, because reading may have effects (the driver's
  \<^verbatim>\<open>lptim_get_tick\<close> keeps a remainder in a static variable).
\<close>

section \<open>Constants\<close>

text \<open>Sleep modes and frequency modes, in the order of the enums of \<^verbatim>\<open>lpms.h\<close>.\<close>

datatype pm_sleep_mode_t = PM_SLEEP_NONE | PM_SLEEP_IDLE | PM_SLEEP_LIGHT | PM_SLEEP_DEEP

datatype pm_freq_mode_t = PM_FREQ_HIGH | PM_FREQ_NORMAL | PM_FREQ_LOW

fun sleep_val :: "pm_sleep_mode_t \<Rightarrow> u8" where
  "sleep_val PM_SLEEP_NONE = 0"
| "sleep_val PM_SLEEP_IDLE = 1"
| "sleep_val PM_SLEEP_LIGHT = 2"
| "sleep_val PM_SLEEP_DEEP = 3"

fun freq_val :: "pm_freq_mode_t \<Rightarrow> u8" where
  "freq_val PM_FREQ_HIGH = 0"
| "freq_val PM_FREQ_NORMAL = 1"
| "freq_val PM_FREQ_LOW = 2"

abbreviation PM_SLEEP_MODE_MAX :: nat where "PM_SLEEP_MODE_MAX \<equiv> 4"
abbreviation PM_FREQ_MODE_MAX :: nat where "PM_FREQ_MODE_MAX \<equiv> 3"

text \<open>Module identifiers of \<^verbatim>\<open>lpms_config.h\<close>.\<close>

datatype lpms_module_sleep_e =
    PM_NONE_ID | PM_POWER_ID | PM_BOARD_ID | PM_BSP_ID | PM_MAIN_ID | PM_PMS_ID
  | PM_PMC_ID | PM_TASK_ID | PM_SPI_ID | PM_I2C_ID | PM_UART_ID | PM_CAN_ID
  | PM_ETH_ID | PM_SENSOR_ID | PM_LCD_ID | PM_KEY_ID | PM_TP_ID

fun module_val :: "lpms_module_sleep_e \<Rightarrow> u16" where
  "module_val PM_NONE_ID = 0"
| "module_val PM_POWER_ID = 1"
| "module_val PM_BOARD_ID = 2"
| "module_val PM_BSP_ID = 3"
| "module_val PM_MAIN_ID = 4"
| "module_val PM_PMS_ID = 5"
| "module_val PM_PMC_ID = 6"
| "module_val PM_TASK_ID = 7"
| "module_val PM_SPI_ID = 8"
| "module_val PM_I2C_ID = 9"
| "module_val PM_UART_ID = 10"
| "module_val PM_CAN_ID = 11"
| "module_val PM_ETH_ID = 12"
| "module_val PM_SENSOR_ID = 13"
| "module_val PM_LCD_ID = 14"
| "module_val PM_KEY_ID = 15"
| "module_val PM_TP_ID = 16"

datatype lpms_delay_module_e = PMD_NONE_ID | PM_BUSY_KEY

fun busy_module_val :: "lpms_delay_module_e \<Rightarrow> u16" where
  "busy_module_val PMD_NONE_ID = 0"
| "busy_module_val PM_BUSY_KEY = 1"

abbreviation PM_MODULE_MAX :: nat where "PM_MODULE_MAX \<equiv> 17"
abbreviation PM_BUSY_MODULE_MAX :: nat where "PM_BUSY_MODULE_MAX \<equiv> 2"

text \<open>\<^verbatim>\<open>(PM_MODULE_MAX + 31) / 32\<close>: the words of one row of a status table.\<close>

abbreviation PM_STATUS_WORDS :: nat where "PM_STATUS_WORDS \<equiv> (PM_MODULE_MAX + 31) div 32"

abbreviation PM_TICK_MAX :: u32 where "PM_TICK_MAX \<equiv> 0xFFFFFFFF"
abbreviation PM_FLAG_BUSY :: u8 where "PM_FLAG_BUSY \<equiv> 0xBC"
abbreviation PM_FLAG_IDLE :: u8 where "PM_FLAG_IDLE \<equiv> 0xDE"

abbreviation LPMS_DEFAULT_BUSY_SLEEP_MODE :: u8 where
  "LPMS_DEFAULT_BUSY_SLEEP_MODE \<equiv> sleep_val PM_SLEEP_NONE"
abbreviation LPMS_TICKLESS_THRESHOLD_TIME :: u32 where
  "LPMS_TICKLESS_THRESHOLD_TIME \<equiv> 6"
abbreviation LPMS_TICKLESS_THRESHOLD_MODE :: u8 where
  "LPMS_TICKLESS_THRESHOLD_MODE \<equiv> sleep_val PM_SLEEP_IDLE"
abbreviation LPMS_TICKLESS_DEFAULT_MODE :: u8 where
  "LPMS_TICKLESS_DEFAULT_MODE \<equiv> sleep_val PM_SLEEP_LIGHT"

abbreviation LPMS_EOK :: rt_err where "LPMS_EOK \<equiv> 0"
abbreviation LPMS_EFULL :: rt_err where "LPMS_EFULL \<equiv> 3"
abbreviation LPMS_ENOSYS :: rt_err where "LPMS_ENOSYS \<equiv> 6"

section \<open>State\<close>

record 'e lpms_ops =
  op_sleep :: "(u8 \<Rightarrow> 'e \<Rightarrow> 'e) option"
  op_set_freq :: "(u8 \<Rightarrow> 'e \<Rightarrow> 'e) option"
  op_lptim_start :: "(u32 \<Rightarrow> 'e \<Rightarrow> 'e) option"
  op_lptim_stop :: "('e \<Rightarrow> 'e) option"
  op_lptim_get_tick :: "('e \<Rightarrow> u32 \<times> 'e) option"
  op_lptim_next_timeout :: "('e \<Rightarrow> u32 \<times> 'e) option"
  op_systick_get :: "('e \<Rightarrow> u32 \<times> 'e) option"
  op_systick_set :: "(u32 \<Rightarrow> 'e \<Rightarrow> 'e) option"
  op_systick_next_timeout :: "('e \<Rightarrow> u32 \<times> 'e) option"
  op_irq_disable :: "('e \<Rightarrow> u32 \<times> 'e) option"
  op_irq_enable :: "(u32 \<Rightarrow> 'e \<Rightarrow> 'e) option"

record 'e lpms_sys_t =
  init_flag :: u8
  enable_flag :: u8
  sleep_mode :: u8
  freq_mode :: u8
  freq_flag :: u32
  sleep_status :: "u32 list list"
  freq_status :: "u32 list list"
  busy_timeout :: "u32 list"
  ops :: "'e lpms_ops option"

text \<open>
  The whole state the package works on: its control block \<^verbatim>\<open>_pm_sys\<close>, the three
  hook lists of \<^verbatim>\<open>lpms_notify.c\<close>, and the platform.
\<close>

record 'e lpms_world =
  pm_sys :: "'e lpms_sys_t"
  pm_hook_list_sleep :: "fptr option list"
  pm_hook_list_wake :: "fptr option list"
  pm_hook_list_freq :: "fptr option list"
  env :: 'e

text \<open>\<^verbatim>\<open>static lpms_sys_t _pm_sys = { 0 };\<close>\<close>

definition pm_sys_zero :: "'e lpms_sys_t" where
  "pm_sys_zero = \<lparr>init_flag = 0, enable_flag = 0, sleep_mode = 0, freq_mode = 0, freq_flag = 0,
     sleep_status = replicate (PM_SLEEP_MODE_MAX - 1) (replicate PM_STATUS_WORDS 0),
     freq_status = replicate (PM_FREQ_MODE_MAX - 1) (replicate PM_STATUS_WORDS 0),
     busy_timeout = replicate PM_BUSY_MODULE_MAX 0, ops = None\<rparr>"

abbreviation upd_sys :: "('e lpms_sys_t \<Rightarrow> 'e lpms_sys_t) \<Rightarrow> 'e lpms_world \<Rightarrow> 'e lpms_world" where
  "upd_sys f w \<equiv> w\<lparr>pm_sys := f (pm_sys w)\<rparr>"

text \<open>
  Calls through the table: nothing happens, or a default is returned, when the table is
  not installed or the pointer is null.
\<close>

definition call_get :: "('e lpms_ops \<Rightarrow> ('e \<Rightarrow> u32 \<times> 'e) option) \<Rightarrow> u32 \<Rightarrow> 'e lpms_world \<Rightarrow>
    u32 \<times> 'e lpms_world" where
  "call_get sel dflt w = (case ops (pm_sys w) of
     None \<Rightarrow> (dflt, w)
   | Some tab \<Rightarrow> (case sel tab of
       None \<Rightarrow> (dflt, w)
     | Some f \<Rightarrow> (case f (env w) of (v, e) \<Rightarrow> (v, w\<lparr>env := e\<rparr>))))"

definition call_do :: "('e lpms_ops \<Rightarrow> ('e \<Rightarrow> 'e) option) \<Rightarrow> 'e lpms_world \<Rightarrow> 'e lpms_world" where
  "call_do sel w = (case ops (pm_sys w) of
     None \<Rightarrow> w
   | Some tab \<Rightarrow> (case sel tab of None \<Rightarrow> w | Some f \<Rightarrow> w\<lparr>env := f (env w)\<rparr>))"

definition pm_irq_disable :: "'e lpms_world \<Rightarrow> u32 \<times> 'e lpms_world" where
  "pm_irq_disable = call_get op_irq_disable 0"

definition pm_irq_enable :: "u32 \<Rightarrow> 'e lpms_world \<Rightarrow> 'e lpms_world" where
  "pm_irq_enable level = call_do (\<lambda>t. map_option (\<lambda>f. f level) (op_irq_enable t))"

definition pm_get_tick :: "'e lpms_world \<Rightarrow> u32 \<times> 'e lpms_world" where
  "pm_get_tick = call_get op_systick_get 0"

definition pm_set_tick :: "u32 \<Rightarrow> 'e lpms_world \<Rightarrow> 'e lpms_world" where
  "pm_set_tick ticks = call_do (\<lambda>t. map_option (\<lambda>f. f ticks) (op_systick_set t))"

definition pm_next_timeout :: "'e lpms_world \<Rightarrow> u32 \<times> 'e lpms_world" where
  "pm_next_timeout = call_get op_systick_next_timeout PM_TICK_MAX"

definition lptimer_next_timeout :: "'e lpms_world \<Rightarrow> u32 \<times> 'e lpms_world" where
  "lptimer_next_timeout = call_get op_lptim_next_timeout PM_TICK_MAX"

definition lptimer_start :: "u32 \<Rightarrow> 'e lpms_world \<Rightarrow> 'e lpms_world" where
  "lptimer_start tmo = call_do (\<lambda>t. map_option (\<lambda>f. f tmo) (op_lptim_start t))"

definition lptimer_stop :: "'e lpms_world \<Rightarrow> 'e lpms_world" where
  "lptimer_stop = call_do op_lptim_stop"

definition lptimer_get_timeout :: "'e lpms_world \<Rightarrow> u32 \<times> 'e lpms_world" where
  "lptimer_get_timeout = call_get op_lptim_get_tick PM_TICK_MAX"

definition pm_sleep :: "u8 \<Rightarrow> 'e lpms_world \<Rightarrow> 'e lpms_world" where
  "pm_sleep mode = call_do (\<lambda>t. map_option (\<lambda>f. f mode) (op_sleep t))"

definition pm_set_freq :: "u8 \<Rightarrow> 'e lpms_world \<Rightarrow> 'e lpms_world" where
  "pm_set_freq mode = call_do (\<lambda>t. map_option (\<lambda>f. f mode) (op_set_freq t))"

lemmas lpms_call_defs =
  pm_irq_disable_def pm_irq_enable_def pm_get_tick_def pm_set_tick_def pm_next_timeout_def
  lptimer_next_timeout_def lptimer_start_def lptimer_stop_def lptimer_get_timeout_def
  pm_sleep_def pm_set_freq_def

section \<open>Calls through the table touch the platform only\<close>

lemma call_get_frame [frame_simps]:
  "pm_sys (snd (call_get sel d w)) = pm_sys w"
  "pm_hook_list_sleep (snd (call_get sel d w)) = pm_hook_list_sleep w"
  "pm_hook_list_wake (snd (call_get sel d w)) = pm_hook_list_wake w"
  "pm_hook_list_freq (snd (call_get sel d w)) = pm_hook_list_freq w"
  by (auto simp: call_get_def split: option.splits prod.splits)

lemma call_do_frame [frame_simps]:
  "pm_sys (call_do sel w) = pm_sys w"
  "pm_hook_list_sleep (call_do sel w) = pm_hook_list_sleep w"
  "pm_hook_list_wake (call_do sel w) = pm_hook_list_wake w"
  "pm_hook_list_freq (call_do sel w) = pm_hook_list_freq w"
  by (auto simp: call_do_def split: option.splits)

lemma lpms_calls_frame [frame_simps]:
  "pm_sys (snd (pm_irq_disable w)) = pm_sys w"
  "pm_sys (pm_irq_enable l w) = pm_sys w"
  "pm_sys (snd (pm_get_tick w)) = pm_sys w"
  "pm_sys (pm_set_tick t w) = pm_sys w"
  "pm_sys (snd (pm_next_timeout w)) = pm_sys w"
  "pm_sys (snd (lptimer_next_timeout w)) = pm_sys w"
  "pm_sys (lptimer_start t w) = pm_sys w"
  "pm_sys (lptimer_stop w) = pm_sys w"
  "pm_sys (snd (lptimer_get_timeout w)) = pm_sys w"
  "pm_sys (pm_sleep m w) = pm_sys w"
  "pm_sys (pm_set_freq m w) = pm_sys w"
  by (simp_all add: lpms_call_defs frame_simps)

lemma lpms_calls_hooks [frame_simps]:
  "pm_hook_list_sleep (snd (pm_irq_disable w)) = pm_hook_list_sleep w"
  "pm_hook_list_wake (snd (pm_irq_disable w)) = pm_hook_list_wake w"
  "pm_hook_list_freq (snd (pm_irq_disable w)) = pm_hook_list_freq w"
  "pm_hook_list_sleep (pm_irq_enable l w) = pm_hook_list_sleep w"
  "pm_hook_list_wake (pm_irq_enable l w) = pm_hook_list_wake w"
  "pm_hook_list_freq (pm_irq_enable l w) = pm_hook_list_freq w"
  by (simp_all add: lpms_call_defs frame_simps)

end
