(* ===== verification/Hook_Table.thy ===== *)
theory Hook_Table
  imports Prelude "HOL-Library.Multiset"
begin

text \<open>
  The fixed-size hook tables of the code: three in \<^verbatim>\<open>lpms_notify.c\<close> and one in
  \<^verbatim>\<open>idle.c\<close>, each with a set, a delete and a run loop of the same shape. The
  loops are defined here once; the interface \<open>hook_registry\<close> states what a table
  promises and proves its consequences, and every table is an interpretation of it.
\<close>

section \<open>The loops\<close>

text \<open>Set: the first slot that holds null takes the pointer (which may be null itself).\<close>

definition hook_set :: "fptr option \<Rightarrow> fptr option list \<Rightarrow> rt_err \<times> fptr option list" where
  "hook_set hook xs = (case first_index (\<lambda>s. s = None) xs of
     None \<Rightarrow> (- RT_EFULL, xs)
   | Some i \<Rightarrow> (RT_EOK, xs[i := hook]))"

text \<open>Delete: the first slot that holds the pointer is set to null.\<close>

definition hook_del :: "fptr option \<Rightarrow> fptr option list \<Rightarrow> rt_err \<times> fptr option list" where
  "hook_del hook xs = (case first_index (\<lambda>s. s = hook) xs of
     None \<Rightarrow> (- RT_ENOSYS, xs)
   | Some i \<Rightarrow> (RT_EOK, xs[i := None]))"

text \<open>
  Run: slot after slot, reading the table anew at each slot because a hook may change it.
\<close>

fun hook_run :: "('w \<Rightarrow> fptr option list) \<Rightarrow> (fptr \<Rightarrow> 'w \<Rightarrow> 'w) \<Rightarrow> nat list \<Rightarrow> 'w \<Rightarrow> 'w" where
  "hook_run slots call [] w = w"
| "hook_run slots call (i # is) w =
     hook_run slots call is (case slots w ! i of None \<Rightarrow> w | Some f \<Rightarrow> call f w)"

section \<open>Facts on the loops\<close>

lemma hook_set_full:
  "None \<notin> set xs \<Longrightarrow> hook_set h xs = (- RT_EFULL, xs)"
proof -
  assume "None \<notin> set xs"
  then have "first_index (\<lambda>s. s = None) xs = None"
    by (simp add: first_index_None) (metis not_None_eq)
  then show ?thesis by (simp add: hook_set_def)
qed

lemma hook_set_free:
  assumes "None \<in> set xs"
  obtains i where "i < length xs" "xs ! i = None" "\<forall>j < i. xs ! j \<noteq> None"
    "hook_set h xs = (RT_EOK, xs[i := h])"
proof -
  from assms obtain i where i: "first_index (\<lambda>s. s = None) xs = Some i"
    by (cases "first_index (\<lambda>s. s = None) xs") (auto simp: first_index_None)
  from first_index_SomeD [OF i] i show ?thesis
    by (intro that [of i]) (simp_all add: hook_set_def)
qed

lemma hook_del_absent:
  "h \<notin> set xs \<Longrightarrow> hook_del h xs = (- RT_ENOSYS, xs)"
proof -
  assume "h \<notin> set xs"
  then have "first_index (\<lambda>s. s = h) xs = None" by (auto simp: first_index_None)
  then show ?thesis by (simp add: hook_del_def)
qed

lemma hook_del_present:
  assumes "h \<in> set xs"
  obtains i where "i < length xs" "xs ! i = h" "\<forall>j < i. xs ! j \<noteq> h"
    "hook_del h xs = (RT_EOK, xs[i := None])"
proof -
  from assms obtain i where i: "first_index (\<lambda>s. s = h) xs = Some i"
    by (cases "first_index (\<lambda>s. s = h) xs") (auto simp: first_index_None)
  from first_index_SomeD [OF i] i show ?thesis
    by (intro that [of i]) (simp_all add: hook_del_def)
qed

lemma hook_set_length [simp]: "length (snd (hook_set h xs)) = length xs"
  by (simp add: hook_set_def split: option.splits)

lemma hook_del_length [simp]: "length (snd (hook_del h xs)) = length xs"
  by (simp add: hook_del_def split: option.splits)

text \<open>The hooks a table holds, in slot order: the order they run in.\<close>

definition hooks_of :: "fptr option list \<Rightarrow> fptr list" where
  "hooks_of xs = map the (filter (\<lambda>s. s \<noteq> None) xs)"

lemma hooks_of_simps [simp]:
  "hooks_of [] = []" "hooks_of (None # xs) = hooks_of xs"
  "hooks_of (Some f # xs) = f # hooks_of xs"
  "hooks_of (xs @ ys) = hooks_of xs @ hooks_of ys"
  by (simp_all add: hooks_of_def)

lemma hook_run_static:
  assumes keep: "\<And>f w. slots (call f w) = slots w"
  shows "hook_run slots call is w =
    fold call (hooks_of (map ((!) (slots w)) is)) w"
proof (induction "is" arbitrary: w)
  case Nil
  then show ?case by simp
next
  case (Cons i "is")
  show ?case
    by (cases "slots w ! i") (simp_all add: Cons.IH keep)
qed

lemma hook_run_inv:
  "P w \<Longrightarrow> (\<And>f w. P w \<Longrightarrow> P (call f w)) \<Longrightarrow> P (hook_run slots call is w)"
proof (induction "is" arbitrary: w)
  case Nil
  then show ?case by simp
next
  case (Cons i "is")
  then have "P (case slots w ! i of None \<Rightarrow> w | Some f \<Rightarrow> call f w)"
    by (simp split: option.splits)
  with Cons.IH Cons.prems(2) show ?case by simp
qed

section \<open>The interface of a hook table\<close>

locale hook_registry =
  fixes slots :: "'w \<Rightarrow> fptr option list"
    and sethook :: "fptr option \<Rightarrow> 'w \<Rightarrow> rt_err \<times> 'w"
    and delhook :: "fptr option \<Rightarrow> 'w \<Rightarrow> rt_err \<times> 'w"
    and run :: "(fptr \<Rightarrow> 'a \<Rightarrow> 'w \<Rightarrow> 'w) \<Rightarrow> 'a \<Rightarrow> 'w \<Rightarrow> 'w"
    and size :: nat
  assumes set_law: "(fst (sethook h w), slots (snd (sethook h w))) = hook_set h (slots w)"
    and del_law: "(fst (delhook h w), slots (snd (delhook h w))) = hook_del h (slots w)"
    and run_law: "run code a w = hook_run slots (\<lambda>f. code f a) [0..<size] w"
begin

lemma sethook_full:
  "None \<notin> set (slots w) \<Longrightarrow>
   fst (sethook h w) = - RT_EFULL \<and> slots (snd (sethook h w)) = slots w"
  using set_law [of h w] by (simp add: hook_set_full)

lemma sethook_free:
  assumes "None \<in> set (slots w)"
  shows "fst (sethook h w) = RT_EOK \<and>
    mset (slots (snd (sethook h w))) = add_mset h (mset (slots w) - {#None#})"
proof -
  obtain i where i: "i < length (slots w)" "slots w ! i = None"
    "hook_set h (slots w) = (RT_EOK, (slots w)[i := h])"
    by (rule hook_set_free [OF assms])
  with set_law [of h w] show ?thesis by (simp add: mset_update)
qed

lemma delhook_absent:
  "h \<notin> set (slots w) \<Longrightarrow>
   fst (delhook h w) = - RT_ENOSYS \<and> slots (snd (delhook h w)) = slots w"
  using del_law [of h w] by (simp add: hook_del_absent)

lemma delhook_present:
  assumes "h \<in> set (slots w)"
  shows "fst (delhook h w) = RT_EOK \<and>
    mset (slots (snd (delhook h w))) = add_mset None (mset (slots w) - {#h#})"
proof -
  obtain i where i: "i < length (slots w)" "slots w ! i = h"
    "hook_del h (slots w) = (RT_EOK, (slots w)[i := None])"
    by (rule hook_del_present [OF assms])
  with del_law [of h w] show ?thesis by (simp add: mset_update)
qed

text \<open>Setting a new hook and deleting it again gives back the same table, slot by slot.\<close>

lemma set_del_roundtrip:
  assumes new: "Some f \<notin> set (slots w)" and free: "None \<in> set (slots w)"
  shows "fst (delhook (Some f) (snd (sethook (Some f) w))) = RT_EOK \<and>
    slots (snd (delhook (Some f) (snd (sethook (Some f) w)))) = slots w"
proof -
  obtain i where i: "i < length (slots w)" "slots w ! i = None"
    "hook_set (Some f) (slots w) = (RT_EOK, (slots w)[i := Some f])"
    by (rule hook_set_free [OF free])
  let ?xs = "(slots w)[i := Some f]"
  have set: "slots (snd (sethook (Some f) w)) = ?xs"
    using set_law [of "Some f" w] i(3) by simp
  have "first_index (\<lambda>s. s = Some f) ?xs = Some i"
  proof (rule first_index_SomeI)
    show "i < length ?xs" and "?xs ! i = Some f" using i(1) by simp_all
    show "?xs ! j \<noteq> Some f" if "j < i" for j
      using that i(1) new by (metis less_trans nth_list_update_neq nat_neq_iff nth_mem)
  qed
  then have "hook_del (Some f) ?xs = (RT_EOK, ?xs[i := None])"
    by (simp add: hook_del_def)
  moreover have "?xs[i := None] = slots w"
    using i(1,2) by (metis list_update_id list_update_overwrite)
  ultimately show ?thesis
    using del_law [of "Some f" "snd (sethook (Some f) w)"] by (simp add: set)
qed

text \<open>Hooks that leave the table alone run once per slot they hold, in slot order.\<close>

lemma run_in_order:
  assumes "length (slots w) = size" and "\<And>f w. slots (code f a w) = slots w"
  shows "run code a w = fold (\<lambda>f. code f a) (hooks_of (slots w)) w"
  using hook_run_static [of slots "\<lambda>f. code f a" "[0..<size]" w] assms
  by (simp add: run_law) (metis map_nth)

lemma run_inv: "P w \<Longrightarrow> (\<And>f w. P w \<Longrightarrow> P (code f a w)) \<Longrightarrow> P (run code a w)"
  by (simp add: run_law hook_run_inv)

end

end
