(* ===== verification/Lpms_Notify.thy ===== *)
theory Lpms_Notify
  imports Lpms_State Hook_Table
begin

text \<open>
  \<^verbatim>\<open>lpms_notify.c\<close>: the hook lists that run before sleep, after wake-up and
  after a change of frequency. A hook is a pointer; the code behind the pointers is the
  parameter \<open>hc\<close>, a function on the whole world, since a hook may call any
  operation of the package.
\<close>

type_synonym 'e hook_code = "fptr \<Rightarrow> u8 \<Rightarrow> 'e lpms_world \<Rightarrow> 'e lpms_world"

abbreviation LPMS_HOOK_LIST_SLEEP_SIZE :: nat where "LPMS_HOOK_LIST_SLEEP_SIZE \<equiv> 4"
abbreviation LPMS_HOOK_LIST_WAKE_SIZE :: nat where "LPMS_HOOK_LIST_WAKE_SIZE \<equiv> 4"
abbreviation LPMS_HOOK_LIST_FREQ_SIZE :: nat where "LPMS_HOOK_LIST_FREQ_SIZE \<equiv> 4"

section \<open>Set and delete\<close>

definition lpms_sleep_sethook :: "fptr option \<Rightarrow> 'e lpms_world \<Rightarrow> rt_err \<times> 'e lpms_world" where
  "lpms_sleep_sethook hook w =
    (let (level, w1) = pm_irq_disable w;
         (ret, xs) = hook_set hook (pm_hook_list_sleep w1)
     in (ret, pm_irq_enable level (w1\<lparr>pm_hook_list_sleep := xs\<rparr>)))"

definition lpms_sleep_delhook :: "fptr option \<Rightarrow> 'e lpms_world \<Rightarrow> rt_err \<times> 'e lpms_world" where
  "lpms_sleep_delhook hook w =
    (let (level, w1) = pm_irq_disable w;
         (ret, xs) = hook_del hook (pm_hook_list_sleep w1)
     in (ret, pm_irq_enable level (w1\<lparr>pm_hook_list_sleep := xs\<rparr>)))"

definition lpms_wakeup_sethook :: "fptr option \<Rightarrow> 'e lpms_world \<Rightarrow> rt_err \<times> 'e lpms_world" where
  "lpms_wakeup_sethook hook w =
    (let (level, w1) = pm_irq_disable w;
         (ret, xs) = hook_set hook (pm_hook_list_wake w1)
     in (ret, pm_irq_enable level (w1\<lparr>pm_hook_list_wake := xs\<rparr>)))"

definition lpms_wakeup_delhook :: "fptr option \<Rightarrow> 'e lpms_world \<Rightarrow> rt_err \<times> 'e lpms_world" where
  "lpms_wakeup_delhook hook w =
    (let (level, w1) = pm_irq_disable w;
         (ret, xs) = hook_del hook (pm_hook_list_wake w1)
     in (ret, pm_irq_enable level (w1\<lparr>pm_hook_list_wake := xs\<rparr>)))"

definition lpms_freq_sethook :: "fptr option \<Rightarrow> 'e lpms_world \<Rightarrow> rt_err \<times> 'e lpms_world" where
  "lpms_freq_sethook hook w =
    (let (level, w1) = pm_irq_disable w;
         (ret, xs) = hook_set hook (pm_hook_list_freq w1)
     in (ret, pm_irq_enable level (w1\<lparr>pm_hook_list_freq := xs\<rparr>)))"

definition lpms_freq_delhook :: "fptr option \<Rightarrow> 'e lpms_world \<Rightarrow> rt_err \<times> 'e lpms_world" where
  "lpms_freq_delhook hook w =
    (let (level, w1) = pm_irq_disable w;
         (ret, xs) = hook_del hook (pm_hook_list_freq w1)
     in (ret, pm_irq_enable level (w1\<lparr>pm_hook_list_freq := xs\<rparr>)))"

lemmas lpms_hook_op_defs =
  lpms_sleep_sethook_def lpms_sleep_delhook_def lpms_wakeup_sethook_def
  lpms_wakeup_delhook_def lpms_freq_sethook_def lpms_freq_delhook_def

section \<open>Run\<close>

definition lpms_notify_sleep :: "'e hook_code \<Rightarrow> u8 \<Rightarrow> 'e lpms_world \<Rightarrow> 'e lpms_world" where
  "lpms_notify_sleep hc mode =
     hook_run pm_hook_list_sleep (\<lambda>f. hc f mode) [0..<LPMS_HOOK_LIST_SLEEP_SIZE]"

definition lpms_notify_wakeup :: "'e hook_code \<Rightarrow> u8 \<Rightarrow> 'e lpms_world \<Rightarrow> 'e lpms_world" where
  "lpms_notify_wakeup hc mode =
     hook_run pm_hook_list_wake (\<lambda>f. hc f mode) [0..<LPMS_HOOK_LIST_WAKE_SIZE]"

definition lpms_notify_freq :: "'e hook_code \<Rightarrow> u8 \<Rightarrow> 'e lpms_world \<Rightarrow> 'e lpms_world" where
  "lpms_notify_freq hc mode =
     hook_run pm_hook_list_freq (\<lambda>f. hc f mode) [0..<LPMS_HOOK_LIST_FREQ_SIZE]"

section \<open>The three lists are hook tables\<close>

lemmas hook_laws = lpms_hook_op_defs Let_def split_def frame_simps

interpretation sleep_hooks: hook_registry pm_hook_list_sleep lpms_sleep_sethook
  lpms_sleep_delhook lpms_notify_sleep LPMS_HOOK_LIST_SLEEP_SIZE
  by unfold_locales (simp_all add: hook_laws lpms_notify_sleep_def)

interpretation wakeup_hooks: hook_registry pm_hook_list_wake lpms_wakeup_sethook
  lpms_wakeup_delhook lpms_notify_wakeup LPMS_HOOK_LIST_WAKE_SIZE
  by unfold_locales (simp_all add: hook_laws lpms_notify_wakeup_def)

interpretation freq_hooks: hook_registry pm_hook_list_freq lpms_freq_sethook
  lpms_freq_delhook lpms_notify_freq LPMS_HOOK_LIST_FREQ_SIZE
  by unfold_locales (simp_all add: hook_laws lpms_notify_freq_def)

section \<open>Setting a hook touches its own list only\<close>

lemma hook_ops_sys [frame_simps]:
  "pm_sys (snd (lpms_sleep_sethook h w)) = pm_sys w"
  "pm_sys (snd (lpms_sleep_delhook h w)) = pm_sys w"
  "pm_sys (snd (lpms_wakeup_sethook h w)) = pm_sys w"
  "pm_sys (snd (lpms_wakeup_delhook h w)) = pm_sys w"
  "pm_sys (snd (lpms_freq_sethook h w)) = pm_sys w"
  "pm_sys (snd (lpms_freq_delhook h w)) = pm_sys w"
  by (simp_all add: hook_laws)

lemma sleep_hook_ops_lists [frame_simps]:
  "pm_hook_list_wake (snd (lpms_sleep_sethook h w)) = pm_hook_list_wake w"
  "pm_hook_list_freq (snd (lpms_sleep_sethook h w)) = pm_hook_list_freq w"
  "pm_hook_list_wake (snd (lpms_sleep_delhook h w)) = pm_hook_list_wake w"
  "pm_hook_list_freq (snd (lpms_sleep_delhook h w)) = pm_hook_list_freq w"
  by (simp_all add: hook_laws)

end
