(* ===== verification/Lpms.thy ===== *)
theory Lpms
  imports Lpms_Notify
begin

text \<open>
  \<^verbatim>\<open>lpms.c\<close>: requests and releases of sleep and frequency modes, the busy
  timeouts, the choice of a mode, and the tickless run that the idle thread makes.
  All operations are functions on the world; interrupts are disabled and enabled
  through the table as in the code.
\<close>

section \<open>The status tables\<close>

text \<open>
  \<^verbatim>\<open>status[mode][id / 32] |= 1 << (id % 32)\<close> and its inverse.
\<close>

definition status_word :: "nat \<Rightarrow> nat \<Rightarrow> u32 list list \<Rightarrow> u32" where
  "status_word mode len st = st ! mode ! len"

definition status_put :: "nat \<Rightarrow> nat \<Rightarrow> u32 \<Rightarrow> u32 list list \<Rightarrow> u32 list list" where
  "status_put mode len v st = st[mode := (st ! mode)[len := v]]"

definition status_set :: "nat \<Rightarrow> nat \<Rightarrow> u32 list list \<Rightarrow> u32 list list" where
  "status_set mode m st =
     status_put mode (m div 32) (status_word mode (m div 32) st OR push_bit (m mod 32) 1) st"

definition status_clear :: "nat \<Rightarrow> nat \<Rightarrow> u32 list list \<Rightarrow> u32 list list" where
  "status_clear mode m st =
     status_put mode (m div 32) (status_word mode (m div 32) st AND NOT (push_bit (m mod 32) 1)) st"

text \<open>The nested loop of both selections: the first mode whose row has a word that is not zero.\<close>

fun select_loop :: "u32 list list \<Rightarrow> u8 \<Rightarrow> nat list \<Rightarrow> u8" where
  "select_loop st dflt [] = dflt"
| "select_loop st dflt (index # is) =
     (if list_ex (\<lambda>len. status_word index len st \<noteq> 0) [0..<PM_STATUS_WORDS]
      then of_nat index else select_loop st dflt is)"

section \<open>Sleep requests\<close>

definition pm_sleep_request :: "u16 \<Rightarrow> u8 \<Rightarrow> 'e lpms_world \<Rightarrow> 'e lpms_world" where
  "pm_sleep_request module_id mode w =
    (if PM_MODULE_MAX \<le> unat module_id then w
     else if PM_SLEEP_MODE_MAX - 1 \<le> unat mode then w
     else let (level, w1) = pm_irq_disable w;
              w2 = upd_sys (\<lambda>s. s\<lparr>sleep_status :=
                     status_set (unat mode) (unat module_id) (sleep_status s)\<rparr>) w1
          in pm_irq_enable level w2)"

definition pm_idle_lock_request :: "u16 \<Rightarrow> 'e lpms_world \<Rightarrow> 'e lpms_world" where
  "pm_idle_lock_request module_id = pm_sleep_request module_id (sleep_val PM_SLEEP_IDLE)"

definition pm_sleep_release :: "u16 \<Rightarrow> u8 \<Rightarrow> 'e lpms_world \<Rightarrow> 'e lpms_world" where
  "pm_sleep_release module_id mode w =
    (if PM_MODULE_MAX \<le> unat module_id then w
     else if PM_SLEEP_MODE_MAX - 1 \<le> unat mode then w
     else let (level, w1) = pm_irq_disable w;
              w2 = upd_sys (\<lambda>s. s\<lparr>sleep_status :=
                     status_clear (unat mode) (unat module_id) (sleep_status s)\<rparr>) w1
          in pm_irq_enable level w2)"

definition pm_idle_lock_release :: "u16 \<Rightarrow> 'e lpms_world \<Rightarrow> 'e lpms_world" where
  "pm_idle_lock_release module_id = pm_sleep_release module_id (sleep_val PM_SLEEP_IDLE)"

definition select_sleep_mode :: "'e lpms_sys_t \<Rightarrow> u8" where
  "select_sleep_mode s =
     select_loop (sleep_status s) (sleep_val PM_SLEEP_DEEP) [0..<PM_SLEEP_MODE_MAX - 1]"

section \<open>Frequency requests\<close>

definition select_freq_mode :: "'e lpms_sys_t \<Rightarrow> u8" where
  "select_freq_mode s =
     select_loop (freq_status s) (freq_val PM_FREQ_LOW) [0..<PM_FREQ_MODE_MAX - 1]"

definition pm_freq_request :: "u16 \<Rightarrow> u8 \<Rightarrow> 'e lpms_world \<Rightarrow> 'e lpms_world" where
  "pm_freq_request module_id mode w =
    (if PM_MODULE_MAX \<le> unat module_id then w
     else if PM_FREQ_MODE_MAX - 1 \<le> unat mode then w
     else let (level, w1) = pm_irq_disable w;
              w2 = upd_sys (\<lambda>s. s\<lparr>freq_status :=
                     status_set (unat mode) (unat module_id) (freq_status s)\<rparr>) w1;
              w3 = (if mode < freq_mode (pm_sys w2)
                    then upd_sys (\<lambda>s. s\<lparr>freq_mode := mode\<rparr>) (pm_set_freq mode w2)
                    else w2)
          in pm_irq_enable level w3)"

definition pm_freq_release :: "u16 \<Rightarrow> u8 \<Rightarrow> 'e lpms_world \<Rightarrow> 'e lpms_world" where
  "pm_freq_release module_id mode w =
    (if PM_MODULE_MAX \<le> unat module_id then w
     else if PM_FREQ_MODE_MAX - 1 \<le> unat mode then w
     else let (level, w1) = pm_irq_disable w;
              w2 = upd_sys (\<lambda>s. s\<lparr>freq_status :=
                     status_clear (unat mode) (unat module_id) (freq_status s)\<rparr>) w1;
              w3 = upd_sys (\<lambda>s. s\<lparr>freq_flag := 1\<rparr>) w2
          in pm_irq_enable level w3)"

section \<open>Busy timeouts\<close>

definition pm_busy_set :: "u16 \<Rightarrow> u32 \<Rightarrow> 'e lpms_world \<Rightarrow> 'e lpms_world" where
  "pm_busy_set module_id ticks w =
    (if PM_BUSY_MODULE_MAX \<le> unat module_id then w
     else if ticks < 1 \<or> PM_TICK_MAX div 2 \<le> ticks then w
     else let (level, w1) = pm_irq_disable w;
              (now, w2) = pm_get_tick w1;
              w3 = upd_sys (\<lambda>s. s\<lparr>busy_timeout :=
                     (busy_timeout s)[unat module_id := now + ticks]\<rparr>) w2
          in pm_irq_enable level w3)"

definition pm_busy_clear :: "u16 \<Rightarrow> 'e lpms_world \<Rightarrow> 'e lpms_world" where
  "pm_busy_clear module_id w =
    (if PM_BUSY_MODULE_MAX \<le> unat module_id then w
     else let (level, w1) = pm_irq_disable w;
              w2 = upd_sys (\<lambda>s. s\<lparr>busy_timeout :=
                     (busy_timeout s)[unat module_id := 0]\<rparr>) w1
          in pm_irq_enable level w2)"

text \<open>The loop reads the tick anew for each module.\<close>

fun check_busy_loop :: "nat list \<Rightarrow> 'e lpms_world \<Rightarrow> u8 \<times> 'e lpms_world" where
  "check_busy_loop [] w = (PM_FLAG_IDLE, w)"
| "check_busy_loop (index # is) w =
    (let (now, w1) = pm_get_tick w
     in if now < busy_timeout (pm_sys w) ! index then (PM_FLAG_BUSY, w1)
        else check_busy_loop is w1)"

definition pm_check_busy :: "'e lpms_world \<Rightarrow> u8 \<times> 'e lpms_world" where
  "pm_check_busy = check_busy_loop [0..<PM_BUSY_MODULE_MAX]"

section \<open>Start-up, enabling, getters\<close>

definition lpms_init :: "'e lpms_ops option \<Rightarrow> u8 \<Rightarrow> 'e lpms_world \<Rightarrow> 'e lpms_world" where
  "lpms_init tab freq w =
    (if init_flag (pm_sys w) \<noteq> 0 then w
     else upd_sys (\<lambda>s. s\<lparr>init_flag := 1, enable_flag := 0,
            sleep_mode := sleep_val PM_SLEEP_DEEP, freq_mode := freq, ops := tab\<rparr>) w)"

definition lpms_enable :: "'e lpms_world \<Rightarrow> 'e lpms_world" where
  "lpms_enable = upd_sys (\<lambda>s. s\<lparr>enable_flag := 1\<rparr>)"

definition lpms_disable :: "'e lpms_world \<Rightarrow> 'e lpms_world" where
  "lpms_disable = upd_sys (\<lambda>s. s\<lparr>enable_flag := 0\<rparr>)"

definition pm_is_enabled :: "'e lpms_world \<Rightarrow> u8" where
  "pm_is_enabled w = enable_flag (pm_sys w)"

definition pm_get_sleep_mode :: "'e lpms_world \<Rightarrow> u8" where
  "pm_get_sleep_mode w = sleep_mode (pm_sys w)"

definition pm_get_freq_mode :: "'e lpms_world \<Rightarrow> u8" where
  "pm_get_freq_mode w = freq_mode (pm_sys w)"

section \<open>The frequency step of the idle run\<close>

definition pm_freq_handle :: "'e hook_code \<Rightarrow> 'e lpms_world \<Rightarrow> 'e lpms_world" where
  "pm_freq_handle hc w =
    (if freq_flag (pm_sys w) = 1
     then let w1 = upd_sys (\<lambda>s. s\<lparr>freq_flag := 0\<rparr>) w;
              mode = select_freq_mode (pm_sys w1)
          in if mode \<noteq> freq_mode (pm_sys w1)
             then let w2 = pm_set_freq mode w1;
                      w3 = upd_sys (\<lambda>s. s\<lparr>freq_mode := mode\<rparr>) w2
                  in lpms_notify_freq hc (freq_mode (pm_sys w3)) w3
             else w1
     else w)"

section \<open>The tickless run\<close>

text \<open>A cap on the chosen mode: \<^verbatim>\<open>if (cap < _pm_sys.sleep_mode) _pm_sys.sleep_mode = cap;\<close>\<close>

definition cap_sleep_mode :: "u8 \<Rightarrow> 'e lpms_world \<Rightarrow> 'e lpms_world" where
  "cap_sleep_mode cap w =
    (if cap < sleep_mode (pm_sys w) then upd_sys (\<lambda>s. s\<lparr>sleep_mode := cap\<rparr>) w else w)"

text \<open>Choose the mode: the requests, then the busy check, then the next system timer.\<close>

definition tickless_decide :: "'e lpms_world \<Rightarrow> 'e lpms_world" where
  "tickless_decide w =
    (let w1 = upd_sys (\<lambda>s. s\<lparr>sleep_mode := select_sleep_mode s\<rparr>) w;
         (busy, w2) = pm_check_busy w1;
         w3 = (if busy = PM_FLAG_BUSY then cap_sleep_mode LPMS_DEFAULT_BUSY_SLEEP_MODE w2 else w2);
         (timeout_tick, w4) = pm_next_timeout w3;
         (now, w5) = pm_get_tick w4
     in if timeout_tick - now \<le> LPMS_TICKLESS_THRESHOLD_TIME
        then cap_sleep_mode LPMS_TICKLESS_THRESHOLD_MODE w5 else w5)"

text \<open>Start the low-power timer for the modes that stop the system tick.\<close>

definition tickless_arm :: "'e lpms_world \<Rightarrow> bool \<times> 'e lpms_world" where
  "tickless_arm w =
    (if LPMS_TICKLESS_DEFAULT_MODE \<le> sleep_mode (pm_sys w)
     then let (timeout_tick, w1) = lptimer_next_timeout w;
              (now, w2) = pm_get_tick w1
          in (True, lptimer_start (timeout_tick - now) w2)
     else (False, w))"

text \<open>After wake-up: read how long the timer ran, stop it, and move the system tick on.\<close>

definition tickless_compensate :: "bool \<Rightarrow> 'e lpms_world \<Rightarrow> 'e lpms_world" where
  "tickless_compensate lptim_flag w =
    (if LPMS_TICKLESS_DEFAULT_MODE \<le> sleep_mode (pm_sys w) \<and> lptim_flag
     then let (delta_tick, w1) = lptimer_get_timeout w;
              w2 = lptimer_stop w1;
              (now, w3) = pm_get_tick w2
          in pm_set_tick (now + delta_tick) w3
     else w)"

definition pm_run_tickless :: "'e hook_code \<Rightarrow> 'e lpms_world \<Rightarrow> 'e lpms_world" where
  "pm_run_tickless hc w =
    (if pm_is_enabled w = 0 then w
     else let (level, w1) = pm_irq_disable w;
              w2 = tickless_decide w1;
              (lptim_flag, w3) = tickless_arm w2;
              w4 = lpms_notify_sleep hc (sleep_mode (pm_sys w3)) w3;
              w5 = pm_sleep (sleep_mode (pm_sys w4)) w4;
              w6 = lpms_notify_wakeup hc (sleep_mode (pm_sys w5)) w5;
              w7 = tickless_compensate lptim_flag w6;
              w8 = pm_freq_handle hc w7
          in pm_irq_enable level w8)"

section \<open>The dumps\<close>

text \<open>
  What a dump prints: each \<^verbatim>\<open>PM_PRINT\<close> as its format and its arguments. The
  newline that ends every format is left out.
\<close>

datatype pm_line = PM_PRINT string "u32 list"

definition sleep_mode_rows :: "u32 list list \<Rightarrow> nat \<Rightarrow> pm_line list" where
  "sleep_mode_rows st n =
    concat (map (\<lambda>index. map (\<lambda>len. PM_PRINT ''| Mode[%d] : %d |  0x%08x  |''
        [of_nat index, of_nat len, status_word index len st]) [0..<PM_STATUS_WORDS]) [0..<n])"

definition pm_sleep_mode_dump :: "'e lpms_world \<Rightarrow> pm_line list" where
  "pm_sleep_mode_dump w =
    [PM_PRINT ''+-------------+--------------+'' [],
     PM_PRINT ''| Sleep Mode  |    Value     |'' [],
     PM_PRINT ''+-------------+--------------+'' []] @
    sleep_mode_rows (sleep_status (pm_sys w)) (PM_SLEEP_MODE_MAX - 1) @
    [PM_PRINT ''+-------------+--------------+'' []]"

definition pm_freq_mode_dump :: "'e lpms_world \<Rightarrow> pm_line list" where
  "pm_freq_mode_dump w =
    [PM_PRINT ''+-------------+--------------+'' [],
     PM_PRINT ''|  Freq Mode  |    Value     |'' [],
     PM_PRINT ''+-------------+--------------+'' []] @
    sleep_mode_rows (freq_status (pm_sys w)) (PM_FREQ_MODE_MAX - 1) @
    [PM_PRINT ''+-------------+--------------+'' []]"

fun busy_dump_loop :: "nat list \<Rightarrow> 'e lpms_world \<Rightarrow> pm_line list \<times> 'e lpms_world" where
  "busy_dump_loop [] w = ([], w)"
| "busy_dump_loop (index # is) w =
    (let t = busy_timeout (pm_sys w) ! index;
         (now, w1) = pm_get_tick w
     in if now < t
        then let (now2, w2) = pm_get_tick w1;
                 (rest, w3) = busy_dump_loop is w2
             in (PM_PRINT ''|  %3d        |  0x%08x  |'' [of_nat index, t - now2] # rest, w3)
        else busy_dump_loop is w1)"

definition pm_busy_mode_dump :: "'e lpms_world \<Rightarrow> pm_line list \<times> 'e lpms_world" where
  "pm_busy_mode_dump w =
    (let (rows, w1) = busy_dump_loop [0..<PM_BUSY_MODULE_MAX] w
     in ([PM_PRINT ''+-------------+--------------+'' [],
          PM_PRINT ''|  module_id  | remain ticks |'' [],
          PM_PRINT ''+-------------+--------------+'' []] @ rows @
         [PM_PRINT ''+-------------+--------------+'' []], w1))"

end
