(* ===== verification/Kernel.thy ===== *)
theory Kernel
  imports Hook_Table
begin

text \<open>
  The part of the RT-Thread kernel the power management rests on: the interrupt mask
  (\<^verbatim>\<open>context_gcc.S\<close>), interrupt nesting (\<^verbatim>\<open>irq.c\<close>), the system
  tick (\<^verbatim>\<open>clock.c\<close>) and kernel objects (\<^verbatim>\<open>object.c\<close>), for the
  configuration of \<^verbatim>\<open>stm32l475_lpms/rtconfig.h\<close> (one core, hooks on, heap on,
  no modules).

  The state is an extensible record, so that the board adds its devices to it. Code behind
  function pointers is the parameter \<open>code\<close>: the effect on the state of calling
  the pointer with an argument. An assertion that fails stops the system in
  \<^verbatim>\<open>rt_assert_handler\<close>; the operation then returns \<open>None\<close>.
\<close>

section \<open>State\<close>

record rt_object =
  ob_name :: string
  ob_type :: u8

record rt_timer =
  tm_flag :: u8
  timeout_func :: fptr
  tm_param :: nat
  init_tick :: u32
  timeout_tick :: u32

text \<open>
  A thread. Its name and type are those of its object; its list node is in at most one list;
  the embedded timer is a timer at an address of its own. \<open>stack_low\<close> is the lowest byte of the stack.
\<close>

record rt_thread =
  th_sp :: nat
  th_entry :: fptr
  th_parameter :: nat
  stack_addr :: nat
  stack_size :: u32
  stack_low :: u8
  th_error :: rt_err
  th_stat :: u8
  current_priority :: u8
  init_priority :: u8
  number_mask :: u32
  event_set :: u32
  event_info :: u8
  th_init_tick :: u32
  remaining_tick :: u32
  th_cleanup :: "fptr option"
  user_data :: nat

record kernel =
  primask :: u32
  rt_interrupt_nest :: u8
  rt_interrupt_enter_hook :: "fptr option"
  rt_interrupt_leave_hook :: "fptr option"
  rt_tick :: u32
  objects :: "nat \<Rightarrow> rt_object option"
  object_container :: "u8 \<Rightarrow> nat list"
  rt_object_attach_hook :: "fptr option"
  rt_object_detach_hook :: "fptr option"
  rt_object_trytake_hook :: "fptr option"
  rt_object_take_hook :: "fptr option"
  rt_object_put_hook :: "fptr option"
  timers :: "nat \<Rightarrow> rt_timer option"
  timer_list :: "nat list"
  check_lists :: "nat list list"
  random_nr :: u32
  rt_timer_enter_hook :: "fptr option"
  rt_timer_exit_hook :: "fptr option"
  idle_hook_list :: "fptr option list"
  threads :: "nat \<Rightarrow> rt_thread option"
  rt_thread_defunct :: "nat list"
  heap_freed :: "nat list"

type_synonym 'x kcode = "fptr \<Rightarrow> nat \<Rightarrow> 'x kernel_scheme \<Rightarrow> 'x kernel_scheme"

text \<open>\<^verbatim>\<open>RT_OBJECT_HOOK_CALL\<close>\<close>

definition rt_object_hook_call :: "'x kcode \<Rightarrow> fptr option \<Rightarrow> nat \<Rightarrow> 'x kernel_scheme \<Rightarrow> 'x kernel_scheme" where
  "rt_object_hook_call code hook arg k = (case hook of None \<Rightarrow> k | Some f \<Rightarrow> code f arg k)"

lemma hook_call_None [simp]: "rt_object_hook_call code None arg k = k"
  by (simp add: rt_object_hook_call_def)

definition RT_ASSERT :: "bool \<Rightarrow> unit option" where
  "RT_ASSERT b = (if b then Some () else None)"

lemma RT_ASSERT_bind [simp]: "Option.bind (RT_ASSERT b) f = (if b then f () else None)"
  by (simp add: RT_ASSERT_def)

text \<open>The kernel as the BSS leaves it.\<close>

definition kernel_zero :: kernel where
  "kernel_zero = \<lparr>primask = 0, rt_interrupt_nest = 0, rt_interrupt_enter_hook = None,
     rt_interrupt_leave_hook = None, rt_tick = 0, objects = (\<lambda>_. None),
     object_container = (\<lambda>_. []), rt_object_attach_hook = None, rt_object_detach_hook = None,
     rt_object_trytake_hook = None, rt_object_take_hook = None, rt_object_put_hook = None,
     timers = (\<lambda>_. None), timer_list = [], check_lists = [], random_nr = 0,
     rt_timer_enter_hook = None, rt_timer_exit_hook = None,
     idle_hook_list = replicate 4 None, threads = (\<lambda>_. None), rt_thread_defunct = [],
     heap_freed = []\<rparr>"

definition thread_zero :: rt_thread where
  "thread_zero = \<lparr>th_sp = 0, th_entry = 0, th_parameter = 0, stack_addr = 0, stack_size = 0,
     stack_low = 0, th_error = 0, th_stat = 0, current_priority = 0, init_priority = 0,
     number_mask = 0, event_set = 0, event_info = 0, th_init_tick = 0, remaining_tick = 0,
     th_cleanup = None, user_data = 0\<rparr>"

text \<open>Code that leaves the kernel's own state alone and acts on the rest of the system only.\<close>

definition quiet :: "'x kcode \<Rightarrow> (fptr \<Rightarrow> nat \<Rightarrow> 'x \<Rightarrow> 'x) \<Rightarrow> bool" where
  "quiet code g \<longleftrightarrow> (\<forall>f p k. code f p k = kernel.more_update (g f p) k)"

section \<open>The interrupt mask\<close>

text \<open>\<^verbatim>\<open>MRS r0, PRIMASK; CPSID I\<close> and \<^verbatim>\<open>MSR PRIMASK, r0\<close>.\<close>

definition rt_hw_interrupt_disable :: "'x kernel_scheme \<Rightarrow> u32 \<times> 'x kernel_scheme" where
  "rt_hw_interrupt_disable k = (primask k, k\<lparr>primask := 1\<rparr>)"

definition rt_hw_interrupt_enable :: "u32 \<Rightarrow> 'x kernel_scheme \<Rightarrow> 'x kernel_scheme" where
  "rt_hw_interrupt_enable level k = k\<lparr>primask := level\<rparr>"

text \<open>
  The interface of an interrupt lock, as every critical section uses it: the level that
  disable returns brings the old mask back, whatever the section did in between.
\<close>

locale irq_lock =
  fixes mask :: "'k \<Rightarrow> u32"
    and disable :: "'k \<Rightarrow> u32 \<times> 'k"
    and enable :: "u32 \<Rightarrow> 'k \<Rightarrow> 'k"
  assumes disable_level: "fst (disable k) = mask k"
    and disable_masks: "mask (snd (disable k)) = 1"
    and enable_mask: "mask (enable l k) = l"
    and enable_undoes: "enable (mask k) (snd (disable k)) = k"
begin

definition section_of :: "('k \<Rightarrow> 'k) \<Rightarrow> 'k \<Rightarrow> 'k" where
  "section_of body k = enable (fst (disable k)) (body (snd (disable k)))"

lemma section_restores_mask: "mask (section_of body k) = mask k"
  by (simp add: section_of_def enable_mask disable_level)

lemma section_body_masked: "mask (snd (disable k)) = 1"
  by (rule disable_masks)

lemma nested_sections:
  "mask (section_of (section_of body) k) = mask k \<and> mask (section_of body (snd (disable k))) = 1"
  by (simp add: section_restores_mask disable_masks)

lemma empty_section: "section_of (\<lambda>k. k) k = k"
  by (simp add: section_of_def disable_level enable_undoes)

end

interpretation irq: irq_lock "primask :: 'x kernel_scheme \<Rightarrow> u32"
  rt_hw_interrupt_disable rt_hw_interrupt_enable
  by unfold_locales (simp_all add: rt_hw_interrupt_disable_def rt_hw_interrupt_enable_def)

lemmas irq_defs = rt_hw_interrupt_disable_def rt_hw_interrupt_enable_def

section \<open>irq.c\<close>

definition rt_interrupt_enter_sethook :: "fptr option \<Rightarrow> 'x kernel_scheme \<Rightarrow> 'x kernel_scheme" where
  "rt_interrupt_enter_sethook hook k = k\<lparr>rt_interrupt_enter_hook := hook\<rparr>"

definition rt_interrupt_leave_sethook :: "fptr option \<Rightarrow> 'x kernel_scheme \<Rightarrow> 'x kernel_scheme" where
  "rt_interrupt_leave_sethook hook k = k\<lparr>rt_interrupt_leave_hook := hook\<rparr>"

definition rt_interrupt_enter :: "'x kcode \<Rightarrow> 'x kernel_scheme \<Rightarrow> 'x kernel_scheme" where
  "rt_interrupt_enter code k =
    (let (level, k1) = rt_hw_interrupt_disable k;
         k2 = k1\<lparr>rt_interrupt_nest := rt_interrupt_nest k1 + 1\<rparr>;
         k3 = rt_object_hook_call code (rt_interrupt_enter_hook k2) 0 k2
     in rt_hw_interrupt_enable level k3)"

definition rt_interrupt_leave :: "'x kcode \<Rightarrow> 'x kernel_scheme \<Rightarrow> 'x kernel_scheme" where
  "rt_interrupt_leave code k =
    (let (level, k1) = rt_hw_interrupt_disable k;
         k2 = rt_object_hook_call code (rt_interrupt_leave_hook k1) 0 k1;
         k3 = k2\<lparr>rt_interrupt_nest := rt_interrupt_nest k2 - 1\<rparr>
     in rt_hw_interrupt_enable level k3)"

definition rt_interrupt_get_nest :: "'x kernel_scheme \<Rightarrow> u8 \<times> 'x kernel_scheme" where
  "rt_interrupt_get_nest k =
    (let (level, k1) = rt_hw_interrupt_disable k;
         ret = rt_interrupt_nest k1
     in (ret, rt_hw_interrupt_enable level k1))"

section \<open>clock.c\<close>

abbreviation RT_TICK_PER_SECOND :: nat where "RT_TICK_PER_SECOND \<equiv> 1000"

definition rt_tick_get :: "'x kernel_scheme \<Rightarrow> u32" where
  "rt_tick_get k = rt_tick k"

definition rt_tick_set :: "u32 \<Rightarrow> 'x kernel_scheme \<Rightarrow> 'x kernel_scheme" where
  "rt_tick_set tick k =
    (let (level, k1) = rt_hw_interrupt_disable k;
         k2 = k1\<lparr>rt_tick := tick\<rparr>
     in rt_hw_interrupt_enable level k2)"

text \<open>
  \<^verbatim>\<open>ms\<close> is an \<^verbatim>\<open>rt_int32_t\<close>; its products stay below \<open>2\<^sup>3\<^sup>1\<close>, and
  division truncates, which for values that are not negative is \<open>div\<close>.
\<close>

definition rt_tick_from_millisecond :: "int \<Rightarrow> u32" where
  "rt_tick_from_millisecond ms =
    (if ms < 0 then of_int (- 1)
     else of_int (int RT_TICK_PER_SECOND * (ms div 1000)) +
          of_int ((int RT_TICK_PER_SECOND * (ms mod 1000) + 999) div 1000))"

text \<open>\<^verbatim>\<open>1000 % RT_TICK_PER_SECOND == 0\<close> holds for this configuration.\<close>

definition rt_tick_get_millisecond :: "'x kernel_scheme \<Rightarrow> u32" where
  "rt_tick_get_millisecond k = rt_tick_get k * of_nat (1000 div RT_TICK_PER_SECOND)"

lemma rt_tick_set_eq [simp]: "rt_tick_set t k = k\<lparr>rt_tick := t\<rparr>"
  by (simp add: rt_tick_set_def irq_defs)

end
