(* ===== verification/Object.thy ===== *)
theory Object
  imports Kernel
begin

text \<open>
  \<^verbatim>\<open>object.c\<close>: the containers of kernel objects, one list for each class. An
  object is known by its address. \<^verbatim>\<open>rt_enter_critical\<close> and
  \<^verbatim>\<open>rt_exit_critical\<close> lock the scheduler; an operation is one step here, so they
  have no counterpart.
\<close>

section \<open>Classes\<close>

datatype rt_object_class_type =
    RT_Object_Class_Thread | RT_Object_Class_Semaphore | RT_Object_Class_Mutex
  | RT_Object_Class_Event | RT_Object_Class_MailBox | RT_Object_Class_MessageQueue
  | RT_Object_Class_MemPool | RT_Object_Class_Device | RT_Object_Class_Timer

fun class_val :: "rt_object_class_type \<Rightarrow> u8" where
  "class_val RT_Object_Class_Thread = 0x01"
| "class_val RT_Object_Class_Semaphore = 0x02"
| "class_val RT_Object_Class_Mutex = 0x03"
| "class_val RT_Object_Class_Event = 0x04"
| "class_val RT_Object_Class_MailBox = 0x05"
| "class_val RT_Object_Class_MessageQueue = 0x06"
| "class_val RT_Object_Class_MemPool = 0x08"
| "class_val RT_Object_Class_Device = 0x09"
| "class_val RT_Object_Class_Timer = 0x0a"

abbreviation RT_Object_Class_Static :: u8 where "RT_Object_Class_Static \<equiv> 0x80"
abbreviation RT_NAME_MAX :: nat where "RT_NAME_MAX \<equiv> 8"

text \<open>The rows of \<^verbatim>\<open>_object_container\<close> that this configuration has.\<close>

definition object_container_types :: "u8 list" where
  "object_container_types = map class_val
     [RT_Object_Class_Thread, RT_Object_Class_Semaphore, RT_Object_Class_Mutex,
      RT_Object_Class_Event, RT_Object_Class_MailBox, RT_Object_Class_MessageQueue,
      RT_Object_Class_MemPool, RT_Object_Class_Device, RT_Object_Class_Timer]"

text \<open>A container is named by its type; \<open>None\<close> is the null pointer.\<close>

definition rt_object_get_information :: "u8 \<Rightarrow> u8 option" where
  "rt_object_get_information type =
    map_option (\<lambda>i. object_container_types ! i) (first_index (\<lambda>t. t = type) object_container_types)"

text \<open>The bytes of a name that \<^verbatim>\<open>rt_strncpy\<close> copies, \<^verbatim>\<open>RT_NAME_MAX\<close> at most.\<close>

definition name_field :: "string \<Rightarrow> string" where
  "name_field name = take RT_NAME_MAX name"

section \<open>Hooks\<close>

definition rt_object_attach_sethook :: "fptr option \<Rightarrow> 'x kernel_scheme \<Rightarrow> 'x kernel_scheme" where
  "rt_object_attach_sethook hook k = k\<lparr>rt_object_attach_hook := hook\<rparr>"

definition rt_object_detach_sethook :: "fptr option \<Rightarrow> 'x kernel_scheme \<Rightarrow> 'x kernel_scheme" where
  "rt_object_detach_sethook hook k = k\<lparr>rt_object_detach_hook := hook\<rparr>"

definition rt_object_trytake_sethook :: "fptr option \<Rightarrow> 'x kernel_scheme \<Rightarrow> 'x kernel_scheme" where
  "rt_object_trytake_sethook hook k = k\<lparr>rt_object_trytake_hook := hook\<rparr>"

definition rt_object_take_sethook :: "fptr option \<Rightarrow> 'x kernel_scheme \<Rightarrow> 'x kernel_scheme" where
  "rt_object_take_sethook hook k = k\<lparr>rt_object_take_hook := hook\<rparr>"

definition rt_object_put_sethook :: "fptr option \<Rightarrow> 'x kernel_scheme \<Rightarrow> 'x kernel_scheme" where
  "rt_object_put_sethook hook k = k\<lparr>rt_object_put_hook := hook\<rparr>"

section \<open>Containers\<close>

definition rt_object_get_length :: "u8 \<Rightarrow> 'x kernel_scheme \<Rightarrow> nat" where
  "rt_object_get_length type k = (case rt_object_get_information type of
     None \<Rightarrow> 0 | Some c \<Rightarrow> length (object_container k c))"

definition rt_object_get_pointers :: "u8 \<Rightarrow> int \<Rightarrow> 'x kernel_scheme \<Rightarrow> nat list" where
  "rt_object_get_pointers type maxlen k =
    (if maxlen \<le> 0 then [] else (case rt_object_get_information type of
       None \<Rightarrow> [] | Some c \<Rightarrow> take (nat maxlen) (object_container k c)))"

text \<open>\<^verbatim>\<open>rt_list_insert_after\<close> at the head puts the newest object first.\<close>

definition object_link :: "u8 \<Rightarrow> nat \<Rightarrow> 'x kernel_scheme \<Rightarrow> 'x kernel_scheme" where
  "object_link c ob k =
    k\<lparr>object_container := (object_container k)(c := ob # object_container k c)\<rparr>"

text \<open>\<^verbatim>\<open>rt_list_remove\<close>: the node leaves whichever container holds it.\<close>

definition object_unlink :: "nat \<Rightarrow> 'x kernel_scheme \<Rightarrow> 'x kernel_scheme" where
  "object_unlink ob k = k\<lparr>object_container := (\<lambda>c. remove1 ob (object_container k c))\<rparr>"

definition rt_object_init :: "'x kcode \<Rightarrow> nat \<Rightarrow> u8 \<Rightarrow> string \<Rightarrow> 'x kernel_scheme \<Rightarrow> 'x kernel_scheme option" where
  "rt_object_init code ob type name k = (case rt_object_get_information type of
     None \<Rightarrow> None
   | Some c \<Rightarrow>
       if ob \<in> set (object_container k c) then None
       else let k1 = k\<lparr>objects := (objects k)(ob \<mapsto>
                     \<lparr>ob_name = name_field name, ob_type = type OR RT_Object_Class_Static\<rparr>)\<rparr>;
                k2 = rt_object_hook_call code (rt_object_attach_hook k1) ob k1;
                (level, k3) = rt_hw_interrupt_disable k2;
                k4 = object_link c ob k3
            in Some (rt_hw_interrupt_enable level k4))"

text \<open>A write to the type field; the object has no memory when its address is unknown.\<close>

definition set_object_type :: "u8 \<Rightarrow> nat \<Rightarrow> 'x kernel_scheme \<Rightarrow> 'x kernel_scheme" where
  "set_object_type ty ob k =
    k\<lparr>objects := (objects k)(ob := map_option (\<lambda>o1. o1\<lparr>ob_type := ty\<rparr>) (objects k ob))\<rparr>"

definition rt_object_detach :: "'x kcode \<Rightarrow> nat \<Rightarrow> 'x kernel_scheme \<Rightarrow> 'x kernel_scheme" where
  "rt_object_detach code ob k =
    (let k1 = rt_object_hook_call code (rt_object_detach_hook k) ob k;
         k2 = set_object_type 0 ob k1;
         (level, k3) = rt_hw_interrupt_disable k2;
         k4 = object_unlink ob k3
     in rt_hw_interrupt_enable level k4)"

text \<open>
  \<open>mem\<close> is what \<^verbatim>\<open>RT_KERNEL_MALLOC\<close> returns. The check that no interrupt
  is running comes first. The new object's address is returned, or null.
\<close>

definition rt_object_allocate :: "'x kcode \<Rightarrow> nat option \<Rightarrow> u8 \<Rightarrow> string \<Rightarrow> 'x kernel_scheme \<Rightarrow>
    (nat option \<times> 'x kernel_scheme) option" where
  "rt_object_allocate code mem type name k =
    (if rt_interrupt_nest k \<noteq> 0 then None
     else (case rt_object_get_information type of
       None \<Rightarrow> None
     | Some c \<Rightarrow> (case mem of
         None \<Rightarrow> Some (None, k)
       | Some ob \<Rightarrow>
           let k1 = k\<lparr>objects := (objects k)(ob \<mapsto> \<lparr>ob_name = name_field name, ob_type = type\<rparr>)\<rparr>;
               k2 = rt_object_hook_call code (rt_object_attach_hook k1) ob k1;
               (level, k3) = rt_hw_interrupt_disable k2;
               k4 = object_link c ob k3
           in Some (Some ob, rt_hw_interrupt_enable level k4))))"

definition rt_object_is_systemobject :: "nat \<Rightarrow> 'x kernel_scheme \<Rightarrow> bool option" where
  "rt_object_is_systemobject ob k =
    map_option (\<lambda>o1. ob_type o1 AND RT_Object_Class_Static \<noteq> 0) (objects k ob)"

definition rt_object_get_type :: "nat \<Rightarrow> 'x kernel_scheme \<Rightarrow> u8 option" where
  "rt_object_get_type ob k =
    map_option (\<lambda>o1. ob_type o1 AND NOT RT_Object_Class_Static) (objects k ob)"

text \<open>Deleting frees the memory: the address is unknown afterwards.\<close>

definition rt_object_delete :: "'x kcode \<Rightarrow> nat \<Rightarrow> 'x kernel_scheme \<Rightarrow> 'x kernel_scheme option" where
  "rt_object_delete code ob k =
    (if rt_object_is_systemobject ob k \<noteq> Some False then None
     else let k1 = rt_object_hook_call code (rt_object_detach_hook k) ob k;
              k2 = set_object_type 0 ob k1;
              (level, k3) = rt_hw_interrupt_disable k2;
              k4 = object_unlink ob k3;
              k5 = rt_hw_interrupt_enable level k4
          in Some (k5\<lparr>objects := (objects k5)(ob := None)\<rparr>))"

text \<open>
  The search compares at most \<^verbatim>\<open>RT_NAME_MAX\<close> bytes, as \<^verbatim>\<open>rt_strncmp\<close>
  does. \<open>name\<close> is null when \<open>None\<close>.
\<close>

fun find_by_name :: "(nat \<Rightarrow> rt_object option) \<Rightarrow> string \<Rightarrow> nat list \<Rightarrow> nat option" where
  "find_by_name obs name [] = None"
| "find_by_name obs name (ob # rest) =
    (if map_option ob_name (obs ob) = Some (name_field name) then Some ob
     else find_by_name obs name rest)"

definition rt_object_find :: "string option \<Rightarrow> u8 \<Rightarrow> 'x kernel_scheme \<Rightarrow> nat option option" where
  "rt_object_find name type k = (case (name, rt_object_get_information type) of
     (Some n, Some c) \<Rightarrow>
       if rt_interrupt_nest k \<noteq> 0 then None
       else Some (find_by_name (objects k) n (object_container k c))
   | _ \<Rightarrow> Some None)"

end
