(* ===== verification/Timer.thy ===== *)
theory Timer
  imports Object
begin

text \<open>
  \<^verbatim>\<open>timer.c\<close> in the configuration of \<^verbatim>\<open>rtconfig.h\<close>: hard timers only,
  \<^verbatim>\<open>RT_TIMER_SKIP_LIST_LEVEL\<close> = 1. The circular list \<^verbatim>\<open>_timer_list[0]\<close> is
  the list of the addresses of its timers in link order. The list head that
  \<^verbatim>\<open>rt_timer_check\<close> keeps on its stack is the first element of
  \<open>check_lists\<close>; a nested check has a head of its own. A timer's node is in at most
  one list, and \<^verbatim>\<open>rt_list_remove\<close> takes it out of whichever holds it.
\<close>

abbreviation RT_TIMER_FLAG_DEACTIVATED :: u8 where "RT_TIMER_FLAG_DEACTIVATED \<equiv> 0"
abbreviation RT_TIMER_FLAG_ACTIVATED :: u8 where "RT_TIMER_FLAG_ACTIVATED \<equiv> 1"
abbreviation RT_TIMER_FLAG_PERIODIC :: u8 where "RT_TIMER_FLAG_PERIODIC \<equiv> 2"

abbreviation TICK_HALF :: u32 where "TICK_HALF \<equiv> RT_TICK_MAX div 2"

definition rt_timer_enter_sethook :: "fptr option \<Rightarrow> 'x kernel_scheme \<Rightarrow> 'x kernel_scheme" where
  "rt_timer_enter_sethook hook k = k\<lparr>rt_timer_enter_hook := hook\<rparr>"

definition rt_timer_exit_sethook :: "fptr option \<Rightarrow> 'x kernel_scheme \<Rightarrow> 'x kernel_scheme" where
  "rt_timer_exit_sethook hook k = k\<lparr>rt_timer_exit_hook := hook\<rparr>"

section \<open>Access to one timer\<close>

definition upd_timer :: "nat \<Rightarrow> (rt_timer \<Rightarrow> rt_timer) \<Rightarrow> 'x kernel_scheme \<Rightarrow> 'x kernel_scheme" where
  "upd_timer t f k = k\<lparr>timers := (timers k)(t := map_option f (timers k t))\<rparr>"

definition flag_or :: "u8 \<Rightarrow> rt_timer \<Rightarrow> rt_timer" where
  "flag_or m tm = tm\<lparr>tm_flag := tm_flag tm OR m\<rparr>"

definition flag_clear :: "u8 \<Rightarrow> rt_timer \<Rightarrow> rt_timer" where
  "flag_clear m tm = tm\<lparr>tm_flag := tm_flag tm AND NOT m\<rparr>"

definition flag_has :: "u8 \<Rightarrow> rt_timer \<Rightarrow> bool" where
  "flag_has m tm \<longleftrightarrow> tm_flag tm AND m \<noteq> 0"

text \<open>\<^verbatim>\<open>RT_ASSERT(rt_object_get_type(&timer->parent) == RT_Object_Class_Timer)\<close>\<close>

definition is_timer :: "nat \<Rightarrow> 'x kernel_scheme \<Rightarrow> bool" where
  "is_timer t k \<longleftrightarrow> rt_object_get_type t k = Some (class_val RT_Object_Class_Timer)"

definition timer_remove :: "nat \<Rightarrow> 'x kernel_scheme \<Rightarrow> 'x kernel_scheme" where
  "timer_remove t k = k\<lparr>timer_list := remove1 t (timer_list k),
                         check_lists := map (remove1 t) (check_lists k)\<rparr>"

definition timer_init :: "nat \<Rightarrow> fptr \<Rightarrow> nat \<Rightarrow> u32 \<Rightarrow> u8 \<Rightarrow> 'x kernel_scheme \<Rightarrow> 'x kernel_scheme" where
  "timer_init t tfunc param time flag k =
     k\<lparr>timers := (timers k)(t \<mapsto> \<lparr>tm_flag = flag AND NOT RT_TIMER_FLAG_ACTIVATED,
        timeout_func = tfunc, tm_param = param, init_tick = time, timeout_tick = 0\<rparr>)\<rparr>"

definition timer_list_next_timeout :: "'x kernel_scheme \<Rightarrow> u32 \<times> 'x kernel_scheme" where
  "timer_list_next_timeout k =
    (let (level, k1) = rt_hw_interrupt_disable k;
         tick = (case timer_list k1 of
                   [] \<Rightarrow> RT_TICK_MAX
                 | t # _ \<Rightarrow> (case timers k1 t of None \<Rightarrow> RT_TICK_MAX | Some tm \<Rightarrow> timeout_tick tm))
     in (tick, rt_hw_interrupt_enable level k1))"

section \<open>Creation and deletion\<close>

definition rt_timer_init :: "'x kcode \<Rightarrow> nat \<Rightarrow> string \<Rightarrow> fptr \<Rightarrow> nat \<Rightarrow> u32 \<Rightarrow> u8 \<Rightarrow>
    'x kernel_scheme \<Rightarrow> 'x kernel_scheme option" where
  "rt_timer_init code t name tfunc param time flag k =
    (case rt_object_init code t (class_val RT_Object_Class_Timer) name k of
       None \<Rightarrow> None
     | Some k1 \<Rightarrow> Some (timer_init t tfunc param time flag k1))"

definition rt_timer_detach :: "'x kcode \<Rightarrow> nat \<Rightarrow> 'x kernel_scheme \<Rightarrow> (rt_err \<times> 'x kernel_scheme) option" where
  "rt_timer_detach code t k =
    (if \<not> is_timer t k then None
     else if rt_object_is_systemobject t k \<noteq> Some True then None
     else let (level, k1) = rt_hw_interrupt_disable k;
              k2 = timer_remove t k1;
              k3 = upd_timer t (flag_clear RT_TIMER_FLAG_ACTIVATED) k2;
              k4 = rt_hw_interrupt_enable level k3
          in Some (RT_EOK, rt_object_detach code t k4))"

definition rt_timer_create :: "'x kcode \<Rightarrow> nat option \<Rightarrow> string \<Rightarrow> fptr \<Rightarrow> nat \<Rightarrow> u32 \<Rightarrow> u8 \<Rightarrow>
    'x kernel_scheme \<Rightarrow> (nat option \<times> 'x kernel_scheme) option" where
  "rt_timer_create code mem name tfunc param time flag k =
    (case rt_object_allocate code mem (class_val RT_Object_Class_Timer) name k of
       None \<Rightarrow> None
     | Some (None, k1) \<Rightarrow> Some (None, k1)
     | Some (Some t, k1) \<Rightarrow> Some (Some t, timer_init t tfunc param time flag k1))"

definition rt_timer_delete :: "'x kcode \<Rightarrow> nat \<Rightarrow> 'x kernel_scheme \<Rightarrow> (rt_err \<times> 'x kernel_scheme) option" where
  "rt_timer_delete code t k =
    (if \<not> is_timer t k then None
     else if rt_object_is_systemobject t k \<noteq> Some False then None
     else let (level, k1) = rt_hw_interrupt_disable k;
              k2 = timer_remove t k1;
              k3 = upd_timer t (flag_clear RT_TIMER_FLAG_ACTIVATED) k2;
              k4 = rt_hw_interrupt_enable level k3
          in (case rt_object_delete code t k4 of
                None \<Rightarrow> None
              | Some k5 \<Rightarrow> Some (RT_EOK, k5\<lparr>timers := (timers k5)(t := None)\<rparr>)))"

section \<open>Start and stop\<close>

text \<open>
  The walk of \<^verbatim>\<open>rt_timer_start\<close> over row 0: it passes timers with the same timeout and
  those whose difference to the new one is not below half the tick range, and links the
  new timer before the first other one.
\<close>

fun timer_insert :: "(nat \<Rightarrow> u32) \<Rightarrow> u32 \<Rightarrow> nat \<Rightarrow> nat list \<Rightarrow> nat list" where
  "timer_insert tick new t [] = [t]"
| "timer_insert tick new t (p # rest) =
    (if tick p - new = 0 then p # timer_insert tick new t rest
     else if tick p - new < TICK_HALF then t # p # rest
     else p # timer_insert tick new t rest)"

text \<open>The timeout tick of a timer in memory.\<close>

definition tick_of :: "'x kernel_scheme \<Rightarrow> nat \<Rightarrow> u32" where
  "tick_of k t = (case timers k t of None \<Rightarrow> 0 | Some tm \<Rightarrow> timeout_tick tm)"

definition timer_link :: "u32 \<Rightarrow> nat \<Rightarrow> 'x kernel_scheme \<Rightarrow> 'x kernel_scheme" where
  "timer_link new t k =
    (let k1 = k\<lparr>random_nr := random_nr k + 1\<rparr>
     in k1\<lparr>timer_list := timer_insert (tick_of k1) new t (timer_list k1)\<rparr>)"

definition rt_timer_start :: "'x kcode \<Rightarrow> nat \<Rightarrow> 'x kernel_scheme \<Rightarrow> (rt_err \<times> 'x kernel_scheme) option" where
  "rt_timer_start code t k =
    (if \<not> is_timer t k then None
     else let (level, k1) = rt_hw_interrupt_disable k;
              k2 = timer_remove t k1;
              k3 = upd_timer t (flag_clear RT_TIMER_FLAG_ACTIVATED) k2;
              k4 = rt_object_hook_call code (rt_object_take_hook k3) t k3
          in (case timers k4 t of
                None \<Rightarrow> None
              | Some tm \<Rightarrow>
                  if \<not> init_tick tm < TICK_HALF then None
                  else let new = rt_tick_get k4 + init_tick tm;
                           k5 = upd_timer t (\<lambda>tm. tm\<lparr>timeout_tick := new\<rparr>) k4;
                           k6 = timer_link new t k5;
                           k7 = upd_timer t (flag_or RT_TIMER_FLAG_ACTIVATED) k6
                       in Some (RT_EOK, rt_hw_interrupt_enable level k7)))"

definition rt_timer_stop :: "'x kcode \<Rightarrow> nat \<Rightarrow> 'x kernel_scheme \<Rightarrow> (rt_err \<times> 'x kernel_scheme) option" where
  "rt_timer_stop code t k =
    (if \<not> is_timer t k then None
     else (case timers k t of
       None \<Rightarrow> None
     | Some tm \<Rightarrow>
         if \<not> flag_has RT_TIMER_FLAG_ACTIVATED tm then Some (- RT_ERROR, k)
         else let k1 = rt_object_hook_call code (rt_object_put_hook k) t k;
                  (level, k2) = rt_hw_interrupt_disable k1;
                  k3 = timer_remove t k2;
                  k4 = upd_timer t (flag_clear RT_TIMER_FLAG_ACTIVATED) k3
              in Some (RT_EOK, rt_hw_interrupt_enable level k4)))"

text \<open>
  The control commands; \<open>arg\<close> is the word the pointer refers to, and the word it holds
  afterwards is returned.
\<close>

definition rt_timer_control :: "nat \<Rightarrow> nat \<Rightarrow> u32 \<Rightarrow> 'x kernel_scheme \<Rightarrow>
    (rt_err \<times> u32 \<times> 'x kernel_scheme) option" where
  "rt_timer_control t cmd arg k =
    (if \<not> is_timer t k then None
     else (case timers k t of
       None \<Rightarrow> None
     | Some tm \<Rightarrow>
         let (level, k1) = rt_hw_interrupt_disable k;
             (arg', k2) =
               (if cmd = 1 then (init_tick tm, k1)
                else if cmd = 0 then (arg, upd_timer t (\<lambda>tm. tm\<lparr>init_tick := arg\<rparr>) k1)
                else if cmd = 2 then (arg, upd_timer t (flag_clear RT_TIMER_FLAG_PERIODIC) k1)
                else if cmd = 3 then (arg, upd_timer t (flag_or RT_TIMER_FLAG_PERIODIC) k1)
                else if cmd = 4 then
                  (if flag_has RT_TIMER_FLAG_ACTIVATED tm then ucast RT_TIMER_FLAG_ACTIVATED
                   else ucast RT_TIMER_FLAG_DEACTIVATED, k1)
                else (arg, k1))
         in Some (RT_EOK, arg', rt_hw_interrupt_enable level k2)))"

section \<open>The check in the tick interrupt\<close>

definition timer_due :: "u32 \<Rightarrow> u32 \<Rightarrow> bool" where
  "timer_due now tmo \<longleftrightarrow> now - tmo < TICK_HALF"

text \<open>
  After the timeout function of \<open>t\<close> has run: nothing more when the check's own list is
  empty (the timer was detached or started again); otherwise the timer leaves it, and a
  periodic timer that is still active starts anew.
\<close>

definition timer_rearm :: "'x kcode \<Rightarrow> nat \<Rightarrow> 'x kernel_scheme \<Rightarrow> 'x kernel_scheme option" where
  "timer_rearm code t k =
    (case check_lists k of
       [] \<Rightarrow> None
     | [] # _ \<Rightarrow> Some k
     | (_ # _) # _ \<Rightarrow>
         let k1 = timer_remove t k
         in (case timers k1 t of
               None \<Rightarrow> None
             | Some tm \<Rightarrow>
                 if flag_has RT_TIMER_FLAG_PERIODIC tm \<and> flag_has RT_TIMER_FLAG_ACTIVATED tm
                 then map_option snd
                   (rt_timer_start code t (upd_timer t (flag_clear RT_TIMER_FLAG_ACTIVATED) k1))
                 else Some k1))"

text \<open>The timer leaves the list for the list of the check; a one-shot timer is stopped.\<close>

definition timer_take_out :: "nat \<Rightarrow> 'x kernel_scheme \<Rightarrow> 'x kernel_scheme" where
  "timer_take_out t k =
    (let k1 = timer_remove t k;
         k2 = upd_timer t (\<lambda>tm. if flag_has RT_TIMER_FLAG_PERIODIC tm then tm
                else flag_clear RT_TIMER_FLAG_ACTIVATED tm) k1
     in k2\<lparr>check_lists := (case check_lists k2 of [] \<Rightarrow> [[t]] | l # ls \<Rightarrow> (t # l) # ls)\<rparr>)"

text \<open>One timer fires: hooks, removal, the timeout function, and the rearming.\<close>

definition timer_fire :: "'x kcode \<Rightarrow> nat \<Rightarrow> 'x kernel_scheme \<Rightarrow> (u32 \<times> 'x kernel_scheme) option" where
  "timer_fire code t k =
    (let k1 = rt_object_hook_call code (rt_timer_enter_hook k) t k;
         k2 = timer_take_out t k1
     in (case timers k2 t of
           None \<Rightarrow> None
         | Some tm \<Rightarrow>
             let k3 = code (timeout_func tm) (tm_param tm) k2;
                 current_tick = rt_tick_get k3;
                 k4 = rt_object_hook_call code (rt_timer_exit_hook k3) t k3
             in map_option (Pair current_tick) (timer_rearm code t k4)))"

text \<open>
  The loop may go on for ever when timeout functions keep starting timers that are
  already due; \<open>fuel\<close> bounds the number of timers that fire, and \<open>None\<close> is "not
  finished" (or a failed assertion).
\<close>

fun timer_check_loop :: "nat \<Rightarrow> 'x kcode \<Rightarrow> u32 \<Rightarrow> 'x kernel_scheme \<Rightarrow> 'x kernel_scheme option" where
  "timer_check_loop fuel code current_tick k =
    (case timer_list k of
       [] \<Rightarrow> Some k
     | t # _ \<Rightarrow> (case timers k t of
         None \<Rightarrow> None
       | Some tm \<Rightarrow>
           if timer_due current_tick (timeout_tick tm)
           then (case fuel of
                   0 \<Rightarrow> None
                 | Suc fuel' \<Rightarrow> (case timer_fire code t k of
                     None \<Rightarrow> None
                   | Some (tick', k') \<Rightarrow> timer_check_loop fuel' code tick' k'))
           else Some k))"

declare timer_check_loop.simps [simp del]

definition rt_timer_check :: "nat \<Rightarrow> 'x kcode \<Rightarrow> 'x kernel_scheme \<Rightarrow> 'x kernel_scheme option" where
  "rt_timer_check fuel code k =
    (let k0 = k\<lparr>check_lists := [] # check_lists k\<rparr>;
         current_tick = rt_tick_get k0;
         (level, k1) = rt_hw_interrupt_disable k0
     in map_option (\<lambda>k2. (rt_hw_interrupt_enable level k2)\<lparr>check_lists := tl (check_lists k2)\<rparr>)
          (timer_check_loop fuel code current_tick k1))"

definition rt_timer_next_timeout_tick :: "'x kernel_scheme \<Rightarrow> u32 \<times> 'x kernel_scheme" where
  "rt_timer_next_timeout_tick = timer_list_next_timeout"

definition rt_system_timer_init :: "'x kernel_scheme \<Rightarrow> 'x kernel_scheme" where
  "rt_system_timer_init k = k\<lparr>timer_list := []\<rparr>"

end
