(* ===== verification/Idle.thy ===== *)
theory Idle
  imports Object
begin

text \<open>
  \<^verbatim>\<open>idle.c\<close> for one core, without modules and signals: the idle hook list, the
  queue of threads that have ended and wait for their clean-up, and one round of the
  idle thread. \<^verbatim>\<open>RT_USING_PM\<close> is not set for this board: LPMS is
  called from the idle hook list instead.
\<close>

abbreviation RT_IDLE_HOOK_LIST_SIZE :: nat where "RT_IDLE_HOOK_LIST_SIZE \<equiv> 4"

section \<open>The idle hook list\<close>

definition rt_thread_idle_sethook :: "fptr option \<Rightarrow> 'x kernel_scheme \<Rightarrow> rt_err \<times> 'x kernel_scheme" where
  "rt_thread_idle_sethook hook k =
    (let (level, k1) = rt_hw_interrupt_disable k;
         (ret, xs) = hook_set hook (idle_hook_list k1)
     in (ret, rt_hw_interrupt_enable level (k1\<lparr>idle_hook_list := xs\<rparr>)))"

definition rt_thread_idle_delhook :: "fptr option \<Rightarrow> 'x kernel_scheme \<Rightarrow> rt_err \<times> 'x kernel_scheme" where
  "rt_thread_idle_delhook hook k =
    (let (level, k1) = rt_hw_interrupt_disable k;
         (ret, xs) = hook_del hook (idle_hook_list k1)
     in (ret, rt_hw_interrupt_enable level (k1\<lparr>idle_hook_list := xs\<rparr>)))"

text \<open>The loop over the hooks in \<^verbatim>\<open>rt_thread_idle_entry\<close>; a hook gets no argument.\<close>

definition idle_hooks_run :: "(fptr \<Rightarrow> unit \<Rightarrow> 'x kernel_scheme \<Rightarrow> 'x kernel_scheme) \<Rightarrow> unit \<Rightarrow>
    'x kernel_scheme \<Rightarrow> 'x kernel_scheme" where
  "idle_hooks_run code a =
     hook_run idle_hook_list (\<lambda>f. code f a) [0..<RT_IDLE_HOOK_LIST_SIZE]"

interpretation idle_hooks: hook_registry "idle_hook_list :: 'x kernel_scheme \<Rightarrow> _"
  rt_thread_idle_sethook rt_thread_idle_delhook idle_hooks_run RT_IDLE_HOOK_LIST_SIZE
  by unfold_locales
    (simp_all add: rt_thread_idle_sethook_def rt_thread_idle_delhook_def idle_hooks_run_def
      irq_defs split_def Let_def)

section \<open>Threads that have ended\<close>

definition rt_thread_defunct_enqueue :: "nat \<Rightarrow> 'x kernel_scheme \<Rightarrow> 'x kernel_scheme" where
  "rt_thread_defunct_enqueue thread k = k\<lparr>rt_thread_defunct := thread # rt_thread_defunct k\<rparr>"

definition rt_thread_defunct_dequeue :: "'x kernel_scheme \<Rightarrow> nat option \<times> 'x kernel_scheme" where
  "rt_thread_defunct_dequeue k = (case rt_thread_defunct k of
     [] \<Rightarrow> (None, k)
   | thread # rest \<Rightarrow> (Some thread, k\<lparr>rt_thread_defunct := rest\<rparr>))"

text \<open>
  One thread's clean-up, after it was taken from the queue: its clean-up function with
  interrupts on, then the object. \<open>None\<close>: an assertion failed or memory was missing.
\<close>

definition defunct_cleanup :: "'x kcode \<Rightarrow> u32 \<Rightarrow> nat \<Rightarrow> 'x kernel_scheme \<Rightarrow> 'x kernel_scheme option" where
  "defunct_cleanup code lock thread k = (case threads k thread of
     None \<Rightarrow> None
   | Some th \<Rightarrow>
       let (lock', k1) = (case th_cleanup th of
              None \<Rightarrow> (lock, k)
            | Some f \<Rightarrow> rt_hw_interrupt_disable (code f thread (rt_hw_interrupt_enable lock k)))
       in if rt_object_is_systemobject thread k1 = Some True
          then Some (rt_hw_interrupt_enable lock' (rt_object_detach code thread k1))
          else let k2 = rt_hw_interrupt_enable lock' k1;
                   k3 = k2\<lparr>heap_freed := stack_addr th # heap_freed k2\<rparr>
               in rt_object_delete code thread k3)"

text \<open>\<open>fuel\<close> bounds the number of threads that one call cleans up.\<close>

fun rt_defunct_execute :: "nat \<Rightarrow> 'x kcode \<Rightarrow> 'x kernel_scheme \<Rightarrow> 'x kernel_scheme option" where
  "rt_defunct_execute fuel code k =
    (if rt_interrupt_nest k \<noteq> 0 then None
     else let (lock, k1) = rt_hw_interrupt_disable k
          in (case rt_thread_defunct_dequeue k1 of
                (None, k2) \<Rightarrow> Some (rt_hw_interrupt_enable lock k2)
              | (Some thread, k2) \<Rightarrow> (case fuel of
                  0 \<Rightarrow> None
                | Suc fuel' \<Rightarrow> (case defunct_cleanup code lock thread k2 of
                    None \<Rightarrow> None
                  | Some k3 \<Rightarrow> rt_defunct_execute fuel' code k3))))"

declare rt_defunct_execute.simps [simp del]

text \<open>One round of \<^verbatim>\<open>rt_thread_idle_entry\<close>.\<close>

definition idle_round :: "nat \<Rightarrow> 'x kcode \<Rightarrow> 'x kernel_scheme \<Rightarrow> 'x kernel_scheme option" where
  "idle_round fuel code k =
     rt_defunct_execute fuel code (idle_hooks_run (\<lambda>f a. code f 0) () k)"

section \<open>The clean-up empties the queue\<close>

definition is_static :: "'x kernel_scheme \<Rightarrow> nat \<Rightarrow> bool" where
  "is_static k t \<longleftrightarrow> rt_object_is_systemobject t k = Some True"

text \<open>What a thread's clean-up leaves when its code is quiet.\<close>

definition cleaned :: "(fptr \<Rightarrow> nat \<Rightarrow> 'x \<Rightarrow> 'x) \<Rightarrow> nat \<Rightarrow> 'x kernel_scheme \<Rightarrow> 'x kernel_scheme" where
  "cleaned g t k = kernel.more_update
      (case threads k t of None \<Rightarrow> id | Some th \<Rightarrow>
         (case th_cleanup th of None \<Rightarrow> id | Some f \<Rightarrow> g f t))
     (k\<lparr>rt_thread_defunct := tl (rt_thread_defunct k),
        object_container := (\<lambda>c. remove1 t (object_container k c)),
        objects := (objects k)(t := if is_static k t
           then map_option (\<lambda>o1. o1\<lparr>ob_type := 0\<rparr>) (objects k t) else None),
        heap_freed := (case threads k t of None \<Rightarrow> heap_freed k | Some th \<Rightarrow>
           if is_static k t then heap_freed k else stack_addr th # heap_freed k)\<rparr>)"

lemma defunct_step:
  assumes quiet: "quiet code g" and hook: "rt_object_detach_hook k = None"
    and nest: "rt_interrupt_nest k = 0" and queue: "rt_thread_defunct k = t # q"
    and th: "threads k t = Some th" and ob: "objects k t \<noteq> None"
  shows "rt_defunct_execute (Suc n) code k = rt_defunct_execute n code (cleaned g t k)"
proof -
  let ?k2 = "k\<lparr>primask := 1, rt_thread_defunct := q\<rparr>"
  obtain o1 where o1: "objects k t = Some o1" using ob by auto
  have "defunct_cleanup code (primask k) t ?k2 = Some (cleaned g t k)"
    using quiet hook th queue o1
    by (cases "th_cleanup th")
      (auto simp: defunct_cleanup_def quiet_def irq_defs cleaned_def is_static_def
        rt_object_is_systemobject_def rt_object_detach_def rt_object_delete_def
        set_object_type_def object_unlink_def Let_def)
  then show ?thesis
    using nest queue
    by (subst rt_defunct_execute.simps) (simp add: rt_thread_defunct_dequeue_def irq_defs)
qed

lemma cleaned_frame [simp]:
  "rt_object_detach_hook (cleaned g t k) = rt_object_detach_hook k"
  "rt_interrupt_nest (cleaned g t k) = rt_interrupt_nest k" "primask (cleaned g t k) = primask k"
  "rt_thread_defunct (cleaned g t k) = tl (rt_thread_defunct k)"
  "threads (cleaned g t k) = threads k"
  "object_container (cleaned g t k) c = remove1 t (object_container k c)"
  "p \<noteq> t \<Longrightarrow> objects (cleaned g t k) p = objects k p"
  by (simp_all add: cleaned_def)

lemma cleaned_static: "p \<noteq> t \<Longrightarrow> is_static (cleaned g t k) p = is_static k p"
  by (simp add: is_static_def rt_object_is_systemobject_def)

text \<open>The stacks of the dynamic threads of a queue, as they are given back to the heap.\<close>

definition freed_stacks :: "'x kernel_scheme \<Rightarrow> nat list \<Rightarrow> nat list" where
  "freed_stacks k q = map (\<lambda>t. stack_addr (the (threads k t))) (filter (\<lambda>t. \<not> is_static k t) q)"

lemma remove1_other: "p \<noteq> t \<Longrightarrow> p \<in> set (remove1 t xs) \<longleftrightarrow> p \<in> set xs"
  by (induction xs) auto

text \<open>All threads of the queue of \<open>k\<close> are cleaned up in \<open>k'\<close>.\<close>

definition cleared :: "'x kernel_scheme \<Rightarrow> 'x kernel_scheme \<Rightarrow> bool" where
  "cleared k k' \<longleftrightarrow> rt_thread_defunct k' = [] \<and> primask k' = primask k \<and>
    heap_freed k' = rev (freed_stacks k (rt_thread_defunct k)) @ heap_freed k \<and>
    (\<forall>c. set (object_container k' c) = set (object_container k c) - set (rt_thread_defunct k)) \<and>
    (\<forall>t. objects k' t = (if t \<notin> set (rt_thread_defunct k) then objects k t
       else if is_static k t then map_option (\<lambda>o1. o1\<lparr>ob_type := 0\<rparr>) (objects k t) else None))"

lemma cleared_step:
  assumes queue: "rt_thread_defunct k = t # q" and th: "threads k t = Some th" and tq: "t \<notin> set q"
    and containers: "\<forall>c. distinct (object_container k c)" and rest: "cleared (cleaned g t k) k'"
  shows "cleared k k'"
proof -
  let ?k1 = "cleaned g t k"
  have static1: "is_static ?k1 p = is_static k p" if "p \<in> set q" for p
    using that tq by (intro cleaned_static) auto
  then have "filter (\<lambda>p. \<not> is_static ?k1 p) q = filter (\<lambda>p. \<not> is_static k p) q"
    by (intro filter_cong) simp_all
  then have heap: "rev (freed_stacks ?k1 q) @ heap_freed ?k1 = rev (freed_stacks k (t # q)) @ heap_freed k"
    by (simp add: freed_stacks_def) (simp add: cleaned_def th)
  have cont: "set (object_container k' c) = set (object_container k c) - set (t # q)" for c
    using rest containers by (auto simp: cleared_def queue)
  have obj: "objects k' p = (if p \<notin> set (t # q) then objects k p
     else if is_static k p then map_option (\<lambda>o1. o1\<lparr>ob_type := 0\<rparr>) (objects k p) else None)" for p
  proof (cases "p = t")
    case True
    then show ?thesis using rest tq by (simp add: cleared_def queue) (simp add: cleaned_def)
  next
    case False
    then show ?thesis using rest static1 [of p] by (simp add: cleared_def queue)
  qed
  show ?thesis using rest heap cont obj by (simp add: cleared_def queue)
qed

text \<open>
  Claim C31 (termination). One call of \<^verbatim>\<open>rt_defunct_execute\<close> cleans up every thread that has
  ended, in queue order: afterwards the queue is empty, no container holds one of the
  threads, the stacks of exactly the dynamic threads have been freed, their objects are gone,
  the objects of static threads are detached, and the interrupt mask is as before. It
  takes as many rounds as there are threads.
\<close>

theorem rt_defunct_execute_ok:
  assumes quiet: "quiet code g" and hook: "rt_object_detach_hook k = None"
    and nest: "rt_interrupt_nest k = 0" and dist: "distinct (rt_thread_defunct k)"
    and mem: "\<forall>t \<in> set (rt_thread_defunct k). threads k t \<noteq> None \<and> objects k t \<noteq> None"
    and containers: "\<forall>c. distinct (object_container k c)"
  shows "\<exists>k'. rt_defunct_execute (length (rt_thread_defunct k)) code k = Some k' \<and>
    rt_thread_defunct k' = [] \<and> primask k' = primask k \<and>
    heap_freed k' = rev (freed_stacks k (rt_thread_defunct k)) @ heap_freed k \<and>
    (\<forall>c. set (object_container k' c) = set (object_container k c) - set (rt_thread_defunct k)) \<and>
    (\<forall>t. objects k' t = (if t \<notin> set (rt_thread_defunct k) then objects k t
       else if is_static k t then map_option (\<lambda>o1. o1\<lparr>ob_type := 0\<rparr>) (objects k t) else None))"
proof -
  have "rt_thread_defunct k = q \<Longrightarrow> \<exists>k'. rt_defunct_execute (length q) code k = Some k' \<and> cleared k k'" for q
    using assms
  proof (induction q arbitrary: k)
    case Nil
    then show ?case
      by (subst rt_defunct_execute.simps)
        (simp add: rt_thread_defunct_dequeue_def irq_defs freed_stacks_def cleared_def)
  next
    case (Cons t q)
    let ?k1 = "cleaned g t k"
    obtain th where th: "threads k t = Some th" using Cons.prems(1,6) by auto
    have ob: "objects k t \<noteq> None" using Cons.prems(1,6) by auto
    have tq: "t \<notin> set q" "distinct q" using Cons.prems(1,5) by simp_all
    have q1: "rt_thread_defunct ?k1 = q" by (simp add: Cons.prems(1))
    have step: "rt_defunct_execute (Suc (length q)) code k = rt_defunct_execute (length q) code ?k1"
      by (rule defunct_step [OF Cons.prems(2-4) Cons.prems(1) th ob])
    have "\<forall>p \<in> set q. threads ?k1 p \<noteq> None \<and> objects ?k1 p \<noteq> None"
      using Cons.prems(1,6) tq by (metis cleaned_frame(5,7) list.set_intros(2))
    then obtain k' where "rt_defunct_execute (length q) code ?k1 = Some k'" "cleared ?k1 k'"
      using Cons.IH [OF q1] Cons.prems tq by (auto simp: q1)
    with cleared_step [OF Cons.prems(1) th tq(1) Cons.prems(7)] step show ?case by auto
  qed
  then show ?thesis by (simp add: cleared_def)
qed

text \<open>A static thread (1) and a dynamic one (2) have ended.\<close>

definition two_ended :: kernel where
  "two_ended = kernel_zero\<lparr>objects := [1 \<mapsto> \<lparr>ob_name = [], ob_type = 0x81\<rparr>,
       2 \<mapsto> \<lparr>ob_name = [], ob_type = 0x01\<rparr>],
     threads := [1 \<mapsto> thread_zero\<lparr>stack_addr := 70\<rparr>,
       2 \<mapsto> thread_zero\<lparr>stack_addr := 77, th_cleanup := Some 9\<rparr>],
     object_container := (\<lambda>c. if c = 1 then [2, 1] else []),
     rt_thread_defunct := [1, 2]\<rparr>"

theorem rt_defunct_execute_witness:
  "\<exists>k'. rt_defunct_execute 2 (\<lambda>f p k. k) two_ended = Some k' \<and> heap_freed k' = [77]"
proof -
  have q: "quiet (\<lambda>f p k. k) (\<lambda>f p (x :: unit). x)" by (simp add: quiet_def)
  have fields: "rt_object_detach_hook two_ended = None" "rt_interrupt_nest two_ended = 0"
    "rt_thread_defunct two_ended = [1, 2]" "heap_freed two_ended = []"
    "\<forall>c. distinct (object_container two_ended c)"
    "\<forall>t \<in> set (rt_thread_defunct two_ended). threads two_ended t \<noteq> None \<and> objects two_ended t \<noteq> None"
    by (simp_all add: two_ended_def kernel_zero_def)
  have "distinct (rt_thread_defunct two_ended)" by (simp add: fields)
  from rt_defunct_execute_ok [OF q fields(1,2) this fields(6,5)] obtain k' where
    k': "rt_defunct_execute (length (rt_thread_defunct two_ended)) (\<lambda>f p k. k) two_ended = Some k'"
    "heap_freed k' = rev (freed_stacks two_ended [1, 2]) @ []"
    unfolding fields(3,4) by blast
  have "freed_stacks two_ended [1, 2] = [77]"
    by (simp add: freed_stacks_def is_static_def rt_object_is_systemobject_def two_ended_def)
  with k' show ?thesis by (simp add: fields numeral_2_eq_2)
qed

end
