(* ===== verification/Lpms_Drv.thy ===== *)
theory Lpms_Drv
  imports Lpms Timer Idle
begin

text \<open>
  The board side of LPMS: \<^verbatim>\<open>lpms_tim.c\<close> (the low-power timer LPTIM1) and
  \<^verbatim>\<open>lpms_drv.c\<close> (sleep entry, tick conversion, the table of operations, the shell
  commands).

  The vendor's HAL is not modelled. A call of it is recorded in \<open>hal_log\<close>, and its effect
  on the machine is the parameter \<open>hw\<close>; the counter of LPTIM1 is the parameter
  \<open>counter\<close>, a function of the machine state.
\<close>

section \<open>The machine\<close>

datatype hal_const =
    PWR_MAINREGULATOR_ON | PWR_SLEEPENTRY_WFI | PWR_STOPENTRY_WFI | PWR_FLAG_SB
  | RCC_OSCILLATORTYPE_LSI | RCC_LSI_ON | RCC_PLL_NONE
  | RCC_PERIPHCLK_LPTIM1 | RCC_LPTIM1CLKSOURCE_LSI
  | LPTIM1 | LPTIM_CLOCKSOURCE_APBCLOCK_LPOSC | LPTIM_PRESCALER_DIV32 | LPTIM_TRIGSOURCE_SOFTWARE
  | LPTIM_UPDATE_IMMEDIATE | LPTIM_COUNTERSOURCE_INTERNAL | LPTIM1_IRQn

datatype hal_call =
    WFI
  | HAL_PWR_EnterSLEEPMode hal_const hal_const
  | HAL_RCC_PWR_CLK_ENABLE
  | HAL_PWREx_EnterSTOP2Mode hal_const
  | HAL_RCC_DeInit
  | SystemClock_Config
  | HAL_PWR_CLEAR_FLAG hal_const
  | HAL_PWR_EnterSTANDBYMode
  | HAL_PWREx_EnterSHUTDOWNMode
  | HAL_LPTIM_TimeOut_Start_IT u32 u32
  | HAL_LPTIM_TimeOut_Stop_IT
  | HAL_LPTIM_IRQHandler
  | HAL_RCC_LPTIM1_CLK_ENABLE
  | HAL_RCC_OscConfig "hal_const list"
  | HAL_RCCEx_PeriphCLKConfig "hal_const list"
  | HAL_LPTIM_Init "hal_const list"
  | NVIC_ClearPendingIRQ hal_const
  | NVIC_SetPriority hal_const u32
  | NVIC_EnableIRQ hal_const

text \<open>
  The kernel with the registers and static variables of the two files. \<open>asserted\<close> is set
  when an assertion fails, which stops the system: no HAL call is made any more, and the
  rest of the state has no meaning then.
\<close>

record board = kernel +
  systick_ctrl :: u32
  scb_icsr :: u32
  os_tick_remain :: u32
  hal_log :: "hal_call list"
  asserted :: bool

type_synonym hardware = "hal_call \<Rightarrow> board \<Rightarrow> board"

definition hal :: "hardware \<Rightarrow> hal_call \<Rightarrow> board \<Rightarrow> board" where
  "hal hw c b = (if asserted b then b else hw c (b\<lparr>hal_log := hal_log b @ [c]\<rparr>))"

section \<open>lpms_tim.c\<close>

definition HAL_LPTIM_CompareMatchCallback :: "(fptr \<Rightarrow> nat \<Rightarrow> board \<Rightarrow> board) \<Rightarrow> board \<Rightarrow> board" where
  "HAL_LPTIM_CompareMatchCallback code b = rt_interrupt_leave code (rt_interrupt_enter code b)"

definition LPTIM1_IRQHandler :: "hardware \<Rightarrow> (fptr \<Rightarrow> nat \<Rightarrow> board \<Rightarrow> board) \<Rightarrow> board \<Rightarrow> board" where
  "LPTIM1_IRQHandler hw code b =
     rt_interrupt_leave code (hal hw HAL_LPTIM_IRQHandler (rt_interrupt_enter code b))"

definition stm32_lptim_get_current_tick :: "(board \<Rightarrow> u32) \<Rightarrow> board \<Rightarrow> u32" where
  "stm32_lptim_get_current_tick counter b = counter b"

definition stm32_lptim_get_tick_max :: u32 where "stm32_lptim_get_tick_max = 0xFFFF"

definition stm32_lptim_start :: "hardware \<Rightarrow> u32 \<Rightarrow> board \<Rightarrow> rt_err \<times> board" where
  "stm32_lptim_start hw reload b = (RT_EOK, hal hw (HAL_LPTIM_TimeOut_Start_IT reload 0xFF) b)"

definition stm32_lptim_stop :: "hardware \<Rightarrow> board \<Rightarrow> board" where
  "stm32_lptim_stop hw = hal hw HAL_LPTIM_TimeOut_Stop_IT"

definition stm32_lptim_get_countfreq :: u32 where "stm32_lptim_get_countfreq = 32768 div 32"

text \<open>\<open>init_ok\<close>: whether \<^verbatim>\<open>HAL_LPTIM_Init\<close> returns \<^verbatim>\<open>HAL_OK\<close>.\<close>

definition stm32_hw_lptim_init :: "hardware \<Rightarrow> bool \<Rightarrow> board \<Rightarrow> int \<times> board" where
  "stm32_hw_lptim_init hw init_ok b =
    (let b1 = hal hw HAL_RCC_LPTIM1_CLK_ENABLE b;
         b2 = hal hw (HAL_RCC_OscConfig [RCC_OSCILLATORTYPE_LSI, RCC_LSI_ON, RCC_PLL_NONE]) b1;
         b3 = hal hw (HAL_RCCEx_PeriphCLKConfig [RCC_PERIPHCLK_LPTIM1, RCC_LPTIM1CLKSOURCE_LSI]) b2;
         b4 = hal hw (HAL_LPTIM_Init [LPTIM1, LPTIM_CLOCKSOURCE_APBCLOCK_LPOSC, LPTIM_PRESCALER_DIV32,
                LPTIM_TRIGSOURCE_SOFTWARE, LPTIM_UPDATE_IMMEDIATE, LPTIM_COUNTERSOURCE_INTERNAL]) b3
     in if \<not> init_ok then (- 1, b4)
        else (0, hal hw (NVIC_EnableIRQ LPTIM1_IRQn)
               (hal hw (NVIC_SetPriority LPTIM1_IRQn 0) (hal hw (NVIC_ClearPendingIRQ LPTIM1_IRQn) b4))))"

section \<open>lpms_drv.c: the SysTick and sleep entry\<close>

abbreviation SysTick_CTRL_ENABLE_Msk :: u32 where "SysTick_CTRL_ENABLE_Msk \<equiv> 1"
abbreviation SysTick_CTRL_TICKINT_Msk :: u32 where "SysTick_CTRL_TICKINT_Msk \<equiv> 2"
abbreviation SCB_ICSR_PENDSTSET_Msk :: u32 where "SCB_ICSR_PENDSTSET_Msk \<equiv> 0x04000000"

definition HAL_SysTickDisable :: "board \<Rightarrow> board" where
  "HAL_SysTickDisable b = b\<lparr>systick_ctrl := systick_ctrl b AND NOT SysTick_CTRL_ENABLE_Msk\<rparr>"

definition HAL_SysTick_IRQ_Disable :: "board \<Rightarrow> board" where
  "HAL_SysTick_IRQ_Disable b = b\<lparr>systick_ctrl := systick_ctrl b AND NOT SysTick_CTRL_TICKINT_Msk\<rparr>"

definition HAL_SysTick_IRQ_Enable :: "board \<Rightarrow> board" where
  "HAL_SysTick_IRQ_Enable b = b\<lparr>systick_ctrl := systick_ctrl b OR SysTick_CTRL_TICKINT_Msk\<rparr>"

definition HAL_SysTickEnable :: "board \<Rightarrow> board" where
  "HAL_SysTickEnable b = b\<lparr>systick_ctrl := systick_ctrl b OR SysTick_CTRL_ENABLE_Msk\<rparr>"

definition pm_bsp_enter_idle :: "hardware \<Rightarrow> board \<Rightarrow> board" where
  "pm_bsp_enter_idle hw = hal hw WFI"

definition pm_bsp_enter_light :: "hardware \<Rightarrow> board \<Rightarrow> board" where
  "pm_bsp_enter_light hw = hal hw (HAL_PWR_EnterSLEEPMode PWR_MAINREGULATOR_ON PWR_SLEEPENTRY_WFI)"

definition pm_bsp_enter_deepsleep :: "hardware \<Rightarrow> board \<Rightarrow> board" where
  "pm_bsp_enter_deepsleep hw b =
    (let b1 = HAL_SysTick_IRQ_Disable b;
         b2 = hal hw HAL_RCC_PWR_CLK_ENABLE b1;
         b3 = hal hw (HAL_PWREx_EnterSTOP2Mode PWR_STOPENTRY_WFI) b2;
         b4 = hal hw HAL_RCC_DeInit b3;
         b5 = hal hw SystemClock_Config b4
     in HAL_SysTick_IRQ_Enable b5)"

text \<open>\<open>sb\<close>: the standby flag as \<^verbatim>\<open>__HAL_PWR_GET_FLAG(PWR_FLAG_SB)\<close> reads it.\<close>

definition pm_bsp_enter_standby :: "hardware \<Rightarrow> bool \<Rightarrow> board \<Rightarrow> board" where
  "pm_bsp_enter_standby hw sb b =
     hal hw HAL_PWR_EnterSTANDBYMode (if sb then hal hw (HAL_PWR_CLEAR_FLAG PWR_FLAG_SB) b else b)"

definition pm_bsp_enter_shutdown :: "hardware \<Rightarrow> board \<Rightarrow> board" where
  "pm_bsp_enter_shutdown hw = hal hw HAL_PWREx_EnterSHUTDOWNMode"

definition drv_sleep :: "hardware \<Rightarrow> u8 \<Rightarrow> board \<Rightarrow> board" where
  "drv_sleep hw mode b =
    (if mode = sleep_val PM_SLEEP_NONE then b
     else if mode = sleep_val PM_SLEEP_IDLE then pm_bsp_enter_idle hw b
     else if mode = sleep_val PM_SLEEP_LIGHT then pm_bsp_enter_light hw b
     else if mode = sleep_val PM_SLEEP_DEEP then pm_bsp_enter_deepsleep hw b
     else b)"

definition pms_irq_disable :: "board \<Rightarrow> u32 \<times> board" where
  "pms_irq_disable = rt_hw_interrupt_disable"

definition pms_irq_enable :: "u32 \<Rightarrow> board \<Rightarrow> board" where
  "pms_irq_enable = rt_hw_interrupt_enable"

section \<open>lpms_drv.c: tick conversion and the timer\<close>

definition stm32_pm_tick_from_os_tick :: "u32 \<Rightarrow> u32" where
  "stm32_pm_tick_from_os_tick tick =
     stm32_lptim_get_countfreq * tick div of_nat RT_TICK_PER_SECOND"

definition stm32_os_tick_from_pm_tick :: "u32 \<Rightarrow> board \<Rightarrow> u32 \<times> board" where
  "stm32_os_tick_from_pm_tick tick b =
    (let freq = stm32_lptim_get_countfreq;
         ret = (tick * of_nat RT_TICK_PER_SECOND + os_tick_remain b) div freq;
         remain = os_tick_remain b + tick * of_nat RT_TICK_PER_SECOND
     in (ret, b\<lparr>os_tick_remain := remain mod freq\<rparr>))"

definition pm_timer_start :: "hardware \<Rightarrow> u32 \<Rightarrow> board \<Rightarrow> board" where
  "pm_timer_start hw tmo b =
    (if \<not> 0 < tmo then b\<lparr>asserted := True\<rparr>
     else if tmo \<noteq> RT_TICK_MAX
     then let t1 = stm32_pm_tick_from_os_tick tmo;
              t2 = (if stm32_lptim_get_tick_max \<le> t1 then stm32_lptim_get_tick_max else t1)
          in snd (stm32_lptim_start hw t2 b)
     else b)"

definition pm_timer_stop :: "hardware \<Rightarrow> board \<Rightarrow> board" where
  "pm_timer_stop hw = stm32_lptim_stop hw"

definition pm_timer_get_tick :: "(board \<Rightarrow> u32) \<Rightarrow> board \<Rightarrow> u32 \<times> board" where
  "pm_timer_get_tick counter b = stm32_os_tick_from_pm_tick (stm32_lptim_get_current_tick counter b) b"

definition pm_tick_set :: "u32 \<Rightarrow> board \<Rightarrow> board" where
  "pm_tick_set ticks b =
    (let b1 = rt_tick_set ticks b in b1\<lparr>scb_icsr := scb_icsr b1 OR SCB_ICSR_PENDSTSET_Msk\<rparr>)"

definition stm32_set_freq :: "u8 \<Rightarrow> board \<Rightarrow> board" where "stm32_set_freq mode b = b"

definition pm_ops :: "hardware \<Rightarrow> (board \<Rightarrow> u32) \<Rightarrow> board lpms_ops" where
  "pm_ops hw counter =
    \<lparr>op_sleep = Some (drv_sleep hw), op_set_freq = Some stm32_set_freq,
     op_lptim_start = Some (pm_timer_start hw), op_lptim_stop = Some (pm_timer_stop hw),
     op_lptim_get_tick = Some (pm_timer_get_tick counter), op_lptim_next_timeout = None,
     op_systick_get = Some (\<lambda>b. (rt_tick_get b, b)), op_systick_set = Some pm_tick_set,
     op_systick_next_timeout = Some rt_timer_next_timeout_tick,
     op_irq_disable = Some pms_irq_disable, op_irq_enable = Some pms_irq_enable\<rparr>"

text \<open>The idle hook; \<open>ptr\<close> is its address.\<close>

definition lpms_enter :: "board hook_code \<Rightarrow> board lpms_world \<Rightarrow> board lpms_world" where
  "lpms_enter hc = pm_run_tickless hc"

definition lpms_drv_init :: "hardware \<Rightarrow> (board \<Rightarrow> u32) \<Rightarrow> fptr \<Rightarrow> board lpms_world \<Rightarrow>
    int \<times> board lpms_world" where
  "lpms_drv_init hw counter ptr w =
    (let w1 = lpms_init (Some (pm_ops hw counter)) (freq_val PM_FREQ_HIGH) w
     in (0, w1\<lparr>env := snd (rt_thread_idle_sethook (Some ptr) (env w1))\<rparr>))"

end
