(* ===== verification/Lpms_Cmd.thy ===== *)
theory Lpms_Cmd
  imports Lpms_Drv
begin

text \<open>
  The shell commands of \<^verbatim>\<open>lpms_drv.c\<close> and the keys of \<^verbatim>\<open>key.c\<close>, the
  two places from which a user changes the requests at run time.
\<close>

section \<open>The commands\<close>

text \<open>
  \<^verbatim>\<open>argc\<close> is the length of \<open>argv\<close>. The parameters of the LPMS operations are
  unsigned of 16, 8 or 32 bits, to which the value of an argument is converted modulo.
\<close>

definition pms_sleep_request :: "string list \<Rightarrow> 'e lpms_world \<Rightarrow> 'e lpms_world" where
  "pms_sleep_request argv w =
    (if 3 \<le> length argv
     then pm_sleep_request (of_int (atoi (argv ! 1))) (of_int (atoi (argv ! 2))) w else w)"

definition pms_sleep_release :: "string list \<Rightarrow> 'e lpms_world \<Rightarrow> 'e lpms_world" where
  "pms_sleep_release argv w =
    (if 3 \<le> length argv
     then pm_sleep_release (of_int (atoi (argv ! 1))) (of_int (atoi (argv ! 2))) w else w)"

definition pms_freq_request :: "string list \<Rightarrow> 'e lpms_world \<Rightarrow> 'e lpms_world" where
  "pms_freq_request argv w =
    (if 3 \<le> length argv
     then pm_freq_request (of_int (atoi (argv ! 1))) (of_int (atoi (argv ! 2))) w else w)"

definition pms_freq_release :: "string list \<Rightarrow> 'e lpms_world \<Rightarrow> 'e lpms_world" where
  "pms_freq_release argv w =
    (if 3 \<le> length argv
     then pm_freq_release (of_int (atoi (argv ! 1))) (of_int (atoi (argv ! 2))) w else w)"

definition pms_busy_set :: "string list \<Rightarrow> 'e lpms_world \<Rightarrow> 'e lpms_world" where
  "pms_busy_set argv w =
    (if 3 \<le> length argv
     then pm_busy_set (of_int (atoi (argv ! 1))) (of_int (atoi (argv ! 2))) w else w)"

definition pms_busy_clear :: "string list \<Rightarrow> 'e lpms_world \<Rightarrow> 'e lpms_world" where
  "pms_busy_clear argv w =
    (if 2 \<le> length argv then pm_busy_clear (of_int (atoi (argv ! 1))) w else w)"

definition pms_enable_ctrl :: "string list \<Rightarrow> 'e lpms_world \<Rightarrow> 'e lpms_world" where
  "pms_enable_ctrl argv w =
    (if 2 \<le> length argv
     then (if atoi (argv ! 1) \<noteq> 0 then lpms_enable w else lpms_disable w) else w)"

definition pms_dump_sleep_mode :: "'e lpms_world \<Rightarrow> pm_line list" where
  "pms_dump_sleep_mode = pm_sleep_mode_dump"

definition pms_dump_freq_mode :: "'e lpms_world \<Rightarrow> pm_line list" where
  "pms_dump_freq_mode = pm_freq_mode_dump"

definition pms_dump_busy_mode :: "'e lpms_world \<Rightarrow> pm_line list \<times> 'e lpms_world" where
  "pms_dump_busy_mode = pm_busy_mode_dump"

definition pms_dump_mode :: "'e lpms_world \<Rightarrow> pm_line list \<times> 'e lpms_world" where
  "pms_dump_mode w =
    (let sleep = pm_sleep_mode_dump w;
         freq = pm_freq_mode_dump w;
         (busy, w1) = pm_busy_mode_dump w
     in (sleep @ freq @ busy @
         [PM_PRINT ''pms_enable=%d'' [ucast (pm_is_enabled w1)],
          PM_PRINT ''sleep_mode=%d'' [ucast (pm_get_sleep_mode w1)],
          PM_PRINT ''freq_mode=%d'' [ucast (pm_get_freq_mode w1)]], w1))"

text \<open>
  The size of the control block on the 32-bit machine: four bytes, a word, the two tables,
  the timeouts and the pointer.
\<close>

definition pms_dump_size :: "pm_line list" where
  "pms_dump_size = [PM_PRINT ''sizeof(struct _lpms_s) = %d''
     [of_nat (4 + 4 + (PM_SLEEP_MODE_MAX - 1) * PM_STATUS_WORDS * 4 +
        (PM_FREQ_MODE_MAX - 1) * PM_STATUS_WORDS * 4 + PM_BUSY_MODULE_MAX * 4 + 4)]]"

section \<open>The keys\<close>

text \<open>The static status variables of the three callbacks. Logging is left out.\<close>

record key_status =
  key0_status :: u8
  key1_status :: u8
  key2_status :: u8

definition key0_irq_callback :: "key_status \<times> 'e lpms_world \<Rightarrow> key_status \<times> 'e lpms_world" where
  "key0_irq_callback = (\<lambda>(s, w).
     let s1 = s\<lparr>key0_status := key0_status s XOR 1\<rparr>
     in (s1, if key0_status s1 = 0
             then pm_sleep_release (module_val PM_BOARD_ID) (sleep_val PM_SLEEP_IDLE) w
             else pm_sleep_request (module_val PM_BOARD_ID) (sleep_val PM_SLEEP_IDLE) w))"

definition key1_irq_callback :: "key_status \<times> 'e lpms_world \<Rightarrow> key_status \<times> 'e lpms_world" where
  "key1_irq_callback = (\<lambda>(s, w).
     let s1 = s\<lparr>key1_status := key1_status s XOR 1\<rparr>
     in (s1, if key1_status s1 = 0
             then pm_sleep_release (module_val PM_BSP_ID) (sleep_val PM_SLEEP_LIGHT) w
             else pm_sleep_request (module_val PM_BSP_ID) (sleep_val PM_SLEEP_LIGHT) w))"

definition key2_irq_callback :: "key_status \<times> 'e lpms_world \<Rightarrow> key_status \<times> 'e lpms_world" where
  "key2_irq_callback = (\<lambda>(s, w).
     let s1 = s\<lparr>key2_status := key2_status s XOR 1\<rparr>
     in (s1, if key2_status s1 = 0
             then pm_sleep_release (module_val PM_LCD_ID) (sleep_val PM_SLEEP_NONE) w
             else pm_sleep_request (module_val PM_LCD_ID) (sleep_val PM_SLEEP_NONE) w))"

text \<open>What \<^verbatim>\<open>key_gpio_init\<close> asks of the pin device, in order.\<close>

datatype pin = GET_PIN char nat

datatype key_callback = KEY0_CB | KEY1_CB | KEY2_CB

datatype pin_call =
    rt_pin_mode_INPUT_PULLUP pin
  | rt_pin_attach_irq_FALLING pin key_callback
  | rt_pin_irq_enable pin

definition PIN_KEY0 :: pin where "PIN_KEY0 = GET_PIN (CHR ''D'') 10"
definition PIN_KEY1 :: pin where "PIN_KEY1 = GET_PIN (CHR ''D'') 9"
definition PIN_KEY2 :: pin where "PIN_KEY2 = GET_PIN (CHR ''D'') 8"

definition key_gpio_init :: "int \<times> pin_call list" where
  "key_gpio_init = (0,
     [rt_pin_mode_INPUT_PULLUP PIN_KEY0, rt_pin_mode_INPUT_PULLUP PIN_KEY1,
      rt_pin_mode_INPUT_PULLUP PIN_KEY2,
      rt_pin_attach_irq_FALLING PIN_KEY0 KEY0_CB, rt_pin_attach_irq_FALLING PIN_KEY1 KEY1_CB,
      rt_pin_attach_irq_FALLING PIN_KEY2 KEY2_CB,
      rt_pin_irq_enable PIN_KEY0, rt_pin_irq_enable PIN_KEY1, rt_pin_irq_enable PIN_KEY2])"

end
