(* ===== verification/Lpms_Votes.thy ===== *)
theory Lpms_Votes
  imports Lpms
begin

text \<open>
  The request tables of LPMS as sets of votes. A vote \<open>(m, i)\<close> says that module
  \<open>m\<close> asks for a mode no lower than \<open>i\<close>. The interface
  \<open>mode_votes\<close> states what a pair of request and release operations promises; the
  sleep requests and the frequency requests of \<^verbatim>\<open>lpms.c\<close> are its two
  interpretations.
\<close>

section \<open>Bits of a status table\<close>

definition status_bit :: "u32 list list \<Rightarrow> nat \<Rightarrow> nat \<Rightarrow> bool" where
  "status_bit st i m = bit (status_word i (m div 32) st) (m mod 32)"

definition status_votes :: "nat \<Rightarrow> u32 list list \<Rightarrow> (nat \<times> nat) set" where
  "status_votes n st =
     set (filter (\<lambda>(m, i). status_bit st i m) (List.product [0..<PM_MODULE_MAX] [0..<n]))"

text \<open>One row per mode, one word per row, and no bit beyond the last module.\<close>

definition status_wf :: "nat \<Rightarrow> u32 list list \<Rightarrow> bool" where
  "status_wf n st \<longleftrightarrow> length st = n \<and>
     (\<forall>row \<in> set st. length row = PM_STATUS_WORDS \<and> drop_bit PM_MODULE_MAX (hd row) = 0)"

lemma drop_bit_zero_iff: "drop_bit k w = 0 \<longleftrightarrow> (\<forall>j \<ge> k. \<not> bit w j)" for w :: u32
proof
  assume "drop_bit k w = 0"
  then have "\<not> bit (drop_bit k w) j" for j by simp
  then have "\<not> bit w (k + j)" for j by (simp add: bit_drop_bit_eq)
  then show "\<forall>j \<ge> k. \<not> bit w j" by (metis le_Suc_ex)
next
  assume "\<forall>j \<ge> k. \<not> bit w j"
  then show "drop_bit k w = 0" by (intro bit_word_eqI) (simp add: bit_drop_bit_eq)
qed

lemma status_wfD:
  assumes "status_wf n st" and "i < n"
  shows "length st = n" and "length (st ! i) = 1" and "\<And>j. 17 \<le> j \<Longrightarrow> \<not> bit (st ! i ! 0) j"
proof -
  from assms have "st ! i \<in> set st" by (simp add: status_wf_def)
  with assms have row: "length (st ! i) = 1 \<and> drop_bit 17 (hd (st ! i)) = 0"
    by (simp add: status_wf_def)
  then show "length (st ! i) = 1" by simp
  from row have "hd (st ! i) = st ! i ! 0" by (cases "st ! i") auto
  with row show "\<not> bit (st ! i ! 0) j" if "17 \<le> j" for j
    using that by (simp add: drop_bit_zero_iff)
  show "length st = n" using assms by (simp add: status_wf_def)
qed

lemma status_wfI:
  assumes "length st = n" and "\<And>i. i < n \<Longrightarrow> length (st ! i) = 1"
    and "\<And>i j. i < n \<Longrightarrow> 17 \<le> j \<Longrightarrow> \<not> bit (st ! i ! 0) j"
  shows "status_wf n st"
  unfolding status_wf_def
proof (intro conjI ballI)
  fix row assume "row \<in> set st"
  then obtain i where i: "i < n" "row = st ! i" using assms(1) by (auto simp: in_set_conv_nth)
  with assms(2) have one: "length row = 1" by simp
  then show "length row = PM_STATUS_WORDS" by simp
  from one have "hd row = row ! 0" by (cases row) auto
  with i assms(3) show "drop_bit PM_MODULE_MAX (hd row) = 0" by (simp add: drop_bit_zero_iff)
qed (rule assms(1))

lemma status_votes_iff:
  "(m, i) \<in> status_votes n st \<longleftrightarrow> m < PM_MODULE_MAX \<and> i < n \<and> bit (st ! i ! 0) m"
  by (auto simp: status_votes_def status_bit_def status_word_def)

lemma finite_status_votes [simp]: "finite (status_votes n st)"
  by (simp add: status_votes_def)

lemma status_put_nth:
  assumes "status_wf n st" and "mode < n" and "i < n"
  shows "status_put mode 0 v st ! i ! 0 = (if i = mode then v else st ! i ! 0)"
  using status_wfD(1,2) [OF assms(1,2)] assms(3)
  by (auto simp: status_put_def nth_list_update)

lemma status_put_wf:
  assumes wf: "status_wf n st" and "mode < n" and hi: "\<And>j. 17 \<le> j \<Longrightarrow> \<not> bit v j"
  shows "status_wf n (status_put mode 0 v st)"
proof (rule status_wfI)
  show "length (status_put mode 0 v st) = n"
    using status_wfD(1) [OF wf \<open>mode < n\<close>] by (simp add: status_put_def)
  fix i assume i: "i < n"
  show "length (status_put mode 0 v st ! i) = 1"
    using status_wfD(1,2) [OF wf i] status_wfD(2) [OF wf \<open>mode < n\<close>] \<open>mode < n\<close>
    by (simp add: status_put_def nth_list_update)
  show "\<not> bit (status_put mode 0 v st ! i ! 0) j" if "17 \<le> j" for j
    using status_wfD(3) [OF wf i that] hi [OF that] status_put_nth [OF wf \<open>mode < n\<close> i]
    by simp
qed

lemma status_set_wf [wf_intros]:
  assumes "status_wf n st" and "mode < n" and "m < PM_MODULE_MAX"
  shows "status_wf n (status_set mode m st)"
  using assms status_wfD(3) [OF assms(1,2)]
  by (simp add: status_set_def status_word_def) (intro status_put_wf; auto simp: bit_or_iff bit_exp_iff)

lemma status_clear_wf [wf_intros]:
  assumes "status_wf n st" and "mode < n" and "m < PM_MODULE_MAX"
  shows "status_wf n (status_clear mode m st)"
  using assms status_wfD(3) [OF assms(1,2)]
  by (simp add: status_clear_def status_word_def) (intro status_put_wf; auto simp: bit_and_iff)

lemma status_set_votes:
  assumes "status_wf n st" and "mode < n" and "m < PM_MODULE_MAX"
  shows "status_votes n (status_set mode m st) = insert (m, mode) (status_votes n st)"
proof (rule set_eqI)
  fix x :: "nat \<times> nat"
  obtain k i where x: "x = (k, i)" by (cases x)
  show "x \<in> status_votes n (status_set mode m st) \<longleftrightarrow> x \<in> insert (m, mode) (status_votes n st)"
    using assms status_put_nth [OF assms(1,2), of i]
    by (cases "i = mode")
      (auto simp: x status_votes_iff status_set_def status_word_def bit_or_iff bit_exp_iff)
qed

lemma status_clear_votes:
  assumes "status_wf n st" and "mode < n" and "m < PM_MODULE_MAX"
  shows "status_votes n (status_clear mode m st) = status_votes n st - {(m, mode)}"
proof (rule set_eqI)
  fix x :: "nat \<times> nat"
  obtain k i where x: "x = (k, i)" by (cases x)
  show "x \<in> status_votes n (status_clear mode m st) \<longleftrightarrow> x \<in> status_votes n st - {(m, mode)}"
    using assms status_put_nth [OF assms(1,2), of i]
    by (cases "i = mode")
      (auto simp: x status_votes_iff status_clear_def status_word_def
        bit_and_iff bit_not_iff bit_exp_iff)
qed

text \<open>The nested loop computes the least mode that has a vote.\<close>

lemma row_has_vote:
  assumes "status_wf n st" and "i < n"
  shows "status_word i 0 st \<noteq> 0 \<longleftrightarrow> (\<exists>m. (m, i) \<in> status_votes n st)"
proof -
  have "st ! i ! 0 \<noteq> 0 \<longleftrightarrow> (\<exists>m < 17. bit (st ! i ! 0) m)"
  proof
    assume "st ! i ! 0 \<noteq> 0"
    then obtain m where m: "bit (st ! i ! 0) m" by (auto simp: word_nonzero_bit)
    with status_wfD(3) [OF assms, of m] have "m < 17" by (meson not_le)
    with m show "\<exists>m < 17. bit (st ! i ! 0) m" by blast
  qed auto
  then show ?thesis using assms(2) by (auto simp: status_votes_iff status_word_def)
qed

lemma select_loop_spec:
  assumes wf: "status_wf n st" and "k \<le> n"
  shows "select_loop st dflt [k..<n] =
    (if \<exists>i \<ge> k. \<exists>m. (m, i) \<in> status_votes n st
     then of_nat (LEAST i. k \<le> i \<and> (\<exists>m. (m, i) \<in> status_votes n st)) else dflt)"
  using \<open>k \<le> n\<close>
proof (induction "n - k" arbitrary: k)
  case 0
  then show ?case by (auto simp: status_votes_iff)
next
  case (Suc d)
  then have k: "k < n" by simp
  then have up: "[k..<n] = k # [Suc k..<n]" by (simp add: upt_conv_Cons)
  let ?v = "\<lambda>i. \<exists>m. (m, i) \<in> status_votes n st"
  show ?case
  proof (cases "?v k")
    case True
    then have least: "(LEAST i. k \<le> i \<and> ?v i) = k"
      by (intro Least_equality) auto
    from True have ex: "\<exists>i \<ge> k. ?v i" by blast
    have "select_loop st dflt [k..<n] = of_nat k"
      using True row_has_vote [OF wf k] by (simp add: up)
    with ex least show ?thesis by simp
  next
    case False
    then have same: "(k \<le> i \<and> ?v i) = (Suc k \<le> i \<and> ?v i)" for i
      by (metis Suc_leD le_antisym not_less_eq_eq)
    have "select_loop st dflt [k..<n] = select_loop st dflt [Suc k..<n]"
      using False row_has_vote [OF wf k] by (simp add: up)
    also have "\<dots> = (if \<exists>i \<ge> Suc k. ?v i
        then of_nat (LEAST i. Suc k \<le> i \<and> ?v i) else dflt)"
      using Suc by (intro Suc.hyps(1)) auto
    finally show ?thesis by (simp only: same)
  qed
qed

lemma select_loop_Min:
  assumes wf: "status_wf n st"
  shows "select_loop st dflt [0..<n] =
    (if status_votes n st = {} then dflt else of_nat (Min (snd ` status_votes n st)))"
proof (cases "status_votes n st = {}")
  case True
  then show ?thesis by (simp add: select_loop_spec [OF wf])
next
  case False
  let ?V = "snd ` status_votes n st"
  have fin: "finite ?V" by simp
  have "Min ?V \<in> ?V" using False by (intro Min_in) simp_all
  then have ex: "\<exists>m. (m, Min ?V) \<in> status_votes n st" by (metis imageE prod.collapse)
  have "(LEAST i. \<exists>m. (m, i) \<in> status_votes n st) = Min ?V"
  proof (rule Least_equality)
    fix y assume "\<exists>m. (m, y) \<in> status_votes n st"
    then have "y \<in> ?V" by force
    then show "Min ?V \<le> y" by (rule Min_le [OF fin])
  qed (rule ex)
  with ex False show ?thesis by (auto simp: select_loop_spec [OF wf])
qed

end
