(* ===== verification/Lpms_Inv.thy ===== *)
theory Lpms_Inv
  imports Lpms_Correct
begin

text \<open>
  LPMS as a system: the two interpretations of the vote interface, the invariant, the
  step relation of the public operations, and what holds in every reachable state.
\<close>

section \<open>Sleep and frequency requests are votes\<close>

definition sleep_votes :: "'e lpms_world \<Rightarrow> (nat \<times> nat) set" where
  "sleep_votes w = status_votes (PM_SLEEP_MODE_MAX - 1) (sleep_status (pm_sys w))"

definition freq_votes :: "'e lpms_world \<Rightarrow> (nat \<times> nat) set" where
  "freq_votes w = status_votes (PM_FREQ_MODE_MAX - 1) (freq_status (pm_sys w))"

definition sleep_wf :: "'e lpms_world \<Rightarrow> bool" where
  "sleep_wf w \<longleftrightarrow> status_wf (PM_SLEEP_MODE_MAX - 1) (sleep_status (pm_sys w))"

definition freq_wf :: "'e lpms_world \<Rightarrow> bool" where
  "freq_wf w \<longleftrightarrow> status_wf (PM_FREQ_MODE_MAX - 1) (freq_status (pm_sys w))"

lemma votes_mode_lt:
  "(k, j) \<in> status_votes n st \<Longrightarrow> j < n"
  by (simp add: status_votes_iff)

lemma Min_votes_lt:
  assumes "status_votes n st \<noteq> {}"
  shows "Min (snd ` status_votes n st) < n"
proof -
  have "Min (snd ` status_votes n st) \<in> snd ` status_votes n st"
    using assms by (intro Min_in) simp_all
  then show ?thesis by (auto simp: status_votes_iff)
qed

lemma select_loop_unat:
  assumes "status_wf n st" and "n < 256"
  shows "unat (select_loop st dflt [0..<n]) =
    (if status_votes n st = {} then unat dflt else Min (snd ` status_votes n st))"
proof (cases "status_votes n st = {}")
  case False
  with Min_votes_lt [of n st] assms(2) have "Min (snd ` status_votes n st) < 256" by simp
  with False show ?thesis by (simp add: select_loop_Min [OF assms(1)] unat_of_nat take_bit_eq_mod)
qed (simp add: select_loop_Min [OF assms(1)])

interpretation sleep: mode_votes pm_sleep_request pm_sleep_release sleep_votes
  "\<lambda>w. select_sleep_mode (pm_sys w)" sleep_wf PM_MODULE_MAX "PM_SLEEP_MODE_MAX - 1"
  "sleep_val PM_SLEEP_DEEP"
proof
  show "pm_sleep_request m i w = w" if "\<not> (unat m < PM_MODULE_MAX \<and> unat i < PM_SLEEP_MODE_MAX - 1)"
    for m i and w :: "'a lpms_world" using that by (auto simp: pm_sleep_request_def)
  show "pm_sleep_release m i w = w" if "\<not> (unat m < PM_MODULE_MAX \<and> unat i < PM_SLEEP_MODE_MAX - 1)"
    for m i and w :: "'a lpms_world" using that by (auto simp: pm_sleep_release_def)
  show "unat (select_sleep_mode (pm_sys w)) = (if sleep_votes w = {}
      then unat (sleep_val PM_SLEEP_DEEP) else Min (snd ` sleep_votes w))"
    if "sleep_wf w" for w :: "'a lpms_world"
    using that select_loop_unat [of "PM_SLEEP_MODE_MAX - 1" "sleep_status (pm_sys w)"]
    by (simp add: sleep_votes_def sleep_wf_def select_sleep_mode_def)
qed (auto simp: sleep_wf_def sleep_votes_def sys_simps status_set_votes status_clear_votes
       intro: wf_intros dest: votes_mode_lt)

interpretation freq: mode_votes pm_freq_request pm_freq_release freq_votes
  "\<lambda>w. select_freq_mode (pm_sys w)" freq_wf PM_MODULE_MAX "PM_FREQ_MODE_MAX - 1"
  "freq_val PM_FREQ_LOW"
proof
  show "pm_freq_request m i w = w" if "\<not> (unat m < PM_MODULE_MAX \<and> unat i < PM_FREQ_MODE_MAX - 1)"
    for m i and w :: "'a lpms_world" using that by (auto simp: pm_freq_request_def)
  show "pm_freq_release m i w = w" if "\<not> (unat m < PM_MODULE_MAX \<and> unat i < PM_FREQ_MODE_MAX - 1)"
    for m i and w :: "'a lpms_world" using that by (auto simp: pm_freq_release_def)
  show "unat (select_freq_mode (pm_sys w)) = (if freq_votes w = {}
      then unat (freq_val PM_FREQ_LOW) else Min (snd ` freq_votes w))"
    if "freq_wf w" for w :: "'a lpms_world"
    using that select_loop_unat [of "PM_FREQ_MODE_MAX - 1" "freq_status (pm_sys w)"]
    by (simp add: freq_votes_def freq_wf_def select_freq_mode_def)
qed (auto simp: freq_wf_def freq_votes_def sys_simps status_set_votes status_clear_votes
       intro: wf_intros dest: votes_mode_lt)

section \<open>The invariant\<close>

text \<open>
  The shape of the tables, and the promise of the frequency part: the system never runs
  slower (a greater mode) than the fastest mode some module asks for.
\<close>

definition lpms_inv :: "'e lpms_world \<Rightarrow> bool" where
  "lpms_inv w \<longleftrightarrow> sleep_wf w \<and> freq_wf w \<and>
     length (busy_timeout (pm_sys w)) = PM_BUSY_MODULE_MAX \<and>
     sleep_mode (pm_sys w) \<le> sleep_val PM_SLEEP_DEEP \<and>
     freq_mode (pm_sys w) \<le> select_freq_mode (pm_sys w) \<and>
     length (pm_hook_list_sleep w) = LPMS_HOOK_LIST_SLEEP_SIZE \<and>
     length (pm_hook_list_wake w) = LPMS_HOOK_LIST_WAKE_SIZE \<and>
     length (pm_hook_list_freq w) = LPMS_HOOK_LIST_FREQ_SIZE"

lemmas lpms_inv_defs = lpms_inv_def sleep_wf_def freq_wf_def

definition lpms_start :: "'e \<Rightarrow> 'e lpms_world" where
  "lpms_start e = \<lparr>pm_sys = pm_sys_zero,
     pm_hook_list_sleep = replicate LPMS_HOOK_LIST_SLEEP_SIZE None,
     pm_hook_list_wake = replicate LPMS_HOOK_LIST_WAKE_SIZE None,
     pm_hook_list_freq = replicate LPMS_HOOK_LIST_FREQ_SIZE None, env = e\<rparr>"

lemma status_wf_zero: "status_wf n (replicate n (replicate PM_STATUS_WORDS 0))"
  by (auto simp: status_wf_def)

lemma lpms_inv_start: "lpms_inv (lpms_start e)"
  using status_wf_zero [of 3] status_wf_zero [of 2]
  by (simp add: lpms_inv_defs lpms_start_def pm_sys_zero_def)

text \<open>The invariant reads the control block and the lengths of the hook lists only.\<close>

lemma lpms_inv_cong:
  assumes "pm_sys w' = pm_sys w"
    and "length (pm_hook_list_sleep w') = length (pm_hook_list_sleep w)"
    and "length (pm_hook_list_wake w') = length (pm_hook_list_wake w)"
    and "length (pm_hook_list_freq w') = length (pm_hook_list_freq w)"
  shows "lpms_inv w' = lpms_inv w"
  using assms by (simp add: lpms_inv_defs)

lemma lpms_inv_env [simp]: "lpms_inv (w\<lparr>env := e\<rparr>) = lpms_inv w"
  by (rule lpms_inv_cong) simp_all

lemma call_get_inv [simp]: "lpms_inv (snd (call_get sel d w)) = lpms_inv w"
  by (rule lpms_inv_cong) (simp_all add: frame_simps)

lemma call_do_inv [simp]: "lpms_inv (call_do sel w) = lpms_inv w"
  by (rule lpms_inv_cong) (simp_all add: frame_simps)

lemma lpms_call_inv [simp]:
  "lpms_inv (snd (pm_irq_disable w)) = lpms_inv w" "lpms_inv (pm_irq_enable l w) = lpms_inv w"
  "lpms_inv (snd (pm_get_tick w)) = lpms_inv w" "lpms_inv (pm_set_tick t w) = lpms_inv w"
  "lpms_inv (snd (pm_next_timeout w)) = lpms_inv w"
  "lpms_inv (snd (lptimer_next_timeout w)) = lpms_inv w"
  "lpms_inv (lptimer_start t w) = lpms_inv w" "lpms_inv (lptimer_stop w) = lpms_inv w"
  "lpms_inv (snd (lptimer_get_timeout w)) = lpms_inv w"
  "lpms_inv (pm_sleep m w) = lpms_inv w" "lpms_inv (pm_set_freq m w) = lpms_inv w"
  by (simp_all add: lpms_call_defs)

section \<open>Every operation keeps the invariant\<close>

lemma lists_after_op [sys_simps]:
  "pm_hook_list_sleep (pm_sleep_request m i w) = pm_hook_list_sleep w"
  "pm_hook_list_wake (pm_sleep_request m i w) = pm_hook_list_wake w"
  "pm_hook_list_freq (pm_sleep_request m i w) = pm_hook_list_freq w"
  "pm_hook_list_sleep (pm_sleep_release m i w) = pm_hook_list_sleep w"
  "pm_hook_list_wake (pm_sleep_release m i w) = pm_hook_list_wake w"
  "pm_hook_list_freq (pm_sleep_release m i w) = pm_hook_list_freq w"
  by (simp_all add: pm_sleep_request_def pm_sleep_release_def Let_def split_def frame_simps)

lemma freq_lists_after_op [sys_simps]:
  "pm_hook_list_sleep (pm_freq_request m i w) = pm_hook_list_sleep w"
  "pm_hook_list_wake (pm_freq_request m i w) = pm_hook_list_wake w"
  "pm_hook_list_freq (pm_freq_request m i w) = pm_hook_list_freq w"
  "pm_hook_list_sleep (pm_freq_release m i w) = pm_hook_list_sleep w"
  "pm_hook_list_wake (pm_freq_release m i w) = pm_hook_list_wake w"
  "pm_hook_list_freq (pm_freq_release m i w) = pm_hook_list_freq w"
  by (simp_all add: pm_freq_request_def pm_freq_release_def Let_def split_def frame_simps
      lpms_call_defs)

lemma busy_lists_after_op [sys_simps]:
  "pm_hook_list_sleep (pm_busy_set m t w) = pm_hook_list_sleep w"
  "pm_hook_list_wake (pm_busy_set m t w) = pm_hook_list_wake w"
  "pm_hook_list_freq (pm_busy_set m t w) = pm_hook_list_freq w"
  "pm_hook_list_sleep (pm_busy_clear m w) = pm_hook_list_sleep w"
  "pm_hook_list_wake (pm_busy_clear m w) = pm_hook_list_wake w"
  "pm_hook_list_freq (pm_busy_clear m w) = pm_hook_list_freq w"
  by (simp_all add: pm_busy_set_def pm_busy_clear_def Let_def split_def frame_simps
      lpms_call_defs)

lemma select_after_sleep [sys_simps]:
  "select_freq_mode (s\<lparr>sleep_status := x\<rparr>) = select_freq_mode s"
  "select_freq_mode (s\<lparr>busy_timeout := b\<rparr>) = select_freq_mode s"
  "select_freq_mode (s\<lparr>sleep_mode := m\<rparr>) = select_freq_mode s"
  "select_freq_mode (s\<lparr>freq_mode := m\<rparr>) = select_freq_mode s"
  "select_freq_mode (s\<lparr>freq_flag := f\<rparr>) = select_freq_mode s"
  "select_freq_mode (s\<lparr>enable_flag := m\<rparr>) = select_freq_mode s"
  "select_freq_mode (s\<lparr>init_flag := m\<rparr>) = select_freq_mode s"
  "select_freq_mode (s\<lparr>ops := t\<rparr>) = select_freq_mode s"
  by (simp_all add: select_freq_mode_def)

lemma sleep_request_inv [wf_intros]: "lpms_inv w \<Longrightarrow> lpms_inv (pm_sleep_request m i w)"
  using sleep.wf_request [of w m i]
  by (auto simp: lpms_inv_def freq_wf_def sys_simps)

lemma sleep_release_inv [wf_intros]: "lpms_inv w \<Longrightarrow> lpms_inv (pm_sleep_release m i w)"
  using sleep.wf_release [of w m i]
  by (auto simp: lpms_inv_def freq_wf_def sys_simps)

lemma freq_request_inv [wf_intros]:
  assumes inv: "lpms_inv w"
  shows "lpms_inv (pm_freq_request m i w)"
proof (cases "unat m < PM_MODULE_MAX \<and> unat i < PM_FREQ_MODE_MAX - 1")
  case True
  then have "unat (select_freq_mode (pm_sys (pm_freq_request m i w))) =
      min (unat i) (unat (select_freq_mode (pm_sys w)))"
    using inv by (intro freq.select_request) (simp_all add: lpms_inv_def)
  moreover have "unat (freq_mode (pm_sys w)) \<le> unat (select_freq_mode (pm_sys w))"
    using inv by (simp add: lpms_inv_def word_le_nat_alt)
  ultimately have "freq_mode (pm_sys (pm_freq_request m i w))
      \<le> select_freq_mode (pm_sys (pm_freq_request m i w))"
    using True by (simp add: word_le_nat_alt freq_request_sys word_less_nat_alt)
  then show ?thesis
    using inv freq.wf_request [of w m i]
    by (simp add: lpms_inv_def sleep_wf_def) (simp add: sys_simps)
next
  case False
  with inv show ?thesis by (simp add: freq.request_out)
qed

lemma freq_release_inv [wf_intros]:
  assumes inv: "lpms_inv w"
  shows "lpms_inv (pm_freq_release m i w)"
proof (cases "unat m < PM_MODULE_MAX \<and> unat i < PM_FREQ_MODE_MAX - 1")
  case True
  have "unat (select_freq_mode (pm_sys w)) \<le> unat (select_freq_mode (pm_sys (pm_freq_release m i w)))"
    using inv by (intro freq.select_release_mono) (simp add: lpms_inv_def)
  moreover have "freq_mode (pm_sys (pm_freq_release m i w)) = freq_mode (pm_sys w)"
    by (simp add: freq_release_sys)
  ultimately have "freq_mode (pm_sys (pm_freq_release m i w))
      \<le> select_freq_mode (pm_sys (pm_freq_release m i w))"
    using inv by (simp add: lpms_inv_def word_le_nat_alt)
  then show ?thesis
    using inv freq.wf_release [of w m i]
    by (simp add: lpms_inv_def sleep_wf_def) (simp add: sys_simps)
next
  case False
  with inv show ?thesis by (simp add: freq.release_out)
qed

lemma busy_set_inv [wf_intros]: "lpms_inv w \<Longrightarrow> lpms_inv (pm_busy_set m t w)"
  using busy_set_sys [of m t w] by (auto simp: lpms_inv_defs sys_simps)

lemma busy_clear_inv [wf_intros]: "lpms_inv w \<Longrightarrow> lpms_inv (pm_busy_clear m w)"
  by (auto simp: lpms_inv_defs sys_simps)

lemma enable_inv [wf_intros]:
  "lpms_inv w \<Longrightarrow> lpms_inv (lpms_enable w)" "lpms_inv w \<Longrightarrow> lpms_inv (lpms_disable w)"
  by (simp_all add: lpms_inv_defs lpms_enable_def lpms_disable_def sys_simps)

lemma init_inv [wf_intros]:
  "lpms_inv w \<Longrightarrow> lpms_inv (lpms_init tab (freq_val PM_FREQ_HIGH) w)"
  by (simp add: lpms_inv_defs lpms_init_def sys_simps)

lemma hook_ops_inv [wf_intros]:
  assumes "lpms_inv w"
  shows "lpms_inv (snd (lpms_sleep_sethook h w))" "lpms_inv (snd (lpms_sleep_delhook h w))"
    "lpms_inv (snd (lpms_wakeup_sethook h w))" "lpms_inv (snd (lpms_wakeup_delhook h w))"
    "lpms_inv (snd (lpms_freq_sethook h w))" "lpms_inv (snd (lpms_freq_delhook h w))"
  using assms by (simp_all add: lpms_inv_defs hook_laws)

section \<open>The tickless run keeps the invariant\<close>

text \<open>The contract of hook code: it keeps the invariant, as every public operation does.\<close>

definition hooks_keep_inv :: "'e hook_code \<Rightarrow> bool" where
  "hooks_keep_inv hc \<longleftrightarrow> (\<forall>f m w. lpms_inv w \<longrightarrow> lpms_inv (hc f m w))"

lemma notify_inv [wf_intros]:
  assumes "hooks_keep_inv hc" and "lpms_inv w"
  shows "lpms_inv (lpms_notify_sleep hc m w)" "lpms_inv (lpms_notify_wakeup hc m w)"
    "lpms_inv (lpms_notify_freq hc m w)"
  using assms
    sleep_hooks.run_inv [where P = lpms_inv and code = hc and a = m]
    wakeup_hooks.run_inv [where P = lpms_inv and code = hc and a = m]
    freq_hooks.run_inv [where P = lpms_inv and code = hc and a = m]
  by (simp_all add: hooks_keep_inv_def)

lemma check_busy_lists [sys_simps]:
  "pm_hook_list_sleep (snd (check_busy_loop is w)) = pm_hook_list_sleep w"
  "pm_hook_list_wake (snd (check_busy_loop is w)) = pm_hook_list_wake w"
  "pm_hook_list_freq (snd (check_busy_loop is w)) = pm_hook_list_freq w"
  by (induction "is" arbitrary: w) (auto simp: Let_def split_def lpms_call_defs frame_simps)

lemma cap_lists [sys_simps]:
  "pm_hook_list_sleep (cap_sleep_mode c w) = pm_hook_list_sleep w"
  "pm_hook_list_wake (cap_sleep_mode c w) = pm_hook_list_wake w"
  "pm_hook_list_freq (cap_sleep_mode c w) = pm_hook_list_freq w"
  by (simp_all add: cap_sleep_mode_def)

lemma decide_lists [sys_simps]:
  "pm_hook_list_sleep (tickless_decide w) = pm_hook_list_sleep w"
  "pm_hook_list_wake (tickless_decide w) = pm_hook_list_wake w"
  "pm_hook_list_freq (tickless_decide w) = pm_hook_list_freq w"
  by (simp_all add: tickless_decide_def pm_check_busy_def Let_def split_def sys_simps
      lpms_call_defs frame_simps)

lemma decide_inv [wf_intros]:
  assumes inv: "lpms_inv w"
  shows "lpms_inv (tickless_decide w)"
proof -
  obtain m where m: "m \<le> select_sleep_mode (pm_sys w)"
    and eq: "pm_sys (tickless_decide w) = (pm_sys w)\<lparr>sleep_mode := m\<rparr>"
    using decide_sys by blast
  have "unat m \<le> unat (sleep_val PM_SLEEP_DEEP)"
    using m sleep.select_le_dflt [of w] inv by (simp add: lpms_inv_def word_le_nat_alt)
  then have "m \<le> sleep_val PM_SLEEP_DEEP" by (simp add: word_le_nat_alt)
  with inv show ?thesis by (simp add: lpms_inv_defs eq sys_simps)
qed

lemma arm_inv [wf_intros]: "lpms_inv w \<Longrightarrow> lpms_inv (snd (tickless_arm w))"
  by (simp add: tickless_arm_def Let_def split_def)

lemma compensate_inv [wf_intros]: "lpms_inv w \<Longrightarrow> lpms_inv (tickless_compensate b w)"
  by (simp add: tickless_compensate_def Let_def split_def)

lemma freq_update_inv:
  "lpms_inv w \<Longrightarrow> lpms_inv (upd_sys (\<lambda>s. s\<lparr>freq_mode := select_freq_mode s\<rparr>) w)"
  "lpms_inv w \<Longrightarrow> lpms_inv (upd_sys (\<lambda>s. s\<lparr>freq_flag := f\<rparr>) w)"
  by (simp_all add: lpms_inv_defs sys_simps)

lemma freq_handle_inv [wf_intros]:
  assumes "hooks_keep_inv hc" and inv: "lpms_inv w"
  shows "lpms_inv (pm_freq_handle hc w)"
proof -
  let ?w1 = "upd_sys (\<lambda>s. s\<lparr>freq_flag := 0\<rparr>) w"
  let ?mode = "select_freq_mode (pm_sys ?w1)"
  have w1: "lpms_inv ?w1" using inv by (rule freq_update_inv)
  then have "lpms_inv (upd_sys (\<lambda>s. s\<lparr>freq_mode := select_freq_mode s\<rparr>) (pm_set_freq ?mode ?w1))"
    by (intro freq_update_inv) simp
  then have "lpms_inv (upd_sys (\<lambda>s. s\<lparr>freq_mode := ?mode\<rparr>) (pm_set_freq ?mode ?w1))"
    by (simp add: frame_simps)
  with w1 inv show ?thesis
    using assms(1) by (auto simp: pm_freq_handle_def Let_def intro: notify_inv)
qed

lemma run_tickless_inv [wf_intros]:
  assumes "hooks_keep_inv hc" and "lpms_inv w"
  shows "lpms_inv (pm_run_tickless hc w)"
proof (cases "pm_is_enabled w = 0")
  case True
  with assms(2) show ?thesis by (simp add: pm_run_tickless_def)
next
  case False
  let ?arm = "tickless_arm (tickless_decide (snd (pm_irq_disable w)))"
  let ?w3 = "snd ?arm"
  let ?w4 = "lpms_notify_sleep hc (sleep_mode (pm_sys ?w3)) ?w3"
  let ?w5 = "pm_sleep (sleep_mode (pm_sys ?w4)) ?w4"
  let ?w6 = "lpms_notify_wakeup hc (sleep_mode (pm_sys ?w5)) ?w5"
  let ?w8 = "pm_freq_handle hc (tickless_compensate (fst ?arm) ?w6)"
  have "lpms_inv ?w3" using assms(2) by (intro arm_inv decide_inv) simp
  with assms(1) have "lpms_inv ?w4" by (rule notify_inv)
  then have "lpms_inv ?w5" by simp
  with assms(1) have "lpms_inv ?w6" by (rule notify_inv)
  then have "lpms_inv ?w8" by (intro freq_handle_inv compensate_inv assms(1))
  with False show ?thesis by (simp add: pm_run_tickless_def Let_def split_def)
qed

section \<open>Reachable states\<close>

text \<open>
  One rule for each public operation. Between operations the platform changes freely
  (time passes, interrupts run); start-up installs any table with the frequency the
  driver passes.
\<close>

inductive lpms_step :: "'e hook_code \<Rightarrow> 'e lpms_world \<Rightarrow> 'e lpms_world \<Rightarrow> bool" for hc where
  sleep_request: "lpms_step hc w (pm_sleep_request m i w)"
| sleep_release: "lpms_step hc w (pm_sleep_release m i w)"
| idle_request: "lpms_step hc w (pm_idle_lock_request m w)"
| idle_release: "lpms_step hc w (pm_idle_lock_release m w)"
| freq_request: "lpms_step hc w (pm_freq_request m i w)"
| freq_release: "lpms_step hc w (pm_freq_release m i w)"
| busy_set: "lpms_step hc w (pm_busy_set m t w)"
| busy_clear: "lpms_step hc w (pm_busy_clear m w)"
| init: "lpms_step hc w (lpms_init tab (freq_val PM_FREQ_HIGH) w)"
| enable: "lpms_step hc w (lpms_enable w)"
| disable: "lpms_step hc w (lpms_disable w)"
| sleep_sethook: "lpms_step hc w (snd (lpms_sleep_sethook h w))"
| sleep_delhook: "lpms_step hc w (snd (lpms_sleep_delhook h w))"
| wakeup_sethook: "lpms_step hc w (snd (lpms_wakeup_sethook h w))"
| wakeup_delhook: "lpms_step hc w (snd (lpms_wakeup_delhook h w))"
| freq_sethook: "lpms_step hc w (snd (lpms_freq_sethook h w))"
| freq_delhook: "lpms_step hc w (snd (lpms_freq_delhook h w))"
| run: "lpms_step hc w (pm_run_tickless hc w)"
| platform: "lpms_step hc w (w\<lparr>env := e\<rparr>)"

inductive lpms_reachable :: "'e hook_code \<Rightarrow> 'e lpms_world \<Rightarrow> bool" for hc where
  start: "lpms_reachable hc (lpms_start e)"
| step: "lpms_reachable hc w \<Longrightarrow> lpms_step hc w w' \<Longrightarrow> lpms_reachable hc w'"

lemma lpms_step_inv:
  assumes "lpms_step hc w w'" and "hooks_keep_inv hc" and "lpms_inv w"
  shows "lpms_inv w'"
  using assms
  by (induction rule: lpms_step.induct)
    (simp_all add: wf_intros pm_idle_lock_request_def pm_idle_lock_release_def del: freq_val.simps sleep_val.simps)

lemma lpms_reachable_inv:
  assumes "lpms_reachable hc w" and "hooks_keep_inv hc"
  shows "lpms_inv w"
  using assms
proof (induction rule: lpms_reachable.induct)
  case (start e)
  show ?case by (rule lpms_inv_start)
next
  case (step w w')
  then show ?case by (blast intro: lpms_step_inv)
qed

end
