(* ===== verification/Lpms_Mode.thy ===== *)
theory Lpms_Mode
  imports Lpms_Inv
begin

text \<open>
  How LPMS chooses the sleep mode, against a specification on the ordered enum of modes;
  the busy timeouts; the frequency step.
\<close>

section \<open>Sleep modes in the order of the enum\<close>

text \<open>A greater mode is a deeper sleep.\<close>

instantiation pm_sleep_mode_t :: linorder
begin

definition less_eq_pm_sleep_mode_t :: "pm_sleep_mode_t \<Rightarrow> pm_sleep_mode_t \<Rightarrow> bool" where
  "less_eq_pm_sleep_mode_t a b \<longleftrightarrow> sleep_val a \<le> sleep_val b"

definition less_pm_sleep_mode_t :: "pm_sleep_mode_t \<Rightarrow> pm_sleep_mode_t \<Rightarrow> bool" where
  "less_pm_sleep_mode_t a b \<longleftrightarrow> sleep_val a < sleep_val b"

instance
proof
  fix a b c :: pm_sleep_mode_t
  show "a < b \<longleftrightarrow> a \<le> b \<and> \<not> b \<le> a"
    by (auto simp: less_eq_pm_sleep_mode_t_def less_pm_sleep_mode_t_def)
  show "a \<le> a" by (simp add: less_eq_pm_sleep_mode_t_def)
  show "a \<le> b \<Longrightarrow> b \<le> c \<Longrightarrow> a \<le> c" by (auto simp: less_eq_pm_sleep_mode_t_def)
  show "a \<le> b \<Longrightarrow> b \<le> a \<Longrightarrow> a = b"
    by (cases a; cases b) (simp_all add: less_eq_pm_sleep_mode_t_def word_le_nat_alt)
  show "a \<le> b \<or> b \<le> a" by (auto simp: less_eq_pm_sleep_mode_t_def)
qed

end

fun sleep_of :: "nat \<Rightarrow> pm_sleep_mode_t" where
  "sleep_of 0 = PM_SLEEP_NONE"
| "sleep_of (Suc 0) = PM_SLEEP_IDLE"
| "sleep_of (Suc (Suc 0)) = PM_SLEEP_LIGHT"
| "sleep_of _ = PM_SLEEP_DEEP"

lemma sleep_val_of: "i \<le> 3 \<Longrightarrow> sleep_val (sleep_of i) = of_nat i"
  by (cases i rule: sleep_of.cases) (auto simp: numeral_eq_Suc)

lemma sleep_val_mono: "sleep_val a \<le> sleep_val b \<longleftrightarrow> a \<le> b"
  by (simp add: less_eq_pm_sleep_mode_t_def)

lemma sleep_val_le3: "sleep_val a \<le> 3" by (cases a) simp_all

lemma sleep_val_min: "sleep_val (min a b) = min (sleep_val a) (sleep_val b)"
  by (simp add: min_def sleep_val_mono)

section \<open>The specification of the choice\<close>

text \<open>
  The mode to sleep in is the deepest one that nobody objects to: each vote objects to
  modes deeper than its own, a busy module to any sleep, and a system timer that is due
  within the threshold to modes deeper than idle.
\<close>

definition spec_sleep_mode :: "(nat \<times> nat) set \<Rightarrow> bool \<Rightarrow> bool \<Rightarrow> pm_sleep_mode_t" where
  "spec_sleep_mode votes busy near =
     Min (insert PM_SLEEP_DEEP ((\<lambda>v. sleep_of (snd v)) ` votes \<union>
       (if busy then {PM_SLEEP_NONE} else {}) \<union> (if near then {PM_SLEEP_IDLE} else {})))"

text \<open>The platform's getters, where they are installed and reading has no effect.\<close>

definition reads :: "('e lpms_ops \<Rightarrow> ('e \<Rightarrow> u32 \<times> 'e) option) \<Rightarrow> u32 \<Rightarrow> 'e lpms_world \<Rightarrow> bool" where
  "reads sel v w \<longleftrightarrow> (\<exists>tab f. ops (pm_sys w) = Some tab \<and> sel tab = Some f \<and> f (env w) = (v, env w))"

lemma reads_call: "reads sel v w \<Longrightarrow> call_get sel d w = (v, w)"
  by (auto simp: reads_def call_get_def)

lemma reads_sys: "ops s = ops (pm_sys w) \<Longrightarrow> reads sel v (w\<lparr>pm_sys := s\<rparr>) = reads sel v w"
  by (simp add: reads_def)

definition busy_at :: "u32 \<Rightarrow> 'e lpms_world \<Rightarrow> bool" where
  "busy_at now w \<longleftrightarrow> list_ex (\<lambda>t. now < t) (busy_timeout (pm_sys w))"

lemma check_busy_loop_exact:
  assumes "reads op_systick_get now w"
  shows "check_busy_loop is w =
    (if list_ex (\<lambda>i. now < busy_timeout (pm_sys w) ! i) is then PM_FLAG_BUSY else PM_FLAG_IDLE, w)"
  by (induction "is") (auto simp: pm_get_tick_def reads_call [OF assms])

lemma check_busy_exact:
  assumes "reads op_systick_get now w" and "length (busy_timeout (pm_sys w)) = PM_BUSY_MODULE_MAX"
  shows "pm_check_busy w = (if busy_at now w then PM_FLAG_BUSY else PM_FLAG_IDLE, w)"
proof -
  have "list_ex (\<lambda>i. now < busy_timeout (pm_sys w) ! i) [0..<2] = busy_at now w"
    using list_ex_nth [of "\<lambda>t. now < t" "busy_timeout (pm_sys w)"] assms(2)
    by (simp add: busy_at_def)
  then show ?thesis by (simp add: pm_check_busy_def check_busy_loop_exact [OF assms(1)])
qed

lemma select_sleep_mode_spec:
  assumes "sleep_wf w"
  shows "select_sleep_mode (pm_sys w) =
    sleep_val (Min (insert PM_SLEEP_DEEP ((\<lambda>v. sleep_of (snd v)) ` sleep_votes w)))"
proof (cases "sleep_votes w = {}")
  case True
  have "unat (select_sleep_mode (pm_sys w)) = unat (sleep_val PM_SLEEP_DEEP)"
    using sleep.select_law [OF assms] True by simp
  with True show ?thesis by (simp add: word_unat_eq_iff)
next
  case False
  let ?V = "snd ` sleep_votes w"
  have fin: "finite ?V" by (simp add: sleep.votes_finite)
  have le2: "i \<le> 2" if "i \<in> ?V" for i
    using that sleep.votes_mode [of _ _ w] by fastforce
  have mono: "sleep_of i \<le> sleep_of j" if "i \<le> j" "j \<le> 2" for i j
    using that by (auto simp: sleep_val_mono [symmetric] sleep_val_of word_le_nat_alt unat_of_nat)
  have m: "Min ?V \<in> ?V" using False fin by (intro Min_in) auto
  have "Min (sleep_of ` ?V) = sleep_of (Min ?V)"
  proof (rule Min_eqI)
    show "sleep_of (Min ?V) \<le> y" if "y \<in> sleep_of ` ?V" for y
      using that mono le2 Min_le [OF fin] by blast
  qed (use fin m in auto)
  moreover have "sleep_of (Min ?V) \<le> PM_SLEEP_DEEP"
    by (simp add: sleep_val_mono [symmetric] sleep_val_le3)
  ultimately have "Min (insert PM_SLEEP_DEEP (sleep_of ` ?V)) = sleep_of (Min ?V)"
    using fin False by (simp add: Min_insert min_absorb2)
  then have "sleep_val (Min (insert PM_SLEEP_DEEP ((\<lambda>v. sleep_of (snd v)) ` sleep_votes w))) =
      of_nat (Min ?V)"
    using le2 [OF m] by (simp add: image_image sleep_val_of)
  moreover have "unat (select_sleep_mode (pm_sys w)) = Min ?V"
    using sleep.select_law [OF assms] False by simp
  ultimately show ?thesis by (metis of_nat_unat ucast_id)
qed

lemma spec_sleep_mode_min:
  assumes "finite V"
  shows "sleep_val (spec_sleep_mode V busy near) =
    min (if near then 1 else 3) (min (if busy then 0 else 3)
      (sleep_val (Min (insert PM_SLEEP_DEEP ((\<lambda>v. sleep_of (snd v)) ` V)))))"
proof -
  define A where "A = insert PM_SLEEP_DEEP ((\<lambda>v. sleep_of (snd v)) ` V)"
  have A: "finite A" "A \<noteq> {}" using assms by (simp_all add: A_def)
  then have ins: "Min (insert x A) = min x (Min A)" "Min (insert x (insert y A)) = min x (min y (Min A))"
    for x y by (simp_all add: Min_insert)
  have spec: "spec_sleep_mode V busy near = Min ((if near then {PM_SLEEP_IDLE} else {}) \<union>
      (if busy then {PM_SLEEP_NONE} else {}) \<union> A)"
    by (simp add: spec_sleep_mode_def A_def Un_ac)
  have "sleep_val (spec_sleep_mode V busy near) =
      min (if near then 1 else 3) (min (if busy then 0 else 3) (sleep_val (Min A)))"
    unfolding spec using sleep_val_le3 [of "Min A"]
    by (cases busy; cases near) (simp_all add: ins sleep_val_min min_absorb2)
  then show ?thesis by (simp only: A_def)
qed

text \<open>The choice as one update of the control block.\<close>

lemma tickless_decide_refines:
  assumes "lpms_inv w" and "reads op_systick_get now w"
    and "reads op_systick_next_timeout next w"
  shows "tickless_decide w = upd_sys (\<lambda>s. s\<lparr>sleep_mode := sleep_val
    (spec_sleep_mode (sleep_votes w) (busy_at now w)
      (next - now \<le> LPMS_TICKLESS_THRESHOLD_TIME))\<rparr>) w"
proof -
  let ?near = "next - now \<le> LPMS_TICKLESS_THRESHOLD_TIME"
  let ?m = "select_sleep_mode (pm_sys w)"
  let ?w1 = "upd_sys (\<lambda>s. s\<lparr>sleep_mode := ?m\<rparr>) w"
  let ?m3 = "if busy_at now w then 0 else ?m"
  let ?w3 = "upd_sys (\<lambda>s. s\<lparr>sleep_mode := ?m3\<rparr>) w"
  have m: "?m = sleep_val (Min (insert PM_SLEEP_DEEP ((\<lambda>v. sleep_of (snd v)) ` sleep_votes w)))"
    using assms(1) by (intro select_sleep_mode_spec) (simp add: lpms_inv_def)
  have m3: "?m \<le> 3" by (simp add: m sleep_val_le3)
  have r: "reads op_systick_get now (upd_sys (\<lambda>s. s\<lparr>sleep_mode := x\<rparr>) w)"
    "reads op_systick_next_timeout next (upd_sys (\<lambda>s. s\<lparr>sleep_mode := x\<rparr>) w)" for x
    using assms(2,3) by (simp_all add: reads_sys)
  have busy: "pm_check_busy ?w1 = (if busy_at now w then PM_FLAG_BUSY else PM_FLAG_IDLE, ?w1)"
    using check_busy_exact [OF r(1)] assms(1) by (simp add: lpms_inv_def busy_at_def)
  have cap: "(if busy_at now w then cap_sleep_mode 0 ?w1 else ?w1) = ?w3"
    by (auto simp: cap_sleep_mode_def word_neq_0_conv [symmetric])
  have "tickless_decide w = (if ?near then cap_sleep_mode 1 ?w3 else ?w3)"
    using cap by (auto simp: tickless_decide_def Let_def busy pm_next_timeout_def pm_get_tick_def
        reads_call [OF r(1)] reads_call [OF r(2)] split: if_splits)
  also have "\<dots> = upd_sys (\<lambda>s. s\<lparr>sleep_mode := min (if ?near then 1 else 3) ?m3\<rparr>) w"
    using m3 by (auto simp: cap_sleep_mode_def min_def)
  also have "min (if ?near then 1 else 3) ?m3 =
      sleep_val (spec_sleep_mode (sleep_votes w) (busy_at now w) ?near)"
    using m3 by (simp add: spec_sleep_mode_min [OF sleep.votes_finite] min_absorb2 flip: m)
  finally show ?thesis .
qed

text \<open>
  Claim C1 (refinement). With getters that read the tick and the next timeout without
  side effects, the choice made by \<^verbatim>\<open>pm_run_tickless\<close> is the specified mode, and
  nothing but the sleep mode changes.
\<close>

theorem tickless_decide_spec:
  assumes "lpms_inv w" and "reads op_systick_get now w"
    and "reads op_systick_next_timeout next w"
  shows "tickless_decide w = upd_sys (\<lambda>s. s\<lparr>sleep_mode := sleep_val
    (spec_sleep_mode (sleep_votes w) (busy_at now w)
      (next - now \<le> LPMS_TICKLESS_THRESHOLD_TIME))\<rparr>) w"
  using assms by (rule tickless_decide_refines)

end
