(* ===== verification/Lpms_Behaviour.thy ===== *)
theory Lpms_Behaviour
  imports Lpms_Mode
begin

text \<open>
  What a user of LPMS can rely on, operation by operation: votes, busy windows, the
  frequency step and the hook lists, with concrete runs.
\<close>

section \<open>A concrete platform\<close>

text \<open>
  A platform whose environment is the tick; timers are always far away, and every other
  pointer is null.
\<close>

definition tick_ops :: "u32 lpms_ops" where
  "tick_ops = \<lparr>op_sleep = None, op_set_freq = None, op_lptim_start = None, op_lptim_stop = None,
     op_lptim_get_tick = None, op_lptim_next_timeout = None,
     op_systick_get = Some (\<lambda>e. (e, e)), op_systick_set = Some (\<lambda>t e. t),
     op_systick_next_timeout = Some (\<lambda>e. (e + 100, e)),
     op_irq_disable = None, op_irq_enable = None\<rparr>"

definition tick_world :: "u32 \<Rightarrow> u32 lpms_world" where
  "tick_world now = lpms_init (Some tick_ops) (freq_val PM_FREQ_HIGH) (lpms_start now)"

lemma tick_world_inv: "lpms_inv (tick_world now)"
  unfolding tick_world_def by (intro init_inv lpms_inv_start)

lemma tick_world_reachable: "lpms_reachable hc (tick_world now)"
  unfolding tick_world_def by (rule lpms_reachable.step [OF lpms_reachable.start lpms_step.init])

lemma tick_world_reads:
  "reads op_systick_get now (tick_world now)"
  "reads op_systick_next_timeout (now + 100) (tick_world now)"
  by (simp_all add: reads_def tick_world_def lpms_init_def lpms_start_def pm_sys_zero_def tick_ops_def)

lemma tick_world_wf: "sleep_wf (tick_world now)" "freq_wf (tick_world now)"
  using tick_world_inv [of now] by (simp_all add: lpms_inv_def)

section \<open>The choice of the mode\<close>

theorem tickless_decide_witness:
  "tickless_decide (tick_world 5) = upd_sys (\<lambda>s. s\<lparr>sleep_mode := sleep_val
    (spec_sleep_mode (sleep_votes (tick_world 5)) (busy_at 5 (tick_world 5))
      (105 - 5 \<le> LPMS_TICKLESS_THRESHOLD_TIME))\<rparr>) (tick_world 5)"
  using tickless_decide_spec [OF tick_world_inv tick_world_reads [of 5]] by simp

section \<open>Frequency\<close>

text \<open>
  Claim C2 (safety). In every reachable state, whatever the order of operations, the system runs at
  least as fast as every module that holds a frequency request asks for.
\<close>

theorem freq_mode_honours_votes:
  assumes "lpms_reachable hc w" and "hooks_keep_inv hc" and "(m, i) \<in> freq_votes w"
  shows "unat (pm_get_freq_mode w) \<le> i"
proof -
  have inv: "lpms_inv w" by (rule lpms_reachable_inv [OF assms(1,2)])
  then have "freq_mode (pm_sys w) \<le> select_freq_mode (pm_sys w)" by (simp add: lpms_inv_def)
  moreover have "unat (select_freq_mode (pm_sys w)) \<le> i"
    using inv assms(3) by (intro freq.select_le_vote) (simp_all add: lpms_inv_def)
  ultimately show ?thesis by (simp add: pm_get_freq_mode_def word_le_nat_alt)
qed

theorem freq_mode_honours_votes_witness:
  "unat (pm_get_freq_mode (pm_freq_request 10 1 (tick_world 0))) \<le> 1"
proof (rule freq_mode_honours_votes [where hc = "\<lambda>f m w. w" and m = 10])
  show "lpms_reachable (\<lambda>f m w. w) (pm_freq_request 10 1 (tick_world 0))"
    by (rule lpms_reachable.step [OF tick_world_reachable lpms_step.freq_request])
  show "hooks_keep_inv (\<lambda>f m w. w)" by (simp add: hooks_keep_inv_def)
  show "(10, 1) \<in> freq_votes (pm_freq_request 10 1 (tick_world 0))"
    using freq.votes_request [OF tick_world_wf(2), of 10 1] by simp
qed

section \<open>Votes\<close>

lemma env_kept: "\<exists>e. w = w\<lparr>env := e\<rparr>"
  by (rule exI [of _ "env w"]) simp

lemma call_get_env: "\<exists>e. snd (call_get sel d w) = w\<lparr>env := e\<rparr>"
proof (cases "ops (pm_sys w)")
  case None
  then have "snd (call_get sel d w) = w" by (simp add: call_get_def)
  then show ?thesis by (simp only: env_kept)
next
  case (Some tab)
  show ?thesis
  proof (cases "sel tab")
    case None
    then have "snd (call_get sel d w) = w" using Some by (simp add: call_get_def)
    then show ?thesis by (simp only: env_kept)
  next
    case (Some f)
    then have "snd (call_get sel d w) = w\<lparr>env := snd (f (env w))\<rparr>"
      using \<open>ops (pm_sys w) = Some tab\<close> by (simp add: call_get_def split_def)
    then show ?thesis by (rule exI)
  qed
qed

lemma call_do_env: "\<exists>e. call_do sel w = w\<lparr>env := e\<rparr>"
proof (cases "call_do sel w = w")
  case True
  show ?thesis by (simp only: True env_kept)
next
  case False
  then have "call_do sel w = w\<lparr>env := the (sel (the (ops (pm_sys w)))) (env w)\<rparr>"
    by (simp add: call_do_def split: option.splits)
  then show ?thesis by (rule exI)
qed
lemma irq_env:
  "\<exists>e. snd (pm_irq_disable w) = w\<lparr>env := e\<rparr>" "\<exists>e. pm_irq_enable l w = w\<lparr>env := e\<rparr>"
  unfolding pm_irq_disable_def pm_irq_enable_def by (rule call_get_env) (rule call_do_env)

lemma request_frame:
  assumes "unat m < PM_MODULE_MAX \<and> unat i < PM_SLEEP_MODE_MAX - 1"
  shows "(\<exists>st e. pm_sleep_request m i w = w\<lparr>pm_sys := (pm_sys w)\<lparr>sleep_status := st\<rparr>, env := e\<rparr>) \<and>
    (\<exists>st e. pm_sleep_release m i w = w\<lparr>pm_sys := (pm_sys w)\<lparr>sleep_status := st\<rparr>, env := e\<rparr>)"
proof -
  obtain e where e: "snd (pm_irq_disable w) = w\<lparr>env := e\<rparr>" by (rule exE [OF irq_env(1) [of w]])
  have swap: "w\<lparr>env := e, pm_sys := s\<rparr> = w\<lparr>pm_sys := s, env := e\<rparr>" for s by (rule lpms_world.equality) simp_all
  have on: "\<exists>e'. pm_irq_enable l (w\<lparr>pm_sys := s, env := e\<rparr>) = w\<lparr>pm_sys := s, env := e'\<rparr>" for l s
    using irq_env(2) [of l "w\<lparr>pm_sys := s, env := e\<rparr>"] by auto
  have "pm_sleep_request m i w = pm_irq_enable (fst (pm_irq_disable w)) (w\<lparr>pm_sys := (pm_sys w)
      \<lparr>sleep_status := status_set (unat i) (unat m) (sleep_status (pm_sys w))\<rparr>, env := e\<rparr>)"
    "pm_sleep_release m i w = pm_irq_enable (fst (pm_irq_disable w)) (w\<lparr>pm_sys := (pm_sys w)
      \<lparr>sleep_status := status_clear (unat i) (unat m) (sleep_status (pm_sys w))\<rparr>, env := e\<rparr>)"
    using assms by (simp_all add: pm_sleep_request_def pm_sleep_release_def split_def Let_def e swap)
  with on show ?thesis by metis
qed

text \<open>
  Claim C29 (functional). A request adds the vote of the module for the mode and a
  release takes it away. Arguments out of range leave the whole state as it is; those in range change nothing of LPMS
  but the words that hold the votes, and nothing else but what masking the interrupts does. A release undoes any
  number of requests before it: votes are not counted.
\<close>

theorem sleep_votes_of_requests:
  assumes "sleep_wf w"
  shows "sleep_votes (pm_sleep_request m i w) =
      (if unat m < PM_MODULE_MAX \<and> unat i < PM_SLEEP_MODE_MAX - 1
       then insert (unat m, unat i) (sleep_votes w) else sleep_votes w) \<and>
    sleep_votes (pm_sleep_release m i ((pm_sleep_request m i ^^ n) w)) =
      (if unat m < PM_MODULE_MAX \<and> unat i < PM_SLEEP_MODE_MAX - 1
       then sleep_votes w - {(unat m, unat i)} else sleep_votes w) \<and>
    (if unat m < PM_MODULE_MAX \<and> unat i < PM_SLEEP_MODE_MAX - 1
     then (\<exists>st e. pm_sleep_request m i w = w\<lparr>pm_sys := (pm_sys w)\<lparr>sleep_status := st\<rparr>, env := e\<rparr>) \<and>
       (\<exists>st e. pm_sleep_release m i w = w\<lparr>pm_sys := (pm_sys w)\<lparr>sleep_status := st\<rparr>, env := e\<rparr>)
     else pm_sleep_request m i w = w \<and> pm_sleep_release m i w = w)"
proof (cases "unat m < PM_MODULE_MAX \<and> unat i < PM_SLEEP_MODE_MAX - 1")
  case True
  have "sleep_wf ((pm_sleep_request m i ^^ n) w) \<and>
      sleep_votes ((pm_sleep_request m i ^^ n) w) - {(unat m, unat i)} = sleep_votes w - {(unat m, unat i)}"
  proof (induction n)
    case (Suc n)
    then show ?case using True by (auto simp: sleep.votes_request sleep.wf_request)
  qed (simp add: assms)
  with True assms request_frame [OF True, of w] show ?thesis
    by (simp only: sleep.votes_request sleep.votes_release if_P [OF True] if_True simp_thms)
next
  case False
  then have "(pm_sleep_request m i ^^ n) w = w"
    by (induction n) (simp_all add: sleep.request_out)
  then show ?thesis
    by (simp only: if_not_P [OF False] sleep.release_out [OF False] sleep.request_out [OF False])
qed

theorem sleep_votes_of_requests_witness:
  "sleep_votes (pm_sleep_release 3 1 ((pm_sleep_request 3 1 ^^ 5) (tick_world 0))) =
     sleep_votes (tick_world 0) - {(3, 1)} \<and> pm_sleep_request 20 1 (tick_world 0) = tick_world 0"
  using sleep_votes_of_requests [OF tick_world_wf(1) [of 0], of 3 1 5]
    sleep_votes_of_requests [OF tick_world_wf(1) [of 0], of 20 1 0] by simp

section \<open>Busy windows\<close>

text \<open>
  Claim C30 (functional). While the tick does not wrap, a module that set itself busy for some ticks keeps
  the system from any sleep until exactly that many ticks have passed, unless another
  module is busy for longer.
\<close>

theorem busy_window:
  assumes inv: "lpms_inv w" and set: "reads op_systick_get t0 (snd (pm_irq_disable w))"
    and m: "m = 0 \<or> m = 1" and n: "1 \<le> n" "n < PM_TICK_MAX div 2"
    and no_wrap: "unat t0 + unat n < 2 ^ 32"
    and later: "reads op_systick_get now (pm_busy_set m n w\<lparr>env := e\<rparr>)"
  shows "fst (pm_check_busy (pm_busy_set m n w\<lparr>env := e\<rparr>)) =
    (if unat now < unat t0 + unat n \<or> now < busy_timeout (pm_sys w) ! (1 - unat m)
     then PM_FLAG_BUSY else PM_FLAG_IDLE)"
proof -
  let ?w' = "pm_busy_set m n w\<lparr>env := e\<rparr>"
  have len: "length (busy_timeout (pm_sys w)) = 2" using inv by (simp add: lpms_inv_def)
  have n0: "n \<noteq> 0" using n(1) by auto
  have m2: "\<not> PM_BUSY_MODULE_MAX \<le> unat m" using m by auto
  have sys: "pm_sys (pm_busy_set m n w) =
      (pm_sys w)\<lparr>busy_timeout := (busy_timeout (pm_sys w))[unat m := t0 + n]\<rparr>"
    using n0 n(2) m2 by (simp add: pm_busy_set_def pm_get_tick_def Let_def split_def frame_simps
      reads_call [OF set])
  have "lpms_inv ?w'" using inv by (simp add: busy_set_inv)
  then have "pm_check_busy ?w' = (if busy_at now ?w' then PM_FLAG_BUSY else PM_FLAG_IDLE, ?w')"
    by (intro check_busy_exact [OF later]) (simp add: lpms_inv_def)
  moreover have "busy_at now ?w' \<longleftrightarrow> now < t0 + n \<or> now < busy_timeout (pm_sys w) ! (1 - unat m)"
  proof -
    obtain a b where ab: "busy_timeout (pm_sys w) = [a, b]"
      using len by (auto simp: numeral_2_eq_2 length_Suc_conv)
    have sysm: "busy_timeout (pm_sys (pm_busy_set m n w)) = [a, b][unat m := t0 + n]"
      by (simp add: sys ab)
    show ?thesis using m sysm by (elim disjE) (auto simp: busy_at_def ab)
  qed
  moreover have "unat (t0 + n) = unat t0 + unat n"
    using no_wrap by (intro unat_add_lem [THEN iffD1]) simp
  ultimately show ?thesis by (simp add: word_less_nat_alt)
qed


theorem busy_window_witness:
  "fst (pm_check_busy (pm_busy_set 1 20 (tick_world 7)\<lparr>env := 26\<rparr>)) = PM_FLAG_BUSY \<and>
   fst (pm_check_busy (pm_busy_set 1 20 (tick_world 7)\<lparr>env := 27\<rparr>)) = PM_FLAG_IDLE"
proof -
  have set: "reads op_systick_get 7 (snd (pm_irq_disable (tick_world 7)))"
    by (simp add: reads_def tick_world_def lpms_init_def lpms_start_def pm_sys_zero_def tick_ops_def
      lpms_call_defs call_get_def)
  have later: "reads op_systick_get x (pm_busy_set 1 20 (tick_world 7)\<lparr>env := x\<rparr>)" for x
    by (simp add: reads_def tick_world_def lpms_init_def lpms_start_def pm_sys_zero_def tick_ops_def
      pm_busy_set_def Let_def lpms_call_defs call_get_def call_do_def)
  have b: "busy_timeout (pm_sys (tick_world 7)) ! 0 = 0"
    by (simp add: tick_world_def lpms_init_def lpms_start_def pm_sys_zero_def)
  show ?thesis
    using busy_window [OF tick_world_inv set _ _ _ _ later, of 26]
      busy_window [OF tick_world_inv set _ _ _ _ later, of 27] b by simp
qed

text \<open>
  Near the wrap-around of the tick the comparison \<^verbatim>\<open>timeout > tick\<close>
  fails: a module that has just set itself busy for 32 ticks is taken for idle at once.
\<close>

theorem busy_lost_at_wrap:
  "fst (pm_check_busy (pm_busy_set 1 32 (tick_world 0xFFFFFFF0))) = PM_FLAG_IDLE"
proof -
  let ?w = "tick_world 0xFFFFFFF0"
  have calls: "pm_get_tick ?w = (0xFFFFFFF0, ?w)" "pm_irq_disable ?w = (0, ?w)"
    by (simp_all add: tick_world_def lpms_init_def lpms_start_def pm_sys_zero_def tick_ops_def
      lpms_call_defs call_get_def)
  have enable: "pm_irq_enable l w = w" if "ops (pm_sys w) = Some tick_ops" for l and w :: "u32 lpms_world"
    using that by (simp add: lpms_call_defs call_do_def tick_ops_def)
  have opsw: "ops (pm_sys ?w) = Some tick_ops" and bt: "busy_timeout (pm_sys ?w) = [0, 0]"
    by (simp_all add: tick_world_def lpms_init_def lpms_start_def pm_sys_zero_def numeral_2_eq_2)
  have set: "pm_busy_set 1 32 ?w = ?w\<lparr>pm_sys := pm_sys ?w\<lparr>busy_timeout := [0, 0x10]\<rparr>\<rparr>"
    by (simp add: pm_busy_set_def calls enable opsw bt)
  have "reads op_systick_get 0xFFFFFFF0 (pm_busy_set 1 32 ?w)"
    using tick_world_reads(1) [where now = "0xFFFFFFF0"] by (simp add: set reads_sys)
  from check_busy_exact [OF this] show ?thesis by (simp add: set busy_at_def)
qed

section \<open>The frequency step\<close>

text \<open>
  When a module releases its frequency request, the next
  frequency step moves the system to the fastest mode that is still requested, or to the slowest one
  when no request is left.
\<close>

theorem freq_step_after_release:
  assumes inv: "lpms_inv w" and quiet: "\<And>f mode w. pm_sys (hc f mode w) = pm_sys w"
    and "unat m < PM_MODULE_MAX" and "unat i < PM_FREQ_MODE_MAX - 1"
  shows "unat (pm_get_freq_mode (pm_freq_handle hc (pm_freq_release m i w))) =
    Min (insert (unat (freq_val PM_FREQ_LOW)) (snd ` (freq_votes w - {(unat m, unat i)})))"
proof -
  let ?w1 = "pm_freq_release m i w"
  have notify: "pm_sys (lpms_notify_freq hc mode w') = pm_sys w'" for mode w'
    using freq_hooks.run_inv [where P = "\<lambda>v. pm_sys v = pm_sys w'" and code = hc and a = mode and w = w']
    by (simp add: quiet)
  have flag: "freq_flag (pm_sys ?w1) = 1" using assms(3,4) by (simp add: freq_release_sys)
  have "freq_mode (pm_sys (pm_freq_handle hc v)) = select_freq_mode (pm_sys v)"
    if "freq_flag (pm_sys v) = 1" for v
    using that by (simp add: pm_freq_handle_def Let_def notify sys_simps frame_simps)
  then have "freq_mode (pm_sys (pm_freq_handle hc ?w1)) = select_freq_mode (pm_sys ?w1)"
    using flag by simp
  moreover have "unat (select_freq_mode (pm_sys ?w1)) =
      Min (insert (unat (freq_val PM_FREQ_LOW)) (snd ` freq_votes ?w1))"
    using inv by (intro freq.select_least freq.wf_release) (simp add: lpms_inv_def)
  moreover have "freq_votes ?w1 = freq_votes w - {(unat m, unat i)}"
    using inv assms(3,4) by (intro freq.votes_release) (simp_all add: lpms_inv_def)
  ultimately show ?thesis by (simp add: pm_get_freq_mode_def)
qed


theorem freq_step_after_release_witness:
  "unat (pm_get_freq_mode (pm_freq_handle (\<lambda>f mode w. w) (pm_freq_release 10 0
     (pm_freq_request 10 0 (tick_world 0))))) = 2"
proof -
  let ?w = "pm_freq_request 10 0 (tick_world 0)"
  have none: "freq_votes (tick_world 0) = {}"
    by (auto simp: freq_votes_def status_votes_iff tick_world_def lpms_init_def lpms_start_def
      pm_sys_zero_def numeral_2_eq_2 less_Suc_eq)
  have "freq_votes ?w = {(10, 0)}"
    using freq.votes_request [OF tick_world_wf(2), of 10 0] none by simp
  moreover have "lpms_inv ?w" by (intro freq_request_inv tick_world_inv)
  ultimately show ?thesis
    using freq_step_after_release [of ?w "\<lambda>f mode w. w" 10 0] by simp
qed

section \<open>Hook lists\<close>

text \<open>
  The wake-up hooks that are registered run exactly once each, in
  slot order, with the mode that was left; registering a hook and deleting it again
  restores the list slot by slot; and a hook cannot be registered when the list is full.
\<close>

theorem wakeup_hooks_contract:
  assumes "length (pm_hook_list_wake w) = LPMS_HOOK_LIST_WAKE_SIZE"
    and "\<And>f w. pm_hook_list_wake (hc f mode w) = pm_hook_list_wake w"
  shows "lpms_notify_wakeup hc mode w = fold (\<lambda>f. hc f mode) (hooks_of (pm_hook_list_wake w)) w \<and>
    (Some g \<notin> set (pm_hook_list_wake w) \<and> None \<in> set (pm_hook_list_wake w) \<longrightarrow>
      pm_hook_list_wake (snd (lpms_wakeup_delhook (Some g) (snd (lpms_wakeup_sethook (Some g) w))))
        = pm_hook_list_wake w) \<and>
    (None \<notin> set (pm_hook_list_wake w) \<longrightarrow> fst (lpms_wakeup_sethook h w) = - LPMS_EFULL)"
  using wakeup_hooks.run_in_order [where code = hc and a = mode, OF assms] wakeup_hooks.set_del_roundtrip [of g w]
    wakeup_hooks.sethook_full [of w h] by auto

theorem wakeup_hooks_contract_witness:
  "lpms_notify_wakeup (\<lambda>f mode w. w\<lparr>env := env w @ [f]\<rparr>) 2
     ((lpms_start [])\<lparr>pm_hook_list_wake := [Some 7, None, Some 5, None]\<rparr>) =
   fold (\<lambda>f w. w\<lparr>env := env w @ [f]\<rparr>) [7, 5]
     ((lpms_start [])\<lparr>pm_hook_list_wake := [Some 7, None, Some 5, None]\<rparr>)"
  using wakeup_hooks_contract [of "(lpms_start [])\<lparr>pm_hook_list_wake := [Some 7, None, Some 5, None]\<rparr>"
      "\<lambda>f mode w. w\<lparr>env := env w @ [f]\<rparr>" 2] by simp

end
