(* ===== verification/Timer_Correct.thy ===== *)
theory Timer_Correct
  imports Timer
begin

text \<open>
  The timer list is sorted by the time that is left, although ticks wrap around: relative
  to a base tick \<open>b\<close>, every timer of the list lies in the window of half the tick
  range that starts at \<open>b\<close>, and the list is sorted by the distance from \<open>b\<close>.
  Starting a timer keeps this, the next timeout is the least one, and a check fires
  exactly the timers that are due.
\<close>

section \<open>Flags\<close>

lemma flag_bits:
  "flag_has 1 tm \<longleftrightarrow> bit (tm_flag tm) 0" "flag_has 2 tm \<longleftrightarrow> bit (tm_flag tm) 1"
proof -
  have two: "bit (2 :: u8) i \<longleftrightarrow> i = 1" for i
    using bit_exp_iff [of 1 i, where ?'a = u8] by (auto simp: possible_bit_word)
  have "flag_has m tm \<longleftrightarrow> (\<exists>i. bit (tm_flag tm) i \<and> bit m i)" for m
  proof -
    have "x \<noteq> 0 \<longleftrightarrow> (\<exists>i. bit x i)" for x :: u8
      using bit_eqI [of x 0] by auto
    then show ?thesis by (simp add: flag_has_def bit_and_iff)
  qed
  then show "flag_has 1 tm \<longleftrightarrow> bit (tm_flag tm) 0" "flag_has 2 tm \<longleftrightarrow> bit (tm_flag tm) 1"
    by (simp_all only: two bit_1_iff) auto
qed

lemma flag_after [simp]:
  "flag_has 1 (flag_clear 1 tm) = False" "flag_has 2 (flag_clear 1 tm) = flag_has 2 tm"
  "flag_has 1 (flag_or 1 tm) = True" "flag_has 2 (flag_or 1 tm) = flag_has 2 tm"
  "flag_has 2 (flag_clear 2 tm) = False" "flag_has 1 (flag_clear 2 tm) = flag_has 1 tm"
  "flag_has 2 (flag_or 2 tm) = True" "flag_has 1 (flag_or 2 tm) = flag_has 1 tm"
proof -
  have two: "bit (2 :: u8) i \<longleftrightarrow> i = 1" for i
    using bit_exp_iff [of 1 i, where ?'a = u8] by (auto simp: possible_bit_word)
  show "flag_has 1 (flag_clear 1 tm) = False" "flag_has 2 (flag_clear 1 tm) = flag_has 2 tm"
    "flag_has 1 (flag_or 1 tm) = True" "flag_has 2 (flag_or 1 tm) = flag_has 2 tm"
    "flag_has 2 (flag_clear 2 tm) = False" "flag_has 1 (flag_clear 2 tm) = flag_has 1 tm"
    "flag_has 2 (flag_or 2 tm) = True" "flag_has 1 (flag_or 2 tm) = flag_has 1 tm"
    unfolding flag_bits
    by (auto simp: flag_clear_def flag_or_def bit_and_iff bit_or_iff bit_not_iff bit_1_iff two)
qed

lemma timer_fields [simp]:
  "init_tick (flag_clear m tm) = init_tick tm" "timeout_tick (flag_clear m tm) = timeout_tick tm"
  "init_tick (flag_or m tm) = init_tick tm" "timeout_tick (flag_or m tm) = timeout_tick tm"
  "timeout_func (flag_clear m tm) = timeout_func tm" "tm_param (flag_clear m tm) = tm_param tm"
  "timeout_func (flag_or m tm) = timeout_func tm" "tm_param (flag_or m tm) = tm_param tm"
  by (simp_all add: flag_clear_def flag_or_def)

lemma flag_has_tick [simp]:
  "flag_has m (tm\<lparr>timeout_tick := v\<rparr>) = flag_has m tm"
  by (simp add: flag_has_def)

section \<open>Distances on the tick circle\<close>

text \<open>How far a tick lies after the base.\<close>

definition dist :: "u32 \<Rightarrow> u32 \<Rightarrow> nat" where
  "dist b t = unat (t - b)"

abbreviation HALF :: nat where "HALF \<equiv> 0x7FFFFFFF"

lemma tick_half: "unat TICK_HALF = HALF" by simp

lemma sub_via_base: "x - y = (x - b) - (y - b)" for x y b :: u32
  by simp

lemma dist_zero: "x - y = 0 \<longleftrightarrow> dist b x = dist b y"
  unfolding dist_def by (simp flip: word_unat_eq_iff)

lemma unat_sub_cases:
  "unat (x - y) = (if unat y \<le> unat x then unat x - unat y else 2 ^ 32 + unat x - unat y)"
  for x y :: u32
proof -
  have bounds: "unat x < 2 ^ 32" "unat y < 2 ^ 32"
    using unsigned_less [of x, where ?'a = nat] unsigned_less [of y, where ?'a = nat] by simp_all
  have int_bounds: "int (unat x) < 2 ^ 32" "0 \<le> int (unat y)" "int (unat y) < 2 ^ 32"
    using bounds by (metis of_nat_less_iff of_nat_numeral of_nat_power, simp,
      metis of_nat_less_iff of_nat_numeral of_nat_power)
  have "int (unat (x - y)) = (int (unat x) - int (unat y)) mod 2 ^ 32"
    by (simp add: uint_word_ariths flip: uint_nat)
  also have "\<dots> = int (if unat y \<le> unat x then unat x - unat y else 2 ^ 32 + unat x - unat y)"
  proof (cases "unat y \<le> unat x")
    case True
    then have "(int (unat x) - int (unat y)) mod 2 ^ 32 = int (unat x) - int (unat y)"
      using int_bounds by (intro mod_pos_pos_trivial) linarith+
    with True show ?thesis by (simp only: of_nat_diff if_True)
  next
    case False
    then have "(int (unat x) - int (unat y)) mod 2 ^ 32
        = (int (unat x) - int (unat y) + 2 ^ 32) mod 2 ^ 32" by simp
    also have "\<dots> = int (unat x) - int (unat y) + 2 ^ 32"
      using int_bounds False by (intro mod_pos_pos_trivial) linarith+
    also have "\<dots> = int (2 ^ 32 + unat x - unat y)"
      using bounds by (simp only: of_nat_diff of_nat_add of_nat_power of_nat_numeral
        less_imp_le trans_le_add1)
    finally show ?thesis using False by (simp only: if_False)
  qed
  finally show ?thesis by (simp only: of_nat_eq_iff)
qed

lemma dist_less:
  assumes "dist b x < HALF" and "dist b y < HALF"
  shows "x - y < TICK_HALF \<longleftrightarrow> dist b y \<le> dist b x"
proof -
  have "unat (x - y) = (if dist b y \<le> dist b x then dist b x - dist b y
      else 2 ^ 32 + dist b x - dist b y)"
    using unat_sub_cases [of "x - b" "y - b"] by (simp add: dist_def)
  with assms show ?thesis
    unfolding word_less_nat_alt tick_half by auto
qed

section \<open>The sorted list\<close>

definition by_dist :: "u32 \<Rightarrow> 'x kernel_scheme \<Rightarrow> nat \<Rightarrow> nat" where
  "by_dist b k t = dist b (tick_of k t)"

definition timers_ok :: "u32 \<Rightarrow> 'x kernel_scheme \<Rightarrow> bool" where
  "timers_ok b k \<longleftrightarrow> distinct (timer_list k) \<and>
     (\<forall>t \<in> set (timer_list k). by_dist b k t < HALF \<and> is_timer t k \<and>
        (\<exists>tm. timers k t = Some tm \<and> flag_has RT_TIMER_FLAG_ACTIVATED tm)) \<and>
     sorted (map (by_dist b k) (timer_list k))"

text \<open>Inside the window, the walk is insertion after all timers that are not later.\<close>

lemma timer_insert_window:
  assumes "dist b new < HALF" and "\<forall>p \<in> set xs. dist b (tick p) < HALF"
  shows "timer_insert tick new t xs =
    takeWhile (\<lambda>p. dist b (tick p) \<le> dist b new) xs @ t #
    dropWhile (\<lambda>p. dist b (tick p) \<le> dist b new) xs"
  using assms
proof (induction xs)
  case Nil
  then show ?case by simp
next
  case (Cons p xs)
  then have p: "dist b (tick p) < HALF" by simp
  have "tick p - new < TICK_HALF \<longleftrightarrow> dist b new \<le> dist b (tick p)"
    using dist_less [OF p Cons.prems(1)] .
  moreover have "tick p - new = 0 \<longleftrightarrow> dist b (tick p) = dist b new"
    by (rule dist_zero)
  ultimately show ?case using Cons by (auto simp del: right_minus_eq)
qed

lemma set_timer_insert: "set (timer_insert tick new t xs) = insert t (set xs)"
  by (induction xs) auto

lemma sorted_split:
  assumes "sorted (map f xs)"
  shows "sorted (map f (takeWhile (\<lambda>p. f p \<le> c) xs))"
    and "sorted (map f (dropWhile (\<lambda>p. f p \<le> c) xs))"
    and "\<forall>p \<in> set (dropWhile (\<lambda>p. f p \<le> c) xs). c \<le> f p"
  using assms
proof (induction xs)
  case (Cons x xs)
  {
    case 1
    then show ?case using Cons.IH(1) by (auto dest: set_takeWhileD)
  next
    case 2
    then show ?case using Cons.IH(2) by simp
  next
    case 3
    then show ?case using Cons.IH(3) by auto
  }
qed simp_all

lemma sorted_drop_strict:
  fixes f :: "'a \<Rightarrow> nat"
  shows "sorted (map f xs) \<Longrightarrow> \<forall>p \<in> set (dropWhile (\<lambda>p. f p \<le> c) xs). c < f p"
  by (induction xs) auto

lemma timer_insert_sorted:
  assumes sorted: "sorted (map (\<lambda>p. dist b (tick p)) xs)"
    and window: "dist b new < HALF" "\<forall>p \<in> set xs. dist b (tick p) < HALF"
    and t: "tick t = new"
  shows "sorted (map (\<lambda>p. dist b (tick p)) (timer_insert tick new t xs))"
proof -
  let ?f = "\<lambda>p. dist b (tick p)"
  let ?A = "takeWhile (\<lambda>p. ?f p \<le> dist b new) xs"
  let ?B = "dropWhile (\<lambda>p. ?f p \<le> dist b new) xs"
  have A: "\<forall>p \<in> set ?A. ?f p \<le> dist b new" by (auto dest: set_takeWhileD)
  have B: "\<forall>p \<in> set ?B. dist b new \<le> ?f p" by (rule sorted_split(3) [OF sorted])
  have AB: "\<forall>p \<in> set ?A. \<forall>q \<in> set ?B. ?f p \<le> ?f q" using A B by (meson order.trans)
  have "sorted (map ?f (?A @ t # ?B))"
    using A B AB sorted_split(1,2) [OF sorted] t by (simp add: sorted_append)
  then show ?thesis by (simp only: timer_insert_window [OF window])
qed

lemma timer_insert_remove1:
  "t \<notin> set xs \<Longrightarrow> remove1 t (timer_insert tick new t xs) = xs"
  by (induction xs) auto

lemma distinct_timer_insert:
  "distinct xs \<Longrightarrow> t \<notin> set xs \<Longrightarrow> distinct (timer_insert tick new t xs)"
  by (induction xs) (auto simp: set_timer_insert)

section \<open>Starting\<close>

definition started :: "u32 \<Rightarrow> rt_timer \<Rightarrow> rt_timer" where
  "started now tm = flag_or RT_TIMER_FLAG_ACTIVATED
     ((flag_clear RT_TIMER_FLAG_ACTIVATED tm)\<lparr>timeout_tick := now + init_tick tm\<rparr>)"

lemma started_fields [simp]:
  "timeout_tick (started now tm) = now + init_tick tm" "init_tick (started now tm) = init_tick tm"
  "timeout_func (started now tm) = timeout_func tm" "tm_param (started now tm) = tm_param tm"
  "flag_has 1 (started now tm)" "flag_has 2 (started now tm) = flag_has 2 tm"
  by (simp_all add: started_def)

lemma flag_clear_twice [simp]: "flag_clear m (flag_clear m tm) = flag_clear m tm"
  by (simp add: flag_clear_def and.assoc)

lemma started_cleared [simp]: "started now (flag_clear 1 tm) = started now tm"
  by (simp add: started_def)

lemma timer_insert_tick_of:
  assumes "timers k' = (timers k)(t := v)" and "t \<notin> set xs"
  shows "timer_insert (tick_of k') new t xs = timer_insert (tick_of k) new t xs"
  using assms(2) by (induction xs) (auto simp: tick_of_def assms(1))

lemma is_timer_frame:
  "objects k' = objects k \<Longrightarrow> is_timer t k' = is_timer t k"
  by (simp add: is_timer_def rt_object_get_type_def)

lemma step_frame [simp]:
  "timers (timer_remove t k) = timers k"
  "timers (upd_timer t f k) = (timers k)(t := map_option f (timers k t))"
  "timers (timer_link new t k) = timers k"
  "timer_list (timer_remove t k) = remove1 t (timer_list k)"
  "timer_list (upd_timer t f k) = timer_list k"
  "check_lists (timer_remove t k) = map (remove1 t) (check_lists k)"
  "check_lists (upd_timer t f k) = check_lists k"
  "check_lists (timer_link new t k) = check_lists k"
  "rt_object_take_hook (timer_remove t k) = rt_object_take_hook k"
  "rt_object_take_hook (upd_timer t f k) = rt_object_take_hook k"
  "rt_tick (timer_remove t k) = rt_tick k" "rt_tick (upd_timer t f k) = rt_tick k"
  "objects (timer_remove t k) = objects k" "objects (upd_timer t f k) = objects k"
  "objects (timer_link new t k) = objects k"
  by (simp_all add: timer_remove_def upd_timer_def timer_link_def Let_def)

lemma rt_timer_start_eq:
  assumes timer: "is_timer t k" and tm: "timers k t = Some tm"
    and init: "init_tick tm < TICK_HALF" and hook: "rt_object_take_hook k = None"
    and dist: "distinct (timer_list k)"
  shows "rt_timer_start code t k = Some (RT_EOK,
    k\<lparr>timers := (timers k)(t \<mapsto> started (rt_tick k) tm),
      timer_list := timer_insert (tick_of k) (rt_tick k + init_tick tm) t (remove1 t (timer_list k)),
      check_lists := map (remove1 t) (check_lists k), random_nr := random_nr k + 1\<rparr>)"
proof -
  let ?new = "rt_tick k + init_tick tm" and ?L = "remove1 t (timer_list k)"
  let ?k3 = "upd_timer t (flag_clear 1) (timer_remove t (k\<lparr>primask := 1\<rparr>))"
  let ?k5 = "upd_timer t (\<lambda>tm. tm\<lparr>timeout_tick := ?new\<rparr>) ?k3"
  have "rt_timer_start code t k = Some (RT_EOK,
    rt_hw_interrupt_enable (primask k) (upd_timer t (flag_or 1) (timer_link ?new t ?k5)))"
    using assms by (simp add: rt_timer_start_def rt_hw_interrupt_disable_def rt_tick_get_def Let_def)
  moreover have "timer_link ?new t ?k5 = ?k5\<lparr>random_nr := random_nr k + 1,
      timer_list := timer_insert (tick_of k) ?new t ?L\<rparr>"
  proof -
    have "timer_insert (tick_of (?k5\<lparr>random_nr := r\<rparr>)) ?new t ?L
        = timer_insert (tick_of k) ?new t ?L" for r
      by (rule timer_insert_tick_of [where v = "timers ?k5 t"]) (simp_all add: dist)
    then show ?thesis by (simp add: timer_link_def upd_timer_def timer_remove_def)
  qed
  moreover have "rt_hw_interrupt_enable (primask k) (upd_timer t (flag_or 1)
      (?k5\<lparr>random_nr := r, timer_list := l\<rparr>)) =
    k\<lparr>timers := (timers k)(t \<mapsto> started (rt_tick k) tm), timer_list := l,
      check_lists := map (remove1 t) (check_lists k), random_nr := r\<rparr>" for r l
    using tm by (simp add: irq_defs upd_timer_def timer_remove_def started_def)
  ultimately show ?thesis by simp
qed


text \<open>The window is kept, and the new timer stands behind all that are not later.\<close>

lemma by_dist_cong: "timers k' t = timers k t \<Longrightarrow> by_dist b k' t = by_dist b k t"
  by (simp add: by_dist_def tick_of_def)

lemma timers_okI:
  assumes "distinct (timer_list k)"
    and "\<And>t. t \<in> set (timer_list k) \<Longrightarrow> by_dist b k t < HALF"
    and "\<And>t. t \<in> set (timer_list k) \<Longrightarrow> is_timer t k"
    and "\<And>t. t \<in> set (timer_list k) \<Longrightarrow> \<exists>tm. timers k t = Some tm \<and> flag_has 1 tm"
    and "sorted (map (by_dist b k) (timer_list k))"
  shows "timers_ok b k"
  using assms by (simp add: timers_ok_def)

lemma timers_ok_remove:
  assumes ok: "timers_ok b k" and list: "timer_list k' = remove1 t (timer_list k)"
    and objs: "objects k' = objects k" and rest: "\<And>p. p \<noteq> t \<Longrightarrow> timers k' p = timers k p"
  shows "timers_ok b k'"
proof (rule timers_okI)
  have dist: "distinct (timer_list k)" using ok by (simp add: timers_ok_def)
  then show "distinct (timer_list k')" by (simp add: list)
  have old: "p \<in> set (timer_list k) \<and> p \<noteq> t \<and> timers k' p = timers k p \<and> by_dist b k' p = by_dist b k p"
    if "p \<in> set (timer_list k')" for p
  proof -
    have p: "p \<in> set (timer_list k)" "p \<noteq> t" using that dist by (simp_all add: list)
    show ?thesis using p rest [OF p(2)] by_dist_cong [OF rest [OF p(2)]] by simp
  qed
  show "by_dist b k' p < HALF" "is_timer p k'" "\<exists>tm. timers k' p = Some tm \<and> flag_has 1 tm"
    if "p \<in> set (timer_list k')" for p
    using old [OF that] ok is_timer_frame [OF objs, of p] by (simp_all add: timers_ok_def)
  have "map (by_dist b k') (timer_list k') = map (by_dist b k) (timer_list k')"
    by (rule map_cong) (simp_all add: old)
  moreover have "sorted (map (by_dist b k) (remove1 t (timer_list k)))"
    using ok by (simp add: timers_ok_def sorted_map_remove1)
  ultimately show "sorted (map (by_dist b k') (timer_list k'))" by (simp only: list)
qed

lemma timers_ok_link:
  assumes ok: "timers_ok b k" and fresh: "t \<notin> set (timer_list k)"
    and list: "timer_list k' = timer_insert (tick_of k) (timeout_tick tm) t (timer_list k)"
    and objs: "objects k' = objects k" and timer: "is_timer t k"
    and upd: "timers k' = (timers k)(t \<mapsto> tm)" and act: "flag_has 1 tm"
    and window: "dist b (timeout_tick tm) < HALF"
  shows "timers_ok b k'"
proof (rule timers_okI)
  let ?L = "timer_list k"
  have same: "by_dist b k' p = by_dist b k p" if "p \<in> set ?L" for p
    by (rule by_dist_cong) (use that fresh upd in auto)
  have new: "by_dist b k' t = dist b (timeout_tick tm)" by (simp add: by_dist_def tick_of_def upd)
  show "distinct (timer_list k')"
    using ok fresh by (simp add: list distinct_timer_insert timers_ok_def)
  show "by_dist b k' p < HALF" "is_timer p k'" "\<exists>tm. timers k' p = Some tm \<and> flag_has 1 tm"
    if "p \<in> set (timer_list k')" for p
    using that ok fresh same [of p] new window timer act is_timer_frame [OF objs, of p]
    by (auto simp: list set_timer_insert timers_ok_def upd)
  have "sorted (map (\<lambda>p. dist b (tick_of k' p)) (timer_insert (tick_of k') (timeout_tick tm) t ?L))"
  proof (rule timer_insert_sorted)
    have "map (by_dist b k') ?L = map (by_dist b k) ?L"
      by (rule map_cong) (simp_all add: same)
    then have "sorted (map (by_dist b k') ?L)" using ok by (simp only: timers_ok_def)
    then show "sorted (map (\<lambda>p. dist b (tick_of k' p)) ?L)"
      by (simp add: by_dist_def [abs_def])
    show "\<forall>p \<in> set ?L. dist b (tick_of k' p) < HALF"
      using ok same by (simp add: timers_ok_def by_dist_def)
    show "tick_of k' t = timeout_tick tm" by (simp add: tick_of_def upd)
  qed (rule window)
  moreover have "timer_insert (tick_of k') (timeout_tick tm) t ?L = timer_list k'"
    unfolding list by (rule timer_insert_tick_of [OF upd fresh])
  ultimately show "sorted (map (by_dist b k') (timer_list k'))"
    by (simp add: by_dist_def [abs_def])
qed

text \<open>A timer object, for concrete runs.\<close>

definition add_timer :: "nat \<Rightarrow> u8 \<Rightarrow> u32 \<Rightarrow> kernel \<Rightarrow> kernel" where
  "add_timer t flag time k =
     timer_init t 0 0 time flag (k\<lparr>objects := (objects k)(t \<mapsto> \<lparr>ob_name = [], ob_type = 0x8a\<rparr>)\<rparr>)"

text \<open>The same with a started timer at the end of the list.\<close>

definition add_started :: "nat \<Rightarrow> u8 \<Rightarrow> u32 \<Rightarrow> u32 \<Rightarrow> kernel \<Rightarrow> kernel" where
  "add_started t flag time tmo k =
     k\<lparr>objects := (objects k)(t \<mapsto> \<lparr>ob_name = [], ob_type = 0x8a\<rparr>),
       timers := (timers k)(t \<mapsto> \<lparr>tm_flag = flag OR 1, timeout_func = t, tm_param = 0,
         init_tick = time, timeout_tick = tmo\<rparr>),
       timer_list := timer_list k @ [t]\<rparr>"

lemma timers_ok_empty: "timer_list k = [] \<Longrightarrow> timers_ok b k"
  by (simp add: timers_ok_def)

lemma is_timer_add: "is_timer t (add_timer t f n k)"
  by (simp add: is_timer_def rt_object_get_type_def add_timer_def timer_init_def)

lemma remove1_absent_insert: "distinct xs \<Longrightarrow> t \<notin> set (remove1 t xs)"
  by simp

section \<open>Properties of start, stop and the next timeout\<close>

text \<open>
  Claim C4 (invariant). Relative to a base tick from which all started timers lie less than half the
  tick range away, the timer list stays sorted when a timer starts, wrap-around or not: the
  timer gets the timeout tick, stands behind every timer that is not later and
  before every later one, and no other timer changes.
\<close>

theorem rt_timer_start_ok:
  assumes ok: "timers_ok b k" and timer: "is_timer t k" and tm: "timers k t = Some tm"
    and init: "init_tick tm < TICK_HALF" and hook: "rt_object_take_hook k = None"
    and window: "dist b (rt_tick k + init_tick tm) < HALF"
  shows "\<exists>k'. rt_timer_start code t k = Some (RT_EOK, k') \<and> timers_ok b k' \<and>
    timers k' = (timers k)(t \<mapsto> started (rt_tick k) tm) \<and> primask k' = primask k \<and>
    (\<exists>before after. timer_list k' = before @ t # after \<and>
       before @ after = remove1 t (timer_list k) \<and>
       (\<forall>p \<in> set before. by_dist b k p \<le> dist b (rt_tick k + init_tick tm)) \<and>
       (\<forall>p \<in> set after. dist b (rt_tick k + init_tick tm) < by_dist b k p))"
proof -
  let ?new = "rt_tick k + init_tick tm" and ?L = "remove1 t (timer_list k)"
  let ?k' = "k\<lparr>timers := (timers k)(t \<mapsto> started (rt_tick k) tm),
      timer_list := timer_insert (tick_of k) ?new t ?L,
      check_lists := map (remove1 t) (check_lists k), random_nr := random_nr k + 1\<rparr>"
  have dist: "distinct (timer_list k)" using ok by (simp add: timers_ok_def)
  have eq: "rt_timer_start code t k = Some (RT_EOK, ?k')"
    by (rule rt_timer_start_eq [OF timer tm init hook dist])
  let ?k1 = "k\<lparr>timer_list := ?L\<rparr>"
  have ok1: "timers_ok b ?k1" by (rule timers_ok_remove [OF ok, where t = t]) simp_all
  have tick1: "tick_of ?k1 = tick_of k" by (simp add: tick_of_def fun_eq_iff)
  have ok': "timers_ok b ?k'"
    using timers_ok_link [OF ok1, where t = t and tm = "started (rt_tick k) tm" and k' = ?k']
      dist timer window tick1 is_timer_frame [of ?k1 k t] by simp
  have "timer_list ?k' = takeWhile (\<lambda>p. by_dist b k p \<le> dist b ?new) ?L @ t #
      dropWhile (\<lambda>p. by_dist b k p \<le> dist b ?new) ?L"
    using timer_insert_window [OF window, of ?L "tick_of k" t] ok1
    by (simp add: by_dist_def timers_ok_def tick1)
  moreover have "\<forall>p \<in> set (dropWhile (\<lambda>p. by_dist b k p \<le> dist b ?new) ?L). dist b ?new < by_dist b k p"
  proof -
    have "sorted (map (by_dist b k) ?L)"
      using ok by (simp add: timers_ok_def sorted_map_remove1)
    then show ?thesis by (rule sorted_drop_strict)
  qed
  ultimately have split: "\<exists>before after. timer_list ?k' = before @ t # after \<and> before @ after = ?L \<and>
      (\<forall>p \<in> set before. by_dist b k p \<le> dist b ?new) \<and>
      (\<forall>p \<in> set after. dist b ?new < by_dist b k p)"
    by (intro exI [of _ "takeWhile (\<lambda>p. by_dist b k p \<le> dist b ?new) ?L"]
      exI [of _ "dropWhile (\<lambda>p. by_dist b k p \<le> dist b ?new) ?L"]) (auto dest: set_takeWhileD)
  show ?thesis
    by (intro exI [of _ ?k'] conjI eq ok' split) simp_all
qed

lemma rt_timer_stop_eq:
  assumes "is_timer t k" and "timers k t = Some tm" and "rt_object_put_hook k = None"
  shows "rt_timer_stop code t k =
    (if flag_has 1 tm then Some (RT_EOK, k\<lparr>timers := (timers k)(t \<mapsto> flag_clear 1 tm),
       timer_list := remove1 t (timer_list k), check_lists := map (remove1 t) (check_lists k)\<rparr>)
     else Some (- RT_ERROR, k))"
  using assms by (simp add: rt_timer_stop_def irq_defs timer_remove_def upd_timer_def)

text \<open>
  Stopping an active timer takes it out of the list, leaves the list sorted
  and the other timers as they are; stopping it once more is an error that changes nothing.
\<close>

lemma rt_timer_stop_ok:
  assumes "timers_ok b k" and "is_timer t k" and "timers k t = Some tm"
    and "rt_object_put_hook k = None" and "flag_has 1 tm"
  shows "\<exists>k'. rt_timer_stop code t k = Some (RT_EOK, k') \<and> timers_ok b k' \<and>
    t \<notin> set (timer_list k') \<and> (\<forall>p. p \<noteq> t \<longrightarrow> timers k' p = timers k p) \<and>
    rt_timer_stop code t k' = Some (- RT_ERROR, k')"
proof -
  let ?k' = "k\<lparr>timers := (timers k)(t \<mapsto> flag_clear 1 tm),
       timer_list := remove1 t (timer_list k), check_lists := map (remove1 t) (check_lists k)\<rparr>"
  have eq: "rt_timer_stop code t k = Some (RT_EOK, ?k')"
    using rt_timer_stop_eq [OF assms(2-4)] assms(5) by simp
  have ok: "timers_ok b ?k'" by (rule timers_ok_remove [OF assms(1), where t = t]) simp_all
  have "rt_timer_stop code t ?k' = Some (- RT_ERROR, ?k')"
    using rt_timer_stop_eq [of t ?k' "flag_clear 1 tm" code] assms(2,4) is_timer_frame [of ?k' k t]
    by simp
  with eq ok show ?thesis using assms(1) by (intro exI [of _ ?k']) (simp add: timers_ok_def)
qed

lemma timer_list_next_timeout_eq:
  "timer_list_next_timeout k = (case timer_list k of [] \<Rightarrow> RT_TICK_MAX
     | t # _ \<Rightarrow> (case timers k t of None \<Rightarrow> RT_TICK_MAX | Some tm \<Rightarrow> timeout_tick tm), k)"
  by (simp add: timer_list_next_timeout_def irq_defs split: list.split)

text \<open>The next timeout is the least one of the list.\<close>

text \<open>
  The tick that \<^verbatim>\<open>rt_timer_next_timeout_tick\<close> returns is the
  least timeout of all started timers, counted from the base tick.
\<close>

lemma rt_timer_next_timeout_tick_Min:
  assumes ok: "timers_ok b k" and some: "timer_list k \<noteq> []"
  shows "dist b (fst (rt_timer_next_timeout_tick k)) = Min (by_dist b k ` set (timer_list k)) \<and>
    snd (rt_timer_next_timeout_tick k) = k"
proof -
  obtain t ts where l: "timer_list k = t # ts" using some by (cases "timer_list k") auto
  obtain tm where tm: "timers k t = Some tm" using ok l by (auto simp: timers_ok_def)
  have "Min (by_dist b k ` set (timer_list k)) = by_dist b k t"
    using ok by (intro Min_eqI) (auto simp: l timers_ok_def)
  then show ?thesis
    by (simp add: rt_timer_next_timeout_tick_def timer_list_next_timeout_eq l tm by_dist_def tick_of_def)
qed


section \<open>Concrete runs\<close>

lemma is_timer_started: "is_timer p (add_started t f n v k) \<longleftrightarrow> p = t \<or> is_timer p k"
  by (auto simp: is_timer_def rt_object_get_type_def add_started_def)

lemma add_started_ok:
  "timers_ok 0 (add_started 5 0 10 20 kernel_zero)"
  by (rule timers_okI) (simp_all add: is_timer_started by_dist_def dist_def tick_of_def,
    simp_all add: add_started_def kernel_zero_def flag_has_def)

theorem rt_timer_start_witness:
  "\<exists>k'. rt_timer_start (\<lambda>f p k. k) 6 (add_timer 6 0 30 (add_started 5 0 10 20 kernel_zero))
      = Some (RT_EOK, k') \<and> timers_ok 0 k'"
proof -
  let ?k = "add_timer 6 0 30 (add_started 5 0 10 20 kernel_zero)"
  have ok: "timers_ok 0 ?k"
    by (rule timers_okI) (simp_all add: is_timer_def rt_object_get_type_def by_dist_def dist_def tick_of_def
      add_timer_def timer_init_def add_started_def kernel_zero_def flag_has_def)
  have tm: "timers ?k 6 = Some \<lparr>tm_flag = 0, timeout_func = 0, tm_param = 0, init_tick = 30, timeout_tick = 0\<rparr>"
    by (simp add: add_timer_def timer_init_def)
  have "rt_object_take_hook ?k = None" "rt_tick ?k = 0"
    by (simp_all add: add_timer_def timer_init_def add_started_def kernel_zero_def)
  then show ?thesis
    using rt_timer_start_ok [OF ok is_timer_add tm, of "\<lambda>f p k. k"] by (auto simp: dist_def)
qed

lemma rt_timer_stop_witness:
  "\<exists>k'. rt_timer_stop (\<lambda>f p k. k) 5 (add_started 5 0 10 20 kernel_zero) = Some (RT_EOK, k') \<and>
     5 \<notin> set (timer_list k')"
proof -
  let ?k = "add_started 5 0 10 20 kernel_zero"
  have "timers ?k 5 = Some \<lparr>tm_flag = 1, timeout_func = 5, tm_param = 0, init_tick = 10, timeout_tick = 20\<rparr>"
    and "rt_object_put_hook ?k = None" and "is_timer 5 ?k"
    by (simp_all add: is_timer_started) (simp_all add: add_started_def kernel_zero_def)
  then show ?thesis
    using rt_timer_stop_ok [OF add_started_ok, of 5 _ "\<lambda>f p k. k"] by (auto simp: flag_has_def)
qed

theorem rt_timer_next_timeout_witness:
  "dist 0 (fst (rt_timer_next_timeout_tick (add_started 5 0 10 20 kernel_zero))) =
     Min (by_dist 0 (add_started 5 0 10 20 kernel_zero) ` {5})"
  using rt_timer_next_timeout_tick_Min [OF add_started_ok]
  by (simp add: add_started_def kernel_zero_def)

end
