(* ===== verification/Lpms_Board.thy ===== *)
theory Lpms_Board
  imports Lpms_Cmd Lpms_Behaviour Timer_Correct
begin

text \<open>
  LPMS on the board: what one idle run does to the hardware in each mode, the conversion
  between timer counts and ticks, the low-power timer's reload value, the keys and
  the commands.
\<close>

section \<open>Tick conversion\<close>

lemma u32_mult_no_wrap: "unat a * unat b < 2 ^ 32 \<Longrightarrow> unat (a * b) = unat a * unat b" for a b :: u32
  by (simp add: unat_word_ariths)

lemma u32_add_no_wrap: "unat a + unat b < 2 ^ 32 \<Longrightarrow> unat (a + b) = unat a + unat b" for a b :: u32
  by (simp add: unat_word_ariths)

lemma freq_1024: "stm32_lptim_get_countfreq = 1024"
  by (simp add: stm32_lptim_get_countfreq_def)

lemma os_tick_step:
  assumes "t \<le> 0xFFFF" and "os_tick_remain b < 1024"
  shows "1024 * unat (fst (stm32_os_tick_from_pm_tick t b)) +
      unat (os_tick_remain (snd (stm32_os_tick_from_pm_tick t b))) =
    1000 * unat t + unat (os_tick_remain b)"
    and "os_tick_remain (snd (stm32_os_tick_from_pm_tick t b)) < 1024"
proof -
  let ?r = "os_tick_remain b"
  have t: "unat t \<le> 65535" and r: "unat ?r < 1024"
    using assms by (simp_all add: word_le_nat_alt word_less_nat_alt)
  have m: "unat (t * 1000) = unat t * 1000" using t by (subst u32_mult_no_wrap) simp_all
  have s: "unat (t * 1000 + ?r) = unat t * 1000 + unat ?r"
    using t r by (subst u32_add_no_wrap) (simp_all add: m)
  have s': "unat (?r + t * 1000) = unat t * 1000 + unat ?r" using s by (simp add: add.commute)
  have "1024 * unat ((t * 1000 + ?r) div 1024) + unat ((?r + t * 1000) mod 1024) =
      unat t * 1000 + unat ?r"
    by (simp add: unat_div unat_mod s s')
  then show "1024 * unat (fst (stm32_os_tick_from_pm_tick t b)) +
      unat (os_tick_remain (snd (stm32_os_tick_from_pm_tick t b))) = 1000 * unat t + unat ?r"
    by (simp add: stm32_os_tick_from_pm_tick_def Let_def freq_1024)
  show "os_tick_remain (snd (stm32_os_tick_from_pm_tick t b)) < 1024"
    by (simp add: stm32_os_tick_from_pm_tick_def Let_def freq_1024 word_less_nat_alt unat_mod)
qed

text \<open>The ticks of a sequence of suspensions.\<close>

fun suspend_all :: "u32 list \<Rightarrow> board \<Rightarrow> nat \<times> board" where
  "suspend_all [] b = (0, b)"
| "suspend_all (t # ts) b =
    (let (n, b1) = stm32_os_tick_from_pm_tick t b; (m, b2) = suspend_all ts b1
     in (unat n + m, b2))"

text \<open>
  Claim C27 (invariant). The conversion from timer counts to ticks does not drift: over any
  sequence of suspensions, each within the range of the 16-bit timer, the ticks that are
  added to the system tick are the suspended time (1000 ticks for 1024 counts), up to the remainder
  that is kept, which is always less than one tick.
\<close>

theorem os_ticks_do_not_drift:
  assumes "\<forall>t \<in> set ts. t \<le> 0xFFFF" and "os_tick_remain b < 1024"
  shows "1024 * fst (suspend_all ts b) + unat (os_tick_remain (snd (suspend_all ts b))) =
      1000 * sum_list (map unat ts) + unat (os_tick_remain b) \<and>
    os_tick_remain (snd (suspend_all ts b)) < 1024"
  using assms
proof (induction ts arbitrary: b)
  case (Cons t ts)
  let ?b1 = "snd (stm32_os_tick_from_pm_tick t b)"
  have t: "t \<le> 0xFFFF" using Cons.prems(1) by simp
  note step = os_tick_step [OF t Cons.prems(2)]
  have "1024 * fst (suspend_all ts ?b1) + unat (os_tick_remain (snd (suspend_all ts ?b1))) =
      1000 * sum_list (map unat ts) + unat (os_tick_remain ?b1) \<and>
    os_tick_remain (snd (suspend_all ts ?b1)) < 1024"
    using Cons.prems(1) step(2) by (intro Cons.IH) simp_all
  with step(1) show ?case by (simp add: split_def Let_def)
qed simp

text \<open>Three suspensions of one count: 1000 of 1024 parts each.\<close>

definition board_zero :: board where
  "board_zero = kernel.extend kernel_zero \<lparr>systick_ctrl = 7, scb_icsr = 0, os_tick_remain = 0,
     hal_log = [], asserted = False\<rparr>"

theorem os_ticks_do_not_drift_witness:
  "1024 * fst (suspend_all [1, 500, 65535] board_zero) +
     unat (os_tick_remain (snd (suspend_all [1, 500, 65535] board_zero))) = 1000 * 66036"
proof -
  have "os_tick_remain board_zero = 0" by (simp add: board_zero_def kernel.defs)
  then show ?thesis using os_ticks_do_not_drift [of "[1, 500, 65535]" board_zero] by simp
qed

section \<open>The reload value of the low-power timer\<close>

lemma pm_tick_small:
  assumes "tmo < 0x400000"
  shows "unat (stm32_pm_tick_from_os_tick tmo) = 1024 * unat tmo div 1000"
proof -
  have "unat (1024 * tmo) = 1024 * unat tmo"
    using assms by (subst u32_mult_no_wrap) (simp_all add: word_less_nat_alt)
  then show ?thesis by (simp add: stm32_pm_tick_from_os_tick_def freq_1024 unat_div)
qed

text \<open>
  For a timeout below \<open>2\<^sup>2\<^sup>2\<close> ticks the low-power timer starts with the timeout in
  timer counts, or with its maximum when that is less: it never runs longer than asked.
\<close>

lemma pm_timer_start_reload:
  assumes "0 < tmo" and "tmo < 0x400000"
  shows "\<exists>r. pm_timer_start hw tmo b = hal hw (HAL_LPTIM_TimeOut_Start_IT r 0xFF) b \<and>
    unat r = min (1024 * unat tmo div 1000) 0xFFFF \<and> 1000 * unat r \<le> 1024 * unat tmo"
proof -
  let ?t = "stm32_pm_tick_from_os_tick tmo"
  let ?r = "if 0xFFFF \<le> ?t then 0xFFFF else ?t"
  have r: "unat ?r = min (1024 * unat tmo div 1000) 0xFFFF"
    using pm_tick_small [OF assms(2)] by (simp add: word_le_nat_alt)
  have "tmo \<noteq> RT_TICK_MAX" using assms(2) by auto
  then have "pm_timer_start hw tmo b = hal hw (HAL_LPTIM_TimeOut_Start_IT ?r 0xFF) b"
    using assms(1) by (simp add: pm_timer_start_def stm32_lptim_start_def stm32_lptim_get_tick_max_def Let_def)
  moreover have "1000 * unat ?r \<le> 1024 * unat tmo"
    unfolding r by (simp add: min_le_iff_disj)
  ultimately show ?thesis using r by blast
qed

lemma pm_timer_start_reload_witness:
  "\<exists>r. pm_timer_start (\<lambda>c b. b) 1000 board_zero =
     hal (\<lambda>c b. b) (HAL_LPTIM_TimeOut_Start_IT r 0xFF) board_zero \<and> unat r = 1024"
  using pm_timer_start_reload [of 1000 "\<lambda>c b. b" board_zero] by auto

text \<open>
  From \<open>2\<^sup>2\<^sup>2\<close> ticks on, the product of the conversion wraps around: a timeout of
  \<open>2\<^sup>2\<^sup>2\<close> ticks, more than an hour, starts the timer with the reload value zero.
\<close>

theorem pm_timer_start_overflow:
  "pm_timer_start hw 0x400000 b = hal hw (HAL_LPTIM_TimeOut_Start_IT 0 0xFF) b"
  by (simp add: pm_timer_start_def stm32_pm_tick_from_os_tick_def freq_1024 Let_def
      stm32_lptim_start_def stm32_lptim_get_tick_max_def)

section \<open>One idle run\<close>

text \<open>
  The contract of the HAL: interrupts are masked while LPMS sleeps, so a call may change
  device registers, but nothing else that the model keeps.
\<close>

definition hw_registers_only :: "hardware \<Rightarrow> bool" where
  "hw_registers_only hw \<longleftrightarrow> (\<forall>c b. \<exists>x y. hw c b = b\<lparr>systick_ctrl := x, scb_icsr := y\<rparr>)"

lemma hw_frame:
  assumes "hw_registers_only hw"
  shows "rt_tick (hw c b) = rt_tick b" "primask (hw c b) = primask b"
    "os_tick_remain (hw c b) = os_tick_remain b" "hal_log (hw c b) = hal_log b"
    "asserted (hw c b) = asserted b" "timers (hw c b) = timers b" "timer_list (hw c b) = timer_list b"
proof -
  obtain x y where "hw c b = b\<lparr>systick_ctrl := x, scb_icsr := y\<rparr>"
    using assms unfolding hw_registers_only_def by blast
  then show "rt_tick (hw c b) = rt_tick b" "primask (hw c b) = primask b"
    "os_tick_remain (hw c b) = os_tick_remain b" "hal_log (hw c b) = hal_log b"
    "asserted (hw c b) = asserted b" "timers (hw c b) = timers b" "timer_list (hw c b) = timer_list b"
    by simp_all
qed

lemma hal_frame:
  assumes "hw_registers_only hw" and "\<not> asserted b"
  shows "rt_tick (hal hw c b) = rt_tick b" "primask (hal hw c b) = primask b"
    "os_tick_remain (hal hw c b) = os_tick_remain b" "hal_log (hal hw c b) = hal_log b @ [c]"
    "\<not> asserted (hal hw c b)" "timers (hal hw c b) = timers b" "timer_list (hal hw c b) = timer_list b"
  using assms(2) by (simp_all add: hal_def hw_frame [OF assms(1)])

lemma systick_frame [simp]:
  "rt_tick (HAL_SysTick_IRQ_Disable b) = rt_tick b" "primask (HAL_SysTick_IRQ_Disable b) = primask b"
  "os_tick_remain (HAL_SysTick_IRQ_Disable b) = os_tick_remain b"
  "hal_log (HAL_SysTick_IRQ_Disable b) = hal_log b" "asserted (HAL_SysTick_IRQ_Disable b) = asserted b"
  "timers (HAL_SysTick_IRQ_Disable b) = timers b" "timer_list (HAL_SysTick_IRQ_Disable b) = timer_list b"
  "rt_tick (HAL_SysTick_IRQ_Enable b) = rt_tick b" "primask (HAL_SysTick_IRQ_Enable b) = primask b"
  "os_tick_remain (HAL_SysTick_IRQ_Enable b) = os_tick_remain b"
  "hal_log (HAL_SysTick_IRQ_Enable b) = hal_log b" "asserted (HAL_SysTick_IRQ_Enable b) = asserted b"
  "timers (HAL_SysTick_IRQ_Enable b) = timers b" "timer_list (HAL_SysTick_IRQ_Enable b) = timer_list b"
  by (simp_all add: HAL_SysTick_IRQ_Disable_def HAL_SysTick_IRQ_Enable_def)

text \<open>The calls that enter a mode, and those that start the timer before a mode that needs it.\<close>

fun sleep_calls :: "pm_sleep_mode_t \<Rightarrow> hal_call list" where
  "sleep_calls PM_SLEEP_NONE = []"
| "sleep_calls PM_SLEEP_IDLE = [WFI]"
| "sleep_calls PM_SLEEP_LIGHT = [HAL_PWR_EnterSLEEPMode PWR_MAINREGULATOR_ON PWR_SLEEPENTRY_WFI]"
| "sleep_calls PM_SLEEP_DEEP = [HAL_RCC_PWR_CLK_ENABLE, HAL_PWREx_EnterSTOP2Mode PWR_STOPENTRY_WFI,
     HAL_RCC_DeInit, SystemClock_Config]"

definition reload_for :: "u32 \<Rightarrow> u32" where
  "reload_for tmo = (if 0xFFFF \<le> stm32_pm_tick_from_os_tick tmo then 0xFFFF
     else stm32_pm_tick_from_os_tick tmo)"

definition start_calls :: "u32 \<Rightarrow> hal_call list" where
  "start_calls now = (if now = 0 then []
     else [HAL_LPTIM_TimeOut_Start_IT (reload_for (PM_TICK_MAX - now)) 0xFF])"

definition run_calls :: "pm_sleep_mode_t \<Rightarrow> u32 \<Rightarrow> hal_call list" where
  "run_calls mode now = (if mode = PM_SLEEP_LIGHT \<or> mode = PM_SLEEP_DEEP
     then start_calls now @ sleep_calls mode @ [HAL_LPTIM_TimeOut_Stop_IT] else sleep_calls mode)"

lemma drv_sleep_frame:
  assumes "hw_registers_only hw" and "\<not> asserted b"
  shows "rt_tick (drv_sleep hw (sleep_val m) b) = rt_tick b"
    "primask (drv_sleep hw (sleep_val m) b) = primask b"
    "os_tick_remain (drv_sleep hw (sleep_val m) b) = os_tick_remain b"
    "hal_log (drv_sleep hw (sleep_val m) b) = hal_log b @ sleep_calls m"
    "\<not> asserted (drv_sleep hw (sleep_val m) b)"
    "timers (drv_sleep hw (sleep_val m) b) = timers b"
    "timer_list (drv_sleep hw (sleep_val m) b) = timer_list b"
  using assms(2)
  by (cases m; simp add: drv_sleep_def pm_bsp_enter_idle_def pm_bsp_enter_light_def
      pm_bsp_enter_deepsleep_def Let_def hal_frame [OF assms(1)])+

lemma timer_start_frame:
  assumes "hw_registers_only hw" and "\<not> asserted b" and "now < PM_TICK_MAX"
  shows "rt_tick (pm_timer_start hw (PM_TICK_MAX - now) b) = rt_tick b"
    "primask (pm_timer_start hw (PM_TICK_MAX - now) b) = primask b"
    "os_tick_remain (pm_timer_start hw (PM_TICK_MAX - now) b) = os_tick_remain b"
    "hal_log (pm_timer_start hw (PM_TICK_MAX - now) b) = hal_log b @ start_calls now"
    "\<not> asserted (pm_timer_start hw (PM_TICK_MAX - now) b)"
    "timers (pm_timer_start hw (PM_TICK_MAX - now) b) = timers b"
    "timer_list (pm_timer_start hw (PM_TICK_MAX - now) b) = timer_list b"
proof -
  have pos: "0 < PM_TICK_MAX - now" using assms(3) by (simp add: word_neq_0_conv [symmetric])
  have max: "PM_TICK_MAX - now = RT_TICK_MAX \<longleftrightarrow> now = 0" by simp
  have eq: "pm_timer_start hw (PM_TICK_MAX - now) b = (if now = 0 then b
      else hal hw (HAL_LPTIM_TimeOut_Start_IT (reload_for (PM_TICK_MAX - now)) 0xFF) b)"
    using pos max by (simp add: pm_timer_start_def Let_def reload_for_def stm32_lptim_start_def
      stm32_lptim_get_tick_max_def del: diff_eq_diff_eq)
  show "rt_tick (pm_timer_start hw (PM_TICK_MAX - now) b) = rt_tick b"
    "primask (pm_timer_start hw (PM_TICK_MAX - now) b) = primask b"
    "os_tick_remain (pm_timer_start hw (PM_TICK_MAX - now) b) = os_tick_remain b"
    "hal_log (pm_timer_start hw (PM_TICK_MAX - now) b) = hal_log b @ start_calls now"
    "\<not> asserted (pm_timer_start hw (PM_TICK_MAX - now) b)"
    "timers (pm_timer_start hw (PM_TICK_MAX - now) b) = timers b"
    "timer_list (pm_timer_start hw (PM_TICK_MAX - now) b) = timer_list b"
    unfolding eq using assms(2) by (simp_all add: start_calls_def hal_frame [OF assms(1)])
qed

text \<open>The calls through the table that \<^verbatim>\<open>lpms_drv_init\<close> installs.\<close>

lemma board_calls:
  assumes "ops (pm_sys v) = Some (pm_ops hw counter)"
  shows "pm_irq_disable v = (primask (env v), v\<lparr>env := env v\<lparr>primask := 1\<rparr>\<rparr>)"
    "pm_irq_enable l v = v\<lparr>env := env v\<lparr>primask := l\<rparr>\<rparr>"
    "pm_get_tick v = (rt_tick (env v), v)"
    "pm_set_tick t v = v\<lparr>env := pm_tick_set t (env v)\<rparr>"
    "lptimer_next_timeout v = (PM_TICK_MAX, v)"
    "lptimer_start t v = v\<lparr>env := pm_timer_start hw t (env v)\<rparr>"
    "lptimer_stop v = v\<lparr>env := pm_timer_stop hw (env v)\<rparr>"
    "lptimer_get_timeout v = (fst (pm_timer_get_tick counter (env v)),
       v\<lparr>env := snd (pm_timer_get_tick counter (env v))\<rparr>)"
    "pm_sleep m v = v\<lparr>env := drv_sleep hw m (env v)\<rparr>"
    "pm_set_freq m v = v"
  using assms
  by (simp_all add: lpms_call_defs call_get_def call_do_def pm_ops_def pms_irq_disable_def
      pms_irq_enable_def irq_defs rt_tick_get_def stm32_set_freq_def split_def)

lemma board_reads:
  assumes "ops (pm_sys v) = Some (pm_ops hw counter)"
  shows "reads op_systick_get (rt_tick (env v)) v"
    "reads op_systick_next_timeout (fst (rt_timer_next_timeout_tick (env v))) v"
  using assms by (simp_all add: reads_def pm_ops_def rt_tick_get_def
      rt_timer_next_timeout_tick_def timer_list_next_timeout_eq)

definition no_hooks :: "'e lpms_world \<Rightarrow> bool" where
  "no_hooks w \<longleftrightarrow> pm_hook_list_sleep w = replicate 4 None \<and>
     pm_hook_list_wake w = replicate 4 None \<and> pm_hook_list_freq w = replicate 4 None"

lemma hook_run_none:
  "\<forall>i \<in> set is. slots w ! i = None \<Longrightarrow> hook_run slots call is w = w"
  by (induction "is") auto

lemma notify_none:
  assumes "no_hooks w"
  shows "lpms_notify_sleep hc m w = w" "lpms_notify_wakeup hc m w = w" "lpms_notify_freq hc m w = w"
  using assms by (auto simp: no_hooks_def lpms_notify_sleep_def lpms_notify_wakeup_def
      lpms_notify_freq_def intro!: hook_run_none)

text \<open>The mode that the requests, the busy modules and the next timer allow at this tick.\<close>

definition chosen_mode :: "board lpms_world \<Rightarrow> pm_sleep_mode_t" where
  "chosen_mode w = spec_sleep_mode (sleep_votes w) (busy_at (rt_tick (env w)) w)
     (fst (rt_timer_next_timeout_tick (env w)) - rt_tick (env w) \<le> LPMS_TICKLESS_THRESHOLD_TIME)"

definition needs_timer :: "pm_sleep_mode_t \<Rightarrow> bool" where
  "needs_timer m \<longleftrightarrow> m = PM_SLEEP_LIGHT \<or> m = PM_SLEEP_DEEP"

lemma needs_timer_val: "2 \<le> sleep_val m \<longleftrightarrow> needs_timer m"
  by (cases m) (simp_all add: needs_timer_def word_le_nat_alt)

text \<open>The machine after each part of the run.\<close>

definition armed :: "hardware \<Rightarrow> pm_sleep_mode_t \<Rightarrow> board \<Rightarrow> board" where
  "armed hw m b = (if needs_timer m then pm_timer_start hw (PM_TICK_MAX - rt_tick b) b else b)"

definition compensated :: "hardware \<Rightarrow> (board \<Rightarrow> u32) \<Rightarrow> pm_sleep_mode_t \<Rightarrow> board \<Rightarrow> board" where
  "compensated hw counter m b = (if needs_timer m
     then let (d, b1) = pm_timer_get_tick counter b; b2 = pm_timer_stop hw b1
          in pm_tick_set (rt_tick b2 + d) b2
     else b)"

lemma arm_on_board:
  assumes "ops (pm_sys v) = Some (pm_ops hw counter)" and "sleep_mode (pm_sys v) = sleep_val m"
  shows "tickless_arm v = (needs_timer m, v\<lparr>env := armed hw m (env v)\<rparr>)"
  using assms(2) needs_timer_val [of m]
  by (simp add: tickless_arm_def armed_def board_calls [OF assms(1)])

lemma compensate_on_board:
  assumes ops: "ops (pm_sys v) = Some (pm_ops hw counter)" and "sleep_mode (pm_sys v) = sleep_val m"
  shows "tickless_compensate (needs_timer m) v = v\<lparr>env := compensated hw counter m (env v)\<rparr>"
  using assms(2) needs_timer_val [of m] ops
  by (simp add: tickless_compensate_def compensated_def Let_def split_def board_calls [where hw = hw and counter = counter])

lemma freq_handle_on_board:
  assumes ops: "ops (pm_sys v) = Some (pm_ops hw counter)" and none: "no_hooks v"
  shows "env (pm_freq_handle hc v) = env v \<and> sleep_mode (pm_sys (pm_freq_handle hc v)) = sleep_mode (pm_sys v)
    \<and> ops (pm_sys (pm_freq_handle hc v)) = ops (pm_sys v)"
proof -
  have "lpms_notify_freq hc m (v\<lparr>pm_sys := s\<rparr>) = v\<lparr>pm_sys := s\<rparr>" for m s
    using none by (intro notify_none) (simp add: no_hooks_def)
  then show ?thesis using ops
    by (simp add: pm_freq_handle_def Let_def board_calls [where hw = hw and counter = counter])
qed


lemma decide_on_board:
  assumes ops: "ops (pm_sys v) = Some (pm_ops hw counter)" and inv: "lpms_inv v"
  shows "tickless_decide v = upd_sys (\<lambda>s. s\<lparr>sleep_mode := sleep_val (chosen_mode v)\<rparr>) v"
  using tickless_decide_refines [OF inv board_reads [OF ops]] by (simp add: chosen_mode_def)

text \<open>The whole run, as a function of the machine alone.\<close>

lemma run_on_board:
  assumes ops: "ops (pm_sys w) = Some (pm_ops hw counter)" and inv: "lpms_inv w"
    and enabled: "enable_flag (pm_sys w) \<noteq> 0" and none: "no_hooks w"
  shows "env (pm_run_tickless hc w) = (compensated hw counter (chosen_mode w)
      (drv_sleep hw (sleep_val (chosen_mode w)) (armed hw (chosen_mode w) (env w\<lparr>primask := 1\<rparr>))))
      \<lparr>primask := primask (env w)\<rparr> \<and>
    pm_get_sleep_mode (pm_run_tickless hc w) = sleep_val (chosen_mode w)"
proof -
  let ?m = "chosen_mode w" and ?level = "primask (env w)"
  let ?w1 = "w\<lparr>env := env w\<lparr>primask := 1\<rparr>\<rparr>"
  let ?w2 = "upd_sys (\<lambda>s. s\<lparr>sleep_mode := sleep_val ?m\<rparr>) ?w1"
  let ?b3 = "armed hw ?m (env w\<lparr>primask := 1\<rparr>)"
  let ?b5 = "drv_sleep hw (sleep_val ?m) ?b3"
  let ?b7 = "compensated hw counter ?m ?b5"
  have nxt: "fst (rt_timer_next_timeout_tick (b\<lparr>primask := l\<rparr>)) = fst (rt_timer_next_timeout_tick b)"
    for b :: board and l
    by (simp add: rt_timer_next_timeout_tick_def timer_list_next_timeout_eq split: list.split)
  have mode1: "chosen_mode ?w1 = ?m"
    by (simp add: chosen_mode_def nxt sleep_votes_def busy_at_def)
  have ops1: "ops (pm_sys ?w1) = Some (pm_ops hw counter)" using ops by simp
  define W where "W = ?w2"
  have dec: "tickless_decide ?w1 = W"
    using decide_on_board [OF ops1] inv mode1 by (simp add: W_def)
  have W: "ops (pm_sys W) = Some (pm_ops hw counter)" "sleep_mode (pm_sys W) = sleep_val ?m"
    "env W = env w\<lparr>primask := 1\<rparr>"
    using ops by (simp_all add: W_def)
  have ops2: "ops (pm_sys (W\<lparr>env := b\<rparr>)) = Some (pm_ops hw counter)"
    "sleep_mode (pm_sys (W\<lparr>env := b\<rparr>)) = sleep_val ?m" for b using W by simp_all
  have nh: "no_hooks (W\<lparr>env := b\<rparr>)" for b using none by (simp add: no_hooks_def W_def)
  have arm: "tickless_arm W = (needs_timer ?m, W\<lparr>env := ?b3\<rparr>)"
    using arm_on_board [OF W(1,2)] by (simp add: W(3))
  have sleep: "pm_sleep (sleep_val ?m) (W\<lparr>env := ?b3\<rparr>) = W\<lparr>env := ?b5\<rparr>"
    using board_calls(9) [OF ops2(1) [of ?b3]] by simp
  have comp: "tickless_compensate (needs_timer ?m) (W\<lparr>env := ?b5\<rparr>) = W\<lparr>env := ?b7\<rparr>"
    using compensate_on_board [OF ops2 [of ?b5]] by simp
  let ?w8 = "pm_freq_handle hc (W\<lparr>env := ?b7\<rparr>)"
  have w8: "env ?w8 = ?b7" "sleep_mode (pm_sys ?w8) = sleep_val ?m"
    "ops (pm_sys ?w8) = Some (pm_ops hw counter)"
    using freq_handle_on_board [OF ops2(1) [of ?b7] nh [of ?b7], where hc = hc] W by simp_all
  have "pm_run_tickless hc w = pm_irq_enable ?level ?w8"
    using enabled by (simp add: pm_run_tickless_def pm_is_enabled_def board_calls(1) [OF ops] dec arm
      notify_none [OF nh] W(2) sleep comp Let_def del: sleep_val.simps)
  also have "\<dots> = ?w8\<lparr>env := ?b7\<lparr>primask := ?level\<rparr>\<rparr>"
    using board_calls(2) [OF w8(3)] by (simp add: w8(1))
  finally show ?thesis using w8(2) by (simp add: pm_get_sleep_mode_def)
qed

lemma idle_run_effect:
  assumes ops: "ops (pm_sys w) = Some (pm_ops hw counter)" and inv: "lpms_inv w"
    and enabled: "enable_flag (pm_sys w) \<noteq> 0" and none: "no_hooks w"
    and hw: "hw_registers_only hw" and live: "\<not> asserted (env w)"
    and now: "rt_tick (env w) < PM_TICK_MAX" and counter: "\<And>b. counter b = cnt"
  shows "pm_get_sleep_mode (pm_run_tickless hc w) = sleep_val (chosen_mode w) \<and>
    hal_log (env (pm_run_tickless hc w)) =
      hal_log (env w) @ run_calls (chosen_mode w) (rt_tick (env w)) \<and>
    rt_tick (env (pm_run_tickless hc w)) = rt_tick (env w) +
      (if needs_timer (chosen_mode w) then fst (stm32_os_tick_from_pm_tick cnt (env w)) else 0) \<and>
    timers (env (pm_run_tickless hc w)) = timers (env w) \<and>
    timer_list (env (pm_run_tickless hc w)) = timer_list (env w) \<and>
    primask (env (pm_run_tickless hc w)) = primask (env w) \<and>
    \<not> asserted (env (pm_run_tickless hc w))"
proof -
  let ?m = "chosen_mode w"
  let ?b3 = "armed hw ?m (env w\<lparr>primask := 1\<rparr>)"
  let ?b5 = "drv_sleep hw (sleep_val ?m) ?b3"
  have b3: "rt_tick ?b3 = rt_tick (env w)" "os_tick_remain ?b3 = os_tick_remain (env w)"
    "hal_log ?b3 = hal_log (env w) @ (if needs_timer ?m then start_calls (rt_tick (env w)) else [])"
    "\<not> asserted ?b3" "timers ?b3 = timers (env w)" "timer_list ?b3 = timer_list (env w)"
    using timer_start_frame [OF hw, of "env w\<lparr>primask := 1\<rparr>" "rt_tick (env w)"] live now
    by (simp_all add: armed_def)
  note b5 = drv_sleep_frame [OF hw b3(4), of ?m]
  let ?d = "fst (stm32_os_tick_from_pm_tick cnt (env w))"
  have conv: "fst (stm32_os_tick_from_pm_tick cnt ?b5) = ?d"
    by (simp add: stm32_os_tick_from_pm_tick_def Let_def b5(3) b3(2))
  let ?b6 = "snd (pm_timer_get_tick counter ?b5)"
  have b6: "rt_tick ?b6 = rt_tick ?b5" "hal_log ?b6 = hal_log ?b5" "\<not> asserted ?b6"
    "timers ?b6 = timers ?b5" "timer_list ?b6 = timer_list ?b5"
    using b5(5) by (simp_all add: pm_timer_get_tick_def stm32_os_tick_from_pm_tick_def Let_def)
  note stop = hal_frame [OF hw b6(3), of HAL_LPTIM_TimeOut_Stop_IT]
  let ?b7 = "compensated hw counter ?m ?b5"
  have fst: "fst (pm_timer_get_tick counter ?b5) = ?d"
    by (simp add: pm_timer_get_tick_def stm32_lptim_get_current_tick_def counter conv)
  have b7: "rt_tick ?b7 = rt_tick (env w) + (if needs_timer ?m then ?d else 0)"
    "hal_log ?b7 = hal_log (env w) @ run_calls ?m (rt_tick (env w))"
    "timers ?b7 = timers (env w)" "timer_list ?b7 = timer_list (env w)" "\<not> asserted ?b7"
    using b5 b6 b3 stop fst
    by (auto simp: compensated_def pm_timer_stop_def stm32_lptim_stop_def pm_tick_set_def Let_def
      split_def run_calls_def needs_timer_def)
  from run_on_board [OF ops inv enabled none, of hc] b7 show ?thesis by simp
qed

text \<open>
  Claim C11 (functional). One idle run on the board at any tick but the last before the wrap-around, with LPMS enabled,
  no hooks registered, no assertion failed before, and hardware functions that change the registers of the SysTick and the pending interrupts at most:
  the mode is the specified one; the hardware is driven by exactly the calls of that mode, the low-power timer being
  started before and stopped after a light or deep sleep; the system tick moves on by the ticks that the timer
  counted; the timers are not touched; interrupts are enabled again as they were before; and no assertion fails.
\<close>

theorem idle_run_on_board:
  assumes ops: "ops (pm_sys w) = Some (pm_ops hw counter)" and inv: "lpms_inv w"
    and enabled: "enable_flag (pm_sys w) \<noteq> 0" and none: "no_hooks w"
    and hw: "hw_registers_only hw" and live: "\<not> asserted (env w)"
    and now: "rt_tick (env w) < PM_TICK_MAX" and counter: "\<And>b. counter b = cnt"
  shows "pm_get_sleep_mode (pm_run_tickless hc w) = sleep_val (chosen_mode w) \<and>
    hal_log (env (pm_run_tickless hc w)) =
      hal_log (env w) @ run_calls (chosen_mode w) (rt_tick (env w)) \<and>
    rt_tick (env (pm_run_tickless hc w)) = rt_tick (env w) +
      (if needs_timer (chosen_mode w) then fst (stm32_os_tick_from_pm_tick cnt (env w)) else 0) \<and>
    timers (env (pm_run_tickless hc w)) = timers (env w) \<and>
    timer_list (env (pm_run_tickless hc w)) = timer_list (env w) \<and>
    primask (env (pm_run_tickless hc w)) = primask (env w) \<and>
    \<not> asserted (env (pm_run_tickless hc w))"
  by (rule idle_run_effect [OF assms])

text \<open>The board after start-up, with LPMS enabled.\<close>

definition board_world :: "hardware \<Rightarrow> (board \<Rightarrow> u32) \<Rightarrow> board \<Rightarrow> board lpms_world" where
  "board_world hw counter b =
     lpms_enable (lpms_init (Some (pm_ops hw counter)) (freq_val PM_FREQ_HIGH) (lpms_start b))"

lemma board_world_facts:
  "ops (pm_sys (board_world hw counter b)) = Some (pm_ops hw counter)"
  "lpms_inv (board_world hw counter b)" "enable_flag (pm_sys (board_world hw counter b)) \<noteq> 0"
  "no_hooks (board_world hw counter b)" "env (board_world hw counter b) = b"
  by (simp_all add: board_world_def enable_inv init_inv lpms_inv_start del: freq_val.simps)
    (simp_all add: no_hooks_def lpms_enable_def lpms_init_def lpms_start_def pm_sys_zero_def)

lemma board_world_votes:
  "sleep_votes (board_world hw counter b) = {}" "busy_at now (board_world hw counter b) = False"
  by (auto simp: sleep_votes_def busy_at_def status_votes_iff board_world_def lpms_enable_def
      lpms_init_def lpms_start_def pm_sys_zero_def numeral_2_eq_2 numeral_3_eq_3 less_Suc_eq)

lemma no_registers: "hw_registers_only (\<lambda>c b. b)"
  unfolding hw_registers_only_def
proof (intro allI)
  fix b :: board
  have "b = b\<lparr>systick_ctrl := systick_ctrl b, scb_icsr := scb_icsr b\<rparr>" by simp
  then show "\<exists>x y. b = b\<lparr>systick_ctrl := x, scb_icsr := y\<rparr>" by blast
qed

text \<open>The kernel at tick 1000, with one timer that is due at tick 1010.\<close>

definition near_timer :: board where
  "near_timer = board_zero\<lparr>rt_tick := 1000, timer_list := [5],
     timers := [5 \<mapsto> \<lparr>tm_flag = 1, timeout_func = 5, tm_param = 0, init_tick = 100, timeout_tick = 1010\<rparr>]\<rparr>"

lemma near_timer_facts:
  "rt_tick near_timer = 1000" "\<not> asserted near_timer" "hal_log near_timer = []"
  "fst (rt_timer_next_timeout_tick near_timer) = 1010"
  by (simp_all add: near_timer_def board_zero_def kernel.defs rt_timer_next_timeout_tick_def
      timer_list_next_timeout_eq)

lemma near_timer_mode: "chosen_mode (board_world hw counter near_timer) = PM_SLEEP_DEEP"
  by (simp add: chosen_mode_def board_world_votes board_world_facts(5) near_timer_facts
      spec_sleep_mode_def word_le_nat_alt)

theorem idle_run_on_board_witness:
  "hal_log (env (pm_run_tickless (\<lambda>f m w. w) (board_world (\<lambda>c b. b) (\<lambda>b. 1024) near_timer))) =
     run_calls PM_SLEEP_DEEP 1000"
  using idle_run_on_board [OF board_world_facts(1,2,3,4) no_registers, of "\<lambda>b. 1024" near_timer 1024 "\<lambda>f m w. w"]
  by (simp add: board_world_facts(5) near_timer_facts near_timer_mode)

lemma reload_full:
  assumes "now \<le> 4000000"
  shows "reload_for (PM_TICK_MAX - now) = 0xFFFF"
proof -
  have n: "unat now \<le> 4000000" using assms by (simp add: word_le_nat_alt)
  have "PM_TICK_MAX = (- 1 :: u32)" by simp
  then have "1024 * (PM_TICK_MAX - now) = - (1024 * (now + 1))" by (simp only:) (simp add: algebra_simps)
  also have "1024 * (now + 1) = of_nat (1024 * (unat now + 1))" by simp
  also have "- of_nat (1024 * (unat now + 1)) = (of_nat (2 ^ 32 - 1024 * (unat now + 1)) :: u32)"
    using n by (subst of_nat_diff) simp_all
  finally have "unat (1024 * (PM_TICK_MAX - now)) = 2 ^ 32 - 1024 * (unat now + 1)"
    using n by (simp only: unat_of_nat) simp
  then have "unat (stm32_pm_tick_from_os_tick (PM_TICK_MAX - now)) = (2 ^ 32 - 1024 * (unat now + 1)) div 1000"
    by (simp only: stm32_pm_tick_from_os_tick_def freq_1024 unat_div) simp
  moreover have "65535 \<le> (2 ^ 32 - 1024 * (unat now + 1)) div 1000" using n by simp
  ultimately show ?thesis by (simp only: reload_for_def word_le_nat_alt) simp
qed

text \<open>
  Claim C32 (safety). Because the table has no \<^verbatim>\<open>lptim_next_timeout\<close>, the low-power timer is never set to the
  next system timer. Take two systems at the same tick, not the last, that differ in their system timers only, of which
  both or neither have a timer within the threshold of six ticks, with LPMS enabled, no hooks, no assertion
  failed, the same hardware functions (which change the registers of the SysTick and the pending interrupts at most)
  and the same reading of the low-power timer: their idle runs make the same calls to the hardware, leave the same mode and move the tick on alike, whenever
  their next timers are due. From tick 1 up to tick 4,000,000 a light or deep sleep starts the low-power timer with its
  greatest reload value, 64 seconds.
\<close>

theorem deep_sleep_ignores_timers:
  assumes ops: "ops (pm_sys w) = Some (pm_ops hw counter)" and inv: "lpms_inv w"
    and enabled: "enable_flag (pm_sys w) \<noteq> 0" and none: "no_hooks w"
    and hw: "hw_registers_only hw" and live: "\<not> asserted (env w)"
    and now: "rt_tick (env w) < PM_TICK_MAX" and counter: "\<And>b. counter b = cnt"
    and v: "v = w\<lparr>env := env w\<lparr>timers := ts, timer_list := ls\<rparr>\<rparr>"
    and near: "(fst (rt_timer_next_timeout_tick (env v)) - rt_tick (env v) \<le> LPMS_TICKLESS_THRESHOLD_TIME) =
      (fst (rt_timer_next_timeout_tick (env w)) - rt_tick (env w) \<le> LPMS_TICKLESS_THRESHOLD_TIME)"
  shows "hal_log (env (pm_run_tickless hc v)) = hal_log (env (pm_run_tickless hc w)) \<and>
    pm_get_sleep_mode (pm_run_tickless hc v) = pm_get_sleep_mode (pm_run_tickless hc w) \<and>
    rt_tick (env (pm_run_tickless hc v)) = rt_tick (env (pm_run_tickless hc w)) \<and>
    (2 \<le> pm_get_sleep_mode (pm_run_tickless hc w) \<longrightarrow> rt_tick (env w) \<noteq> 0 \<longrightarrow> rt_tick (env w) \<le> 4000000 \<longrightarrow>
      (\<exists>calls. hal_log (env (pm_run_tickless hc w)) = hal_log (env w) @ HAL_LPTIM_TimeOut_Start_IT 0xFFFF 0xFF # calls))"
proof -
  have "ops (pm_sys v) = Some (pm_ops hw counter)" "lpms_inv v" "enable_flag (pm_sys v) \<noteq> 0" "no_hooks v"
      "\<not> asserted (env v)" "rt_tick (env v) < PM_TICK_MAX"
    using ops inv enabled none live now by (simp_all add: v no_hooks_def)
  note V = idle_run_effect [OF this(1-4) hw this(5,6) counter, of hc]
  note W = idle_run_effect [OF ops inv enabled none hw live now counter, of hc]
  have mode: "chosen_mode v = chosen_mode w"
    using near by (simp add: chosen_mode_def v sleep_votes_def busy_at_def)
  have same: "rt_tick (env v) = rt_tick (env w)" "hal_log (env v) = hal_log (env w)"
      "fst (stm32_os_tick_from_pm_tick cnt (env v)) = fst (stm32_os_tick_from_pm_tick cnt (env w))"
    by (simp_all add: v stm32_os_tick_from_pm_tick_def Let_def)
  have "\<exists>calls. run_calls (chosen_mode w) (rt_tick (env w)) = HAL_LPTIM_TimeOut_Start_IT 0xFFFF 0xFF # calls"
    if "needs_timer (chosen_mode w)" "rt_tick (env w) \<noteq> 0" "rt_tick (env w) \<le> 4000000"
    using that reload_full [OF that(3)] by (auto simp: run_calls_def start_calls_def needs_timer_def)
  moreover note V W
  ultimately show ?thesis by (simp add: mode same needs_timer_val del: sleep_val.simps)
qed

text \<open>A timer that is due in ten ticks, and none at all.\<close>

theorem deep_sleep_ignores_timers_witness:
  "\<exists>w calls. env w = near_timer \<and>
     hal_log (env (pm_run_tickless (\<lambda>f m w. w) (w\<lparr>env := near_timer\<lparr>timers := Map.empty, timer_list := []\<rparr>\<rparr>))) =
       HAL_LPTIM_TimeOut_Start_IT 0xFFFF 0xFF # calls \<and>
     hal_log (env (pm_run_tickless (\<lambda>f m w. w) w)) = HAL_LPTIM_TimeOut_Start_IT 0xFFFF 0xFF # calls"
proof -
  let ?w = "board_world (\<lambda>c b. b) (\<lambda>b. 1024) near_timer" and ?hc = "\<lambda>f m w :: board lpms_world. w"
  let ?v = "?w\<lparr>env := env ?w\<lparr>timers := Map.empty, timer_list := []\<rparr>\<rparr>"
  have nxt: "fst (rt_timer_next_timeout_tick (near_timer\<lparr>timers := Map.empty, timer_list := []\<rparr>)) = RT_TICK_MAX"
    by (simp add: near_timer_def rt_timer_next_timeout_tick_def timer_list_next_timeout_eq)
  have near: "(fst (rt_timer_next_timeout_tick (env ?v)) - rt_tick (env ?v) \<le> LPMS_TICKLESS_THRESHOLD_TIME) =
      (fst (rt_timer_next_timeout_tick (env ?w)) - rt_tick (env ?w) \<le> LPMS_TICKLESS_THRESHOLD_TIME)"
    by (simp add: board_world_facts(5) near_timer_facts nxt word_le_nat_alt)
  have "\<not> asserted (env ?w)" "rt_tick (env ?w) < PM_TICK_MAX"
    by (simp_all add: board_world_facts(5) near_timer_facts)
  from deep_sleep_ignores_timers [OF board_world_facts(1-4) no_registers this _ refl near, of 1024 ?hc]
    idle_run_effect [OF board_world_facts(1-4) no_registers this, of 1024 ?hc]
  show ?thesis
    by (intro exI [of _ ?w]) (auto simp: board_world_facts(5) near_timer_facts near_timer_mode)
qed

text \<open>
  At the last tick before the wrap-around the timeout that is handed to
  the timer is zero, and the assertion of \<^verbatim>\<open>pm_timer_start\<close> stops the system, when a
  light or deep sleep is chosen.
\<close>

theorem idle_run_asserts_at_last_tick:
  assumes "ops (pm_sys w) = Some (pm_ops hw counter)" and "lpms_inv w"
    and "enable_flag (pm_sys w) \<noteq> 0" and "no_hooks w" and "hw_registers_only hw"
    and last: "rt_tick (env w) = PM_TICK_MAX" and deep: "needs_timer (chosen_mode w)"
  shows "asserted (env (pm_run_tickless hc w))"
proof -
  let ?m = "chosen_mode w"
  let ?b3 = "armed hw ?m (env w\<lparr>primask := 1\<rparr>)"
  have keep: "asserted b \<Longrightarrow> asserted (hal hw c b)" for b c by (simp add: hal_def)
  have b3: "asserted ?b3" using deep last by (simp add: armed_def pm_timer_start_def)
  have b5: "asserted (drv_sleep hw (sleep_val ?m) ?b3)"
    using b3 by (cases ?m) (simp_all add: drv_sleep_def pm_bsp_enter_idle_def pm_bsp_enter_light_def
      pm_bsp_enter_deepsleep_def Let_def keep)
  have "asserted (compensated hw counter ?m (drv_sleep hw (sleep_val ?m) ?b3))"
    using b5 by (auto simp: compensated_def pm_timer_get_tick_def stm32_os_tick_from_pm_tick_def
      pm_timer_stop_def stm32_lptim_stop_def pm_tick_set_def Let_def split_def keep)
  then show ?thesis using run_on_board [OF assms(1-4), of hc] by simp
qed

theorem idle_run_asserts_witness:
  "asserted (env (pm_run_tickless (\<lambda>f m w. w) (board_world (\<lambda>c b. b) (\<lambda>b. 0)
     (near_timer\<lparr>rt_tick := 0xFFFFFFFF\<rparr>))))"
proof -
  let ?b = "near_timer\<lparr>rt_tick := 0xFFFFFFFF\<rparr>"
  have nxt: "fst (rt_timer_next_timeout_tick ?b) = 1010"
    by (simp add: near_timer_def board_zero_def kernel.defs rt_timer_next_timeout_tick_def
      timer_list_next_timeout_eq)
  have "chosen_mode (board_world (\<lambda>c b. b) (\<lambda>b. 0) ?b) = PM_SLEEP_DEEP"
    by (simp add: chosen_mode_def board_world_votes board_world_facts(5) spec_sleep_mode_def nxt
      word_le_nat_alt)
  then show ?thesis
    using idle_run_asserts_at_last_tick [OF board_world_facts(1,2,3,4) no_registers, of "\<lambda>b. 0" ?b "\<lambda>f m w. w"]
    by (simp add: board_world_facts(5) needs_timer_def)
qed

section \<open>The interrupt of the timer\<close>

text \<open>
  The interrupt of the low-power timer is balanced: the nesting counter and the interrupt
  mask are afterwards what they were before, also when the HAL calls back.
\<close>

theorem lptim_irq_balanced:
  assumes hooks: "rt_interrupt_enter_hook b = None" "rt_interrupt_leave_hook b = None"
    and hw: "\<And>b. hw HAL_LPTIM_IRQHandler b = HAL_LPTIM_CompareMatchCallback code b"
  shows "rt_interrupt_nest (LPTIM1_IRQHandler hw code b) = rt_interrupt_nest b \<and>
    primask (LPTIM1_IRQHandler hw code b) = primask b"
  using hooks by (simp add: LPTIM1_IRQHandler_def hal_def hw HAL_LPTIM_CompareMatchCallback_def
      rt_interrupt_enter_def rt_interrupt_leave_def irq_defs Let_def)

theorem lptim_irq_balanced_witness:
  "rt_interrupt_nest (LPTIM1_IRQHandler (\<lambda>c. HAL_LPTIM_CompareMatchCallback (\<lambda>f p k. k))
     (\<lambda>f p k. k) board_zero) = 0"
proof -
  have "rt_interrupt_enter_hook board_zero = None" "rt_interrupt_leave_hook board_zero = None"
    "rt_interrupt_nest board_zero = 0"
    by (simp_all add: board_zero_def kernel.defs kernel_zero_def)
  then show ?thesis
    using lptim_irq_balanced [of board_zero "\<lambda>c. HAL_LPTIM_CompareMatchCallback (\<lambda>f p k. k)"
      "\<lambda>f p k. k"] by simp
qed

section \<open>Keys and commands\<close>

text \<open>
  Key 0 toggles: as long as nobody else uses the board module's idle vote, it is
  held exactly when the key was pressed an odd number of times, and no other vote changes.
\<close>

lemma key0_toggles:
  assumes "sleep_wf w" and "(2, 1) \<notin> sleep_votes w" and "key0_status s = 0"
  shows "sleep_votes (snd ((key0_irq_callback ^^ n) (s, w))) =
      (if odd n then insert (2, 1) (sleep_votes w) else sleep_votes w) \<and>
    key0_status (fst ((key0_irq_callback ^^ n) (s, w))) = of_bool (odd n) \<and>
    sleep_wf (snd ((key0_irq_callback ^^ n) (s, w)))"
proof (induction n)
  case (Suc n)
  obtain s' w' where sw: "(key0_irq_callback ^^ n) (s, w) = (s', w')" by fastforce
  have req: "sleep_wf v \<Longrightarrow> sleep_votes (pm_sleep_request 2 1 v) = insert (2, 1) (sleep_votes v)"
    and rel: "sleep_wf v \<Longrightarrow> sleep_votes (pm_sleep_release 2 1 v) = sleep_votes v - {(2, 1)}"
    for v :: "'a lpms_world"
    using sleep.votes_request [of v 2 1] sleep.votes_release [of v 2 1] by simp_all
  show ?case
    using Suc sw assms(2) req rel sleep.wf_request [of w' 2 1] sleep.wf_release [of w' 2 1]
    by (cases "odd n") (simp_all add: key0_irq_callback_def Let_def)
qed (use assms in simp)

lemma key0_toggles_witness:
  "sleep_votes (snd ((key0_irq_callback ^^ 3) (\<lparr>key0_status = 0, key1_status = 0, key2_status = 0\<rparr>,
     lpms_start ()))) = {(2, 1)}"
proof -
  have wf: "sleep_wf (lpms_start ())" using lpms_inv_start [of "()"] by (simp add: lpms_inv_def)
  have none: "sleep_votes (lpms_start ()) = {}"
    by (auto simp: sleep_votes_def status_votes_iff lpms_start_def pm_sys_zero_def numeral_3_eq_3 less_Suc_eq)
  show ?thesis
    using key0_toggles [OF wf, of "\<lparr>key0_status = 0, key1_status = 0, key2_status = 0\<rparr>" 3]
    by (simp add: none)
qed

text \<open>
  The commands hand their arguments to parameters of 16 and 8 bits unchecked: module
  65538 is taken for module 2 and mode 257 for mode 1.
\<close>

theorem command_arguments_wrap:
  "pms_sleep_request [''pms_sleep_request'', ''65538'', ''257''] w =
   pms_sleep_request [''pms_sleep_request'', ''2'', ''1''] w"
proof -
  have "atoi ''65538'' = 65538" "atoi ''257'' = 257" "atoi ''2'' = 2" "atoi ''1'' = 1"
    by (simp_all add: atoi_def is_space_def)
  moreover have wrap: "(65538 :: u16) = 2" "(257 :: u8) = 1" by simp_all
  have "pm_sleep_request 65538 257 w = pm_sleep_request 2 1 w" by (simp only: wrap)
  ultimately show ?thesis by (simp add: pms_sleep_request_def)
qed

end
