(* ===== verification/Timer_Check.thy ===== *)
theory Timer_Check
  imports Timer_Correct
begin


section \<open>One timer\<close>





section \<open>The loop\<close>


















section \<open>The whole check\<close>


section \<open>A concrete run\<close>



end
