(* ===== verification/Byte_Queue.thy ===== *)
theory Byte_Queue
  imports Prelude
begin

text \<open>
  The interface of a bounded queue that takes and gives blocks: what the ring buffers of the driver
  framework promise their users, and what follows for any run of puts and gets.
  \<open>lim\<close> is the greatest block length that an operation's parameter can hold.
\<close>

datatype 'a queue_op = Put "'a list" | Get nat

locale block_queue =
  fixes wf :: "'q \<Rightarrow> bool"
    and contents :: "'q \<Rightarrow> 'a list"
    and cap :: "'q \<Rightarrow> nat"
    and put :: "'a list \<Rightarrow> 'q \<Rightarrow> nat \<times> 'q"
    and get :: "nat \<Rightarrow> 'q \<Rightarrow> 'a list \<times> 'q"
    and lim :: nat
  assumes bounded: "wf q \<Longrightarrow> length (contents q) \<le> cap q"
    and put_wf: "wf q \<Longrightarrow> length xs \<le> lim \<Longrightarrow> wf (snd (put xs q)) \<and> cap (snd (put xs q)) = cap q"
    and put_count: "wf q \<Longrightarrow> length xs \<le> lim \<Longrightarrow>
      fst (put xs q) = min (length xs) (cap q - length (contents q))"
    and put_contents: "wf q \<Longrightarrow> length xs \<le> lim \<Longrightarrow>
      contents (snd (put xs q)) = contents q @ take (fst (put xs q)) xs"
    and get_wf: "wf q \<Longrightarrow> n \<le> lim \<Longrightarrow> wf (snd (get n q)) \<and> cap (snd (get n q)) = cap q"
    and get_data: "wf q \<Longrightarrow> n \<le> lim \<Longrightarrow> fst (get n q) = take n (contents q)"
    and get_contents: "wf q \<Longrightarrow> n \<le> lim \<Longrightarrow> contents (snd (get n q)) = drop n (contents q)"
begin

text \<open>What fits is stored whole, and read back as it was.\<close>

lemma put_get:
  assumes "wf q" and "contents q = []" and "length xs \<le> cap q" and "length xs \<le> lim"
  shows "fst (get (length xs) (snd (put xs q))) = xs \<and>
    contents (snd (get (length xs) (snd (put xs q)))) = []"
  using assms put_wf [of q xs]
  by (simp add: get_data get_contents put_contents put_count)

text \<open>Two puts in a row are one put of both blocks.\<close>

lemma put_put:
  assumes "wf q" and "length xs \<le> lim" and "length ys \<le> lim"
  shows "contents (snd (put ys (snd (put xs q)))) =
    take (cap q) (contents q @ take (cap q - length (contents q)) xs @ ys)"
  using assms put_wf [of q xs] bounded [of q]
  by (simp add: put_contents put_count min_def)

text \<open>The blocks a run of operations stores and gives back.\<close>

fun run :: "'a queue_op list \<Rightarrow> 'q \<Rightarrow> 'a list \<times> 'a list \<times> 'q" where
  "run [] q = ([], [], q)"
| "run (Put xs # os) q =
    (let (n, q1) = put xs q; (inp, out, q2) = run os q1 in (take n xs @ inp, out, q2))"
| "run (Get n # os) q =
    (let (ys, q1) = get n q; (inp, out, q2) = run os q1 in (inp, ys @ out, q2))"

definition op_ok :: "'a queue_op \<Rightarrow> bool" where
  "op_ok x = (case x of Put xs \<Rightarrow> length xs \<le> lim | Get n \<Rightarrow> n \<le> lim)"

text \<open>First in, first out, nothing lost and nothing invented.\<close>

lemma run_fifo:
  assumes "wf q" and "list_all op_ok os"
  shows "wf (snd (snd (run os q))) \<and> cap (snd (snd (run os q))) = cap q \<and>
    contents q @ fst (run os q) = fst (snd (run os q)) @ contents (snd (snd (run os q)))"
  using assms
proof (induction os arbitrary: q)
  case Nil
  then show ?case by simp
next
  case (Cons x os)
  show ?case
  proof (cases x)
    case (Put xs)
    with Cons.prems have xs: "length xs \<le> lim" by (simp add: op_ok_def)
    have "wf (snd (put xs q))" "cap (snd (put xs q)) = cap q"
      using put_wf [OF Cons.prems(1) xs] by simp_all
    with Cons.IH [of "snd (put xs q)"] Cons.prems put_contents [OF Cons.prems(1) xs] show ?thesis
      by (simp add: Put split_def Let_def)
  next
    case (Get n)
    with Cons.prems have n: "n \<le> lim" by (simp add: op_ok_def)
    have "wf (snd (get n q))" "cap (snd (get n q)) = cap q"
      using get_wf [OF Cons.prems(1) n] by simp_all
    with Cons.IH [of "snd (get n q)"] Cons.prems get_data [OF Cons.prems(1) n]
      get_contents [OF Cons.prems(1) n] show ?thesis
      by (simp add: Get split_def Let_def) (metis append.assoc append_take_drop_id)
  qed
qed

end

end
