(* ===== verification/Ringbuffer.thy ===== *)
theory Ringbuffer
  imports Byte_Queue
begin

text \<open>
  \<^verbatim>\<open>ringbuffer.c\<close>: the byte ring buffer of the driver framework. The mirror bits
  are booleans; an index is a natural number that is cut to the 15 bits of its field when it
  is written. The pool is the list of its bytes.
\<close>

section \<open>The buffer\<close>

record rt_ringbuffer =
  buffer_ptr :: "u8 list"
  read_mirror :: bool
  read_index :: nat
  write_mirror :: bool
  write_index :: nat
  buffer_size :: nat

datatype rt_ringbuffer_state = RT_RINGBUFFER_EMPTY | RT_RINGBUFFER_FULL | RT_RINGBUFFER_HALFFULL

abbreviation idx15 :: "nat \<Rightarrow> nat" where "idx15 n \<equiv> n mod 2 ^ 15"

abbreviation RT_ALIGN_SIZE :: nat where "RT_ALIGN_SIZE \<equiv> 4"

definition align_down :: "nat \<Rightarrow> nat" where "align_down n = n div RT_ALIGN_SIZE * RT_ALIGN_SIZE"

text \<open>\<^verbatim>\<open>memcpy\<close> of a block into the pool.\<close>

definition memcpy_to :: "nat \<Rightarrow> 'a list \<Rightarrow> 'a list \<Rightarrow> 'a list" where
  "memcpy_to i bs buf = take i buf @ bs @ drop (i + length bs) buf"

definition memcpy_from :: "nat \<Rightarrow> nat \<Rightarrow> 'a list \<Rightarrow> 'a list" where
  "memcpy_from i n buf = take n (drop i buf)"

definition rt_ringbuffer_status :: "rt_ringbuffer \<Rightarrow> rt_ringbuffer_state" where
  "rt_ringbuffer_status rb =
    (if read_index rb = write_index rb
     then (if read_mirror rb = write_mirror rb then RT_RINGBUFFER_EMPTY else RT_RINGBUFFER_FULL)
     else RT_RINGBUFFER_HALFFULL)"

text \<open>\<open>None\<close>: the assertion on the size failed. \<open>pool\<close> holds the bytes of the memory.\<close>

definition rt_ringbuffer_init :: "u8 list \<Rightarrow> int \<Rightarrow> rt_ringbuffer option" where
  "rt_ringbuffer_init pool sz =
    (if \<not> 0 < sz then None
     else Some \<lparr>buffer_ptr = pool, read_mirror = False, read_index = 0, write_mirror = False,
            write_index = 0, buffer_size = align_down (nat sz)\<rparr>)"

definition rt_ringbuffer_data_len :: "rt_ringbuffer \<Rightarrow> nat" where
  "rt_ringbuffer_data_len rb = (case rt_ringbuffer_status rb of
     RT_RINGBUFFER_EMPTY \<Rightarrow> 0
   | RT_RINGBUFFER_FULL \<Rightarrow> buffer_size rb
   | RT_RINGBUFFER_HALFFULL \<Rightarrow>
       let wi = write_index rb; ri = read_index rb
       in if ri < wi then wi - ri else buffer_size rb - (ri - wi))"

definition rt_ringbuffer_space_len :: "rt_ringbuffer \<Rightarrow> nat" where
  "rt_ringbuffer_space_len rb = buffer_size rb - rt_ringbuffer_data_len rb"

definition rt_ringbuffer_get_size :: "rt_ringbuffer \<Rightarrow> nat" where
  "rt_ringbuffer_get_size rb = buffer_size rb"

section \<open>Blocks\<close>

text \<open>Writing \<open>len\<close> bytes at the write index, in one or two pieces.\<close>

definition write_block :: "u8 list \<Rightarrow> nat \<Rightarrow> rt_ringbuffer \<Rightarrow> rt_ringbuffer" where
  "write_block ptr len rb =
    (let room = buffer_size rb - write_index rb
     in if len < room
        then rb\<lparr>buffer_ptr := memcpy_to (write_index rb) (take len ptr) (buffer_ptr rb),
                write_index := idx15 (write_index rb + len)\<rparr>
        else rb\<lparr>buffer_ptr := memcpy_to 0 (memcpy_from room (len - room) ptr)
                  (memcpy_to (write_index rb) (take room ptr) (buffer_ptr rb)),
                write_mirror := \<not> write_mirror rb, write_index := idx15 (len - room)\<rparr>)"

definition rt_ringbuffer_put :: "u8 list \<Rightarrow> u16 \<Rightarrow> rt_ringbuffer \<Rightarrow> nat \<times> rt_ringbuffer" where
  "rt_ringbuffer_put ptr count rb =
    (let avail = rt_ringbuffer_space_len rb
     in if avail = 0 then (0, rb)
        else let len = (if avail < unat count then avail else unat count)
             in (len, write_block ptr len rb))"

definition rt_ringbuffer_put_force :: "u8 list \<Rightarrow> u16 \<Rightarrow> rt_ringbuffer \<Rightarrow> nat \<times> rt_ringbuffer" where
  "rt_ringbuffer_put_force ptr count rb =
    (let space_length = rt_ringbuffer_space_len rb;
         (p, len) = (if buffer_size rb < unat count
                     then (drop (unat count - buffer_size rb) ptr, buffer_size rb)
                     else (ptr, unat count));
         rb1 = write_block p len rb
     in (len,
         if len < buffer_size rb - write_index rb
         then (if space_length < len then rb1\<lparr>read_index := write_index rb1\<rparr> else rb1)
         else if space_length < len
              then rb1\<lparr>read_mirror := (if write_index rb1 \<le> read_index rb1 then \<not> read_mirror rb1
                                      else read_mirror rb1),
                       read_index := write_index rb1\<rparr>
              else rb1))"

definition rt_ringbuffer_get :: "u16 \<Rightarrow> rt_ringbuffer \<Rightarrow> u8 list \<times> rt_ringbuffer" where
  "rt_ringbuffer_get count rb =
    (let avail = rt_ringbuffer_data_len rb
     in if avail = 0 then ([], rb)
        else let len = (if avail < unat count then avail else unat count);
                 room = buffer_size rb - read_index rb
             in if len < room
                then (memcpy_from (read_index rb) len (buffer_ptr rb),
                      rb\<lparr>read_index := idx15 (read_index rb + len)\<rparr>)
                else (memcpy_from (read_index rb) room (buffer_ptr rb) @
                      memcpy_from 0 (len - room) (buffer_ptr rb),
                      rb\<lparr>read_mirror := \<not> read_mirror rb, read_index := idx15 (len - room)\<rparr>))"

text \<open>The returned pointer is the index it points to, or null.\<close>

definition rt_ringbuffer_peak :: "rt_ringbuffer \<Rightarrow> nat option \<times> nat \<times> rt_ringbuffer" where
  "rt_ringbuffer_peak rb =
    (let avail = rt_ringbuffer_data_len rb
     in if avail = 0 then (None, 0, rb)
        else if avail < buffer_size rb - read_index rb
        then (Some (read_index rb), avail, rb\<lparr>read_index := idx15 (read_index rb + avail)\<rparr>)
        else (Some (read_index rb), buffer_size rb - read_index rb,
              rb\<lparr>read_mirror := \<not> read_mirror rb, read_index := 0\<rparr>))"

section \<open>Single bytes\<close>

text \<open>
  A store through the pool pointer. The invariant keeps the index in range; outside of it the
  list stays as it is, where C writes past the pool.
\<close>

definition pool_store :: "nat \<Rightarrow> u8 \<Rightarrow> rt_ringbuffer \<Rightarrow> rt_ringbuffer" where
  "pool_store i ch rb = rb\<lparr>buffer_ptr := (buffer_ptr rb)[i := ch]\<rparr>"

definition rt_ringbuffer_putchar :: "u8 \<Rightarrow> rt_ringbuffer \<Rightarrow> nat \<times> rt_ringbuffer" where
  "rt_ringbuffer_putchar ch rb =
    (if rt_ringbuffer_space_len rb = 0 then (0, rb)
     else let rb1 = pool_store (write_index rb) ch rb
          in (1, if int (write_index rb1) = int (buffer_size rb1) - 1
                 then rb1\<lparr>write_mirror := \<not> write_mirror rb1, write_index := 0\<rparr>
                 else rb1\<lparr>write_index := idx15 (write_index rb1 + 1)\<rparr>))"

definition rt_ringbuffer_putchar_force :: "u8 \<Rightarrow> rt_ringbuffer \<Rightarrow> nat \<times> rt_ringbuffer" where
  "rt_ringbuffer_putchar_force ch rb =
    (let old_state = rt_ringbuffer_status rb;
         rb1 = pool_store (write_index rb) ch rb
     in (1, if int (write_index rb1) = int (buffer_size rb1) - 1
            then let rb2 = rb1\<lparr>write_mirror := \<not> write_mirror rb1, write_index := 0\<rparr>
                 in if old_state = RT_RINGBUFFER_FULL
                    then rb2\<lparr>read_mirror := \<not> read_mirror rb2, read_index := write_index rb2\<rparr> else rb2
            else let rb2 = rb1\<lparr>write_index := idx15 (write_index rb1 + 1)\<rparr>
                 in if old_state = RT_RINGBUFFER_FULL
                    then rb2\<lparr>read_index := write_index rb2\<rparr> else rb2))"

definition rt_ringbuffer_getchar :: "rt_ringbuffer \<Rightarrow> u8 option \<times> rt_ringbuffer" where
  "rt_ringbuffer_getchar rb =
    (if rt_ringbuffer_data_len rb = 0 then (None, rb)
     else (Some (buffer_ptr rb ! read_index rb),
           if int (read_index rb) = int (buffer_size rb) - 1
           then rb\<lparr>read_mirror := \<not> read_mirror rb, read_index := 0\<rparr>
           else rb\<lparr>read_index := idx15 (read_index rb + 1)\<rparr>))"

section \<open>Reset, create\<close>

definition rt_ringbuffer_reset :: "rt_ringbuffer \<Rightarrow> rt_ringbuffer" where
  "rt_ringbuffer_reset rb =
     rb\<lparr>read_mirror := False, read_index := 0, write_mirror := False, write_index := 0\<rparr>"

text \<open>
  \<open>mem_rb\<close>, \<open>mem_pool\<close>: what the two calls of \<^verbatim>\<open>rt_malloc\<close> give. The inner result is
  null when memory is missing; the outer one is \<open>None\<close> when an assertion failed. The
  parameter is unsigned of 16 bits and goes on as a signed one.
\<close>

definition rt_ringbuffer_create :: "bool \<Rightarrow> u8 list option \<Rightarrow> u16 \<Rightarrow> rt_ringbuffer option option" where
  "rt_ringbuffer_create mem_rb mem_pool sz =
    (if \<not> 0 < sz then None
     else let size1 = (of_nat (align_down (unat sz)) :: u16)
          in if \<not> mem_rb then Some None
             else (case mem_pool of
               None \<Rightarrow> Some None
             | Some pool \<Rightarrow> map_option Some (rt_ringbuffer_init pool (sint size1))))"

end
