(* ===== verification/Ringbuffer_Correct.thy ===== *)
theory Ringbuffer_Correct
  imports Ringbuffer
begin

text \<open>
  The ring buffer is a bounded queue of bytes: its contents as a list, the invariant of the
  indices and mirror bits, what every operation does to the contents, and the
  interpretation of the queue interface.
\<close>

section \<open>Circular ranges\<close>

text \<open>A circular range is one piece of the pool or two.\<close>

lemma circ_one_piece:
  assumes "i + n \<le> s" and "length buf = s"
  shows "memcpy_from i n buf = circ s i n buf"
  using assms by (intro nth_equalityI) (simp_all add: memcpy_from_def)

lemma circ_two_pieces:
  assumes "i < s" and "s \<le> i + n" and "n \<le> s" and "length buf = s"
  shows "memcpy_from i (s - i) buf @ memcpy_from 0 (n - (s - i)) buf = circ s i n buf"
proof (rule nth_equalityI)
  show "length (memcpy_from i (s - i) buf @ memcpy_from 0 (n - (s - i)) buf) = length (circ s i n buf)"
    using assms by (simp add: memcpy_from_def)
  fix k assume "k < length (memcpy_from i (s - i) buf @ memcpy_from 0 (n - (s - i)) buf)"
  then have k: "k < n" using assms by (simp add: memcpy_from_def)
  then show "(memcpy_from i (s - i) buf @ memcpy_from 0 (n - (s - i)) buf) ! k = circ s i n buf ! k"
    using assms mod_once [of "i + k" s] by (auto simp: nth_append memcpy_from_def add.commute)
qed

section \<open>The invariant\<close>

definition rb_wf :: "rt_ringbuffer \<Rightarrow> bool" where
  "rb_wf rb \<longleftrightarrow> 0 < buffer_size rb \<and> buffer_size rb < 2 ^ 15 \<and>
     length (buffer_ptr rb) = buffer_size rb \<and>
     read_index rb < buffer_size rb \<and> write_index rb < buffer_size rb \<and>
     (if read_mirror rb = write_mirror rb then read_index rb \<le> write_index rb
      else write_index rb \<le> read_index rb)"

definition rb_contents :: "rt_ringbuffer \<Rightarrow> u8 list" where
  "rb_contents rb = circ (buffer_size rb) (read_index rb) (rt_ringbuffer_data_len rb) (buffer_ptr rb)"

lemma rb_contents_length [simp]: "length (rb_contents rb) = rt_ringbuffer_data_len rb"
  by (simp add: rb_contents_def)

text \<open>The write index and the mirror bits, as functions of the read index and the length.\<close>

definition rb_pos :: "rt_ringbuffer \<Rightarrow> nat \<Rightarrow> bool" where
  "rb_pos rb n \<longleftrightarrow> read_index rb < buffer_size rb \<and> n \<le> buffer_size rb \<and>
     write_index rb = (read_index rb + n) mod buffer_size rb \<and>
     (write_mirror rb = read_mirror rb \<longleftrightarrow> read_index rb + n < buffer_size rb)"

lemma data_len_cases:
  "rb_wf rb \<Longrightarrow> rt_ringbuffer_data_len rb = (if read_mirror rb = write_mirror rb
     then write_index rb - read_index rb else buffer_size rb + write_index rb - read_index rb)"
  by (cases "read_mirror rb"; cases "write_mirror rb")
    (auto simp: rb_wf_def rt_ringbuffer_data_len_def rt_ringbuffer_status_def Let_def)

lemma rb_pos_of_wf:
  assumes "rb_wf rb"
  shows "rb_pos rb (rt_ringbuffer_data_len rb)"
  using assms mod_once [of "read_index rb + rt_ringbuffer_data_len rb" "buffer_size rb"]
  by (auto simp: rb_pos_def data_len_cases rb_wf_def split: if_splits)

lemma rb_wf_of_pos:
  assumes "rb_pos rb n" and "0 < buffer_size rb" and "buffer_size rb < 2 ^ 15"
    and "length (buffer_ptr rb) = buffer_size rb"
  shows "rb_wf rb" and "rt_ringbuffer_data_len rb = n"
proof -
  have m: "write_index rb = (if read_index rb + n < buffer_size rb then read_index rb + n
      else read_index rb + n - buffer_size rb)"
    using assms(1) mod_once [of "read_index rb + n" "buffer_size rb"] by (auto simp: rb_pos_def)
  show wf: "rb_wf rb" using assms m by (auto simp: rb_wf_def rb_pos_def)
  show "rt_ringbuffer_data_len rb = n"
    using assms(1) m by (auto simp: data_len_cases [OF wf] rb_pos_def)
qed

lemma rb_wfD:
  assumes "rb_wf rb"
  shows "0 < buffer_size rb" "buffer_size rb < 2 ^ 15" "length (buffer_ptr rb) = buffer_size rb"
    "read_index rb < buffer_size rb" "write_index rb < buffer_size rb"
    "rt_ringbuffer_data_len rb \<le> buffer_size rb"
    "write_index rb = (read_index rb + rt_ringbuffer_data_len rb) mod buffer_size rb"
    "write_mirror rb = read_mirror rb \<longleftrightarrow> read_index rb + rt_ringbuffer_data_len rb < buffer_size rb"
  using assms rb_pos_of_wf [OF assms] by (simp_all add: rb_wf_def rb_pos_def)

section \<open>Writing a block\<close>

lemma memcpy_to_nth:
  assumes "i + length bs \<le> length buf" and "j < length buf"
  shows "memcpy_to i bs buf ! j = (if i \<le> j \<and> j < i + length bs then bs ! (j - i) else buf ! j)"
  using assms by (auto simp: memcpy_to_def nth_append min_def)

lemma memcpy_to_length [simp]: "i + length bs \<le> length buf \<Longrightarrow> length (memcpy_to i bs buf) = length buf"
  by (simp add: memcpy_to_def)

text \<open>How far a position of the pool lies behind the write index.\<close>

definition behind :: "nat \<Rightarrow> nat \<Rightarrow> nat \<Rightarrow> nat" where
  "behind s wi j = (if wi \<le> j then j - wi else j + s - wi)"

lemma write_block_fields:
  assumes "rb_wf rb" and "n \<le> buffer_size rb" and "n \<le> length ptr"
  shows "length (buffer_ptr (write_block ptr n rb)) = buffer_size rb"
    "buffer_size (write_block ptr n rb) = buffer_size rb"
    "read_index (write_block ptr n rb) = read_index rb"
    "read_mirror (write_block ptr n rb) = read_mirror rb"
    "write_index (write_block ptr n rb) = (write_index rb + n) mod buffer_size rb"
    "write_mirror (write_block ptr n rb) = write_mirror rb \<longleftrightarrow> write_index rb + n < buffer_size rb"
  using assms rb_wfD(1-5) [OF assms(1)] mod_once [of "write_index rb + n" "buffer_size rb"]
  by (auto simp: write_block_def Let_def memcpy_from_def)

lemma write_block_nth:
  assumes "rb_wf rb" and "n \<le> buffer_size rb" and "n \<le> length ptr" and "j < buffer_size rb"
  shows "buffer_ptr (write_block ptr n rb) ! j =
    (let d = behind (buffer_size rb) (write_index rb) j in if d < n then ptr ! d else buffer_ptr rb ! j)"
proof (cases "n < buffer_size rb - write_index rb")
  case True
  then show ?thesis using assms rb_wfD(3,5) [OF assms(1)]
    by (auto simp: write_block_def Let_def behind_def memcpy_to_nth)
next
  case False
  then show ?thesis using assms rb_wfD(3,5) [OF assms(1)]
    by (auto simp: write_block_def Let_def behind_def memcpy_to_nth memcpy_from_def add.commute)
qed

text \<open>After a write, a range that ends at the write index has grown by the block.\<close>

lemma write_block_circ:
  assumes wf: "rb_wf rb" and n: "n \<le> length ptr" and i: "i < buffer_size rb"
    and fits: "m + n \<le> buffer_size rb" and wi: "write_index rb = (i + m) mod buffer_size rb"
  shows "circ (buffer_size rb) i (m + n) (buffer_ptr (write_block ptr n rb)) =
    circ (buffer_size rb) i m (buffer_ptr rb) @ take n ptr"
proof (rule nth_equalityI)
  let ?s = "buffer_size rb"
  show "length (circ ?s i (m + n) (buffer_ptr (write_block ptr n rb))) =
      length (circ ?s i m (buffer_ptr rb) @ take n ptr)"
    using n by simp
  fix k assume "k < length (circ ?s i (m + n) (buffer_ptr (write_block ptr n rb)))"
  then have k: "k < m + n" by simp
  let ?j = "(i + k) mod ?s"
  have j: "?j < ?s" using i by simp
  have wi': "write_index rb = (if i + m < ?s then i + m else i + m - ?s)"
    using wi mod_once [of "i + m" ?s] i fits by auto
  have j': "?j = (if i + k < ?s then i + k else i + k - ?s)"
    using mod_once [of "i + k" ?s] i k fits by auto
  have d: "behind ?s (write_index rb) ?j = (if k < m then k + ?s - m else k - m)"
    unfolding behind_def wi' j' using i k fits by auto
  have "buffer_ptr (write_block ptr n rb) ! ?j =
      (if k < m then buffer_ptr rb ! ?j else ptr ! (k - m))"
    using write_block_nth [OF wf _ n j] fits k d by (auto simp: Let_def)
  then show "circ ?s i (m + n) (buffer_ptr (write_block ptr n rb)) ! k =
      (circ ?s i m (buffer_ptr rb) @ take n ptr) ! k"
    using k by (simp add: nth_append)
qed

section \<open>The operations on blocks\<close>

lemma write_block_pos:
  assumes wf: "rb_wf rb" and n: "n \<le> length ptr" and fits: "rt_ringbuffer_data_len rb + n \<le> buffer_size rb"
  shows "rb_pos (write_block ptr n rb) (rt_ringbuffer_data_len rb + n)"
proof -
  let ?s = "buffer_size rb" and ?l = "rt_ringbuffer_data_len rb"
  note W = rb_wfD [OF wf]
  have nle: "n \<le> ?s" using fits by simp
  note F = write_block_fields [OF wf nle n]
  have wi: "write_index rb = (if read_index rb + ?l < ?s then read_index rb + ?l
      else read_index rb + ?l - ?s)"
    using W(7) mod_once [of "read_index rb + ?l" ?s] W(4,6) by auto
  have "(write_index rb + n) mod ?s = (read_index rb + (?l + n)) mod ?s"
    using W(7) by (simp add: mod_add_left_eq add.assoc)
  moreover have "write_mirror (write_block ptr n rb) = read_mirror rb \<longleftrightarrow> read_index rb + (?l + n) < ?s"
    using F(6) W(4,8) fits wi by (cases "write_mirror rb"; cases "read_mirror rb") (auto split: if_splits)
  ultimately show ?thesis using F fits W(4) by (simp add: rb_pos_def)
qed

lemma write_block_ok:
  assumes wf: "rb_wf rb" and n: "n \<le> length ptr" and fits: "rt_ringbuffer_data_len rb + n \<le> buffer_size rb"
  shows "rb_wf (write_block ptr n rb)"
    and "rb_contents (write_block ptr n rb) = rb_contents rb @ take n ptr"
proof -
  note W = rb_wfD [OF wf]
  have nle: "n \<le> buffer_size rb" using fits by simp
  note F = write_block_fields [OF wf nle n]
  note P = rb_wf_of_pos [OF write_block_pos [OF assms]]
  show "rb_wf (write_block ptr n rb)" using P(1) F(1,2) W(1,2) by simp
  have "rt_ringbuffer_data_len (write_block ptr n rb) = rt_ringbuffer_data_len rb + n"
    using P(2) F(1,2) W(1,2) by simp
  then show "rb_contents (write_block ptr n rb) = rb_contents rb @ take n ptr"
    using write_block_circ [OF wf n W(4) fits W(7)] by (simp add: rb_contents_def F(2,3))
qed

text \<open>Moving the read index on past some of the data.\<close>

definition skip :: "nat \<Rightarrow> rt_ringbuffer \<Rightarrow> rt_ringbuffer" where
  "skip n rb = rb\<lparr>read_index := (read_index rb + n) mod buffer_size rb,
     read_mirror := (if read_index rb + n < buffer_size rb then read_mirror rb else \<not> read_mirror rb)\<rparr>"

lemma skip_ok:
  assumes wf: "rb_wf rb" and n: "n \<le> rt_ringbuffer_data_len rb"
  shows "rb_wf (skip n rb)" and "rb_contents (skip n rb) = drop n (rb_contents rb)"
proof -
  let ?s = "buffer_size rb" and ?l = "rt_ringbuffer_data_len rb"
  note W = rb_wfD [OF wf]
  have ri: "(read_index rb + n) mod ?s = (if read_index rb + n < ?s then read_index rb + n
      else read_index rb + n - ?s)"
    using mod_once [of "read_index rb + n" ?s] W(4,6) n by auto
  have "((read_index rb + n) mod ?s + (?l - n)) mod ?s = (read_index rb + n + (?l - n)) mod ?s"
    by (rule mod_add_left_eq)
  then have "((read_index rb + n) mod ?s + (?l - n)) mod ?s = (read_index rb + ?l) mod ?s"
    using n by (simp only: add.assoc le_add_diff_inverse)
  moreover have "write_mirror rb = read_mirror (skip n rb) \<longleftrightarrow> (read_index rb + n) mod ?s + (?l - n) < ?s"
    using W(4,6,8) n ri
    by (cases "write_mirror rb"; cases "read_mirror rb") (auto simp: skip_def)
  ultimately have pos: "rb_pos (skip n rb) (?l - n)"
    using W(1,6,7) n by (simp add: rb_pos_def skip_def)
  show "rb_wf (skip n rb)" using rb_wf_of_pos(1) [OF pos] W(1-3) by (simp add: skip_def)
  have "rt_ringbuffer_data_len (skip n rb) = ?l - n"
    using rb_wf_of_pos(2) [OF pos] W(1-3) by (simp add: skip_def)
  then show "rb_contents (skip n rb) = drop n (rb_contents rb)"
    by (simp add: rb_contents_def circ_drop [symmetric]) (simp add: skip_def)
qed

lemma put_eq:
  assumes "rb_wf rb"
  shows "rt_ringbuffer_put ptr count rb =
    (let n = min (unat count) (buffer_size rb - rt_ringbuffer_data_len rb)
     in if rt_ringbuffer_data_len rb = buffer_size rb then (0, rb) else (n, write_block ptr n rb))"
  using rb_wfD(6) [OF assms]
  by (auto simp: rt_ringbuffer_put_def rt_ringbuffer_space_len_def Let_def min_def)

lemma get_eq:
  assumes "rb_wf rb"
  shows "rt_ringbuffer_get count rb =
    (let n = min (unat count) (rt_ringbuffer_data_len rb)
     in if rt_ringbuffer_data_len rb = 0 then ([], rb) else (take n (rb_contents rb), skip n rb))"
proof -
  let ?s = "buffer_size rb" and ?l = "rt_ringbuffer_data_len rb"
  let ?n = "if ?l < unat count then ?l else unat count"
  note W = rb_wfD [OF assms]
  have n: "?n \<le> ?l" "?n \<le> ?s" using W(6) by auto
  have data: "take ?n (rb_contents rb) = circ ?s (read_index rb) ?n (buffer_ptr rb)"
    unfolding rb_contents_def by (rule circ_take [OF n(1)])
  have idx: "(read_index rb + ?n) mod ?s = (if read_index rb + ?n < ?s then read_index rb + ?n
      else read_index rb + ?n - ?s)"
    using mod_once [of "read_index rb + ?n" ?s] W(4) n(2) by linarith
  have min: "min (unat count) ?l = ?n" by auto
  show ?thesis
  proof (cases "?n < ?s - read_index rb")
    case True
    then have one: "memcpy_from (read_index rb) ?n (buffer_ptr rb) = take ?n (rb_contents rb)"
      unfolding data using W(3) by (intro circ_one_piece) auto
    have "read_index rb + ?n < ?s" using True by linarith
    moreover have "idx15 (read_index rb + ?n) = read_index rb + ?n"
      using calculation W(2) by simp
    ultimately show ?thesis using True one idx
      by (simp add: rt_ringbuffer_get_def Let_def min skip_def)
  next
    case False
    then have two: "memcpy_from (read_index rb) (?s - read_index rb) (buffer_ptr rb) @
        memcpy_from 0 (?n - (?s - read_index rb)) (buffer_ptr rb) = take ?n (rb_contents rb)"
      unfolding data using W(3,4) n by (intro circ_two_pieces) auto
    have "\<not> read_index rb + ?n < ?s" using False by linarith
    moreover have "idx15 (?n - (?s - read_index rb)) = read_index rb + ?n - ?s"
      using False W(2,4) n by (subst mod_less) linarith+
    ultimately show ?thesis using False two idx
      by (simp add: rt_ringbuffer_get_def Let_def min skip_def)
  qed
qed

section \<open>Forced writes\<close>

lemma write_block_read_fields:
  "write_block p n (rb\<lparr>read_index := a, read_mirror := b\<rparr>) =
    (write_block p n rb)\<lparr>read_index := a, read_mirror := b\<rparr>"
  by (simp add: write_block_def Let_def)

text \<open>The part of a block that a forced write keeps: its last bytes.\<close>

definition kept :: "nat \<Rightarrow> u8 list \<Rightarrow> u8 list" where
  "kept s ptr = drop (length ptr - s) ptr"

lemma put_force_core:
  assumes wf: "rb_wf rb" and p: "n \<le> length p" and n: "n \<le> buffer_size rb"
  shows "(let rb1 = write_block p n rb; space_length = rt_ringbuffer_space_len rb in
     if n < buffer_size rb - write_index rb
     then (if space_length < n then rb1\<lparr>read_index := write_index rb1\<rparr> else rb1)
     else if space_length < n
          then rb1\<lparr>read_mirror := (if write_index rb1 \<le> read_index rb1 then \<not> read_mirror rb1
                                  else read_mirror rb1),
                   read_index := write_index rb1\<rparr>
          else rb1) =
    write_block p n (skip (rt_ringbuffer_data_len rb + n - buffer_size rb) rb)"
proof -
  let ?s = "buffer_size rb" and ?l = "rt_ringbuffer_data_len rb"
  let ?e = "?l + n - ?s" and ?rb1 = "write_block p n rb"
  note W = rb_wfD [OF wf]
  note F = write_block_fields [OF wf n p]
  have wi: "write_index rb = (if read_index rb + ?l < ?s then read_index rb + ?l
      else read_index rb + ?l - ?s)"
    using W(7) mod_once [of "read_index rb + ?l" ?s] W(4,6) by auto
  have wi1: "write_index ?rb1 = (if write_index rb + n < ?s then write_index rb + n
      else write_index rb + n - ?s)"
    using F(5) mod_once [of "write_index rb + n" ?s] W(5) n by auto
  have space: "rt_ringbuffer_space_len rb < n \<longleftrightarrow> 0 < ?e"
    using W(6) by (auto simp: rt_ringbuffer_space_len_def)
  have sk: "write_block p n (skip ?e rb) = ?rb1\<lparr>read_index := (read_index rb + ?e) mod ?s,
      read_mirror := (if read_index rb + ?e < ?s then read_mirror rb else \<not> read_mirror rb)\<rparr>"
    by (simp only: skip_def write_block_read_fields)
  have same: "?rb1\<lparr>read_index := read_index rb, read_mirror := read_mirror rb\<rparr> = ?rb1"
    by (simp add: write_block_def Let_def)
  show ?thesis
  proof (cases "0 < ?e")
    case False
    then show ?thesis using space sk same W(4) by (simp add: Let_def)
  next
    case True
    have e: "?e \<le> ?l" "?e = ?l + n - ?s" "?s < ?l + n" using True n by auto
    have pos: "(read_index rb + ?e) mod ?s = write_index ?rb1"
      using mod_once [of "read_index rb + ?e" ?s] wi wi1 e W(4,6) n by auto
    show ?thesis
    proof (cases "n < ?s - write_index rb")
      case True
      then have "read_index rb + ?e < ?s" using wi e W(4,6) by (auto split: if_splits)
      then show ?thesis using True space e sk pos by (simp add: Let_def F(3,4))
    next
      case False
      then have "read_index rb + ?e < ?s \<longleftrightarrow> \<not> write_index ?rb1 \<le> read_index rb"
        using wi wi1 e W(4,5,6) n by (auto split: if_splits)
      then show ?thesis using False space e sk pos by (simp add: Let_def F(3,4))
    qed
  qed
qed

lemma kept_append:
  "kept s (xs @ ys) = drop (length xs + min (length ys) s - s) xs @ kept s ys"
  by (cases "s \<le> length ys") (simp_all add: kept_def)

section \<open>The queue interface\<close>

lemma unat_len: "n \<le> 65535 \<Longrightarrow> unat (of_nat n :: u16) = n"
  by (simp add: unat_of_nat take_bit_eq_mod)

interpretation ringbuffer: block_queue rb_wf rb_contents buffer_size
  "\<lambda>xs. rt_ringbuffer_put xs (of_nat (length xs))" "\<lambda>n. rt_ringbuffer_get (of_nat n)" 65535
proof
  fix q :: rt_ringbuffer and xs :: "u8 list" and n :: nat
  assume wf: "rb_wf q"
  note W = rb_wfD [OF wf]
  show "length (rb_contents q) \<le> buffer_size q" using W(6) by simp
  {
    assume "length xs \<le> 65535"
    then have len: "unat (of_nat (length xs) :: u16) = length xs" by (rule unat_len)
    let ?n = "min (length xs) (buffer_size q - rt_ringbuffer_data_len q)"
    have n: "?n \<le> length xs" "rt_ringbuffer_data_len q + ?n \<le> buffer_size q" using W(6) by auto
    note ok = write_block_ok [OF wf n]
    note fields = write_block_fields(2) [OF wf _ n(1)]
    have eq: "rt_ringbuffer_put xs (of_nat (length xs)) q =
        (if rt_ringbuffer_data_len q = buffer_size q then (0, q) else (?n, write_block xs ?n q))"
      by (simp add: put_eq [OF wf] len Let_def)
    show "rb_wf (snd (rt_ringbuffer_put xs (of_nat (length xs)) q)) \<and>
        buffer_size (snd (rt_ringbuffer_put xs (of_nat (length xs)) q)) = buffer_size q"
      using ok(1) fields n(2) wf by (simp add: eq)
    show "fst (rt_ringbuffer_put xs (of_nat (length xs)) q) =
        min (length xs) (buffer_size q - length (rb_contents q))"
      by (simp add: eq)
    show "rb_contents (snd (rt_ringbuffer_put xs (of_nat (length xs)) q)) =
        rb_contents q @ take (fst (rt_ringbuffer_put xs (of_nat (length xs)) q)) xs"
      using ok(2) by (simp add: eq)
  }
  {
    assume "n \<le> 65535"
    then have len: "unat (of_nat n :: u16) = n" by (rule unat_len)
    let ?n = "min n (rt_ringbuffer_data_len q)"
    note ok = skip_ok [OF wf, of ?n]
    have eq: "rt_ringbuffer_get (of_nat n) q =
        (if rt_ringbuffer_data_len q = 0 then ([], q) else (take ?n (rb_contents q), skip ?n q))"
      by (simp add: get_eq [OF wf] len Let_def)
    have empty: "rb_contents q = []" if "rt_ringbuffer_data_len q = 0"
      using that rb_contents_length [of q] by (metis length_0_conv)
    show "rb_wf (snd (rt_ringbuffer_get (of_nat n) q)) \<and>
        buffer_size (snd (rt_ringbuffer_get (of_nat n) q)) = buffer_size q"
      using ok(1) wf by (simp add: eq) (simp add: skip_def)
    show "fst (rt_ringbuffer_get (of_nat n) q) = take n (rb_contents q)"
      using empty by (simp add: eq min_def)
    show "rb_contents (snd (rt_ringbuffer_get (of_nat n) q)) = drop n (rb_contents q)"
      using empty ok(2) by (simp add: eq min_def)
  }
qed

section \<open>Properties\<close>

text \<open>An empty ring of 8 bytes, for concrete runs.\<close>

definition ring8 :: rt_ringbuffer where
  "ring8 = the (rt_ringbuffer_init (replicate 8 0) 8)"

lemma ring8_facts: "rb_wf ring8" "rb_contents ring8 = []" "buffer_size ring8 = 8"
  by (simp_all add: ring8_def rt_ringbuffer_init_def align_down_def rb_wf_def rb_contents_def
    rt_ringbuffer_data_len_def rt_ringbuffer_status_def)

text \<open>
  Claim C24 (refinement). Any run of puts and gets is first in, first out: the bytes that the puts
  accepted come out in order, and what has not come out yet is the contents. The invariant
  holds all along.
\<close>

theorem ringbuffer_fifo:
  assumes "rb_wf rb" and "list_all (block_queue.op_ok 65535) os"
  shows "rb_wf (snd (snd (ringbuffer.run os rb))) \<and>
    rb_contents rb @ fst (ringbuffer.run os rb) =
      fst (snd (ringbuffer.run os rb)) @ rb_contents (snd (snd (ringbuffer.run os rb)))"
  using ringbuffer.run_fifo [OF assms] by simp

theorem ringbuffer_fifo_witness:
  "fst (ringbuffer.run [Put [1, 2, 3, 4, 5], Get 3, Put [6, 7, 8, 9], Get 9] ring8) =
   fst (snd (ringbuffer.run [Put [1, 2, 3, 4, 5], Get 3, Put [6, 7, 8, 9], Get 9] ring8)) @
   rb_contents (snd (snd (ringbuffer.run [Put [1, 2, 3, 4, 5], Get 3, Put [6, 7, 8, 9], Get 9] ring8)))"
  using ringbuffer_fifo [OF ring8_facts(1), of "[Put [1, 2, 3, 4, 5], Get 3, Put [6, 7, 8, 9], Get 9]"]
  by (simp add: ring8_facts(2) ringbuffer.op_ok_def del: ringbuffer.run.simps)

text \<open>
  A forced put keeps the newest bytes: the contents afterwards are the last
  bytes, as many as fit, of the old contents followed by the block.
\<close>

lemma rt_ringbuffer_put_force_ok:
  assumes wf: "rb_wf rb" and len: "length ptr = unat count"
  shows "rb_contents (snd (rt_ringbuffer_put_force ptr count rb)) =
      kept (buffer_size rb) (rb_contents rb @ ptr) \<and>
    rb_wf (snd (rt_ringbuffer_put_force ptr count rb)) \<and>
    fst (rt_ringbuffer_put_force ptr count rb) = min (unat count) (buffer_size rb)"
proof -
  let ?s = "buffer_size rb" and ?l = "rt_ringbuffer_data_len rb"
  let ?n = "min (unat count) ?s" and ?p = "kept ?s ptr"
  let ?e = "?l + ?n - ?s"
  note W = rb_wfD [OF wf]
  have p: "(if ?s < unat count then (drop (unat count - ?s) ptr, ?s) else (ptr, unat count)) = (?p, ?n)"
    using len by (simp add: kept_def)
  have n: "?n \<le> length ?p" "?n \<le> ?s" using len by (simp_all add: kept_def)
  have eq: "rt_ringbuffer_put_force ptr count rb = (?n, write_block ?p ?n (skip ?e rb))"
    using put_force_core [OF wf n] unfolding rt_ringbuffer_put_force_def p Let_def by simp
  have e: "?e \<le> ?l" by simp
  note S = skip_ok [OF wf e]
  have l2: "rt_ringbuffer_data_len (skip ?e rb) = ?l - ?e"
    using rb_contents_length [of "skip ?e rb"] by (simp add: S(2))
  have size2: "buffer_size (skip ?e rb) = ?s" by (simp add: skip_def)
  have fits: "rt_ringbuffer_data_len (skip ?e rb) + ?n \<le> buffer_size (skip ?e rb)"
    unfolding l2 size2 using W(6) by auto
  note B = write_block_ok [OF S(1) n(1) fits]
  have "take ?n ?p = ?p" using len by (simp add: kept_def)
  then have "rb_contents (write_block ?p ?n (skip ?e rb)) = kept ?s (rb_contents rb @ ptr)"
    unfolding B(2) S(2) kept_append using len by simp
  with B(1) eq show ?thesis by simp
qed

lemma rt_ringbuffer_put_force_witness:
  "rb_contents (snd (rt_ringbuffer_put_force [1, 2, 3, 4, 5, 6, 7, 8, 9, 10] 10 ring8)) =
     [3, 4, 5, 6, 7, 8, 9, 10]"
  using rt_ringbuffer_put_force_ok [OF ring8_facts(1), of "[1, 2, 3, 4, 5, 6, 7, 8, 9, 10]" 10]
  by (simp add: ring8_facts kept_def)

text \<open>
  The operations on single bytes agree with those on blocks of one byte, forced or
  not, wrap-around and full buffer included.
\<close>

theorem ringbuffer_single_bytes:
  assumes wf: "rb_wf rb"
  shows "rt_ringbuffer_putchar ch rb = rt_ringbuffer_put [ch] 1 rb \<and>
    rt_ringbuffer_putchar_force ch rb = rt_ringbuffer_put_force [ch] 1 rb \<and>
    rt_ringbuffer_getchar rb = (case rt_ringbuffer_get 1 rb of (ys, rb') \<Rightarrow>
      (case ys of [] \<Rightarrow> None | y # _ \<Rightarrow> Some y, rb'))"
proof (intro conjI)
  let ?s = "buffer_size rb"
  note W = rb_wfD [OF wf]
  have store: "memcpy_to i [ch] (buffer_ptr rb) = (buffer_ptr rb)[i := ch]" if "i < ?s" for i
    using that W(3) by (simp add: memcpy_to_def upd_conv_take_nth_drop)
  have block: "write_block [ch] 1 rb = (let rb1 = pool_store (write_index rb) ch rb
     in if int (write_index rb1) = int (buffer_size rb1) - 1
        then rb1\<lparr>write_mirror := \<not> write_mirror rb1, write_index := 0\<rparr>
        else rb1\<lparr>write_index := idx15 (write_index rb1 + 1)\<rparr>)"
  proof (cases "write_index rb = ?s - 1")
    case True
    then have "?s - write_index rb = 1" "int (write_index rb) = int ?s - 1" using W(1) by auto
    then show ?thesis using store [OF W(5)] W(5)
      by (simp add: write_block_def pool_store_def memcpy_to_def Let_def memcpy_from_def)
  next
    case False
    then have "1 < ?s - write_index rb" "int (write_index rb) \<noteq> int ?s - 1" using W(5) by auto
    then show ?thesis using store [OF W(5)]
      by (simp add: write_block_def pool_store_def Let_def)
  qed
  show "rt_ringbuffer_putchar ch rb = rt_ringbuffer_put [ch] 1 rb"
    unfolding rt_ringbuffer_putchar_def rt_ringbuffer_put_def
    using block by (auto simp: Let_def)
  have full: "rt_ringbuffer_status rb = RT_RINGBUFFER_FULL \<longleftrightarrow> rt_ringbuffer_space_len rb = 0"
    using W(1,4,5) wf
    by (auto simp: rt_ringbuffer_space_len_def rt_ringbuffer_data_len_def rt_ringbuffer_status_def
      Let_def rb_wf_def)
  have last: "int (write_index rb) = int ?s - 1 \<longleftrightarrow> \<not> 1 < ?s - write_index rb" using W(5) by auto
  show "rt_ringbuffer_putchar_force ch rb = rt_ringbuffer_put_force [ch] 1 rb"
    using W(1,4) full last block
    by (simp add: rt_ringbuffer_putchar_force_def rt_ringbuffer_put_force_def pool_store_def Let_def)
  show "rt_ringbuffer_getchar rb = (case rt_ringbuffer_get 1 rb of (ys, rb') \<Rightarrow>
      (case ys of [] \<Rightarrow> None | y # _ \<Rightarrow> Some y, rb'))"
  proof -
    have one: "memcpy_from i (Suc 0) (buffer_ptr rb) = [buffer_ptr rb ! i]" if "i < ?s" for i
      using that W(3) by (simp add: memcpy_from_def take_Suc_conv_app_nth)
    have "int (read_index rb) = int ?s - 1 \<longleftrightarrow> \<not> 1 < ?s - read_index rb" using W(4) by auto
    moreover have "?s - read_index rb = Suc 0" if "\<not> 1 < ?s - read_index rb" using that W(4) by auto
    ultimately show ?thesis using one [OF W(4)]
      by (auto simp: rt_ringbuffer_getchar_def rt_ringbuffer_get_def Let_def memcpy_from_def)
  qed
qed

theorem ringbuffer_single_bytes_witness:
  "rt_ringbuffer_putchar_force 7 ring8 = rt_ringbuffer_put_force [7] 1 ring8"
  using ringbuffer_single_bytes [OF ring8_facts(1), of 7] by blast

text \<open>
  \<^verbatim>\<open>rt_ringbuffer_peak\<close> does not only look: it returns a stretch of the pool that
  holds the first bytes of the contents, and takes these bytes out of the buffer.
\<close>

lemma rt_ringbuffer_peak_consumes:
  assumes wf: "rb_wf rb" and some: "rb_contents rb \<noteq> []"
  shows "\<exists>i n rb'. rt_ringbuffer_peak rb = (Some i, n, rb') \<and> 0 < n \<and> rb_wf rb' \<and>
    memcpy_from i n (buffer_ptr rb) = take n (rb_contents rb) \<and>
    rb_contents rb' = drop n (rb_contents rb)"
proof -
  let ?s = "buffer_size rb" and ?l = "rt_ringbuffer_data_len rb"
  note W = rb_wfD [OF wf]
  have l: "?l \<noteq> 0" using some rb_contents_length [of rb] by (metis length_0_conv)
  let ?n = "if ?l < ?s - read_index rb then ?l else ?s - read_index rb"
  have n: "?n \<le> ?l" "0 < ?n" "read_index rb + ?n \<le> ?s" using l W(4) by auto
  have "rt_ringbuffer_peak rb = (Some (read_index rb), ?n, skip ?n rb)"
    using l W(2,4) by (auto simp: rt_ringbuffer_peak_def Let_def skip_def)
  moreover have "memcpy_from (read_index rb) ?n (buffer_ptr rb) = take ?n (rb_contents rb)"
    unfolding rb_contents_def circ_take [OF n(1)] by (rule circ_one_piece [OF n(3) W(3)])
  ultimately show ?thesis using n(2) skip_ok [OF wf n(1)] by blast
qed

lemma rt_ringbuffer_peak_witness:
  "\<exists>i n rb'. rt_ringbuffer_peak (snd (rt_ringbuffer_put [1, 2, 3] 3 ring8)) = (Some i, n, rb') \<and>
     rb_contents rb' = drop n [1, 2, 3]"
proof -
  have w: "rb_wf (snd (rt_ringbuffer_put [1, 2, 3] 3 ring8))"
    and c: "rb_contents (snd (rt_ringbuffer_put [1, 2, 3] 3 ring8)) = [1, 2, 3]"
    using ringbuffer.put_wf [OF ring8_facts(1), of "[1, 2, 3]"]
      ringbuffer.put_contents [OF ring8_facts(1), of "[1, 2, 3]"]
      ringbuffer.put_count [OF ring8_facts(1), of "[1, 2, 3]"]
    by (simp_all add: ring8_facts)
  from rt_ringbuffer_peak_consumes [OF w] show ?thesis unfolding c by auto
qed

text \<open>
  A ring of a size that is at least four and fits the pool starts empty and
  well formed; the size is rounded down to a multiple of four, so that a request for one to three bytes fails the
  assertion of the initialisation inside \<^verbatim>\<open>rt_ringbuffer_create\<close>.
\<close>

lemma rt_ringbuffer_init_create:
  "(4 \<le> n \<and> n < 2 ^ 15 \<and> length pool = align_down n \<longrightarrow>
     (\<exists>rb. rt_ringbuffer_init pool (int n) = Some rb \<and> rb_wf rb \<and> rb_contents rb = [] \<and>
       buffer_size rb = align_down n)) \<and>
   (sz < 4 \<longrightarrow> rt_ringbuffer_create True (Some pool) sz = None)"
proof (intro conjI impI)
  assume n: "4 \<le> n \<and> n < 2 ^ 15 \<and> length pool = align_down n"
  have "n = n div 4 * 4 + n mod 4" "n mod 4 < 4" by simp_all
  then have "0 < align_down n" "align_down n < 2 ^ 15"
    using n unfolding align_down_def by linarith+
  then show "\<exists>rb. rt_ringbuffer_init pool (int n) = Some rb \<and> rb_wf rb \<and> rb_contents rb = [] \<and>
       buffer_size rb = align_down n"
    using n by (simp add: rt_ringbuffer_init_def rb_wf_def rb_contents_def
      rt_ringbuffer_data_len_def rt_ringbuffer_status_def)
next
  assume "sz < 4"
  then have "align_down (unat sz) = 0" by (simp add: align_down_def word_less_nat_alt)
  then show "rt_ringbuffer_create True (Some pool) sz = None"
    by (simp add: rt_ringbuffer_create_def rt_ringbuffer_init_def)
qed

lemma rt_ringbuffer_init_create_witness:
  "\<exists>rb. rt_ringbuffer_init (replicate 8 0) (int 10) = Some rb \<and> rb_wf rb"
  using rt_ringbuffer_init_create [of 10 "replicate 8 0" 0] by (auto simp: align_down_def)

end
