(* ===== verification/Pm.thy ===== *)
theory Pm
  imports Timer
begin

text \<open>
  \<^verbatim>\<open>drivers/pm/pm.c\<close> and \<^verbatim>\<open>pm.h\<close> (default configuration): the power
  management of the RT-Thread driver framework, which counts requests for sleep modes,
  suspends and resumes devices around a sleep and corrects the tick afterwards.

  Code behind pointers is the parameter \<open>code\<close>, a record with one function for each kind of
  pointer; it acts on the whole state and may call the operations again. \<open>None\<close> is
  an assertion that failed, a call of a null pointer, an access outside an array, or the use of an
  uninitialised variable.
\<close>

section \<open>Constants and state\<close>

abbreviation PM_SLEEP_MODE_NONE :: u8 where "PM_SLEEP_MODE_NONE \<equiv> 0"
abbreviation PM_SLEEP_MODE_IDLE :: u8 where "PM_SLEEP_MODE_IDLE \<equiv> 1"
abbreviation PM_SLEEP_MODE_LIGHT :: u8 where "PM_SLEEP_MODE_LIGHT \<equiv> 2"
abbreviation PM_SLEEP_MODE_DEEP :: u8 where "PM_SLEEP_MODE_DEEP \<equiv> 3"
abbreviation PM_MODES :: nat where "PM_MODES \<equiv> 6"
abbreviation PM_RUN_MODE_NORMAL_SPEED :: u8 where "PM_RUN_MODE_NORMAL_SPEED \<equiv> 1"
abbreviation PM_RUN_MODE_MAX :: u8 where "PM_RUN_MODE_MAX \<equiv> 4"
abbreviation RT_PM_FREQUENCY_PENDING :: u8 where "RT_PM_FREQUENCY_PENDING \<equiv> 1"
abbreviation RT_PM_DEFAULT_SLEEP_MODE :: u8 where "RT_PM_DEFAULT_SLEEP_MODE \<equiv> PM_SLEEP_MODE_NONE"
abbreviation RT_PM_DEFAULT_DEEPSLEEP_MODE :: u8 where "RT_PM_DEFAULT_DEEPSLEEP_MODE \<equiv> PM_SLEEP_MODE_DEEP"
abbreviation RT_PM_TICKLESS_THRESH :: u32 where "RT_PM_TICKLESS_THRESH \<equiv> 2"
abbreviation PM_MODULE_MAX_ID :: nat where "PM_MODULE_MAX_ID \<equiv> 17"
abbreviation RT_PM_ENTER_SLEEP :: u8 where "RT_PM_ENTER_SLEEP \<equiv> 0"
abbreviation RT_PM_EXIT_SLEEP :: u8 where "RT_PM_EXIT_SLEEP \<equiv> 1"

record rt_pm_ops =
  po_sleep :: "fptr option"
  po_run :: "fptr option"
  po_timer_start :: "fptr option"
  po_timer_stop :: "fptr option"
  po_timer_get_tick :: "fptr option"

record rt_device_pm_ops =
  do_suspend :: "fptr option"
  do_resume :: "fptr option"
  do_frequency_change :: "fptr option"

text \<open>A device is an address, null when \<open>None\<close>; so is its table of operations.\<close>

record rt_device_pm =
  pd_device :: "nat option"
  pd_ops :: "rt_device_pm_ops option"

record rt_pm_module =
  req_status :: u8
  busy_flag :: bool
  mod_timeout :: u32
  start_time :: u32

text \<open>\<^verbatim>\<open>_pm\<close> and the other static variables of the file, on top of the kernel.\<close>

record pm_state = kernel +
  pm_modes :: "u8 list"
  pm_sleep_mode :: u8
  pm_run_mode :: u8
  module_status :: "rt_pm_module list"
  device_pm_number :: u8
  device_pm :: "rt_device_pm list"
  timer_mask :: u8
  pm_flags :: u8
  pm_ops_table :: "rt_pm_ops option"
  pm_default_sleep :: u8
  pm_default_deepsleep :: u8
  pm_notify_fun :: "fptr option"
  pm_notify_data :: nat
  pm_init_flag :: u8

record 'w pm_code =
  c_sleep :: "fptr \<Rightarrow> u8 \<Rightarrow> 'w \<Rightarrow> 'w"
  c_run :: "fptr \<Rightarrow> u8 \<Rightarrow> 'w \<Rightarrow> 'w"
  c_timer_start :: "fptr \<Rightarrow> u32 \<Rightarrow> 'w \<Rightarrow> 'w"
  c_timer_stop :: "fptr \<Rightarrow> 'w \<Rightarrow> 'w"
  c_timer_get_tick :: "fptr \<Rightarrow> 'w \<Rightarrow> u32 \<times> 'w"
  c_suspend :: "fptr \<Rightarrow> nat option \<Rightarrow> u8 \<Rightarrow> 'w \<Rightarrow> rt_err \<times> 'w"
  c_resume :: "fptr \<Rightarrow> nat option \<Rightarrow> u8 \<Rightarrow> 'w \<Rightarrow> 'w"
  c_frequency_change :: "fptr \<Rightarrow> nat option \<Rightarrow> u8 \<Rightarrow> 'w \<Rightarrow> 'w"
  c_notify :: "fptr \<Rightarrow> u8 \<Rightarrow> u8 \<Rightarrow> nat \<Rightarrow> 'w \<Rightarrow> 'w"
  c_kernel :: "fptr \<Rightarrow> nat \<Rightarrow> 'w \<Rightarrow> 'w"

type_synonym 'x pmc = "'x pm_state_scheme pm_code"

text \<open>A call through \<^verbatim>\<open>pm->ops\<close>; \<open>None\<close> when a pointer on the way is null.\<close>

definition ops_call :: "(rt_pm_ops \<Rightarrow> fptr option) \<Rightarrow> (fptr \<Rightarrow> 'x pm_state_scheme \<Rightarrow> 'b) \<Rightarrow>
    'x pm_state_scheme \<Rightarrow> 'b option" where
  "ops_call sel run w = (case pm_ops_table w of
     None \<Rightarrow> None
   | Some tab \<Rightarrow> map_option (\<lambda>f. run f w) (sel tab))"

definition rt_pm_enter_critical :: "u8 \<Rightarrow> 'x pm_state_scheme \<Rightarrow> u32 \<times> 'x pm_state_scheme" where
  "rt_pm_enter_critical mode = rt_hw_interrupt_disable"

definition rt_pm_exit_critical :: "u32 \<Rightarrow> u8 \<Rightarrow> 'x pm_state_scheme \<Rightarrow> 'x pm_state_scheme" where
  "rt_pm_exit_critical ctx mode = rt_hw_interrupt_enable ctx"

section \<open>Devices\<close>

text \<open>
  The three loops over the registered devices. The table and its length are read anew for
  each device, as a callback may change them.
\<close>

function pm_device_suspend :: "'x pmc \<Rightarrow> u8 \<Rightarrow> nat \<Rightarrow> rt_err \<Rightarrow> 'x pm_state_scheme \<Rightarrow>
    (rt_err \<times> 'x pm_state_scheme) option" where
  "pm_device_suspend code mode index ret w =
    (if unat (device_pm_number w) \<le> index then Some (ret, w)
     else (case pd_ops (device_pm w ! index) of
       None \<Rightarrow> None
     | Some tab \<Rightarrow> (case do_suspend tab of
         None \<Rightarrow> pm_device_suspend code mode (Suc index) ret w
       | Some f \<Rightarrow>
           let (ret', w') = c_suspend code f (pd_device (device_pm w ! index)) mode w
           in if ret' \<noteq> RT_EOK then Some (ret', w')
              else pm_device_suspend code mode (Suc index) ret' w')))"
  by pat_completeness auto

function pm_device_resume :: "'x pmc \<Rightarrow> u8 \<Rightarrow> nat \<Rightarrow> 'x pm_state_scheme \<Rightarrow>
    'x pm_state_scheme option" where
  "pm_device_resume code mode index w =
    (if unat (device_pm_number w) \<le> index then Some w
     else (case pd_ops (device_pm w ! index) of
       None \<Rightarrow> None
     | Some tab \<Rightarrow> pm_device_resume code mode (Suc index) (case do_resume tab of
         None \<Rightarrow> w
       | Some f \<Rightarrow> c_resume code f (pd_device (device_pm w ! index)) mode w)))"
  by pat_completeness auto

function pm_device_frequency_change :: "'x pmc \<Rightarrow> u8 \<Rightarrow> nat \<Rightarrow> 'x pm_state_scheme \<Rightarrow>
    'x pm_state_scheme option" where
  "pm_device_frequency_change code mode index w =
    (if unat (device_pm_number w) \<le> index then Some w
     else (case pd_ops (device_pm w ! index) of
       None \<Rightarrow> None
     | Some tab \<Rightarrow> pm_device_frequency_change code mode (Suc index) (case do_frequency_change tab of
         None \<Rightarrow> w
       | Some f \<Rightarrow> c_frequency_change code f (pd_device (device_pm w ! index)) mode w)))"
  by pat_completeness auto

text \<open>The number of devices is a byte, so each loop has at most 256 rounds.\<close>

lemma device_number_lt: "unat (device_pm_number w) < 256"
  using unsigned_less [of "device_pm_number w", where ?'a = nat] by simp

lemma device_round: "index < unat (device_pm_number w) \<Longrightarrow> 255 - index < 256 - index"
  using device_number_lt [of w] by linarith

termination pm_device_suspend
  by (relation "measure (\<lambda>(code, mode, index, ret, w). 256 - index)")
    (auto simp: not_le intro: device_round)

termination pm_device_resume
  by (relation "measure (\<lambda>(code, mode, index, w). 256 - index)")
    (auto simp: not_le intro: device_round)

termination pm_device_frequency_change
  by (relation "measure (\<lambda>(code, mode, index, w). 256 - index)")
    (auto simp: not_le intro: device_round)

declare pm_device_suspend.simps [simp del] pm_device_resume.simps [simp del]
  pm_device_frequency_change.simps [simp del]

section \<open>Choosing and counting\<close>

definition pm_frequency_scaling :: "'x pmc \<Rightarrow> 'x pm_state_scheme \<Rightarrow> 'x pm_state_scheme option" where
  "pm_frequency_scaling code w =
    (if pm_flags w AND RT_PM_FREQUENCY_PENDING \<noteq> 0
     then let (level, w1) = rt_hw_interrupt_disable w
          in (case ops_call po_run (\<lambda>f. c_run code f (pm_run_mode w1)) w1 of
                None \<Rightarrow> None
              | Some w2 \<Rightarrow> (case pm_device_frequency_change code (pm_run_mode w2) 0 w2 of
                  None \<Rightarrow> None
                | Some w3 \<Rightarrow> Some (rt_hw_interrupt_enable level
                    (w3\<lparr>pm_flags := pm_flags w3 AND NOT RT_PM_FREQUENCY_PENDING\<rparr>))))
     else Some w)"

definition pm_select_sleep_mode :: "'x pm_state_scheme \<Rightarrow> u8 \<times> 'x pm_state_scheme" where
  "pm_select_sleep_mode w =
    (let mode = (case first_index (\<lambda>n. n \<noteq> 0) (pm_modes w) of
           None \<Rightarrow> pm_default_deepsleep w
         | Some index \<Rightarrow> of_nat index)
     in (mode, w\<lparr>pm_sleep_mode := mode\<rparr>))"

definition set_module :: "nat \<Rightarrow> (rt_pm_module \<Rightarrow> rt_pm_module) \<Rightarrow> 'x pm_state_scheme \<Rightarrow> 'x pm_state_scheme" where
  "set_module i f w = w\<lparr>module_status := (module_status w)[i := f (module_status w ! i)]\<rparr>"

definition set_count :: "nat \<Rightarrow> (u8 \<Rightarrow> u8) \<Rightarrow> 'x pm_state_scheme \<Rightarrow> 'x pm_state_scheme" where
  "set_count i f w = w\<lparr>pm_modes := (pm_modes w)[i := f (pm_modes w ! i)]\<rparr>"

abbreviation count_up :: "u8 \<Rightarrow> u8" where "count_up n \<equiv> if n < 255 then n + 1 else n"
abbreviation count_down :: "u8 \<Rightarrow> u8" where "count_down n \<equiv> if 0 < n then n - 1 else n"

definition rt_pm_module_delay_sleep :: "u8 \<Rightarrow> u32 \<Rightarrow> 'x pm_state_scheme \<Rightarrow> 'x pm_state_scheme" where
  "rt_pm_module_delay_sleep module_id tmo w =
    (if pm_init_flag w = 0 then w
     else if PM_MODULE_MAX_ID - 1 < unat module_id then w
     else let (level, w1) = rt_hw_interrupt_disable w;
              w2 = set_module (unat module_id)
                (\<lambda>m. m\<lparr>busy_flag := True, mod_timeout := tmo, start_time := rt_tick_get w1\<rparr>) w1
          in rt_hw_interrupt_enable level w2)"

text \<open>The loop of the idle check; a busy time that has passed is cleared on the way.\<close>

fun check_idle_loop :: "nat list \<Rightarrow> 'x pm_state_scheme \<Rightarrow> bool \<times> 'x pm_state_scheme" where
  "check_idle_loop [] w = (True, w)"
| "check_idle_loop (i # is) w =
    (let m = module_status w ! i;
         w1 = (if busy_flag m \<and> mod_timeout m < rt_tick_get w - start_time m
               then set_module i (\<lambda>m. m\<lparr>busy_flag := False, mod_timeout := 0\<rparr>) w else w)
     in if busy_flag (module_status w1 ! i) then (False, w1) else check_idle_loop is w1)"

definition pm_device_check_idle :: "'x pm_state_scheme \<Rightarrow> bool \<times> 'x pm_state_scheme" where
  "pm_device_check_idle w =
    (if pm_init_flag w = 0 then (True, w) else check_idle_loop [0..<PM_MODULE_MAX_ID] w)"

section \<open>The sleep\<close>

definition notify_app :: "'x pmc \<Rightarrow> u8 \<Rightarrow> 'x pm_state_scheme \<Rightarrow> 'x pm_state_scheme" where
  "notify_app code event w = (case pm_notify_fun w of
     None \<Rightarrow> w
   | Some f \<Rightarrow> c_notify code f event (pm_sleep_mode w) (pm_notify_data w) w)"

text \<open>\<^verbatim>\<open>pm->timer_mask & (0x01 << pm->sleep_mode)\<close>\<close>

definition mode_has_timer :: "'x pm_state_scheme \<Rightarrow> bool" where
  "mode_has_timer w \<longleftrightarrow> (ucast (timer_mask w) :: u32) AND push_bit (unat (pm_sleep_mode w)) 1 \<noteq> 0"

text \<open>The part before the sleep that arms the timer or falls back to the idle mode.\<close>

definition pm_tickless_arm :: "'x pmc \<Rightarrow> 'x pm_state_scheme \<Rightarrow> 'x pm_state_scheme option" where
  "pm_tickless_arm code w =
    (if mode_has_timer w
     then let (timeout_tick, w1) = rt_timer_next_timeout_tick w
          in if timeout_tick = RT_TICK_MAX
             then (case pm_ops_table w1 of
                     None \<Rightarrow> None
                   | Some tab \<Rightarrow> (case po_timer_start tab of
                       None \<Rightarrow> Some w1
                     | Some f \<Rightarrow> Some (c_timer_start code f RT_TICK_MAX w1)))
             else let left = timeout_tick - rt_tick_get w1
                  in if left < RT_PM_TICKLESS_THRESH
                     then Some (w1\<lparr>pm_sleep_mode := PM_SLEEP_MODE_IDLE\<rparr>)
                     else ops_call po_timer_start (\<lambda>f. c_timer_start code f left) w1
     else Some w)"

text \<open>
  The part after it. The ticks slept are \<open>None\<close> when the mode has no timer: then
  \<^verbatim>\<open>delta_tick\<close> is not initialised.
\<close>

definition pm_tickless_resume :: "'x pmc \<Rightarrow> 'x pm_state_scheme \<Rightarrow>
    (u32 option \<times> 'x pm_state_scheme) option" where
  "pm_tickless_resume code w =
    (if mode_has_timer w
     then (case ops_call po_timer_get_tick (\<lambda>f. c_timer_get_tick code f) w of
             None \<Rightarrow> None
           | Some (delta_tick, w1) \<Rightarrow> (case ops_call po_timer_stop (\<lambda>f. c_timer_stop code f) w1 of
               None \<Rightarrow> None
             | Some w2 \<Rightarrow> Some (Some delta_tick,
                 if delta_tick \<noteq> 0 then rt_tick_set (rt_tick_get w2 + delta_tick) w2 else w2)))
     else Some (None, w))"

definition pm_last_check :: "nat \<Rightarrow> 'x pmc \<Rightarrow> u32 option \<Rightarrow> 'x pm_state_scheme \<Rightarrow>
    'x pm_state_scheme option" where
  "pm_last_check fuel code delta_tick w =
    (if mode_has_timer w
     then (case delta_tick of
             None \<Rightarrow> None
           | Some d \<Rightarrow> if d \<noteq> 0 then rt_timer_check fuel (c_kernel code) w else Some w)
     else Some w)"

text \<open>Sleep proper, once the devices are suspended.\<close>

definition pm_enter_sleep :: "nat \<Rightarrow> 'x pmc \<Rightarrow> u32 \<Rightarrow> 'x pm_state_scheme \<Rightarrow> 'x pm_state_scheme option" where
  "pm_enter_sleep fuel code level w =
    (case pm_tickless_arm code w of
       None \<Rightarrow> None
     | Some w1 \<Rightarrow> (case ops_call po_sleep (\<lambda>f. c_sleep code f (pm_sleep_mode w1)) w1 of
         None \<Rightarrow> None
       | Some w2 \<Rightarrow> (case pm_tickless_resume code w2 of
           None \<Rightarrow> None
         | Some (delta_tick, w3) \<Rightarrow> (case pm_device_resume code (pm_sleep_mode w3) 0 w3 of
             None \<Rightarrow> None
           | Some w4 \<Rightarrow>
               let w5 = notify_app code RT_PM_EXIT_SLEEP w4;
                   w6 = rt_pm_exit_critical level (pm_sleep_mode w5) w5
               in pm_last_check fuel code delta_tick w6))))"

definition pm_change_sleep_mode :: "nat \<Rightarrow> 'x pmc \<Rightarrow> 'x pm_state_scheme \<Rightarrow> 'x pm_state_scheme option" where
  "pm_change_sleep_mode fuel code w =
    (let (level, w1) = rt_pm_enter_critical (pm_sleep_mode w) w;
         (idle, w2) = pm_device_check_idle w1
     in if \<not> idle \<or> pm_sleep_mode w2 = PM_SLEEP_MODE_NONE
        then map_option (\<lambda>w3. rt_pm_exit_critical level (pm_sleep_mode w3) w3)
               (ops_call po_sleep (\<lambda>f. c_sleep code f PM_SLEEP_MODE_NONE) w2)
        else let w3 = notify_app code RT_PM_ENTER_SLEEP w2
             in (case pm_device_suspend code (pm_sleep_mode w3) 0 RT_EOK w3 of
                   None \<Rightarrow> None
                 | Some (ret, w4) \<Rightarrow>
                     if ret \<noteq> RT_EOK
                     then map_option (\<lambda>w5. let w6 = notify_app code RT_PM_EXIT_SLEEP w5
                            in rt_pm_exit_critical level (pm_sleep_mode w6) w6)
                            (pm_device_resume code (pm_sleep_mode w4) 0 w4)
                     else pm_enter_sleep fuel code level w4))"

definition rt_system_power_manager :: "nat \<Rightarrow> 'x pmc \<Rightarrow> 'x pm_state_scheme \<Rightarrow> 'x pm_state_scheme option" where
  "rt_system_power_manager fuel code w =
    (if pm_init_flag w = 0 then Some w
     else (case pm_frequency_scaling code w of
       None \<Rightarrow> None
     | Some w1 \<Rightarrow> pm_change_sleep_mode fuel code w1))"

section \<open>Requests\<close>

text \<open>Every request and release ends with a new choice of the sleep mode.\<close>

definition rt_pm_request :: "u8 \<Rightarrow> 'x pm_state_scheme \<Rightarrow> 'x pm_state_scheme" where
  "rt_pm_request mode w =
    (if pm_init_flag w = 0 then w
     else if PM_MODES - 1 < unat mode then w
     else let (level, w1) = rt_hw_interrupt_disable w;
              w2 = set_count (unat mode) count_up w1;
              w3 = snd (pm_select_sleep_mode w2)
          in rt_hw_interrupt_enable level w3)"

definition rt_pm_release :: "u8 \<Rightarrow> 'x pm_state_scheme \<Rightarrow> 'x pm_state_scheme" where
  "rt_pm_release mode w =
    (if pm_init_flag w = 0 then w
     else if PM_MODES - 1 < unat mode then w
     else let (level, w1) = rt_hw_interrupt_disable w;
              w2 = set_count (unat mode) count_down w1;
              w3 = snd (pm_select_sleep_mode w2)
          in rt_hw_interrupt_enable level w3)"

definition rt_pm_release_all :: "u8 \<Rightarrow> 'x pm_state_scheme \<Rightarrow> 'x pm_state_scheme" where
  "rt_pm_release_all mode w =
    (if pm_init_flag w = 0 then w
     else if PM_MODES - 1 < unat mode then w
     else let (level, w1) = rt_hw_interrupt_disable w;
              w2 = set_count (unat mode) (\<lambda>n. 0) w1;
              w3 = snd (pm_select_sleep_mode w2)
          in rt_hw_interrupt_enable level w3)"

definition rt_pm_module_request :: "u8 \<Rightarrow> u8 \<Rightarrow> 'x pm_state_scheme \<Rightarrow> 'x pm_state_scheme" where
  "rt_pm_module_request module_id mode w =
    (if pm_init_flag w = 0 then w
     else if PM_MODES - 1 < unat mode then w
     else if PM_MODULE_MAX_ID - 1 < unat module_id then w
     else let (level, w1) = rt_hw_interrupt_disable w;
              w2 = set_module (unat module_id) (\<lambda>m. m\<lparr>req_status := 1\<rparr>) w1;
              w3 = set_count (unat mode) count_up w2;
              w4 = snd (pm_select_sleep_mode w3)
          in rt_hw_interrupt_enable level w4)"

definition rt_pm_module_release :: "u8 \<Rightarrow> u8 \<Rightarrow> 'x pm_state_scheme \<Rightarrow> 'x pm_state_scheme" where
  "rt_pm_module_release module_id mode w =
    (if pm_init_flag w = 0 then w
     else if PM_MODES - 1 < unat mode then w
     else if PM_MODULE_MAX_ID - 1 < unat module_id then w
     else let (level, w1) = rt_hw_interrupt_disable w;
              w2 = set_count (unat mode) count_down w1;
              w3 = (if pm_modes w2 ! unat mode = 0
                    then set_module (unat module_id) (\<lambda>m. m\<lparr>req_status := 0\<rparr>) w2 else w2);
              w4 = snd (pm_select_sleep_mode w3)
          in rt_hw_interrupt_enable level w4)"

text \<open>The module number is not checked here: a write outside the array is \<open>None\<close>.\<close>

definition rt_pm_module_release_all :: "u8 \<Rightarrow> u8 \<Rightarrow> 'x pm_state_scheme \<Rightarrow> 'x pm_state_scheme option" where
  "rt_pm_module_release_all module_id mode w =
    (if pm_init_flag w = 0 then Some w
     else if PM_MODES - 1 < unat mode then Some w
     else let (level, w1) = rt_hw_interrupt_disable w;
              w2 = set_count (unat mode) (\<lambda>n. 0) w1
          in if PM_MODULE_MAX_ID \<le> unat module_id then None
             else let w3 = set_module (unat module_id) (\<lambda>m. m\<lparr>req_status := 0\<rparr>) w2;
                      w4 = snd (pm_select_sleep_mode w3)
                  in Some (rt_hw_interrupt_enable level w4))"

section \<open>The device table\<close>

text \<open>\<open>mem\<close>: whether \<^verbatim>\<open>RT_KERNEL_REALLOC\<close> succeeds; it keeps the entries that fit.\<close>

definition rt_pm_device_register :: "bool \<Rightarrow> nat option \<Rightarrow> rt_device_pm_ops option \<Rightarrow>
    'x pm_state_scheme \<Rightarrow> 'x pm_state_scheme option" where
  "rt_pm_device_register mem device tab w =
    (if rt_interrupt_nest w \<noteq> 0 then None
     else let (level, w1) = rt_hw_interrupt_disable w;
              n = unat (device_pm_number w1);
              w2 = (if mem
                    then w1\<lparr>device_pm := take n (device_pm w1) @ [\<lparr>pd_device = device, pd_ops = tab\<rparr>],
                            device_pm_number := device_pm_number w1 + 1\<rparr>
                    else w1)
          in Some (rt_hw_interrupt_enable level w2))"

text \<open>The inner loop moves the entries behind \<open>index\<close> down by one.\<close>

fun shift_down :: "nat \<Rightarrow> nat \<Rightarrow> 'a list \<Rightarrow> 'a list" where
  "shift_down 0 index xs = xs"
| "shift_down (Suc n) index xs = shift_down n (Suc index) (xs[index := xs ! Suc index])"

definition rt_pm_device_unregister :: "nat option \<Rightarrow> 'x pm_state_scheme \<Rightarrow> 'x pm_state_scheme option" where
  "rt_pm_device_unregister device w =
    (if rt_interrupt_nest w \<noteq> 0 then None
     else let (level, w1) = rt_hw_interrupt_disable w;
              n = unat (device_pm_number w1);
              w2 = (case first_index (\<lambda>d. pd_device d = device) (take n (device_pm w1)) of
                      None \<Rightarrow> w1
                    | Some index \<Rightarrow>
                        w1\<lparr>device_pm := (shift_down (n - 1 - index) index (device_pm w1))
                             [n - 1 := \<lparr>pd_device = None, pd_ops = None\<rparr>],
                           device_pm_number := device_pm_number w1 - 1\<rparr>)
          in Some (rt_hw_interrupt_enable level w2))"

definition rt_pm_notify_set :: "fptr option \<Rightarrow> nat \<Rightarrow> 'x pm_state_scheme \<Rightarrow> 'x pm_state_scheme" where
  "rt_pm_notify_set notify data w = w\<lparr>pm_notify_fun := notify, pm_notify_data := data\<rparr>"

definition rt_pm_default_set :: "u8 \<Rightarrow> 'x pm_state_scheme \<Rightarrow> 'x pm_state_scheme" where
  "rt_pm_default_set mode w = w\<lparr>pm_default_sleep := mode\<rparr>"

section \<open>The device interface\<close>

text \<open>
  A read prints the counter of the mode \<open>pos\<close>; the result is the number that is handed to
  \<^verbatim>\<open>rt_snprintf\<close>, if any. A negative position reads outside the array.
\<close>

definition rt_pm_device_read :: "int \<Rightarrow> 'x pm_state_scheme \<Rightarrow> u8 option option" where
  "rt_pm_device_read pos w =
    (if pos < int PM_MODES
     then (if pos < 0 then None else Some (Some (pm_modes w ! nat pos)))
     else Some None)"

definition rt_pm_device_write :: "int \<Rightarrow> u8 list \<Rightarrow> 'x pm_state_scheme \<Rightarrow> nat \<times> 'x pm_state_scheme" where
  "rt_pm_device_write pos buffer w = (1, case buffer of
     [] \<Rightarrow> w
   | request # _ \<Rightarrow>
       if request = 1 then rt_pm_request (of_int pos) w
       else if request = 0 then rt_pm_release (of_int pos) w else w)"

definition rt_pm_device_control :: "int \<Rightarrow> u32 \<Rightarrow> 'x pm_state_scheme \<Rightarrow> rt_err \<times> 'x pm_state_scheme" where
  "rt_pm_device_control cmd args w = (RT_EOK,
     if cmd = 1 then rt_pm_request (ucast args) w
     else if cmd = 0 then rt_pm_release (ucast args) w else w)"

definition rt_pm_run_enter :: "'x pmc \<Rightarrow> u8 \<Rightarrow> 'x pm_state_scheme \<Rightarrow> (rt_err \<times> 'x pm_state_scheme) option" where
  "rt_pm_run_enter code mode w =
    (if pm_init_flag w = 0 then Some (- RT_EIO, w)
     else if PM_RUN_MODE_MAX < mode then Some (- RT_EINVAL, w)
     else let (level, w1) = rt_hw_interrupt_disable w
          in map_option (\<lambda>w2. (RT_EOK, rt_hw_interrupt_enable level (w2\<lparr>pm_run_mode := mode\<rparr>)))
            (if mode < pm_run_mode w1
             then (case ops_call po_run (\<lambda>f. c_run code f mode) w1 of
                     None \<Rightarrow> None
                   | Some w2 \<Rightarrow> pm_device_frequency_change code mode 0 w2)
             else Some (w1\<lparr>pm_flags := pm_flags w1 OR RT_PM_FREQUENCY_PENDING\<rparr>)))"

text \<open>
  Start-up. The registration as a kernel device is left out. Setting the counter of the
  default mode is outside the array when the default is no mode.
\<close>

definition rt_system_pm_init :: "rt_pm_ops option \<Rightarrow> u8 \<Rightarrow> 'x pm_state_scheme \<Rightarrow> 'x pm_state_scheme option" where
  "rt_system_pm_init tab tmask w =
    (let w1 = w\<lparr>pm_modes := replicate PM_MODES 0, pm_sleep_mode := pm_default_sleep w\<rparr>
     in if PM_MODES \<le> unat (pm_sleep_mode w1) then None
        else let w2 = set_count (unat (pm_sleep_mode w1)) (\<lambda>n. 1) w1;
                 w3 = set_module 1 (\<lambda>m. m\<lparr>req_status := 1\<rparr>) w2
             in Some (w3\<lparr>pm_run_mode := PM_RUN_MODE_NORMAL_SPEED, timer_mask := tmask,
                   pm_ops_table := tab, device_pm := [], device_pm_number := 0, pm_init_flag := 1\<rparr>))"

section \<open>Commands and status\<close>

text \<open>Argument \<open>i\<close> of a command, zero when there are fewer than \<open>n\<close> words.\<close>

definition int_arg :: "nat \<Rightarrow> nat \<Rightarrow> string list \<Rightarrow> int" where
  "int_arg n i argv = (if n \<le> length argv then atoi (argv ! i) else 0)"

definition rt_pm_release_mode :: "string list \<Rightarrow> 'x pm_state_scheme \<Rightarrow> 'x pm_state_scheme" where
  "rt_pm_release_mode argv = rt_pm_release (of_int (int_arg 2 1 argv))"

definition rt_pm_release_mode_all :: "string list \<Rightarrow> 'x pm_state_scheme \<Rightarrow> 'x pm_state_scheme" where
  "rt_pm_release_mode_all argv = rt_pm_release_all (of_int (int_arg 2 1 argv))"

definition rt_pm_request_mode :: "string list \<Rightarrow> 'x pm_state_scheme \<Rightarrow> 'x pm_state_scheme" where
  "rt_pm_request_mode argv = rt_pm_request (of_int (int_arg 2 1 argv))"

definition rt_module_release_mode :: "string list \<Rightarrow> 'x pm_state_scheme \<Rightarrow> 'x pm_state_scheme" where
  "rt_module_release_mode argv =
     rt_pm_module_release (of_int (int_arg 3 1 argv)) (of_int (int_arg 3 2 argv))"

definition rt_module_release_mode_all :: "string list \<Rightarrow> 'x pm_state_scheme \<Rightarrow> 'x pm_state_scheme option" where
  "rt_module_release_mode_all argv =
     rt_pm_module_release_all (of_int (int_arg 3 1 argv)) (of_int (int_arg 3 2 argv))"

definition rt_module_request_mode :: "string list \<Rightarrow> 'x pm_state_scheme \<Rightarrow> 'x pm_state_scheme" where
  "rt_module_request_mode argv =
     rt_pm_module_request (of_int (int_arg 3 1 argv)) (of_int (int_arg 3 2 argv))"

definition rt_module_delay_sleep :: "string list \<Rightarrow> 'x pm_state_scheme \<Rightarrow> 'x pm_state_scheme" where
  "rt_module_delay_sleep argv =
     rt_pm_module_delay_sleep (of_int (int_arg 3 1 argv)) (of_int (int_arg 3 2 argv))"

definition rt_pm_run_mode_switch :: "'x pmc \<Rightarrow> string list \<Rightarrow> 'x pm_state_scheme \<Rightarrow>
    'x pm_state_scheme option" where
  "rt_pm_run_mode_switch code argv w =
     map_option snd (rt_pm_run_enter code (of_int (int_arg 2 1 argv)) w)"

definition rt_pm_module_get_status :: "'x pm_state_scheme \<Rightarrow> u32" where
  "rt_pm_module_get_status w =
     fold (\<lambda>i st. if req_status (module_status w ! i) = 1 then st OR push_bit i 1 else st)
       [0..<PM_MODULE_MAX_ID] 0"

definition rt_pm_get_sleep_mode :: "'x pm_state_scheme \<Rightarrow> u8" where
  "rt_pm_get_sleep_mode w = pm_sleep_mode w"

text \<open>The dump: each \<^verbatim>\<open>rt_kprintf\<close> with its format and arguments; newlines are left out.\<close>

datatype print_arg = PInt u32 | PStr string

datatype print_line = KPRINTF string "print_arg list"

definition pm_sleep_str :: "string list" where
  "pm_sleep_str = [''None Mode'', ''Idle Mode'', ''LightSleep Mode'', ''DeepSleep Mode'',
     ''Standby Mode'', ''Shutdown Mode'']"

definition pm_run_str :: "string list" where
  "pm_run_str = [''High Speed'', ''Normal Speed'', ''Medium Speed'', ''Low Mode'']"

text \<open>\<open>None\<close>: a current mode that has no name is read outside its table.\<close>

definition rt_pm_dump_status :: "'x pm_state_scheme \<Rightarrow> print_line list option" where
  "rt_pm_dump_status w =
    (if length pm_sleep_str \<le> unat (pm_sleep_mode w) \<or> length pm_run_str \<le> unat (pm_run_mode w) then None
     else Some (
       [KPRINTF ''| Power Management Mode | Counter | Timer |'' [],
        KPRINTF ''+-----------------------+---------+-------+'' []] @
       map (\<lambda>i. KPRINTF ''| %021s | %7d | %5d |'' [PStr (pm_sleep_str ! i), PInt (ucast (pm_modes w ! i)),
           PInt (if (ucast (timer_mask w) :: u32) AND push_bit i 1 \<noteq> 0 then 1 else 0)]) [0..<PM_MODES] @
       [KPRINTF ''+-----------------------+---------+-------+'' [],
        KPRINTF ''pm current sleep mode: %s'' [PStr (pm_sleep_str ! unat (pm_sleep_mode w))],
        KPRINTF ''pm current run mode:   %s'' [PStr (pm_run_str ! unat (pm_run_mode w))],
        KPRINTF [] [],
        KPRINTF ''| module | busy | start time |  timeout  |'' [],
        KPRINTF ''+--------+------+------------+-----------+'' []] @
       map (\<lambda>i. KPRINTF ''|  %04d  |  %d   | 0x%08x | 0x%08x |''
           [PInt (of_nat i), PInt (if busy_flag (module_status w ! i) then 1 else 0),
            PInt (start_time (module_status w ! i)), PInt (mod_timeout (module_status w ! i))])
         (filter (\<lambda>i. busy_flag (module_status w ! i) \<or> req_status (module_status w ! i) \<noteq> 0)
            [0..<PM_MODULE_MAX_ID]) @
       [KPRINTF ''+--------+------+------------+-----------+'' []]))"

end
