(* ===== verification/Pm_Votes.thy ===== *)
theory Pm_Votes
  imports Pm
begin

text \<open>
  The requests of \<^verbatim>\<open>pm.c\<close> as counted votes. The interface
  \<open>counted_votes\<close> states what a pair of request and release operations with
  saturating counters promises, whoever makes them; the requests of
  \<^verbatim>\<open>pm.c\<close>, plain or in the name of a module, are its interpretation.
\<close>

section \<open>The interface\<close>

datatype 'r vote_op = Request 'r u8 | Release 'r u8

text \<open>The least mode that is held, or the default.\<close>

definition least_held :: "nat \<Rightarrow> u8 \<Rightarrow> (nat \<Rightarrow> nat) \<Rightarrow> u8" where
  "least_held n dflt h = (case first_index (\<lambda>i. 0 < h i) [0..<n] of
     None \<Rightarrow> dflt | Some i \<Rightarrow> of_nat i)"

lemma least_held_le:
  assumes "i < n" and "0 < h i" and "n \<le> 256"
  shows "unat (least_held n dflt h) \<le> i"
proof (cases "first_index (\<lambda>i. 0 < h i) [0..<n]")
  case None
  with assms(1,2) show ?thesis by (simp add: first_index_None)
next
  case (Some j)
  from first_index_SomeD [OF Some] have j: "j < n" "0 < h j" "\<forall>k < j. \<not> 0 < h k" by auto
  with assms(1,2) have "j \<le> i" by (meson not_le)
  with Some j assms(3) show ?thesis by (simp add: least_held_def unat_of_nat)
qed

lemma least_held_none: "(\<forall>i < n. h i = 0) \<Longrightarrow> least_held n dflt h = dflt"
proof -
  assume "\<forall>i < n. h i = 0"
  then have "first_index (\<lambda>i. 0 < h i) [0..<n] = None" by (simp add: first_index_None)
  then show ?thesis by (simp add: least_held_def)
qed

lemma least_held_is_held:
  assumes "i < n" and "0 < h i" and "n \<le> 256"
  shows "0 < h (unat (least_held n dflt h))"
proof (cases "first_index (\<lambda>i. 0 < h i) [0..<n]")
  case None
  with assms(1,2) show ?thesis by (simp add: first_index_None)
next
  case (Some j)
  from first_index_SomeD [OF Some] have "j < n" "0 < h j" by auto
  with Some assms(3) show ?thesis by (simp add: least_held_def unat_of_nat)
qed

text \<open>What is outstanding after a history, counted without a limit.\<close>

fun outstanding :: "'r vote_op list \<Rightarrow> (nat \<Rightarrow> nat) \<Rightarrow> nat \<Rightarrow> nat" where
  "outstanding [] h = h"
| "outstanding (Request r m # os) h = outstanding os (h(unat m := Suc (h (unat m))))"
| "outstanding (Release r m # os) h = outstanding os (h(unat m := h (unat m) - 1))"

text \<open>A history that stays below the limit, with requesters and modes in range.\<close>

fun within :: "('r \<Rightarrow> bool) \<Rightarrow> nat \<Rightarrow> nat \<Rightarrow> 'r vote_op list \<Rightarrow> (nat \<Rightarrow> nat) \<Rightarrow> bool" where
  "within ok n limit [] h \<longleftrightarrow> True"
| "within ok n limit (Request r m # os) h \<longleftrightarrow> ok r \<and> unat m < n \<and> h (unat m) < limit \<and>
     within ok n limit os (h(unat m := Suc (h (unat m))))"
| "within ok n limit (Release r m # os) h \<longleftrightarrow> ok r \<and> unat m < n \<and>
     within ok n limit os (h(unat m := h (unat m) - 1))"

locale counted_votes =
  fixes request :: "'r \<Rightarrow> u8 \<Rightarrow> 'w \<Rightarrow> 'w"
    and release :: "'r \<Rightarrow> u8 \<Rightarrow> 'w \<Rightarrow> 'w"
    and held :: "'w \<Rightarrow> nat \<Rightarrow> nat"
    and select :: "'w \<Rightarrow> u8"
    and dflt :: "'w \<Rightarrow> u8"
    and wf :: "'w \<Rightarrow> bool"
    and ok :: "'r \<Rightarrow> bool"
    and n_mode :: nat and limit :: nat
  assumes wf_request: "wf w \<Longrightarrow> wf (request r m w)"
    and wf_release: "wf w \<Longrightarrow> wf (release r m w)"
    and held_request: "wf w \<Longrightarrow> ok r \<Longrightarrow> unat m < n_mode \<Longrightarrow>
      held (request r m w) = (held w)(unat m := min limit (Suc (held w (unat m))))"
    and held_release: "wf w \<Longrightarrow> ok r \<Longrightarrow> unat m < n_mode \<Longrightarrow>
      held (release r m w) = (held w)(unat m := held w (unat m) - 1)"
    and dflt_request: "dflt (request r m w) = dflt w"
    and dflt_release: "dflt (release r m w) = dflt w"
    and select_request: "wf w \<Longrightarrow> ok r \<Longrightarrow> unat m < n_mode \<Longrightarrow>
      select (request r m w) = least_held n_mode (dflt w) (held (request r m w))"
    and select_release: "wf w \<Longrightarrow> ok r \<Longrightarrow> unat m < n_mode \<Longrightarrow>
      select (release r m w) = least_held n_mode (dflt w) (held (release r m w))"
    and n_mode_le: "n_mode \<le> 256"
    and limit_pos: "0 < limit"
begin

fun run :: "'r vote_op list \<Rightarrow> 'w \<Rightarrow> 'w" where
  "run [] w = w"
| "run (Request r m # os) w = run os (request r m w)"
| "run (Release r m # os) w = run os (release r m w)"

definition settled :: "'w \<Rightarrow> bool" where
  "settled w \<longleftrightarrow> select w = least_held n_mode (dflt w) (held w)"

lemma run_votes:
  assumes "wf w" and "settled w" and "within ok n_mode limit os (held w)"
  shows "wf (run os w) \<and> settled (run os w) \<and> held (run os w) = outstanding os (held w) \<and>
    dflt (run os w) = dflt w"
  using assms
proof (induction os w rule: run.induct)
  case (2 r m os w)
  then have r: "ok r" and m: "unat m < n_mode" and lim: "held w (unat m) < limit" by simp_all
  from lim have eq: "min limit (Suc (held w (unat m))) = Suc (held w (unat m))" by simp
  have "settled (request r m w)"
    using 2 r m by (simp add: settled_def select_request dflt_request)
  with 2 r m eq show ?case by (simp add: wf_request held_request dflt_request fun_upd_def)
next
  case (3 r m os w)
  then have r: "ok r" and m: "unat m < n_mode" by simp_all
  have "settled (release r m w)"
    using 3 r m by (simp add: settled_def select_release dflt_release)
  with 3 r m show ?case by (simp add: wf_release held_release dflt_release fun_upd_def)
qed simp_all

lemma run_selects_least:
  assumes "wf w" and "settled w" and "within ok n_mode limit os (held w)"
  shows "select (run os w) = least_held n_mode (dflt w) (outstanding os (held w))"
  using run_votes [OF assms] by (simp add: settled_def)

lemma run_honours:
  assumes "wf w" and "settled w" and "within ok n_mode limit os (held w)"
    and "i < n_mode" and "0 < outstanding os (held w) i"
  shows "unat (select (run os w)) \<le> i"
  using run_selects_least [OF assms(1-3)]
    least_held_le [where h = "outstanding os (held w)", OF assms(4,5) n_mode_le] by simp

lemma requests_saturate:
  assumes "wf w" and "ok r" and "unat m < n_mode" and "held w (unat m) \<le> limit"
  shows "wf ((request r m ^^ n) w) \<and> dflt ((request r m ^^ n) w) = dflt w \<and>
    held ((request r m ^^ n) w) = (held w)(unat m := min limit (held w (unat m) + n))"
proof (induction n)
  case 0
  with assms show ?case by (auto simp: min_def fun_eq_iff)
next
  case (Suc n)
  with assms show ?case by (auto simp: wf_request held_request dflt_request fun_eq_iff)
qed

lemma releases_count:
  assumes "wf w" and "ok r" and "unat m < n_mode"
  shows "wf ((release r m ^^ n) w) \<and> dflt ((release r m ^^ n) w) = dflt w \<and>
    held ((release r m ^^ n) w) = (held w)(unat m := held w (unat m) - n)"
proof (induction n)
  case 0
  then show ?case using assms by simp
next
  case (Suc n)
  with assms show ?case by (auto simp: wf_release held_release dflt_release fun_eq_iff)
qed

text \<open>
  A counter that saturates forgets requests: as many releases as the limit undo any
  number of requests.
\<close>

lemma saturated_forgets:
  assumes "wf w" and "ok r" and "unat m < n_mode" and "held w (unat m) = 0"
  shows "held ((release r m ^^ limit) ((request r m ^^ n) w)) = held w"
proof -
  have R: "wf ((request r m ^^ n) w)"
    "held ((request r m ^^ n) w) = (held w)(unat m := min limit n)"
    using requests_saturate [of w r m n] assms by simp_all
  show ?thesis
    using releases_count [OF R(1) assms(2,3), of limit] R(2) assms(4) by (auto simp: fun_eq_iff)
qed

lemma saturated_selects:
  assumes "wf w" and "ok r" and "unat m < n_mode" and "held w (unat m) = 0"
  shows "select ((release r m ^^ limit) ((request r m ^^ n) w)) = least_held n_mode (dflt w) (held w)"
proof -
  obtain l where l: "limit = Suc l" using limit_pos by (cases limit) auto
  let ?v = "(release r m ^^ l) ((request r m ^^ n) w)"
  have R: "wf ((request r m ^^ n) w)" "dflt ((request r m ^^ n) w) = dflt w"
    using requests_saturate [of w r m n] assms by simp_all
  have v: "wf ?v" "dflt ?v = dflt w" using releases_count [OF R(1) assms(2,3), of l] R(2) by simp_all
  have "held (release r m ?v) = held w" using saturated_forgets [OF assms, of n] by (simp add: l)
  with select_release [OF v(1) assms(2,3)] v(2) show ?thesis by (simp add: l)
qed

end

section \<open>The counters of pm.c\<close>

definition pm_ready :: "'x pm_state_scheme \<Rightarrow> bool" where
  "pm_ready w \<longleftrightarrow> pm_init_flag w \<noteq> 0 \<and> length (pm_modes w) = PM_MODES \<and>
     length (module_status w) = PM_MODULE_MAX_ID"

definition pm_held :: "'x pm_state_scheme \<Rightarrow> nat \<Rightarrow> nat" where
  "pm_held w i = (if i < PM_MODES then unat (pm_modes w ! i) else 0)"

lemma select_least_held:
  assumes "length (pm_modes w) = PM_MODES"
  shows "fst (pm_select_sleep_mode w) = least_held PM_MODES (pm_default_deepsleep w) (pm_held w)"
proof -
  have "first_index (\<lambda>n. n \<noteq> 0) (pm_modes w) = first_index (\<lambda>i. pm_modes w ! i \<noteq> 0) [0..<PM_MODES]"
    using first_index_nth [of "\<lambda>n. n \<noteq> 0" "pm_modes w"] assms by simp
  also have "\<dots> = first_index (\<lambda>i. 0 < pm_held w i) [0..<PM_MODES]"
    by (rule first_index_cong) (simp add: pm_held_def unat_gt_0)
  finally show ?thesis by (simp add: pm_select_sleep_mode_def Let_def least_held_def)
qed


lemma set_count_frame [simp]:
  "pm_init_flag (set_count i f w) = pm_init_flag w"
  "module_status (set_count i f w) = module_status w"
  "pm_default_deepsleep (set_count i f w) = pm_default_deepsleep w"
  "pm_modes (set_count i f w) = (pm_modes w)[i := f (pm_modes w ! i)]"
  by (simp_all add: set_count_def)

lemma set_module_frame [simp]:
  "pm_init_flag (set_module i g w) = pm_init_flag w"
  "pm_modes (set_module i g w) = pm_modes w"
  "pm_default_deepsleep (set_module i g w) = pm_default_deepsleep w"
  "length (module_status (set_module i g w)) = length (module_status w)"
  by (simp_all add: set_module_def)

lemma select_frame [simp]:
  "pm_init_flag (snd (pm_select_sleep_mode w)) = pm_init_flag w"
  "pm_modes (snd (pm_select_sleep_mode w)) = pm_modes w"
  "module_status (snd (pm_select_sleep_mode w)) = module_status w"
  "pm_default_deepsleep (snd (pm_select_sleep_mode w)) = pm_default_deepsleep w"
  "pm_sleep_mode (snd (pm_select_sleep_mode w)) = fst (pm_select_sleep_mode w)"
  by (simp_all add: pm_select_sleep_mode_def Let_def)

lemma pm_held_cong: "pm_modes v = pm_modes w \<Longrightarrow> pm_held v = pm_held w"
  by (rule ext) (simp add: pm_held_def)

text \<open>What every request or release does: one counter changes, then the mode is chosen.\<close>

definition vote_effect :: "nat \<Rightarrow> (u8 \<Rightarrow> u8) \<Rightarrow> 'x pm_state_scheme \<Rightarrow> 'x pm_state_scheme \<Rightarrow> bool" where
  "vote_effect i f w w' \<longleftrightarrow> pm_init_flag w' = pm_init_flag w \<and>
     pm_modes w' = (pm_modes w)[i := f (pm_modes w ! i)] \<and>
     length (module_status w') = length (module_status w) \<and>
     pm_default_deepsleep w' = pm_default_deepsleep w \<and>
     pm_sleep_mode w' = fst (pm_select_sleep_mode w')"

lemma select_cong:
  "pm_modes v = pm_modes w \<Longrightarrow> pm_default_deepsleep v = pm_default_deepsleep w \<Longrightarrow>
   fst (pm_select_sleep_mode v) = fst (pm_select_sleep_mode w)"
  by (simp add: pm_select_sleep_mode_def Let_def split: option.split)

lemma vote_effectI:
  assumes "pm_init_flag v = pm_init_flag w" and "pm_modes v = (pm_modes w)[i := f (pm_modes w ! i)]"
    and "length (module_status v) = length (module_status w)"
    and "pm_default_deepsleep v = pm_default_deepsleep w"
  shows "vote_effect i f w (rt_hw_interrupt_enable l (snd (pm_select_sleep_mode v)))"
  unfolding vote_effect_def using assms
  by (auto simp: irq_defs intro: select_cong)

lemma vote_effect_ready: "pm_ready w \<Longrightarrow> vote_effect i f w w' \<Longrightarrow> pm_ready w'"
  by (simp add: vote_effect_def pm_ready_def)

lemma vote_effect_held:
  assumes "pm_ready w" and "i < PM_MODES" and "vote_effect i f w w'"
  shows "pm_held w' = (pm_held w)(i := unat (f (pm_modes w ! i)))"
  using assms by (auto simp: fun_eq_iff pm_held_def vote_effect_def pm_ready_def nth_list_update)

lemma vote_effect_select:
  assumes "pm_ready w" and "vote_effect i f w w'"
  shows "pm_sleep_mode w' = least_held PM_MODES (pm_default_deepsleep w) (pm_held w')"
  using assms select_least_held [of w'] by (simp add: vote_effect_def pm_ready_def)

lemma unat_count_up: "unat (count_up n) = min 255 (Suc (unat n))"
proof (cases "n < 255")
  case True
  then have "unat n < 255" by (simp add: word_less_nat_alt)
  then show ?thesis using True by (simp add: unat_word_ariths)
next
  case False
  then have "255 \<le> unat n" by (simp add: word_less_nat_alt)
  then show ?thesis using False unsigned_less [of n, where ?'a = nat] by simp
qed

lemma unat_count_down: "unat (count_down n) = unat n - 1"
  by (cases "n = 0") (simp_all add: word_gt_0 unat_minus_one)

lemmas request_defs = rt_pm_request_def rt_pm_release_def rt_pm_module_request_def
  rt_pm_module_release_def rt_hw_interrupt_disable_def

lemma votes_effects:
  assumes "pm_ready w" and "unat m < PM_MODES"
  shows "vote_effect (unat m) count_up w (rt_pm_request m w)"
    and "vote_effect (unat m) count_down w (rt_pm_release m w)"
    and "unat k < PM_MODULE_MAX_ID \<Longrightarrow> vote_effect (unat m) count_up w (rt_pm_module_request k m w)"
    and "unat k < PM_MODULE_MAX_ID \<Longrightarrow> vote_effect (unat m) count_down w (rt_pm_module_release k m w)"
proof -
  note ready = assms [unfolded pm_ready_def]
  show "vote_effect (unat m) count_up w (rt_pm_request m w)"
    using ready by (simp add: request_defs vote_effectI)
  show "vote_effect (unat m) count_down w (rt_pm_release m w)"
    using ready by (simp add: request_defs vote_effectI)
  assume k: "unat k < PM_MODULE_MAX_ID"
  show "vote_effect (unat m) count_up w (rt_pm_module_request k m w)"
    using ready k by (simp add: request_defs vote_effectI)
  show "vote_effect (unat m) count_down w (rt_pm_module_release k m w)"
    using ready k unfolding request_defs Let_def by (auto intro!: vote_effectI)
qed

text \<open>A request is made plainly or in the name of a module.\<close>

fun request_by :: "u8 option \<Rightarrow> u8 \<Rightarrow> 'x pm_state_scheme \<Rightarrow> 'x pm_state_scheme" where
  "request_by None m = rt_pm_request m"
| "request_by (Some k) m = rt_pm_module_request k m"

fun release_by :: "u8 option \<Rightarrow> u8 \<Rightarrow> 'x pm_state_scheme \<Rightarrow> 'x pm_state_scheme" where
  "release_by None m = rt_pm_release m"
| "release_by (Some k) m = rt_pm_module_release k m"

fun requester_ok :: "u8 option \<Rightarrow> bool" where
  "requester_ok None \<longleftrightarrow> True"
| "requester_ok (Some k) \<longleftrightarrow> unat k < PM_MODULE_MAX_ID"

lemma by_effects:
  assumes "pm_ready w" and "requester_ok r" and "unat m < PM_MODES"
  shows "vote_effect (unat m) count_up w (request_by r m w)"
    and "vote_effect (unat m) count_down w (release_by r m w)"
proof -
  have "vote_effect (unat m) count_up w (request_by r m w) \<and>
    vote_effect (unat m) count_down w (release_by r m w)"
  proof (cases r)
    case None
    with votes_effects(1,2) [OF assms(1,3)] show ?thesis by (simp only: request_by.simps release_by.simps simp_thms)
  next
    case (Some k)
    with assms(2) votes_effects(3,4) [OF assms(1,3), of k] show ?thesis
      by (simp only: request_by.simps release_by.simps requester_ok.simps simp_thms)
  qed
  then show "vote_effect (unat m) count_up w (request_by r m w)"
    "vote_effect (unat m) count_down w (release_by r m w)" by blast+
qed

lemma by_out_of_range:
  "\<not> (requester_ok r \<and> unat m < PM_MODES) \<Longrightarrow> request_by r m w = w \<and> release_by r m w = w"
  by (cases r) (auto simp: rt_pm_request_def rt_pm_release_def
    rt_pm_module_request_def rt_pm_module_release_def)

lemma request_by_dflt: "pm_default_deepsleep (request_by r m w) = pm_default_deepsleep w"
  by (cases r) (simp_all add: request_defs rt_hw_interrupt_enable_def Let_def)

lemma release_by_dflt: "pm_default_deepsleep (release_by r m w) = pm_default_deepsleep w"
  by (cases r) (simp_all add: request_defs rt_hw_interrupt_enable_def Let_def)

lemma pm_held_nth: "i < PM_MODES \<Longrightarrow> pm_held w i = unat (pm_modes w ! i)"
  by (simp add: pm_held_def)

lemma by_ready:
  assumes "pm_ready w"
  shows "pm_ready (request_by r m w) \<and> pm_ready (release_by r m w)"
proof (cases "requester_ok r \<and> unat m < PM_MODES")
  case True
  note E = by_effects [OF assms conjunct1 [OF True] conjunct2 [OF True]]
  show ?thesis
    using vote_effect_ready [OF assms E(1)] vote_effect_ready [OF assms E(2)] by blast
next
  case False
  then show ?thesis using assms by_out_of_range [OF False] by metis
qed

lemma held_up:
  assumes "pm_ready w" and "unat m < PM_MODES" and "vote_effect (unat m) count_up w w'"
  shows "pm_held w' = (pm_held w)(unat m := min 255 (Suc (pm_held w (unat m))))"
  using vote_effect_held [OF assms] by (simp only: pm_held_nth [OF assms(2)] unat_count_up)

lemma held_down:
  assumes "pm_ready w" and "unat m < PM_MODES" and "vote_effect (unat m) count_down w w'"
  shows "pm_held w' = (pm_held w)(unat m := pm_held w (unat m) - 1)"
  using vote_effect_held [OF assms] by (simp only: pm_held_nth [OF assms(2)] unat_count_down)

interpretation pm_votes: counted_votes request_by release_by
  "pm_held :: 'x pm_state_scheme \<Rightarrow> _" pm_sleep_mode pm_default_deepsleep pm_ready requester_ok PM_MODES 255
proof unfold_locales
  fix w :: "'x pm_state_scheme" and m :: u8 and r
  assume w: "pm_ready w"
  show "pm_ready (request_by r m w)" "pm_ready (release_by r m w)"
    using by_ready [OF w] by blast+
  assume r: "requester_ok r" and m: "unat m < PM_MODES"
  note E = by_effects [OF w r m]
  show "pm_held (request_by r m w) = (pm_held w)(unat m := min 255 (Suc (pm_held w (unat m))))"
    by (rule held_up [OF w m E(1)])
  show "pm_held (release_by r m w) = (pm_held w)(unat m := pm_held w (unat m) - 1)"
    by (rule held_down [OF w m E(2)])
  show "pm_sleep_mode (request_by r m w) =
      least_held PM_MODES (pm_default_deepsleep w) (pm_held (request_by r m w))"
    by (rule vote_effect_select [OF w E(1)])
  show "pm_sleep_mode (release_by r m w) =
      least_held PM_MODES (pm_default_deepsleep w) (pm_held (release_by r m w))"
    by (rule vote_effect_select [OF w E(2)])
qed (simp_all add: request_by_dflt release_by_dflt)

section \<open>Claims\<close>

text \<open>The static state before the first instruction, and after start-up with a timer in deep sleep.\<close>

definition pm_zero :: pm_state where
  "pm_zero = kernel.extend kernel_zero (pm_state.fields (replicate PM_MODES 0) 0 0
     (replicate PM_MODULE_MAX_ID \<lparr>req_status = 0, busy_flag = False, mod_timeout = 0, start_time = 0\<rparr>)
     0 [] 0 0 None RT_PM_DEFAULT_SLEEP_MODE RT_PM_DEFAULT_DEEPSLEEP_MODE None 0 0)"

definition all_ops :: rt_pm_ops where
  "all_ops = \<lparr>po_sleep = Some 1, po_run = Some 2, po_timer_start = Some 3, po_timer_stop = Some 4,
     po_timer_get_tick = Some 5\<rparr>"

definition pm_started :: pm_state where
  "pm_started = (case rt_system_pm_init (Some all_ops) 8 pm_zero of Some w \<Rightarrow> w | None \<Rightarrow> pm_zero)"

lemma pm_started_fields [simp]:
  "pm_init_flag pm_started = 1" "pm_modes pm_started = [1, 0, 0, 0, 0, 0]"
  "length (module_status pm_started) = PM_MODULE_MAX_ID" "pm_sleep_mode pm_started = 0"
  "pm_default_deepsleep pm_started = 3"
  by (simp_all add: pm_started_def rt_system_pm_init_def pm_zero_def set_count_def set_module_def
    kernel.defs pm_state.defs kernel_zero_def Let_def eval_nat_numeral)

lemma pm_started_ready: "pm_ready pm_started"
  by (simp add: pm_ready_def)

lemma pm_started_held: "pm_held pm_started = (\<lambda>i. if i = 0 then 1 else 0)"
  by (auto simp: fun_eq_iff pm_held_def nth_Cons split: nat.splits)

text \<open>
  Claim C26 (safety). After any history of requests and releases, plain or in the name of
  modules, in which no counter reaches its limit of 255, the counters are the outstanding
  requests, the sleep mode is the least mode with an outstanding request, or the default
  deep sleep; so the system never sleeps deeper than anyone who still holds a request allows.
\<close>

theorem pm_requests_counted:
  assumes "pm_ready w" and "pm_sleep_mode w = least_held PM_MODES (pm_default_deepsleep w) (pm_held w)"
    and "within requester_ok PM_MODES 255 os (pm_held w)"
  shows "pm_held (pm_votes.run os w) = outstanding os (pm_held w) \<and>
    pm_sleep_mode (pm_votes.run os w) =
      least_held PM_MODES (pm_default_deepsleep w) (outstanding os (pm_held w)) \<and>
    (\<forall>i < PM_MODES. 0 < outstanding os (pm_held w) i \<longrightarrow> unat (pm_sleep_mode (pm_votes.run os w)) \<le> i)"
proof -
  have "pm_votes.settled w" using assms(2) by (simp only: pm_votes.settled_def)
  note hist = assms(1) this assms(3)
  show ?thesis
    using pm_votes.run_votes [OF hist] pm_votes.run_selects_least [OF hist]
      pm_votes.run_honours [OF hist] by blast
qed

theorem pm_requests_counted_witness:
  "pm_sleep_mode (pm_votes.run [Request None 3, Request (Some 2) 1, Release None 0, Release (Some 2) 1]
     pm_started) = 3"
proof -
  let ?os = "[Request None 3, Request (Some 2) 1, Release None 0, Release (Some 2) 1] :: u8 option vote_op list"
  have h: "outstanding ?os (pm_held pm_started) = (\<lambda>i. if i = 3 then 1 else 0)"
    by (auto simp: pm_started_held)
  have "pm_sleep_mode (pm_votes.run ?os pm_started) =
      least_held PM_MODES (pm_default_deepsleep pm_started) (outstanding ?os (pm_held pm_started))"
    by (rule pm_requests_counted [THEN conjunct2, THEN conjunct1, OF pm_started_ready])
      (simp_all add: pm_started_held least_held_def upt_rec)
  also have "\<dots> = 3"
    by (simp only: h) (simp add: least_held_def upt_rec)
  finally show ?thesis .
qed

text \<open>
  A counter stops at 255, and the requests beyond are forgotten: 255
  releases undo any number of requests, so that after 256 requests the next sleep mode is
  chosen as if nobody held the mode, although one request is still outstanding.
\<close>

theorem pm_requests_saturate:
  assumes "pm_ready w" and "requester_ok r" and "unat m < PM_MODES" and "pm_modes w ! unat m = 0"
  shows "pm_held ((request_by r m ^^ n) w) (unat m) = min 255 n \<and>
    pm_held ((release_by r m ^^ 255) ((request_by r m ^^ n) w)) = pm_held w \<and>
    pm_sleep_mode ((release_by r m ^^ 255) ((request_by r m ^^ n) w)) =
      least_held PM_MODES (pm_default_deepsleep w) (pm_held w)"
proof -
  have z: "pm_held w (unat m) = 0" using assms(3,4) by (simp add: pm_held_def)
  then have "pm_held ((request_by r m ^^ n) w) (unat m) = min 255 n"
    using pm_votes.requests_saturate [OF assms(1-3), of n] by simp
  with pm_votes.saturated_forgets [OF assms(1-3) z, of n]
    pm_votes.saturated_selects [OF assms(1-3) z, of n] show ?thesis by blast
qed

theorem pm_requests_saturate_witness:
  "pm_held ((release_by None 1 ^^ 255) ((request_by None 1 ^^ 256) pm_started)) = pm_held pm_started"
  by (rule pm_requests_saturate [THEN conjunct2, THEN conjunct1])
    (simp_all add: pm_started_ready)

end
