(* ===== verification/Pm_Correct.thy ===== *)
theory Pm_Correct
  imports Pm_Votes
begin

text \<open>
  What a run of the power manager does to the outside: the calls it makes, in order, for
  code behind the pointers that records each call. Also the busy window of the modules, the
  device table and the run modes.
\<close>

section \<open>Recording the calls\<close>

datatype pm_event =
    Sleep u8 | Run u8 | Timer_start u32 | Timer_get_tick | Timer_stop
  | Suspend "nat option" u8 | Resume "nat option" u8 | Frequency_change "nat option" u8
  | Notify u8 u8

record logged = pm_state +
  pm_log :: "pm_event list"

definition emit :: "pm_event list \<Rightarrow> logged \<Rightarrow> logged" where
  "emit es w = w\<lparr>pm_log := pm_log w @ es\<rparr>"

text \<open>
  \<open>fails\<close> is what the devices answer when they are suspended, \<open>slept\<close> the ticks that the timer
  has counted, \<open>kc\<close> the code of the system timers.
\<close>

definition logging :: "(nat option \<Rightarrow> u8 \<Rightarrow> rt_err) \<Rightarrow> u32 \<Rightarrow> (fptr \<Rightarrow> nat \<Rightarrow> logged \<Rightarrow> logged) \<Rightarrow> logged pm_code" where
  "logging fails slept kc = \<lparr>
     c_sleep = (\<lambda>f m. emit [Sleep m]), c_run = (\<lambda>f m. emit [Run m]),
     c_timer_start = (\<lambda>f t. emit [Timer_start t]), c_timer_stop = (\<lambda>f. emit [Timer_stop]),
     c_timer_get_tick = (\<lambda>f w. (slept, emit [Timer_get_tick] w)),
     c_suspend = (\<lambda>f d m w. (fails d m, emit [Suspend d m] w)),
     c_resume = (\<lambda>f d m. emit [Resume d m]),
     c_frequency_change = (\<lambda>f d m. emit [Frequency_change d m]),
     c_notify = (\<lambda>f e m d. emit [Notify e m]), c_kernel = kc\<rparr>"

lemma logging_sel [simp]:
  "c_sleep (logging fails slept kc) = (\<lambda>f m. emit [Sleep m])"
  "c_run (logging fails slept kc) = (\<lambda>f m. emit [Run m])"
  "c_timer_start (logging fails slept kc) = (\<lambda>f t. emit [Timer_start t])"
  "c_timer_stop (logging fails slept kc) = (\<lambda>f. emit [Timer_stop])"
  "c_timer_get_tick (logging fails slept kc) = (\<lambda>f w. (slept, emit [Timer_get_tick] w))"
  "c_suspend (logging fails slept kc) = (\<lambda>f d m w. (fails d m, emit [Suspend d m] w))"
  "c_resume (logging fails slept kc) = (\<lambda>f d m. emit [Resume d m])"
  "c_frequency_change (logging fails slept kc) = (\<lambda>f d m. emit [Frequency_change d m])"
  "c_notify (logging fails slept kc) = (\<lambda>f e m d. emit [Notify e m])"
  "c_kernel (logging fails slept kc) = kc"
  by (simp_all add: logging_def)

lemma emit_frame [simp]:
  "primask (emit es w) = primask w" "rt_tick (emit es w) = rt_tick w"
  "timers (emit es w) = timers w" "timer_list (emit es w) = timer_list w"
  "pm_modes (emit es w) = pm_modes w" "pm_sleep_mode (emit es w) = pm_sleep_mode w"
  "pm_run_mode (emit es w) = pm_run_mode w" "module_status (emit es w) = module_status w"
  "device_pm_number (emit es w) = device_pm_number w" "device_pm (emit es w) = device_pm w"
  "timer_mask (emit es w) = timer_mask w" "pm_flags (emit es w) = pm_flags w"
  "pm_ops_table (emit es w) = pm_ops_table w" "pm_notify_fun (emit es w) = pm_notify_fun w"
  "pm_init_flag (emit es w) = pm_init_flag w" "pm_log (emit es w) = pm_log w @ es"
  by (simp_all add: emit_def)

lemma emit_emit [simp]: "emit fs (emit es w) = emit (es @ fs) w"
  by (simp add: emit_def)

lemma emit_Nil [simp]: "emit [] w = w"
  by (simp add: emit_def)

section \<open>The device loops\<close>

definition registered :: "'x pm_state_scheme \<Rightarrow> rt_device_pm list" where
  "registered w = take (unat (device_pm_number w)) (device_pm w)"

definition devices_ok :: "'x pm_state_scheme \<Rightarrow> bool" where
  "devices_ok w \<longleftrightarrow> unat (device_pm_number w) \<le> length (device_pm w) \<and>
     (\<forall>d \<in> set (registered w). pd_ops d \<noteq> None)"

lemma registered_emit [simp]:
  "registered (emit es w) = registered w" "devices_ok (emit es w) \<longleftrightarrow> devices_ok w"
  by (simp_all add: registered_def devices_ok_def)

fun suspend_trace :: "(nat option \<Rightarrow> u8 \<Rightarrow> rt_err) \<Rightarrow> u8 \<Rightarrow> rt_device_pm list \<Rightarrow> rt_err \<times> pm_event list" where
  "suspend_trace fails m [] = (RT_EOK, [])"
| "suspend_trace fails m (d # ds) =
    (if do_suspend (the (pd_ops d)) = None then suspend_trace fails m ds
     else if fails (pd_device d) m \<noteq> RT_EOK then (fails (pd_device d) m, [Suspend (pd_device d) m])
     else apsnd ((#) (Suspend (pd_device d) m)) (suspend_trace fails m ds))"

definition calls_of :: "(rt_device_pm_ops \<Rightarrow> fptr option) \<Rightarrow> (nat option \<Rightarrow> pm_event) \<Rightarrow> rt_device_pm list \<Rightarrow> pm_event list" where
  "calls_of sel ev ds = map (\<lambda>d. ev (pd_device d)) (filter (\<lambda>d. sel (the (pd_ops d)) \<noteq> None) ds)"

lemma registered_nth:
  assumes "devices_ok w" and "i < unat (device_pm_number w)"
  shows "drop i (registered w) = device_pm w ! i # drop (Suc i) (registered w)"
    and "pd_ops (device_pm w ! i) \<noteq> None"
proof -
  have len: "i < length (registered w)" and nth: "registered w ! i = device_pm w ! i"
    using assms by (simp_all add: devices_ok_def registered_def)
  from len nth show "drop i (registered w) = device_pm w ! i # drop (Suc i) (registered w)"
    by (metis Cons_nth_drop_Suc)
  from len nth assms(1) show "pd_ops (device_pm w ! i) \<noteq> None"
    unfolding devices_ok_def by (metis nth_mem)
qed

lemma registered_end: "unat (device_pm_number w) \<le> i \<Longrightarrow> drop i (registered w) = []"
  by (simp add: registered_def)

text \<open>Induction along a loop over the devices: the index goes up to the number, a byte.\<close>

lemma device_loop_induct [consumes 1, case_names finish step]:
  assumes ok: "devices_ok w"
    and finish: "\<And>i w. unat (device_pm_number w) \<le> i \<Longrightarrow> drop i (registered w) = [] \<Longrightarrow> P i w"
    and step: "\<And>i w tab. devices_ok w \<Longrightarrow> \<not> unat (device_pm_number w) \<le> i \<Longrightarrow>
      pd_ops (device_pm w ! i) = Some tab \<Longrightarrow>
      drop i (registered w) = device_pm w ! i # drop (Suc i) (registered w) \<Longrightarrow>
      (\<And>w'. devices_ok w' \<Longrightarrow> P (Suc i) w') \<Longrightarrow> P i w"
  shows "P i w"
  using ok
proof (induction "256 - i" arbitrary: i w rule: less_induct)
  case less
  show ?case
  proof (cases "unat (device_pm_number w) \<le> i")
    case True
    then show ?thesis by (intro finish registered_end)
  next
    case False
    then have i: "i < unat (device_pm_number w)" by simp
    from i device_number_lt [of w] have dec: "256 - Suc i < 256 - i" by linarith
    from registered_nth(2) [OF less.prems i] obtain tab where tab: "pd_ops (device_pm w ! i) = Some tab" by auto
    show ?thesis
      by (rule step [OF less.prems False tab registered_nth(1) [OF less.prems i] less.hyps [OF dec]])
  qed
qed

lemma device_suspend_log:
  assumes "devices_ok w"
  shows "pm_device_suspend (logging fails slept kc) m i RT_EOK w =
    Some (apsnd (\<lambda>es. emit es w) (suspend_trace fails m (drop i (registered w))))"
  using assms
proof (induction i w rule: device_loop_induct)
  case (finish i w)
  then show ?case by (subst pm_device_suspend.simps) simp
next
  case (step i w tab)
  then show ?case by (subst pm_device_suspend.simps) (auto simp: apsnd_def map_prod_def split: prod.split option.split)
qed

lemma device_resume_log:
  assumes "devices_ok w"
  shows "pm_device_resume (logging fails slept kc) m i w =
    Some (emit (calls_of do_resume (\<lambda>d. Resume d m) (drop i (registered w))) w)"
  using assms
proof (induction i w rule: device_loop_induct)
  case (finish i w)
  then show ?case by (subst pm_device_resume.simps) (simp add: calls_of_def)
next
  case (step i w tab)
  then show ?case by (subst pm_device_resume.simps) (auto simp: calls_of_def split: option.splits)
qed

lemma device_frequency_log:
  assumes "devices_ok w"
  shows "pm_device_frequency_change (logging fails slept kc) m i w =
    Some (emit (calls_of do_frequency_change (\<lambda>d. Frequency_change d m) (drop i (registered w))) w)"
  using assms
proof (induction i w rule: device_loop_induct)
  case (finish i w)
  then show ?case by (subst pm_device_frequency_change.simps) (simp add: calls_of_def)
next
  case (step i w tab)
  then show ?case by (subst pm_device_frequency_change.simps) (auto simp: calls_of_def split: option.splits)
qed

section \<open>One sleep\<close>

definition ops_set :: "'x pm_state_scheme \<Rightarrow> bool" where
  "ops_set w \<longleftrightarrow> (\<exists>tab. pm_ops_table w = Some tab \<and> po_sleep tab \<noteq> None \<and> po_run tab \<noteq> None \<and>
     po_timer_start tab \<noteq> None \<and> po_timer_stop tab \<noteq> None \<and> po_timer_get_tick tab \<noteq> None)"

definition nobody_busy :: "'x pm_state_scheme \<Rightarrow> bool" where
  "nobody_busy w \<longleftrightarrow> (\<forall>i < PM_MODULE_MAX_ID. \<not> busy_flag (module_status w ! i))"

definition timer_bit :: "u8 \<Rightarrow> u8 \<Rightarrow> bool" where
  "timer_bit mask_bits mode \<longleftrightarrow> (ucast mask_bits :: u32) AND push_bit (unat mode) 1 \<noteq> 0"

definition next_tick :: "'x pm_state_scheme \<Rightarrow> u32" where
  "next_tick w = fst (rt_timer_next_timeout_tick w)"

text \<open>A timer that is due in less than two ticks keeps the system in the idle mode.\<close>

definition timer_near :: "'x pm_state_scheme \<Rightarrow> bool" where
  "timer_near w \<longleftrightarrow> timer_bit (timer_mask w) (pm_sleep_mode w) \<and> next_tick w \<noteq> RT_TICK_MAX \<and>
     next_tick w - rt_tick w < RT_PM_TICKLESS_THRESH"

definition mode_slept :: "'x pm_state_scheme \<Rightarrow> u8" where
  "mode_slept w = (if timer_near w then PM_SLEEP_MODE_IDLE else pm_sleep_mode w)"

definition arm_events :: "'x pm_state_scheme \<Rightarrow> pm_event list" where
  "arm_events w = (if timer_bit (timer_mask w) (pm_sleep_mode w) \<and> \<not> timer_near w
     then [Timer_start (if next_tick w = RT_TICK_MAX then RT_TICK_MAX else next_tick w - rt_tick w)] else [])"

definition wake_events :: "'x pm_state_scheme \<Rightarrow> pm_event list" where
  "wake_events w = (if timer_bit (timer_mask w) (mode_slept w) then [Timer_get_tick, Timer_stop] else [])"

definition notify_events :: "'x pm_state_scheme \<Rightarrow> u8 \<Rightarrow> u8 \<Rightarrow> pm_event list" where
  "notify_events w e m = (if pm_notify_fun w = None then [] else [Notify e m])"

definition resume_events :: "'x pm_state_scheme \<Rightarrow> u8 \<Rightarrow> pm_event list" where
  "resume_events w m = calls_of do_resume (\<lambda>d. Resume d m) (registered w)"

lemma next_timeout_pure [simp]: "snd (rt_timer_next_timeout_tick w) = w"
  by (simp add: rt_timer_next_timeout_tick_def timer_list_next_timeout_def irq_defs)

lemma next_tick_cong:
  "timers v = timers w \<Longrightarrow> timer_list v = timer_list w \<Longrightarrow> next_tick v = next_tick w"
  by (simp add: next_tick_def rt_timer_next_timeout_tick_def timer_list_next_timeout_def irq_defs
    split: list.split option.split)

lemma next_timeout_pair: "rt_timer_next_timeout_tick w = (next_tick w, w)"
  by (simp add: next_tick_def prod_eq_iff)

lemma mode_has_timer_bit: "mode_has_timer w \<longleftrightarrow> timer_bit (timer_mask w) (pm_sleep_mode w)"
  by (simp add: mode_has_timer_def timer_bit_def)

lemma tickless_arm_log:
  assumes "ops_set w"
  shows "pm_tickless_arm (logging fails slept kc) w =
    Some (emit (arm_events w) (w\<lparr>pm_sleep_mode := mode_slept w\<rparr>))"
proof -
  from assms obtain tab f where tab: "pm_ops_table w = Some tab" "po_timer_start tab = Some f"
    by (auto simp: ops_set_def)
  show ?thesis
    by (auto simp: pm_tickless_arm_def mode_has_timer_bit next_timeout_pair ops_call_def tab
      arm_events_def mode_slept_def timer_near_def emit_def rt_tick_get_def Let_def)
qed

lemma tickless_resume_log:
  assumes "ops_set w"
  shows "pm_tickless_resume (logging fails slept kc) w =
    (if timer_bit (timer_mask w) (pm_sleep_mode w)
     then Some (Some slept, (emit [Timer_get_tick, Timer_stop] w)\<lparr>rt_tick := rt_tick w + slept\<rparr>)
     else Some (None, w))"
proof -
  from assms obtain tab f g where tab: "pm_ops_table w = Some tab" "po_timer_stop tab = Some f"
    "po_timer_get_tick tab = Some g"
    by (auto simp: ops_set_def)
  show ?thesis
    by (auto simp: pm_tickless_resume_def mode_has_timer_bit ops_call_def tab rt_tick_get_def emit_def)
qed

lemma notify_app_log:
  "notify_app (logging fails slept kc) e w = emit (notify_events w e (pm_sleep_mode w)) w"
  by (simp add: notify_app_def notify_events_def split: option.split)

lemma sleep_op_log:
  assumes "ops_set w"
  shows "ops_call po_sleep (\<lambda>f. c_sleep (logging fails slept kc) f m) w = Some (emit [Sleep m] w)"
  using assms by (auto simp: ops_call_def ops_set_def)

text \<open>The state on waking up, before the check of the timers.\<close>

definition awake :: "u32 \<Rightarrow> pm_event list \<Rightarrow> logged \<Rightarrow> logged" where
  "awake slept es w = w\<lparr>pm_sleep_mode := mode_slept w,
     rt_tick := (if timer_bit (timer_mask w) (mode_slept w) then rt_tick w + slept else rt_tick w),
     pm_log := pm_log w @ es\<rparr>"

lemma devices_ok_cong:
  "device_pm_number v = device_pm_number w \<Longrightarrow> device_pm v = device_pm w \<Longrightarrow>
   devices_ok v = devices_ok w \<and> registered v = registered w"
  by (simp add: devices_ok_def registered_def)

lemma enter_sleep_log:
  assumes ops: "ops_set w" and devs: "devices_ok w"
  shows "pm_enter_sleep fuel (logging fails slept kc) level w =
    (let w' = (awake slept (arm_events w @ [Sleep (mode_slept w)] @ wake_events w @
          resume_events w (mode_slept w) @ notify_events w RT_PM_EXIT_SLEEP (mode_slept w)) w)
          \<lparr>primask := level\<rparr>
     in if timer_bit (timer_mask w) (mode_slept w) \<and> slept \<noteq> 0 then rt_timer_check fuel kc w' else Some w')"
proof -
  let ?c = "logging fails slept kc" and ?m = "mode_slept w"
  define W1 where "W1 = emit (arm_events w) (w\<lparr>pm_sleep_mode := ?m\<rparr>)"
  define W2 where "W2 = emit [Sleep ?m] W1"
  define W3 where "W3 = (emit (wake_events w) W2)
    \<lparr>rt_tick := (if timer_bit (timer_mask w) ?m then rt_tick w + slept else rt_tick w)\<rparr>"
  have o1: "ops_set W1" and o2: "ops_set W2" using ops by (simp_all add: ops_set_def W1_def W2_def)
  have m1: "pm_sleep_mode W1 = ?m" and m3: "pm_sleep_mode W3 = ?m" "timer_mask W3 = timer_mask w"
    "pm_notify_fun W3 = pm_notify_fun w" by (simp_all add: W1_def W2_def W3_def)
  have a: "pm_tickless_arm ?c w = Some W1" using tickless_arm_log [OF ops] by (simp add: W1_def)
  have s: "ops_call po_sleep (\<lambda>f. c_sleep ?c f ?m) W1 = Some W2"
    using sleep_op_log [OF o1] by (simp add: W2_def)
  have r: "pm_tickless_resume ?c W2 = Some (if timer_bit (timer_mask w) ?m then Some slept else None, W3)"
    using tickless_resume_log [OF o2]
    by (simp add: W1_def W2_def W3_def wake_events_def emit_def)
  have d: "devices_ok W3" "registered W3 = registered w"
    using devs devices_ok_cong [of W3 w] by (simp_all add: W1_def W2_def W3_def)
  have u: "pm_device_resume ?c ?m 0 W3 = Some (emit (resume_events w ?m) W3)"
    using device_resume_log [OF d(1), of fails slept kc ?m 0] d(2) by (simp only: drop_0 resume_events_def)
  have e: "(emit (resume_events w ?m @ notify_events w RT_PM_EXIT_SLEEP ?m) W3)\<lparr>primask := level\<rparr> =
    (awake slept (arm_events w @ [Sleep (mode_slept w)] @ wake_events w @
      resume_events w (mode_slept w) @ notify_events w RT_PM_EXIT_SLEEP (mode_slept w)) w)\<lparr>primask := level\<rparr>"
    by (simp add: W1_def W2_def W3_def awake_def emit_def)
  have n: "notify_events (emit es W3) e0 m0 = notify_events w e0 m0" for es e0 m0
    by (simp add: notify_events_def m3)
  have "pm_enter_sleep fuel ?c level w =
    pm_last_check fuel ?c (if timer_bit (timer_mask w) ?m then Some slept else None)
      ((emit (resume_events w ?m @ notify_events w RT_PM_EXIT_SLEEP ?m) W3)\<lparr>primask := level\<rparr>)"
    by (simp add: pm_enter_sleep_def a m1 s r u notify_app_log n m3
      rt_pm_exit_critical_def rt_hw_interrupt_enable_def Let_def del: logging_sel)
  then show ?thesis
    by (simp add: e pm_last_check_def mode_has_timer_bit awake_def Let_def)
qed

lemma check_idle_loop_nobody:
  "\<forall>i \<in> set is. \<not> busy_flag (module_status w ! i) \<Longrightarrow> check_idle_loop is w = (True, w)"
  by (induction "is") auto

lemma check_idle_nobody: "nobody_busy w \<Longrightarrow> pm_device_check_idle w = (True, w)"
  by (simp add: pm_device_check_idle_def nobody_busy_def check_idle_loop_nobody)

lemma enter_section:
  "rt_pm_enter_critical m w = (primask w, w\<lparr>primask := 1\<rparr>)"
  "rt_pm_exit_critical l m w = w\<lparr>primask := l\<rparr>"
  by (simp_all add: rt_pm_enter_critical_def rt_pm_exit_critical_def irq_defs)

lemma change_mode_awake_allowed:
  assumes "pm_device_check_idle (w\<lparr>primask := 1\<rparr>) = (idle, w1)"
    and "\<not> idle \<or> pm_sleep_mode w1 = PM_SLEEP_MODE_NONE" and "ops_set w1"
  shows "pm_change_sleep_mode fuel (logging fails slept kc) w =
    Some ((emit [Sleep PM_SLEEP_MODE_NONE] w1)\<lparr>primask := primask w\<rparr>)"
  using assms(2) sleep_op_log [OF assms(3), of fails slept kc]
  by (auto simp: pm_change_sleep_mode_def enter_section assms(1) Let_def simp del: logging_sel)

lemma primask_cong:
  fixes w :: logged
  shows "ops_set (w\<lparr>primask := l\<rparr>) = ops_set w" "nobody_busy (w\<lparr>primask := l\<rparr>) = nobody_busy w"
    "devices_ok (w\<lparr>primask := l\<rparr>) = devices_ok w" "registered (w\<lparr>primask := l\<rparr>) = registered w"
    "next_tick (w\<lparr>primask := l\<rparr>) = next_tick w" "emit es (w\<lparr>primask := l\<rparr>) = (emit es w)\<lparr>primask := l\<rparr>"
  by (simp_all add: ops_set_def nobody_busy_def devices_ok_def registered_def emit_def
    next_tick_cong [of "w\<lparr>primask := l\<rparr>" w])

text \<open>Recording an event changes nothing that the sleep depends on.\<close>

lemma emit_cong:
  "ops_set (emit es w) = ops_set w" "next_tick (emit es w) = next_tick w"
  "timer_near (emit es w) = timer_near w" "mode_slept (emit es w) = mode_slept w"
  "arm_events (emit es w) = arm_events w" "wake_events (emit es w) = wake_events w"
  "resume_events (emit es w) m = resume_events w m" "notify_events (emit es w) e m = notify_events w e m"
proof -
  show n: "next_tick (emit es w) = next_tick w" by (rule next_tick_cong) simp_all
  show t: "timer_near (emit es w) = timer_near w" by (simp add: timer_near_def n)
  then show m: "mode_slept (emit es w) = mode_slept w" by (simp add: mode_slept_def)
  show "ops_set (emit es w) = ops_set w" by (simp add: ops_set_def)
  show "arm_events (emit es w) = arm_events w" by (simp add: arm_events_def n t)
  show "wake_events (emit es w) = wake_events w" by (simp add: wake_events_def m)
  show "resume_events (emit es w) m = resume_events w m" by (simp add: resume_events_def)
  show "notify_events (emit es w) e m = notify_events w e m" by (simp add: notify_events_def)
qed

lemma mask_cong:
  fixes w :: logged
  shows "timer_near (w\<lparr>primask := l\<rparr>) = timer_near w" "mode_slept (w\<lparr>primask := l\<rparr>) = mode_slept w"
    "arm_events (w\<lparr>primask := l\<rparr>) = arm_events w" "wake_events (w\<lparr>primask := l\<rparr>) = wake_events w"
    "resume_events (w\<lparr>primask := l\<rparr>) m = resume_events w m"
    "notify_events (w\<lparr>primask := l\<rparr>) e m = notify_events w e m"
proof -
  show t: "timer_near (w\<lparr>primask := l\<rparr>) = timer_near w" by (simp add: timer_near_def primask_cong)
  then show m: "mode_slept (w\<lparr>primask := l\<rparr>) = mode_slept w" by (simp add: mode_slept_def)
  show "arm_events (w\<lparr>primask := l\<rparr>) = arm_events w" by (simp add: arm_events_def t primask_cong)
  show "wake_events (w\<lparr>primask := l\<rparr>) = wake_events w" by (simp add: wake_events_def m)
  show "resume_events (w\<lparr>primask := l\<rparr>) m = resume_events w m" by (simp add: resume_events_def primask_cong)
  show "notify_events (w\<lparr>primask := l\<rparr>) e m = notify_events w e m" by (simp add: notify_events_def)
qed

text \<open>The whole run, for a sleep mode other than none and no busy module.\<close>

definition suspended :: "(nat option \<Rightarrow> u8 \<Rightarrow> rt_err) \<Rightarrow> 'x pm_state_scheme \<Rightarrow> rt_err \<times> pm_event list" where
  "suspended fails w = suspend_trace fails (pm_sleep_mode w) (registered w)"

definition given_up :: "(nat option \<Rightarrow> u8 \<Rightarrow> rt_err) \<Rightarrow> logged \<Rightarrow> logged" where
  "given_up fails w = emit (notify_events w RT_PM_ENTER_SLEEP (pm_sleep_mode w) @ snd (suspended fails w) @
     resume_events w (pm_sleep_mode w) @ notify_events w RT_PM_EXIT_SLEEP (pm_sleep_mode w)) w"

definition woken :: "(nat option \<Rightarrow> u8 \<Rightarrow> rt_err) \<Rightarrow> u32 \<Rightarrow> logged \<Rightarrow> logged" where
  "woken fails slept w = awake slept (notify_events w RT_PM_ENTER_SLEEP (pm_sleep_mode w) @
     snd (suspended fails w) @ arm_events w @ [Sleep (mode_slept w)] @ wake_events w @
     resume_events w (mode_slept w) @ notify_events w RT_PM_EXIT_SLEEP (mode_slept w)) w"

lemma awake_emit: "awake slept fs (emit es w) = awake slept (es @ fs) w"
  by (simp add: awake_def emit_cong) (simp add: emit_def)

lemma awake_mask: "(awake slept es (w\<lparr>primask := 1\<rparr>))\<lparr>primask := primask w\<rparr> = awake slept es w"
  by (simp add: awake_def mask_cong)

lemma change_mode_log:
  assumes busy: "nobody_busy w" and mode: "pm_sleep_mode w \<noteq> PM_SLEEP_MODE_NONE"
    and ops: "ops_set w" and devs: "devices_ok w"
  shows "pm_change_sleep_mode fuel (logging fails slept kc) w =
    (if fst (suspended fails w) \<noteq> RT_EOK then Some (given_up fails w)
     else if timer_bit (timer_mask w) (mode_slept w) \<and> slept \<noteq> 0
     then rt_timer_check fuel kc (woken fails slept w) else Some (woken fails slept w))"
proof -
  let ?c = "logging fails slept kc" and ?m = "pm_sleep_mode w"
  let ?enter = "notify_events w RT_PM_ENTER_SLEEP ?m" and ?es = "snd (suspended fails w)"
  define V where "V = w\<lparr>primask := 1\<rparr>"
  have V: "nobody_busy V" "ops_set V" "devices_ok V" "registered V = registered w"
    "pm_sleep_mode V = ?m" "notify_events V = notify_events w" "resume_events V = resume_events w"
    using busy ops devs by (simp_all add: V_def primask_cong mask_cong fun_eq_iff)
  have idle: "pm_device_check_idle V = (True, V)" by (rule check_idle_nobody [OF V(1)])
  define V3 where "V3 = emit ?enter V"
  define V4 where "V4 = emit ?es V3"
  have notified: "notify_app ?c RT_PM_ENTER_SLEEP V = V3" and m3: "pm_sleep_mode V3 = ?m"
    by (simp_all add: V3_def notify_app_log V)
  have d3: "devices_ok V3" "registered V3 = registered w" by (simp_all add: V3_def V)
  have susp: "pm_device_suspend ?c ?m 0 RT_EOK V3 = Some (fst (suspended fails w), V4)"
    using device_suspend_log [OF d3(1), of fails slept kc ?m 0] d3(2)
    by (simp add: suspended_def V4_def apsnd_def map_prod_def split_def)
  have d4: "devices_ok V4" "registered V4 = registered w" "ops_set V4" "pm_sleep_mode V4 = ?m"
    by (simp_all add: V4_def V3_def V emit_cong)
  have run: "pm_change_sleep_mode fuel ?c w =
    (if fst (suspended fails w) \<noteq> RT_EOK
     then map_option (\<lambda>w5. let w6 = notify_app ?c RT_PM_EXIT_SLEEP w5 in w6\<lparr>primask := primask w\<rparr>)
            (pm_device_resume ?c ?m 0 V4)
     else pm_enter_sleep fuel ?c (primask w) V4)"
    using mode by (simp add: pm_change_sleep_mode_def enter_section idle V notified m3 susp d4
      flip: V_def del: logging_sel)
  have res: "pm_device_resume ?c ?m 0 V4 = Some (emit (resume_events w ?m) V4)"
    using device_resume_log [OF d4(1), of fails slept kc ?m 0] d4(2) by (simp only: drop_0 resume_events_def)
  have fail: "(notify_app ?c RT_PM_EXIT_SLEEP (emit (resume_events w ?m) V4))\<lparr>primask := primask w\<rparr> =
    given_up fails w"
    by (simp add: notify_app_log emit_cong V4_def V3_def V given_up_def)
      (simp add: emit_def V_def)
  have wake: "(awake slept (arm_events V4 @ [Sleep (mode_slept V4)] @ wake_events V4 @
      resume_events V4 (mode_slept V4) @ notify_events V4 RT_PM_EXIT_SLEEP (mode_slept V4)) V4)
      \<lparr>primask := primask w\<rparr> = woken fails slept w"
    by (simp only: V4_def V3_def awake_emit emit_cong)
      (simp add: V_def mask_cong awake_mask woken_def)
  have bits: "timer_mask V4 = timer_mask w" "mode_slept V4 = mode_slept w"
    by (simp_all add: V4_def V3_def emit_cong) (simp_all add: V_def mask_cong)
  have "pm_enter_sleep fuel ?c (primask w) V4 =
    (if timer_bit (timer_mask w) (mode_slept w) \<and> slept \<noteq> 0
     then rt_timer_check fuel kc (woken fails slept w) else Some (woken fails slept w))"
    by (simp only: enter_sleep_log [OF d4(3,1)] wake bits(1) Let_def) (simp only: bits(2))
  then show ?thesis
    unfolding run by (simp add: res fail Let_def del: logging_sel)
qed

end
