(* ===== verification/Pm_Behaviour.thy ===== *)
theory Pm_Behaviour
  imports Pm_Correct
begin

text \<open>
  The claims on \<^verbatim>\<open>pm.c\<close> beyond its counters: the order of calls around a sleep, a
  device that refuses, the idle mode that sticks, the busy window, the device table and the
  run modes.
\<close>

section \<open>Suspending\<close>

lemma suspend_trace_ok:
  "\<forall>d \<in> set ds. fails (pd_device d) m = RT_EOK \<Longrightarrow>
   suspend_trace fails m ds = (RT_EOK, calls_of do_suspend (\<lambda>d. Suspend d m) ds)"
  by (induction ds) (auto simp: calls_of_def)

lemma suspend_trace_append_ok:
  "\<forall>d \<in> set ds. fails (pd_device d) m = RT_EOK \<Longrightarrow>
   suspend_trace fails m (ds @ es) =
     apsnd ((@) (calls_of do_suspend (\<lambda>d. Suspend d m) ds)) (suspend_trace fails m es)"
  by (induction ds) (auto simp: calls_of_def apsnd_def map_prod_def split_def prod_eq_iff)

lemma calls_of_append: "calls_of sel ev (ds @ es) = calls_of sel ev ds @ calls_of sel ev es"
  by (simp add: calls_of_def)

lemma suspended_ok:
  "\<forall>d \<in> set (registered w). fails (pd_device d) (pm_sleep_mode w) = RT_EOK \<Longrightarrow>
   suspended fails w = (RT_EOK, calls_of do_suspend (\<lambda>d. Suspend d (pm_sleep_mode w)) (registered w))"
  unfolding suspended_def by (rule suspend_trace_ok)

text \<open>
  Claim C25 (functional). When no module is busy and the devices agree, a run with a sleep mode makes exactly
  these calls in this order: the notification, the suspension of each device that has one,
  the start of the timer (with the ticks to the next system timer, or the greatest value
  when there is none) if the mode has the timer, the sleep, reading and stopping the timer,
  resuming each device, the notification. The tick moves on by the ticks that were slept and then the system timers are
  checked; a timer due in less than two ticks makes it an idle sleep without a timer instead.
\<close>

theorem pm_sleep_sequence:
  assumes "nobody_busy w" and "pm_sleep_mode w \<noteq> PM_SLEEP_MODE_NONE" and "ops_set w" and "devices_ok w"
    and "\<forall>d \<in> set (registered w). fails (pd_device d) (pm_sleep_mode w) = RT_EOK"
  shows "\<exists>w'. pm_log w' = pm_log w @ notify_events w RT_PM_ENTER_SLEEP (pm_sleep_mode w) @
      calls_of do_suspend (\<lambda>d. Suspend d (pm_sleep_mode w)) (registered w) @ arm_events w @
      [Sleep (mode_slept w)] @ wake_events w @ calls_of do_resume (\<lambda>d. Resume d (mode_slept w)) (registered w) @
      notify_events w RT_PM_EXIT_SLEEP (mode_slept w) \<and>
    rt_tick w' = rt_tick w + (if timer_bit (timer_mask w) (mode_slept w) then slept else 0) \<and>
    w' = w\<lparr>pm_sleep_mode := mode_slept w, rt_tick := rt_tick w', pm_log := pm_log w'\<rparr> \<and>
    pm_change_sleep_mode fuel (logging fails slept kc) w =
      (if timer_bit (timer_mask w) (mode_slept w) \<and> slept \<noteq> 0 then rt_timer_check fuel kc w' else Some w')"
  using change_mode_log [OF assms(1-4)] suspended_ok [where fails = fails, OF assms(5)]
  by (intro exI [of _ "woken fails slept w"]) (simp add: woken_def awake_def resume_events_def)

text \<open>
  When a device refuses to be suspended, the system does not sleep: the
  devices before it have been suspended, and then every device is resumed, also those behind it that were never
  suspended; apart from these calls nothing has changed.
\<close>

theorem pm_suspend_failure:
  assumes "nobody_busy w" and "pm_sleep_mode w \<noteq> PM_SLEEP_MODE_NONE" and "ops_set w" and "devices_ok w"
    and split: "registered w = ds @ d # es" and ok: "\<forall>d' \<in> set ds. fails (pd_device d') (pm_sleep_mode w) = RT_EOK"
    and refuses: "do_suspend (the (pd_ops d)) \<noteq> None" "fails (pd_device d) (pm_sleep_mode w) \<noteq> RT_EOK"
  shows "pm_change_sleep_mode fuel (logging fails slept kc) w =
    Some (w\<lparr>pm_log := pm_log w @ notify_events w RT_PM_ENTER_SLEEP (pm_sleep_mode w) @
      calls_of do_suspend (\<lambda>d. Suspend d (pm_sleep_mode w)) (ds @ [d]) @
      calls_of do_resume (\<lambda>d. Resume d (pm_sleep_mode w)) (ds @ d # es) @
      notify_events w RT_PM_EXIT_SLEEP (pm_sleep_mode w)\<rparr>)"
proof -
  have one: "calls_of do_suspend (\<lambda>d. Suspend d (pm_sleep_mode w)) [d] = [Suspend (pd_device d) (pm_sleep_mode w)]"
    using refuses(1) by (simp add: calls_of_def)
  have "suspended fails w = (fails (pd_device d) (pm_sleep_mode w),
      calls_of do_suspend (\<lambda>d. Suspend d (pm_sleep_mode w)) (ds @ [d]))"
    using suspend_trace_append_ok [where fails = fails, OF ok] refuses
    by (auto simp: suspended_def split calls_of_append one)
  with refuses(2) change_mode_log [OF assms(1-4)] show ?thesis
    by (simp add: given_up_def resume_events_def split emit_def)
qed

section \<open>The idle mode sticks\<close>

lemma run_without_timer:
  assumes "nobody_busy w" and "pm_sleep_mode w = PM_SLEEP_MODE_IDLE" and "ops_set w" and "devices_ok w"
    and "\<forall>d \<in> set (registered w). \<forall>m. fails (pd_device d) m = RT_EOK"
    and "\<not> timer_bit (timer_mask w) PM_SLEEP_MODE_IDLE"
  shows "pm_change_sleep_mode fuel (logging fails slept kc) w = Some (woken fails slept w) \<and>
    mode_slept w = PM_SLEEP_MODE_IDLE \<and> arm_events w = []"
  using change_mode_log [of w fuel fails slept kc] suspended_ok [of w fails] assms
  by (simp add: mode_slept_def timer_near_def arm_events_def)

definition sleeps :: "pm_event list \<Rightarrow> u8 list" where
  "sleeps es = concat (map (\<lambda>e. case e of Sleep m \<Rightarrow> [m] | _ \<Rightarrow> []) es)"

lemma sleeps_append [simp]: "sleeps (es @ fs) = sleeps es @ sleeps fs"
  by (simp add: sleeps_def)

lemma sleeps_Cons [simp]: "sleeps (Sleep m # es) = m # sleeps es" "sleeps [] = []"
  by (simp_all add: sleeps_def)

lemma sleeps_calls [simp]:
  "sleeps (calls_of sel (\<lambda>d. Suspend d m) ds) = []" "sleeps (calls_of sel (\<lambda>d. Resume d m) ds) = []"
  "sleeps (notify_events w e m) = []" "sleeps (arm_events w) = []" "sleeps (wake_events w) = []"
  by (auto simp: sleeps_def calls_of_def notify_events_def arm_events_def wake_events_def)

lemma woken_fields:
  "pm_sleep_mode (woken fails slept w) = mode_slept w"
  "timer_mask (woken fails slept w) = timer_mask w"
  "nobody_busy (woken fails slept w) = nobody_busy w" "ops_set (woken fails slept w) = ops_set w"
  "devices_ok (woken fails slept w) = devices_ok w" "registered (woken fails slept w) = registered w"
  by (simp_all add: woken_def awake_def nobody_busy_def ops_set_def devices_ok_def registered_def)

lemma sleeps_woken:
  assumes "\<forall>d \<in> set (registered w). \<forall>m. fails (pd_device d) m = RT_EOK"
  shows "sleeps (pm_log (woken fails slept w)) = sleeps (pm_log w) @ [mode_slept w]"
  using assms by (simp add: woken_def awake_def suspended_ok resume_events_def)

text \<open>
  A run just before a timer is due replaces the chosen sleep mode by the idle
  mode for good: until the next request or release, every later run sleeps in the idle mode
  only and never starts the timer, however far away the next timer is by then.
\<close>

theorem pm_idle_sticks:
  assumes "nobody_busy w" and "ops_set w" and "devices_ok w"
    and "\<forall>d \<in> set (registered w). \<forall>m. fails (pd_device d) m = RT_EOK"
    and near: "timer_near w" and mode: "pm_sleep_mode w \<noteq> PM_SLEEP_MODE_NONE"
    and no_timer: "\<not> timer_bit (timer_mask w) PM_SLEEP_MODE_IDLE"
  shows "\<exists>w1. pm_change_sleep_mode fuel (logging fails slept kc) w = Some w1 \<and>
    pm_sleep_mode w1 = PM_SLEEP_MODE_IDLE \<and>
    (\<forall>now tms tlist. \<exists>w2. pm_change_sleep_mode fuel (logging fails slept kc)
        (w1\<lparr>rt_tick := now, timers := tms, timer_list := tlist\<rparr>) = Some w2 \<and>
      pm_sleep_mode w2 = PM_SLEEP_MODE_IDLE \<and>
      sleeps (pm_log w2) = sleeps (pm_log w1) @ [PM_SLEEP_MODE_IDLE] \<and> rt_tick w2 = now)"
proof (rule exI [of _ "woken fails slept w"], intro conjI allI)
  have slept: "mode_slept w = PM_SLEEP_MODE_IDLE" by (simp add: mode_slept_def near)
  show "pm_change_sleep_mode fuel (logging fails slept kc) w = Some (woken fails slept w)"
    using change_mode_log [OF assms(1) mode assms(2,3)] suspended_ok [of w fails] assms(4) no_timer
    by (simp add: slept)
  show "pm_sleep_mode (woken fails slept w) = PM_SLEEP_MODE_IDLE" by (simp add: woken_fields slept)
  fix now tms tlist
  define v where "v = (woken fails slept w)\<lparr>rt_tick := now, timers := tms, timer_list := tlist\<rparr>"
  have v: "nobody_busy v" "pm_sleep_mode v = PM_SLEEP_MODE_IDLE" "ops_set v" "devices_ok v"
    "\<forall>d \<in> set (registered v). \<forall>m. fails (pd_device d) m = RT_EOK" "\<not> timer_bit (timer_mask v) PM_SLEEP_MODE_IDLE"
    using assms(1-4) no_timer woken_fields [of fails slept w]
    by (simp_all add: v_def slept nobody_busy_def ops_set_def devices_ok_def registered_def)
  note R = run_without_timer [OF v, of fuel slept kc]
  have "sleeps (pm_log (woken fails slept v)) = sleeps (pm_log (woken fails slept w)) @ [PM_SLEEP_MODE_IDLE]"
    using sleeps_woken [OF v(5), of slept] R by (simp add: v_def)
  with R v(6) show "\<exists>w2. pm_change_sleep_mode fuel (logging fails slept kc)
        ((woken fails slept w)\<lparr>rt_tick := now, timers := tms, timer_list := tlist\<rparr>) = Some w2 \<and>
      pm_sleep_mode w2 = PM_SLEEP_MODE_IDLE \<and>
      sleeps (pm_log w2) = sleeps (pm_log (woken fails slept w)) @ [PM_SLEEP_MODE_IDLE] \<and> rt_tick w2 = now"
    by (intro exI [of _ "woken fails slept v"])
      (simp add: woken_fields flip: v_def, simp add: woken_def awake_def, simp add: v_def)
qed

section \<open>Busy modules\<close>

lemma check_idle_loop_one:
  assumes "distinct is" and "k \<in> set is" and "\<forall>i \<in> set is. i \<noteq> k \<longrightarrow> \<not> busy_flag (module_status w ! i)"
    and "k < length (module_status w)" and busy: "busy_flag (module_status w ! k)"
  shows "check_idle_loop is w =
    (if mod_timeout (module_status w ! k) < rt_tick w - start_time (module_status w ! k)
     then (True, set_module k (\<lambda>m. m\<lparr>busy_flag := False, mod_timeout := 0\<rparr>) w) else (False, w))"
  using assms(1-3)
proof (induction "is")
  case (Cons i js)
  show ?case
  proof (cases "i = k")
    case True
    let ?v = "set_module k (\<lambda>m. m\<lparr>busy_flag := False, mod_timeout := 0\<rparr>) w"
    have "\<forall>j \<in> set js. \<not> busy_flag (module_status ?v ! j)"
    proof
      fix j assume "j \<in> set js"
      moreover from this have "j \<noteq> k" using Cons.prems(1) True by auto
      ultimately show "\<not> busy_flag (module_status ?v ! j)"
        using Cons.prems(3) by (simp add: set_module_def)
    qed
    then have "check_idle_loop js ?v = (True, ?v)" by (rule check_idle_loop_nobody)
    with True assms(4) busy show ?thesis by (simp add: Let_def rt_tick_get_def set_module_def)
  qed (use Cons in auto)
qed simp

text \<open>
  A module that has asked for \<open>tmo\<close> ticks keeps the system awake for
  exactly \<open>tmo\<close> ticks beyond its start, whatever the tick was: the check stays
  correct when the tick wraps around. When the time is over, the check clears the flag.
\<close>

theorem pm_delay_window:
  assumes "pm_ready w" and "unat m < PM_MODULE_MAX_ID"
    and "\<forall>i < PM_MODULE_MAX_ID. i \<noteq> unat m \<longrightarrow> \<not> busy_flag (module_status w ! i)"
  shows "let v = (rt_pm_module_delay_sleep m tmo w)\<lparr>rt_tick := rt_tick w + d\<rparr>
    in (fst (pm_device_check_idle v) \<longleftrightarrow> tmo < d) \<and>
       (tmo < d \<longrightarrow> nobody_busy (snd (pm_device_check_idle v))) \<and>
       (\<not> tmo < d \<longrightarrow> snd (pm_device_check_idle v) = v)"
proof -
  define v where "v = (rt_pm_module_delay_sleep m tmo w)\<lparr>rt_tick := rt_tick w + d\<rparr>"
  have v: "module_status v = (module_status w)[unat m := (module_status w ! unat m)
      \<lparr>busy_flag := True, mod_timeout := tmo, start_time := rt_tick w\<rparr>]"
    "rt_tick v = rt_tick w + d" "pm_init_flag v \<noteq> 0"
    using assms(1,2) by (simp_all add: v_def rt_pm_module_delay_sleep_def pm_ready_def set_module_def
      irq_defs rt_tick_get_def Let_def)
  have len: "length (module_status w) = PM_MODULE_MAX_ID" using assms(1) by (simp add: pm_ready_def)
  have others: "\<forall>i \<in> set [0..<PM_MODULE_MAX_ID]. i \<noteq> unat m \<longrightarrow> \<not> busy_flag (module_status v ! i)"
    using assms(3) by (auto simp: v(1) nth_list_update)
  have "check_idle_loop [0..<PM_MODULE_MAX_ID] v = (if tmo < d
     then (True, set_module (unat m) (\<lambda>m. m\<lparr>busy_flag := False, mod_timeout := 0\<rparr>) v) else (False, v))"
    using check_idle_loop_one [OF distinct_upt _ others] assms(2) len by (simp add: v(1,2))
  then have chk: "pm_device_check_idle v = (if tmo < d
     then (True, set_module (unat m) (\<lambda>m. m\<lparr>busy_flag := False, mod_timeout := 0\<rparr>) v) else (False, v))"
    using v(3) by (simp add: pm_device_check_idle_def)
  have "nobody_busy (set_module (unat m) (\<lambda>m. m\<lparr>busy_flag := False, mod_timeout := 0\<rparr>) v)"
    using assms(2,3) len by (auto simp: nobody_busy_def set_module_def v(1) nth_list_update)
  with chk show ?thesis by (simp add: Let_def flip: v_def)
qed

section \<open>The device table\<close>

lemma shift_down_eq:
  "i + n < length xs \<Longrightarrow> shift_down n i xs = take i xs @ take n (drop (Suc i) xs) @ drop (i + n) xs"
proof (induction n arbitrary: i xs)
  case (Suc n)
  have split: "drop i xs = xs ! i # drop (Suc i) xs" "drop (Suc i) xs = xs ! Suc i # drop (Suc (Suc i)) xs"
    using Suc.prems by (simp_all add: Cons_nth_drop_Suc)
  have "shift_down (Suc n) i xs =
      take (Suc i) (xs[i := xs ! Suc i]) @ take n (drop (Suc (Suc i)) xs) @ drop (Suc i + n) xs"
    using Suc by simp
  also have "take (Suc i) (xs[i := xs ! Suc i]) = take i xs @ [xs ! Suc i]"
    using Suc.prems by (simp add: take_Suc_conv_app_nth)
  finally show ?case using split(2) by simp
qed simp

lemma first_index_device:
  assumes "\<forall>e \<in> set xs. pd_device e \<noteq> d" and "pd_device e = d"
  shows "first_index (\<lambda>e. pd_device e = d) (xs @ e # ys) = Some (length xs)"
  using assms(1) by (induction xs) (simp_all add: assms(2))

lemma unregister_effect:
  assumes "rt_interrupt_nest w = 0" and "unat (device_pm_number w) \<le> length (device_pm w)"
    and split: "registered w = xs @ e # ys" and "\<forall>e \<in> set xs. pd_device e \<noteq> d" and "pd_device e = d"
  shows "\<exists>w'. rt_pm_device_unregister d w = Some w' \<and> registered w' = xs @ ys \<and>
    device_pm_number w' = device_pm_number w - 1 \<and> length (device_pm w') = length (device_pm w) \<and>
    primask w' = primask w \<and> rt_interrupt_nest w' = rt_interrupt_nest w"
proof -
  let ?n = "unat (device_pm_number w)" and ?l = "length xs"
  have n: "?n = Suc (?l + length ys)"
    using assms(2) arg_cong [OF split, of length] by (simp add: registered_def)
  have pos: "0 < device_pm_number w" using n by (simp add: word_gt_0 flip: unat_gt_0)
  have n1: "unat (device_pm_number w - 1) = ?l + length ys"
    using n pos by (simp add: unat_minus_one word_gt_0)
  have tk: "take ?n (device_pm w) = xs @ e # ys" using split by (simp add: registered_def)
  have idx: "first_index (\<lambda>e. pd_device e = d) (take ?n (device_pm w)) = Some ?l"
    unfolding tk by (rule first_index_device [OF assms(4,5)])
  have dev: "device_pm w = xs @ e # ys @ drop ?n (device_pm w)"
    by (metis append_take_drop_id tk append_Cons append_assoc)
  have sh: "shift_down (length ys) ?l (device_pm w) = xs @ ys @ drop (?l + length ys) (device_pm w)"
    using assms(2) n by (subst shift_down_eq) (simp, subst (1 2) dev, simp)
  show ?thesis
    using assms(1,2) n idx sh
    by (simp add: rt_pm_device_unregister_def irq_defs Let_def registered_def n1 list_update_append
      take_update_cancel)
qed

lemma register_effect:
  assumes "rt_interrupt_nest w = 0" and "unat (device_pm_number w) \<le> length (device_pm w)"
  shows "\<exists>w'. rt_pm_device_register True d tab w = Some w' \<and>
    device_pm w' = registered w @ [\<lparr>pd_device = d, pd_ops = tab\<rparr>] \<and>
    device_pm_number w' = device_pm_number w + 1 \<and> primask w' = primask w \<and> rt_interrupt_nest w' = rt_interrupt_nest w"
  using assms by (simp add: rt_pm_device_register_def irq_defs Let_def registered_def)

text \<open>
  Registering a device puts it behind the registered ones, and
  unregistering it brings the table back. The number of devices is a byte, though: the
  256th registration makes it zero and all devices are forgotten.
\<close>

theorem pm_device_table:
  assumes nest: "rt_interrupt_nest w = 0" and len: "unat (device_pm_number w) \<le> length (device_pm w)"
    and new: "\<forall>e \<in> set (registered w). pd_device e \<noteq> d"
  shows "\<exists>w1. rt_pm_device_register True d tab w = Some w1 \<and>
    (if device_pm_number w = 255 then registered w1 = []
     else registered w1 = registered w @ [\<lparr>pd_device = d, pd_ops = tab\<rparr>] \<and>
       (\<exists>w2. rt_pm_device_unregister d w1 = Some w2 \<and> registered w2 = registered w \<and>
          device_pm_number w2 = device_pm_number w \<and> primask w2 = primask w))"
proof -
  from register_effect [OF nest len, of d tab] obtain w1 where
    w1: "rt_pm_device_register True d tab w = Some w1" and
    F: "device_pm w1 = registered w @ [\<lparr>pd_device = d, pd_ops = tab\<rparr>]"
      "device_pm_number w1 = device_pm_number w + 1" "primask w1 = primask w"
      "rt_interrupt_nest w1 = rt_interrupt_nest w" by blast
  have reg_len: "length (registered w) = unat (device_pm_number w)" using len by (simp add: registered_def)
  show ?thesis
  proof (cases "device_pm_number w = 255")
    case True
    then show ?thesis using w1 F(2) by (simp add: registered_def)
  next
    case False
    have up: "unat (device_pm_number w1) = Suc (unat (device_pm_number w))"
    proof -
      have "unat (device_pm_number w) \<noteq> 255" using False by (simp add: word_unat_eq_iff)
      with device_number_lt [of w] have "unat (device_pm_number w) + 1 < 256" by simp
      then show ?thesis by (simp add: F(2) unat_word_ariths)
    qed
    have reg: "registered w1 = registered w @ \<lparr>pd_device = d, pd_ops = tab\<rparr> # []"
      by (simp add: registered_def [of w1] up F(1) reg_len)
    have "rt_interrupt_nest w1 = 0" "unat (device_pm_number w1) \<le> length (device_pm w1)"
      using nest by (simp_all add: F(4) up F(1) reg_len)
    from unregister_effect [OF this reg new] False w1 reg F(2,3) show ?thesis by auto
  qed
qed

section \<open>Run modes\<close>

lemma frequency_scaling_log:
  assumes "ops_set w" and "devices_ok w"
  shows "pm_frequency_scaling (logging fails slept kc) w =
    Some (if pm_flags w AND RT_PM_FREQUENCY_PENDING = 0 then w
      else (emit (Run (pm_run_mode w) #
              calls_of do_frequency_change (\<lambda>d. Frequency_change d (pm_run_mode w)) (registered w)) w)
           \<lparr>pm_flags := pm_flags w AND NOT RT_PM_FREQUENCY_PENDING\<rparr>)"
proof (cases "pm_flags w AND RT_PM_FREQUENCY_PENDING = 0")
  case False
  let ?v = "emit [Run (pm_run_mode w)] (w\<lparr>primask := 1\<rparr>)"
  from assms(1) obtain tab f where tab: "pm_ops_table w = Some tab" "po_run tab = Some f"
    by (auto simp: ops_set_def)
  have dev: "devices_ok ?v" "registered ?v = registered w" using assms(2) by (simp_all add: primask_cong)
  show ?thesis
    using False device_frequency_log [OF dev(1), of fails slept kc "pm_run_mode w" 0]
    by (simp add: pm_frequency_scaling_def irq_defs ops_call_def tab dev(2))
      (simp add: emit_def primask_cong)
qed (simp add: pm_frequency_scaling_def)

lemma pending_bit:
  "(flags OR RT_PM_FREQUENCY_PENDING) AND RT_PM_FREQUENCY_PENDING \<noteq> (0 :: u8)"
  "(flags OR RT_PM_FREQUENCY_PENDING) AND NOT RT_PM_FREQUENCY_PENDING = flags AND NOT (1 :: u8)"
proof -
  have "bit ((flags OR 1) AND 1 :: u8) 0" by (simp add: bit_simps)
  then show "(flags OR RT_PM_FREQUENCY_PENDING) AND RT_PM_FREQUENCY_PENDING \<noteq> (0 :: u8)"
    by (metis bit_0_eq bot_apply bot_bool_def)
qed (simp add: word_bw_comms word_ao_dist)

text \<open>
  Claim C33 (liveness). A run mode that is requested of a started component, whose board has a function for run modes and
  whose devices are in order, is applied: a faster one at once, with interrupts masked; any other one, which
  is only noted, by the next run of the frequency scaling. The board is told first and then each device, once, and nothing is
  left pending. Only when a faster mode is requested while an earlier change is still pending, the scaling
  tells board and devices of it a second time: the note of the earlier change is not cleared.
\<close>

theorem pm_run_mode_applied:
  assumes "pm_init_flag w \<noteq> 0" and "mode \<le> PM_RUN_MODE_MAX" and "ops_set w" and "devices_ok w"
    and "es = Run mode # calls_of do_frequency_change (\<lambda>d. Frequency_change d mode) (registered w)"
  shows "\<exists>w1 w2. rt_pm_run_enter (logging fails slept kc) mode w = Some (RT_EOK, w1) \<and>
    pm_run_mode w1 = mode \<and> pm_log w1 = pm_log w @ (if mode < pm_run_mode w then es else []) \<and>
    pm_frequency_scaling (logging fails slept kc) w1 = Some w2 \<and>
    pm_log w2 = pm_log w1 @ (if mode < pm_run_mode w \<and> pm_flags w AND RT_PM_FREQUENCY_PENDING = 0 then [] else es) \<and>
    pm_run_mode w2 = mode \<and> pm_flags w2 AND RT_PM_FREQUENCY_PENDING = 0 \<and> primask w2 = primask w"
proof -
  let ?c = "logging fails slept kc"
  from assms(3) obtain tab f where tab: "pm_ops_table w = Some tab" "po_run tab = Some f"
    by (auto simp: ops_set_def)
  have done0: "(pm_flags w AND NOT 1) AND 1 = (0 :: u8)" by (simp add: and.assoc)
  show ?thesis
  proof (cases "mode < pm_run_mode w")
    case True
    let ?v = "emit [Run mode] (w\<lparr>primask := 1\<rparr>)" and ?w1 = "(emit es w)\<lparr>pm_run_mode := mode\<rparr>"
    have dev: "devices_ok ?v" "registered ?v = registered w" using assms(4) by (simp_all add: primask_cong)
    have run: "rt_pm_run_enter ?c mode w = Some (RT_EOK, ?w1)"
      using True assms(1,2) device_frequency_log [OF dev(1), of fails slept kc mode 0]
      by (simp add: rt_pm_run_enter_def irq_defs ops_call_def tab dev(2) not_less assms(5))
        (simp add: emit_def primask_cong)
    have w1: "ops_set ?w1" "devices_ok ?w1" "registered ?w1 = registered w"
      using assms(3,4) by (simp_all add: ops_set_def devices_ok_def registered_def emit_def)
    have "pm_run_mode ?w1 = mode" "pm_flags ?w1 = pm_flags w" "primask ?w1 = primask w" "pm_log ?w1 = pm_log w @ es"
      by (simp_all add: emit_def)
    note w1f = this
    have sc: "pm_frequency_scaling ?c ?w1 = Some (if pm_flags w AND RT_PM_FREQUENCY_PENDING = 0 then ?w1
        else (emit es ?w1)\<lparr>pm_flags := pm_flags w AND NOT RT_PM_FREQUENCY_PENDING\<rparr>)"
      using frequency_scaling_log [OF w1(1,2), of fails slept kc] w1(3) w1f(1,2) by (simp only: assms(5))
    show ?thesis
    proof (cases "pm_flags w AND RT_PM_FREQUENCY_PENDING = 0")
      case none: True
      with sc have "pm_frequency_scaling ?c ?w1 = Some ?w1" by simp
      with True none run w1f show ?thesis by (intro exI [of _ ?w1]) simp
    next
      case pending: False
      let ?w2 = "(emit es ?w1)\<lparr>pm_flags := pm_flags w AND NOT RT_PM_FREQUENCY_PENDING\<rparr>"
      from pending sc have "pm_frequency_scaling ?c ?w1 = Some ?w2" by simp
      moreover have "pm_log ?w2 = pm_log ?w1 @ es" "pm_run_mode ?w2 = mode" "primask ?w2 = primask w"
          "pm_flags ?w2 AND RT_PM_FREQUENCY_PENDING = 0" by (simp_all add: emit_def and.assoc)
      ultimately show ?thesis using True pending run w1f by (intro exI [of _ ?w1] exI [of _ ?w2]) simp
    qed
  next
    case False
    let ?w1 = "w\<lparr>pm_flags := pm_flags w OR RT_PM_FREQUENCY_PENDING, pm_run_mode := mode\<rparr>"
    have run: "rt_pm_run_enter ?c mode w = Some (RT_EOK, ?w1)"
      using False assms(1,2) by (auto simp: rt_pm_run_enter_def irq_defs not_less)
    have w1: "ops_set ?w1" "devices_ok ?w1" "registered ?w1 = registered w"
      using assms(3,4) by (simp_all add: ops_set_def devices_ok_def registered_def)
    with False run frequency_scaling_log [OF w1(1,2), of fails slept kc] w1(3) pending_bit [of "pm_flags w"] done0
    show ?thesis by (intro exI [of _ ?w1] exI) (auto simp: assms(5))
  qed
qed

section \<open>Witnesses\<close>

text \<open>Started, with two devices of which the second refuses, deep sleep requested, a system timer.\<close>

definition demo_ops :: rt_device_pm_ops where
  "demo_ops = \<lparr>do_suspend = Some 11, do_resume = Some 12, do_frequency_change = Some 13\<rparr>"

definition demo :: "u32 \<Rightarrow> logged" where
  "demo due = pm_state.extend
     (pm_started\<lparr>pm_sleep_mode := 3, pm_modes := [0, 0, 0, 1, 0, 0], device_pm_number := 2,
        device_pm := [\<lparr>pd_device = Some 1, pd_ops = Some demo_ops\<rparr>, \<lparr>pd_device = Some 2, pd_ops = Some demo_ops\<rparr>],
        timers := (timers pm_started)(9 \<mapsto> \<lparr>tm_flag = 1, timeout_func = 0, tm_param = 0, init_tick = 5,
          timeout_tick = due\<rparr>), timer_list := [9], pm_notify_fun := Some 7\<rparr>)
     \<lparr>pm_log = []\<rparr>"

lemma demo_fields [simp]:
  "pm_sleep_mode (demo due) = 3" "device_pm_number (demo due) = 2" "rt_tick (demo due) = 0"
  "device_pm (demo due) = [\<lparr>pd_device = Some 1, pd_ops = Some demo_ops\<rparr>, \<lparr>pd_device = Some 2, pd_ops = Some demo_ops\<rparr>]"
  "timer_mask (demo due) = 8" "pm_notify_fun (demo due) = Some 7" "pm_log (demo due) = []"
  "pm_ops_table (demo due) = Some all_ops" "pm_flags (demo due) = 0" "pm_init_flag (demo due) = 1"
  "pm_run_mode (demo due) = 1" "primask (demo due) = 0" "rt_interrupt_nest (demo due) = 0"
  by (simp_all add: demo_def pm_state.defs pm_started_def rt_system_pm_init_def pm_zero_def kernel.defs
    kernel_zero_def set_count_def set_module_def Let_def)

lemma demo_status: "module_status (demo due) = module_status pm_started"
  by (simp add: demo_def pm_state.defs)

lemma demo_registered: "registered (demo due) =
  [\<lparr>pd_device = Some 1, pd_ops = Some demo_ops\<rparr>, \<lparr>pd_device = Some 2, pd_ops = Some demo_ops\<rparr>]"
  by (simp add: registered_def)

lemma started_status: "i < PM_MODULE_MAX_ID \<Longrightarrow> \<not> busy_flag (module_status pm_started ! i)"
  by (simp add: pm_started_def rt_system_pm_init_def pm_zero_def kernel.defs pm_state.defs
    kernel_zero_def set_count_def set_module_def Let_def nth_list_update)

lemma demo_ok: "nobody_busy (demo due)" "ops_set (demo due)" "devices_ok (demo due)" "pm_ready (demo due)"
  by (simp_all add: nobody_busy_def demo_status started_status ops_set_def all_ops_def devices_ok_def
    demo_registered pm_ready_def) (simp add: demo_def pm_state.defs)

lemma demo_timer: "next_tick (demo due) = due" "timer_bit 8 3" "\<not> timer_bit 8 1"
proof -
  have "timers (demo due) 9 = Some \<lparr>tm_flag = 1, timeout_func = 0, tm_param = 0, init_tick = 5, timeout_tick = due\<rparr>"
    "timer_list (demo due) = [9]" by (simp_all add: demo_def pm_state.defs)
  then show "next_tick (demo due) = due"
    by (simp add: next_tick_def rt_timer_next_timeout_tick_def timer_list_next_timeout_def irq_defs)
qed (simp_all add: timer_bit_def)

theorem pm_sleep_sequence_witness:
  "\<exists>w'. pm_change_sleep_mode 0 (logging (\<lambda>d m. 0) 0 (\<lambda>f p w. w)) (demo 50) = Some w' \<and>
     pm_log w' = [Notify 0 3, Suspend (Some 1) 3, Suspend (Some 2) 3, Timer_start 50, Sleep 3,
       Timer_get_tick, Timer_stop, Resume (Some 1) 3, Resume (Some 2) 3, Notify 1 3]"
proof -
  have near: "\<not> timer_near (demo 50)" by (simp add: timer_near_def demo_timer)
  from pm_sleep_sequence [of "demo 50" "\<lambda>d m. 0" 0 0 "\<lambda>f p w. w"]
  obtain w' where "pm_log w' = pm_log (demo 50) @ notify_events (demo 50) RT_PM_ENTER_SLEEP (pm_sleep_mode (demo 50)) @
      calls_of do_suspend (\<lambda>d. Suspend d (pm_sleep_mode (demo 50))) (registered (demo 50)) @ arm_events (demo 50) @
      [Sleep (mode_slept (demo 50))] @ wake_events (demo 50) @
      calls_of do_resume (\<lambda>d. Resume d (mode_slept (demo 50))) (registered (demo 50)) @
      notify_events (demo 50) RT_PM_EXIT_SLEEP (mode_slept (demo 50))"
    "pm_change_sleep_mode 0 (logging (\<lambda>d m. 0) 0 (\<lambda>f p w. w)) (demo 50) = Some w'"
    using demo_ok by auto
  then show ?thesis
    by (intro exI [of _ w']) (simp add: near mode_slept_def notify_events_def calls_of_def demo_registered
      demo_ops_def arm_events_def wake_events_def demo_timer)
qed

theorem pm_suspend_failure_witness:
  "map_option pm_log (pm_change_sleep_mode 0 (logging (\<lambda>d m. if d = Some 1 then 1 else 0) 0 (\<lambda>f p w. w)) (demo 50)) =
     Some [Notify 0 3, Suspend (Some 1) 3, Resume (Some 1) 3, Resume (Some 2) 3, Notify 1 3]"
  using pm_suspend_failure [of "demo 50" "[]" "\<lparr>pd_device = Some 1, pd_ops = Some demo_ops\<rparr>"
      "[\<lparr>pd_device = Some 2, pd_ops = Some demo_ops\<rparr>]" "\<lambda>d m. if d = Some 1 then 1 else 0" 0 0 "\<lambda>f p w. w"]
  by (simp add: demo_ok demo_registered demo_ops_def calls_of_def notify_events_def)

theorem pm_idle_sticks_witness:
  "\<exists>w1. pm_change_sleep_mode 0 (logging (\<lambda>d m. 0) 0 (\<lambda>f p w. w)) (demo 1) = Some w1 \<and>
     pm_sleep_mode w1 = PM_SLEEP_MODE_IDLE"
proof -
  have "timer_near (demo 1)" by (simp add: timer_near_def demo_timer)
  from pm_idle_sticks [OF demo_ok(1-3) _ this, of "\<lambda>d m. 0" 0 0 "\<lambda>f p w. w"]
  show ?thesis by (simp add: demo_timer) blast
qed

theorem pm_delay_window_witness:
  "\<not> fst (pm_device_check_idle ((rt_pm_module_delay_sleep 3 10 (demo 50))\<lparr>rt_tick := 10\<rparr>)) \<and>
   fst (pm_device_check_idle ((rt_pm_module_delay_sleep 3 10 (demo 50))\<lparr>rt_tick := 11\<rparr>))"
  using pm_delay_window [OF demo_ok(4), where m = 3 and tmo = 10 and d = 10] pm_delay_window [OF demo_ok(4), where m = 3 and tmo = 10 and d = 11]
  by (simp add: demo_status started_status Let_def)

theorem pm_device_table_witness:
  "\<exists>w1. rt_pm_device_register True (Some 3) None (demo 50) = Some w1 \<and> length (registered w1) = 3"
  using pm_device_table [of "demo 50" "Some 3" None] by (auto simp: demo_registered)

theorem pm_run_mode_applied_witness:
  "\<exists>w1 w2. rt_pm_run_enter (logging (\<lambda>d m. 0) 0 (\<lambda>f p w. w)) 3 (demo 50) = Some (RT_EOK, w1) \<and>
     pm_log w1 = [] \<and> pm_frequency_scaling (logging (\<lambda>d m. 0) 0 (\<lambda>f p w. w)) w1 = Some w2 \<and>
     pm_log w2 = [Run 3, Frequency_change (Some 1) 3, Frequency_change (Some 2) 3]"
  using pm_run_mode_applied [of "demo 50" 3 _ "\<lambda>d m. 0" 0 "\<lambda>f p w. w", OF _ _ _ _ refl]
  by (simp add: demo_ok demo_registered calls_of_def demo_ops_def) fastforce

end
