(* ===== verification/Mem.thy ===== *)
theory Mem
  imports Kernel "HOL-Library.Monad_Syntax"
begin

text \<open>
  \<^verbatim>\<open>mem.c\<close>: the heap of small memory (\<^verbatim>\<open>RT_USING_SMALL_MEM\<close>), a chain
  of blocks that each start with a \<^verbatim>\<open>struct heap_mem\<close>. Headers are known by their
  offset from \<^verbatim>\<open>heap_ptr\<close>, as the code links them; so are \<^verbatim>\<open>lfree\<close> and
  \<^verbatim>\<open>heap_end\<close>. The bytes outside the headers are kept apart in \<open>heap_bytes\<close>, by
  address. \<^verbatim>\<open>heap_sem\<close> guards every operation; an operation is one step here, so it
  has no counterpart.

  \<^verbatim>\<open>rt_size_t\<close> has 32 bits. Numbers that come from outside are words; offsets are
  naturals below \<open>2\<^sup>3\<^sup>2\<close>, with \<open>wadd\<close> and \<open>wsub\<close> for the arithmetic. \<open>None\<close> is a failed
  assertion, an access where there is no header, or a loop that has not ended.
\<close>

section \<open>Data\<close>

abbreviation HEAP_MAGIC :: u16 where "HEAP_MAGIC \<equiv> 0x1ea0"
abbreviation SIZEOF_STRUCT_MEM :: nat where "SIZEOF_STRUCT_MEM \<equiv> 12"
abbreviation MIN_SIZE :: nat where "MIN_SIZE \<equiv> 12"
abbreviation MIN_SIZE_ALIGNED :: nat where "MIN_SIZE_ALIGNED \<equiv> 12"

definition wadd :: "nat \<Rightarrow> nat \<Rightarrow> nat" where "wadd a b = (a + b) mod 2 ^ 32"
definition wsub :: "nat \<Rightarrow> nat \<Rightarrow> nat" where "wsub a b = (a + 2 ^ 32 - b) mod 2 ^ 32"

record heap_mem =
  hm_magic :: u16
  hm_used :: u16
  hm_next :: nat
  hm_prev :: nat

record heap = kernel +
  rt_malloc_hook :: "fptr option"
  rt_free_hook :: "fptr option"
  heap_ptr :: nat
  headers :: "nat \<Rightarrow> heap_mem option"
  heap_bytes :: "nat \<Rightarrow> u8"
  heap_end :: nat
  lfree :: nat
  mem_size_aligned :: nat
  used_mem :: nat
  max_mem :: nat

text \<open>The hooks: the pointer, and for an allocation the size.\<close>

record 'w heap_code =
  c_malloc_hook :: "fptr \<Rightarrow> nat \<Rightarrow> nat \<Rightarrow> 'w \<Rightarrow> 'w"
  c_free_hook :: "fptr \<Rightarrow> nat \<Rightarrow> 'w \<Rightarrow> 'w"

definition rt_malloc_sethook :: "fptr option \<Rightarrow> 'x heap_scheme \<Rightarrow> 'x heap_scheme" where
  "rt_malloc_sethook hook h = h\<lparr>rt_malloc_hook := hook\<rparr>"

definition rt_free_sethook :: "fptr option \<Rightarrow> 'x heap_scheme \<Rightarrow> 'x heap_scheme" where
  "rt_free_sethook hook h = h\<lparr>rt_free_hook := hook\<rparr>"

definition put_header :: "nat \<Rightarrow> heap_mem \<Rightarrow> 'x heap_scheme \<Rightarrow> 'x heap_scheme" where
  "put_header a m h = h\<lparr>headers := (headers h)(a \<mapsto> m)\<rparr>"

text \<open>A write to the field of a header that must be there.\<close>

definition upd_header :: "nat \<Rightarrow> (heap_mem \<Rightarrow> heap_mem) \<Rightarrow> 'x heap_scheme \<Rightarrow> 'x heap_scheme option" where
  "upd_header a f h = (case headers h a of None \<Rightarrow> None | Some m \<Rightarrow> Some (put_header a (f m) h))"

section \<open>plug\_holes\<close>

definition plug_forward :: "nat \<Rightarrow> 'x heap_scheme \<Rightarrow> 'x heap_scheme option" where
  "plug_forward mem h = do {
     m \<leftarrow> headers h mem;
     n \<leftarrow> headers h (hm_next m);
     if mem \<noteq> hm_next m \<and> hm_used n = 0 \<and> hm_next m \<noteq> heap_end h
     then do {
       h1 \<leftarrow> Some (if lfree h = hm_next m then h\<lparr>lfree := mem\<rparr> else h);
       h2 \<leftarrow> upd_header mem (\<lambda>m. m\<lparr>hm_next := hm_next n\<rparr>) h1;
       upd_header (hm_next n) (\<lambda>m. m\<lparr>hm_prev := mem\<rparr>) h2
     } else Some h }"

definition plug_backward :: "nat \<Rightarrow> 'x heap_scheme \<Rightarrow> 'x heap_scheme option" where
  "plug_backward mem h = do {
     m \<leftarrow> headers h mem;
     p \<leftarrow> headers h (hm_prev m);
     if hm_prev m \<noteq> mem \<and> hm_used p = 0
     then do {
       h1 \<leftarrow> Some (if lfree h = mem then h\<lparr>lfree := hm_prev m\<rparr> else h);
       h2 \<leftarrow> upd_header (hm_prev m) (\<lambda>p. p\<lparr>hm_next := hm_next m\<rparr>) h1;
       upd_header (hm_next m) (\<lambda>q. q\<lparr>hm_prev := hm_prev m\<rparr>) h2
     } else Some h }"

definition plug_holes :: "nat \<Rightarrow> 'x heap_scheme \<Rightarrow> 'x heap_scheme option" where
  "plug_holes mem h = do {
     RT_ASSERT (mem < heap_end h);
     m \<leftarrow> headers h mem;
     RT_ASSERT (hm_used m = 0);
     h1 \<leftarrow> plug_forward mem h;
     plug_backward mem h1 }"

section \<open>Start-up\<close>

text \<open>When the area is too small the function prints an error and returns.\<close>

definition rt_system_heap_init :: "u32 \<Rightarrow> u32 \<Rightarrow> 'x heap_scheme \<Rightarrow> 'x heap_scheme option" where
  "rt_system_heap_init begin_addr end_addr h =
    (let begin_align = RT_ALIGN begin_addr; end_align = RT_ALIGN_DOWN end_addr
     in if rt_interrupt_nest h \<noteq> 0 then None
        else if 24 < end_align \<and> begin_align \<le> end_align - 24
        then let sz = unat (end_align - begin_align - 24);
                 e = wadd sz SIZEOF_STRUCT_MEM;
                 h1 = h\<lparr>mem_size_aligned := sz, heap_ptr := unat begin_align\<rparr>;
                 h2 = put_header 0 \<lparr>hm_magic = HEAP_MAGIC, hm_used = 0, hm_next = e, hm_prev = 0\<rparr> h1;
                 h3 = put_header e \<lparr>hm_magic = HEAP_MAGIC, hm_used = 1, hm_next = e, hm_prev = e\<rparr> h2
             in Some (h3\<lparr>heap_end := e, lfree := 0\<rparr>)
        else Some h)"

section \<open>Allocation\<close>

text \<open>The bytes of a block that follow its header.\<close>

definition data_size :: "nat \<Rightarrow> heap_mem \<Rightarrow> nat" where
  "data_size ptr m = wsub (hm_next m) (wadd ptr SIZEOF_STRUCT_MEM)"

text \<open>The search from the lowest free block on; \<open>fuel\<close> bounds the blocks that are passed.\<close>

fun find_fit :: "nat \<Rightarrow> nat \<Rightarrow> nat \<Rightarrow> 'x heap_scheme \<Rightarrow> nat option option" where
  "find_fit fuel sz ptr h =
    (if ptr < wsub (mem_size_aligned h) sz
     then (case headers h ptr of
             None \<Rightarrow> None
           | Some m \<Rightarrow>
               if hm_used m = 0 \<and> sz \<le> data_size ptr m then Some (Some ptr)
               else (case fuel of
                       0 \<Rightarrow> None
                     | Suc fuel' \<Rightarrow> find_fit fuel' sz (hm_next m) h))
     else Some None)"

declare find_fit.simps [simp del]

text \<open>\<^verbatim>\<open>used_mem += n; if (max_mem < used_mem) max_mem = used_mem;\<close>\<close>

definition count_used :: "nat \<Rightarrow> 'x heap_scheme \<Rightarrow> 'x heap_scheme" where
  "count_used n h = (let u = wadd (used_mem h) n
     in h\<lparr>used_mem := u, max_mem := (if max_mem h < u then u else max_mem h)\<rparr>)"

text \<open>A block that is large enough is split: a free block starts behind the data.\<close>

definition split_block :: "nat \<Rightarrow> nat \<Rightarrow> 'x heap_scheme \<Rightarrow> 'x heap_scheme option" where
  "split_block ptr ptr2 h = do {
     m \<leftarrow> headers h ptr;
     h1 \<leftarrow> Some (put_header ptr2 \<lparr>hm_magic = HEAP_MAGIC, hm_used = 0, hm_next = hm_next m, hm_prev = ptr\<rparr> h);
     h2 \<leftarrow> upd_header ptr (\<lambda>m. m\<lparr>hm_next := ptr2\<rparr>) h1;
     if hm_next m \<noteq> wadd (mem_size_aligned h) SIZEOF_STRUCT_MEM
     then upd_header (hm_next m) (\<lambda>n. n\<lparr>hm_prev := ptr2\<rparr>) h2
     else Some h2 }"

definition take_block :: "nat \<Rightarrow> nat \<Rightarrow> 'x heap_scheme \<Rightarrow> 'x heap_scheme option" where
  "take_block sz ptr h = do {
     m \<leftarrow> headers h ptr;
     h1 \<leftarrow> (if sz + SIZEOF_STRUCT_MEM + MIN_SIZE_ALIGNED \<le> data_size ptr m
       then map_option (count_used (sz + SIZEOF_STRUCT_MEM))
              (split_block ptr (wadd ptr (SIZEOF_STRUCT_MEM + sz)) h)
       else Some (count_used (wsub (hm_next m) ptr) h));
     upd_header ptr (\<lambda>m. m\<lparr>hm_used := 1, hm_magic := HEAP_MAGIC\<rparr>) h1 }"

text \<open>\<^verbatim>\<open>while (lfree->used && lfree != heap_end) lfree = ...\<close>: the offset it ends at.\<close>

fun next_free :: "nat \<Rightarrow> nat \<Rightarrow> 'x heap_scheme \<Rightarrow> nat option" where
  "next_free fuel ptr h = (case headers h ptr of
     None \<Rightarrow> None
   | Some m \<Rightarrow>
       if hm_used m \<noteq> 0 \<and> ptr \<noteq> heap_end h
       then (case fuel of 0 \<Rightarrow> None | Suc fuel' \<Rightarrow> next_free fuel' (hm_next m) h)
       else Some ptr)"

declare next_free.simps [simp del]

text \<open>\<open>fuel\<close> bounds the rounds of each of the two loops.\<close>

definition rt_malloc :: "nat \<Rightarrow> 'x heap_scheme heap_code \<Rightarrow> u32 \<Rightarrow> 'x heap_scheme \<Rightarrow>
    (nat option \<times> 'x heap_scheme) option" where
  "rt_malloc fuel code nbytes h =
    (if nbytes = 0 then Some (None, h)
     else if rt_interrupt_nest h \<noteq> 0 then None
     else let sz0 = unat (RT_ALIGN nbytes)
          in if mem_size_aligned h < sz0 then Some (None, h)
             else let sz = (if sz0 < MIN_SIZE_ALIGNED then MIN_SIZE_ALIGNED else sz0)
                  in (case find_fit fuel sz (lfree h) h of
                        None \<Rightarrow> None
                      | Some None \<Rightarrow> Some (None, h)
                      | Some (Some ptr) \<Rightarrow> do {
                          h1 \<leftarrow> take_block sz ptr h;
                          h2 \<leftarrow> (if ptr = lfree h1
                            then map_option (\<lambda>p. h1\<lparr>lfree := p\<rparr>) (next_free fuel ptr h1) else Some h1);
                          RT_ASSERT (ptr + SIZEOF_STRUCT_MEM + sz \<le> heap_end h2);
                          RT_ASSERT ((heap_ptr h2 + ptr + SIZEOF_STRUCT_MEM) mod 4 = 0);
                          RT_ASSERT ((heap_ptr h2 + ptr) mod 4 = 0);
                          let p = heap_ptr h2 + ptr + SIZEOF_STRUCT_MEM
                          in Some (Some p, case rt_malloc_hook h2 of
                               None \<Rightarrow> h2 | Some f \<Rightarrow> c_malloc_hook code f p sz h2) }))"

section \<open>Release\<close>

text \<open>The header in front of a pointer.\<close>

definition header_before :: "nat \<Rightarrow> 'x heap_scheme \<Rightarrow> nat option" where
  "header_before rmem h =
    (if heap_ptr h + SIZEOF_STRUCT_MEM \<le> rmem then Some (rmem - SIZEOF_STRUCT_MEM - heap_ptr h) else None)"

definition in_heap :: "nat \<Rightarrow> 'x heap_scheme \<Rightarrow> bool" where
  "in_heap rmem h \<longleftrightarrow> heap_ptr h \<le> rmem \<and> rmem < heap_ptr h + heap_end h"

definition release_block :: "nat \<Rightarrow> 'x heap_scheme \<Rightarrow> 'x heap_scheme option" where
  "release_block mem h = do {
     m \<leftarrow> headers h mem;
     RT_ASSERT (hm_used m \<noteq> 0);
     RT_ASSERT (hm_magic m = HEAP_MAGIC);
     h1 \<leftarrow> upd_header mem (\<lambda>m. m\<lparr>hm_used := 0, hm_magic := HEAP_MAGIC\<rparr>) h;
     h2 \<leftarrow> Some (if mem < lfree h1 then h1\<lparr>lfree := mem\<rparr> else h1);
     h3 \<leftarrow> Some (h2\<lparr>used_mem := wsub (used_mem h2) (wsub (hm_next m) mem)\<rparr>);
     plug_holes mem h3 }"

definition rt_free :: "'x heap_scheme heap_code \<Rightarrow> nat option \<Rightarrow> 'x heap_scheme \<Rightarrow> 'x heap_scheme option" where
  "rt_free code rmem h = (case rmem of
     None \<Rightarrow> Some h
   | Some p \<Rightarrow>
       if rt_interrupt_nest h \<noteq> 0 then None
       else if p mod 4 \<noteq> 0 then None
       else if \<not> in_heap p h then None
       else let h1 = (case rt_free_hook h of None \<Rightarrow> h | Some f \<Rightarrow> c_free_hook code f p h)
            in if \<not> in_heap p h1 then Some h1
               else do { mem \<leftarrow> header_before p h1; release_block mem h1 })"

section \<open>The other operations\<close>

definition copy_bytes :: "nat \<Rightarrow> nat \<Rightarrow> nat \<Rightarrow> (nat \<Rightarrow> u8) \<Rightarrow> nat \<Rightarrow> u8" where
  "copy_bytes dst src n b = (\<lambda>a. if dst \<le> a \<and> a < dst + n then b (src + (a - dst)) else b a)"

definition set_bytes :: "nat \<Rightarrow> u8 \<Rightarrow> nat \<Rightarrow> (nat \<Rightarrow> u8) \<Rightarrow> nat \<Rightarrow> u8" where
  "set_bytes dst c n b = (\<lambda>a. if dst \<le> a \<and> a < dst + n then c else b a)"

text \<open>Shrinking in place: the rest becomes a free block.\<close>

definition shrink_block :: "nat \<Rightarrow> nat \<Rightarrow> nat \<Rightarrow> 'x heap_scheme \<Rightarrow> 'x heap_scheme option" where
  "shrink_block ptr old new h = do {
     h1 \<leftarrow> Some (h\<lparr>used_mem := wsub (used_mem h) (old - new)\<rparr>);
     ptr2 \<leftarrow> Some (wadd ptr (SIZEOF_STRUCT_MEM + new));
     h2 \<leftarrow> split_block ptr ptr2 h1;
     h3 \<leftarrow> Some (if ptr2 < lfree h2 then h2\<lparr>lfree := ptr2\<rparr> else h2);
     plug_holes ptr2 h3 }"

definition rt_realloc :: "nat \<Rightarrow> 'x heap_scheme heap_code \<Rightarrow> nat option \<Rightarrow> u32 \<Rightarrow> 'x heap_scheme \<Rightarrow>
    (nat option \<times> 'x heap_scheme) option" where
  "rt_realloc fuel code rmem newsize h =
    (if rt_interrupt_nest h \<noteq> 0 then None
     else let new = RT_ALIGN newsize
          in if mem_size_aligned h < unat new then Some (None, h)
             else if new = 0 then map_option (Pair None) (rt_free code rmem h)
             else (case rmem of
                     None \<Rightarrow> rt_malloc fuel code new h
                   | Some p \<Rightarrow>
                       if \<not> in_heap p h then Some (Some p, h)
                       else do {
                         ptr \<leftarrow> header_before p h;
                         m \<leftarrow> headers h ptr;
                         let old = data_size ptr m
                         in if old = unat new then Some (Some p, h)
                            else if unat new + SIZEOF_STRUCT_MEM + MIN_SIZE < old
                            then map_option (Pair (Some p)) (shrink_block ptr old (unat new) h)
                            else (case rt_malloc fuel code new h of
                                    None \<Rightarrow> None
                                  | Some (None, h1) \<Rightarrow> Some (None, h1)
                                  | Some (Some q, h1) \<Rightarrow> map_option (Pair (Some q))
                                      (rt_free code (Some p) (h1\<lparr>heap_bytes :=
                                         copy_bytes q p (if old < unat new then old else unat new)
                                           (heap_bytes h1)\<rparr>))) }))"

text \<open>The product of the two sizes is one of 32 bits.\<close>

definition rt_calloc :: "nat \<Rightarrow> 'x heap_scheme heap_code \<Rightarrow> u32 \<Rightarrow> u32 \<Rightarrow> 'x heap_scheme \<Rightarrow>
    (nat option \<times> 'x heap_scheme) option" where
  "rt_calloc fuel code num nbytes h = (case rt_malloc fuel code (num * nbytes) h of
     None \<Rightarrow> None
   | Some (None, h1) \<Rightarrow> Some (None, h1)
   | Some (Some p, h1) \<Rightarrow>
       Some (Some p, h1\<lparr>heap_bytes := set_bytes p 0 (unat (num * nbytes)) (heap_bytes h1)\<rparr>))"

text \<open>Total, used and greatest size, each where the caller gives a pointer.\<close>

definition rt_memory_info :: "bool \<Rightarrow> bool \<Rightarrow> bool \<Rightarrow> 'x heap_scheme \<Rightarrow> nat option \<times> nat option \<times> nat option" where
  "rt_memory_info want_total want_used want_max h =
    (if want_total then Some (mem_size_aligned h) else None,
     if want_used then Some (used_mem h) else None,
     if want_max then Some (max_mem h) else None)"

datatype mem_line = MEM_LINE string nat

definition list_mem :: "'x heap_scheme \<Rightarrow> mem_line list" where
  "list_mem h = [MEM_LINE ''total memory: %d'' (mem_size_aligned h),
     MEM_LINE ''used memory : %d'' (used_mem h),
     MEM_LINE ''maximum allocated memory: %d'' (max_mem h)]"

end
