(* ===== verification/Allocator.thy ===== *)
theory Allocator
  imports Prelude
begin

text \<open>
  The interface of an allocator and what a program that uses it may rely on. The state holds
  a set of blocks, each an address and a length; the laws say how the two operations change
  this set. The heap of \<^verbatim>\<open>mem.c\<close> is an instance.
\<close>

definition apart :: "(nat \<times> nat) set \<Rightarrow> bool" where
  "apart S \<longleftrightarrow> (\<forall>(p, n) \<in> S. \<forall>(q, m) \<in> S. (p, n) \<noteq> (q, m) \<longrightarrow> p + n \<le> q \<or> q + m \<le> p)"

datatype mem_op = Alloc u32 | Free nat

locale allocator =
  fixes alloc :: "u32 \<Rightarrow> 's \<Rightarrow> (nat option \<times> 's) option"
    and dealloc :: "nat \<Rightarrow> 's \<Rightarrow> 's option"
    and live :: "'s \<Rightarrow> (nat \<times> nat) set"
    and inv :: "'s \<Rightarrow> bool"
    and area :: "'s \<Rightarrow> nat \<times> nat"
    and max_req :: nat
  assumes alloc_returns: "inv s \<Longrightarrow> \<exists>r s'. alloc n s = Some (r, s') \<and> inv s' \<and> area s' = area s"
    and alloc_none: "inv s \<Longrightarrow> alloc n s = Some (None, s') \<Longrightarrow> live s' = live s"
    and alloc_some: "inv s \<Longrightarrow> alloc n s = Some (Some p, s') \<Longrightarrow> unat n \<le> max_req \<Longrightarrow>
      \<exists>m. live s' = insert (p, m) (live s) \<and> (p, m) \<notin> live s \<and> unat n \<le> m"
    and dealloc_live: "inv s \<Longrightarrow> (p, m) \<in> live s \<Longrightarrow>
      \<exists>s'. dealloc p s = Some s' \<and> inv s' \<and> area s' = area s \<and> live s' = live s - {(p, m)}"
    and live_apart: "inv s \<Longrightarrow> apart (live s)"
    and live_pos: "inv s \<Longrightarrow> (p, m) \<in> live s \<Longrightarrow> 0 < m"
    and live_inside: "inv s \<Longrightarrow> (p, m) \<in> live s \<Longrightarrow>
      fst (area s) \<le> p \<and> p + m \<le> snd (area s) \<and> 4 dvd p"
begin

text \<open>
  A program of requests and releases. It keeps a list of what it holds, by address and the
  size it asked for; it releases only what it holds, and a refused request is passed over.
\<close>

fun perform :: "mem_op list \<Rightarrow> (nat \<times> nat) list \<Rightarrow> 's \<Rightarrow> ((nat \<times> nat) list \<times> 's) option" where
  "perform [] held s = Some (held, s)"
| "perform (Alloc n # os) held s = (case alloc n s of
     None \<Rightarrow> None
   | Some (None, s') \<Rightarrow> perform os held s'
   | Some (Some p, s') \<Rightarrow> perform os ((p, unat n) # held) s')"
| "perform (Free p # os) held s =
    (if p \<notin> fst ` set held then perform os held s
     else (case dealloc p s of
       None \<Rightarrow> None
     | Some s' \<Rightarrow> perform os (filter (\<lambda>b. fst b \<noteq> p) held) s'))"

fun bounded :: "mem_op \<Rightarrow> bool" where
  "bounded (Alloc n) \<longleftrightarrow> unat n \<le> max_req"
| "bounded (Free p) \<longleftrightarrow> True"

text \<open>What is held is part of what is live: each block is at least as long as was asked for.\<close>

definition covered :: "(nat \<times> nat) list \<Rightarrow> 's \<Rightarrow> bool" where
  "covered held s \<longleftrightarrow> distinct (map fst held) \<and>
     (\<forall>(p, n) \<in> set held. \<exists>m \<ge> n. (p, m) \<in> live s)"

lemma live_unique: "inv s \<Longrightarrow> (p, m) \<in> live s \<Longrightarrow> (p, n) \<in> live s \<Longrightarrow> m = n"
  using live_apart [of s] live_pos [of s p m] live_pos [of s p n] by (fastforce simp: apart_def)

lemma covered_dealloc:
  assumes inv: "inv s" and cov: "covered held s" and live: "live s' = live s - {(p, m)}"
  shows "covered (filter (\<lambda>b. fst b \<noteq> p) held) s'"
proof -
  have "distinct (map fst (filter (\<lambda>b. fst b \<noteq> p) held))"
    using cov by (simp add: covered_def distinct_map_filter)
  moreover have "\<exists>k \<ge> n. (q, k) \<in> live s'" if "(q, n) \<in> set held" "q \<noteq> p" for q n
    using cov that by (fastforce simp: covered_def live)
  ultimately show ?thesis by (auto simp: covered_def)
qed

lemma perform_safe:
  assumes "inv s" and "covered held s" and "list_all bounded os"
  shows "\<exists>held' s'. perform os held s = Some (held', s') \<and> inv s' \<and> covered held' s' \<and> area s' = area s"
  using assms
proof (induction os held s rule: perform.induct)
  case (2 n os held s)
  obtain r s' where a: "alloc n s = Some (r, s')" "inv s'" "area s' = area s"
    using alloc_returns [OF 2(3)] by blast
  show ?case
  proof (cases r)
    case None
    with a alloc_none [OF 2(3)] have "live s' = live s" by simp
    with 2(4) have "covered held s'" by (simp add: covered_def)
    with 2(1) [OF a(1) _ _ a(2)] None a 2(5) show ?thesis by simp
  next
    case (Some p)
    with a alloc_some [OF 2(3)] 2(5) obtain m where
      m: "live s' = insert (p, m) (live s)" "(p, m) \<notin> live s" "unat n \<le> m" by fastforce
    have "p \<notin> fst ` set held"
    proof
      assume "p \<in> fst ` set held"
      with 2(4) obtain k where "(p, k) \<in> live s" by (fastforce simp: covered_def)
      with m live_unique [OF a(2), of p k m] show False by simp
    qed
    with 2(4) m have "covered ((p, unat n) # held) s'" by (fastforce simp: covered_def)
    with 2(2) [OF a(1) _ _ a(2)] Some a 2(5) show ?thesis by simp
  qed
next
  case (3 p os held s)
  show ?case
  proof (cases "p \<in> fst ` set held")
    case True
    with 3(4) obtain m where "(p, m) \<in> live s" by (fastforce simp: covered_def)
    with dealloc_live [OF 3(3)] obtain s' where
      d: "dealloc p s = Some s'" "inv s'" "area s' = area s" "live s' = live s - {(p, m)}" by blast
    have "covered (filter (\<lambda>b. fst b \<noteq> p) held) s'" by (rule covered_dealloc [OF 3(3,4) d(4)])
    with 3(2) d True 3(5) show ?thesis by simp
  next
    case False
    with 3 show ?thesis by simp
  qed
qed simp

lemma covered_apart:
  assumes "inv s" and "covered held s"
  shows "apart (set held) \<and> (\<forall>(p, n) \<in> set held. fst (area s) \<le> p \<and> p + n \<le> snd (area s) \<and> 4 dvd p)"
proof -
  have big: "\<exists>m \<ge> n. (p, m) \<in> live s" if "(p, n) \<in> set held" for p n
    using assms(2) that by (auto simp: covered_def)
  have "p + n \<le> q \<or> q + m \<le> p" if h: "(p, n) \<in> set held" "(q, m) \<in> set held" "(p, n) \<noteq> (q, m)" for p n q m
  proof -
    have "distinct (map fst held)" using assms(2) by (simp add: covered_def)
    then have "p \<noteq> q" using h eq_key_imp_eq_value by fast
    moreover from big h obtain n' m' where "n \<le> n'" "(p, n') \<in> live s" "m \<le> m'" "(q, m') \<in> live s" by blast
    ultimately show ?thesis using live_apart [OF assms(1)] by (fastforce simp: apart_def)
  qed
  moreover have "fst (area s) \<le> p \<and> p + n \<le> snd (area s) \<and> 4 dvd p" if "(p, n) \<in> set held" for p n
    using big [OF that] live_inside [OF assms(1)] by fastforce
  ultimately show ?thesis by (fastforce simp: apart_def)
qed

end

end
