(* ===== verification/Mem_Chain.thy ===== *)
theory Mem_Chain
  imports Mem Allocator
begin

text \<open>
  The chain of heap blocks as a list. A block is a pair: whether it is used, and its size
  with the header. The relation \<open>chain\<close> says that the headers from an offset on are those
  of a list of blocks, up to the end marker; each step of the allocator is a step on the list.
\<close>

type_synonym blocks = "(bool \<times> nat) list"

definition hdr :: "bool \<Rightarrow> nat \<Rightarrow> nat \<Rightarrow> heap_mem" where
  "hdr u e p = \<lparr>hm_magic = HEAP_MAGIC, hm_used = of_bool u, hm_next = e, hm_prev = p\<rparr>"

lemma hdr_sel [simp]:
  "hm_magic (hdr u e p) = HEAP_MAGIC" "hm_used (hdr u e p) = of_bool u"
  "hm_next (hdr u e p) = e" "hm_prev (hdr u e p) = p"
  by (simp_all add: hdr_def)

lemma hdr_upd [simp]:
  "(hdr u e p)\<lparr>hm_next := e'\<rparr> = hdr u e' p" "(hdr u e p)\<lparr>hm_prev := p'\<rparr> = hdr u e p'"
  "(hdr u e p)\<lparr>hm_magic := HEAP_MAGIC\<rparr> = hdr u e p"
  "(hdr u e p)\<lparr>hm_used := 0\<rparr> = hdr False e p" "(hdr u e p)\<lparr>hm_used := 1\<rparr> = hdr True e p"
  by (simp_all add: hdr_def)

definition span :: "blocks \<Rightarrow> nat" where
  "span bs = sum_list (map snd bs)"

lemma span_simps [simp]:
  "span [] = 0" "span (b # bs) = snd b + span bs" "span (xs @ ys) = span xs + span ys"
  by (simp_all add: span_def)

definition sized :: "blocks \<Rightarrow> bool" where
  "sized bs \<longleftrightarrow> (\<forall>b \<in> set bs. 16 \<le> snd b \<and> 4 dvd snd b)"

lemma sized_simps [simp]:
  "sized []" "sized (b # bs) \<longleftrightarrow> 16 \<le> snd b \<and> 4 dvd snd b \<and> sized bs"
  "sized (xs @ ys) \<longleftrightarrow> sized xs \<and> sized ys"
  by (auto simp: sized_def)

fun seg :: "(nat \<Rightarrow> heap_mem option) \<Rightarrow> nat \<Rightarrow> nat \<Rightarrow> blocks \<Rightarrow> bool" where
  "seg H p a [] \<longleftrightarrow> True"
| "seg H p a ((u, n) # bs) \<longleftrightarrow> H a = Some (hdr u (a + n) p) \<and> seg H a (a + n) bs"

text \<open>The previous pointer of the block behind a segment.\<close>

fun last_of :: "nat \<Rightarrow> nat \<Rightarrow> blocks \<Rightarrow> nat" where
  "last_of p a [] = p"
| "last_of p a ((u, n) # bs) = last_of a (a + n) bs"

definition at_end :: "(nat \<Rightarrow> heap_mem option) \<Rightarrow> nat \<Rightarrow> bool" where
  "at_end H e \<longleftrightarrow> (\<exists>q. H e = Some (hdr True e q))"

definition chain :: "(nat \<Rightarrow> heap_mem option) \<Rightarrow> nat \<Rightarrow> nat \<Rightarrow> blocks \<Rightarrow> bool" where
  "chain H p a bs \<longleftrightarrow> seg H p a bs \<and> at_end H (a + span bs)"

lemma seg_append [simp]:
  "seg H p a (xs @ ys) \<longleftrightarrow> seg H p a xs \<and> seg H (last_of p a xs) (a + span xs) ys"
  by (induction xs arbitrary: p a) (auto simp: add.assoc)

lemma last_of_append [simp]: "last_of p a (xs @ ys) = last_of (last_of p a xs) (a + span xs) ys"
  by (induction xs arbitrary: p a) (auto simp: add.assoc)

lemma chain_Nil [simp]: "chain H p a [] \<longleftrightarrow> at_end H a"
  by (simp add: chain_def)

lemma chain_Cons [simp]:
  "chain H p a ((u, n) # bs) \<longleftrightarrow> H a = Some (hdr u (a + n) p) \<and> chain H a (a + n) bs"
  by (auto simp: chain_def add.assoc)

lemma chain_append [simp]:
  "chain H p a (xs @ ys) \<longleftrightarrow> seg H p a xs \<and> chain H (last_of p a xs) (a + span xs) ys"
  by (auto simp: chain_def add.assoc)

lemma seg_outside:
  "sized bs \<Longrightarrow> x < a \<or> a + span bs \<le> x \<Longrightarrow> seg (H(x \<mapsto> m)) p a bs = seg H p a bs"
  by (induction bs arbitrary: p a) auto

lemma at_end_outside: "x \<noteq> e \<Longrightarrow> at_end (H(x \<mapsto> m)) e = at_end H e"
  by (simp add: at_end_def)

lemma chain_outside:
  "sized bs \<Longrightarrow> x < a \<or> a + span bs < x \<Longrightarrow> chain (H(x \<mapsto> m)) p a bs = chain H p a bs"
  by (auto simp: chain_def seg_outside at_end_outside)

text \<open>Writing the previous pointer of the first block, or of the end marker.\<close>

lemma chain_head:
  assumes "chain H p a bs"
  obtains u e where "H a = Some (hdr u e p)" "bs \<noteq> []" | q where "H a = Some (hdr True a q)" "bs = []"
  using assms by (cases bs) (auto simp: at_end_def)

lemma chain_set_prev:
  assumes "chain H p a bs" and "sized bs" and "H a = Some m"
  shows "chain (H(a \<mapsto> m\<lparr>hm_prev := q\<rparr>)) q a bs"
proof (cases bs)
  case Nil
  with assms show ?thesis by (auto simp: at_end_def)
next
  case (Cons b cs)
  obtain u n where b: "b = (u, n)" by (cases b)
  with Cons assms show ?thesis by (auto simp: chain_outside)
qed

text \<open>The lowest free block, or the end.\<close>

fun first_free :: "nat \<Rightarrow> blocks \<Rightarrow> nat" where
  "first_free a [] = a"
| "first_free a ((u, n) # bs) = (if u then first_free (a + n) bs else a)"

lemma first_free_le: "first_free a bs \<le> a + span bs"
proof (induction bs arbitrary: a)
  case (Cons b bs)
  show ?case using Cons.IH [of "a + snd b"] by (cases b) auto
qed simp

lemma first_free_ge: "a \<le> first_free a bs"
proof (induction bs arbitrary: a)
  case (Cons b bs)
  show ?case using Cons.IH [of "a + snd b"] by (cases b) auto
qed simp

lemma first_free_append:
  "sized xs \<Longrightarrow> first_free a (xs @ ys) =
    (if first_free a xs < a + span xs then first_free a xs else first_free (a + span xs) ys)"
proof (induction xs arbitrary: a)
  case (Cons b xs)
  obtain u n where b: "b = (u, n)" by (cases b)
  with Cons show ?case using first_free_ge [of "a + n" xs] by (auto simp: add.assoc)
qed simp

text \<open>No two free blocks are neighbours.\<close>

fun merged :: "blocks \<Rightarrow> bool" where
  "merged [] \<longleftrightarrow> True"
| "merged [b] \<longleftrightarrow> True"
| "merged (b # c # bs) \<longleftrightarrow> (fst b \<or> fst c) \<and> merged (c # bs)"

lemma merged_append:
  "merged (xs @ ys) \<longleftrightarrow> merged xs \<and> merged ys \<and> (xs \<noteq> [] \<and> ys \<noteq> [] \<longrightarrow> fst (last xs) \<or> fst (hd ys))"
proof (induction xs rule: merged.induct)
  case (2 b)
  then show ?case by (cases ys) auto
qed auto

lemma merged_Cons: "merged (b # bs) \<longleftrightarrow> merged bs \<and> (bs \<noteq> [] \<longrightarrow> fst b \<or> fst (hd bs))"
  by (cases bs) auto

definition used_span :: "blocks \<Rightarrow> nat" where
  "used_span bs = span (filter fst bs)"

lemma used_span_simps [simp]:
  "used_span [] = 0" "used_span ((u, n) # bs) = (if u then n else 0) + used_span bs"
  "used_span (xs @ ys) = used_span xs + used_span ys"
  by (simp_all add: used_span_def)

lemma used_span_le: "used_span bs \<le> span bs"
  by (induction bs) (auto simp: used_span_def)

section \<open>The heap as a list of blocks\<close>

definition heap_rep :: "'x heap_scheme \<Rightarrow> blocks \<Rightarrow> bool" where
  "heap_rep h bs \<longleftrightarrow> chain (headers h) 0 0 bs \<and> sized bs \<and> 24 \<le> span bs \<and> merged bs \<and>
     heap_end h = span bs \<and> mem_size_aligned h + SIZEOF_STRUCT_MEM = span bs \<and>
     lfree h = first_free 0 bs \<and> used_mem h = used_span bs \<and>
     4 dvd heap_ptr h \<and> heap_ptr h + span bs + SIZEOF_STRUCT_MEM \<le> 2 ^ 32"

text \<open>What the program holds: addresses and lengths of the used blocks' data.\<close>

fun live_from :: "nat \<Rightarrow> blocks \<Rightarrow> (nat \<times> nat) set" where
  "live_from a [] = {}"
| "live_from a ((u, n) # bs) = (if u then {(a + SIZEOF_STRUCT_MEM, n - SIZEOF_STRUCT_MEM)} else {}) \<union>
     live_from (a + n) bs"

lemma live_from_append [simp]: "live_from a (xs @ ys) = live_from a xs \<union> live_from (a + span xs) ys"
  by (induction xs arbitrary: a) (auto simp: add.assoc)

lemma live_from_bounds:
  "sized bs \<Longrightarrow> (p, n) \<in> live_from a bs \<Longrightarrow> a + 12 \<le> p \<and> p + n \<le> a + span bs \<and> 4 \<le> n"
proof (induction bs arbitrary: a)
  case (Cons b bs)
  obtain u k where b: "b = (u, k)" by (cases b)
  show ?case
  proof (cases "(p, n) \<in> live_from (a + k) bs")
    case True
    with Cons.prems(1) Cons.IH [of "a + k"] show ?thesis by (simp add: b)
  next
    case False
    with Cons.prems show ?thesis by (auto simp: b split: if_splits)
  qed
qed simp

lemma live_from_apart: "sized bs \<Longrightarrow> apart (live_from a bs)"
proof (induction bs arbitrary: a)
  case (Cons b bs)
  obtain u k where b: "b = (u, k)" by (cases b)
  have "a + k \<le> q" if "(q, m) \<in> live_from (a + k) bs" for q m
    using live_from_bounds [OF _ that] Cons.prems by (simp add: b)
  with Cons show ?case by (fastforce simp: b apart_def)
qed (simp add: apart_def)

end
