(* ===== verification/Mem_Steps.thy ===== *)
theory Mem_Steps
  imports Mem_Chain
begin

text \<open>Each step of the allocator on the headers is a step on the list of blocks.\<close>

lemma put_header_sel [simp]:
  "headers (put_header a m h) = (headers h)(a \<mapsto> m)" "heap_end (put_header a m h) = heap_end h"
  "lfree (put_header a m h) = lfree h" "mem_size_aligned (put_header a m h) = mem_size_aligned h"
  by (simp_all add: put_header_def)

lemma put_header_upd: "put_header a m h = h\<lparr>headers := (headers h)(a \<mapsto> m)\<rparr>"
  by (simp add: put_header_def)

lemma upd_header_eq:
  "headers h a = Some m \<Longrightarrow> upd_header a f h = Some (h\<lparr>headers := (headers h)(a \<mapsto> f m)\<rparr>)"
  by (simp add: upd_header_def put_header_def)

lemma wadd_eq [simp]: "a + b < 2 ^ 32 \<Longrightarrow> wadd a b = a + b"
  by (simp add: wadd_def)

lemma wsub_eq [simp]: "b \<le> a \<Longrightarrow> a < 2 ^ 32 \<Longrightarrow> wsub a b = a - b"
proof -
  assume a: "b \<le> a" "a < 2 ^ 32"
  have "wsub a b = (a - b + 2 ^ 32) mod 2 ^ 32"
    unfolding wsub_def using a(1) by (simp only: Nat.add_diff_assoc2)
  also have "\<dots> = (a - b) mod 2 ^ 32" by (rule mod_add_self2)
  also have "\<dots> = a - b" using a(2) by (intro mod_less) (rule le_less_trans [OF diff_le_self])
  finally show ?thesis .
qed

section \<open>Splitting\<close>

text \<open>The block at \<open>span xs\<close> becomes two; the header behind learns its new neighbour.\<close>

lemma split_chain:
  assumes ch: "chain (headers h) 0 0 (xs @ (u, n) # ys)" and sz: "sized xs" "sized ys"
    and k: "0 < k" "k < n" and mem: "mem_size_aligned h + 12 = span (xs @ (u, n) # ys)"
    and lim: "span (xs @ (u, n) # ys) < 2 ^ 32"
  shows "\<exists>H. split_block (span xs) (span xs + k) h = Some (h\<lparr>headers := H\<rparr>) \<and>
    chain H 0 0 (xs @ (u, k) # (False, n - k) # ys)"
proof -
  let ?a = "span xs" and ?H = "headers h" and ?p = "last_of 0 0 xs"
  from ch have m: "?H ?a = Some (hdr u (?a + n) ?p)" and front: "seg ?H 0 0 xs"
    and rear: "chain ?H ?a (?a + n) ys" by simp_all
  let ?H2 = "?H(?a + k \<mapsto> hdr False (?a + n) ?a, ?a \<mapsto> hdr u (?a + k) ?p)"
  have two: "seg ?H2 0 0 xs" "?H2 ?a = Some (hdr u (?a + k) ?p)"
    "?H2 (?a + k) = Some (hdr False (?a + n) ?a)"
    using front k sz by (simp_all add: seg_outside)
  have rear2: "chain ?H2 ?a (?a + n) ys" using rear k sz by (simp add: chain_outside)
  have nk: "?a + k + (n - k) = ?a + n" using k by simp
  have sp: "split_block ?a (?a + k) h =
    (if ?a + n \<noteq> mem_size_aligned h + 12
     then upd_header (?a + n) (\<lambda>n. n\<lparr>hm_prev := ?a + k\<rparr>) (h\<lparr>headers := ?H2\<rparr>)
     else Some (h\<lparr>headers := ?H2\<rparr>))"
    using m k mem lim
    by (simp add: split_block_def upd_header_eq put_header_upd flip: hdr_def [unfolded of_bool_eq])
      (simp add: hdr_def)
  show ?thesis
  proof (cases "ys = []")
    case True
    then have "?a + n = mem_size_aligned h + 12" using mem by simp
    with sp two rear2 True nk show ?thesis by (intro exI [of _ ?H2]) simp
  next
    case False
    then obtain v l zs where ys: "ys = (v, l) # zs" by (cases ys) auto
    from ys sz have "16 \<le> l" by simp
    with mem ys have ne: "?a + n \<noteq> mem_size_aligned h + 12" by simp
    from rear2 ys have hd: "?H2 (?a + n) = Some (hdr v (?a + n + l) ?a)" by simp
    let ?H3 = "?H2(?a + n \<mapsto> (hdr v (?a + n + l) ?a)\<lparr>hm_prev := ?a + k\<rparr>)"
    have "chain ?H3 (?a + k) (?a + n) ys" by (rule chain_set_prev [OF rear2 sz(2) hd])
    moreover have "seg ?H3 0 0 xs" using two(1) sz(1) by (simp add: seg_outside)
    ultimately have "chain ?H3 0 0 (xs @ (u, k) # (False, n - k) # ys)"
      using two(2,3) k nk by (simp add: add.assoc)
    with sp ne hd show ?thesis by (intro exI [of _ ?H3]) (simp add: upd_header_eq)
  qed
qed

section \<open>Merging\<close>

text \<open>A free block takes in the free block behind it.\<close>

fun absorb :: "nat \<Rightarrow> blocks \<Rightarrow> blocks" where
  "absorb n ((False, k) # bs) = (False, n + k) # bs"
| "absorb n bs = (False, n) # bs"

definition free_next :: "blocks \<Rightarrow> bool" where
  "free_next bs \<longleftrightarrow> bs \<noteq> [] \<and> \<not> fst (hd bs)"

lemma absorb_cases: "absorb n bs = (if free_next bs then (False, n + snd (hd bs)) # tl bs else (False, n) # bs)"
  by (induction n bs rule: absorb.induct) (auto simp: free_next_def)

lemma plug_forward_chain:
  assumes ch: "chain (headers h) 0 0 (xs @ (False, n) # ys)" and sz: "sized xs" "sized ys" "0 < n"
    and e: "heap_end h = span (xs @ (False, n) # ys)"
  shows "\<exists>H. plug_forward (span xs) h = Some (h\<lparr>headers := H,
      lfree := (if free_next ys \<and> lfree h = span xs + n then span xs else lfree h)\<rparr>) \<and>
    chain H 0 0 (xs @ absorb n ys)"
proof -
  let ?a = "span xs" and ?H = "headers h" and ?p = "last_of 0 0 xs"
  from ch have m: "?H ?a = Some (hdr False (?a + n) ?p)" and front: "seg ?H 0 0 xs"
    and rear: "chain ?H ?a (?a + n) ys" by simp_all
  show ?thesis
  proof (cases "free_next ys")
    case False
    from rear obtain v q e' where nx: "?H (?a + n) = Some (hdr v e' q)" and v: "v \<or> ys \<noteq> []"
      and used: "ys \<noteq> [] \<Longrightarrow> v"
    proof (cases ys)
      case Nil
      with rear obtain q where "?H (?a + n) = Some (hdr True (?a + n) q)" by (auto simp: at_end_def)
      with Nil show ?thesis by (intro that) auto
    next
      case (Cons b zs)
      with False obtain l where "b = (True, l)" by (cases b) (auto simp: free_next_def)
      with Cons rear show ?thesis by (intro that) auto
    qed
    then have "plug_forward ?a h = Some h" using m v by (auto simp: plug_forward_def)
    with ch False show ?thesis by (intro exI [of _ ?H]) (simp add: absorb_cases)
  next
    case True
    then obtain l zs where ys: "ys = (False, l) # zs"
      by (cases ys) (auto simp: free_next_def)
    let ?b = "?a + n" and ?c = "?a + n + l"
    from ys sz(2) have zsz: "sized zs" "16 \<le> l" by simp_all
    from rear ys have nx: "?H ?b = Some (hdr False ?c ?a)" and far: "chain ?H ?b ?c zs" by simp_all
    let ?H1 = "?H(?a \<mapsto> hdr False ?c ?p)"
    have far1: "chain ?H1 ?b ?c zs" using far zsz sz(3) by (simp add: chain_outside)
    then obtain m' where hd: "?H1 ?c = Some m'" by (metis chain_head)
    let ?H2 = "?H1(?c \<mapsto> m'\<lparr>hm_prev := ?a\<rparr>)"
    have "chain ?H2 ?a ?c zs" by (rule chain_set_prev [OF far1 zsz(1) hd])
    moreover have "seg ?H2 0 0 xs" using front sz zsz by (simp add: seg_outside)
    moreover have "?H2 ?a = Some (hdr False ?c ?p)" using sz zsz by simp
    ultimately have "chain ?H2 0 0 (xs @ absorb n ys)" by (simp add: ys add.assoc)
    moreover have "?b \<noteq> heap_end h" using e ys zsz by simp
    ultimately show ?thesis
      using m nx hd sz(3) True by (intro exI [of _ ?H2]) (simp add: plug_forward_def upd_header_eq)
  qed
qed

text \<open>And the other way round, into the free block in front of it.\<close>

lemma last_of_lt: "sized xs \<Longrightarrow> xs \<noteq> [] \<Longrightarrow> last_of 0 0 xs < span xs \<and> last_of 0 0 xs = span (butlast xs)"
proof (induction xs rule: rev_induct)
  case (snoc b xs)
  then show ?case by (cases b) simp
qed simp

lemma plug_backward_chain:
  assumes ch: "chain (headers h) 0 0 (xs @ (False, n) # ys)" and sz: "sized xs" "sized ys" "0 < n"
  shows "\<exists>H. if xs \<noteq> [] \<and> \<not> fst (last xs)
    then plug_backward (span xs) h = Some (h\<lparr>headers := H,
        lfree := (if lfree h = span xs then span (butlast xs) else lfree h)\<rparr>) \<and>
      chain H 0 0 (butlast xs @ (False, snd (last xs) + n) # ys)
    else plug_backward (span xs) h = Some h"
proof -
  let ?a = "span xs" and ?H = "headers h" and ?p = "last_of 0 0 xs"
  from ch have m: "?H ?a = Some (hdr False (?a + n) ?p)" and front: "seg ?H 0 0 xs"
    and rear: "chain ?H ?a (?a + n) ys" by simp_all
  show ?thesis
  proof (cases "xs = []")
    case True
    with m show ?thesis by (simp add: plug_backward_def)
  next
    case False
    then obtain ws v k where xs: "xs = ws @ [(v, k)]" by (cases xs rule: rev_cases) auto
    from xs have p: "?p = span ws" by simp
    from xs sz(1) have wsz: "sized ws" "16 \<le> k" by simp_all
    from front xs have pm: "?H (span ws) = Some (hdr v ?a (last_of 0 0 ws))" and wfront: "seg ?H 0 0 ws"
      by simp_all
    show ?thesis
    proof (cases v)
      case True
      with xs m p pm show ?thesis by (simp add: plug_backward_def)
    next
      case False
      let ?c = "?a + n"
      let ?H1 = "?H(span ws \<mapsto> hdr False ?c (last_of 0 0 ws))"
      have far1: "chain ?H1 ?a ?c ys" using rear sz xs wsz by (simp add: chain_outside)
      then obtain m' where hd: "?H1 ?c = Some m'" by (metis chain_head)
      let ?H2 = "?H1(?c \<mapsto> m'\<lparr>hm_prev := span ws\<rparr>)"
      have "chain ?H2 (span ws) ?c ys" by (rule chain_set_prev [OF far1 sz(2) hd])
      moreover have "seg ?H2 0 0 ws" using wfront wsz xs by (simp add: seg_outside)
      moreover have "?H2 (span ws) = Some (hdr False ?c (last_of 0 0 ws))" using sz wsz xs by simp
      ultimately have "chain ?H2 0 0 (ws @ (False, k + n) # ys)" using xs by (simp add: add.assoc)
      then show ?thesis
        using m p pm hd False xs wsz by (intro exI [of _ ?H2]) (simp add: plug_backward_def upd_header_eq)
    qed
  qed
qed

section \<open>Release\<close>

text \<open>What an operation may change: the headers and the allocator's own variables.\<close>

definition same_world :: "'x heap_scheme \<Rightarrow> 'x heap_scheme \<Rightarrow> bool" where
  "same_world h' h \<longleftrightarrow> (\<exists>H f u m. h' = h\<lparr>headers := H, lfree := f, used_mem := u, max_mem := m\<rparr>)"

lemma same_world_refl: "same_world h h"
proof -
  have "h = h\<lparr>headers := headers h, lfree := lfree h, used_mem := used_mem h, max_mem := max_mem h\<rparr>" by simp
  then show ?thesis unfolding same_world_def by blast
qed

lemma same_worldI: "same_world (h\<lparr>headers := H, lfree := f, used_mem := u, max_mem := m\<rparr>) h"
  unfolding same_world_def by blast

lemma same_world_sel:
  assumes "same_world h' h"
  shows "heap_bytes h' = heap_bytes h" "heap_ptr h' = heap_ptr h" "heap_end h' = heap_end h"
    "mem_size_aligned h' = mem_size_aligned h" "rt_interrupt_nest h' = rt_interrupt_nest h"
    "rt_malloc_hook h' = rt_malloc_hook h" "rt_free_hook h' = rt_free_hook h"
  using assms by (auto simp: same_world_def)

definition coalesce :: "blocks \<Rightarrow> nat \<Rightarrow> blocks \<Rightarrow> blocks" where
  "coalesce xs n ys = (let c = absorb n ys in
     if xs \<noteq> [] \<and> \<not> fst (last xs) then butlast xs @ (False, snd (last xs) + snd (hd c)) # tl c else xs @ c)"

lemma absorb_props:
  assumes "sized ys" and "16 \<le> n" and "4 dvd n" and "merged ys"
  shows "\<exists>m zs. absorb n ys = (False, m) # zs \<and> n \<le> m \<and> 4 dvd m \<and> sized zs \<and> merged ((False, m) # zs) \<and>
    m + span zs = n + span ys \<and> used_span zs = used_span ys"
proof (cases "free_next ys")
  case True
  then obtain k zs where ys: "ys = (False, k) # zs" by (cases ys) (auto simp: free_next_def)
  with assms show ?thesis by (auto simp: merged_Cons)
next
  case False
  with assms show ?thesis by (auto simp: absorb_cases free_next_def merged_Cons)
qed

lemma coalesce_props:
  assumes sz: "sized xs" "sized ys" "16 \<le> n" "4 dvd n" and mg: "merged xs" "merged ys"
  shows "sized (coalesce xs n ys)" "merged (coalesce xs n ys)" "coalesce xs n ys \<noteq> []"
    "span (coalesce xs n ys) = span xs + n + span ys" "used_span (coalesce xs n ys) = used_span xs + used_span ys"
    "first_free 0 (coalesce xs n ys) = first_free 0 xs"
proof -
  obtain m zs where c: "absorb n ys = (False, m) # zs" "n \<le> m" "4 dvd m" "sized zs" "merged ((False, m) # zs)"
    "m + span zs = n + span ys" "used_span zs = used_span ys"
    using absorb_props [OF sz(2-4) mg(2)] by blast
  have "sized (coalesce xs n ys) \<and> merged (coalesce xs n ys) \<and> coalesce xs n ys \<noteq> [] \<and>
    span (coalesce xs n ys) = span xs + n + span ys \<and> used_span (coalesce xs n ys) = used_span xs + used_span ys \<and>
    first_free 0 (coalesce xs n ys) = first_free 0 xs"
  proof (cases "xs \<noteq> [] \<and> \<not> fst (last xs)")
    case True
    then obtain ws k where xs: "xs = ws @ [(False, k)]" by (cases xs rule: rev_cases) auto
    have "first_free 0 xs \<le> span ws" using sz(1) first_free_le [of 0 ws] by (simp add: xs first_free_append)
    with c sz(1,3) mg(1) show ?thesis
      by (auto simp: coalesce_def xs merged_append merged_Cons first_free_append)
  next
    case False
    then have "coalesce xs n ys = xs @ (False, m) # zs" and "xs \<noteq> [] \<longrightarrow> fst (last xs)"
      by (auto simp: coalesce_def c(1))
    moreover have "\<not> first_free 0 xs < span xs \<longrightarrow> first_free 0 xs = span xs"
      using first_free_le [of 0 xs] by simp
    ultimately show ?thesis using c sz mg(1) by (auto simp: merged_append first_free_append)
  qed
  then show "sized (coalesce xs n ys)" "merged (coalesce xs n ys)" "coalesce xs n ys \<noteq> []"
    "span (coalesce xs n ys) = span xs + n + span ys" "used_span (coalesce xs n ys) = used_span xs + used_span ys"
    "first_free 0 (coalesce xs n ys) = first_free 0 xs" by blast+
qed

lemma first_free_all_used: "first_free a xs = a + span xs \<Longrightarrow> sized xs \<Longrightarrow> xs \<noteq> [] \<Longrightarrow> fst (last xs)"
proof (induction xs arbitrary: a rule: rev_induct)
  case (snoc b xs)
  then show ?case using first_free_le [of a xs] by (cases b) (auto simp: first_free_append split: if_splits)
qed simp

lemma plug_holes_chain:
  assumes ch: "chain (headers h) 0 0 (xs @ (False, n) # ys)" and sz: "sized xs" "sized ys" "16 \<le> n" "4 dvd n"
    and mg: "merged ys" and e: "heap_end h = span (xs @ (False, n) # ys)" and lf: "lfree h = first_free 0 xs"
  shows "\<exists>H. plug_holes (span xs) h = Some (h\<lparr>headers := H\<rparr>) \<and> chain H 0 0 (coalesce xs n ys)"
proof -
  obtain m zs where c: "absorb n ys = (False, m) # zs" "n \<le> m" "sized zs"
    using absorb_props [OF sz(2-4) mg] by blast
  have le: "lfree h \<le> span xs" using lf first_free_le [of 0 xs] by simp
  have n0: "0 < n" using sz(3) by simp
  from plug_forward_chain [OF ch sz(1,2) n0 e] le n0 obtain H1 where
    f: "plug_forward (span xs) h = Some (h\<lparr>headers := H1\<rparr>)" and c1: "chain H1 0 0 (xs @ (False, m) # zs)"
    by (auto simp: c(1))
  have m0: "0 < m" using c(2) n0 by simp
  from ch have hd: "headers h (span xs) = Some (hdr False (span xs + n) (last_of 0 0 xs))" by simp
  have lt: "span xs < heap_end h" using e n0 by simp
  have c1': "chain (headers (h\<lparr>headers := H1\<rparr>)) 0 0 (xs @ (False, m) # zs)" using c1 by simp
  have ph: "plug_holes (span xs) h = plug_backward (span xs) (h\<lparr>headers := H1\<rparr>)"
    using f hd lt by (simp add: plug_holes_def)
  show ?thesis
  proof (cases "xs \<noteq> [] \<and> \<not> fst (last xs)")
    case True
    then have "lfree h \<noteq> span xs" using first_free_all_used [of 0 xs] sz(1) lf by auto
    with plug_backward_chain [OF c1' sz(1) c(3) m0] True show ?thesis
      by (auto simp: ph coalesce_def c(1))
  next
    case False
    with plug_backward_chain [OF c1' sz(1) c(3) m0] c1 show ?thesis
      by (intro exI [of _ H1]) (auto simp: ph coalesce_def c(1))
  qed
qed

lemma heap_repD:
  assumes "heap_rep h bs"
  shows "chain (headers h) 0 0 bs" "sized bs" "24 \<le> span bs" "merged bs" "heap_end h = span bs"
    "mem_size_aligned h + 12 = span bs" "lfree h = first_free 0 bs" "used_mem h = used_span bs"
    "4 dvd heap_ptr h" "heap_ptr h + span bs + 12 \<le> 2 ^ 32" "span bs < 2 ^ 32"
  using assms by (simp_all add: heap_rep_def)

lemma span_dvd: "sized bs \<Longrightarrow> 4 dvd span bs"
  by (induction bs) auto

lemma seg_same: "seg H p a bs \<Longrightarrow> x \<notin> {a..<a + span bs} \<Longrightarrow> sized bs \<Longrightarrow> seg (H(x \<mapsto> m)) p a bs"
  by (subst seg_outside) auto

text \<open>A header in the middle can change its flag.\<close>

lemma chain_set_used:
  assumes "chain H 0 0 (xs @ (u, n) # ys)" and "sized xs" "sized ys" "0 < n"
  shows "H (span xs) = Some (hdr u (span xs + n) (last_of 0 0 xs))"
    and "chain (H(span xs \<mapsto> hdr v (span xs + n) (last_of 0 0 xs))) 0 0 (xs @ (v, n) # ys)"
  using assms by (simp_all add: seg_outside chain_outside)

lemma release_rep:
  assumes rep: "heap_rep h (xs @ (True, n) # ys)"
  shows "\<exists>h'. release_block (span xs) h = Some h' \<and> heap_rep h' (coalesce xs n ys) \<and> same_world h' h"
proof -
  let ?bs = "xs @ (True, n) # ys" and ?a = "span xs"
  note R = heap_repD [OF rep]
  from R(2) have sz: "sized xs" "sized ys" "16 \<le> n" "4 dvd n" by simp_all
  from R(4) have mg: "merged xs" "merged ys" by (simp_all add: merged_append merged_Cons)
  have n0: "0 < n" using sz(3) by simp
  note C = chain_set_used [OF R(1) sz(1,2) n0]
  define H where "H = (headers h)(?a \<mapsto> hdr False (?a + n) (last_of 0 0 xs))"
  define h3 where "h3 = h\<lparr>headers := H, lfree := first_free 0 xs, used_mem := used_span xs + used_span ys\<rparr>"
  have used: "wsub (used_mem h) n = used_span xs + used_span ys"
    using R(8,11) used_span_le [of ?bs] by simp
  have low: "(if ?a < lfree h then ?a else lfree h) = first_free 0 xs"
    using R(7) sz(1) first_free_le [of 0 xs] first_free_ge [of "?a + n" ys] n0
    by (simp add: first_free_append)
  have next_size: "wsub (?a + n) ?a = n" using R(11) by simp
  have "release_block ?a h = plug_holes ?a (h\<lparr>headers := H,
      lfree := (if ?a < lfree h then ?a else lfree h), used_mem := wsub (used_mem h) n\<rparr>)"
    by (simp add: release_block_def C(1) upd_header_eq next_size flip: H_def)
  then have rel: "release_block ?a h = plug_holes ?a h3" by (simp add: low used h3_def)
  have ch: "chain (headers h3) 0 0 (xs @ (False, n) # ys)" using C(2) [of False] by (simp add: h3_def H_def)
  have e: "heap_end h3 = span (xs @ (False, n) # ys)" "lfree h3 = first_free 0 xs"
    using R(5) by (simp_all add: h3_def)
  from plug_holes_chain [OF ch sz mg(2) e] obtain H' where
    H': "plug_holes ?a h3 = Some (h3\<lparr>headers := H'\<rparr>)" "chain H' 0 0 (coalesce xs n ys)" by blast
  have "heap_rep (h3\<lparr>headers := H'\<rparr>) (coalesce xs n ys)"
    using H'(2) R(3,5,6,9,10) coalesce_props [OF sz mg] by (simp add: heap_rep_def h3_def)
  moreover have "same_world (h3\<lparr>headers := H'\<rparr>) h"
  proof -
    have "h3\<lparr>headers := H'\<rparr> = h\<lparr>headers := H', lfree := first_free 0 xs,
        used_mem := used_span xs + used_span ys, max_mem := max_mem h\<rparr>"
      by (simp add: h3_def)
    then show ?thesis by (simp only: same_worldI)
  qed
  ultimately show ?thesis using H'(1) rel by (intro exI [of _ "h3\<lparr>headers := H'\<rparr>"]) simp
qed

section \<open>Allocation\<close>

text \<open>The first block from the start on that is free, large enough, and starts below the limit.\<close>

fun fit_in :: "nat \<Rightarrow> nat \<Rightarrow> nat \<Rightarrow> blocks \<Rightarrow> nat option" where
  "fit_in lim sz a [] = None"
| "fit_in lim sz a ((u, n) # bs) =
    (if a < lim then if \<not> u \<and> sz + SIZEOF_STRUCT_MEM \<le> n then Some a else fit_in lim sz (a + n) bs else None)"

lemma find_fit_chain:
  assumes "chain (headers h) p a bs" and "sized bs" and "a + span bs = mem_size_aligned h + 12"
    and "a + span bs < 2 ^ 32" and "sz \<le> mem_size_aligned h" and "length bs \<le> fuel"
  shows "find_fit fuel sz a h = Some (fit_in (mem_size_aligned h - sz) sz a bs)"
  using assms
proof (induction bs arbitrary: p a fuel)
  case Nil
  then have "\<not> a < mem_size_aligned h - sz" by simp
  with Nil show ?case by (subst find_fit.simps) simp
next
  case (Cons b bs)
  obtain u n where b: "b = (u, n)" by (cases b)
  from Cons.prems(6) obtain fuel' where fuel: "fuel = Suc fuel'" "length bs \<le> fuel'" by (cases fuel) auto
  have d: "data_size a (hdr u (a + n) p) = n - 12"
    using Cons.prems(2-4) by (simp add: data_size_def b)
  have "find_fit fuel' sz (a + n) h = Some (fit_in (mem_size_aligned h - sz) sz (a + n) bs)"
    by (rule Cons.IH [of a]) (use Cons.prems fuel b in auto)
  with Cons.prems fuel d show ?case
    by (subst find_fit.simps) (auto simp: b)
qed

lemma fit_in_Some:
  "fit_in lim sz a bs = Some x \<Longrightarrow>
   \<exists>xs n ys. bs = xs @ (False, n) # ys \<and> x = a + span xs \<and> sz + 12 \<le> n \<and> x < lim"
proof (induction bs arbitrary: a)
  case (Cons b bs)
  obtain u n where b: "b = (u, n)" by (cases b)
  show ?case
  proof (cases "\<not> u \<and> sz + 12 \<le> n")
    case True
    with Cons.prems b show ?thesis by (intro exI [of _ "[]"]) (auto split: if_splits)
  next
    case False
    with Cons.prems b have "fit_in lim sz (a + n) bs = Some x" by (auto split: if_splits)
    from Cons.IH [OF this] obtain xs m ys where
      "bs = xs @ (False, m) # ys" "x = a + n + span xs" "sz + 12 \<le> m" "x < lim" by blast
    then show ?thesis by (intro exI [of _ "(u, n) # xs"]) (auto simp: b)
  qed
qed simp

lemma fit_in_None:
  "fit_in lim sz a bs = None \<Longrightarrow> bs = xs @ (False, n) # ys \<Longrightarrow> sz + 12 \<le> n \<Longrightarrow> lim \<le> a + span xs"
proof (induction bs arbitrary: a xs)
  case (Cons b bs)
  obtain u k where b: "b = (u, k)" by (cases b)
  show ?case
  proof (cases xs)
    case Nil
    with Cons.prems b show ?thesis by (auto split: if_splits)
  next
    case (Cons c zs)
    with Cons.prems Cons.IH [of "a + k" zs] b show ?thesis by (auto split: if_splits)
  qed
qed simp

text \<open>Starting at the lowest free block makes no difference.\<close>

lemma first_free_split:
  assumes "sized bs"
  shows "\<exists>xs ys. bs = xs @ ys \<and> span xs + a = first_free a bs \<and> (\<forall>b \<in> set xs. fst b)"
proof (induction bs arbitrary: a)
  case (Cons b bs)
  obtain u n where b: "b = (u, n)" by (cases b)
  show ?case
  proof (cases u)
    case True
    from Cons.IH [of "a + n"] obtain xs ys where
      "bs = xs @ ys" "span xs + (a + n) = first_free (a + n) bs" "\<forall>b \<in> set xs. fst b" by blast
    with True b show ?thesis by (intro exI [of _ "b # xs"] exI [of _ ys]) auto
  next
    case False
    with b show ?thesis by (intro exI [of _ "[]"] exI [of _ "b # bs"]) auto
  qed
qed simp

lemma fit_in_beyond: "lim \<le> a \<Longrightarrow> fit_in lim sz a bs = None"
  by (cases bs) (auto split: prod.splits)

lemma fit_in_skip:
  "\<forall>b \<in> set xs. fst b \<Longrightarrow> fit_in lim sz a (xs @ ys) = fit_in lim sz (a + span xs) ys"
proof (induction xs arbitrary: a)
  case (Cons b xs)
  obtain u n where b: "b = (u, n)" by (cases b)
  with Cons show ?case by (auto simp: add.assoc fit_in_beyond)
qed simp

lemma find_fit_from_lfree:
  assumes rep: "heap_rep h bs" and sz: "sz \<le> mem_size_aligned h" and fuel: "length bs \<le> fuel"
  shows "find_fit fuel sz (lfree h) h = Some (fit_in (mem_size_aligned h - sz) sz 0 bs)"
proof -
  note R = heap_repD [OF rep]
  obtain xs ys where bs: "bs = xs @ ys" and len: "span xs + 0 = first_free 0 bs" and used: "\<forall>b \<in> set xs. fst b"
    using first_free_split [OF R(2)] by blast
  have ch: "chain (headers h) (last_of 0 0 xs) (span xs) ys" using R(1) bs by simp
  have "find_fit fuel sz (span xs) h = Some (fit_in (mem_size_aligned h - sz) sz (span xs) ys)"
    by (rule find_fit_chain [OF ch]) (use R(2,6,11) bs sz fuel in auto)
  then show ?thesis using R(7) len used by (simp add: bs fit_in_skip)
qed

text \<open>The blocks at the place of a free block of size \<open>n\<close> after taking \<open>sz\<close> bytes of it.\<close>

definition taken :: "nat \<Rightarrow> nat \<Rightarrow> blocks \<Rightarrow> blocks" where
  "taken sz n ys = (if sz + 36 \<le> n then (True, sz + 12) # (False, n - (sz + 12)) # ys else (True, n) # ys)"

lemma taken_props:
  assumes "sized (xs @ (False, n) # ys)" and "merged (xs @ (False, n) # ys)"
    and "sz + 12 \<le> n" and "12 \<le> sz" and "4 dvd sz"
  shows "sized (xs @ taken sz n ys)" "merged (xs @ taken sz n ys)"
    "span (xs @ taken sz n ys) = span (xs @ (False, n) # ys)"
    "used_span (xs @ taken sz n ys) = used_span (xs @ (False, n) # ys) + snd (hd (taken sz n ys))"
    "length (taken sz n ys) \<le> Suc (Suc (length ys))" "fst (hd (taken sz n ys))"
    "first_free 0 (xs @ taken sz n ys) =
      (if first_free 0 xs < span xs then first_free 0 xs else first_free (span xs) (taken sz n ys))"
proof -
  have "4 dvd n - (sz + 12)" using assms(1,5) by (simp add: dvd_diff_nat)
  with assms show "sized (xs @ taken sz n ys)" by (auto simp: taken_def)
  show "merged (xs @ taken sz n ys)" using assms(2) by (auto simp: taken_def merged_append merged_Cons)
  show "first_free 0 (xs @ taken sz n ys) =
      (if first_free 0 xs < span xs then first_free 0 xs else first_free (span xs) (taken sz n ys))"
    using assms(1) by (simp add: first_free_append)
qed (use assms in \<open>auto simp: taken_def\<close>)

lemma take_chain:
  assumes rep: "heap_rep h (xs @ (False, n) # ys)" and fit: "sz + 12 \<le> n" "12 \<le> sz" "4 dvd sz"
  shows "\<exists>H m. take_block sz (span xs) h =
      Some (h\<lparr>headers := H, used_mem := used_span (xs @ taken sz n ys), max_mem := m\<rparr>) \<and>
    chain H 0 0 (xs @ taken sz n ys)"
proof -
  let ?bs = "xs @ (False, n) # ys" and ?a = "span xs"
  note R = heap_repD [OF rep]
  note T = taken_props [OF R(2,4) fit]
  from R(2) have sz: "sized xs" "sized ys" "16 \<le> n" by simp_all
  then have n0: "0 < n" by simp
  note C = chain_set_used [OF R(1) sz(1,2) n0]
  have a: "?a + n < 2 ^ 32" using R(11) by simp
  then have d: "data_size ?a (hdr False (?a + n) (last_of 0 0 xs)) = n - 12"
    using sz(3) by (simp add: data_size_def)
  have count: "wadd (used_mem h) (snd (hd (taken sz n ys))) = used_span (xs @ taken sz n ys)"
    using R(8,11) T(3,4) used_span_le [of "xs @ taken sz n ys"] by simp
  show ?thesis
  proof (cases "sz + 36 \<le> n")
    case True
    then have k: "0 < sz + 12" "sz + 12 < n" and t: "taken sz n ys = (True, sz + 12) # (False, n - (sz + 12)) # ys"
      by (simp_all add: taken_def)
    from split_chain [OF R(1) sz(1,2) k R(6,11)] obtain H where
      H: "split_block ?a (?a + (sz + 12)) h = Some (h\<lparr>headers := H\<rparr>)"
      and ch: "chain H 0 0 (xs @ (False, sz + 12) # (False, n - (sz + 12)) # ys)" by blast
    have sz2: "sized ((False, n - (sz + 12)) # ys)" using T(1) t by simp
    note C2 = chain_set_used(1) [OF ch sz(1) sz2 k(1)] chain_set_used(2) [OF ch sz(1) sz2 k(1), of True]
    let ?h1 = "count_used (sz + 12) (h\<lparr>headers := H\<rparr>)"
    obtain m where cu: "?h1 = h\<lparr>headers := H, used_mem := used_span (xs @ taken sz n ys), max_mem := m\<rparr>"
      using count by (simp add: count_used_def Let_def t)
    have w: "wadd ?a (12 + sz) = ?a + (sz + 12)" using a k by simp
    have "take_block sz ?a h = upd_header ?a (\<lambda>m. m\<lparr>hm_used := 1, hm_magic := HEAP_MAGIC\<rparr>) ?h1"
    proof -
      have "sz + 12 + 12 \<le> n - 12" using True by simp
      then show ?thesis by (simp add: take_block_def C(1) d H w)
    qed
    also have "\<dots> = Some (?h1\<lparr>headers := H(?a \<mapsto> hdr True (?a + (sz + 12)) (last_of 0 0 xs))\<rparr>)"
      by (subst upd_header_eq [where m = "hdr False (?a + (sz + 12)) (last_of 0 0 xs)"])
        (simp_all add: C2(1) count_used_def Let_def)
    finally show ?thesis using C2(2) cu
      by (intro exI [of _ "H(?a \<mapsto> hdr True (?a + (sz + 12)) (last_of 0 0 xs))"] exI [of _ m])
        (simp add: t)
  next
    case False
    then have t: "taken sz n ys = (True, n) # ys" by (simp add: taken_def)
    let ?h1 = "count_used n h"
    obtain m where cu: "?h1 = h\<lparr>used_mem := used_span (xs @ taken sz n ys), max_mem := m\<rparr>"
      using count by (simp add: count_used_def Let_def t)
    have "take_block sz ?a h = upd_header ?a (\<lambda>m. m\<lparr>hm_used := 1, hm_magic := HEAP_MAGIC\<rparr>) ?h1"
    proof -
      have "\<not> sz + 12 + 12 \<le> n - 12" using False fit(1) by simp
      then show ?thesis using a by (simp add: take_block_def C(1) d)
    qed
    also have "\<dots> = Some (?h1\<lparr>headers := (headers h)(?a \<mapsto> hdr True (?a + n) (last_of 0 0 xs))\<rparr>)"
      by (subst upd_header_eq [where m = "hdr False (?a + n) (last_of 0 0 xs)"])
        (simp_all add: C(1) count_used_def Let_def)
    finally show ?thesis using C(2) [of True] cu
      by (intro exI [of _ "(headers h)(?a \<mapsto> hdr True (?a + n) (last_of 0 0 xs))"] exI [of _ m])
        (simp add: t)
  qed
qed

lemma next_free_chain:
  assumes "chain (headers h) p a bs" and "heap_end h = a + span bs" and "length bs \<le> fuel" and "sized bs"
  shows "next_free fuel a h = Some (first_free a bs)"
  using assms
proof (induction bs arbitrary: p a fuel)
  case Nil
  then show ?case by (subst next_free.simps) (auto simp: at_end_def)
next
  case (Cons b bs)
  obtain u n where b: "b = (u, n)" by (cases b)
  from Cons.prems(3) obtain fuel' where fuel: "fuel = Suc fuel'" "length bs \<le> fuel'" by (cases fuel) auto
  have "next_free fuel' (a + n) h = Some (first_free (a + n) bs)"
    by (rule Cons.IH [of a]) (use Cons.prems fuel b in auto)
  with Cons.prems fuel show ?case by (subst next_free.simps) (auto simp: b)
qed

section \<open>Sizes\<close>

text \<open>What the allocator looks for: at least the least block.\<close>

definition need :: "u32 \<Rightarrow> nat" where
  "need n = max MIN_SIZE_ALIGNED (unat (RT_ALIGN n))"

lemma need_props: "12 \<le> need n" "4 dvd need n"
  using RT_ALIGN_dvd [of n] by (auto simp: need_def max_def)

section \<open>rt\_malloc\<close>

lemma malloc_take:
  assumes rep: "heap_rep h (xs @ (False, k) # ys)" and fit: "sz + 12 \<le> k" "12 \<le> sz" "4 dvd sz"
    and fuel: "Suc (length (xs @ (False, k) # ys)) \<le> fuel"
  shows "\<exists>h1 h2. take_block sz (span xs) h = Some h1 \<and>
    (if span xs = lfree h1 then map_option (\<lambda>p. h1\<lparr>lfree := p\<rparr>) (next_free fuel (span xs) h1) else Some h1) = Some h2 \<and>
    heap_rep h2 (xs @ taken sz k ys) \<and> same_world h2 h"
proof -
  let ?bs = "xs @ (False, k) # ys" and ?t = "taken sz k ys"
  note R = heap_repD [OF rep]
  note T = taken_props [OF R(2,4) fit]
  from take_chain [OF rep fit] obtain H m where
    tk: "take_block sz (span xs) h = Some (h\<lparr>headers := H, used_mem := used_span (xs @ ?t), max_mem := m\<rparr>)"
    and ch: "chain H 0 0 (xs @ ?t)" by blast
  define h1 where "h1 = h\<lparr>headers := H, used_mem := used_span (xs @ ?t), max_mem := m\<rparr>"
  define h2 where "h2 = h\<lparr>headers := H, lfree := first_free 0 (xs @ ?t), used_mem := used_span (xs @ ?t), max_mem := m\<rparr>"
  have sx: "sized xs" and k0: "0 < k" using R(2) by auto
  have lf: "lfree h = first_free 0 ?bs" by (rule R(7))
  have step: "(if span xs = lfree h1 then map_option (\<lambda>p. h1\<lparr>lfree := p\<rparr>) (next_free fuel (span xs) h1) else Some h1) = Some h2"
  proof (cases "first_free 0 xs < span xs")
    case True
    then have "lfree h = first_free 0 xs" using lf sx by (simp add: first_free_append)
    with True T(7) show ?thesis by (simp add: h1_def h2_def)
  next
    case False
    then have l: "lfree h = span xs" using lf sx by (simp add: first_free_append)
    have "next_free fuel (span xs) h1 = Some (first_free (span xs) ?t)"
      by (rule next_free_chain [of _ "last_of 0 0 xs"])
        (use ch T(1,3,5) R(5) fuel in \<open>auto simp: h1_def\<close>)
    with False l T(7) show ?thesis by (simp add: h1_def h2_def)
  qed
  have "heap_rep h2 (xs @ ?t)"
    using ch T(1-3) R(3,5,6,9,10) by (simp add: heap_rep_def h2_def)
  moreover have "same_world h2 h" unfolding h2_def by (rule same_worldI)
  ultimately show ?thesis using tk [folded h1_def] step by (intro exI [of _ h1] exI [of _ h2] conjI)
qed

lemma malloc_rep:
  assumes rep: "heap_rep h bs" and nest: "rt_interrupt_nest h = 0" and hook: "rt_malloc_hook h = None"
    and pos: "n \<noteq> 0" and small: "unat (RT_ALIGN n) \<le> mem_size_aligned h"
    and fuel: "Suc (length bs) \<le> fuel"
  shows "case fit_in (mem_size_aligned h - need n) (need n) 0 bs of
      None \<Rightarrow> rt_malloc fuel code n h = Some (None, h)
    | Some a \<Rightarrow> \<exists>xs k ys h'. bs = xs @ (False, k) # ys \<and> a = span xs \<and> need n + 12 \<le> k \<and>
        rt_malloc fuel code n h = Some (Some (heap_ptr h + a + 12), h') \<and>
        heap_rep h' (xs @ taken (need n) k ys) \<and> same_world h' h"
proof -
  note R = heap_repD [OF rep]
  have need_le: "need n \<le> mem_size_aligned h" using small R(3,6) by (simp add: need_def)
  have sz: "(if unat (RT_ALIGN n) < 12 then 12 else unat (RT_ALIGN n)) = need n"
    by (simp add: need_def)
  have find: "find_fit fuel (need n) (lfree h) h = Some (fit_in (mem_size_aligned h - need n) (need n) 0 bs)"
    using find_fit_from_lfree [OF rep need_le] fuel by simp
  show ?thesis
  proof (cases "fit_in (mem_size_aligned h - need n) (need n) 0 bs")
    case None
    then show ?thesis using pos nest small find by (simp add: rt_malloc_def sz Let_def)
  next
    case (Some a)
    from fit_in_Some [OF this] obtain xs k ys where
      bs: "bs = xs @ (False, k) # ys" and a: "a = span xs" and k: "need n + 12 \<le> k" by auto
    have "Suc (length (xs @ (False, k) # ys)) \<le> fuel" using fuel bs by simp
    from malloc_take [OF rep [unfolded bs] k need_props this] obtain h1 h2 where
      tk: "take_block (need n) a h = Some h1" and
      lf: "(if a = lfree h1 then map_option (\<lambda>p. h1\<lparr>lfree := p\<rparr>) (next_free fuel a h1) else Some h1) = Some h2"
      and h2: "heap_rep h2 (xs @ taken (need n) k ys)" "same_world h2 h"
      unfolding a by blast
    note W = same_world_sel [OF h2(2)]
    have "4 dvd a" using R(2) bs a by (auto intro: span_dvd)
    moreover have "4 dvd heap_ptr h2" using R(9) W(2) by simp
    ultimately have "4 dvd heap_ptr h2 + a + 12" "4 dvd heap_ptr h2 + a" by (simp_all add: dvd_add)
    then have al: "(heap_ptr h2 + a + 12) mod 4 = 0" "(heap_ptr h2 + a) mod 4 = 0"
      by (simp_all only: dvd_imp_mod_0)
    have e: "a + 12 + need n \<le> heap_end h2" using W(3) R(5) bs a k by simp
    have "rt_malloc fuel code n h = Some (Some (heap_ptr h + a + 12), h2)"
      using pos nest small find Some tk lf al e W(2,6) hook
      by (simp add: rt_malloc_def sz Let_def)
    with Some bs a k h2 show ?thesis by auto
  qed
qed

section \<open>Shrinking\<close>

text \<open>A used block keeps its front; the rest is released.\<close>

lemma shrink_rep:
  assumes rep: "heap_rep h (xs @ (True, n) # ys)" and new: "4 \<le> new" "4 dvd new" and room: "new + 24 < n - 12"
  shows "\<exists>h'. shrink_block (span xs) (n - 12) new h = Some h' \<and>
    heap_rep h' (coalesce (xs @ [(True, new + 12)]) (n - (new + 12)) ys) \<and> same_world h' h"
proof -
  let ?k = "new + 12" and ?bs = "xs @ (True, n) # ys"
  let ?xs = "xs @ [(True, ?k)]" and ?n = "n - ?k"
  note R = heap_repD [OF rep]
  from R(2) have sz0: "sized xs" "sized ys" by simp_all
  have k: "0 < ?k" "?k < n" using room by simp_all
  have sz: "sized ?xs" "16 \<le> ?n" "4 dvd ?n" using R(2) new room by (auto simp: dvd_diff_nat)
  from R(4) have mg: "merged ?xs" "merged ys" by (auto simp: merged_append merged_Cons)
  define h1 where "h1 = h\<lparr>used_mem := used_span xs + ?k + used_span ys\<rparr>"
  have u: "wsub (used_mem h) (n - (12 + new)) = used_span xs + ?k + used_span ys"
    using R(8,11) used_span_le [of ?bs] room by simp
  have w: "wadd (span xs) (12 + new) = span ?xs" using R(11) k by simp
  have ch1: "chain (headers h1) 0 0 ?bs" "mem_size_aligned h1 + 12 = span ?bs" using R(1,6) by (simp_all add: h1_def)
  from split_chain [OF ch1(1) sz0 k ch1(2) R(11)] obtain H where
    H: "split_block (span xs) (span xs + ?k) h1 = Some (h1\<lparr>headers := H\<rparr>)"
    and ch: "chain H 0 0 (xs @ (True, ?k) # (False, ?n) # ys)" by blast
  define h2 where "h2 = h1\<lparr>headers := H, lfree := first_free 0 ?xs\<rparr>"
  have low: "(if span ?xs < lfree h then span ?xs else lfree h) = first_free 0 ?xs"
    using R(7) sz0 first_free_le [of 0 xs] first_free_ge [of "span xs + n" ys] k
    by (auto simp: first_free_append)
  have ch2: "chain (headers h2) 0 0 (?xs @ (False, ?n) # ys)" using ch by (simp add: h2_def)
  have e2: "heap_end h2 = span (?xs @ (False, ?n) # ys)" "lfree h2 = first_free 0 ?xs"
    using R(5) k by (simp_all add: h2_def h1_def)
  from plug_holes_chain [OF ch2 sz(1) sz0(2) sz(2,3) mg(2) e2] obtain H' where
    H': "plug_holes (span ?xs) h2 = Some (h2\<lparr>headers := H'\<rparr>)" "chain H' 0 0 (coalesce ?xs ?n ys)" by blast
  have "shrink_block (span xs) (n - 12) new h = plug_holes (span ?xs)
      ((h1\<lparr>headers := H\<rparr>)\<lparr>lfree := (if span ?xs < lfree h then span ?xs else lfree h)\<rparr>)"
    using H by (simp add: shrink_block_def u w flip: h1_def) (simp add: h1_def)
  then have "shrink_block (span xs) (n - 12) new h = Some (h2\<lparr>headers := H'\<rparr>)"
    using H'(1) by (simp only: low h2_def)
  moreover have "heap_rep (h2\<lparr>headers := H'\<rparr>) (coalesce ?xs ?n ys)"
    using H'(2) R(3,5,6,9,10) k coalesce_props [OF sz(1) sz0(2) sz(2,3) mg]
    by (simp add: heap_rep_def h2_def h1_def)
  moreover have "same_world (h2\<lparr>headers := H'\<rparr>) h"
  proof -
    have "h2\<lparr>headers := H'\<rparr> = h\<lparr>headers := H', lfree := first_free 0 ?xs,
        used_mem := used_span xs + ?k + used_span ys, max_mem := max_mem h\<rparr>"
      by (simp add: h2_def h1_def)
    then show ?thesis by (simp only: same_worldI)
  qed
  ultimately show ?thesis by (intro exI [of _ "h2\<lparr>headers := H'\<rparr>"]) simp
qed

end
