(* ===== verification/Mem_Correct.thy ===== *)
theory Mem_Correct
  imports Mem_Steps
begin

text \<open>
  The heap of \<^verbatim>\<open>mem.c\<close> as an allocator: the interface of \<^verbatim>\<open>Allocator\<close> on
  the model of the code, and the claims on allocation, release and reallocation.
\<close>

section \<open>The state of the heap\<close>

lemma chain_unique:
  assumes "seg H p a bs" "at_end H (a + span bs)" "seg H p a cs" "at_end H (a + span cs)"
    and "sized bs" "sized cs"
  shows "bs = cs"
  using assms
proof (induction bs arbitrary: p a cs)
  case Nil
  show ?case
  proof (cases cs)
    case (Cons c ds)
    with Nil show ?thesis by (cases c) (auto simp: at_end_def hdr_def)
  qed simp
next
  case (Cons b bs)
  obtain u n where b: "b = (u, n)" by (cases b)
  show ?case
  proof (cases cs)
    case Nil
    with Cons.prems b show ?thesis by (auto simp: at_end_def hdr_def)
  next
    case (Cons c ds)
    obtain v m where c: "c = (v, m)" by (cases c)
    from Cons.prems b Cons c have "hdr u (a + n) p = hdr v (a + m) p" by simp
    then have nm: "n = m" "u = v" by (auto simp: hdr_def)
    have "bs = ds" by (rule Cons.IH [of a "a + n"]) (use Cons.prems b Cons c nm in \<open>auto simp: add.assoc\<close>)
    with nm b c Cons show ?thesis by simp
  qed
qed

lemma heap_rep_unique: "heap_rep h bs \<Longrightarrow> heap_rep h cs \<Longrightarrow> bs = cs"
  by (rule chain_unique [of "headers h" 0 0]) (auto simp: heap_rep_def chain_def)

definition heap_ok :: "'x heap_scheme \<Rightarrow> bool" where
  "heap_ok h \<longleftrightarrow> (\<exists>bs. heap_rep h bs) \<and> rt_interrupt_nest h = 0 \<and>
     rt_malloc_hook h = None \<and> rt_free_hook h = None"

definition heap_live :: "'x heap_scheme \<Rightarrow> (nat \<times> nat) set" where
  "heap_live h = (\<Union>bs \<in> {bs. heap_rep h bs}. live_from (heap_ptr h) bs)"

lemma heap_live_eq: "heap_rep h bs \<Longrightarrow> heap_live h = live_from (heap_ptr h) bs"
  unfolding heap_live_def using heap_rep_unique [of h bs] by blast

lemma heap_ok_world:
  "heap_ok h \<Longrightarrow> heap_rep h' bs \<Longrightarrow> same_world h' h \<Longrightarrow> heap_ok h'"
  unfolding heap_ok_def using same_world_sel [of h' h] by metis

lemma length_span: "sized bs \<Longrightarrow> 16 * length bs \<le> span bs"
  by (induction bs) auto

lemma live_split:
  assumes "(p, m) \<in> live_from a bs"
  shows "\<exists>xs n ys. bs = xs @ (True, n) # ys \<and> p = a + span xs + 12 \<and> m = n - 12"
  using assms
proof (induction bs arbitrary: a)
  case (Cons b bs)
  obtain u n where b: "b = (u, n)" by (cases b)
  show ?case
  proof (cases "(p, m) \<in> live_from (a + n) bs")
    case True
    from Cons.IH [OF this] obtain xs k ys where
      "bs = xs @ (True, k) # ys" "p = a + n + span xs + 12" "m = k - 12" by blast
    then show ?thesis by (intro exI [of _ "b # xs"]) (auto simp: b)
  next
    case False
    with Cons.prems b show ?thesis by (intro exI [of _ "[]"]) (auto split: if_splits)
  qed
qed simp

lemma live_taken:
  "live_from a (xs @ taken sz n ys) =
   insert (a + span xs + 12, snd (hd (taken sz n ys)) - 12) (live_from a (xs @ (False, n) # ys))"
  by (auto simp: taken_def add.assoc)

lemma live_absorb: "live_from a (absorb n ys) = live_from (a + n) ys"
proof (cases "free_next ys")
  case True
  then obtain k zs where "ys = (False, k) # zs" by (cases ys) (auto simp: free_next_def)
  then show ?thesis by (simp add: add.assoc)
qed (simp add: absorb_cases)

lemma live_coalesce: "live_from a (coalesce xs n ys) = live_from a xs \<union> live_from (a + span xs + n) ys"
proof (cases "xs \<noteq> [] \<and> \<not> fst (last xs)")
  case True
  then obtain ws k where xs: "xs = ws @ [(False, k)]" by (cases xs rule: rev_cases) auto
  obtain m zs where c: "absorb n ys = (False, m) # zs" by (cases "free_next ys") (auto simp: absorb_cases)
  have "live_from (a + span xs + m) zs = live_from (a + span xs + n) ys"
    using live_absorb [of "a + span xs" n ys] by (simp add: c)
  then show ?thesis by (simp add: coalesce_def c xs add.assoc)
qed (auto simp: coalesce_def live_absorb)

lemma live_release:
  assumes "sized (xs @ (True, n) # ys)"
  shows "live_from a (coalesce xs n ys) = live_from a (xs @ (True, n) # ys) - {(a + span xs + 12, n - 12)}"
proof -
  from assms have sz: "sized xs" "sized ys" "16 \<le> n" by simp_all
  have "(a + span xs + 12, n - 12) \<notin> live_from a xs"
    using live_from_bounds [OF sz(1), of "a + span xs + 12" "n - 12" a] by auto
  moreover have "(a + span xs + 12, n - 12) \<notin> live_from (a + span xs + n) ys"
    using live_from_bounds [OF sz(2), of "a + span xs + 12" "n - 12" "a + span xs + n"] sz(3) by auto
  ultimately show ?thesis by (auto simp: live_coalesce add.assoc)
qed

lemma fuel_enough: "heap_rep h bs \<Longrightarrow> Suc (length bs) \<le> heap_end h"
  using length_span [of bs] by (cases bs) (auto simp: heap_rep_def)

section \<open>The laws of an allocator\<close>

definition max_request :: nat where "max_request = 0xFFFFFFFC"

definition heap_area :: "'x heap_scheme \<Rightarrow> nat \<times> nat" where
  "heap_area h = (heap_ptr h, heap_ptr h + heap_end h)"

lemma malloc_cases:
  assumes ok: "heap_ok h" and rep: "heap_rep h bs" and fuel: "Suc (length bs) \<le> fuel"
  obtains "rt_malloc fuel code n h = Some (None, h)"
  | xs k ys h' where "n \<noteq> 0" "unat (RT_ALIGN n) \<le> mem_size_aligned h"
    "bs = xs @ (False, k) # ys" "need n + 12 \<le> k"
    "rt_malloc fuel code n h = Some (Some (heap_ptr h + span xs + 12), h')"
    "heap_rep h' (xs @ taken (need n) k ys)" "same_world h' h"
proof (cases "n = 0 \<or> mem_size_aligned h < unat (RT_ALIGN n)")
  case True
  have "rt_malloc fuel code n h = Some (None, h)"
    using True ok by (auto simp: rt_malloc_def heap_ok_def Let_def)
  then show ?thesis by (rule that)
next
  case False
  have H: "rt_interrupt_nest h = 0" "rt_malloc_hook h = None" using ok by (simp_all add: heap_ok_def)
  from False have n: "n \<noteq> 0" "unat (RT_ALIGN n) \<le> mem_size_aligned h" by auto
  from malloc_rep [OF rep H n fuel, of code] show ?thesis
    by (cases "fit_in (mem_size_aligned h - need n) (need n) 0 bs")
      (use that n in \<open>auto simp: add.assoc\<close>)
qed

lemma malloc_live:
  assumes ok: "heap_ok h" and rep: "heap_rep h bs"
    and fit: "bs = xs @ (False, k) # ys" "need n + 12 \<le> k"
    and rep': "heap_rep h' (xs @ taken (need n) k ys)" and world: "same_world h' h"
  shows "\<exists>m. heap_live h' = insert (heap_ptr h + span xs + 12, m) (heap_live h) \<and>
    (heap_ptr h + span xs + 12, m) \<notin> heap_live h \<and> need n \<le> m"
proof -
  let ?p = "heap_ptr h + span xs + 12" and ?m = "snd (hd (taken (need n) k ys)) - 12"
  have "heap_live h' = insert (?p, ?m) (heap_live h)"
    by (simp only: heap_live_eq [OF rep] heap_live_eq [OF rep'] same_world_sel(2) [OF world]
      live_taken fit(1))
  moreover have "(?p, ?m) \<notin> heap_live h"
  proof -
    have sz: "sized xs" "sized ys" "16 \<le> k" using heap_repD(2) [OF rep] fit(1) by simp_all
    have "(?p, ?m) \<notin> live_from (heap_ptr h) xs"
      using live_from_bounds [OF sz(1), of ?p ?m "heap_ptr h"] by auto
    moreover have "(?p, ?m) \<notin> live_from (heap_ptr h + (span xs + k)) ys"
      using live_from_bounds [OF sz(2), of ?p ?m "heap_ptr h + (span xs + k)"] sz(3) by auto
    ultimately show ?thesis by (simp add: heap_live_eq [OF rep] fit(1) add.assoc)
  qed
  moreover have "need n \<le> ?m" using fit(2) by (simp add: taken_def le_diff_conv2)
  ultimately show ?thesis by blast
qed

lemma free_rep:
  assumes ok: "heap_ok h" and rep: "heap_rep h (xs @ (True, n) # ys)"
  shows "\<exists>h'. rt_free code (Some (heap_ptr h + span xs + 12)) h = Some h' \<and>
    heap_rep h' (coalesce xs n ys) \<and> same_world h' h"
proof -
  note R = heap_repD [OF rep]
  have "4 dvd span xs" using R(2) by (auto intro: span_dvd)
  then have "4 dvd heap_ptr h + span xs + 12" using R(9) by (simp add: dvd_add)
  then have al: "(heap_ptr h + span xs + 12) mod 4 = 0" by (rule dvd_imp_mod_0)
  have "16 \<le> n" using R(2) by simp
  then have inh: "in_heap (heap_ptr h + span xs + 12) h" using R(5) by (simp add: in_heap_def)
  have hb: "header_before (heap_ptr h + span xs + 12) h = Some (span xs)" by (simp add: header_before_def)
  from release_rep [OF rep] obtain h' where
    "release_block (span xs) h = Some h'" "heap_rep h' (coalesce xs n ys)" "same_world h' h" by blast
  with al inh hb ok show ?thesis by (intro exI [of _ h']) (simp add: rt_free_def heap_ok_def)
qed

lemma free_live:
  assumes ok: "heap_ok h" and live: "(p, m) \<in> heap_live h"
  shows "\<exists>h'. rt_free code (Some p) h = Some h' \<and> heap_ok h' \<and> same_world h' h \<and>
    heap_live h' = heap_live h - {(p, m)}"
proof -
  from ok obtain bs where rep: "heap_rep h bs" by (auto simp: heap_ok_def)
  with live have "(p, m) \<in> live_from (heap_ptr h) bs" by (simp add: heap_live_eq)
  from live_split [OF this] obtain xs n ys where
    bs: "bs = xs @ (True, n) # ys" and p: "p = heap_ptr h + span xs + 12" and m: "m = n - 12" by blast
  from free_rep [OF ok rep [unfolded bs], of code] obtain h' where
    f: "rt_free code (Some p) h = Some h'" "heap_rep h' (coalesce xs n ys)" "same_world h' h"
    by (auto simp: p)
  have "heap_live h' = heap_live h - {(p, m)}"
    using heap_live_eq [OF rep] heap_live_eq [OF f(2)] same_world_sel(2) [OF f(3)]
      live_release [OF heap_repD(2) [OF rep, unfolded bs]] by (simp add: bs p m)
  with f heap_ok_world [OF ok f(2,3)] show ?thesis by blast
qed

lemma heap_live_bounds:
  assumes "heap_ok h" and "(p, m) \<in> heap_live h"
  shows "heap_ptr h + 12 \<le> p \<and> p + m \<le> heap_ptr h + heap_end h \<and> 4 \<le> m \<and> 4 dvd p"
proof -
  from assms(1) obtain bs where rep: "heap_rep h bs" by (auto simp: heap_ok_def)
  note R = heap_repD [OF rep]
  from assms(2) rep have live: "(p, m) \<in> live_from (heap_ptr h) bs" by (simp add: heap_live_eq)
  from live_split [OF this] obtain xs n ys where "bs = xs @ (True, n) # ys" "p = heap_ptr h + span xs + 12" by blast
  with R(2,9) span_dvd [of xs] have "4 dvd p" by (simp add: dvd_add)
  with live_from_bounds [OF R(2) live] R(5) show ?thesis by simp
qed

interpretation heap_alloc: allocator "\<lambda>n (h :: 'x heap_scheme). rt_malloc (heap_end h) code n h"
  "\<lambda>p h. rt_free code (Some p) h" heap_live heap_ok heap_area max_request
  for code :: "'x heap_scheme heap_code"
proof unfold_locales
  fix h h' :: "'x heap_scheme" and n p m
  assume ok: "heap_ok h"
  then obtain bs where rep: "heap_rep h bs" by (auto simp: heap_ok_def)
  note fuel = fuel_enough [OF rep]
  show "\<exists>r h'. rt_malloc (heap_end h) code n h = Some (r, h') \<and> heap_ok h' \<and> heap_area h' = heap_area h"
    by (rule malloc_cases [OF ok rep fuel, where n = n and code = code])
      (use ok heap_ok_world [OF ok] in \<open>auto simp: heap_area_def same_world_sel\<close>)
  show "heap_live h' = heap_live h" if "rt_malloc (heap_end h) code n h = Some (None, h')"
    by (rule malloc_cases [OF ok rep fuel, where n = n and code = code]) (use that in auto)
  show "\<exists>m. heap_live h' = insert (p, m) (heap_live h) \<and> (p, m) \<notin> heap_live h \<and> unat n \<le> m"
    if "rt_malloc (heap_end h) code n h = Some (Some p, h')" and "unat n \<le> max_request"
  proof (rule malloc_cases [OF ok rep fuel, where n = n and code = code])
    fix xs k ys h2
    assume "bs = xs @ (False, k) # ys" "need n + 12 \<le> k"
      "rt_malloc (heap_end h) code n h = Some (Some (heap_ptr h + span xs + 12), h2)"
      "heap_rep h2 (xs @ taken (need n) k ys)" "same_world h2 h"
    with that(1) malloc_live [OF ok rep, of xs k ys n h2]
    have "\<exists>m. heap_live h' = insert (p, m) (heap_live h) \<and> (p, m) \<notin> heap_live h \<and> need n \<le> m" by auto
    moreover have "unat n \<le> need n"
      using that(2) align_up_ge(1) [of "unat n"] by (simp add: need_def RT_ALIGN_up max_request_def)
    ultimately show ?thesis by (meson le_trans)
  qed (use that in auto)
  show "apart (heap_live h)"
    using live_from_apart [OF heap_repD(2) [OF rep]] by (simp add: heap_live_eq [OF rep])
  assume live: "(p, m) \<in> heap_live h"
  from free_live [OF ok live, of code]
  show "\<exists>h'. rt_free code (Some p) h = Some h' \<and> heap_ok h' \<and> heap_area h' = heap_area h \<and>
      heap_live h' = heap_live h - {(p, m)}"
    by (auto simp: heap_area_def same_world_sel)
  show "0 < m" "fst (heap_area h) \<le> p \<and> p + m \<le> snd (heap_area h) \<and> 4 dvd p"
    using heap_live_bounds [OF ok live] by (auto simp: heap_area_def)
qed

end
