(* ===== verification/Mem_Behaviour.thy ===== *)
theory Mem_Behaviour
  imports Mem_Correct
begin

text \<open>The claims on \<^verbatim>\<open>mem.c\<close>.\<close>

section \<open>Start-up\<close>

text \<open>An area of at least 36 bytes between its aligned ends gives a heap with one free block.\<close>

lemma heap_init_rep:
  assumes nest: "rt_interrupt_nest h = 0"
    and size: "unat (RT_ALIGN b) + 36 \<le> unat (RT_ALIGN_DOWN e)" and top: "used_mem h = 0"
  shows "\<exists>h'. rt_system_heap_init b e h = Some h' \<and>
    heap_rep h' [(False, unat (RT_ALIGN_DOWN e) - unat (RT_ALIGN b) - 12)] \<and> heap_ptr h' = unat (RT_ALIGN b) \<and>
    rt_interrupt_nest h' = 0 \<and> rt_malloc_hook h' = rt_malloc_hook h \<and> rt_free_hook h' = rt_free_hook h"
proof -
  let ?b = "RT_ALIGN b" and ?e = "RT_ALIGN_DOWN e"
  have lt: "unat ?e < 2 ^ 32" using unsigned_less [of ?e, where ?'a = nat] by simp
  have ge: "24 < ?e" "?b \<le> ?e - 24"
  proof -
    show "24 < ?e" using size by (simp add: word_less_nat_alt)
    then have "unat (?e - 24) = unat ?e - 24" by (simp add: unat_sub word_le_nat_alt word_less_nat_alt)
    then show "?b \<le> ?e - 24" using size by (simp add: word_le_nat_alt)
  qed
  have sz: "unat (?e - ?b - 24) = unat ?e - unat ?b - 24"
  proof -
    have be: "?b \<le> ?e" using size by (simp add: word_le_nat_alt)
    then have "unat (?e - ?b) = unat ?e - unat ?b" by (rule unat_sub)
    moreover from this size have "24 \<le> ?e - ?b" by (simp add: word_le_nat_alt)
    ultimately show ?thesis by (simp add: unat_sub)
  qed
  let ?n = "unat ?e - unat ?b - 12"
  have w: "wadd (unat ?e - unat ?b - 24) 12 = ?n" using lt size by simp
  have dv: "4 dvd unat ?b" "4 dvd unat ?e" by (rule RT_ALIGN_dvd) (simp add: unat_RT_ALIGN_DOWN)
  then have "4 dvd ?n" by (simp add: dvd_diff_nat)
  moreover have "24 \<le> ?n" "unat ?b + ?n + 12 \<le> 2 ^ 32" "unat ?e - unat ?b - 24 + 12 = ?n"
    using size lt by simp_all
  ultimately show ?thesis
    using nest ge dv top
    by (auto simp: rt_system_heap_init_def sz w Let_def heap_rep_def put_header_def at_end_def hdr_def)
qed

definition heap_zero :: heap where
  "heap_zero = kernel.extend kernel_zero (heap.fields None None 0 (\<lambda>_. None) (\<lambda>_. 0) 0 0 0 0 0)"

definition small_heap :: heap where
  "small_heap = (case rt_system_heap_init 0x1000 0x1064 heap_zero of Some h \<Rightarrow> h | None \<Rightarrow> heap_zero)"

definition no_hooks :: "heap heap_code" where
  "no_hooks = \<lparr>c_malloc_hook = (\<lambda>f p n h. h), c_free_hook = (\<lambda>f p h. h)\<rparr>"

lemma heap_zero_fields [simp]:
  "rt_interrupt_nest heap_zero = 0" "rt_malloc_hook heap_zero = None" "rt_free_hook heap_zero = None"
  "used_mem heap_zero = 0"
  by (simp_all add: heap_zero_def kernel.defs heap.defs kernel_zero_def)

lemma small_heap_rep: "heap_rep small_heap [(False, 88)]" "heap_ptr small_heap = 0x1000" "heap_ok small_heap"
proof -
  have al: "unat (RT_ALIGN 0x1000) = 0x1000" "unat (RT_ALIGN_DOWN 0x1064) = 0x1064"
    by (simp_all add: unat_RT_ALIGN unat_RT_ALIGN_DOWN)
  from heap_init_rep [of heap_zero "0x1000" "0x1064"] obtain h' where
    h: "rt_system_heap_init 0x1000 0x1064 heap_zero = Some h'" "heap_rep h' [(False, 88)]"
      "heap_ptr h' = 0x1000" "rt_interrupt_nest h' = 0" "rt_malloc_hook h' = None" "rt_free_hook h' = None"
    by (auto simp: al)
  then have "small_heap = h'" by (simp add: small_heap_def)
  with h show "heap_rep small_heap [(False, 88)]" "heap_ptr small_heap = 0x1000" "heap_ok small_heap"
    by (auto simp: heap_ok_def)
qed

section \<open>Claims\<close>

text \<open>
  Claim C9 (safety). On a well-formed heap any sequence of requests (up to \<open>0xFFFFFFFC\<close> bytes each)
  and releases of what is held runs without a failed assertion or endless loop; at any time
  the blocks that are held, each of the size asked for, lie inside the heap, are aligned and do not overlap.
\<close>

theorem heap_sequences:
  fixes h :: "'x heap_scheme"
  assumes "heap_ok h" and "list_all (heap_alloc.bounded) os"
  shows "\<exists>held h'. heap_alloc.perform code os [] h = Some (held, h') \<and> heap_ok h' \<and> apart (set held) \<and>
    (\<forall>(p, n) \<in> set held. heap_ptr h \<le> p \<and> p + n \<le> heap_ptr h + heap_end h \<and> 4 dvd p)"
proof -
  have "heap_alloc.covered [] h" by (simp add: heap_alloc.covered_def)
  from heap_alloc.perform_safe [OF assms(1) this assms(2), of code] obtain held h' where
    H: "heap_alloc.perform code os [] h = Some (held, h')" "heap_ok h'" "heap_alloc.covered held h'"
      "heap_area h' = heap_area h" by blast
  from heap_alloc.covered_apart [OF H(2,3)] H show ?thesis
    by (auto simp: heap_area_def)
qed

theorem heap_sequences_witness:
  "\<exists>held h'. heap_alloc.perform no_hooks
     [Alloc 10, Alloc 20, Free 0x100C, Alloc 8] [] small_heap = Some (held, h') \<and> apart (set held)"
proof -
  have "list_all heap_alloc.bounded [Alloc 10, Alloc 20, Free 0x100C, Alloc 8]"
    by simp (simp add: max_request_def)
  from heap_sequences [OF small_heap_rep(3) this] show ?thesis by blast
qed

text \<open>
  Claim C34 (roundtrip). Releasing a block that has just been allocated brings the chain of
  blocks back, free blocks included: the part that was split off is merged again.
\<close>

theorem malloc_free_roundtrip:
  assumes "heap_ok h" and "heap_rep h bs" and "Suc (length bs) \<le> fuel"
    and "rt_malloc fuel code n h = Some (Some p, h1)"
  shows "\<exists>h2. rt_free code (Some p) h1 = Some h2 \<and> heap_rep h2 bs \<and> heap_ok h2 \<and>
    heap_live h2 = heap_live h \<and> heap_bytes h2 = heap_bytes h"
proof (rule malloc_cases [OF assms(1-3), where n = n and code = code])
  fix xs k ys h'
  assume bs: "bs = xs @ (False, k) # ys" and k: "need n + 12 \<le> k"
    and "rt_malloc fuel code n h = Some (Some (heap_ptr h + span xs + 12), h')"
    and h': "heap_rep h' (xs @ taken (need n) k ys)" and world: "same_world h' h"
  with assms(4) have h1: "h1 = h'" "p = heap_ptr h + span xs + 12" by auto
  obtain m zs where t: "taken (need n) k ys = (True, m) # zs" by (cases "need n + 36 \<le> k") (auto simp: taken_def)
  note W = same_world_sel [OF world]
  from free_rep [OF heap_ok_world [OF assms(1) h' world] h' [unfolded t], of code] obtain h2 where
    f: "rt_free code (Some p) h1 = Some h2" "heap_rep h2 (coalesce xs m zs)" "same_world h2 h'"
    by (auto simp: h1 W)
  note W2 = same_world_sel [OF f(3)]
  have mg: "merged bs" by (rule heap_repD(4) [OF assms(2)])
  have "coalesce xs m zs = bs"
    using mg t by (cases "need n + 36 \<le> k")
      (auto simp: taken_def coalesce_def bs merged_append merged_Cons absorb_cases free_next_def)
  with f W W2 heap_live_eq [OF assms(2)] heap_live_eq [OF f(2)] show ?thesis
    using heap_ok_world [OF heap_ok_world [OF assms(1) h' world] f(2,3)] by (intro exI [of _ h2]) simp
qed (use assms(4) in auto)

theorem malloc_free_roundtrip_witness:
  "\<exists>p h1 h2. rt_malloc 9 no_hooks 10 small_heap = Some (Some p, h1) \<and> rt_free no_hooks (Some p) h1 = Some h2 \<and>
     heap_rep h2 [(False, 88)]"
proof -
  note S = small_heap_rep
  have n: "need 10 = 12" "unat (RT_ALIGN 10) = 12" by (simp_all add: need_def unat_RT_ALIGN)
  have m: "mem_size_aligned small_heap = 76" using heap_repD(6) [OF S(1)] by simp
  have "rt_interrupt_nest small_heap = 0" "rt_malloc_hook small_heap = None" "(10 :: u32) \<noteq> 0"
    "unat (RT_ALIGN 10) \<le> mem_size_aligned small_heap" "Suc (length [(False, 88 :: nat)]) \<le> 9"
    using S(3) by (simp_all add: heap_ok_def n m)
  from malloc_rep [OF S(1) this, of no_hooks] obtain p h1 where
    "rt_malloc 9 no_hooks 10 small_heap = Some (Some p, h1)" by (auto simp: n m)
  moreover from malloc_free_roundtrip [OF S(3,1) _ this] obtain h2 where
    "rt_free no_hooks (Some p) h1 = Some h2" "heap_rep h2 [(False, 88)]" by auto
  ultimately show ?thesis by blast
qed

text \<open>
  A request is refused only when no free block is large enough, with one
  exception: a fitting block at the very end of the heap is not taken when it has exactly
  the size asked for. A refused request changes nothing.
\<close>

theorem malloc_refusal:
  assumes "heap_ok h" and rep: "heap_rep h bs" and "Suc (length bs) \<le> fuel"
    and none: "rt_malloc fuel code n h = Some (None, h')" and "n \<noteq> 0" "unat (RT_ALIGN n) \<le> mem_size_aligned h"
  shows "h' = h \<and> (\<forall>xs k ys. bs = xs @ (False, k) # ys \<longrightarrow> k < need n + 12 \<or> (ys = [] \<and> k = need n + 12))"
proof -
  have H: "rt_interrupt_nest h = 0" "rt_malloc_hook h = None" using assms(1) by (simp_all add: heap_ok_def)
  note R = heap_repD [OF rep]
  from malloc_rep [OF rep H assms(5,6,3), of code] none
  have fit: "fit_in (mem_size_aligned h - need n) (need n) 0 bs = None" and h': "h' = h"
    by (auto split: option.splits)
  have "k < need n + 12 \<or> (ys = [] \<and> k = need n + 12)" if bs: "bs = xs @ (False, k) # ys" for xs k ys
  proof (rule ccontr)
    assume "\<not> ?thesis"
    then have big: "need n + 12 \<le> k" and more: "ys \<noteq> [] \<or> need n + 12 < k" by auto
    from fit_in_None [OF fit bs big] have "mem_size_aligned h - need n \<le> span xs" by simp
    moreover have "ys \<noteq> [] \<Longrightarrow> 16 \<le> span ys" using R(2) bs by (cases ys) auto
    ultimately show False using R(6) bs big more by auto
  qed
  with h' show ?thesis by blast
qed

text \<open>The exception at its worst: the whole of an empty heap cannot be allocated.\<close>

theorem malloc_refusal_witness:
  "rt_malloc 9 no_hooks 76 small_heap = Some (None, small_heap) \<and> (76 :: nat) < need 76 + 12"
proof -
  note S = small_heap_rep
  have n: "need 76 = 76" "unat (RT_ALIGN 76) = 76" by (simp_all add: need_def unat_RT_ALIGN)
  have m: "mem_size_aligned small_heap = 76" using heap_repD(6) [OF S(1)] by simp
  have pre: "rt_interrupt_nest small_heap = 0" "rt_malloc_hook small_heap = None" "(76 :: u32) \<noteq> 0"
    "unat (RT_ALIGN 76) \<le> mem_size_aligned small_heap" "Suc (length [(False, 88 :: nat)]) \<le> 9"
    using S(3) by (simp_all add: heap_ok_def n m)
  have none: "rt_malloc 9 no_hooks 76 small_heap = Some (None, small_heap)"
    using malloc_rep [OF S(1) pre, of no_hooks] by (simp add: n m)
  from malloc_refusal [OF S(3,1) pre(5) none pre(3,4)]
  have "\<forall>xs k ys. [(False, 88 :: nat)] = xs @ (False, k) # ys \<longrightarrow> k < need 76 + 12 \<or> (ys = [] \<and> k = need 76 + 12)" by blast
  with none show ?thesis by (simp add: n)
qed

section \<open>Reallocation\<close>

lemma bytes_irrelevant:
  "heap_rep (h\<lparr>heap_bytes := b\<rparr>) bs = heap_rep h bs" "heap_ok (h\<lparr>heap_bytes := b\<rparr>) = heap_ok h"
  "heap_live (h\<lparr>heap_bytes := b\<rparr>) = heap_live h"
  by (simp_all add: heap_rep_def heap_ok_def heap_live_def)

lemma live_block:
  assumes "heap_rep h bs" and "(p, m) \<in> heap_live h"
  shows "\<exists>xs n ys. bs = xs @ (True, n) # ys \<and> p = heap_ptr h + span xs + 12 \<and> m = n - 12 \<and>
    in_heap p h \<and> header_before p h = Some (span xs) \<and>
    headers h (span xs) = Some (hdr True (span xs + n) (last_of 0 0 xs)) \<and>
    data_size (span xs) (hdr True (span xs + n) (last_of 0 0 xs)) = m"
proof -
  note R = heap_repD [OF assms(1)]
  from assms have "(p, m) \<in> live_from (heap_ptr h) bs" by (simp add: heap_live_eq)
  from live_split [OF this] obtain xs n ys where
    bs: "bs = xs @ (True, n) # ys" and p: "p = heap_ptr h + span xs + 12" and m: "m = n - 12" by blast
  have n: "16 \<le> n" "span xs + n < 2 ^ 32" using R(2,11) bs by simp_all
  then have "in_heap p h" "header_before p h = Some (span xs)"
    "headers h (span xs) = Some (hdr True (span xs + n) (last_of 0 0 xs))"
    "data_size (span xs) (hdr True (span xs + n) (last_of 0 0 xs)) = m"
    using R(1,5) by (simp_all add: bs p m in_heap_def header_before_def data_size_def)
  with bs p m show ?thesis by blast
qed

text \<open>Copying into a fresh block touches no other.\<close>

lemma copy_outside:
  assumes "apart S" and "(q, k) \<in> S" and "(p, m) \<in> S" and "(p, m) \<noteq> (q, k)" and "n \<le> k" and "i < m"
  shows "copy_bytes q r n b (p + i) = b (p + i)"
  using assms by (fastforce simp: apart_def copy_bytes_def)

definition kept :: "'x heap_scheme \<Rightarrow> nat \<Rightarrow> nat \<Rightarrow> nat \<Rightarrow> nat option \<Rightarrow> 'x heap_scheme \<Rightarrow> bool" where
  "kept h p m wanted r h' \<longleftrightarrow> (case r of
     None \<Rightarrow> h' = h
   | Some q \<Rightarrow> \<exists>k \<ge> wanted. heap_live h' = insert (q, k) (heap_live h - {(p, m)}) \<and>
       (\<forall>i < min m wanted. heap_bytes h' (q + i) = heap_bytes h (p + i)) \<and>
       (\<forall>(p2, m2) \<in> heap_live h - {(p, m)}. \<forall>i < m2. heap_bytes h' (p2 + i) = heap_bytes h (p2 + i)))"

lemma realloc_shrinks:
  assumes ok: "heap_ok h" and rep: "heap_rep h (xs @ (True, n) # ys)" and p: "p = heap_ptr h + span xs + 12"
    and new: "4 \<le> new" "4 dvd new" "new + 24 < n - 12"
  shows "\<exists>h'. shrink_block (span xs) (n - 12) new h = Some h' \<and> heap_ok h' \<and> kept h p (n - 12) new (Some p) h'"
proof -
  from shrink_rep [OF rep new] obtain h' where
    h': "shrink_block (span xs) (n - 12) new h = Some h'"
      "heap_rep h' (coalesce (xs @ [(True, new + 12)]) (n - (new + 12)) ys)" "same_world h' h" by blast
  note W = same_world_sel [OF h'(3)]
  let ?a = "heap_ptr h"
  have "live_from ?a (coalesce xs n ys) = live_from ?a (xs @ (True, n) # ys) - {(?a + span xs + 12, n - 12)}"
    by (rule live_release [OF heap_repD(2) [OF rep]])
  then have "heap_live h - {(p, n - 12)} = live_from ?a xs \<union> live_from (?a + span xs + n) ys"
    by (simp only: heap_live_eq [OF rep] p live_coalesce)
  moreover have "heap_live h' = insert (p, new) (live_from ?a xs \<union> live_from (?a + span xs + n) ys)"
    using new(3) by (simp add: heap_live_eq [OF h'(2)] live_coalesce W(2) p add.assoc)
  ultimately have "heap_live h' = insert (p, new) (heap_live h - {(p, n - 12)})" by simp
  with h' heap_ok_world [OF ok h'(2,3)] W(1) show ?thesis
    by (intro exI [of _ h']) (auto simp: kept_def)
qed

lemma realloc_moves:
  assumes ok: "heap_ok h" and live: "(p, m) \<in> heap_live h" and new: "4 dvd unat new" "unat new \<le> max_request"
    and mal: "rt_malloc (heap_end h) code new h = Some (Some q, h1)"
  shows "\<exists>h'. rt_free code (Some p) (h1\<lparr>heap_bytes :=
      copy_bytes q p (if m < unat new then m else unat new) (heap_bytes h1)\<rparr>) = Some h' \<and>
    heap_ok h' \<and> kept h p m (unat new) (Some q) h'"
proof -
  let ?len = "if m < unat new then m else unat new"
  let ?b = "copy_bytes q p ?len (heap_bytes h1)"
  from heap_alloc.alloc_returns [OF ok, of code new] mal have ok1: "heap_ok h1" by auto
  from heap_alloc.alloc_some [OF ok mal new(2)] obtain k where
    k: "heap_live h1 = insert (q, k) (heap_live h)" "(q, k) \<notin> heap_live h" "unat new \<le> k" by blast
  have bytes: "heap_bytes h1 = heap_bytes h"
  proof -
    from ok obtain bs where rep: "heap_rep h bs" by (auto simp: heap_ok_def)
    show ?thesis
      by (rule malloc_cases [OF ok rep fuel_enough [OF rep], where n = new and code = code])
        (use mal same_world_sel(1) in auto)
  qed
  define g where "g = h1\<lparr>heap_bytes := ?b\<rparr>"
  have g: "heap_ok g" "heap_live g = heap_live h1" "heap_bytes g = ?b"
    using ok1 by (simp_all add: g_def bytes_irrelevant)
  have pg: "(p, m) \<in> heap_live g" using live by (simp add: g k)
  from free_live [OF g(1) pg, of code] obtain h' where
    f: "rt_free code (Some p) g = Some h'" "heap_ok h'" "same_world h' g" "heap_live h' = heap_live g - {(p, m)}"
    by blast
  have ap: "apart (heap_live h1)" by (rule heap_alloc.live_apart [OF ok1])
  have "heap_live h' = insert (q, k) (heap_live h - {(p, m)})"
    using k live by (auto simp: f(4) g(2))
  moreover have "heap_bytes h' (q + i) = heap_bytes h (p + i)" if "i < min m (unat new)" for i
    using that by (simp add: same_world_sel(1) [OF f(3)] g(3) copy_bytes_def bytes)
  moreover have "heap_bytes h' (p2 + i) = heap_bytes h (p2 + i)"
    if "(p2, m2) \<in> heap_live h - {(p, m)}" "i < m2" for p2 m2 i
  proof -
    have "?b (p2 + i) = heap_bytes h1 (p2 + i)"
      by (rule copy_outside [OF ap, of q k p2 m2]) (use that k in auto)
    then show ?thesis by (simp add: same_world_sel(1) [OF f(3)] g(3) bytes)
  qed
  ultimately have "kept h p m (unat new) (Some q) h'" 
    unfolding kept_def option.case using k(3) by (intro exI [of _ k]) blast
  with f(1,2) show ?thesis by (auto simp: g_def)
qed

text \<open>The size that a request for \<open>newsize\<close> bytes is rounded to.\<close>

lemma new_size:
  assumes pos: "newsize \<noteq> 0" and bound: "unat newsize \<le> max_request"
  shows "unat (RT_ALIGN newsize) = align_up (unat newsize)"
    and "4 dvd unat (RT_ALIGN newsize)" and "4 \<le> unat (RT_ALIGN newsize)" and "RT_ALIGN newsize \<noteq> 0"
    and "unat (RT_ALIGN newsize) \<le> max_request"
proof -
  let ?new = "RT_ALIGN newsize"
  show un: "unat ?new = align_up (unat newsize)" using bound by (simp add: RT_ALIGN_up max_request_def)
  show d: "4 dvd unat ?new" by (rule RT_ALIGN_dvd)
  have "0 < unat newsize" using pos by (simp add: unat_gt_0)
  with align_up_ge(1) [of "unat newsize"] have "0 < unat ?new" by (simp only: un)
  with d show four: "4 \<le> unat ?new" by (simp add: dvd_imp_le)
  then show "?new \<noteq> 0" by auto
  have "unat ?new < 2 ^ 32" using unsigned_less [of ?new, where ?'a = nat] by simp
  with d show "unat ?new \<le> max_request" unfolding max_request_def by (auto elim!: dvdE)
qed

text \<open>
  Claim C35 (functional). A block that is held is reallocated to a size that is neither 0 nor one of the three greatest
  32-bit numbers (which round up to 0), and that rounded up to four bytes is not above the size of the heap. This returns; it
  either fails and changes nothing, or gives a block of at least the new size, the old one being gone, whose bytes are those
  of the old block up to the smaller of the two sizes; the bytes of all other blocks are kept. (A size that rounds up to 0
  releases the block and gives null.)
\<close>

theorem realloc_keeps_data:
  assumes ok: "heap_ok h" and live: "(p, m) \<in> heap_live h" and pos: "newsize \<noteq> 0"
    and bound: "unat newsize \<le> max_request" and fits: "align_up (unat newsize) \<le> mem_size_aligned h"
  shows "\<exists>r h'. rt_realloc (heap_end h) code (Some p) newsize h = Some (r, h') \<and> heap_ok h' \<and>
    kept h p m (align_up (unat newsize)) r h'"
proof -
  let ?new = "RT_ALIGN newsize"
  note un = new_size(1) [OF pos bound] and new = new_size(2-5) [OF pos bound]
  from ok obtain bs where rep: "heap_rep h bs" and nest: "rt_interrupt_nest h = 0" by (auto simp: heap_ok_def)
  from live_block [OF rep live] obtain xs n ys hd where
    B: "bs = xs @ (True, n) # ys" "p = heap_ptr h + span xs + 12" "m = n - 12" "in_heap p h"
      "header_before p h = Some (span xs)" "headers h (span xs) = Some hd" "data_size (span xs) hd = m" by blast
  have run: "rt_realloc (heap_end h) code (Some p) newsize h =
    (if m = unat ?new then Some (Some p, h)
     else if unat ?new + 24 < m then map_option (Pair (Some p)) (shrink_block (span xs) m (unat ?new) h)
     else (case rt_malloc (heap_end h) code ?new h of
             None \<Rightarrow> None
           | Some (None, h1) \<Rightarrow> Some (None, h1)
           | Some (Some q, h1) \<Rightarrow> map_option (Pair (Some q)) (rt_free code (Some p) (h1\<lparr>heap_bytes :=
               copy_bytes q p (if m < unat ?new then m else unat ?new) (heap_bytes h1)\<rparr>))))"
    unfolding B(7) [symmetric] using nest fits new(3) B(4-6) by (simp add: rt_realloc_def Let_def un)
  consider "m = unat ?new" | "m \<noteq> unat ?new" "unat ?new + 24 < m" | "m \<noteq> unat ?new" "\<not> unat ?new + 24 < m" by blast
  then show ?thesis
  proof cases
    case 1
    with live have "kept h p m (unat ?new) (Some p) h" by (auto simp: kept_def intro!: exI [of _ m])
    with 1 ok show ?thesis by (simp add: run flip: un)
  next
    case 2
    then have "unat ?new + 24 < n - 12" by (simp add: B(3))
    from realloc_shrinks [OF ok rep [unfolded B(1)] B(2) new(2,1) this] 2 show ?thesis
      by (auto simp: run B(3) simp flip: un)
  next
    case 3
    from heap_alloc.alloc_returns [OF ok, of code ?new] obtain r h1 where
      mal: "rt_malloc (heap_end h) code ?new h = Some (r, h1)" "heap_ok h1" by blast
    show ?thesis
    proof (cases r)
      case None
      have "h1 = h"
        by (rule malloc_cases [OF ok rep fuel_enough [OF rep], where n = ?new and code = code])
          (use mal None in auto)
      with 3 mal None show ?thesis by (auto simp: run kept_def)
    next
      case (Some q)
      from realloc_moves [OF ok live new(1,4) mal(1) [unfolded Some]] 3 mal Some show ?thesis
        by (auto simp: run simp flip: un)
    qed
  qed
qed

theorem realloc_keeps_data_witness:
  "\<exists>p h1 r h2. rt_malloc 9 no_hooks 10 small_heap = Some (Some p, h1) \<and>
     rt_realloc (heap_end h1) no_hooks (Some p) 40 h1 = Some (r, h2) \<and> kept h1 p 12 40 r h2"
proof -
  note S = small_heap_rep
  have n: "need 10 = 12" "unat (RT_ALIGN 10) = 12" by (simp_all add: need_def unat_RT_ALIGN)
  have m: "mem_size_aligned small_heap = 76" using heap_repD(6) [OF S(1)] by simp
  have "rt_interrupt_nest small_heap = 0" "rt_malloc_hook small_heap = None" "(10 :: u32) \<noteq> 0"
    "unat (RT_ALIGN 10) \<le> mem_size_aligned small_heap" "Suc (length [(False, 88 :: nat)]) \<le> 9"
    using S(3) by (simp_all add: heap_ok_def n m)
  from malloc_rep [OF S(1) this, of no_hooks] obtain p h1 where
    h1: "rt_malloc 9 no_hooks 10 small_heap = Some (Some p, h1)" "p = 0x100C"
      "heap_rep h1 (taken 12 88 [])" "same_world h1 small_heap"
    by (auto simp: n m S(2) Cons_eq_append_conv)
  have ok: "heap_ok h1" by (rule heap_ok_world [OF S(3) h1(3,4)])
  have t: "taken 12 88 [] = [(True, 24), (False, 64)]" by (simp add: taken_def)
  have live: "(p, 12) \<in> heap_live h1"
    using heap_live_eq [OF h1(3)] same_world_sel(2) [OF h1(4)] by (simp add: t S(2) h1(2))
  have au: "align_up (unat (40 :: u32)) = 40" by (simp add: align_up_def)
  have "mem_size_aligned h1 = 76" using heap_repD(6) [OF h1(3)] by (simp add: t)
  then have "align_up (unat (40 :: u32)) \<le> mem_size_aligned h1" by (simp only: au)
  from realloc_keeps_data [OF ok live _ _ this, of no_hooks] obtain r h2 where
    "rt_realloc (heap_end h1) no_hooks (Some p) 40 h1 = Some (r, h2)" "kept h1 p 12 (align_up (unat (40 :: u32))) r h2"
    by (auto simp: max_request_def)
  with h1(1) show ?thesis by (metis au)
qed

section \<open>At the ends of the range\<close>

text \<open>
  The size is rounded up in 32 bits: a request for one of the three greatest
  sizes, 4294967293 bytes and up, is rounded to zero and served as if one byte was asked for;
  and a call of \<^verbatim>\<open>rt_calloc\<close> whose product is a multiple of \<open>2\<^sup>3\<^sup>2\<close> gives nothing, whatever is free.
\<close>

theorem request_sizes_wrap:
  assumes "0xFFFFFFFD \<le> n" and "12 \<le> mem_size_aligned h"
  shows "rt_malloc fuel code n h = rt_malloc fuel code 1 h \<and>
    (unat a * unat b mod 2 ^ 32 = 0 \<longrightarrow> rt_calloc fuel code a b h = Some (None, h))"
proof
  have big: "0xFFFFFFFD \<le> unat n" using assms(1) by (simp add: word_le_nat_alt)
  have "unat n < 2 ^ 32" using unsigned_less [of n, where ?'a = nat] by simp
  with big have "unat n \<in> {0xFFFFFFFD, 0xFFFFFFFE, 0xFFFFFFFF}" by simp presburger
  then have n: "unat (RT_ALIGN n) = 0" by (auto simp: unat_RT_ALIGN)
  have one: "unat (RT_ALIGN 1) = 4" by (simp add: unat_RT_ALIGN)
  have "n \<noteq> 0" using big by auto
  with assms(2) show "rt_malloc fuel code n h = rt_malloc fuel code 1 h"
    by (simp add: rt_malloc_def Let_def n one)
  have "a * b = 0" if "unat a * unat b mod 2 ^ 32 = 0"
    using that by (simp add: word_unat_eq_iff unat_word_ariths)
  then show "unat a * unat b mod 2 ^ 32 = 0 \<longrightarrow> rt_calloc fuel code a b h = Some (None, h)"
    by (simp add: rt_calloc_def rt_malloc_def)
qed

text \<open>On a heap of 100 bytes more than four billion bytes are granted.\<close>

theorem request_sizes_wrap_witness:
  "\<exists>h1. rt_malloc 9 no_hooks 0xFFFFFFFF small_heap = Some (Some 0x100C, h1) \<and>
     rt_calloc 9 no_hooks 0x10000 0x10000 small_heap = Some (None, small_heap)"
proof -
  note S = small_heap_rep
  have n: "need 1 = 12" "unat (RT_ALIGN 1) = 4" by (simp_all add: need_def unat_RT_ALIGN)
  have m: "mem_size_aligned small_heap = 76" using heap_repD(6) [OF S(1)] by simp
  have "rt_interrupt_nest small_heap = 0" "rt_malloc_hook small_heap = None" "(1 :: u32) \<noteq> 0"
    "unat (RT_ALIGN 1) \<le> mem_size_aligned small_heap" "Suc (length [(False, 88 :: nat)]) \<le> 9"
    using S(3) by (simp_all add: heap_ok_def n m)
  from malloc_rep [OF S(1) this, of no_hooks] obtain h1 where
    "rt_malloc 9 no_hooks 1 small_heap = Some (Some 0x100C, h1)" by (auto simp: n m S(2))
  moreover from request_sizes_wrap [of "0xFFFFFFFF" small_heap 9 no_hooks "0x10000" "0x10000"] m
  have "rt_malloc 9 no_hooks 0xFFFFFFFF small_heap = rt_malloc 9 no_hooks 1 small_heap"
    "rt_calloc 9 no_hooks 0x10000 0x10000 small_heap = Some (None, small_heap)"
    by (simp_all add: word_le_nat_alt)
  ultimately show ?thesis by simp
qed

text \<open>
  A heap of four or eight bytes: the least size of a block is greater than the heap, the
  bound of the search wraps around, and the end marker leads to itself.
\<close>

definition tiny_heap :: "nat \<Rightarrow> 'x heap_scheme \<Rightarrow> bool" where
  "tiny_heap s h \<longleftrightarrow> mem_size_aligned h = s \<and> lfree h = 0 \<and>
     headers h 0 = Some \<lparr>hm_magic = HEAP_MAGIC, hm_used = 0, hm_next = s + 12, hm_prev = 0\<rparr> \<and>
     headers h (s + 12) = Some \<lparr>hm_magic = HEAP_MAGIC, hm_used = 1, hm_next = s + 12, hm_prev = s + 12\<rparr>"

lemma find_fit_tiny:
  assumes "tiny_heap s h" and "s < 12"
  shows "ptr = 0 \<or> ptr = s + 12 \<Longrightarrow> find_fit fuel 12 ptr h = None"
proof (induction fuel arbitrary: ptr)
  case 0
  with assms show ?case
    by (subst find_fit.simps) (auto simp: tiny_heap_def data_size_def wsub_def wadd_def)
next
  case (Suc fuel)
  have "find_fit fuel 12 (s + 12) h = None" by (rule Suc.IH) simp
  with Suc.prems assms show ?case
    by (subst find_fit.simps) (auto simp: tiny_heap_def data_size_def wsub_def wadd_def)
qed

lemma init_tiny:
  assumes "unat (RT_ALIGN_DOWN e) = unat (RT_ALIGN b) + 24 + s" and "0 < s" "s < 12"
    and "rt_system_heap_init b e h = Some h'"
  shows "tiny_heap s h' \<and> (rt_interrupt_nest h' = 0)"
proof -
  let ?b = "RT_ALIGN b" and ?e = "RT_ALIGN_DOWN e"
  have ge: "24 < ?e" "?b \<le> ?e - 24"
  proof -
    show "24 < ?e" using assms(1,2) by (simp add: word_less_nat_alt)
    then have "unat (?e - 24) = unat ?e - 24" by (simp add: unat_sub word_le_nat_alt word_less_nat_alt)
    then show "?b \<le> ?e - 24" using assms(1) by (simp add: word_le_nat_alt)
  qed
  have be: "?b \<le> ?e" using assms(1) by (simp add: word_le_nat_alt)
  then have "unat (?e - ?b) = s + 24" using assms(1) by (simp add: unat_sub)
  moreover from this have "24 \<le> ?e - ?b" by (simp add: word_le_nat_alt)
  ultimately have sz: "unat (?e - ?b - 24) = s" by (simp add: unat_sub)
  have "wadd s 12 = s + 12" using assms(3) by (simp add: wadd_def)
  with assms(4) ge sz show ?thesis
    by (auto simp: rt_system_heap_init_def tiny_heap_def Let_def put_header_def split: if_splits)
qed

text \<open>
  An area that leaves four or eight bytes behind the two headers is
  accepted as a heap, but the first request that is not larger than the heap never
  returns: no number of rounds of the search is enough.
\<close>

theorem tiny_heap_never_returns:
  assumes "unat (RT_ALIGN_DOWN e) = unat (RT_ALIGN b) + 24 + s" and "0 < s" "s < 12"
    and "rt_system_heap_init b e h = Some h'" and "n \<noteq> 0" and "unat (RT_ALIGN n) \<le> s"
  shows "rt_interrupt_nest h' = 0 \<and> rt_malloc fuel code n h' = None"
proof -
  from init_tiny [OF assms(1-4)] have t: "tiny_heap s h'" and i: "rt_interrupt_nest h' = 0" by simp_all
  have "find_fit fuel 12 (lfree h') h' = None"
    by (rule find_fit_tiny [OF t assms(3)]) (use t in \<open>simp add: tiny_heap_def\<close>)
  with t i assms(3,5,6) show ?thesis by (simp add: rt_malloc_def tiny_heap_def Let_def)
qed

theorem tiny_heap_never_returns_witness:
  "\<exists>h'. rt_system_heap_init 0x1000 0x1020 heap_zero = Some h' \<and> (\<forall>fuel. rt_malloc fuel no_hooks 5 h' = None)"
proof -
  have al: "unat (RT_ALIGN 0x1000) = 0x1000" "unat (RT_ALIGN_DOWN 0x1020) = 0x1020" "unat (RT_ALIGN 5) = 8"
    by (simp_all add: unat_RT_ALIGN unat_RT_ALIGN_DOWN)
  obtain h' where h: "rt_system_heap_init 0x1000 0x1020 heap_zero = Some h'"
    by (cases "rt_system_heap_init 0x1000 0x1020 heap_zero")
      (auto simp: rt_system_heap_init_def Let_def split: if_splits)
  from tiny_heap_never_returns [OF _ _ _ h, of 8 5] have "rt_malloc fuel no_hooks 5 h' = None" for fuel
    by (simp add: al)
  with h show ?thesis by blast
qed

end
