(* ===== verification/Sched.thy ===== *)
theory Sched
  imports Idle "HOL-Library.Monad_Syntax"
begin

text \<open>
  \<^verbatim>\<open>scheduler.c\<close> for one core and 32 priorities. Row \<open>p\<close> of the table is the list of the
  ready threads of priority \<open>p\<close>, the next to run first; bit \<open>p\<close> of the group says that it is not
  empty. The list node of a thread is in a row, in the list of an IPC object
  (\<open>suspend_thread\<close>, by the object's address), or alone.

  A switch of contexts is an entry of \<open>switches\<close>: from here on the new thread runs. What the
  old thread does after \<^verbatim>\<open>rt_schedule\<close> returns it does when it is the current thread again.
\<close>

section \<open>State\<close>

abbreviation RT_THREAD_PRIORITY_MAX :: nat where "RT_THREAD_PRIORITY_MAX \<equiv> 32"

abbreviation RT_THREAD_INIT :: u8 where "RT_THREAD_INIT \<equiv> 0"
abbreviation RT_THREAD_READY :: u8 where "RT_THREAD_READY \<equiv> 1"
abbreviation RT_THREAD_SUSPEND :: u8 where "RT_THREAD_SUSPEND \<equiv> 2"
abbreviation RT_THREAD_RUNNING :: u8 where "RT_THREAD_RUNNING \<equiv> 3"
abbreviation RT_THREAD_CLOSE :: u8 where "RT_THREAD_CLOSE \<equiv> 4"
abbreviation RT_THREAD_STAT_MASK :: u8 where "RT_THREAD_STAT_MASK \<equiv> 7"
abbreviation RT_THREAD_STAT_YIELD :: u8 where "RT_THREAD_STAT_YIELD \<equiv> 8"

datatype switch = SWITCH nat nat | SWITCH_INTERRUPT nat nat | SWITCH_TO nat

record sched = kernel +
  rt_thread_priority_table :: "nat list list"
  rt_thread_ready_priority_group :: u32
  rt_scheduler_lock_nest :: u16
  rt_current_thread :: "nat option"
  rt_current_priority :: u8
  rt_scheduler_hook :: "fptr option"
  rt_scheduler_switch_hook :: "fptr option"
  rt_thread_suspend_hook :: "fptr option"
  rt_thread_resume_hook :: "fptr option"
  rt_thread_inited_hook :: "fptr option"
  suspend_thread :: "nat \<Rightarrow> nat list"
  switches :: "switch list"

text \<open>
  Code behind function pointers: with one argument, and the scheduler hook with two; and the
  address of \<^verbatim>\<open>rt_thread_timeout\<close>.
\<close>

record 'w scode =
  s_timeout :: fptr
  s_code :: "fptr \<Rightarrow> nat \<Rightarrow> 'w \<Rightarrow> 'w"
  s_code2 :: "fptr \<Rightarrow> nat \<Rightarrow> nat \<Rightarrow> 'w \<Rightarrow> 'w"

definition rt_scheduler_sethook :: "fptr option \<Rightarrow> 'x sched_scheme \<Rightarrow> 'x sched_scheme" where
  "rt_scheduler_sethook hook s = s\<lparr>rt_scheduler_hook := hook\<rparr>"

definition rt_scheduler_switch_sethook :: "fptr option \<Rightarrow> 'x sched_scheme \<Rightarrow> 'x sched_scheme" where
  "rt_scheduler_switch_sethook hook s = s\<lparr>rt_scheduler_switch_hook := hook\<rparr>"

section \<open>The lowest bit\<close>

text \<open>The instructions of \<^verbatim>\<open>cpuport.c\<close> (\<^verbatim>\<open>RT_USING_CPU_FFS\<close>).\<close>

definition RBIT :: "u32 \<Rightarrow> u32" where "RBIT w = word_reverse w"

definition CLZ :: "u32 \<Rightarrow> nat" where
  "CLZ w = length (takeWhile Not (rev (map (bit w) [0..<32])))"

definition rt_ffs :: "u32 \<Rightarrow> nat" where
  "rt_ffs r0 = (if r0 = 0 then 0 else CLZ (RBIT r0) + 1)"

text \<open>The table and the search of \<^verbatim>\<open>kservice.c\<close>, for processors without them.\<close>

definition bitmap_row :: "nat list" where
  "bitmap_row = [0, 1, 0, 2, 0, 1, 0, 3, 0, 1, 0, 2, 0, 1, 0]"

definition lowest_bit_bitmap :: "nat list" where
  "lowest_bit_bitmap = 0 # bitmap_row @ 4 # bitmap_row @ 5 # bitmap_row @ 4 # bitmap_row @
     6 # bitmap_row @ 4 # bitmap_row @ 5 # bitmap_row @ 4 # bitmap_row @
     7 # bitmap_row @ 4 # bitmap_row @ 5 # bitmap_row @ 4 # bitmap_row @
     6 # bitmap_row @ 4 # bitmap_row @ 5 # bitmap_row @ 4 # bitmap_row"

definition rt_ffs_table :: "u32 \<Rightarrow> nat" where
  "rt_ffs_table value =
    (if value = 0 then 0
     else if value AND 0xFF \<noteq> 0 then lowest_bit_bitmap ! unat (value AND 0xFF) + 1
     else if value AND 0xFF00 \<noteq> 0 then lowest_bit_bitmap ! unat (drop_bit 8 (value AND 0xFF00)) + 9
     else if value AND 0xFF0000 \<noteq> 0 then lowest_bit_bitmap ! unat (drop_bit 16 (value AND 0xFF0000)) + 17
     else lowest_bit_bitmap ! unat (drop_bit 24 (value AND 0xFF000000)) + 25)"

section \<open>Access to threads\<close>

definition upd_thread :: "nat \<Rightarrow> (rt_thread \<Rightarrow> rt_thread) \<Rightarrow> 'x sched_scheme \<Rightarrow> 'x sched_scheme" where
  "upd_thread t f s = s\<lparr>threads := (threads s)(t := map_option f (threads s t))\<rparr>"

abbreviation state_of :: "rt_thread \<Rightarrow> u8" where
  "state_of th \<equiv> th_stat th AND RT_THREAD_STAT_MASK"

definition set_stat :: "u8 \<Rightarrow> rt_thread \<Rightarrow> rt_thread" where
  "set_stat v th = th\<lparr>th_stat := v OR (th_stat th AND NOT RT_THREAD_STAT_MASK)\<rparr>"

text \<open>\<^verbatim>\<open>rt_list_remove(&(thread->tlist))\<close>\<close>

definition tlist_remove :: "nat \<Rightarrow> 'x sched_scheme \<Rightarrow> 'x sched_scheme" where
  "tlist_remove t s = s\<lparr>rt_thread_priority_table := map (remove1 t) (rt_thread_priority_table s),
     suspend_thread := (\<lambda>a. remove1 t (suspend_thread s a))\<rparr>"

section \<open>The ready table\<close>

text \<open>Below, \<open>None\<close> also stands for an access outside the table.\<close>

definition rt_schedule_insert_thread :: "nat \<Rightarrow> 'x sched_scheme \<Rightarrow> 'x sched_scheme option" where
  "rt_schedule_insert_thread t s = (case threads s t of
     None \<Rightarrow> None
   | Some th \<Rightarrow>
       let (temp, s1) = rt_hw_interrupt_disable s
       in if rt_current_thread s1 = Some t
          then Some (rt_hw_interrupt_enable temp (upd_thread t (set_stat RT_THREAD_RUNNING) s1))
          else let s2 = upd_thread t (set_stat RT_THREAD_READY) s1;
                   p = unat (current_priority th);
                   table = rt_thread_priority_table s2
               in if length table \<le> p then None
                  else let s3 = s2\<lparr>rt_thread_priority_table := table[p := table ! p @ [t]],
                         rt_thread_ready_priority_group := rt_thread_ready_priority_group s2 OR number_mask th\<rparr>
                       in Some (rt_hw_interrupt_enable temp s3))"

definition rt_schedule_remove_thread :: "nat \<Rightarrow> 'x sched_scheme \<Rightarrow> 'x sched_scheme option" where
  "rt_schedule_remove_thread t s = (case threads s t of
     None \<Rightarrow> None
   | Some th \<Rightarrow>
       let (level, s1) = rt_hw_interrupt_disable s;
           s2 = tlist_remove t s1;
           p = unat (current_priority th);
           table = rt_thread_priority_table s2
       in if length table \<le> p then None
          else let s3 = (if table ! p = []
                     then s2\<lparr>rt_thread_ready_priority_group :=
                            rt_thread_ready_priority_group s2 AND NOT (number_mask th)\<rparr>
                     else s2)
               in Some (rt_hw_interrupt_enable level s3))"

definition scheduler_get_highest :: "'x sched_scheme \<Rightarrow> (nat \<times> nat) option" where
  "scheduler_get_highest s =
    (let n = rt_ffs (rt_thread_ready_priority_group s)
     in if n = 0 \<or> length (rt_thread_priority_table s) < n then None
        else (case rt_thread_priority_table s ! (n - 1) of [] \<Rightarrow> None | t # _ \<Rightarrow> Some (t, n - 1)))"

section \<open>Scheduling\<close>

text \<open>
  A damaged stack is reported and, when interrupts were off before, the system stops in
  \<^verbatim>\<open>while (level);\<close>. The warning for a stack that is nearly full has no effect.
\<close>

definition scheduler_stack_check :: "nat \<Rightarrow> 'x sched_scheme \<Rightarrow> 'x sched_scheme option" where
  "scheduler_stack_check t s = (case threads s t of
     None \<Rightarrow> None
   | Some th \<Rightarrow>
       if stack_low th \<noteq> 0x23 \<or> th_sp th \<le> stack_addr th \<or> stack_addr th + unat (stack_size th) < th_sp th
       then let (level, s1) = rt_hw_interrupt_disable s in if level \<noteq> 0 then None else Some s1
       else Some s)"

definition rt_system_scheduler_init :: "'x sched_scheme \<Rightarrow> 'x sched_scheme" where
  "rt_system_scheduler_init s =
     s\<lparr>rt_scheduler_lock_nest := 0, rt_thread_priority_table := replicate RT_THREAD_PRIORITY_MAX [],
       rt_thread_ready_priority_group := 0\<rparr>"

definition rt_system_scheduler_start :: "'x sched_scheme \<Rightarrow> 'x sched_scheme option" where
  "rt_system_scheduler_start s = do {
     (to, _) \<leftarrow> scheduler_get_highest s;
     s1 \<leftarrow> rt_schedule_remove_thread to (s\<lparr>rt_current_thread := Some to\<rparr>);
     let s2 = upd_thread to (\<lambda>th. th\<lparr>th_stat := RT_THREAD_RUNNING\<rparr>) s1
     in Some (s2\<lparr>switches := switches s2 @ [SWITCH_TO to]\<rparr>) }"

text \<open>The part of \<^verbatim>\<open>rt_schedule\<close> that changes the current thread.\<close>

definition switch_thread :: "'x sched_scheme scode \<Rightarrow> nat \<Rightarrow> nat \<Rightarrow> nat \<Rightarrow> bool \<Rightarrow>
    'x sched_scheme \<Rightarrow> 'x sched_scheme option" where
  "switch_thread code from to highest need_insert s = do {
     let s1 = s\<lparr>rt_current_priority := of_nat highest, rt_current_thread := Some to\<rparr>;
     let s2 = (case rt_scheduler_hook s1 of None \<Rightarrow> s1 | Some f \<Rightarrow> s_code2 code f from to s1);
     s3 \<leftarrow> (if need_insert then rt_schedule_insert_thread from s2 else Some s2);
     s4 \<leftarrow> rt_schedule_remove_thread to s3;
     let s5 = upd_thread to (set_stat RT_THREAD_RUNNING) s4;
     s6 \<leftarrow> scheduler_stack_check to s5;
     if rt_interrupt_nest s6 = 0
     then let s7 = rt_object_hook_call (s_code code) (rt_scheduler_switch_hook s6) from s6
          in Some (s7\<lparr>switches := switches s7 @ [SWITCH from to]\<rparr>)
     else Some (s6\<lparr>switches := switches s6 @ [SWITCH_INTERRUPT from to]\<rparr>) }"

text \<open>Whether a running thread stays: a better priority, or the same and it does not yield.\<close>

definition keeps_running :: "rt_thread \<Rightarrow> nat \<Rightarrow> bool" where
  "keeps_running th highest \<longleftrightarrow> unat (current_priority th) < highest \<or>
     (unat (current_priority th) = highest \<and> th_stat th AND RT_THREAD_STAT_YIELD = 0)"

definition rt_schedule :: "'x sched_scheme scode \<Rightarrow> 'x sched_scheme \<Rightarrow> 'x sched_scheme option" where
  "rt_schedule code s =
    (let (level, s1) = rt_hw_interrupt_disable s
     in if rt_scheduler_lock_nest s1 \<noteq> 0 \<or> rt_thread_ready_priority_group s1 = 0
        then Some (rt_hw_interrupt_enable level s1)
        else do {
          (best, highest) \<leftarrow> scheduler_get_highest s1;
          cur \<leftarrow> rt_current_thread s1;
          th \<leftarrow> threads s1 cur;
          let running = (state_of th = RT_THREAD_RUNNING);
          let need_insert = (running \<and> \<not> keeps_running th highest);
          let to = (if running \<and> keeps_running th highest then cur else best);
          let s2 = (if running
            then upd_thread cur (\<lambda>th. th\<lparr>th_stat := th_stat th AND NOT RT_THREAD_STAT_YIELD\<rparr>) s1 else s1);
          s3 \<leftarrow> (if to \<noteq> cur then switch_thread code cur to highest need_insert s2
                 else map_option (upd_thread cur (set_stat RT_THREAD_RUNNING))
                        (rt_schedule_remove_thread cur s2));
          Some (rt_hw_interrupt_enable level s3) })"

section \<open>The scheduler lock\<close>

definition rt_enter_critical :: "'x sched_scheme \<Rightarrow> 'x sched_scheme" where
  "rt_enter_critical s =
    (let (level, s1) = rt_hw_interrupt_disable s
     in rt_hw_interrupt_enable level (s1\<lparr>rt_scheduler_lock_nest := rt_scheduler_lock_nest s1 + 1\<rparr>))"

definition rt_exit_critical :: "'x sched_scheme scode \<Rightarrow> 'x sched_scheme \<Rightarrow> 'x sched_scheme option" where
  "rt_exit_critical code s =
    (let (level, s1) = rt_hw_interrupt_disable s;
         nest = rt_scheduler_lock_nest s1 - 1;
         s2 = s1\<lparr>rt_scheduler_lock_nest := nest\<rparr>
     in if sint nest \<le> 0
        then let s3 = rt_hw_interrupt_enable level (s2\<lparr>rt_scheduler_lock_nest := 0\<rparr>)
             in if rt_current_thread s3 \<noteq> None then rt_schedule code s3 else Some s3
        else Some (rt_hw_interrupt_enable level s2))"

definition rt_critical_level :: "'x sched_scheme \<Rightarrow> u16" where
  "rt_critical_level s = rt_scheduler_lock_nest s"

end
