(* ===== verification/Thread.thy ===== *)
theory Thread
  imports Sched Timer
begin

text \<open>
  \<^verbatim>\<open>thread.c\<close> for one core without signals and modules, and the tick interrupt of
  \<^verbatim>\<open>clock.c\<close>. An operation that waits is split where \<^verbatim>\<open>rt_schedule\<close> gives the
  processor away: it ends in \<open>Waiting\<close>, and what the thread does when it runs again is a
  definition of its own.
\<close>

datatype 'r progress = Returned 'r | Waiting

definition rt_thread_suspend_sethook :: "fptr option \<Rightarrow> 'x sched_scheme \<Rightarrow> 'x sched_scheme" where
  "rt_thread_suspend_sethook hook s = s\<lparr>rt_thread_suspend_hook := hook\<rparr>"

definition rt_thread_resume_sethook :: "fptr option \<Rightarrow> 'x sched_scheme \<Rightarrow> 'x sched_scheme" where
  "rt_thread_resume_sethook hook s = s\<lparr>rt_thread_resume_hook := hook\<rparr>"

definition rt_thread_inited_sethook :: "fptr option \<Rightarrow> 'x sched_scheme \<Rightarrow> 'x sched_scheme" where
  "rt_thread_inited_sethook hook s = s\<lparr>rt_thread_inited_hook := hook\<rparr>"

text \<open>\<^verbatim>\<open>&thread->thread_timer\<close>: the offset of the field in the structure.\<close>

definition thread_timer :: "nat \<Rightarrow> nat" where "thread_timer t = t + 76"

definition is_thread :: "nat \<Rightarrow> 'x sched_scheme \<Rightarrow> bool" where
  "is_thread t s \<longleftrightarrow> rt_object_get_type t s = Some (class_val RT_Object_Class_Thread)"

definition rt_thread_self :: "'x sched_scheme \<Rightarrow> nat option" where
  "rt_thread_self s = rt_current_thread s"

section \<open>Initialisation\<close>

text \<open>
  The first stack pointer (\<^verbatim>\<open>cpuport.c\<close>): the frame holds a flag, r4 to r11 and the
  registers of an exception, 17 words; their contents are not modelled.
\<close>

definition rt_hw_stack_init :: "nat \<Rightarrow> nat" where
  "rt_hw_stack_init tos = (tos + 4) div 8 * 8 - 68"

definition thread_init :: "'x sched_scheme scode \<Rightarrow> nat \<Rightarrow> string \<Rightarrow> fptr \<Rightarrow> nat \<Rightarrow> nat \<Rightarrow> u32 \<Rightarrow> u8 \<Rightarrow> u32 \<Rightarrow>
    'x sched_scheme \<Rightarrow> (rt_err \<times> 'x sched_scheme) option" where
  "thread_init code t name entry parameter stack_start sz priority tick s = do {
     RT_ASSERT (unat priority < RT_THREAD_PRIORITY_MAX);
     let th = (case threads s t of None \<Rightarrow> thread_zero | Some th \<Rightarrow> th);
     let th' = th\<lparr>th_entry := entry, th_parameter := parameter, stack_addr := stack_start,
           stack_size := sz, stack_low := 0x23,
           th_sp := rt_hw_stack_init (stack_start + unat sz - 4),
           init_priority := priority, current_priority := priority, number_mask := 0,
           th_init_tick := tick, remaining_tick := tick, th_error := RT_EOK,
           th_stat := RT_THREAD_INIT, th_cleanup := None, user_data := 0\<rparr>;
     s1 \<leftarrow> rt_timer_init (s_code code) (thread_timer t) (name_field name) (s_timeout code) t 0 0
             (s\<lparr>threads := (threads s)(t \<mapsto> th')\<rparr>);
     Some (RT_EOK, rt_object_hook_call (s_code code) (rt_thread_inited_hook s1) t s1) }"

definition rt_thread_init :: "'x sched_scheme scode \<Rightarrow> nat \<Rightarrow> string \<Rightarrow> fptr \<Rightarrow> nat \<Rightarrow> nat \<Rightarrow> u32 \<Rightarrow> u8 \<Rightarrow> u32 \<Rightarrow>
    'x sched_scheme \<Rightarrow> (rt_err \<times> 'x sched_scheme) option" where
  "rt_thread_init code t name entry parameter stack_start sz priority tick s = do {
     s1 \<leftarrow> rt_object_init (s_code code) t (class_val RT_Object_Class_Thread) name s;
     thread_init code t name entry parameter stack_start sz priority tick s1 }"

text \<open>\<open>mem\<close> and \<open>stack\<close> are what the two calls of \<^verbatim>\<open>RT_KERNEL_MALLOC\<close> return; memory is cleared.\<close>

definition rt_thread_create :: "'x sched_scheme scode \<Rightarrow> nat option \<Rightarrow> nat option \<Rightarrow> string \<Rightarrow> fptr \<Rightarrow> nat \<Rightarrow>
    u32 \<Rightarrow> u8 \<Rightarrow> u32 \<Rightarrow> 'x sched_scheme \<Rightarrow> (nat option \<times> 'x sched_scheme) option" where
  "rt_thread_create code mem stack name entry parameter sz priority tick s = do {
     (r, s1) \<leftarrow> rt_object_allocate (s_code code) mem (class_val RT_Object_Class_Thread) name s;
     case r of None \<Rightarrow> Some (None, s1)
     | Some t \<Rightarrow> (case stack of
         None \<Rightarrow> map_option (Pair None) (rt_object_delete (s_code code) t s1)
       | Some stack_start \<Rightarrow> map_option (\<lambda>(_, s2). (Some t, s2))
           (thread_init code t name entry parameter stack_start sz priority tick
             (s1\<lparr>threads := (threads s1)(t \<mapsto> thread_zero)\<rparr>))) }"

section \<open>Suspension\<close>

definition rt_thread_suspend :: "'x sched_scheme scode \<Rightarrow> nat \<Rightarrow> 'x sched_scheme \<Rightarrow>
    (rt_err \<times> 'x sched_scheme) option" where
  "rt_thread_suspend code t s = do {
     RT_ASSERT (is_thread t s);
     th \<leftarrow> threads s t;
     let stat = state_of th;
     if stat \<noteq> RT_THREAD_READY \<and> stat \<noteq> RT_THREAD_RUNNING then Some (- RT_ERROR, s)
     else do {
       let (temp, s1) = rt_hw_interrupt_disable s;
       RT_ASSERT (stat = RT_THREAD_RUNNING \<longrightarrow> rt_thread_self s1 = Some t);
       s2 \<leftarrow> rt_schedule_remove_thread t s1;
       let s3 = upd_thread t (set_stat RT_THREAD_SUSPEND) s2;
       (_, s4) \<leftarrow> rt_timer_stop (s_code code) (thread_timer t) s3;
       let s5 = rt_hw_interrupt_enable temp s4;
       Some (RT_EOK, rt_object_hook_call (s_code code) (rt_thread_suspend_hook s5) t s5) } }"

definition rt_thread_resume :: "'x sched_scheme scode \<Rightarrow> nat \<Rightarrow> 'x sched_scheme \<Rightarrow>
    (rt_err \<times> 'x sched_scheme) option" where
  "rt_thread_resume code t s = do {
     RT_ASSERT (is_thread t s);
     th \<leftarrow> threads s t;
     if state_of th \<noteq> RT_THREAD_SUSPEND then Some (- RT_ERROR, s)
     else do {
       let (temp, s1) = rt_hw_interrupt_disable s;
       let s2 = tlist_remove t s1;
       (_, s3) \<leftarrow> rt_timer_stop (s_code code) (thread_timer t) s2;
       s4 \<leftarrow> rt_schedule_insert_thread t s3;
       let s5 = rt_hw_interrupt_enable temp s4;
       Some (RT_EOK, rt_object_hook_call (s_code code) (rt_thread_resume_hook s5) t s5) } }"

definition rt_thread_timeout :: "'x sched_scheme scode \<Rightarrow> nat \<Rightarrow> 'x sched_scheme \<Rightarrow> 'x sched_scheme option" where
  "rt_thread_timeout code t s = do {
     th \<leftarrow> threads s t;
     RT_ASSERT (state_of th = RT_THREAD_SUSPEND);
     RT_ASSERT (is_thread t s);
     let (temp, s1) = rt_hw_interrupt_disable s;
     let s2 = upd_thread t (\<lambda>th. th\<lparr>th_error := - RT_ETIMEOUT\<rparr>) s1;
     s3 \<leftarrow> rt_schedule_insert_thread t (tlist_remove t s2);
     rt_schedule code (rt_hw_interrupt_enable temp s3) }"

section \<open>Start and end\<close>

definition rt_thread_startup :: "'x sched_scheme scode \<Rightarrow> nat \<Rightarrow> 'x sched_scheme \<Rightarrow>
    (rt_err \<times> 'x sched_scheme) option" where
  "rt_thread_startup code t s = do {
     th \<leftarrow> threads s t;
     RT_ASSERT (state_of th = RT_THREAD_INIT);
     RT_ASSERT (is_thread t s);
     let s1 = upd_thread t (\<lambda>th. th\<lparr>current_priority := init_priority th,
           number_mask := push_bit (unat (init_priority th)) 1, th_stat := RT_THREAD_SUSPEND\<rparr>) s;
     (_, s2) \<leftarrow> rt_thread_resume code t s1;
     s3 \<leftarrow> (if rt_thread_self s2 \<noteq> None then rt_schedule code s2 else Some s2);
     Some (RT_EOK, s3) }"

definition thread_cleanup_execute :: "'x sched_scheme scode \<Rightarrow> nat \<Rightarrow> 'x sched_scheme \<Rightarrow> 'x sched_scheme option" where
  "thread_cleanup_execute code t s = do {
     th \<leftarrow> threads s t;
     let (level, s1) = rt_hw_interrupt_disable s;
     Some (rt_hw_interrupt_enable level (rt_object_hook_call (s_code code) (th_cleanup th) t s1)) }"

text \<open>What both ways of ending a thread from outside have in common.\<close>

definition thread_stop :: "'x sched_scheme scode \<Rightarrow> nat \<Rightarrow> 'x sched_scheme \<Rightarrow> 'x sched_scheme option" where
  "thread_stop code t s = do {
     th \<leftarrow> threads s t;
     s1 \<leftarrow> (if state_of th \<noteq> RT_THREAD_INIT then rt_schedule_remove_thread t s else Some s);
     s2 \<leftarrow> thread_cleanup_execute code t s1;
     map_option snd (rt_timer_detach (s_code code) (thread_timer t) s2) }"

definition set_close :: "nat \<Rightarrow> 'x sched_scheme \<Rightarrow> 'x sched_scheme" where
  "set_close t = upd_thread t (\<lambda>th. th\<lparr>th_stat := RT_THREAD_CLOSE\<rparr>)"

definition rt_thread_detach :: "'x sched_scheme scode \<Rightarrow> nat \<Rightarrow> 'x sched_scheme \<Rightarrow>
    (rt_err \<times> 'x sched_scheme) option" where
  "rt_thread_detach code t s = do {
     RT_ASSERT (is_thread t s);
     RT_ASSERT (rt_object_is_systemobject t s = Some True);
     th \<leftarrow> threads s t;
     if state_of th = RT_THREAD_CLOSE then Some (RT_EOK, s)
     else do {
       s1 \<leftarrow> thread_stop code t s;
       let s2 = set_close t s1;
       if rt_object_is_systemobject t s2 = Some True
       then Some (RT_EOK, rt_object_detach (s_code code) t s2)
       else let (lock, s3) = rt_hw_interrupt_disable s2
            in Some (RT_EOK, rt_hw_interrupt_enable lock (rt_thread_defunct_enqueue t s3)) } }"

definition rt_thread_delete :: "'x sched_scheme scode \<Rightarrow> nat \<Rightarrow> 'x sched_scheme \<Rightarrow>
    (rt_err \<times> 'x sched_scheme) option" where
  "rt_thread_delete code t s = do {
     RT_ASSERT (is_thread t s);
     RT_ASSERT (rt_object_is_systemobject t s = Some False);
     th \<leftarrow> threads s t;
     if state_of th = RT_THREAD_CLOSE then Some (RT_EOK, s)
     else do {
       s1 \<leftarrow> thread_stop code t s;
       let (lock, s2) = rt_hw_interrupt_disable s1;
       Some (RT_EOK, rt_hw_interrupt_enable lock (rt_thread_defunct_enqueue t (set_close t s2))) } }"

text \<open>A thread that returns from its entry function ends up here.\<close>

definition thread_exit :: "'x sched_scheme scode \<Rightarrow> 'x sched_scheme \<Rightarrow> 'x sched_scheme option" where
  "thread_exit code s = do {
     t \<leftarrow> rt_thread_self s;
     let (level, s1) = rt_hw_interrupt_disable s;
     s2 \<leftarrow> thread_cleanup_execute code t s1;
     s3 \<leftarrow> rt_schedule_remove_thread t s2;
     (_, s4) \<leftarrow> rt_timer_detach (s_code code) (thread_timer t) (set_close t s3);
     s5 \<leftarrow> Some (if rt_object_is_systemobject t s4 = Some True
       then rt_object_detach (s_code code) t s4 else rt_thread_defunct_enqueue t s4);
     map_option (rt_hw_interrupt_enable level) (rt_schedule code s5) }"

section \<open>Yield and sleep\<close>

definition rt_thread_yield :: "'x sched_scheme scode \<Rightarrow> 'x sched_scheme \<Rightarrow> (rt_err \<times> 'x sched_scheme) option" where
  "rt_thread_yield code s = do {
     t \<leftarrow> rt_thread_self s;
     let (lock, s1) = rt_hw_interrupt_disable s;
     let s2 = upd_thread t (\<lambda>th. th\<lparr>remaining_tick := th_init_tick th,
           th_stat := th_stat th OR RT_THREAD_STAT_YIELD\<rparr>) s1;
     s3 \<leftarrow> rt_schedule code s2;
     Some (RT_EOK, rt_hw_interrupt_enable lock s3) }"

text \<open>\<^verbatim>\<open>RT_TIMER_CTRL_SET_TIME\<close> (0) and the start of the thread's timer.\<close>

definition start_thread_timer :: "'x sched_scheme scode \<Rightarrow> nat \<Rightarrow> u32 \<Rightarrow> 'x sched_scheme \<Rightarrow> 'x sched_scheme option" where
  "start_thread_timer code t tick s = do {
     (_, _, s1) \<leftarrow> rt_timer_control (thread_timer t) 0 tick s;
     map_option snd (rt_timer_start (s_code code) (thread_timer t) s1) }"

text \<open>The rest of a sleep: a timeout is what was asked for, not an error.\<close>

definition sleep_wake :: "nat \<Rightarrow> 'x sched_scheme \<Rightarrow> rt_err \<times> 'x sched_scheme" where
  "sleep_wake t s = (RT_EOK, upd_thread t
     (\<lambda>th. if th_error th = - RT_ETIMEOUT then th\<lparr>th_error := RT_EOK\<rparr> else th) s)"

text \<open>Go on with the rest of an operation if the processor was not given away.\<close>

definition go_on :: "nat \<Rightarrow> ('x sched_scheme \<Rightarrow> ('r \<times> 'x sched_scheme) option) \<Rightarrow> 'x sched_scheme \<Rightarrow>
    ('r progress \<times> 'x sched_scheme) option" where
  "go_on t rest s = (if rt_current_thread s = Some t
     then map_option (\<lambda>(r, s'). (Returned r, s')) (rest s) else Some (Waiting, s))"

definition suspend_for :: "'x sched_scheme scode \<Rightarrow> nat \<Rightarrow> u32 \<Rightarrow> 'x sched_scheme \<Rightarrow> 'x sched_scheme option" where
  "suspend_for code t tick s = do {
     (_, s1) \<leftarrow> rt_thread_suspend code t s;
     start_thread_timer code t tick s1 }"

definition rt_thread_sleep :: "'x sched_scheme scode \<Rightarrow> u32 \<Rightarrow> 'x sched_scheme \<Rightarrow>
    (rt_err progress \<times> 'x sched_scheme) option" where
  "rt_thread_sleep code tick s = do {
     t \<leftarrow> rt_thread_self s;
     RT_ASSERT (is_thread t s);
     let (temp, s1) = rt_hw_interrupt_disable s;
     s2 \<leftarrow> suspend_for code t tick s1;
     s3 \<leftarrow> rt_schedule code (rt_hw_interrupt_enable temp s2);
     go_on t (\<lambda>s. Some (sleep_wake t s)) s3 }"

definition rt_thread_delay :: "'x sched_scheme scode \<Rightarrow> u32 \<Rightarrow> 'x sched_scheme \<Rightarrow>
    (rt_err progress \<times> 'x sched_scheme) option" where
  "rt_thread_delay = rt_thread_sleep"

text \<open>\<open>tick\<close> is the word the pointer refers to; its new value is returned beside the progress.\<close>

definition rt_thread_delay_until :: "'x sched_scheme scode \<Rightarrow> u32 \<Rightarrow> u32 \<Rightarrow> 'x sched_scheme \<Rightarrow>
    (u32 \<times> rt_err progress \<times> 'x sched_scheme) option" where
  "rt_thread_delay_until code tick inc_tick s = do {
     t \<leftarrow> rt_thread_self s;
     RT_ASSERT (is_thread t s);
     let (level, s1) = rt_hw_interrupt_disable s;
     let cur_tick = rt_tick_get s1;
     if cur_tick - tick < inc_tick
     then do {
       let tick' = tick + inc_tick;
       s2 \<leftarrow> suspend_for code t (tick' - cur_tick) s1;
       s3 \<leftarrow> rt_schedule code (rt_hw_interrupt_enable level s2);
       map_option (Pair tick') (go_on t (\<lambda>s. Some (sleep_wake t s)) s3) }
     else Some (cur_tick, Returned RT_EOK, rt_hw_interrupt_enable level s1) }"

definition rt_thread_mdelay :: "'x sched_scheme scode \<Rightarrow> int \<Rightarrow> 'x sched_scheme \<Rightarrow>
    (rt_err progress \<times> 'x sched_scheme) option" where
  "rt_thread_mdelay code ms = rt_thread_sleep code (rt_tick_from_millisecond ms)"

section \<open>Control\<close>

definition set_priority :: "u8 \<Rightarrow> rt_thread \<Rightarrow> rt_thread" where
  "set_priority p th = th\<lparr>current_priority := p, number_mask := push_bit (unat p) 1\<rparr>"

definition change_priority :: "nat \<Rightarrow> u8 \<Rightarrow> 'x sched_scheme \<Rightarrow> 'x sched_scheme option" where
  "change_priority t p s = do {
     th \<leftarrow> threads s t;
     let (temp, s1) = rt_hw_interrupt_disable s;
     s2 \<leftarrow> (if state_of th = RT_THREAD_READY
       then do {
         s3 \<leftarrow> rt_schedule_remove_thread t s1;
         rt_schedule_insert_thread t (upd_thread t (set_priority p) s3) }
       else Some (upd_thread t (set_priority p) s1));
     Some (rt_hw_interrupt_enable temp s2) }"

text \<open>The commands: 0 start-up, 1 close, 2 change of the priority to the byte \<open>arg\<close>.\<close>

definition rt_thread_control :: "'x sched_scheme scode \<Rightarrow> nat \<Rightarrow> nat \<Rightarrow> u8 \<Rightarrow> 'x sched_scheme \<Rightarrow>
    (rt_err \<times> 'x sched_scheme) option" where
  "rt_thread_control code t cmd arg s = do {
     RT_ASSERT (is_thread t s);
     if cmd = 2 then map_option (Pair RT_EOK) (change_priority t arg s)
     else if cmd = 0 then rt_thread_startup code t s
     else if cmd = 1 then do {
       (err, s1) \<leftarrow> (if rt_object_is_systemobject t s = Some True
         then rt_thread_detach code t s else rt_thread_delete code t s);
       map_option (Pair err) (rt_schedule code s1) }
     else Some (RT_EOK, s) }"

definition rt_thread_find :: "string option \<Rightarrow> 'x sched_scheme \<Rightarrow> nat option option" where
  "rt_thread_find name = rt_object_find name (class_val RT_Object_Class_Thread)"

section \<open>The tick interrupt\<close>

definition rt_tick_increase :: "nat \<Rightarrow> 'x sched_scheme scode \<Rightarrow> 'x sched_scheme \<Rightarrow> 'x sched_scheme option" where
  "rt_tick_increase fuel code s = do {
     let (level, s1) = rt_hw_interrupt_disable s;
     let s2 = s1\<lparr>rt_tick := rt_tick s1 + 1\<rparr>;
     t \<leftarrow> rt_thread_self s2;
     th \<leftarrow> threads s2 t;
     let s3 = upd_thread t (\<lambda>th. th\<lparr>remaining_tick := remaining_tick th - 1\<rparr>) s2;
     s4 \<leftarrow> (if remaining_tick th = 1
       then rt_schedule code (rt_hw_interrupt_enable level (upd_thread t (\<lambda>th. th\<lparr>remaining_tick := th_init_tick th,
              th_stat := th_stat th OR RT_THREAD_STAT_YIELD\<rparr>) s3))
       else Some (rt_hw_interrupt_enable level s3));
     rt_timer_check fuel (s_code code) s4 }"

end
