(* ===== verification/Sched_Bits.thy ===== *)
theory Sched_Bits
  imports Sched
begin

text \<open>
  The lowest bit of the ready group: the processor's instructions and the table of
  \<^verbatim>\<open>kservice.c\<close> agree, and both give the least priority whose bit is set.
\<close>

lemma length_takeWhile_first:
  assumes "n < length xs" and "xs ! n" and "\<forall>i < n. \<not> xs ! i"
  shows "length (takeWhile Not xs) = n"
proof -
  have "takeWhile Not xs = take n xs" by (rule takeWhile_eq_take_P_nth) (use assms in auto)
  with assms(1) show ?thesis by simp
qed

lemma rt_ffs_eq:
  assumes "bit v n" and "\<forall>i < n. \<not> bit v i"
  shows "rt_ffs v = Suc n"
proof -
  have n: "n < 32" using bit_imp_le_length [OF assms(1)] by simp
  have "rev (map (bit (word_reverse v)) [0..<32]) = map (bit v) [0..<32]"
    by (rule nth_equalityI) (auto simp: rev_nth bit_word_reverse_iff)
  then have "CLZ (RBIT v) = length (takeWhile Not (map (bit v) [0..<32]))"
    by (simp add: CLZ_def RBIT_def)
  also have "\<dots> = n" by (rule length_takeWhile_first) (use assms n in auto)
  finally show ?thesis using assms(1) by (auto simp: rt_ffs_def)
qed

lemma lowest_bit_exists: "v \<noteq> 0 \<Longrightarrow> \<exists>n < 32. bit (v :: u32) n \<and> (\<forall>i < n. \<not> bit v i)"
proof -
  assume "v \<noteq> 0"
  then obtain m where "bit v m" by (auto simp: bit_eq_iff)
  then have "bit v (LEAST i. bit v i)" by (rule LeastI)
  moreover from bit_imp_le_length [OF this] have "(LEAST i. bit v i) < 32" by simp
  ultimately show ?thesis using not_less_Least [of _ "bit v"] by blast
qed

lemma rt_ffs_0 [simp]: "rt_ffs v = 0 \<longleftrightarrow> v = 0"
  by (simp add: rt_ffs_def)

fun all_lowest :: "nat \<Rightarrow> nat list \<Rightarrow> bool" where
  "all_lowest b [] \<longleftrightarrow> True"
| "all_lowest b (k # ks) \<longleftrightarrow> k < 8 \<and> b mod 2 ^ k = 0 \<and> odd (b div 2 ^ k) \<and> all_lowest (Suc b) ks"

lemma all_lowest_nth:
  "all_lowest b ks \<Longrightarrow> i < length ks \<Longrightarrow>
   ks ! i < 8 \<and> (b + i) mod 2 ^ (ks ! i) = 0 \<and> odd ((b + i) div 2 ^ (ks ! i))"
proof (induction ks arbitrary: b i)
  case (Cons k ks)
  show ?case
  proof (cases i)
    case (Suc j)
    with Cons.IH [of "Suc b" j] Cons.prems show ?thesis by simp
  qed (use Cons.prems in auto)
qed simp

lemma bitmap_bytes: "all_lowest 1 (tl lowest_bit_bitmap)" "length lowest_bit_bitmap = 256"
  by (simp_all add: lowest_bit_bitmap_def bitmap_row_def)

lemma bitmap_byte:
  assumes "b < 256" and "b \<noteq> 0"
  shows "lowest_bit_bitmap ! b < 8 \<and> bit b (lowest_bit_bitmap ! b) \<and> (\<forall>i < lowest_bit_bitmap ! b. \<not> bit b i)"
proof -
  let ?k = "lowest_bit_bitmap ! b"
  have "tl lowest_bit_bitmap ! (b - 1) = ?k" using assms bitmap_bytes(2) by (simp add: nth_tl)
  with all_lowest_nth [OF bitmap_bytes(1), of "b - 1"] assms bitmap_bytes(2)
  have k: "?k < 8" "b mod 2 ^ ?k = 0" "odd (b div 2 ^ ?k)" by simp_all
  from k(2) have "take_bit ?k b = 0" by (simp add: take_bit_eq_mod)
  then have "\<not> bit b i" if "i < ?k" for i
    using that bit_take_bit_iff [of ?k b i] by simp
  with k show ?thesis by (simp add: bit_iff_odd)
qed

lemma byte_at:
  fixes v :: u32
  assumes m: "unat b < 256" "b \<noteq> 0" and b: "\<And>i. bit b i \<longleftrightarrow> i < 8 \<and> bit v (k + i)"
    and low: "\<forall>i < k. \<not> bit v i"
  shows "rt_ffs v = lowest_bit_bitmap ! unat (b :: u32) + Suc k"
proof -
  have "unat b \<noteq> 0" using m(2) by (simp add: unat_eq_0)
  from bitmap_byte [OF m(1) this] have
    B: "bit b (lowest_bit_bitmap ! unat b)" "\<forall>i < lowest_bit_bitmap ! unat b. \<not> bit b i" "lowest_bit_bitmap ! unat b < 8"
    by (simp_all add: bit_unsigned_iff)
  have "rt_ffs v = Suc (k + lowest_bit_bitmap ! unat b)"
  proof (rule rt_ffs_eq)
    show "bit v (k + lowest_bit_bitmap ! unat b)" using B(1) by (simp add: b)
    show "\<forall>i < k + lowest_bit_bitmap ! unat b. \<not> bit v i"
    proof (intro allI impI)
      fix i assume "i < k + lowest_bit_bitmap ! unat b"
      then consider "i < k" | j where "i = k + j" "j < lowest_bit_bitmap ! unat b"
        by (metis less_or_eq_imp_le linorder_not_less nat_add_left_cancel_less le_Suc_ex)
      then show "\<not> bit v i" using low B(2,3) b by cases auto
    qed
  qed
  then show ?thesis by simp
qed

lemma byte_masks:
  "(0xFF :: u32) = push_bit 0 (mask 8)" "(0xFF00 :: u32) = push_bit 8 (mask 8)"
  "(0xFF0000 :: u32) = push_bit 16 (mask 8)" "(0xFF000000 :: u32) = push_bit 24 (mask 8)"
  by (simp_all add: push_bit_eq_mult mask_eq_exp_minus_1)

lemma byte_bit:
  fixes v :: u32
  assumes "k \<le> 24"
  shows "bit (drop_bit k (v AND push_bit k (mask 8))) i \<longleftrightarrow> i < 8 \<and> bit v (k + i)"
  using assms by (auto simp: bit_simps)

lemma byte_small:
  fixes v :: u32
  assumes "k \<le> 24"
  shows "unat (drop_bit k (v AND push_bit k (mask 8))) < 256"
proof -
  have "drop_bit k (v AND push_bit k (mask 8)) = take_bit 8 (drop_bit k v)"
    using assms by (intro bit_eqI) (auto simp: bit_simps)
  moreover have "unat (take_bit 8 (drop_bit k v)) < 2 ^ 8"
    by (simp only: unsigned_take_bit_eq take_bit_nat_less_exp)
  ultimately show ?thesis by simp
qed

lemma byte_zero:
  fixes v :: u32
  assumes "k \<le> 24" and "v AND push_bit k (mask 8) = 0" and "i < 8"
  shows "\<not> bit v (k + i)"
proof -
  have "\<not> bit (drop_bit k (v AND push_bit k (mask 8))) i" by (simp add: assms(2))
  with byte_bit [OF assms(1), of v i] assms(3) show ?thesis by simp
qed

lemma byte_nonzero:
  fixes v :: u32
  assumes "k \<le> 24" and "v AND push_bit k (mask 8) \<noteq> 0"
  shows "drop_bit k (v AND push_bit k (mask 8)) \<noteq> 0"
proof -
  from assms(2) obtain j where "bit (v AND push_bit k (mask 8)) j" by (auto simp: bit_eq_iff)
  then have "bit (drop_bit k (v AND push_bit k (mask 8))) (j - k)"
    by (auto simp: bit_simps)
  then show ?thesis by auto
qed

text \<open>The two ways to find the lowest bit agree.\<close>

lemma rt_ffs_table_eq: "rt_ffs_table v = rt_ffs v"
proof -
  note B = byte_at [OF byte_small byte_nonzero byte_bit]
  have low: "\<forall>i < k + 8. \<not> bit v i" if "\<forall>i < k. \<not> bit v i" "k \<le> 24" "v AND push_bit k (mask 8) = 0" for k
  proof (intro allI impI)
    fix i assume "i < k + 8"
    then consider "i < k" | "i - k < 8" "i = k + (i - k)" by linarith
    then show "\<not> bit v i" using that(1) byte_zero [OF that(2,3), of "i - k"] by cases auto
  qed
  have l0: "\<forall>i < 0. \<not> bit v i" by simp
  show ?thesis
  proof (cases "v = 0")
    case False
    show ?thesis
    proof (cases "v AND push_bit 0 (mask 8) = 0")
      case z0: True
      note l1 = low [OF l0 _ z0, simplified]
      show ?thesis
      proof (cases "v AND push_bit 8 (mask 8) = 0")
        case z1: True
        note l2 = low [OF l1 _ z1, simplified]
        show ?thesis
        proof (cases "v AND push_bit 16 (mask 8) = 0")
          case z2: True
          note l3 = low [OF l2 _ z2, simplified]
          have z3: "v AND push_bit 24 (mask 8) \<noteq> 0"
          proof
            assume "v AND push_bit 24 (mask 8) = 0"
            from low [OF l3 _ this] have "\<forall>i < 32. \<not> bit v i" by simp
            with lowest_bit_exists [OF False] show False by blast
          qed
          show ?thesis using False z0 z1 z2 z3 B [OF _ _ z3 _ l3]
            by (simp add: rt_ffs_table_def byte_masks)
        qed (use False z0 z1 B [OF _ _ _ _ l2] in \<open>simp add: rt_ffs_table_def byte_masks\<close>)
      qed (use False z0 B [OF _ _ _ _ l1] in \<open>simp add: rt_ffs_table_def byte_masks\<close>)
    qed (use False B [OF _ _ _ _ l0] in \<open>simp add: rt_ffs_table_def byte_masks\<close>)
  qed (simp add: rt_ffs_table_def)
qed

end
