(* ===== verification/Sched_Inv.thy ===== *)
theory Sched_Inv
  imports Sched_Bits
begin

text \<open>
  The invariant of the ready table. \<open>L\<close> is the set of threads that are on the way from one list to
  another: they are in no list, and their state is not bound to one.
\<close>

section \<open>The invariant\<close>

definition ready_at :: "nat set \<Rightarrow> 'x sched_scheme \<Rightarrow> nat \<Rightarrow> nat \<Rightarrow> bool" where
  "ready_at L s p t \<longleftrightarrow> t \<notin> L \<and>
     (\<exists>th. threads s t = Some th \<and> state_of th = RT_THREAD_READY \<and> unat (current_priority th) = p)"

definition sched_inv :: "nat set \<Rightarrow> 'x sched_scheme \<Rightarrow> bool" where
  "sched_inv L s \<longleftrightarrow>
     length (rt_thread_priority_table s) = 32 \<and>
     (\<forall>p < 32. bit (rt_thread_ready_priority_group s) p \<longleftrightarrow> rt_thread_priority_table s ! p \<noteq> []) \<and>
     (\<forall>p < 32. distinct (rt_thread_priority_table s ! p)) \<and>
     (\<forall>p < 32. \<forall>t. t \<in> set (rt_thread_priority_table s ! p) \<longleftrightarrow> ready_at L s p t) \<and>
     (\<forall>t th. threads s t = Some th \<longrightarrow> state_of th \<noteq> RT_THREAD_INIT \<longrightarrow>
        unat (current_priority th) < 32 \<and> number_mask th = 2 ^ unat (current_priority th)) \<and>
     (\<forall>a. distinct (suspend_thread s a)) \<and>
     (\<forall>a t. t \<in> set (suspend_thread s a) \<longrightarrow> t \<notin> L \<and>
        (\<exists>th. threads s t = Some th \<and> state_of th = RT_THREAD_SUSPEND)) \<and>
     (\<forall>a b t. t \<in> set (suspend_thread s a) \<longrightarrow> t \<in> set (suspend_thread s b) \<longrightarrow> a = b) \<and>
     (\<forall>t th. threads s t = Some th \<longrightarrow> t \<notin> L \<longrightarrow> state_of th = RT_THREAD_RUNNING \<longrightarrow>
        rt_current_thread s = Some t) \<and>
     (\<forall>c. rt_current_thread s = Some c \<longrightarrow> threads s c \<noteq> None)"

lemma sched_invD:
  assumes "sched_inv L s"
  shows "length (rt_thread_priority_table s) = 32"
    and "\<And>p. p < 32 \<Longrightarrow> bit (rt_thread_ready_priority_group s) p \<longleftrightarrow> rt_thread_priority_table s ! p \<noteq> []"
    and "\<And>p. p < 32 \<Longrightarrow> distinct (rt_thread_priority_table s ! p)"
    and "\<And>p t. p < 32 \<Longrightarrow> t \<in> set (rt_thread_priority_table s ! p) \<longleftrightarrow> ready_at L s p t"
    and "\<And>t th. threads s t = Some th \<Longrightarrow> state_of th \<noteq> RT_THREAD_INIT \<Longrightarrow>
        unat (current_priority th) < 32 \<and> number_mask th = 2 ^ unat (current_priority th)"
    and "\<And>a. distinct (suspend_thread s a)"
    and "\<And>a t. t \<in> set (suspend_thread s a) \<Longrightarrow> t \<notin> L \<and>
        (\<exists>th. threads s t = Some th \<and> state_of th = RT_THREAD_SUSPEND)"
    and "\<And>a b t. t \<in> set (suspend_thread s a) \<Longrightarrow> t \<in> set (suspend_thread s b) \<Longrightarrow> a = b"
    and "\<And>t th. threads s t = Some th \<Longrightarrow> t \<notin> L \<Longrightarrow> state_of th = RT_THREAD_RUNNING \<Longrightarrow>
        rt_current_thread s = Some t"
    and "\<And>c. rt_current_thread s = Some c \<Longrightarrow> threads s c \<noteq> None"
  using assms unfolding sched_inv_def by blast+

text \<open>The invariant reads five fields.\<close>

lemma sched_inv_cong:
  assumes "rt_thread_priority_table s' = rt_thread_priority_table s"
    and "rt_thread_ready_priority_group s' = rt_thread_ready_priority_group s"
    and "threads s' = threads s" and "suspend_thread s' = suspend_thread s"
    and "rt_current_thread s' = rt_current_thread s"
  shows "sched_inv L s' = sched_inv L s"
  by (simp add: sched_inv_def ready_at_def assms)

section \<open>The state of a thread\<close>

lemma set_stat_sel [simp]:
  "current_priority (set_stat v th) = current_priority th" "number_mask (set_stat v th) = number_mask th"
  "th_error (set_stat v th) = th_error th"
  "init_priority (set_stat v th) = init_priority th" "event_set (set_stat v th) = event_set th"
  "event_info (set_stat v th) = event_info th"
  by (simp_all add: set_stat_def)

lemma state_set_stat: "v AND 7 = v \<Longrightarrow> state_of (set_stat v th) = v"
  unfolding set_stat_def by (simp add: bit.conj_disj_distrib2 and.assoc)

lemma state_set_stat_values [simp]:
  "state_of (set_stat RT_THREAD_READY th) = RT_THREAD_READY"
  "state_of (set_stat RT_THREAD_SUSPEND th) = RT_THREAD_SUSPEND"
  "state_of (set_stat RT_THREAD_RUNNING th) = RT_THREAD_RUNNING"
  "state_of (set_stat RT_THREAD_CLOSE th) = RT_THREAD_CLOSE"
  by (rule state_set_stat; simp)+

lemma upd_thread_sel [simp]:
  "threads (upd_thread t f s) = (threads s)(t := map_option f (threads s t))"
  "rt_thread_priority_table (upd_thread t f s) = rt_thread_priority_table s"
  "rt_thread_ready_priority_group (upd_thread t f s) = rt_thread_ready_priority_group s"
  "suspend_thread (upd_thread t f s) = suspend_thread s"
  "rt_current_thread (upd_thread t f s) = rt_current_thread s"
  "rt_scheduler_lock_nest (upd_thread t f s) = rt_scheduler_lock_nest s"
  "rt_interrupt_nest (upd_thread t f s) = rt_interrupt_nest s" "primask (upd_thread t f s) = primask s"
  "rt_scheduler_hook (upd_thread t f s) = rt_scheduler_hook s"
  "rt_scheduler_switch_hook (upd_thread t f s) = rt_scheduler_switch_hook s"
  "switches (upd_thread t f s) = switches s" "objects (upd_thread t f s) = objects s"
  "timers (upd_thread t f s) = timers s" "timer_list (upd_thread t f s) = timer_list s"
  by (simp_all add: upd_thread_def)

text \<open>A change that keeps state, priority and mask keeps the invariant.\<close>

lemma sched_inv_upd_other:
  assumes "sched_inv L s"
    and "\<And>th. threads s t = Some th \<Longrightarrow> state_of (f th) = state_of th \<and>
      current_priority (f th) = current_priority th \<and> number_mask (f th) = number_mask th"
  shows "sched_inv L (upd_thread t f s)"
proof (cases "threads s t")
  case None
  then have "threads (upd_thread t f s) = threads s" by auto
  then show ?thesis using assms(1) by (subst sched_inv_cong) auto
next
  case (Some th)
  note I = sched_invD [OF assms(1)] and F = assms(2) [OF Some]
  have ra: "ready_at L (upd_thread t f s) p u = ready_at L s p u" for p u
    using F Some by (auto simp: ready_at_def)
  have sus: "state_of th = RT_THREAD_SUSPEND" if "t \<in> set (suspend_thread s a)" for a
    using I(7) [OF that] Some by auto
  show ?thesis unfolding sched_inv_def ra
    using I F Some sus by (auto split: if_splits)
qed

section \<open>Taking a thread out of its list\<close>

definition removed :: "nat \<Rightarrow> rt_thread \<Rightarrow> 'x sched_scheme \<Rightarrow> 'x sched_scheme" where
  "removed t th s = (tlist_remove t s)\<lparr>rt_thread_ready_priority_group :=
     (if remove1 t (rt_thread_priority_table s ! unat (current_priority th)) = []
      then rt_thread_ready_priority_group s AND NOT (number_mask th)
      else rt_thread_ready_priority_group s)\<rparr>"

lemma removed_sel [simp]:
  "threads (removed t th s) = threads s" "rt_current_thread (removed t th s) = rt_current_thread s"
  "rt_scheduler_lock_nest (removed t th s) = rt_scheduler_lock_nest s"
  "rt_interrupt_nest (removed t th s) = rt_interrupt_nest s" "primask (removed t th s) = primask s"
  "rt_scheduler_hook (removed t th s) = rt_scheduler_hook s"
  "rt_scheduler_switch_hook (removed t th s) = rt_scheduler_switch_hook s"
  "switches (removed t th s) = switches s" "objects (removed t th s) = objects s"
  "timers (removed t th s) = timers s" "timer_list (removed t th s) = timer_list s"
  "suspend_thread (removed t th s) a = remove1 t (suspend_thread s a)"
  "rt_thread_priority_table (removed t th s) = map (remove1 t) (rt_thread_priority_table s)"
  by (simp_all add: removed_def tlist_remove_def)

lemma remove_thread_eq:
  assumes "sched_inv L s" and "threads s t = Some th" and "state_of th \<noteq> RT_THREAD_INIT"
  shows "rt_schedule_remove_thread t s = Some (removed t th s)"
proof -
  note I = sched_invD [OF assms(1)]
  from I(5) [OF assms(2,3)] I(1) have "unat (current_priority th) < length (rt_thread_priority_table s)" by simp
  then show ?thesis
    by (simp add: rt_schedule_remove_thread_def assms(2) irq_defs Let_def removed_def tlist_remove_def)
qed

lemma sched_inv_removed:
  assumes inv: "sched_inv L s" and th: "threads s t = Some th" and st: "state_of th \<noteq> RT_THREAD_INIT"
  shows "sched_inv (insert t L) (removed t th s)"
proof -
  note I = sched_invD [OF inv]
  let ?p = "unat (current_priority th)"
  from I(5) [OF th st] have p: "?p < 32" and m: "number_mask th = 2 ^ ?p" by simp_all
  have row: "rt_thread_priority_table (removed t th s) ! q = remove1 t (rt_thread_priority_table s ! q)"
    if "q < 32" for q using that I(1) by simp
  have other: "remove1 t (rt_thread_priority_table s ! q) = rt_thread_priority_table s ! q"
    if "q < 32" "q \<noteq> ?p" for q
  proof -
    have "\<not> ready_at L s q t" using th that(2) by (auto simp: ready_at_def)
    with I(4) [OF that(1)] have "t \<notin> set (rt_thread_priority_table s ! q)" by simp
    then show ?thesis by (rule remove1_idem)
  qed
  have group: "rt_thread_ready_priority_group (removed t th s) =
      (if remove1 t (rt_thread_priority_table s ! ?p) = []
       then rt_thread_ready_priority_group s AND NOT (2 ^ ?p) else rt_thread_ready_priority_group s)"
    by (simp add: removed_def m)
  have bits: "bit (rt_thread_ready_priority_group (removed t th s)) q \<longleftrightarrow>
      rt_thread_priority_table (removed t th s) ! q \<noteq> []" if q: "q < 32" for q
  proof (cases "q = ?p")
    case True
    show ?thesis
    proof (cases "remove1 t (rt_thread_priority_table s ! ?p) = []")
      case True
      then show ?thesis using \<open>q = ?p\<close> q unfolding row [OF q] by (simp add: group bit_simps del: removed_sel)
    next
      case False
      then have "rt_thread_priority_table s ! ?p \<noteq> []" by auto
      with False show ?thesis using \<open>q = ?p\<close> q I(2) unfolding row [OF q] by (simp add: group del: removed_sel)
    qed
  next
    case False
    then show ?thesis using q I(2) other unfolding row [OF q] by (simp add: group bit_simps del: removed_sel)
  qed
  have rows: "u \<in> set (rt_thread_priority_table (removed t th s) ! q) \<longleftrightarrow>
      ready_at (insert t L) (removed t th s) q u" if q: "q < 32" for q u
    unfolding row [OF q] using I(4) [OF q, of u] I(3) [OF q] by (auto simp: ready_at_def)
  have dist: "distinct (rt_thread_priority_table (removed t th s) ! q)" if q: "q < 32" for q
    unfolding row [OF q] using I(3) [OF q] by simp
  have sus: "set (suspend_thread (removed t th s) a) = set (suspend_thread s a) - {t}" for a
    using I(6) by simp
  show ?thesis unfolding sched_inv_def sus
    apply (intro conjI)
    subgoal using I(1) by simp
    subgoal using bits by blast
    subgoal using dist by blast
    subgoal using rows by blast
    subgoal using I(5) by simp
    subgoal using I(6) by simp
    subgoal using I(7) by auto
    subgoal using I(8) by auto
    subgoal using I(9) by simp
    subgoal using I(10) by simp
    done
qed

text \<open>A thread on the way may take any state that fits a started thread.\<close>

lemma sched_inv_upd_loose:
  assumes "sched_inv L s" and "t \<in> L"
    and "\<And>th. threads s t = Some th \<Longrightarrow> state_of (f th) \<noteq> RT_THREAD_INIT \<Longrightarrow>
      unat (current_priority (f th)) < 32 \<and> number_mask (f th) = 2 ^ unat (current_priority (f th))"
  shows "sched_inv L (upd_thread t f s)"
proof -
  note I = sched_invD [OF assms(1)]
  have ra: "ready_at L (upd_thread t f s) p u = ready_at L s p u" for p u
    using assms(2) by (auto simp: ready_at_def)
  have sus: "t \<notin> set (suspend_thread s a)" for a using I(7) assms(2) by blast
  show ?thesis unfolding sched_inv_def ra
    using I assms(2,3) sus by (auto split: if_splits)
qed

lemma sched_inv_settle:
  assumes "sched_inv L s" and "threads s t = Some th"
    and "state_of th \<in> {RT_THREAD_INIT, RT_THREAD_SUSPEND, RT_THREAD_CLOSE} \<or>
      state_of th = RT_THREAD_RUNNING \<and> rt_current_thread s = Some t"
  shows "sched_inv (L - {t}) s"
proof -
  note I = sched_invD [OF assms(1)]
  have ra: "ready_at (L - {t}) s p u = ready_at L s p u" for p u
    using assms(2,3) by (auto simp: ready_at_def)
  have run: "rt_current_thread s = Some u"
    if "threads s u = Some x" "u \<notin> L - {t}" "state_of x = RT_THREAD_RUNNING" for u x
    using I(9) [of u x] that assms(2,3) by (cases "u = t") auto
  have sus: "u \<notin> L - {t} \<and> (\<exists>x. threads s u = Some x \<and> state_of x = RT_THREAD_SUSPEND)"
    if "u \<in> set (suspend_thread s a)" for a u
    using I(7) [OF that] by simp
  show ?thesis unfolding sched_inv_def ra
    apply (intro conjI)
    subgoal using I(1) by simp
    subgoal using I(2) by simp
    subgoal using I(3) by simp
    subgoal using I(4) by simp
    subgoal using I(5) by simp
    subgoal using I(6) by simp
    subgoal using sus by blast
    subgoal using I(8) by simp
    subgoal using run by blast
    subgoal using I(10) by simp
    done
qed

section \<open>Putting a thread into the ready table\<close>

lemma insert_thread_inv:
  assumes inv: "sched_inv L s" and loose: "t \<in> L" and th: "threads s t = Some th"
    and st: "state_of th \<noteq> RT_THREAD_INIT" and cur: "rt_current_thread s \<noteq> Some t"
  shows "\<exists>s'. rt_schedule_insert_thread t s = Some s' \<and> sched_inv (L - {t}) s' \<and>
    s' = s\<lparr>threads := (threads s)(t \<mapsto> set_stat RT_THREAD_READY th),
      rt_thread_priority_table := (rt_thread_priority_table s)[unat (current_priority th) :=
        rt_thread_priority_table s ! unat (current_priority th) @ [t]],
      rt_thread_ready_priority_group := rt_thread_ready_priority_group s OR number_mask th\<rparr>"
proof -
  note I = sched_invD [OF inv]
  let ?p = "unat (current_priority th)"
  from I(5) [OF th st] have p: "?p < 32" and m: "number_mask th = 2 ^ ?p" by simp_all
  let ?s = "s\<lparr>threads := (threads s)(t \<mapsto> set_stat RT_THREAD_READY th),
      rt_thread_priority_table := (rt_thread_priority_table s)[?p := rt_thread_priority_table s ! ?p @ [t]],
      rt_thread_ready_priority_group := rt_thread_ready_priority_group s OR number_mask th\<rparr>"
  have run: "rt_schedule_insert_thread t s = Some ?s"
    using p I(1) by (simp add: rt_schedule_insert_thread_def th cur irq_defs Let_def upd_thread_def)
  have row: "rt_thread_priority_table ?s ! q =
      (if q = ?p then rt_thread_priority_table s ! q @ [t] else rt_thread_priority_table s ! q)" if "q < 32" for q
    using that I(1) by (simp add: nth_list_update)
  have tn: "t \<notin> set (rt_thread_priority_table s ! q)" if "q < 32" for q
    using I(4) [OF that, of t] loose by (simp add: ready_at_def)
  have sus: "t \<notin> set (suspend_thread s a)" for a using I(7) loose by blast
  have bits: "bit (rt_thread_ready_priority_group ?s) q \<longleftrightarrow> rt_thread_priority_table ?s ! q \<noteq> []" if "q < 32" for q
    unfolding row [OF that] using that I(2) [OF that] by (auto simp: m bit_simps)
  have rows: "u \<in> set (rt_thread_priority_table ?s ! q) \<longleftrightarrow> ready_at (L - {t}) ?s q u" if q: "q < 32" for q u
    unfolding row [OF q] using I(4) [OF q, of u] tn [OF q] loose by (auto simp: ready_at_def)
  have dist: "distinct (rt_thread_priority_table ?s ! q)" if "q < 32" for q
    unfolding row [OF that] using I(3) [OF that] tn [OF that] by auto
  have "sched_inv (L - {t}) ?s" unfolding sched_inv_def
    apply (intro conjI)
    subgoal using I(1) by simp
    subgoal using bits by blast
    subgoal using dist by blast
    subgoal using rows by blast
    subgoal using I(5) p m by (auto split: if_splits)
    subgoal using I(6) by simp
    subgoal using I(7) sus by (auto split: if_splits)
    subgoal using I(8) by simp
    subgoal using I(9) by (auto split: if_splits)
    subgoal using I(10) by auto
    done
  with run show ?thesis by blast
qed

lemma insert_current_inv:
  assumes inv: "sched_inv L s" and loose: "t \<in> L" and th: "threads s t = Some th"
    and st: "state_of th \<noteq> RT_THREAD_INIT" and cur: "rt_current_thread s = Some t"
  shows "\<exists>s'. rt_schedule_insert_thread t s = Some s' \<and> sched_inv (L - {t}) s' \<and>
    s' = s\<lparr>threads := (threads s)(t \<mapsto> set_stat RT_THREAD_RUNNING th)\<rparr>"
proof -
  note I = sched_invD [OF inv]
  let ?s = "upd_thread t (set_stat RT_THREAD_RUNNING) s"
  have run: "rt_schedule_insert_thread t s = Some ?s"
    by (simp add: rt_schedule_insert_thread_def th cur irq_defs Let_def upd_thread_def)
  have "sched_inv L ?s"
    by (rule sched_inv_upd_loose [OF inv loose]) (use I(5) [OF th st] th in auto)
  then have "sched_inv (L - {t}) ?s"
    by (rule sched_inv_settle [where th = "set_stat RT_THREAD_RUNNING th"]) (use th cur in auto)
  with run show ?thesis by (intro exI [of _ ?s]) (simp add: upd_thread_def th)
qed

text \<open>The pointer to the current thread may move when the old one does not run any more.\<close>

lemma sched_inv_current:
  assumes "sched_inv L s" and "threads s t \<noteq> None"
    and "\<And>c th. rt_current_thread s = Some c \<Longrightarrow> threads s c = Some th \<Longrightarrow>
      c \<in> L \<or> state_of th \<noteq> RT_THREAD_RUNNING"
  shows "sched_inv L (s\<lparr>rt_current_thread := Some t\<rparr>)"
proof -
  note I = sched_invD [OF assms(1)]
  have ra: "ready_at L (s\<lparr>rt_current_thread := Some t\<rparr>) p u = ready_at L s p u" for p u
    by (auto simp: ready_at_def)
  have "\<not> (threads s u = Some th \<and> u \<notin> L \<and> state_of th = RT_THREAD_RUNNING)" for u th
    using I(9) [of u th] assms(3) [of u th] by auto
  then show ?thesis unfolding sched_inv_def ra
    using I assms(2) by (intro conjI) auto
qed

text \<open>A suspended thread may enter the list of an IPC object, at any place.\<close>

lemma sched_inv_wait:
  assumes "sched_inv L s" and "t \<notin> L" and "threads s t = Some th" and "state_of th = RT_THREAD_SUSPEND"
    and "\<And>b. t \<notin> set (suspend_thread s b)" and xs: "suspend_thread s a = xs @ ys"
  shows "sched_inv L (s\<lparr>suspend_thread := (suspend_thread s)(a := xs @ t # ys)\<rparr>)"
proof -
  note I = sched_invD [OF assms(1)]
  let ?s = "s\<lparr>suspend_thread := (suspend_thread s)(a := xs @ t # ys)\<rparr>"
  have ra: "ready_at L ?s p u = ready_at L s p u" for p u
    by (auto simp: ready_at_def)
  have set: "u \<in> set (suspend_thread ?s b) \<longleftrightarrow> u \<in> set (suspend_thread s b) \<or> (u = t \<and> b = a)" for u b
    using xs by auto
  have d: "distinct (suspend_thread ?s b)" for b
    using I(6) [of a] I(6) [of b] assms(5) [of a] by (simp add: xs)
  show ?thesis unfolding sched_inv_def ra set
    using I assms(2-5) d by (intro conjI) auto
qed

end
