(* ===== verification/Sched_Correct.thy ===== *)
theory Sched_Correct
  imports Sched_Inv
begin

text \<open>
  \<^verbatim>\<open>rt_schedule\<close>: which thread runs afterwards, and that the invariant of the ready
  table is kept.
\<close>

section \<open>States in which threads are scheduled\<close>

definition hooks_off :: "'x sched_scheme \<Rightarrow> bool" where
  "hooks_off s \<longleftrightarrow> rt_scheduler_hook s = None \<and> rt_scheduler_switch_hook s = None \<and>
     rt_thread_suspend_hook s = None \<and> rt_thread_resume_hook s = None \<and>
     rt_object_trytake_hook s = None \<and> rt_object_take_hook s = None \<and> rt_object_put_hook s = None"

text \<open>All that a scheduler operation leaves alone.\<close>

definition outside :: "'x sched_scheme \<Rightarrow> kernel \<times> u16 \<times> fptr option list \<times> 'x" where
  "outside s = (kernel.truncate (s\<lparr>threads := \<lambda>_. None\<rparr>), rt_scheduler_lock_nest s,
     [rt_scheduler_hook s, rt_scheduler_switch_hook s, rt_thread_suspend_hook s,
      rt_thread_resume_hook s, rt_thread_inited_hook s], sched.more s)"

lemma outsideD:
  assumes "outside s' = outside s"
  shows "primask s' = primask s" "rt_interrupt_nest s' = rt_interrupt_nest s" "rt_tick s' = rt_tick s"
    "objects s' = objects s" "object_container s' = object_container s" "timers s' = timers s"
    "timer_list s' = timer_list s" "check_lists s' = check_lists s"
    "rt_scheduler_lock_nest s' = rt_scheduler_lock_nest s" "sched.more s' = sched.more s"
    "rt_thread_defunct s' = rt_thread_defunct s" "heap_freed s' = heap_freed s"
    "hooks_off s' = hooks_off s"
  using assms by (simp_all add: outside_def kernel.truncate_def hooks_off_def)

lemma outside_updates [simp]:
  "outside (upd_thread t f s) = outside s" "outside (removed t th s) = outside s"
  "outside (s\<lparr>switches := sw\<rparr>) = outside s" "outside (s\<lparr>rt_current_thread := c\<rparr>) = outside s"
  "outside (s\<lparr>rt_thread_priority_table := tab\<rparr>) = outside s" "outside (s\<lparr>threads := ths\<rparr>) = outside s"
  "outside (s\<lparr>rt_thread_ready_priority_group := g\<rparr>) = outside s"
  "outside (s\<lparr>rt_current_priority := p\<rparr>) = outside s" "outside (s\<lparr>suspend_thread := l\<rparr>) = outside s"
  by (simp_all add: outside_def kernel.truncate_def upd_thread_def removed_def tlist_remove_def)

definition stack_fine :: "rt_thread \<Rightarrow> bool" where
  "stack_fine th \<longleftrightarrow> stack_low th = 0x23 \<and> stack_addr th < th_sp th \<and>
     th_sp th \<le> stack_addr th + unat (stack_size th)"

definition sched_ok :: "'x sched_scheme \<Rightarrow> bool" where
  "sched_ok s \<longleftrightarrow> sched_inv {} s \<and> hooks_off s \<and> (\<forall>t th. threads s t = Some th \<longrightarrow> stack_fine th) \<and>
     (\<forall>c th. rt_current_thread s = Some c \<longrightarrow> threads s c = Some th \<longrightarrow>
        state_of th \<notin> {RT_THREAD_READY, RT_THREAD_INIT})"

lemma sched_okD:
  assumes "sched_ok s"
  shows "sched_inv {} s" and "hooks_off s" and "\<And>t th. threads s t = Some th \<Longrightarrow> stack_fine th"
    and "\<And>c th. rt_current_thread s = Some c \<Longrightarrow> threads s c = Some th \<Longrightarrow>
      state_of th \<noteq> RT_THREAD_READY \<and> state_of th \<noteq> RT_THREAD_INIT"
  using assms unfolding sched_ok_def by auto

lemma sched_inv_loosen:
  assumes "sched_inv L s" and "threads s t = Some th"
    and "state_of th \<noteq> RT_THREAD_READY" and "state_of th \<noteq> RT_THREAD_SUSPEND"
  shows "sched_inv (insert t L) s"
proof -
  note I = sched_invD [OF assms(1)]
  have ra: "ready_at (insert t L) s p u = ready_at L s p u" for p u
    using assms(2,3) by (auto simp: ready_at_def)
  have sus: "u \<noteq> t" if "u \<in> set (suspend_thread s a)" for a u
    using I(7) [OF that] assms(2,4) by auto
  show ?thesis unfolding sched_inv_def ra
    apply (intro conjI)
    subgoal using I(1) by simp
    subgoal using I(2) by simp
    subgoal using I(3) by simp
    subgoal using I(4) by simp
    subgoal using I(5) by simp
    subgoal using I(6) by simp
    subgoal using I(7) sus by blast
    subgoal using I(8) by simp
    subgoal using I(9) by simp
    subgoal using I(10) by simp
    done
qed

section \<open>The best ready thread\<close>

lemma get_highest:
  assumes inv: "sched_inv {} s" and some: "rt_thread_ready_priority_group s \<noteq> 0"
  shows "\<exists>t p rest. scheduler_get_highest s = Some (t, p) \<and> p < 32 \<and>
    rt_thread_priority_table s ! p = t # rest \<and> ready_at {} s p t \<and>
    (\<forall>q u. ready_at {} s q u \<longrightarrow> p \<le> q)"
proof -
  note I = sched_invD [OF inv]
  from lowest_bit_exists [OF some] obtain p where
    p: "p < 32" "bit (rt_thread_ready_priority_group s) p"
      "\<forall>i < p. \<not> bit (rt_thread_ready_priority_group s) i" by blast
  from rt_ffs_eq [OF p(2,3)] have f: "rt_ffs (rt_thread_ready_priority_group s) = Suc p" .
  from I(2) [OF p(1)] p(2) obtain t rest where row: "rt_thread_priority_table s ! p = t # rest"
    by (cases "rt_thread_priority_table s ! p") auto
  then have "ready_at {} s p t" using I(4) [OF p(1), of t] by simp
  moreover have "p \<le> q" if "ready_at {} s q u" for q u
  proof (rule ccontr)
    assume "\<not> p \<le> q"
    with p(3) have "\<not> bit (rt_thread_ready_priority_group s) q" by simp
    with I(2) [of q] I(4) [of q u] p(1) \<open>\<not> p \<le> q\<close> that show False by simp
  qed
  moreover have "scheduler_get_highest s = Some (t, p)"
    using f row p(1) I(1) by (simp add: scheduler_get_highest_def)
  ultimately show ?thesis using row p(1) by blast
qed

lemma group_zero_iff:
  assumes "sched_inv {} s"
  shows "rt_thread_ready_priority_group s = 0 \<longleftrightarrow> (\<forall>p u. \<not> ready_at {} s p u)"
proof
  note I = sched_invD [OF assms]
  assume z: "rt_thread_ready_priority_group s = 0"
  show "\<forall>p u. \<not> ready_at {} s p u"
  proof (intro allI notI)
    fix p u
    assume r: "ready_at {} s p u"
    then have "p < 32" using I(5) [of u] by (auto simp: ready_at_def)
    with r I(4) [of p u] I(2) [of p] show False by (simp add: z)
  qed
next
  assume "\<forall>p u. \<not> ready_at {} s p u"
  with get_highest [OF assms] show "rt_thread_ready_priority_group s = 0" by blast
qed

section \<open>The switch\<close>

definition after_switch :: "nat \<Rightarrow> nat \<Rightarrow> bool \<Rightarrow> 'x sched_scheme \<Rightarrow> nat \<Rightarrow> rt_thread option" where
  "after_switch c t need s = (threads s)(c := (if need then map_option (set_stat RT_THREAD_READY) (threads s c)
     else threads s c), t := map_option (set_stat RT_THREAD_RUNNING) (threads s t))"

lemma switch_thread_ok:
  assumes inv: "sched_inv {} s" and off: "hooks_off s" and cur: "rt_current_thread s = Some c"
    and th: "threads s c = Some th" and "state_of th \<noteq> RT_THREAD_READY" and st: "state_of th \<noteq> RT_THREAD_INIT"
    and need: "need \<longleftrightarrow> state_of th = RT_THREAD_RUNNING"
    and row: "rt_thread_priority_table s ! p = t # rest" and p: "p < 32"
    and fine: "\<And>u uh. threads s u = Some uh \<Longrightarrow> stack_fine uh"
  shows "\<exists>s'. switch_thread code c t p need s = Some s' \<and> sched_inv {} s' \<and> hooks_off s' \<and>
    rt_current_thread s' = Some t \<and> t \<noteq> c \<and> threads s' = after_switch c t need s \<and>
    outside s' = outside s \<and>
    suspend_thread s' = (\<lambda>a. remove1 t (suspend_thread s a)) \<and>
    rt_thread_priority_table s' = map (remove1 t) (if need then (rt_thread_priority_table s)[unat (current_priority th) :=
        rt_thread_priority_table s ! unat (current_priority th) @ [c]] else rt_thread_priority_table s) \<and>
    switches s' = switches s @ [if rt_interrupt_nest s = 0 then SWITCH c t else SWITCH_INTERRUPT c t]"
proof -
  note I = sched_invD [OF inv]
  have "ready_at {} s p t" using I(4) [OF p, of t] row by simp
  then obtain tth where tth: "threads s t = Some tth" "state_of tth = RT_THREAD_READY" "unat (current_priority tth) = p"
    by (auto simp: ready_at_def)
  have tc: "t \<noteq> c" using tth th assms(5) by auto
  let ?s1 = "s\<lparr>rt_current_priority := of_nat p, rt_current_thread := Some t\<rparr>"
  let ?tab = "if need then (rt_thread_priority_table s)[unat (current_priority th) :=
        rt_thread_priority_table s ! unat (current_priority th) @ [c]] else rt_thread_priority_table s"
  have "\<exists>s3. (if need then rt_schedule_insert_thread c ?s1 else Some ?s1) = Some s3 \<and> sched_inv {} s3 \<and>
    s3 = ?s1\<lparr>threads := (if need then (threads s)(c \<mapsto> set_stat RT_THREAD_READY th) else threads s),
      rt_thread_priority_table := ?tab,
      rt_thread_ready_priority_group := (if need then rt_thread_ready_priority_group s OR number_mask th
        else rt_thread_ready_priority_group s)\<rparr>"
  proof (cases need)
    case True
    then have "sched_inv {c} s" using sched_inv_loosen [OF inv th] need by simp
    then have "sched_inv {c} (s\<lparr>rt_current_thread := Some t\<rparr>)"
      by (rule sched_inv_current) (use cur tth in auto)
    then have "sched_inv {c} ?s1" by (subst (asm) sched_inv_cong [where s' = ?s1, symmetric]) simp_all
    from insert_thread_inv [OF this _ _ st, of c] tc th True show ?thesis by simp
  next
    case False
    have "sched_inv {} (s\<lparr>rt_current_thread := Some t\<rparr>)"
      by (rule sched_inv_current [OF inv]) (use False need cur th tth in auto)
    then have "sched_inv {} ?s1" by (subst (asm) sched_inv_cong [where s' = ?s1, symmetric]) simp_all
    with False show ?thesis by simp
  qed
  then obtain s3 where s3: "(if need then rt_schedule_insert_thread c ?s1 else Some ?s1) = Some s3"
    "sched_inv {} s3" and eq: "s3 = ?s1\<lparr>threads := (if need then (threads s)(c \<mapsto> set_stat RT_THREAD_READY th) else threads s),
      rt_thread_priority_table := ?tab,
      rt_thread_ready_priority_group := (if need then rt_thread_ready_priority_group s OR number_mask th
        else rt_thread_ready_priority_group s)\<rparr>" by blast
  have th3: "threads s3 t = Some tth" using tc tth by (simp add: eq)
  have stt: "state_of tth \<noteq> RT_THREAD_INIT" using tth(2) by simp
  note rem = remove_thread_eq [OF s3(2) th3 stt] sched_inv_removed [OF s3(2) th3 stt]
  let ?s4 = "removed t tth s3"
  let ?s5 = "upd_thread t (set_stat RT_THREAD_RUNNING) ?s4"
  have "sched_inv {t} ?s5"
    by (rule sched_inv_upd_loose [OF rem(2)]) (use sched_invD(5) [OF s3(2) th3 stt] th3 in auto)
  then have "sched_inv ({t} - {t}) ?s5"
    by (rule sched_inv_settle [where th = "set_stat RT_THREAD_RUNNING tth"]) (use th3 in \<open>auto simp: eq\<close>)
  then have inv5: "sched_inv {} ?s5" by simp
  have chk: "scheduler_stack_check t ?s5 = Some ?s5"
    using fine [OF tth(1)] th3 by (auto simp: scheduler_stack_check_def stack_fine_def set_stat_def)
  have off1: "rt_scheduler_hook ?s1 = None" "rt_scheduler_switch_hook ?s5 = None"
    using off by (simp_all add: hooks_off_def eq)
  have nest5: "rt_interrupt_nest ?s5 = rt_interrupt_nest s" "switches ?s5 = switches s" by (simp_all add: eq)
  let ?s' = "?s5\<lparr>switches := switches s @ [if rt_interrupt_nest s = 0 then SWITCH c t else SWITCH_INTERRUPT c t]\<rparr>"
  have run: "switch_thread code c t p need s = Some ?s'"
    using s3(1) rem(1) chk off1 nest5
    by (cases need) (simp_all only: switch_thread_def Let_def option.case if_True if_False bind.bind_lunit
      hook_call_None, simp_all)
  have "sched_inv {} ?s'" using inv5 by (subst sched_inv_cong) simp_all
  moreover have "threads ?s' = after_switch c t need s"
    using tc th tth by (auto simp: eq after_switch_def)
  moreover have out: "outside ?s' = outside s" by (simp add: eq)
  moreover have "hooks_off ?s'" using off outsideD(13) [OF out] by simp
  moreover have "suspend_thread ?s' = (\<lambda>a. remove1 t (suspend_thread s a))"
    by (rule ext) (simp add: eq)
  ultimately show ?thesis using run tc by (intro exI [of _ ?s']) (simp add: eq)
qed

section \<open>rt\_schedule\<close>

lemma clear_yield_state: "state_of (th\<lparr>th_stat := th_stat th AND NOT RT_THREAD_STAT_YIELD\<rparr>) = state_of th"
proof -
  have "(th_stat th AND NOT 8) AND 7 = th_stat th AND (NOT 8 AND 7)" by (simp only: and.assoc)
  moreover have "NOT 8 AND (7 :: u8) = 7" by simp
  ultimately show ?thesis by simp
qed

text \<open>The thread that goes on running: its state without the yield mark.\<close>

definition still_running :: "rt_thread \<Rightarrow> rt_thread" where
  "still_running th = set_stat RT_THREAD_RUNNING (th\<lparr>th_stat := th_stat th AND NOT RT_THREAD_STAT_YIELD\<rparr>)"

lemma still_running_sel [simp]:
  "state_of (still_running th) = RT_THREAD_RUNNING" "current_priority (still_running th) = current_priority th"
  "stack_fine (still_running th) = stack_fine th" "stack_fine (set_stat v th) = stack_fine th"
  "stack_fine (th\<lparr>th_stat := x\<rparr>) = stack_fine th"
  by (simp_all add: still_running_def) (simp_all add: stack_fine_def set_stat_def)

lemma irq_outside:
  "sched_inv L (s\<lparr>primask := m\<rparr>) = sched_inv L s" "hooks_off (s\<lparr>primask := m\<rparr>) = hooks_off s"
  "scheduler_get_highest (s\<lparr>primask := m\<rparr>) = scheduler_get_highest s"
  "outside s' = outside (s\<lparr>primask := m\<rparr>) \<Longrightarrow> outside (s'\<lparr>primask := primask s\<rparr>) = outside s"
  by (simp_all add: sched_inv_def ready_at_def hooks_off_def scheduler_get_highest_def Let_def outside_def kernel.truncate_def)

lemma rt_schedule_cases:
  assumes ok: "sched_ok s" and cur: "rt_current_thread s = Some c" and th: "threads s c = Some th"
  obtains
    (same) "rt_scheduler_lock_nest s \<noteq> 0 \<or> (\<forall>p u. \<not> ready_at {} s p u)" "rt_schedule code s = Some s"
  | (stay) s' t p where "rt_scheduler_lock_nest s = 0" "scheduler_get_highest s = Some (t, p)"
      "state_of th = RT_THREAD_RUNNING" "keeps_running th p" "rt_schedule code s = Some s'" "sched_ok s'"
      "threads s' = (threads s)(c \<mapsto> still_running th)" "rt_current_thread s' = Some c" "outside s' = outside s"
      "suspend_thread s' = suspend_thread s" "switches s' = switches s"
  | (switch) s' t p where "rt_scheduler_lock_nest s = 0" "scheduler_get_highest s = Some (t, p)" "t \<noteq> c"
      "state_of th \<noteq> RT_THREAD_RUNNING \<or> \<not> keeps_running th p" "rt_schedule code s = Some s'" "sched_ok s'"
      "rt_current_thread s' = Some t" "outside s' = outside s"
      "threads s' = (threads s)(c \<mapsto> (if state_of th = RT_THREAD_RUNNING then set_stat RT_THREAD_READY
          (th\<lparr>th_stat := th_stat th AND NOT RT_THREAD_STAT_YIELD\<rparr>) else th),
        t := map_option (set_stat RT_THREAD_RUNNING) (threads s t))"
      "suspend_thread s' = suspend_thread s"
      "switches s' = switches s @ [if rt_interrupt_nest s = 0 then SWITCH c t else SWITCH_INTERRUPT c t]"
      "rt_thread_priority_table s' = map (remove1 t) (if state_of th = RT_THREAD_RUNNING
        then (rt_thread_priority_table s)[unat (current_priority th) :=
          rt_thread_priority_table s ! unat (current_priority th) @ [c]] else rt_thread_priority_table s)"
proof -
  note K = sched_okD [OF ok]
  note I = sched_invD [OF K(1)]
  from K(4) [OF cur th] have st: "state_of th \<noteq> RT_THREAD_READY" "state_of th \<noteq> RT_THREAD_INIT" by simp_all
  show thesis
  proof (cases "rt_scheduler_lock_nest s \<noteq> 0 \<or> rt_thread_ready_priority_group s = 0")
    case True
    then have "rt_schedule code s = Some s"
      by (auto simp: rt_schedule_def irq_defs)
    moreover have "rt_scheduler_lock_nest s \<noteq> 0 \<or> (\<forall>p u. \<not> ready_at {} s p u)"
      using True group_zero_iff [OF K(1)] by auto
    ultimately show thesis by (intro same)
  next
    case False
    from get_highest [OF K(1)] False obtain t p rest where
      H: "scheduler_get_highest s = Some (t, p)" "p < 32" "rt_thread_priority_table s ! p = t # rest"
        "ready_at {} s p t" by blast
    from H(4) th st(1) have tc: "t \<noteq> c" by (auto simp: ready_at_def)
    let ?s1 = "s\<lparr>primask := 1\<rparr>"
    let ?run = "state_of th = RT_THREAD_RUNNING"
    let ?y = "\<lambda>th. th\<lparr>th_stat := th_stat th AND NOT RT_THREAD_STAT_YIELD\<rparr>"
    let ?s2 = "if ?run then upd_thread c ?y ?s1 else ?s1"
    let ?th = "if ?run then ?y th else th"
    have inv2: "sched_inv {} ?s2"
      using K(1) sched_inv_upd_other [of "{}" ?s1 c ?y] clear_yield_state by (simp add: irq_outside)
    have off2: "hooks_off ?s2" using K(2) by (simp add: hooks_off_def upd_thread_def)
    have F2: "rt_current_thread ?s2 = Some c" "threads ?s2 c = Some ?th"
      "state_of ?th = state_of th" "rt_thread_priority_table ?s2 ! p = t # rest"
      "suspend_thread ?s2 = suspend_thread s" "rt_thread_priority_table ?s2 = rt_thread_priority_table s"
      "rt_interrupt_nest ?s2 = rt_interrupt_nest s" "switches ?s2 = switches s" "current_priority ?th = current_priority th"
      using cur th H(3) clear_yield_state [of th] by simp_all
    have out2: "outside ?s2 = outside ?s1" by simp
    have fine2: "stack_fine uh" if "threads ?s2 u = Some uh" for u uh
      using K(3) that by (auto split: if_splits)
    have sched: "rt_schedule code s = map_option (\<lambda>s3. s3\<lparr>primask := primask s\<rparr>)
      (if ?run \<and> keeps_running th p
       then map_option (upd_thread c (set_stat RT_THREAD_RUNNING)) (rt_schedule_remove_thread c ?s2)
       else switch_thread code c t p ?run ?s2)"
      using False H(1) cur th tc
      by (cases ?run; cases "keeps_running th p")
        (simp_all add: rt_schedule_def irq_defs Let_def irq_outside map_conv_bind_option comp_def)
    show thesis
    proof (cases "?run \<and> keeps_running th p")
      case True
      note rem = remove_thread_eq [OF inv2 F2(2)] sched_inv_removed [OF inv2 F2(2)]
      let ?s4 = "upd_thread c (set_stat RT_THREAD_RUNNING) (removed c ?th ?s2)"
      have st2: "state_of ?th \<noteq> RT_THREAD_INIT" using F2(3) st(2) by simp
      have "sched_inv {c} ?s4"
        by (rule sched_inv_upd_loose [OF rem(2) [OF st2]]) (use sched_invD(5) [OF inv2 F2(2) st2] F2(2) in auto)
      then have "sched_inv ({c} - {c}) ?s4"
        by (rule sched_inv_settle [where th = "still_running th"]) (use cur True th in \<open>auto simp: still_running_def\<close>)
      then have inv4: "sched_inv {} ?s4" by simp
      let ?s' = "?s4\<lparr>primask := primask s\<rparr>"
      have nc: "c \<notin> set (suspend_thread s a)" for a using I(7) [of c a] th True by auto
      have T: "threads ?s' = (threads s)(c \<mapsto> still_running th)"
        using True th by (auto simp: still_running_def)
      have out: "outside ?s' = outside s" by (rule irq_outside(4)) simp
      have okk: "sched_ok ?s'" unfolding sched_ok_def T
        using inv4 K(2,3) outsideD(13) [OF out] cur th True
        by (auto simp: irq_outside split: if_splits)
      have run: "rt_schedule code s = Some ?s'" using True rem(1) [OF st2] by (simp add: sched)
      show thesis
        by (rule stay [OF _ H(1) _ _ run okk T _ out]) (use False True cur F2 nc in \<open>auto simp: remove1_idem\<close>)
    next
      case sw: False
      have pre: "state_of ?th \<noteq> RT_THREAD_READY" "state_of ?th \<noteq> RT_THREAD_INIT"
        "?run \<longleftrightarrow> state_of ?th = RT_THREAD_RUNNING" using F2(3) st by simp_all
      have fine: "\<And>u uh. threads ?s2 u = Some uh \<Longrightarrow> stack_fine uh" using fine2 by blast
      obtain s3 where
        S: "switch_thread code c t p ?run ?s2 = Some s3" "sched_inv {} s3" "hooks_off s3"
          "rt_current_thread s3 = Some t" "threads s3 = after_switch c t ?run ?s2" "outside s3 = outside ?s2"
          "suspend_thread s3 = (\<lambda>a. remove1 t (suspend_thread ?s2 a))"
          "rt_thread_priority_table s3 = map (remove1 t) (if ?run then (rt_thread_priority_table ?s2)[unat (current_priority ?th) :=
            rt_thread_priority_table ?s2 ! unat (current_priority ?th) @ [c]] else rt_thread_priority_table ?s2)"
          "switches s3 = switches ?s2 @ [if rt_interrupt_nest ?s2 = 0 then SWITCH c t else SWITCH_INTERRUPT c t]"
        using switch_thread_ok [OF inv2 off2 F2(1,2) pre F2(4) H(2), where code = code] fine by blast
      let ?s' = "s3\<lparr>primask := primask s\<rparr>"
      obtain tth where tth: "threads s t = Some tth" "state_of tth = RT_THREAD_READY" using H(4) by (auto simp: ready_at_def)
      have T: "threads ?s' = (threads s)(c \<mapsto> (if ?run then set_stat RT_THREAD_READY (?y th) else th),
          t := map_option (set_stat RT_THREAD_RUNNING) (threads s t))"
        using tc th by (auto simp: S(5) after_switch_def)
      have out: "outside ?s' = outside s" by (rule irq_outside(4)) (use S(6) out2 in simp)
      have nt: "t \<notin> set (suspend_thread s a)" for a using I(7) [of t a] tth by auto
      have sus: "suspend_thread ?s' = suspend_thread s"
        by (rule ext) (use nt in \<open>simp add: S(7) F2(5) remove1_idem\<close>)
      have okk: "sched_ok ?s'" unfolding sched_ok_def T
        using S(2,3,4) K(3) th tth tc
        by (auto simp: irq_outside split: if_splits)
      have run: "rt_schedule code s = Some ?s'" using sw S(1) by (auto simp: sched)
      show thesis
        by (rule switch [OF _ H(1) tc _ run okk _ out T sus]) (use False sw S(4,8,9) F2 in auto)
    qed
  qed
qed

end
