(* ===== verification/Thread_Correct.thy ===== *)
theory Thread_Correct
  imports Thread Sched_Correct
begin

text \<open>
  The operations of \<^verbatim>\<open>thread.c\<close> keep the invariant of the ready table and change the state of
  the thread they are called for, and of no other.
\<close>

section \<open>States with threads\<close>

definition timer_fine :: "nat \<Rightarrow> 'x sched_scheme \<Rightarrow> bool" where
  "timer_fine a s \<longleftrightarrow> is_timer a s \<and> timers s a \<noteq> None"

definition thread_ok :: "'x sched_scheme \<Rightarrow> bool" where
  "thread_ok s \<longleftrightarrow> sched_ok s \<and> (\<forall>t th. threads s t = Some th \<longrightarrow> state_of th \<noteq> RT_THREAD_CLOSE \<longrightarrow>
     is_thread t s \<and> timer_fine (thread_timer t) s)"

lemma thread_okD:
  assumes "thread_ok s"
  shows "sched_ok s" "sched_inv {} s" "hooks_off s" "\<And>t th. threads s t = Some th \<Longrightarrow> stack_fine th"
    "\<And>c th. rt_current_thread s = Some c \<Longrightarrow> threads s c = Some th \<Longrightarrow>
      state_of th \<noteq> RT_THREAD_READY \<and> state_of th \<noteq> RT_THREAD_INIT"
    "\<And>t th. threads s t = Some th \<Longrightarrow> state_of th \<noteq> RT_THREAD_CLOSE \<Longrightarrow> is_thread t s \<and> timer_fine (thread_timer t) s"
  using assms sched_okD unfolding thread_ok_def by blast+

text \<open>What the operations on threads leave alone.\<close>

definition frame :: "'x sched_scheme \<Rightarrow> 'x sched_scheme \<Rightarrow> bool" where
  "frame s' s \<longleftrightarrow> primask s' = primask s \<and> rt_interrupt_nest s' = rt_interrupt_nest s \<and> rt_tick s' = rt_tick s \<and>
     objects s' = objects s \<and> object_container s' = object_container s \<and>
     rt_scheduler_lock_nest s' = rt_scheduler_lock_nest s \<and> sched.more s' = sched.more s \<and>
     hooks_off s' = hooks_off s \<and> dom (timers s') = dom (timers s)"

lemma frame_refl [simp]: "frame s s"
  by (simp add: frame_def)

lemma frame_trans [trans]: "frame s3 s2 \<Longrightarrow> frame s2 s1 \<Longrightarrow> frame s3 s1"
  by (simp add: frame_def)

lemma frameD:
  assumes "frame s' s"
  shows "primask s' = primask s" "rt_interrupt_nest s' = rt_interrupt_nest s" "objects s' = objects s"
    "rt_scheduler_lock_nest s' = rt_scheduler_lock_nest s" "sched.more s' = sched.more s" "hooks_off s' = hooks_off s"
    "is_thread t s' = is_thread t s" "timer_fine a s' = timer_fine a s" "rt_tick s' = rt_tick s"
proof -
  have "timers s' a \<noteq> None \<longleftrightarrow> timers s a \<noteq> None" using assms unfolding frame_def domIff [symmetric] by simp
  then show "timer_fine a s' = timer_fine a s"
    using assms by (simp add: frame_def timer_fine_def is_timer_def rt_object_get_type_def)
qed (use assms in \<open>simp_all add: frame_def is_thread_def rt_object_get_type_def\<close>)

lemma frame_outside: "outside s' = outside s \<Longrightarrow> frame s' s"
  using outsideD [of s' s] by (simp add: frame_def)

text \<open>States that agree on threads, lists and current thread.\<close>

definition same_lists :: "'x sched_scheme \<Rightarrow> 'x sched_scheme \<Rightarrow> bool" where
  "same_lists s' s \<longleftrightarrow> threads s' = threads s \<and> rt_thread_priority_table s' = rt_thread_priority_table s \<and>
     rt_thread_ready_priority_group s' = rt_thread_ready_priority_group s \<and>
     suspend_thread s' = suspend_thread s \<and> rt_current_thread s' = rt_current_thread s \<and>
     switches s' = switches s"

lemma same_lists_inv: "same_lists s' s \<Longrightarrow> sched_inv L s' = sched_inv L s"
  by (intro sched_inv_cong) (simp_all add: same_lists_def)

lemma thread_ok_same:
  assumes "same_lists s' s" and "frame s' s"
  shows "thread_ok s' = thread_ok s"
  using assms(1) same_lists_inv [OF assms(1)] frameD [OF assms(2)]
  by (simp add: thread_ok_def sched_ok_def same_lists_def)

lemma same_lists_refl [simp]: "same_lists s s"
  by (simp add: same_lists_def)

lemma same_lists_trans [trans]: "same_lists s3 s2 \<Longrightarrow> same_lists s2 s1 \<Longrightarrow> same_lists s3 s1"
  by (simp add: same_lists_def)

lemma masked:
  "same_lists (s\<lparr>primask := m\<rparr>) s" "hooks_off (s\<lparr>primask := m\<rparr>) = hooks_off s"
  "frame (s'\<lparr>primask := primask s\<rparr>) s \<longleftrightarrow> frame s' (s\<lparr>primask := primask s'\<rparr>)"
  "is_thread t (s\<lparr>primask := m\<rparr>) = is_thread t s" "timer_fine a (s\<lparr>primask := m\<rparr>) = timer_fine a s"
  by (auto simp: same_lists_def hooks_off_def frame_def is_thread_def timer_fine_def is_timer_def rt_object_get_type_def)

section \<open>The timer of a thread\<close>

lemma stop_timer:
  assumes "timer_fine a s" and "hooks_off s"
  shows "\<exists>r s'. rt_timer_stop code a s = Some (r, s') \<and> same_lists s' s \<and> frame s' s"
proof -
  obtain tm where tm: "timers s a = Some tm" "is_timer a s" using assms(1) by (auto simp: timer_fine_def)
  have put: "rt_object_put_hook s = None" using assms(2) by (simp add: hooks_off_def)
  show ?thesis
  proof (cases "flag_has RT_TIMER_FLAG_ACTIVATED tm")
    case True
    let ?s' = "upd_timer a (flag_clear RT_TIMER_FLAG_ACTIVATED) (timer_remove a s)"
    have "rt_timer_stop code a s = Some (RT_EOK, ?s')"
      using tm put True by (simp add: rt_timer_stop_def irq_defs upd_timer_def timer_remove_def)
    moreover have "same_lists ?s' s" by (simp add: same_lists_def upd_timer_def timer_remove_def)
    moreover have "frame ?s' s" using tm(1)
      by (auto simp: frame_def upd_timer_def timer_remove_def hooks_off_def)
    ultimately show ?thesis by blast
  next
    case False
    then show ?thesis using tm by (intro exI [of _ "- RT_ERROR"] exI [of _ s]) (simp add: rt_timer_stop_def)
  qed
qed

lemma timer_parts:
  "same_lists (upd_timer a f s) s" "frame (upd_timer a f s) s"
  "same_lists (timer_remove a s) s" "frame (timer_remove a s) s"
  "same_lists (timer_link n a s) s" "frame (timer_link n a s) s"
  by (auto simp: same_lists_def frame_def hooks_off_def upd_timer_def timer_remove_def timer_link_def Let_def
      split: if_splits)

lemma start_timer:
  assumes fine: "timer_fine (thread_timer t) s" and off: "hooks_off s" and tick: "tick < TICK_HALF"
  shows "\<exists>s'. start_thread_timer code t tick s = Some s' \<and> same_lists s' s \<and> frame s' s"
proof -
  let ?a = "thread_timer t"
  obtain tm where tm: "timers s ?a = Some tm" "is_timer ?a s" using fine by (auto simp: timer_fine_def)
  let ?s1 = "upd_timer ?a (\<lambda>tm. tm\<lparr>init_tick := tick\<rparr>) s"
  have ctl: "rt_timer_control ?a 0 tick s = Some (RT_EOK, tick, ?s1)"
    using tm by (simp add: rt_timer_control_def irq_defs upd_timer_def)
  let ?s2 = "upd_timer ?a (flag_clear RT_TIMER_FLAG_ACTIVATED) (timer_remove ?a (?s1\<lparr>primask := 1\<rparr>))"
  have t2: "timers ?s2 ?a = Some (flag_clear RT_TIMER_FLAG_ACTIVATED (tm\<lparr>init_tick := tick\<rparr>))"
    "rt_object_take_hook ?s2 = None" "is_timer ?a ?s1"
    using tm off by (simp_all add: upd_timer_def timer_remove_def hooks_off_def is_timer_def rt_object_get_type_def)
  let ?n = "rt_tick_get ?s2 + tick"
  let ?s5 = "upd_timer ?a (flag_or RT_TIMER_FLAG_ACTIVATED)
      (timer_link ?n ?a (upd_timer ?a (\<lambda>tm. tm\<lparr>timeout_tick := ?n\<rparr>) ?s2))"
  have start: "rt_timer_start (s_code code) ?a ?s1 = Some (RT_EOK, ?s5\<lparr>primask := primask ?s1\<rparr>)"
    using t2 tick by (simp add: rt_timer_start_def irq_defs Let_def flag_clear_def)
  have "same_lists ?s5 s" "frame ?s5 (s\<lparr>primask := 1\<rparr>)"
  proof -
    have "same_lists ?s5 ?s2" by (meson timer_parts same_lists_trans)
    also have "same_lists ?s2 (?s1\<lparr>primask := 1\<rparr>)" by (meson timer_parts same_lists_trans)
    also have "same_lists (?s1\<lparr>primask := 1\<rparr>) s" by (simp add: same_lists_def upd_timer_def)
    finally show "same_lists ?s5 s" .
    have "frame ?s5 ?s2" by (meson timer_parts frame_trans)
    also have "frame ?s2 (?s1\<lparr>primask := 1\<rparr>)" by (meson timer_parts frame_trans)
    also have "frame (?s1\<lparr>primask := 1\<rparr>) (s\<lparr>primask := 1\<rparr>)"
      by (auto simp: frame_def hooks_off_def upd_timer_def split: if_splits)
    finally show "frame ?s5 (s\<lparr>primask := 1\<rparr>)" .
  qed
  then have "same_lists (?s5\<lparr>primask := primask s\<rparr>) s" "frame (?s5\<lparr>primask := primask s\<rparr>) s"
    by (simp_all add: same_lists_def frame_def hooks_off_def)
  moreover have "primask ?s1 = primask s" by (simp add: upd_timer_def)
  ultimately show ?thesis using ctl start by (simp add: start_thread_timer_def)
qed

section \<open>Suspension and resumption\<close>

lemma thread_ok_upd:
  assumes ok: "thread_ok s" and fr: "frame s' s" and inv: "sched_inv {} s'"
    and th: "threads s t = Some th" and ths: "threads s' = (threads s)(t \<mapsto> th')"
    and keep: "stack_fine th' = stack_fine th" "state_of th \<noteq> RT_THREAD_CLOSE"
    and cur: "\<And>c x. rt_current_thread s' = Some c \<Longrightarrow> threads s' c = Some x \<Longrightarrow>
      state_of x \<noteq> RT_THREAD_READY \<and> state_of x \<noteq> RT_THREAD_INIT"
  shows "thread_ok s'"
proof -
  note K = thread_okD [OF ok]
  have "stack_fine x" if "threads s' u = Some x" for u x
    using that K(4) [of u] K(4) [OF th] keep(1) by (auto simp: ths split: if_splits)
  moreover have "is_thread u s' \<and> timer_fine (thread_timer u) s'"
    if "threads s' u = Some x" "state_of x \<noteq> RT_THREAD_CLOSE" for u x
    using that K(6) [of u] K(6) [OF th keep(2)] frameD [OF fr] by (auto simp: ths split: if_splits)
  ultimately show ?thesis
    using inv cur K(3) frameD(6) [OF fr] by (simp add: thread_ok_def sched_ok_def)
qed

lemma suspend_ok:
  assumes ok: "thread_ok s" and th: "threads s t = Some th"
    and st: "state_of th = RT_THREAD_READY \<or> state_of th = RT_THREAD_RUNNING"
  shows "\<exists>s'. rt_thread_suspend code t s = Some (RT_EOK, s') \<and> thread_ok s' \<and> frame s' s \<and>
    threads s' = (threads s)(t \<mapsto> set_stat RT_THREAD_SUSPEND th) \<and> suspend_thread s' = suspend_thread s \<and>
    rt_current_thread s' = rt_current_thread s \<and> switches s' = switches s \<and>
    (\<forall>a. t \<notin> set (suspend_thread s a))"
proof -
  note K = thread_okD [OF ok]
  note I = sched_invD [OF K(2)]
  let ?s1 = "s\<lparr>primask := 1\<rparr>"
  have st': "state_of th \<noteq> RT_THREAD_INIT" "state_of th \<noteq> RT_THREAD_CLOSE" using st by auto
  have inv1: "sched_inv {} ?s1" and th1: "threads ?s1 t = Some th" using K(2) th by (simp_all add: irq_outside)
  note rem = remove_thread_eq [OF inv1 th1 st'(1)] sched_inv_removed [OF inv1 th1 st'(1)]
  let ?s3 = "upd_thread t (set_stat RT_THREAD_SUSPEND) (removed t th ?s1)"
  have "sched_inv {t} ?s3"
    by (rule sched_inv_upd_loose [OF rem(2)]) (use I(5) [OF th st'(1)] th in auto)
  then have "sched_inv ({t} - {t}) ?s3"
    by (rule sched_inv_settle [where th = "set_stat RT_THREAD_SUSPEND th"]) (use th in auto)
  then have inv3: "sched_inv {} ?s3" by simp
  have fr3: "frame ?s3 ?s1" by (rule frame_outside) simp
  have off: "hooks_off ?s3" using K(3) frameD(6) [OF fr3] by (simp add: masked)
  have tf: "timer_fine (thread_timer t) ?s3" using K(6) [OF th st'(2)] frameD(8) [OF fr3] by (simp add: masked)
  from stop_timer [OF tf off, of "s_code code"] obtain r s4 where
    s4: "rt_timer_stop (s_code code) (thread_timer t) ?s3 = Some (r, s4)" "same_lists s4 ?s3" "frame s4 ?s3" by blast
  let ?s' = "s4\<lparr>primask := primask s\<rparr>"
  have L4: "same_lists ?s' ?s3" using s4(2) by (simp add: same_lists_def)
  have pm: "primask s4 = 1" using s4(3) fr3 by (simp add: frame_def)
  have fr: "frame ?s' s" unfolding masked pm using frame_trans [OF s4(3) fr3] .
  have nsus: "t \<notin> set (suspend_thread s a)" for a using I(7) [of t a] th st by auto
  have T: "threads ?s' = (threads s)(t \<mapsto> set_stat RT_THREAD_SUSPEND th)" "rt_current_thread ?s' = rt_current_thread s"
    "switches ?s' = switches s"
    using L4 th by (auto simp: same_lists_def)
  have sus: "suspend_thread ?s' = suspend_thread s"
    using L4 nsus by (intro ext) (simp add: same_lists_def remove1_idem)
  have hook: "rt_thread_suspend_hook ?s' = None" using K(3) frameD(6) [OF fr] by (simp add: hooks_off_def)
  have "rt_thread_suspend code t s = Some (RT_EOK, ?s')"
    using st K(6) [OF th st'(2)] I(9) [OF th] rem(1) s4(1) hook
    by (auto simp: rt_thread_suspend_def th irq_defs rt_thread_self_def)
  moreover have "thread_ok ?s'"
  proof (rule thread_ok_upd [OF ok fr _ th T(1) _ st'(2)])
    show "sched_inv {} ?s'" using inv3 same_lists_inv [OF L4] by simp
    show "state_of x \<noteq> RT_THREAD_READY \<and> state_of x \<noteq> RT_THREAD_INIT"
      if "rt_current_thread ?s' = Some c" "threads ?s' c = Some x" for c x
      using that K(5) [of c x] unfolding T by (auto split: if_splits)
  qed simp
  ultimately show ?thesis using fr T sus nsus by (intro exI [of _ ?s']) simp
qed

lemma sched_inv_tlist_remove:
  assumes "sched_inv L s" and "threads s t = Some th" and "state_of th \<noteq> RT_THREAD_READY"
  shows "sched_inv (insert t L) (tlist_remove t s)"
proof -
  note I = sched_invD [OF assms(1)]
  have "t \<notin> set (rt_thread_priority_table s ! p)" if "p < 32" for p
    using I(4) [OF that, of t] assms(2,3) by (auto simp: ready_at_def)
  then have "map (remove1 t) (rt_thread_priority_table s) = rt_thread_priority_table s"
    using I(1) by (intro nth_equalityI) (auto simp: remove1_idem)
  then have eq: "tlist_remove t s = s\<lparr>suspend_thread := (\<lambda>a. remove1 t (suspend_thread s a))\<rparr>"
    by (simp add: tlist_remove_def)
  have ra: "ready_at (insert t L) (tlist_remove t s) p u = ready_at L s p u" for p u
    using assms(2,3) by (auto simp: ready_at_def eq)
  have set: "set (suspend_thread (tlist_remove t s) a) = set (suspend_thread s a) - {t}" for a
    using I(6) by (simp add: eq)
  show ?thesis unfolding sched_inv_def ra set
    apply (intro conjI)
    subgoal using I(1) by (simp add: eq)
    subgoal using I(2) by (simp add: eq)
    subgoal using I(3) by (simp add: eq)
    subgoal using I(4) by (simp add: eq)
    subgoal using I(5) by (simp add: eq)
    subgoal using I(6) by (simp add: eq)
    subgoal using I(7) by (auto simp: eq)
    subgoal using I(8) by auto
    subgoal using I(9) by (simp add: eq)
    subgoal using I(10) by (simp add: eq)
    done
qed

text \<open>The common part of resumption and timeout: the thread leaves its list and is ready again.\<close>

definition back_state :: "'x sched_scheme \<Rightarrow> nat \<Rightarrow> u8" where
  "back_state s t = (if rt_current_thread s = Some t then RT_THREAD_RUNNING else RT_THREAD_READY)"

lemma back_state_values: "back_state s t = RT_THREAD_RUNNING \<or> back_state s t = RT_THREAD_READY"
  by (simp add: back_state_def)

lemma insert_back:
  assumes inv: "sched_inv L s" and loose: "t \<in> L" and th: "threads s t = Some th"
    and st: "state_of th \<noteq> RT_THREAD_INIT"
  shows "\<exists>s'. rt_schedule_insert_thread t s = Some s' \<and> sched_inv (L - {t}) s' \<and>
    threads s' = (threads s)(t \<mapsto> set_stat (back_state s t) th) \<and> suspend_thread s' = suspend_thread s \<and>
    rt_current_thread s' = rt_current_thread s \<and> switches s' = switches s \<and> outside s' = outside s"
proof (cases "rt_current_thread s = Some t")
  case True
  from insert_current_inv [OF inv loose th st True] True show ?thesis
    by (auto simp: back_state_def)
next
  case False
  from insert_thread_inv [OF inv loose th st False] False show ?thesis
    by (auto simp: back_state_def)
qed

lemma tlist_remove_sel [simp]:
  "threads (tlist_remove t s) = threads s" "rt_current_thread (tlist_remove t s) = rt_current_thread s"
  "suspend_thread (tlist_remove t s) = (\<lambda>a. remove1 t (suspend_thread s a))"
  "switches (tlist_remove t s) = switches s" "outside (tlist_remove t s) = outside s"
  by (simp_all add: tlist_remove_def outside_def kernel.truncate_def)

lemma resume_ok:
  assumes ok: "thread_ok s" and th: "threads s t = Some th" and st: "state_of th = RT_THREAD_SUSPEND"
  shows "\<exists>s'. rt_thread_resume code t s = Some (RT_EOK, s') \<and> thread_ok s' \<and> frame s' s \<and>
    threads s' = (threads s)(t \<mapsto> set_stat (back_state s t) th) \<and>
    suspend_thread s' = (\<lambda>a. remove1 t (suspend_thread s a)) \<and>
    rt_current_thread s' = rt_current_thread s \<and> switches s' = switches s"
proof -
  note K = thread_okD [OF ok]
  let ?s2 = "tlist_remove t (s\<lparr>primask := 1\<rparr>)"
  have st': "state_of th \<noteq> RT_THREAD_INIT" "state_of th \<noteq> RT_THREAD_CLOSE"
    "state_of th \<noteq> RT_THREAD_READY" using st by auto
  have inv2: "sched_inv {t} ?s2"
    by (rule sched_inv_tlist_remove [OF _ _ st'(3)]) (use K(2) th in \<open>simp_all add: irq_outside\<close>)
  have fr2: "frame ?s2 (s\<lparr>primask := 1\<rparr>)" by (rule frame_outside) simp
  have off: "hooks_off ?s2" using K(3) frameD(6) [OF fr2] by (simp add: masked)
  have tf: "timer_fine (thread_timer t) ?s2" using K(6) [OF th st'(2)] frameD(8) [OF fr2] by (simp add: masked)
  from stop_timer [OF tf off, of "s_code code"] obtain r s3 where
    s3: "rt_timer_stop (s_code code) (thread_timer t) ?s2 = Some (r, s3)" "same_lists s3 ?s2" "frame s3 ?s2" by blast
  have inv3: "sched_inv {t} s3" using inv2 same_lists_inv [OF s3(2)] by simp
  have T3: "threads s3 = threads s" "rt_current_thread s3 = rt_current_thread s" "switches s3 = switches s"
    "suspend_thread s3 = (\<lambda>a. remove1 t (suspend_thread s a))"
    using s3(2) by (simp_all add: same_lists_def)
  from insert_back [OF inv3 _ _ st'(1), of t] th T3 obtain s4 where
    s4: "rt_schedule_insert_thread t s3 = Some s4" "sched_inv {} s4"
      "threads s4 = (threads s)(t \<mapsto> set_stat (back_state s t) th)" "suspend_thread s4 = suspend_thread s3"
      "rt_current_thread s4 = rt_current_thread s" "switches s4 = switches s" "outside s4 = outside s3"
    by (auto simp: back_state_def)
  let ?s' = "s4\<lparr>primask := primask s\<rparr>"
  have fr4: "frame s4 (s\<lparr>primask := 1\<rparr>)"
    using frame_trans [OF frame_outside [OF s4(7)] frame_trans [OF s3(3) fr2]] .
  then have "primask s4 = 1" by (simp add: frame_def)
  then have fr: "frame ?s' s" unfolding masked using fr4 by simp
  have hook: "rt_thread_resume_hook ?s' = None" using K(3) frameD(6) [OF fr] by (simp add: hooks_off_def)
  have "rt_thread_resume code t s = Some (RT_EOK, ?s')"
    using st K(6) [OF th st'(2)] s3(1) s4(1) hook by (simp add: rt_thread_resume_def th irq_defs)
  moreover have "thread_ok ?s'"
  proof (rule thread_ok_upd [OF ok fr _ th _ _ st'(2)])
    show "sched_inv {} ?s'" using s4(2) by (simp add: irq_outside)
    show "threads ?s' = (threads s)(t \<mapsto> set_stat (back_state s t) th)" using s4(3) by simp
    show "state_of x \<noteq> RT_THREAD_READY \<and> state_of x \<noteq> RT_THREAD_INIT"
      if "rt_current_thread ?s' = Some c" "threads ?s' c = Some x" for c x
      using that K(5) [of c x] s4(3,5) by (auto simp: back_state_def split: if_splits)
  qed simp
  ultimately show ?thesis using fr s4 T3 by (intro exI [of _ ?s']) simp
qed

lemma suspend_error:
  assumes "thread_ok s" and "threads s t = Some th" and "state_of th = RT_THREAD_SUSPEND \<or> state_of th = RT_THREAD_INIT"
  shows "rt_thread_suspend code t s = Some (- RT_ERROR, s)"
  using assms thread_okD(6) [OF assms(1,2)] by (auto simp: rt_thread_suspend_def)

lemma resume_error:
  assumes "thread_ok s" and "threads s t = Some th" and "state_of th \<notin> {RT_THREAD_SUSPEND, RT_THREAD_CLOSE}"
  shows "rt_thread_resume code t s = Some (- RT_ERROR, s)"
  using assms thread_okD(6) [OF assms(1,2)] by (auto simp: rt_thread_resume_def)

section \<open>Scheduling\<close>

text \<open>A call of the scheduler, and what it changes; \<open>sched_step\<close> says only what callers need.\<close>

definition sched_step :: "'x sched_scheme \<Rightarrow> 'x sched_scheme \<Rightarrow> bool" where
  "sched_step s s' \<longleftrightarrow> thread_ok s' \<and> frame s' s \<and> suspend_thread s' = suspend_thread s \<and>
     (\<forall>t. threads s' t = None \<longleftrightarrow> threads s t = None) \<and>
     (\<forall>t th. threads s t = Some th \<longrightarrow> (\<exists>th'. threads s' t = Some th' \<and>
        current_priority th' = current_priority th \<and> th_error th' = th_error th \<and>
        event_set th' = event_set th \<and> event_info th' = event_info th \<and>
        (state_of th' = state_of th \<or> {state_of th, state_of th'} = {RT_THREAD_READY, RT_THREAD_RUNNING})))"

lemma schedule_step:
  assumes ok: "thread_ok s" and cur: "rt_current_thread s = Some c"
  shows "\<exists>s'. rt_schedule code s = Some s' \<and> sched_step s s'"
proof -
  note K = thread_okD [OF ok]
  from sched_invD(10) [OF K(2) cur] obtain th where th: "threads s c = Some th" by auto
  have ok': "thread_ok s'" if a: "sched_ok s'" "outside s' = outside s"
    and b: "\<And>u. (threads s' u = None) = (threads s u = None)"
    and c: "\<And>u x x'. threads s u = Some x \<Longrightarrow> threads s' u = Some x' \<Longrightarrow> state_of x' \<noteq> RT_THREAD_CLOSE \<Longrightarrow>
      state_of x \<noteq> RT_THREAD_CLOSE" for s'
  proof -
    have "is_thread u s' \<and> timer_fine (thread_timer u) s'" if x': "threads s' u = Some x'" "state_of x' \<noteq> RT_THREAD_CLOSE" for u x'
    proof -
      from b [of u] x' obtain x where "threads s u = Some x" by fastforce
      with c x' K(6) frameD(7,8) [OF frame_outside [OF a(2)]] show ?thesis by metis
    qed
    with a(1) show ?thesis by (simp add: thread_ok_def)
  qed
  show ?thesis
  proof (rule rt_schedule_cases [OF K(1) cur th, of code])
    assume "rt_schedule code s = Some s"
    then show ?thesis using ok by (auto simp: sched_step_def)
  next
    fix s' t p
    assume A: "state_of th = RT_THREAD_RUNNING" "rt_schedule code s = Some s'" "sched_ok s'"
      "threads s' = (threads s)(c \<mapsto> still_running th)" "outside s' = outside s" "suspend_thread s' = suspend_thread s"
    have "thread_ok s'" by (rule ok' [OF A(3,5)]) (use A(1,4) th in \<open>auto split: if_splits\<close>)
    with A th frame_outside [OF A(5)] show ?thesis
      by (auto simp: sched_step_def still_running_def)
  next
    fix s' t p
    assume A: "scheduler_get_highest s = Some (t, p)" "t \<noteq> c" "rt_scheduler_lock_nest s = 0"
      "rt_schedule code s = Some s'" "sched_ok s'" "outside s' = outside s" "suspend_thread s' = suspend_thread s"
      "threads s' = (threads s)(c \<mapsto> (if state_of th = RT_THREAD_RUNNING then set_stat RT_THREAD_READY
          (th\<lparr>th_stat := th_stat th AND NOT RT_THREAD_STAT_YIELD\<rparr>) else th),
        t := map_option (set_stat RT_THREAD_RUNNING) (threads s t))"
    have "rt_thread_ready_priority_group s \<noteq> 0" using A(1) by (auto simp: scheduler_get_highest_def Let_def)
    from get_highest [OF K(2) this] A(1) obtain tth where
      tth: "threads s t = Some tth" "state_of tth = RT_THREAD_READY" by (auto simp: ready_at_def)
    have "thread_ok s'" by (rule ok' [OF A(5,6)]) (use A(2,8) th tth in \<open>auto split: if_splits\<close>)
    with A(2,4,7,8) th tth frame_outside [OF A(6)] show ?thesis
      by (auto simp: sched_step_def doubleton_eq_iff split: if_splits)
  qed
qed

end
