(* ===== verification/Thread_Steps.thy ===== *)
theory Thread_Steps
  imports Thread_Correct
begin

text \<open>
  Every operation of \<^verbatim>\<open>thread.c\<close> that a started system calls is a move of threads: it returns,
  keeps the invariant, and lets threads leave the lists of IPC objects only.
\<close>

text \<open>A thread that has been started and has not ended.\<close>

definition alive :: "'x sched_scheme \<Rightarrow> nat \<Rightarrow> bool" where
  "alive s t \<longleftrightarrow> (\<exists>th. threads s t = Some th \<and> state_of th \<noteq> RT_THREAD_INIT \<and> state_of th \<noteq> RT_THREAD_CLOSE)"

lemma alive_upd:
  assumes "threads s' = (threads s)(t \<mapsto> set_stat v th')"
    and "v = RT_THREAD_READY \<or> v = RT_THREAD_RUNNING \<or> v = RT_THREAD_SUSPEND" and "alive s u"
  shows "alive s' u"
  using assms by (auto simp: alive_def)

lemma alive_mask [simp]: "alive (s\<lparr>primask := m\<rparr>) = alive s"
  by (simp add: alive_def fun_eq_iff)

lemma alive_upd_thread:
  assumes "\<And>th. state_of (f th) = state_of th"
  shows "alive (upd_thread t f s) = alive s"
  using assms by (auto simp: alive_def fun_eq_iff)

lemma alive_same: "threads s' = threads s \<Longrightarrow> alive s' = alive s"
  by (simp add: alive_def fun_eq_iff)

definition thread_move :: "'x sched_scheme \<Rightarrow> 'x sched_scheme \<Rightarrow> bool" where
  "thread_move s s' \<longleftrightarrow> thread_ok s' \<and> sched.more s' = sched.more s \<and> primask s' = primask s \<and>
     rt_interrupt_nest s' = rt_interrupt_nest s \<and> rt_scheduler_lock_nest s' = rt_scheduler_lock_nest s \<and>
     objects s' = objects s \<and> (\<forall>a. set (suspend_thread s' a) \<subseteq> set (suspend_thread s a)) \<and>
     (rt_current_thread s = None \<longleftrightarrow> rt_current_thread s' = None) \<and> (\<forall>t. alive s t \<longrightarrow> alive s' t)"

lemma thread_move_trans [trans]: "thread_move s1 s2 \<Longrightarrow> thread_move s2 s3 \<Longrightarrow> thread_move s1 s3"
  unfolding thread_move_def by fastforce

lemma thread_move_refl: "thread_ok s \<Longrightarrow> thread_move s s"
  by (simp add: thread_move_def)

lemma move_of_frame:
  "thread_ok s' \<Longrightarrow> frame s' s \<Longrightarrow> suspend_thread s' = suspend_thread s \<Longrightarrow>
   (rt_current_thread s' = None \<longleftrightarrow> rt_current_thread s = None) \<Longrightarrow> (\<And>t. alive s t \<Longrightarrow> alive s' t) \<Longrightarrow>
   thread_move s s'"
  by (auto simp: thread_move_def frame_def)

lemma schedule_move:
  assumes ok: "thread_ok s" and cur: "rt_current_thread s \<noteq> None"
  shows "\<exists>s'. rt_schedule code s = Some s' \<and> thread_move s s' \<and> sched_step s s'"
proof -
  from cur obtain c where c: "rt_current_thread s = Some c" by auto
  from schedule_step [OF ok c, of code] obtain s' where
    s': "rt_schedule code s = Some s'" "sched_step s s'" by blast
  from sched_invD(10) [OF thread_okD(2) [OF ok] c] obtain th where th: "threads s c = Some th" by auto
  have "rt_current_thread s' \<noteq> None"
    by (rule rt_schedule_cases [OF thread_okD(1) [OF ok] c th, of code]) (use s' c in auto)
  moreover have "alive s' t" if "alive s t" for t
    using s'(2) that by (fastforce simp: sched_step_def alive_def doubleton_eq_iff)
  ultimately show ?thesis using s' cur by (auto simp: sched_step_def intro!: move_of_frame)
qed

section \<open>Changes in place\<close>

lemma upd_other_ok:
  assumes ok: "thread_ok s" and keep: "\<And>th. threads s t = Some th \<Longrightarrow> state_of (f th) = state_of th \<and>
      current_priority (f th) = current_priority th \<and> number_mask (f th) = number_mask th \<and>
      stack_fine (f th) = stack_fine th"
  shows "thread_ok (upd_thread t f s)" and "frame (upd_thread t f s) s"
proof -
  note K = thread_okD [OF ok]
  show fr: "frame (upd_thread t f s) s" by (rule frame_outside) simp
  show "thread_ok (upd_thread t f s)"
  proof (cases "threads s t")
    case None
    then have "same_lists (upd_thread t f s) s" by (auto simp: same_lists_def)
    then show ?thesis using ok fr thread_ok_same by blast
  next
    case (Some th)
    have "sched_inv {} (upd_thread t f s)" by (rule sched_inv_upd_other [OF K(2)]) (use keep in blast)
    then show ?thesis
      using Some keep [OF Some] K(3-6) frameD [OF fr] unfolding thread_ok_def sched_ok_def
      by (auto split: if_splits)
  qed
qed

lemma sched_inv_upd_unready:
  assumes "sched_inv {} s" and "threads s t = Some th" and "state_of th \<noteq> RT_THREAD_READY"
    and "state_of (f th) = state_of th"
    and "unat (current_priority (f th)) < 32 \<and> number_mask (f th) = 2 ^ unat (current_priority (f th))"
  shows "sched_inv {} (upd_thread t f s)"
proof -
  note I = sched_invD [OF assms(1)]
  have ra: "ready_at {} (upd_thread t f s) p u = ready_at {} s p u" for p u
    using assms(2-4) by (auto simp: ready_at_def)
  have sus: "state_of th = RT_THREAD_SUSPEND" if "t \<in> set (suspend_thread s a)" for a
    using I(7) [OF that] assms(2) by auto
  show ?thesis unfolding sched_inv_def ra
    using I assms(2-5) sus by (auto split: if_splits)
qed

lemma priority_mask: "push_bit n 1 = (2 ^ n :: u32)"
  by (simp add: push_bit_eq_mult)

lemma change_priority_ok:
  assumes ok: "thread_ok s" and th: "threads s t = Some th" and p: "unat p < 32"
    and st: "state_of th \<noteq> RT_THREAD_INIT"
  shows "\<exists>s'. change_priority t p s = Some s' \<and> thread_ok s' \<and> frame s' s \<and>
    suspend_thread s' = suspend_thread s \<and> rt_current_thread s' = rt_current_thread s \<and>
    (\<exists>th'. threads s' = (threads s)(t \<mapsto> th') \<and> current_priority th' = p \<and> state_of th' = state_of th \<and>
       th_error th' = th_error th \<and> init_priority th' = init_priority th)"
proof -
  note K = thread_okD [OF ok]
  note I = sched_invD [OF K(2)]
  let ?s1 = "s\<lparr>primask := 1\<rparr>"
  have inv1: "sched_inv {} ?s1" and th1: "threads ?s1 t = Some th" using K(2) th by (simp_all add: irq_outside)
  have keep: "stack_fine (set_priority p th) = stack_fine th" "state_of (set_priority p th) = state_of th"
    by (simp_all add: set_priority_def stack_fine_def)
  have close: "state_of x \<noteq> RT_THREAD_CLOSE" if "state_of x = RT_THREAD_READY" for x using that by simp
  show ?thesis
  proof (cases "state_of th = RT_THREAD_READY")
    case True
    note rem = remove_thread_eq [OF inv1 th1 st] sched_inv_removed [OF inv1 th1 st]
    let ?s3 = "upd_thread t (set_priority p) (removed t th ?s1)"
    have inv3: "sched_inv {t} ?s3"
      by (rule sched_inv_upd_loose [OF rem(2)]) (use p th in \<open>auto simp: set_priority_def priority_mask\<close>)
    have nc: "rt_current_thread s \<noteq> Some t" using K(5) [of t th] th True by auto
    from insert_back [OF inv3 _ _ _, of t "set_priority p th"] th nc st obtain s4 where
      s4: "rt_schedule_insert_thread t ?s3 = Some s4" "sched_inv {} s4"
        "threads s4 = (threads s)(t \<mapsto> set_stat RT_THREAD_READY (set_priority p th))"
        "suspend_thread s4 = suspend_thread ?s3" "rt_current_thread s4 = rt_current_thread s" "outside s4 = outside ?s1"
      by (auto simp: back_state_def set_priority_def)
    let ?s' = "s4\<lparr>primask := primask s\<rparr>"
    have "t \<notin> set (suspend_thread s a)" for a using I(7) [of t a] th True by auto
    then have sus: "suspend_thread ?s' = suspend_thread s" by (intro ext) (simp add: s4(4) remove1_idem)
    have fr: "frame ?s' s" by (rule frame_outside, rule irq_outside(4)) (rule s4(6))
    have run: "change_priority t p s = Some ?s'"
      using True rem(1) s4(1) by (simp add: change_priority_def th irq_defs Let_def)
    have "thread_ok ?s'"
    proof (rule thread_ok_upd [OF ok fr _ th _ _ close [OF True]])
      show "sched_inv {} ?s'" using s4(2) by (simp add: irq_outside)
      show "threads ?s' = (threads s)(t \<mapsto> set_stat RT_THREAD_READY (set_priority p th))" using s4(3) by simp
      show "stack_fine (set_stat RT_THREAD_READY (set_priority p th)) = stack_fine th" using keep by simp
      show "state_of x \<noteq> RT_THREAD_READY \<and> state_of x \<noteq> RT_THREAD_INIT"
        if "rt_current_thread ?s' = Some c" "threads ?s' c = Some x" for c x
        using that K(5) [of c x] s4(3,5) nc by (auto split: if_splits)
    qed
    then show ?thesis using run fr sus s4 True
      by (intro exI [of _ ?s']) (auto simp: set_priority_def intro!: exI [of _ "set_stat RT_THREAD_READY (set_priority p th)"])
  next
    case False
    let ?s' = "upd_thread t (set_priority p) s"
    have run: "change_priority t p s = Some ?s'"
      using False by (simp add: change_priority_def th irq_defs Let_def upd_thread_def)
    have inv: "sched_inv {} ?s'"
      by (rule sched_inv_upd_unready [where f = "set_priority p", OF K(2) th False keep(2)]) (use p in \<open>simp add: set_priority_def priority_mask\<close>)
    have fr: "frame ?s' s" by (rule frame_outside) simp
    have "thread_ok ?s'"
      using inv K(3-6) th keep frameD [OF fr] unfolding thread_ok_def sched_ok_def by (auto split: if_splits)
    then show ?thesis using run fr th keep
      by (intro exI [of _ ?s']) (auto simp: set_priority_def intro!: exI [of _ "set_priority p th"])
  qed
qed

section \<open>The operations as moves\<close>

lemma enable_same:
  assumes "primask s = m"
  shows "s\<lparr>primask := m\<rparr> = s"
  using assms by simp

lemma suspend_move:
  assumes "thread_ok s" and "threads s t = Some th"
    and "state_of th = RT_THREAD_READY \<or> state_of th = RT_THREAD_RUNNING"
  shows "\<exists>s'. rt_thread_suspend code t s = Some (RT_EOK, s') \<and> thread_move s s'"
  using suspend_ok [OF assms, of code] by (auto intro!: move_of_frame elim: alive_upd)

lemma resume_move:
  assumes "thread_ok s" and "threads s t = Some th" and "state_of th = RT_THREAD_SUSPEND"
  shows "\<exists>s'. rt_thread_resume code t s = Some (RT_EOK, s') \<and> thread_move s s'"
proof -
  from resume_ok [OF assms, of code] obtain s' where
    s': "rt_thread_resume code t s = Some (RT_EOK, s')" "thread_ok s'" "frame s' s"
      "threads s' = (threads s)(t \<mapsto> set_stat (back_state s t) th)"
      "suspend_thread s' = (\<lambda>a. remove1 t (suspend_thread s a))"
      "rt_current_thread s' = rt_current_thread s" by blast
  have "alive s' u" if "alive s u" for u
    by (rule alive_upd [OF s'(4) _ that]) (simp add: back_state_def)
  with s' have "thread_move s s'"
    by (auto simp: thread_move_def frame_def dest: set_remove1_subset [THEN subsetD])
  with s'(1) show ?thesis by blast
qed

lemma timeout_move:
  assumes ok: "thread_ok s" and th: "threads s t = Some th" and st: "state_of th = RT_THREAD_SUSPEND"
    and cur: "rt_current_thread s \<noteq> None"
  shows "\<exists>s'. rt_thread_timeout code t s = Some s' \<and> thread_move s s'"
proof -
  let ?f = "\<lambda>th. th\<lparr>th_error := - RT_ETIMEOUT\<rparr>"
  let ?e = "upd_thread t ?f s"
  have E: "thread_ok ?e" "frame ?e s" by (rule upd_other_ok [OF ok]; simp add: stack_fine_def)+
  have the: "threads ?e t = Some (?f th)" using th by simp
  note K = thread_okD [OF E(1)]
  let ?s2 = "tlist_remove t (?e\<lparr>primask := 1\<rparr>)"
  have st': "state_of (?f th) \<noteq> RT_THREAD_READY" "state_of (?f th) \<noteq> RT_THREAD_INIT"
    "state_of (?f th) \<noteq> RT_THREAD_CLOSE" using st by auto
  have inv2: "sched_inv {t} ?s2"
    by (rule sched_inv_tlist_remove [OF _ _ st'(1)]) (use K(2) the in \<open>simp_all add: irq_outside\<close>)
  from insert_back [OF inv2 _ _ st'(2), of t] the obtain s3 where
    s3: "rt_schedule_insert_thread t ?s2 = Some s3" "sched_inv {} s3"
      "threads s3 = (threads s)(t \<mapsto> set_stat (back_state s t) (?f th))"
      "suspend_thread s3 = (\<lambda>a. remove1 t (suspend_thread s a))"
      "rt_current_thread s3 = rt_current_thread s" "outside s3 = outside (?e\<lparr>primask := 1\<rparr>)"
    by (auto simp: back_state_def)
  let ?s4 = "s3\<lparr>primask := primask s\<rparr>"
  have "outside ?s4 = outside ?e" using irq_outside(4) [where s' = s3 and s = ?e and m = 1] s3(6) by simp
  then have fr4: "frame ?s4 ?e" by (rule frame_outside)
  have ok4: "thread_ok ?s4"
  proof (rule thread_ok_upd [OF E(1) fr4 _ the _ _ st'(3)])
    show "sched_inv {} ?s4" using s3(2) by (simp add: irq_outside)
    show "threads ?s4 = (threads ?e)(t \<mapsto> set_stat (back_state s t) (?f th))" using s3(3) by simp
    show "state_of x \<noteq> RT_THREAD_READY \<and> state_of x \<noteq> RT_THREAD_INIT"
      if "rt_current_thread ?s4 = Some c" "threads ?s4 c = Some x" for c x
      using that K(5) [of c x] s3(3,5) by (auto simp: back_state_def split: if_splits)
  qed simp
  have al: "alive ?s4 u" if "alive s u" for u
    by (rule alive_upd [OF _ _ that, of _ t "back_state s t"]) (use s3(3) in \<open>auto simp: back_state_def\<close>)
  have m: "thread_move s ?s4"
    using ok4 frame_trans [OF fr4 E(2)] s3(4,5) al
    by (auto simp: thread_move_def frame_def dest: set_remove1_subset [THEN subsetD])
  from schedule_move [OF ok4, of code] cur s3(5) obtain s5 where
    s5: "rt_schedule code ?s4 = Some s5" "thread_move ?s4 s5" by auto
  have "rt_thread_timeout code t s = rt_schedule code ?s4"
  proof -
    have "upd_thread t ?f (s\<lparr>primask := 1\<rparr>) = ?e\<lparr>primask := 1\<rparr>" by (simp add: upd_thread_def)
    then show ?thesis
      using st thread_okD(6) [OF ok th] s3(1) by (simp add: rt_thread_timeout_def th irq_defs)
  qed
  with s5 thread_move_trans [OF m] show ?thesis by auto
qed

lemma yield_bit: "(x OR 8) AND 7 = x AND (7 :: u8)"
proof -
  have "(8 :: u8) AND 7 = 0" by simp
  then show ?thesis by (simp add: bit.conj_disj_distrib2)
qed

lemma yield_move:
  assumes ok: "thread_ok s" and cur: "rt_current_thread s = Some c"
  shows "\<exists>s'. rt_thread_yield code s = Some (RT_EOK, s') \<and> thread_move s s'"
proof -
  let ?f = "\<lambda>th. th\<lparr>remaining_tick := th_init_tick th, th_stat := th_stat th OR RT_THREAD_STAT_YIELD\<rparr>"
  let ?s1 = "s\<lparr>primask := 1\<rparr>"
  have ok1: "thread_ok ?s1"
    using ok unfolding thread_ok_def sched_ok_def
    by (simp add: irq_outside masked)
  have E: "thread_ok (upd_thread c ?f ?s1)" "frame (upd_thread c ?f ?s1) ?s1"
    by (rule upd_other_ok [OF ok1]; simp add: stack_fine_def yield_bit)+
  from schedule_move [OF E(1), of code] cur obtain s3 where
    s3: "rt_schedule code (upd_thread c ?f ?s1) = Some s3" "thread_move (upd_thread c ?f ?s1) s3" by auto
  have "thread_ok (s3\<lparr>primask := primask s\<rparr>)"
    using s3(2) by (simp add: thread_move_def thread_ok_def sched_ok_def irq_outside masked)
  moreover have al: "alive (upd_thread c ?f ?s1) = alive s"
    by (subst alive_upd_thread) (simp_all add: yield_bit)
  moreover have "sched.more (upd_thread c ?f ?s1) = sched.more s" by (simp add: upd_thread_def)
  ultimately have "thread_move s (s3\<lparr>primask := primask s\<rparr>)"
    using s3(2) al by (auto simp: thread_move_def)
  with s3(1) show ?thesis by (simp add: rt_thread_yield_def rt_thread_self_def cur irq_defs)
qed

lemma suspend_for_ok:
  assumes ok: "thread_ok s" and cur: "rt_current_thread s = Some t" and th: "threads s t = Some th"
    and st: "state_of th = RT_THREAD_RUNNING" and tick: "tick < TICK_HALF"
  shows "\<exists>s'. suspend_for code t tick s = Some s' \<and> thread_ok s' \<and> frame s' s \<and>
    suspend_thread s' = suspend_thread s \<and> rt_current_thread s' = Some t \<and> (\<forall>u. alive s u \<longrightarrow> alive s' u)"
proof -
  from suspend_ok [OF ok th, of code] st obtain s1 where
    s1: "rt_thread_suspend code t s = Some (RT_EOK, s1)" "thread_ok s1" "frame s1 s"
      "threads s1 = (threads s)(t \<mapsto> set_stat RT_THREAD_SUSPEND th)" "suspend_thread s1 = suspend_thread s"
      "rt_current_thread s1 = rt_current_thread s" by blast
  note K = thread_okD [OF s1(2)]
  from s1(4) have "threads s1 t = Some (set_stat RT_THREAD_SUSPEND th)" by simp
  from K(6) [OF this] have "timer_fine (thread_timer t) s1" by simp
  from start_timer [OF this K(3) tick, of code] obtain s2 where
    s2: "start_thread_timer code t tick s1 = Some s2" "same_lists s2 s1" "frame s2 s1" by blast
  have "alive s2 u" if "alive s u" for u
  proof -
    have "threads s2 = threads s1" using s2(2) by (simp add: same_lists_def)
    moreover have "alive s1 u" by (rule alive_upd [OF s1(4) _ that]) simp
    ultimately show ?thesis by (simp add: alive_def)
  qed
  moreover have "suspend_thread s2 = suspend_thread s" "rt_current_thread s2 = Some t"
    using s1(5,6) s2(2) cur by (simp_all add: same_lists_def)
  moreover have "suspend_for code t tick s = Some s2" using s1(1) s2(1) by (simp add: suspend_for_def)
  ultimately show ?thesis using s1(2) thread_ok_same [OF s2(2,3)] frame_trans [OF s2(3) s1(3)] by blast
qed

lemma sleep_wake_ok:
  assumes "thread_ok s"
  shows "thread_ok (snd (sleep_wake t s)) \<and> frame (snd (sleep_wake t s)) s \<and>
    suspend_thread (snd (sleep_wake t s)) = suspend_thread s \<and>
    rt_current_thread (snd (sleep_wake t s)) = rt_current_thread s \<and> alive (snd (sleep_wake t s)) = alive s"
  using upd_other_ok [OF assms, of t "\<lambda>th. if th_error th = - RT_ETIMEOUT then th\<lparr>th_error := RT_EOK\<rparr> else th"]
    alive_upd_thread [of "\<lambda>th. if th_error th = - RT_ETIMEOUT then th\<lparr>th_error := RT_EOK\<rparr> else th" t s]
  by (auto simp: sleep_wake_def stack_fine_def)

lemma sleep_move:
  assumes ok: "thread_ok s" and cur: "rt_current_thread s = Some t" and th: "threads s t = Some th"
    and st: "state_of th = RT_THREAD_RUNNING" and tick: "tick < TICK_HALF"
  shows "\<exists>r s'. rt_thread_sleep code tick s = Some (r, s') \<and> thread_move s s'"
proof -
  let ?s1 = "s\<lparr>primask := 1\<rparr>"
  have ok1: "thread_ok ?s1" using ok by (simp add: thread_ok_def sched_ok_def irq_outside masked)
  from suspend_for_ok [OF ok1 _ _ st tick, of t code] cur th obtain s2 where
    s2: "suspend_for code t tick ?s1 = Some s2" "thread_ok s2" "frame s2 ?s1" "suspend_thread s2 = suspend_thread s"
      "rt_current_thread s2 = Some t" "\<forall>u. alive s u \<longrightarrow> alive s2 u" by auto
  let ?s3 = "s2\<lparr>primask := primask s\<rparr>"
  have ok3: "thread_ok ?s3" using s2(2) by (simp add: thread_ok_def sched_ok_def irq_outside masked)
  have fr3: "frame ?s3 s" using s2(3) unfolding masked by (simp add: frame_def)
  from schedule_move [OF ok3, of code] s2(5) obtain s4 where
    s4: "rt_schedule code ?s3 = Some s4" "thread_move ?s3 s4" by auto
  have m3: "thread_move s ?s3" by (rule move_of_frame [OF ok3 fr3]) (use s2(4,5,6) cur in auto)
  have m4: "thread_move s s4" by (rule thread_move_trans [OF m3 s4(2)])
  then have W: "thread_ok (snd (sleep_wake t s4))" "frame (snd (sleep_wake t s4)) s4"
    "suspend_thread (snd (sleep_wake t s4)) = suspend_thread s4"
    "rt_current_thread (snd (sleep_wake t s4)) = rt_current_thread s4"
    "alive (snd (sleep_wake t s4)) = alive s4"
    using sleep_wake_ok [of s4 t] by (simp_all add: thread_move_def)
  have "thread_move s4 (snd (sleep_wake t s4))" by (rule move_of_frame [OF W(1,2,3)]) (simp_all add: W(4,5))
  with m4 have m5: "thread_move s (snd (sleep_wake t s4))" by (rule thread_move_trans)
  have "rt_thread_sleep code tick s = go_on t (\<lambda>s. Some (sleep_wake t s)) s4"
    using s2(1) s4(1) thread_okD(6) [OF ok th] st by (simp add: rt_thread_sleep_def rt_thread_self_def cur irq_defs)
  with m4 m5 show ?thesis by (auto simp: go_on_def split: prod.splits)
qed

lemma startup_move:
  assumes ok: "thread_ok s" and th: "threads s t = Some th" and st: "state_of th = RT_THREAD_INIT"
    and p: "unat (init_priority th) < 32"
  shows "\<exists>s'. rt_thread_startup code t s = Some (RT_EOK, s') \<and> thread_move s s'"
proof -
  note K = thread_okD [OF ok]
  let ?f = "\<lambda>th. th\<lparr>current_priority := init_priority th, number_mask := push_bit (unat (init_priority th)) 1,
      th_stat := RT_THREAD_SUSPEND\<rparr>"
  let ?s1 = "upd_thread t ?f s"
  have "sched_inv {t} s" using sched_inv_loosen [OF K(2) th] st by simp
  then have "sched_inv {t} ?s1"
    by (rule sched_inv_upd_loose) (use p th in \<open>auto simp: priority_mask\<close>)
  then have "sched_inv ({t} - {t}) ?s1"
    by (rule sched_inv_settle [where th = "?f th"]) (use th in auto)
  then have inv: "sched_inv {} ?s1" by simp
  have fr: "frame ?s1 s" by (rule frame_outside) simp
  have "rt_current_thread s \<noteq> Some t" using K(5) [OF _ th] st by auto
  then have ok1: "thread_ok ?s1"
    using inv K(3-5) K(6) [OF th] K(6) st th frameD [OF fr] unfolding thread_ok_def sched_ok_def
    by (auto simp: stack_fine_def split: if_splits)
  have th1: "threads ?s1 t = Some (?f th)" using th by simp
  from resume_move [OF ok1 th1, of code] obtain s2 where
    s2: "rt_thread_resume code t ?s1 = Some (RT_EOK, s2)" "thread_move ?s1 s2" by auto
  have "alive ?s1 u" if "alive s u" for u using that by (auto simp: alive_def)
  then have m1: "thread_move s ?s1" by (intro move_of_frame [OF ok1 fr]) simp_all
  have m2: "thread_move s s2" by (rule thread_move_trans [OF m1 s2(2)])
  have "is_thread t s" using K(6) [OF th] st by simp
  then have run: "rt_thread_startup code t s = map_option (Pair RT_EOK)
      (if rt_thread_self s2 \<noteq> None then rt_schedule code s2 else Some s2)"
    using s2(1) st by (simp add: rt_thread_startup_def th map_conv_bind_option comp_def)
  show ?thesis
  proof (cases "rt_current_thread s2")
    case None
    with run m2 show ?thesis by (simp add: rt_thread_self_def)
  next
    case (Some c)
    have "thread_ok s2" using m2 by (simp add: thread_move_def)
    from schedule_move [OF this, of code] Some obtain s3 where
      "rt_schedule code s2 = Some s3" "thread_move s2 s3" by auto
    with run thread_move_trans [OF m2] Some show ?thesis by (simp add: rt_thread_self_def)
  qed
qed

end
