(* ===== verification/Ipc.thy ===== *)
theory Ipc
  imports Thread
begin

text \<open>
  \<^verbatim>\<open>ipc.c\<close>: the data of all IPC objects, the lists of waiting threads, semaphores and
  mutexes. The list of an object is \<open>suspend_thread\<close> at the object's address, the second list of
  mailboxes and message queues at the address of its field. Waiting operations are split as in
  \<^verbatim>\<open>Thread\<close>.
\<close>

abbreviation RT_IPC_FLAG_FIFO :: u8 where "RT_IPC_FLAG_FIFO \<equiv> 0"
abbreviation RT_IPC_FLAG_PRIO :: u8 where "RT_IPC_FLAG_PRIO \<equiv> 1"
abbreviation RT_SEM_VALUE_MAX :: u16 where "RT_SEM_VALUE_MAX \<equiv> 0xFFFF"
abbreviation RT_MUTEX_VALUE_MAX :: u16 where "RT_MUTEX_VALUE_MAX \<equiv> 0xFFFF"
abbreviation RT_MUTEX_HOLD_MAX :: u8 where "RT_MUTEX_HOLD_MAX \<equiv> 0xFF"

record rt_semaphore =
  sem_flag :: u8
  sem_value :: u16

record rt_mutex =
  mx_flag :: u8
  mx_value :: u16
  original_priority :: u8
  mx_hold :: u8
  mx_owner :: "nat option"

record rt_event =
  ev_flag :: u8
  ev_bits :: u32

text \<open>\<open>mb_words\<close> is the memory at \<open>mb_pool\<close>.\<close>

record rt_mailbox =
  mb_flag :: u8
  mb_pool :: nat
  mb_words :: "u32 list"
  mb_size :: u16
  mb_entry :: u16
  in_offset :: u16
  out_offset :: u16

record rt_messagequeue =
  mq_flag :: u8
  mq_pool :: nat
  msg_size :: u16
  max_msgs :: u16
  mq_entry :: u16
  msg_queue_head :: nat
  msg_queue_tail :: nat
  msg_queue_free :: nat

record rt_mempool =
  start_address :: nat
  mp_size :: u32
  block_size :: u32
  block_list :: nat
  block_total_count :: u32
  block_free_count :: u32

text \<open>
  Objects by address. \<open>link_words\<close> holds the pointers at the start of the blocks of message queues
  and memory pools (0 is null), \<open>data_bytes\<close> the messages.
\<close>

record ipc = sched +
  semaphores :: "nat \<Rightarrow> rt_semaphore option"
  mutexes :: "nat \<Rightarrow> rt_mutex option"
  events :: "nat \<Rightarrow> rt_event option"
  mailboxes :: "nat \<Rightarrow> rt_mailbox option"
  queues :: "nat \<Rightarrow> rt_messagequeue option"
  pools :: "nat \<Rightarrow> rt_mempool option"
  link_words :: "nat \<Rightarrow> nat"
  data_bytes :: "nat \<Rightarrow> u8"
  rt_mp_alloc_hook :: "fptr option"
  rt_mp_free_hook :: "fptr option"

section \<open>Lists of waiting threads\<close>

definition ipc_object_init :: "nat \<Rightarrow> 'x sched_scheme \<Rightarrow> 'x sched_scheme" where
  "ipc_object_init a s = s\<lparr>suspend_thread := (suspend_thread s)(a := [])\<rparr>"

definition priority_of :: "'x sched_scheme \<Rightarrow> nat \<Rightarrow> u8" where
  "priority_of s t = (case threads s t of None \<Rightarrow> 0 | Some th \<Rightarrow> current_priority th)"

text \<open>The walk for a list in order of priority: before the first thread of lower priority.\<close>

fun priority_insert :: "(nat \<Rightarrow> u8) \<Rightarrow> nat \<Rightarrow> nat list \<Rightarrow> nat list" where
  "priority_insert prio t [] = [t]"
| "priority_insert prio t (u # us) = (if prio t < prio u then t # u # us else u # priority_insert prio t us)"

definition ipc_list_suspend :: "'x sched_scheme scode \<Rightarrow> nat \<Rightarrow> nat \<Rightarrow> u8 \<Rightarrow> 'x sched_scheme \<Rightarrow>
    'x sched_scheme option" where
  "ipc_list_suspend code a t flag s = do {
     (_, s1) \<leftarrow> rt_thread_suspend code t s;
     let l = suspend_thread s1 a;
     if flag = RT_IPC_FLAG_FIFO
     then Some (s1\<lparr>suspend_thread := (suspend_thread s1)(a := l @ [t])\<rparr>)
     else if flag = RT_IPC_FLAG_PRIO
     then Some (s1\<lparr>suspend_thread := (suspend_thread s1)(a := priority_insert (priority_of s1) t l)\<rparr>)
     else None }"

definition ipc_list_resume :: "'x sched_scheme scode \<Rightarrow> nat \<Rightarrow> 'x sched_scheme \<Rightarrow> 'x sched_scheme option" where
  "ipc_list_resume code a s = (case suspend_thread s a of
     [] \<Rightarrow> None
   | t # _ \<Rightarrow> map_option snd (rt_thread_resume code t s))"

text \<open>\<open>fuel\<close> bounds the threads that are resumed.\<close>

fun ipc_list_resume_all :: "nat \<Rightarrow> 'x sched_scheme scode \<Rightarrow> nat \<Rightarrow> 'x sched_scheme \<Rightarrow> 'x sched_scheme option" where
  "ipc_list_resume_all fuel code a s = (case suspend_thread s a of
     [] \<Rightarrow> Some s
   | t # _ \<Rightarrow> (case fuel of
       0 \<Rightarrow> None
     | Suc fuel' \<Rightarrow> do {
         let (temp, s1) = rt_hw_interrupt_disable s;
         (_, s2) \<leftarrow> rt_thread_resume code t (upd_thread t (\<lambda>th. th\<lparr>th_error := - RT_ERROR\<rparr>) s1);
         ipc_list_resume_all fuel' code a (rt_hw_interrupt_enable temp s2) }))"

declare ipc_list_resume_all.simps [simp del]

text \<open>\<^verbatim>\<open>RT_DEBUG_IN_THREAD_CONTEXT\<close>\<close>

definition in_thread_context :: "'x sched_scheme \<Rightarrow> bool" where
  "in_thread_context s \<longleftrightarrow> rt_thread_self s \<noteq> None \<and> rt_interrupt_nest s = 0"

section \<open>Semaphores\<close>

definition is_sem :: "nat \<Rightarrow> 'x sched_scheme \<Rightarrow> bool" where
  "is_sem a s \<longleftrightarrow> rt_object_get_type a s = Some (class_val RT_Object_Class_Semaphore)"

definition set_sem :: "nat \<Rightarrow> rt_semaphore \<Rightarrow> 'x ipc_scheme \<Rightarrow> 'x ipc_scheme" where
  "set_sem a sem s = s\<lparr>semaphores := (semaphores s)(a \<mapsto> sem)\<rparr>"

definition rt_sem_init :: "'x ipc_scheme scode \<Rightarrow> nat \<Rightarrow> string \<Rightarrow> u32 \<Rightarrow> u8 \<Rightarrow> 'x ipc_scheme \<Rightarrow>
    (rt_err \<times> 'x ipc_scheme) option" where
  "rt_sem_init code a name value flag s = do {
     RT_ASSERT (value < 0x10000);
     s1 \<leftarrow> rt_object_init (s_code code) a (class_val RT_Object_Class_Semaphore) name s;
     Some (RT_EOK, set_sem a \<lparr>sem_flag = flag, sem_value = ucast value\<rparr> (ipc_object_init a s1)) }"

definition rt_sem_detach :: "nat \<Rightarrow> 'x ipc_scheme scode \<Rightarrow> nat \<Rightarrow> 'x ipc_scheme \<Rightarrow>
    (rt_err \<times> 'x ipc_scheme) option" where
  "rt_sem_detach fuel code a s = do {
     RT_ASSERT (is_sem a s);
     RT_ASSERT (rt_object_is_systemobject a s = Some True);
     s1 \<leftarrow> ipc_list_resume_all fuel code a s;
     Some (RT_EOK, rt_object_detach (s_code code) a s1) }"

text \<open>\<open>mem\<close> is the new object's memory.\<close>

definition rt_sem_create :: "'x ipc_scheme scode \<Rightarrow> nat option \<Rightarrow> string \<Rightarrow> u32 \<Rightarrow> u8 \<Rightarrow> 'x ipc_scheme \<Rightarrow>
    (nat option \<times> 'x ipc_scheme) option" where
  "rt_sem_create code mem name value flag s = do {
     RT_ASSERT (rt_interrupt_nest s = 0);
     RT_ASSERT (value < 0x10000);
     (r, s1) \<leftarrow> rt_object_allocate (s_code code) mem (class_val RT_Object_Class_Semaphore) name s;
     case r of None \<Rightarrow> Some (None, s1)
     | Some a \<Rightarrow> Some (Some a, set_sem a \<lparr>sem_flag = flag, sem_value = ucast value\<rparr> (ipc_object_init a s1)) }"

definition rt_sem_delete :: "nat \<Rightarrow> 'x ipc_scheme scode \<Rightarrow> nat \<Rightarrow> 'x ipc_scheme \<Rightarrow>
    (rt_err \<times> 'x ipc_scheme) option" where
  "rt_sem_delete fuel code a s = do {
     RT_ASSERT (rt_interrupt_nest s = 0);
     RT_ASSERT (is_sem a s);
     RT_ASSERT (rt_object_is_systemobject a s = Some False);
     s1 \<leftarrow> ipc_list_resume_all fuel code a s;
     s2 \<leftarrow> rt_object_delete (s_code code) a s1;
     Some (RT_EOK, s2\<lparr>semaphores := (semaphores s2)(a := None)\<rparr>) }"

text \<open>The end of a take, when the thread runs again.\<close>

definition ipc_taken :: "'x sched_scheme scode \<Rightarrow> nat \<Rightarrow> nat \<Rightarrow> 'x sched_scheme \<Rightarrow>
    (rt_err \<times> 'x sched_scheme) option" where
  "ipc_taken code a t s = do {
     th \<leftarrow> threads s t;
     if th_error th \<noteq> RT_EOK then Some (th_error th, s)
     else Some (RT_EOK, rt_object_hook_call (s_code code) (rt_object_take_hook s) a s) }"

text \<open>Suspend the thread on the object and start its timer when there is a limit.\<close>

definition wait_on :: "'x sched_scheme scode \<Rightarrow> nat \<Rightarrow> nat \<Rightarrow> u8 \<Rightarrow> int \<Rightarrow> 'x sched_scheme \<Rightarrow>
    'x sched_scheme option" where
  "wait_on code a t flag time s = do {
     s1 \<leftarrow> ipc_list_suspend code a t flag s;
     if 0 < time then start_thread_timer code t (of_int time) s1 else Some s1 }"

definition clear_error :: "nat \<Rightarrow> 'x sched_scheme \<Rightarrow> 'x sched_scheme" where
  "clear_error t = upd_thread t (\<lambda>th. th\<lparr>th_error := RT_EOK\<rparr>)"

definition rt_sem_take :: "'x ipc_scheme scode \<Rightarrow> nat \<Rightarrow> int \<Rightarrow> 'x ipc_scheme \<Rightarrow>
    (rt_err progress \<times> 'x ipc_scheme) option" where
  "rt_sem_take code a time s = do {
     RT_ASSERT (is_sem a s);
     let (temp, s1) = rt_hw_interrupt_disable (rt_object_hook_call (s_code code) (rt_object_trytake_hook s) a s);
     sem \<leftarrow> semaphores s1 a;
     if 0 < sem_value sem
     then let s2 = rt_hw_interrupt_enable temp (set_sem a (sem\<lparr>sem_value := sem_value sem - 1\<rparr>) s1)
          in Some (Returned RT_EOK, rt_object_hook_call (s_code code) (rt_object_take_hook s2) a s2)
     else if time = 0 then Some (Returned (- RT_ETIMEOUT), rt_hw_interrupt_enable temp s1)
     else do {
       RT_ASSERT (in_thread_context s1);
       t \<leftarrow> rt_thread_self s1;
       s2 \<leftarrow> wait_on code a t (sem_flag sem) time (clear_error t s1);
       s3 \<leftarrow> rt_schedule code (rt_hw_interrupt_enable temp s2);
       go_on t (ipc_taken code a t) s3 } }"

definition rt_sem_trytake :: "'x ipc_scheme scode \<Rightarrow> nat \<Rightarrow> 'x ipc_scheme \<Rightarrow>
    (rt_err progress \<times> 'x ipc_scheme) option" where
  "rt_sem_trytake code a = rt_sem_take code a 0"

definition rt_sem_release :: "'x ipc_scheme scode \<Rightarrow> nat \<Rightarrow> 'x ipc_scheme \<Rightarrow> (rt_err \<times> 'x ipc_scheme) option" where
  "rt_sem_release code a s = do {
     RT_ASSERT (is_sem a s);
     let (temp, s1) = rt_hw_interrupt_disable (rt_object_hook_call (s_code code) (rt_object_put_hook s) a s);
     sem \<leftarrow> semaphores s1 a;
     if suspend_thread s1 a \<noteq> []
     then do {
       s2 \<leftarrow> ipc_list_resume code a s1;
       map_option (Pair RT_EOK) (rt_schedule code (rt_hw_interrupt_enable temp s2)) }
     else if sem_value sem < RT_SEM_VALUE_MAX
     then Some (RT_EOK, rt_hw_interrupt_enable temp (set_sem a (sem\<lparr>sem_value := sem_value sem + 1\<rparr>) s1))
     else Some (- RT_EFULL, rt_hw_interrupt_enable temp s1) }"

text \<open>Command 1 is \<^verbatim>\<open>RT_IPC_CMD_RESET\<close>.\<close>

definition rt_sem_control :: "nat \<Rightarrow> 'x ipc_scheme scode \<Rightarrow> nat \<Rightarrow> nat \<Rightarrow> u32 \<Rightarrow> 'x ipc_scheme \<Rightarrow>
    (rt_err \<times> 'x ipc_scheme) option" where
  "rt_sem_control fuel code a cmd arg s = do {
     RT_ASSERT (is_sem a s);
     if cmd = 1
     then do {
       let (level, s1) = rt_hw_interrupt_disable s;
       s2 \<leftarrow> ipc_list_resume_all fuel code a s1;
       sem \<leftarrow> semaphores s2 a;
       map_option (Pair RT_EOK) (rt_schedule code
         (rt_hw_interrupt_enable level (set_sem a (sem\<lparr>sem_value := ucast arg\<rparr>) s2))) }
     else Some (- RT_ERROR, s) }"

section \<open>Mutexes\<close>

definition is_mutex :: "nat \<Rightarrow> 'x sched_scheme \<Rightarrow> bool" where
  "is_mutex a s \<longleftrightarrow> rt_object_get_type a s = Some (class_val RT_Object_Class_Mutex)"

definition set_mutex :: "nat \<Rightarrow> rt_mutex \<Rightarrow> 'x ipc_scheme \<Rightarrow> 'x ipc_scheme" where
  "set_mutex a m s = s\<lparr>mutexes := (mutexes s)(a \<mapsto> m)\<rparr>"

definition mutex_new :: rt_mutex where
  "mutex_new = \<lparr>mx_flag = RT_IPC_FLAG_PRIO, mx_value = 1, original_priority = 0xFF, mx_hold = 0, mx_owner = None\<rparr>"

definition rt_mutex_init :: "'x ipc_scheme scode \<Rightarrow> nat \<Rightarrow> string \<Rightarrow> u8 \<Rightarrow> 'x ipc_scheme \<Rightarrow>
    (rt_err \<times> 'x ipc_scheme) option" where
  "rt_mutex_init code a name flag s = do {
     s1 \<leftarrow> rt_object_init (s_code code) a (class_val RT_Object_Class_Mutex) name s;
     Some (RT_EOK, set_mutex a mutex_new (ipc_object_init a s1)) }"

definition rt_mutex_detach :: "nat \<Rightarrow> 'x ipc_scheme scode \<Rightarrow> nat \<Rightarrow> 'x ipc_scheme \<Rightarrow>
    (rt_err \<times> 'x ipc_scheme) option" where
  "rt_mutex_detach fuel code a s = do {
     RT_ASSERT (is_mutex a s);
     RT_ASSERT (rt_object_is_systemobject a s = Some True);
     s1 \<leftarrow> ipc_list_resume_all fuel code a s;
     Some (RT_EOK, rt_object_detach (s_code code) a s1) }"

definition rt_mutex_create :: "'x ipc_scheme scode \<Rightarrow> nat option \<Rightarrow> string \<Rightarrow> u8 \<Rightarrow> 'x ipc_scheme \<Rightarrow>
    (nat option \<times> 'x ipc_scheme) option" where
  "rt_mutex_create code mem name flag s = do {
     RT_ASSERT (rt_interrupt_nest s = 0);
     (r, s1) \<leftarrow> rt_object_allocate (s_code code) mem (class_val RT_Object_Class_Mutex) name s;
     case r of None \<Rightarrow> Some (None, s1)
     | Some a \<Rightarrow> Some (Some a, set_mutex a mutex_new (ipc_object_init a s1)) }"

definition rt_mutex_delete :: "nat \<Rightarrow> 'x ipc_scheme scode \<Rightarrow> nat \<Rightarrow> 'x ipc_scheme \<Rightarrow>
    (rt_err \<times> 'x ipc_scheme) option" where
  "rt_mutex_delete fuel code a s = do {
     RT_ASSERT (rt_interrupt_nest s = 0);
     RT_ASSERT (is_mutex a s);
     RT_ASSERT (rt_object_is_systemobject a s = Some False);
     s1 \<leftarrow> ipc_list_resume_all fuel code a s;
     s2 \<leftarrow> rt_object_delete (s_code code) a s1;
     Some (RT_EOK, s2\<lparr>mutexes := (mutexes s2)(a := None)\<rparr>) }"

text \<open>A mutex is not free: lend the owner the priority of the thread, then wait.\<close>

definition mutex_wait :: "'x ipc_scheme scode \<Rightarrow> nat \<Rightarrow> rt_mutex \<Rightarrow> nat \<Rightarrow> int \<Rightarrow> 'x ipc_scheme \<Rightarrow>
    'x ipc_scheme option" where
  "mutex_wait code a m t time s = do {
     own \<leftarrow> mx_owner m;
     oth \<leftarrow> threads s own;
     th \<leftarrow> threads s t;
     s1 \<leftarrow> (if current_priority th < current_priority oth
       then map_option snd (rt_thread_control code own 2 (current_priority th) s) else Some s);
     wait_on code a t (mx_flag m) time s1 }"

definition rt_mutex_take :: "'x ipc_scheme scode \<Rightarrow> nat \<Rightarrow> int \<Rightarrow> 'x ipc_scheme \<Rightarrow>
    (rt_err progress \<times> 'x ipc_scheme) option" where
  "rt_mutex_take code a time s = do {
     RT_ASSERT (in_thread_context s);
     RT_ASSERT (is_mutex a s);
     t \<leftarrow> rt_thread_self s;
     let (temp, s0) = rt_hw_interrupt_disable s;
     let s1 = clear_error t (rt_object_hook_call (s_code code) (rt_object_trytake_hook s0) a s0);
     m \<leftarrow> mutexes s1 a;
     th \<leftarrow> threads s1 t;
     let finish = (\<lambda>s. let s' = rt_hw_interrupt_enable temp s
       in Some (Returned RT_EOK, rt_object_hook_call (s_code code) (rt_object_take_hook s') a s'));
     if mx_owner m = Some t
     then (if mx_hold m < RT_MUTEX_HOLD_MAX then finish (set_mutex a (m\<lparr>mx_hold := mx_hold m + 1\<rparr>) s1)
           else Some (Returned (- RT_EFULL), rt_hw_interrupt_enable temp s1))
     else if 0 < mx_value m
     then let m' = m\<lparr>mx_value := mx_value m - 1, mx_owner := Some t, original_priority := current_priority th\<rparr>
          in (if mx_hold m < RT_MUTEX_HOLD_MAX then finish (set_mutex a (m'\<lparr>mx_hold := mx_hold m + 1\<rparr>) s1)
              else Some (Returned (- RT_EFULL), rt_hw_interrupt_enable temp (set_mutex a m' s1)))
     else if time = 0
     then Some (Returned (- RT_ETIMEOUT), rt_hw_interrupt_enable temp
            (upd_thread t (\<lambda>th. th\<lparr>th_error := - RT_ETIMEOUT\<rparr>) s1))
     else do {
       s2 \<leftarrow> mutex_wait code a m t time s1;
       s3 \<leftarrow> rt_schedule code (rt_hw_interrupt_enable temp s2);
       go_on t (ipc_taken code a t) s3 } }"

definition rt_mutex_trytake :: "'x ipc_scheme scode \<Rightarrow> nat \<Rightarrow> 'x ipc_scheme \<Rightarrow>
    (rt_err progress \<times> 'x ipc_scheme) option" where
  "rt_mutex_trytake code a = rt_mutex_take code a 0"

text \<open>
  The last hold is given up: the owner's old priority, then the next owner or none. The hold
  count is 0 here, so the test for its maximum in the code always succeeds.
\<close>

definition mutex_hand_over :: "'x ipc_scheme scode \<Rightarrow> u32 \<Rightarrow> nat \<Rightarrow> rt_mutex \<Rightarrow> nat \<Rightarrow> 'x ipc_scheme \<Rightarrow>
    (rt_err \<times> 'x ipc_scheme) option" where
  "mutex_hand_over code temp a m t s = do {
     th \<leftarrow> threads s t;
     s1 \<leftarrow> (if original_priority m \<noteq> current_priority th
       then map_option snd (rt_thread_control code t 2 (original_priority m) s) else Some s);
     case suspend_thread s1 a of
       [] \<Rightarrow> (if mx_value m < RT_MUTEX_VALUE_MAX
         then Some (RT_EOK, rt_hw_interrupt_enable temp (set_mutex a
                (m\<lparr>mx_value := mx_value m + 1, mx_owner := None, original_priority := 0xFF\<rparr>) s1))
         else Some (- RT_EFULL, rt_hw_interrupt_enable temp s1))
     | u # _ \<Rightarrow> do {
         uth \<leftarrow> threads s1 u;
         s2 \<leftarrow> ipc_list_resume code a (set_mutex a (m\<lparr>mx_owner := Some u,
            original_priority := current_priority uth, mx_hold := mx_hold m + 1\<rparr>) s1);
         map_option (Pair RT_EOK) (rt_schedule code (rt_hw_interrupt_enable temp s2)) } }"

definition rt_mutex_release :: "'x ipc_scheme scode \<Rightarrow> nat \<Rightarrow> 'x ipc_scheme \<Rightarrow> (rt_err \<times> 'x ipc_scheme) option" where
  "rt_mutex_release code a s = do {
     RT_ASSERT (is_mutex a s);
     RT_ASSERT (in_thread_context s);
     t \<leftarrow> rt_thread_self s;
     let (temp, s0) = rt_hw_interrupt_disable s;
     let s1 = rt_object_hook_call (s_code code) (rt_object_put_hook s0) a s0;
     m \<leftarrow> mutexes s1 a;
     if mx_owner m \<noteq> Some t
     then Some (- RT_ERROR, rt_hw_interrupt_enable temp (upd_thread t (\<lambda>th. th\<lparr>th_error := - RT_ERROR\<rparr>) s1))
     else let m' = m\<lparr>mx_hold := mx_hold m - 1\<rparr>; s2 = set_mutex a m' s1
          in if mx_hold m' = 0 then mutex_hand_over code temp a m' t s2
             else Some (RT_EOK, rt_hw_interrupt_enable temp s2) }"

definition rt_mutex_control :: "nat \<Rightarrow> 'x ipc_scheme \<Rightarrow> (rt_err \<times> 'x ipc_scheme) option" where
  "rt_mutex_control a s = do { RT_ASSERT (is_mutex a s); Some (- RT_ERROR, s) }"

section \<open>The waiting loop\<close>

text \<open>
  The waiting loop that mailboxes, message queues and memory pools share: while the object cannot
  serve the request, get in line and let others run; after the wake-up look again, with the time
  that is left.
\<close>

text \<open>
  The parts of the loop that differ: the condition, the refusal when no time is left, the way into
  the list, the result when the wait has failed, and what follows the loop. A word is the saved mask.
\<close>

record ('r, 's) waiting_op =
  must_wait :: "'s \<Rightarrow> bool option"
  refusal :: "u32 \<Rightarrow> 's \<Rightarrow> 'r \<times> 's"
  get_in_line :: "int \<Rightarrow> 's \<Rightarrow> 's option"
  failed :: "rt_err \<Rightarrow> 'r"
  served :: "u32 \<Rightarrow> 's \<Rightarrow> ('r \<times> 's) option"

text \<open>
  \<open>Pending time start\<close>: the thread has given the processor away in a wait of \<open>time\<close> ticks that
  began at tick \<open>start\<close>.
\<close>

datatype 'r pending = Finished 'r | Pending int u32

text \<open>\<^verbatim>\<open>timeout -= rt_tick_get() - tick_delta; if (timeout < 0) timeout = 0;\<close>\<close>

definition time_left :: "int \<Rightarrow> u32 \<Rightarrow> u32 \<Rightarrow> int" where
  "time_left time start now = (if 0 < time then max 0 (sint (of_int time - (now - start) :: u32)) else time)"

text \<open>What the thread does when it runs again; \<open>again\<close> is the next round of the loop.\<close>

definition woken_up :: "nat \<Rightarrow> int \<Rightarrow> u32 \<Rightarrow> (rt_err \<Rightarrow> 'r) \<Rightarrow>
    (u32 \<Rightarrow> int \<Rightarrow> 'x sched_scheme \<Rightarrow> ('r pending \<times> 'x sched_scheme) option) \<Rightarrow>
    'x sched_scheme \<Rightarrow> ('r pending \<times> 'x sched_scheme) option" where
  "woken_up t time start fail again s = do {
     th \<leftarrow> threads s t;
     if th_error th \<noteq> RT_EOK then Some (Finished (fail (th_error th)), s)
     else let (temp, s1) = rt_hw_interrupt_disable s
          in again temp (time_left time start (rt_tick_get s1)) s1 }"

text \<open>
  \<open>fuel\<close> bounds the rounds in which the scheduler comes back at once; it does so only when no
  other thread is ready or it is locked.
\<close>

fun wait_loop :: "nat \<Rightarrow> 'x sched_scheme scode \<Rightarrow> ('r, 'x sched_scheme) waiting_op \<Rightarrow> nat option \<Rightarrow>
    u32 \<Rightarrow> int \<Rightarrow> 'x sched_scheme \<Rightarrow> ('r pending \<times> 'x sched_scheme) option" where
  "wait_loop fuel code ops self temp time s = do {
     full \<leftarrow> must_wait ops s;
     if \<not> full then map_option (map_prod Finished id) (served ops temp s)
     else if time = 0 then Some (map_prod Finished id (refusal ops temp s))
     else do {
       s1 \<leftarrow> get_in_line ops time s;
       let start = rt_tick_get s1;
       s2 \<leftarrow> rt_schedule code (rt_hw_interrupt_enable temp s1);
       t \<leftarrow> self;
       if rt_current_thread s2 \<noteq> Some t then Some (Pending time start, s2)
       else (case fuel of
         0 \<Rightarrow> None
       | Suc fuel' \<Rightarrow> woken_up t time start (failed ops) (wait_loop fuel' code ops self) s2) } }"

declare wait_loop.simps [simp del]

text \<open>
  Serve one waiting thread of the list \<open>l\<close>; \<open>between\<close> is done before the scheduler runs.
\<close>

definition wake_one :: "'x sched_scheme scode \<Rightarrow> nat \<Rightarrow> u32 \<Rightarrow> ('x sched_scheme \<Rightarrow> 'x sched_scheme) \<Rightarrow>
    'x sched_scheme \<Rightarrow> 'x sched_scheme option" where
  "wake_one code l temp between s =
    (if suspend_thread s l \<noteq> []
     then do {
       s1 \<leftarrow> ipc_list_resume code l s;
       rt_schedule code (between (rt_hw_interrupt_enable temp s1)) }
     else Some (between (rt_hw_interrupt_enable temp s)))"

text \<open>Reset the thread's error, check the context, suspend it in the list \<open>l\<close>, start its timer.\<close>

definition line_up :: "'x sched_scheme scode \<Rightarrow> nat \<Rightarrow> nat option \<Rightarrow> u8 \<Rightarrow> int \<Rightarrow> 'x sched_scheme \<Rightarrow>
    'x sched_scheme option" where
  "line_up code l self flag time s = do {
     t \<leftarrow> self;
     RT_ASSERT (in_thread_context s);
     wait_on code l t flag time (clear_error t s) }"

end
