(* ===== verification/Ipc_Correct.thy ===== *)
theory Ipc_Correct
  imports Thread_Steps Ipc
begin

text \<open>
  The lists of waiting threads: getting in line and being woken keep the invariant of the
  threads and touch one list only.
\<close>

section \<open>States that differ in the IPC objects\<close>

lemma thread_ok_cong:
  assumes "threads s' = threads s" "rt_thread_priority_table s' = rt_thread_priority_table s"
    "rt_thread_ready_priority_group s' = rt_thread_ready_priority_group s"
    "suspend_thread s' = suspend_thread s" "rt_current_thread s' = rt_current_thread s"
    "objects s' = objects s" "dom (timers s') = dom (timers s)" "hooks_off s' = hooks_off s"
  shows "thread_ok s' = thread_ok s"
proof -
  have "timers s' a \<noteq> None \<longleftrightarrow> timers s a \<noteq> None" for a using assms(7) unfolding domIff [symmetric] by simp
  then have t: "timer_fine a s' = timer_fine a s" for a
    using assms(6) by (simp add: timer_fine_def is_timer_def rt_object_get_type_def)
  have i: "is_thread a s' = is_thread a s" for a using assms(6) by (simp add: is_thread_def rt_object_get_type_def)
  show ?thesis
    unfolding thread_ok_def sched_ok_def sched_inv_cong [OF assms(2,3,1,4,5)] assms(1,5,8) t i ..
qed

lemma thread_ok_mask [simp]: "thread_ok (s\<lparr>primask := m\<rparr>) = thread_ok s"
  by (rule thread_ok_cong) (simp_all add: masked)

text \<open>The fields that IPC adds to the state, equal at once.\<close>

lemma same_ipc:
  assumes "sched.more s' = sched.more s"
  shows "semaphores s' = semaphores s" "mutexes s' = mutexes s" "events s' = events s" "mailboxes s' = mailboxes s"
    "queues s' = queues s" "pools s' = pools s" "link_words s' = link_words s" "data_bytes s' = data_bytes s"
    "rt_mp_alloc_hook s' = rt_mp_alloc_hook s" "rt_mp_free_hook s' = rt_mp_free_hook s"
  using assms by (cases s; cases s'; simp)+

lemma hook_calls_off [simp]:
  assumes "hooks_off s"
  shows "rt_object_hook_call code (rt_object_put_hook s) a s = s"
    "rt_object_hook_call code (rt_object_take_hook s) a s = s"
    "rt_object_hook_call code (rt_object_trytake_hook s) a s = s"
  using assms by (simp_all add: hooks_off_def)

section \<open>Waking\<close>

text \<open>What a wake-up keeps; the list of the object may lose its first thread.\<close>

definition woke :: "nat \<Rightarrow> 'x sched_scheme \<Rightarrow> 'x sched_scheme \<Rightarrow> bool" where
  "woke l s s' \<longleftrightarrow> thread_ok s' \<and> sched.more s' = sched.more s \<and> rt_interrupt_nest s' = rt_interrupt_nest s \<and>
     rt_scheduler_lock_nest s' = rt_scheduler_lock_nest s \<and> objects s' = objects s \<and>
     rt_current_thread s' \<noteq> None \<and> (\<forall>t. alive s t \<longrightarrow> alive s' t) \<and>
     suspend_thread s' = (suspend_thread s)(l := tl (suspend_thread s l)) \<and> priority_of s' = priority_of s"

lemma step_priority:
  assumes "sched_step s s'"
  shows "priority_of s' = priority_of s"
proof
  fix u
  show "priority_of s' u = priority_of s u"
  proof (cases "threads s u")
    case None
    moreover from None assms have "threads s' u = None" by (simp add: sched_step_def)
    ultimately show ?thesis by (simp add: priority_of_def)
  next
    case (Some th)
    with assms obtain th' where "threads s' u = Some th'" "current_priority th' = current_priority th"
      unfolding sched_step_def by blast
    with Some show ?thesis by (simp add: priority_of_def)
  qed
qed

lemma priority_of_mask [simp]: "priority_of (s\<lparr>primask := m\<rparr>) = priority_of s"
  by (simp add: priority_of_def fun_eq_iff)

lemma remove_first:
  assumes "sched_inv L s" and "suspend_thread s l = t # ts"
  shows "(\<lambda>a. remove1 t (suspend_thread s a)) = (suspend_thread s)(l := ts)"
proof (rule ext)
  fix a
  show "remove1 t (suspend_thread s a) = ((suspend_thread s)(l := ts)) a"
  proof (cases "a = l")
    case True
    with assms(2) show ?thesis by simp
  next
    case False
    then have "t \<notin> set (suspend_thread s a)"
      using sched_invD(8) [OF assms(1), of t a l] assms(2) by auto
    with False show ?thesis by (simp add: remove1_idem)
  qed
qed

text \<open>The first thread of the list is ready again, with the error it had.\<close>

lemma wake_one_first:
  assumes ok: "thread_ok s" and cur: "rt_current_thread s \<noteq> None" and l: "suspend_thread s l = t # ts"
    and between: "\<And>s. hooks_off s \<Longrightarrow> between s = s"
  shows "\<exists>s' th th'. wake_one code l temp between s = Some s' \<and> woke l s s' \<and> primask s' = temp \<and>
    threads s t = Some th \<and> threads s' t = Some th' \<and> th_error th' = th_error th \<and>
    state_of th' \<in> {RT_THREAD_READY, RT_THREAD_RUNNING}"
proof -
  note I = sched_invD [OF thread_okD(2) [OF ok]]
  from I(7) [of t l] l obtain th where th: "threads s t = Some th" "state_of th = RT_THREAD_SUSPEND" by auto
  from resume_ok [OF ok th, of code] obtain s1 where
    s1: "rt_thread_resume code t s = Some (RT_EOK, s1)" "thread_ok s1" "frame s1 s"
      "threads s1 = (threads s)(t \<mapsto> set_stat (back_state s t) th)"
      "suspend_thread s1 = (\<lambda>a. remove1 t (suspend_thread s a))" "rt_current_thread s1 = rt_current_thread s" by blast
  let ?s2 = "s1\<lparr>primask := temp\<rparr>"
  have b: "between ?s2 = ?s2" by (rule between) (use thread_okD(3) [OF s1(2)] in \<open>simp add: masked\<close>)
  from schedule_move [of ?s2 code] s1(2,6) cur obtain s3 where
    s3: "rt_schedule code ?s2 = Some s3" "thread_move ?s2 s3" "sched_step ?s2 s3" by auto
  have run: "wake_one code l temp between s = Some s3"
    using l s1(1) s3(1) b by (simp add: wake_one_def ipc_list_resume_def irq_defs)
  have al: "alive s1 u" if "alive s u" for u
    by (rule alive_upd [OF s1(4) _ that]) (simp add: back_state_def)
  have sus: "suspend_thread s3 = (suspend_thread s)(l := ts)"
    using s3(3) s1(5) remove_first [OF thread_okD(2) [OF ok] l] by (simp add: sched_step_def)
  have "priority_of s1 = priority_of s" using s1(4) th(1) by (simp add: priority_of_def fun_eq_iff)
  then have prio: "priority_of s3 = priority_of s" using step_priority [OF s3(3)] by simp
  have woke: "woke l s s3"
    using prio s3(2,3) frameD [OF s1(3)] al s1(6) cur sus l unfolding woke_def thread_move_def sched_step_def
    by (auto dest: frameD)
  have "threads ?s2 t = Some (set_stat (back_state s t) th)" using s1(4) by simp
  with s3(3) obtain th' where th': "threads s3 t = Some th'" "th_error th' = th_error (set_stat (back_state s t) th)"
      "state_of th' = state_of (set_stat (back_state s t) th) \<or>
       {state_of (set_stat (back_state s t) th), state_of th'} = {RT_THREAD_READY, RT_THREAD_RUNNING}"
    unfolding sched_step_def by blast
  have b: "state_of (set_stat (back_state s t) th) = back_state s t" by (simp add: back_state_def)
  have "th_error th' = th_error th" using th'(2) by (simp add: set_stat_def)
  moreover have "state_of th' \<in> {RT_THREAD_READY, RT_THREAD_RUNNING}"
    using th'(3) back_state_values [of s t] unfolding b by (auto simp: doubleton_eq_iff)
  moreover have "primask s3 = temp" using s3(2) by (simp add: thread_move_def)
  ultimately show ?thesis using run woke th(1) th'(1) by blast
qed

lemma wake_one_ok:
  assumes ok: "thread_ok s" and cur: "rt_current_thread s \<noteq> None"
    and between: "\<And>s. hooks_off s \<Longrightarrow> between s = s"
  shows "\<exists>s'. wake_one code l temp between s = Some s' \<and> woke l s s' \<and> primask s' = temp"
proof (cases "suspend_thread s l")
  case Nil
  have "hooks_off (s\<lparr>primask := temp\<rparr>)" using thread_okD(3) [OF ok] by (simp add: masked)
  with Nil ok cur show ?thesis
    by (auto simp: wake_one_def irq_defs between woke_def)
next
  case (Cons t ts)
  from wake_one_first [OF ok cur Cons between, of code temp] show ?thesis by blast
qed

section \<open>Getting in line\<close>

lemma join_list:
  assumes ok: "thread_ok s" and cur: "rt_current_thread s = Some t" and th: "threads s t = Some th"
    and st: "state_of th = RT_THREAD_SUSPEND" and free: "\<And>b. t \<notin> set (suspend_thread s b)"
    and l: "suspend_thread s a = xs @ ys"
    and s': "s' = s\<lparr>suspend_thread := (suspend_thread s)(a := xs @ t # ys)\<rparr>"
  shows "thread_ok s'" "frame s' s" "threads s' = threads s" "rt_current_thread s' = Some t"
proof -
  note K = thread_okD [OF ok]
  have "sched_inv {} s'" unfolding s' by (rule sched_inv_wait [OF K(2) _ th st free l]) simp
  moreover show fr: "frame s' s" unfolding s' by (rule frame_outside) simp
  moreover show "threads s' = threads s" "rt_current_thread s' = Some t" using cur by (simp_all add: s')
  ultimately show "thread_ok s'"
    using K(3-6) frameD [OF fr] unfolding thread_ok_def sched_ok_def cur by (simp add: cur)
qed

lemma priority_insert_split: "\<exists>xs ys. l = xs @ ys \<and> priority_insert prio t l = xs @ t # ys"
proof (induction l)
  case Nil
  show ?case by simp
next
  case (Cons u us)
  show ?case
  proof (cases "prio t < prio u")
    case True
    then show ?thesis by (intro exI [of _ "[]"] exI [of _ "u # us"]) simp
  next
    case False
    from Cons.IH obtain xs ys where "us = xs @ ys" "priority_insert prio t us = xs @ t # ys" by blast
    with False show ?thesis by (intro exI [of _ "u # xs"] exI [of _ ys]) simp
  qed
qed

text \<open>The running thread \<open>t\<close> waits in the list \<open>l\<close>, at some place.\<close>

definition in_line :: "nat \<Rightarrow> nat \<Rightarrow> 'x sched_scheme \<Rightarrow> 'x sched_scheme \<Rightarrow> bool" where
  "in_line l t s s' \<longleftrightarrow> thread_ok s' \<and> frame s' s \<and> rt_current_thread s' = Some t \<and>
     threads s' = (threads s)(t := map_option (set_stat RT_THREAD_SUSPEND) (threads s t)) \<and>
     (\<exists>xs ys. suspend_thread s l = xs @ ys \<and> suspend_thread s' = (suspend_thread s)(l := xs @ t # ys))"

lemma in_line_alive: "in_line l t s s' \<Longrightarrow> alive s u \<Longrightarrow> alive s' u"
  by (auto simp: in_line_def alive_def)

lemma wait_in_place:
  assumes ok: "thread_ok s" and cur: "rt_current_thread s = Some t" and th: "threads s t = Some th"
    and st: "state_of th = RT_THREAD_RUNNING" and tick: "0 < time \<longrightarrow> (of_int time :: u32) < TICK_HALF"
    and s1: "rt_thread_suspend code t s = Some (r, s1)" and l: "suspend_thread s1 a = xs @ ys"
    and s2: "s2 = s1\<lparr>suspend_thread := (suspend_thread s1)(a := xs @ t # ys)\<rparr>"
  shows "\<exists>s'. (if 0 < time then start_thread_timer code t (of_int time) s2 else Some s2) = Some s' \<and> in_line a t s s'"
proof -
  from suspend_ok [OF ok th, of code] st s1 have
    S: "thread_ok s1" "frame s1 s" "threads s1 = (threads s)(t \<mapsto> set_stat RT_THREAD_SUSPEND th)"
      "suspend_thread s1 = suspend_thread s" "rt_current_thread s1 = rt_current_thread s"
      "\<And>b. t \<notin> set (suspend_thread s b)" by auto
  have th1: "threads s1 t = Some (set_stat RT_THREAD_SUSPEND th)" "state_of (set_stat RT_THREAD_SUSPEND th) = RT_THREAD_SUSPEND"
    using S(3) by simp_all
  have J: "thread_ok s2" "frame s2 s1" "threads s2 = threads s1" "rt_current_thread s2 = Some t"
    using join_list [OF S(1) _ th1 _ l s2] S(4,5,6) cur by auto
  have sus: "suspend_thread s2 = (suspend_thread s)(a := xs @ t # ys)" "suspend_thread s a = xs @ ys"
    using l S(4) by (simp_all add: s2)
  have frs: "frame s2 s" by (rule frame_trans [OF J(2) S(2)])
  have ths: "threads s2 = (threads s)(t := map_option (set_stat RT_THREAD_SUSPEND) (threads s t))"
    using J(3) S(3) th by simp
  show ?thesis
  proof (cases "0 < time")
    case False
    then show ?thesis using J(1,4) frs ths sus by (auto simp: in_line_def)
  next
    case True
    note K = thread_okD [OF J(1)]
    have "timer_fine (thread_timer t) s2" using K(6) [of t] J(3) th1 by simp
    from start_timer [OF this K(3), of "of_int time" code] True tick obtain s3 where
      s3: "start_thread_timer code t (of_int time) s2 = Some s3" "same_lists s3 s2" "frame s3 s2" by auto
    have "thread_ok s3" using thread_ok_same [OF s3(2,3)] J(1) by simp
    moreover have "frame s3 s" by (rule frame_trans [OF s3(3) frs])
    moreover have "rt_current_thread s3 = Some t" "threads s3 = threads s2" "suspend_thread s3 = suspend_thread s2"
      using s3(2) J(4) by (simp_all add: same_lists_def)
    ultimately have "in_line a t s s3" unfolding in_line_def using ths sus
      by (intro conjI exI [of _ xs] exI [of _ ys]) simp_all
    with True s3(1) show ?thesis by simp
  qed
qed

lemma wait_on_ok:
  assumes ok: "thread_ok s" and cur: "rt_current_thread s = Some t" and th: "threads s t = Some th"
    and st: "state_of th = RT_THREAD_RUNNING" and tick: "0 < time \<longrightarrow> (of_int time :: u32) < TICK_HALF"
    and flag: "flag = RT_IPC_FLAG_FIFO \<or> flag = RT_IPC_FLAG_PRIO"
  shows "\<exists>s'. wait_on code a t flag time s = Some s' \<and> in_line a t s s'"
proof -
  from suspend_ok [OF ok th, of code] st obtain s1 where
    s1: "rt_thread_suspend code t s = Some (RT_EOK, s1)" by blast
  from priority_insert_split [of "suspend_thread s1 a" "priority_of s1" t] obtain us vs where
    uv: "suspend_thread s1 a = us @ vs" "priority_insert (priority_of s1) t (suspend_thread s1 a) = us @ t # vs" by blast
  obtain xs ys where l: "suspend_thread s1 a = xs @ ys" and
    j: "ipc_list_suspend code a t flag s = Some (s1\<lparr>suspend_thread := (suspend_thread s1)(a := xs @ t # ys)\<rparr>)"
  proof (cases "flag = RT_IPC_FLAG_FIFO")
    case True
    show ?thesis by (rule that [of "suspend_thread s1 a" "[]"]) (use True s1 in \<open>simp_all add: ipc_list_suspend_def\<close>)
  next
    case False
    show ?thesis by (rule that [OF uv(1)]) (use False flag s1 uv(2) in \<open>simp_all add: ipc_list_suspend_def\<close>)
  qed
  from wait_in_place [OF ok cur th st tick s1 l refl] j show ?thesis by (simp add: wait_on_def)
qed

section \<open>New objects\<close>

lemma object_init_ok:
  assumes ok: "thread_ok s" and new: "objects s a = None" and off: "rt_object_attach_hook s = None"
    and init: "rt_object_init code a ty name s = Some s'"
  shows "thread_ok s' \<and> suspend_thread s' = suspend_thread s \<and> rt_current_thread s' = rt_current_thread s \<and>
    sched.more s' = sched.more s \<and> primask s' = primask s \<and> rt_interrupt_nest s' = rt_interrupt_nest s \<and>
    rt_scheduler_lock_nest s' = rt_scheduler_lock_nest s"
proof -
  from init off obtain c ob where s': "s' = s\<lparr>objects := (objects s)(a \<mapsto> ob),
      object_container := (object_container s)(c := a # object_container s c)\<rparr>"
    by (auto simp: rt_object_init_def irq_defs object_link_def split: option.splits if_splits)
  have t: "is_thread u s'" if "is_thread u s" for u using that new by (auto simp: s' is_thread_def rt_object_get_type_def)
  have i: "timer_fine u s'" if "timer_fine u s" for u
    using that new by (auto simp: s' timer_fine_def is_timer_def rt_object_get_type_def)
  have "sched_inv {} s' = sched_inv {} s" by (rule sched_inv_cong) (simp_all add: s')
  moreover have "hooks_off s' = hooks_off s" by (simp add: s' hooks_off_def)
  ultimately have "thread_ok s'" using ok t i unfolding thread_ok_def sched_ok_def by (simp add: s')
  then show ?thesis by (simp add: s')
qed

end
