(* ===== verification/Mailbox.thy ===== *)
theory Mailbox
  imports Ipc
begin

text \<open>
  The mailboxes of \<^verbatim>\<open>ipc.c\<close>: a ring of words with a list of waiting receivers and one of
  waiting senders. An operation that waits returns \<open>Pending\<close>; the \<open>_woken\<close> definition beside it is
  what the thread does when it runs again.
\<close>

abbreviation RT_MB_ENTRY_MAX :: u16 where "RT_MB_ENTRY_MAX \<equiv> 0xFFFF"

definition is_mailbox :: "nat \<Rightarrow> 'x sched_scheme \<Rightarrow> bool" where
  "is_mailbox a s \<longleftrightarrow> rt_object_get_type a s = Some (class_val RT_Object_Class_MailBox)"

definition put_mailbox :: "nat \<Rightarrow> rt_mailbox \<Rightarrow> 'x ipc_scheme \<Rightarrow> 'x ipc_scheme" where
  "put_mailbox a mb s = s\<lparr>mailboxes := (mailboxes s)(a \<mapsto> mb)\<rparr>"

text \<open>\<^verbatim>\<open>&mb->suspend_sender_thread\<close>: the offset of the field in the structure.\<close>

definition mb_senders :: "nat \<Rightarrow> nat" where "mb_senders a = a + 40"

section \<open>Life\<close>

definition mailbox_new :: "nat \<Rightarrow> u32 list \<Rightarrow> u32 \<Rightarrow> u8 \<Rightarrow> rt_mailbox" where
  "mailbox_new pool ws sz flag = \<lparr>mb_flag = flag, mb_pool = pool, mb_words = ws, mb_size = ucast sz,
     mb_entry = 0, in_offset = 0, out_offset = 0\<rparr>"

text \<open>\<open>ws\<close> is the memory behind \<^verbatim>\<open>msgpool\<close>.\<close>

definition rt_mb_init :: "'x ipc_scheme scode \<Rightarrow> nat \<Rightarrow> string \<Rightarrow> nat \<Rightarrow> u32 list \<Rightarrow> u32 \<Rightarrow> u8 \<Rightarrow> 'x ipc_scheme \<Rightarrow>
    (rt_err \<times> 'x ipc_scheme) option" where
  "rt_mb_init code a name msgpool ws sz flag s = do {
     s1 \<leftarrow> rt_object_init (s_code code) a (class_val RT_Object_Class_MailBox) name s;
     Some (RT_EOK, ipc_object_init (mb_senders a)
       (put_mailbox a (mailbox_new msgpool ws sz flag) (ipc_object_init a s1))) }"

text \<open>Both lists of a mailbox or message queue: the receivers, then the senders.\<close>

definition resume_both :: "nat \<Rightarrow> 'x sched_scheme scode \<Rightarrow> nat \<Rightarrow> nat \<Rightarrow> 'x sched_scheme \<Rightarrow> 'x sched_scheme option" where
  "resume_both fuel code a b s = do {
     s1 \<leftarrow> ipc_list_resume_all fuel code a s;
     ipc_list_resume_all fuel code b s1 }"

definition rt_mb_detach :: "nat \<Rightarrow> 'x ipc_scheme scode \<Rightarrow> nat \<Rightarrow> 'x ipc_scheme \<Rightarrow>
    (rt_err \<times> 'x ipc_scheme) option" where
  "rt_mb_detach fuel code a s = do {
     RT_ASSERT (is_mailbox a s);
     RT_ASSERT (rt_object_is_systemobject a s = Some True);
     s1 \<leftarrow> resume_both fuel code a (mb_senders a) s;
     Some (RT_EOK, rt_object_detach (s_code code) a s1) }"

text \<open>
  \<open>mem\<close> is the new object's memory, \<open>pool\<close> that of its words, which has the size asked for when
  there is one; the product of the size and four is taken in 32 bits.
\<close>

definition rt_mb_create :: "'x ipc_scheme scode \<Rightarrow> nat option \<Rightarrow> (u32 \<Rightarrow> (nat \<times> u32 list) option) \<Rightarrow> string \<Rightarrow>
    u32 \<Rightarrow> u8 \<Rightarrow> 'x ipc_scheme \<Rightarrow> (nat option \<times> 'x ipc_scheme) option" where
  "rt_mb_create code mem pool name sz flag s = do {
     RT_ASSERT (rt_interrupt_nest s = 0);
     (r, s1) \<leftarrow> rt_object_allocate (s_code code) mem (class_val RT_Object_Class_MailBox) name s;
     case r of None \<Rightarrow> Some (None, s1)
     | Some a \<Rightarrow>
         let s2 = ipc_object_init a s1
         in (case pool (ucast (ucast sz :: u16) * 4) of
           None \<Rightarrow> do {
             s3 \<leftarrow> rt_object_delete (s_code code) a s2;
             Some (None, s3) }
         | Some (p, ws) \<Rightarrow> Some (Some a, ipc_object_init (mb_senders a)
             (put_mailbox a (mailbox_new p ws sz flag) s2))) }"

definition rt_mb_delete :: "nat \<Rightarrow> 'x ipc_scheme scode \<Rightarrow> nat \<Rightarrow> 'x ipc_scheme \<Rightarrow>
    (rt_err \<times> 'x ipc_scheme) option" where
  "rt_mb_delete fuel code a s = do {
     RT_ASSERT (rt_interrupt_nest s = 0);
     RT_ASSERT (is_mailbox a s);
     RT_ASSERT (rt_object_is_systemobject a s = Some False);
     s1 \<leftarrow> resume_both fuel code a (mb_senders a) s;
     mb \<leftarrow> mailboxes s1 a;
     s2 \<leftarrow> rt_object_delete (s_code code) a (s1\<lparr>heap_freed := mb_pool mb # heap_freed s1\<rparr>);
     Some (RT_EOK, s2\<lparr>mailboxes := (mailboxes s2)(a := None)\<rparr>) }"

section \<open>Sending\<close>

text \<open>\<^verbatim>\<open>++ offset; if (offset >= size) offset = 0;\<close>\<close>

definition next_offset :: "u16 \<Rightarrow> u16 \<Rightarrow> u16" where
  "next_offset sz i = (if sz \<le> i + 1 then 0 else i + 1)"

text \<open>A write to the pool; \<open>None\<close> outside it.\<close>

definition write_word :: "u16 \<Rightarrow> u32 \<Rightarrow> rt_mailbox \<Rightarrow> rt_mailbox option" where
  "write_word i v mb = (if unat i < length (mb_words mb)
     then Some (mb\<lparr>mb_words := (mb_words mb)[unat i := v]\<rparr>) else None)"

definition mb_store :: "'x ipc_scheme scode \<Rightarrow> nat \<Rightarrow> u32 \<Rightarrow> u32 \<Rightarrow> 'x ipc_scheme \<Rightarrow>
    (rt_err \<times> 'x ipc_scheme) option" where
  "mb_store code a v temp s = do {
     mb \<leftarrow> mailboxes s a;
     mb1 \<leftarrow> write_word (in_offset mb) v mb;
     let mb2 = mb1\<lparr>in_offset := next_offset (mb_size mb) (in_offset mb)\<rparr>;
     if mb_entry mb < RT_MB_ENTRY_MAX
     then map_option (Pair RT_EOK) (wake_one code a temp id (put_mailbox a (mb2\<lparr>mb_entry := mb_entry mb + 1\<rparr>) s))
     else Some (- RT_EFULL, rt_hw_interrupt_enable temp (put_mailbox a mb2 s)) }"

definition mb_full :: "nat \<Rightarrow> 'x ipc_scheme \<Rightarrow> bool option" where
  "mb_full a s = map_option (\<lambda>mb. mb_entry mb = mb_size mb) (mailboxes s a)"

definition clear_self :: "nat option \<Rightarrow> 'x sched_scheme \<Rightarrow> 'x sched_scheme" where
  "clear_self self s = (case self of None \<Rightarrow> s | Some t \<Rightarrow> clear_error t s)"

definition mb_send_op :: "'x ipc_scheme scode \<Rightarrow> nat \<Rightarrow> nat option \<Rightarrow> u32 \<Rightarrow> (rt_err, 'x ipc_scheme) waiting_op" where
  "mb_send_op code a self v =
    \<lparr>must_wait = mb_full a,
     refusal = (\<lambda>temp s. (- RT_EFULL, rt_hw_interrupt_enable temp (clear_self self s))),
     get_in_line = (\<lambda>time s. do { mb \<leftarrow> mailboxes s a; line_up code (mb_senders a) self (mb_flag mb) time s }),
     failed = id,
     served = mb_store code a v\<rparr>"

definition rt_mb_send_wait :: "nat \<Rightarrow> 'x ipc_scheme scode \<Rightarrow> nat \<Rightarrow> u32 \<Rightarrow> int \<Rightarrow> 'x ipc_scheme \<Rightarrow>
    (rt_err pending \<times> 'x ipc_scheme) option" where
  "rt_mb_send_wait fuel code a v timeout s = do {
     RT_ASSERT (is_mailbox a s);
     let self = rt_thread_self s;
     let (temp, s1) = rt_hw_interrupt_disable (rt_object_hook_call (s_code code) (rt_object_put_hook s) a s);
     full \<leftarrow> mb_full a s1;
     if full \<and> timeout = 0 then Some (Finished (- RT_EFULL), rt_hw_interrupt_enable temp s1)
     else wait_loop fuel code (mb_send_op code a self v) self temp timeout s1 }"

definition rt_mb_send_woken :: "nat \<Rightarrow> 'x ipc_scheme scode \<Rightarrow> nat \<Rightarrow> u32 \<Rightarrow> nat \<Rightarrow> int \<Rightarrow> u32 \<Rightarrow> 'x ipc_scheme \<Rightarrow>
    (rt_err pending \<times> 'x ipc_scheme) option" where
  "rt_mb_send_woken fuel code a v t time start =
    woken_up t time start id (wait_loop fuel code (mb_send_op code a (Some t) v) (Some t))"

definition rt_mb_send :: "'x ipc_scheme scode \<Rightarrow> nat \<Rightarrow> u32 \<Rightarrow> 'x ipc_scheme \<Rightarrow>
    (rt_err pending \<times> 'x ipc_scheme) option" where
  "rt_mb_send code a v = rt_mb_send_wait 0 code a v 0"

definition rt_mb_urgent :: "'x ipc_scheme scode \<Rightarrow> nat \<Rightarrow> u32 \<Rightarrow> 'x ipc_scheme \<Rightarrow>
    (rt_err \<times> 'x ipc_scheme) option" where
  "rt_mb_urgent code a v s = do {
     RT_ASSERT (is_mailbox a s);
     let (temp, s1) = rt_hw_interrupt_disable (rt_object_hook_call (s_code code) (rt_object_put_hook s) a s);
     mb \<leftarrow> mailboxes s1 a;
     if mb_entry mb = mb_size mb then Some (- RT_EFULL, rt_hw_interrupt_enable temp s1)
     else do {
       let i = (if 0 < out_offset mb then out_offset mb - 1 else mb_size mb - 1);
       mb1 \<leftarrow> write_word i v mb;
       map_option (Pair RT_EOK) (wake_one code a temp id
         (put_mailbox a (mb1\<lparr>out_offset := i, mb_entry := mb_entry mb + 1\<rparr>) s1)) } }"

section \<open>Receiving\<close>

text \<open>The result carries what is written to \<^verbatim>\<open>*value\<close>.\<close>

definition mb_fetch :: "'x ipc_scheme scode \<Rightarrow> nat \<Rightarrow> u32 \<Rightarrow> 'x ipc_scheme \<Rightarrow>
    ((rt_err \<times> u32 option) \<times> 'x ipc_scheme) option" where
  "mb_fetch code a temp s = do {
     mb \<leftarrow> mailboxes s a;
     v \<leftarrow> (if unat (out_offset mb) < length (mb_words mb) then Some (mb_words mb ! unat (out_offset mb)) else None);
     let mb1 = mb\<lparr>out_offset := next_offset (mb_size mb) (out_offset mb),
                  mb_entry := (if 0 < mb_entry mb then mb_entry mb - 1 else mb_entry mb)\<rparr>;
     s1 \<leftarrow> wake_one code (mb_senders a) temp (\<lambda>s. rt_object_hook_call (s_code code) (rt_object_take_hook s) a s)
       (put_mailbox a mb1 s);
     Some ((RT_EOK, Some v), s1) }"

definition mb_empty :: "nat \<Rightarrow> 'x ipc_scheme \<Rightarrow> bool option" where
  "mb_empty a s = map_option (\<lambda>mb. mb_entry mb = 0) (mailboxes s a)"

text \<open>The refusal within the loop leaves a timeout as the thread's error.\<close>

definition time_out :: "nat option \<Rightarrow> 'x sched_scheme \<Rightarrow> 'x sched_scheme" where
  "time_out self s = (case self of None \<Rightarrow> s | Some t \<Rightarrow> upd_thread t (\<lambda>th. th\<lparr>th_error := - RT_ETIMEOUT\<rparr>) s)"

definition mb_recv_op :: "'x ipc_scheme scode \<Rightarrow> nat \<Rightarrow> nat option \<Rightarrow> (rt_err \<times> u32 option, 'x ipc_scheme) waiting_op" where
  "mb_recv_op code a self =
    \<lparr>must_wait = mb_empty a,
     refusal = (\<lambda>temp s. ((- RT_ETIMEOUT, None), time_out self (rt_hw_interrupt_enable temp s))),
     get_in_line = (\<lambda>time s. do { mb \<leftarrow> mailboxes s a; line_up code a self (mb_flag mb) time s }),
     failed = (\<lambda>e. (e, None)),
     served = mb_fetch code a\<rparr>"

definition rt_mb_recv :: "nat \<Rightarrow> 'x ipc_scheme scode \<Rightarrow> nat \<Rightarrow> int \<Rightarrow> 'x ipc_scheme \<Rightarrow>
    ((rt_err \<times> u32 option) pending \<times> 'x ipc_scheme) option" where
  "rt_mb_recv fuel code a timeout s = do {
     RT_ASSERT (is_mailbox a s);
     let self = rt_thread_self s;
     let (temp, s1) = rt_hw_interrupt_disable (rt_object_hook_call (s_code code) (rt_object_trytake_hook s) a s);
     empty \<leftarrow> mb_empty a s1;
     if empty \<and> timeout = 0 then Some (Finished (- RT_ETIMEOUT, None), rt_hw_interrupt_enable temp s1)
     else wait_loop fuel code (mb_recv_op code a self) self temp timeout s1 }"

definition rt_mb_recv_woken :: "nat \<Rightarrow> 'x ipc_scheme scode \<Rightarrow> nat \<Rightarrow> nat \<Rightarrow> int \<Rightarrow> u32 \<Rightarrow> 'x ipc_scheme \<Rightarrow>
    ((rt_err \<times> u32 option) pending \<times> 'x ipc_scheme) option" where
  "rt_mb_recv_woken fuel code a t time start =
    woken_up t time start (\<lambda>e. (e, None)) (wait_loop fuel code (mb_recv_op code a (Some t)) (Some t))"

text \<open>Command 1 is \<^verbatim>\<open>RT_IPC_CMD_RESET\<close>.\<close>

definition rt_mb_control :: "nat \<Rightarrow> 'x ipc_scheme scode \<Rightarrow> nat \<Rightarrow> nat \<Rightarrow> 'x ipc_scheme \<Rightarrow>
    (rt_err \<times> 'x ipc_scheme) option" where
  "rt_mb_control fuel code a cmd s = do {
     RT_ASSERT (is_mailbox a s);
     if cmd = 1
     then do {
       let (level, s1) = rt_hw_interrupt_disable s;
       s2 \<leftarrow> resume_both fuel code a (mb_senders a) s1;
       mb \<leftarrow> mailboxes s2 a;
       map_option (Pair RT_EOK) (rt_schedule code (rt_hw_interrupt_enable level
         (put_mailbox a (mb\<lparr>mb_entry := 0, in_offset := 0, out_offset := 0\<rparr>) s2))) }
     else Some (- RT_ERROR, s) }"

end
