(* ===== verification/Channel.thy ===== *)
theory Channel
  imports Prelude "HOL-Library.Monad_Syntax"
begin

text \<open>
  The interface of a bounded channel between threads, as a user sees it who does not wait: messages
  are taken in the order they were sent, urgent ones first, and none is lost or made up. Mailboxes and
  message queues provide it; data queues provide the part without urgent messages.
\<close>

datatype 'm chan_op = Send 'm | Urgent 'm | Recv nat

text \<open>A run of operations, with the result of each and the message it returns.\<close>

fun chan_run :: "('m \<Rightarrow> 's \<Rightarrow> (rt_err \<times> 's) option) \<Rightarrow> ('m \<Rightarrow> 's \<Rightarrow> (rt_err \<times> 's) option) \<Rightarrow>
    (nat \<Rightarrow> 's \<Rightarrow> ((rt_err \<times> 'm option) \<times> 's) option) \<Rightarrow> 'm chan_op list \<Rightarrow> 's \<Rightarrow>
    ((rt_err \<times> 'm option) list \<times> 's) option" where
  "chan_run send urgent recv [] s = Some ([], s)"
| "chan_run send urgent recv (Send m # ops) s = do {
     (r, s1) \<leftarrow> send m s;
     (rs, s2) \<leftarrow> chan_run send urgent recv ops s1;
     Some ((r, None) # rs, s2) }"
| "chan_run send urgent recv (Urgent m # ops) s = do {
     (r, s1) \<leftarrow> urgent m s;
     (rs, s2) \<leftarrow> chan_run send urgent recv ops s1;
     Some ((r, None) # rs, s2) }"
| "chan_run send urgent recv (Recv n # ops) s = do {
     (r, s1) \<leftarrow> recv n s;
     (rs, s2) \<leftarrow> chan_run send urgent recv ops s1;
     Some (r # rs, s2) }"

text \<open>
  What the results must be for a channel of \<open>c\<close> places that holds the messages \<open>q\<close>. A receiver with
  room for \<open>n\<close> gets \<open>part n x\<close>, where \<open>x\<close> is what the channel holds for the message; \<open>full\<close> is the
  answer of a full channel.
\<close>

fun delivers :: "rt_err \<Rightarrow> ('m \<Rightarrow> 'm \<Rightarrow> bool) \<Rightarrow> (nat \<Rightarrow> 'm \<Rightarrow> 'm) \<Rightarrow> nat \<Rightarrow> 'm list \<Rightarrow> 'm chan_op list \<Rightarrow>
    (rt_err \<times> 'm option) list \<Rightarrow> 'm list \<Rightarrow> bool" where
  "delivers full holds part c q [] rs q' \<longleftrightarrow> rs = [] \<and> q' = q"
| "delivers full holds part c q (Send m # ops) rs q' \<longleftrightarrow> (\<exists>rest.
     if length q < c then rs = (RT_EOK, None) # rest \<and> delivers full holds part c (q @ [m]) ops rest q'
     else rs = (full, None) # rest \<and> delivers full holds part c q ops rest q')"
| "delivers full holds part c q (Urgent m # ops) rs q' \<longleftrightarrow> (\<exists>rest.
     if length q < c then rs = (RT_EOK, None) # rest \<and> delivers full holds part c (m # q) ops rest q'
     else rs = (full, None) # rest \<and> delivers full holds part c q ops rest q')"
| "delivers full holds part c q (Recv n # ops) rs q' \<longleftrightarrow> (case q of
     [] \<Rightarrow> (\<exists>rest. rs = (- RT_ETIMEOUT, None) # rest \<and> delivers full holds part c [] ops rest q')
   | m # q1 \<Rightarrow> (\<exists>x rest. holds m x \<and> rs = (RT_EOK, Some (part n x)) # rest \<and> delivers full holds part c q1 ops rest q'))"

fun op_valid :: "('m \<Rightarrow> bool) \<Rightarrow> ('m \<Rightarrow> bool) \<Rightarrow> 'm chan_op \<Rightarrow> bool" where
  "op_valid valid prior (Send m) = valid m"
| "op_valid valid prior (Urgent m) = prior m"
| "op_valid valid prior (Recv n) = (0 < n \<and> n < 2 ^ 32)"

locale plain_channel =
  fixes full :: rt_err
    and ok :: "'s \<Rightarrow> bool"
    and contents :: "'s \<Rightarrow> 'm list"
    and c :: nat
    and elsewhere :: "'s \<Rightarrow> 'e"
    and valid :: "'m \<Rightarrow> bool"
    and holds :: "'m \<Rightarrow> 'm \<Rightarrow> bool"
    and part :: "nat \<Rightarrow> 'm \<Rightarrow> 'm"
    and send :: "'m \<Rightarrow> 's \<Rightarrow> (rt_err \<times> 's) option"
    and recv :: "nat \<Rightarrow> 's \<Rightarrow> ((rt_err \<times> 'm option) \<times> 's) option"
  assumes bounded: "ok s \<Longrightarrow> length (contents s) \<le> c"
    and send_room: "ok s \<Longrightarrow> valid m \<Longrightarrow> length (contents s) < c \<Longrightarrow> \<exists>s' x. send m s = Some (RT_EOK, s') \<and>
      ok s' \<and> holds m x \<and> contents s' = contents s @ [x] \<and> elsewhere s' = elsewhere s"
    and send_full: "ok s \<Longrightarrow> valid m \<Longrightarrow> length (contents s) = c \<Longrightarrow> \<exists>s'. send m s = Some (full, s') \<and>
      ok s' \<and> contents s' = contents s \<and> elsewhere s' = elsewhere s"
    and recv_some: "ok s \<Longrightarrow> 0 < n \<Longrightarrow> n < 2 ^ 32 \<Longrightarrow> contents s = x # xs \<Longrightarrow>
      \<exists>s'. recv n s = Some ((RT_EOK, Some (part n x)), s') \<and>
      ok s' \<and> contents s' = xs \<and> elsewhere s' = elsewhere s"
    and recv_none: "ok s \<Longrightarrow> 0 < n \<Longrightarrow> n < 2 ^ 32 \<Longrightarrow> contents s = [] \<Longrightarrow>
      \<exists>s'. recv n s = Some ((- RT_ETIMEOUT, None), s') \<and>
      ok s' \<and> contents s' = [] \<and> elsewhere s' = elsewhere s"

text \<open>With urgent messages, those that \<open>prior\<close> admits.\<close>

locale channel = plain_channel full ok contents c elsewhere valid holds part send recv
  for full :: rt_err and ok :: "'s \<Rightarrow> bool" and contents :: "'s \<Rightarrow> 'm list" and c :: nat
    and elsewhere :: "'s \<Rightarrow> 'e" and valid holds part send recv +
  fixes prior :: "'m \<Rightarrow> bool"
    and urgent :: "'m \<Rightarrow> 's \<Rightarrow> (rt_err \<times> 's) option"
  assumes urgent_room: "ok s \<Longrightarrow> prior m \<Longrightarrow> length (contents s) < c \<Longrightarrow> \<exists>s' x. urgent m s = Some (RT_EOK, s') \<and>
      ok s' \<and> holds m x \<and> contents s' = x # contents s \<and> elsewhere s' = elsewhere s"
    and urgent_full: "ok s \<Longrightarrow> prior m \<Longrightarrow> length (contents s) = c \<Longrightarrow> \<exists>s'. urgent m s = Some (full, s') \<and>
      ok s' \<and> contents s' = contents s \<and> elsewhere s' = elsewhere s"
begin

text \<open>Any run returns, and delivers.\<close>

lemma run_delivers:
  assumes "ok s" and "list_all2 holds q (contents s)" and "list_all (op_valid valid prior) ops"
  shows "\<exists>rs s' q'. chan_run send urgent recv ops s = Some (rs, s') \<and> ok s' \<and>
    delivers full holds part c q ops rs q' \<and> list_all2 holds q' (contents s') \<and> elsewhere s' = elsewhere s"
  using assms
proof (induction ops arbitrary: s q)
  case Nil
  then show ?case by simp
next
  case (Cons op ops)
  have len: "length q = length (contents s)" using Cons.prems(2) by (rule list_all2_lengthD)
  have ops: "list_all (op_valid valid prior) ops" using Cons.prems(3) by simp
  note IH = Cons.IH [OF _ _ ops]
  show ?case
  proof (cases op)
    case (Send m)
    with Cons.prems(3) have m: "valid m" by simp
    show ?thesis
    proof (cases "length (contents s) < c")
      case True
      from send_room [OF Cons.prems(1) m True] obtain s1 x where
        s1: "send m s = Some (RT_EOK, s1)" "ok s1" "holds m x" "contents s1 = contents s @ [x]" "elsewhere s1 = elsewhere s"
        by blast
      have "list_all2 holds (q @ [m]) (contents s1)" using Cons.prems(2) s1(3,4) by (simp add: list_all2_appendI)
      from IH [OF s1(2) this] s1 show ?thesis using True len by (auto simp: Send)
    next
      case False
      with bounded [OF Cons.prems(1)] have "length (contents s) = c" by simp
      from send_full [OF Cons.prems(1) m this] obtain s1 where
        s1: "send m s = Some (full, s1)" "ok s1" "contents s1 = contents s" "elsewhere s1 = elsewhere s" by blast
      from IH [OF s1(2), of q] Cons.prems(2) s1 show ?thesis using False len by (auto simp: Send)
    qed
  next
    case (Urgent m)
    with Cons.prems(3) have m: "prior m" by simp
    show ?thesis
    proof (cases "length (contents s) < c")
      case True
      from urgent_room [OF Cons.prems(1) m True] obtain s1 x where
        s1: "urgent m s = Some (RT_EOK, s1)" "ok s1" "holds m x" "contents s1 = x # contents s" "elsewhere s1 = elsewhere s"
        by blast
      have "list_all2 holds (m # q) (contents s1)" using Cons.prems(2) s1(3,4) by simp
      from IH [OF s1(2) this] s1 show ?thesis using True len by (auto simp: Urgent)
    next
      case False
      with bounded [OF Cons.prems(1)] have "length (contents s) = c" by simp
      from urgent_full [OF Cons.prems(1) m this] obtain s1 where
        s1: "urgent m s = Some (full, s1)" "ok s1" "contents s1 = contents s" "elsewhere s1 = elsewhere s" by blast
      from IH [OF s1(2), of q] Cons.prems(2) s1 show ?thesis using False len by (auto simp: Urgent)
    qed
  next
    case (Recv n)
    with Cons.prems(3) have n: "0 < n" "n < 2 ^ 32" by simp_all
    show ?thesis
    proof (cases "contents s")
      case Nil
      from recv_none [OF Cons.prems(1) n Nil] obtain s1 where
        s1: "recv n s = Some ((- RT_ETIMEOUT, None), s1)" "ok s1" "contents s1 = []" "elsewhere s1 = elsewhere s" by blast
      from IH [OF s1(2), of "[]"] Cons.prems(2) s1 Nil show ?thesis by (auto simp: Recv)
    next
      case (Cons x xs)
      with Cons.prems(2) obtain m q1 where q: "q = m # q1" "holds m x" "list_all2 holds q1 xs"
        by (cases q) auto
      from recv_some [OF Cons.prems(1) n Cons] obtain s1 where
        s1: "recv n s = Some ((RT_EOK, Some (part n x)), s1)" "ok s1" "contents s1 = xs" "elsewhere s1 = elsewhere s" by blast
      from IH [OF s1(2), of q1] q(3) s1(3) obtain rs s' q' where
        "chan_run send urgent recv ops s1 = Some (rs, s')" "ok s'" "delivers full holds part c q1 ops rs q'"
        "list_all2 holds q' (contents s')" "elsewhere s' = elsewhere s1" by auto
      with q(1,2) s1(1,4) show ?thesis
        by (intro exI [of _ "(RT_EOK, Some (part n x)) # rs"] exI [of _ s'] exI [of _ q']) (auto simp: Recv)
    qed
  qed
qed

end

text \<open>A channel without urgent messages is one that admits none.\<close>

sublocale plain_channel \<subseteq> plain: channel full ok contents c elsewhere valid holds part send recv "\<lambda>_. False" "\<lambda>_ _. None"
  by unfold_locales simp_all

end
