(* ===== verification/Mailbox_Correct.thy ===== *)
theory Mailbox_Correct
  imports Ipc_Correct Mailbox Channel
begin

text \<open>
  A mailbox is a bounded channel of words.
\<close>

section \<open>The invariant of a mailbox\<close>

definition mb_wf :: "rt_mailbox \<Rightarrow> bool" where
  "mb_wf mb \<longleftrightarrow> (let c = unat (mb_size mb) in 0 < c \<and> length (mb_words mb) = c \<and> unat (mb_entry mb) \<le> c \<and>
     unat (out_offset mb) < c \<and> unat (in_offset mb) = (unat (out_offset mb) + unat (mb_entry mb)) mod c)"

definition mb_list :: "rt_mailbox \<Rightarrow> u32 list" where
  "mb_list mb = circ (unat (mb_size mb)) (unat (out_offset mb)) (unat (mb_entry mb)) (mb_words mb)"

lemma mb_list_length [simp]: "length (mb_list mb) = unat (mb_entry mb)"
  by (simp add: mb_list_def)

lemma mb_wfD:
  assumes "mb_wf mb"
  shows "0 < unat (mb_size mb)" "length (mb_words mb) = unat (mb_size mb)" "unat (mb_entry mb) \<le> unat (mb_size mb)"
    "unat (out_offset mb) < unat (mb_size mb)" "unat (in_offset mb) < unat (mb_size mb)"
    "unat (in_offset mb) = (unat (out_offset mb) + unat (mb_entry mb)) mod unat (mb_size mb)"
  using assms by (simp_all add: mb_wf_def Let_def)

lemma unat_inc:
  fixes x y :: u16
  assumes "unat x < unat y"
  shows "unat (x + 1) = unat x + 1"
proof -
  have "unat y < 2 ^ LENGTH(16)" by (rule unsigned_less)
  with assms show ?thesis by (simp add: unat_word_ariths(1) take_bit_nat_eq_self)
qed

lemma next_offset_mod:
  assumes "unat i < unat sz"
  shows "unat (next_offset sz i) = (unat i + 1) mod unat sz"
proof (cases "unat i + 1 = unat sz")
  case True
  then show ?thesis using unat_inc [OF assms] by (simp add: next_offset_def word_le_nat_alt)
next
  case False
  with assms show ?thesis using unat_inc [OF assms] by (simp add: next_offset_def word_le_nat_alt)
qed

lemma unat_dec: "(0 :: u16) < x \<Longrightarrow> unat (x - 1) = unat x - 1"
  by (simp add: unat_minus_one word_gt_0)

section \<open>The operations on the ring\<close>

lemma store_wf:
  assumes wf: "mb_wf mb" and room: "mb_entry mb \<noteq> mb_size mb" and w: "write_word (in_offset mb) v mb = Some mb1"
    and mb': "mb' = mb1\<lparr>in_offset := next_offset (mb_size mb) (in_offset mb), mb_entry := mb_entry mb + 1\<rparr>"
  shows "mb_wf mb' \<and> mb_list mb' = mb_list mb @ [v] \<and> mb_size mb' = mb_size mb"
proof -
  note W = mb_wfD [OF wf]
  let ?s = "unat (mb_size mb)" and ?i = "unat (out_offset mb)" and ?n = "unat (mb_entry mb)" and ?j = "unat (in_offset mb)"
  have n: "?n < ?s" using room W(3) by (simp add: order_less_le word_unat_eq_iff)
  have mb1: "mb1 = mb\<lparr>mb_words := (mb_words mb)[?j := v]\<rparr>"
    using w W(2,5) by (simp add: write_word_def)
  have off: "unat (next_offset (mb_size mb) (in_offset mb)) = (?i + Suc ?n) mod ?s"
    using next_offset_mod [OF W(5)] W(6) by (simp add: mod_Suc_eq)
  have e: "unat (mb_entry mb + 1) = Suc ?n" using unat_inc [OF n] by simp
  have "circ ?s ?i ?n ((mb_words mb)[?j := v]) = circ ?s ?i ?n (mb_words mb)"
  proof (rule circ_update)
    fix k assume "k < ?n"
    then show "(?i + k) mod ?s \<noteq> ?j" using mod_inj [of ?i k ?s ?n] n W(6) by auto
  qed
  then have "mb_list mb' = mb_list mb @ [v]"
    using W(2,5,6) e by (simp add: mb_list_def mb' mb1 circ_Suc)
  moreover have "mb_wf mb'" using W n off e by (simp add: mb_wf_def mb' mb1 Let_def)
  ultimately show ?thesis by (simp add: mb' mb1)
qed

lemma urgent_wf:
  assumes wf: "mb_wf mb" and room: "mb_entry mb \<noteq> mb_size mb"
    and i: "i = (if 0 < out_offset mb then out_offset mb - 1 else mb_size mb - 1)"
    and w: "write_word i v mb = Some mb1"
    and mb': "mb' = mb1\<lparr>out_offset := i, mb_entry := mb_entry mb + 1\<rparr>"
  shows "mb_wf mb' \<and> mb_list mb' = v # mb_list mb \<and> mb_size mb' = mb_size mb"
proof -
  note W = mb_wfD [OF wf]
  let ?s = "unat (mb_size mb)" and ?i = "unat (out_offset mb)" and ?n = "unat (mb_entry mb)"
  have n: "?n < ?s" using room W(3) by (simp add: order_less_le word_unat_eq_iff)
  have e: "unat (mb_entry mb + 1) = Suc ?n" using unat_inc [OF n] by simp
  have ui: "unat i = (?i + ?s - 1) mod ?s"
  proof (cases "0 < out_offset mb")
    case True
    then have "0 < ?i" by (simp add: word_less_nat_alt)
    then have e1: "?i + ?s - 1 = ?i - 1 + ?s" by simp
    have "(?i + ?s - 1) mod ?s = ?i - 1" unfolding e1 using W(4) by simp
    with True show ?thesis by (simp add: i unat_dec)
  next
    case False
    then have "?i = 0" by (simp add: word_less_nat_alt)
    moreover have "(0 :: u16) < mb_size mb" using W(1) by (simp add: word_less_nat_alt)
    ultimately show ?thesis using False W(1) by (simp add: i unat_dec)
  qed
  have less: "unat i < ?s" using ui W(1) by simp
  have mb1: "mb1 = mb\<lparr>mb_words := (mb_words mb)[unat i := v]\<rparr>"
    using w by (simp add: write_word_def split: if_splits)
  have rewind: "(unat i + Suc k) mod ?s = (?i + k) mod ?s" for k
  proof -
    have e1: "?i + ?s - 1 + Suc k = ?i + k + ?s" using W(1) by simp
    show ?thesis unfolding ui mod_add_left_eq e1 by simp
  qed
  have "circ ?s ?i ?n ((mb_words mb)[unat i := v]) = circ ?s ?i ?n (mb_words mb)"
  proof (rule circ_update)
    fix k assume "k < ?n"
    then show "(?i + k) mod ?s \<noteq> unat i"
      using mod_inj [of "unat i" "Suc k" ?s 0] n rewind [of k] less by auto
  qed
  then have "mb_list mb' = v # mb_list mb"
    using W(2,4) less e circ_rewind [OF W(4), of ?n "(mb_words mb)[unat i := v]"] ui
    by (simp add: mb_list_def mb' mb1)
  moreover have "mb_wf mb'" using W n less e rewind [of ?n] by (simp add: mb_wf_def mb' mb1 Let_def)
  ultimately show ?thesis by (simp add: mb' mb1)
qed

lemma fetch_wf:
  assumes wf: "mb_wf mb" and some: "mb_entry mb \<noteq> 0"
    and mb': "mb' = mb\<lparr>out_offset := next_offset (mb_size mb) (out_offset mb), mb_entry := mb_entry mb - 1\<rparr>"
  shows "mb_wf mb' \<and> mb_list mb = mb_words mb ! unat (out_offset mb) # mb_list mb' \<and> mb_size mb' = mb_size mb"
proof -
  note W = mb_wfD [OF wf]
  let ?s = "unat (mb_size mb)" and ?i = "unat (out_offset mb)" and ?n = "unat (mb_entry mb)"
  have pos: "0 < mb_entry mb" using some by (simp add: word_gt_0)
  then have n: "?n = Suc (?n - 1)" by (simp add: word_less_nat_alt)
  have e: "unat (mb_entry mb - 1) = ?n - 1" by (rule unat_dec [OF pos])
  note off = next_offset_mod [OF W(4)]
  have "mb_list mb' = drop 1 (mb_list mb)"
    using circ_drop [of ?s ?i 1 ?n "mb_words mb"] by (simp add: mb_list_def mb' off e)
  moreover have "mb_list mb ! 0 = mb_words mb ! ?i" "0 < length (mb_list mb)"
    using n W(4) by (simp_all add: mb_list_def)
  ultimately have "mb_list mb = mb_words mb ! ?i # mb_list mb'"
    by (metis Cons_nth_drop_Suc One_nat_def drop0)
  moreover have "mb_wf mb'"
  proof -
    have "((?i + 1) mod ?s + (?n - 1)) mod ?s = (?i + ?n) mod ?s"
      using n by (metis Suc_eq_plus1_left add.assoc mod_add_left_eq)
    with W e off show ?thesis by (simp add: mb_wf_def mb' Let_def)
  qed
  ultimately show ?thesis by (simp add: mb')
qed

section \<open>The operations in the system\<close>

definition mb_system :: "nat \<Rightarrow> nat \<Rightarrow> 'x ipc_scheme \<Rightarrow> bool" where
  "mb_system a c s \<longleftrightarrow> thread_ok s \<and> rt_current_thread s \<noteq> None \<and> is_mailbox a s \<and>
     (\<exists>mb. mailboxes s a = Some mb \<and> mb_wf mb \<and> unat (mb_size mb) = c)"

definition mb_contents :: "nat \<Rightarrow> 'x ipc_scheme \<Rightarrow> u32 list" where
  "mb_contents a s = (case mailboxes s a of None \<Rightarrow> [] | Some mb \<Rightarrow> mb_list mb)"

text \<open>What an operation on one mailbox leaves alone: the other objects, the mask and the locks.\<close>

definition beside_mb :: "nat \<Rightarrow> 'x ipc_scheme \<Rightarrow> _" where
  "beside_mb a s = ((semaphores s, mutexes s, events s, queues s, pools s), (mailboxes s)(a := None),
     (link_words s, data_bytes s), primask s, rt_interrupt_nest s, rt_scheduler_lock_nest s)"

lemma put_mailbox_sel [simp]:
  "mailboxes (put_mailbox a mb s) = (mailboxes s)(a \<mapsto> mb)" "beside_mb a (put_mailbox a mb s) = beside_mb a s"
  "thread_ok (put_mailbox a mb s) = thread_ok s" "rt_current_thread (put_mailbox a mb s) = rt_current_thread s"
  "suspend_thread (put_mailbox a mb s) = suspend_thread s" "objects (put_mailbox a mb s) = objects s"
  by (simp_all add: put_mailbox_def beside_mb_def)
    (rule thread_ok_cong; simp add: put_mailbox_def hooks_off_def)

lemma put_mailbox_wake:
  assumes ok: "thread_ok s" and cur: "rt_current_thread s \<noteq> None" and between: "\<And>s. hooks_off s \<Longrightarrow> between s = s"
  shows "\<exists>s'. wake_one code l (primask s) between (put_mailbox a mb (s\<lparr>primask := 1\<rparr>)) = Some s' \<and>
    thread_ok s' \<and> rt_current_thread s' \<noteq> None \<and> is_mailbox a s' = is_mailbox a s \<and>
    mailboxes s' = (mailboxes s)(a \<mapsto> mb) \<and> beside_mb a s' = beside_mb a s \<and>
    suspend_thread s' = (suspend_thread s)(l := tl (suspend_thread s l))"
proof -
  let ?s = "put_mailbox a mb (s\<lparr>primask := 1\<rparr>)"
  from wake_one_ok [of ?s between code l "primask s"] ok cur between obtain s' where
    s': "wake_one code l (primask s) between ?s = Some s'" "woke l ?s s'" "primask s' = primask s" by auto
  from s'(2) have m: "sched.more s' = sched.more ?s" by (simp add: woke_def)
  note same = same_ipc [OF m]
  have "beside_mb a s' = beside_mb a s"
    using s'(2,3) by (simp add: beside_mb_def same woke_def) (simp add: put_mailbox_def)
  with s' same show ?thesis
    by (simp add: woke_def is_mailbox_def rt_object_get_type_def)
qed

lemma mb_systemE:
  assumes "mb_system a c s"
  obtains mb where "thread_ok s" "hooks_off s" "rt_current_thread s \<noteq> None" "is_mailbox a s" "mailboxes s a = Some mb"
    "mb_wf mb" "unat (mb_size mb) = c" "mb_contents a s = mb_list mb"
  using assms thread_okD(3) by (auto simp: mb_system_def mb_contents_def)

text \<open>What follows every operation that has changed the mailbox to \<open>mb'\<close>.\<close>

lemma mb_after:
  assumes "thread_ok s'" "rt_current_thread s' \<noteq> None" "is_mailbox a s' = is_mailbox a s" "is_mailbox a s"
    "mailboxes s' = (mailboxes s)(a \<mapsto> mb')" "mb_wf mb'" "unat (mb_size mb') = c"
  shows "mb_system a c s' \<and> mb_contents a s' = mb_list mb'"
  using assms by (simp add: mb_system_def mb_contents_def)

lemma store_system:
  assumes sys: "mb_system a c s" and room: "length (mb_contents a s) < c"
  shows "\<exists>s'. mb_store code a v (primask s) (s\<lparr>primask := 1\<rparr>) = Some (RT_EOK, s') \<and> mb_system a c s' \<and>
    mb_contents a s' = mb_contents a s @ [v] \<and> beside_mb a s' = beside_mb a s \<and>
    suspend_thread s' = (suspend_thread s)(a := tl (suspend_thread s a))"
proof (rule mb_systemE [OF sys])
  fix mb
  assume A: "thread_ok s" "rt_current_thread s \<noteq> None" "is_mailbox a s" "mailboxes s a = Some mb"
    "mb_wf mb" "unat (mb_size mb) = c" "mb_contents a s = mb_list mb"
  note W = mb_wfD [OF A(5)]
  have n: "unat (mb_entry mb) < c" using room A(7) by simp
  then have ne: "mb_entry mb \<noteq> mb_size mb" using A(6) by auto
  have "unat (mb_size mb) < 2 ^ LENGTH(16)" by (rule unsigned_less)
  with n A(6) have small: "mb_entry mb < RT_MB_ENTRY_MAX" by (simp add: word_less_nat_alt)
  from W(2,5) obtain mb1 where w: "write_word (in_offset mb) v mb = Some mb1" by (simp add: write_word_def)
  let ?mb = "mb1\<lparr>in_offset := next_offset (mb_size mb) (in_offset mb), mb_entry := mb_entry mb + 1\<rparr>"
  have S: "mb_wf ?mb" "mb_list ?mb = mb_list mb @ [v]" "unat (mb_size ?mb) = c"
    using store_wf [OF A(5) ne w refl] A(6) by simp_all
  from put_mailbox_wake [OF A(1,2), of id code a a ?mb] obtain s' where
    s': "wake_one code a (primask s) id (put_mailbox a ?mb (s\<lparr>primask := 1\<rparr>)) = Some s'" "thread_ok s'"
      "rt_current_thread s' \<noteq> None" "is_mailbox a s' = is_mailbox a s" "mailboxes s' = (mailboxes s)(a \<mapsto> ?mb)"
      "beside_mb a s' = beside_mb a s" "suspend_thread s' = (suspend_thread s)(a := tl (suspend_thread s a))" by auto
  from mb_after [OF s'(2-4) A(3) s'(5) S(1,3)] s' S(2) A(4,7) w small show ?thesis
    by (simp add: mb_store_def)
qed

lemma fetch_system:
  assumes sys: "mb_system a c s" and some: "mb_contents a s = v # vs"
  shows "\<exists>s'. mb_fetch code a (primask s) (s\<lparr>primask := 1\<rparr>) = Some ((RT_EOK, Some v), s') \<and> mb_system a c s' \<and>
    mb_contents a s' = vs \<and> beside_mb a s' = beside_mb a s \<and>
    suspend_thread s' = (suspend_thread s)(mb_senders a := tl (suspend_thread s (mb_senders a)))"
proof (rule mb_systemE [OF sys])
  fix mb
  assume A: "thread_ok s" "rt_current_thread s \<noteq> None" "is_mailbox a s" "mailboxes s a = Some mb"
    "mb_wf mb" "unat (mb_size mb) = c" "mb_contents a s = mb_list mb"
  note W = mb_wfD [OF A(5)]
  have "length (mb_list mb) \<noteq> 0" using some A(7) by simp
  then have ne: "mb_entry mb \<noteq> 0" by auto
  then have pos: "0 < mb_entry mb" by (simp add: word_gt_0)
  let ?mb = "mb\<lparr>out_offset := next_offset (mb_size mb) (out_offset mb), mb_entry := mb_entry mb - 1\<rparr>"
  have S: "mb_wf ?mb" "mb_list mb = mb_words mb ! unat (out_offset mb) # mb_list ?mb" "unat (mb_size ?mb) = c"
    using fetch_wf [OF A(5) ne refl] A(6) by simp_all
  let ?h = "\<lambda>s. rt_object_hook_call (s_code code) (rt_object_take_hook s) a s"
  from put_mailbox_wake [OF A(1,2), of ?h code "mb_senders a" a ?mb] obtain s' where
    s': "wake_one code (mb_senders a) (primask s) ?h (put_mailbox a ?mb (s\<lparr>primask := 1\<rparr>)) = Some s'" "thread_ok s'"
      "rt_current_thread s' \<noteq> None" "is_mailbox a s' = is_mailbox a s" "mailboxes s' = (mailboxes s)(a \<mapsto> ?mb)"
      "beside_mb a s' = beside_mb a s"
      "suspend_thread s' = (suspend_thread s)(mb_senders a := tl (suspend_thread s (mb_senders a)))" by auto
  from mb_after [OF s'(2-4) A(3) s'(5) S(1,3)] s' S(2) A(4,7) W(2,4) pos some show ?thesis
    by (simp add: mb_fetch_def)
qed

lemma mb_send_room:
  assumes sys: "mb_system a c s" and room: "length (mb_contents a s) < c"
  shows "\<exists>s'. rt_mb_send code a v s = Some (Finished RT_EOK, s') \<and> mb_system a c s' \<and>
    mb_contents a s' = mb_contents a s @ [v] \<and> beside_mb a s' = beside_mb a s"
proof (rule mb_systemE [OF sys])
  fix mb
  assume A: "hooks_off s" "is_mailbox a s" "mailboxes s a = Some mb" "unat (mb_size mb) = c" "mb_contents a s = mb_list mb"
  have "mb_entry mb \<noteq> mb_size mb" using room A(4,5) by auto
  then have f: "mb_full a s = Some False" "mb_full a (s\<lparr>primask := 1\<rparr>) = Some False" using A(3) by (simp_all add: mb_full_def)
  from store_system [OF sys room, of code v] show ?thesis using f A(1,2)
    by (auto simp: rt_mb_send_def rt_mb_send_wait_def irq_defs mb_send_op_def wait_loop.simps)
qed

lemma mb_send_full:
  assumes sys: "mb_system a c s" and full: "length (mb_contents a s) = c"
  shows "rt_mb_send code a v s = Some (Finished (- RT_EFULL), s)"
proof (rule mb_systemE [OF sys])
  fix mb
  assume A: "hooks_off s" "is_mailbox a s" "mailboxes s a = Some mb" "unat (mb_size mb) = c" "mb_contents a s = mb_list mb"
  have "mb_entry mb = mb_size mb" using full A(4,5) by (simp add: word_unat_eq_iff)
  then have "mb_full a (s\<lparr>primask := 1\<rparr>) = Some True" using A(3) by (simp add: mb_full_def)
  then show ?thesis using A(1,2) by (simp add: rt_mb_send_def rt_mb_send_wait_def irq_defs)
qed

lemma mb_urgent_room:
  assumes sys: "mb_system a c s" and room: "length (mb_contents a s) < c"
  shows "\<exists>s'. rt_mb_urgent code a v s = Some (RT_EOK, s') \<and> mb_system a c s' \<and>
    mb_contents a s' = v # mb_contents a s \<and> beside_mb a s' = beside_mb a s"
proof (rule mb_systemE [OF sys])
  fix mb
  assume A: "thread_ok s" "rt_current_thread s \<noteq> None" "is_mailbox a s" "mailboxes s a = Some mb"
    "mb_wf mb" "unat (mb_size mb) = c" "mb_contents a s = mb_list mb" "hooks_off s"
  note W = mb_wfD [OF A(5)]
  have ne: "mb_entry mb \<noteq> mb_size mb" using room A(6,7) by auto
  let ?i = "if 0 < out_offset mb then out_offset mb - 1 else mb_size mb - 1"
  have "unat ?i < length (mb_words mb)"
  proof (cases "0 < out_offset mb")
    case True
    then show ?thesis using W(2,4) by (simp add: unat_dec)
  next
    case False
    moreover have "(0 :: u16) < mb_size mb" using W(1) by (simp add: word_less_nat_alt)
    ultimately show ?thesis using W(1,2) by (simp add: unat_dec)
  qed
  then obtain mb1 where w: "write_word ?i v mb = Some mb1" by (simp add: write_word_def)
  let ?mb = "mb1\<lparr>out_offset := ?i, mb_entry := mb_entry mb + 1\<rparr>"
  have S: "mb_wf ?mb" "mb_list ?mb = v # mb_list mb" "unat (mb_size ?mb) = c"
    using urgent_wf [OF A(5) ne refl w refl] A(6) by simp_all
  from put_mailbox_wake [OF A(1,2), of id code a a ?mb] obtain s' where
    s': "wake_one code a (primask s) id (put_mailbox a ?mb (s\<lparr>primask := 1\<rparr>)) = Some s'" "thread_ok s'"
      "rt_current_thread s' \<noteq> None" "is_mailbox a s' = is_mailbox a s" "mailboxes s' = (mailboxes s)(a \<mapsto> ?mb)"
      "beside_mb a s' = beside_mb a s" by auto
  have "rt_mb_urgent code a v s = Some (RT_EOK, s')"
    using A(3,4,8) ne w s'(1) by (simp add: rt_mb_urgent_def irq_defs Let_def)
  with mb_after [OF s'(2-4) A(3) s'(5) S(1,3)] s'(6) S(2) A(7) show ?thesis by simp
qed

lemma mb_urgent_full:
  assumes sys: "mb_system a c s" and full: "length (mb_contents a s) = c"
  shows "rt_mb_urgent code a v s = Some (- RT_EFULL, s)"
proof (rule mb_systemE [OF sys])
  fix mb
  assume A: "hooks_off s" "is_mailbox a s" "mailboxes s a = Some mb" "unat (mb_size mb) = c" "mb_contents a s = mb_list mb"
  have "mb_entry mb = mb_size mb" using full A(4,5) by (simp add: word_unat_eq_iff)
  then show ?thesis using A(1,2,3) by (simp add: rt_mb_urgent_def irq_defs)
qed

text \<open>A receiver who does not wait.\<close>

definition finished :: "('r pending \<times> 's) option \<Rightarrow> ('r \<times> 's) option" where
  "finished x = (case x of Some (Finished r, s) \<Rightarrow> Some (r, s) | _ \<Rightarrow> None)"

lemma mb_recv_some:
  assumes sys: "mb_system a c s" and some: "mb_contents a s = v # vs"
  shows "\<exists>s'. rt_mb_recv 0 code a 0 s = Some (Finished (RT_EOK, Some v), s') \<and> mb_system a c s' \<and>
    mb_contents a s' = vs \<and> beside_mb a s' = beside_mb a s"
proof (rule mb_systemE [OF sys])
  fix mb
  assume A: "hooks_off s" "is_mailbox a s" "mailboxes s a = Some mb" "mb_contents a s = mb_list mb"
  have "length (mb_list mb) \<noteq> 0" using some A(4) by simp
  then have "mb_entry mb \<noteq> 0" by auto
  then have f: "mb_empty a (s\<lparr>primask := 1\<rparr>) = Some False" using A(3) by (simp add: mb_empty_def)
  from fetch_system [OF sys some, of code] show ?thesis using f A(1,2)
    by (auto simp: rt_mb_recv_def irq_defs mb_recv_op_def wait_loop.simps)
qed

lemma mb_recv_none:
  assumes sys: "mb_system a c s" and none: "mb_contents a s = []"
  shows "rt_mb_recv 0 code a 0 s = Some (Finished (- RT_ETIMEOUT, None), s)"
proof (rule mb_systemE [OF sys])
  fix mb
  assume A: "hooks_off s" "is_mailbox a s" "mailboxes s a = Some mb" "mb_contents a s = mb_list mb"
  have "length (mb_list mb) = 0" using none A(4) by simp
  then have "mb_entry mb = 0" by (simp add: unat_eq_0)
  then have f: "mb_empty a (s\<lparr>primask := 1\<rparr>) = Some True" using A(3) by (simp add: mb_empty_def)
  then show ?thesis using A(1,2) by (simp add: rt_mb_recv_def irq_defs)
qed

section \<open>The channel\<close>

definition mb_send_now :: "'x ipc_scheme scode \<Rightarrow> nat \<Rightarrow> u32 \<Rightarrow> 'x ipc_scheme \<Rightarrow> (rt_err \<times> 'x ipc_scheme) option" where
  "mb_send_now code a v s = finished (rt_mb_send code a v s)"

definition mb_recv_now :: "'x ipc_scheme scode \<Rightarrow> nat \<Rightarrow> nat \<Rightarrow> 'x ipc_scheme \<Rightarrow>
    ((rt_err \<times> u32 option) \<times> 'x ipc_scheme) option" where
  "mb_recv_now code a n s = finished (rt_mb_recv 0 code a 0 s)"

interpretation mb: channel "- RT_EFULL" "mb_system a c" "mb_contents a" c "beside_mb a" "\<lambda>_. True" "(=)" "\<lambda>_ v. v"
  "mb_send_now code a" "mb_recv_now code a" "\<lambda>_. True" "rt_mb_urgent code a" for a c code
proof (unfold_locales, goal_cases)
  case (1 s)
  then show ?case by (elim mb_systemE) (use mb_wfD(3) in auto)
next
  case (2 s m)
  from mb_send_room [OF 2(1,3), of code m] show ?case by (auto simp: mb_send_now_def finished_def)
next
  case (3 s m)
  with mb_send_full [OF 3(1,3), of code m] show ?case by (simp add: mb_send_now_def finished_def)
next
  case (4 s n x xs)
  from mb_recv_some [OF 4(1,4), of code] show ?case by (auto simp: mb_recv_now_def finished_def)
next
  case (5 s n)
  with mb_recv_none [OF 5(1,4), of code] show ?case by (simp add: mb_recv_now_def finished_def)
next
  case (6 s m)
  from mb_urgent_room [OF 6(1,3), of code m] show ?case by auto
next
  case (7 s m)
  with mb_urgent_full [OF 7(1,3), of code m] show ?case by simp
qed

end
