(* ===== verification/Sched_Behaviour.thy ===== *)
theory Sched_Behaviour
  imports Sched_Correct
begin

text \<open>
  What a thread may rely on: after \<^verbatim>\<open>rt_schedule\<close> a thread of the best priority runs, threads of
  one priority take turns, and nobody loses the processor to an equal without giving it up.
\<close>

abbreviation prio :: "rt_thread \<Rightarrow> nat" where
  "prio th \<equiv> unat (current_priority th)"

definition yields :: "rt_thread \<Rightarrow> bool" where
  "yields th \<longleftrightarrow> th_stat th AND RT_THREAD_STAT_YIELD \<noteq> 0"

section \<open>Two threads\<close>

definition plain_thread :: "u8 \<Rightarrow> u8 \<Rightarrow> rt_thread" where
  "plain_thread st p = thread_zero\<lparr>stack_size := 1024, th_sp := 512, stack_low := 0x23, th_stat := st,
     current_priority := p, init_priority := p, number_mask := 2 ^ unat p\<rparr>"

definition scheduled :: "kernel \<Rightarrow> (nat \<rightharpoonup> rt_thread) \<Rightarrow> nat list list \<Rightarrow> u32 \<Rightarrow> nat \<Rightarrow> sched" where
  "scheduled k ths table grp c = kernel.extend (k\<lparr>threads := ths\<rparr>)
     (sched.fields table grp 0 (Some c) 0 None None None None None (\<lambda>_. []) [])"

lemma scheduled_sel [simp]:
  "threads (scheduled k ths table grp c) = ths" "rt_thread_priority_table (scheduled k ths table grp c) = table"
  "rt_thread_ready_priority_group (scheduled k ths table grp c) = grp"
  "rt_scheduler_lock_nest (scheduled k ths table grp c) = 0" "rt_current_thread (scheduled k ths table grp c) = Some c"
  "suspend_thread (scheduled k ths table grp c) = (\<lambda>_. [])" "switches (scheduled k ths table grp c) = []"
  "rt_scheduler_hook (scheduled k ths table grp c) = None" "rt_scheduler_switch_hook (scheduled k ths table grp c) = None"
  "rt_thread_suspend_hook (scheduled k ths table grp c) = None"
  "rt_thread_resume_hook (scheduled k ths table grp c) = None"
  "kernel.truncate (scheduled k ths table grp c) = k\<lparr>threads := ths\<rparr>"
  by (simp_all add: scheduled_def kernel.defs sched.defs)

text \<open>Threads 100 and 200 of priority 10: the first runs and yields, the second is ready.\<close>

definition two_threads :: sched where
  "two_threads = scheduled kernel_zero
     [100 \<mapsto> plain_thread (RT_THREAD_RUNNING OR RT_THREAD_STAT_YIELD) 10, 200 \<mapsto> plain_thread RT_THREAD_READY 10]
     ((replicate 32 [])[10 := [200]]) (2 ^ 10) 100"

lemma two_threads_ok: "sched_ok two_threads"
proof -
  have bits: "bit (2 ^ 10 :: u32) p \<longleftrightarrow> p = 10" for p by (simp only: bit_exp_iff) auto
  have "sched_inv {} two_threads"
    unfolding sched_inv_def ready_at_def two_threads_def scheduled_sel bits
    by (intro conjI) (auto simp: nth_list_update plain_thread_def)
  then show ?thesis
    unfolding sched_ok_def two_threads_def hooks_off_def scheduled_sel
    by (auto simp: plain_thread_def thread_zero_def stack_fine_def scheduled_def kernel.defs sched.defs kernel_zero_def split: if_splits)
qed

section \<open>The property\<close>

lemma still_ready:
  "ready_at {} (s :: 'x sched_scheme) p u \<longleftrightarrow> (\<exists>uh. threads s u = Some uh \<and> state_of uh = RT_THREAD_READY \<and> prio uh = p)"
  by (simp add: ready_at_def)

lemma keeps_running_iff: "keeps_running th p \<longleftrightarrow> prio th < p \<or> prio th = p \<and> \<not> yields th"
  by (auto simp: keeps_running_def yields_def)

lemma clear_stat [simp]:
  "state_of (th\<lparr>th_stat := th_stat th AND NOT RT_THREAD_STAT_YIELD\<rparr>) = state_of th" by (rule clear_yield_state)

text \<open>After a switch from \<open>c\<close> to \<open>t\<close>: nobody is better, and \<open>c\<close> is the last in its row.\<close>

lemma switched_best:
  assumes ok: "sched_ok s" and cur: "rt_current_thread s = Some c" and th: "threads s c = Some th" and t: "t \<noteq> c"
    and tth: "threads s t = Some tth"
    and new: "threads s' = (threads s)(c \<mapsto> (if state_of th = RT_THREAD_RUNNING then set_stat RT_THREAD_READY
        (th\<lparr>th_stat := th_stat th AND NOT RT_THREAD_STAT_YIELD\<rparr>) else th),
      t := map_option (set_stat RT_THREAD_RUNNING) (threads s t))"
    and best: "\<And>q u. ready_at {} s q u \<Longrightarrow> p \<le> q"
    and worse: "state_of th = RT_THREAD_RUNNING \<Longrightarrow> p < prio th \<or> p = prio th \<and> yields th"
    and ready: "ready_at {} s' q u"
  shows "p \<le> q"
proof (cases "u = c")
  case True
  then have "q = prio th \<and> state_of th = RT_THREAD_RUNNING"
    using ready t sched_okD(4) [OF ok cur th] by (auto simp: still_ready new split: if_splits)
  with worse show ?thesis by auto
next
  case False
  then have "ready_at {} s q u" using ready tth by (auto simp: still_ready new split: if_splits)
  then show ?thesis by (rule best)
qed

lemma switched_last:
  assumes ok: "sched_ok s" and cur: "rt_current_thread s = Some c" and th: "threads s c = Some th" and t: "t \<noteq> c"
    and run: "state_of th = RT_THREAD_RUNNING"
    and rows: "rt_thread_priority_table s' = map (remove1 t) (if state_of th = RT_THREAD_RUNNING
      then (rt_thread_priority_table s)[unat (current_priority th) :=
        rt_thread_priority_table s ! unat (current_priority th) @ [c]] else rt_thread_priority_table s)"
  shows "\<exists>ahead. rt_thread_priority_table s' ! prio th = ahead @ [c]"
proof -
  note K = sched_okD [OF ok]
  have "prio th < 32" using sched_invD(5) [OF K(1) th] K(4) [OF cur th] by simp
  with run t sched_invD(1) [OF K(1)] have "rt_thread_priority_table s' ! prio th =
      remove1 t (rt_thread_priority_table s ! prio th @ [c])" by (simp add: rows)
  with t show ?thesis by (simp add: remove1_append)
qed

text \<open>
  Claim C6 (functional). \<^verbatim>\<open>rt_schedule\<close> of a system that is not locked, in which the current
  thread runs or some thread is ready: it returns; the invariant is kept; a thread runs than which no
  ready thread is better. When another thread gets the processor, one switch is recorded, the
  new thread was the first in its row, and an old one that could have gone on had a worse priority or had
  yielded, and is now the last in its row. When the old thread keeps the processor there
  is no switch. A thread that yields always gives way to an equal.
\<close>
theorem rt_schedule_runs_best:
  assumes ok: "sched_ok s" and lock: "rt_scheduler_lock_nest s = 0"
    and cur: "rt_current_thread s = Some c" and th: "threads s c = Some th"
    and able: "state_of th = RT_THREAD_RUNNING \<or> (\<exists>p u. ready_at {} s p u)"
  shows "\<exists>s' d dth. rt_schedule code s = Some s' \<and> sched_ok s' \<and> primask s' = primask s \<and>
    rt_current_thread s' = Some d \<and> threads s' d = Some dth \<and> state_of dth = RT_THREAD_RUNNING \<and>
    (\<forall>p u. ready_at {} s' p u \<longrightarrow> prio dth \<le> p) \<and>
    (d = c \<longrightarrow> switches s' = switches s) \<and>
    (d \<noteq> c \<longrightarrow> switches s' = switches s @ [if rt_interrupt_nest s = 0 then SWITCH c d else SWITCH_INTERRUPT c d] \<and>
       (\<exists>rest. rt_thread_priority_table s ! prio dth = d # rest) \<and>
       (state_of th = RT_THREAD_RUNNING \<longrightarrow> (prio dth < prio th \<or> prio dth = prio th \<and> yields th) \<and>
          (\<exists>ahead. rt_thread_priority_table s' ! prio th = ahead @ [c]))) \<and>
    (yields th \<longrightarrow> (\<exists>u. ready_at {} s (prio th) u) \<longrightarrow> d \<noteq> c)"
proof (rule rt_schedule_cases [OF ok cur th, of code])
  note K = sched_okD [OF ok]
  assume same: "rt_scheduler_lock_nest s \<noteq> 0 \<or> (\<forall>p u. \<not> ready_at {} s p u)" "rt_schedule code s = Some s"
  then have "\<forall>p u. \<not> ready_at {} s p u" "state_of th = RT_THREAD_RUNNING" using lock able by auto
  with same(2) ok cur th show ?thesis
    by (intro exI [of _ s] exI [of _ c] exI [of _ th]) auto
next
  note K = sched_okD [OF ok]
  fix s' t p
  assume S: "scheduler_get_highest s = Some (t, p)" "state_of th = RT_THREAD_RUNNING" "keeps_running th p"
    "rt_schedule code s = Some s'" "sched_ok s'" "threads s' = (threads s)(c \<mapsto> still_running th)"
    "rt_current_thread s' = Some c" "outside s' = outside s" "switches s' = switches s"
  have "rt_thread_ready_priority_group s \<noteq> 0" using S(1) by (auto simp: scheduler_get_highest_def rt_ffs_def Let_def)
  from get_highest [OF K(1) this] S(1) have best: "ready_at {} s q u \<Longrightarrow> p \<le> q" for q u by auto
  have le: "prio th \<le> p" using S(3) by (auto simp: keeps_running_iff)
  have "prio th \<le> q" if "ready_at {} s' q u" for q u
  proof -
    from that S(2) have "ready_at {} s q u" by (auto simp: still_ready S(6) split: if_splits)
    from best [OF this] le show ?thesis by simp
  qed
  moreover have "\<not> ready_at {} s (prio th) u" if "yields th" for u
    using best [of "prio th" u] S(3) that by (auto simp: keeps_running_iff)
  ultimately show ?thesis using S outsideD(1) [OF S(8)]
    by (intro exI [of _ s'] exI [of _ c] exI [of _ "still_running th"]) auto
next
  note K = sched_okD [OF ok]
  fix s' t p
  assume S: "scheduler_get_highest s = Some (t, p)" "t \<noteq> c"
    "state_of th \<noteq> RT_THREAD_RUNNING \<or> \<not> keeps_running th p" "rt_schedule code s = Some s'" "sched_ok s'"
    "rt_current_thread s' = Some t" "outside s' = outside s"
    "threads s' = (threads s)(c \<mapsto> (if state_of th = RT_THREAD_RUNNING then set_stat RT_THREAD_READY
        (th\<lparr>th_stat := th_stat th AND NOT RT_THREAD_STAT_YIELD\<rparr>) else th),
      t := map_option (set_stat RT_THREAD_RUNNING) (threads s t))"
    "switches s' = switches s @ [if rt_interrupt_nest s = 0 then SWITCH c t else SWITCH_INTERRUPT c t]"
    "rt_thread_priority_table s' = map (remove1 t) (if state_of th = RT_THREAD_RUNNING
      then (rt_thread_priority_table s)[unat (current_priority th) :=
        rt_thread_priority_table s ! unat (current_priority th) @ [c]] else rt_thread_priority_table s)"
  have "rt_thread_ready_priority_group s \<noteq> 0" using S(1) by (auto simp: scheduler_get_highest_def rt_ffs_def Let_def)
  from get_highest [OF K(1) this] S(1) obtain rest where
    H: "rt_thread_priority_table s ! p = t # rest" "ready_at {} s p t" and best: "\<And>q u. ready_at {} s q u \<Longrightarrow> p \<le> q" by auto
  from H(2) obtain tth where tth: "threads s t = Some tth" "state_of tth = RT_THREAD_READY" "prio tth = p"
    by (auto simp: still_ready)
  let ?d = "set_stat RT_THREAD_RUNNING tth"
  have worse: "p < prio th \<or> p = prio th \<and> yields th" if "state_of th = RT_THREAD_RUNNING"
    using S(3) that by (auto simp: keeps_running_iff)
  note switched_best [OF ok cur th S(2) tth(1) S(8) best worse] switched_last [OF ok cur th S(2) _ S(10)]
  then show ?thesis using S(2,4,5,6,9) outsideD(1) [OF S(7)] tth H(1) worse
    by (intro exI [of _ s'] exI [of _ t] exI [of _ ?d]) (simp add: S(8))
qed


theorem rt_schedule_runs_best_witness:
  "\<forall>code. \<exists>s'. rt_schedule code two_threads = Some s' \<and> rt_current_thread s' = Some 200 \<and>
     switches s' = [SWITCH 100 200]"
proof
  fix code :: "sched scode"
  have F: "rt_scheduler_lock_nest two_threads = 0" "rt_current_thread two_threads = Some 100" "switches two_threads = []"
    "threads two_threads 100 = Some (plain_thread (RT_THREAD_RUNNING OR RT_THREAD_STAT_YIELD) 10)"
    "rt_interrupt_nest two_threads = 0" "ready_at {} two_threads 10 200"
    "rt_thread_priority_table two_threads = (replicate 32 [])[10 := [200]]"
    by (simp_all add: two_threads_def ready_at_def plain_thread_def)
      (simp add: scheduled_def kernel.defs sched.defs kernel_zero_def)
  let ?th = "plain_thread (RT_THREAD_RUNNING OR RT_THREAD_STAT_YIELD) 10"
  have Y: "yields ?th" "prio ?th = 10" "state_of ?th = RT_THREAD_RUNNING" by (simp_all add: yields_def plain_thread_def)
  from rt_schedule_runs_best [OF two_threads_ok F(1,2,4) disjI1, OF Y(3), of code] obtain s' d dth where
    D: "rt_schedule code two_threads = Some s'" "rt_current_thread s' = Some d"
      "d \<noteq> 100 \<longrightarrow> switches s' = switches two_threads @
        [if rt_interrupt_nest two_threads = 0 then SWITCH 100 d else SWITCH_INTERRUPT 100 d] \<and>
       (\<exists>rest. rt_thread_priority_table two_threads ! prio dth = d # rest) \<and>
       (state_of ?th = RT_THREAD_RUNNING \<longrightarrow> (prio dth < prio ?th \<or> prio dth = prio ?th \<and> yields ?th) \<and>
          (\<exists>ahead. rt_thread_priority_table s' ! prio ?th = ahead @ [100]))"
      "yields ?th \<longrightarrow> (\<exists>u. ready_at {} two_threads (prio ?th) u) \<longrightarrow> d \<noteq> 100" by blast
  have "d \<noteq> 100" using D(4) F(6) Y by auto
  with D(3) F(3,5) Y(2,3) obtain rest where
    E: "switches s' = [SWITCH 100 d]" "prio dth \<le> 10" "rt_thread_priority_table two_threads ! prio dth = d # rest" by auto
  have "d = 200" using E(2,3) by (auto simp: F(7) nth_list_update split: if_splits)
  with D(1,2) E(1) show "\<exists>s'. rt_schedule code two_threads = Some s' \<and> rt_current_thread s' = Some 200 \<and>
     switches s' = [SWITCH 100 200]" by blast
qed

end
