(* ===== verification/Example_System.thy ===== *)
theory Example_System
  imports Ipc_Correct Sched_Behaviour
begin

text \<open>
  A small system at whose objects the theorems on IPC are tried: thread 100 runs, thread 200 of the
  same priority is ready, nobody waits; the objects at 300, 400, 500, 600, 700, 750 and 1020 are given types.
\<close>

lemma plain_thread_sel [simp]:
  "th_stat (plain_thread st p) = st" "current_priority (plain_thread st p) = p" "th_error (plain_thread st p) = RT_EOK"
  by (simp_all add: plain_thread_def thread_zero_def)

definition example_kernel :: kernel where
  "example_kernel = kernel_zero\<lparr>
     objects := [100 \<mapsto> \<lparr>ob_name = [], ob_type = 0x81\<rparr>, 200 \<mapsto> \<lparr>ob_name = [], ob_type = 0x81\<rparr>,
       176 \<mapsto> \<lparr>ob_name = [], ob_type = 0x8a\<rparr>, 276 \<mapsto> \<lparr>ob_name = [], ob_type = 0x8a\<rparr>,
       300 \<mapsto> \<lparr>ob_name = [], ob_type = 0x85\<rparr>, 400 \<mapsto> \<lparr>ob_name = [], ob_type = 0x83\<rparr>,
       500 \<mapsto> \<lparr>ob_name = [], ob_type = 0x83\<rparr>, 600 \<mapsto> \<lparr>ob_name = [], ob_type = 0x86\<rparr>,
       700 \<mapsto> \<lparr>ob_name = [], ob_type = 0x88\<rparr>, 750 \<mapsto> \<lparr>ob_name = [], ob_type = 0x84\<rparr>,
       1020 \<mapsto> \<lparr>ob_name = [], ob_type = 0x82\<rparr>],
     timers := (\<lambda>a. if a = 176 \<or> a = 276 then Some \<lparr>tm_flag = 0, timeout_func = 0, tm_param = 0,
       init_tick = 0, timeout_tick = 0\<rparr> else None)\<rparr>"

definition example_sched :: sched where
  "example_sched = scheduled example_kernel
     [100 \<mapsto> plain_thread RT_THREAD_RUNNING 10, 200 \<mapsto> plain_thread RT_THREAD_READY 10]
     ((replicate 32 [])[10 := [200]]) (2 ^ 10) 100"

text \<open>What holds of every state whose part for threads is this one.\<close>

lemma example_sel:
  assumes "sched.truncate s = example_sched"
  shows "threads s = [100 \<mapsto> plain_thread RT_THREAD_RUNNING 10, 200 \<mapsto> plain_thread RT_THREAD_READY 10]"
    "rt_thread_priority_table s = (replicate 32 [])[10 := [200]]" "rt_thread_ready_priority_group s = 2 ^ 10"
    "rt_current_thread s = Some 100" "suspend_thread s = (\<lambda>_. [])" "objects s = objects example_kernel"
    "timers s = timers example_kernel" "rt_scheduler_lock_nest s = 0" "rt_interrupt_nest s = 0" "primask s = 0"
    "hooks_off s"
  using assms by (simp_all add: example_sched_def scheduled_def kernel.defs sched.defs example_kernel_def
      kernel_zero_def hooks_off_def)

lemma example_thread_ok:
  assumes "sched.truncate s = example_sched"
  shows "thread_ok s"
proof -
  note sel = example_sel [OF assms]
  have bits: "bit (2 ^ 10 :: u32) p \<longleftrightarrow> p = 10" for p by (simp only: bit_exp_iff) auto
  have inv: "sched_inv {} s"
    unfolding sched_inv_def ready_at_def sel bits
    by (intro conjI) (auto simp: nth_list_update plain_thread_def)
  have fine: "stack_fine (plain_thread st p)" for st p
    by (simp add: stack_fine_def plain_thread_def thread_zero_def)
  have obj: "is_thread 100 s" "is_thread 200 s" "timer_fine (thread_timer 100) s" "timer_fine (thread_timer 200) s"
    by (simp_all add: is_thread_def timer_fine_def is_timer_def rt_object_get_type_def sel example_kernel_def thread_timer_def)
  show ?thesis
    unfolding thread_ok_def sched_ok_def sel
    using inv fine obj sel(11) by (auto split: if_splits)
qed

definition example_system :: "(nat \<Rightarrow> rt_semaphore option) \<Rightarrow> (nat \<Rightarrow> rt_mutex option) \<Rightarrow>
    (nat \<Rightarrow> rt_mailbox option) \<Rightarrow> (nat \<Rightarrow> rt_messagequeue option) \<Rightarrow> (nat \<Rightarrow> rt_mempool option) \<Rightarrow> (nat \<Rightarrow> nat) \<Rightarrow> ipc" where
  "example_system sems mxs mbs mqs mps links = sched.extend example_sched
     (ipc.fields sems mxs (\<lambda>_. None) mbs mqs mps links (\<lambda>_. 0) None None)"

lemma example_system_truncate: "sched.truncate (example_system sems mxs mbs mqs mps links) = example_sched"
  by (simp add: example_system_def sched.defs)

lemmas example_system_threads [simp] = example_sel [OF example_system_truncate]

lemma example_system_sel [simp]:
  "semaphores (example_system sems mxs mbs mqs mps links) = sems"
  "mutexes (example_system sems mxs mbs mqs mps links) = mxs"
  "events (example_system sems mxs mbs mqs mps links) = (\<lambda>_. None)"
  "mailboxes (example_system sems mxs mbs mqs mps links) = mbs"
  "queues (example_system sems mxs mbs mqs mps links) = mqs"
  "pools (example_system sems mxs mbs mqs mps links) = mps"
  "link_words (example_system sems mxs mbs mqs mps links) = links"
  "rt_mp_alloc_hook (example_system sems mxs mbs mqs mps links) = None"
  "rt_mp_free_hook (example_system sems mxs mbs mqs mps links) = None"
  by (simp_all add: example_system_def sched.defs ipc.defs)

lemma example_ok: "thread_ok (example_system sems mxs mbs mqs mps links)"
  by (rule example_thread_ok [OF example_system_truncate])

end
