(* ===== verification/Mailbox_Behaviour.thy ===== *)
theory Mailbox_Behaviour
  imports Mailbox_Correct Example_System
begin

text \<open>
  What users of a mailbox rely on.
\<close>

text \<open>
  Claim C7 (refinement). Any sequence of sends, urgent sends and receives that do not wait runs to its end on
  a well-formed mailbox, whatever threads wait on it and whichever thread is switched to. The results
  are those of a bounded queue of words: a full box refuses, an empty one times out, urgent words go to the
  front, the rest come out in the order they went in. The system of threads stays well formed, with a current one (a send may
  wake a thread and switch to it); the interrupt mask, the nesting of interrupts and scheduler locks, and all other
  semaphores, mutexes, events, mailboxes, queues and pools are as before.
\<close>
theorem mailbox_fifo:
  assumes "mb_system a c s" and "list_all (op_valid (\<lambda>_. True) (\<lambda>_. True)) ops"
  shows "\<exists>rs s'. chan_run (mb_send_now code a) (rt_mb_urgent code a) (mb_recv_now code a) ops s = Some (rs, s') \<and>
    mb_system a c s' \<and> delivers (- RT_EFULL) (=) (\<lambda>_ v. v) c (mb_contents a s) ops rs (mb_contents a s') \<and>
    beside_mb a s' = beside_mb a s"
proof -
  have eq: "list_all2 (=) (mb_contents a s) (mb_contents a s)" by (simp add: list.rel_eq)
  from mb.run_delivers [OF assms(1) eq assms(2), of code] show ?thesis
    by (auto simp: list.rel_eq)
qed

text \<open>A mailbox with room for two words.\<close>

definition small_box :: rt_mailbox where
  "small_box = \<lparr>mb_flag = 0, mb_pool = 0x1000, mb_words = [0, 0], mb_size = 2, mb_entry = 0,
     in_offset = 0, out_offset = 0\<rparr>"

definition box_system :: ipc where
  "box_system = example_system (\<lambda>_. None) (\<lambda>_. None) [300 \<mapsto> small_box] (\<lambda>_. None) (\<lambda>_. None) (\<lambda>_. 0)"

theorem mailbox_fifo_witness:
  "\<forall>code. \<exists>s'. chan_run (mb_send_now code 300) (rt_mb_urgent code 300) (mb_recv_now code 300)
     [Send 7, Send 8, Send 9, Recv 4, Urgent 5, Recv 4, Recv 4, Recv 4] box_system =
     Some ([(RT_EOK, None), (RT_EOK, None), (- RT_EFULL, None), (RT_EOK, Some 7), (RT_EOK, None), (RT_EOK, Some 5),
       (RT_EOK, Some 8), (- RT_ETIMEOUT, None)], s')"
proof
  fix code :: "ipc scode"
  have "mb_wf small_box" "unat (mb_size small_box) = 2" by (simp_all add: mb_wf_def small_box_def)
  moreover have "is_mailbox 300 box_system"
    by (simp add: is_mailbox_def rt_object_get_type_def box_system_def example_kernel_def)
  ultimately have "mb_system 300 2 box_system"
    unfolding mb_system_def box_system_def by (simp add: example_ok)
  moreover have "mb_contents 300 box_system = []"
    by (simp add: mb_contents_def box_system_def mb_list_def small_box_def)
  ultimately show "\<exists>s'. chan_run (mb_send_now code 300) (rt_mb_urgent code 300) (mb_recv_now code 300)
     [Send 7, Send 8, Send 9, Recv 4, Urgent 5, Recv 4, Recv 4, Recv 4] box_system =
     Some ([(RT_EOK, None), (RT_EOK, None), (- RT_EFULL, None), (RT_EOK, Some 7), (RT_EOK, None), (RT_EOK, Some 5),
       (RT_EOK, Some 8), (- RT_ETIMEOUT, None)], s')"
    using mailbox_fifo [of 300 2 box_system "[Send 7, Send 8, Send 9, Recv 4, Urgent 5, Recv 4, Recv 4, Recv 4]" code]
    by auto
qed

end
