(* ===== verification/Msg_Queue.thy ===== *)
theory Msg_Queue
  imports Mailbox
begin

text \<open>
  The message queues of \<^verbatim>\<open>ipc.c\<close>: blocks of \<open>msg_size\<close> bytes behind a pointer, linked in a queue
  with head and tail and a list of free blocks. A message is the list of its bytes.
\<close>

abbreviation RT_MQ_ENTRY_MAX :: u16 where "RT_MQ_ENTRY_MAX \<equiv> 0xFFFF"
abbreviation SIZEOF_MQ_MESSAGE :: u32 where "SIZEOF_MQ_MESSAGE \<equiv> 4"

definition is_queue :: "nat \<Rightarrow> 'x sched_scheme \<Rightarrow> bool" where
  "is_queue a s \<longleftrightarrow> rt_object_get_type a s = Some (class_val RT_Object_Class_MessageQueue)"

definition put_queue :: "nat \<Rightarrow> rt_messagequeue \<Rightarrow> 'x ipc_scheme \<Rightarrow> 'x ipc_scheme" where
  "put_queue a mq s = s\<lparr>queues := (queues s)(a \<mapsto> mq)\<rparr>"

text \<open>\<^verbatim>\<open>&mq->suspend_sender_thread\<close>\<close>

definition mq_senders :: "nat \<Rightarrow> nat" where "mq_senders a = a + 52"

section \<open>Memory\<close>

definition set_link :: "nat \<Rightarrow> nat \<Rightarrow> 'x ipc_scheme \<Rightarrow> 'x ipc_scheme" where
  "set_link p q s = s\<lparr>link_words := (link_words s)(p := q)\<rparr>"

text \<open>\<^verbatim>\<open>rt_memcpy\<close> to and from the bytes of the blocks.\<close>

definition store_bytes :: "nat \<Rightarrow> u8 list \<Rightarrow> 'x ipc_scheme \<Rightarrow> 'x ipc_scheme" where
  "store_bytes p bs s = s\<lparr>data_bytes := (\<lambda>q. if p \<le> q \<and> q < p + length bs then bs ! (q - p) else data_bytes s q)\<rparr>"

definition load_bytes :: "nat \<Rightarrow> nat \<Rightarrow> 'x ipc_scheme \<Rightarrow> u8 list" where
  "load_bytes p n s = map (\<lambda>i. data_bytes s (p + i)) [0..<n]"

section \<open>Life\<close>

text \<open>The free list: each block is put in front of those before it in memory.\<close>

fun link_free :: "nat \<Rightarrow> nat \<Rightarrow> nat \<Rightarrow> nat \<Rightarrow> (nat \<Rightarrow> nat) \<Rightarrow> nat \<times> (nat \<Rightarrow> nat)" where
  "link_free 0 p stride free links = (free, links)"
| "link_free (Suc n) p stride free links = link_free n (p + stride) stride p (links(p := free))"

definition mq_stride :: "u16 \<Rightarrow> u32" where
  "mq_stride sz = ucast sz + SIZEOF_MQ_MESSAGE"

definition queue_new :: "nat \<Rightarrow> u16 \<Rightarrow> u16 \<Rightarrow> u8 \<Rightarrow> nat \<Rightarrow> rt_messagequeue" where
  "queue_new pool sz n flag free = \<lparr>mq_flag = flag, mq_pool = pool, msg_size = sz, max_msgs = n, mq_entry = 0,
     msg_queue_head = 0, msg_queue_tail = 0, msg_queue_free = free\<rparr>"

definition queue_set_up :: "nat \<Rightarrow> nat \<Rightarrow> u16 \<Rightarrow> u16 \<Rightarrow> u8 \<Rightarrow> 'x ipc_scheme \<Rightarrow> 'x ipc_scheme" where
  "queue_set_up a pool sz n flag s =
    (let (free, links) = link_free (unat n) pool (unat (mq_stride sz)) 0 (link_words s)
     in ipc_object_init (mq_senders a) (put_queue a (queue_new pool sz n flag free) (s\<lparr>link_words := links\<rparr>)))"

definition rt_mq_init :: "'x ipc_scheme scode \<Rightarrow> nat \<Rightarrow> string \<Rightarrow> nat \<Rightarrow> u32 \<Rightarrow> u32 \<Rightarrow> u8 \<Rightarrow> 'x ipc_scheme \<Rightarrow>
    (rt_err \<times> 'x ipc_scheme) option" where
  "rt_mq_init code a name msgpool sz pool_size flag s = do {
     s1 \<leftarrow> rt_object_init (s_code code) a (class_val RT_Object_Class_MessageQueue) name s;
     let msz = ucast (RT_ALIGN sz);
     Some (RT_EOK, queue_set_up a msgpool msz (ucast (pool_size div mq_stride msz)) flag (ipc_object_init a s1)) }"

definition rt_mq_detach :: "nat \<Rightarrow> 'x ipc_scheme scode \<Rightarrow> nat \<Rightarrow> 'x ipc_scheme \<Rightarrow>
    (rt_err \<times> 'x ipc_scheme) option" where
  "rt_mq_detach fuel code a s = do {
     RT_ASSERT (is_queue a s);
     RT_ASSERT (rt_object_is_systemobject a s = Some True);
     s1 \<leftarrow> resume_both fuel code a (mq_senders a) s;
     Some (RT_EOK, rt_object_detach (s_code code) a s1) }"

text \<open>\<open>mem\<close> is the new object's memory, \<open>pool\<close> that of its blocks, by the size asked for.\<close>

definition rt_mq_create :: "'x ipc_scheme scode \<Rightarrow> nat option \<Rightarrow> (u32 \<Rightarrow> nat option) \<Rightarrow> string \<Rightarrow>
    u32 \<Rightarrow> u32 \<Rightarrow> u8 \<Rightarrow> 'x ipc_scheme \<Rightarrow> (nat option \<times> 'x ipc_scheme) option" where
  "rt_mq_create code mem pool name sz n flag s = do {
     RT_ASSERT (rt_interrupt_nest s = 0);
     (r, s1) \<leftarrow> rt_object_allocate (s_code code) mem (class_val RT_Object_Class_MessageQueue) name s;
     case r of None \<Rightarrow> Some (None, s1)
     | Some a \<Rightarrow>
         let s2 = ipc_object_init a s1; msz = ucast (RT_ALIGN sz); max = (ucast n :: u16)
         in (case pool (mq_stride msz * ucast max) of
           None \<Rightarrow> do {
             s3 \<leftarrow> rt_object_delete (s_code code) a s2;
             Some (None, s3) }
         | Some p \<Rightarrow> Some (Some a, queue_set_up a p msz max flag s2)) }"

definition rt_mq_delete :: "nat \<Rightarrow> 'x ipc_scheme scode \<Rightarrow> nat \<Rightarrow> 'x ipc_scheme \<Rightarrow>
    (rt_err \<times> 'x ipc_scheme) option" where
  "rt_mq_delete fuel code a s = do {
     RT_ASSERT (rt_interrupt_nest s = 0);
     RT_ASSERT (is_queue a s);
     RT_ASSERT (rt_object_is_systemobject a s = Some False);
     s1 \<leftarrow> resume_both fuel code a (mq_senders a) s;
     mq \<leftarrow> queues s1 a;
     s2 \<leftarrow> rt_object_delete (s_code code) a (s1\<lparr>heap_freed := mq_pool mq # heap_freed s1\<rparr>);
     Some (RT_EOK, s2\<lparr>queues := (queues s2)(a := None)\<rparr>) }"

section \<open>Sending\<close>

text \<open>The count goes up, or the message is refused although it is linked; then a receiver is woken.\<close>

definition mq_linked :: "'x ipc_scheme scode \<Rightarrow> nat \<Rightarrow> u32 \<Rightarrow> rt_messagequeue \<Rightarrow> 'x ipc_scheme \<Rightarrow>
    (rt_err \<times> 'x ipc_scheme) option" where
  "mq_linked code a temp mq s =
    (if mq_entry mq < RT_MQ_ENTRY_MAX
     then map_option (Pair RT_EOK) (wake_one code a temp id (put_queue a (mq\<lparr>mq_entry := mq_entry mq + 1\<rparr>) s))
     else Some (- RT_EFULL, rt_hw_interrupt_enable temp (put_queue a mq s)))"

text \<open>
  The code lets interrupts in while it fills the block; these are the two halves around that.
  First: a block leaves the free list and is filled.
\<close>

definition mq_fill :: "nat \<Rightarrow> u8 list \<Rightarrow> u32 \<Rightarrow> 'x ipc_scheme \<Rightarrow> (nat \<times> 'x ipc_scheme) option" where
  "mq_fill a buf temp s = do {
     mq \<leftarrow> queues s a;
     let msg = msg_queue_free mq;
     let s1 = rt_hw_interrupt_enable temp (put_queue a (mq\<lparr>msg_queue_free := link_words s msg\<rparr>) s);
     Some (msg, store_bytes (msg + 4) buf s1) }"

text \<open>Second: it is linked behind the tail.\<close>

definition mq_append :: "'x ipc_scheme scode \<Rightarrow> nat \<Rightarrow> nat \<Rightarrow> 'x ipc_scheme \<Rightarrow> (rt_err \<times> 'x ipc_scheme) option" where
  "mq_append code a msg s = do {
     let (temp, s1) = rt_hw_interrupt_disable s;
     mq \<leftarrow> queues s1 a;
     let s2 = (if msg_queue_tail mq \<noteq> 0 then set_link (msg_queue_tail mq) msg s1 else s1);
     let mq1 = mq\<lparr>msg_queue_tail := msg, msg_queue_head := (if msg_queue_head mq = 0 then msg else msg_queue_head mq)\<rparr>;
     mq_linked code a temp mq1 s2 }"

definition mq_store :: "'x ipc_scheme scode \<Rightarrow> nat \<Rightarrow> u8 list \<Rightarrow> u32 \<Rightarrow> 'x ipc_scheme \<Rightarrow>
    (rt_err \<times> 'x ipc_scheme) option" where
  "mq_store code a buf temp s = do {
     (msg, s1) \<leftarrow> mq_fill a buf temp s;
     mq_append code a msg (set_link msg 0 s1) }"

definition mq_full :: "nat \<Rightarrow> 'x ipc_scheme \<Rightarrow> bool option" where
  "mq_full a s = map_option (\<lambda>mq. msg_queue_free mq = 0) (queues s a)"

definition mq_send_op :: "'x ipc_scheme scode \<Rightarrow> nat \<Rightarrow> nat option \<Rightarrow> u8 list \<Rightarrow> (rt_err, 'x ipc_scheme) waiting_op" where
  "mq_send_op code a self buf =
    \<lparr>must_wait = mq_full a,
     refusal = (\<lambda>temp s. (- RT_EFULL, rt_hw_interrupt_enable temp (clear_self self s))),
     get_in_line = (\<lambda>time s. do { mq \<leftarrow> queues s a; line_up code (mq_senders a) self (mq_flag mq) time s }),
     failed = id,
     served = mq_store code a buf\<rparr>"

definition rt_mq_send_wait :: "nat \<Rightarrow> 'x ipc_scheme scode \<Rightarrow> nat \<Rightarrow> u8 list \<Rightarrow> int \<Rightarrow> 'x ipc_scheme \<Rightarrow>
    (rt_err pending \<times> 'x ipc_scheme) option" where
  "rt_mq_send_wait fuel code a buf timeout s = do {
     RT_ASSERT (is_queue a s);
     RT_ASSERT (buf \<noteq> []);
     mq \<leftarrow> queues s a;
     if unat (msg_size mq) < length buf then Some (Finished (- RT_ERROR), s)
     else do {
       let self = rt_thread_self s;
       let (temp, s1) = rt_hw_interrupt_disable (rt_object_hook_call (s_code code) (rt_object_put_hook s) a s);
       full \<leftarrow> mq_full a s1;
       if full \<and> timeout = 0 then Some (Finished (- RT_EFULL), rt_hw_interrupt_enable temp s1)
       else wait_loop fuel code (mq_send_op code a self buf) self temp timeout s1 } }"

definition rt_mq_send_woken :: "nat \<Rightarrow> 'x ipc_scheme scode \<Rightarrow> nat \<Rightarrow> u8 list \<Rightarrow> nat \<Rightarrow> int \<Rightarrow> u32 \<Rightarrow> 'x ipc_scheme \<Rightarrow>
    (rt_err pending \<times> 'x ipc_scheme) option" where
  "rt_mq_send_woken fuel code a buf t time start =
    woken_up t time start id (wait_loop fuel code (mq_send_op code a (Some t) buf) (Some t))"

definition rt_mq_send :: "'x ipc_scheme scode \<Rightarrow> nat \<Rightarrow> u8 list \<Rightarrow> 'x ipc_scheme \<Rightarrow>
    (rt_err pending \<times> 'x ipc_scheme) option" where
  "rt_mq_send code a buf = rt_mq_send_wait 0 code a buf 0"

text \<open>The second half of an urgent message: it becomes the head.\<close>

definition mq_prepend :: "'x ipc_scheme scode \<Rightarrow> nat \<Rightarrow> nat \<Rightarrow> 'x ipc_scheme \<Rightarrow> (rt_err \<times> 'x ipc_scheme) option" where
  "mq_prepend code a msg s = do {
     let (temp, s1) = rt_hw_interrupt_disable s;
     mq \<leftarrow> queues s1 a;
     let s2 = set_link msg (msg_queue_head mq) s1;
     let mq1 = mq\<lparr>msg_queue_head := msg, msg_queue_tail := (if msg_queue_tail mq = 0 then msg else msg_queue_tail mq)\<rparr>;
     mq_linked code a temp mq1 s2 }"

definition rt_mq_urgent :: "'x ipc_scheme scode \<Rightarrow> nat \<Rightarrow> u8 list \<Rightarrow> 'x ipc_scheme \<Rightarrow>
    (rt_err \<times> 'x ipc_scheme) option" where
  "rt_mq_urgent code a buf s = do {
     RT_ASSERT (is_queue a s);
     RT_ASSERT (buf \<noteq> []);
     mq \<leftarrow> queues s a;
     if unat (msg_size mq) < length buf then Some (- RT_ERROR, s)
     else do {
       let (temp, s1) = rt_hw_interrupt_disable (rt_object_hook_call (s_code code) (rt_object_put_hook s) a s);
       full \<leftarrow> mq_full a s1;
       if full then Some (- RT_EFULL, rt_hw_interrupt_enable temp s1)
       else do {
         (msg, s2) \<leftarrow> mq_fill a buf temp s1;
         mq_prepend code a msg s2 } } }"

section \<open>Receiving\<close>

text \<open>The head leaves the queue. It must be a block: the code follows the pointer.\<close>

definition mq_unlink :: "nat \<Rightarrow> 'x ipc_scheme \<Rightarrow> (nat \<times> 'x ipc_scheme) option" where
  "mq_unlink a s = do {
     mq \<leftarrow> queues s a;
     let msg = msg_queue_head mq;
     if msg = 0 then None
     else Some (msg, put_queue a (mq\<lparr>msg_queue_head := link_words s msg,
       msg_queue_tail := (if msg_queue_tail mq = msg then 0 else msg_queue_tail mq)\<rparr>) s) }"

definition mq_free_block :: "nat \<Rightarrow> nat \<Rightarrow> 'x ipc_scheme \<Rightarrow> 'x ipc_scheme option" where
  "mq_free_block a msg s = do {
     mq \<leftarrow> queues s a;
     Some (put_queue a (mq\<lparr>msg_queue_free := msg\<rparr>) (set_link msg (msg_queue_free mq) s)) }"

definition mq_count_down :: "nat \<Rightarrow> 'x ipc_scheme \<Rightarrow> 'x ipc_scheme option" where
  "mq_count_down a s = do {
     mq \<leftarrow> queues s a;
     Some (put_queue a (mq\<lparr>mq_entry := (if 0 < mq_entry mq then mq_entry mq - 1 else mq_entry mq)\<rparr>) s) }"

text \<open>\<open>n\<close> is the size of the receiver's buffer; the result carries what is copied into it.\<close>

definition mq_fetch :: "'x ipc_scheme scode \<Rightarrow> nat \<Rightarrow> u32 \<Rightarrow> u32 \<Rightarrow> 'x ipc_scheme \<Rightarrow>
    ((rt_err \<times> u8 list option) \<times> 'x ipc_scheme) option" where
  "mq_fetch code a n temp s = do {
     (msg, s1) \<leftarrow> mq_unlink a s;
     s2 \<leftarrow> mq_count_down a s1;
     let s3 = rt_hw_interrupt_enable temp s2;
     mq \<leftarrow> queues s3 a;
     let bs = load_bytes (msg + 4) (if unat (msg_size mq) < unat n then unat (msg_size mq) else unat n) s3;
     let (temp', s4) = rt_hw_interrupt_disable s3;
     s5 \<leftarrow> mq_free_block a msg s4;
     s6 \<leftarrow> wake_one code (mq_senders a) temp' (\<lambda>s. rt_object_hook_call (s_code code) (rt_object_take_hook s) a s) s5;
     Some ((RT_EOK, Some bs), s6) }"

definition mq_empty :: "nat \<Rightarrow> 'x ipc_scheme \<Rightarrow> bool option" where
  "mq_empty a s = map_option (\<lambda>mq. mq_entry mq = 0) (queues s a)"

definition mq_recv_op :: "'x ipc_scheme scode \<Rightarrow> nat \<Rightarrow> u32 \<Rightarrow> nat option \<Rightarrow>
    (rt_err \<times> u8 list option, 'x ipc_scheme) waiting_op" where
  "mq_recv_op code a n self =
    \<lparr>must_wait = mq_empty a,
     refusal = (\<lambda>temp s. ((- RT_ETIMEOUT, None), time_out self (rt_hw_interrupt_enable temp s))),
     get_in_line = (\<lambda>time s. do { mq \<leftarrow> queues s a; line_up code a self (mq_flag mq) time s }),
     failed = (\<lambda>e. (e, None)),
     served = mq_fetch code a n\<rparr>"

definition rt_mq_recv :: "nat \<Rightarrow> 'x ipc_scheme scode \<Rightarrow> nat \<Rightarrow> u32 \<Rightarrow> int \<Rightarrow> 'x ipc_scheme \<Rightarrow>
    ((rt_err \<times> u8 list option) pending \<times> 'x ipc_scheme) option" where
  "rt_mq_recv fuel code a n timeout s = do {
     RT_ASSERT (is_queue a s);
     RT_ASSERT (n \<noteq> 0);
     let self = rt_thread_self s;
     let (temp, s1) = rt_hw_interrupt_disable (rt_object_hook_call (s_code code) (rt_object_trytake_hook s) a s);
     empty \<leftarrow> mq_empty a s1;
     if empty \<and> timeout = 0 then Some (Finished (- RT_ETIMEOUT, None), rt_hw_interrupt_enable temp s1)
     else wait_loop fuel code (mq_recv_op code a n self) self temp timeout s1 }"

definition rt_mq_recv_woken :: "nat \<Rightarrow> 'x ipc_scheme scode \<Rightarrow> nat \<Rightarrow> u32 \<Rightarrow> nat \<Rightarrow> int \<Rightarrow> u32 \<Rightarrow> 'x ipc_scheme \<Rightarrow>
    ((rt_err \<times> u8 list option) pending \<times> 'x ipc_scheme) option" where
  "rt_mq_recv_woken fuel code a n t time start =
    woken_up t time start (\<lambda>e. (e, None)) (wait_loop fuel code (mq_recv_op code a n (Some t)) (Some t))"

text \<open>The messages are released one by one; \<open>fuel\<close> bounds their number.\<close>

fun mq_release_all :: "nat \<Rightarrow> nat \<Rightarrow> 'x ipc_scheme \<Rightarrow> 'x ipc_scheme option" where
  "mq_release_all fuel a s = do {
     mq \<leftarrow> queues s a;
     if msg_queue_head mq = 0 then Some s
     else (case fuel of
       0 \<Rightarrow> None
     | Suc fuel' \<Rightarrow> do {
         (msg, s1) \<leftarrow> mq_unlink a s;
         s2 \<leftarrow> mq_free_block a msg s1;
         mq_release_all fuel' a s2 }) }"

declare mq_release_all.simps [simp del]

definition rt_mq_control :: "nat \<Rightarrow> 'x ipc_scheme scode \<Rightarrow> nat \<Rightarrow> nat \<Rightarrow> 'x ipc_scheme \<Rightarrow>
    (rt_err \<times> 'x ipc_scheme) option" where
  "rt_mq_control fuel code a cmd s = do {
     RT_ASSERT (is_queue a s);
     if cmd = 1
     then do {
       let (level, s1) = rt_hw_interrupt_disable s;
       s2 \<leftarrow> resume_both fuel code a (mq_senders a) s1;
       s3 \<leftarrow> mq_release_all fuel a s2;
       mq \<leftarrow> queues s3 a;
       map_option (Pair RT_EOK) (rt_schedule code (rt_hw_interrupt_enable level
         (put_queue a (mq\<lparr>mq_entry := 0\<rparr>) s3))) }
     else Some (- RT_ERROR, s) }"

end
