(* ===== verification/Block_List.thy ===== *)
theory Block_List
  imports Prelude
begin

text \<open>
  Blocks of memory that begin with a pointer: lists of them, and the places of the blocks of a
  pool. Message queues and memory pools use both.
\<close>

section \<open>Linked blocks\<close>

fun linked :: "(nat \<Rightarrow> nat) \<Rightarrow> nat \<Rightarrow> nat list \<Rightarrow> bool" where
  "linked nx p [] \<longleftrightarrow> p = 0"
| "linked nx p (x # xs) \<longleftrightarrow> p = x \<and> x \<noteq> 0 \<and> linked nx (nx x) xs"

fun follow :: "nat \<Rightarrow> (nat \<Rightarrow> nat) \<Rightarrow> nat \<Rightarrow> nat list" where
  "follow 0 nx p = []"
| "follow (Suc n) nx p = p # follow n nx (nx p)"

lemma linked_follow: "linked nx p xs \<Longrightarrow> follow (length xs) nx p = xs"
  by (induction xs arbitrary: p) auto

lemma linked_update [simp]: "x \<notin> set xs \<Longrightarrow> linked (nx(x := y)) p xs = linked nx p xs"
  by (induction xs arbitrary: p) auto

lemma linked_zero [simp]: "linked nx 0 xs \<longleftrightarrow> xs = []"
  by (cases xs) auto

lemma linked_append:
  "linked nx p (xs @ [l]) \<Longrightarrow> distinct (xs @ [l]) \<Longrightarrow> f \<notin> set (xs @ [l]) \<Longrightarrow> f \<noteq> 0 \<Longrightarrow>
   linked (nx(f := 0, l := f)) p (xs @ [l, f])"
  by (induction xs arbitrary: p) auto

lemma last_nonzero: "linked nx p ms \<Longrightarrow> ms \<noteq> [] \<Longrightarrow> last ms \<noteq> 0"
  by (induction ms arbitrary: p) auto

section \<open>Places\<close>

text \<open>Blocks of a pointer and \<open>sz\<close> bytes that do not overlap.\<close>

definition spaced :: "nat \<Rightarrow> nat set \<Rightarrow> bool" where
  "spaced sz B \<longleftrightarrow> (\<forall>p \<in> B. \<forall>q \<in> B. p \<noteq> q \<longrightarrow> p + 4 + sz \<le> q \<or> q + 4 + sz \<le> p)"

definition blocks_at :: "nat \<Rightarrow> nat \<Rightarrow> nat \<Rightarrow> nat list" where
  "blocks_at p stride n = map (\<lambda>k. p + k * stride) [0..<n]"

lemma blocks_at_simps [simp]:
  "blocks_at p stride 0 = []" "length (blocks_at p stride n) = n"
  by (simp_all add: blocks_at_def)

lemma blocks_at_Suc: "blocks_at p stride (Suc n) = p # blocks_at (p + stride) stride n"
  by (simp add: blocks_at_def upt_conv_Cons map_Suc_upt [symmetric] del: upt_Suc)

lemma blocks_at_less: "q \<in> set (blocks_at p stride n) \<Longrightarrow> p \<le> q"
  by (auto simp: blocks_at_def)

lemma blocks_spaced:
  assumes "4 + sz \<le> stride"
  shows "spaced sz (set (blocks_at p stride n)) \<and> distinct (blocks_at p stride n)"
proof -
  have sep: "p + k * stride + 4 + sz \<le> p + l * stride" if "k < l" for k l
  proof -
    have "Suc k * stride \<le> l * stride" using that by (intro mult_le_mono1) simp
    with assms show ?thesis by simp
  qed
  have "p + k * stride + 4 + sz \<le> p + l * stride \<or> p + l * stride + 4 + sz \<le> p + k * stride" if "k \<noteq> l" for k l
    using sep [of k l] sep [of l k] that by (cases "k < l") auto
  then have "spaced sz (set (blocks_at p stride n))" by (fastforce simp: spaced_def blocks_at_def)
  moreover have "distinct (blocks_at p stride n)" using assms by (auto simp: blocks_at_def distinct_map inj_on_def)
  ultimately show ?thesis ..
qed

end
