(* ===== verification/Msg_Queue_Correct.thy ===== *)
theory Msg_Queue_Correct
  imports Mailbox_Correct Msg_Queue Block_List
begin

text \<open>
  A message queue is a bounded channel of messages: its links form a queue and a free list that
  share its blocks.
\<close>

section \<open>The links of a queue\<close>

definition mq_rep :: "(nat \<Rightarrow> nat) \<Rightarrow> rt_messagequeue \<Rightarrow> nat list \<Rightarrow> nat list \<Rightarrow> bool" where
  "mq_rep nx mq ms fs \<longleftrightarrow> linked nx (msg_queue_head mq) ms \<and> linked nx (msg_queue_free mq) fs \<and>
     distinct (ms @ fs) \<and> msg_queue_tail mq = (if ms = [] then 0 else last ms) \<and> unat (mq_entry mq) = length ms \<and>
     length ms + length fs \<le> unat (max_msgs mq)"

lemma mq_repD:
  assumes "mq_rep nx mq ms fs"
  shows "linked nx (msg_queue_head mq) ms" "linked nx (msg_queue_free mq) fs" "distinct (ms @ fs)"
    "msg_queue_tail mq = (if ms = [] then 0 else last ms)" "unat (mq_entry mq) = length ms"
    "length ms + length fs \<le> unat (max_msgs mq)"
  using assms by (simp_all add: mq_rep_def)

lemma head_zero: "mq_rep nx mq ms fs \<Longrightarrow> msg_queue_head mq = 0 \<longleftrightarrow> ms = []"
  using mq_repD(1) [of nx mq ms fs] by (cases ms) auto

lemma free_zero: "mq_rep nx mq ms fs \<Longrightarrow> msg_queue_free mq = 0 \<longleftrightarrow> fs = []"
  using mq_repD(2) [of nx mq ms fs] by (cases fs) auto

lemma entry_inc:
  assumes "mq_rep nx mq ms (f # fs)"
  shows "unat (mq_entry mq + 1) = Suc (length ms)" "mq_entry mq < RT_MQ_ENTRY_MAX"
proof -
  have "unat (max_msgs mq) < 2 ^ LENGTH(16)" by (rule unsigned_less)
  with mq_repD(5,6) [OF assms] have "unat (mq_entry mq) < unat (max_msgs mq)" "unat (mq_entry mq) < 65535" by simp_all
  then show "unat (mq_entry mq + 1) = Suc (length ms)" "mq_entry mq < RT_MQ_ENTRY_MAX"
    using unat_inc mq_repD(5) [OF assms] by (simp_all add: word_less_nat_alt)
qed

lemma append_rep:
  assumes rep: "mq_rep nx mq ms (f # fs)"
    and nx': "nx' = (if msg_queue_tail mq \<noteq> 0 then (nx(f := 0))(msg_queue_tail mq := f) else nx(f := 0))"
    and mq': "mq' = mq\<lparr>msg_queue_free := nx f, msg_queue_tail := f,
      msg_queue_head := (if msg_queue_head mq = 0 then f else msg_queue_head mq), mq_entry := mq_entry mq + 1\<rparr>"
  shows "mq_rep nx' mq' (ms @ [f]) fs"
proof -
  note R = mq_repD [OF rep]
  show ?thesis
  proof (cases ms rule: rev_cases)
    case Nil
    with R entry_inc [OF rep] show ?thesis by (simp add: mq_rep_def nx' mq')
  next
    case (snoc xs l)
    have "l \<noteq> 0" using last_nonzero [OF R(1)] snoc by simp
    moreover from this have "nx' = nx(f := 0, l := f)" using R(4) snoc by (simp add: nx')
    moreover have "linked (nx(f := 0, l := f)) (msg_queue_head mq) (xs @ [l, f])"
      using R(1-3) snoc by (intro linked_append) auto
    moreover have "msg_queue_head mq \<noteq> 0" using head_zero [OF rep] snoc by simp
    ultimately show ?thesis using R(2,3,6) entry_inc(1) [OF rep] snoc by (auto simp: mq_rep_def mq')
  qed
qed

lemma prepend_rep:
  assumes rep: "mq_rep nx mq ms (f # fs)" and nx': "nx' = nx(f := msg_queue_head mq)"
    and mq': "mq' = mq\<lparr>msg_queue_free := nx f, msg_queue_head := f,
      msg_queue_tail := (if msg_queue_tail mq = 0 then f else msg_queue_tail mq), mq_entry := mq_entry mq + 1\<rparr>"
  shows "mq_rep nx' mq' (f # ms) fs"
  using mq_repD [OF rep] entry_inc(1) [OF rep] last_nonzero [OF mq_repD(1) [OF rep]]
  by (auto simp: mq_rep_def nx' mq')

lemma take_rep:
  assumes rep: "mq_rep nx mq (m # ms) fs" and nx': "nx' = nx(m := msg_queue_free mq)"
    and mq': "mq' = mq\<lparr>msg_queue_head := nx m, msg_queue_tail := (if msg_queue_tail mq = m then 0 else msg_queue_tail mq),
      mq_entry := mq_entry mq - 1, msg_queue_free := m\<rparr>"
  shows "mq_rep nx' mq' ms (m # fs)"
proof -
  note R = mq_repD [OF rep]
  have "0 < mq_entry mq" using R(5) by (simp add: word_less_nat_alt)
  then have "unat (mq_entry mq - 1) = length ms" using R(5) by (simp add: unat_dec)
  moreover have "msg_queue_tail mq = m \<longleftrightarrow> ms = []" using R(3,4) by (auto dest: last_in_set)
  ultimately show ?thesis using R by (auto simp: mq_rep_def nx' mq')
qed

section \<open>The bytes\<close>

lemma load_store_same:
  assumes "length bs \<le> n"
  shows "take (length bs) (load_bytes p n (store_bytes p bs s)) = bs"
proof (rule nth_equalityI)
  show "length (take (length bs) (load_bytes p n (store_bytes p bs s))) = length bs"
    using assms by (simp add: load_bytes_def)
  fix i assume "i < length (take (length bs) (load_bytes p n (store_bytes p bs s)))"
  then show "take (length bs) (load_bytes p n (store_bytes p bs s)) ! i = bs ! i"
    using assms by (simp add: load_bytes_def store_bytes_def)
qed

lemma load_store_other:
  assumes "p + n \<le> q \<or> q + length bs \<le> p"
  shows "load_bytes p n (store_bytes q bs s) = load_bytes p n s"
  using assms by (auto simp: load_bytes_def store_bytes_def)

lemma load_length [simp]: "length (load_bytes p n s) = n"
  by (simp add: load_bytes_def)

lemma load_take: "k \<le> n \<Longrightarrow> load_bytes p k s = take k (load_bytes p n s)"
  by (simp add: load_bytes_def take_map)

lemma load_same: "data_bytes s' = data_bytes s \<Longrightarrow> load_bytes p n s' = load_bytes p n s"
  by (simp add: load_bytes_def)

section \<open>The operations in the system\<close>

text \<open>\<open>B\<close> are the blocks of the queue, \<open>sz\<close> is their size.\<close>

definition mq_system :: "nat \<Rightarrow> nat set \<Rightarrow> nat \<Rightarrow> 'x ipc_scheme \<Rightarrow> bool" where
  "mq_system a B sz s \<longleftrightarrow> thread_ok s \<and> rt_current_thread s \<noteq> None \<and> is_queue a s \<and> spaced sz B \<and>
     (\<exists>mq ms fs. queues s a = Some mq \<and> unat (msg_size mq) = sz \<and> mq_rep (link_words s) mq ms fs \<and> set (ms @ fs) = B)"

definition mq_contents :: "nat \<Rightarrow> 'x ipc_scheme \<Rightarrow> u8 list list" where
  "mq_contents a s = (case queues s a of None \<Rightarrow> [] | Some mq \<Rightarrow>
     map (\<lambda>p. load_bytes (p + 4) (unat (msg_size mq)) s) (follow (unat (mq_entry mq)) (link_words s) (msg_queue_head mq)))"

definition area :: "nat set \<Rightarrow> nat \<Rightarrow> nat set" where
  "area B sz = {p. \<exists>q \<in> B. q + 4 \<le> p \<and> p < q + 4 + sz}"

text \<open>What an operation on one queue leaves alone: the other objects, memory outside its blocks.\<close>

definition beside_mq :: "nat \<Rightarrow> nat set \<Rightarrow> nat \<Rightarrow> 'x ipc_scheme \<Rightarrow> _" where
  "beside_mq a B sz s = ((semaphores s, mutexes s, events s, mailboxes s, pools s), (queues s)(a := None),
     (\<lambda>p. if p \<in> B then 0 else link_words s p),
     (\<lambda>p. if p \<in> area B sz then 0 else data_bytes s p),
     primask s, rt_interrupt_nest s, rt_scheduler_lock_nest s)"

text \<open>The fields the other theories see, after changes to queue and memory.\<close>

definition edited :: "nat \<Rightarrow> rt_messagequeue \<Rightarrow> (nat \<Rightarrow> nat) \<Rightarrow> (nat \<Rightarrow> u8) \<Rightarrow> 'x ipc_scheme \<Rightarrow> 'x ipc_scheme" where
  "edited a mq nx bs s = s\<lparr>queues := (queues s)(a \<mapsto> mq), link_words := nx, data_bytes := bs\<rparr>"

lemma edited_sel [simp]:
  "queues (edited a mq nx bs s) = (queues s)(a \<mapsto> mq)" "link_words (edited a mq nx bs s) = nx"
  "data_bytes (edited a mq nx bs s) = bs" "thread_ok (edited a mq nx bs s) = thread_ok s"
  "rt_current_thread (edited a mq nx bs s) = rt_current_thread s"
  "suspend_thread (edited a mq nx bs s) = suspend_thread s" "objects (edited a mq nx bs s) = objects s"
  by (simp_all add: edited_def) (rule thread_ok_cong; simp add: hooks_off_def)

text \<open>Every state has this form, and the steps of the code keep it.\<close>

lemma edited_self: "queues s a = Some mq \<Longrightarrow> s = edited a mq (link_words s) (data_bytes s) s"
  by (cases s) (auto simp: edited_def)

definition stored :: "nat \<Rightarrow> u8 list \<Rightarrow> (nat \<Rightarrow> u8) \<Rightarrow> nat \<Rightarrow> u8" where
  "stored p bs d = (\<lambda>q. if p \<le> q \<and> q < p + length bs then bs ! (q - p) else d q)"

lemma stored_bytes: "data_bytes (store_bytes p bs s) = stored p bs (data_bytes s)"
  by (simp add: store_bytes_def stored_def)

lemma edited_steps:
  "put_queue a mq' (edited a mq nx d s) = edited a mq' nx d s"
  "set_link p q (edited a mq nx d s) = edited a mq (nx(p := q)) d s"
  "store_bytes p bs (edited a mq nx d s) = edited a mq nx (stored p bs d) s"
  "(edited a mq nx d s)\<lparr>primask := m\<rparr> = edited a mq nx d (s\<lparr>primask := m\<rparr>)"
  "primask (edited a mq nx d s) = primask s" "hooks_off (edited a mq nx d s) = hooks_off s"
  "load_bytes p n (edited a mq nx d s) = map (\<lambda>i. d (p + i)) [0..<n]"
  by (simp_all add: edited_def put_queue_def set_link_def store_bytes_def stored_def load_bytes_def hooks_off_def
      cong: if_cong)

lemma edited_wake:
  assumes ok: "thread_ok s" and cur: "rt_current_thread s \<noteq> None" and queue: "is_queue a s" and between: "\<And>s. hooks_off s \<Longrightarrow> between s = s"
    and rep: "mq_rep nx mq ms fs" "set (ms @ fs) = B" "unat (msg_size mq) = sz" "spaced sz B"
    and out: "\<And>p. p \<notin> B \<Longrightarrow> nx p = link_words s p"
      "\<And>p. p \<notin> area B sz \<Longrightarrow> bs p = data_bytes s p"
  shows "\<exists>s'. wake_one code l (primask s) between (edited a mq nx bs (s\<lparr>primask := m\<rparr>)) = Some s' \<and>
    mq_system a B sz s' \<and> mq_contents a s' = map (\<lambda>p. map (\<lambda>i. bs (p + 4 + i)) [0..<sz]) ms \<and>
    beside_mq a B sz s' = beside_mq a B sz s"
proof -
  let ?s = "edited a mq nx bs (s\<lparr>primask := m\<rparr>)"
  from wake_one_ok [of ?s between code l "primask s"] ok cur between obtain s' where
    s': "wake_one code l (primask s) between ?s = Some s'" "woke l ?s s'" "primask s' = primask s" by auto
  from s'(2) have m: "sched.more s' = sched.more ?s" by (simp add: woke_def)
  note same = same_ipc [OF m]
  have q: "is_queue a s'" using s'(2) queue by (simp add: woke_def is_queue_def rt_object_get_type_def)
  have sys: "mq_system a B sz s'"
    unfolding mq_system_def same using s'(2) q rep by (auto simp: woke_def)
  have con: "mq_contents a s' = map (\<lambda>p. map (\<lambda>i. bs (p + 4 + i)) [0..<sz]) ms"
    using mq_repD(5) [OF rep(1)] linked_follow [OF mq_repD(1) [OF rep(1)]] rep(3)
    by (simp add: mq_contents_def same load_bytes_def)
  have "beside_mq a B sz s' = beside_mq a B sz s"
    using s'(2,3) out by (simp add: beside_mq_def same woke_def fun_eq_iff) (simp add: edited_def)
  with s'(1) sys con show ?thesis by blast
qed

lemma mq_systemE:
  assumes "mq_system a B sz s"
  obtains mq ms fs where "thread_ok s" "hooks_off s" "rt_current_thread s \<noteq> None" "is_queue a s" "spaced sz B"
    "queues s a = Some mq" "unat (msg_size mq) = sz" "mq_rep (link_words s) mq ms fs" "set (ms @ fs) = B"
    "mq_contents a s = map (\<lambda>p. load_bytes (p + 4) sz s) ms"
proof -
  from assms obtain mq ms fs where *: "thread_ok s" "rt_current_thread s \<noteq> None" "is_queue a s" "spaced sz B"
    "queues s a = Some mq" "unat (msg_size mq) = sz" "mq_rep (link_words s) mq ms fs" "set (ms @ fs) = B"
    unfolding mq_system_def by auto
  have "mq_contents a s = map (\<lambda>p. load_bytes (p + 4) sz s) ms"
    using *(5,6) mq_repD(5) [OF *(7)] linked_follow [OF mq_repD(1) [OF *(7)]] by (simp add: mq_contents_def)
  with * thread_okD(3) [OF *(1)] show thesis by (intro that)
qed

definition mq_valid :: "nat \<Rightarrow> u8 list \<Rightarrow> bool" where
  "mq_valid sz m \<longleftrightarrow> m \<noteq> [] \<and> length m \<le> sz"

text \<open>What a block holds of a message: its bytes, then old ones.\<close>

definition mq_holds :: "nat \<Rightarrow> u8 list \<Rightarrow> u8 list \<Rightarrow> bool" where
  "mq_holds sz m x \<longleftrightarrow> length x = sz \<and> take (length m) x = m"

text \<open>The bytes after a message is copied to block \<open>f\<close>, seen from the others.\<close>

lemma other_blocks:
  assumes "spaced sz B" and "set ms \<subseteq> B" and "f \<in> B" and "f \<notin> set ms" and "length m \<le> sz"
  shows "map (\<lambda>p. map (\<lambda>i. data_bytes (store_bytes (f + 4) m s) (p + 4 + i)) [0..<sz]) ms =
    map (\<lambda>p. load_bytes (p + 4) sz s) ms"
proof (rule map_cong [OF refl])
  fix p assume p: "p \<in> set ms"
  with assms have "p + 4 + sz \<le> f \<or> f + 4 + sz \<le> p" by (auto simp: spaced_def)
  with assms(5) have "load_bytes (p + 4) sz (store_bytes (f + 4) m s) = load_bytes (p + 4) sz s"
    by (intro load_store_other) auto
  then show "map (\<lambda>i. data_bytes (store_bytes (f + 4) m s) (p + 4 + i)) [0..<sz] = load_bytes (p + 4) sz s"
    by (simp add: load_bytes_def)
qed

lemma store_outside:
  assumes "f \<in> B" and "length m \<le> sz" and "p \<notin> area B sz"
  shows "data_bytes (store_bytes (f + 4) m s) p = data_bytes s p"
  using assms by (force simp: store_bytes_def area_def)

lemma store_holds:
  assumes "length m \<le> sz"
  shows "mq_holds sz m (map (\<lambda>i. data_bytes (store_bytes (f + 4) m s) (f + 4 + i)) [0..<sz])"
  using load_store_same [OF assms, of "f + 4" s] by (simp add: mq_holds_def load_bytes_def)

text \<open>Both ways to put a message into the queue: the block \<open>f\<close> goes to one end.\<close>

lemma put_message:
  assumes sys: "thread_ok s" "rt_current_thread s \<noteq> None" "is_queue a s" "spaced sz B"
    and m: "mq_valid sz m" and rep: "mq_rep nx mq' ms' fs" "set (ms' @ fs) = B" "unat (msg_size mq') = sz"
    and out: "\<And>p. p \<notin> B \<Longrightarrow> nx p = link_words s p" and f: "f \<in> B"
  shows "\<exists>s'. wake_one code a (primask s) id
      (edited a mq' nx (data_bytes (store_bytes (f + 4) m s)) (s\<lparr>primask := 1\<rparr>)) = Some s' \<and>
    mq_system a B sz s' \<and>
    mq_contents a s' = map (\<lambda>p. map (\<lambda>i. data_bytes (store_bytes (f + 4) m s) (p + 4 + i)) [0..<sz]) ms' \<and>
    beside_mq a B sz s' = beside_mq a B sz s"
  by (rule edited_wake [OF sys(1-3) _ rep sys(4) out]) (use m f store_outside in \<open>auto simp: mq_valid_def\<close>)

lemma mq_send_room:
  assumes sys: "mq_system a B sz s" and m: "mq_valid sz m" and room: "length (mq_contents a s) < card B"
  shows "\<exists>s' x. rt_mq_send code a m s = Some (Finished RT_EOK, s') \<and> mq_system a B sz s' \<and> mq_holds sz m x \<and>
    mq_contents a s' = mq_contents a s @ [x] \<and> beside_mq a B sz s' = beside_mq a B sz s"
proof (rule mq_systemE [OF sys])
  fix mq ms fs
  assume A: "thread_ok s" "hooks_off s" "rt_current_thread s \<noteq> None" "is_queue a s" "spaced sz B" "queues s a = Some mq"
    "unat (msg_size mq) = sz" "mq_rep (link_words s) mq ms fs" "set (ms @ fs) = B"
    "mq_contents a s = map (\<lambda>p. load_bytes (p + 4) sz s) ms"
  note R = mq_repD [OF A(8)]
  have "card B = length ms + length fs" using distinct_card [OF R(3)] A(9) by simp
  then obtain f fs' where fs: "fs = f # fs'" using room A(10) by (cases fs) auto
  with R(2) have f: "msg_queue_free mq = f" "f \<noteq> 0" by simp_all
  have fB: "f \<in> B" "f \<notin> set ms" "set ms \<subseteq> B" using fs A(9) R(3) by auto
  let ?nx = "link_words s"
  let ?nx' = "if msg_queue_tail mq \<noteq> 0 then (?nx(f := 0))(msg_queue_tail mq := f) else ?nx(f := 0)"
  let ?mq = "mq\<lparr>msg_queue_free := ?nx f, msg_queue_tail := f,
      msg_queue_head := (if msg_queue_head mq = 0 then f else msg_queue_head mq), mq_entry := mq_entry mq + 1\<rparr>"
  have rep: "mq_rep ?nx' ?mq (ms @ [f]) fs'" by (rule append_rep [OF A(8) [unfolded fs] refl refl])
  have setB: "set ((ms @ [f]) @ fs') = B" using A(9) fs by auto
  have tailB: "msg_queue_tail mq \<noteq> 0 \<Longrightarrow> msg_queue_tail mq \<in> B" using R(4) fB(3) by (auto split: if_splits)
  have out: "?nx' p = ?nx p" if "p \<notin> B" for p using that fB(1) tailB by auto
  let ?d = "data_bytes (store_bytes (f + 4) m s)"
  from put_message [OF A(1,3,4,5) m rep setB _ out fB(1), of code] A(7) obtain s' where
    s': "wake_one code a (primask s) id (edited a ?mq ?nx' ?d (s\<lparr>primask := 1\<rparr>)) = Some s'" "mq_system a B sz s'"
      "mq_contents a s' = map (\<lambda>p. map (\<lambda>i. ?d (p + 4 + i)) [0..<sz]) (ms @ [f])"
      "beside_mq a B sz s' = beside_mq a B sz s" by auto
  let ?x = "map (\<lambda>i. ?d (f + 4 + i)) [0..<sz]"
  have len: "length m \<le> sz" "m \<noteq> []" using m by (simp_all add: mq_valid_def)
  have con: "mq_contents a s' = mq_contents a s @ [?x]"
    using s'(3) other_blocks [OF A(5) fB(3,1,2) len(1), of s] A(10) by simp
  have full: "mq_full a (s\<lparr>primask := 1\<rparr>) = Some False" using A(6) f by (simp add: mq_full_def)
  have st: "mq_store code a m (primask s) (s\<lparr>primask := 1\<rparr>) = Some (RT_EOK, s')"
  proof -
    let ?e = "edited a mq (link_words s) (data_bytes s) (s\<lparr>primask := 1\<rparr>)"
    have "s\<lparr>primask := 1\<rparr> = ?e" using edited_self [of "s\<lparr>primask := 1\<rparr>" a mq] A(6) by simp
    then have "mq_store code a m (primask s) (s\<lparr>primask := 1\<rparr>) = mq_store code a m (primask s) ?e" by (rule arg_cong)
    also have "\<dots> = map_option (Pair RT_EOK)
        (wake_one code a (primask s) id (edited a ?mq ?nx' ?d (s\<lparr>primask := 1\<rparr>)))"
      using f entry_inc(2) [OF A(8) [unfolded fs]]
      by (simp add: mq_store_def mq_fill_def mq_append_def mq_linked_def irq_defs Let_def edited_steps stored_bytes)
    finally have "mq_store code a m (primask s) (s\<lparr>primask := 1\<rparr>) = map_option (Pair RT_EOK)
        (wake_one code a (primask s) id (edited a ?mq ?nx' ?d (s\<lparr>primask := 1\<rparr>)))" .
    with s'(1) show ?thesis by simp
  qed
  have "rt_mq_send code a m s = Some (Finished RT_EOK, s')"
    using A(2,4,6,7) len full st
    by (simp add: rt_mq_send_def rt_mq_send_wait_def irq_defs wait_loop.simps mq_send_op_def)
  with s'(2,4) con store_holds [OF len(1), of f s] show ?thesis by blast
qed

lemma mq_full_iff:
  assumes "queues s a = Some mq" and "mq_rep (link_words s) mq ms fs"
  shows "mq_full a (s\<lparr>primask := m\<rparr>) = Some (fs = [])"
  using assms free_zero [OF assms(2)] by (simp add: mq_full_def)

lemma mq_send_full:
  assumes sys: "mq_system a B sz s" and m: "mq_valid sz m" and full: "length (mq_contents a s) = card B"
  shows "rt_mq_send code a m s = Some (Finished (- RT_EFULL), s)"
proof (rule mq_systemE [OF sys])
  fix mq ms fs
  assume A: "hooks_off s" "is_queue a s" "queues s a = Some mq" "unat (msg_size mq) = sz" "mq_rep (link_words s) mq ms fs"
    "set (ms @ fs) = B" "mq_contents a s = map (\<lambda>p. load_bytes (p + 4) sz s) ms"
  have "fs = []" using full A(7) distinct_card [OF mq_repD(3) [OF A(5)]] A(6) by simp
  then have "mq_full a (s\<lparr>primask := 1\<rparr>) = Some True" using mq_full_iff [OF A(3,5)] by simp
  then show ?thesis using A(1-4) m by (simp add: rt_mq_send_def rt_mq_send_wait_def irq_defs mq_valid_def)
qed

lemma mq_urgent_room:
  assumes sys: "mq_system a B sz s" and m: "mq_valid sz m" and room: "length (mq_contents a s) < card B"
  shows "\<exists>s' x. rt_mq_urgent code a m s = Some (RT_EOK, s') \<and> mq_system a B sz s' \<and> mq_holds sz m x \<and>
    mq_contents a s' = x # mq_contents a s \<and> beside_mq a B sz s' = beside_mq a B sz s"
proof (rule mq_systemE [OF sys])
  fix mq ms fs
  assume A: "thread_ok s" "hooks_off s" "rt_current_thread s \<noteq> None" "is_queue a s" "spaced sz B" "queues s a = Some mq"
    "unat (msg_size mq) = sz" "mq_rep (link_words s) mq ms fs" "set (ms @ fs) = B"
    "mq_contents a s = map (\<lambda>p. load_bytes (p + 4) sz s) ms"
  note R = mq_repD [OF A(8)]
  have "card B = length ms + length fs" using distinct_card [OF R(3)] A(9) by simp
  then obtain f fs' where fs: "fs = f # fs'" using room A(10) by (cases fs) auto
  with R(2) have f: "msg_queue_free mq = f" "f \<noteq> 0" by simp_all
  have fB: "f \<in> B" "f \<notin> set ms" "set ms \<subseteq> B" using fs A(9) R(3) by auto
  let ?nx' = "(link_words s)(f := msg_queue_head mq)"
  let ?mq = "mq\<lparr>msg_queue_free := link_words s f, msg_queue_head := f,
      msg_queue_tail := (if msg_queue_tail mq = 0 then f else msg_queue_tail mq), mq_entry := mq_entry mq + 1\<rparr>"
  have rep: "mq_rep ?nx' ?mq (f # ms) fs'" by (rule prepend_rep [OF A(8) [unfolded fs] refl refl])
  have setB: "set ((f # ms) @ fs') = B" using A(9) fs by auto
  have out: "?nx' p = link_words s p" if "p \<notin> B" for p using that fB(1) by auto
  let ?d = "data_bytes (store_bytes (f + 4) m s)"
  have sz: "unat (msg_size ?mq) = sz" using A(7) by simp
  from put_message [OF A(1,3,4,5) m rep setB sz out fB(1), of code] obtain s' where
    s': "wake_one code a (primask s) id (edited a ?mq ?nx' ?d (s\<lparr>primask := 1\<rparr>)) = Some s'" "mq_system a B sz s'"
      "mq_contents a s' = map (\<lambda>p. map (\<lambda>i. ?d (p + 4 + i)) [0..<sz]) (f # ms)"
      "beside_mq a B sz s' = beside_mq a B sz s" by blast
  have len: "length m \<le> sz" "m \<noteq> []" using m by (simp_all add: mq_valid_def)
  have con: "mq_contents a s' = map (\<lambda>i. ?d (f + 4 + i)) [0..<sz] # mq_contents a s"
    using s'(3) other_blocks [OF A(5) fB(3,1,2) len(1), of s] A(10) by simp
  let ?e = "edited a mq (link_words s) (data_bytes s) (s\<lparr>primask := 1\<rparr>)"
  have e: "s\<lparr>primask := 1\<rparr> = ?e" using edited_self [of "s\<lparr>primask := 1\<rparr>" a mq] A(6) by simp
  have full: "mq_full a (s\<lparr>primask := 1\<rparr>) = Some False" using mq_full_iff [OF A(6,8)] fs by simp
  have "rt_mq_urgent code a m s = do { (msg, s2) \<leftarrow> mq_fill a m (primask s) (s\<lparr>primask := 1\<rparr>); mq_prepend code a msg s2 }"
    using A(2,4,6,7) len full by (simp add: rt_mq_urgent_def irq_defs)
  also have "\<dots> = do { (msg, s2) \<leftarrow> mq_fill a m (primask s) ?e; mq_prepend code a msg s2 }"
    by (rule arg_cong [OF e])
  also have "\<dots> = map_option (Pair RT_EOK)
      (wake_one code a (primask s) id (edited a ?mq ?nx' ?d (s\<lparr>primask := 1\<rparr>)))"
    using f entry_inc(2) [OF A(8) [unfolded fs]]
    by (simp add: mq_fill_def mq_prepend_def mq_linked_def irq_defs Let_def edited_steps stored_bytes)
  finally have "rt_mq_urgent code a m s = Some (RT_EOK, s')" using s'(1) by simp
  with s'(2,4) con store_holds [OF len(1), of f s] show ?thesis by blast
qed

lemma mq_urgent_full:
  assumes sys: "mq_system a B sz s" and m: "mq_valid sz m" and full: "length (mq_contents a s) = card B"
  shows "rt_mq_urgent code a m s = Some (- RT_EFULL, s)"
proof (rule mq_systemE [OF sys])
  fix mq ms fs
  assume A: "hooks_off s" "is_queue a s" "queues s a = Some mq" "unat (msg_size mq) = sz" "mq_rep (link_words s) mq ms fs"
    "set (ms @ fs) = B" "mq_contents a s = map (\<lambda>p. load_bytes (p + 4) sz s) ms"
  have "fs = []" using full A(7) distinct_card [OF mq_repD(3) [OF A(5)]] A(6) by simp
  then have "mq_full a (s\<lparr>primask := 1\<rparr>) = Some True" using mq_full_iff [OF A(3,5)] by simp
  then show ?thesis using A(1-4) m by (simp add: rt_mq_urgent_def irq_defs mq_valid_def)
qed

lemma mq_empty_iff:
  assumes "queues s a = Some mq" and "mq_rep (link_words s) mq ms fs"
  shows "mq_empty a (s\<lparr>primask := m\<rparr>) = Some (ms = [])"
  using assms mq_repD(5) [OF assms(2)] by (simp add: mq_empty_def unat_eq_0 [symmetric])

lemma mq_recv_some:
  assumes sys: "mq_system a B sz s" and n: "n \<noteq> 0" and some: "mq_contents a s = x # xs"
  shows "\<exists>s'. rt_mq_recv 0 code a n 0 s = Some (Finished (RT_EOK, Some (take (unat n) x)), s') \<and> mq_system a B sz s' \<and>
    mq_contents a s' = xs \<and> beside_mq a B sz s' = beside_mq a B sz s"
proof (rule mq_systemE [OF sys])
  fix mq ms0 fs
  assume A: "thread_ok s" "hooks_off s" "rt_current_thread s \<noteq> None" "is_queue a s" "spaced sz B" "queues s a = Some mq"
    "unat (msg_size mq) = sz" "mq_rep (link_words s) mq ms0 fs" "set (ms0 @ fs) = B"
    "mq_contents a s = map (\<lambda>p. load_bytes (p + 4) sz s) ms0"
  from some A(10) obtain f ms where ms0: "ms0 = f # ms" by (cases ms0) auto
  with some A(10) have x: "x = load_bytes (f + 4) sz s" "xs = map (\<lambda>p. load_bytes (p + 4) sz s) ms" by simp_all
  note R = mq_repD [OF A(8) [unfolded ms0]]
  from R(1) have f: "msg_queue_head mq = f" "f \<noteq> 0" by simp_all
  have pos: "0 < mq_entry mq" using R(5) by (simp add: word_less_nat_alt)
  let ?nx' = "(link_words s)(f := msg_queue_free mq)"
  let ?mq = "mq\<lparr>msg_queue_head := link_words s f, msg_queue_tail := (if msg_queue_tail mq = f then 0 else msg_queue_tail mq),
      mq_entry := mq_entry mq - 1, msg_queue_free := f\<rparr>"
  have rep: "mq_rep ?nx' ?mq ms (f # fs)" by (rule take_rep [OF A(8) [unfolded ms0] refl refl])
  have setB: "set (ms @ f # fs) = B" using A(9) ms0 by auto
  have out: "?nx' p = link_words s p" if "p \<notin> B" for p using that setB by auto
  let ?h = "\<lambda>s. rt_object_hook_call (s_code code) (rt_object_take_hook s) a s"
  have sz: "unat (msg_size ?mq) = sz" using A(7) by simp
  have h: "hooks_off s \<Longrightarrow> ?h s = s" for s by simp
  from edited_wake [OF A(1,3,4) h rep setB sz A(5) out refl, of code "mq_senders a" 1] obtain s' where
    s': "wake_one code (mq_senders a) (primask s) ?h (edited a ?mq ?nx' (data_bytes s) (s\<lparr>primask := 1\<rparr>)) = Some s'"
      "mq_system a B sz s'" "mq_contents a s' = map (\<lambda>p. map (\<lambda>i. data_bytes s (p + 4 + i)) [0..<sz]) ms"
      "beside_mq a B sz s' = beside_mq a B sz s" by blast
  have con: "mq_contents a s' = xs" using s'(3) x(2) by (simp add: load_bytes_def)
  let ?e = "edited a mq (link_words s) (data_bytes s) (s\<lparr>primask := 1\<rparr>)"
  have e: "s\<lparr>primask := 1\<rparr> = ?e" using edited_self [of "s\<lparr>primask := 1\<rparr>" a mq] A(6) by simp
  have some': "mq_empty a (s\<lparr>primask := 1\<rparr>) = Some False" using mq_empty_iff [OF A(6,8)] ms0 by simp
  have part: "map (\<lambda>i. data_bytes s (f + 4 + i)) [0..<(if sz < unat n then sz else unat n)] = take (unat n) x"
    by (simp add: x load_bytes_def take_map)
  have "mq_fetch code a n (primask s) (s\<lparr>primask := 1\<rparr>) = mq_fetch code a n (primask s) ?e" by (rule arg_cong [OF e])
  also have "\<dots> = map_option (Pair (RT_EOK, Some (take (unat n) x)))
      (wake_one code (mq_senders a) (primask s) ?h (edited a ?mq ?nx' (data_bytes s) (s\<lparr>primask := 1\<rparr>)))"
    using f pos A(7) part [symmetric]
    by (simp add: mq_fetch_def mq_unlink_def mq_count_down_def mq_free_block_def irq_defs Let_def edited_steps
        map_conv_bind_option comp_def)
  finally have "mq_fetch code a n (primask s) (s\<lparr>primask := 1\<rparr>) = Some ((RT_EOK, Some (take (unat n) x)), s')"
    using s'(1) by simp
  then have "rt_mq_recv 0 code a n 0 s = Some (Finished (RT_EOK, Some (take (unat n) x)), s')"
    using A(2,4) n some' by (simp add: rt_mq_recv_def irq_defs wait_loop.simps mq_recv_op_def)
  with s'(2,4) con show ?thesis by blast
qed

lemma mq_recv_none:
  assumes sys: "mq_system a B sz s" and n: "n \<noteq> 0" and none: "mq_contents a s = []"
  shows "rt_mq_recv 0 code a n 0 s = Some (Finished (- RT_ETIMEOUT, None), s)"
proof (rule mq_systemE [OF sys])
  fix mq ms fs
  assume A: "hooks_off s" "is_queue a s" "queues s a = Some mq" "mq_rep (link_words s) mq ms fs"
    "mq_contents a s = map (\<lambda>p. load_bytes (p + 4) sz s) ms"
  have "ms = []" using none A(5) by simp
  then have "mq_empty a (s\<lparr>primask := 1\<rparr>) = Some True" using mq_empty_iff [OF A(3,4)] by simp
  then show ?thesis using A(1,2) n by (simp add: rt_mq_recv_def irq_defs)
qed

section \<open>The channel\<close>

definition mq_send_now :: "'x ipc_scheme scode \<Rightarrow> nat \<Rightarrow> u8 list \<Rightarrow> 'x ipc_scheme \<Rightarrow> (rt_err \<times> 'x ipc_scheme) option" where
  "mq_send_now code a m s = finished (rt_mq_send code a m s)"

definition mq_recv_now :: "'x ipc_scheme scode \<Rightarrow> nat \<Rightarrow> nat \<Rightarrow> 'x ipc_scheme \<Rightarrow>
    ((rt_err \<times> u8 list option) \<times> 'x ipc_scheme) option" where
  "mq_recv_now code a n s = finished (rt_mq_recv 0 code a (of_nat n) 0 s)"

lemma size_word: "0 < n \<Longrightarrow> n < 2 ^ 32 \<Longrightarrow> (of_nat n :: u32) \<noteq> 0 \<and> unat (of_nat n :: u32) = n"
  by (simp add: unat_of_nat of_nat_eq_0_iff take_bit_nat_eq_self word_of_nat_eq_0_iff nat_dvd_not_less)

interpretation mq: channel "- RT_EFULL" "mq_system a B sz" "mq_contents a" "card B" "beside_mq a B sz" "mq_valid sz" "mq_holds sz" take
  "mq_send_now code a" "mq_recv_now code a" "mq_valid sz" "rt_mq_urgent code a" for a B sz code
proof (unfold_locales, goal_cases)
  case (1 s)
  then show ?case
  proof (elim mq_systemE)
    fix mq ms fs
    assume "mq_rep (link_words s) mq ms fs" "set (ms @ fs) = B" "mq_contents a s = map (\<lambda>p. load_bytes (p + 4) sz s) ms"
    then show ?thesis using distinct_card [OF mq_repD(3)] by fastforce
  qed
next
  case (2 s m)
  from mq_send_room [OF 2, of code] show ?case by (auto simp: mq_send_now_def finished_def)
next
  case (3 s m)
  with mq_send_full [OF 3, of code] show ?case by (simp add: mq_send_now_def finished_def)
next
  case (4 s n x xs)
  from mq_recv_some [OF 4(1) _ 4(4), of "of_nat n" code] size_word [OF 4(2,3)] show ?case
    by (auto simp: mq_recv_now_def finished_def)
next
  case (5 s n)
  with mq_recv_none [OF 5(1) _ 5(4), of "of_nat n" code] size_word [OF 5(2,3)] show ?case
    by (simp add: mq_recv_now_def finished_def)
next
  case (6 s m)
  from mq_urgent_room [OF 6, of code] show ?case by auto
next
  case (7 s m)
  with mq_urgent_full [OF 7, of code] show ?case by simp
qed

end
