(* ===== verification/Msg_Queue_Behaviour.thy ===== *)
theory Msg_Queue_Behaviour
  imports Msg_Queue_Correct Example_System
begin

text \<open>
  The initialisation of a message queue, and what its users rely on.
\<close>

section \<open>Initialisation\<close>

lemma link_free_linked:
  assumes "linked nx free fs" and "\<forall>q \<in> set fs. q < p" and "0 < p" and "0 < stride"
  shows "linked (snd (link_free n p stride free nx)) (fst (link_free n p stride free nx)) (rev (blocks_at p stride n) @ fs) \<and>
    (\<forall>q. q \<notin> set (blocks_at p stride n) \<longrightarrow> snd (link_free n p stride free nx) q = nx q)"
  using assms
proof (induction n arbitrary: p free nx fs)
  case 0
  then show ?case by simp
next
  case (Suc n)
  have "p \<notin> set fs" using Suc.prems(2) by blast
  then have a: "linked (nx(p := free)) p (p # fs)" using Suc.prems(1,3) linked_update [of p fs nx free free]
    by (simp add: fun_upd_def)
  have b: "\<forall>q \<in> set (p # fs). q < p + stride" using Suc.prems(2,4) by fastforce
  have IH: "linked (snd (link_free n (p + stride) stride p (nx(p := free))))
      (fst (link_free n (p + stride) stride p (nx(p := free)))) (rev (blocks_at (p + stride) stride n) @ p # fs) \<and>
    (\<forall>q. q \<notin> set (blocks_at (p + stride) stride n) \<longrightarrow>
      snd (link_free n (p + stride) stride p (nx(p := free))) q = (nx(p := free)) q)"
    by (rule Suc.IH [OF a b]) (simp_all add: Suc.prems(3,4))
  then show ?case by (simp add: blocks_at_Suc)
qed

lemma mq_stride_val: "unat (mq_stride sz) = unat sz + 4"
proof -
  have "unat sz < 2 ^ LENGTH(16)" by (rule unsigned_less)
  moreover from this have "unat (ucast sz :: u32) = unat sz" by (simp add: unsigned_ucast_eq take_bit_nat_eq_self)
  ultimately show ?thesis by (simp add: mq_stride_def unat_word_ariths(1))
qed

text \<open>A new queue is empty and has all its blocks free.\<close>

lemma queue_set_up_ok:
  assumes ok: "thread_ok s" and cur: "rt_current_thread s \<noteq> None" and queue: "is_queue a s"
    and idle: "suspend_thread s (mq_senders a) = []" and pool: "0 < pool"
  shows "mq_system a (set (blocks_at pool (unat sz + 4) (unat n))) (unat sz) (queue_set_up a pool sz n flag s) \<and>
    mq_contents a (queue_set_up a pool sz n flag s) = []"
proof -
  have st: "unat (mq_stride sz) = unat sz + 4" by (rule mq_stride_val)
  obtain free nx where L: "link_free (unat n) pool (unat sz + 4) 0 (link_words s) = (free, nx)" by fastforce
  have ln: "linked nx free (rev (blocks_at pool (unat sz + 4) (unat n)))"
    using link_free_linked [of "link_words s" 0 "[]" pool "unat sz + 4" "unat n"] pool L by simp
  let ?s = "edited a (queue_new pool sz n flag free) nx (data_bytes s) s"
  have eq: "queue_set_up a pool sz n flag s = ?s"
    using idle L by (simp add: queue_set_up_def st ipc_object_init_def put_queue_def edited_def fun_upd_idem)
  have ap: "spaced (unat sz) (set (blocks_at pool (unat sz + 4) (unat n)))" "distinct (blocks_at pool (unat sz + 4) (unat n))"
    using blocks_spaced [of "unat sz" "unat sz + 4" pool "unat n"] by simp_all
  have rep: "mq_rep nx (queue_new pool sz n flag free) [] (rev (blocks_at pool (unat sz + 4) (unat n)))"
    using ln ap(2) by (simp add: mq_rep_def queue_new_def)
  have "is_queue a ?s" using queue by (simp add: is_queue_def rt_object_get_type_def)
  then have "mq_system a (set (blocks_at pool (unat sz + 4) (unat n))) (unat sz) ?s"
    unfolding mq_system_def using ok cur ap(1) rep
    by (intro conjI exI [of _ "queue_new pool sz n flag free"] exI [of _ "[]"]
        exI [of _ "rev (blocks_at pool (unat sz + 4) (unat n))"])
      (simp_all add: queue_new_def)
  moreover have "mq_contents a ?s = []" by (simp add: mq_contents_def queue_new_def)
  ultimately show ?thesis by (simp add: eq)
qed

section \<open>First in, first out\<close>

text \<open>
  Claim C8 (refinement). On a well-formed, empty message queue of blocks of \<open>sz\<close> bytes, whatever threads wait on it, any
  sequence of sends and urgent sends of one to \<open>sz\<close> bytes and of receives with room for at least one byte, all without
  waiting, runs to its end. The results are those of a bounded queue of messages with as many places as there are blocks: a full
  queue refuses, an empty one times out, urgent messages go to the front, the others come out in the order
  they went in. A receiver with room for \<open>n\<close> bytes gets the first \<open>n\<close> (all, if \<open>n\<close> is more) of \<open>sz\<close> bytes that
  start with the message; the bytes behind a shorter message are not specified. Links and bytes
  outside the blocks and all other objects are as before, and the system of threads stays well formed.
\<close>
theorem message_queue_fifo:
  assumes "mq_system a B sz s" and "mq_contents a s = []" and "list_all (op_valid (mq_valid sz) (mq_valid sz)) ops"
  shows "\<exists>rs s' q. chan_run (mq_send_now code a) (rt_mq_urgent code a) (mq_recv_now code a) ops s = Some (rs, s') \<and>
    mq_system a B sz s' \<and> delivers (- RT_EFULL) (\<lambda>m x. length x = sz \<and> take (length m) x = m) take (card B) [] ops rs q \<and>
    length (mq_contents a s') = length q \<and> beside_mq a B sz s' = beside_mq a B sz s"
proof -
  have "list_all2 (mq_holds sz) [] (mq_contents a s)" using assms(2) by simp
  from mq.run_delivers [OF assms(1) this assms(3), of code] obtain rs s' q where *:
    "chan_run (mq_send_now code a) (rt_mq_urgent code a) (mq_recv_now code a) ops s = Some (rs, s')"
    "mq_system a B sz s'" "delivers (- RT_EFULL) (mq_holds sz) take (card B) [] ops rs q"
    "list_all2 (mq_holds sz) q (mq_contents a s')" "beside_mq a B sz s' = beside_mq a B sz s" by blast
  have holds: "mq_holds sz = (\<lambda>m x. length x = sz \<and> take (length m) x = m)"
    by (simp add: fun_eq_iff mq_holds_def)
  show ?thesis unfolding holds [symmetric]
    using *(1-3,5) list_all2_lengthD [OF *(4)] by (intro exI [of _ rs] exI [of _ s'] exI [of _ q]) simp
qed

text \<open>A queue of two messages of at most eight bytes.\<close>

definition queue_system :: ipc where
  "queue_system = queue_set_up 600 0x2000 8 2 0
     (example_system (\<lambda>_. None) (\<lambda>_. None) (\<lambda>_. None) (\<lambda>_. None) (\<lambda>_. None) (\<lambda>_. 0))"

theorem message_queue_fifo_witness:
  "\<forall>code. \<exists>s' x. chan_run (mq_send_now code 600) (rt_mq_urgent code 600) (mq_recv_now code 600)
     [Send [1, 2, 3], Send [4], Send [5], Recv 3, Urgent [6, 7], Recv 2, Recv 1, Recv 8] queue_system =
     Some ([(RT_EOK, None), (RT_EOK, None), (- RT_EFULL, None), (RT_EOK, Some [1, 2, 3]), (RT_EOK, None),
       (RT_EOK, Some [6, 7]), (RT_EOK, Some x), (- RT_ETIMEOUT, None)], s') \<and> x = [4]"
proof
  fix code :: "ipc scode"
  let ?ex = "example_system (\<lambda>_. None) (\<lambda>_. None) (\<lambda>_. None) (\<lambda>_. None) (\<lambda>_. None) (\<lambda>_. 0)"
  let ?B = "set (blocks_at 0x2000 (unat (8 :: u16) + 4) (unat (2 :: u16)))"
  let ?ops = "[Send [1, 2, 3], Send [4], Send [5], Recv 3, Urgent [6, 7], Recv 2, Recv 1, Recv 8] :: u8 list chan_op list"
  have "is_queue 600 ?ex" by (simp add: is_queue_def rt_object_get_type_def example_kernel_def)
  with queue_set_up_ok [where s = ?ex and a = 600 and pool = 8192 and sz = 8 and n = 2 and flag = 0] example_ok have
    S: "mq_system 600 ?B (unat (8 :: u16)) queue_system" "mq_contents 600 queue_system = []"
    by (simp_all add: queue_system_def)
  have card: "card ?B = 2" by (simp add: blocks_at_def upt_rec)
  have "list_all (op_valid (mq_valid (unat (8 :: u16))) (mq_valid (unat (8 :: u16)))) ?ops" by (simp add: mq_valid_def)
  from message_queue_fifo [OF S this, of code, unfolded card] show "\<exists>s' x. chan_run (mq_send_now code 600) (rt_mq_urgent code 600) (mq_recv_now code 600)
     ?ops queue_system = Some ([(RT_EOK, None), (RT_EOK, None), (- RT_EFULL, None), (RT_EOK, Some [1, 2, 3]), (RT_EOK, None),
       (RT_EOK, Some [6, 7]), (RT_EOK, Some x), (- RT_ETIMEOUT, None)], s') \<and> x = [4]"
    by (auto simp: numeral_2_eq_2 numeral_3_eq_3 simp del: chan_run.simps)
qed

end
