(* ===== verification/Mempool.thy ===== *)
theory Mempool
  imports Mailbox
begin

text \<open>
  \<^verbatim>\<open>mempool.c\<close>: blocks of one size behind a pointer. The pointer of a free block is the next
  free one, that of a block in use is its pool.
\<close>

definition is_pool :: "nat \<Rightarrow> 'x sched_scheme \<Rightarrow> bool" where
  "is_pool a s \<longleftrightarrow> rt_object_get_type a s = Some (class_val RT_Object_Class_MemPool)"

definition put_pool :: "nat \<Rightarrow> rt_mempool \<Rightarrow> 'x ipc_scheme \<Rightarrow> 'x ipc_scheme" where
  "put_pool a mp s = s\<lparr>pools := (pools s)(a \<mapsto> mp)\<rparr>"

definition put_link :: "nat \<Rightarrow> nat \<Rightarrow> 'x ipc_scheme \<Rightarrow> 'x ipc_scheme" where
  "put_link p q s = s\<lparr>link_words := (link_words s)(p := q)\<rparr>"

definition rt_mp_alloc_sethook :: "fptr option \<Rightarrow> 'x ipc_scheme \<Rightarrow> 'x ipc_scheme" where
  "rt_mp_alloc_sethook hook s = s\<lparr>rt_mp_alloc_hook := hook\<rparr>"

definition rt_mp_free_sethook :: "fptr option \<Rightarrow> 'x ipc_scheme \<Rightarrow> 'x ipc_scheme" where
  "rt_mp_free_sethook hook s = s\<lparr>rt_mp_free_hook := hook\<rparr>"

section \<open>Life\<close>

text \<open>The distance between blocks, and the start of block \<open>i\<close>; the product is taken in 32 bits.\<close>

definition mp_stride :: "u32 \<Rightarrow> u32" where "mp_stride bsize = bsize + 4"

definition mp_block :: "nat \<Rightarrow> u32 \<Rightarrow> u32 \<Rightarrow> nat" where
  "mp_block start bsize i = start + unat (i * mp_stride bsize)"

fun link_blocks :: "nat \<Rightarrow> nat \<Rightarrow> u32 \<Rightarrow> u32 \<Rightarrow> (nat \<Rightarrow> nat) \<Rightarrow> nat \<Rightarrow> nat" where
  "link_blocks 0 start bsize i links = links"
| "link_blocks (Suc n) start bsize i links =
     link_blocks n start bsize (i + 1) (links(mp_block start bsize i := mp_block start bsize (i + 1)))"

text \<open>
  After the loop the last block gets a null pointer. With no block at all this is a word before the
  pool: \<open>offset - 1\<close> is the largest word then.
\<close>

definition pool_set_up :: "nat \<Rightarrow> nat \<Rightarrow> u32 \<Rightarrow> u32 \<Rightarrow> u32 \<Rightarrow> 'x ipc_scheme \<Rightarrow> 'x ipc_scheme" where
  "pool_set_up a start sz bsize n s =
    (let links = link_blocks (unat n) start bsize 0 (link_words s);
         final = (start + unat ((n - 1) * mp_stride bsize)) mod 2 ^ 32
     in put_pool a \<lparr>start_address = start, mp_size = sz, block_size = bsize, block_list = start,
          block_total_count = n, block_free_count = n\<rparr>
        (ipc_object_init a (s\<lparr>link_words := links(final := 0)\<rparr>)))"

definition rt_mp_init :: "'x ipc_scheme scode \<Rightarrow> nat \<Rightarrow> string \<Rightarrow> nat \<Rightarrow> u32 \<Rightarrow> u32 \<Rightarrow> 'x ipc_scheme \<Rightarrow>
    (rt_err \<times> 'x ipc_scheme) option" where
  "rt_mp_init code a name start sz bsize s = do {
     RT_ASSERT (start \<noteq> 0);
     RT_ASSERT (0 < sz \<and> 0 < bsize);
     s1 \<leftarrow> rt_object_init (s_code code) a (class_val RT_Object_Class_MemPool) name s;
     let size' = RT_ALIGN_DOWN sz;
     let bsize' = RT_ALIGN bsize;
     Some (RT_EOK, pool_set_up a start size' bsize' (size' div mp_stride bsize') s1) }"

definition rt_mp_detach :: "nat \<Rightarrow> 'x ipc_scheme scode \<Rightarrow> nat \<Rightarrow> 'x ipc_scheme \<Rightarrow>
    (rt_err \<times> 'x ipc_scheme) option" where
  "rt_mp_detach fuel code a s = do {
     RT_ASSERT (is_pool a s);
     RT_ASSERT (rt_object_is_systemobject a s = Some True);
     s1 \<leftarrow> ipc_list_resume_all fuel code a s;
     Some (RT_EOK, rt_object_detach (s_code code) a s1) }"

text \<open>\<open>mem\<close> is the new object's memory, \<open>pool\<close> that of the blocks, by the size asked for.\<close>

definition rt_mp_create :: "'x ipc_scheme scode \<Rightarrow> nat option \<Rightarrow> (u32 \<Rightarrow> nat option) \<Rightarrow> string \<Rightarrow> u32 \<Rightarrow> u32 \<Rightarrow>
    'x ipc_scheme \<Rightarrow> (nat option \<times> 'x ipc_scheme) option" where
  "rt_mp_create code mem pool name n bsize s = do {
     RT_ASSERT (rt_interrupt_nest s = 0);
     RT_ASSERT (0 < n \<and> 0 < bsize);
     (r, s1) \<leftarrow> rt_object_allocate (s_code code) mem (class_val RT_Object_Class_MemPool) name s;
     case r of None \<Rightarrow> Some (None, s1)
     | Some a \<Rightarrow>
         let bsize' = RT_ALIGN bsize
         in (case pool (mp_stride bsize' * n) of
           None \<Rightarrow> do {
             s2 \<leftarrow> rt_object_delete (s_code code) a s1;
             Some (None, s2) }
         | Some p \<Rightarrow> Some (Some a, pool_set_up a p (mp_stride bsize' * n) bsize' n s1)) }"

definition rt_mp_delete :: "nat \<Rightarrow> 'x ipc_scheme scode \<Rightarrow> nat \<Rightarrow> 'x ipc_scheme \<Rightarrow>
    (rt_err \<times> 'x ipc_scheme) option" where
  "rt_mp_delete fuel code a s = do {
     RT_ASSERT (rt_interrupt_nest s = 0);
     RT_ASSERT (is_pool a s);
     RT_ASSERT (rt_object_is_systemobject a s = Some False);
     s1 \<leftarrow> ipc_list_resume_all fuel code a s;
     mp \<leftarrow> pools s1 a;
     s2 \<leftarrow> rt_object_delete (s_code code) a (s1\<lparr>heap_freed := start_address mp # heap_freed s1\<rparr>);
     Some (RT_EOK, s2\<lparr>pools := (pools s2)(a := None)\<rparr>) }"

section \<open>Blocks\<close>

text \<open>
  Take the first free block. The hook gets the pool and the block, whose address is returned.
\<close>

definition mp_take :: "'x ipc_scheme scode \<Rightarrow> nat \<Rightarrow> u32 \<Rightarrow> 'x ipc_scheme \<Rightarrow> (nat option \<times> 'x ipc_scheme) option" where
  "mp_take code a level s = do {
     mp \<leftarrow> pools s a;
     let p = block_list mp;
     RT_ASSERT (p \<noteq> 0);
     let s1 = rt_hw_interrupt_enable level (put_link p a
       (put_pool a (mp\<lparr>block_free_count := block_free_count mp - 1, block_list := link_words s p\<rparr>) s));
     Some (Some (p + 4), case rt_mp_alloc_hook s1 of None \<Rightarrow> s1 | Some f \<Rightarrow> s_code2 code f a (p + 4) s1) }"

definition mp_exhausted :: "nat \<Rightarrow> 'x ipc_scheme \<Rightarrow> bool option" where
  "mp_exhausted a s = map_option (\<lambda>mp. block_free_count mp = 0) (pools s a)"

text \<open>
  A thread that waits is put at the front of the list (\<^verbatim>\<open>rt_list_insert_after\<close>).
  \<^verbatim>\<open>rt_set_errno\<close> sets the error of the current thread, or a variable of the kernel in an
  interrupt, which nothing reads.
\<close>

definition mp_line_up :: "'x sched_scheme scode \<Rightarrow> nat \<Rightarrow> nat option \<Rightarrow> int \<Rightarrow> 'x sched_scheme \<Rightarrow>
    'x sched_scheme option" where
  "mp_line_up code a self time s = do {
     RT_ASSERT (rt_interrupt_nest s = 0);
     t \<leftarrow> self;
     (_, s1) \<leftarrow> rt_thread_suspend code t (clear_error t s);
     let s2 = s1\<lparr>suspend_thread := (suspend_thread s1)(a := t # suspend_thread s1 a)\<rparr>;
     if 0 < time then start_thread_timer code t (of_int time) s2 else Some s2 }"

definition set_errno :: "rt_err \<Rightarrow> 'x sched_scheme \<Rightarrow> 'x sched_scheme" where
  "set_errno e s = (if rt_interrupt_nest s = 0
     then (case rt_thread_self s of None \<Rightarrow> s | Some t \<Rightarrow> upd_thread t (\<lambda>th. th\<lparr>th_error := e\<rparr>) s)
     else s)"

definition mp_alloc_op :: "'x ipc_scheme scode \<Rightarrow> nat \<Rightarrow> nat option \<Rightarrow> (nat option, 'x ipc_scheme) waiting_op" where
  "mp_alloc_op code a self =
    \<lparr>must_wait = mp_exhausted a,
     refusal = (\<lambda>level s. (None, set_errno (- RT_ETIMEOUT) (rt_hw_interrupt_enable level s))),
     get_in_line = mp_line_up code a self,
     failed = (\<lambda>_. None),
     served = mp_take code a\<rparr>"

definition rt_mp_alloc :: "nat \<Rightarrow> 'x ipc_scheme scode \<Rightarrow> nat \<Rightarrow> int \<Rightarrow> 'x ipc_scheme \<Rightarrow>
    (nat option pending \<times> 'x ipc_scheme) option" where
  "rt_mp_alloc fuel code a time s =
    (let self = rt_thread_self s; (level, s1) = rt_hw_interrupt_disable s
     in wait_loop fuel code (mp_alloc_op code a self) self level time s1)"

definition rt_mp_alloc_woken :: "nat \<Rightarrow> 'x ipc_scheme scode \<Rightarrow> nat \<Rightarrow> nat \<Rightarrow> int \<Rightarrow> u32 \<Rightarrow> 'x ipc_scheme \<Rightarrow>
    (nat option pending \<times> 'x ipc_scheme) option" where
  "rt_mp_alloc_woken fuel code a t time start =
    woken_up t time start (\<lambda>_. None) (wait_loop fuel code (mp_alloc_op code a (Some t)) (Some t))"

text \<open>\<open>block\<close> is null when \<open>None\<close>. The pool is found through the pointer before the block.\<close>

definition rt_mp_free :: "'x ipc_scheme scode \<Rightarrow> nat option \<Rightarrow> 'x ipc_scheme \<Rightarrow> 'x ipc_scheme option" where
  "rt_mp_free code block s = (case block of
     None \<Rightarrow> Some s
   | Some b \<Rightarrow> do {
       let p = b - 4;
       let a = link_words s p;
       let s0 = (case rt_mp_free_hook s of None \<Rightarrow> s | Some f \<Rightarrow> s_code2 code f a b s);
       let (level, s1) = rt_hw_interrupt_disable s0;
       mp \<leftarrow> pools s1 a;
       let s2 = put_pool a (mp\<lparr>block_free_count := block_free_count mp + 1, block_list := p\<rparr>)
         (put_link p (block_list mp) s1);
       case suspend_thread s2 a of
         [] \<Rightarrow> Some (rt_hw_interrupt_enable level s2)
       | t # _ \<Rightarrow> do {
           (_, s3) \<leftarrow> rt_thread_resume code t (clear_error t s2);
           rt_schedule code (rt_hw_interrupt_enable level s3) } })"

end
