(* ===== verification/Mempool_Correct.thy ===== *)
theory Mempool_Correct
  imports Ipc_Correct Mempool Mailbox_Correct Block_List Allocator
begin

text \<open>
  A memory pool is an allocator: its free blocks form a list, those in use point to the pool.
\<close>

section \<open>The links of a pool\<close>

definition pool_blocks :: "rt_mempool \<Rightarrow> nat set" where
  "pool_blocks mp = set (blocks_at (start_address mp) (unat (block_size mp) + 4) (unat (block_total_count mp)))"

definition pool_rep :: "nat \<Rightarrow> (nat \<Rightarrow> nat) \<Rightarrow> rt_mempool \<Rightarrow> nat list \<Rightarrow> bool" where
  "pool_rep a nx mp fs \<longleftrightarrow> linked nx (block_list mp) fs \<and> distinct fs \<and> length fs = unat (block_free_count mp) \<and>
     set fs \<subseteq> pool_blocks mp \<and> (\<forall>p \<in> pool_blocks mp - set fs. nx p = a) \<and>
     0 < start_address mp \<and> 4 dvd start_address mp \<and> 4 dvd unat (block_size mp) \<and> 0 < unat (block_size mp)"

lemma pool_repD:
  assumes "pool_rep a nx mp fs"
  shows "linked nx (block_list mp) fs" "distinct fs" "length fs = unat (block_free_count mp)"
    "set fs \<subseteq> pool_blocks mp" "\<And>p. p \<in> pool_blocks mp \<Longrightarrow> p \<notin> set fs \<Longrightarrow> nx p = a"
    "0 < start_address mp" "4 dvd start_address mp" "4 dvd unat (block_size mp)" "0 < unat (block_size mp)"
  using assms by (auto simp: pool_rep_def)

lemma pool_blocks_facts:
  shows "spaced (unat (block_size mp)) (pool_blocks mp)" "card (pool_blocks mp) = unat (block_total_count mp)"
    "finite (pool_blocks mp)"
  using blocks_spaced [of "unat (block_size mp)" "unat (block_size mp) + 4" "start_address mp" "unat (block_total_count mp)"]
  by (simp_all add: pool_blocks_def distinct_card)

lemma pool_blocks_inside:
  assumes "p \<in> pool_blocks mp"
  shows "start_address mp \<le> p"
    "p + unat (block_size mp) + 4 \<le> start_address mp + unat (block_total_count mp) * (unat (block_size mp) + 4)"
    "4 dvd start_address mp \<Longrightarrow> 4 dvd unat (block_size mp) \<Longrightarrow> 4 dvd p"
proof -
  from assms obtain k where k: "p = start_address mp + k * (unat (block_size mp) + 4)" "k < unat (block_total_count mp)"
    by (auto simp: pool_blocks_def blocks_at_def)
  have "Suc k * (unat (block_size mp) + 4) \<le> unat (block_total_count mp) * (unat (block_size mp) + 4)"
    by (rule mult_le_mono1) (use k(2) in simp)
  with k(1) show "p + unat (block_size mp) + 4 \<le> start_address mp + unat (block_total_count mp) * (unat (block_size mp) + 4)"
    by simp
  show "start_address mp \<le> p" using k(1) by simp
  show "4 dvd start_address mp \<Longrightarrow> 4 dvd unat (block_size mp) \<Longrightarrow> 4 dvd p" using k(1) by (simp add: dvd_add)
qed

lemma take_block_rep:
  assumes rep: "pool_rep a nx mp (p # fs)"
    and mp': "mp' = mp\<lparr>block_free_count := block_free_count mp - 1, block_list := nx p\<rparr>"
  shows "pool_rep a (nx(p := a)) mp' fs"
proof -
  note R = pool_repD [OF rep]
  have same: "pool_blocks mp' = pool_blocks mp" by (simp add: mp' pool_blocks_def)
  have "block_free_count mp \<noteq> 0" using R(3) by auto
  then have "unat (block_free_count mp - 1) = length fs" using R(3) by (simp add: unat_minus_one)
  then show ?thesis using R unfolding pool_rep_def same by (auto simp: mp')
qed

lemma give_block_rep:
  assumes rep: "pool_rep a nx mp fs" and p: "p \<in> pool_blocks mp" "p \<notin> set fs"
    and mp': "mp' = mp\<lparr>block_free_count := block_free_count mp + 1, block_list := p\<rparr>"
  shows "pool_rep a (nx(p := block_list mp)) mp' (p # fs)"
proof -
  note R = pool_repD [OF rep]
  have same: "pool_blocks mp' = pool_blocks mp" by (simp add: mp' pool_blocks_def)
  have "set fs \<subset> pool_blocks mp" using R(4) p by auto
  then have "length fs < unat (block_total_count mp)"
    using psubset_card_mono [OF pool_blocks_facts(3) [of mp]] R(2) pool_blocks_facts(2) [of mp]
    by (metis distinct_card)
  moreover have "unat (block_total_count mp) < 2 ^ LENGTH(32)" by (rule unsigned_less)
  ultimately have "unat (block_free_count mp + 1) = Suc (length fs)"
    using R(3) by (simp add: unat_word_ariths(1))
  moreover have "0 < p" using pool_blocks_inside(1) [OF p(1)] R(6) by simp
  ultimately show ?thesis using R p unfolding pool_rep_def same by (auto simp: mp')
qed

section \<open>The operations in the system\<close>

text \<open>\<open>bs\<close> is the size of the blocks.\<close>

definition pool_system :: "nat \<Rightarrow> nat \<Rightarrow> 'x ipc_scheme \<Rightarrow> bool" where
  "pool_system a bs s \<longleftrightarrow> thread_ok s \<and> rt_current_thread s \<noteq> None \<and> rt_mp_alloc_hook s = None \<and>
     rt_mp_free_hook s = None \<and>
     (\<exists>mp fs. pools s a = Some mp \<and> unat (block_size mp) = bs \<and> pool_rep a (link_words s) mp fs)"

definition pool_free_list :: "nat \<Rightarrow> 'x ipc_scheme \<Rightarrow> nat list" where
  "pool_free_list a s = (case pools s a of None \<Rightarrow> []
     | Some mp \<Rightarrow> follow (unat (block_free_count mp)) (link_words s) (block_list mp))"

text \<open>The memory given out: behind the pointer of each block in use.\<close>

definition pool_live :: "nat \<Rightarrow> 'x ipc_scheme \<Rightarrow> (nat \<times> nat) set" where
  "pool_live a s = (case pools s a of None \<Rightarrow> {}
     | Some mp \<Rightarrow> (\<lambda>p. (p + 4, unat (block_size mp))) ` (pool_blocks mp - set (pool_free_list a s)))"

definition pool_area :: "nat \<Rightarrow> 'x ipc_scheme \<Rightarrow> nat \<times> nat" where
  "pool_area a s = (case pools s a of None \<Rightarrow> (0, 0)
     | Some mp \<Rightarrow> (start_address mp, start_address mp + unat (block_total_count mp) * (unat (block_size mp) + 4)))"

text \<open>What an operation on one pool leaves alone.\<close>

definition beside_mp :: "nat \<Rightarrow> 'x ipc_scheme \<Rightarrow> _" where
  "beside_mp a s = ((semaphores s, mutexes s, events s, mailboxes s, queues s), (pools s)(a := None),
     data_bytes s, primask s, rt_interrupt_nest s, rt_scheduler_lock_nest s)"

definition pooled :: "nat \<Rightarrow> rt_mempool \<Rightarrow> (nat \<Rightarrow> nat) \<Rightarrow> 'x ipc_scheme \<Rightarrow> 'x ipc_scheme" where
  "pooled a mp nx s = s\<lparr>pools := (pools s)(a \<mapsto> mp), link_words := nx\<rparr>"

lemma pooled_sel [simp]:
  "pools (pooled a mp nx s) = (pools s)(a \<mapsto> mp)" "link_words (pooled a mp nx s) = nx"
  "thread_ok (pooled a mp nx s) = thread_ok s" "rt_current_thread (pooled a mp nx s) = rt_current_thread s"
  "suspend_thread (pooled a mp nx s) = suspend_thread s" "beside_mp a (pooled a mp nx s) = beside_mp a s"
  "threads (pooled a mp nx s) = threads s" "primask (pooled a mp nx s) = primask s"
  "rt_mp_alloc_hook (pooled a mp nx s) = rt_mp_alloc_hook s" "rt_mp_free_hook (pooled a mp nx s) = rt_mp_free_hook s"
  "rt_interrupt_nest (pooled a mp nx s) = rt_interrupt_nest s"
  by (simp_all add: pooled_def beside_mp_def) (rule thread_ok_cong; simp add: hooks_off_def)

lemma pooled_steps:
  "put_pool a mp (put_link p q s) = pooled a mp ((link_words s)(p := q)) s"
  "put_link p q (put_pool a mp s) = pooled a mp ((link_words s)(p := q)) s"
  by (simp_all add: pooled_def put_pool_def put_link_def)

lemma set_errno_sel [simp]:
  "rt_current_thread (set_errno e s) = rt_current_thread s" "rt_mp_alloc_hook (set_errno e s) = rt_mp_alloc_hook s"
  "rt_mp_free_hook (set_errno e s) = rt_mp_free_hook s" "pools (set_errno e s) = pools s"
  "link_words (set_errno e s) = link_words s" "beside_mp a (set_errno e s) = beside_mp a s"
  "suspend_thread (set_errno e s) = suspend_thread s"
  by (simp_all add: set_errno_def upd_thread_def beside_mp_def split: option.split)

lemma pool_systemE:
  assumes "pool_system a bs s"
  obtains mp fs where "thread_ok s" "hooks_off s" "rt_current_thread s \<noteq> None" "rt_mp_alloc_hook s = None"
    "rt_mp_free_hook s = None" "pools s a = Some mp" "unat (block_size mp) = bs" "pool_rep a (link_words s) mp fs"
    "pool_free_list a s = fs" "pool_live a s = (\<lambda>p. (p + 4, bs)) ` (pool_blocks mp - set fs)"
proof -
  from assms obtain mp fs where *: "thread_ok s" "rt_current_thread s \<noteq> None" "rt_mp_alloc_hook s = None"
    "rt_mp_free_hook s = None" "pools s a = Some mp" "unat (block_size mp) = bs" "pool_rep a (link_words s) mp fs"
    unfolding pool_system_def by auto
  have "pool_free_list a s = fs"
    using *(5) linked_follow [OF pool_repD(1) [OF *(7)]] pool_repD(3) [OF *(7)] by (simp add: pool_free_list_def)
  with * thread_okD(3) [OF *(1)] show thesis by (intro that) (simp_all add: pool_live_def)
qed

lemma pool_after:
  assumes "thread_ok s" "rt_current_thread s \<noteq> None" "rt_mp_alloc_hook s = None" "rt_mp_free_hook s = None"
    "pools s a = Some mp" "unat (block_size mp) = bs" "pool_rep a (link_words s) mp fs"
  shows "pool_system a bs s" "pool_free_list a s = fs" "pool_live a s = (\<lambda>p. (p + 4, bs)) ` (pool_blocks mp - set fs)"
proof -
  show "pool_system a bs s" using assms by (auto simp: pool_system_def)
  show "pool_free_list a s = fs"
    using assms(5) linked_follow [OF pool_repD(1) [OF assms(7)]] pool_repD(3) [OF assms(7)]
    by (simp add: pool_free_list_def)
  with assms(5,6) show "pool_live a s = (\<lambda>p. (p + 4, bs)) ` (pool_blocks mp - set fs)" by (simp add: pool_live_def)
qed

text \<open>A request that does not wait.\<close>

lemma alloc_first:
  assumes sys: "pool_system a bs s" and some: "pool_free_list a s = p # fs"
  shows "\<exists>s'. rt_mp_alloc 0 code a 0 s = Some (Finished (Some (p + 4)), s') \<and> pool_system a bs s' \<and>
    pool_free_list a s' = fs \<and> pool_live a s' = insert (p + 4, bs) (pool_live a s) \<and> (p + 4, bs) \<notin> pool_live a s \<and>
    pool_area a s' = pool_area a s \<and> beside_mp a s' = beside_mp a s"
proof (rule pool_systemE [OF sys])
  fix mp gs
  assume A: "thread_ok s" "hooks_off s" "rt_current_thread s \<noteq> None" "rt_mp_alloc_hook s = None"
    "rt_mp_free_hook s = None" "pools s a = Some mp" "unat (block_size mp) = bs" "pool_rep a (link_words s) mp gs"
    "pool_free_list a s = gs" "pool_live a s = (\<lambda>p. (p + 4, bs)) ` (pool_blocks mp - set gs)"
  have gs: "gs = p # fs" using A(9) some by simp
  note R = pool_repD [OF A(8) [unfolded gs]]
  let ?mp = "mp\<lparr>block_free_count := block_free_count mp - 1, block_list := link_words s p\<rparr>"
  let ?s = "pooled a ?mp ((link_words s)(p := a)) s"
  have rep: "pool_rep a (link_words ?s) ?mp fs" using take_block_rep [OF A(8) [unfolded gs] refl] by simp
  have p: "p \<noteq> 0" "block_list mp = p" "block_free_count mp \<noteq> 0" using R(1,3) by auto
  have "rt_mp_alloc 0 code a 0 s = Some (Finished (Some (p + 4)), ?s)"
    using p A(4,6) by (simp add: rt_mp_alloc_def irq_defs mp_alloc_op_def wait_loop.simps mp_exhausted_def mp_take_def
        pooled_def put_pool_def put_link_def)
  moreover have "pool_system a bs ?s" "pool_free_list a ?s = fs"
    "pool_live a ?s = (\<lambda>p. (p + 4, bs)) ` (pool_blocks ?mp - set fs)"
    by (rule pool_after [OF _ _ _ _ _ _ rep]; use A in simp)+
  moreover have "pool_blocks ?mp - set fs = insert p (pool_blocks mp - set gs)"
    using R(2,4) by (auto simp: gs pool_blocks_def)
  ultimately show ?thesis using A(6,10) gs by (auto simp: pool_area_def)
qed

lemma alloc_exhausted:
  assumes sys: "pool_system a bs s" and none: "pool_free_list a s = []"
  shows "\<exists>s'. rt_mp_alloc 0 code a 0 s = Some (Finished None, s') \<and> s' = set_errno (- RT_ETIMEOUT) s \<and>
    pool_system a bs s' \<and>
    pool_free_list a s' = [] \<and> pool_live a s' = pool_live a s \<and> pool_area a s' = pool_area a s \<and>
    beside_mp a s' = beside_mp a s"
proof (rule pool_systemE [OF sys])
  fix mp gs
  assume A: "thread_ok s" "hooks_off s" "rt_current_thread s \<noteq> None" "rt_mp_alloc_hook s = None"
    "rt_mp_free_hook s = None" "pools s a = Some mp" "unat (block_size mp) = bs" "pool_rep a (link_words s) mp gs"
    "pool_free_list a s = gs" "pool_live a s = (\<lambda>p. (p + 4, bs)) ` (pool_blocks mp - set gs)"
  have "length gs = 0" using A(9) none by simp
  then have "block_free_count mp = 0" using pool_repD(3) [OF A(8)] by (simp add: unat_eq_0)
  then have "rt_mp_alloc 0 code a 0 s = Some (Finished None, set_errno (- RT_ETIMEOUT) s)"
    using A(6) by (simp add: rt_mp_alloc_def irq_defs mp_alloc_op_def wait_loop.simps mp_exhausted_def)
  moreover have "thread_ok (set_errno (- RT_ETIMEOUT) s)"
    using A(1) by (auto simp: set_errno_def stack_fine_def split: option.splits intro!: upd_other_ok(1))
  ultimately show ?thesis
    using A none by (auto simp: pool_system_def pool_free_list_def pool_live_def pool_area_def)
qed

text \<open>A release, whether a thread waits or not.\<close>

lemma pool_free_live:
  assumes sys: "pool_system a bs s" and live: "(b, m) \<in> pool_live a s"
  shows "\<exists>s'. rt_mp_free code (Some b) s = Some s' \<and> pool_system a bs s' \<and> m = bs \<and>
    pool_free_list a s' = (b - 4) # pool_free_list a s \<and> pool_live a s' = pool_live a s - {(b, m)} \<and>
    pool_area a s' = pool_area a s \<and> beside_mp a s' = beside_mp a s \<and>
    suspend_thread s' = (suspend_thread s)(a := tl (suspend_thread s a))"
proof (rule pool_systemE [OF sys])
  fix mp fs
  assume A: "thread_ok s" "hooks_off s" "rt_current_thread s \<noteq> None" "rt_mp_alloc_hook s = None"
    "rt_mp_free_hook s = None" "pools s a = Some mp" "unat (block_size mp) = bs" "pool_rep a (link_words s) mp fs"
    "pool_free_list a s = fs" "pool_live a s = (\<lambda>p. (p + 4, bs)) ` (pool_blocks mp - set fs)"
  from live A(10) obtain p where p: "b = p + 4" "m = bs" "p \<in> pool_blocks mp" "p \<notin> set fs" by auto
  have link: "link_words s p = a" using pool_repD(5) [OF A(8) p(3,4)] .
  let ?mp = "mp\<lparr>block_free_count := block_free_count mp + 1, block_list := p\<rparr>"
  let ?nx = "(link_words s)(p := block_list mp)"
  have rep: "pool_rep a ?nx ?mp (p # fs)" by (rule give_block_rep [OF A(8) p(3,4) refl])
  let ?s2 = "pooled a ?mp ?nx (s\<lparr>primask := 1\<rparr>)"
  let ?s3 = "case suspend_thread s a of [] \<Rightarrow> ?s2 | t # _ \<Rightarrow> clear_error t ?s2"
  have ok3: "thread_ok ?s3"
    using A(1) by (auto simp: clear_error_def stack_fine_def split: list.split intro!: upd_other_ok(1))
  have cur3: "rt_current_thread ?s3 \<noteq> None" using A(3) by (simp add: clear_error_def split: list.split)
  have eq3: "sched.more ?s3 = sched.more ?s2" "suspend_thread ?s3 = suspend_thread s"
    "rt_interrupt_nest ?s3 = rt_interrupt_nest s" "rt_scheduler_lock_nest ?s3 = rt_scheduler_lock_nest s"
    by (simp_all add: clear_error_def upd_thread_def pooled_def split: list.split)
  from wake_one_ok [OF ok3 cur3, of id code a "primask s"] obtain s' where
    s': "wake_one code a (primask s) id ?s3 = Some s'" "woke a ?s3 s'" "primask s' = primask s" by auto
  have run: "rt_mp_free code (Some b) s = Some s'"
    using s'(1) link A(5,6) p(1)
    by (cases "suspend_thread s a")
      (auto simp: rt_mp_free_def irq_defs wake_one_def ipc_list_resume_def pooled_steps clear_error_def map_conv_bind_option
        comp_def case_prod_unfold)
  have m: "sched.more s' = sched.more ?s2" using s'(2) eq3(1) by (simp add: woke_def)
  note same = same_ipc [OF m]
  have rep': "pool_rep a (link_words s') ?mp (p # fs)" using rep unfolding same by simp
  have sys': "pool_system a bs s'" "pool_free_list a s' = p # fs"
    "pool_live a s' = (\<lambda>p. (p + 4, bs)) ` (pool_blocks ?mp - set (p # fs))"
    by (rule pool_after [OF _ _ _ _ _ _ rep']; use A s'(2) same in \<open>simp add: woke_def\<close>)+
  have "pool_blocks ?mp - set (p # fs) = (pool_blocks mp - set fs) - {p}" by (auto simp: pool_blocks_def)
  then have "pool_live a s' = pool_live a s - {(b, m)}" using sys'(3) A(10) p(1,2) by auto
  moreover have "beside_mp a s' = beside_mp a s"
    using s'(2,3) eq3 by (simp add: beside_mp_def same woke_def) (simp add: pooled_def)
  moreover have "suspend_thread s' = (suspend_thread s)(a := tl (suspend_thread s a))"
    using s'(2) eq3(2) by (simp add: woke_def)
  ultimately show ?thesis using run sys'(1,2) p(1,2) A(6,9) by (simp add: pool_area_def same)
qed

section \<open>The allocator\<close>

definition mp_alloc_now :: "'x ipc_scheme scode \<Rightarrow> nat \<Rightarrow> 'x ipc_scheme \<Rightarrow> (nat option \<times> 'x ipc_scheme) option" where
  "mp_alloc_now code a s = finished (rt_mp_alloc 0 code a 0 s)"

lemma alloc_now_cases:
  assumes "pool_system a bs s"
  obtains (first) p fs s' where "pool_free_list a s = p # fs" "mp_alloc_now code a s = Some (Some (p + 4), s')"
      "pool_system a bs s'" "pool_free_list a s' = fs" "pool_live a s' = insert (p + 4, bs) (pool_live a s)"
      "(p + 4, bs) \<notin> pool_live a s" "pool_area a s' = pool_area a s"
    | (exhausted) s' where "pool_free_list a s = []" "mp_alloc_now code a s = Some (None, s')" "pool_system a bs s'"
      "pool_free_list a s' = []" "pool_live a s' = pool_live a s" "pool_area a s' = pool_area a s"
proof (cases "pool_free_list a s")
  case Nil
  from alloc_exhausted [OF assms Nil, of code] show ?thesis using Nil
    by (auto simp: mp_alloc_now_def finished_def intro: exhausted)
next
  case (Cons p fs)
  from alloc_first [OF assms Cons, of code] show ?thesis using Cons
    by (auto simp: mp_alloc_now_def finished_def intro: first)
qed

lemma pool_live_spaced:
  assumes "pool_system a bs s"
  shows "apart (pool_live a s)"
proof (rule pool_systemE [OF assms])
  fix mp fs
  assume "unat (block_size mp) = bs" "pool_live a s = (\<lambda>p. (p + 4, bs)) ` (pool_blocks mp - set fs)"
  with pool_blocks_facts(1) [of mp] show ?thesis by (fastforce simp: apart_def spaced_def)
qed

interpretation pool_alloc: allocator "\<lambda>n s. mp_alloc_now code a s" "\<lambda>p s. rt_mp_free code (Some p) s"
  "pool_live a" "pool_system a bs" "pool_area a" bs for code a bs
proof (unfold_locales, goal_cases)
  case (1 s n)
  then show ?case by (rule alloc_now_cases [where code = code]) auto
next
  case (2 s n s')
  from 2(1) show ?case by (rule alloc_now_cases [where code = code]) (use 2(2) in auto)
next
  case (3 s n p s')
  from 3(1) show ?case by (rule alloc_now_cases [where code = code]) (use 3(2,3) in auto)
next
  case (4 s p m)
  from pool_free_live [OF 4, of code] show ?case by blast
next
  case (5 s)
  then show ?case by (rule pool_live_spaced)
next
  case (6 s p m)
  from 6(1) show ?case by (rule pool_systemE) (use 6(2) pool_repD(9) in fastforce)
next
  case (7 s p m)
  from 7(1) show ?case
  proof (rule pool_systemE)
    fix mp fs
    assume A: "pools s a = Some mp" "unat (block_size mp) = bs" "pool_rep a (link_words s) mp fs"
      "pool_live a s = (\<lambda>p. (p + 4, bs)) ` (pool_blocks mp - set fs)"
    from 7(2) A(4) obtain q where q: "p = q + 4" "m = bs" "q \<in> pool_blocks mp" by auto
    from pool_blocks_inside [OF q(3)] pool_repD(7,8) [OF A(3)] show ?thesis
      using A(1,2) q(1,2) by (auto simp: pool_area_def intro: dvd_add)
  qed
qed

end
