(* ===== verification/Mempool_Behaviour.thy ===== *)
theory Mempool_Behaviour
  imports Mempool_Correct Example_System
begin

text \<open>
  The initialisation of a memory pool, and what its users rely on.
\<close>

section \<open>Initialisation\<close>

lemma mp_stride_val:
  assumes "unat b \<le> 0xFFFFFFF8"
  shows "unat (mp_stride (RT_ALIGN b)) = align_up (unat b) + 4" "unat (RT_ALIGN b) = align_up (unat b)"
proof -
  show al: "unat (RT_ALIGN b) = align_up (unat b)" by (rule RT_ALIGN_up) (use assms in simp)
  have "align_up (unat b) div 4 \<le> 0x3FFFFFFE" using assms by (simp add: align_up_def)
  then have "align_up (unat b) \<le> 0xFFFFFFF8" by (simp add: align_up_def)
  then show "unat (mp_stride (RT_ALIGN b)) = align_up (unat b) + 4"
    by (simp add: mp_stride_def unat_word_ariths(1) al)
qed

lemma mp_block_val:
  assumes "unat i * unat (mp_stride b) < 2 ^ 32"
  shows "mp_block start b i = start + unat i * unat (mp_stride b)"
  using assms by (simp add: mp_block_def unat_word_ariths(2))

text \<open>The loop makes each block point to the next.\<close>

lemma link_blocks_val:
  assumes "(unat i + n) * unat (mp_stride b) < 2 ^ 32" and "0 < unat (mp_stride b)" and "unat i + n < 2 ^ 32"
  shows "(\<forall>k. unat i \<le> k \<longrightarrow> k < unat i + n \<longrightarrow>
      link_blocks n start b i links (start + k * unat (mp_stride b)) = start + (k + 1) * unat (mp_stride b)) \<and>
    (\<forall>q. (\<forall>k. unat i \<le> k \<longrightarrow> k < unat i + n \<longrightarrow> q \<noteq> start + k * unat (mp_stride b)) \<longrightarrow>
      link_blocks n start b i links q = links q)"
  using assms(1,3)
proof (induction n arbitrary: i links)
  case 0
  then show ?case by simp
next
  case (Suc n)
  let ?S = "unat (mp_stride b)"
  define l where "l = links(mp_block start b i := mp_block start b (i + 1))"
  have i1: "unat (i + 1) = unat i + 1" using Suc.prems(2) by (simp add: unat_word_ariths(1))
  have le: "unat i * ?S \<le> (unat i + Suc n) * ?S" "(unat i + 1) * ?S \<le> (unat i + Suc n) * ?S" by (intro mult_le_mono1; simp)+
  have b1: "mp_block start b i = start + unat i * ?S"
    by (rule mp_block_val) (use le(1) Suc.prems(1) in linarith)
  have b2: "mp_block start b (i + 1) = start + (unat i + 1) * ?S"
    unfolding i1 [symmetric] by (rule mp_block_val) (use le(2) Suc.prems(1) i1 in presburger)
  have e: "l = links(start + unat i * ?S := start + (unat i + 1) * ?S)" unfolding l_def b1 b2 ..
  have IH: "(\<forall>k. unat i + 1 \<le> k \<longrightarrow> k < unat i + Suc n \<longrightarrow>
      link_blocks n start b (i + 1) l (start + k * ?S) = start + (k + 1) * ?S) \<and>
    (\<forall>q. (\<forall>k. unat i + 1 \<le> k \<longrightarrow> k < unat i + Suc n \<longrightarrow> q \<noteq> start + k * ?S) \<longrightarrow>
      link_blocks n start b (i + 1) l q = l q)"
    using Suc.IH [of "i + 1" l] Suc.prems by (simp add: i1)
  have first: "link_blocks n start b (i + 1) l (start + unat i * ?S) = start + (unat i + 1) * ?S"
  proof -
    have "start + unat i * ?S \<noteq> start + k * ?S" if "unat i + 1 \<le> k" for k using that assms(2) by simp
    with IH show ?thesis by (simp add: e)
  qed
  show ?case
  proof (intro conjI allI impI)
    fix k assume "unat i \<le> k" "k < unat i + Suc n"
    with IH first show "link_blocks (Suc n) start b i links (start + k * ?S) = start + (k + 1) * ?S"
      by (cases "k = unat i") (auto simp: l_def [symmetric])
  next
    fix q assume q: "\<forall>k. unat i \<le> k \<longrightarrow> k < unat i + Suc n \<longrightarrow> q \<noteq> start + k * ?S"
    then have "link_blocks n start b (i + 1) l q = l q" using IH by auto
    moreover have "q \<noteq> start + unat i * ?S" using q by simp
    ultimately show "link_blocks (Suc n) start b i links q = links q" by (simp add: l_def [symmetric] e)
  qed
qed

lemma linked_blocks:
  assumes "\<And>k. k < n \<Longrightarrow> nx (p + k * S) = p + (k + 1) * S" and "nx (p + n * S) = 0" and "0 < p"
  shows "linked nx p (blocks_at p S (Suc n))"
  using assms
proof (induction n arbitrary: p)
  case 0
  then show ?case by (simp add: blocks_at_Suc)
next
  case (Suc n)
  have "nx p = p + S" using Suc.prems(1) [of 0] by simp
  moreover have "linked nx (p + S) (blocks_at (p + S) S (Suc n))"
  proof (rule Suc.IH)
    show "nx (p + S + k * S) = p + S + (k + 1) * S" if "k < n" for k
      using Suc.prems(1) [of "Suc k"] that by (simp add: algebra_simps)
    show "nx (p + S + n * S) = 0" using Suc.prems(2) by (simp add: algebra_simps)
  qed (use Suc.prems(3) in simp)
  ultimately show ?case using Suc.prems(3) by (subst blocks_at_Suc) simp
qed

lemma put_pool_links: "put_pool a mp (s\<lparr>link_words := nx\<rparr>) = pooled a mp nx s"
  by (simp add: put_pool_def pooled_def)

lemma pool_set_up_ok:
  assumes ok: "thread_ok s" and cur: "rt_current_thread s \<noteq> None" and idle: "suspend_thread s a = []"
    and hooks: "rt_mp_alloc_hook s = None" "rt_mp_free_hook s = None"
    and start: "0 < start" "4 dvd start" and b: "4 dvd unat b" "0 < unat b" "unat (mp_stride b) = unat b + 4"
    and n: "0 < n" and fit: "start + unat n * (unat b + 4) \<le> 2 ^ 32"
  shows "pool_system a (unat b) (pool_set_up a start sz b n s) \<and> pool_live a (pool_set_up a start sz b n s) = {} \<and>
    length (pool_free_list a (pool_set_up a start sz b n s)) = unat n \<and>
    pool_area a (pool_set_up a start sz b n s) = (start, start + unat n * (unat b + 4)) \<and>
    beside_mp a (pool_set_up a start sz b n s) = beside_mp a s"
proof -
  let ?S = "unat b + 4" and ?N = "unat n"
  let ?mp = "\<lparr>start_address = start, mp_size = sz, block_size = b, block_list = start,
    block_total_count = n, block_free_count = n\<rparr>"
  have N: "0 < ?N" "?N < 2 ^ 32" using n unsigned_less [of n, where ?'a = nat] by (simp_all add: word_less_nat_alt)
  then obtain m where m: "?N = Suc m" by (cases ?N) auto
  have um: "unat (n - 1) = m" using n m by (simp add: unat_minus_one word_gt_0)
  have lt: "m * ?S < 2 ^ 32" "start + m * ?S < 2 ^ 32" "?N * ?S < 2 ^ 32" using fit m start by simp_all
  define nx where "nx = (link_blocks ?N start b 0 (link_words s))(start + m * ?S := 0)"
  have final: "(start + unat ((n - 1) * mp_stride b)) mod 4294967296 = start + m * ?S"
    using lt by (simp add: unat_word_ariths(2) um b(3))
  have eq: "pool_set_up a start sz b n s = pooled a ?mp nx s"
    using idle by (simp add: pool_set_up_def final nx_def put_pool_links ipc_object_init_def fun_upd_idem)
  have vals: "nx (start + k * ?S) = start + (k + 1) * ?S" if "k < m" for k
    using link_blocks_val [of 0 ?N b start "link_words s"] lt(3) N(2) that m by (simp add: b(3) nx_def)
  have lk: "linked nx start (blocks_at start ?S ?N)"
    unfolding m by (rule linked_blocks) (use vals start(1) in \<open>simp_all add: nx_def\<close>)
  have "distinct (blocks_at start ?S ?N)" using blocks_spaced [of "unat b" ?S start ?N] by simp
  with lk start b have rep: "pool_rep a (link_words (pooled a ?mp nx s)) ?mp (blocks_at start ?S ?N)"
    by (simp add: pool_rep_def pool_blocks_def)
  have "pool_system a (unat b) (pooled a ?mp nx s)" "pool_free_list a (pooled a ?mp nx s) = blocks_at start ?S ?N"
    "pool_live a (pooled a ?mp nx s) = (\<lambda>p. (p + 4, unat b)) ` (pool_blocks ?mp - set (blocks_at start ?S ?N))"
    by (rule pool_after [OF _ _ _ _ _ _ rep]; use ok cur hooks in simp)+
  then show ?thesis unfolding eq by (simp add: pool_blocks_def pool_area_def)
qed

text \<open>What \<^verbatim>\<open>rt_mp_init\<close> makes of an area that has room for a block.\<close>

lemma mp_init_ok:
  assumes ok: "thread_ok s" and cur: "rt_current_thread s \<noteq> None" and new: "objects s a = None" "suspend_thread s a = []"
    and off: "rt_object_attach_hook s = None" "rt_mp_alloc_hook s = None" "rt_mp_free_hook s = None"
    and start: "4 dvd start" "start + unat sz \<le> 2 ^ 32" and b: "unat b \<le> 0xFFFFFFF8"
    and room: "align_up (unat b) + 4 \<le> unat sz" and init: "rt_mp_init code a name start sz b s = Some (r, s1)"
  shows "r = RT_EOK \<and> pool_system a (align_up (unat b)) s1 \<and> pool_live a s1 = {} \<and>
    length (pool_free_list a s1) = unat sz div 4 * 4 div (align_up (unat b) + 4) \<and>
    fst (pool_area a s1) = start \<and> snd (pool_area a s1) \<le> start + unat sz"
proof -
  note S = mp_stride_val [OF b]
  let ?n = "RT_ALIGN_DOWN sz div mp_stride (RT_ALIGN b)" and ?S = "align_up (unat b) + 4"
  from init obtain s0 where st: "0 < start" "0 < sz" "0 < b"
    and s0: "rt_object_init (s_code code) a (class_val RT_Object_Class_MemPool) name s = Some s0"
    and s1: "r = RT_EOK" "s1 = pool_set_up a start (RT_ALIGN_DOWN sz) (RT_ALIGN b) ?n s0"
    by (auto simp: rt_mp_init_def Let_def split: bind_splits if_splits)
  note O = object_init_ok [OF ok new(1) off(1) s0]
  have un: "unat ?n = unat sz div 4 * 4 div ?S" by (simp add: unat_div unat_RT_ALIGN_DOWN S)
  have ge: "?S \<le> unat sz div 4 * 4"
  proof -
    have "?S div 4 \<le> unat sz div 4" using room by (rule div_le_mono)
    then show ?thesis by (simp add: align_up_def)
  qed
  have "unat ?n * ?S \<le> unat sz div 4 * 4" unfolding un by (rule div_times_less_eq_dividend)
  then have fit: "unat ?n * ?S \<le> unat sz" by (simp add: order_trans)
  have "0 < unat ?n" unfolding un using ge by (simp add: div_greater_zero_iff)
  then have n: "0 < ?n" by (simp add: word_less_nat_alt)
  have pos: "0 < align_up (unat b)" using align_up_ge(1) [of "unat b"] st(3) by (simp add: word_less_nat_alt)
  have m: "sched.more s0 = sched.more s" and al: "4 dvd align_up (unat b)" using O by (simp_all add: align_up_def)
  have "pool_system a (unat (RT_ALIGN b)) s1 \<and> pool_live a s1 = {} \<and> length (pool_free_list a s1) = unat ?n \<and>
    pool_area a s1 = (start, start + unat ?n * (unat (RT_ALIGN b) + 4)) \<and> beside_mp a s1 = beside_mp a s0"
    unfolding s1(2) by (rule pool_set_up_ok) (use O cur new off start st S pos n fit al in
      \<open>simp_all add: same_ipc [OF m]\<close>)
  then show ?thesis using S un s1(1) fit by simp
qed

text \<open>An area of 24 bytes for blocks of five bytes: two blocks.\<close>

definition pool_example :: ipc where
  "pool_example = example_system (\<lambda>_. None) (\<lambda>_. None) (\<lambda>_. None) (\<lambda>_. None) (\<lambda>_. None) (\<lambda>_. 0)"

lemma pool_example_sel [simp]:
  "rt_object_attach_hook pool_example = None" "object_container pool_example = (\<lambda>_. [])" "objects pool_example 800 = None"
  "suspend_thread pool_example = (\<lambda>_. [])" "rt_current_thread pool_example = Some 100" "thread_ok pool_example"
  "rt_mp_alloc_hook pool_example = None" "rt_mp_free_hook pool_example = None"
  unfolding pool_example_def by (simp_all add: example_ok)
    (simp_all add: example_system_def example_sched_def scheduled_def kernel.defs sched.defs ipc.defs
      example_kernel_def kernel_zero_def)

lemma example_pool:
  "\<exists>s1. rt_mp_init code 800 ''pool'' 0x2000 24 5 pool_example = Some (RT_EOK, s1) \<and> pool_system 800 8 s1 \<and>
    pool_live 800 s1 = {} \<and> (\<exists>mp. pools s1 800 = Some mp \<and> unat (block_total_count mp) = 2)"
proof -
  obtain s1 where s1: "rt_mp_init code 800 ''pool'' 0x2000 24 5 pool_example = Some (RT_EOK, s1)"
    "\<exists>mp. pools s1 800 = Some mp \<and> unat (block_total_count mp) = 2"
    by (auto simp: rt_mp_init_def rt_object_init_def irq_defs Let_def rt_object_get_information_def
        object_container_types_def pool_set_up_def put_pool_def mp_stride_def RT_ALIGN_def RT_ALIGN_DOWN_def)
  from mp_init_ok [OF _ _ _ _ _ _ _ _ _ _ _ s1(1)] have "pool_system 800 8 s1" "pool_live 800 s1 = {}"
    by (simp_all add: align_up_def)
  with s1 show ?thesis by blast
qed

section \<open>Requests and releases\<close>

text \<open>
  Claim C10 (safety). After \<^verbatim>\<open>rt_mp_init\<close> on an aligned area with room for a block, any sequence of
  requests that do not wait, for at most the size the pool was made for, and of releases of what is held
  runs to its end without a failed assertion; at any time the blocks that are held
  lie inside the area, are aligned and do not overlap.
\<close>

theorem pool_sequences:
  assumes "thread_ok s" and "rt_current_thread s \<noteq> None" and "objects s a = None" and "suspend_thread s a = []"
    and "rt_object_attach_hook s = None" "rt_mp_alloc_hook s = None" "rt_mp_free_hook s = None"
    and "4 dvd start" and "start + unat sz \<le> 2 ^ 32" and "unat b \<le> 0xFFFFFFF8" and "align_up (unat b) + 4 \<le> unat sz"
    and "rt_mp_init code a name start sz b s = Some (r, s1)" and "\<And>n. Alloc n \<in> set os \<Longrightarrow> n \<le> b"
  shows "\<exists>held s'. pool_alloc.perform code a os [] s1 = Some (held, s') \<and> pool_system a (align_up (unat b)) s' \<and>
    apart (set held) \<and> (\<forall>(p, n) \<in> set held. start \<le> p \<and> p + n \<le> start + unat sz \<and> 4 dvd p)"
proof -
  let ?bs = "align_up (unat b)"
  note I = mp_init_ok [OF assms(1-12)]
  have "list_all (pool_alloc.bounded ?bs) os"
    unfolding list_all_iff
  proof
    fix x assume "x \<in> set os"
    with assms(13) align_up_ge(1) [of "unat b"] show "pool_alloc.bounded ?bs x"
      by (cases x) (auto simp: word_le_nat_alt intro: order_trans)
  qed
  moreover have "pool_alloc.covered a [] s1" by (simp add: pool_alloc.covered_def)
  ultimately obtain held s' where
    H: "pool_alloc.perform code a os [] s1 = Some (held, s')" "pool_system a ?bs s'" "pool_alloc.covered a held s'"
      "pool_area a s' = pool_area a s1"
    using pool_alloc.perform_safe [of a ?bs s1 "[]" os code] I by blast
  from pool_alloc.covered_apart [OF H(2,3)] H I show ?thesis by fastforce
qed

text \<open>Two blocks; the third request is refused.\<close>

theorem pool_sequences_witness:
  "\<forall>code. \<exists>s1 held s'. rt_mp_init code 800 ''pool'' 0x2000 24 5 pool_example = Some (RT_EOK, s1) \<and>
     pool_alloc.perform code 800 [Alloc 5, Alloc 3, Alloc 5, Free 0x2004, Alloc 1] [] s1 = Some (held, s') \<and>
     apart (set held)"
proof
  fix code :: "ipc scode"
  from example_pool [of code] obtain s1 where
    s1: "rt_mp_init code 800 ''pool'' 0x2000 24 5 pool_example = Some (RT_EOK, s1)" by blast
  have "\<exists>held s'. pool_alloc.perform code 800 [Alloc 5, Alloc 3, Alloc 5, Free 0x2004, Alloc 1] [] s1 = Some (held, s') \<and>
     pool_system 800 (align_up (unat (5 :: u32))) s' \<and> apart (set held) \<and>
     (\<forall>(p, n) \<in> set held. 0x2000 \<le> p \<and> p + n \<le> 0x2000 + unat (24 :: u32) \<and> 4 dvd p)"
    by (rule pool_sequences [OF _ _ _ _ _ _ _ _ _ _ _ s1]) (auto simp: align_up_def)
  with s1 show "\<exists>s1 held s'. rt_mp_init code 800 ''pool'' 0x2000 24 5 pool_example = Some (RT_EOK, s1) \<and>
     pool_alloc.perform code 800 [Alloc 5, Alloc 3, Alloc 5, Free 0x2004, Alloc 1] [] s1 = Some (held, s') \<and>
     apart (set held)" by blast
qed

text \<open>
  A request that does not wait is refused only when every block of the pool is in use.
  Otherwise the block that comes out was not in use before, and its release brings back the list
  of free blocks and the set of those in use, wakes the first waiting thread if there is one, and
  leaves all other objects as they were.
\<close>

theorem pool_roundtrip:
  assumes "pool_system a bs s" and "pools s a = Some mp"
  shows "\<exists>r s1. rt_mp_alloc 0 code a 0 s = Some (Finished r, s1) \<and> pool_system a bs s1 \<and>
    (case r of None \<Rightarrow> card (pool_live a s) = unat (block_total_count mp) \<and> s1 = set_errno (- RT_ETIMEOUT) s
     | Some b \<Rightarrow> (b, bs) \<notin> pool_live a s \<and> pool_live a s1 = insert (b, bs) (pool_live a s) \<and>
         (\<exists>s2. rt_mp_free code r s1 = Some s2 \<and> pool_system a bs s2 \<and> pool_free_list a s2 = pool_free_list a s \<and>
           pool_live a s2 = pool_live a s \<and> beside_mp a s2 = beside_mp a s \<and>
           suspend_thread s2 = (suspend_thread s1)(a := tl (suspend_thread s1 a))))"
proof (cases "pool_free_list a s")
  case Nil
  from alloc_exhausted [OF assms(1) Nil, of code] obtain s1 where
    s1: "rt_mp_alloc 0 code a 0 s = Some (Finished None, s1)" "s1 = set_errno (- RT_ETIMEOUT) s" "pool_system a bs s1" by blast
  have "card (pool_live a s) = unat (block_total_count mp)"
    using assms(2) Nil pool_blocks_facts(2) [of mp] by (simp add: pool_live_def card_image inj_on_def)
  with s1 show ?thesis by (intro exI [of _ None] exI [of _ s1]) simp
next
  case (Cons p fs)
  from alloc_first [OF assms(1) Cons, of code] obtain s1 where
    s1: "rt_mp_alloc 0 code a 0 s = Some (Finished (Some (p + 4)), s1)" "pool_system a bs s1" "pool_free_list a s1 = fs"
      "pool_live a s1 = insert (p + 4, bs) (pool_live a s)" "(p + 4, bs) \<notin> pool_live a s" "beside_mp a s1 = beside_mp a s"
    by blast
  from pool_free_live [OF s1(2), of "p + 4" bs code] s1(4) obtain s2 where
    s2: "rt_mp_free code (Some (p + 4)) s1 = Some s2" "pool_system a bs s2" "pool_free_list a s2 = p # pool_free_list a s1"
      "pool_live a s2 = pool_live a s1 - {(p + 4, bs)}" "beside_mp a s2 = beside_mp a s1"
      "suspend_thread s2 = (suspend_thread s1)(a := tl (suspend_thread s1 a))" by auto
  have "pool_live a s2 = pool_live a s" using s2(4) s1(4,5) by simp
  with s1 s2 Cons show ?thesis by (intro exI [of _ "Some (p + 4)"] exI [of _ s1]) simp
qed

theorem pool_roundtrip_witness:
  "\<forall>code. \<exists>s1 b s2 s3. rt_mp_init code 800 ''pool'' 0x2000 24 5 pool_example = Some (RT_EOK, s1) \<and>
     rt_mp_alloc 0 code 800 0 s1 = Some (Finished (Some b), s2) \<and> rt_mp_free code (Some b) s2 = Some s3 \<and>
     pool_live 800 s3 = {}"
proof
  fix code :: "ipc scode"
  from example_pool [of code] obtain s1 mp where
    s1: "rt_mp_init code 800 ''pool'' 0x2000 24 5 pool_example = Some (RT_EOK, s1)" "pool_system 800 8 s1"
      "pool_live 800 s1 = {}" "pools s1 800 = Some mp" "unat (block_total_count mp) = 2" by blast
  from pool_roundtrip [OF s1(2,4), of code] s1(3,5) obtain b s2 s3 where
    "rt_mp_alloc 0 code 800 0 s1 = Some (Finished (Some b), s2)" "rt_mp_free code (Some b) s2 = Some s3" "pool_live 800 s3 = {}"
    by (auto split: option.splits)
  with s1(1) show "\<exists>s1 b s2 s3. rt_mp_init code 800 ''pool'' 0x2000 24 5 pool_example = Some (RT_EOK, s1) \<and>
     rt_mp_alloc 0 code 800 0 s1 = Some (Finished (Some b), s2) \<and> rt_mp_free code (Some b) s2 = Some s3 \<and>
     pool_live 800 s3 = {}" by blast
qed

text \<open>
  An area that is smaller than one block with its pointer makes a pool without blocks, and
  the word that far before the area, which does not belong to the pool, is set to null.
\<close>

theorem empty_pool_writes_before:
  assumes "rt_object_attach_hook s = None" and "unat b \<le> 0xFFFFFFF8" and "unat sz < align_up (unat b) + 4"
    and "align_up (unat b) + 4 \<le> start" and "start < 2 ^ 32" and "rt_mp_init code a name start sz b s = Some (r, s1)"
  shows "r = RT_EOK \<and> link_words s1 = (link_words s)(start - (align_up (unat b) + 4) := 0) \<and>
    (\<exists>mp. pools s1 a = Some mp \<and> block_total_count mp = 0 \<and> block_list mp = start)"
proof -
  note S = mp_stride_val [OF assms(2)]
  let ?S = "align_up (unat b) + 4" and ?n = "RT_ALIGN_DOWN sz div mp_stride (RT_ALIGN b)"
  from assms(1,6) obtain s0 where s0: "r = RT_EOK" "s1 = pool_set_up a start (RT_ALIGN_DOWN sz) (RT_ALIGN b) ?n s0"
    "link_words s0 = link_words s"
    by (auto simp: rt_mp_init_def rt_object_init_def irq_defs object_link_def Let_def split: bind_splits if_splits option.splits)
  have "unat (RT_ALIGN_DOWN sz) \<le> unat sz" by (simp add: unat_RT_ALIGN_DOWN)
  then have "unat ?n = 0" using assms(3) by (simp add: unat_div S)
  then have n: "?n = 0" by (simp add: unat_eq_0)
  have "unat (- mp_stride (RT_ALIGN b)) = 2 ^ 32 - ?S"
    using unat_sub_if_size [of 0 "mp_stride (RT_ALIGN b)"] S(1) by (simp add: word_size)
  then have "(start + unat ((?n - 1) * mp_stride (RT_ALIGN b))) mod 4294967296 = start - ?S"
  proof -
    have e1: "start + (2 ^ 32 - ?S) = (start - ?S) + 4294967296" using assms(4,5) by simp
    assume "unat (- mp_stride (RT_ALIGN b)) = 2 ^ 32 - ?S"
    then have e2: "start + unat ((?n - 1) * mp_stride (RT_ALIGN b)) = start + (2 ^ 32 - ?S)" by (simp add: n)
    show ?thesis unfolding e2 e1 mod_add_self2 by (rule mod_less) (use assms(4,5) in simp)
  qed
  then show ?thesis using n s0 by (simp add: pool_set_up_def put_pool_def ipc_object_init_def)
qed

theorem empty_pool_writes_before_witness:
  "\<forall>code. \<exists>s1. rt_mp_init code 800 ''pool'' 0x2000 8 16 pool_example = Some (RT_EOK, s1) \<and>
     link_words s1 = (link_words pool_example)(0x1FEC := 0)"
proof
  fix code :: "ipc scode"
  obtain r s1 where s1: "rt_mp_init code 800 ''pool'' 0x2000 8 16 pool_example = Some (r, s1)"
    by (auto simp: rt_mp_init_def rt_object_init_def irq_defs Let_def rt_object_get_information_def
        object_container_types_def)
  from empty_pool_writes_before [OF _ _ _ _ _ this] show "\<exists>s1. rt_mp_init code 800 ''pool'' 0x2000 8 16 pool_example = Some (RT_EOK, s1) \<and>
     link_words s1 = (link_words pool_example)(0x1FEC := 0)"
    using s1 by (simp add: align_up_def)
qed

end
