(* ===== verification/Event.thy ===== *)
theory Event
  imports Ipc
begin

text \<open>
  The events of \<^verbatim>\<open>ipc.c\<close>: a word of bits on which threads wait for all or any of some.
\<close>

abbreviation RT_EVENT_FLAG_AND :: u8 where "RT_EVENT_FLAG_AND \<equiv> 1"
abbreviation RT_EVENT_FLAG_OR :: u8 where "RT_EVENT_FLAG_OR \<equiv> 2"
abbreviation RT_EVENT_FLAG_CLEAR :: u8 where "RT_EVENT_FLAG_CLEAR \<equiv> 4"

definition is_event :: "nat \<Rightarrow> 'x sched_scheme \<Rightarrow> bool" where
  "is_event a s \<longleftrightarrow> rt_object_get_type a s = Some (class_val RT_Object_Class_Event)"

definition put_event :: "nat \<Rightarrow> rt_event \<Rightarrow> 'x ipc_scheme \<Rightarrow> 'x ipc_scheme" where
  "put_event a ev s = s\<lparr>events := (events s)(a \<mapsto> ev)\<rparr>"

definition rt_event_init :: "'x ipc_scheme scode \<Rightarrow> nat \<Rightarrow> string \<Rightarrow> u8 \<Rightarrow> 'x ipc_scheme \<Rightarrow>
    (rt_err \<times> 'x ipc_scheme) option" where
  "rt_event_init code a name flag s = do {
     s1 \<leftarrow> rt_object_init (s_code code) a (class_val RT_Object_Class_Event) name s;
     Some (RT_EOK, put_event a \<lparr>ev_flag = flag, ev_bits = 0\<rparr> (ipc_object_init a s1)) }"

definition rt_event_detach :: "nat \<Rightarrow> 'x ipc_scheme scode \<Rightarrow> nat \<Rightarrow> 'x ipc_scheme \<Rightarrow>
    (rt_err \<times> 'x ipc_scheme) option" where
  "rt_event_detach fuel code a s = do {
     RT_ASSERT (is_event a s);
     RT_ASSERT (rt_object_is_systemobject a s = Some True);
     s1 \<leftarrow> ipc_list_resume_all fuel code a s;
     Some (RT_EOK, rt_object_detach (s_code code) a s1) }"

text \<open>\<open>mem\<close> is the new object's memory.\<close>

definition rt_event_create :: "'x ipc_scheme scode \<Rightarrow> nat option \<Rightarrow> string \<Rightarrow> u8 \<Rightarrow> 'x ipc_scheme \<Rightarrow>
    (nat option \<times> 'x ipc_scheme) option" where
  "rt_event_create code mem name flag s = do {
     RT_ASSERT (rt_interrupt_nest s = 0);
     (r, s1) \<leftarrow> rt_object_allocate (s_code code) mem (class_val RT_Object_Class_Event) name s;
     case r of None \<Rightarrow> Some (None, s1)
     | Some a \<Rightarrow> Some (Some a, put_event a \<lparr>ev_flag = flag, ev_bits = 0\<rparr> (ipc_object_init a s1)) }"

definition rt_event_delete :: "nat \<Rightarrow> 'x ipc_scheme scode \<Rightarrow> nat \<Rightarrow> 'x ipc_scheme \<Rightarrow>
    (rt_err \<times> 'x ipc_scheme) option" where
  "rt_event_delete fuel code a s = do {
     RT_ASSERT (is_event a s);
     RT_ASSERT (rt_object_is_systemobject a s = Some False);
     RT_ASSERT (rt_interrupt_nest s = 0);
     s1 \<leftarrow> ipc_list_resume_all fuel code a s;
     s2 \<leftarrow> rt_object_delete (s_code code) a s1;
     Some (RT_EOK, s2\<lparr>events := (events s2)(a := None)\<rparr>) }"

section \<open>Sending\<close>

text \<open>
  Whether the bits \<open>have\<close> are what a thread waits for; \<open>None\<close> when it wants neither all nor any.
\<close>

definition event_met :: "u8 \<Rightarrow> u32 \<Rightarrow> u32 \<Rightarrow> bool option" where
  "event_met option want have =
    (if option AND RT_EVENT_FLAG_AND \<noteq> 0 then Some (want AND have = want)
     else if option AND RT_EVENT_FLAG_OR \<noteq> 0 then Some (want AND have \<noteq> 0)
     else None)"

text \<open>One waiting thread gets its event: the bits it received are saved, perhaps cleared, it is resumed.\<close>

definition event_deliver :: "'x ipc_scheme scode \<Rightarrow> nat \<Rightarrow> nat \<Rightarrow> rt_thread \<Rightarrow> rt_event \<Rightarrow> 'x ipc_scheme \<Rightarrow>
    'x ipc_scheme option" where
  "event_deliver code a t th ev s =
    (let got = (if event_info th AND RT_EVENT_FLAG_AND \<noteq> 0 then event_set th else event_set th AND ev_bits ev);
         s1 = upd_thread t (\<lambda>th. th\<lparr>event_set := got\<rparr>) s;
         s2 = (if event_info th AND RT_EVENT_FLAG_CLEAR \<noteq> 0
               then put_event a (ev\<lparr>ev_bits := ev_bits ev AND NOT got\<rparr>) s1 else s1)
     in map_option snd (rt_thread_resume code t s2))"

text \<open>
  The search through the waiting threads. The link to the next one is read before a thread is
  resumed, so it goes over the threads that were in the list at the start. The flag says that some
  thread was resumed.
\<close>

fun event_search :: "'x ipc_scheme scode \<Rightarrow> nat \<Rightarrow> nat list \<Rightarrow> bool \<Rightarrow> 'x ipc_scheme \<Rightarrow>
    (rt_err \<times> bool \<times> 'x ipc_scheme) option" where
  "event_search code a [] resumed s = Some (RT_EOK, resumed, s)"
| "event_search code a (t # ts) resumed s = do {
     th \<leftarrow> threads s t;
     ev \<leftarrow> events s a;
     case event_met (event_info th) (event_set th) (ev_bits ev) of
       None \<Rightarrow> Some (- RT_EINVAL, resumed, s)
     | Some False \<Rightarrow> event_search code a ts resumed s
     | Some True \<Rightarrow> do {
         s1 \<leftarrow> event_deliver code a t th ev s;
         event_search code a ts True s1 } }"

definition rt_event_send :: "'x ipc_scheme scode \<Rightarrow> nat \<Rightarrow> u32 \<Rightarrow> 'x ipc_scheme \<Rightarrow>
    (rt_err \<times> 'x ipc_scheme) option" where
  "rt_event_send code a bits s = do {
     RT_ASSERT (is_event a s);
     if bits = 0 then Some (- RT_ERROR, s)
     else do {
       let (level, s0) = rt_hw_interrupt_disable s;
       ev \<leftarrow> events s0 a;
       let s1 = put_event a (ev\<lparr>ev_bits := ev_bits ev OR bits\<rparr>) s0;
       let s2 = rt_object_hook_call (s_code code) (rt_object_put_hook s1) a s1;
       (r, resumed, s3) \<leftarrow> event_search code a (suspend_thread s2 a) False s2;
       let s4 = rt_hw_interrupt_enable level s3;
       if r \<noteq> RT_EOK then Some (r, s4)
       else map_option (Pair RT_EOK) (if resumed then rt_schedule code s4 else Some s4) } }"

section \<open>Receiving\<close>

text \<open>The end of a wait: the result and what is written to \<^verbatim>\<open>*recved\<close>.\<close>

definition event_received :: "'x ipc_scheme scode \<Rightarrow> nat \<Rightarrow> nat \<Rightarrow> 'x ipc_scheme \<Rightarrow>
    ((rt_err \<times> u32 option) \<times> 'x ipc_scheme) option" where
  "event_received code a t s = do {
     th \<leftarrow> threads s t;
     if th_error th \<noteq> RT_EOK then Some ((th_error th, None), s)
     else do {
       let s1 = rt_object_hook_call (s_code code) (rt_object_take_hook s) a s;
       th' \<leftarrow> threads s1 t;
       Some ((th_error th', Some (event_set th)), s1) } }"

definition rt_event_recv :: "'x ipc_scheme scode \<Rightarrow> nat \<Rightarrow> u32 \<Rightarrow> u8 \<Rightarrow> int \<Rightarrow> 'x ipc_scheme \<Rightarrow>
    ((rt_err \<times> u32 option) progress \<times> 'x ipc_scheme) option" where
  "rt_event_recv code a bits option timeout s = do {
     RT_ASSERT (in_thread_context s);
     RT_ASSERT (is_event a s);
     if bits = 0 then Some (Returned (- RT_ERROR, None), s)
     else do {
       t \<leftarrow> rt_thread_self s;
       let s0 = clear_error t s;
       let s1 = rt_object_hook_call (s_code code) (rt_object_trytake_hook s0) a s0;
       let (level, s2) = rt_hw_interrupt_disable s1;
       ev \<leftarrow> events s2 a;
       met \<leftarrow> event_met option bits (ev_bits ev);
       if met
       then do {
         let got = ev_bits ev AND bits;
         let s3 = upd_thread t (\<lambda>th. th\<lparr>event_set := got, event_info := option\<rparr>) s2;
         let s4 = (if option AND RT_EVENT_FLAG_CLEAR \<noteq> 0
           then put_event a (ev\<lparr>ev_bits := ev_bits ev AND NOT bits\<rparr>) s3 else s3);
         let s5 = rt_hw_interrupt_enable level s4;
         let s6 = rt_object_hook_call (s_code code) (rt_object_take_hook s5) a s5;
         th \<leftarrow> threads s6 t;
         Some (Returned (th_error th, Some got), s6) }
       else if timeout = 0
       then Some (Returned (- RT_ETIMEOUT, None), rt_hw_interrupt_enable level
         (upd_thread t (\<lambda>th. th\<lparr>th_error := - RT_ETIMEOUT\<rparr>) s2))
       else do {
         s3 \<leftarrow> wait_on code a t (ev_flag ev) timeout
           (upd_thread t (\<lambda>th. th\<lparr>event_set := bits, event_info := option\<rparr>) s2);
         s4 \<leftarrow> rt_schedule code (rt_hw_interrupt_enable level s3);
         go_on t (event_received code a t) s4 } } }"

text \<open>Command 1 is \<^verbatim>\<open>RT_IPC_CMD_RESET\<close>.\<close>

definition rt_event_control :: "nat \<Rightarrow> 'x ipc_scheme scode \<Rightarrow> nat \<Rightarrow> nat \<Rightarrow> 'x ipc_scheme \<Rightarrow>
    (rt_err \<times> 'x ipc_scheme) option" where
  "rt_event_control fuel code a cmd s = do {
     RT_ASSERT (is_event a s);
     if cmd = 1
     then do {
       let (level, s1) = rt_hw_interrupt_disable s;
       s2 \<leftarrow> ipc_list_resume_all fuel code a s1;
       ev \<leftarrow> events s2 a;
       map_option (Pair RT_EOK) (rt_schedule code
         (rt_hw_interrupt_enable level (put_event a (ev\<lparr>ev_bits := 0\<rparr>) s2))) }
     else Some (- RT_ERROR, s) }"

end
