(* ===== verification/Event_Correct.thy ===== *)
theory Event_Correct
  imports Ipc_Correct Event
begin

text \<open>
  Sending an event: who is woken, what each thread receives, and which bits are left.
\<close>

section \<open>Specification\<close>

text \<open>
  The waiting threads in the order of the list, each with its option and the bits it wants. All of them
  or any of them must be there; the thread receives those that are, and takes them away when it asked
  for that. The result: the bits that are left, what is received by whom, and who goes on waiting.
\<close>

definition wants_met :: "u8 \<Rightarrow> u32 \<Rightarrow> u32 \<Rightarrow> bool" where
  "wants_met option want have = (if bit option 0 then want AND have = want else want AND have \<noteq> 0)"

fun hand_out :: "u32 \<Rightarrow> (nat \<times> u8 \<times> u32) list \<Rightarrow> u32 \<times> (nat \<times> u32) list \<times> nat list" where
  "hand_out have [] = (have, [], [])"
| "hand_out have ((t, option, want) # ws) =
    (if wants_met option want have
     then let got = want AND have; (h, ds, rs) = hand_out (if bit option 2 then have AND NOT got else have) ws
          in (h, (t, got) # ds, rs)
     else let (h, ds, rs) = hand_out have ws in (h, ds, t # rs))"

lemma hand_out_Cons_met:
  "wants_met option want have \<Longrightarrow> hand_out (if bit option 2 then have AND NOT (want AND have) else have) ws = (h, ds, rs) \<Longrightarrow>
   hand_out have ((t, option, want) # ws) = (h, (t, want AND have) # ds, rs)"
  by (simp add: Let_def)

lemma hand_out_Cons_not:
  "\<not> wants_met option want have \<Longrightarrow> hand_out have ws = (h, ds, rs) \<Longrightarrow>
   hand_out have ((t, option, want) # ws) = (h, ds, t # rs)"
  by simp

lemma hand_out_threads:
  "hand_out have ws = (h, ds, rs) \<Longrightarrow> set (map fst ds) \<union> set rs = set (map fst ws) \<and>
    (distinct (map fst ws) \<longrightarrow> distinct (map fst ds) \<and> set (map fst ds) \<inter> set rs = {})"
proof (induction "have" ws arbitrary: h ds rs rule: hand_out.induct)
  case (2 "have" t option want ws)
  show ?case
  proof (cases "wants_met option want have")
    case True
    obtain h' ds' rs' where e: "hand_out (if bit option 2 then have AND NOT (want AND have) else have) ws = (h', ds', rs')"
      by (metis prod_cases3)
    with 2(3) True have "ds = (t, want AND have) # ds'" "rs = rs'" by (simp_all add: Let_def)
    with 2(1) [OF True refl e] show ?thesis by auto
  next
    case False
    obtain h' ds' rs' where e: "hand_out have ws = (h', ds', rs')" by (metis prod_cases3)
    with 2(3) False have "ds = ds'" "rs = t # rs'" by simp_all
    with 2(2) [OF False e] show ?thesis by auto
  qed
qed simp

section \<open>Bits of the options\<close>

lemma event_flag_bits:
  fixes x :: u8
  shows "x AND RT_EVENT_FLAG_AND \<noteq> 0 \<longleftrightarrow> bit x 0" "x AND RT_EVENT_FLAG_OR \<noteq> 0 \<longleftrightarrow> bit x 1"
    "x AND RT_EVENT_FLAG_CLEAR \<noteq> 0 \<longleftrightarrow> bit x 2"
proof -
  have m: "x AND 2 ^ n \<noteq> 0 \<longleftrightarrow> bit x n" if "n < 8" for n
    using that by (simp add: bit_word_iff_drop_bit_and and_exp_eq_0_iff_not_bit)
  show "x AND RT_EVENT_FLAG_AND \<noteq> 0 \<longleftrightarrow> bit x 0" "x AND RT_EVENT_FLAG_OR \<noteq> 0 \<longleftrightarrow> bit x 1"
    "x AND RT_EVENT_FLAG_CLEAR \<noteq> 0 \<longleftrightarrow> bit x 2"
    using m [of 0] m [of 1] m [of 2] by simp_all
qed

lemma event_met_wants:
  assumes "bit option 0 \<or> bit option 1"
  shows "event_met option want have = Some (wants_met option want have)"
  using assms by (auto simp: event_met_def wants_met_def event_flag_bits)

section \<open>The search\<close>

definition waiter :: "'x sched_scheme \<Rightarrow> nat \<Rightarrow> nat \<times> u8 \<times> u32" where
  "waiter s t = (case threads s t of None \<Rightarrow> (t, 0, 0) | Some th \<Rightarrow> (t, event_info th, event_set th))"

lemma fst_waiter [simp]: "fst (waiter s t) = t"
  by (simp add: waiter_def split: option.split)

definition wants_something :: "'x sched_scheme \<Rightarrow> nat \<Rightarrow> bool" where
  "wants_something s t \<longleftrightarrow> (\<exists>th. threads s t = Some th \<and> (bit (event_info th) 0 \<or> bit (event_info th) 1))"

text \<open>\<open>t\<close> can run and was given the bits \<open>got\<close>.\<close>

definition received :: "'x sched_scheme \<Rightarrow> nat \<times> u32 \<Rightarrow> bool" where
  "received s = (\<lambda>(t, got). \<exists>th. threads s t = Some th \<and> event_set th = got \<and>
     (state_of th = RT_THREAD_READY \<or> state_of th = RT_THREAD_RUNNING))"

text \<open>What an operation on one event leaves alone.\<close>

definition beside_event :: "nat \<Rightarrow> 'x ipc_scheme \<Rightarrow> _" where
  "beside_event a s = ((semaphores s, mutexes s, mailboxes s, queues s, pools s), (events s)(a := None),
     (link_words s, data_bytes s), (primask s, objects s), rt_interrupt_nest s, rt_scheduler_lock_nest s)"

lemma beside_event_sel [simp]:
  "beside_event a (put_event a ev s) = beside_event a s" "beside_event a (upd_thread t f s) = beside_event a s"
  by (simp_all add: beside_event_def put_event_def upd_thread_def)

lemma put_event_sel [simp]:
  "events (put_event a ev s) = (events s)(a \<mapsto> ev)" "thread_ok (put_event a ev s) = thread_ok s"
  "threads (put_event a ev s) = threads s" "suspend_thread (put_event a ev s) = suspend_thread s"
  "rt_current_thread (put_event a ev s) = rt_current_thread s"
  by (simp_all add: put_event_def) (rule thread_ok_cong; simp add: hooks_off_def)

lemma frame_beside:
  assumes "frame s' s" and "events s' = events s"
  shows "beside_event a s' = beside_event a s"
  using same_ipc [OF frameD(5) [OF assms(1)]] assms by (simp add: beside_event_def frame_def)

lemma event_deliver_ok:
  assumes ok: "thread_ok s" and th: "threads s t = Some th" "state_of th = RT_THREAD_SUSPEND"
    and ev: "events s a = Some ev" and got: "got = event_set th AND ev_bits ev"
    and met: "wants_met (event_info th) (event_set th) (ev_bits ev)"
  shows "\<exists>s' th'. event_deliver code a t th ev s = Some s' \<and> thread_ok s' \<and> rt_current_thread s' = rt_current_thread s \<and>
    events s' = (events s)(a \<mapsto> ev\<lparr>ev_bits := (if bit (event_info th) 2 then ev_bits ev AND NOT got else ev_bits ev)\<rparr>) \<and>
    suspend_thread s' = (\<lambda>b. remove1 t (suspend_thread s b)) \<and> threads s' = (threads s)(t \<mapsto> th') \<and>
    event_set th' = got \<and> (state_of th' = RT_THREAD_READY \<or> state_of th' = RT_THREAD_RUNNING) \<and>
    beside_event a s' = beside_event a s"
proof -
  let ?s1 = "upd_thread t (\<lambda>th. th\<lparr>event_set := got\<rparr>) s"
  let ?s2 = "if bit (event_info th) 2 then put_event a (ev\<lparr>ev_bits := ev_bits ev AND NOT got\<rparr>) ?s1 else ?s1"
  have g: "(if event_info th AND RT_EVENT_FLAG_AND \<noteq> 0 then event_set th else event_set th AND ev_bits ev) = got"
    using met by (simp add: got wants_met_def event_flag_bits)
  have ok1: "thread_ok ?s1" by (rule upd_other_ok(1) [OF ok]) (simp add: stack_fine_def)
  then have ok2: "thread_ok ?s2" by simp
  have th2: "threads ?s2 t = Some (th\<lparr>event_set := got\<rparr>)" "state_of (th\<lparr>event_set := got\<rparr>) = RT_THREAD_SUSPEND"
    using th by simp_all
  from resume_ok [OF ok2 th2, of code] obtain s' where
    s': "rt_thread_resume code t ?s2 = Some (RT_EOK, s')" "thread_ok s'" "frame s' ?s2"
      "threads s' = (threads ?s2)(t \<mapsto> set_stat (back_state ?s2 t) (th\<lparr>event_set := got\<rparr>))"
      "suspend_thread s' = (\<lambda>b. remove1 t (suspend_thread ?s2 b))" "rt_current_thread s' = rt_current_thread ?s2" by blast
  have e: "event_deliver code a t th ev s = Some s'"
    using s'(1) by (simp add: event_deliver_def g event_flag_bits(3) Let_def cong: if_cong)
  have ev': "events s' = events ?s2" using same_ipc(3) [OF frameD(5) [OF s'(3)]] .
  have "beside_event a s' = beside_event a ?s2" by (rule frame_beside [OF s'(3) ev'])
  then have "beside_event a s' = beside_event a s" by simp
  moreover have "events ?s1 = events s" by (simp add: upd_thread_def)
  with ev' ev have "events s' = (events s)(a \<mapsto> ev\<lparr>ev_bits := (if bit (event_info th) 2 then ev_bits ev AND NOT got else ev_bits ev)\<rparr>)"
    by (simp add: fun_upd_idem)
  moreover have "state_of (set_stat (back_state ?s2 t) (th\<lparr>event_set := got\<rparr>)) \<in> {RT_THREAD_READY, RT_THREAD_RUNNING}"
    using back_state_values [of ?s2 t] by auto
  ultimately show ?thesis using e s'
    by (intro exI [of _ s'] exI [of _ "set_stat (back_state ?s2 t) (th\<lparr>event_set := got\<rparr>)"]) auto
qed

lemma event_search_ok:
  assumes "thread_ok s" and "events s a = Some ev" and "suspend_thread s a = kept @ ts" and "list_all (wants_something s) ts"
    and "hand_out (ev_bits ev) (map (waiter s) ts) = (h, ds, rs)"
  shows "\<exists>s'. event_search code a ts resumed s = Some (RT_EOK, resumed \<or> ds \<noteq> [], s') \<and> thread_ok s' \<and>
    rt_current_thread s' = rt_current_thread s \<and> events s' = (events s)(a \<mapsto> ev\<lparr>ev_bits := h\<rparr>) \<and>
    suspend_thread s' = (suspend_thread s)(a := kept @ rs) \<and> list_all (received s') ds \<and>
    (\<forall>u. u \<notin> fst ` set ds \<longrightarrow> threads s' u = threads s u) \<and> beside_event a s' = beside_event a s"
  using assms
proof (induction ts arbitrary: kept s ev h ds rs resumed)
  case Nil
  then show ?case by (auto simp: fun_upd_idem)
next
  case (Cons t ts)
  note I = sched_invD [OF thread_okD(2) [OF Cons.prems(1)]]
  from Cons.prems(4) obtain th where th: "threads s t = Some th" "bit (event_info th) 0 \<or> bit (event_info th) 1"
    by (auto simp: wants_something_def)
  from I(7) [of t a] Cons.prems(3) th have st: "state_of th = RT_THREAD_SUSPEND" by auto
  have dist: "distinct (kept @ t # ts)" using I(6) [of a] Cons.prems(3) by simp
  have w: "waiter s t = (t, event_info th, event_set th)" using th by (simp add: waiter_def)
  note em = event_met_wants [OF th(2), of "event_set th" "ev_bits ev"]
  show ?case
  proof (cases "wants_met (event_info th) (event_set th) (ev_bits ev)")
    case False
    obtain h' ds' rs' where e: "hand_out (ev_bits ev) (map (waiter s) ts) = (h', ds', rs')" by (metis prod_cases3)
    with Cons.prems(5) False w have D: "h = h'" "ds = ds'" "rs = t # rs'" by simp_all
    have "suspend_thread s a = (kept @ [t]) @ ts" "list_all (wants_something s) ts" using Cons.prems(3,4) by simp_all
    from Cons.IH [OF Cons.prems(1,2) this e, of resumed] False em th(1) Cons.prems(2) D show ?thesis by simp
  next
    case True
    let ?got = "event_set th AND ev_bits ev"
    let ?ev = "ev\<lparr>ev_bits := (if bit (event_info th) 2 then ev_bits ev AND NOT ?got else ev_bits ev)\<rparr>"
    from event_deliver_ok [OF Cons.prems(1) th(1) st Cons.prems(2) refl True, of code] obtain s1 th' where
      s1: "event_deliver code a t th ev s = Some s1" "thread_ok s1" "rt_current_thread s1 = rt_current_thread s"
        "events s1 = (events s)(a \<mapsto> ?ev)" "suspend_thread s1 = (\<lambda>b. remove1 t (suspend_thread s b))"
        "threads s1 = (threads s)(t \<mapsto> th')" "event_set th' = ?got"
        "state_of th' = RT_THREAD_READY \<or> state_of th' = RT_THREAD_RUNNING" "beside_event a s1 = beside_event a s" by blast
    have other: "remove1 t (suspend_thread s b) = suspend_thread s b" if "b \<noteq> a" for b
    proof -
      have "t \<notin> set (suspend_thread s b)" using I(8) [of t b a] Cons.prems(3) that by auto
      then show ?thesis by (rule remove1_idem)
    qed
    have sus: "suspend_thread s1 = (suspend_thread s)(a := kept @ ts)"
      using other dist Cons.prems(3) by (auto simp: s1(5) fun_eq_iff remove1_append)
    have nt: "u \<noteq> t" if "u \<in> set ts" for u using that dist by auto
    have ws: "map (waiter s1) ts = map (waiter s) ts" "list_all (wants_something s1) ts"
      using Cons.prems(4) nt s1(6) by (auto simp: waiter_def wants_something_def list_all_iff)
    obtain h' ds' rs' where e: "hand_out (ev_bits ?ev) (map (waiter s1) ts) = (h', ds', rs')" by (metis prod_cases3)
    have evb: "ev_bits ?ev = (if bit (event_info th) 2 then ev_bits ev AND NOT ?got else ev_bits ev)" by simp
    have e': "hand_out (if bit (event_info th) 2 then ev_bits ev AND NOT ?got else ev_bits ev) (map (waiter s) ts) = (h', ds', rs')"
      using e unfolding ws(1) evb .
    have "hand_out (ev_bits ev) ((t, event_info th, event_set th) # map (waiter s) ts) = (h, ds, rs)"
      using Cons.prems(5) by (simp only: list.map w)
    then have "(h, ds, rs) = (h', (t, ?got) # ds', rs')" unfolding hand_out_Cons_met [OF True e'] ..
    then have D: "h = h'" "ds = (t, ?got) # ds'" "rs = rs'" by simp_all
    have "events s1 a = Some ?ev" "suspend_thread s1 a = kept @ ts" using s1(4) sus by simp_all
    from Cons.IH [OF s1(2) this ws(2) e, of True] obtain s' where
      s': "event_search code a ts True s1 = Some (RT_EOK, True \<or> ds' \<noteq> [], s')" "thread_ok s'"
        "rt_current_thread s' = rt_current_thread s1" "events s' = (events s1)(a \<mapsto> ?ev\<lparr>ev_bits := h'\<rparr>)"
        "suspend_thread s' = (suspend_thread s1)(a := kept @ rs')" "list_all (received s') ds'"
        "\<forall>u. u \<notin> fst ` set ds' \<longrightarrow> threads s' u = threads s1 u" "beside_event a s' = beside_event a s1" by blast
    have "t \<notin> fst ` set ds'"
    proof -
      have "map fst (map (waiter s1) ts) = ts" by (simp add: comp_def)
      with hand_out_threads [OF e] nt show ?thesis by auto
    qed
    then have "received s' (t, ?got)" using s'(7) s1(6-8) by (simp add: received_def)
    moreover have "threads s' u = threads s u" if "u \<notin> fst ` set ds" for u using that s'(7) s1(6) D(2) by auto
    moreover have "event_search code a (t # ts) resumed s = Some (RT_EOK, True, s')"
      using th(1) Cons.prems(2) em True s1(1) s'(1) by simp
    ultimately show ?thesis using s' s1(3,4,9) sus D by auto
  qed
qed

end
