(* ===== verification/Ipc_Inv.thy ===== *)
theory Ipc_Inv
  imports Ipc_Correct
begin

text \<open>
  Semaphores and mutexes among running threads: the invariant of a system in which threads take
  and release them, sleep, yield, time out and interrupt each other, and its proof for each operation.
\<close>

section \<open>The invariant\<close>

definition running :: "nat \<Rightarrow> 'x sched_scheme \<Rightarrow> bool" where
  "running t s \<longleftrightarrow> rt_current_thread s = Some t \<and> (\<exists>th. threads s t = Some th \<and> state_of th = RT_THREAD_RUNNING)"

text \<open>A semaphore with a count has no thread that waits.\<close>

definition sem_ok :: "'x sched_scheme \<Rightarrow> nat \<Rightarrow> rt_semaphore \<Rightarrow> bool" where
  "sem_ok s a sem \<longleftrightarrow> is_sem a s \<and> (sem_flag sem = RT_IPC_FLAG_FIFO \<or> sem_flag sem = RT_IPC_FLAG_PRIO) \<and>
     (0 < sem_value sem \<longrightarrow> suspend_thread s a = [])"

text \<open>
  A mutex is free, with nobody waiting, or has an owner that has not ended, does not wait for it, and
  whose old priority is one of the 32.
\<close>

definition mutex_ok :: "'x sched_scheme \<Rightarrow> nat \<Rightarrow> rt_mutex \<Rightarrow> bool" where
  "mutex_ok s a m \<longleftrightarrow> is_mutex a s \<and> mx_flag m = RT_IPC_FLAG_PRIO \<and> (case mx_owner m of
     None \<Rightarrow> mx_value m = 1 \<and> mx_hold m = 0 \<and> suspend_thread s a = []
   | Some t \<Rightarrow> mx_value m = 0 \<and> 0 < mx_hold m \<and> alive s t \<and> unat (original_priority m) < 32 \<and>
       t \<notin> set (suspend_thread s a))"

definition ipc_ok :: "'x ipc_scheme \<Rightarrow> bool" where
  "ipc_ok s \<longleftrightarrow> thread_ok s \<and> rt_current_thread s \<noteq> None \<and>
     (\<forall>a sem. semaphores s a = Some sem \<longrightarrow> sem_ok s a sem) \<and>
     (\<forall>a m. mutexes s a = Some m \<longrightarrow> mutex_ok s a m)"

lemma ipc_okD:
  assumes "ipc_ok s"
  shows "thread_ok s" "rt_current_thread s \<noteq> None" "\<And>a sem. semaphores s a = Some sem \<Longrightarrow> sem_ok s a sem"
    "\<And>a m. mutexes s a = Some m \<Longrightarrow> mutex_ok s a m" "hooks_off s"
  using assms thread_okD(3) by (auto simp: ipc_ok_def)

text \<open>What keeps all objects well formed except the one at \<open>b\<close>.\<close>

definition apart_from :: "nat option \<Rightarrow> 'x sched_scheme \<Rightarrow> 'x sched_scheme \<Rightarrow> bool" where
  "apart_from b s s' \<longleftrightarrow> thread_ok s' \<and> rt_current_thread s' \<noteq> None \<and> objects s' = objects s \<and>
     (\<forall>t. alive s t \<longrightarrow> alive s' t) \<and>
     (\<forall>a. Some a \<noteq> b \<longrightarrow> set (suspend_thread s' a) \<subseteq> set (suspend_thread s a))"

lemma sem_ok_apart:
  assumes "sem_ok s a sem" and "apart_from b s s'" and "Some a \<noteq> b"
  shows "sem_ok s' a sem"
proof -
  have "set (suspend_thread s' a) \<subseteq> set (suspend_thread s a)" "objects s' = objects s"
    using assms(2,3) by (simp_all add: apart_from_def)
  with assms(1) show ?thesis by (auto simp: sem_ok_def is_sem_def rt_object_get_type_def)
qed

lemma mutex_ok_apart:
  assumes "mutex_ok s a m" and "apart_from b s s'" and "Some a \<noteq> b"
  shows "mutex_ok s' a m"
proof -
  have "set (suspend_thread s' a) \<subseteq> set (suspend_thread s a)" "objects s' = objects s" "\<forall>t. alive s t \<longrightarrow> alive s' t"
    using assms(2,3) by (simp_all add: apart_from_def)
  with assms(1) show ?thesis
    by (auto simp: mutex_ok_def is_mutex_def rt_object_get_type_def split: option.splits)
qed

lemma apart_from_trans: "apart_from b s1 s2 \<Longrightarrow> apart_from b s2 s3 \<Longrightarrow> apart_from b s1 s3"
  unfolding apart_from_def by (metis subset_trans)

lemma apart_from_weaken: "apart_from None s s' \<Longrightarrow> apart_from b s s'"
  by (simp add: apart_from_def)

lemma move_apart: "thread_move s s' \<Longrightarrow> rt_current_thread s \<noteq> None \<Longrightarrow> apart_from b s s'"
  by (auto simp: thread_move_def apart_from_def)

text \<open>A state in which only one object's data has changed.\<close>

lemma ipc_ok_sem:
  assumes "ipc_ok s" and "apart_from (Some b) s s'" and "mutexes s b = None"
    and "semaphores s' = (semaphores s)(b \<mapsto> sem)" "mutexes s' = mutexes s" and "sem_ok s' b sem"
  shows "ipc_ok s'"
  unfolding ipc_ok_def
proof (intro conjI allI impI)
  note K = ipc_okD [OF assms(1)]
  show "thread_ok s'" "rt_current_thread s' \<noteq> None" using assms(2) by (simp_all add: apart_from_def)
  show "sem_ok s' a x" if "semaphores s' a = Some x" for a x
    using that assms(4,6) sem_ok_apart [OF K(3) assms(2), of a x] by (cases "a = b") auto
  show "mutex_ok s' a m" if "mutexes s' a = Some m" for a m
    using that assms(3,5) mutex_ok_apart [OF K(4) assms(2), of a m] by (cases "a = b") auto
qed

lemma ipc_ok_mutex:
  assumes "ipc_ok s" and "apart_from (Some b) s s'" and "semaphores s b = None"
    and "mutexes s' = (mutexes s)(b \<mapsto> m)" "semaphores s' = semaphores s" and "mutex_ok s' b m"
  shows "ipc_ok s'"
  unfolding ipc_ok_def
proof (intro conjI allI impI)
  note K = ipc_okD [OF assms(1)]
  show "thread_ok s'" "rt_current_thread s' \<noteq> None" using assms(2) by (simp_all add: apart_from_def)
  show "sem_ok s' a x" if "semaphores s' a = Some x" for a x
    using that assms(3,5) sem_ok_apart [OF K(3) assms(2), of a x] by (cases "a = b") auto
  show "mutex_ok s' a x" if "mutexes s' a = Some x" for a x
    using that assms(4,6) mutex_ok_apart [OF K(4) assms(2), of a x] by (cases "a = b") auto
qed

lemma ipc_ok_apart:
  assumes "ipc_ok s" and "apart_from None s s'" and "semaphores s' = semaphores s" "mutexes s' = mutexes s"
  shows "ipc_ok s'"
  using ipc_okD [OF assms(1)] sem_ok_apart [OF _ assms(2)] mutex_ok_apart [OF _ assms(2)] assms(2-4)
  unfolding ipc_ok_def by (auto simp: apart_from_def)

lemma ipc_ok_move:
  assumes "ipc_ok s" and "thread_move s s'"
  shows "ipc_ok s'"
proof -
  have "sched.more s' = sched.more s" using assms(2) by (simp add: thread_move_def)
  from ipc_ok_apart [OF assms(1) move_apart [OF assms(2)]] ipc_okD(2) [OF assms(1)] same_ipc [OF this] show ?thesis by blast
qed

text \<open>An address is that of a semaphore or of a mutex.\<close>

lemma sem_not_mutex: "ipc_ok s \<Longrightarrow> semaphores s a = Some sem \<Longrightarrow> mutexes s a = None"
  using ipc_okD(3,4) [of s] by (cases "mutexes s a") (force simp: sem_ok_def mutex_ok_def is_sem_def is_mutex_def)+

lemma mutex_not_sem: "ipc_ok s \<Longrightarrow> mutexes s a = Some m \<Longrightarrow> semaphores s a = None"
  using ipc_okD(3,4) [of s] by (cases "semaphores s a") (force simp: sem_ok_def mutex_ok_def is_sem_def is_mutex_def)+

section \<open>Selectors\<close>

lemma set_sem_sel [simp]:
  "semaphores (set_sem a x s) = (semaphores s)(a \<mapsto> x)" "mutexes (set_sem a x s) = mutexes s"
  "thread_ok (set_sem a x s) = thread_ok s" "rt_current_thread (set_sem a x s) = rt_current_thread s"
  "suspend_thread (set_sem a x s) = suspend_thread s" "objects (set_sem a x s) = objects s"
  "alive (set_sem a x s) = alive s" "threads (set_sem a x s) = threads s" "is_sem b (set_sem a x s) = is_sem b s"
  by (simp_all add: set_sem_def alive_def fun_eq_iff is_sem_def rt_object_get_type_def)
    (rule thread_ok_cong; simp add: hooks_off_def)

lemma set_mutex_sel [simp]:
  "mutexes (set_mutex a x s) = (mutexes s)(a \<mapsto> x)" "semaphores (set_mutex a x s) = semaphores s"
  "thread_ok (set_mutex a x s) = thread_ok s" "rt_current_thread (set_mutex a x s) = rt_current_thread s"
  "suspend_thread (set_mutex a x s) = suspend_thread s" "objects (set_mutex a x s) = objects s"
  "alive (set_mutex a x s) = alive s" "threads (set_mutex a x s) = threads s" "is_mutex b (set_mutex a x s) = is_mutex b s"
  "primask (set_mutex a x s) = primask s"
  by (simp_all add: set_mutex_def alive_def fun_eq_iff is_mutex_def rt_object_get_type_def)
    (rule thread_ok_cong; simp add: hooks_off_def)

lemma mask_sel [simp]:
  "is_sem a (s\<lparr>primask := m\<rparr>) = is_sem a s" "is_mutex a (s\<lparr>primask := m\<rparr>) = is_mutex a s"
  "in_thread_context (s\<lparr>primask := m\<rparr>) = in_thread_context s"
  by (simp_all add: is_sem_def is_mutex_def rt_object_get_type_def in_thread_context_def rt_thread_self_def)

lemma running_context: "running t s \<Longrightarrow> rt_interrupt_nest s = 0 \<Longrightarrow> in_thread_context s"
  by (simp add: running_def in_thread_context_def rt_thread_self_def)

section \<open>Waiting\<close>

text \<open>The error of a thread is cleared or set.\<close>

lemma upd_error:
  assumes "thread_ok s"
  shows "thread_ok (upd_thread t (\<lambda>th. th\<lparr>th_error := e\<rparr>) s)" "alive (upd_thread t (\<lambda>th. th\<lparr>th_error := e\<rparr>) s) = alive s"
  using upd_other_ok(1) [OF assms, of t "\<lambda>th. th\<lparr>th_error := e\<rparr>"] alive_upd_thread [of "\<lambda>th. th\<lparr>th_error := e\<rparr>" t s]
  by (simp_all add: stack_fine_def)

lemma upd_thread_ipc [simp]:
  "semaphores (upd_thread t f s) = semaphores s" "mutexes (upd_thread t f s) = mutexes s"
  "objects (upd_thread t f s) = objects s" "suspend_thread (upd_thread t f s) = suspend_thread s"
  "rt_current_thread (upd_thread t f s) = rt_current_thread s" "sched.more (upd_thread t f s) = sched.more s"
  "rt_interrupt_nest (upd_thread t f s) = rt_interrupt_nest s"
  by (simp_all add: upd_thread_def)

text \<open>A running thread gets in line and the scheduler runs.\<close>

lemma wait_and_schedule:
  assumes ok: "thread_ok s" and run: "running t s" and tick: "0 < time \<longrightarrow> (of_int time :: u32) < TICK_HALF"
    and flag: "flag = RT_IPC_FLAG_FIFO \<or> flag = RT_IPC_FLAG_PRIO"
  shows "\<exists>s2 s3. wait_on code a t flag time s = Some s2 \<and> rt_schedule code (s2\<lparr>primask := m\<rparr>) = Some s3 \<and>
    apart_from (Some a) s s3 \<and> sched.more s3 = sched.more s \<and>
    set (suspend_thread s3 a) \<subseteq> insert t (set (suspend_thread s a)) \<and> rt_interrupt_nest s3 = rt_interrupt_nest s \<and>
    (rt_current_thread s3 = Some t \<longrightarrow> threads s3 t \<noteq> None) \<and> priority_of s3 = priority_of s"
proof -
  from run obtain th where cur: "rt_current_thread s = Some t" and th: "threads s t = Some th" "state_of th = RT_THREAD_RUNNING"
    by (auto simp: running_def)
  from wait_on_ok [OF ok cur th tick flag, of code a] obtain s2 where
    s2: "wait_on code a t flag time s = Some s2" "in_line a t s s2" by blast
  from s2(2) obtain xs ys where L: "thread_ok s2" "frame s2 s" "rt_current_thread s2 = Some t"
    "suspend_thread s a = xs @ ys" "suspend_thread s2 = (suspend_thread s)(a := xs @ t # ys)" by (auto simp: in_line_def)
  from schedule_move [of "s2\<lparr>primask := m\<rparr>" code] L(1,3) obtain s3 where
    s3: "rt_schedule code (s2\<lparr>primask := m\<rparr>) = Some s3" "thread_move (s2\<lparr>primask := m\<rparr>) s3"
      "sched_step (s2\<lparr>primask := m\<rparr>) s3" by auto
  have "priority_of s2 = priority_of s"
    using s2(2) th by (auto simp: in_line_def priority_of_def fun_eq_iff split: option.splits)
  then have prio: "priority_of s3 = priority_of s" using step_priority [OF s3(3)] by simp
  have al: "alive s3 u" if "alive s u" for u
    using in_line_alive [OF s2(2) that] s3(2) by (simp add: thread_move_def)
  have sub: "set (suspend_thread s3 b) \<subseteq> set (suspend_thread s2 b)" for b using s3(2) by (simp add: thread_move_def)
  have cur3: "rt_current_thread s3 \<noteq> None" using s3(2) L(3) by (auto simp: thread_move_def)
  have "thread_ok s3" using s3(2) by (simp add: thread_move_def)
  then have "rt_current_thread s3 = Some t \<longrightarrow> threads s3 t \<noteq> None" using thread_okD(2) sched_invD(10) by blast
  moreover have "apart_from (Some a) s s3"
    using \<open>thread_ok s3\<close> cur3 al sub s3(2) frameD(3) [OF L(2)] L(5) by (fastforce simp: apart_from_def thread_move_def)
  moreover have "sched.more s3 = sched.more s" using s3(2) frameD(5) [OF L(2)] by (simp add: thread_move_def)
  moreover have "rt_interrupt_nest s3 = rt_interrupt_nest s" using s3(2) frameD(2) [OF L(2)] by (simp add: thread_move_def)
  moreover have "set (suspend_thread s3 a) \<subseteq> insert t (set (suspend_thread s a))" using sub [of a] L(4,5) by auto
  ultimately show ?thesis using s2(1) s3(1) prio by blast
qed

text \<open>The end of a take changes nothing.\<close>

lemma taken_same:
  assumes "hooks_off s" and "threads s t \<noteq> None"
  shows "\<exists>r. ipc_taken code a t s = Some (r, s)"
  using assms by (auto simp: ipc_taken_def)

lemma go_on_taken:
  assumes "hooks_off s" and "rt_current_thread s = Some t \<longrightarrow> threads s t \<noteq> None"
  shows "\<exists>r. go_on t (ipc_taken code a t) s = Some (r, s)"
  using assms taken_same [of s t code a] by (auto simp: go_on_def)

end
