(* ===== verification/Event_Behaviour.thy ===== *)
theory Event_Behaviour
  imports Event_Correct Ipc_Inv Example_System
begin

text \<open>
  Waiting for an event and sending one.
\<close>

definition event_system :: "nat \<Rightarrow> 'x ipc_scheme \<Rightarrow> bool" where
  "event_system a s \<longleftrightarrow> thread_ok s \<and> rt_current_thread s \<noteq> None \<and> is_event a s \<and>
     (\<exists>ev. events s a = Some ev \<and> (ev_flag ev = RT_IPC_FLAG_FIFO \<or> ev_flag ev = RT_IPC_FLAG_PRIO)) \<and>
     list_all (wants_something s) (suspend_thread s a)"

lemma step_waiter:
  assumes "sched_step s s'"
  shows "waiter s' t = waiter s t"
proof (cases "threads s t")
  case None
  moreover from None assms have "threads s' t = None" by (simp add: sched_step_def)
  ultimately show ?thesis by (simp add: waiter_def)
next
  case (Some th)
  with assms obtain th' where "threads s' t = Some th'" "event_set th' = event_set th" "event_info th' = event_info th"
    unfolding sched_step_def by blast
  with Some show ?thesis by (simp add: waiter_def)
qed

lemma wants_waiter: "wants_something s t \<longleftrightarrow> bit (fst (snd (waiter s t))) 0 \<or> bit (fst (snd (waiter s t))) 1"
  by (auto simp: wants_something_def waiter_def split: option.split)

lemma step_received:
  assumes "sched_step s s'" and "received s x"
  shows "received s' x"
proof -
  obtain t got where x: "x = (t, got)" by (cases x)
  with assms(2) obtain th where th: "threads s t = Some th" "event_set th = got"
    "state_of th = RT_THREAD_READY \<or> state_of th = RT_THREAD_RUNNING" by (auto simp: received_def)
  with assms(1) obtain th' where "threads s' t = Some th'" "event_set th' = event_set th"
    "state_of th' = state_of th \<or> {state_of th, state_of th'} = {RT_THREAD_READY, RT_THREAD_RUNNING}"
    unfolding sched_step_def by blast
  with th show ?thesis by (auto simp: received_def x doubleton_eq_iff)
qed

section \<open>Sending\<close>

lemma event_send_ok:
  assumes sys: "event_system a s" and bits: "bits \<noteq> 0" and ev: "events s a = Some ev"
    and out: "hand_out (ev_bits ev OR bits) (map (waiter s) (suspend_thread s a)) = (h, ds, rs)"
  shows "\<exists>s'. rt_event_send code a bits s = Some (RT_EOK, s') \<and> event_system a s' \<and>
    events s' a = Some (ev\<lparr>ev_bits := h\<rparr>) \<and> suspend_thread s' = (suspend_thread s)(a := rs) \<and>
    map (waiter s') rs = map (waiter s) rs \<and> list_all (received s') ds \<and> beside_event a s' = beside_event a s"
proof -
  from sys have S: "thread_ok s" "rt_current_thread s \<noteq> None" "is_event a s" "list_all (wants_something s) (suspend_thread s a)"
    and flag: "ev_flag ev = RT_IPC_FLAG_FIFO \<or> ev_flag ev = RT_IPC_FLAG_PRIO" using ev by (auto simp: event_system_def)
  let ?ev = "ev\<lparr>ev_bits := ev_bits ev OR bits\<rparr>"
  let ?s1 = "put_event a ?ev (s\<lparr>primask := 1\<rparr>)"
  have off: "rt_object_put_hook ?s1 = None" using thread_okD(3) [OF S(1)] by (simp add: put_event_def hooks_off_def)
  have w: "waiter ?s1 = waiter s" "list_all (wants_something ?s1) (suspend_thread s a)"
    using S(4) by (simp_all add: waiter_def fun_eq_iff wants_something_def list_all_iff)
  have out1: "hand_out (ev_bits ?ev) (map (waiter ?s1) (suspend_thread s a)) = (h, ds, rs)" using out w(1) by simp
  have sus1: "suspend_thread ?s1 a = [] @ suspend_thread s a" by simp
  from event_search_ok [of ?s1 a ?ev "[]" "suspend_thread s a", OF _ _ sus1 w(2) out1, of code False] S(1) obtain s2 where
    s2: "event_search code a (suspend_thread s a) False ?s1 = Some (RT_EOK, ds \<noteq> [], s2)" "thread_ok s2"
      "rt_current_thread s2 = rt_current_thread ?s1" "events s2 = (events ?s1)(a \<mapsto> ?ev\<lparr>ev_bits := h\<rparr>)"
      "suspend_thread s2 = (suspend_thread ?s1)(a := [] @ rs)" "list_all (received s2) ds"
      "\<forall>u. u \<notin> fst ` set ds \<longrightarrow> threads s2 u = threads ?s1 u" "beside_event a s2 = beside_event a ?s1" by auto
  let ?s3 = "s2\<lparr>primask := primask s\<rparr>"
  have b3: "beside_event a ?s3 = beside_event a s" using s2(8) by (simp add: beside_event_def put_event_def)
  have ok3: "thread_ok ?s3" "rt_current_thread ?s3 \<noteq> None" "events ?s3 a = Some (ev\<lparr>ev_bits := h\<rparr>)"
    "suspend_thread ?s3 = (suspend_thread s)(a := rs)" using s2 S(2) by simp_all
  have r3: "list_all (received ?s3) ds" using s2(6) by (simp add: received_def)
  have rs: "set rs \<inter> fst ` set ds = {}" "set rs \<subseteq> set (suspend_thread s a)"
  proof -
    have m: "map fst (map (waiter ?s1) (suspend_thread s a)) = suspend_thread s a" by (simp add: comp_def)
    note hand_out_threads [OF out1]
    then show "set rs \<inter> fst ` set ds = {}" "set rs \<subseteq> set (suspend_thread s a)"
      unfolding m using sched_invD(6) [OF thread_okD(2) [OF S(1)], of a] by auto
  qed
  have w3: "map (waiter ?s3) rs = map (waiter s) rs"
  proof (rule map_cong [OF refl])
    fix u assume "u \<in> set rs"
    with rs(1) have "u \<notin> fst ` set ds" by blast
    with s2(7) have "threads s2 u = threads s u" by simp
    then show "waiter ?s3 u = waiter s u" by (simp add: waiter_def)
  qed
  have run: "rt_event_send code a bits s = map_option (Pair RT_EOK) (if ds \<noteq> [] then rt_schedule code ?s3 else Some ?s3)"
    using S(3) bits ev off s2(1) by (simp add: rt_event_send_def irq_defs Let_def)
  have final: ?thesis if "sched_step ?s3 s'" "rt_current_thread s' \<noteq> None"
    and r: "rt_event_send code a bits s = Some (RT_EOK, s')" for s'
  proof -
    have fr: "frame s' ?s3" "thread_ok s'" "suspend_thread s' = suspend_thread ?s3" using that(1) by (simp_all add: sched_step_def)
    have es: "events s' = events ?s3" using same_ipc(3) [OF frameD(5) [OF fr(1)]] .
    have b: "beside_event a s' = beside_event a s" using frame_beside [OF fr(1) es] b3 by simp
    then have "objects s' = objects s" by (simp add: beside_event_def)
    then have "is_event a s'" using S(3) by (simp add: is_event_def rt_object_get_type_def)
    moreover have w': "map (waiter s') rs = map (waiter s) rs" using w3 step_waiter [OF that(1)] by simp
    moreover have "list_all (wants_something s') rs"
    proof -
      have "waiter s' t = waiter s t" if "t \<in> set rs" for t using w' that by simp
      with S(4) rs(2) show ?thesis unfolding list_all_iff wants_waiter by fastforce
    qed
    moreover have "list_all (received s') ds" using r3 step_received [OF that(1)] by (auto simp: list_all_iff)
    ultimately show ?thesis using r fr ok3 es b flag that(2)
      by (intro exI [of _ s']) (simp add: event_system_def)
  qed
  show ?thesis
  proof (cases "ds = []")
    case True
    have "sched_step ?s3 ?s3" using ok3(1) by (auto simp: sched_step_def)
    with final [of ?s3] ok3(2) run True show ?thesis by simp
  next
    case False
    from schedule_move [OF ok3(1,2), of code] obtain s' where
      "rt_schedule code ?s3 = Some s'" "thread_move ?s3 s'" "sched_step ?s3 s'" by blast
    moreover from this(2) ok3(2) have "rt_current_thread s' \<noteq> None" by (auto simp: thread_move_def)
    ultimately show ?thesis using final [of s'] run False by simp
  qed
qed

section \<open>Waiting\<close>

text \<open>A receiver whose bits are not there gets in line with what it wants.\<close>

lemma event_recv_waits:
  assumes sys: "event_system a s" and ev: "events s a = Some ev" and run: "running t s" and nest: "rt_interrupt_nest s = 0"
    and bits: "bits \<noteq> 0" and opt: "bit opt 0 \<or> bit opt 1" and not: "\<not> wants_met opt bits (ev_bits ev)"
    and time: "time \<noteq> 0" "0 < time \<longrightarrow> (of_int time :: u32) < TICK_HALF"
  shows "\<exists>r s' xs ys. rt_event_recv code a bits opt time s = Some (r, s') \<and> event_system a s' \<and> events s' = events s \<and>
    suspend_thread s a = xs @ ys \<and> suspend_thread s' = (suspend_thread s)(a := xs @ t # ys) \<and>
    waiter s' = (waiter s)(t := (t, opt, bits)) \<and> beside_event a s' = beside_event a s"
proof -
  from sys have S: "thread_ok s" "is_event a s" "list_all (wants_something s) (suspend_thread s a)"
    and flag: "ev_flag ev = RT_IPC_FLAG_FIFO \<or> ev_flag ev = RT_IPC_FLAG_PRIO" using ev by (auto simp: event_system_def)
  from run obtain th where th: "rt_current_thread s = Some t" "threads s t = Some th" "state_of th = RT_THREAD_RUNNING"
    by (auto simp: running_def)
  have off: "rt_object_trytake_hook s = None" using thread_okD(3) [OF S(1)] by (simp add: hooks_off_def)
  have met: "event_met opt bits (ev_bits ev) = Some False" using event_met_wants [OF opt] not by simp
  let ?f = "\<lambda>th. th\<lparr>event_set := bits, event_info := opt\<rparr>"
  let ?s1 = "upd_thread t ?f (clear_error t (s\<lparr>primask := 1\<rparr>))"
  have "thread_ok (clear_error t (s\<lparr>primask := 1\<rparr>))"
    unfolding clear_error_def by (rule upd_other_ok(1)) (use S(1) in \<open>simp_all add: stack_fine_def\<close>)
  then have ok1: "thread_ok ?s1" by (rule upd_other_ok(1)) (simp add: stack_fine_def)
  have th1: "threads ?s1 t = Some (?f (th\<lparr>th_error := RT_EOK\<rparr>))" "state_of (?f (th\<lparr>th_error := RT_EOK\<rparr>)) = RT_THREAD_RUNNING"
    "rt_current_thread ?s1 = Some t" using th by (simp_all add: clear_error_def)
  from wait_on_ok [OF ok1 th1(3,1,2) time(2) flag, of code a] obtain s2 xs ys where
    s2: "wait_on code a t (ev_flag ev) time ?s1 = Some s2" "thread_ok s2" "frame s2 ?s1" "rt_current_thread s2 = Some t"
      "threads s2 = (threads ?s1)(t := map_option (set_stat RT_THREAD_SUSPEND) (threads ?s1 t))"
      "suspend_thread ?s1 a = xs @ ys" "suspend_thread s2 = (suspend_thread ?s1)(a := xs @ t # ys)"
    by (auto simp: in_line_def)
  let ?s3 = "s2\<lparr>primask := primask s\<rparr>"
  from schedule_move [of ?s3 code] s2(2,4) obtain s4 where
    s4: "rt_schedule code ?s3 = Some s4" "thread_move ?s3 s4" "sched_step ?s3 s4" by auto
  have ok4: "thread_ok s4" "rt_current_thread s4 \<noteq> None" "frame s4 ?s3" using s4(2,3) s2(4) by (auto simp: thread_move_def sched_step_def)
  have ev4: "events s4 = events s"
    using same_ipc(3) [OF frameD(5) [OF ok4(3)]] same_ipc(3) [OF frameD(5) [OF s2(3)]] by (simp add: clear_error_def upd_thread_def)
  have sus: "suspend_thread s a = xs @ ys" "suspend_thread s4 = (suspend_thread s)(a := xs @ t # ys)"
    using s2(6,7) s4(3) by (simp_all add: sched_step_def clear_error_def)
  have w: "waiter s4 = (waiter s)(t := (t, opt, bits))"
  proof
    fix u
    have "waiter s4 u = waiter ?s3 u" by (rule step_waiter [OF s4(3)])
    also have "\<dots> = ((waiter s)(t := (t, opt, bits))) u" using s2(5) th(2) by (simp add: waiter_def clear_error_def)
    finally show "waiter s4 u = ((waiter s)(t := (t, opt, bits))) u" .
  qed
  have b: "beside_event a s4 = beside_event a s"
  proof -
    have e: "events s4 = events ?s3" "events s2 = events ?s1"
      using same_ipc(3) [OF frameD(5) [OF ok4(3)]] same_ipc(3) [OF frameD(5) [OF s2(3)]] by simp_all
    have "beside_event a s4 = beside_event a ?s3" "beside_event a s2 = beside_event a ?s1"
      using frame_beside [OF ok4(3) e(1)] frame_beside [OF s2(3) e(2)] .
    then show ?thesis by (simp add: beside_event_def clear_error_def upd_thread_def)
  qed
  then have "objects s4 = objects s" by (simp add: beside_event_def)
  then have "is_event a s4" using S(2) by (simp add: is_event_def rt_object_get_type_def)
  moreover have "list_all (wants_something s4) (xs @ t # ys)"
    using S(3) opt unfolding sus(1) list_all_iff wants_waiter w by auto
  ultimately have sys4: "event_system a s4" using ok4 ev ev4 flag sus(2) by (simp add: event_system_def)
  have "\<exists>r. go_on t (event_received code a t) s4 = Some (r, s4)"
  proof (cases "rt_current_thread s4 = Some t")
    case True
    with sched_invD(10) [OF thread_okD(2) [OF ok4(1)]] obtain th4 where "threads s4 t = Some th4" by auto
    moreover have "rt_object_take_hook s4 = None" using thread_okD(3) [OF ok4(1)] by (simp add: hooks_off_def)
    ultimately show ?thesis using True by (auto simp: go_on_def event_received_def)
  next
    case False
    then show ?thesis by (simp add: go_on_def)
  qed
  then obtain r where g: "go_on t (event_received code a t) s4 = Some (r, s4)" by blast
  have eq: "(clear_error t s)\<lparr>primask := 1\<rparr> = clear_error t (s\<lparr>primask := 1\<rparr>)" by (simp add: clear_error_def upd_thread_def)
  have flds: "rt_object_trytake_hook (clear_error t s) = None" "events (clear_error t s) = events s" "primask (clear_error t s) = primask s"
    using off by (simp_all add: clear_error_def upd_thread_def)
  have ev1: "events (clear_error t (s\<lparr>primask := 1\<rparr>)) = events s" by (simp add: clear_error_def upd_thread_def)
  have "rt_event_recv code a bits opt time s = Some (r, s4)"
    using running_context [OF run nest] S(2) bits th(1) ev met time(1) s2(1) s4(1) g flds ev1
    by (simp add: rt_event_recv_def irq_defs rt_thread_self_def Let_def eq)
  with sys4 ev4 sus w b show ?thesis by blast
qed

section \<open>Claims\<close>

text \<open>
  Claim C13 (functional). An event that is sent goes through the threads that wait for it in the order of the list:
  who finds what it waits for gets those bits, can run and leaves the list; the bits it asked to clear
  are gone for the threads behind it; the others go on waiting in their order, unchanged, and the bits that
  are left stay in the event. The operation returns, keeps the system well formed and leaves all other
  objects alone.
\<close>

theorem event_send_hands_out:
  assumes "event_system a s" and "bits \<noteq> 0" and "events s a = Some ev"
    and "hand_out (ev_bits ev OR bits) (map (waiter s) (suspend_thread s a)) = (h, ds, rs)"
  shows "\<exists>s'. rt_event_send code a bits s = Some (RT_EOK, s') \<and> event_system a s' \<and>
    events s' a = Some (ev\<lparr>ev_bits := h\<rparr>) \<and> suspend_thread s' = (suspend_thread s)(a := rs) \<and>
    map (waiter s') rs = map (waiter s) rs \<and> list_all (received s') ds \<and> beside_event a s' = beside_event a s"
  by (rule event_send_ok [OF assms])

text \<open>Thread 100 waits for any of bits 1 and 2 and clears what it gets; bits 0 and 1 are sent.\<close>

definition waiting_system :: ipc where
  "waiting_system = (example_system (\<lambda>_. None) (\<lambda>_. None) (\<lambda>_. None) (\<lambda>_. None) (\<lambda>_. None) (\<lambda>_. 0))
     \<lparr>events := [750 \<mapsto> \<lparr>ev_flag = RT_IPC_FLAG_FIFO, ev_bits = 0\<rparr>]\<rparr>"

lemma waiting_system_ok: "event_system 750 waiting_system" "running 100 waiting_system" "rt_interrupt_nest waiting_system = 0"
  "suspend_thread waiting_system = (\<lambda>_. [])" "events waiting_system 750 = Some \<lparr>ev_flag = RT_IPC_FLAG_FIFO, ev_bits = 0\<rparr>"
proof -
  let ?s = "example_system (\<lambda>_. None) (\<lambda>_. None) (\<lambda>_. None) (\<lambda>_. None) (\<lambda>_. None) (\<lambda>_. 0)"
  have "thread_ok waiting_system = thread_ok ?s"
    by (rule thread_ok_cong) (simp_all add: waiting_system_def hooks_off_def)
  then show "event_system 750 waiting_system"
    by (simp add: event_system_def example_ok) (simp add: waiting_system_def is_event_def rt_object_get_type_def example_kernel_def)
  show "running 100 waiting_system" "rt_interrupt_nest waiting_system = 0" "suspend_thread waiting_system = (\<lambda>_. [])"
    "events waiting_system 750 = Some \<lparr>ev_flag = RT_IPC_FLAG_FIFO, ev_bits = 0\<rparr>"
    by (simp_all add: waiting_system_def running_def)
qed

theorem event_send_hands_out_witness:
  "\<forall>code. \<exists>r s1 s2 th. rt_event_recv code 750 6 6 (-1) waiting_system = Some (r, s1) \<and> suspend_thread s1 750 = [100] \<and>
     rt_event_send code 750 3 s1 = Some (RT_EOK, s2) \<and> suspend_thread s2 750 = [] \<and>
     threads s2 100 = Some th \<and> event_set th = 2 \<and> map_option ev_bits (events s2 750) = Some 1"
proof
  fix code :: "ipc scode"
  note W = waiting_system_ok
  have opt: "bit (6 :: u8) 0 \<or> bit (6 :: u8) 1" "\<not> wants_met 6 6 0" by (simp_all add: bit_numeral_rec wants_met_def)
  from event_recv_waits [OF W(1,5,2,3) _ opt(1), of 6 "-1" code] opt(2) W(4) obtain r s1 where
    s1: "rt_event_recv code 750 6 6 (-1) waiting_system = Some (r, s1)" "event_system 750 s1" "events s1 = events waiting_system"
      "suspend_thread s1 750 = [100]" "waiter s1 100 = (100, 6, 6)" by auto
  have out: "hand_out (ev_bits \<lparr>ev_flag = RT_IPC_FLAG_FIFO, ev_bits = 0\<rparr> OR 3) (map (waiter s1) (suspend_thread s1 750)) = (1, [(100, 2)], [])"
    using s1(4,5) by (simp add: wants_met_def bit_numeral_rec Let_def)
  have "events s1 750 = Some \<lparr>ev_flag = RT_IPC_FLAG_FIFO, ev_bits = 0\<rparr>" using s1(3) W(5) by simp
  from event_send_hands_out [OF s1(2) _ this out, of code] s1(1,4) show
    "\<exists>r s1 s2 th. rt_event_recv code 750 6 6 (-1) waiting_system = Some (r, s1) \<and> suspend_thread s1 750 = [100] \<and>
     rt_event_send code 750 3 s1 = Some (RT_EOK, s2) \<and> suspend_thread s2 750 = [] \<and>
     threads s2 100 = Some th \<and> event_set th = 2 \<and> map_option ev_bits (events s2 750) = Some 1"
    by (auto simp: received_def)
qed

end
