(* ===== verification/Ipc_Steps.thy ===== *)
theory Ipc_Steps
  imports Ipc_Inv
begin

text \<open>
  Each operation on a semaphore or mutex returns and keeps the invariant; what it does to the object.
\<close>

section \<open>Semaphores\<close>

text \<open>Who may take: anybody who need not wait, or the running thread outside interrupts.\<close>

definition may_wait :: "int \<Rightarrow> 'x sched_scheme \<Rightarrow> bool" where
  "may_wait time s \<longleftrightarrow> time = 0 \<or> (\<exists>t. running t s) \<and> rt_interrupt_nest s = 0 \<and>
     (0 < time \<longrightarrow> (of_int time :: u32) < TICK_HALF)"

lemma apart_same:
  assumes "thread_ok s'" and "rt_current_thread s' = rt_current_thread s" and "rt_current_thread s \<noteq> None"
    and "objects s' = objects s" and "alive s' = alive s" and "suspend_thread s' = suspend_thread s"
  shows "apart_from b s s'"
  using assms by (simp add: apart_from_def)

lemma sem_take_ok:
  assumes ok: "ipc_ok s" and sem: "semaphores s a = Some sem" and w: "may_wait time s"
  shows "\<exists>r s'. rt_sem_take code a time s = Some (r, s') \<and> ipc_ok s' \<and> rt_interrupt_nest s' = rt_interrupt_nest s \<and>
    (0 < sem_value sem \<longrightarrow> r = Returned RT_EOK \<and> semaphores s' a = Some (sem\<lparr>sem_value := sem_value sem - 1\<rparr>))"
proof -
  note K = ipc_okD [OF ok]
  note S = K(3) [OF sem, unfolded sem_ok_def]
  note none = sem_not_mutex [OF ok sem]
  consider (free) "0 < sem_value sem" | (refused) "\<not> 0 < sem_value sem" "time = 0"
    | (wait) "\<not> 0 < sem_value sem" "time \<noteq> 0" by blast
  then show ?thesis
  proof cases
    case free
    let ?sem = "sem\<lparr>sem_value := sem_value sem - 1\<rparr>"
    let ?s = "(set_sem a ?sem s)"
    have ap: "apart_from (Some a) s ?s" by (rule apart_same) (use K(1,2) in simp_all)
    have "ipc_ok ?s"
      by (rule ipc_ok_sem [OF ok ap none, where sem = ?sem]) (use S free in \<open>simp_all add: sem_ok_def\<close>)
    moreover have "rt_sem_take code a time s = Some (Returned RT_EOK, ?s)"
      using free S K(5) sem by (simp add: rt_sem_take_def irq_defs) (simp add: set_sem_def hooks_off_def)
    moreover have "rt_interrupt_nest ?s = rt_interrupt_nest s" by (simp add: set_sem_def)
    ultimately show ?thesis using free by auto
  next
    case refused
    then have "rt_sem_take code a time s = Some (Returned (- RT_ETIMEOUT), s)"
      using S K(5) sem by (simp add: rt_sem_take_def irq_defs)
    with ok refused show ?thesis by auto
  next
    case wait
    from w wait(2) obtain t th where run: "running t s" and nest: "rt_interrupt_nest s = 0"
      and tick: "0 < time \<longrightarrow> (of_int time :: u32) < TICK_HALF" by (auto simp: may_wait_def)
    let ?s1 = "clear_error t (s\<lparr>primask := 1\<rparr>)"
    have ok1: "thread_ok ?s1" "alive ?s1 = alive s" using upd_error [of "s\<lparr>primask := 1\<rparr>" t RT_EOK] K(1)
      by (simp_all add: clear_error_def)
    have run1: "running t ?s1" using run by (auto simp: running_def clear_error_def)
    from S have "sem_flag sem = RT_IPC_FLAG_FIFO \<or> sem_flag sem = RT_IPC_FLAG_PRIO" by simp
    from wait_and_schedule [OF ok1(1) run1 tick this, of code a "primask s"] obtain s2 s3 where
      W: "wait_on code a t (sem_flag sem) time ?s1 = Some s2" "rt_schedule code (s2\<lparr>primask := primask s\<rparr>) = Some s3"
        "apart_from (Some a) ?s1 s3" "sched.more s3 = sched.more ?s1" "rt_interrupt_nest s3 = rt_interrupt_nest ?s1"
        "rt_current_thread s3 = Some t \<longrightarrow> threads s3 t \<noteq> None" by blast
    have m: "sched.more s3 = sched.more s" using W(4) by (simp add: clear_error_def)
    note same = same_ipc [OF m]
    have ap: "apart_from (Some a) s s3" using W(3) ok1(2) by (simp add: apart_from_def clear_error_def)
    have ok3: "ipc_ok s3"
      by (rule ipc_ok_sem [OF ok ap none, where sem = sem])
        (use S wait(1) sem same W(3) in \<open>auto simp: sem_ok_def fun_upd_idem is_sem_def rt_object_get_type_def
          apart_from_def clear_error_def\<close>)
    from go_on_taken [OF ipc_okD(5) [OF ok3] W(6), of code a] obtain r where
      g: "go_on t (ipc_taken code a t) s3 = Some (r, s3)" by blast
    have "rt_sem_take code a time s = Some (r, s3)"
      using wait S K(5) sem running_context [OF run nest] run W(1,2) g
      by (simp add: rt_sem_take_def irq_defs rt_thread_self_def running_def)
    with ok3 wait(1) W(5) show ?thesis by (auto simp: clear_error_def)
  qed
qed

lemma release_wakes:
  assumes "suspend_thread s a \<noteq> []" and "wake_one code a m id s = Some s'"
  shows "\<exists>s1. ipc_list_resume code a s = Some s1 \<and> rt_schedule code (s1\<lparr>primask := m\<rparr>) = Some s'"
  using assms by (auto simp: wake_one_def irq_defs split: bind_splits)

lemma woke_apart:
  assumes "woke l s s'"
  shows "apart_from b s s'"
proof -
  have "set (tl xs) \<subseteq> set xs" for xs :: "nat list" by (cases xs) auto
  with assms show ?thesis by (auto simp: woke_def apart_from_def)
qed

lemma sem_release_ok:
  assumes ok: "ipc_ok s" and sem: "semaphores s a = Some sem"
  shows "\<exists>r s'. rt_sem_release code a s = Some (r, s') \<and> ipc_ok s' \<and> rt_interrupt_nest s' = rt_interrupt_nest s \<and>
    suspend_thread s' a = tl (suspend_thread s a) \<and>
    (if suspend_thread s a \<noteq> [] then r = RT_EOK \<and> semaphores s' = semaphores s
     else if sem_value sem < RT_SEM_VALUE_MAX then r = RT_EOK \<and> semaphores s' = (semaphores s)(a \<mapsto> sem\<lparr>sem_value := sem_value sem + 1\<rparr>)
     else r = - RT_EFULL \<and> s' = s)"
proof -
  note K = ipc_okD [OF ok]
  note S = K(3) [OF sem, unfolded sem_ok_def]
  note none = sem_not_mutex [OF ok sem]
  consider (wake) "suspend_thread s a \<noteq> []" | (count) "suspend_thread s a = []" "sem_value sem < RT_SEM_VALUE_MAX"
    | (full) "suspend_thread s a = []" "\<not> sem_value sem < RT_SEM_VALUE_MAX" by blast
  then show ?thesis
  proof cases
    case wake
    from wake_one_ok [of "s\<lparr>primask := 1\<rparr>" id code a "primask s"] K(1,2) obtain s' where
      s': "wake_one code a (primask s) id (s\<lparr>primask := 1\<rparr>) = Some s'" "woke a (s\<lparr>primask := 1\<rparr>) s'" by auto
    from release_wakes [OF _ s'(1)] wake obtain s1 where
      s1: "ipc_list_resume code a (s\<lparr>primask := 1\<rparr>) = Some s1" "rt_schedule code (s1\<lparr>primask := primask s\<rparr>) = Some s'" by auto
    have m: "sched.more s' = sched.more s" using s'(2) by (simp add: woke_def)
    have "apart_from None s s'" using woke_apart [OF s'(2), of None] by (simp add: apart_from_def)
    from ipc_ok_apart [OF ok this] same_ipc [OF m] have "ipc_ok s'" by blast
    moreover have "rt_sem_release code a s = Some (RT_EOK, s')"
      using wake S K(5) sem s1 by (simp add: rt_sem_release_def irq_defs)
    ultimately show ?thesis using wake s'(2) same_ipc [OF m] by (auto simp: woke_def)
  next
    case count
    let ?sem = "sem\<lparr>sem_value := sem_value sem + 1\<rparr>"
    let ?s = "set_sem a ?sem s"
    have ap: "apart_from (Some a) s ?s" by (rule apart_same) (use K(1,2) in simp_all)
    have "ipc_ok ?s"
      by (rule ipc_ok_sem [OF ok ap none, where sem = ?sem]) (use S count in \<open>simp_all add: sem_ok_def\<close>)
    moreover have "rt_sem_release code a s = Some (RT_EOK, ?s)"
      using count S K(5) sem by (simp add: rt_sem_release_def irq_defs) (simp add: set_sem_def)
    moreover have "rt_interrupt_nest ?s = rt_interrupt_nest s" by (simp add: set_sem_def)
    ultimately show ?thesis using count by auto
  next
    case full
    then have "rt_sem_release code a s = Some (- RT_EFULL, s)"
      using S K(5) sem by (simp add: rt_sem_release_def irq_defs)
    with ok full show ?thesis by auto
  qed
qed

section \<open>Mutexes\<close>

lemma alive_priority: "thread_ok s \<Longrightarrow> alive s t \<Longrightarrow> unat (priority_of s t) < 32"
  using sched_invD(5) [OF thread_okD(2) [of s], of t] by (auto simp: alive_def priority_of_def)

text \<open>The priority of a thread is changed, and nothing else.\<close>

definition reprioritised :: "nat \<Rightarrow> u8 \<Rightarrow> 'x sched_scheme \<Rightarrow> 'x sched_scheme \<Rightarrow> bool" where
  "reprioritised t p s s' \<longleftrightarrow> thread_ok s' \<and> frame s' s \<and> suspend_thread s' = suspend_thread s \<and>
     rt_current_thread s' = rt_current_thread s \<and> alive s' = alive s \<and> running t s' = running t s \<and>
     priority_of s' = (priority_of s)(t := p) \<and> (\<forall>u. u \<noteq> t \<longrightarrow> threads s' u = threads s u)"

lemma control_ok:
  assumes ok: "thread_ok s" and al: "alive s t" and p: "unat p < 32"
  shows "\<exists>s'. rt_thread_control code t 2 p s = Some (RT_EOK, s') \<and> reprioritised t p s s'"
proof -
  from al obtain th where th: "threads s t = Some th" "state_of th \<noteq> RT_THREAD_INIT" "state_of th \<noteq> RT_THREAD_CLOSE"
    by (auto simp: alive_def)
  from change_priority_ok [OF ok th(1) p th(2)] obtain s' th' where
    s': "change_priority t p s = Some s'" "thread_ok s'" "frame s' s" "suspend_thread s' = suspend_thread s"
      "rt_current_thread s' = rt_current_thread s" "threads s' = (threads s)(t \<mapsto> th')" "current_priority th' = p"
      "state_of th' = state_of th" by blast
  have "alive s' = alive s" using s'(6,8) th by (auto simp: alive_def fun_eq_iff)
  moreover have "running t s' = running t s" using s'(5,6,8) th by (auto simp: running_def)
  moreover have "priority_of s' = (priority_of s)(t := p)" using s'(6,7) by (auto simp: priority_of_def)
  ultimately show ?thesis
    using s' thread_okD(6) [OF ok th(1,3)] by (auto simp: rt_thread_control_def reprioritised_def)
qed

lemma reprioritised_self: "thread_ok s \<Longrightarrow> p = priority_of s t \<Longrightarrow> reprioritised t p s s"
  by (simp add: reprioritised_def)

lemma reprioritised_apart:
  assumes "reprioritised t p s s'" and "rt_current_thread s \<noteq> None"
  shows "apart_from b s s'"
  using assms frameD(3) by (fastforce simp: reprioritised_def apart_from_def)

text \<open>Giving the owner the priority of a better thread.\<close>

lemma mutex_wait_ok:
  assumes ok: "thread_ok s" and run: "running t s" and own: "mx_owner m = Some own" "alive s own" "own \<noteq> t"
    and tick: "0 < time \<longrightarrow> (of_int time :: u32) < TICK_HALF" and flag: "mx_flag m = RT_IPC_FLAG_PRIO"
  shows "\<exists>s2 s3. mutex_wait code a m t time s = Some s2 \<and> rt_schedule code (s2\<lparr>primask := k\<rparr>) = Some s3 \<and>
    apart_from (Some a) s s3 \<and> sched.more s3 = sched.more s \<and>
    set (suspend_thread s3 a) \<subseteq> insert t (set (suspend_thread s a)) \<and> rt_interrupt_nest s3 = rt_interrupt_nest s \<and>
    (rt_current_thread s3 = Some t \<longrightarrow> threads s3 t \<noteq> None) \<and>
    priority_of s3 = (priority_of s)(own := min (priority_of s t) (priority_of s own))"
proof -
  from run obtain th where th: "threads s t = Some th" "rt_current_thread s = Some t" "state_of th = RT_THREAD_RUNNING"
    by (auto simp: running_def)
  then have "alive s t" by (simp add: alive_def)
  from own(2) obtain oth where oth: "threads s own = Some oth" by (auto simp: alive_def)
  have pr: "priority_of s t = current_priority th" "priority_of s own = current_priority oth"
    using th(1) oth by (simp_all add: priority_of_def)
  let ?p = "min (priority_of s t) (priority_of s own)"
  obtain s1 where s1: "(if current_priority th < current_priority oth
       then map_option snd (rt_thread_control code own 2 (current_priority th) s) else Some s) = Some s1"
    "reprioritised own ?p s s1"
  proof (cases "current_priority th < current_priority oth")
    case True
    from control_ok [OF ok own(2) alive_priority [OF ok \<open>alive s t\<close>], of code] obtain s1 where
      "rt_thread_control code own 2 (priority_of s t) s = Some (RT_EOK, s1)" "reprioritised own (priority_of s t) s s1" by blast
    with True show thesis by (intro that [of s1]) (simp_all add: pr min_absorb1)
  next
    case False
    with reprioritised_self [OF ok, of ?p own] show thesis by (intro that [of s]) (simp_all add: pr min_def)
  qed
  have R: "thread_ok s1" "frame s1 s" "suspend_thread s1 = suspend_thread s" "rt_current_thread s1 = Some t"
    "alive s1 = alive s" "priority_of s1 = (priority_of s)(own := ?p)" "threads s1 t = Some th"
    using s1(2) own(3) th by (simp_all add: reprioritised_def)
  have "running t s1" using R(4,7) th(3) by (simp add: running_def)
  from wait_and_schedule [OF R(1) this tick, of "mx_flag m" code a k] flag obtain s2 s3 where
    W: "wait_on code a t (mx_flag m) time s1 = Some s2" "rt_schedule code (s2\<lparr>primask := k\<rparr>) = Some s3"
      "apart_from (Some a) s1 s3" "sched.more s3 = sched.more s1" "set (suspend_thread s3 a) \<subseteq> insert t (set (suspend_thread s1 a))"
      "rt_interrupt_nest s3 = rt_interrupt_nest s1" "rt_current_thread s3 = Some t \<longrightarrow> threads s3 t \<noteq> None"
      "priority_of s3 = priority_of s1" by blast
  have "mutex_wait code a m t time s = Some s2" using s1(1) W(1) th(1) oth own(1) by (simp add: mutex_wait_def)
  moreover have "apart_from (Some a) s s3"
    by (rule apart_from_trans [OF reprioritised_apart [OF s1(2)] W(3)]) (use th(2) in simp)
  ultimately show ?thesis using W R frameD(2,5) [OF R(2)] by auto
qed

text \<open>What a take by the running thread does to the mutex and to the priority of its owner.\<close>

definition taken_by :: "nat \<Rightarrow> u8 \<Rightarrow> rt_mutex \<Rightarrow> rt_mutex" where
  "taken_by t p m = m\<lparr>mx_value := 0, mx_owner := Some t, original_priority := p, mx_hold := 1\<rparr>"

lemma mutex_take_ok:
  assumes ok: "ipc_ok s" and m: "mutexes s a = Some m" and run: "running t s" and nest: "rt_interrupt_nest s = 0"
    and tick: "0 < time \<longrightarrow> (of_int time :: u32) < TICK_HALF"
  shows "\<exists>r s'. rt_mutex_take code a time s = Some (r, s') \<and> ipc_ok s' \<and> rt_interrupt_nest s' = 0 \<and>
    (case mx_owner m of
       None \<Rightarrow> r = Returned RT_EOK \<and> running t s' \<and> mutexes s' = (mutexes s)(a \<mapsto> taken_by t (priority_of s t) m) \<and>
         suspend_thread s' = suspend_thread s \<and> priority_of s' = priority_of s
     | Some own \<Rightarrow>
         if own = t then priority_of s' = priority_of s \<and> running t s' \<and>
           (if mx_hold m < RT_MUTEX_HOLD_MAX then r = Returned RT_EOK \<and> mutexes s' = (mutexes s)(a \<mapsto> m\<lparr>mx_hold := mx_hold m + 1\<rparr>)
            else r = Returned (- RT_EFULL) \<and> mutexes s' = mutexes s)
         else mutexes s' = mutexes s \<and>
           (if time = 0 then r = Returned (- RT_ETIMEOUT) \<and> priority_of s' = priority_of s \<and> running t s'
            else priority_of s' = (priority_of s)(own := min (priority_of s t) (priority_of s own))))"
proof -
  note K = ipc_okD [OF ok]
  note M = K(4) [OF m, unfolded mutex_ok_def]
  note none = mutex_not_sem [OF ok m]
  from run obtain th where th: "threads s t = Some th" "rt_current_thread s = Some t" "state_of th = RT_THREAD_RUNNING"
    by (auto simp: running_def)
  let ?s1 = "clear_error t (s\<lparr>primask := 1\<rparr>)"
  let ?s0 = "clear_error t s"
  have ok1: "thread_ok ?s1" "alive ?s1 = alive s" "thread_ok ?s0" "alive ?s0 = alive s"
    using upd_error [of "s\<lparr>primask := 1\<rparr>" t RT_EOK] upd_error [of s t RT_EOK] K(1) by (simp_all add: clear_error_def)
  have pr: "priority_of ?s1 = priority_of s" "priority_of ?s0 = priority_of s"
    "\<And>e. priority_of (upd_thread t (\<lambda>th. th\<lparr>th_error := e\<rparr>) s) = priority_of s"
    using th(1) by (simp_all add: clear_error_def priority_of_def fun_eq_iff)
  have run1: "running t ?s1" "running t ?s0" "\<And>e. running t (upd_thread t (\<lambda>th. th\<lparr>th_error := e\<rparr>) s)"
    "\<And>x. running t (set_mutex a x ?s0)" using th by (auto simp: running_def clear_error_def)
  have ctx: "in_thread_context s" by (rule running_context [OF run nest])
  have sub: "semaphores ?s0 = semaphores s" "mutexes ?s0 = mutexes s" "objects ?s0 = objects s" "suspend_thread ?s0 = suspend_thread s"
    "rt_current_thread ?s0 = rt_current_thread s" by (simp_all add: clear_error_def)
  have pset: "priority_of (set_mutex a x ?s0) = priority_of s" for x using pr(2) by (simp add: priority_of_def fun_eq_iff)
  have imt: "is_mutex a ?s0 = is_mutex a s" by (simp add: is_mutex_def rt_object_get_type_def sub)
  have prt: "priority_of s t = current_priority th" "unat (current_priority th) < 32" "alive s t"
    using alive_priority [OF K(1), of t] th by (auto simp: priority_of_def alive_def)
  have keep: "ipc_ok (set_mutex a x ?s0)" if "mutex_ok ?s0 a x" for x
  proof (rule ipc_ok_mutex [OF ok _ none])
    show "apart_from (Some a) s (set_mutex a x ?s0)" by (rule apart_same) (use K(2) ok1 in \<open>simp_all add: sub\<close>)
    show "mutex_ok (set_mutex a x ?s0) a x" using that by (simp add: mutex_ok_def cong: option.case_cong)
  qed (simp_all add: sub)
  have nset: "rt_interrupt_nest (set_mutex a x ?s0) = 0" for x using nest by (simp add: set_mutex_def clear_error_def)
  have eqm: "rt_hw_interrupt_enable (primask s) (set_mutex a x ?s1) = set_mutex a x ?s0" for x
    by (simp add: irq_defs set_mutex_def clear_error_def upd_thread_def)
  have step: "rt_mutex_take code a time s = (if mx_owner m = Some t
     then (if mx_hold m < RT_MUTEX_HOLD_MAX then Some (Returned RT_EOK, set_mutex a (m\<lparr>mx_hold := mx_hold m + 1\<rparr>) ?s0)
           else Some (Returned (- RT_EFULL), ?s0))
     else if 0 < mx_value m then
       (if mx_hold m < RT_MUTEX_HOLD_MAX then Some (Returned RT_EOK, set_mutex a (m\<lparr>mx_value := mx_value m - 1, mx_owner := Some t,
            original_priority := current_priority th, mx_hold := mx_hold m + 1\<rparr>) ?s0)
        else Some (Returned (- RT_EFULL), set_mutex a (m\<lparr>mx_value := mx_value m - 1, mx_owner := Some t,
            original_priority := current_priority th\<rparr>) ?s0))
     else if time = 0 then Some (Returned (- RT_ETIMEOUT), upd_thread t (\<lambda>th. th\<lparr>th_error := - RT_ETIMEOUT\<rparr>) s)
     else do {
       s2 \<leftarrow> mutex_wait code a m t time ?s1;
       s3 \<leftarrow> rt_schedule code (s2\<lparr>primask := primask s\<rparr>);
       go_on t (ipc_taken code a t) s3 })"
  proof -
    have s0: "(s\<lparr>primask := 1\<rparr>)\<lparr>primask := primask s\<rparr> = s" by simp
    have eq0: "?s1\<lparr>primask := primask s\<rparr> = ?s0" by (simp add: clear_error_def upd_thread_def)
    have eqe: "(upd_thread t (\<lambda>th. th\<lparr>th_error := - RT_ETIMEOUT\<rparr>) ?s1)\<lparr>primask := primask s\<rparr> =
        upd_thread t (\<lambda>th. th\<lparr>th_error := - RT_ETIMEOUT\<rparr>) s"
      using th(1) by (simp add: clear_error_def upd_thread_def)
    have th1: "threads ?s1 t = Some (th\<lparr>th_error := RT_EOK\<rparr>)" "mutexes ?s1 a = Some m"
      using th m by (simp_all add: clear_error_def)
    have hk: "rt_object_trytake_hook s = None" "rt_object_take_hook (set_mutex a x ?s1) = None"
        "rt_object_take_hook (set_mutex a x ?s0) = None" for x
      using K(5) by (simp_all add: hooks_off_def set_mutex_def clear_error_def upd_thread_def)
    show ?thesis
      using ctx M m th th1 hk eqm eq0 eqe
      by (simp add: rt_mutex_take_def irq_defs rt_thread_self_def sub Let_def)
  qed
  show ?thesis
  proof (cases "mx_owner m")
    case None
    let ?m = "taken_by t (priority_of s t) m"
    from None M have V: "mx_value m = 1" "mx_hold m = 0" "suspend_thread s a = []" by simp_all
    have "ipc_ok (set_mutex a ?m ?s0)"
      by (rule keep) (use M V prt ok1(4) in \<open>simp add: mutex_ok_def taken_by_def sub imt\<close>)
    moreover have "rt_mutex_take code a time s = Some (Returned RT_EOK, set_mutex a ?m ?s0)"
      unfolding step using None V prt(1) by (simp add: taken_by_def)
    ultimately show ?thesis using None run1(4) pset nset by (simp add: sub)
  next
    case (Some own)
    from Some M have V: "mx_value m = 0" "0 < mx_hold m" "alive s own" "unat (original_priority m) < 32"
      "own \<notin> set (suspend_thread s a)" by simp_all
    show ?thesis
    proof (cases "own = t")
      case True
      show ?thesis
      proof (cases "mx_hold m < RT_MUTEX_HOLD_MAX")
        case hold: True
        let ?m = "m\<lparr>mx_hold := mx_hold m + 1\<rparr>"
        have "0 < mx_hold m + 1"
        proof -
          have "unat (mx_hold m + 1) = unat (mx_hold m) + 1" using hold by (simp add: unat_word_ariths(1) word_less_nat_alt)
          then show ?thesis by (simp add: word_less_nat_alt)
        qed
        then have "ipc_ok (set_mutex a ?m ?s0)"
          by (intro keep) (use M V Some True ok1(4) in \<open>simp add: mutex_ok_def sub imt\<close>)
        moreover have "rt_mutex_take code a time s = Some (Returned RT_EOK, set_mutex a ?m ?s0)"
          unfolding step using Some True hold by simp
        ultimately show ?thesis using Some True hold run1(4) pset nset by (simp add: sub)
      next
        case hold: False
        have "ipc_ok ?s0" by (rule ipc_ok_apart [OF ok apart_same]) (use K(2) ok1 in \<open>simp_all add: sub\<close>)
        moreover have "rt_mutex_take code a time s = Some (Returned (- RT_EFULL), ?s0)"
          unfolding step using Some True hold by simp
        moreover have "rt_interrupt_nest ?s0 = 0" using nest by (simp add: clear_error_def)
        ultimately show ?thesis using Some True hold run1(2) pr(2) by (simp add: sub)
      qed
    next
      case other: False
      show ?thesis
      proof (cases "time = 0")
        case True
        let ?s = "upd_thread t (\<lambda>th. th\<lparr>th_error := - RT_ETIMEOUT\<rparr>) s"
        have "ipc_ok ?s" by (rule ipc_ok_apart [OF ok apart_same]) (use K(2) upd_error [OF K(1)] in simp_all)
        moreover have "rt_mutex_take code a time s = Some (Returned (- RT_ETIMEOUT), ?s)"
          unfolding step using Some other V(1) True by simp
        ultimately show ?thesis using Some other True nest pr(3) run1(3) by simp
      next
        case False
        have "alive ?s1 own" using V(3) ok1(2) by simp
        from mutex_wait_ok [where k = "primask s" and a = a and code = code, OF ok1(1) run1(1) Some this other tick] M
        obtain s2 s3 where W: "mutex_wait code a m t time ?s1 = Some s2" "rt_schedule code (s2\<lparr>primask := primask s\<rparr>) = Some s3"
          "apart_from (Some a) ?s1 s3" "sched.more s3 = sched.more ?s1"
          "set (suspend_thread s3 a) \<subseteq> insert t (set (suspend_thread ?s1 a))" "rt_interrupt_nest s3 = rt_interrupt_nest ?s1"
          "rt_current_thread s3 = Some t \<longrightarrow> threads s3 t \<noteq> None"
          "priority_of s3 = (priority_of ?s1)(own := min (priority_of ?s1 t) (priority_of ?s1 own))" by auto
        have more: "sched.more s3 = sched.more s" using W(4) by (simp add: clear_error_def)
        note same = same_ipc [OF more]
        have ap: "apart_from (Some a) s s3" using W(3) ok1(2) by (simp add: apart_from_def clear_error_def)
        have mok: "mutex_ok s3 a m"
        proof -
          have "alive s3 own" "objects s3 = objects s" using ap V(3) by (simp_all add: apart_from_def)
          moreover have "own \<notin> set (suspend_thread s3 a)" using W(5) V(5) other by (auto simp: clear_error_def)
          ultimately show ?thesis using M Some by (simp add: mutex_ok_def is_mutex_def rt_object_get_type_def)
        qed
        have ok3: "ipc_ok s3" by (rule ipc_ok_mutex [OF ok ap none _ _ mok]) (use m same in \<open>simp_all add: fun_upd_idem\<close>)
        from go_on_taken [OF ipc_okD(5) [OF ok3] W(7), of code a] obtain r where
          g: "go_on t (ipc_taken code a t) s3 = Some (r, s3)" by blast
        have "rt_mutex_take code a time s = Some (r, s3)"
          unfolding step using Some other V(1) False W(1,2) g by simp
        moreover have "rt_interrupt_nest s3 = 0" using W(6) nest by (simp add: clear_error_def)
        ultimately show ?thesis using Some other False ok3 same W(8) by (simp add: pr(1))
      qed
    qed
  qed
qed

text \<open>A release by the running thread.\<close>

lemma mutex_release_ok:
  assumes ok: "ipc_ok s" and m: "mutexes s a = Some m" and run: "running t s" and nest: "rt_interrupt_nest s = 0"
  shows "\<exists>r s'. rt_mutex_release code a s = Some (r, s') \<and> ipc_ok s' \<and> rt_interrupt_nest s' = 0 \<and>
    (if mx_owner m \<noteq> Some t then r = - RT_ERROR \<and> mutexes s' = mutexes s \<and> priority_of s' = priority_of s \<and> running t s'
     else r = RT_EOK \<and> (if mx_hold m \<noteq> 1
       then mutexes s' = (mutexes s)(a \<mapsto> m\<lparr>mx_hold := mx_hold m - 1\<rparr>) \<and> priority_of s' = priority_of s \<and> running t s'
       else priority_of s' = (priority_of s)(t := original_priority m) \<and> (case suspend_thread s a of
           [] \<Rightarrow> running t s' \<and> suspend_thread s' = suspend_thread s \<and> mutexes s' = (mutexes s)(a \<mapsto> m\<lparr>mx_value := 1, mx_owner := None, original_priority := 0xFF, mx_hold := 0\<rparr>)
         | u # us \<Rightarrow> mutexes s' = (mutexes s)(a \<mapsto> taken_by u (priority_of s u) m) \<and>
             suspend_thread s' = (suspend_thread s)(a := us))))"
proof -
  note K = ipc_okD [OF ok]
  note M = K(4) [OF m, unfolded mutex_ok_def]
  note none = mutex_not_sem [OF ok m]
  from run obtain th where th: "threads s t = Some th" "rt_current_thread s = Some t" "state_of th = RT_THREAD_RUNNING"
    by (auto simp: running_def)
  then have al: "alive s t" by (simp add: alive_def)
  have ctx: "in_thread_context s" by (rule running_context [OF run nest])
  have hk: "rt_object_put_hook s = None" using K(5) by (simp add: hooks_off_def)
  let ?m = "m\<lparr>mx_hold := mx_hold m - 1\<rparr>"
  let ?s2 = "set_mutex a ?m (s\<lparr>primask := 1\<rparr>)"
  have step: "rt_mutex_release code a s = (if mx_owner m \<noteq> Some t
     then Some (- RT_ERROR, upd_thread t (\<lambda>th. th\<lparr>th_error := - RT_ERROR\<rparr>) s)
     else if mx_hold m = 1 then mutex_hand_over code (primask s) a ?m t ?s2
     else Some (RT_EOK, set_mutex a ?m s))"
    using ctx M m th hk by (simp add: rt_mutex_release_def irq_defs rt_thread_self_def Let_def)
      (simp add: set_mutex_def upd_thread_def)
  consider (foreign) "mx_owner m \<noteq> Some t" | (nested) "mx_owner m = Some t" "mx_hold m \<noteq> 1"
    | (last) "mx_owner m = Some t" "mx_hold m = 1" by blast
  then show ?thesis
  proof cases
    case foreign
    let ?s = "upd_thread t (\<lambda>th. th\<lparr>th_error := - RT_ERROR\<rparr>) s"
    have "ipc_ok ?s" by (rule ipc_ok_apart [OF ok apart_same]) (use K(2) upd_error [OF K(1)] in simp_all)
    moreover have "priority_of ?s = priority_of s" "running t ?s" using th by (auto simp: priority_of_def running_def)
    ultimately show ?thesis using foreign nest step by simp
  next
    case nested
    have "0 < mx_hold m" using nested M by simp
    then have "0 < mx_hold m - 1" using nested(2) by (simp add: word_gt_0)
    then have "mutex_ok s a ?m" using M nested(1) by (simp add: mutex_ok_def)
    then have "mutex_ok (set_mutex a ?m s) a ?m" by (simp add: mutex_ok_def cong: option.case_cong)
    then have "ipc_ok (set_mutex a ?m s)"
      by (intro ipc_ok_mutex [OF ok _ none]) (use K(1,2) in \<open>simp_all add: apart_from_def\<close>)
    moreover have "rt_interrupt_nest (set_mutex a ?m s) = 0" using nest by (simp add: set_mutex_def)
    moreover have "priority_of (set_mutex a ?m s) = priority_of s" "running t (set_mutex a ?m s)"
      using run by (simp_all add: priority_of_def fun_eq_iff running_def)
    ultimately show ?thesis using nested step by simp
  next
    case last
    from last M have V: "mx_value m = 0" "unat (original_priority m) < 32" "t \<notin> set (suspend_thread s a)" by simp_all
    let ?p = "original_priority m"
    have ok2: "thread_ok ?s2" "alive ?s2 t" "threads ?s2 t = Some th" using K(1) al th(1) by simp_all
    have pr2: "priority_of ?s2 = priority_of s" by (simp add: priority_of_def fun_eq_iff)
    obtain s3 where s3: "(if ?p \<noteq> current_priority th then map_option snd (rt_thread_control code t 2 ?p ?s2) else Some ?s2) = Some s3"
      "reprioritised t ?p ?s2 s3"
    proof (cases "?p = current_priority th")
      case True
      with reprioritised_self [OF ok2(1), of ?p t] ok2(3) show thesis by (intro that [of ?s2]) (simp_all add: priority_of_def)
    next
      case False
      from control_ok [OF ok2(1,2) V(2), of code] obtain s3 where
        "rt_thread_control code t 2 ?p ?s2 = Some (RT_EOK, s3)" "reprioritised t ?p ?s2 s3" by blast
      with False show thesis by (intro that [of s3]) simp_all
    qed
    have R: "thread_ok s3" "frame s3 ?s2" "suspend_thread s3 = suspend_thread s" "rt_current_thread s3 = Some t"
      "alive s3 = alive s" "priority_of s3 = (priority_of s)(t := ?p)" "\<And>u. u \<noteq> t \<Longrightarrow> threads s3 u = threads s u"
      "running t s3"
      using s3(2) th(2) pr2 run unfolding reprioritised_def by (simp_all add: running_def)
    have hand: "mutex_hand_over code (primask s) a ?m t ?s2 = (case suspend_thread s a of
       [] \<Rightarrow> Some (RT_EOK, (set_mutex a (?m\<lparr>mx_value := 1, mx_owner := None, original_priority := 0xFF\<rparr>) s3)\<lparr>primask := primask s\<rparr>)
     | u # _ \<Rightarrow> do {
         uth \<leftarrow> threads s3 u;
         s4 \<leftarrow> ipc_list_resume code a (set_mutex a (?m\<lparr>mx_owner := Some u, original_priority := current_priority uth,
           mx_hold := mx_hold ?m + 1\<rparr>) s3);
         map_option (Pair RT_EOK) (rt_schedule code (s4\<lparr>primask := primask s\<rparr>)) })"
    proof -
      define m' where "m' = ?m"
      define s2 where "s2 = set_mutex a m' (s\<lparr>primask := 1\<rparr>)"
      have m': "original_priority m' = ?p" "mx_value m' = 0" and s2: "threads s2 t = Some th"
        using V(1) ok2(3) by (simp_all add: m'_def s2_def)
      have c: "(if ?p \<noteq> current_priority th then map_option snd (rt_thread_control code t 2 ?p s2) else Some s2) = Some s3"
        unfolding s2_def m'_def by (rule s3(1))
      show ?thesis
      proof (cases "?p = current_priority th")
        case True
        with c have "s2 = s3" by simp
        with True m' s2 show ?thesis unfolding m'_def [symmetric] s2_def [symmetric] R(3) [symmetric]
          by (simp add: mutex_hand_over_def irq_defs split: list.split)
      next
        case False
        with c obtain e where "rt_thread_control code t 2 ?p s2 = Some (e, s3)" by auto
        with False m' s2 show ?thesis unfolding m'_def [symmetric] s2_def [symmetric] R(3) [symmetric]
          by (simp add: mutex_hand_over_def irq_defs split: list.split)
      qed
    qed
    note F = frameD [OF R(2)]
    have more: "mutexes s3 = (mutexes s)(a \<mapsto> ?m)" "semaphores s3 = semaphores s"
      using same_ipc [OF F(5)] by simp_all
    show ?thesis
    proof (cases "suspend_thread s a")
      case Nil
      let ?f = "m\<lparr>mx_value := 1, mx_owner := None, original_priority := 0xFF, mx_hold := 0\<rparr>"
      let ?s' = "(set_mutex a ?f s3)\<lparr>primask := primask s\<rparr>"
      have ap: "apart_from (Some a) s ?s'" using R(1,3,4,5) F(3) by (simp add: apart_from_def)
      have "mutex_ok ?s' a ?f" using M Nil R(3) F(3)
        by (simp add: mutex_ok_def is_mutex_def rt_object_get_type_def)
      from ipc_ok_mutex [OF ok ap none _ _ this] more have "ipc_ok ?s'" by simp
      moreover have "rt_mutex_release code a s = Some (RT_EOK, ?s')"
      proof -
        have eq: "?m\<lparr>mx_value := 1, mx_owner := None, original_priority := 0xFF\<rparr> = ?f" using last by (cases m) simp
        show ?thesis unfolding step hand eq using last Nil by simp
      qed
      moreover have "rt_interrupt_nest ?s' = 0" using F(2) nest by (simp add: set_mutex_def)
      moreover have "priority_of ?s' = (priority_of s)(t := ?p)" "running t ?s'"
        using R(4,6,8) by (simp_all add: priority_of_def fun_eq_iff running_def)
      ultimately show ?thesis using last Nil more R(3) by simp
    next
      case (Cons u us)
      have ut: "u \<noteq> t" using V(3) Cons by auto
      from sched_invD(7) [OF thread_okD(2) [OF K(1)], of u a] Cons obtain uth where
        uth: "threads s u = Some uth" "state_of uth = RT_THREAD_SUSPEND" by auto
      have au: "alive s u" using uth by (auto simp: alive_def)
      let ?f = "taken_by u (priority_of s u) m"
      let ?s4 = "set_mutex a ?f s3"
      from wake_one_ok [of ?s4 id code a "primask s"] R(1,4) obtain s' where
        s': "wake_one code a (primask s) id ?s4 = Some s'" "woke a ?s4 s'" "primask s' = primask s" by auto
      from release_wakes [OF _ s'(1)] Cons R(3) obtain s5 where
        s5: "ipc_list_resume code a ?s4 = Some s5" "rt_schedule code (s5\<lparr>primask := primask s\<rparr>) = Some s'" by auto
      have m4: "sched.more s' = sched.more ?s4" using s'(2) by (simp add: woke_def)
      have more': "mutexes s' = (mutexes s)(a \<mapsto> ?f)" "semaphores s' = semaphores s"
        using same_ipc [OF m4] more by simp_all
      have ap: "apart_from (Some a) s s'"
        using woke_apart [OF s'(2), of "Some a"] R(3,5) F(3) by (simp add: apart_from_def)
      have sus: "suspend_thread s' = (suspend_thread s)(a := us)" using s'(2) R(3) Cons by (simp add: woke_def)
      have "u \<notin> set us" using sched_invD(6) [OF thread_okD(2) [OF K(1)], of a] Cons by simp
      then have "mutex_ok s' a ?f"
        using M ap au sus V(1) alive_priority [OF K(1) au]
        by (simp add: mutex_ok_def taken_by_def apart_from_def is_mutex_def rt_object_get_type_def)
      from ipc_ok_mutex [OF ok ap none more' this] have "ipc_ok s'" .
      moreover have "rt_mutex_release code a s = Some (RT_EOK, s')"
      proof -
        have "threads s3 u = Some uth" using R(7) [OF ut] uth(1) by simp
        moreover have "?f = m\<lparr>mx_owner := Some u, original_priority := current_priority uth, mx_hold := 1\<rparr>"
          using V(1) uth(1) by (simp add: taken_by_def priority_of_def)
        ultimately show ?thesis
          unfolding step hand using last Cons s5 by simp
      qed
      moreover have "rt_interrupt_nest s' = 0" using s'(2) F(2) nest by (simp add: woke_def set_mutex_def)
      moreover have "priority_of s' = (priority_of s)(t := ?p)"
        using s'(2) R(6) by (simp add: woke_def) (simp add: priority_of_def fun_eq_iff)
      ultimately show ?thesis using last Cons more' sus by simp
    qed
  qed
qed

end
