(* ===== verification/Ipc_Behaviour.thy ===== *)
theory Ipc_Behaviour
  imports Ipc_Steps Example_System
begin

text \<open>
  What holds for semaphores and mutexes in every state a running system can reach, and what a
  mutex does to priorities.
\<close>

section \<open>Steps of a running system\<close>

text \<open>
  A step is an operation of the kernel that returns in a situation its callers must be in: what may wait
  is called by the running thread outside interrupts, with a time below half the range of the tick.
\<close>

inductive ipc_step :: "'x ipc_scheme scode \<Rightarrow> 'x ipc_scheme \<Rightarrow> 'x ipc_scheme \<Rightarrow> bool" for code where
  sem_init: "objects s a = None \<Longrightarrow> suspend_thread s a = [] \<Longrightarrow> rt_object_attach_hook s = None \<Longrightarrow>
    flag = RT_IPC_FLAG_FIFO \<or> flag = RT_IPC_FLAG_PRIO \<Longrightarrow> rt_sem_init code a name v flag s = Some (r, s') \<Longrightarrow> ipc_step code s s'"
| mutex_init: "objects s a = None \<Longrightarrow> suspend_thread s a = [] \<Longrightarrow> rt_object_attach_hook s = None \<Longrightarrow>
    rt_mutex_init code a name flag s = Some (r, s') \<Longrightarrow> ipc_step code s s'"
| sem_take: "semaphores s a \<noteq> None \<Longrightarrow> may_wait time s \<Longrightarrow> rt_sem_take code a time s = Some (x, s') \<Longrightarrow> ipc_step code s s'"
| sem_release: "semaphores s a \<noteq> None \<Longrightarrow> rt_sem_release code a s = Some (r, s') \<Longrightarrow> ipc_step code s s'"
| mutex_take: "mutexes s a \<noteq> None \<Longrightarrow> running t s \<Longrightarrow> rt_interrupt_nest s = 0 \<Longrightarrow> may_wait time s \<Longrightarrow>
    rt_mutex_take code a time s = Some (x, s') \<Longrightarrow> ipc_step code s s'"
| mutex_release: "mutexes s a \<noteq> None \<Longrightarrow> running t s \<Longrightarrow> rt_interrupt_nest s = 0 \<Longrightarrow>
    rt_mutex_release code a s = Some (r, s') \<Longrightarrow> ipc_step code s s'"
| yield: "rt_thread_yield code s = Some (r, s') \<Longrightarrow> ipc_step code s s'"
| sleep: "running t s \<Longrightarrow> tick < TICK_HALF \<Longrightarrow> rt_thread_sleep code tick s = Some (x, s') \<Longrightarrow> ipc_step code s s'"
| timeout: "threads s t = Some th \<Longrightarrow> state_of th = RT_THREAD_SUSPEND \<Longrightarrow> rt_thread_timeout code t s = Some s' \<Longrightarrow>
    ipc_step code s s'"
| suspend: "threads s t = Some th \<Longrightarrow> state_of th = RT_THREAD_READY \<or> state_of th = RT_THREAD_RUNNING \<Longrightarrow>
    rt_thread_suspend code t s = Some (r, s') \<Longrightarrow> ipc_step code s s'"
| resume: "threads s t = Some th \<Longrightarrow> state_of th = RT_THREAD_SUSPEND \<Longrightarrow> rt_thread_resume code t s = Some (r, s') \<Longrightarrow>
    ipc_step code s s'"
| startup: "threads s t = Some th \<Longrightarrow> state_of th = RT_THREAD_INIT \<Longrightarrow> unat (init_priority th) < 32 \<Longrightarrow>
    rt_thread_startup code t s = Some (r, s') \<Longrightarrow> ipc_step code s s'"
| priority: "alive s t \<Longrightarrow> unat p < 32 \<Longrightarrow> rt_thread_control code t 2 p s = Some (r, s') \<Longrightarrow> ipc_step code s s'"
| interrupt_enter: "rt_interrupt_enter_hook s = None \<Longrightarrow> ipc_step code s (rt_interrupt_enter (s_code code) s)"
| interrupt_leave: "rt_interrupt_leave_hook s = None \<Longrightarrow> ipc_step code s (rt_interrupt_leave (s_code code) s)"

lemma init_ok:
  assumes ok: "ipc_ok s" and new: "objects s a = None" and off: "rt_object_attach_hook s = None"
    and init: "rt_object_init kc a ty name s = Some s1"
  shows "ipc_ok s1" "objects s1 a = Some \<lparr>ob_name = name_field name, ob_type = ty OR RT_Object_Class_Static\<rparr>"
    "suspend_thread s1 = suspend_thread s" "semaphores s1 = semaphores s" "mutexes s1 = mutexes s"
proof -
  note O = object_init_ok [OF ipc_okD(1) [OF ok] new off init]
  from O have m: "sched.more s1 = sched.more s" by simp
  note same = same_ipc [OF m]
  from init off obtain c where s1: "s1 = s\<lparr>objects := (objects s)(a \<mapsto> \<lparr>ob_name = name_field name, ob_type = ty OR RT_Object_Class_Static\<rparr>),
      object_container := (object_container s)(c := a # object_container s c)\<rparr>"
    by (auto simp: rt_object_init_def irq_defs object_link_def split: option.splits if_splits)
  show "objects s1 a = Some \<lparr>ob_name = name_field name, ob_type = ty OR RT_Object_Class_Static\<rparr>" by (simp add: s1)
  show "suspend_thread s1 = suspend_thread s" "semaphores s1 = semaphores s" "mutexes s1 = mutexes s" using O same by simp_all
  have al: "alive s1 = alive s" by (simp add: alive_def fun_eq_iff s1)
  have sus: "suspend_thread s1 = suspend_thread s" using O by simp
  have "is_sem b s1" if "is_sem b s" for b using that new by (auto simp: s1 is_sem_def rt_object_get_type_def)
  then have sem: "sem_ok s1 b x" if "sem_ok s b x" for b x using that sus by (simp add: sem_ok_def)
  have "is_mutex b s1" if "is_mutex b s" for b using that new by (auto simp: s1 is_mutex_def rt_object_get_type_def)
  then have mut: "mutex_ok s1 b x" if "mutex_ok s b x" for b x
    using that unfolding mutex_ok_def sus al by blast
  show "ipc_ok s1" unfolding ipc_ok_def same
    using O ipc_okD(2) [OF ok] sem [OF ipc_okD(3) [OF ok]] mut [OF ipc_okD(4) [OF ok]] by simp
qed

lemma step_ok:
  assumes "ipc_step code s s'" and ok: "ipc_ok s"
  shows "ipc_ok s'"
  using assms(1)
proof cases
  case (sem_init a flag name v r)
  let ?sem = "\<lparr>sem_flag = flag, sem_value = ucast v\<rparr>"
  from sem_init(5) obtain s1 where s1: "rt_object_init (s_code code) a (class_val RT_Object_Class_Semaphore) name s = Some s1"
    "s' = set_sem a ?sem (ipc_object_init a s1)" by (auto simp: rt_sem_init_def split: bind_splits if_splits)
  note I = init_ok [OF ok sem_init(1,3) s1(1)]
  have "ipc_object_init a s1 = s1" using sem_init(2) I(3) by (simp add: ipc_object_init_def fun_upd_idem)
  with s1(2) have s': "s' = set_sem a ?sem s1" by simp
  have "is_sem a s1" using I(2) by (simp add: is_sem_def rt_object_get_type_def)
  then have "sem_ok s' a ?sem" using sem_init(2,4) I(3) by (simp add: sem_ok_def s')
  moreover have "mutexes s1 a = None"
    using ipc_okD(4) [OF ok, of a] I(5) sem_init(1) by (cases "mutexes s a") (auto simp: mutex_ok_def is_mutex_def rt_object_get_type_def)
  ultimately show ?thesis
    by (intro ipc_ok_sem [OF I(1) apart_same, of s' a]) (use ipc_okD(1,2) [OF I(1)] in \<open>simp_all add: s'\<close>)
next
  case (mutex_init a name flag r)
  from mutex_init(4) obtain s1 where s1: "rt_object_init (s_code code) a (class_val RT_Object_Class_Mutex) name s = Some s1"
    "s' = set_mutex a mutex_new (ipc_object_init a s1)" by (auto simp: rt_mutex_init_def split: bind_splits)
  note I = init_ok [OF ok mutex_init(1,3) s1(1)]
  have "ipc_object_init a s1 = s1" using mutex_init(2) I(3) by (simp add: ipc_object_init_def fun_upd_idem)
  with s1(2) have s': "s' = set_mutex a mutex_new s1" by simp
  have "is_mutex a s1" using I(2) by (simp add: is_mutex_def rt_object_get_type_def)
  then have "mutex_ok s' a mutex_new" using mutex_init(2) I(3) by (simp add: mutex_ok_def s' mutex_new_def)
  moreover have "semaphores s1 a = None"
    using ipc_okD(3) [OF ok, of a] I(4) mutex_init(1) by (cases "semaphores s a") (auto simp: sem_ok_def is_sem_def rt_object_get_type_def)
  ultimately show ?thesis
    by (intro ipc_ok_mutex [OF I(1) apart_same, of s' a]) (use ipc_okD(1,2) [OF I(1)] in \<open>simp_all add: s'\<close>)
next
  case (sem_take a time x)
  then obtain sem where "semaphores s a = Some sem" by auto
  from sem_take_ok [OF ok this sem_take(2), of code] sem_take(3) show ?thesis by auto
next
  case (sem_release a r)
  then obtain sem where "semaphores s a = Some sem" by auto
  from sem_release_ok [OF ok this, of code] sem_release(2) show ?thesis by auto
next
  case (mutex_take a t time x)
  then obtain m where "mutexes s a = Some m" by auto
  from mutex_take_ok [OF ok this mutex_take(2,3), of time code] mutex_take(4,5) show ?thesis by (auto simp: may_wait_def)
next
  case (mutex_release a t r)
  then obtain m where "mutexes s a = Some m" by auto
  from mutex_release_ok [OF ok this mutex_release(2,3), of code] mutex_release(4) show ?thesis by auto
next
  case (yield r)
  from ipc_okD(2) [OF ok] obtain c where "rt_current_thread s = Some c" by auto
  from yield_move [OF ipc_okD(1) [OF ok] this, of code] yield ipc_ok_move [OF ok] show ?thesis by auto
next
  case (sleep t tick x)
  then obtain th where "rt_current_thread s = Some t" "threads s t = Some th" "state_of th = RT_THREAD_RUNNING"
    by (auto simp: running_def)
  from sleep_move [OF ipc_okD(1) [OF ok] this sleep(2), of code] sleep(3) ipc_ok_move [OF ok] show ?thesis by auto
next
  case (timeout t th)
  from timeout_move [OF ipc_okD(1) [OF ok] timeout(1,2) ipc_okD(2) [OF ok], of code] timeout(3) ipc_ok_move [OF ok]
  show ?thesis by auto
next
  case (suspend t th r)
  from suspend_move [OF ipc_okD(1) [OF ok] suspend(1,2), of code] suspend(3) ipc_ok_move [OF ok] show ?thesis by auto
next
  case (resume t th r)
  from resume_move [OF ipc_okD(1) [OF ok] resume(1,2), of code] resume(3) ipc_ok_move [OF ok] show ?thesis by auto
next
  case (startup t th r)
  from startup_move [OF ipc_okD(1) [OF ok] startup(1,2,3), of code] startup(4) ipc_ok_move [OF ok] show ?thesis by auto
next
  case (priority t p r)
  from control_ok [OF ipc_okD(1) [OF ok] priority(1,2), of code] priority(3) have R: "reprioritised t p s s'" by auto
  then have "sched.more s' = sched.more s" using frameD(5) by (auto simp: reprioritised_def)
  from same_ipc [OF this] ipc_ok_apart [OF ok reprioritised_apart [OF R ipc_okD(2) [OF ok]]] show ?thesis by blast
next
  case interrupt_enter
  have "thread_ok s' = thread_ok s" unfolding interrupt_enter(1)
    by (rule thread_ok_cong) (simp_all add: rt_interrupt_enter_def irq_defs interrupt_enter(2) hooks_off_def)
  then have "apart_from None s s'"
    using ipc_okD(1,2) [OF ok] interrupt_enter
    by (intro apart_same) (simp_all add: rt_interrupt_enter_def irq_defs alive_def fun_eq_iff)
  from ipc_ok_apart [OF ok this] show ?thesis using interrupt_enter by (simp add: rt_interrupt_enter_def irq_defs)
next
  case interrupt_leave
  have "thread_ok s' = thread_ok s" unfolding interrupt_leave(1)
    by (rule thread_ok_cong) (simp_all add: rt_interrupt_leave_def irq_defs interrupt_leave(2) hooks_off_def)
  then have "apart_from None s s'"
    using ipc_okD(1,2) [OF ok] interrupt_leave
    by (intro apart_same) (simp_all add: rt_interrupt_leave_def irq_defs alive_def fun_eq_iff)
  from ipc_ok_apart [OF ok this] show ?thesis using interrupt_leave by (simp add: rt_interrupt_leave_def irq_defs)
qed

lemma steps_ok: "(ipc_step code)\<^sup>*\<^sup>* s s' \<Longrightarrow> ipc_ok s \<Longrightarrow> ipc_ok s'"
  by (induction rule: rtranclp_induct) (auto intro: step_ok)

section \<open>An example\<close>

text \<open>Thread 100 runs at priority 10 and owns the mutex at 400, which it took at priority 20.\<close>

definition owned_mutex :: rt_mutex where
  "owned_mutex = \<lparr>mx_flag = RT_IPC_FLAG_PRIO, mx_value = 0, original_priority = 20, mx_hold = 1, mx_owner = Some 100\<rparr>"

definition mutex_system :: ipc where
  "mutex_system = example_system (\<lambda>_. None) [400 \<mapsto> owned_mutex, 500 \<mapsto> mutex_new] (\<lambda>_. None) (\<lambda>_. None) (\<lambda>_. None) (\<lambda>_. 0)"

lemma mutex_system_ok: "ipc_ok mutex_system"
  unfolding ipc_ok_def mutex_system_def
  by (auto simp: example_ok mutex_ok_def is_mutex_def rt_object_get_type_def example_kernel_def owned_mutex_def
      mutex_new_def alive_def split: if_splits)

lemma mutex_system_facts:
  "running 100 mutex_system" "rt_interrupt_nest mutex_system = 0" "mutexes mutex_system 400 = Some owned_mutex"
  "mutexes mutex_system 500 = Some mutex_new" "suspend_thread mutex_system = (\<lambda>_. [])" "priority_of mutex_system 100 = 10"
  by (simp_all add: mutex_system_def running_def priority_of_def)

section \<open>Every reachable state\<close>

text \<open>
  Claim C5 (type). The well-formedness of a system of threads, semaphores and mutexes is kept by these steps, in any order:
  the initialisation of a new semaphore or mutex, taking and releasing them, yield, sleep, the timeout of a suspended thread,
  suspending, resuming and starting a thread, changing the priority of a thread that has not ended, and entering and leaving an
  interrupt (with no hooks set, and waiting only where a thread may wait). Threads are neither created nor ended
  by them and objects are not detached, deleted or controlled. In each state so
  reached a semaphore with a count has nobody waiting, a free mutex has no holds and nobody waiting, an owned mutex has
  holds and an owner that has not ended and does not wait for it, and every thread and list of the scheduler is as it
  must be. In such a state taking and releasing a semaphore or, in a running thread outside interrupts, a mutex returns: no
  assertion fails.
\<close>

theorem ipc_invariant:
  assumes "ipc_ok s" and "(ipc_step code)\<^sup>*\<^sup>* s s'"
  shows "ipc_ok s' \<and>
    (\<forall>a sem time. semaphores s' a = Some sem \<longrightarrow> rt_sem_release code a s' \<noteq> None \<and>
       (may_wait time s' \<longrightarrow> rt_sem_take code a time s' \<noteq> None)) \<and>
    (\<forall>a m t time. mutexes s' a = Some m \<longrightarrow> running t s' \<longrightarrow> rt_interrupt_nest s' = 0 \<longrightarrow>
       rt_mutex_release code a s' \<noteq> None \<and> (may_wait time s' \<longrightarrow> rt_mutex_take code a time s' \<noteq> None))"
proof (intro conjI allI impI)
  show ok: "ipc_ok s'" by (rule steps_ok [OF assms(2,1)])
  show "rt_sem_release code a s' \<noteq> None" if "semaphores s' a = Some sem" for a sem
    using sem_release_ok [OF ok that, of code] by auto
  show "rt_sem_take code a time s' \<noteq> None" if "semaphores s' a = Some sem" "may_wait time s'" for a sem time
    using sem_take_ok [OF ok that, of code] by auto
  show "rt_mutex_release code a s' \<noteq> None"
    if "mutexes s' a = Some m" "running t s'" "rt_interrupt_nest s' = 0" for a m t
    using mutex_release_ok [OF ok that, of code] by auto
  show "rt_mutex_take code a time s' \<noteq> None"
    if "mutexes s' a = Some m" "running t s'" "rt_interrupt_nest s' = 0" "may_wait time s'" for a m t time
    using mutex_take_ok [OF ok that(1-3), of time code] that(4) by (auto simp: may_wait_def)
qed

theorem ipc_invariant_witness:
  "\<forall>code. \<exists>r s'. rt_mutex_take code 500 7 mutex_system = Some (r, s') \<and> ipc_ok s'"
proof
  fix code :: "ipc scode"
  have "may_wait 7 mutex_system" using mutex_system_facts(1,2) by (auto simp: may_wait_def)
  with ipc_invariant [OF mutex_system_ok rtranclp.rtrancl_refl, of code] mutex_system_facts(1,2,4) obtain r s' where
    s': "rt_mutex_take code 500 7 mutex_system = Some (r, s')" by fastforce
  have "ipc_step code mutex_system s'"
    by (rule ipc_step.mutex_take [OF _ mutex_system_facts(1,2) \<open>may_wait 7 mutex_system\<close> s']) (simp add: mutex_system_facts)
  then have "(ipc_step code)\<^sup>*\<^sup>* mutex_system s'" by blast
  from ipc_invariant [OF mutex_system_ok this] s' show "\<exists>r s'. rt_mutex_take code 500 7 mutex_system = Some (r, s') \<and> ipc_ok s'" by blast
qed

section \<open>Mutexes and priorities\<close>

text \<open>
  Claim C12 (functional). A take of a mutex that another thread owns makes the owner at least as urgent as the
  taker, and changes no other priority and no mutex. The last release puts the owner's
  priority back to what it was at its take; the first waiting thread becomes the owner with one
  hold and leaves the list, or the mutex becomes free when nobody waits. A thread that does not own
  the mutex cannot release it.
\<close>

theorem mutex_contract:
  assumes "ipc_ok s" and "mutexes s a = Some m" and "running t s" and "rt_interrupt_nest s = 0" and "may_wait time s"
  shows "\<exists>r s1 e s2. rt_mutex_take code a time s = Some (r, s1) \<and> rt_mutex_release code a s = Some (e, s2) \<and>
    (case mx_owner m of
       None \<Rightarrow> r = Returned RT_EOK \<and> mutexes s1 = (mutexes s)(a \<mapsto> taken_by t (priority_of s t) m) \<and> priority_of s1 = priority_of s
     | Some own \<Rightarrow> own \<noteq> t \<longrightarrow> mutexes s1 = mutexes s \<and>
         (if time = 0 then r = Returned (- RT_ETIMEOUT) \<and> priority_of s1 = priority_of s
          else priority_of s1 = (priority_of s)(own := min (priority_of s t) (priority_of s own)))) \<and>
    (if mx_owner m \<noteq> Some t then e = - RT_ERROR \<and> mutexes s2 = mutexes s \<and> priority_of s2 = priority_of s
     else e = RT_EOK \<and> (mx_hold m = 1 \<longrightarrow> priority_of s2 = (priority_of s)(t := original_priority m) \<and>
       (case suspend_thread s a of
          [] \<Rightarrow> mutexes s2 = (mutexes s)(a \<mapsto> m\<lparr>mx_value := 1, mx_owner := None, original_priority := 0xFF, mx_hold := 0\<rparr>)
        | u # us \<Rightarrow> mutexes s2 = (mutexes s)(a \<mapsto> taken_by u (priority_of s u) m) \<and>
            suspend_thread s2 = (suspend_thread s)(a := us))))"
proof -
  from assms(5) have "0 < time \<longrightarrow> (of_int time :: u32) < TICK_HALF" by (auto simp: may_wait_def)
  from mutex_take_ok [OF assms(1-4) this, of code] obtain r s1 where
    T: "rt_mutex_take code a time s = Some (r, s1)" and T1: "(case mx_owner m of
       None \<Rightarrow> r = Returned RT_EOK \<and> mutexes s1 = (mutexes s)(a \<mapsto> taken_by t (priority_of s t) m) \<and> priority_of s1 = priority_of s
     | Some own \<Rightarrow> own \<noteq> t \<longrightarrow> mutexes s1 = mutexes s \<and>
         (if time = 0 then r = Returned (- RT_ETIMEOUT) \<and> priority_of s1 = priority_of s
          else priority_of s1 = (priority_of s)(own := min (priority_of s t) (priority_of s own))))"
    by (cases "mx_owner m") auto
  from mutex_release_ok [OF assms(1-4), of code] obtain e s2 where
    R: "rt_mutex_release code a s = Some (e, s2)" and R1: "(if mx_owner m \<noteq> Some t then e = - RT_ERROR \<and> mutexes s2 = mutexes s \<and> priority_of s2 = priority_of s
     else e = RT_EOK \<and> (mx_hold m = 1 \<longrightarrow> priority_of s2 = (priority_of s)(t := original_priority m) \<and>
       (case suspend_thread s a of
          [] \<Rightarrow> mutexes s2 = (mutexes s)(a \<mapsto> m\<lparr>mx_value := 1, mx_owner := None, original_priority := 0xFF, mx_hold := 0\<rparr>)
        | u # us \<Rightarrow> mutexes s2 = (mutexes s)(a \<mapsto> taken_by u (priority_of s u) m) \<and>
            suspend_thread s2 = (suspend_thread s)(a := us))))"
    by (auto split: if_splits list.splits)
  show ?thesis by (intro exI conjI) (rule T R T1 R1)+
qed

theorem mutex_contract_witness:
  "\<forall>code. \<exists>s1. rt_mutex_release code 400 mutex_system = Some (RT_EOK, s1) \<and> priority_of s1 100 = 20"
proof
  fix code :: "ipc scode"
  have "may_wait 0 mutex_system" by (simp add: may_wait_def)
  from mutex_contract [OF mutex_system_ok mutex_system_facts(3,1,2) this, of code]
  show "\<exists>s1. rt_mutex_release code 400 mutex_system = Some (RT_EOK, s1) \<and> priority_of s1 100 = 20"
    by (auto simp: mutex_system_facts owned_mutex_def)
qed

text \<open>
  Claim C28 (error). A lent priority is not always given back. When a thread that runs with the priority it was
  lent over mutex \<open>a\<close> (by a taker whose wait has timed out) takes a free mutex \<open>b\<close> and then releases
  \<open>a\<close> before \<open>b\<close>, its old priority comes back with the release of \<open>a\<close>, but the release of \<open>b\<close>
  brings back the lent one: the thread keeps it although it owns neither mutex.
\<close>

theorem lent_priority_sticks:
  assumes "ipc_ok s" and "running t s" and "rt_interrupt_nest s = 0" and "suspend_thread s a = []"
    and "mutexes s a = Some m" "mx_owner m = Some t" "mx_hold m = 1" and "mutexes s b = Some n" "mx_owner n = None" and "may_wait time s"
  shows "\<exists>s1 s2 s3. rt_mutex_take code b time s = Some (Returned RT_EOK, s1) \<and>
    rt_mutex_release code a s1 = Some (RT_EOK, s2) \<and> rt_mutex_release code b s2 = Some (RT_EOK, s3) \<and>
    priority_of s2 t = original_priority m \<and> priority_of s3 t = priority_of s t \<and>
    (\<forall>c \<in> {a, b}. map_option mx_owner (mutexes s3 c) = Some None)"
proof -
  from assms(10) have tick: "0 < time \<longrightarrow> (of_int time :: u32) < TICK_HALF" by (auto simp: may_wait_def)
  have ab: "a \<noteq> b" using assms(5,6,8,9) by auto
  let ?n = "taken_by t (priority_of s t) n"
  from mutex_take_ok [OF assms(1,8,2,3) tick, of code] assms(9) obtain s1 where
    s1: "rt_mutex_take code b time s = Some (Returned RT_EOK, s1)" "ipc_ok s1" "rt_interrupt_nest s1 = 0" "running t s1"
      "mutexes s1 = (mutexes s)(b \<mapsto> ?n)" "suspend_thread s1 = suspend_thread s" "priority_of s1 = priority_of s"
    by auto
  have "mutexes s1 a = Some m" using s1(5) ab assms(5) by simp
  from mutex_release_ok [OF s1(2) this s1(4,3), of code] assms(4,6,7) s1(6,7) obtain s2 where
    s2: "rt_mutex_release code a s1 = Some (RT_EOK, s2)" "ipc_ok s2" "rt_interrupt_nest s2 = 0" "running t s2"
      "mutexes s2 = (mutexes s1)(a \<mapsto> m\<lparr>mx_value := 1, mx_owner := None, original_priority := 0xFF, mx_hold := 0\<rparr>)"
      "suspend_thread s2 = suspend_thread s" "priority_of s2 = (priority_of s)(t := original_priority m)"
    by auto
  have n2: "mutexes s2 b = Some ?n" using s2(5) s1(5) ab by simp
  have "suspend_thread s2 b = []"
    using ipc_okD(4) [OF assms(1,8)] assms(9) s2(6) by (simp add: mutex_ok_def)
  with mutex_release_ok [OF s2(2) n2 s2(4,3), of code] obtain s3 where
    s3: "rt_mutex_release code b s2 = Some (RT_EOK, s3)" "priority_of s3 = (priority_of s2)(t := priority_of s t)"
      "mutexes s3 = (mutexes s2)(b \<mapsto> ?n\<lparr>mx_value := 1, mx_owner := None, original_priority := 0xFF, mx_hold := 0\<rparr>)"
    by (auto simp: taken_by_def)
  have "priority_of s2 t = original_priority m" "priority_of s3 t = priority_of s t" using s2(7) s3(2) by simp_all
  moreover have "\<forall>c \<in> {a, b}. map_option mx_owner (mutexes s3 c) = Some None" using s3(3) s2(5) ab by simp
  ultimately show ?thesis using s1(1) s2(1) s3(1) by blast
qed

theorem lent_priority_sticks_witness:
  "\<forall>code. \<exists>s1 s2 s3. rt_mutex_take code 500 0 mutex_system = Some (Returned RT_EOK, s1) \<and>
    rt_mutex_release code 400 s1 = Some (RT_EOK, s2) \<and> rt_mutex_release code 500 s2 = Some (RT_EOK, s3) \<and>
    priority_of s2 100 = 20 \<and> priority_of s3 100 = 10"
proof
  fix code :: "ipc scode"
  have "suspend_thread mutex_system 400 = []" "mx_owner owned_mutex = Some 100" "mx_hold owned_mutex = 1"
    "original_priority owned_mutex = 20" "mx_owner mutex_new = None" "may_wait 0 mutex_system"
    by (simp_all add: mutex_system_facts owned_mutex_def mutex_new_def may_wait_def)
  with lent_priority_sticks [OF mutex_system_ok mutex_system_facts(1,2) this(1) mutex_system_facts(3) this(2,3)
    mutex_system_facts(4) this(5,6), of code] mutex_system_facts(6)
  show "\<exists>s1 s2 s3. rt_mutex_take code 500 0 mutex_system = Some (Returned RT_EOK, s1) \<and>
    rt_mutex_release code 400 s1 = Some (RT_EOK, s2) \<and> rt_mutex_release code 500 s2 = Some (RT_EOK, s3) \<and>
    priority_of s2 100 = 20 \<and> priority_of s3 100 = 10" by auto
qed

end
