(* ===== verification/Kservice.thy ===== *)
theory Kservice
  imports Mem
begin

text \<open>
  The memory and string routines of \<^verbatim>\<open>kservice.c\<close>, in the variant of the configuration
  (neither \<^verbatim>\<open>RT_KSERVICE_USING_TINY_SIZE\<close> nor \<^verbatim>\<open>RT_KSERVICE_USING_STDLIB\<close>). Memory is a byte for
  each address, a \<^verbatim>\<open>long\<close> four bytes, the lowest first. A \<^verbatim>\<open>char\<close> is unsigned, as on the
  processor. A string that is read is ended by a zero byte; a search for it that finds none does not
  return, which is \<open>None\<close>.
\<close>

type_synonym memory = "nat \<Rightarrow> u8"

abbreviation LBLOCKSIZE :: nat where "LBLOCKSIZE \<equiv> 4"
abbreviation BIGBLOCKSIZE :: nat where "BIGBLOCKSIZE \<equiv> 16"

definition load_long :: "nat \<Rightarrow> memory \<Rightarrow> u32" where
  "load_long a m = (ucast (m a) :: u32) OR push_bit 8 (ucast (m (a + 1)) :: u32) OR
     push_bit 16 (ucast (m (a + 2)) :: u32) OR push_bit 24 (ucast (m (a + 3)) :: u32)"

definition store_long :: "nat \<Rightarrow> u32 \<Rightarrow> memory \<Rightarrow> memory" where
  "store_long a w m = m(a := (ucast w :: u8), a + 1 := (ucast (drop_bit 8 w) :: u8),
     a + 2 := (ucast (drop_bit 16 w) :: u8), a + 3 := (ucast (drop_bit 24 w) :: u8))"

section \<open>rt\_memset\<close>

text \<open>\<^verbatim>\<open>while (count--) *m++ = (char)d;\<close>\<close>

fun fill_bytes :: "u8 \<Rightarrow> nat \<Rightarrow> nat \<Rightarrow> memory \<Rightarrow> memory" where
  "fill_bytes d a 0 m = m"
| "fill_bytes d a (Suc n) m = fill_bytes d (a + 1) n (m(a := d))"

text \<open>Loops that store one long or four at a time; the result has the address and the count left.\<close>

fun store_blocks :: "u32 \<Rightarrow> nat \<Rightarrow> nat \<Rightarrow> memory \<Rightarrow> nat \<times> nat \<times> memory" where
  "store_blocks w a n m =
    (if 4 * LBLOCKSIZE \<le> n
     then store_blocks w (a + 16) (n - 4 * LBLOCKSIZE)
       (store_long (a + 12) w (store_long (a + 8) w (store_long (a + 4) w (store_long a w m))))
     else (a, n, m))"

fun store_longs :: "u32 \<Rightarrow> nat \<Rightarrow> nat \<Rightarrow> memory \<Rightarrow> nat \<times> nat \<times> memory" where
  "store_longs w a n m =
    (if LBLOCKSIZE \<le> n then store_longs w (a + 4) (n - LBLOCKSIZE) (store_long a w m) else (a, n, m))"

declare store_blocks.simps [simp del] store_longs.simps [simp del]

text \<open>The byte in all four places of a long.\<close>

definition spread :: "u32 \<Rightarrow> u32" where
  "spread d = (let b = push_bit 8 d OR d in b OR push_bit 16 b)"

definition rt_memset :: "nat \<Rightarrow> u32 \<Rightarrow> u32 \<Rightarrow> memory \<Rightarrow> memory" where
  "rt_memset s c len m =
    (let d = c AND 0xff;
         (a, n, m1) = (if LBLOCKSIZE \<le> unat len \<and> s mod LBLOCKSIZE = 0
           then (let (a1, n1, m1) = store_blocks (spread d) s (unat len) m in store_longs (spread d) a1 n1 m1)
           else (s, unat len, m))
     in fill_bytes (ucast d :: u8) a n m1)"

section \<open>rt\_memcpy, rt\_memmove, rt\_memcmp\<close>

text \<open>\<^verbatim>\<open>while (len--) *dst_ptr++ = *src_ptr++;\<close>\<close>

fun copy_up :: "nat \<Rightarrow> nat \<Rightarrow> nat \<Rightarrow> memory \<Rightarrow> memory" where
  "copy_up 0 dst src m = m"
| "copy_up (Suc n) dst src m = copy_up n (dst + 1) (src + 1) (m(dst := m src))"

text \<open>\<^verbatim>\<open>while (n--) *(--tmp) = *(--s);\<close>\<close>

fun copy_down :: "nat \<Rightarrow> nat \<Rightarrow> nat \<Rightarrow> memory \<Rightarrow> memory" where
  "copy_down 0 dst src m = m"
| "copy_down (Suc n) dst src m = copy_down n (dst - 1) (src - 1) (m(dst - 1 := m (src - 1)))"

text \<open>\<^verbatim>\<open>*aligned_dst++ = *aligned_src++;\<close>\<close>

definition copy_long :: "nat \<Rightarrow> nat \<Rightarrow> memory \<Rightarrow> memory" where
  "copy_long dst src m = store_long dst (load_long src m) m"

text \<open>The results have both addresses and the length left.\<close>

fun copy_blocks :: "nat \<Rightarrow> nat \<Rightarrow> nat \<Rightarrow> memory \<Rightarrow> nat \<times> nat \<times> nat \<times> memory" where
  "copy_blocks n dst src m =
    (if BIGBLOCKSIZE \<le> n
     then copy_blocks (n - BIGBLOCKSIZE) (dst + 16) (src + 16)
       (copy_long (dst + 12) (src + 12) (copy_long (dst + 8) (src + 8)
          (copy_long (dst + 4) (src + 4) (copy_long dst src m))))
     else (n, dst, src, m))"

fun copy_longs :: "nat \<Rightarrow> nat \<Rightarrow> nat \<Rightarrow> memory \<Rightarrow> nat \<times> nat \<times> nat \<times> memory" where
  "copy_longs n dst src m =
    (if LBLOCKSIZE \<le> n then copy_longs (n - LBLOCKSIZE) (dst + 4) (src + 4) (copy_long dst src m)
     else (n, dst, src, m))"

declare copy_blocks.simps [simp del] copy_longs.simps [simp del]

text \<open>
  The code keeps the count in an \<^verbatim>\<open>int\<close> and compares it with unsigned sizes, so it counts as the
  unsigned number.
\<close>

definition rt_memcpy :: "nat \<Rightarrow> nat \<Rightarrow> u32 \<Rightarrow> memory \<Rightarrow> memory" where
  "rt_memcpy dst src len m =
    (let (n, d, s, m1) =
       (if BIGBLOCKSIZE \<le> unat len \<and> src mod LBLOCKSIZE = 0 \<and> dst mod LBLOCKSIZE = 0
        then (let (n1, d1, s1, m1) = copy_blocks (unat len) dst src m in copy_longs n1 d1 s1 m1)
        else (unat len, dst, src, m))
     in copy_up n d s m1)"

definition rt_memmove :: "nat \<Rightarrow> nat \<Rightarrow> u32 \<Rightarrow> memory \<Rightarrow> memory" where
  "rt_memmove dest src n m =
    (if src < dest \<and> dest < src + unat n
     then copy_down (unat n) (dest + unat n) (src + unat n) m
     else copy_up (unat n) dest src m)"

fun memcmp_loop :: "nat \<Rightarrow> nat \<Rightarrow> nat \<Rightarrow> memory \<Rightarrow> int" where
  "memcmp_loop 0 cs ct m = 0"
| "memcmp_loop (Suc n) cs ct m =
    (let res = uint (m cs) - uint (m ct) in if res \<noteq> 0 then res else memcmp_loop n (cs + 1) (ct + 1) m)"

definition rt_memcmp :: "nat \<Rightarrow> nat \<Rightarrow> u32 \<Rightarrow> memory \<Rightarrow> int" where
  "rt_memcmp cs ct len m = memcmp_loop (unat len) cs ct m"

section \<open>Strings\<close>

partial_function (option) str_end :: "nat \<Rightarrow> memory \<Rightarrow> nat option" where
  "str_end sc m = (if m sc \<noteq> 0 then str_end (sc + 1) m else Some sc)"

definition rt_strlen :: "nat \<Rightarrow> memory \<Rightarrow> nat option" where
  "rt_strlen s m = map_option (\<lambda>sc. sc - s) (str_end s m)"

fun strnlen_loop :: "nat \<Rightarrow> nat \<Rightarrow> memory \<Rightarrow> nat" where
  "strnlen_loop 0 sc m = sc"
| "strnlen_loop (Suc n) sc m = (if m sc \<noteq> 0 then strnlen_loop n (sc + 1) m else sc)"

definition rt_strnlen :: "nat \<Rightarrow> u32 \<Rightarrow> memory \<Rightarrow> nat" where
  "rt_strnlen s maxlen m = strnlen_loop (unat maxlen) s m - s"

text \<open>\<open>l2\<close> is not zero, so \<open>l1\<close> does not fall below zero.\<close>

fun strstr_loop :: "nat \<Rightarrow> nat \<Rightarrow> nat \<Rightarrow> nat \<Rightarrow> memory \<Rightarrow> nat option" where
  "strstr_loop l2 0 s1 s2 m = None"
| "strstr_loop l2 (Suc l1) s1 s2 m =
    (if l2 \<le> Suc l1
     then if memcmp_loop l2 s1 s2 m = 0 then Some s1 else strstr_loop l2 l1 (s1 + 1) s2 m
     else None)"

definition rt_strstr :: "nat \<Rightarrow> nat \<Rightarrow> memory \<Rightarrow> nat option option" where
  "rt_strstr s1 s2 m = do {
     l2 \<leftarrow> rt_strlen s2 m;
     if l2 = 0 then Some (Some s1)
     else do { l1 \<leftarrow> rt_strlen s1 m; Some (strstr_loop l2 l1 s1 s2 m) } }"

definition lower :: "int \<Rightarrow> int" where
  "lower c = (if 65 \<le> c \<and> c \<le> 90 then c + (97 - 65) else c)"

partial_function (option) rt_strcasecmp :: "nat \<Rightarrow> nat \<Rightarrow> memory \<Rightarrow> int option" where
  "rt_strcasecmp a b m =
    (let ca = lower (uint (m a)); cb = lower (uint (m b))
     in if ca = cb \<and> ca \<noteq> 0 then rt_strcasecmp (a + 1) (b + 1) m else Some (ca - cb))"

partial_function (option) rt_strcmp :: "nat \<Rightarrow> nat \<Rightarrow> memory \<Rightarrow> int option" where
  "rt_strcmp cs ct m =
    (if m cs \<noteq> 0 \<and> m cs = m ct then rt_strcmp (cs + 1) (ct + 1) m else Some (uint (m cs) - uint (m ct)))"

text \<open>The difference is kept in a \<^verbatim>\<open>signed char\<close>.\<close>

fun strncmp_loop :: "nat \<Rightarrow> nat \<Rightarrow> nat \<Rightarrow> int \<Rightarrow> memory \<Rightarrow> int" where
  "strncmp_loop 0 cs ct res m = res"
| "strncmp_loop (Suc n) cs ct res m =
    (let res' = sint (m cs - m ct)
     in if res' \<noteq> 0 \<or> m cs = 0 then res' else strncmp_loop n (cs + 1) (ct + 1) res' m)"

definition rt_strncmp :: "nat \<Rightarrow> nat \<Rightarrow> u32 \<Rightarrow> memory \<Rightarrow> int" where
  "rt_strncmp cs ct len m = strncmp_loop (unat len) cs ct 0 m"

text \<open>At the end of the source the rest is filled with zeros.\<close>

fun strncpy_loop :: "nat \<Rightarrow> nat \<Rightarrow> nat \<Rightarrow> memory \<Rightarrow> memory" where
  "strncpy_loop 0 d s m = m"
| "strncpy_loop (Suc n) d s m =
    (let m1 = m(d := m s)
     in if m1 d = 0 then fill_bytes 0 (d + 1) n m1 else strncpy_loop n (d + 1) (s + 1) m1)"

definition rt_strncpy :: "nat \<Rightarrow> nat \<Rightarrow> u32 \<Rightarrow> memory \<Rightarrow> memory" where
  "rt_strncpy dst src n m = strncpy_loop (unat n) dst src m"

section \<open>Strings and aligned blocks from the heap\<close>

definition rt_strdup :: "nat \<Rightarrow> 'x heap_scheme heap_code \<Rightarrow> nat \<Rightarrow> 'x heap_scheme \<Rightarrow>
    (nat option \<times> 'x heap_scheme) option" where
  "rt_strdup fuel code s h = do {
     n \<leftarrow> rt_strlen s (heap_bytes h);
     let len = (of_nat (n + 1) :: u32);
     (tmp, h1) \<leftarrow> rt_malloc fuel code len h;
     (case tmp of
        None \<Rightarrow> Some (None, h1)
      | Some p \<Rightarrow> Some (Some p, h1\<lparr>heap_bytes := rt_memcpy p s len (heap_bytes h1)\<rparr>)) }"

text \<open>The address of the block is kept in the word before the aligned address.\<close>

definition rt_malloc_align :: "nat \<Rightarrow> 'x heap_scheme heap_code \<Rightarrow> u32 \<Rightarrow> u32 \<Rightarrow> 'x heap_scheme \<Rightarrow>
    (u32 option \<times> 'x heap_scheme) option" where
  "rt_malloc_align fuel code sz align0 h = do {
     let align = (align0 + 3) AND NOT 3;
     let align_size = ((sz + 3) AND NOT 3) + align;
     (r, h1) \<leftarrow> rt_malloc fuel code align_size h;
     (case r of
        None \<Rightarrow> Some (None, h1)
      | Some p \<Rightarrow>
          let ptr = (of_nat p :: u32);
              align_ptr = (if ptr AND (align - 1) = 0 then ptr + align
                           else (ptr + (align - 1)) AND NOT (align - 1))
          in Some (Some align_ptr, h1\<lparr>heap_bytes := store_long (unat (align_ptr - 4)) ptr (heap_bytes h1)\<rparr>)) }"

definition rt_free_align :: "'x heap_scheme heap_code \<Rightarrow> u32 \<Rightarrow> 'x heap_scheme \<Rightarrow> 'x heap_scheme option" where
  "rt_free_align code ptr h =
    (let real = load_long (unat (ptr - 4)) (heap_bytes h)
     in rt_free code (if real = 0 then None else Some (unat real)) h)"

end
