(* ===== verification/Kprintf.thy ===== *)
theory Kprintf
  imports Kservice
begin

text \<open>
  Formatted output of \<^verbatim>\<open>kservice.c\<close>: \<^verbatim>\<open>rt_vsnprintf\<close> and what rests on it, with
  \<^verbatim>\<open>RT_PRINTF_PRECISION\<close> and without \<^verbatim>\<open>RT_PRINTF_LONGLONG\<close> and \<^verbatim>\<open>RT_PRINTF_SPECIAL\<close>.

  The format is a list of characters; behind its end \<^verbatim>\<open>*fmt\<close> is zero. The arguments are words; that
  of \<^verbatim>\<open>%s\<close> is an address in the memory into which the output goes. \<^verbatim>\<open>int\<close> values are integers: where
  the code would overflow one (a width of more than 31 bits), C leaves the result open. \<open>None\<close> is a
  missing argument or a string without an end.
\<close>

definition chars :: "string \<Rightarrow> u8 list" where "chars = map of_char"

abbreviation ch :: "char \<Rightarrow> u8" where "ch \<equiv> of_char"

text \<open>The place of the next character, and memory.\<close>

type_synonym out = "nat \<times> memory"

abbreviation ZEROPAD :: u8 where "ZEROPAD \<equiv> 1"
abbreviation SIGN :: u8 where "SIGN \<equiv> 2"
abbreviation PLUS :: u8 where "PLUS \<equiv> 4"
abbreviation SPACE :: u8 where "SPACE \<equiv> 8"
abbreviation LEFT :: u8 where "LEFT \<equiv> 16"
abbreviation SPECIAL :: u8 where "SPECIAL \<equiv> 32"
abbreviation LARGE :: u8 where "LARGE \<equiv> 64"

abbreviation flagged :: "u8 \<Rightarrow> u8 \<Rightarrow> bool" where "flagged ty m \<equiv> ty AND m \<noteq> 0"

section \<open>Characters\<close>

text \<open>\<^verbatim>\<open>if (buf < end) *buf = c; ++buf;\<close>\<close>

definition put_char :: "nat \<Rightarrow> u8 \<Rightarrow> out \<Rightarrow> out" where
  "put_char e c b = (fst b + 1, if fst b < e then (snd b)(fst b := c) else snd b)"

text \<open>\<^verbatim>\<open>while (lo < n--)\<close> with one character each: \<open>n\<close> afterwards, and the output.\<close>

function pad_to :: "nat \<Rightarrow> u8 \<Rightarrow> int \<Rightarrow> int \<Rightarrow> out \<Rightarrow> int \<times> out" where
  "pad_to e c lo n b = (if lo < n then pad_to e c lo (n - 1) (put_char e c b) else (n - 1, b))"
  by pat_completeness auto
termination by (relation "measure (\<lambda>(e, c, lo, n, b). nat (n - lo))") auto

text \<open>\<^verbatim>\<open>while (--n > 0)\<close>\<close>

function pad_pre :: "nat \<Rightarrow> u8 \<Rightarrow> int \<Rightarrow> out \<Rightarrow> int \<times> out" where
  "pad_pre e c n b = (if 0 < n - 1 then pad_pre e c (n - 1) (put_char e c b) else (n - 1, b))"
  by pat_completeness auto
termination by (relation "measure (\<lambda>(e, c, n, b). nat n)") auto

declare pad_to.simps [simp del] pad_pre.simps [simp del]

fun put_all :: "nat \<Rightarrow> u8 list \<Rightarrow> out \<Rightarrow> out" where
  "put_all e [] b = b"
| "put_all e (c # cs) b = put_all e cs (put_char e c b)"

section \<open>Numbers\<close>

text \<open>Only base 10 is told from the others.\<close>

definition divide :: "nat \<Rightarrow> nat \<Rightarrow> nat \<times> nat" where
  "divide n base = (if base = 10 then (n mod 10, n div 10) else (n mod 16, n div 16))"

definition small_digits :: "u8 list" where "small_digits = chars ''0123456789abcdef''"
definition large_digits :: "u8 list" where "large_digits = chars ''0123456789ABCDEF''"

text \<open>\<^verbatim>\<open>while (num != 0) tmp[i++] = digits[divide(&num, base)];\<close> the last digit comes first.\<close>

function number_digits :: "u8 list \<Rightarrow> nat \<Rightarrow> nat \<Rightarrow> u8 list" where
  "number_digits ds base n = (if n = 0 then []
     else ds ! fst (divide n base) # number_digits ds base (snd (divide n base)))"
  by pat_completeness auto
termination by (relation "measure (\<lambda>(ds, base, n). n)") (auto simp: divide_def)

declare number_digits.simps [simp del]

text \<open>The character of the sign, 0 if there is none.\<close>

definition sign_of :: "u8 \<Rightarrow> u32 \<Rightarrow> u8" where
  "sign_of type num =
    (if flagged type SIGN
     then if sint num < 0 then ch CHR ''-'' else if flagged type PLUS then ch CHR ''+''
          else if flagged type SPACE then ch CHR '' '' else 0
     else 0)"

definition tmp_of :: "u8 \<Rightarrow> nat \<Rightarrow> u32 \<Rightarrow> u8 list" where
  "tmp_of type base num =
    (let n = (if flagged type SIGN \<and> sint num < 0 then - num else num);
         digits = (if flagged type LARGE then large_digits else small_digits)
     in if n = 0 then [ch CHR ''0''] else number_digits digits base (unat n))"

definition print_number :: "nat \<Rightarrow> u32 \<Rightarrow> nat \<Rightarrow> int \<Rightarrow> int \<Rightarrow> u8 \<Rightarrow> out \<Rightarrow> out" where
  "print_number e num base s precision0 type0 b =
    (let type = (if flagged type0 LEFT then type0 AND NOT ZEROPAD else type0);
         c = (if flagged type ZEROPAD then ch CHR ''0'' else ch CHR '' '');
         sign = sign_of type num;
         tmp = tmp_of type base num;
         i = int (length tmp);
         precision = (if precision0 < i then i else precision0);
         size = s - precision;
         (size1, b1) = (if \<not> flagged type (ZEROPAD OR LEFT)
           then pad_to e (ch CHR '' '') 0 (if sign \<noteq> 0 \<and> 0 < size then size - 1 else size) b
           else (size, b));
         (size2, b2) = (if sign \<noteq> 0 then (size1 - 1, put_char e sign b1) else (size1, b1));
         (size3, b3) = (if \<not> flagged type LEFT then pad_to e c 0 size2 b2 else (size2, b2));
         (_, b4) = pad_to e (ch CHR ''0'') i precision b3;
         b5 = (if precision0 \<noteq> 0 then put_all e (rev tmp) b4 else b4);
         (_, b6) = pad_to e (ch CHR '' '') 0 size3 b5
     in b6)"

section \<open>Reading the format\<close>

definition peek :: "u8 list \<Rightarrow> u8" where "peek fmt = (case fmt of [] \<Rightarrow> 0 | c # _ \<Rightarrow> c)"

definition ISDIGIT :: "u8 \<Rightarrow> bool" where "ISDIGIT c \<longleftrightarrow> (ucast c :: u32) - 48 < 10"

fun skip_atoi :: "int \<Rightarrow> u8 list \<Rightarrow> int \<times> u8 list" where
  "skip_atoi i [] = (i, [])"
| "skip_atoi i (c # cs) = (if ISDIGIT c then skip_atoi (i * 10 + uint c - 48) cs else (i, c # cs))"

fun parse_flags :: "u8 \<Rightarrow> u8 list \<Rightarrow> u8 \<times> u8 list" where
  "parse_flags flags [] = (flags, [])"
| "parse_flags flags (c # cs) =
    (if c = ch CHR ''-'' then parse_flags (flags OR LEFT) cs
     else if c = ch CHR ''+'' then parse_flags (flags OR PLUS) cs
     else if c = ch CHR '' '' then parse_flags (flags OR SPACE) cs
     else if c = ch CHR ''#'' then parse_flags (flags OR SPECIAL) cs
     else if c = ch CHR ''0'' then parse_flags (flags OR ZEROPAD) cs
     else (flags, c # cs))"

text \<open>\<^verbatim>\<open>va_arg\<close>\<close>

definition next_arg :: "u32 list \<Rightarrow> (u32 \<times> u32 list) option" where
  "next_arg args = (case args of [] \<Rightarrow> None | a # as \<Rightarrow> Some (a, as))"

definition parse_width :: "u8 \<Rightarrow> u8 list \<Rightarrow> u32 list \<Rightarrow> (u8 \<times> int \<times> u8 list \<times> u32 list) option" where
  "parse_width flags fmt args =
    (if ISDIGIT (peek fmt) then (let (w, fmt1) = skip_atoi 0 fmt in Some (flags, w, fmt1, args))
     else if peek fmt = ch CHR ''*'' then do {
       (a, args1) \<leftarrow> next_arg args;
       Some (if sint a < 0 then (flags OR LEFT, - sint a, tl fmt, args1) else (flags, sint a, tl fmt, args1)) }
     else Some (flags, - 1, fmt, args))"

definition parse_precision :: "u8 list \<Rightarrow> u32 list \<Rightarrow> (int \<times> u8 list \<times> u32 list) option" where
  "parse_precision fmt args =
    (if peek fmt = ch CHR ''.''
     then do {
       (p, fmt1, args1) \<leftarrow> (let fmt0 = tl fmt
         in if ISDIGIT (peek fmt0) then (let (p, fmt1) = skip_atoi 0 fmt0 in Some (p, fmt1, args))
            else if peek fmt0 = ch CHR ''*''
            then do { (a, args1) \<leftarrow> next_arg args; Some (sint a, tl fmt0, args1) }
            else Some (- 1, fmt0, args));
       Some (if p < 0 then 0 else p, fmt1, args1) }
     else Some (- 1, fmt, args))"

definition parse_qualifier :: "u8 list \<Rightarrow> u8 \<times> u8 list" where
  "parse_qualifier fmt =
    (if peek fmt = ch CHR ''h'' \<or> peek fmt = ch CHR ''l'' then (peek fmt, tl fmt) else (0, fmt))"

section \<open>Conversions\<close>

definition print_char :: "nat \<Rightarrow> u8 \<Rightarrow> int \<Rightarrow> u32 \<Rightarrow> out \<Rightarrow> out" where
  "print_char e flags width a b =
    (let (width1, b1) = (if \<not> flagged flags LEFT then pad_pre e (ch CHR '' '') width b else (width, b));
         b2 = put_char e (ucast a) b1
     in snd (pad_pre e (ch CHR '' '') width1 b2))"

text \<open>The characters at an address; the null pointer stands for \<^verbatim>\<open>"(NULL)"\<close>.\<close>

definition str_byte :: "u32 \<Rightarrow> nat \<Rightarrow> memory \<Rightarrow> u8" where
  "str_byte s i m = (if s = 0 then (let t = chars ''(NULL)'' in if i < length t then t ! i else 0)
     else m (unat s + i))"

text \<open>\<^verbatim>\<open>for (len = 0; (len != field_width) && (s[len] != '\0'); len++);\<close>\<close>

partial_function (option) field_len :: "u32 \<Rightarrow> int \<Rightarrow> nat \<Rightarrow> memory \<Rightarrow> nat option" where
  "field_len s width len m =
    (if int len \<noteq> width \<and> str_byte s len m \<noteq> 0 then field_len s width (len + 1) m else Some len)"

text \<open>\<^verbatim>\<open>for (i = 0; i < len; ++i)\<close> from \<open>i\<close> on, \<open>n\<close> characters.\<close>

fun put_string :: "nat \<Rightarrow> u32 \<Rightarrow> nat \<Rightarrow> nat \<Rightarrow> out \<Rightarrow> out" where
  "put_string e s i 0 b = b"
| "put_string e s i (Suc n) b = put_string e s (i + 1) n (put_char e (str_byte s i (snd b)) b)"

definition print_string :: "nat \<Rightarrow> u8 \<Rightarrow> int \<Rightarrow> int \<Rightarrow> u32 \<Rightarrow> out \<Rightarrow> out option" where
  "print_string e flags width precision s b = do {
     len0 \<leftarrow> field_len s width 0 (snd b);
     let len = (if 0 < precision \<and> precision < int len0 then nat precision else len0);
     let (width1, b1) = (if \<not> flagged flags LEFT then pad_to e (ch CHR '' '') (int len) width b else (width, b));
     let b2 = put_string e s 0 len b1;
     Some (snd (pad_to e (ch CHR '' '') (int len) width1 b2)) }"

text \<open>The number that an argument stands for.\<close>

definition number_arg :: "u8 \<Rightarrow> u8 \<Rightarrow> u32 \<Rightarrow> u32" where
  "number_arg qualifier flags a =
    (if qualifier = ch CHR ''h''
     then (let num = ucast a :: u16 in if flagged flags SIGN then scast num else ucast num)
     else a)"

definition print_integer :: "nat \<Rightarrow> nat \<Rightarrow> u8 \<Rightarrow> int \<Rightarrow> int \<Rightarrow> u8 \<Rightarrow> u32 list \<Rightarrow> out \<Rightarrow>
    (u32 list \<times> out) option" where
  "print_integer e base flags width precision qualifier args b = do {
     (a, args1) \<leftarrow> next_arg args;
     Some (args1, print_number e (number_arg qualifier flags a) base width precision flags b) }"

text \<open>The \<^verbatim>\<open>switch\<close>: the format behind the directive, the arguments left, the output.\<close>

definition conversion :: "nat \<Rightarrow> u8 \<Rightarrow> int \<Rightarrow> int \<Rightarrow> u8 \<Rightarrow> u8 list \<Rightarrow> u32 list \<Rightarrow> out \<Rightarrow>
    (u8 list \<times> u32 list \<times> out) option" where
  "conversion e flags width precision qualifier fmt args b =
    (let c = peek fmt;
         number = (\<lambda>base flags. map_option (Pair (tl fmt))
           (print_integer e base flags width precision qualifier args b))
     in if c = ch CHR ''c'' then do {
          (a, args1) \<leftarrow> next_arg args; Some (tl fmt, args1, print_char e flags width a b) }
        else if c = ch CHR ''s'' then do {
          (a, args1) \<leftarrow> next_arg args;
          b1 \<leftarrow> print_string e flags width precision a b;
          Some (tl fmt, args1, b1) }
        else if c = ch CHR ''p'' then do {
          (a, args1) \<leftarrow> next_arg args;
          let (width1, flags1) = (if width = - 1 then (8, flags OR ZEROPAD) else (width, flags));
          Some (tl fmt, args1, print_number e a 16 width1 precision flags1 b) }
        else if c = ch CHR ''%'' then Some (tl fmt, args, put_char e c b)
        else if c = ch CHR ''o'' then number 8 flags
        else if c = ch CHR ''X'' then number 16 (flags OR LARGE)
        else if c = ch CHR ''x'' then number 16 flags
        else if c = ch CHR ''d'' \<or> c = ch CHR ''i'' then number 10 (flags OR SIGN)
        else if c = ch CHR ''u'' then number 10 flags
        else let b1 = put_char e (ch CHR ''%'') b
             in Some (if c \<noteq> 0 then (tl fmt, args, put_char e c b1) else (fmt, args, b1)))"

text \<open>A directive, from behind its \<^verbatim>\<open>%\<close> on.\<close>

definition directive :: "nat \<Rightarrow> u8 list \<Rightarrow> u32 list \<Rightarrow> out \<Rightarrow> (u8 list \<times> u32 list \<times> out) option" where
  "directive e fmt args b = do {
     let (flags0, fmt1) = parse_flags 0 fmt;
     (flags, width, fmt2, args1) \<leftarrow> parse_width flags0 fmt1 args;
     (precision, fmt3, args2) \<leftarrow> parse_precision fmt2 args1;
     let (qualifier, fmt4) = parse_qualifier fmt3;
     conversion e flags width precision qualifier fmt4 args2 b }"

lemma parse_flags_length: "parse_flags fl fmt = (fl', fmt') \<Longrightarrow> length fmt' \<le> length fmt"
  by (induction fl fmt rule: parse_flags.induct) (auto split: if_splits)

lemma skip_atoi_length: "skip_atoi i fmt = (k, fmt') \<Longrightarrow> length fmt' \<le> length fmt"
  by (induction i fmt rule: skip_atoi.induct) (auto split: if_splits)

lemma parse_width_length: "parse_width fl fmt args = Some (fl', w, fmt', args') \<Longrightarrow> length fmt' \<le> length fmt"
  by (auto simp: parse_width_def skip_atoi_length bind_eq_Some_conv split: if_splits prod.splits)

lemma parse_precision_length: "parse_precision fmt args = Some (p, fmt', args') \<Longrightarrow> length fmt' \<le> length fmt"
  by (auto simp: parse_precision_def Let_def bind_eq_Some_conv split: if_splits prod.splits
    dest!: skip_atoi_length)

lemma parse_qualifier_length: "parse_qualifier fmt = (q, fmt') \<Longrightarrow> length fmt' \<le> length fmt"
  by (auto simp: parse_qualifier_def split: if_splits)

lemma conversion_length:
  "conversion e flags width precision q fmt args b = Some (fmt', args', b') \<Longrightarrow> length fmt' \<le> length fmt"
  by (auto simp: conversion_def Let_def bind_eq_Some_conv split: if_splits prod.splits)

lemma directive_length:
  assumes "directive e fmt args b = Some (fmt', args', b')"
  shows "length fmt' \<le> length fmt"
proof -
  obtain fl fmt1 where 1: "parse_flags 0 fmt = (fl, fmt1)" by (cases "parse_flags 0 fmt")
  from assms 1 obtain fl2 w fmt2 args1 p fmt3 args2 where
    2: "parse_width fl fmt1 args = Some (fl2, w, fmt2, args1)"
      "parse_precision fmt2 args1 = Some (p, fmt3, args2)"
    by (auto simp: directive_def bind_eq_Some_conv)
  obtain q fmt4 where 3: "parse_qualifier fmt3 = (q, fmt4)" by (cases "parse_qualifier fmt3")
  from assms 1 2 3 have "conversion e fl2 w p q fmt4 args2 b = Some (fmt', args', b')" by (simp add: directive_def)
  with parse_flags_length [OF 1] parse_width_length [OF 2(1)] parse_precision_length [OF 2(2)]
    parse_qualifier_length [OF 3] conversion_length show ?thesis by fastforce
qed

section \<open>rt\_vsnprintf and its users\<close>

lemma peek_nonempty: "peek fmt \<noteq> 0 \<Longrightarrow> fmt \<noteq> []"
  by (auto simp: peek_def)

function format_loop :: "nat \<Rightarrow> u8 list \<Rightarrow> u32 list \<Rightarrow> out \<Rightarrow> out option" where
  "format_loop e fmt args b =
    (if peek fmt = 0 then Some b
     else if peek fmt \<noteq> ch CHR ''%'' then format_loop e (tl fmt) args (put_char e (peek fmt) b)
     else (case directive e (tl fmt) args b of
             None \<Rightarrow> None
           | Some (fmt', args', b') \<Rightarrow> format_loop e fmt' args' b'))"
  by pat_completeness auto
termination
proof (relation "measure (\<lambda>(e, fmt, args, b). length fmt)", goal_cases)
  case (2 e fmt args b)
  then show ?case by (auto dest!: peek_nonempty)
next
  case (3 e fmt args b r fmt' p args')
  then have "length fmt' \<le> length fmt - 1" by (auto dest!: directive_length)
  with peek_nonempty [OF 3(1)] show ?case by (cases fmt) auto
qed simp

declare format_loop.simps [simp del]

text \<open>\<^verbatim>\<open>end\<close>: where the buffer ends, at most at the last address.\<close>

definition buffer_end :: "nat \<Rightarrow> u32 \<Rightarrow> nat" where
  "buffer_end buf sz = (let e = (buf + unat sz) mod 2 ^ 32 in if e < buf then 2 ^ 32 - 1 else e)"

definition rt_vsnprintf :: "nat \<Rightarrow> u32 \<Rightarrow> u8 list \<Rightarrow> u32 list \<Rightarrow> memory \<Rightarrow> (nat \<times> memory) option" where
  "rt_vsnprintf buf sz fmt args m = do {
     let e = buffer_end buf sz;
     (str, m1) \<leftarrow> format_loop e fmt args (buf, m);
     Some (str - buf, if 0 < e - buf then if str < e then m1(str := 0) else m1(e - 1 := 0) else m1) }"

definition rt_snprintf :: "nat \<Rightarrow> u32 \<Rightarrow> u8 list \<Rightarrow> u32 list \<Rightarrow> memory \<Rightarrow> (nat \<times> memory) option" where
  "rt_snprintf buf sz fmt args m = rt_vsnprintf buf sz fmt args m"

definition rt_vsprintf :: "nat \<Rightarrow> u8 list \<Rightarrow> u32 list \<Rightarrow> memory \<Rightarrow> (nat \<times> memory) option" where
  "rt_vsprintf buf fmt args m = rt_vsnprintf buf (- 1) fmt args m"

definition rt_sprintf :: "nat \<Rightarrow> u8 list \<Rightarrow> u32 list \<Rightarrow> memory \<Rightarrow> (nat \<times> memory) option" where
  "rt_sprintf buf fmt args m = rt_vsprintf buf fmt args m"

text \<open>What the console is called for: a string, or a device with an address and a length.\<close>

datatype console_call = CONSOLE_OUTPUT nat | DEVICE_WRITE nat nat nat

abbreviation RT_CONSOLEBUF_SIZE :: nat where "RT_CONSOLEBUF_SIZE \<equiv> 256"

definition rt_kputs :: "nat option \<Rightarrow> nat option \<Rightarrow> memory \<Rightarrow> console_call list option" where
  "rt_kputs console str m = (case str of
     None \<Rightarrow> Some []
   | Some s \<Rightarrow> (case console of
       None \<Rightarrow> Some [CONSOLE_OUTPUT s]
     | Some dev \<Rightarrow> map_option (\<lambda>n. [DEVICE_WRITE dev s n]) (rt_strlen s m)))"

text \<open>\<open>rt_log_buf\<close> is the address of the static buffer.\<close>

definition rt_kprintf :: "nat option \<Rightarrow> nat \<Rightarrow> u8 list \<Rightarrow> u32 list \<Rightarrow> memory \<Rightarrow>
    (console_call \<times> memory) option" where
  "rt_kprintf console rt_log_buf fmt args m = do {
     (n, m1) \<leftarrow> rt_vsnprintf rt_log_buf (of_nat (RT_CONSOLEBUF_SIZE - 1)) fmt args m;
     let len = (if RT_CONSOLEBUF_SIZE - 1 < n then RT_CONSOLEBUF_SIZE - 1 else n);
     Some (case console of
        None \<Rightarrow> CONSOLE_OUTPUT rt_log_buf
      | Some dev \<Rightarrow> DEVICE_WRITE dev rt_log_buf len, m1) }"

end
