(* ===== verification/Kservice_Correct.thy ===== *)
theory Kservice_Correct
  imports Kservice
begin

text \<open>
  The routines that work on longs do what the plain loops over bytes do, and the string routines what
  they say on the characters in front of the zero byte.
\<close>

section \<open>Memory\<close>

lemma copy_long_bytes: "store_long dst (load_long src m) m' =
    m'(dst := m src, dst + 1 := m (src + 1), dst + 2 := m (src + 2), dst + 3 := m (src + 3))"
proof -
  have "(ucast (load_long src m) :: u8) = m src"
    "(ucast (drop_bit 8 (load_long src m)) :: u8) = m (src + 1)"
    "(ucast (drop_bit 16 (load_long src m)) :: u8) = m (src + 2)"
    "(ucast (drop_bit 24 (load_long src m)) :: u8) = m (src + 3)"
    by (rule bit_word_eqI; auto simp: load_long_def bit_simps dest: bit_imp_le_length)+
  then show ?thesis by (simp add: store_long_def)
qed

lemma load_store_long: "load_long a (store_long a w m) = w"
proof (rule bit_word_eqI)
  fix n assume "n < LENGTH(32)"
  then consider "n < 8" | "8 \<le> n" "n < 16" | "16 \<le> n" "n < 24" | "24 \<le> n" "n < 32" by fastforce
  then show "bit (load_long a (store_long a w m)) n = bit w n"
    by cases (auto simp: load_long_def store_long_def bit_simps)
qed

lemma copy_bytes_0 [simp]: "copy_bytes dst src 0 m = m"
  by (rule ext) (auto simp: copy_bytes_def)

text \<open>Copying upwards in two parts: the second must not read what the first has written.\<close>

lemma copy_bytes_add:
  assumes "\<not> (src < dst \<and> dst < src + (n + k))"
  shows "copy_bytes (dst + n) (src + n) k (copy_bytes dst src n m) = copy_bytes dst src (n + k) m"
proof (rule ext)
  fix a
  show "copy_bytes (dst + n) (src + n) k (copy_bytes dst src n m) a = copy_bytes dst src (n + k) m a"
  proof (cases "dst + n \<le> a \<and> a < dst + n + k")
    case True
    then obtain d where d: "a = dst + n + d" "d < k" by (metis add.assoc le_add_diff_inverse nat_add_left_cancel_less)
    then have "\<not> (dst \<le> src + n + d \<and> src + n + d < dst + n)" using assms by auto
    then show ?thesis using d by (auto simp: copy_bytes_def add.assoc)
  qed (auto simp: copy_bytes_def)
qed

lemma copy_up_eq:
  "\<not> (src < dst \<and> dst < src + n) \<Longrightarrow> copy_up n dst src m = copy_bytes dst src n m"
proof (induction n arbitrary: dst src m)
  case (Suc n)
  have "m(dst := m src) = copy_bytes dst src 1 m" by (rule ext) (auto simp: copy_bytes_def)
  moreover have "\<not> (src + 1 < dst + 1 \<and> dst + 1 < src + 1 + n)" using Suc.prems by auto
  note Suc.IH [OF this, of "m(dst := m src)"]
  moreover have "\<not> (src < dst \<and> dst < src + (1 + n))" using Suc.prems by auto
  note copy_bytes_add [OF this, of m]
  ultimately show ?case by simp
qed simp

lemma copy_down_eq:
  "src < dst \<Longrightarrow> copy_down n (dst + n) (src + n) m = copy_bytes dst src n m"
proof (induction n arbitrary: m)
  case (Suc n)
  have "copy_bytes dst src n (m(dst + n := m (src + n))) = copy_bytes dst src (Suc n) m"
    using Suc.prems by (intro ext) (auto simp: copy_bytes_def less_Suc_eq)
  with Suc show ?case by simp
qed simp

lemma copy_long_eq:
  assumes "\<not> (src < dst \<and> dst < src + 4)"
  shows "copy_long dst src m = copy_bytes dst src 4 m"
proof (rule ext)
  fix a
  have "a < dst \<or> a = dst \<or> a = dst + 1 \<or> a = dst + 2 \<or> a = dst + 3 \<or> dst + 4 \<le> a" by presburger
  then show "copy_long dst src m a = copy_bytes dst src 4 m a"
    by (elim disjE) (simp_all add: copy_long_def copy_long_bytes copy_bytes_def)
qed

lemma copy_block_eq:
  assumes "\<not> (src < dst \<and> dst < src + 16)"
  shows "copy_long (dst + 12) (src + 12) (copy_long (dst + 8) (src + 8)
    (copy_long (dst + 4) (src + 4) (copy_long dst src m))) = copy_bytes dst src 16 m"
proof -
  have n: "\<not> (src < dst \<and> dst < src + (4 + 4))" "\<not> (src < dst \<and> dst < src + (8 + 4))"
    "\<not> (src < dst \<and> dst < src + (12 + 4))" using assms by auto
  have c: "copy_long (dst + k) (src + k) m' = copy_bytes (dst + k) (src + k) 4 m'" for k m'
    using assms by (intro copy_long_eq) auto
  have "copy_long dst src m = copy_bytes dst src 4 m" using c [of 0] by simp
  then show ?thesis
    using copy_bytes_add [OF n(1), of m] copy_bytes_add [OF n(2), of m] copy_bytes_add [OF n(3), of m]
    by (simp add: c)
qed

text \<open>What a loop leaves to do is the rest of the copy.\<close>

definition copied :: "nat \<Rightarrow> nat \<Rightarrow> nat \<Rightarrow> memory \<Rightarrow> nat \<times> nat \<times> nat \<times> memory \<Rightarrow> bool" where
  "copied n dst src m r \<longleftrightarrow> (\<exists>k \<le> n. r = (n - k, dst + k, src + k, copy_bytes dst src k m))"

lemma copied_trans:
  assumes "copied n dst src m (n1, d1, s1, m1)" and "copied n1 d1 s1 m1 r"
    and "\<not> (src < dst \<and> dst < src + n)"
  shows "copied n dst src m r"
proof -
  from assms(1) obtain k where k: "k \<le> n" "n1 = n - k" "d1 = dst + k" "s1 = src + k" "m1 = copy_bytes dst src k m"
    by (auto simp: copied_def)
  from assms(2) obtain j where j: "j \<le> n1" "r = (n1 - j, d1 + j, s1 + j, copy_bytes d1 s1 j m1)"
    by (auto simp: copied_def)
  have "\<not> (src < dst \<and> dst < src + (k + j))" using assms(3) j(1) k(1,2) by auto
  from copy_bytes_add [OF this, of m] j k show ?thesis
    by (auto simp: copied_def intro!: exI [of _ "k + j"])
qed

lemma copy_blocks_copied:
  "\<not> (src < dst \<and> dst < src + n) \<Longrightarrow> copied n dst src m (copy_blocks n dst src m)"
proof (induction n dst src m rule: copy_blocks.induct)
  case (1 n dst src m)
  show ?case
  proof (cases "16 \<le> n")
    case True
    then have "\<not> (src < dst \<and> dst < src + 16)" using "1.prems" by auto
    from copy_block_eq [OF this, of m] have "copied n dst src m (n - 16, dst + 16, src + 16,
        copy_long (dst + 12) (src + 12) (copy_long (dst + 8) (src + 8)
          (copy_long (dst + 4) (src + 4) (copy_long dst src m))))"
      using True by (auto simp: copied_def intro!: exI [of _ 16])
    from copied_trans [OF this "1.IH" [OF True] "1.prems"] True "1.prems"
    show ?thesis by (subst copy_blocks.simps) auto
  next
    case False
    then show ?thesis by (subst copy_blocks.simps) (auto simp: copied_def intro!: exI [of _ 0])
  qed
qed

lemma copy_longs_copied:
  "\<not> (src < dst \<and> dst < src + n) \<Longrightarrow> copied n dst src m (copy_longs n dst src m)"
proof (induction n dst src m rule: copy_longs.induct)
  case (1 n dst src m)
  show ?case
  proof (cases "4 \<le> n")
    case True
    then have "\<not> (src < dst \<and> dst < src + 4)" using "1.prems" by auto
    from copy_long_eq [OF this, of m]
    have "copied n dst src m (n - 4, dst + 4, src + 4, copy_long dst src m)"
      using True by (auto simp: copied_def intro!: exI [of _ 4])
    from copied_trans [OF this "1.IH" [OF True] "1.prems"] True "1.prems"
    show ?thesis by (subst copy_longs.simps) auto
  next
    case False
    then show ?thesis by (subst copy_longs.simps) (auto simp: copied_def intro!: exI [of _ 0])
  qed
qed

lemma rt_memcpy_eq:
  assumes n: "\<not> (src < dst \<and> dst < src + unat len)"
  shows "rt_memcpy dst src len m = copy_bytes dst src (unat len) m"
proof -
  obtain n1 d1 s1 m1 where b: "copy_blocks (unat len) dst src m = (n1, d1, s1, m1)"
    by (cases "copy_blocks (unat len) dst src m")
  obtain n2 d2 s2 m2 where l: "copy_longs n1 d1 s1 m1 = (n2, d2, s2, m2)" by (cases "copy_longs n1 d1 s1 m1")
  have c1: "copied (unat len) dst src m (n1, d1, s1, m1)" using copy_blocks_copied [OF n] b by metis
  then have n1: "\<not> (s1 < d1 \<and> d1 < s1 + n1)" using n by (auto simp: copied_def)
  have "copied (unat len) dst src m (n2, d2, s2, m2)"
    using copied_trans [OF c1 _ n] copy_longs_copied [OF n1] l by metis
  then obtain k where k: "k \<le> unat len" "n2 = unat len - k" "d2 = dst + k" "s2 = src + k"
      "m2 = copy_bytes dst src k m" by (auto simp: copied_def)
  then have n2: "\<not> (s2 < d2 \<and> d2 < s2 + n2)" "\<not> (src < dst \<and> dst < src + (k + n2))" using n by auto
  have "copy_up n2 d2 s2 m2 = copy_bytes dst src (unat len) m"
    using copy_up_eq [OF n2(1)] copy_bytes_add [OF n2(2), of m] k by simp
  with copy_up_eq [OF n] b l show ?thesis by (simp add: rt_memcpy_def)
qed

lemma rt_memmove_eq: "rt_memmove dst src len m = copy_bytes dst src (unat len) m"
  by (simp add: rt_memmove_def copy_down_eq copy_up_eq)

section \<open>Setting memory\<close>

lemma set_bytes_0 [simp]: "set_bytes a d 0 m = m"
  by (rule ext) (auto simp: set_bytes_def)

lemma set_bytes_add: "set_bytes (a + n) d k (set_bytes a d n m) = set_bytes a d (n + k) m"
  by (rule ext) (auto simp: set_bytes_def)

lemma store_bytes_eq: "fill_bytes d a n m = set_bytes a d n m"
proof (induction n arbitrary: a m)
  case (Suc n)
  have "m(a := d) = set_bytes a d 1 m" by (rule ext) (auto simp: set_bytes_def)
  with Suc set_bytes_add [of a 1 d n m] show ?case by simp
qed simp

lemma store_long_eq:
  assumes "d = (ucast b :: u32)"
  shows "store_long a (spread d) m = set_bytes a b 4 m"
proof (rule ext)
  fix x
  have "(ucast (spread d) :: u8) = b" "(ucast (drop_bit 8 (spread d)) :: u8) = b"
    "(ucast (drop_bit 16 (spread d)) :: u8) = b" "(ucast (drop_bit 24 (spread d)) :: u8) = b"
    unfolding assms
    by (rule bit_word_eqI; auto simp: spread_def Let_def bit_simps dest: bit_imp_le_length)+
  moreover have "x < a \<or> x = a \<or> x = a + 1 \<or> x = a + 2 \<or> x = a + 3 \<or> a + 4 \<le> x" by presburger
  ultimately show "store_long a (spread d) m x = set_bytes a b 4 m x"
    by (elim disjE) (simp_all add: store_long_def set_bytes_def)
qed

lemma set_bytes_adds:
  "set_bytes (a + 4) d 4 (set_bytes a d 4 m) = set_bytes a d 8 m"
  "set_bytes (a + 8) d 4 (set_bytes a d 8 m) = set_bytes a d 12 m"
  "set_bytes (a + 12) d 4 (set_bytes a d 12 m) = set_bytes a d 16 m"
  by (simp_all add: set_bytes_add)

lemma store_longs_set:
  assumes w: "\<And>a m. store_long a w m = set_bytes a b 4 m"
  shows "\<exists>k \<le> n. store_longs w a n m = (a + k, n - k, set_bytes a b k m)"
proof (induction n arbitrary: a m rule: less_induct)
  case (less n)
  show ?case
  proof (cases "4 \<le> n")
    case True
    define m' where "m' = store_long a w m"
    have m': "m' = set_bytes a b 4 m"
      unfolding m'_def by (simp add: w set_bytes_adds)
    from less [of "n - 4" "a + 4" m'] True obtain k where k: "k \<le> n - 4"
      "store_longs w (a + 4) (n - 4) m' = (a + 4 + k, n - 4 - k, set_bytes (a + 4) b k m')" by auto
    have "store_longs w a n m = (a + (4 + k), n - (4 + k), set_bytes a b (4 + k) m)"
      using True k(2) m' set_bytes_add [of a 4 b k m] unfolding m'_def
      by (subst store_longs.simps) (simp add: add.assoc)
    with k(1) True show ?thesis by (intro exI [of _ "4 + k"]) simp
  next
    case False
    then show ?thesis by (subst store_longs.simps) (auto intro!: exI [of _ 0])
  qed
qed

lemma store_blocks_set:
  assumes w: "\<And>a m. store_long a w m = set_bytes a b 4 m"
  shows "\<exists>k \<le> n. store_blocks w a n m = (a + k, n - k, set_bytes a b k m)"
proof (induction n arbitrary: a m rule: less_induct)
  case (less n)
  show ?case
  proof (cases "16 \<le> n")
    case True
    define m' where "m' = store_long (a + 12) w (store_long (a + 8) w (store_long (a + 4) w (store_long a w m)))"
    have m': "m' = set_bytes a b 16 m"
      unfolding m'_def by (simp add: w set_bytes_adds)
    from less [of "n - 16" "a + 16" m'] True obtain k where k: "k \<le> n - 16"
      "store_blocks w (a + 16) (n - 16) m' = (a + 16 + k, n - 16 - k, set_bytes (a + 16) b k m')" by auto
    have "store_blocks w a n m = (a + (16 + k), n - (16 + k), set_bytes a b (16 + k) m)"
      using True k(2) m' set_bytes_add [of a 16 b k m] unfolding m'_def
      by (subst store_blocks.simps) (simp add: add.assoc)
    with k(1) True show ?thesis by (intro exI [of _ "16 + k"]) simp
  next
    case False
    then show ?thesis by (subst store_blocks.simps) (auto intro!: exI [of _ 0])
  qed
qed

lemma rt_memset_eq: "rt_memset s c len m = set_bytes s (ucast c :: u8) (unat len) m"
proof -
  define b where "b = (ucast c :: u8)"
  have m8: "(0xff :: u32) = mask 8" by (simp add: mask_eq_exp_minus_1)
  have d: "c AND 0xff = (ucast b :: u32)"
    unfolding m8 b_def by (rule bit_word_eqI) (auto simp: bit_simps)
  have b8: "(ucast (c AND 0xff) :: u8) = b"
    unfolding m8 b_def by (rule bit_word_eqI) (auto simp: bit_simps dest: bit_imp_le_length)
  show ?thesis
  proof (cases "4 \<le> unat len \<and> s mod 4 = 0")
    case True
    from store_blocks_set [OF store_long_eq [OF d], of "unat len" s m] obtain k where
      k: "k \<le> unat len" "store_blocks (spread (c AND 0xff)) s (unat len) m =
        (s + k, unat len - k, set_bytes s b k m)" by blast
    from store_longs_set [OF store_long_eq [OF d], of "unat len - k" "s + k" "set_bytes s b k m"] obtain j where
      j: "j \<le> unat len - k" "store_longs (spread (c AND 0xff)) (s + k) (unat len - k) (set_bytes s b k m) =
        (s + k + j, unat len - k - j, set_bytes (s + k) b j (set_bytes s b k m))" by blast
    have "set_bytes (s + k + j) b (unat len - k - j) (set_bytes (s + k) b j (set_bytes s b k m)) =
        set_bytes s b (unat len) m"
      using k(1) j(1) set_bytes_add [of s k b j m] set_bytes_add [of s "k + j" b "unat len - k - j" m]
      by (simp add: add.assoc)
    with True k(2) j(2) show ?thesis
      by (simp add: rt_memset_def Let_def store_bytes_eq b8 flip: b_def)
  next
    case False
    then show ?thesis
      by (auto simp: rt_memset_def Let_def store_bytes_eq b8 simp flip: b_def)
  qed
qed

section \<open>Strings\<close>

text \<open>The bytes \<open>xs\<close>, none of them zero, and then a zero.\<close>

fun str_at :: "memory \<Rightarrow> nat \<Rightarrow> u8 list \<Rightarrow> bool" where
  "str_at m a [] \<longleftrightarrow> m a = 0"
| "str_at m a (x # xs) \<longleftrightarrow> m a = x \<and> x \<noteq> 0 \<and> str_at m (a + 1) xs"

definition put_list :: "nat \<Rightarrow> u8 list \<Rightarrow> memory \<Rightarrow> memory" where
  "put_list a xs m = (\<lambda>x. if a \<le> x \<and> x < a + length xs then xs ! (x - a) else m x)"

lemma put_list_Nil [simp]: "put_list a [] m = m"
  by (rule ext) (auto simp: put_list_def)

lemma put_list_Cons: "put_list a (x # xs) m = put_list (a + 1) xs (m(a := x))"
proof (rule ext)
  fix y
  consider "y < a" | "y = a" | d where "y = Suc a + d" by (metis linorder_neqE_nat less_imp_Suc_add add_Suc)
  then show "put_list a (x # xs) m y = put_list (a + 1) xs (m(a := x)) y"
    by cases (auto simp: put_list_def)
qed

lemma str_at_append: "str_at m a (xs @ ys) \<Longrightarrow> str_at m (a + length xs) ys"
  by (induction xs arbitrary: a) fastforce+

lemma str_at_nth: "str_at m a xs \<Longrightarrow> i < length xs \<Longrightarrow> m (a + i) = xs ! i \<and> xs ! i \<noteq> 0"
proof (induction xs arbitrary: a i)
  case (Cons x xs)
  then show ?case by (cases i) (auto dest: Cons.IH)
qed simp

lemma str_at_cong:
  "str_at m a xs \<Longrightarrow> (\<And>x. a \<le> x \<Longrightarrow> x \<le> a + length xs \<Longrightarrow> m' x = m x) \<Longrightarrow> str_at m' a xs"
  by (induction xs arbitrary: a) auto

lemma str_end: "str_at m s xs \<Longrightarrow> str_end s m = Some (s + length xs)"
  by (induction xs arbitrary: s; subst str_end.simps) auto

lemma rt_strlen_eq: "str_at m s xs \<Longrightarrow> rt_strlen s m = Some (length xs)"
  by (simp add: rt_strlen_def str_end)

lemma rt_strnlen_eq: "str_at m s xs \<Longrightarrow> rt_strnlen s maxlen m = min (unat maxlen) (length xs)"
proof -
  have "str_at m s xs \<Longrightarrow> strnlen_loop n s m = s + min n (length xs)" for n
    by (induction n arbitrary: s xs; case_tac xs) auto
  then show "str_at m s xs \<Longrightarrow> rt_strnlen s maxlen m = min (unat maxlen) (length xs)"
    by (simp add: rt_strnlen_def)
qed

text \<open>\<^verbatim>\<open>strcmp\<close> orders as the lists of characters are ordered.\<close>

lemma rt_strcmp_order:
  "str_at m a xs \<Longrightarrow> str_at m b ys \<Longrightarrow>
   \<exists>r. rt_strcmp a b m = Some r \<and> (r = 0 \<longleftrightarrow> xs = ys) \<and> (r < 0 \<longleftrightarrow> ord_class.lexordp xs ys)"
proof (induction xs arbitrary: a b ys)
  case Nil
  then show ?case by (cases ys) (auto simp: rt_strcmp.simps [of a] unsigned_word_eqI uint_0_iff
    intro: order.not_eq_order_implies_strict)
next
  case (Cons x xs)
  show ?case
  proof (cases "\<exists>zs. ys = x # zs")
    case True
    with Cons show ?thesis by (auto simp: rt_strcmp.simps [of a])
  next
    case False
    then have "m a \<noteq> m b" using Cons.prems by (cases ys) auto
    then have "uint (m a) \<noteq> uint (m b)" by (simp add: word_uint_eq_iff)
    moreover from \<open>m a \<noteq> m b\<close> have "\<not> m b < m a \<longleftrightarrow> m a < m b" by auto
    ultimately show ?thesis using False Cons.prems
      by (cases ys) (auto simp: rt_strcmp.simps [of a] uint_0_iff simp flip: word_less_def)
  qed
qed

text \<open>Equality of the first \<open>n\<close> bytes.\<close>

lemma memcmp_loop_0: "memcmp_loop n a b m = 0 \<longleftrightarrow> (\<forall>i < n. m (a + i) = m (b + i))"
proof (induction n arbitrary: a b)
  case (Suc n)
  have "(\<forall>i < Suc n. m (a + i) = m (b + i)) \<longleftrightarrow> m a = m b \<and> (\<forall>i < n. m (a + 1 + i) = m (b + 1 + i))"
    by (auto simp: less_Suc_eq_0_disj)
  with Suc [of "a + 1" "b + 1"] show ?case by (simp add: Let_def word_uint_eq_iff [of "m a"])
qed simp

text \<open>\<^verbatim>\<open>rt_strstr\<close> finds the first place at which the second string begins.\<close>

definition begins_at :: "u8 list \<Rightarrow> u8 list \<Rightarrow> nat \<Rightarrow> bool" where
  "begins_at ys xs i \<longleftrightarrow> i + length ys \<le> length xs \<and> take (length ys) (drop i xs) = ys"

lemma memcmp_begins:
  assumes "str_at m a xs" and "str_at m b ys" and "i + length ys \<le> length xs"
  shows "memcmp_loop (length ys) (a + i) b m = 0 \<longleftrightarrow> begins_at ys xs i"
proof -
  have "memcmp_loop (length ys) (a + i) b m = 0 \<longleftrightarrow> (\<forall>j < length ys. xs ! (i + j) = ys ! j)"
    using str_at_nth [OF assms(1), of "i + j" for j] str_at_nth [OF assms(2)] assms(3)
    by (auto simp: memcmp_loop_0 add.assoc)
  also have "\<dots> \<longleftrightarrow> begins_at ys xs i"
    using assms(3) by (auto simp: begins_at_def list_eq_iff_nth_eq)
  finally show ?thesis .
qed

lemma strstr_loop_spec:
  assumes "str_at m a xs" and "str_at m b ys" and "ys \<noteq> []"
  shows "i + l1 = length xs \<Longrightarrow> (\<And>j. j < i \<Longrightarrow> \<not> begins_at ys xs j) \<Longrightarrow>
    strstr_loop (length ys) l1 (a + i) b m =
      (if \<exists>j. begins_at ys xs j then Some (a + (LEAST j. begins_at ys xs j)) else None)"
proof (induction l1 arbitrary: i)
  case 0
  then have "\<not> begins_at ys xs j" for j
    using assms(3) by (cases "j < i") (auto simp: begins_at_def)
  then show ?case by simp
next
  case (Suc l1)
  show ?case
  proof (cases "length ys \<le> Suc l1")
    case True
    then have m: "memcmp_loop (length ys) (a + i) b m = 0 \<longleftrightarrow> begins_at ys xs i"
      using Suc.prems(1) by (intro memcmp_begins [OF assms(1,2)]) simp
    show ?thesis
    proof (cases "begins_at ys xs i")
      case B: True
      then have "(LEAST j. begins_at ys xs j) = i"
        using Suc.prems(2) by (intro Least_equality) (auto simp: not_less [symmetric])
      with B True m show ?thesis by auto
    next
      case False
      have "strstr_loop (length ys) l1 (a + Suc i) b m =
          (if \<exists>j. begins_at ys xs j then Some (a + (LEAST j. begins_at ys xs j)) else None)"
        using Suc.prems False by (intro Suc.IH) (auto simp: less_Suc_eq)
      with True False m show ?thesis by simp
    qed
  next
    case False
    then have "\<not> begins_at ys xs j" for j
      using Suc.prems by (cases "j < i") (auto simp: begins_at_def)
    with False show ?thesis by simp
  qed
qed

lemma rt_strstr_eq:
  assumes "str_at m a xs" and "str_at m b ys"
  shows "rt_strstr a b m = Some (if \<exists>j. begins_at ys xs j
    then Some (a + (LEAST j. begins_at ys xs j)) else None)"
proof (cases "ys = []")
  case True
  moreover have "begins_at [] xs 0" by (simp add: begins_at_def)
  moreover from this have "(LEAST j. begins_at [] xs j) = 0" by (intro Least_equality) auto
  ultimately show ?thesis using rt_strlen_eq [OF assms(2)] by (auto simp: rt_strstr_def)
next
  case False
  with strstr_loop_spec [OF assms False, of 0 "length xs"] rt_strlen_eq [OF assms(1)] rt_strlen_eq [OF assms(2)]
  show ?thesis by (simp add: rt_strstr_def)
qed

text \<open>
  \<^verbatim>\<open>rt_strncpy\<close> fills \<open>n\<close> bytes: the first of the string, and zeros. The two areas are apart.
\<close>

lemma rt_strncpy_eq:
  assumes "str_at m s xs" and "s + length xs < d \<or> d + unat n \<le> s"
  shows "rt_strncpy d s n m = put_list d (take (unat n) (xs @ replicate (unat n) 0)) m"
proof -
  have set: "set_bytes d 0 k m = put_list d (replicate k 0) m" for d k m
    by (rule ext) (auto simp: set_bytes_def put_list_def)
  have "strncpy_loop k d s m = put_list d (take k (xs @ replicate k 0)) m"
    if "str_at m s xs" "s + length xs < d \<or> d + k \<le> s" for k
    using that
  proof (induction k arbitrary: d s xs m)
    case (Suc k)
    show ?case
    proof (cases xs)
      case Nil
      with Suc.prems(1) show ?thesis by (simp add: Let_def store_bytes_eq set put_list_Cons)
    next
      case (Cons x ys)
      have "str_at (m(d := x)) (s + 1) ys"
        by (rule str_at_cong [of m]) (use Suc.prems Cons in auto)
      moreover have "(s + 1) + length ys < d + 1 \<or> d + 1 + k \<le> s + 1" using Suc.prems(2) Cons by auto
      ultimately have "strncpy_loop k (d + 1) (s + 1) (m(d := x)) =
          put_list (d + 1) (take k (ys @ replicate k 0)) (m(d := x))"
        by (rule Suc.IH)
      moreover have "take k (ys @ 0 # replicate k 0) = take k (ys @ replicate k 0)"
        by (auto simp: take_Cons' min_def simp flip: replicate_Suc)
      ultimately show ?thesis using Suc.prems(1) Cons by (simp add: Let_def put_list_Cons)
    qed
  qed simp
  with assms show ?thesis by (simp add: rt_strncpy_def)
qed

end
