(* ===== verification/Kprintf_Correct.thy ===== *)
theory Kprintf_Correct
  imports Kprintf Kservice_Correct
begin

text \<open>
  What a format says, without a buffer: the text of each directive, and that the code with its loops
  and bounds writes as much of it as fits.
\<close>

section \<open>Writing a text\<close>

lemma put_all_append: "put_all e (xs @ ys) b = put_all e ys (put_all e xs b)"
  by (induction xs arbitrary: b) auto

lemma put_all_Cons: "put_all e (c # cs) b = put_all e cs (put_char e c b)"
  by simp

lemma put_all_fst [simp]: "fst (put_all e t b) = fst b + length t"
  by (induction t arbitrary: b) (auto simp: put_char_def)

lemma put_all_eq: "put_all e t (p, m) = (p + length t, put_list p (take (e - p) t) m)"
proof (induction t arbitrary: p m)
  case (Cons c t)
  show ?case
  proof (cases "p < e")
    case True
    then have "e - p = Suc (e - Suc p)" by simp
    then show ?thesis using True Cons by (simp add: put_char_def put_list_Cons fun_upd_def)
  qed (use Cons in \<open>simp add: put_char_def\<close>)
qed simp

lemma put_all_other: "x < p \<or> e \<le> x \<Longrightarrow> snd (put_all e t (p, m)) x = m x"
  by (auto simp: put_all_eq put_list_def)

lemma pad_to_eq:
  "pad_to e c lo n b = (if lo < n then lo - 1 else n - 1, put_all e (replicate (nat (n - lo)) c) b)"
proof (induction e c lo n b rule: pad_to.induct)
  case (1 e c lo n b)
  show ?case
  proof (cases "lo < n")
    case True
    then have "nat (n - lo) = Suc (nat (n - 1 - lo))" by simp
    then have "put_all e (replicate (nat (n - lo)) c) b = put_all e (replicate (nat (n - 1 - lo)) c) (put_char e c b)"
      by simp
    with 1 [OF True] True show ?thesis by (subst pad_to.simps) auto
  next
    case False
    then show ?thesis by (subst pad_to.simps) simp
  qed
qed

lemma pad_pre_eq:
  "pad_pre e c n b = (if 1 < n then 0 else n - 1, put_all e (replicate (nat (n - 1)) c) b)"
proof (induction e c n b rule: pad_pre.induct)
  case (1 e c n b)
  show ?case
  proof (cases "0 < n - 1")
    case True
    then have "nat (n - 1) = Suc (nat (n - 1 - 1))" by simp
    then have "put_all e (replicate (nat (n - 1)) c) b = put_all e (replicate (nat (n - 1 - 1)) c) (put_char e c b)"
      by simp
    with 1 [OF True] True show ?thesis by (subst pad_pre.simps) auto
  next
    case False
    then show ?thesis by (subst pad_pre.simps) simp
  qed
qed

section \<open>The text of a directive\<close>

definition number_text :: "u32 \<Rightarrow> nat \<Rightarrow> int \<Rightarrow> int \<Rightarrow> u8 \<Rightarrow> u8 list" where
  "number_text num base width precision flags =
    (let sign = (if sign_of flags num = 0 then [] else [sign_of flags num]);
         digits = rev (tmp_of flags base num);
         body = replicate (nat precision - length digits) (ch CHR ''0'') @ (if precision = 0 then [] else digits);
         fill = nat (width - max precision (int (length digits)) - int (length sign))
     in if flagged flags LEFT then sign @ body @ replicate fill (ch CHR '' '')
        else if flagged flags ZEROPAD then sign @ replicate fill (ch CHR ''0'') @ body
        else replicate fill (ch CHR '' '') @ sign @ body)"

lemma flag_iff:
  "flagged ty ZEROPAD \<longleftrightarrow> bit ty 0" "flagged ty SIGN \<longleftrightarrow> bit ty 1" "flagged ty PLUS \<longleftrightarrow> bit ty 2"
  "flagged ty SPACE \<longleftrightarrow> bit ty 3" "flagged ty LEFT \<longleftrightarrow> bit ty 4" "flagged ty LARGE \<longleftrightarrow> bit ty 6"
  using and_exp_eq_0_iff_not_bit [of ty 0] and_exp_eq_0_iff_not_bit [of ty 1] and_exp_eq_0_iff_not_bit [of ty 2]
    and_exp_eq_0_iff_not_bit [of ty 3] and_exp_eq_0_iff_not_bit [of ty 4] and_exp_eq_0_iff_not_bit [of ty 6]
  by simp_all

lemma flagged_or: "flagged ty (a OR b) \<longleftrightarrow> flagged ty a \<or> flagged ty b"
  by (simp add: bit.conj_disj_distrib or_eq_0_iff)

lemma flag_and:
  "flagged (ty AND NOT ZEROPAD) LEFT \<longleftrightarrow> flagged ty LEFT" "\<not> flagged (ty AND NOT ZEROPAD) ZEROPAD"
  "sign_of (ty AND NOT ZEROPAD) = sign_of ty" "tmp_of (ty AND NOT ZEROPAD) = tmp_of ty"
  by (simp_all only: sign_of_def tmp_of_def flag_iff fun_eq_iff) (simp_all add: bit_simps)

lemma tmp_of_length: "0 < length (tmp_of flags base num)"
  by (auto simp: tmp_of_def Let_def number_digits.simps [of _ _ "unat _"] unat_eq_zero)

lemma print_number_eq:
  "print_number e num base width precision flags b = put_all e (number_text num base width precision flags) b"
proof -
  define ty where "ty = (if flagged flags LEFT then flags AND NOT ZEROPAD else flags)"
  define sign where "sign = sign_of flags num"
  define tmp where "tmp = tmp_of flags base num"
  define prec where "prec = max precision (int (length tmp))"
  have ty: "sign_of ty = sign_of flags" "tmp_of ty = tmp_of flags" "flagged ty LEFT \<longleftrightarrow> flagged flags LEFT"
    "flagged ty ZEROPAD \<longleftrightarrow> flagged flags ZEROPAD \<and> \<not> flagged flags LEFT"
    by (cases "flagged flags LEFT"; simp only: ty_def flag_and if_True if_False simp_thms)+
  have p: "(if precision < int (length tmp) then int (length tmp) else precision) = prec"
    by (simp add: prec_def)
  have z: "nat (prec - int (length tmp)) = nat precision - length tmp"
    by (simp add: prec_def max_def nat_diff_distrib' nat_le_iff)
  show ?thesis
    unfolding print_number_def number_text_def Let_def ty_def [symmetric] ty sign_def [symmetric] tmp_def [symmetric] p
      flagged_or length_rev prec_def [symmetric]
    by (cases "flagged flags LEFT"; cases "flagged flags ZEROPAD"; cases "sign = 0"; cases "width - prec > 0")
      (simp_all add: pad_to_eq put_all_append z)
qed

definition char_text :: "u8 \<Rightarrow> int \<Rightarrow> u8 \<Rightarrow> u8 list" where
  "char_text flags width c =
    (let fill = replicate (nat (width - 1)) (ch CHR '' '')
     in if flagged flags LEFT then c # fill else fill @ [c])"

lemma print_char_eq: "print_char e flags width a b = put_all e (char_text flags width (ucast a)) b"
  by (simp add: print_char_def char_text_def pad_pre_eq put_all_append)

text \<open>The width also bounds the characters that are shown.\<close>

definition string_text :: "u8 \<Rightarrow> int \<Rightarrow> int \<Rightarrow> u8 list \<Rightarrow> u8 list" where
  "string_text flags width precision t =
    (let n0 = (if 0 \<le> width then min (nat width) (length t) else length t);
         n = (if 0 < precision then min (nat precision) n0 else n0);
         fill = replicate (nat (width - int n)) (ch CHR '' '')
     in if flagged flags LEFT then take n t @ fill else fill @ take n t)"

text \<open>The address \<open>s\<close> holds \<open>t\<close>, and the buffer from \<open>p\<close> up to \<open>e\<close> does not touch it.\<close>

definition string_arg :: "memory \<Rightarrow> nat \<Rightarrow> nat \<Rightarrow> u32 \<Rightarrow> u8 list \<Rightarrow> bool" where
  "string_arg m p e s t \<longleftrightarrow> (if s = 0 then t = chars ''(NULL)''
     else str_at m (unat s) t \<and> (unat s + length t < p \<or> e \<le> unat s))"

lemma string_arg_byte:
  assumes "string_arg m p e s t" and "i < length t"
  shows "str_byte s i m = t ! i \<and> t ! i \<noteq> 0"
proof (cases "s = 0")
  case True
  have "\<forall>c \<in> set (chars ''(NULL)''). c \<noteq> 0" by (simp add: chars_def)
  with True assms show ?thesis by (auto simp: string_arg_def str_byte_def Let_def)
next
  case False
  with assms show ?thesis by (auto simp: string_arg_def str_byte_def dest: str_at_nth)
qed

lemma string_arg_end: "string_arg m p e s t \<Longrightarrow> str_byte s (length t) m = 0"
  using str_at_append [of m "unat s" t "[]"] by (auto simp: string_arg_def str_byte_def Let_def split: if_splits)

lemma string_arg_put:
  assumes "string_arg m p e s t"
  shows "string_arg (snd (put_all e xs (p + k, m))) p e s t"
proof (cases "s = 0")
  case False
  with assms have "str_at (snd (put_all e xs (p + k, m))) (unat s) t"
    by (auto simp: string_arg_def intro!: str_at_cong [of m "unat s" t] put_all_other)
  with False assms show ?thesis by (auto simp: string_arg_def)
qed (use assms in \<open>simp add: string_arg_def\<close>)

lemma field_len_eq:
  assumes "string_arg m p e s t"
  shows "field_len s width 0 m = Some (if 0 \<le> width then min (nat width) (length t) else length t)"
proof -
  let ?n = "if 0 \<le> width then min (nat width) (length t) else length t"
  have "field_len s width k m = Some ?n" if "k \<le> ?n" for k
    using that
  proof (induction "?n - k" arbitrary: k)
    case 0
    then have "int k = width \<or> str_byte s k m = 0" using string_arg_end [OF assms] by (auto simp: min_def split: if_splits)
    with 0 show ?case by (subst field_len.simps) auto
  next
    case (Suc d)
    then have "int k \<noteq> width" "k < length t" by (auto split: if_splits)
    with string_arg_byte [OF assms, of k] Suc.hyps(1) [of "k + 1"] Suc.hyps(2) show ?case
      by (subst field_len.simps) auto
  qed
  then show ?thesis by simp
qed

lemma put_string_eq:
  assumes "string_arg m p e s t"
  shows "i + n \<le> length t \<Longrightarrow>
    put_string e s i n (put_all e xs (p + k, m)) = put_all e (xs @ take n (drop i t)) (p + k, m)"
proof (induction n arbitrary: i xs)
  case (Suc n)
  then have d: "drop i t = t ! i # drop (Suc i) t" by (simp add: Cons_nth_drop_Suc)
  have "str_byte s i (snd (put_all e xs (p + k, m))) = t ! i"
    using string_arg_byte [OF string_arg_put [OF assms]] Suc.prems by simp
  moreover have "put_char e (t ! i) (put_all e xs (p + k, m)) = put_all e (xs @ [t ! i]) (p + k, m)"
    by (simp add: put_all_append)
  ultimately show ?case using Suc.IH [of "Suc i" "xs @ [t ! i]"] Suc.prems by (simp add: d)
qed simp

lemma print_string_eq:
  assumes "string_arg m p e s t"
  shows "print_string e flags width precision s (p + k, m) =
    Some (put_all e (string_text flags width precision t) (p + k, m))"
proof -
  define n0 where "n0 = (if 0 \<le> width then min (nat width) (length t) else length t)"
  define n where "n = (if 0 < precision then min (nat precision) n0 else n0)"
  have n: "(if 0 < precision \<and> precision < int n0 then nat precision else n0) = n" "n \<le> length t"
    by (auto simp: n_def n0_def min_def)
  have f: "field_len s width 0 m = Some n0" unfolding n0_def by (rule field_len_eq [OF assms])
  have "put_string e s 0 n (put_all e xs (p + k, m)) = put_all e (xs @ take n t) (p + k, m)" for xs
    using put_string_eq [OF assms, of 0 n xs k] n(2) by simp
  from this [of "[]"] this have put: "put_string e s 0 n (p + k, m) = put_all e (take n t) (p + k, m)"
    "\<And>xs. put_string e s 0 n (put_all e xs (p + k, m)) = put_all e (xs @ take n t) (p + k, m)" by simp_all
  show ?thesis
    unfolding string_text_def Let_def n0_def [symmetric] n_def [symmetric]
    by (auto simp: print_string_def f n(1) pad_to_eq put put_all_append)
qed

text \<open>\<open>strs\<close> says which text is at an address.\<close>

definition conversion_text :: "(u32 \<Rightarrow> u8 list option) \<Rightarrow> u8 \<Rightarrow> int \<Rightarrow> int \<Rightarrow> u8 \<Rightarrow> u8 list \<Rightarrow> u32 list \<Rightarrow>
    (u8 list \<times> u32 list \<times> u8 list) option" where
  "conversion_text strs flags width precision q fmt args =
    (let c = peek fmt;
         number = (\<lambda>base flags. do {
           (a, args1) \<leftarrow> next_arg args;
           Some (tl fmt, args1, number_text (number_arg q flags a) base width precision flags) })
     in if c = ch CHR ''c'' then do {
          (a, args1) \<leftarrow> next_arg args; Some (tl fmt, args1, char_text flags width (ucast a)) }
        else if c = ch CHR ''s'' then do {
          (a, args1) \<leftarrow> next_arg args;
          t \<leftarrow> strs a;
          Some (tl fmt, args1, string_text flags width precision t) }
        else if c = ch CHR ''p'' then do {
          (a, args1) \<leftarrow> next_arg args;
          Some (tl fmt, args1, number_text a 16 (if width = - 1 then 8 else width) precision
            (if width = - 1 then flags OR ZEROPAD else flags)) }
        else if c = ch CHR ''%'' then Some (tl fmt, args, [c])
        else if c = ch CHR ''o'' then number 8 flags
        else if c = ch CHR ''X'' then number 16 (flags OR LARGE)
        else if c = ch CHR ''x'' then number 16 flags
        else if c = ch CHR ''d'' \<or> c = ch CHR ''i'' then number 10 (flags OR SIGN)
        else if c = ch CHR ''u'' then number 10 flags
        else if c = 0 then Some (fmt, args, [ch CHR ''%''])
        else Some (tl fmt, args, [ch CHR ''%'', c]))"

definition strings_at :: "(u32 \<Rightarrow> u8 list option) \<Rightarrow> memory \<Rightarrow> nat \<Rightarrow> nat \<Rightarrow> bool" where
  "strings_at strs m p e \<longleftrightarrow> (\<forall>s t. strs s = Some t \<longrightarrow> string_arg m p e s t)"

lemma conversion_eq:
  assumes "strings_at strs m p e"
    and "conversion_text strs flags width precision q fmt args = Some (fmt', args', t)"
  shows "conversion e flags width precision q fmt args (p + k, m) = Some (fmt', args', put_all e t (p + k, m))"
proof -
  have num: "print_integer e base fl width precision q args (p + k, m) = do {
      (a, args1) \<leftarrow> next_arg args;
      Some (args1, put_all e (number_text (number_arg q fl a) base width precision fl) (p + k, m)) }" for base fl
    by (simp add: print_integer_def print_number_eq)
  have str: "print_string e flags w precision s (p + k, m) =
      Some (put_all e (string_text flags w precision t') (p + k, m))" if "strs s = Some t'" for s t' w
    using assms(1) that by (auto simp: strings_at_def intro: print_string_eq)
  show ?thesis
    using assms(2) unfolding conversion_text_def conversion_def Let_def num
    by (cases "next_arg args") (auto simp: str print_char_eq print_number_eq simp del: split_paired_Ex
      split: if_splits Option.bind_splits)
qed

definition directive_text :: "(u32 \<Rightarrow> u8 list option) \<Rightarrow> u8 list \<Rightarrow> u32 list \<Rightarrow>
    (u8 list \<times> u32 list \<times> u8 list) option" where
  "directive_text strs fmt args = do {
     let (flags0, fmt1) = parse_flags 0 fmt;
     (flags, width, fmt2, args1) \<leftarrow> parse_width flags0 fmt1 args;
     (precision, fmt3, args2) \<leftarrow> parse_precision fmt2 args1;
     let (q, fmt4) = parse_qualifier fmt3;
     conversion_text strs flags width precision q fmt4 args2 }"

lemma directive_textE:
  assumes "directive_text strs fmt args = Some r"
  obtains fl fmt1 fl' w fmt2 args1 pr fmt3 args2 q fmt4 where "parse_flags 0 fmt = (fl, fmt1)"
    "parse_width fl fmt1 args = Some (fl', w, fmt2, args1)" "parse_precision fmt2 args1 = Some (pr, fmt3, args2)"
    "parse_qualifier fmt3 = (q, fmt4)" "conversion_text strs fl' w pr q fmt4 args2 = Some r"
proof -
  obtain fl fmt1 where 1: "parse_flags 0 fmt = (fl, fmt1)" by (cases "parse_flags 0 fmt")
  from assms 1 obtain fl' w fmt2 args1 pr fmt3 args2 where
    2: "parse_width fl fmt1 args = Some (fl', w, fmt2, args1)" "parse_precision fmt2 args1 = Some (pr, fmt3, args2)"
    by (auto simp: directive_text_def bind_eq_Some_conv)
  obtain q fmt4 where 3: "parse_qualifier fmt3 = (q, fmt4)" by (cases "parse_qualifier fmt3")
  from assms 1 2 3 have "conversion_text strs fl' w pr q fmt4 args2 = Some r" by (simp add: directive_text_def)
  with 1 2 3 show thesis by (rule that)
qed

lemma directive_eq:
  assumes "strings_at strs m p e" and "directive_text strs fmt args = Some (fmt', args', t)"
  shows "directive e fmt args (p + k, m) = Some (fmt', args', put_all e t (p + k, m))"
  using assms(2)
  by (rule directive_textE) (simp add: directive_def conversion_eq [OF assms(1)])

lemma directive_text_length:
  assumes "directive_text strs fmt args = Some (fmt', args', t)"
  shows "length fmt' \<le> length fmt"
proof -
  have conv: "conversion_text strs fl w p q fmt0 args0 = Some (fmt', args', t) \<Longrightarrow> length fmt' \<le> length fmt0"
    for fl w p q fmt0 args0
    by (auto simp: conversion_text_def Let_def bind_eq_Some_conv split: if_splits)
  show ?thesis
    using assms
    by (rule directive_textE) (fastforce dest!: conv parse_flags_length
      parse_width_length parse_precision_length parse_qualifier_length)
qed

text \<open>The text of a whole format.\<close>

function format_text :: "(u32 \<Rightarrow> u8 list option) \<Rightarrow> u8 list \<Rightarrow> u32 list \<Rightarrow> u8 list option" where
  "format_text strs fmt args =
    (if peek fmt = 0 then Some []
     else if peek fmt \<noteq> ch CHR ''%'' then map_option ((#) (peek fmt)) (format_text strs (tl fmt) args)
     else (case directive_text strs (tl fmt) args of
             None \<Rightarrow> None
           | Some (fmt', args', t) \<Rightarrow> map_option ((@) t) (format_text strs fmt' args')))"
  by pat_completeness auto
termination
proof (relation "measure (\<lambda>(strs, fmt, args). length fmt)", goal_cases)
  case (2 strs fmt args)
  then show ?case by (auto dest!: peek_nonempty)
next
  case (3 strs fmt args r fmt' p args')
  then have "length fmt' \<le> length fmt - 1" by (auto dest!: directive_text_length)
  with peek_nonempty [OF 3(1)] show ?case by (cases fmt) auto
qed simp

declare format_text.simps [simp del]

lemma strings_at_put: "strings_at strs m p e \<Longrightarrow> strings_at strs (snd (put_all e xs (p + k, m))) p e"
  unfolding strings_at_def using string_arg_put by blast

lemma format_loop_eq:
  "strings_at strs m p e \<Longrightarrow> format_text strs fmt args = Some t \<Longrightarrow>
   format_loop e fmt args (p + k, m) = Some (put_all e t (p + k, m))"
proof (induction strs fmt args arbitrary: k m t rule: format_text.induct)
  case (1 strs fmt args)
  have put: "strings_at strs (snd (put_all e xs (p + k, m))) p e" for xs by (rule strings_at_put [OF 1(3)])
  have split: "put_all e xs (p + k, m) = (p + (k + length xs), snd (put_all e xs (p + k, m)))" for xs
    by (simp add: prod_eq_iff)
  consider "peek fmt = 0" | "peek fmt \<noteq> 0" "peek fmt \<noteq> ch CHR ''%''" | "peek fmt \<noteq> 0" "peek fmt = ch CHR ''%''"
    by blast
  then show ?case
  proof cases
    case 1
    with "1.prems" show ?thesis by (subst format_loop.simps) (simp add: format_text.simps [of _ fmt])
  next
    case 2
    with "1.prems"(2) obtain t' where t': "format_text strs (tl fmt) args = Some t'" "t = peek fmt # t'"
      by (auto simp: format_text.simps [of _ fmt])
    from "1.IH"(1) [OF 2 put [of "[peek fmt]"] t'(1)] split [of "[peek fmt]"] have
      "format_loop e (tl fmt) args (put_all e [peek fmt] (p + k, m)) = Some (put_all e t' (put_all e [peek fmt] (p + k, m)))"
      by metis
    with 2 t'(2) show ?thesis by (subst format_loop.simps) simp
  next
    case 3
    with "1.prems"(2) obtain fmt' args' t1 t2 where
      d: "directive_text strs (tl fmt) args = Some (fmt', args', t1)" and t2: "format_text strs fmt' args' = Some t2"
      and t: "t = t1 @ t2"
      by (auto simp: format_text.simps [of _ fmt] split: option.splits)
    from "1.IH"(2) [OF 3(1) _ d refl refl put [of t1] t2] 3(2) split [of t1] have
      "format_loop e fmt' args' (put_all e t1 (p + k, m)) = Some (put_all e t2 (put_all e t1 (p + k, m)))"
      by metis
    with 3 t directive_eq [OF "1.prems"(1) d] show ?thesis
      by (subst format_loop.simps) (simp add: put_all_append)
  qed
qed

end
