(* ===== verification/Kservice_Behaviour.thy ===== *)
theory Kservice_Behaviour
  imports Kprintf_Correct Mem_Behaviour
begin

text \<open>The claims on \<^verbatim>\<open>kservice.c\<close>.\<close>

section \<open>Copying\<close>

text \<open>
  Claim C16 (equivalence). Copying by blocks of longs, by longs and by bytes gives what the byte loop of
  \<^verbatim>\<open>rt_memmove\<close> gives, unless the target begins inside the source: the bytes of the source as they
  were before, at the target, and nothing else changed. \<^verbatim>\<open>rt_memmove\<close> gives this for all areas.
\<close>

theorem memcpy_is_memmove:
  "rt_memmove dst src n m = copy_bytes dst src (unat n) m \<and>
   (\<not> (src < dst \<and> dst < src + unat n) \<longrightarrow> rt_memcpy dst src n m = rt_memmove dst src n m)"
  by (simp add: rt_memcpy_eq rt_memmove_eq)

theorem memcpy_is_memmove_witness:
  "rt_memcpy 96 100 22 (\<lambda>a. word_of_nat a) 116 = 120 \<and> rt_memcpy 100 96 22 (\<lambda>a. word_of_nat a) 104 = 96"
proof -
  have "rt_memcpy 96 100 22 (\<lambda>a. word_of_nat a) = copy_bytes 96 100 22 (\<lambda>a. word_of_nat a)"
    using memcpy_is_memmove [of 96 100 22 "\<lambda>a. word_of_nat a"] by simp
  moreover have "rt_memcpy 100 96 22 (\<lambda>a. word_of_nat a) 104 = 96"
    by code_simp
  ultimately show ?thesis by (simp add: copy_bytes_def)
qed

section \<open>Formatted output\<close>

lemma rt_vsnprintf_eq:
  assumes "format_text strs fmt args = Some t" and "strings_at strs m buf (buf + unat sz)"
    and "sz \<noteq> 0" and "buf + unat sz < 2 ^ 32"
  shows "rt_vsnprintf buf sz fmt args m = Some (length t, put_list buf (take (unat sz - 1) t @ [0]) m)"
proof -
  have e: "buffer_end buf sz = buf + unat sz" using assms(4) by (simp add: buffer_end_def)
  have n: "0 < unat sz" using assms(3) by (simp add: unat_gt_0)
  from format_loop_eq [OF assms(2,1), of 0] have loop: "format_loop (buf + unat sz) fmt args (buf, m) =
      Some (buf + length t, put_list buf (take (unat sz) t) m)" by (simp add: put_all_eq)
  have "(put_list buf (take (unat sz) t) m)(buf + unat sz - 1 := 0) = put_list buf (take (unat sz - 1) t @ [0]) m"
    if "unat sz \<le> length t"
    using that n by (intro ext) (auto simp: put_list_def nth_append)
  moreover have "(put_list buf (take (unat sz) t) m)(buf + length t := 0) = put_list buf (take (unat sz - 1) t @ [0]) m"
    if "length t < unat sz"
    using that by (intro ext) (auto simp: put_list_def nth_append)
  ultimately show ?thesis
    using n loop by (simp add: rt_vsnprintf_def e)
qed

text \<open>
  Claim C14 (functional). Where the arguments' strings lie outside the buffer, \<^verbatim>\<open>rt_vsnprintf\<close>
  returns the length of the whole text, however large the buffer is; the buffer holds as much of the text
  as fits, with a zero behind it; no byte outside the buffer changes.
\<close>

theorem vsnprintf_writes_what_fits:
  assumes "format_text strs fmt args = Some t" and "strings_at strs m buf (buf + unat sz)"
    and "sz \<noteq> 0" and "buf + unat sz < 2 ^ 32"
  shows "rt_vsnprintf buf sz fmt args m = Some (length t, put_list buf (take (unat sz - 1) t @ [0]) m)"
  using assms by (rule rt_vsnprintf_eq)

definition string_of :: "u8 list \<Rightarrow> string" where "string_of = map (\<lambda>b. char_of (unat b))"

text \<open>A memory with the string \<^verbatim>\<open>"idle"\<close> at address 200.\<close>

definition idle_memory :: memory where "idle_memory = put_list 200 (chars ''idle'') (\<lambda>_. 0)"

theorem vsnprintf_writes_what_fits_witness:
  "rt_vsnprintf 100 10 (chars ''%s:%+04d'') [200, 7] idle_memory =
     Some (9, put_list 100 (chars ''idle:+007'' @ [0]) idle_memory) \<and>
   rt_vsnprintf 100 8 (chars ''%s:%+04d'') [200, 7] idle_memory =
     Some (9, put_list 100 (chars ''idle:+0'' @ [0]) idle_memory)"
proof -
  let ?strs = "\<lambda>s. if s = 200 then Some (chars ''idle'') else None"
  have t: "format_text ?strs (chars ''%s:%+04d'') [200, 7] = Some (chars ''idle:+007'')" by code_simp
  have "strings_at ?strs idle_memory 100 e" if "e \<le> 200" for e
    using that by (auto simp: strings_at_def string_arg_def idle_memory_def put_list_def chars_def)
  from vsnprintf_writes_what_fits [OF t this, of 10] vsnprintf_writes_what_fits [OF t this, of 8]
  show ?thesis by (simp add: chars_def)
qed

section \<open>Numbers\<close>

lemma small_digit: "r < 10 \<Longrightarrow> unat (small_digits ! r) = 48 + r"
proof -
  have "\<forall>r \<in> set [0..<10]. unat (small_digits ! r) = 48 + r" by code_simp
  then show "r < 10 \<Longrightarrow> unat (small_digits ! r) = 48 + r" by simp
qed

lemma char_code:
  "(of_char (char_of (unat (b :: u8))) :: nat) = unat b" "(of_char (char_of (unat b)) :: int) = int (unat b)"
proof -
  show "(of_char (char_of (unat b)) :: nat) = unat b"
    using unsigned_less [of b, where ?'a = nat] by simp
  then show "(of_char (char_of (unat b)) :: int) = int (unat b)" by (metis of_nat_of_char)
qed

text \<open>Reading the digits of a number gives the number.\<close>

lemma digits_step:
  assumes "r < 10"
  shows "digits acc (char_of (unat (small_digits ! r)) # cs) = digits (10 * acc + int r) cs"
  using char_code(2) [of "small_digits ! r"] small_digit [OF assms] assms by simp

lemma digits_number:
  "digits acc (string_of (rev (number_digits small_digits 10 n)) @ cs) =
   digits (acc * 10 ^ length (number_digits small_digits 10 n) + int n) cs"
proof (induction n arbitrary: acc cs rule: less_induct)
  case (less n)
  show ?case
  proof (cases "n = 0")
    case True
    then show ?thesis by (simp add: number_digits.simps [of _ _ 0] string_of_def)
  next
    case False
    then have n: "number_digits small_digits 10 n =
        small_digits ! (n mod 10) # number_digits small_digits 10 (n div 10)"
      by (subst number_digits.simps) (simp add: divide_def)
    define k where "k = length (number_digits small_digits 10 (n div 10))"
    have "10 * int (n div 10) + int (n mod 10) = int n" by (simp add: zdiv_int zmod_int)
    then have val: "10 * (acc * 10 ^ k + int (n div 10)) + int (n mod 10) = acc * 10 ^ Suc k + int n"
      by (simp add: algebra_simps)
    have "digits acc (string_of (rev (number_digits small_digits 10 n)) @ cs) =
        digits acc (string_of (rev (number_digits small_digits 10 (n div 10))) @
          char_of (unat (small_digits ! (n mod 10))) # cs)"
      by (simp add: n string_of_def)
    also have "\<dots> = digits (10 * (acc * 10 ^ k + int (n div 10)) + int (n mod 10)) cs"
      using False by (subst less.IH) (simp_all add: k_def digits_step del: digits.simps)
    also have "\<dots> = digits (acc * 10 ^ Suc k + int n) cs" by (simp only: val)
    finally show ?thesis by (simp add: n k_def)
  qed
qed

lemma number_digits_length: "n < 10 ^ k \<Longrightarrow> length (number_digits ds 10 n) \<le> k"
proof (induction k arbitrary: n)
  case (Suc k)
  then have "n div 10 < 10 ^ k" by (simp add: div_less_iff_less_mult mult.commute)
  with Suc.IH show ?case by (subst number_digits.simps) (simp add: divide_def)
qed (simp add: number_digits.simps)

lemma number_digits_chars:
  "\<forall>b \<in> set (number_digits small_digits 10 n). 48 \<le> unat b \<and> unat b < 58"
proof (induction n rule: less_induct)
  case (less n)
  show ?case
  proof (cases "n = 0")
    case False
    with less [of "n div 10"] small_digit [of "n mod 10"] show ?thesis
      by (subst number_digits.simps) (simp add: divide_def)
  qed (simp add: number_digits.simps)
qed

text \<open>The digits of a word, most significant first.\<close>

definition decimal :: "u32 \<Rightarrow> u8 list" where
  "decimal n = rev (if n = 0 then [ch CHR ''0''] else number_digits small_digits 10 (unat n))"

lemma decimal_facts:
  "digits 0 (string_of (decimal n)) = int (unat n)" "decimal n \<noteq> []" "length (decimal n) \<le> 10"
  "\<forall>b \<in> set (decimal n). 48 \<le> unat b \<and> unat b < 58"
proof -
  have "unat n < 10 ^ 10" using unsigned_less [of n, where ?'a = nat] by simp
  then have l: "length (number_digits small_digits 10 (unat n)) \<le> 10" by (rule number_digits_length)
  show "digits 0 (string_of (decimal n)) = int (unat n)"
    using digits_number [of 0 "unat n" "[]"] char_code(2) [of 48] by (simp add: decimal_def string_of_def)
  show "decimal n \<noteq> []" "length (decimal n) \<le> 10" "\<forall>b \<in> set (decimal n). 48 \<le> unat b \<and> unat b < 58"
    using l number_digits_chars [of "unat n"]
    by (auto simp: decimal_def unat_eq_zero number_digits.simps [of _ _ "unat n"])
qed

text \<open>What \<^verbatim>\<open>"%d"\<close> says.\<close>

definition decimal_text :: "u32 \<Rightarrow> u8 list" where
  "decimal_text n = (if sint n < 0 then ch CHR ''-'' # decimal (- n) else decimal n)"

lemma format_decimal: "format_text strs (chars ''%d'') [n] = Some (decimal_text n)"
proof -
  have n: "number_text n 10 (- 1) (- 1) SIGN = decimal_text n"
    by (auto simp: number_text_def decimal_text_def decimal_def tmp_of_def sign_of_def Let_def)
  have p: "parse_flags 0 (chars ''d'') = (0, chars ''d'')" "parse_width 0 (chars ''d'') [n] = Some (0, - 1, chars ''d'', [n])"
    "parse_precision (chars ''d'') [n] = Some (- 1, chars ''d'', [n])" "parse_qualifier (chars ''d'') = (0, chars ''d'')"
    "conversion_text strs 0 (- 1) (- 1) 0 (chars ''d'') [n] = Some ([], [], number_text n 10 (- 1) (- 1) SIGN)"
    by (simp_all add: chars_def parse_width_def parse_precision_def parse_qualifier_def conversion_text_def
      peek_def ISDIGIT_def next_arg_def number_arg_def Let_def)
  then have "directive_text strs (chars ''d'') [n] = Some ([], [], number_text n 10 (- 1) (- 1) SIGN)"
    by (simp add: directive_text_def)
  then show ?thesis
    by (subst format_text.simps) (simp add: n chars_def peek_def format_text.simps [of _ "[]"])
qed

lemma sint_cases: "sint n = (if uint n < 2 ^ 31 then uint n else uint n - 2 ^ 32)" for n :: u32
proof -
  have "uint n < 2 ^ 32" using uint_lt2p [of n] by simp
  moreover have "sint n = take_bit 32 (uint n + 2 ^ 31) - 2 ^ 31"
    by (simp add: sint_uint signed_take_bit_eq_take_bit_shift)
  ultimately show ?thesis
    using uint_ge_0 [of n] mod_add_self2 [of "uint n - 2 ^ 31" "2 ^ 32"]
    by (auto simp: take_bit_eq_mod add.commute)
qed

lemma decimal_text_facts:
  "length (decimal_text n) \<le> 11" "\<forall>b \<in> set (decimal_text n). b \<noteq> 0" "atoi (string_of (decimal_text n)) = sint n"
proof -
  note D = decimal_facts
  show "length (decimal_text n) \<le> 11" "\<forall>b \<in> set (decimal_text n). b \<noteq> 0"
    using D(3) [of n] D(3) [of "- n"] D(4) [of n] D(4) [of "- n"] by (auto simp: decimal_text_def)
  obtain c cs where c: "decimal n = c # cs" using D(2) [of n] by (cases "decimal n") auto
  with D(4) [of n] have "48 \<le> unat c" "unat c < 58" by auto
  then have nn: "atoi (string_of (decimal n)) = digits 0 (string_of (decimal n))"
    by (simp add: c atoi_def string_of_def is_space_def char_code)
  have neg: "atoi (string_of (45 # t)) = - digits 0 (string_of t)" for t
    using char_code(1) [of 45] by (simp add: atoi_def string_of_def is_space_def)
  show "atoi (string_of (decimal_text n)) = sint n"
  proof (cases "sint n < 0")
    case True
    then have "int (unat (- n)) = - sint n"
      using uint_lt2p [of n] uint_ge_0 [of n] by (auto simp: sint_cases uint_word_ariths zmod_zminus1_eq_if split: if_splits)
    with True show ?thesis by (simp add: decimal_text_def neg D(1))
  next
    case False
    then have "int (unat n) = sint n" using uint_lt2p [of n] by (auto simp: sint_cases split: if_splits)
    moreover have "decimal_text n = decimal n" using False by (simp add: decimal_text_def)
    ultimately show ?thesis using nn D(1) [of n] by simp
  qed
qed

lemma str_at_put: "\<forall>b \<in> set t. b \<noteq> 0 \<Longrightarrow> str_at (put_list a (t @ [0]) m) a t"
proof (induction t arbitrary: a m)
  case (Cons c t)
  then show ?case by (simp add: put_list_Cons) (simp add: put_list_def)
qed (simp add: put_list_Cons)

text \<open>
  \<^verbatim>\<open>rt_snprintf\<close> of a number with \<^verbatim>\<open>"%d"\<close> into a buffer of at
  least twelve bytes leaves a string there that \<^verbatim>\<open>atoi\<close> reads as this number, the least one included.
\<close>

theorem decimal_roundtrip:
  assumes "12 \<le> unat sz" and "buf + unat sz < 2 ^ 32"
  shows "\<exists>t m'. rt_snprintf buf sz (chars ''%d'') [n] m = Some (length t, m') \<and> str_at m' buf t \<and>
    atoi (string_of t) = sint n"
proof -
  have "strings_at (\<lambda>_. None) m buf (buf + unat sz)" by (simp add: strings_at_def)
  moreover have "sz \<noteq> 0" using assms(1) by auto
  ultimately have "rt_vsnprintf buf sz (chars ''%d'') [n] m =
      Some (length (decimal_text n), put_list buf (take (unat sz - 1) (decimal_text n) @ [0]) m)"
    using rt_vsnprintf_eq [OF format_decimal] assms(2) by blast
  moreover have "take (unat sz - 1) (decimal_text n) = decimal_text n"
    using decimal_text_facts(1) [of n] assms(1) by simp
  ultimately show ?thesis
    using decimal_text_facts(2,3) [of n] str_at_put [of "decimal_text n" buf m]
    by (auto simp: rt_snprintf_def)
qed

theorem decimal_roundtrip_witness:
  "\<exists>t m'. rt_snprintf 100 12 (chars ''%d'') [0x80000000] idle_memory = Some (length t, m') \<and> str_at m' 100 t \<and>
    atoi (string_of t) = - 2147483648"
  using decimal_roundtrip [of 12 100 "0x80000000" idle_memory] by simp

section \<open>Where formats are not what C says\<close>

lemma octal_digits: "number_digits ds 8 n = number_digits ds 16 n"
  by (induction n rule: less_induct) (subst (1 2) number_digits.simps, simp add: divide_def)

lemma octal_number: "print_number e a 8 width precision flags b = print_number e a 16 width precision flags b"
proof -
  have "tmp_of ty 8 a = tmp_of ty 16 a" for ty by (simp only: tmp_of_def octal_digits)
  then show ?thesis by (simp only: print_number_eq number_text_def)
qed

lemma octal_directive: "directive e (chars ''o'') args b = directive e (chars ''x'') args b"
  by (simp add: directive_def chars_def parse_width_def parse_precision_def parse_qualifier_def conversion_def
    peek_def ISDIGIT_def next_arg_def print_integer_def octal_number Let_def)

lemma format_precision_0: "format_text strs (chars ''%.0u'') [n] = Some []"
proof -
  have n: "number_text n 10 (- 1) 0 0 = []"
    by (simp add: number_text_def sign_of_def Let_def)
  have p: "parse_flags 0 (chars ''.0u'') = (0, chars ''.0u'')"
    "parse_width 0 (chars ''.0u'') [n] = Some (0, - 1, chars ''.0u'', [n])"
    "parse_precision (chars ''.0u'') [n] = Some (0, chars ''u'', [n])" "parse_qualifier (chars ''u'') = (0, chars ''u'')"
    "conversion_text strs 0 (- 1) 0 0 (chars ''u'') [n] = Some ([], [], number_text n 10 (- 1) 0 0)"
    by (simp_all add: chars_def parse_width_def parse_precision_def parse_qualifier_def conversion_text_def
      peek_def ISDIGIT_def next_arg_def number_arg_def Let_def)
  then have "directive_text strs (chars ''.0u'') [n] = Some ([], [], [])" by (simp add: directive_text_def n)
  then show ?thesis
    by (subst format_text.simps) (simp add: chars_def peek_def format_text.simps [of _ "[]"])
qed

lemma format_width_2:
  assumes "strs s = Some t"
  shows "format_text strs (chars ''%2s'') [s] = Some (string_text 0 2 (- 1) t)"
proof -
  have p: "parse_flags 0 (chars ''2s'') = (0, chars ''2s'')"
    "parse_width 0 (chars ''2s'') [s] = Some (0, 2, chars ''s'', [s])"
    "parse_precision (chars ''s'') [s] = Some (- 1, chars ''s'', [s])" "parse_qualifier (chars ''s'') = (0, chars ''s'')"
    "conversion_text strs 0 2 (- 1) 0 (chars ''s'') [s] = Some ([], [], string_text 0 2 (- 1) t)"
    by (simp_all add: chars_def parse_width_def parse_precision_def parse_qualifier_def conversion_text_def
      peek_def ISDIGIT_def next_arg_def assms Let_def)
  then have "directive_text strs (chars ''2s'') [s] = Some ([], [], string_text 0 2 (- 1) t)"
    by (simp add: directive_text_def)
  then show ?thesis
    by (subst format_text.simps) (simp add: chars_def peek_def format_text.simps [of _ "[]"])
qed

text \<open>
  Three formats do not mean what they mean in C: \<^verbatim>\<open>"%o"\<close> prints
  hexadecimal digits; with precision 0 no number at all is printed; and a width cuts longer strings off.
\<close>

theorem formats_unlike_c:
  assumes "3 \<le> unat sz" and "buf + unat sz < 2 ^ 32" and "s \<noteq> 0" and "str_at m (unat s) t" and "2 \<le> length t"
    and "unat s + length t < buf \<or> buf + unat sz \<le> unat s"
  shows "rt_vsnprintf buf sz (chars ''%o'') args m = rt_vsnprintf buf sz (chars ''%x'') args m \<and>
    rt_vsnprintf buf sz (chars ''%.0u'') [n] m = Some (0, put_list buf [0] m) \<and>
    rt_vsnprintf buf sz (chars ''%2s'') [s] m = Some (2, put_list buf (take 2 t @ [0]) m)"
proof (intro conjI)
  have "format_loop e (chars ''%o'') args b = format_loop e (chars ''%x'') args b" for e b
    using octal_directive [of e args b]
    by (subst (1 2) format_loop.simps) (simp add: chars_def peek_def)
  then show "rt_vsnprintf buf sz (chars ''%o'') args m = rt_vsnprintf buf sz (chars ''%x'') args m"
    by (simp add: rt_vsnprintf_def)
  have sz: "sz \<noteq> 0" using assms(1) by auto
  have "strings_at (\<lambda>_. None) m buf (buf + unat sz)" by (simp add: strings_at_def)
  from rt_vsnprintf_eq [OF format_precision_0 this sz assms(2), of n]
  show "rt_vsnprintf buf sz (chars ''%.0u'') [n] m = Some (0, put_list buf [0] m)" by simp
  define strs where "strs = (\<lambda>x. if x = s then Some t else None)"
  have "strs s = Some t" by (simp add: strs_def)
  note F = format_width_2 [of strs, OF this]
  have "strings_at strs m buf (buf + unat sz)" using assms by (auto simp: strings_at_def strs_def string_arg_def)
  moreover have "string_text 0 2 (- 1) t = take 2 t" using assms(5) by (simp add: string_text_def Let_def min_def)
  ultimately show "rt_vsnprintf buf sz (chars ''%2s'') [s] m = Some (2, put_list buf (take 2 t @ [0]) m)"
    using rt_vsnprintf_eq [OF F] sz assms(1,2,5) by (simp add: min_absorb2)
qed

theorem formats_unlike_c_witness:
  "rt_vsnprintf 100 8 (chars ''%.0u'') [7] idle_memory = Some (0, put_list 100 [0] idle_memory) \<and>
   rt_vsnprintf 100 8 (chars ''%2s'') [200] idle_memory = Some (2, put_list 100 (chars ''id'' @ [0]) idle_memory)"
proof -
  have "str_at idle_memory 200 (chars ''idle'')" by (simp add: idle_memory_def put_list_def chars_def)
  with formats_unlike_c [of 8 100 200 idle_memory "chars ''idle''" "[]" 7]
  show ?thesis by (simp add: chars_def)
qed

text \<open>
  A text that is too long for the console is passed on with the zero byte that ends the buffer.
\<close>

lemma kprintf_passes_the_zero:
  assumes "format_text strs fmt args = Some t" and "strings_at strs m a (a + 255)" and "a + 255 < 2 ^ 32"
    and "255 \<le> length t"
  shows "\<exists>m'. rt_kprintf (Some dev) a fmt args m = Some (DEVICE_WRITE dev a 255, m') \<and> m' (a + 254) = 0"
proof -
  have "rt_vsnprintf a 255 fmt args m = Some (length t, put_list a (take 254 t @ [0]) m)"
    using rt_vsnprintf_eq [OF assms(1), of m a 255] assms(2,3) by simp
  with assms(4) show ?thesis by (auto simp: rt_kprintf_def put_list_def nth_append)
qed

section \<open>Comparing strings\<close>

text \<open>
  On strings \<^verbatim>\<open>rt_strcmp\<close> returns and orders as the lists of characters are
  ordered. \<^verbatim>\<open>rt_strncmp\<close> keeps the difference in a \<^verbatim>\<open>signed char\<close>: for first characters more than
  128 apart its sign is the wrong one.
\<close>

theorem strncmp_sign:
  assumes "str_at m a xs" and "str_at m b ys"
  shows "\<exists>r. rt_strcmp a b m = Some r \<and> (r = 0 \<longleftrightarrow> xs = ys) \<and> (r < 0 \<longleftrightarrow> ord_class.lexordp xs ys) \<and>
    (n \<noteq> 0 \<and> unat (m a) + 128 < unat (m b) \<longrightarrow> r < 0 \<and> 0 < rt_strncmp a b n m)"
proof -
  obtain r where r: "rt_strcmp a b m = Some r" "r = 0 \<longleftrightarrow> xs = ys" "r < 0 \<longleftrightarrow> ord_class.lexordp xs ys"
    using rt_strcmp_order [OF assms] by blast
  have "r < 0 \<and> 0 < rt_strncmp a b n m" if n: "n \<noteq> 0" and d: "unat (m a) + 128 < unat (m b)"
  proof
    have du: "uint (m a) + 128 < uint (m b)" unfolding uint_nat using d by linarith
    have ub: "uint (m b) < 256" using uint_lt2p [of "m b"] by simp
    from du have "m a \<noteq> m b" by auto
    then show "r < 0" using r(1) du by (simp add: rt_strcmp.simps [of a])
    obtain k where k: "unat n = Suc k" using n by (metis unat_eq_zero not0_implies_Suc)
    have "sint (m a - m b) = (uint (m a) - uint (m b) + 128) mod 256 - 128"
      by (simp add: sint_uint signed_take_bit_eq_take_bit_shift take_bit_eq_mod uint_word_ariths mod_simps)
    also have "\<dots> = uint (m a) - uint (m b) + 256"
    proof -
      have "uint (m a) - uint (m b) + 128 + 256 < 256" "0 \<le> uint (m a) - uint (m b) + 128 + 256"
        using du ub uint_ge_0 [of "m a"] by linarith+
      with mod_add_self2 [of "uint (m a) - uint (m b) + 128" 256] show ?thesis by simp
    qed
    finally have "sint (m a - m b) = uint (m a) - uint (m b) + 256" .
    then show "0 < rt_strncmp a b n m"
    proof -
      have "0 < uint (m a) - uint (m b) + 256" using ub uint_ge_0 [of "m a"] by linarith
      with \<open>sint (m a - m b) = uint (m a) - uint (m b) + 256\<close> show ?thesis
        by (simp add: rt_strncmp_def k Let_def)
    qed
  qed
  with r show ?thesis by blast
qed

theorem strncmp_sign_witness:
  "\<exists>m. rt_strcmp 10 20 m = Some (- 155) \<and> 0 < rt_strncmp 10 20 1 m"
proof -
  define m where "m = put_list 10 [100, 0] (put_list 20 [0xFF, 0] (\<lambda>_. 0))"
  have s: "str_at m 10 [100]" "str_at m 20 [0xFF]" by (simp_all add: m_def put_list_def)
  have "rt_strcmp 10 20 m = Some (- 155)" by (subst rt_strcmp.simps) (simp add: m_def put_list_def)
  moreover have "unat (m 10) + 128 < unat (m 20)" by (simp add: m_def put_list_def)
  with strncmp_sign [OF s, of 1] have "0 < rt_strncmp 10 20 1 m" by auto
  ultimately show ?thesis by blast
qed

section \<open>Aligned blocks\<close>

lemma unat_small: "n < 2 ^ 32 \<Longrightarrow> unat (of_nat n :: u32) = n"
  by (simp add: unsigned_of_nat take_bit_nat_eq_self)

lemma unat_power: "k < 32 \<Longrightarrow> unat (2 ^ k :: u32) = 2 ^ k"
  using unat_small [of "2 ^ k"] power_strict_increasing [of k 32 "2 :: nat"] by simp

text \<open>The next multiple of \<open>2 ^ k\<close> that is greater, as the code computes it.\<close>

lemma aligned_pointer:
  fixes p :: nat
  assumes k: "2 \<le> k" "k < 32" and p: "p + 2 ^ k < 2 ^ 32" and four: "4 dvd p"
  defines "ptr \<equiv> (of_nat p :: u32)"
  defines "q \<equiv> (if ptr AND (2 ^ k - 1) = 0 then ptr + 2 ^ k else (ptr + (2 ^ k - 1)) AND NOT (2 ^ k - 1))"
  shows "2 ^ k dvd unat q \<and> p + 4 \<le> unat q \<and> unat q \<le> p + 2 ^ k"
proof -
  define D where "D = (2 :: nat) ^ k"
  have D: "0 < D" "4 dvd D" using k(1) le_imp_power_dvd [of 2 k "2 :: nat"] by (simp_all add: D_def)
  have u: "unat (2 ^ k :: u32) = D" "unat ptr = p"
    using p k(2) by (simp_all add: ptr_def D_def unat_power unat_small)
  have m: "(2 ^ k - 1 :: u32) = mask k" by (simp add: mask_eq_exp_minus_1)
  have um: "unat (2 ^ k - 1 :: u32) = D - 1"
    using u(1) D(1) by (simp add: unat_sub word_le_nat_alt)
  have q: "unat q = (p div D + 1) * D"
  proof (cases "p mod D = 0")
    case True
    then have "unat (ptr AND (2 ^ k - 1)) = 0" by (simp add: m unat_and_mask u(2) D_def)
    then have "q = ptr + 2 ^ k" by (simp add: q_def unat_eq_zero)
    then have "unat q = p + D" using p u by (simp add: unat_word_ariths D_def)
    moreover have "p = p div D * D" using True by (metis add.right_neutral div_mult_mod_eq)
    ultimately show ?thesis by simp
  next
    case False
    then have "unat (ptr AND (2 ^ k - 1)) \<noteq> 0" by (simp add: m unat_and_mask u(2) D_def)
    then have "q = (ptr + (2 ^ k - 1)) AND NOT (mask k)" by (auto simp: q_def m)
    moreover have "unat (ptr + (2 ^ k - 1)) = p + (D - 1)" using p um u(2) by (simp add: unat_word_ariths D_def)
    ultimately have "unat q = (p + (D - 1)) div D * D" using k(2) by (simp only: unat_and_not_mask D_def)
    moreover have "(p + (D - 1)) div D = p div D + 1"
    proof (rule div_nat_eqI)
      obtain a r where "p div D * D = a" "p mod D = r" "p = a + r" "r < D"
        using div_mult_mod_eq [of p D] mod_less_divisor [OF D(1)] by metis
      then show "D * (p div D + 1) \<le> p + (D - 1)" "p + (D - 1) < D * Suc (p div D + 1)"
        using False D(1) by (simp_all add: mult.commute)
    qed
    ultimately show ?thesis by simp
  qed
  have "p < unat q" "unat q \<le> p + D"
  proof -
    obtain a r where "p div D * D = a" "p = a + r" "r < D"
      using div_mult_mod_eq [of p D] mod_less_divisor [OF D(1)] by metis
    then show "p < unat q" "unat q \<le> p + D" by (simp_all add: q)
  qed
  moreover have "4 dvd unat q" using D(2) by (simp add: q)
  moreover have "D dvd unat q" by (simp add: q)
  ultimately show ?thesis using four by (auto simp: D_def elim!: dvdE)
qed

text \<open>The code's rounding leaves a power of two as it is.\<close>

lemma align_power:
  assumes "2 \<le> k" "k < 32"
  shows "((2 ^ k + 3) AND NOT 3 :: u32) = 2 ^ k"
proof -
  have "(2 :: nat) ^ k \<le> 2 ^ 31" using assms(2) by (intro power_increasing) auto
  then have "unat (2 ^ k + 3 :: u32) = 2 ^ k + 3" using assms(2) by (simp add: unat_word_ariths unat_power)
  moreover have "(2 ^ k + 3) div 4 * 4 = (2 :: nat) ^ k"
    using assms(1) le_imp_power_dvd [of 2 k "2 :: nat"] by (auto elim!: dvdE)
  ultimately have "unat ((2 ^ k + 3) AND NOT 3 :: u32) = unat (2 ^ k :: u32)"
    using assms(2) by (simp only: unat_and_not_3 unat_power)
  then show ?thesis by (simp only: word_unat_eq_iff)
qed

lemma malloc_align_run:
  assumes "2 \<le> k" "k < 32"
  shows "rt_malloc_align fuel code sz (2 ^ k) h = do {
      (r, h1) \<leftarrow> rt_malloc fuel code (RT_ALIGN sz + 2 ^ k) h;
      (case r of
         None \<Rightarrow> Some (None, h1)
       | Some p \<Rightarrow>
           let ptr = of_nat p;
               q = (if ptr AND (2 ^ k - 1) = 0 then ptr + 2 ^ k else (ptr + (2 ^ k - 1)) AND NOT (2 ^ k - 1))
           in Some (Some q, h1\<lparr>heap_bytes := store_long (unat (q - 4)) ptr (heap_bytes h1)\<rparr>)) }"
proof -
  have "(sz + 3) AND NOT 3 = RT_ALIGN sz" by (simp add: RT_ALIGN_def add.commute)
  then show ?thesis unfolding rt_malloc_align_def Let_def align_power [OF assms] by (simp only:)
qed

text \<open>The word before the address leads back to the block.\<close>

lemma free_align_live:
  assumes ok: "heap_ok h" and live: "(p, m) \<in> heap_live h" and top: "p + m < 2 ^ 32" and q: "4 \<le> unat q"
    and b: "\<And>i. i < 4 \<Longrightarrow> heap_bytes h (unat q - 4 + i) = store_long (unat q - 4) (of_nat p) b (unat q - 4 + i)"
  shows "\<exists>h2. rt_free_align code q h = Some h2 \<and> heap_ok h2 \<and> heap_live h2 = heap_live h - {(p, m)}"
proof -
  have q4: "unat (q - 4) = unat q - 4" using q by (simp add: unat_sub word_le_nat_alt)
  from b [of 0] b [of 1] b [of 2] b [of 3]
  have "load_long (unat q - 4) (heap_bytes h) = load_long (unat q - 4) (store_long (unat q - 4) (of_nat p) b)"
    by (simp add: load_long_def)
  then have l: "load_long (unat (q - 4)) (heap_bytes h) = of_nat p" by (simp add: q4 load_store_long)
  have p: "unat (of_nat p :: u32) = p" using top by (simp add: unat_small)
  moreover from this heap_live_bounds [OF ok live] have "(of_nat p :: u32) \<noteq> 0"
    by (metis unat_0 add_is_0 le_zero_eq zero_neq_numeral)
  ultimately have "rt_free_align code q h = rt_free code (Some p) h" by (simp add: rt_free_align_def l)
  with free_live [OF ok live, of code] show ?thesis by auto
qed

definition aligned_block :: "'x heap_scheme heap_code \<Rightarrow> nat \<Rightarrow> nat \<Rightarrow> 'x heap_scheme \<Rightarrow> u32 option \<Rightarrow>
    'x heap_scheme \<Rightarrow> bool" where
  "aligned_block code n align h r h1 \<longleftrightarrow> (case r of
     None \<Rightarrow> heap_live h1 = heap_live h
   | Some q \<Rightarrow> \<exists>p m. heap_live h1 = insert (p, m) (heap_live h) \<and> (p, m) \<notin> heap_live h \<and>
       align dvd unat q \<and> p + 4 \<le> unat q \<and> unat q + n \<le> p + m \<and>
       (\<forall>b. (\<forall>x. x < unat q \<or> unat q + n \<le> x \<longrightarrow> b x = heap_bytes h1 x) \<longrightarrow>
          (\<exists>h2. rt_free_align code q (h1\<lparr>heap_bytes := b\<rparr>) = Some h2 \<and> heap_ok h2 \<and> heap_live h2 = heap_live h)))"

text \<open>
  For an alignment that is a power of two, \<^verbatim>\<open>rt_malloc_align\<close> returns; it
  is refused and changes nothing, or gives an aligned address such that the bytes asked for lie in a new block of
  the heap; whatever is then written to them, \<^verbatim>\<open>rt_free_align\<close> releases just this block.
\<close>

theorem malloc_align_roundtrip:
  fixes h :: "'x heap_scheme"
  assumes ok: "heap_ok h" and k: "2 \<le> k" "k < 32" and bound: "align_up (unat sz) + 2 ^ k \<le> max_request"
  shows "\<exists>r h1. rt_malloc_align (heap_end h) code sz (2 ^ k) h = Some (r, h1) \<and> heap_ok h1 \<and>
    aligned_block code (unat sz) (2 ^ k) h r h1"
proof -
  have sz: "unat sz \<le> 0xFFFFFFFC"
    using bound align_up_ge(1) [of "unat sz"] by (simp add: max_request_def)
  define n where "n = RT_ALIGN sz + 2 ^ k"
  have un: "unat n = align_up (unat sz) + 2 ^ k"
    using bound k(2) by (simp add: n_def unat_word_ariths RT_ALIGN_up [OF sz] unat_power max_request_def)
  note run = malloc_align_run [OF k, of "heap_end h" code sz h, folded n_def]
  from heap_alloc.alloc_returns [OF ok, of code n] obtain r h0 where
    a: "rt_malloc (heap_end h) code n h = Some (r, h0)" "heap_ok h0" by blast
  show ?thesis
  proof (cases r)
    case None
    with a have "rt_malloc_align (heap_end h) code sz (2 ^ k) h = Some (None, h0)"
      by (simp add: run None)
    moreover have "heap_live h0 = heap_live h" using a None heap_alloc.alloc_none [OF ok] by blast
    ultimately show ?thesis using a(2) by (auto simp: aligned_block_def)
  next
    case (Some p)
    have "unat n \<le> max_request" using bound un by simp
    from heap_alloc.alloc_some [OF ok a(1) [unfolded Some] this] obtain m where
      m: "heap_live h0 = insert (p, m) (heap_live h)" "(p, m) \<notin> heap_live h" "unat n \<le> m" by blast
    have live: "(p, m) \<in> heap_live h0" by (simp add: m(1))
    note B = heap_live_bounds [OF a(2) live]
    from a(2) obtain bs where "heap_rep h0 bs" by (auto simp: heap_ok_def)
    from heap_repD(5,10) [OF this] B have top: "p + m < 2 ^ 32" by simp
    define q :: u32 where "q = (if (of_nat p :: u32) AND (2 ^ k - 1) = 0 then of_nat p + 2 ^ k
      else (of_nat p + (2 ^ k - 1)) AND NOT (2 ^ k - 1))"
    have Q: "2 ^ k dvd unat q" "p + 4 \<le> unat q" "unat q \<le> p + 2 ^ k"
      using aligned_pointer [OF k, of p] top m(3) B unfolding un q_def by auto
    define h1 where "h1 = h0\<lparr>heap_bytes := store_long (unat (q - 4)) (of_nat p) (heap_bytes h0)\<rparr>"
    have done': "rt_malloc_align (heap_end h) code sz (2 ^ k) h = Some (Some q, h1)"
      using a(1) by (simp add: run Some q_def h1_def Let_def)
    have q4: "unat (q - 4) = unat q - 4" using Q(2) by (simp add: unat_sub word_le_nat_alt)
    have free: "\<exists>h2. rt_free_align code q (h1\<lparr>heap_bytes := b\<rparr>) = Some h2 \<and> heap_ok h2 \<and> heap_live h2 = heap_live h"
      if b: "\<And>x. x < unat q \<or> unat q + unat sz \<le> x \<Longrightarrow> b x = heap_bytes h1 x" for b
    proof -
      have g: "heap_ok (h1\<lparr>heap_bytes := b\<rparr>)" "heap_live (h1\<lparr>heap_bytes := b\<rparr>) = heap_live h0"
        using a(2) by (simp_all add: h1_def bytes_irrelevant)
      have "b (unat q - 4 + i) = store_long (unat q - 4) (of_nat p) (heap_bytes h0) (unat q - 4 + i)" if "i < 4" for i
      proof -
        have "b (unat q - 4 + i) = heap_bytes h1 (unat q - 4 + i)"
          using Q(2) that by (intro b disjI1) linarith
        then show ?thesis by (simp add: h1_def q4)
      qed
      with free_align_live [OF g(1), of p m q "heap_bytes h0" code] live g(2) top Q(2) m show ?thesis by auto
    qed
    have "aligned_block code (unat sz) (2 ^ k) h (Some q) h1"
      unfolding aligned_block_def option.case
      using m Q free un align_up_ge(1) [of "unat sz"]
      by (intro exI [of _ p] exI [of _ m]) (auto simp: h1_def bytes_irrelevant)
    with done' a(2) show ?thesis by (auto simp: h1_def bytes_irrelevant)
  qed
qed

theorem malloc_align_roundtrip_witness:
  "\<exists>r h1. rt_malloc_align (heap_end small_heap) no_hooks 10 (2 ^ 3) small_heap = Some (r, h1) \<and> heap_ok h1 \<and>
    aligned_block no_hooks 10 (2 ^ 3) small_heap r h1"
  using malloc_align_roundtrip [OF small_heap_rep(3), of 3 10 no_hooks]
  by (simp add: align_up_def max_request_def)

text \<open>\<^verbatim>\<open>rt_strdup\<close> gives a copy of the string, unless it overlaps the new block from below.\<close>

lemma strdup_copies:
  fixes h :: "'x heap_scheme"
  assumes ok: "heap_ok h" and str: "str_at (heap_bytes h) s xs" and n: "length xs + 1 < 2 ^ 32"
    and dup: "rt_strdup (heap_end h) code s h = Some (Some p, h1)" and away: "\<not> (s < p \<and> p \<le> s + length xs)"
  shows "heap_ok h1 \<and> str_at (heap_bytes h1) p xs"
proof -
  define n where "n = (of_nat (length xs + 1) :: u32)"
  have un: "unat n = length xs + 1" using assms(3) unfolding n_def by (rule unat_small)
  from heap_alloc.alloc_returns [OF ok, of code n] obtain r h0 where
    a: "rt_malloc (heap_end h) code n h = Some (r, h0)" "heap_ok h0" by blast
  from dup have r: "r = Some p" "h1 = h0\<lparr>heap_bytes := rt_memcpy p s n (heap_bytes h0)\<rparr>"
    using a(1) by (auto simp: rt_strdup_def rt_strlen_eq [OF str] n_def split: option.splits)
  have bytes: "heap_bytes h0 = heap_bytes h"
  proof -
    from ok obtain bs where rep: "heap_rep h bs" by (auto simp: heap_ok_def)
    show ?thesis
      by (rule malloc_cases [OF ok rep fuel_enough [OF rep], where n = n and code = code])
        (use a same_world_sel(1) in auto)
  qed
  have "\<not> (s < p \<and> p < s + unat n)" using away un by auto
  then have copy: "heap_bytes h1 = copy_bytes p s (length xs + 1) (heap_bytes h)"
    by (simp add: r(2) rt_memcpy_eq un bytes)
  have "str_at (copy_bytes p s (k + length xs + 1) m) (p + k) xs" if "str_at m (s + k) xs" for k m
    using that
  proof (induction xs arbitrary: k)
    case (Cons x xs)
    from Cons.IH [of "k + 1"] Cons.prems show ?case by (simp add: copy_bytes_def)
  qed (simp add: copy_bytes_def)
  from this [of "heap_bytes h" 0] str have "str_at (heap_bytes h1) p xs" by (simp add: copy)
  moreover have "heap_ok h1" using a(2) by (simp add: r(2) bytes_irrelevant)
  ultimately show ?thesis by blast
qed

end
