(* ===== verification/Device_Ipc.thy ===== *)
theory Device_Ipc
  imports Ipc
begin

text \<open>
  What device drivers use between threads: the data queues of \<^verbatim>\<open>dataqueue.c\<close> and the completions of
  \<^verbatim>\<open>completion.c\<close>. The list nodes of waiting threads are in \<open>suspend_thread\<close> at the address of the
  list head's field. Waiting operations are split where the thread gives up the processor.
\<close>

abbreviation RT_ENOMEM :: rt_err where "RT_ENOMEM \<equiv> 5"
abbreviation DATAQUEUE_MAGIC :: u32 where "DATAQUEUE_MAGIC \<equiv> 0xbead0e0e"
abbreviation RT_DATAQUEUE_EVENT_POP :: u32 where "RT_DATAQUEUE_EVENT_POP \<equiv> 1"
abbreviation RT_DATAQUEUE_EVENT_PUSH :: u32 where "RT_DATAQUEUE_EVENT_PUSH \<equiv> 2"
abbreviation RT_DATAQUEUE_EVENT_LWM :: u32 where "RT_DATAQUEUE_EVENT_LWM \<equiv> 3"
abbreviation RT_COMPLETED :: u32 where "RT_COMPLETED \<equiv> 1"
abbreviation RT_UNCOMPLETED :: u32 where "RT_UNCOMPLETED \<equiv> 0"

text \<open>
  The two indices are bit fields of 15 bits. An item is a pointer and a size; \<open>dq_items\<close> is the
  memory at \<open>dq_queue\<close>.
\<close>

type_synonym data_item = "nat \<times> u32"

record rt_data_queue =
  dq_magic :: u32
  dq_size :: u16
  dq_lwm :: u16
  get_index :: "15 word"
  put_index :: "15 word"
  is_empty :: bool
  is_full :: bool
  dq_queue :: "nat option"
  dq_items :: "data_item list"
  evt_notify :: "fptr option"

record drivers = ipc +
  data_queues :: "nat \<Rightarrow> rt_data_queue option"
  completions :: "nat \<Rightarrow> u32 option"

definition dq_put :: "nat \<Rightarrow> rt_data_queue \<Rightarrow> 'x drivers_scheme \<Rightarrow> 'x drivers_scheme" where
  "dq_put a q s = s\<lparr>data_queues := (data_queues s)(a \<mapsto> q)\<rparr>"

text \<open>\<^verbatim>\<open>&queue->suspended_push_list\<close> and \<^verbatim>\<open>&queue->suspended_pop_list\<close>\<close>

definition push_list :: "nat \<Rightarrow> nat" where "push_list a = a + 16"
definition pop_list :: "nat \<Rightarrow> nat" where "pop_list a = a + 24"

text \<open>The thread operations, and what a notification does: queue, event.\<close>

record 's dcode =
  d_code :: "'s scode"
  d_notify :: "fptr \<Rightarrow> nat \<Rightarrow> u32 \<Rightarrow> 's \<Rightarrow> 's"

section \<open>Waiting in a list of drivers\<close>

text \<open>
  Reset the error, suspend the thread, append it to the list, start its timer; not in an
  interrupt.
\<close>

definition driver_wait :: "'x sched_scheme scode \<Rightarrow> nat \<Rightarrow> nat \<Rightarrow> int \<Rightarrow> 'x sched_scheme \<Rightarrow> 'x sched_scheme option" where
  "driver_wait code l t time s = do {
     RT_ASSERT (rt_interrupt_nest s = 0);
     (_, s1) \<leftarrow> rt_thread_suspend code t (clear_error t s);
     let s2 = s1\<lparr>suspend_thread := (suspend_thread s1)(l := suspend_thread s1 l @ [t])\<rparr>;
     if 0 < time then start_thread_timer code t (of_int time) s2 else Some s2 }"

text \<open>
  The loop of \<^verbatim>\<open>rt_data_queue_push\<close> and \<^verbatim>\<open>rt_data_queue_pop\<close>: after a wake-up the thread
  looks again, and waits again for the whole time. \<open>fuel\<close> bounds the rounds in which the scheduler comes
  straight back.
\<close>

definition look_again :: "nat \<Rightarrow> ('r, 'x sched_scheme) waiting_op \<Rightarrow>
    (u32 \<Rightarrow> 'x sched_scheme \<Rightarrow> ('r progress \<times> 'x sched_scheme) option) \<Rightarrow>
    'x sched_scheme \<Rightarrow> ('r progress \<times> 'x sched_scheme) option" where
  "look_again t ops again s = do {
     th \<leftarrow> threads s t;
     let (level, s1) = rt_hw_interrupt_disable s;
     if th_error th \<noteq> RT_EOK then Some (Returned (failed ops (th_error th)), rt_hw_interrupt_enable level s1)
     else again level s1 }"

fun retry_loop :: "nat \<Rightarrow> 'x sched_scheme scode \<Rightarrow> ('r, 'x sched_scheme) waiting_op \<Rightarrow> nat option \<Rightarrow>
    int \<Rightarrow> u32 \<Rightarrow> 'x sched_scheme \<Rightarrow> ('r progress \<times> 'x sched_scheme) option" where
  "retry_loop fuel code ops self time level s = do {
     wait \<leftarrow> must_wait ops s;
     if \<not> wait then map_option (map_prod Returned id) (served ops level s)
     else if time = 0 then Some (map_prod Returned id (refusal ops level s))
     else do {
       s1 \<leftarrow> get_in_line ops time s;
       s2 \<leftarrow> rt_schedule code (rt_hw_interrupt_enable level s1);
       t \<leftarrow> self;
       if rt_current_thread s2 \<noteq> Some t then Some (Waiting, s2)
       else (case fuel of
         0 \<Rightarrow> None
       | Suc fuel' \<Rightarrow> look_again t ops (retry_loop fuel' code ops self time) s2) } }"

declare retry_loop.simps [simp del]

section \<open>Data queues\<close>

text \<open>\<open>pool\<close> is what \<^verbatim>\<open>rt_malloc\<close> returns for a size: an address and the items there.\<close>

definition rt_data_queue_init :: "(u32 \<Rightarrow> (nat \<times> data_item list) option) \<Rightarrow> nat \<Rightarrow> u16 \<Rightarrow> u16 \<Rightarrow> fptr option \<Rightarrow>
    'x drivers_scheme \<Rightarrow> (rt_err \<times> 'x drivers_scheme) option" where
  "rt_data_queue_init pool a sz lwm notify s =
    (if sz = 0 then None
     else let s1 = s\<lparr>suspend_thread := (suspend_thread s)(push_list a := [], pop_list a := [])\<rparr>;
              mem = pool (8 * ucast sz);
              q = \<lparr>dq_magic = DATAQUEUE_MAGIC, dq_size = sz, dq_lwm = lwm, get_index = 0, put_index = 0,
                is_empty = True, is_full = False, dq_queue = map_option fst mem,
                dq_items = (case mem of None \<Rightarrow> [] | Some (_, items) \<Rightarrow> items), evt_notify = notify\<rparr>
          in Some (if mem = None then - RT_ENOMEM else RT_EOK, dq_put a q s1))"

text \<open>An index moves on: in its field it wraps at \<open>2\<^sup>1\<^sup>5\<close>, and then at the size of the queue.\<close>

definition dq_next :: "u16 \<Rightarrow> 15 word \<Rightarrow> 15 word" where
  "dq_next sz i = (let j = i + 1 in if unat j = unat sz then 0 else j)"

definition dq_notify :: "'x drivers_scheme dcode \<Rightarrow> nat \<Rightarrow> u32 \<Rightarrow> 'x drivers_scheme \<Rightarrow> 'x drivers_scheme option" where
  "dq_notify code a event s = do {
     q \<leftarrow> data_queues s a;
     Some (case evt_notify q of None \<Rightarrow> s | Some f \<Rightarrow> d_notify code f a event s) }"

definition dq_store :: "'x drivers_scheme dcode \<Rightarrow> nat \<Rightarrow> data_item \<Rightarrow> u32 \<Rightarrow> 'x drivers_scheme \<Rightarrow>
    (rt_err \<times> 'x drivers_scheme) option" where
  "dq_store code a v level s = do {
     q \<leftarrow> data_queues s a;
     RT_ASSERT (unat (put_index q) < length (dq_items q));
     let put = dq_next (dq_size q) (put_index q);
     let s1 = dq_put a (q\<lparr>dq_items := (dq_items q)[unat (put_index q) := v], put_index := put, is_empty := False,
               is_full := (if put = get_index q then True else is_full q)\<rparr>) s;
     if suspend_thread s1 (pop_list a) \<noteq> []
     then map_option (Pair RT_EOK) (wake_one (d_code code) (pop_list a) level id s1)
     else map_option (Pair RT_EOK) (dq_notify code a RT_DATAQUEUE_EVENT_PUSH (rt_hw_interrupt_enable level s1)) }"

definition push_op :: "'x drivers_scheme dcode \<Rightarrow> nat \<Rightarrow> nat option \<Rightarrow> data_item \<Rightarrow>
    (rt_err, 'x drivers_scheme) waiting_op" where
  "push_op code a self v =
    \<lparr>must_wait = (\<lambda>s. map_option is_full (data_queues s a)),
     refusal = (\<lambda>level s. (- RT_ETIMEOUT, rt_hw_interrupt_enable level s)),
     get_in_line = (\<lambda>time s. do { t \<leftarrow> self; driver_wait (d_code code) (push_list a) t time s }),
     failed = id,
     served = dq_store code a v\<rparr>"

definition dq_ready :: "nat \<Rightarrow> 'x drivers_scheme \<Rightarrow> bool" where
  "dq_ready a s \<longleftrightarrow> (case data_queues s a of None \<Rightarrow> False | Some q \<Rightarrow> dq_magic q = DATAQUEUE_MAGIC)"

definition rt_data_queue_push :: "nat \<Rightarrow> 'x drivers_scheme dcode \<Rightarrow> nat \<Rightarrow> nat \<Rightarrow> u32 \<Rightarrow> int \<Rightarrow>
    'x drivers_scheme \<Rightarrow> (rt_err progress \<times> 'x drivers_scheme) option" where
  "rt_data_queue_push fuel code a data_ptr data_size timeout s = do {
     RT_ASSERT (dq_ready a s);
     let self = rt_thread_self s;
     let (level, s1) = rt_hw_interrupt_disable s;
     retry_loop fuel (d_code code) (push_op code a self (data_ptr, data_size)) self timeout level s1 }"

definition rt_data_queue_push_woken :: "nat \<Rightarrow> 'x drivers_scheme dcode \<Rightarrow> nat \<Rightarrow> nat \<Rightarrow> u32 \<Rightarrow> int \<Rightarrow> nat \<Rightarrow>
    'x drivers_scheme \<Rightarrow> (rt_err progress \<times> 'x drivers_scheme) option" where
  "rt_data_queue_push_woken fuel code a data_ptr data_size timeout t =
    (let ops = push_op code a (Some t) (data_ptr, data_size)
     in look_again t ops (retry_loop fuel (d_code code) ops (Some t) timeout))"

text \<open>The difference is taken in an \<^verbatim>\<open>int16\<close> and returned as 16 bits.\<close>

definition rt_data_queue_len :: "nat \<Rightarrow> 'x drivers_scheme \<Rightarrow> u16 option" where
  "rt_data_queue_len a s = do {
     RT_ASSERT (dq_ready a s);
     q \<leftarrow> data_queues s a;
     Some (if is_empty q then 0
       else if get_index q < put_index q then ucast (put_index q) - ucast (get_index q)
       else dq_size q + ucast (put_index q) - ucast (get_index q)) }"

text \<open>
  \<open>Notifying r e\<close>: the processor went to another thread; when this one runs again it still has to
  notify of the event \<open>e\<close> before it returns \<open>r\<close>.
\<close>

datatype 'r outcome = Result 'r | Notifying 'r u32

text \<open>
  The item is taken; when the queue is down to the mark, a thread that waits to push goes on.
\<close>

definition dq_fetch :: "'x drivers_scheme dcode \<Rightarrow> nat \<Rightarrow> u32 \<Rightarrow> 'x drivers_scheme \<Rightarrow>
    ((rt_err \<times> data_item option) outcome \<times> 'x drivers_scheme) option" where
  "dq_fetch code a level s = do {
     q \<leftarrow> data_queues s a;
     RT_ASSERT (unat (get_index q) < length (dq_items q));
     let v = dq_items q ! unat (get_index q);
     let get = dq_next (dq_size q) (get_index q);
     let s1 = dq_put a (q\<lparr>get_index := get, is_full := False,
               is_empty := (if put_index q = get then True else is_empty q)\<rparr>) s;
     len \<leftarrow> rt_data_queue_len a s1;
     if len \<le> dq_lwm q
     then do {
       s2 \<leftarrow> wake_one (d_code code) (push_list a) level id s1;
       if evt_notify q = None \<or> rt_current_thread s2 = rt_current_thread s
       then map_option (Pair (Result (RT_EOK, Some v))) (dq_notify code a RT_DATAQUEUE_EVENT_LWM s2)
       else Some (Notifying (RT_EOK, Some v) RT_DATAQUEUE_EVENT_LWM, s2) }
     else map_option (Pair (Result (RT_EOK, Some v)))
       (dq_notify code a RT_DATAQUEUE_EVENT_POP (rt_hw_interrupt_enable level s1)) }"

definition pop_op :: "'x drivers_scheme dcode \<Rightarrow> nat \<Rightarrow> nat option \<Rightarrow>
    ((rt_err \<times> data_item option) outcome, 'x drivers_scheme) waiting_op" where
  "pop_op code a self =
    \<lparr>must_wait = (\<lambda>s. map_option is_empty (data_queues s a)),
     refusal = (\<lambda>level s. (Result (- RT_ETIMEOUT, None), rt_hw_interrupt_enable level s)),
     get_in_line = (\<lambda>time s. do { t \<leftarrow> self; driver_wait (d_code code) (pop_list a) t time s }),
     failed = (\<lambda>e. Result (e, None)),
     served = dq_fetch code a\<rparr>"

definition rt_data_queue_pop :: "nat \<Rightarrow> 'x drivers_scheme dcode \<Rightarrow> nat \<Rightarrow> int \<Rightarrow> 'x drivers_scheme \<Rightarrow>
    ((rt_err \<times> data_item option) outcome progress \<times> 'x drivers_scheme) option" where
  "rt_data_queue_pop fuel code a timeout s = do {
     RT_ASSERT (dq_ready a s);
     let self = rt_thread_self s;
     let (level, s1) = rt_hw_interrupt_disable s;
     retry_loop fuel (d_code code) (pop_op code a self) self timeout level s1 }"

definition rt_data_queue_pop_woken :: "nat \<Rightarrow> 'x drivers_scheme dcode \<Rightarrow> nat \<Rightarrow> int \<Rightarrow> nat \<Rightarrow>
    'x drivers_scheme \<Rightarrow> ((rt_err \<times> data_item option) outcome progress \<times> 'x drivers_scheme) option" where
  "rt_data_queue_pop_woken fuel code a timeout t =
    (let ops = pop_op code a (Some t) in look_again t ops (retry_loop fuel (d_code code) ops (Some t) timeout))"

definition rt_data_queue_peek :: "nat \<Rightarrow> 'x drivers_scheme \<Rightarrow> (rt_err \<times> data_item option) option" where
  "rt_data_queue_peek a s = do {
     RT_ASSERT (dq_ready a s);
     q \<leftarrow> data_queues s a;
     if is_empty q then Some (- RT_EEMPTY, None)
     else do {
       RT_ASSERT (unat (get_index q) < length (dq_items q));
       Some (RT_EOK, Some (dq_items q ! unat (get_index q))) } }"

text \<open>Its two loops do what \<open>ipc_list_resume_all\<close> does; \<open>fuel\<close> bounds the threads in each list.\<close>

definition rt_data_queue_reset :: "nat \<Rightarrow> 'x drivers_scheme dcode \<Rightarrow> nat \<Rightarrow> 'x drivers_scheme \<Rightarrow>
    'x drivers_scheme option" where
  "rt_data_queue_reset fuel code a s = do {
     RT_ASSERT (dq_ready a s);
     q \<leftarrow> data_queues s a;
     let s1 = dq_put a (q\<lparr>get_index := 0, put_index := 0, is_empty := True, is_full := False\<rparr>) s;
     s2 \<leftarrow> ipc_list_resume_all fuel (d_code code) (pop_list a) (rt_enter_critical s1);
     s3 \<leftarrow> ipc_list_resume_all fuel (d_code code) (push_list a) s2;
     s4 \<leftarrow> rt_exit_critical (d_code code) s3;
     rt_schedule (d_code code) s4 }"

text \<open>The memory that is released is the result beside the state.\<close>

definition rt_data_queue_deinit :: "nat \<Rightarrow> 'x drivers_scheme dcode \<Rightarrow> nat \<Rightarrow> 'x drivers_scheme \<Rightarrow>
    (rt_err \<times> nat option \<times> 'x drivers_scheme) option" where
  "rt_data_queue_deinit fuel code a s = do {
     s1 \<leftarrow> rt_data_queue_reset fuel code a s;
     q \<leftarrow> data_queues s1 a;
     Some (RT_EOK, dq_queue q, dq_put a (q\<lparr>dq_magic := 0\<rparr>) s1) }"

section \<open>Completions\<close>

text \<open>\<^verbatim>\<open>&completion->suspended_list\<close>\<close>

definition done_list :: "nat \<Rightarrow> nat" where "done_list a = a + 4"

definition set_flag :: "nat \<Rightarrow> u32 \<Rightarrow> 'x drivers_scheme \<Rightarrow> 'x drivers_scheme" where
  "set_flag a v s = s\<lparr>completions := (completions s)(a \<mapsto> v)\<rparr>"

definition rt_completion_init :: "nat \<Rightarrow> 'x drivers_scheme \<Rightarrow> 'x drivers_scheme" where
  "rt_completion_init a s = (let (level, s1) = rt_hw_interrupt_disable s;
     s2 = set_flag a RT_UNCOMPLETED s1
     in rt_hw_interrupt_enable level (s2\<lparr>suspend_thread := (suspend_thread s2)(done_list a := [])\<rparr>))"

text \<open>When the thread runs again: its error is the result, and the flag is cleared in any case.\<close>

definition completion_woken :: "nat \<Rightarrow> nat \<Rightarrow> 'x drivers_scheme \<Rightarrow> (rt_err \<times> 'x drivers_scheme) option" where
  "completion_woken a t s = do {
     th \<leftarrow> threads s t;
     let (level, s1) = rt_hw_interrupt_disable s;
     Some (th_error th, rt_hw_interrupt_enable level (set_flag a RT_UNCOMPLETED s1)) }"

definition rt_completion_wait :: "'x drivers_scheme scode \<Rightarrow> nat \<Rightarrow> int \<Rightarrow> 'x drivers_scheme \<Rightarrow>
    (rt_err progress \<times> 'x drivers_scheme) option" where
  "rt_completion_wait code a timeout s = do {
     let self = rt_thread_self s;
     let (level, s1) = rt_hw_interrupt_disable s;
     flag \<leftarrow> completions s1 a;
     if flag = RT_COMPLETED
     then Some (Returned RT_EOK, rt_hw_interrupt_enable level (set_flag a RT_UNCOMPLETED s1))
     else do {
       RT_ASSERT (suspend_thread s1 (done_list a) = []);
       if timeout = 0 then Some (Returned (- RT_ETIMEOUT), rt_hw_interrupt_enable level s1)
       else do {
         t \<leftarrow> self;
         s2 \<leftarrow> driver_wait code (done_list a) t timeout s1;
         s3 \<leftarrow> rt_schedule code (rt_hw_interrupt_enable level s2);
         go_on t (completion_woken a t) s3 } } }"

definition rt_completion_done :: "'x drivers_scheme scode \<Rightarrow> nat \<Rightarrow> 'x drivers_scheme \<Rightarrow> 'x drivers_scheme option" where
  "rt_completion_done code a s = do {
     flag \<leftarrow> completions s a;
     if flag = RT_COMPLETED then Some s
     else do {
       let (level, s1) = rt_hw_interrupt_disable s;
       wake_one code (done_list a) level id (set_flag a RT_COMPLETED s1) } }"

end
