(* ===== verification/Data_Queue_Correct.thy ===== *)
theory Data_Queue_Correct
  imports Device_Ipc Mailbox_Correct
begin

text \<open>
  A data queue is a bounded channel of items, without urgent ones.
\<close>

section \<open>The ring\<close>

text \<open>The indices have room for \<open>2\<^sup>1\<^sup>5\<close> places.\<close>

definition dq_used :: "rt_data_queue \<Rightarrow> nat" where
  "dq_used q = (if is_empty q then 0 else if get_index q < put_index q
     then unat (put_index q) - unat (get_index q)
     else unat (dq_size q) + unat (put_index q) - unat (get_index q))"

definition dq_wf :: "rt_data_queue \<Rightarrow> bool" where
  "dq_wf q \<longleftrightarrow> (let c = unat (dq_size q) in 0 < c \<and> c \<le> 2 ^ 15 \<and> length (dq_items q) = c \<and>
     unat (get_index q) < c \<and> unat (put_index q) < c \<and> (is_empty q \<longrightarrow> put_index q = get_index q) \<and>
     (is_full q \<longleftrightarrow> put_index q = get_index q \<and> \<not> is_empty q))"

definition dq_list :: "rt_data_queue \<Rightarrow> data_item list" where
  "dq_list q = circ (unat (dq_size q)) (unat (get_index q)) (dq_used q) (dq_items q)"

lemma dq_list_length [simp]: "length (dq_list q) = dq_used q"
  by (simp add: dq_list_def)

lemma dq_wfD:
  assumes "dq_wf q"
  shows "0 < unat (dq_size q)" "unat (dq_size q) \<le> 2 ^ 15" "length (dq_items q) = unat (dq_size q)"
    "unat (get_index q) < unat (dq_size q)" "unat (put_index q) < unat (dq_size q)"
    "is_empty q \<Longrightarrow> put_index q = get_index q" "is_full q \<longleftrightarrow> put_index q = get_index q \<and> \<not> is_empty q"
  using assms by (simp_all add: dq_wf_def Let_def)

lemma dq_used_facts:
  assumes "dq_wf q"
  shows "dq_used q \<le> unat (dq_size q)" "dq_used q = 0 \<longleftrightarrow> is_empty q" "dq_used q = unat (dq_size q) \<longleftrightarrow> is_full q"
    "unat (put_index q) = (unat (get_index q) + dq_used q) mod unat (dq_size q)"
proof -
  note W = dq_wfD [OF assms]
  consider "is_empty q" | "\<not> is_empty q" "unat (get_index q) < unat (put_index q)"
    | "\<not> is_empty q" "unat (put_index q) < unat (get_index q)" | "\<not> is_empty q" "put_index q = get_index q"
    by (metis linorder_neqE_nat word_unat_eq_iff)
  then show "dq_used q \<le> unat (dq_size q)" "dq_used q = 0 \<longleftrightarrow> is_empty q" "dq_used q = unat (dq_size q) \<longleftrightarrow> is_full q"
    "unat (put_index q) = (unat (get_index q) + dq_used q) mod unat (dq_size q)"
    using W by (cases; auto simp: dq_used_def word_less_nat_alt word_unat_eq_iff)+
qed

lemma dq_next_mod:
  assumes "unat i < unat sz" and "unat sz \<le> 2 ^ 15"
  shows "unat (dq_next sz i) = (unat i + 1) mod unat sz"
proof (cases "unat i + 1 = 2 ^ 15")
  case True
  with assms have e: "unat sz = 2 ^ 15" by simp
  have "unat (i + 1) = 0" using True by (simp add: unat_word_ariths)
  then show ?thesis using True e by (simp add: dq_next_def Let_def)
next
  case False
  have "unat i < 2 ^ 15" using unsigned_less [of i, where ?'a = nat] by simp
  with False have "unat (i + 1) = unat i + 1" by (simp add: unat_word_ariths)
  with assms show ?thesis by (auto simp: dq_next_def Let_def)
qed

lemma dq_used_after:
  assumes "unat (get_index q) < unat (dq_size q)" "unat (put_index q) = (unat (get_index q) + n) mod unat (dq_size q)"
    "n \<le> unat (dq_size q)" "is_empty q \<longleftrightarrow> n = 0"
  shows "dq_used q = n"
proof (cases "unat (get_index q) + n < unat (dq_size q)")
  case True
  with assms show ?thesis by (auto simp: dq_used_def word_less_nat_alt)
next
  case False
  with assms have "unat (put_index q) = unat (get_index q) + n - unat (dq_size q)"
    by (auto simp: le_mod_geq not_less)
  with assms False show ?thesis by (auto simp: dq_used_def word_less_nat_alt)
qed

lemma store_dq:
  assumes wf: "dq_wf q" and room: "\<not> is_full q"
    and q': "q' = q\<lparr>dq_items := (dq_items q)[unat (put_index q) := v], put_index := dq_next (dq_size q) (put_index q),
      is_empty := False, is_full := (if dq_next (dq_size q) (put_index q) = get_index q then True else is_full q)\<rparr>"
  shows "dq_wf q' \<and> dq_list q' = dq_list q @ [v] \<and> dq_size q' = dq_size q"
proof -
  note W = dq_wfD [OF wf] note U = dq_used_facts [OF wf]
  let ?s = "unat (dq_size q)" and ?i = "unat (get_index q)" and ?n = "dq_used q" and ?j = "unat (put_index q)"
  have n: "?n < ?s" using U(1,3) room by linarith
  have j: "unat (dq_next (dq_size q) (put_index q)) = (?i + Suc ?n) mod ?s"
    using dq_next_mod [OF W(5,2)] U(4) by (simp add: mod_Suc_eq)
  have used: "dq_used q' = Suc ?n"
    by (rule dq_used_after) (use W n j in \<open>simp_all add: q'\<close>)
  have "circ ?s ?i ?n ((dq_items q)[?j := v]) = circ ?s ?i ?n (dq_items q)"
  proof (rule circ_update)
    fix k assume "k < ?n"
    then show "(?i + k) mod ?s \<noteq> ?j" using mod_inj [of ?i k ?s ?n] n U(4) by auto
  qed
  moreover have "dq_list q' = circ ?s ?i (Suc ?n) ((dq_items q)[?j := v])"
    unfolding dq_list_def used by (simp add: q')
  ultimately have "dq_list q' = dq_list q @ [v]"
    using W(3,5) U(4) by (simp add: circ_Suc dq_list_def)
  moreover have "dq_wf q'" using W n j room by (simp add: dq_wf_def q' Let_def)
  ultimately show ?thesis by (simp add: q')
qed

lemma fetch_dq:
  assumes wf: "dq_wf q" and some: "\<not> is_empty q"
    and q': "q' = q\<lparr>get_index := dq_next (dq_size q) (get_index q), is_full := False,
      is_empty := (if put_index q = dq_next (dq_size q) (get_index q) then True else is_empty q)\<rparr>"
  shows "dq_wf q' \<and> dq_list q = dq_items q ! unat (get_index q) # dq_list q' \<and> dq_size q' = dq_size q"
proof -
  note W = dq_wfD [OF wf] note U = dq_used_facts [OF wf]
  let ?s = "unat (dq_size q)" and ?i = "unat (get_index q)" and ?n = "dq_used q"
  have n: "?n = Suc (?n - 1)" using U(2) some by (cases ?n) auto
  have i: "unat (dq_next (dq_size q) (get_index q)) = (?i + 1) mod ?s" by (rule dq_next_mod [OF W(4,2)])
  have put: "unat (put_index q) = ((?i + 1) mod ?s + (?n - 1)) mod ?s"
    using U(4) n by (metis Suc_eq_plus1_left add.assoc mod_add_left_eq)
  have e: "put_index q = dq_next (dq_size q) (get_index q) \<longleftrightarrow> ?n - 1 = 0"
  proof
    assume "put_index q = dq_next (dq_size q) (get_index q)"
    then have "(?i + (1 + (?n - 1))) mod ?s = (?i + 1) mod ?s"
      using put i by (metis add.assoc mod_add_left_eq)
    then show "?n - 1 = 0"
      using mod_inj [of "?i + 1" "?n - 1" ?s 0] U(1) n W(1) by (simp add: add.assoc)
  qed (use put i in \<open>simp add: word_unat_eq_iff\<close>)
  have used: "dq_used q' = ?n - 1"
    by (rule dq_used_after) (use W(1) U(1) put i e some in \<open>simp_all add: q'\<close>)
  have "dq_list q' = drop 1 (dq_list q)"
    using circ_drop [of ?s ?i 1 ?n "dq_items q"] used by (simp add: dq_list_def q' i)
  moreover have "dq_list q ! 0 = dq_items q ! ?i" "0 < length (dq_list q)"
    using n W(4) by (simp_all add: dq_list_def)
  ultimately have "dq_list q = dq_items q ! ?i # dq_list q'"
    by (metis Cons_nth_drop_Suc One_nat_def drop0)
  moreover have "dq_wf q'" using W i e n some by (auto simp: dq_wf_def q' Let_def)
  ultimately show ?thesis by (simp add: q')
qed

section \<open>The operations in the system\<close>

definition dq_system :: "nat \<Rightarrow> nat \<Rightarrow> 'x drivers_scheme \<Rightarrow> bool" where
  "dq_system a c s \<longleftrightarrow> thread_ok s \<and> rt_current_thread s \<noteq> None \<and>
     (\<exists>q. data_queues s a = Some q \<and> dq_wf q \<and> unat (dq_size q) = c \<and> dq_magic q = DATAQUEUE_MAGIC \<and>
       evt_notify q = None)"

definition dq_contents :: "nat \<Rightarrow> 'x drivers_scheme \<Rightarrow> data_item list" where
  "dq_contents a s = (case data_queues s a of None \<Rightarrow> [] | Some q \<Rightarrow> dq_list q)"

text \<open>What an operation on one data queue leaves alone.\<close>

definition beside_dq :: "nat \<Rightarrow> 'x drivers_scheme \<Rightarrow> _" where
  "beside_dq a s = ((semaphores s, mutexes s, events s, mailboxes s, queues s, pools s), (link_words s, data_bytes s),
     (data_queues s)(a := None), completions s, primask s, rt_interrupt_nest s, rt_scheduler_lock_nest s)"

lemma same_drivers:
  assumes "sched.more s' = sched.more s"
  shows "data_queues s' = data_queues s" "completions s' = completions s"
  using assms by (cases s; cases s'; simp)+

lemma dq_put_sel [simp]:
  "data_queues (dq_put a q s) = (data_queues s)(a \<mapsto> q)" "beside_dq a (dq_put a q s) = beside_dq a s"
  "thread_ok (dq_put a q s) = thread_ok s" "rt_current_thread (dq_put a q s) = rt_current_thread s"
  "suspend_thread (dq_put a q s) = suspend_thread s" "primask (dq_put a q s) = primask s"
  by (simp_all add: dq_put_def beside_dq_def)
    (rule thread_ok_cong; simp add: dq_put_def hooks_off_def)

lemma dq_systemE:
  assumes "dq_system a c s"
  obtains q where "thread_ok s" "rt_current_thread s \<noteq> None" "data_queues s a = Some q" "dq_wf q"
    "unat (dq_size q) = c" "dq_magic q = DATAQUEUE_MAGIC" "evt_notify q = None" "dq_contents a s = dq_list q" "dq_ready a s"
  using assms by (auto simp: dq_system_def dq_contents_def dq_ready_def)

text \<open>The end of an operation that has changed the queue to \<open>q'\<close>: with a wake-up, or without.\<close>

lemma dq_wake:
  assumes sys: "dq_system a c s" and q: "data_queues s a = Some q"
    and q': "dq_wf q'" "dq_size q' = dq_size q" "dq_magic q' = dq_magic q" "evt_notify q' = evt_notify q"
  shows "\<exists>s'. wake_one code l (primask s) id (dq_put a q' (s\<lparr>primask := 1\<rparr>)) = Some s' \<and> dq_system a c s' \<and>
      dq_contents a s' = dq_list q' \<and> data_queues s' a = Some q' \<and> beside_dq a s' = beside_dq a s"
    and "dq_system a c (dq_put a q' s) \<and> dq_contents a (dq_put a q' s) = dq_list q' \<and>
      beside_dq a (dq_put a q' s) = beside_dq a s"
proof -
  from sys q have S: "thread_ok s" "rt_current_thread s \<noteq> None" "unat (dq_size q) = c"
      "dq_magic q = DATAQUEUE_MAGIC" "evt_notify q = None" by (auto simp: dq_system_def)
  let ?s = "dq_put a q' (s\<lparr>primask := 1\<rparr>)"
  from wake_one_ok [of ?s id code l "primask s"] S(1,2) obtain s' where
    s': "wake_one code l (primask s) id ?s = Some s'" "woke l ?s s'" "primask s' = primask s" by auto
  from s'(2) have m: "sched.more s' = sched.more ?s" by (simp add: woke_def)
  note same = same_ipc [OF m] same_drivers [OF m]
  have "beside_dq a s' = beside_dq a s"
    using s'(2,3) by (simp add: beside_dq_def same woke_def) (simp add: dq_put_def)
  with s' same S q' show "\<exists>s'. wake_one code l (primask s) id (dq_put a q' (s\<lparr>primask := 1\<rparr>)) = Some s' \<and>
      dq_system a c s' \<and> dq_contents a s' = dq_list q' \<and> data_queues s' a = Some q' \<and> beside_dq a s' = beside_dq a s"
    by (auto simp: woke_def dq_system_def dq_contents_def)
  show "dq_system a c (dq_put a q' s) \<and> dq_contents a (dq_put a q' s) = dq_list q' \<and>
      beside_dq a (dq_put a q' s) = beside_dq a s"
    using S q' by (simp add: dq_system_def dq_contents_def)
qed

lemma unmask: "dq_put a q (s\<lparr>primask := 1\<rparr>)\<lparr>primask := primask s\<rparr> = dq_put a q s"
  by (simp add: dq_put_def)

definition dq_push_now :: "'x drivers_scheme dcode \<Rightarrow> nat \<Rightarrow> data_item \<Rightarrow> 'x drivers_scheme \<Rightarrow>
    (rt_err \<times> 'x drivers_scheme) option" where
  "dq_push_now code a v s = (case rt_data_queue_push 0 code a (fst v) (snd v) 0 s of
     Some (Returned r, s') \<Rightarrow> Some (r, s') | _ \<Rightarrow> None)"

definition dq_pop_now :: "'x drivers_scheme dcode \<Rightarrow> nat \<Rightarrow> nat \<Rightarrow> 'x drivers_scheme \<Rightarrow>
    ((rt_err \<times> data_item option) \<times> 'x drivers_scheme) option" where
  "dq_pop_now code a n s = (case rt_data_queue_pop 0 code a 0 s of
     Some (Returned (Result r), s') \<Rightarrow> Some (r, s') | _ \<Rightarrow> None)"

lemma dq_push_room:
  assumes sys: "dq_system a c s" and room: "length (dq_contents a s) < c"
  shows "\<exists>s'. dq_push_now code a v s = Some (RT_EOK, s') \<and> dq_system a c s' \<and>
    dq_contents a s' = dq_contents a s @ [v] \<and> beside_dq a s' = beside_dq a s"
proof (rule dq_systemE [OF sys])
  fix q
  assume A: "data_queues s a = Some q" "dq_wf q" "unat (dq_size q) = c" "evt_notify q = None"
    "dq_contents a s = dq_list q" "dq_ready a s"
  have f: "\<not> is_full q" using room A(3,5) dq_used_facts(3) [OF A(2)] by auto
  define q' where "q' = q\<lparr>dq_items := (dq_items q)[unat (put_index q) := v],
      put_index := dq_next (dq_size q) (put_index q), is_empty := False,
      is_full := (if dq_next (dq_size q) (put_index q) = get_index q then True else is_full q)\<rparr>"
  have q': "dq_wf q'" "dq_list q' = dq_list q @ [v]" "dq_size q' = dq_size q" "dq_magic q' = dq_magic q"
      "evt_notify q' = evt_notify q"
    using store_dq [OF A(2) f q'_def] by (simp_all add: q'_def)
  note W = dq_wake [OF sys A(1) q'(1,3,4,5)]
  from W(1) [of "d_code code" "pop_list a"] obtain s' where
    s': "wake_one (d_code code) (pop_list a) (primask s) id (dq_put a q' (s\<lparr>primask := 1\<rparr>)) = Some s'" "dq_system a c s'"
      "dq_contents a s' = dq_list q'" "beside_dq a s' = beside_dq a s" by blast
  have "dq_store code a v (primask s) (s\<lparr>primask := 1\<rparr>) = (if suspend_thread s (pop_list a) \<noteq> []
      then Some (RT_EOK, s') else Some (RT_EOK, dq_put a q' s))"
    using A(1,4) s'(1) dq_wfD(3,5) [OF A(2)]
    by (simp add: dq_store_def q'_def [symmetric] dq_notify_def q'(5) irq_defs unmask)
  then have "dq_push_now code a v s = (if suspend_thread s (pop_list a) \<noteq> []
      then Some (RT_EOK, s') else Some (RT_EOK, dq_put a q' s))"
    using A(1,6) f by (simp add: dq_push_now_def rt_data_queue_push_def irq_defs retry_loop.simps push_op_def)
  with s' W(2) q'(2) A(5) show ?thesis by auto
qed

lemma dq_push_full:
  assumes sys: "dq_system a c s" and full: "length (dq_contents a s) = c"
  shows "dq_push_now code a v s = Some (- RT_ETIMEOUT, s)"
proof (rule dq_systemE [OF sys])
  fix q
  assume A: "data_queues s a = Some q" "dq_wf q" "unat (dq_size q) = c" "dq_contents a s = dq_list q" "dq_ready a s"
  have "is_full q" using full A(3,4) dq_used_facts(3) [OF A(2)] by auto
  with A(1,5) show ?thesis
    by (simp add: dq_push_now_def rt_data_queue_push_def irq_defs retry_loop.simps push_op_def)
qed

lemma dq_pop_some:
  assumes sys: "dq_system a c s" and some: "dq_contents a s = v # vs"
  shows "\<exists>s'. dq_pop_now code a n s = Some ((RT_EOK, Some v), s') \<and> dq_system a c s' \<and>
    dq_contents a s' = vs \<and> beside_dq a s' = beside_dq a s"
proof (rule dq_systemE [OF sys])
  fix q
  assume A: "data_queues s a = Some q" "dq_wf q" "unat (dq_size q) = c" "evt_notify q = None"
    "dq_contents a s = dq_list q" "dq_ready a s"
  have "length (dq_list q) \<noteq> 0" using some A(5) by simp
  then have f: "\<not> is_empty q" using dq_used_facts(2) [OF A(2)] by simp
  define q' where "q' = q\<lparr>get_index := dq_next (dq_size q) (get_index q), is_full := False,
      is_empty := (if put_index q = dq_next (dq_size q) (get_index q) then True else is_empty q)\<rparr>"
  have q': "dq_wf q'" "dq_list q = dq_items q ! unat (get_index q) # dq_list q'" "dq_size q' = dq_size q"
      "dq_magic q' = dq_magic q" "evt_notify q' = evt_notify q"
    using fetch_dq [OF A(2) f q'_def] by (simp_all add: q'_def)
  note W = dq_wake [OF sys A(1) q'(1,3,4,5)]
  from W(1) [of "d_code code" "push_list a"] obtain s' where
    s': "wake_one (d_code code) (push_list a) (primask s) id (dq_put a q' (s\<lparr>primask := 1\<rparr>)) = Some s'" "dq_system a c s'"
      "dq_contents a s' = dq_list q'" "data_queues s' a = Some q'" "beside_dq a s' = beside_dq a s" by blast
  obtain len where len: "rt_data_queue_len a (dq_put a q' (s\<lparr>primask := 1\<rparr>)) = Some len"
    using A(1,6) q'(4) by (auto simp: rt_data_queue_len_def dq_ready_def)
  have "dq_fetch code a (primask s) (s\<lparr>primask := 1\<rparr>) = (if len \<le> dq_lwm q
      then Some (Result (RT_EOK, Some v), s') else Some (Result (RT_EOK, Some v), dq_put a q' s))"
    using A(1,4,5) s'(1,4) dq_wfD(3,4) [OF A(2)] q'(2,5) some len
    by (simp add: dq_fetch_def q'_def [symmetric] dq_notify_def irq_defs unmask)
  then have "dq_pop_now code a n s = (if len \<le> dq_lwm q
      then Some ((RT_EOK, Some v), s') else Some ((RT_EOK, Some v), dq_put a q' s))"
    using A(1,6) f by (simp add: dq_pop_now_def rt_data_queue_pop_def irq_defs retry_loop.simps pop_op_def)
  with s' W(2) q'(2) A(5) some show ?thesis by auto
qed

lemma dq_pop_none:
  assumes sys: "dq_system a c s" and none: "dq_contents a s = []"
  shows "dq_pop_now code a n s = Some ((- RT_ETIMEOUT, None), s)"
proof (rule dq_systemE [OF sys])
  fix q
  assume A: "data_queues s a = Some q" "dq_wf q" "dq_contents a s = dq_list q" "dq_ready a s"
  have "length (dq_list q) = 0" using none A(3) by simp
  then have "is_empty q" using dq_used_facts(2) [OF A(2)] by simp
  with A(1,4) show ?thesis
    by (simp add: dq_pop_now_def rt_data_queue_pop_def irq_defs retry_loop.simps pop_op_def)
qed

interpretation dq: plain_channel "- RT_ETIMEOUT" "dq_system a c" "dq_contents a" c "beside_dq a" "\<lambda>_. True" "(=)" "\<lambda>_ v. v"
  "dq_push_now code a" "dq_pop_now code a" for a c code
proof (unfold_locales, goal_cases)
  case (1 s)
  then show ?case by (elim dq_systemE) (use dq_used_facts(1) in auto)
next
  case (2 s m)
  from dq_push_room [OF 2(1,3), of code m] show ?case by auto
next
  case (3 s m)
  with dq_push_full [OF 3(1,3), of code m] show ?case by simp
next
  case (4 s n x xs)
  from dq_pop_some [OF 4(1,4), of code n] show ?case by auto
next
  case (5 s n)
  with dq_pop_none [OF 5(1,4), of code n] show ?case by simp
qed

end
