(* ===== verification/Device_Ipc_Behaviour.thy ===== *)
theory Device_Ipc_Behaviour
  imports Data_Queue_Correct Example_System Ipc_Inv
begin

text \<open>
  What drivers rely on: data queues are bounded queues, a completion hands over one event.
\<close>

section \<open>Waiting for a completion\<close>

lemma set_flag_sel [simp]:
  "completions (set_flag a v s) = (completions s)(a \<mapsto> v)" "thread_ok (set_flag a v s) = thread_ok s"
  "suspend_thread (set_flag a v s) = suspend_thread s" "threads (set_flag a v s) = threads s"
  "rt_current_thread (set_flag a v s) = rt_current_thread s" "primask (set_flag a v s) = primask s"
  "rt_interrupt_nest (set_flag a v s) = rt_interrupt_nest s"
  by (simp_all add: set_flag_def) (rule thread_ok_cong; simp add: set_flag_def hooks_off_def)

lemma driver_wait_is_wait_on:
  assumes "rt_interrupt_nest s = 0"
  shows "driver_wait code l t time s = wait_on code l t RT_IPC_FLAG_FIFO time (clear_error t s)"
  using assms by (simp add: driver_wait_def wait_on_def ipc_list_suspend_def split: bind_splits)

text \<open>The thread stands behind the others, suspended, without an error; then others run.\<close>

lemma driver_wait_ok:
  assumes ok: "thread_ok s" and run: "running t s" and nest: "rt_interrupt_nest s = 0"
    and tick: "0 < time \<longrightarrow> (of_int time :: u32) < TICK_HALF"
    and lock: "rt_scheduler_lock_nest s = 0" and ready: "\<exists>p u. ready_at {} s p u"
  shows "\<exists>s1 s2 th. driver_wait code l t time s = Some s1 \<and> rt_schedule code (s1\<lparr>primask := m\<rparr>) = Some s2 \<and>
    thread_ok s2 \<and> rt_current_thread s2 \<noteq> None \<and> rt_current_thread s2 \<noteq> Some t \<and> sched.more s2 = sched.more s \<and> primask s2 = m \<and>
    set (suspend_thread s2 l) = insert t (set (suspend_thread s l)) \<and>
    length (suspend_thread s2 l) = Suc (length (suspend_thread s l)) \<and>
    threads s2 t = Some th \<and> th_error th = RT_EOK \<and> state_of th = RT_THREAD_SUSPEND"
proof -
  from run obtain th where cur: "rt_current_thread s = Some t" and th: "threads s t = Some th" "state_of th = RT_THREAD_RUNNING"
    by (auto simp: running_def)
  let ?s = "clear_error t s" and ?th = "th\<lparr>th_error := RT_EOK\<rparr>"
  have S: "thread_ok ?s" "rt_current_thread ?s = Some t" "threads ?s t = Some ?th" "state_of ?th = RT_THREAD_RUNNING"
      "suspend_thread ?s = suspend_thread s" "sched.more ?s = sched.more s"
    using upd_error(1) [OF ok, of t RT_EOK] cur th by (simp_all add: clear_error_def) (simp_all add: upd_thread_def)
  from wait_on_ok [OF S(1-4) tick, of RT_IPC_FLAG_FIFO code l] obtain s1 where
    s1: "wait_on code l t RT_IPC_FLAG_FIFO time ?s = Some s1" "in_line l t ?s s1" by auto
  from s1(2) obtain xs ys where L: "thread_ok s1" "frame s1 ?s" "rt_current_thread s1 = Some t"
      "suspend_thread s l = xs @ ys" "suspend_thread s1 = (suspend_thread s)(l := xs @ t # ys)"
      "threads s1 t = Some (set_stat RT_THREAD_SUSPEND ?th)" "threads s1 = (threads ?s)(t := map_option (set_stat RT_THREAD_SUSPEND) (threads ?s t))"
    using S(3,5) by (auto simp: in_line_def)
  from schedule_move [of "s1\<lparr>primask := m\<rparr>" code] L(1,3) obtain s2 where
    s2: "rt_schedule code (s1\<lparr>primask := m\<rparr>) = Some s2" "thread_move (s1\<lparr>primask := m\<rparr>) s2"
      "sched_step (s1\<lparr>primask := m\<rparr>) s2" by auto
  have "threads (s1\<lparr>primask := m\<rparr>) t = Some (set_stat RT_THREAD_SUSPEND ?th)" using L(6) by simp
  with s2(3) obtain th2 where th2: "threads s2 t = Some th2" "th_error th2 = th_error (set_stat RT_THREAD_SUSPEND ?th)"
      "state_of th2 = state_of (set_stat RT_THREAD_SUSPEND ?th) \<or>
       {state_of (set_stat RT_THREAD_SUSPEND ?th), state_of th2} = {RT_THREAD_READY, RT_THREAD_RUNNING}"
    unfolding sched_step_def by blast
  have th2': "th_error th2 = RT_EOK" "state_of th2 = RT_THREAD_SUSPEND"
    using th2(2,3) by (auto simp: doubleton_eq_iff)
  have away: "rt_current_thread s2 \<noteq> Some t"
  proof -
    from ready obtain p u x where u: "threads s u = Some x" "state_of x = RT_THREAD_READY" "unat (current_priority x) = p"
      by (auto simp: ready_at_def)
    with th have "u \<noteq> t" by auto
    with u L(7) have "ready_at {} (s1\<lparr>primask := m\<rparr>) p u"
      by (simp add: ready_at_def clear_error_def upd_thread_def)
    moreover have "rt_scheduler_lock_nest s1 = 0" using frameD(4) [OF L(2)] lock by (simp add: clear_error_def)
    moreover have "state_of (set_stat RT_THREAD_SUSPEND ?th) \<noteq> RT_THREAD_RUNNING" by simp
    moreover have "sched_ok (s1\<lparr>primask := m\<rparr>)" using L(1) thread_okD(1) [of "s1\<lparr>primask := m\<rparr>"] by simp
    ultimately show ?thesis using s2(1) L(3,6)
      by - (rule rt_schedule_cases [of "s1\<lparr>primask := m\<rparr>" t "set_stat RT_THREAD_SUSPEND ?th" code], auto)
  qed
  show ?thesis
    using s1(1) s2 th2(1) th2' away L(1-5) frameD(5) [OF L(2)] S(6) driver_wait_is_wait_on [OF nest, of code l t time]
    by (auto simp: thread_move_def sched_step_def)
qed

section \<open>Claims\<close>

text \<open>
  A queue with room for two items at 800, and completions at 900 and 950.
\<close>

definition small_queue :: rt_data_queue where
  "small_queue = \<lparr>dq_magic = DATAQUEUE_MAGIC, dq_size = 2, dq_lwm = 0, get_index = 0, put_index = 0,
     is_empty = True, is_full = False, dq_queue = Some 0x1000, dq_items = [(0, 0), (0, 0)], evt_notify = None\<rparr>"

definition driver_system :: drivers where
  "driver_system = ipc.extend (example_system (\<lambda>_. None) (\<lambda>_. None) (\<lambda>_. None) (\<lambda>_. None) (\<lambda>_. None) (\<lambda>_. 0))
     (drivers.fields [800 \<mapsto> small_queue] [900 \<mapsto> 0])"

lemma driver_system_truncate: "sched.truncate driver_system = example_sched"
  by (simp add: driver_system_def example_system_def sched.defs ipc.defs drivers.defs)

lemmas driver_system_sel [simp] = example_sel [OF driver_system_truncate]

lemma driver_system_more [simp]:
  "data_queues driver_system = [800 \<mapsto> small_queue]" "completions driver_system = [900 \<mapsto> 0]"
  by (simp_all add: driver_system_def ipc.defs drivers.defs)

text \<open>
  Claim C15 (refinement). Any sequence of pushes and pops that do not wait runs to its end on a
  well-formed data queue of up to \<open>2\<^sup>1\<^sup>5\<close> places without a notification, whatever threads wait on
  it and whichever is switched to. The results are those of a bounded queue of items: a full queue
  refuses, an empty one times out, the items come out in the order they went in. All other
  objects, the interrupt mask and the locks are as before.
\<close>
theorem data_queue_fifo:
  assumes "dq_system a c s" and "list_all (op_valid (\<lambda>_. True) (\<lambda>_. False)) ops"
  shows "\<exists>rs s'. chan_run (dq_push_now code a) (\<lambda>_ _. None) (dq_pop_now code a) ops s = Some (rs, s') \<and>
    dq_system a c s' \<and> delivers (- RT_ETIMEOUT) (=) (\<lambda>_ v. v) c (dq_contents a s) ops rs (dq_contents a s') \<and>
    beside_dq a s' = beside_dq a s"
proof -
  have eq: "list_all2 (=) (dq_contents a s) (dq_contents a s)" by (simp add: list.rel_eq)
  from dq.plain.run_delivers [OF assms(1) eq assms(2), of code] show ?thesis
    by (auto simp: list.rel_eq)
qed

theorem data_queue_fifo_witness:
  "\<forall>code. \<exists>s'. chan_run (dq_push_now code 800) (\<lambda>_ _. None) (dq_pop_now code 800)
     [Send (7, 1), Send (8, 1), Send (9, 1), Recv 4, Send (5, 3), Recv 4, Recv 4, Recv 4] driver_system =
     Some ([(RT_EOK, None), (RT_EOK, None), (- RT_ETIMEOUT, None), (RT_EOK, Some (7, 1)), (RT_EOK, None),
       (RT_EOK, Some (8, 1)), (RT_EOK, Some (5, 3)), (- RT_ETIMEOUT, None)], s')"
proof
  fix code :: "drivers dcode"
  have "dq_wf small_queue" "unat (dq_size small_queue) = 2" by (simp_all add: dq_wf_def small_queue_def)
  then have "dq_system 800 2 driver_system"
    by (simp add: dq_system_def example_thread_ok [OF driver_system_truncate]) (simp add: small_queue_def)
  moreover have "dq_contents 800 driver_system = []"
    by (simp add: dq_contents_def dq_list_def dq_used_def small_queue_def)
  ultimately show "\<exists>s'. chan_run (dq_push_now code 800) (\<lambda>_ _. None) (dq_pop_now code 800)
     [Send (7, 1), Send (8, 1), Send (9, 1), Recv 4, Send (5, 3), Recv 4, Recv 4, Recv 4] driver_system =
     Some ([(RT_EOK, None), (RT_EOK, None), (- RT_ETIMEOUT, None), (RT_EOK, Some (7, 1)), (RT_EOK, None),
       (RT_EOK, Some (8, 1)), (RT_EOK, Some (5, 3)), (- RT_ETIMEOUT, None)], s')"
    using data_queue_fifo [of 800 2 driver_system
      "[Send (7, 1), Send (8, 1), Send (9, 1), Recv 4, Send (5, 3), Recv 4, Recv 4, Recv 4]" code]
    by auto
qed

text \<open>
  Claim C17 (functional). Another thread is ready when a thread waits for a completion that is not done: the wait
  gives the processor away, with the thread as the only one in the list. When it is done then, the thread is
  ready again, out of the list, and finds that the wait has succeeded; the event is used up, a further wait without time is refused.
\<close>
theorem completion_handover:
  assumes "thread_ok s" and "running t s" and "rt_interrupt_nest s = 0" and "rt_scheduler_lock_nest s = 0"
    and "\<exists>p u. ready_at {} s p u" and "completions s a = Some RT_UNCOMPLETED" and "suspend_thread s (done_list a) = []"
    and "time \<noteq> 0" and "0 < time \<longrightarrow> (of_int time :: u32) < TICK_HALF"
  shows "\<exists>s1 s2 s3 th. rt_completion_wait code a time s = Some (Waiting, s1) \<and> rt_current_thread s1 \<noteq> Some t \<and>
    suspend_thread s1 (done_list a) = [t] \<and> rt_completion_done code a s1 = Some s2 \<and>
    suspend_thread s2 (done_list a) = [] \<and> completions s2 a = Some RT_COMPLETED \<and> threads s2 t = Some th \<and>
    state_of th \<in> {RT_THREAD_READY, RT_THREAD_RUNNING} \<and> completion_woken a t s2 = Some (RT_EOK, s3) \<and>
    thread_ok s3 \<and> rt_completion_wait code a 0 s3 = Some (Returned (- RT_ETIMEOUT), s3)"
proof -
  let ?l = "done_list a" and ?s = "s\<lparr>primask := 1\<rparr>"
  have S: "thread_ok ?s" "running t ?s" "\<exists>p u. ready_at {} ?s p u"
    using assms(1,2,5) by (simp_all add: running_def ready_at_def)
  from driver_wait_ok [OF S(1,2) _ assms(9) _ S(3), of code ?l "primask s"] assms(3,4) obtain s0 s1 th where
    W: "driver_wait code ?l t time ?s = Some s0" "rt_schedule code (s0\<lparr>primask := primask s\<rparr>) = Some s1" "thread_ok s1"
      "rt_current_thread s1 \<noteq> None" "rt_current_thread s1 \<noteq> Some t" "sched.more s1 = sched.more ?s" "primask s1 = primask s"
      "set (suspend_thread s1 ?l) = {t}" "length (suspend_thread s1 ?l) = 1" "threads s1 t = Some th" "th_error th = RT_EOK"
    using assms(7) by auto
  then have l: "suspend_thread s1 ?l = [t]" by (cases "suspend_thread s1 ?l") auto
  have f: "completions s1 a = Some RT_UNCOMPLETED" using same_drivers(2) [OF W(6)] assms(6) by simp
  have wait: "rt_completion_wait code a time s = Some (Waiting, s1)"
    using assms(2,6,7,8) W(1,2,5) by (simp add: rt_completion_wait_def irq_defs rt_thread_self_def running_def go_on_def)
  let ?s1 = "set_flag a RT_COMPLETED (s1\<lparr>primask := 1\<rparr>)"
  have "thread_ok ?s1" "rt_current_thread ?s1 \<noteq> None" "suspend_thread ?s1 ?l = t # []" using W(3,4) l by simp_all
  from wake_one_first [OF this, of id code "primask s1"] obtain s2 x th' where
    D: "wake_one code ?l (primask s1) id ?s1 = Some s2" "woke ?l ?s1 s2" "threads ?s1 t = Some x" "threads s2 t = Some th'"
      "th_error th' = th_error x" "state_of th' \<in> {RT_THREAD_READY, RT_THREAD_RUNNING}" by auto
  have "rt_completion_done code a s1 = Some s2" using f D(1) by (simp add: rt_completion_done_def irq_defs)
  moreover have m: "completions s2 a = Some RT_COMPLETED"
    using D(2) same_drivers(2) [of s2 ?s1] by (simp add: woke_def)
  moreover have free: "suspend_thread s2 ?l = []" and "thread_ok s2" using D(2) l by (simp_all add: woke_def)
  moreover have "completion_woken a t s2 = Some (RT_EOK, set_flag a RT_UNCOMPLETED s2)"
    using D(3,4,5) W(10,11) by (simp add: completion_woken_def irq_defs) (simp add: set_flag_def)
  moreover have "rt_completion_wait code a 0 (set_flag a RT_UNCOMPLETED s2) =
      Some (Returned (- RT_ETIMEOUT), set_flag a RT_UNCOMPLETED s2)"
    using free by (simp add: rt_completion_wait_def irq_defs)
  ultimately show ?thesis using wait W(5) l D(4,6) by auto
qed

theorem completion_handover_witness:
  "\<forall>code. \<exists>s1 s2 s3 th. rt_completion_wait code 900 25 driver_system = Some (Waiting, s1) \<and>
    rt_current_thread s1 \<noteq> Some 100 \<and> suspend_thread s1 904 = [100] \<and> rt_completion_done code 900 s1 = Some s2 \<and>
    suspend_thread s2 904 = [] \<and> completions s2 900 = Some RT_COMPLETED \<and> threads s2 100 = Some th \<and>
    state_of th \<in> {RT_THREAD_READY, RT_THREAD_RUNNING} \<and> completion_woken 900 100 s2 = Some (RT_EOK, s3) \<and>
    thread_ok s3 \<and> rt_completion_wait code 900 0 s3 = Some (Returned (- RT_ETIMEOUT), s3)"
proof
  fix code :: "drivers scode"
  have r: "\<exists>p u. ready_at {} driver_system p u"
    by (intro exI [of _ 10] exI [of _ 200]) (simp add: ready_at_def plain_thread_def)
  have c: "running 100 driver_system" by (simp add: running_def plain_thread_def)
  note H = completion_handover [OF example_thread_ok [OF driver_system_truncate] c _ _ r, of 900 25 code,
      unfolded done_list_def]
  show "\<exists>s1 s2 s3 th. rt_completion_wait code 900 25 driver_system = Some (Waiting, s1) \<and>
    rt_current_thread s1 \<noteq> Some 100 \<and> suspend_thread s1 904 = [100] \<and> rt_completion_done code 900 s1 = Some s2 \<and>
    suspend_thread s2 904 = [] \<and> completions s2 900 = Some RT_COMPLETED \<and> threads s2 100 = Some th \<and>
    state_of th \<in> {RT_THREAD_READY, RT_THREAD_RUNNING} \<and> completion_woken 900 100 s2 = Some (RT_EOK, s3) \<and>
    thread_ok s3 \<and> rt_completion_wait code 900 0 s3 = Some (Returned (- RT_ETIMEOUT), s3)"
    using H by simp
qed

text \<open>
  When a waiting thread's time is over before the event, and the event comes before the
  thread runs again, the event is lost: the thread reports the error and clears the flag that says the
  event has come, and the next wait without time is refused.
\<close>
theorem completion_lost:
  assumes "thread_ok s" and "rt_current_thread s \<noteq> None" and "completions s a = Some RT_UNCOMPLETED"
    and "suspend_thread s (done_list a) = []" and "threads s t = Some th" and "th_error th = - RT_ETIMEOUT"
  shows "\<exists>s1 s2. rt_completion_done code a s = Some s1 \<and> completions s1 a = Some RT_COMPLETED \<and>
    completion_woken a t s1 = Some (- RT_ETIMEOUT, s2) \<and> completions s2 a = Some RT_UNCOMPLETED \<and>
    rt_completion_wait code a 0 s2 = Some (Returned (- RT_ETIMEOUT), s2)"
proof -
  have "rt_completion_done code a s = Some (set_flag a RT_COMPLETED s)"
    using assms by (simp add: rt_completion_done_def irq_defs wake_one_def) (simp add: set_flag_def)
  moreover have "completion_woken a t (set_flag a RT_COMPLETED s) = Some (- RT_ETIMEOUT, set_flag a RT_UNCOMPLETED s)"
    using assms(5,6) by (simp add: completion_woken_def irq_defs) (simp add: set_flag_def)
  moreover have "rt_completion_wait code a 0 (set_flag a RT_UNCOMPLETED s) =
      Some (Returned (- RT_ETIMEOUT), set_flag a RT_UNCOMPLETED s)"
    using assms(4) by (simp add: rt_completion_wait_def irq_defs)
  ultimately show ?thesis by simp
qed

text \<open>The thread at 200 is ready again since its time is over.\<close>

definition late_system :: drivers where
  "late_system = upd_thread 200 (\<lambda>th. th\<lparr>th_error := - RT_ETIMEOUT\<rparr>) driver_system"

theorem completion_lost_witness:
  "\<forall>code. \<exists>s1 s2. rt_completion_done code 900 late_system = Some s1 \<and> completions s1 900 = Some RT_COMPLETED \<and>
    completion_woken 900 200 s1 = Some (- RT_ETIMEOUT, s2) \<and> completions s2 900 = Some RT_UNCOMPLETED \<and>
    rt_completion_wait code 900 0 s2 = Some (Returned (- RT_ETIMEOUT), s2)"
proof
  fix code :: "drivers scode"
  have th: "threads late_system 200 = Some (plain_thread RT_THREAD_READY 10\<lparr>th_error := - RT_ETIMEOUT\<rparr>)"
    by (simp add: late_system_def upd_thread_def)
  have "thread_ok late_system"
    using upd_error(1) [OF example_thread_ok [OF driver_system_truncate], of 200 "- RT_ETIMEOUT"]
    by (simp add: late_system_def)
  moreover have "rt_current_thread late_system \<noteq> None" "completions late_system 900 = Some RT_UNCOMPLETED"
      "suspend_thread late_system (done_list 900) = []"
    by (simp_all add: late_system_def upd_thread_def)
  ultimately show "\<exists>s1 s2. rt_completion_done code 900 late_system = Some s1 \<and> completions s1 900 = Some RT_COMPLETED \<and>
    completion_woken 900 200 s1 = Some (- RT_ETIMEOUT, s2) \<and> completions s2 900 = Some RT_UNCOMPLETED \<and>
    rt_completion_wait code 900 0 s2 = Some (Returned (- RT_ETIMEOUT), s2)"
    using completion_lost [of late_system 900 200 _ code] th by simp
qed

end
