(* ===== verification/Ring_Block.thy ===== *)
theory Ring_Block
  imports Mem
begin

text \<open>
  \<^verbatim>\<open>ringblk_buf.c\<close>: blocks of a ring-shaped buffer. A pointer to a block is its index in
  \<^verbatim>\<open>blk_set\<close>, the list of blocks is the list of these indices in link order; one that lies
  outside the set is a read past the array, which is \<open>None\<close>. The part of an operation that runs with
  interrupts masked is one step; the mask is as before afterwards.
\<close>

section \<open>Blocks\<close>

datatype rt_rbb_status = RT_RBB_BLK_UNUSED | RT_RBB_BLK_INITED | RT_RBB_BLK_PUT | RT_RBB_BLK_GET

text \<open>The size has 24 bits; it is checked before it is stored.\<close>

record rt_rbb_blk =
  blk_status :: rt_rbb_status
  blk_size :: u32
  blk_buf :: u32

record rt_rbb =
  rbb_buf :: u32
  buf_size :: u32
  blk_set :: "rt_rbb_blk list"
  blk_max_num :: u32
  blk_list :: "nat list"

text \<open>\<^verbatim>\<open>blocks\<close> is not set before the first \<^verbatim>\<open>rt_rbb_blk_queue_get\<close> that finds a block.\<close>

record rt_rbb_blk_queue =
  blocks :: "nat option"
  blk_num :: u32

definition blk_at :: "nat \<Rightarrow> rt_rbb \<Rightarrow> rt_rbb_blk option" where
  "blk_at i rbb = (if i < length (blk_set rbb) then Some (blk_set rbb ! i) else None)"

definition set_status :: "nat \<Rightarrow> rt_rbb_status \<Rightarrow> rt_rbb \<Rightarrow> rt_rbb" where
  "set_status i st rbb = rbb\<lparr>blk_set := (blk_set rbb)[i := (blk_set rbb ! i)\<lparr>blk_status := st\<rparr>]\<rparr>"

definition rt_rbb_init :: "u32 \<Rightarrow> u32 \<Rightarrow> rt_rbb_blk list \<Rightarrow> u32 \<Rightarrow> rt_rbb option" where
  "rt_rbb_init buf sz block_set n =
    (if length block_set < unat n then None
     else Some \<lparr>rbb_buf = buf, buf_size = sz,
       blk_set = map (\<lambda>b. b\<lparr>blk_status := RT_RBB_BLK_UNUSED\<rparr>) (take (unat n) block_set) @ drop (unat n) block_set,
       blk_max_num = n, blk_list = []\<rparr>)"

definition rt_rbb_get_buf_size :: "rt_rbb \<Rightarrow> u32" where
  "rt_rbb_get_buf_size rbb = buf_size rbb"

definition find_empty_blk_in_set :: "rt_rbb \<Rightarrow> nat option" where
  "find_empty_blk_in_set rbb =
    first_index (\<lambda>b. blk_status b = RT_RBB_BLK_UNUSED) (take (unat (blk_max_num rbb)) (blk_set rbb))"

text \<open>Append the block to the list; it is as long as was asked for and lies at the address.\<close>

definition place_block :: "nat \<Rightarrow> u32 \<Rightarrow> u32 \<Rightarrow> rt_rbb \<Rightarrow> rt_rbb" where
  "place_block i a n rbb = rbb\<lparr>blk_list := blk_list rbb @ [i],
     blk_set := (blk_set rbb)[i := \<lparr>blk_status = RT_RBB_BLK_INITED, blk_size = n, blk_buf = a\<rparr>]\<rparr>"

definition blk_end :: "rt_rbb_blk \<Rightarrow> u32" where "blk_end b = blk_buf b + blk_size b"

text \<open>Where a block of \<open>n\<close> bytes goes when the list is not empty.\<close>

definition find_room :: "u32 \<Rightarrow> rt_rbb_blk \<Rightarrow> rt_rbb_blk \<Rightarrow> rt_rbb \<Rightarrow> u32 option" where
  "find_room n head tail rbb =
    (if blk_buf head \<le> blk_buf tail
     then (let empty1 = (rbb_buf rbb + buf_size rbb) - blk_end tail;
               empty2 = blk_buf head - rbb_buf rbb
           in if n \<le> empty1 then Some (blk_end tail)
              else if n \<le> empty2 then Some (rbb_buf rbb) else None)
     else (let empty1 = blk_buf head - blk_end tail in if n \<le> empty1 then Some (blk_end tail) else None))"

definition rt_rbb_blk_alloc :: "u32 \<Rightarrow> rt_rbb \<Rightarrow> (nat option \<times> rt_rbb) option" where
  "rt_rbb_blk_alloc n rbb = do {
     RT_ASSERT (n < 0x1000000);
     (case find_empty_blk_in_set rbb of
        None \<Rightarrow> Some (None, rbb)
      | Some i \<Rightarrow>
          if \<not> length (blk_list rbb) < unat (blk_max_num rbb) then Some (None, rbb)
          else if blk_list rbb = [] then Some (Some i, place_block i (rbb_buf rbb) n rbb)
          else do {
            head \<leftarrow> blk_at (hd (blk_list rbb)) rbb;
            tail \<leftarrow> blk_at (last (blk_list rbb)) rbb;
            Some (case find_room n head tail rbb of
              None \<Rightarrow> (None, rbb)
            | Some a \<Rightarrow> (Some i, place_block i a n rbb)) }) }"

definition rt_rbb_blk_put :: "nat \<Rightarrow> rt_rbb \<Rightarrow> rt_rbb option" where
  "rt_rbb_blk_put i rbb = do {
     b \<leftarrow> blk_at i rbb;
     RT_ASSERT (blk_status b = RT_RBB_BLK_INITED);
     Some (set_status i RT_RBB_BLK_PUT rbb) }"

fun blk_get_loop :: "nat list \<Rightarrow> rt_rbb \<Rightarrow> (nat option \<times> rt_rbb) option" where
  "blk_get_loop [] rbb = Some (None, rbb)"
| "blk_get_loop (i # nodes) rbb = do {
     b \<leftarrow> blk_at i rbb;
     if blk_status b = RT_RBB_BLK_PUT then Some (Some i, set_status i RT_RBB_BLK_GET rbb)
     else blk_get_loop nodes rbb }"

definition rt_rbb_blk_get :: "rt_rbb \<Rightarrow> (nat option \<times> rt_rbb) option" where
  "rt_rbb_blk_get rbb = blk_get_loop (blk_list rbb) rbb"

definition rt_rbb_blk_size :: "nat \<Rightarrow> rt_rbb \<Rightarrow> u32 option" where
  "rt_rbb_blk_size i rbb = map_option blk_size (blk_at i rbb)"

definition rt_rbb_blk_buf :: "nat \<Rightarrow> rt_rbb \<Rightarrow> u32 option" where
  "rt_rbb_blk_buf i rbb = map_option blk_buf (blk_at i rbb)"

text \<open>\<^verbatim>\<open>rt_slist_remove\<close> does nothing when the block is not in the list.\<close>

definition unlink :: "nat \<Rightarrow> rt_rbb \<Rightarrow> rt_rbb" where
  "unlink i rbb = rbb\<lparr>blk_list := remove1 i (blk_list rbb)\<rparr>"

definition rt_rbb_blk_free :: "nat \<Rightarrow> rt_rbb \<Rightarrow> rt_rbb option" where
  "rt_rbb_blk_free i rbb = do {
     b \<leftarrow> blk_at i rbb;
     RT_ASSERT (blk_status b \<noteq> RT_RBB_BLK_UNUSED);
     Some (set_status i RT_RBB_BLK_UNUSED (unlink i rbb)) }"

section \<open>Queues of blocks\<close>

text \<open>What is done with each block that goes into the queue.\<close>

definition queue_block :: "nat \<Rightarrow> rt_rbb \<Rightarrow> rt_rbb" where
  "queue_block i rbb = set_status i RT_RBB_BLK_GET (unlink i rbb)"

text \<open>
  The loop over the list. A removed node keeps its link, so the loop goes on behind it: it
  runs through the list as it was. \<open>prev\<close> is \<^verbatim>\<open>last_block\<close>, \<open>len\<close> the bytes so far.
\<close>

fun queue_get_loop :: "nat list \<Rightarrow> nat option \<Rightarrow> u32 \<Rightarrow> u32 \<Rightarrow> rt_rbb_blk_queue \<Rightarrow> rt_rbb \<Rightarrow>
    (u32 \<times> rt_rbb_blk_queue \<times> rt_rbb) option" where
  "queue_get_loop [] prev len limit q rbb = Some (len, q, rbb)"
| "queue_get_loop (i # nodes) None len limit q rbb = do {
     b \<leftarrow> blk_at i rbb;
     if blk_status b = RT_RBB_BLK_PUT
     then queue_get_loop nodes (Some i) (len + blk_size b) limit \<lparr>blocks = Some i, blk_num = 1\<rparr> (queue_block i rbb)
     else queue_get_loop nodes None len limit q rbb }"
| "queue_get_loop (i # nodes) (Some l) len limit q rbb = do {
     b \<leftarrow> blk_at i rbb;
     prev \<leftarrow> blk_at l rbb;
     if blk_status b \<noteq> RT_RBB_BLK_PUT \<or> blk_buf b < blk_buf prev \<or> limit < len + blk_size b
     then Some (len, q, rbb)
     else queue_get_loop nodes (Some i) (len + blk_size b) limit (q\<lparr>blk_num := blk_num q + 1\<rparr>) (queue_block i rbb) }"

definition rt_rbb_blk_queue_get :: "u32 \<Rightarrow> rt_rbb_blk_queue \<Rightarrow> rt_rbb \<Rightarrow>
    (u32 \<times> rt_rbb_blk_queue \<times> rt_rbb) option" where
  "rt_rbb_blk_queue_get limit q rbb = queue_get_loop (blk_list rbb) None 0 limit q rbb"

text \<open>\<^verbatim>\<open>blk_queue->blocks[i]\<close> is the block \<open>i\<close> places further in the set.\<close>

fun queue_len_loop :: "nat \<Rightarrow> nat \<Rightarrow> u32 \<Rightarrow> rt_rbb \<Rightarrow> u32 option" where
  "queue_len_loop 0 i len rbb = Some len"
| "queue_len_loop (Suc n) i len rbb = do {
     b \<leftarrow> blk_at i rbb;
     queue_len_loop n (i + 1) (len + blk_size b) rbb }"

definition rt_rbb_blk_queue_len :: "rt_rbb_blk_queue \<Rightarrow> rt_rbb \<Rightarrow> u32 option" where
  "rt_rbb_blk_queue_len q rbb =
    (if blk_num q = 0 then Some 0 else do { i \<leftarrow> blocks q; queue_len_loop (unat (blk_num q)) i 0 rbb })"

definition rt_rbb_blk_queue_buf :: "rt_rbb_blk_queue \<Rightarrow> rt_rbb \<Rightarrow> u32 option" where
  "rt_rbb_blk_queue_buf q rbb = do { i \<leftarrow> blocks q; rt_rbb_blk_buf i rbb }"

fun queue_free_loop :: "nat \<Rightarrow> nat \<Rightarrow> rt_rbb \<Rightarrow> rt_rbb option" where
  "queue_free_loop 0 i rbb = Some rbb"
| "queue_free_loop (Suc n) i rbb = do {
     rbb1 \<leftarrow> rt_rbb_blk_free i rbb;
     queue_free_loop n (i + 1) rbb1 }"

definition rt_rbb_blk_queue_free :: "rt_rbb_blk_queue \<Rightarrow> rt_rbb \<Rightarrow> rt_rbb option" where
  "rt_rbb_blk_queue_free q rbb =
    (if blk_num q = 0 then Some rbb else do { i \<leftarrow> blocks q; queue_free_loop (unat (blk_num q)) i rbb })"

fun next_queue_loop :: "nat list \<Rightarrow> nat option \<Rightarrow> u32 \<Rightarrow> rt_rbb \<Rightarrow> u32 option" where
  "next_queue_loop [] prev len rbb = Some len"
| "next_queue_loop (i # nodes) None len rbb = do {
     b \<leftarrow> blk_at i rbb;
     if blk_status b \<noteq> RT_RBB_BLK_PUT then next_queue_loop nodes None len rbb
     else next_queue_loop nodes (Some i) (len + blk_size b) rbb }"
| "next_queue_loop (i # nodes) (Some l) len rbb = do {
     b \<leftarrow> blk_at i rbb;
     prev \<leftarrow> blk_at l rbb;
     if blk_status b \<noteq> RT_RBB_BLK_PUT \<or> blk_buf b < blk_buf prev then Some len
     else next_queue_loop nodes (Some i) (len + blk_size b) rbb }"

definition rt_rbb_next_blk_queue_len :: "rt_rbb \<Rightarrow> u32 option" where
  "rt_rbb_next_blk_queue_len rbb = next_queue_loop (blk_list rbb) None 0 rbb"

section \<open>From the heap\<close>

abbreviation RBB_BYTES :: u32 where "RBB_BYTES \<equiv> 20"
abbreviation RBB_BLK_BYTES :: u32 where "RBB_BLK_BYTES \<equiv> 12"

text \<open>
  \<open>blks\<close> gives what lies at the address of the new set. The result has the addresses of the object, the buffer and
  the set.
\<close>

definition rt_rbb_create :: "nat \<Rightarrow> 'x heap_scheme heap_code \<Rightarrow> (nat \<Rightarrow> rt_rbb_blk list) \<Rightarrow> u32 \<Rightarrow> u32 \<Rightarrow>
    'x heap_scheme \<Rightarrow> ((nat \<times> nat \<times> nat \<times> rt_rbb) option \<times> 'x heap_scheme) option" where
  "rt_rbb_create fuel code blks sz n h = do {
     (r, h1) \<leftarrow> rt_malloc fuel code RBB_BYTES h;
     (case r of
        None \<Rightarrow> Some (None, h1)
      | Some p \<Rightarrow> do {
          (b, h2) \<leftarrow> rt_malloc fuel code sz h1;
          (case b of
             None \<Rightarrow> map_option (Pair None) (rt_free code (Some p) h2)
           | Some buf \<Rightarrow> do {
               (s, h3) \<leftarrow> rt_malloc fuel code (RBB_BLK_BYTES * n) h2;
               (case s of
                  None \<Rightarrow> do {
                    h4 \<leftarrow> rt_free code (Some buf) h3;
                    map_option (Pair None) (rt_free code (Some p) h4) }
                | Some tab \<Rightarrow> map_option (\<lambda>rbb. (Some (p, buf, tab, rbb), h3))
                    (rt_rbb_init (of_nat buf) sz (blks tab) n)) }) }) }"

definition rt_rbb_destroy :: "'x heap_scheme heap_code \<Rightarrow> nat \<Rightarrow> nat \<Rightarrow> nat \<Rightarrow> 'x heap_scheme \<Rightarrow>
    'x heap_scheme option" where
  "rt_rbb_destroy code p buf tab h = do {
     h1 \<leftarrow> rt_free code (Some buf) h;
     h2 \<leftarrow> rt_free code (Some tab) h1;
     rt_free code (Some p) h2 }"

end
