(* ===== verification/Ring_Block_Correct.thy ===== *)
theory Ring_Block_Correct
  imports Ring_Block
begin

text \<open>
  The blocks of the ring lie one behind the other, in up to two runs: one towards the end
  of the buffer and, once the ring has wrapped, one from its start on. Every operation on single blocks keeps
  this, as a step relation.
\<close>

section \<open>Places of blocks\<close>

definition blk_from :: "rt_rbb_blk \<Rightarrow> nat" where "blk_from b = unat (blk_buf b)"
definition blk_upto :: "rt_rbb_blk \<Rightarrow> nat" where "blk_upto b = unat (blk_buf b) + unat (blk_size b)"

text \<open>Blocks in order between two addresses.\<close>

fun laid :: "nat \<Rightarrow> nat \<Rightarrow> rt_rbb_blk list \<Rightarrow> bool" where
  "laid a e [] \<longleftrightarrow> a \<le> e"
| "laid a e (b # bs) \<longleftrightarrow> a \<le> blk_from b \<and> blk_from b < blk_upto b \<and> laid (blk_upto b) e bs"

definition ring :: "nat \<Rightarrow> nat \<Rightarrow> rt_rbb_blk list \<Rightarrow> bool" where
  "ring a e bs \<longleftrightarrow> (\<exists>hi lo. bs = hi @ lo \<and> laid a e hi \<and> (lo \<noteq> [] \<longrightarrow> hi \<noteq> [] \<and> laid a (blk_from (hd hi)) lo))"

lemma laid_le: "laid a e bs \<Longrightarrow> a \<le> e"
  by (induction bs arbitrary: a) (auto, fastforce)

lemma laid_widen: "laid a e bs \<Longrightarrow> a' \<le> a \<Longrightarrow> laid a' e bs"
  by (cases bs) auto

lemma laid_further: "laid a e bs \<Longrightarrow> e \<le> e' \<Longrightarrow> laid a e' bs"
  by (induction bs arbitrary: a) auto

lemma laid_inside: "laid a e bs \<Longrightarrow> b \<in> set bs \<Longrightarrow> a \<le> blk_from b \<and> blk_from b < blk_upto b \<and> blk_upto b \<le> e"
proof (induction bs arbitrary: a)
  case (Cons c bs)
  then show ?case using laid_le [of "blk_upto c" e bs] by fastforce
qed simp

lemma laid_order: "laid a e bs \<Longrightarrow> sorted_wrt (\<lambda>b c. blk_upto b \<le> blk_from c) bs"
  by (induction bs arbitrary: a) (auto dest: laid_inside)

lemma laid_remove: "laid a e (us @ b # vs) \<Longrightarrow> laid a e (us @ vs)"
  by (induction us arbitrary: a) (auto intro: laid_widen)

lemma laid_snoc:
  assumes "laid a e us" and "us \<noteq> []" and "blk_from b = blk_upto (last us)" and "blk_from b < blk_upto b" and "blk_upto b \<le> e'"
  shows "laid a e' (us @ [b])"
  using assms by (induction us arbitrary: a) (auto split: if_splits)

lemma ring_remove:
  assumes "ring a e (us @ b # vs)"
  shows "ring a e (us @ vs)"
proof -
  from assms obtain hi lo where S: "us @ b # vs = hi @ lo" "laid a e hi" "lo \<noteq> [] \<longrightarrow> hi \<noteq> [] \<and> laid a (blk_from (hd hi)) lo"
    by (auto simp: ring_def)
  from S(1) consider w where "hi = us @ b # w" "vs = w @ lo" | w where "lo = w @ b # vs" "us = hi @ w"
    by (auto simp: append_eq_append_conv2 Cons_eq_append_conv)
  then show ?thesis
  proof cases
    case 1
    note hi' = laid_remove [OF S(2) [unfolded 1(1)]]
    show ?thesis
    proof (cases "us @ w = [] \<or> lo = []")
      case True
      have "laid a e lo" if "lo \<noteq> []"
      proof -
        have "laid a (blk_from (hd hi)) lo" using S(3) that by simp
        moreover have "blk_from (hd hi) \<le> e" using laid_inside [OF S(2), of "hd hi"] S(3) that by fastforce
        ultimately show ?thesis by (rule laid_further)
      qed
      with True hi' show ?thesis unfolding ring_def 1(2)
        by (intro exI [of _ "if lo = [] then us @ w else lo"] exI [of _ "[]"]) auto
    next
      case False
      have "blk_from (hd hi) \<le> blk_from (hd (us @ w))"
        using S(2) False unfolding 1(1) by (cases us; cases w) (auto dest: laid_inside)
      then have "laid a (blk_from (hd (us @ w))) lo" using S(3) False laid_further by blast
      with False hi' show ?thesis unfolding ring_def 1(2)
        by (intro exI [of _ "us @ w"] exI [of _ lo]) auto
    qed
  next
    case 2
    then have "laid a (blk_from (hd hi)) (w @ vs)" "hi \<noteq> []" using S(3) laid_remove [of a _ w b vs] by auto
    with S(2) show ?thesis unfolding ring_def 2(2)
      by (intro exI [of _ hi] exI [of _ "w @ vs"]) auto
  qed
qed

text \<open>The two ways to go on: behind the last block, or from the start of the buffer.\<close>

lemma ring_wrapped:
  assumes "ring a e bs" and "bs \<noteq> []"
  shows "(blk_from (hd bs) \<le> blk_from (last bs) \<longrightarrow> laid a e bs) \<and>
    (\<not> blk_from (hd bs) \<le> blk_from (last bs) \<longrightarrow>
      (\<exists>hi lo. bs = hi @ lo \<and> laid a e hi \<and> hi \<noteq> [] \<and> lo \<noteq> [] \<and> laid a (blk_from (hd bs)) lo))"
proof -
  from assms(1) obtain hi lo where S: "bs = hi @ lo" "laid a e hi" "lo \<noteq> [] \<longrightarrow> hi \<noteq> [] \<and> laid a (blk_from (hd hi)) lo"
    by (auto simp: ring_def)
  show ?thesis
  proof (cases "lo = []")
    case True
    have "blk_from (hd bs) \<le> blk_from (last bs)"
    proof (cases bs)
      case (Cons b cs)
      then show ?thesis
        using S(1,2) True laid_inside [of "blk_upto b" e cs "last cs"] by (cases "cs = []") auto
    qed (use assms(2) in simp)
    with S(1,2) True show ?thesis by simp
  next
    case False
    then have "blk_upto (last bs) \<le> blk_from (hd bs)" "blk_from (last bs) < blk_upto (last bs)"
      using S(3) laid_inside [of a "blk_from (hd hi)" lo "last lo"] by (auto simp: S(1))
    with S False show ?thesis by auto
  qed
qed

section \<open>The ring buffer\<close>

definition ring_start :: "rt_rbb \<Rightarrow> nat" where "ring_start rbb = unat (rbb_buf rbb)"
definition ring_stop :: "rt_rbb \<Rightarrow> nat" where "ring_stop rbb = unat (rbb_buf rbb) + unat (buf_size rbb)"

definition in_use :: "rt_rbb \<Rightarrow> rt_rbb_blk list" where
  "in_use rbb = map (\<lambda>i. blk_set rbb ! i) (blk_list rbb)"

text \<open>The list has the blocks of the set that are not unused, and they form a ring.\<close>

definition rbb_ok :: "rt_rbb \<Rightarrow> bool" where
  "rbb_ok rbb \<longleftrightarrow> ring_stop rbb < 2 ^ 32 \<and> length (blk_set rbb) = unat (blk_max_num rbb) \<and> distinct (blk_list rbb) \<and>
     (\<forall>i. i \<in> set (blk_list rbb) \<longleftrightarrow>
        i < length (blk_set rbb) \<and> blk_status (blk_set rbb ! i) \<noteq> RT_RBB_BLK_UNUSED) \<and>
     ring (ring_start rbb) (ring_stop rbb) (in_use rbb)"

lemma rbb_okD:
  assumes "rbb_ok rbb"
  shows "ring_stop rbb < 2 ^ 32" "length (blk_set rbb) = unat (blk_max_num rbb)" "distinct (blk_list rbb)"
    "\<And>i. i \<in> set (blk_list rbb) \<longleftrightarrow> i < length (blk_set rbb) \<and> blk_status (blk_set rbb ! i) \<noteq> RT_RBB_BLK_UNUSED"
    "ring (ring_start rbb) (ring_stop rbb) (in_use rbb)"
  using assms by (auto simp: rbb_ok_def)

lemma laid_frames: "map blk_buf bs = map blk_buf cs \<Longrightarrow> map blk_size bs = map blk_size cs \<Longrightarrow> laid a e bs = laid a e cs"
proof (induction bs arbitrary: a cs)
  case (Cons b bs)
  then obtain c cs' where c: "cs = c # cs'" by (cases cs) auto
  with Cons.prems have "blk_from b = blk_from c" "blk_upto b = blk_upto c"
      and "map blk_buf bs = map blk_buf cs'" "map blk_size bs = map blk_size cs'"
    by (simp_all add: blk_from_def blk_upto_def)
  with Cons.IH [of cs'] show ?case by (simp add: c)
qed simp

lemma ring_frames:
  assumes "map blk_buf bs = map blk_buf cs" and "map blk_size bs = map blk_size cs" and "ring a e bs"
  shows "ring a e cs"
proof -
  from assms(3) obtain hi lo where S: "bs = hi @ lo" "laid a e hi" "lo \<noteq> [] \<longrightarrow> hi \<noteq> [] \<and> laid a (blk_from (hd hi)) lo"
    by (auto simp: ring_def)
  define hi' lo' where "hi' = take (length hi) cs" and "lo' = drop (length hi) cs"
  have "map f hi = map f hi'" "map f lo = map f lo'" if "map f bs = map f cs" for f :: "rt_rbb_blk \<Rightarrow> u32"
  proof -
    have "map f hi = take (length hi) (map f bs)" "map f lo = drop (length hi) (map f bs)" by (simp_all add: S(1))
    with that show "map f hi = map f hi'" "map f lo = map f lo'" by (simp_all add: take_map drop_map hi'_def lo'_def)
  qed
  with assms(1,2) have M: "map blk_buf hi = map blk_buf hi'" "map blk_size hi = map blk_size hi'"
      "map blk_buf lo = map blk_buf lo'" "map blk_size lo = map blk_size lo'" by blast+
  have "laid a e hi'" using S(2) laid_frames [OF M(1,2)] by simp
  moreover have "lo' \<noteq> [] \<longrightarrow> hi' \<noteq> [] \<and> laid a (blk_from (hd hi')) lo'"
  proof
    assume "lo' \<noteq> []"
    then have "lo \<noteq> []" using M(3) by auto
    with S(3) have L: "hi \<noteq> []" "laid a (blk_from (hd hi)) lo" by auto
    then have "hi' \<noteq> []" "blk_from (hd hi') = blk_from (hd hi)"
      using M(1) by (cases hi; cases hi'; auto simp: blk_from_def)+
    with L laid_frames [OF M(3,4)] show "hi' \<noteq> [] \<and> laid a (blk_from (hd hi')) lo'" by simp
  qed
  moreover have "cs = hi' @ lo'" by (simp add: hi'_def lo'_def)
  ultimately show ?thesis unfolding ring_def by blast
qed

lemma blk_at_used: "rbb_ok rbb \<Longrightarrow> i \<in> set (blk_list rbb) \<Longrightarrow> blk_at i rbb = Some (blk_set rbb ! i)"
  using rbb_okD(4) by (simp add: blk_at_def)

lemma map_other: "i \<notin> set js \<Longrightarrow> map (\<lambda>j. bs[i := b] ! j) js = map (\<lambda>j. bs ! j) js"
  by (auto intro!: nth_list_update_neq)

text \<open>A new state of a block that stays in use.\<close>

lemma set_status_ok:
  assumes ok: "rbb_ok rbb" and i: "i \<in> set (blk_list rbb)" and st: "st \<noteq> RT_RBB_BLK_UNUSED"
  shows "rbb_ok (set_status i st rbb)"
proof -
  note R = rbb_okD [OF ok]
  have "ring (ring_start rbb) (ring_stop rbb) (in_use (set_status i st rbb))"
    by (rule ring_frames [OF _ _ R(5)])
      (use R(4) i in \<open>auto simp: in_use_def set_status_def nth_list_update\<close>)
  with R i st show ?thesis
    by (auto simp: rbb_ok_def set_status_def ring_start_def ring_stop_def nth_list_update)
qed

lemma free_ok:
  assumes ok: "rbb_ok rbb" and i: "i \<in> set (blk_list rbb)"
  shows "rbb_ok (set_status i RT_RBB_BLK_UNUSED (unlink i rbb))"
proof -
  note R = rbb_okD [OF ok]
  from i obtain xs ys where l: "blk_list rbb = xs @ i # ys" by (auto simp: in_set_conv_decomp)
  with R(3) have new: "i \<notin> set xs" "i \<notin> set ys" by auto
  let ?r = "set_status i RT_RBB_BLK_UNUSED (unlink i rbb)"
  have l': "blk_list ?r = xs @ ys" using new by (simp add: set_status_def unlink_def l remove1_append)
  have "in_use ?r = map (\<lambda>i. blk_set rbb ! i) xs @ map (\<lambda>i. blk_set rbb ! i) ys"
    using new unfolding in_use_def l' by (simp add: set_status_def unlink_def map_other)
  moreover have "ring (ring_start rbb) (ring_stop rbb) (map (\<lambda>i. blk_set rbb ! i) xs @ map (\<lambda>i. blk_set rbb ! i) ys)"
    by (rule ring_remove [of _ _ _ "blk_set rbb ! i"]) (use R(5) l in \<open>simp add: in_use_def\<close>)
  ultimately have "ring (ring_start ?r) (ring_stop ?r) (in_use ?r)"
    by (simp add: ring_start_def ring_stop_def set_status_def unlink_def)
  moreover have "j \<in> set (blk_list ?r) \<longleftrightarrow>
      j < length (blk_set ?r) \<and> blk_status (blk_set ?r ! j) \<noteq> RT_RBB_BLK_UNUSED" for j
  proof -
    have "j \<in> set (blk_list ?r) \<longleftrightarrow> j \<in> set (blk_list rbb) \<and> j \<noteq> i" using new by (auto simp: l' l)
    then show ?thesis
      unfolding R(4) by (cases "j = i") (simp_all add: set_status_def unlink_def)
  qed
  moreover have "distinct (blk_list ?r)" using R(3) by (simp add: l l')
  moreover have "ring_stop ?r < 2 ^ 32" "length (blk_set ?r) = unat (blk_max_num ?r)"
    using R(1,2) by (simp_all add: set_status_def unlink_def ring_stop_def)
  ultimately show ?thesis by (simp only: rbb_ok_def) blast
qed

section \<open>Allocation\<close>

lemma find_empty_facts:
  assumes "rbb_ok rbb"
  shows "find_empty_blk_in_set rbb = Some i \<Longrightarrow> i < length (blk_set rbb) \<and> i \<notin> set (blk_list rbb) \<and>
      length (blk_list rbb) < unat (blk_max_num rbb)"
    and "find_empty_blk_in_set rbb = None \<longleftrightarrow> set (blk_list rbb) = {..<length (blk_set rbb)}"
proof -
  note R = rbb_okD [OF assms]
  have all: "take (unat (blk_max_num rbb)) (blk_set rbb) = blk_set rbb" using R(2) by simp
  show "i < length (blk_set rbb) \<and> i \<notin> set (blk_list rbb) \<and> length (blk_list rbb) < unat (blk_max_num rbb)"
    if "find_empty_blk_in_set rbb = Some i"
  proof -
    from first_index_SomeD [OF that [unfolded find_empty_blk_in_set_def all]]
    have i: "i < length (blk_set rbb)" "i \<notin> set (blk_list rbb)" using R(4) by auto
    then have "set (blk_list rbb) \<subset> {..<length (blk_set rbb)}" using R(4) by auto
    then have "card (set (blk_list rbb)) < card {..<length (blk_set rbb)}" by (intro psubset_card_mono) auto
    with i R(2,3) show ?thesis by (simp add: distinct_card)
  qed
  show "find_empty_blk_in_set rbb = None \<longleftrightarrow> set (blk_list rbb) = {..<length (blk_set rbb)}"
    unfolding find_empty_blk_in_set_def all first_index_None using R(4)
    by (auto simp: all_set_conv_all_nth)
qed

lemma place_ok:
  assumes ok: "rbb_ok rbb" and i: "i < length (blk_set rbb)" "i \<notin> set (blk_list rbb)"
    and ring: "ring (ring_start rbb) (ring_stop rbb) (in_use rbb @ [\<lparr>blk_status = RT_RBB_BLK_INITED, blk_size = n, blk_buf = a\<rparr>])"
  shows "rbb_ok (place_block i a n rbb)"
proof -
  note R = rbb_okD [OF ok]
  let ?r = "place_block i a n rbb"
  have "map (\<lambda>j. (blk_set rbb)[i := b] ! j) (blk_list rbb) = in_use rbb" for b
    using i(2) by (simp add: in_use_def map_other)
  then have "in_use ?r = in_use rbb @ [\<lparr>blk_status = RT_RBB_BLK_INITED, blk_size = n, blk_buf = a\<rparr>]"
    using i(1) by (simp add: in_use_def place_block_def)
  with ring have "ring (ring_start ?r) (ring_stop ?r) (in_use ?r)"
    by (simp add: ring_start_def ring_stop_def place_block_def)
  moreover have "j \<in> set (blk_list ?r) \<longleftrightarrow>
      j < length (blk_set ?r) \<and> blk_status (blk_set ?r ! j) \<noteq> RT_RBB_BLK_UNUSED" for j
    using R(4) [of j] i(1) by (cases "j = i") (simp_all add: place_block_def)
  moreover have "distinct (blk_list ?r)" using R(3) i(2) by (simp add: place_block_def)
  moreover have "ring_stop ?r < 2 ^ 32" "length (blk_set ?r) = unat (blk_max_num ?r)"
    using R(1,2) by (simp_all add: place_block_def ring_stop_def)
  ultimately show ?thesis by (simp only: rbb_ok_def) blast
qed

lemma in_use_ends: "blk_list rbb \<noteq> [] \<Longrightarrow>
  hd (in_use rbb) = blk_set rbb ! hd (blk_list rbb) \<and> last (in_use rbb) = blk_set rbb ! last (blk_list rbb)"
  by (simp add: in_use_def hd_map last_map)

text \<open>The comparisons in 32 bits are those of the numbers.\<close>

lemma find_room_eq:
  assumes ok: "rbb_ok rbb" and ne: "in_use rbb \<noteq> []"
  defines "h \<equiv> hd (in_use rbb)" and "t \<equiv> last (in_use rbb)"
  shows "find_room n h t rbb =
      (if blk_from h \<le> blk_from t
       then if blk_upto t + unat n \<le> ring_stop rbb then Some (blk_end t)
            else if ring_start rbb + unat n \<le> blk_from h then Some (rbb_buf rbb) else None
       else if blk_upto t + unat n \<le> blk_from h then Some (blk_end t) else None)"
    and "unat (blk_end t) = blk_upto t"
proof -
  note R = rbb_okD [OF ok] note W = ring_wrapped [OF R(5) ne]
  have b: "ring_start rbb \<le> blk_from b \<and> blk_upto b \<le> ring_stop rbb" if "b \<in> set (in_use rbb)" for b
  proof (cases "blk_from (hd (in_use rbb)) \<le> blk_from (last (in_use rbb))")
    case True
    with W that laid_inside show ?thesis by blast
  next
    case False
    with W obtain hi lo where S: "in_use rbb = hi @ lo" "laid (ring_start rbb) (ring_stop rbb) hi" "hi \<noteq> []"
        "laid (ring_start rbb) (blk_from (hd (in_use rbb))) lo" by blast
    moreover have "blk_from (hd hi) \<le> ring_stop rbb" using laid_inside [OF S(2), of "hd hi"] S(3) by fastforce
    ultimately have "laid (ring_start rbb) (ring_stop rbb) lo" using laid_further by fastforce
    with S(1,2) that show ?thesis using laid_inside by auto
  qed
  have ht: "ring_start rbb \<le> blk_from h" "blk_upto t \<le> ring_stop rbb"
    using b [of h] b [of t] ne by (simp_all add: h_def t_def)
  show e: "unat (blk_end t) = blk_upto t"
    using ht(2) R(1) by (simp add: blk_end_def blk_upto_def unat_word_ariths)
  have stop: "unat (rbb_buf rbb + buf_size rbb) = ring_stop rbb"
    using R(1) by (simp add: ring_stop_def unat_word_ariths)
  have e1: "n \<le> (rbb_buf rbb + buf_size rbb) - blk_end t \<longleftrightarrow> blk_upto t + unat n \<le> ring_stop rbb"
    using ht(2) e stop by (auto simp: word_le_nat_alt unat_sub)
  have e2: "n \<le> blk_buf h - rbb_buf rbb \<longleftrightarrow> ring_start rbb + unat n \<le> blk_from h"
    using ht(1) by (auto simp: word_le_nat_alt unat_sub blk_from_def ring_start_def)
  have e3: "n \<le> blk_buf h - blk_end t \<longleftrightarrow> blk_upto t + unat n \<le> blk_from h" if "\<not> blk_from h \<le> blk_from t"
  proof -
    from W that obtain hi lo where S: "in_use rbb = hi @ lo" "lo \<noteq> []" "laid (ring_start rbb) (blk_from h) lo"
      unfolding h_def t_def by blast
    then have "blk_upto t \<le> blk_from h" using laid_inside [OF S(3), of t] by (simp add: t_def)
    then show ?thesis using e by (auto simp: word_le_nat_alt unat_sub blk_from_def)
  qed
  have c: "blk_buf h \<le> blk_buf t \<longleftrightarrow> blk_from h \<le> blk_from t" by (simp add: blk_from_def word_le_nat_alt)
  show "find_room n h t rbb =
      (if blk_from h \<le> blk_from t
       then if blk_upto t + unat n \<le> ring_stop rbb then Some (blk_end t)
            else if ring_start rbb + unat n \<le> blk_from h then Some (rbb_buf rbb) else None
       else if blk_upto t + unat n \<le> blk_from h then Some (blk_end t) else None)"
    unfolding find_room_def Let_def c e1 e2 using e3 by simp
qed

lemma find_room_ring:
  assumes ok: "rbb_ok rbb" and ne: "in_use rbb \<noteq> []" and n: "n \<noteq> 0"
    and room: "find_room n (hd (in_use rbb)) (last (in_use rbb)) rbb = Some a"
  shows "ring (ring_start rbb) (ring_stop rbb) (in_use rbb @ [\<lparr>blk_status = RT_RBB_BLK_INITED, blk_size = n, blk_buf = a\<rparr>])"
    (is "ring ?a ?e (_ @ [?b])")
proof -
  note F = find_room_eq [OF ok ne] note W = ring_wrapped [OF rbb_okD(5) [OF ok] ne]
  have n': "0 < unat n" using n by (simp add: unat_gt_0)
  have b: "blk_from ?b = unat a" "blk_upto ?b = unat a + unat n" by (simp_all add: blk_from_def blk_upto_def)
  show ?thesis
  proof (cases "blk_from (hd (in_use rbb)) \<le> blk_from (last (in_use rbb))")
    case True
    with W have L: "laid ?a ?e (in_use rbb)" by blast
    show ?thesis
    proof (cases "blk_upto (last (in_use rbb)) + unat n \<le> ?e")
      case True
      then have "laid ?a ?e (in_use rbb @ [?b])"
        by (intro laid_snoc [OF L ne]) (use F n' room b \<open>blk_from (hd (in_use rbb)) \<le> blk_from (last (in_use rbb))\<close> in auto)
      then show ?thesis unfolding ring_def by (intro exI [of _ "in_use rbb @ [?b]"] exI [of _ "[]"]) simp
    next
      case False
      with room F True have a: "a = rbb_buf rbb" "?a + unat n \<le> blk_from (hd (in_use rbb))" by (auto split: if_splits)
      with n' b have "laid ?a (blk_from (hd (in_use rbb))) [?b]" by (simp add: ring_start_def)
      with L ne show ?thesis unfolding ring_def by blast
    qed
  next
    case False
    with W obtain hi lo where S: "in_use rbb = hi @ lo" "laid ?a ?e hi" "hi \<noteq> []" "lo \<noteq> []"
        "laid ?a (blk_from (hd (in_use rbb))) lo" by blast
    have "laid ?a (blk_from (hd (in_use rbb))) (lo @ [?b])"
      by (intro laid_snoc [OF S(5,4)]) (use False F room n' b S(1,4) in \<open>auto split: if_splits\<close>)
    with S show ?thesis unfolding ring_def by (intro exI [of _ hi] exI [of _ "lo @ [?b]"]) simp
  qed
qed

text \<open>What allocation does, on every branch.\<close>

lemma alloc_cases:
  assumes ok: "rbb_ok rbb" and n: "n \<noteq> 0" "n < 0x1000000" "n \<le> buf_size rbb"
  obtains (refused) "rt_rbb_blk_alloc n rbb = Some (None, rbb)"
      "set (blk_list rbb) = {..<length (blk_set rbb)} \<or>
       in_use rbb \<noteq> [] \<and> find_room n (hd (in_use rbb)) (last (in_use rbb)) rbb = None"
  | (placed) i a where "rt_rbb_blk_alloc n rbb = Some (Some i, place_block i a n rbb)"
      "i < length (blk_set rbb)" "i \<notin> set (blk_list rbb)" "rbb_ok (place_block i a n rbb)"
      "in_use rbb = [] \<and> a = rbb_buf rbb \<or> in_use rbb \<noteq> [] \<and> find_room n (hd (in_use rbb)) (last (in_use rbb)) rbb = Some a"
proof -
  note R = rbb_okD [OF ok] note E = find_empty_facts [OF ok]
  have u: "in_use rbb = [] \<longleftrightarrow> blk_list rbb = []" by (simp add: in_use_def)
  show thesis
  proof (cases "find_empty_blk_in_set rbb")
    case None
    with n(2) E(2) show thesis by (intro refused) (simp_all add: rt_rbb_blk_alloc_def)
  next
    case (Some i)
    note i = E(1) [OF Some]
    show thesis
    proof (cases "blk_list rbb = []")
      case True
      have "ring (ring_start rbb) (ring_stop rbb) [\<lparr>blk_status = RT_RBB_BLK_INITED, blk_size = n, blk_buf = rbb_buf rbb\<rparr>]"
        using n(1,3) unfolding ring_def
        by (intro exI [of _ "[\<lparr>blk_status = RT_RBB_BLK_INITED, blk_size = n, blk_buf = rbb_buf rbb\<rparr>]"] exI [of _ "[]"])
          (simp add: blk_from_def blk_upto_def ring_start_def ring_stop_def unat_gt_0 word_le_nat_alt)
      with place_ok [OF ok] i True u have "rbb_ok (place_block i (rbb_buf rbb) n rbb)" by simp
      with i True Some n(2) u show thesis by (intro placed [of i "rbb_buf rbb"]) (simp_all add: rt_rbb_blk_alloc_def)
    next
      case False
      then have hl: "hd (blk_list rbb) \<in> set (blk_list rbb)" "last (blk_list rbb) \<in> set (blk_list rbb)" by simp_all
      have run: "rt_rbb_blk_alloc n rbb =
          Some (case find_room n (hd (in_use rbb)) (last (in_use rbb)) rbb of
            None \<Rightarrow> (None, rbb) | Some a \<Rightarrow> (Some i, place_block i a n rbb))"
        using Some i False n(2) in_use_ends [OF False] hl [THEN blk_at_used [OF ok]]
        by (simp add: rt_rbb_blk_alloc_def)
      show thesis
      proof (cases "find_room n (hd (in_use rbb)) (last (in_use rbb)) rbb")
        case None
        with run False u show thesis by (intro refused) simp_all
      next
        case (Some a)
        have ne: "in_use rbb \<noteq> []" using False u by simp
        from place_ok [OF ok _ _ find_room_ring [OF ok ne n(1) Some]] i have "rbb_ok (place_block i a n rbb)" by blast
        with i run Some ne show thesis by (intro placed [of i a]) simp_all
      qed
    qed
  qed
qed

end
