(* ===== verification/Ring_Block_Behaviour.thy ===== *)
theory Ring_Block_Behaviour
  imports Ring_Block_Correct Mem_Behaviour Kservice_Behaviour
begin

text \<open>
  What users of a block ring rely on, and where queues of blocks and the first block break it.
\<close>

section \<open>Reachable states\<close>

text \<open>The operations on single blocks, in any order; a request asks for what an empty ring can hold.\<close>

inductive rbb_step :: "rt_rbb \<Rightarrow> rt_rbb \<Rightarrow> bool" where
  alloc: "n \<noteq> 0 \<Longrightarrow> n \<le> buf_size s \<Longrightarrow> rt_rbb_blk_alloc n s = Some (r, s') \<Longrightarrow> rbb_step s s'"
| put: "rt_rbb_blk_put i s = Some s' \<Longrightarrow> rbb_step s s'"
| get: "rt_rbb_blk_get s = Some (r, s') \<Longrightarrow> rbb_step s s'"
| free: "rt_rbb_blk_free i s = Some s' \<Longrightarrow> rbb_step s s'"

lemma rbb_init_ok:
  assumes "rt_rbb_init buf sz bs n = Some s" and "length bs = unat n" and "unat buf + unat sz < 2 ^ 32"
  shows "rbb_ok s \<and> ring_start s = unat buf \<and> ring_stop s = unat buf + unat sz"
  using assms by (auto simp: rt_rbb_init_def rbb_ok_def ring_start_def ring_stop_def in_use_def ring_def)

text \<open>The first block of the list that has been put is got, if there is one.\<close>

definition got :: "nat list \<Rightarrow> rt_rbb \<Rightarrow> nat option \<Rightarrow> rt_rbb \<Rightarrow> bool" where
  "got is s r s' \<longleftrightarrow> (case r of
     None \<Rightarrow> s' = s \<and> (\<forall>i \<in> set is. blk_status (blk_set s ! i) \<noteq> RT_RBB_BLK_PUT)
   | Some i \<Rightarrow> \<exists>us vs. is = us @ i # vs \<and> s' = set_status i RT_RBB_BLK_GET s \<and>
       blk_status (blk_set s ! i) = RT_RBB_BLK_PUT \<and> (\<forall>j \<in> set us. blk_status (blk_set s ! j) \<noteq> RT_RBB_BLK_PUT))"

lemma got_here: "blk_status (blk_set s ! i) = RT_RBB_BLK_PUT \<Longrightarrow> got (i # is) s (Some i) (set_status i RT_RBB_BLK_GET s)"
  unfolding got_def by (auto intro: exI [of _ "[]"])

lemma got_later: "blk_status (blk_set s ! i) \<noteq> RT_RBB_BLK_PUT \<Longrightarrow> got is s r s' \<Longrightarrow> got (i # is) s r s'"
proof (cases r)
  case (Some a)
  assume "blk_status (blk_set s ! i) \<noteq> RT_RBB_BLK_PUT" "got is s r s'"
  moreover from this Some obtain us vs where "is = us @ a # vs" "s' = set_status a RT_RBB_BLK_GET s"
      "blk_status (blk_set s ! a) = RT_RBB_BLK_PUT" "\<forall>j \<in> set us. blk_status (blk_set s ! j) \<noteq> RT_RBB_BLK_PUT"
    by (auto simp: got_def)
  ultimately show ?thesis
    unfolding got_def Some option.case by (intro exI [of _ "i # us"] exI [of _ vs]) simp
qed (simp add: got_def)

lemma got_state: "got is s r s' \<Longrightarrow> s' = s \<or> (\<exists>i \<in> set is. s' = set_status i RT_RBB_BLK_GET s)"
  by (cases r) (auto simp: got_def)

lemma get_loop_got:
  assumes "rbb_ok s" and "set is \<subseteq> set (blk_list s)"
  shows "\<exists>r s'. blk_get_loop is s = Some (r, s') \<and> got is s r s'"
  using assms(2)
proof (induction "is")
  case (Cons i js)
  then have b: "blk_at i s = Some (blk_set s ! i)" using blk_at_used [OF assms(1)] by simp
  from Cons obtain r s' where "blk_get_loop js s = Some (r, s')" "got js s r s'" by auto
  with b got_here got_later show ?case by (cases "blk_status (blk_set s ! i) = RT_RBB_BLK_PUT") auto
qed (simp add: got_def)

lemma get_got: "rbb_ok s \<Longrightarrow> \<exists>r s'. rt_rbb_blk_get s = Some (r, s') \<and> got (blk_list s) s r s'"
  using get_loop_got by (simp add: rt_rbb_blk_get_def)

lemma step_keeps:
  assumes "rbb_step s s'" and ok: "rbb_ok s"
  shows "rbb_ok s' \<and> ring_start s' = ring_start s \<and> ring_stop s' = ring_stop s"
  using assms(1)
proof cases
  case (alloc n r)
  then have "n < 0x1000000" by (auto simp: rt_rbb_blk_alloc_def bind_eq_Some_conv RT_ASSERT_def split: if_splits)
  with alloc show ?thesis
    using ok by (elim alloc_cases [OF ok]) (auto simp: place_block_def ring_start_def ring_stop_def)
next
  case (put i)
  then have "i \<in> set (blk_list s)" "s' = set_status i RT_RBB_BLK_PUT s"
    using rbb_okD(4) [OF ok] by (auto simp: rt_rbb_blk_put_def blk_at_def bind_eq_Some_conv RT_ASSERT_def split: if_splits)
  with set_status_ok [OF ok] show ?thesis by (simp add: ring_start_def ring_stop_def) (simp add: set_status_def)
next
  case (get r)
  from get_got [OF ok] get have "got (blk_list s) s r s'" by simp
  from got_state [OF this] show ?thesis
    using ok set_status_ok [OF ok] by (auto simp: ring_start_def ring_stop_def) (auto simp: set_status_def)
next
  case (free i)
  then have "i \<in> set (blk_list s)" "s' = set_status i RT_RBB_BLK_UNUSED (unlink i s)"
    using rbb_okD(4) [OF ok] by (auto simp: rt_rbb_blk_free_def blk_at_def bind_eq_Some_conv RT_ASSERT_def split: if_splits)
  with free_ok [OF ok] show ?thesis by (simp add: ring_start_def ring_stop_def) (simp add: set_status_def unlink_def)
qed

lemma steps_keep:
  assumes "rbb_step\<^sup>*\<^sup>* s s'" and "rbb_ok s"
  shows "rbb_ok s' \<and> ring_start s' = ring_start s \<and> ring_stop s' = ring_stop s"
  using assms by (induction rule: rtranclp_induct) (auto dest: step_keeps)

text \<open>Blocks of a well-formed ring do not overlap.\<close>

lemma ring_apart:
  assumes ok: "rbb_ok s" and i: "i \<in> set (blk_list s)" and j: "j \<in> set (blk_list s)" and ne: "i \<noteq> j"
  shows "blk_upto (blk_set s ! i) \<le> blk_from (blk_set s ! j) \<or> blk_upto (blk_set s ! j) \<le> blk_from (blk_set s ! i)"
proof -
  let ?R = "\<lambda>b c. blk_upto b \<le> blk_from c \<or> blk_upto c \<le> blk_from b"
  from rbb_okD(5) [OF ok] obtain hi lo where S: "in_use s = hi @ lo" "laid (ring_start s) (ring_stop s) hi"
      "lo \<noteq> [] \<longrightarrow> hi \<noteq> [] \<and> laid (ring_start s) (blk_from (hd hi)) lo" by (auto simp: ring_def)
  have "?R b c" if "b \<in> set hi" "c \<in> set lo" for b c
  proof -
    have "lo \<noteq> []" using that(2) by auto
    with S(3) laid_inside [of _ _ lo c] that(2) have "blk_upto c \<le> blk_from (hd hi)" by blast
    moreover have "blk_from (hd hi) \<le> blk_from b"
      using S(2) that(1) by (cases hi) (auto dest: laid_inside)
    ultimately show ?thesis by simp
  qed
  moreover have "sorted_wrt ?R hi" using laid_order [OF S(2)] by (rule sorted_wrt_mono_rel [rotated]) simp
  moreover have "sorted_wrt ?R lo"
  proof (cases "lo = []")
    case False
    with S(3) have "laid (ring_start s) (blk_from (hd hi)) lo" by blast
    from laid_order [OF this] show ?thesis by (rule sorted_wrt_mono_rel [rotated]) simp
  qed simp
  ultimately have "sorted_wrt ?R (in_use s)" by (simp add: S(1) sorted_wrt_append)
  then have sw: "sorted_wrt (\<lambda>x y. ?R (blk_set s ! x) (blk_set s ! y)) (blk_list s)"
    by (simp add: in_use_def sorted_wrt_map)
  from i j obtain k l where kl: "k < length (blk_list s)" "blk_list s ! k = i" "l < length (blk_list s)" "blk_list s ! l = j"
    by (auto simp: in_set_conv_nth)
  with ne have "k < l \<or> l < k" by (metis nat_neq_iff)
  then show ?thesis using sorted_wrt_nth_less [OF sw] kl by (metis disj_commute)
qed

lemma ring_inside:
  assumes ok: "rbb_ok s" and i: "i \<in> set (blk_list s)"
  shows "ring_start s \<le> blk_from (blk_set s ! i) \<and> blk_upto (blk_set s ! i) \<le> ring_stop s"
proof -
  from rbb_okD(5) [OF ok] obtain hi lo where S: "in_use s = hi @ lo" "laid (ring_start s) (ring_stop s) hi"
      "lo \<noteq> [] \<longrightarrow> hi \<noteq> [] \<and> laid (ring_start s) (blk_from (hd hi)) lo" by (auto simp: ring_def)
  have "blk_set s ! i \<in> set hi \<or> blk_set s ! i \<in> set lo" using i S(1) by (metis in_use_def image_eqI list.set_map Un_iff set_append)
  then show ?thesis
  proof
    assume lo: "blk_set s ! i \<in> set lo"
    then have "laid (ring_start s) (blk_from (hd hi)) lo" "hi \<noteq> []" using S(3) by auto
    with lo laid_inside [OF S(2), of "hd hi"] laid_inside [of _ _ lo] show ?thesis by fastforce
  qed (use laid_inside [OF S(2)] in blast)
qed

section \<open>Claims\<close>

text \<open>
  Claim C18 (safety). After \<^verbatim>\<open>rt_rbb_init\<close> on a buffer that does not wrap and a set of as many blocks as it is
  told, blocks of at least one byte and at most the size of the buffer are requested, and blocks are put, got and
  released, in any order: every block that is not unused lies inside the buffer and overlaps no other one.
\<close>
theorem ring_blocks_apart:
  assumes "rt_rbb_init buf sz bs n = Some s0" and "length bs = unat n" and "unat buf + unat sz < 2 ^ 32"
    and "rbb_step\<^sup>*\<^sup>* s0 s" and "blk_at i s = Some b" and "blk_status b \<noteq> RT_RBB_BLK_UNUSED"
  shows "unat buf \<le> blk_from b \<and> blk_upto b \<le> unat buf + unat sz \<and>
    (\<forall>j c. blk_at j s = Some c \<longrightarrow> blk_status c \<noteq> RT_RBB_BLK_UNUSED \<longrightarrow> j \<noteq> i \<longrightarrow>
       blk_upto b \<le> blk_from c \<or> blk_upto c \<le> blk_from b)"
proof -
  from rbb_init_ok [OF assms(1,2,3)] steps_keep [OF assms(4)] have ok: "rbb_ok s"
      and a: "ring_start s = unat buf" "ring_stop s = unat buf + unat sz" by auto
  have used: "k \<in> set (blk_list s) \<and> blk_set s ! k = c" if "blk_at k s = Some c" "blk_status c \<noteq> RT_RBB_BLK_UNUSED" for k c
    using that rbb_okD(4) [OF ok] by (auto simp: blk_at_def split: if_splits)
  show ?thesis
    using used [OF assms(5,6)] used ring_inside [OF ok, of i] ring_apart [OF ok, of i] a by metis
qed

text \<open>An empty ring of 40 bytes with three blocks.\<close>

definition blank :: rt_rbb_blk where
  "blank = \<lparr>blk_status = RT_RBB_BLK_UNUSED, blk_size = 0, blk_buf = 0\<rparr>"

definition ring40 :: rt_rbb where
  "ring40 = \<lparr>rbb_buf = 0x1000, buf_size = 40, blk_set = [blank, blank, blank], blk_max_num = 3, blk_list = []\<rparr>"

definition taken_blk :: "rt_rbb_status \<Rightarrow> u32 \<Rightarrow> u32 \<Rightarrow> rt_rbb_blk" where
  "taken_blk st n a = \<lparr>blk_status = st, blk_size = n, blk_buf = a\<rparr>"

lemma ring40_init: "rt_rbb_init 0x1000 40 [blank, blank, blank] 3 = Some ring40"
  by (simp add: rt_rbb_init_def ring40_def blank_def)

lemma ring40_ok: "rbb_ok ring40"
  using rbb_init_ok [OF ring40_init] by simp

theorem ring_blocks_apart_witness:
  "\<exists>s b c. rbb_step\<^sup>*\<^sup>* ring40 s \<and> blk_at 0 s = Some b \<and> blk_at 1 s = Some c \<and> blk_size b = 10 \<and> blk_size c = 20 \<and>
    0x1000 \<le> blk_from b \<and> blk_upto b \<le> 0x1028 \<and> (blk_upto b \<le> blk_from c \<or> blk_upto c \<le> blk_from b)"
proof -
  let ?b = "taken_blk RT_RBB_BLK_INITED 10 0x1000" and ?c = "taken_blk RT_RBB_BLK_INITED 20 0x100a"
  define s1 where "s1 = ring40\<lparr>blk_set := [?b, blank, blank], blk_list := [0]\<rparr>"
  define s2 where "s2 = s1\<lparr>blk_set := [?b, ?c, blank], blk_list := [0, 1]\<rparr>"
  have run: "rt_rbb_blk_alloc 10 ring40 = Some (Some 0, s1)" "rt_rbb_blk_alloc 20 s1 = Some (Some 1, s2)"
    by (simp_all add: s1_def s2_def ring40_def rt_rbb_blk_alloc_def find_empty_blk_in_set_def blank_def taken_blk_def
      place_block_def blk_at_def find_room_def blk_end_def)
  have "rbb_step ring40 s1" "rbb_step s1 s2"
    by (rule rbb_step.intros(1) [OF _ _ run(1)], simp_all add: ring40_def)
      (rule rbb_step.intros(1) [OF _ _ run(2)], simp_all add: s1_def ring40_def)
  then have r: "rbb_step\<^sup>*\<^sup>* ring40 s2" by auto
  have a: "blk_at 0 s2 = Some ?b" "blk_at 1 s2 = Some ?c" by (simp_all add: blk_at_def s2_def)
  have u: "blk_status ?b \<noteq> RT_RBB_BLK_UNUSED" "blk_status ?c \<noteq> RT_RBB_BLK_UNUSED" by (simp_all add: taken_blk_def)
  from ring_blocks_apart [OF ring40_init _ _ r a(1) u(1)] a(2) u(2)
  have "0x1000 \<le> blk_from ?b \<and> blk_upto ?b \<le> 0x1028 \<and> (blk_upto ?b \<le> blk_from ?c \<or> blk_upto ?c \<le> blk_from ?b)"
    by simp
  with r a show ?thesis
    by (intro exI [of _ s2] exI [of _ ?b] exI [of _ ?c]) (simp add: taken_blk_def)
qed

text \<open>
  On a well-formed ring a request that an empty one could hold returns. It is refused, with
  nothing changed, exactly when no block of the set is unused, or the free part behind the last block
  is too small and, while the ring has not wrapped, so is the part before the first one. Otherwise a block
  that was unused has the size, is the last of the list, and the ring is well formed.
\<close>
theorem ring_alloc_exact:
  assumes "rbb_ok s" and "n \<noteq> 0" and "n < 0x1000000" and "n \<le> buf_size s"
  shows "\<exists>r s'. rt_rbb_blk_alloc n s = Some (r, s') \<and> rbb_ok s' \<and>
    (r = None \<longleftrightarrow> set (blk_list s) = {..<length (blk_set s)} \<or>
      in_use s \<noteq> [] \<and> (let h = hd (in_use s); t = last (in_use s) in
        if blk_from h \<le> blk_from t
        then ring_stop s < blk_upto t + unat n \<and> blk_from h < ring_start s + unat n
        else blk_from h < blk_upto t + unat n)) \<and>
    (case r of None \<Rightarrow> s' = s | Some i \<Rightarrow> blk_list s' = blk_list s @ [i] \<and> i \<notin> set (blk_list s) \<and>
      map_option blk_size (blk_at i s') = Some n \<and> map_option blk_status (blk_at i s') = Some RT_RBB_BLK_INITED)"
proof (rule alloc_cases [OF assms])
  assume R: "rt_rbb_blk_alloc n s = Some (None, s)" "set (blk_list s) = {..<length (blk_set s)} \<or>
      in_use s \<noteq> [] \<and> find_room n (hd (in_use s)) (last (in_use s)) s = None"
  then show ?thesis using find_room_eq(1) [OF assms(1), of n] assms(1) by (auto simp: Let_def split: if_splits)
next
  fix i a
  assume P: "rt_rbb_blk_alloc n s = Some (Some i, place_block i a n s)" "i < length (blk_set s)" "i \<notin> set (blk_list s)"
    "rbb_ok (place_block i a n s)"
    "in_use s = [] \<and> a = rbb_buf s \<or> in_use s \<noteq> [] \<and> find_room n (hd (in_use s)) (last (in_use s)) s = Some a"
  have "set (blk_list s) \<noteq> {..<length (blk_set s)}" using P(2,3) by auto
  with P show ?thesis
    using find_room_eq(1) [OF assms(1), of n] by (auto simp: Let_def place_block_def blk_at_def split: if_splits)
qed

theorem ring_alloc_exact_witness:
  "\<exists>i s'. rt_rbb_blk_alloc 10 ring40 = Some (Some i, s') \<and> rbb_ok s' \<and> blk_list s' = [i]"
proof -
  have "0 \<in> {..<length (blk_set ring40)} - set (blk_list ring40)" "in_use ring40 = []" "blk_list ring40 = []" "10 \<le> buf_size ring40"
    by (simp_all add: ring40_def in_use_def)
  moreover from this have "set (blk_list ring40) \<noteq> {..<length (blk_set ring40)}" by blast
  ultimately show ?thesis using ring_alloc_exact [OF ring40_ok, of 10] by (auto split: option.splits)
qed

text \<open>
  \<^verbatim>\<open>rt_rbb_blk_queue_get\<close> takes blocks off the list although their bytes are still in
  use: the next request can get the same place while the queue is held. Also, the first block is
  taken however small the limit is.
\<close>
theorem ring_queue_reuse:
  assumes "rbb_ok s" and "blk_list s = [i]" and "blk_at i s = Some b" and "blk_status b = RT_RBB_BLK_PUT"
    and "blk_from b = ring_start s" and "blk_at j s = Some c" and "blk_status c = RT_RBB_BLK_UNUSED" and "n < 0x1000000"
  shows "\<exists>q1 s1 k s2 d. rt_rbb_blk_queue_get limit q s = Some (blk_size b, q1, s1) \<and>
    rt_rbb_blk_alloc n s1 = Some (Some k, s2) \<and> k \<noteq> i \<and> blk_at i s2 = Some (b\<lparr>blk_status := RT_RBB_BLK_GET\<rparr>) \<and>
    blk_at k s2 = Some d \<and> blk_status d = RT_RBB_BLK_INITED \<and> blk_from d = blk_from b \<and> blk_size d = n"
proof -
  let ?s1 = "queue_block i s"
  have b: "i < length (blk_set s)" "b = blk_set s ! i" using assms(3) by (simp_all add: blk_at_def split: if_splits)
  have c: "j < length (blk_set s)" "c = blk_set s ! j" using assms(6) by (simp_all add: blk_at_def split: if_splits)
  have g: "rt_rbb_blk_queue_get limit q s = Some (blk_size b, \<lparr>blocks = Some i, blk_num = 1\<rparr>, ?s1)"
    using assms(2,3,4) by (simp add: rt_rbb_blk_queue_get_def)
  have S: "blk_list ?s1 = []" "length (blk_set ?s1) = length (blk_set s)" "rbb_buf ?s1 = rbb_buf s" "blk_max_num ?s1 = blk_max_num s"
      "blk_set ?s1 = (blk_set s)[i := b\<lparr>blk_status := RT_RBB_BLK_GET\<rparr>]"
    using assms(2) b(2) by (simp_all add: queue_block_def set_status_def unlink_def)
  note len = rbb_okD(2) [OF assms(1)]
  have "j \<noteq> i" using assms(4,7) b(2) c(2) by auto
  with c assms(7) have "find_empty_blk_in_set ?s1 \<noteq> None"
    unfolding find_empty_blk_in_set_def first_index_None S len
    by (auto simp: in_set_conv_nth len [symmetric] intro!: bexI [of _ "blk_set s ! j"] exI [of _ j])
  then obtain k where k: "find_empty_blk_in_set ?s1 = Some k" by auto
  from first_index_SomeD [OF k [unfolded find_empty_blk_in_set_def]] have kk: "k < length (blk_set s)"
      "blk_status (blk_set ?s1 ! k) = RT_RBB_BLK_UNUSED" using S len by auto
  then have ki: "k \<noteq> i" using S(5) by auto
  have "rt_rbb_blk_alloc n ?s1 = Some (Some k, place_block k (rbb_buf s) n ?s1)"
    using k kk(1) len S assms(8) by (simp add: rt_rbb_blk_alloc_def)
  with g ki kk(1) b S assms(5) show ?thesis
    by (auto simp: place_block_def blk_at_def blk_from_def ring_start_def)
qed

theorem ring_queue_reuse_witness:
  "\<exists>s q1 s1 k s2 d. rbb_step\<^sup>*\<^sup>* ring40 s \<and>
    rt_rbb_blk_queue_get 5 \<lparr>blocks = None, blk_num = 0\<rparr> s = Some (10, q1, s1) \<and>
    rt_rbb_blk_alloc 8 s1 = Some (Some k, s2) \<and> k \<noteq> 0 \<and>
    blk_at 0 s2 = Some (taken_blk RT_RBB_BLK_GET 10 0x1000) \<and> blk_at k s2 = Some d \<and>
    blk_status d = RT_RBB_BLK_INITED \<and> blk_from d = 0x1000 \<and> blk_size d = 8"
proof -
  let ?b = "taken_blk RT_RBB_BLK_INITED 10 0x1000" and ?c = "taken_blk RT_RBB_BLK_PUT 10 0x1000"
  define s1 where "s1 = ring40\<lparr>blk_set := [?b, blank, blank], blk_list := [0]\<rparr>"
  define s2 where "s2 = s1\<lparr>blk_set := [?c, blank, blank]\<rparr>"
  have run: "rt_rbb_blk_alloc 10 ring40 = Some (Some 0, s1)" "rt_rbb_blk_put 0 s1 = Some s2"
    by (simp_all add: s1_def s2_def ring40_def rt_rbb_blk_alloc_def find_empty_blk_in_set_def blank_def taken_blk_def
      place_block_def rt_rbb_blk_put_def blk_at_def set_status_def)
  have "rbb_step ring40 s1" by (rule rbb_step.intros(1) [OF _ _ run(1)]) (simp_all add: ring40_def)
  moreover have "rbb_step s1 s2" by (rule rbb_step.intros(2) [OF run(2)])
  ultimately have r: "rbb_step\<^sup>*\<^sup>* ring40 s2" by auto
  with steps_keep [OF _ ring40_ok] have ok: "rbb_ok s2" by blast
  have a: "blk_list s2 = [0]" "blk_at 0 s2 = Some ?c" "blk_at 1 s2 = Some blank" "ring_start s2 = 0x1000"
    by (simp_all add: blk_at_def s2_def s1_def ring40_def ring_start_def)
  have u: "blk_status ?c = RT_RBB_BLK_PUT" "blk_from ?c = 0x1000" "blk_size ?c = 10" "blk_status blank = RT_RBB_BLK_UNUSED"
    "?c\<lparr>blk_status := RT_RBB_BLK_GET\<rparr> = taken_blk RT_RBB_BLK_GET 10 0x1000"
    by (simp_all add: taken_blk_def blank_def blk_from_def)
  have "blk_from ?c = ring_start s2" using u(2) a(4) by simp
  from ring_queue_reuse [OF ok a(1,2) u(1) this a(3) u(4), of 8 5 "\<lparr>blocks = None, blk_num = 0\<rparr>"] u r
  show ?thesis by auto
qed

text \<open>
  A request on an empty ring is not compared with the size of the buffer: the block begins at
  the start and can end behind the buffer. Then the free part is computed as a huge one, and
  the next block is granted outside the buffer altogether.
\<close>
theorem ring_first_block_unchecked:
  assumes "rbb_ok s" and "blk_list s = []" and "2 \<le> blk_max_num s" and "n < 0x1000000" and "m < 0x1000000"
    and "ring_stop s < ring_start s + unat n" and "ring_start s + unat n < 2 ^ 32"
  shows "\<exists>i s1 b j s2 c. rt_rbb_blk_alloc n s = Some (Some i, s1) \<and> blk_at i s1 = Some b \<and>
    blk_from b = ring_start s \<and> blk_upto b = ring_start s + unat n \<and>
    rt_rbb_blk_alloc m s1 = Some (Some j, s2) \<and> blk_at j s2 = Some c \<and> blk_from c = ring_start s + unat n"
proof -
  note len = rbb_okD(2) [OF assms(1)]
  have two: "2 \<le> length (blk_set s)" using assms(3) by (simp add: len word_le_nat_alt)
  have unused: "blk_status (blk_set s ! k) = RT_RBB_BLK_UNUSED" if "k < length (blk_set s)" for k
    using rbb_okD(4) [OF assms(1), of k] assms(2) that by simp
  define i where "i = (0 :: nat)"
  define b where "b = \<lparr>blk_status = RT_RBB_BLK_INITED, blk_size = n, blk_buf = rbb_buf s\<rparr>"
  obtain x y zs where bs: "blk_set s = x # y # zs" using two by (cases "blk_set s" rule: list.exhaust; cases "tl (blk_set s)") auto
  have u: "blk_status x = RT_RBB_BLK_UNUSED" "blk_status y = RT_RBB_BLK_UNUSED"
    using unused [of 0] unused [of 1] by (simp_all add: bs)
  let ?s1 = "place_block 0 (rbb_buf s) n s"
  have S: "blk_list ?s1 = [0]" "blk_set ?s1 = b # y # zs" "rbb_buf ?s1 = rbb_buf s" "buf_size ?s1 = buf_size s"
      "blk_max_num ?s1 = blk_max_num s" using assms(2) by (simp_all add: place_block_def bs b_def)
  have take: "take (unat (blk_max_num s)) (x # y # zs) = x # y # zs" "take (unat (blk_max_num s)) (b # y # zs) = b # y # zs"
    using len by (simp_all add: bs)
  have 1: "rt_rbb_blk_alloc n s = Some (Some 0, ?s1)"
    using assms(2,4) u(1) two by (simp add: rt_rbb_blk_alloc_def find_empty_blk_in_set_def bs take len [symmetric])
  have e: "unat (blk_end b) = ring_start s + unat n"
    using assms(7) by (simp add: blk_end_def b_def ring_start_def unat_word_ariths)
  have room: "m \<le> (rbb_buf s + buf_size s) - blk_end b"
  proof -
    have stop: "unat (rbb_buf s + buf_size s) = ring_stop s"
      using rbb_okD(1) [OF assms(1)] by (simp add: ring_stop_def unat_word_ariths)
    have "unat ((rbb_buf s + buf_size s) - blk_end b) = 2 ^ 32 + ring_stop s - unat (blk_end b)"
      using assms(6) e stop by (simp add: unat_sub_if')
    moreover have "unat n < 0x1000000" "unat m < 0x1000000" using assms(4,5) by (simp_all add: word_less_nat_alt)
    moreover have "ring_start s \<le> ring_stop s" by (simp add: ring_start_def ring_stop_def)
    ultimately show ?thesis using e by (simp add: word_le_nat_alt)
  qed
  have 2: "rt_rbb_blk_alloc m ?s1 = Some (Some 1, place_block 1 (blk_end b) m ?s1)"
    using S u(2) room assms(5) two len
    by (simp add: rt_rbb_blk_alloc_def find_empty_blk_in_set_def take blk_at_def find_room_def b_def [symmetric] bs)
      (simp add: b_def)
  show ?thesis
    using 1 2 S e by (intro exI [of _ 0] exI [of _ ?s1] exI [of _ b] exI [of _ 1] exI [of _ "place_block 1 (blk_end b) m ?s1"]
        exI [of _ "\<lparr>blk_status = RT_RBB_BLK_INITED, blk_size = m, blk_buf = blk_end b\<rparr>"])
      (simp add: blk_at_def blk_from_def blk_upto_def place_block_def bs b_def ring_start_def)
qed

theorem ring_first_block_unchecked_witness:
  "\<exists>i s1 b j s2 c. rt_rbb_blk_alloc 100 ring40 = Some (Some i, s1) \<and> blk_at i s1 = Some b \<and> blk_upto b = 0x1064 \<and>
    rt_rbb_blk_alloc 50 s1 = Some (Some j, s2) \<and> blk_at j s2 = Some c \<and> blk_from c = 0x1064"
proof -
  have "blk_list ring40 = []" "2 \<le> blk_max_num ring40" "ring_start ring40 = 0x1000" "ring_stop ring40 = 0x1028"
    by (simp_all add: ring40_def ring_start_def ring_stop_def)
  with ring_first_block_unchecked [OF ring40_ok, of 100 50] show ?thesis by auto
qed

text \<open>
  A ring of 40 bytes with three blocks, used in order: three blocks of ten bytes, the first one released, a
  fourth block (which is the first of the set again); then a queue of all.
\<close>

definition reused_ring :: "rt_rbb option" where
  "reused_ring = do {
     s0 \<leftarrow> rt_rbb_init 0x1000 40 [blank, blank, blank] 3;
     (_, s1) \<leftarrow> rt_rbb_blk_alloc 10 s0;
     (_, s2) \<leftarrow> rt_rbb_blk_alloc 10 s1;
     (_, s3) \<leftarrow> rt_rbb_blk_alloc 10 s2;
     s4 \<leftarrow> rt_rbb_blk_put 0 s3;
     s5 \<leftarrow> rt_rbb_blk_put 1 s4;
     s6 \<leftarrow> rt_rbb_blk_put 2 s5;
     (_, s7) \<leftarrow> rt_rbb_blk_get s6;
     s8 \<leftarrow> rt_rbb_blk_free 0 s7;
     (_, s9) \<leftarrow> rt_rbb_blk_alloc 10 s8;
     rt_rbb_blk_put 0 s9 }"

text \<open>
  A queue is a first block and a number of blocks, taken as neighbours in the set; but blocks that
  follow each other in the buffer need not be neighbours. Here the queue has three blocks and 30 bytes, and its
  third one is read behind the end of the set.
\<close>
theorem ring_queue_past_set:
  "do { s \<leftarrow> reused_ring;
        (len, q, s') \<leftarrow> rt_rbb_blk_queue_get 100 \<lparr>blocks = None, blk_num = 0\<rparr> s;
        Some (length (blk_set s'), len, blocks q, blk_num q, rt_rbb_blk_queue_len q s', rt_rbb_blk_queue_free q s') } =
   Some (3, 30, Some 1, 3, None, None)"
  by code_simp

text \<open>
  Blocks of no bytes are not refused, and spoil the order: behind a wrapped ring that is full such a block begins
  where the first one does, and the next block is granted over the first one. Here a block of 20 bytes gets the
  place of one of 30.
\<close>

definition zero_block_ring :: "rt_rbb option" where
  "zero_block_ring = do {
     s0 \<leftarrow> rt_rbb_init 0x1000 40 [blank, blank, blank, blank] 4;
     (_, s1) \<leftarrow> rt_rbb_blk_alloc 10 s0;
     (_, s2) \<leftarrow> rt_rbb_blk_alloc 30 s1;
     s3 \<leftarrow> rt_rbb_blk_free 0 s2;
     (_, s4) \<leftarrow> rt_rbb_blk_alloc 10 s3;
     (_, s5) \<leftarrow> rt_rbb_blk_alloc 0 s4;
     (_, s6) \<leftarrow> rt_rbb_blk_alloc 20 s5;
     Some s6 }"

theorem ring_zero_block_overlaps:
  "map_option (\<lambda>s. (blk_list s, blk_at 1 s, blk_at 3 s)) zero_block_ring =
   Some ([1, 0, 2, 3], Some (taken_blk RT_RBB_BLK_INITED 30 0x100a), Some (taken_blk RT_RBB_BLK_INITED 20 0x100a))"
  by code_simp

section \<open>Creation\<close>

lemma alloc_on_heap:
  assumes "heap_ok h" and "unat n \<le> max_request" and "heap_end h = e"
  shows "\<exists>r h'. rt_malloc e code n h = Some (r, h') \<and> heap_ok h' \<and> heap_end h' = e \<and>
    (case r of None \<Rightarrow> heap_live h' = heap_live h
     | Some p \<Rightarrow> \<exists>m. heap_live h' = insert (p, m) (heap_live h) \<and> (p, m) \<notin> heap_live h \<and> unat n \<le> m)"
proof -
  from heap_alloc.alloc_returns [OF assms(1), of code n] obtain r h' where
    a: "rt_malloc e code n h = Some (r, h')" "heap_ok h'" "heap_area h' = heap_area h" by (auto simp: assms(3))
  then have "heap_end h' = e" using assms(3) by (simp add: heap_area_def)
  moreover note heap_alloc.alloc_none [OF assms(1), of code n h', unfolded assms(3)]
    heap_alloc.alloc_some [OF assms(1) _ assms(2), of code _ h', unfolded assms(3)]
  ultimately show ?thesis using a by (cases r) auto
qed

definition ring_made :: "'x heap_scheme heap_code \<Rightarrow> u32 \<Rightarrow> u32 \<Rightarrow> 'x heap_scheme \<Rightarrow> (nat \<times> nat \<times> nat \<times> rt_rbb) option \<Rightarrow>
    'x heap_scheme \<Rightarrow> bool" where
  "ring_made code sz n h r h' \<longleftrightarrow> (case r of
     None \<Rightarrow> heap_live h' = heap_live h
   | Some (p, buf, tab, rbb) \<Rightarrow> rbb_ok rbb \<and> blk_list rbb = [] \<and> ring_start rbb = buf \<and> buf_size rbb = sz \<and>
       blk_max_num rbb = n \<and> (\<exists>m \<ge> unat sz. (buf, m) \<in> heap_live h' - heap_live h) \<and>
       (\<exists>h2. rt_rbb_destroy code p buf tab h' = Some h2 \<and> heap_ok h2 \<and> heap_live h2 = heap_live h))"

lemma init_in_heap:
  assumes ok: "heap_ok h" and live: "(buf, m) \<in> heap_live h" and sz: "unat sz \<le> m" and len: "length bs = unat n"
  shows "\<exists>rbb. rt_rbb_init (of_nat buf) sz bs n = Some rbb \<and> rbb_ok rbb \<and> blk_list rbb = [] \<and> ring_start rbb = buf \<and>
    buf_size rbb = sz \<and> blk_max_num rbb = n"
proof -
  from ok obtain cs where rep: "heap_rep h cs" by (auto simp: heap_ok_def)
  from heap_live_bounds [OF ok live] heap_repD(5,10) [OF rep] have top: "buf + m < 2 ^ 32" by simp
  then have b: "unat (of_nat buf :: u32) = buf" by (simp add: unat_small)
  obtain rbb where r: "rt_rbb_init (of_nat buf) sz bs n = Some rbb" using len by (simp add: rt_rbb_init_def)
  with rbb_init_ok [OF r len] b top sz have "rbb_ok rbb" "ring_start rbb = buf" by simp_all
  with r len show ?thesis by (auto simp: rt_rbb_init_def)
qed

text \<open>The last of the three requests, with what it needs released when it is refused.\<close>

lemma create_set:
  assumes ok: "heap_ok h2" and e: "heap_end h2 = e" and sz: "unat sz \<le> mb" and n: "12 * unat n \<le> max_request"
    and blks: "\<And>a. length (blks a) = unat n"
    and live: "heap_live h2 = insert (buf, mb) (insert (p, mp) (heap_live h))"
    and new: "(p, mp) \<notin> heap_live h" "(buf, mb) \<notin> insert (p, mp) (heap_live h)"
  shows "\<exists>r h'. do {
      (s, h3) \<leftarrow> rt_malloc e code (RBB_BLK_BYTES * n) h2;
      (case s of
         None \<Rightarrow> do { h4 \<leftarrow> rt_free code (Some buf) h3; map_option (Pair None) (rt_free code (Some p) h4) }
       | Some tab \<Rightarrow> map_option (\<lambda>rbb. (Some (p, buf, tab, rbb), h3)) (rt_rbb_init (of_nat buf) sz (blks tab) n)) } =
      Some (r, h') \<and> heap_ok h' \<and> ring_made code sz n h r h'"
proof -
  have n12: "unat (RBB_BLK_BYTES * n) \<le> max_request" using n by (simp add: unat_word_ariths max_request_def)
  from alloc_on_heap [OF ok n12 e, of code] obtain t h3 where
    3: "rt_malloc e code (RBB_BLK_BYTES * n) h2 = Some (t, h3)" "heap_ok h3"
      "case t of None \<Rightarrow> heap_live h3 = heap_live h2
       | Some p \<Rightarrow> \<exists>m. heap_live h3 = insert (p, m) (heap_live h2) \<and> (p, m) \<notin> heap_live h2 \<and>
           unat (RBB_BLK_BYTES * n) \<le> m" by blast
  show ?thesis
  proof (cases t)
    case None
    with 3 live new free_live [OF 3(2), of buf mb code] obtain h4 where
      4: "rt_free code (Some buf) h3 = Some h4" "heap_ok h4" "heap_live h4 = insert (p, mp) (heap_live h)" by auto
    with new free_live [OF 4(2), of p mp code] obtain h5 where
      "rt_free code (Some p) h4 = Some h5" "heap_ok h5" "heap_live h5 = heap_live h" by auto
    with 3(1) 4(1) None show ?thesis by (simp add: ring_made_def)
  next
    case (Some tab)
    with 3(3) obtain mt where t: "heap_live h3 = insert (tab, mt) (heap_live h2)" "(tab, mt) \<notin> heap_live h2" by auto
    from init_in_heap [OF 3(2) _ sz blks, of buf tab] t live obtain rbb where
      i: "rt_rbb_init (of_nat buf) sz (blks tab) n = Some rbb" "rbb_ok rbb" "blk_list rbb = []" "ring_start rbb = buf"
        "buf_size rbb = sz" "blk_max_num rbb = n" by auto
    from free_live [OF 3(2), of buf mb code] t live new obtain h4 where
      4: "rt_free code (Some buf) h3 = Some h4" "heap_ok h4"
        "heap_live h4 = insert (tab, mt) (insert (p, mp) (heap_live h))" by auto
    with free_live [OF 4(2), of tab mt code] t live obtain h5 where
      5: "rt_free code (Some tab) h4 = Some h5" "heap_ok h5" "heap_live h5 = insert (p, mp) (heap_live h)" by auto
    with free_live [OF 5(2), of p mp code] new obtain h6 where
      "rt_free code (Some p) h5 = Some h6" "heap_ok h6" "heap_live h6 = heap_live h" by auto
    then have "\<exists>h6. rt_rbb_destroy code p buf tab h3 = Some h6 \<and> heap_ok h6 \<and> heap_live h6 = heap_live h"
      using 4(1) 5(1) by (simp add: rt_rbb_destroy_def)
    moreover have "(buf, mb) \<in> heap_live h3 - heap_live h" using t live new by auto
    ultimately show ?thesis using 3(1,2) i sz Some by (auto simp: ring_made_def)
  qed
qed

text \<open>
  \<^verbatim>\<open>rt_rbb_create\<close> returns on a well-formed heap. When one of its three requests is
  refused, it has released the others: the heap holds what it held. Otherwise the ring is empty and well formed
  in a new block of the heap, and \<^verbatim>\<open>rt_rbb_destroy\<close> releases all three blocks.
\<close>
theorem ring_create_roundtrip:
  fixes h :: "'x heap_scheme"
  assumes ok: "heap_ok h" and blks: "\<And>a. length (blks a) = unat n" and sz: "unat sz \<le> max_request"
    and n: "12 * unat n \<le> max_request"
  shows "\<exists>r h'. rt_rbb_create (heap_end h) code blks sz n h = Some (r, h') \<and> heap_ok h' \<and> ring_made code sz n h r h'"
proof -
  let ?e = "heap_end h"
  have n20: "unat RBB_BYTES \<le> max_request" by (simp add: max_request_def)
  from alloc_on_heap [OF ok n20 refl, of code] obtain r h1 where
    1: "rt_malloc ?e code RBB_BYTES h = Some (r, h1)" "heap_ok h1" "heap_end h1 = ?e"
      "case r of None \<Rightarrow> heap_live h1 = heap_live h
       | Some p \<Rightarrow> \<exists>m. heap_live h1 = insert (p, m) (heap_live h) \<and> (p, m) \<notin> heap_live h \<and> unat RBB_BYTES \<le> m" by blast
  show ?thesis
  proof (cases r)
    case None
    with 1 show ?thesis by (simp add: rt_rbb_create_def ring_made_def)
  next
    case (Some p)
    with 1(4) obtain mp where p: "heap_live h1 = insert (p, mp) (heap_live h)" "(p, mp) \<notin> heap_live h" by auto
    from alloc_on_heap [OF 1(2) sz 1(3), of code] obtain b h2 where
      2: "rt_malloc ?e code sz h1 = Some (b, h2)" "heap_ok h2" "heap_end h2 = ?e"
        "case b of None \<Rightarrow> heap_live h2 = heap_live h1
         | Some p \<Rightarrow> \<exists>m. heap_live h2 = insert (p, m) (heap_live h1) \<and> (p, m) \<notin> heap_live h1 \<and> unat sz \<le> m" by blast
    show ?thesis
    proof (cases b)
      case None
      with 2 p free_live [OF 2(2), of p mp code] obtain h3 where
        "rt_free code (Some p) h2 = Some h3" "heap_ok h3" "heap_live h3 = heap_live h" by auto
      with 1(1) 2(1) Some None show ?thesis by (simp add: rt_rbb_create_def ring_made_def)
    next
      case (Some buf)
      with 2(4) p(1) obtain mb where b: "heap_live h2 = insert (buf, mb) (insert (p, mp) (heap_live h))"
          "(buf, mb) \<notin> insert (p, mp) (heap_live h)" "unat sz \<le> mb" by auto
      from create_set [OF 2(2,3) b(3) n blks b(1) p(2) b(2)] 1(1) 2(1) \<open>r = Some p\<close> Some show ?thesis
        by (simp add: rt_rbb_create_def)
    qed
  qed
qed

theorem ring_create_roundtrip_witness:
  "\<exists>r h'. rt_rbb_create (heap_end small_heap) no_hooks (\<lambda>_. [blank]) 8 1 small_heap = Some (r, h') \<and> heap_ok h' \<and>
    ring_made no_hooks 8 1 small_heap r h'"
  using ring_create_roundtrip [OF small_heap_rep(3), of "\<lambda>_. [blank]" 1 8 no_hooks] by (simp add: max_request_def)

end
