(* ===== verification/Device.thy ===== *)
theory Device
  imports Ipc
begin

text \<open>
  \<^verbatim>\<open>device.c\<close>: registration, reference counts and dispatch of devices, and the error
  number of \<^verbatim>\<open>kservice.c\<close> that reads and writes set. A device is known by the address of its object;
  \<open>None\<close> is a failed assertion or no device at the address. The operations of a driver are function pointers;
  what they do is a parameter and may change everything, so the device is read anew after each call. The
  message that a device could not be initialised is left out.
\<close>

abbreviation RT_DEVICE_FLAG_STANDALONE :: u16 where "RT_DEVICE_FLAG_STANDALONE \<equiv> 0x008"
abbreviation RT_DEVICE_FLAG_ACTIVATED :: u16 where "RT_DEVICE_FLAG_ACTIVATED \<equiv> 0x010"
abbreviation RT_DEVICE_OFLAG_CLOSE :: u16 where "RT_DEVICE_OFLAG_CLOSE \<equiv> 0x000"
abbreviation RT_DEVICE_OFLAG_OPEN :: u16 where "RT_DEVICE_OFLAG_OPEN \<equiv> 0x008"
abbreviation RT_DEVICE_OFLAG_MASK :: u16 where "RT_DEVICE_OFLAG_MASK \<equiv> 0xf0f"
abbreviation RT_EBUSY :: rt_err where "RT_EBUSY \<equiv> 7"

record rt_device =
  dev_type :: u32
  dev_flag :: u16
  open_flag :: u16
  ref_count :: u8
  device_id :: u8
  rx_indicate :: "fptr option"
  tx_complete :: "fptr option"
  dev_init :: "fptr option"
  dev_open :: "fptr option"
  dev_close :: "fptr option"
  dev_read :: "fptr option"
  dev_write :: "fptr option"
  dev_control :: "fptr option"
  dev_user_data :: nat

record devices = ipc +
  device_at :: "nat \<Rightarrow> rt_device option"
  rt_errno :: rt_err

text \<open>The driver's operations: the function, the device and the arguments; a buffer is its address.\<close>

record 's dev_code =
  object_code :: "fptr \<Rightarrow> nat \<Rightarrow> 's \<Rightarrow> 's"
  call_init :: "fptr \<Rightarrow> nat \<Rightarrow> 's \<Rightarrow> rt_err \<times> 's"
  call_open :: "fptr \<Rightarrow> nat \<Rightarrow> u16 \<Rightarrow> 's \<Rightarrow> rt_err \<times> 's"
  call_close :: "fptr \<Rightarrow> nat \<Rightarrow> 's \<Rightarrow> rt_err \<times> 's"
  call_read :: "fptr \<Rightarrow> nat \<Rightarrow> int \<Rightarrow> nat \<Rightarrow> u32 \<Rightarrow> 's \<Rightarrow> u32 \<times> 's"
  call_write :: "fptr \<Rightarrow> nat \<Rightarrow> int \<Rightarrow> nat \<Rightarrow> u32 \<Rightarrow> 's \<Rightarrow> u32 \<times> 's"
  call_control :: "fptr \<Rightarrow> nat \<Rightarrow> int \<Rightarrow> nat \<Rightarrow> 's \<Rightarrow> rt_err \<times> 's"

definition upd_device :: "nat \<Rightarrow> (rt_device \<Rightarrow> rt_device) \<Rightarrow> 'x devices_scheme \<Rightarrow> 'x devices_scheme" where
  "upd_device a f s = s\<lparr>device_at := (device_at s)(a := map_option f (device_at s a))\<rparr>"

section \<open>The error number\<close>

text \<open>In an interrupt, and before the first thread, it is a variable of its own.\<close>

definition rt_get_errno :: "'x devices_scheme \<Rightarrow> rt_err option" where
  "rt_get_errno s = (if rt_interrupt_nest s \<noteq> 0 then Some (rt_errno s)
     else (case rt_thread_self s of None \<Rightarrow> Some (rt_errno s) | Some t \<Rightarrow> map_option th_error (threads s t)))"

definition rt_set_errno :: "rt_err \<Rightarrow> 'x devices_scheme \<Rightarrow> 'x devices_scheme" where
  "rt_set_errno e s = (if rt_interrupt_nest s \<noteq> 0 then s\<lparr>rt_errno := e\<rparr>
     else (case rt_thread_self s of
       None \<Rightarrow> s\<lparr>rt_errno := e\<rparr>
     | Some t \<Rightarrow> upd_thread t (\<lambda>th. th\<lparr>th_error := e\<rparr>) s))"

section \<open>Registration\<close>

definition is_device :: "nat \<Rightarrow> 'x devices_scheme \<Rightarrow> bool" where
  "is_device a s \<longleftrightarrow> rt_object_get_type a s = Some (class_val RT_Object_Class_Device)"

definition rt_device_find :: "string option \<Rightarrow> 'x devices_scheme \<Rightarrow> nat option option" where
  "rt_device_find name s = rt_object_find name (class_val RT_Object_Class_Device) s"

text \<open>A null name is not copied; here it is none at all.\<close>

definition rt_device_register :: "'x devices_scheme dev_code \<Rightarrow> nat option \<Rightarrow> string \<Rightarrow> u16 \<Rightarrow> 'x devices_scheme \<Rightarrow>
    (rt_err \<times> 'x devices_scheme) option" where
  "rt_device_register code dev name flags s = (case dev of
     None \<Rightarrow> Some (- RT_ERROR, s)
   | Some a \<Rightarrow> do {
       other \<leftarrow> rt_device_find (Some name) s;
       if other \<noteq> None then Some (- RT_ERROR, s)
       else do {
         s1 \<leftarrow> rt_object_init (object_code code) a (class_val RT_Object_Class_Device) name s;
         Some (RT_EOK, upd_device a (\<lambda>d. d\<lparr>dev_flag := flags, ref_count := 0, open_flag := 0\<rparr>) s1) } })"

definition rt_device_unregister :: "'x devices_scheme dev_code \<Rightarrow> nat \<Rightarrow> 'x devices_scheme \<Rightarrow>
    (rt_err \<times> 'x devices_scheme) option" where
  "rt_device_unregister code a s = do {
     RT_ASSERT (is_device a s);
     RT_ASSERT (rt_object_is_systemobject a s = Some True);
     Some (RT_EOK, rt_object_detach (object_code code) a s) }"

abbreviation SIZEOF_RT_DEVICE :: u32 where "SIZEOF_RT_DEVICE \<equiv> 68"

text \<open>\<open>mem\<close> is what \<^verbatim>\<open>rt_malloc\<close> gives for a size. The device is all zeros, its object too.\<close>

definition rt_device_create :: "(u32 \<Rightarrow> nat option) \<Rightarrow> u32 \<Rightarrow> u32 \<Rightarrow> 'x devices_scheme \<Rightarrow>
    nat option \<times> 'x devices_scheme" where
  "rt_device_create mem type attach_size s =
    (case mem (RT_ALIGN SIZEOF_RT_DEVICE + RT_ALIGN attach_size) of
       None \<Rightarrow> (None, s)
     | Some a \<Rightarrow> (Some a, s\<lparr>
         objects := (objects s)(a \<mapsto> \<lparr>ob_name = [], ob_type = 0\<rparr>),
         device_at := (device_at s)(a \<mapsto> \<lparr>dev_type = type, dev_flag = 0, open_flag = 0, ref_count = 0, device_id = 0,
           rx_indicate = None, tx_complete = None, dev_init = None, dev_open = None, dev_close = None, dev_read = None,
           dev_write = None, dev_control = None, dev_user_data = 0\<rparr>)\<rparr>))"

definition rt_device_destroy :: "'x devices_scheme dev_code \<Rightarrow> nat \<Rightarrow> 'x devices_scheme \<Rightarrow> 'x devices_scheme option" where
  "rt_device_destroy code a s = do {
     RT_ASSERT (is_device a s);
     RT_ASSERT (rt_object_is_systemobject a s = Some False);
     let s1 = rt_object_detach (object_code code) a s;
     Some (s1\<lparr>objects := (objects s1)(a := None), device_at := (device_at s1)(a := None), heap_freed := a # heap_freed s1\<rparr>) }"

section \<open>Opening and closing\<close>

definition activate :: "nat \<Rightarrow> 'x devices_scheme \<Rightarrow> 'x devices_scheme" where
  "activate a = upd_device a (\<lambda>d. d\<lparr>dev_flag := dev_flag d OR RT_DEVICE_FLAG_ACTIVATED\<rparr>)"

definition activated :: "rt_device \<Rightarrow> bool" where
  "activated d \<longleftrightarrow> dev_flag d AND RT_DEVICE_FLAG_ACTIVATED \<noteq> 0"

definition rt_device_init :: "'x devices_scheme dev_code \<Rightarrow> nat \<Rightarrow> 'x devices_scheme \<Rightarrow>
    (rt_err \<times> 'x devices_scheme) option" where
  "rt_device_init code a s = do {
     d \<leftarrow> device_at s a;
     Some (case dev_init d of
       None \<Rightarrow> (RT_EOK, s)
     | Some f \<Rightarrow>
         if activated d then (RT_EOK, s)
         else (let (r, s1) = call_init code f a s in if r \<noteq> RT_EOK then (r, s1) else (r, activate a s1))) }"

text \<open>The first part of \<^verbatim>\<open>rt_device_open\<close>: an error ends it.\<close>

definition open_init :: "'x devices_scheme dev_code \<Rightarrow> nat \<Rightarrow> rt_device \<Rightarrow> 'x devices_scheme \<Rightarrow>
    rt_err \<times> 'x devices_scheme" where
  "open_init code a d s =
    (if activated d then (RT_EOK, s)
     else (case dev_init d of
       None \<Rightarrow> (RT_EOK, activate a s)
     | Some f \<Rightarrow> (let (r, s1) = call_init code f a s in if r \<noteq> RT_EOK then (r, s1) else (RT_EOK, activate a s1))))"

definition rt_device_open :: "'x devices_scheme dev_code \<Rightarrow> nat \<Rightarrow> u16 \<Rightarrow> 'x devices_scheme \<Rightarrow>
    (rt_err \<times> 'x devices_scheme) option" where
  "rt_device_open code a oflag s = do {
     RT_ASSERT (is_device a s);
     d \<leftarrow> device_at s a;
     let (r, s1) = open_init code a d s;
     if r \<noteq> RT_EOK then Some (r, s1)
     else do {
       d1 \<leftarrow> device_at s1 a;
       if dev_flag d1 AND RT_DEVICE_FLAG_STANDALONE \<noteq> 0 \<and> open_flag d1 AND RT_DEVICE_OFLAG_OPEN \<noteq> 0
       then Some (- RT_EBUSY, s1)
       else do {
         let (r1, s2) = (case dev_open d1 of
           Some f \<Rightarrow> call_open code f a oflag s1
         | None \<Rightarrow> (RT_EOK, upd_device a (\<lambda>d. d\<lparr>open_flag := oflag AND RT_DEVICE_OFLAG_MASK\<rparr>) s1));
         if r1 = RT_EOK \<or> r1 = - RT_ENOSYS
         then do {
           let s3 = upd_device a (\<lambda>d. d\<lparr>open_flag := open_flag d OR RT_DEVICE_OFLAG_OPEN, ref_count := ref_count d + 1\<rparr>) s2;
           d3 \<leftarrow> device_at s3 a;
           RT_ASSERT (ref_count d3 \<noteq> 0);
           Some (r1, s3) }
         else Some (r1, s2) } } }"

definition rt_device_close :: "'x devices_scheme dev_code \<Rightarrow> nat \<Rightarrow> 'x devices_scheme \<Rightarrow>
    (rt_err \<times> 'x devices_scheme) option" where
  "rt_device_close code a s = do {
     RT_ASSERT (is_device a s);
     d \<leftarrow> device_at s a;
     if ref_count d = 0 then Some (- RT_ERROR, s)
     else do {
       let s1 = upd_device a (\<lambda>d. d\<lparr>ref_count := ref_count d - 1\<rparr>) s;
       if ref_count d - 1 \<noteq> 0 then Some (RT_EOK, s1)
       else do {
         let (r, s2) = (case dev_close d of None \<Rightarrow> (RT_EOK, s1) | Some f \<Rightarrow> call_close code f a s1);
         Some (r, if r = RT_EOK \<or> r = - RT_ENOSYS
           then upd_device a (\<lambda>d. d\<lparr>open_flag := RT_DEVICE_OFLAG_CLOSE\<rparr>) s2 else s2) } } }"

section \<open>Dispatch\<close>

definition rt_device_read :: "'x devices_scheme dev_code \<Rightarrow> nat \<Rightarrow> int \<Rightarrow> nat \<Rightarrow> u32 \<Rightarrow> 'x devices_scheme \<Rightarrow>
    (u32 \<times> 'x devices_scheme) option" where
  "rt_device_read code a pos buffer sz s = do {
     RT_ASSERT (is_device a s);
     d \<leftarrow> device_at s a;
     Some (if ref_count d = 0 then (0, rt_set_errno (- RT_ERROR) s)
       else (case dev_read d of
         Some f \<Rightarrow> call_read code f a pos buffer sz s
       | None \<Rightarrow> (0, rt_set_errno (- RT_ENOSYS) s))) }"

definition rt_device_write :: "'x devices_scheme dev_code \<Rightarrow> nat \<Rightarrow> int \<Rightarrow> nat \<Rightarrow> u32 \<Rightarrow> 'x devices_scheme \<Rightarrow>
    (u32 \<times> 'x devices_scheme) option" where
  "rt_device_write code a pos buffer sz s = do {
     RT_ASSERT (is_device a s);
     d \<leftarrow> device_at s a;
     Some (if ref_count d = 0 then (0, rt_set_errno (- RT_ERROR) s)
       else (case dev_write d of
         Some f \<Rightarrow> call_write code f a pos buffer sz s
       | None \<Rightarrow> (0, rt_set_errno (- RT_ENOSYS) s))) }"

definition rt_device_control :: "'x devices_scheme dev_code \<Rightarrow> nat \<Rightarrow> int \<Rightarrow> nat \<Rightarrow> 'x devices_scheme \<Rightarrow>
    (rt_err \<times> 'x devices_scheme) option" where
  "rt_device_control code a cmd arg s = do {
     RT_ASSERT (is_device a s);
     d \<leftarrow> device_at s a;
     Some (case dev_control d of
       Some f \<Rightarrow> call_control code f a cmd arg s
     | None \<Rightarrow> (- RT_ENOSYS, s)) }"

definition rt_device_set_rx_indicate :: "nat \<Rightarrow> fptr option \<Rightarrow> 'x devices_scheme \<Rightarrow> (rt_err \<times> 'x devices_scheme) option" where
  "rt_device_set_rx_indicate a rx_ind s = do {
     RT_ASSERT (is_device a s);
     Some (RT_EOK, upd_device a (\<lambda>d. d\<lparr>rx_indicate := rx_ind\<rparr>) s) }"

definition rt_device_set_tx_complete :: "nat \<Rightarrow> fptr option \<Rightarrow> 'x devices_scheme \<Rightarrow> (rt_err \<times> 'x devices_scheme) option" where
  "rt_device_set_tx_complete a tx_done s = do {
     RT_ASSERT (is_device a s);
     Some (RT_EOK, upd_device a (\<lambda>d. d\<lparr>tx_complete := tx_done\<rparr>) s) }"

end
