(* ===== verification/Device_Behaviour.thy ===== *)
theory Device_Behaviour
  imports Device Example_System
begin

text \<open>
  What users of devices rely on: the registry, the reference count, and three ways in which
  devices get stuck.
\<close>

lemma upd_device_sel [simp]:
  "device_at (upd_device a f s) = (device_at s)(a := map_option f (device_at s a))"
  "is_device b (upd_device a f s) = is_device b s" "objects (upd_device a f s) = objects s"
  "object_container (upd_device a f s) = object_container s" "rt_interrupt_nest (upd_device a f s) = rt_interrupt_nest s"
  "rt_object_attach_hook (upd_device a f s) = rt_object_attach_hook s"
  "rt_object_detach_hook (upd_device a f s) = rt_object_detach_hook s"
  by (simp_all add: upd_device_def is_device_def rt_object_get_type_def)

section \<open>The reference count\<close>

datatype use_op = Open u16 | Close

fun run_uses :: "'x devices_scheme dev_code \<Rightarrow> nat \<Rightarrow> use_op list \<Rightarrow> 'x devices_scheme \<Rightarrow>
    (rt_err list \<times> 'x devices_scheme) option" where
  "run_uses code a [] s = Some ([], s)"
| "run_uses code a (u # us) s = do {
     (r, s1) \<leftarrow> (case u of Open oflag \<Rightarrow> rt_device_open code a oflag s | Close \<Rightarrow> rt_device_close code a s);
     (rs, s2) \<leftarrow> run_uses code a us s1;
     Some (r # rs, s2) }"

text \<open>The specification: a number of users, at most 255, and one at most for a device of its own.\<close>

fun count_uses :: "bool \<Rightarrow> nat \<Rightarrow> use_op list \<Rightarrow> (rt_err list \<times> nat) option" where
  "count_uses alone n [] = Some ([], n)"
| "count_uses alone n (Open oflag # us) =
    (if alone \<and> 0 < n then map_option (apfst (Cons (- RT_EBUSY))) (count_uses alone n us)
     else if n = 255 then None
     else map_option (apfst (Cons RT_EOK)) (count_uses alone (n + 1) us))"
| "count_uses alone n (Close # us) =
    (if n = 0 then map_option (apfst (Cons (- RT_ERROR))) (count_uses alone n us)
     else map_option (apfst (Cons RT_EOK)) (count_uses alone (n - 1) us))"

text \<open>
  What is assumed of a driver. Its operations succeed, and leave the device registered with its count and its
  mark of being a device of its own. They may change anything else: open and close may set and clear flags of
  the open mode, as the drivers for serial lines, sound and CAN do; init leaves the mark of being open.
\<close>

definition same_use :: "rt_device \<Rightarrow> rt_device \<Rightarrow> bool" where
  "same_use d d' \<longleftrightarrow> ref_count d' = ref_count d \<and>
     dev_flag d' AND RT_DEVICE_FLAG_STANDALONE = dev_flag d AND RT_DEVICE_FLAG_STANDALONE"

definition same_open :: "rt_device \<Rightarrow> rt_device \<Rightarrow> bool" where
  "same_open d d' \<longleftrightarrow> same_use d d' \<and> open_flag d' AND RT_DEVICE_OFLAG_OPEN = open_flag d AND RT_DEVICE_OFLAG_OPEN"

definition answers :: "(rt_device \<Rightarrow> rt_device \<Rightarrow> bool) \<Rightarrow> nat \<Rightarrow> 'x devices_scheme \<Rightarrow> rt_err \<times> 'x devices_scheme \<Rightarrow> bool" where
  "answers R a s r \<longleftrightarrow> fst r = RT_EOK \<and> (is_device a s \<longrightarrow> is_device a (snd r)) \<and>
     (\<forall>d. device_at s a = Some d \<longrightarrow> (\<exists>d'. device_at (snd r) a = Some d' \<and> R d d'))"

definition willing :: "'x devices_scheme dev_code \<Rightarrow> nat \<Rightarrow> bool" where
  "willing code a \<longleftrightarrow> (\<forall>f s. answers same_open a s (call_init code f a s) \<and> answers same_use a s (call_close code f a s) \<and>
     (\<forall>oflag. answers same_use a s (call_open code f a oflag s)))"

definition used_by :: "nat \<Rightarrow> bool \<Rightarrow> nat \<Rightarrow> 'x devices_scheme \<Rightarrow> bool" where
  "used_by a alone n s \<longleftrightarrow> is_device a s \<and> (\<exists>d. device_at s a = Some d \<and> unat (ref_count d) = n \<and>
     (open_flag d AND RT_DEVICE_OFLAG_OPEN \<noteq> 0 \<longleftrightarrow> 0 < n) \<and> (dev_flag d AND RT_DEVICE_FLAG_STANDALONE \<noteq> 0 \<longleftrightarrow> alone))"

lemma standalone_kept: "((fl OR RT_DEVICE_FLAG_ACTIVATED) AND RT_DEVICE_FLAG_STANDALONE \<noteq> 0) = (fl AND RT_DEVICE_FLAG_STANDALONE \<noteq> 0)"
  by (simp add: word_bw_assocs word_ao_dist)

lemma open_kept: "(fl OR RT_DEVICE_OFLAG_OPEN) AND RT_DEVICE_OFLAG_OPEN \<noteq> 0"
  by (simp add: word_ao_dist)

lemma answersD:
  assumes "answers R a s (r, s')" and "device_at s a = Some d" and "is_device a s"
  shows "r = RT_EOK \<and> is_device a s' \<and> (\<exists>d'. device_at s' a = Some d' \<and> R d d')"
  using assms by (simp add: answers_def)

text \<open>The driver's function, when there is one, and the device afterwards.\<close>

lemma after_call:
  assumes "\<And>f. answers same_use a s (call f)" and "(case g of None \<Rightarrow> (RT_EOK, s0) | Some f \<Rightarrow> call f) = (r, s')"
    and "device_at s a = Some d" and "is_device a s"
    and "device_at s0 a = Some d0" and "is_device a s0" and "same_use d d0"
  shows "r = RT_EOK \<and> is_device a s' \<and> (\<exists>d'. device_at s' a = Some d' \<and> same_use d d')"
proof (cases g)
  case None
  with assms show ?thesis by simp
next
  case (Some f)
  with assms(1) [of f] assms(2) have "answers same_use a s (r, s')" by simp
  from answersD [OF this assms(3,4)] show ?thesis by auto
qed

lemma willing_init:
  assumes w: "willing code a" and u: "used_by a alone n s" and d: "device_at s a = Some d"
  shows "\<exists>s1. open_init code a d s = (RT_EOK, s1) \<and> used_by a alone n s1"
proof (cases "activated d")
  case True
  with u show ?thesis by (simp add: open_init_def)
next
  case False
  have act: "used_by a alone n (activate a s')" if "used_by a alone n s'" for s' :: "'a devices_scheme"
    using that by (auto simp: used_by_def activate_def standalone_kept)
  show ?thesis
  proof (cases "dev_init d")
    case None
    with False act [OF u] show ?thesis by (simp add: open_init_def)
  next
    case (Some f)
    obtain r s1 where c: "call_init code f a s = (r, s1)" by fastforce
    with w have "answers same_open a s (r, s1)" by (metis willing_def)
    with u have "r = RT_EOK" "used_by a alone n s1"
      by (auto simp: answers_def used_by_def same_open_def same_use_def)
    with False Some c act show ?thesis by (simp add: open_init_def)
  qed
qed

lemma open_counts:
  assumes w: "willing code a" and u: "used_by a alone n s"
  shows "if alone \<and> 0 < n then \<exists>s'. rt_device_open code a oflag s = Some (- RT_EBUSY, s') \<and> used_by a alone n s'
    else if n = 255 then rt_device_open code a oflag s = None
    else \<exists>s'. rt_device_open code a oflag s = Some (RT_EOK, s') \<and> used_by a alone (n + 1) s'"
proof -
  from u obtain d where d: "device_at s a = Some d" "is_device a s" by (auto simp: used_by_def)
  from willing_init [OF w u d(1)] obtain s1 where i: "open_init code a d s = (RT_EOK, s1)" "used_by a alone n s1" by blast
  from i(2) obtain d1 where d1: "device_at s1 a = Some d1" "is_device a s1" "unat (ref_count d1) = n"
      "open_flag d1 AND RT_DEVICE_OFLAG_OPEN \<noteq> 0 \<longleftrightarrow> 0 < n" "dev_flag d1 AND RT_DEVICE_FLAG_STANDALONE \<noteq> 0 \<longleftrightarrow> alone"
    by (auto simp: used_by_def)
  let ?s1 = "upd_device a (\<lambda>d. d\<lparr>open_flag := oflag AND RT_DEVICE_OFLAG_MASK\<rparr>) s1"
  obtain r s2 where o2: "(case dev_open d1 of None \<Rightarrow> (RT_EOK, ?s1) | Some f \<Rightarrow> call_open code f a oflag s1) = (r, s2)" by fastforce
  have "answers same_use a s1 (call_open code f a oflag s1)" for f using w by (simp add: willing_def)
  from after_call [OF this o2 d1(1,2), of "d1\<lparr>open_flag := oflag AND RT_DEVICE_OFLAG_MASK\<rparr>"] d1 obtain d2 where
    d2: "r = RT_EOK" "is_device a s2" "device_at s2 a = Some d2" "ref_count d2 = ref_count d1"
      "dev_flag d2 AND RT_DEVICE_FLAG_STANDALONE = dev_flag d1 AND RT_DEVICE_FLAG_STANDALONE" by (auto simp: same_use_def)
  have "unat (ref_count d1) < 256" using unsigned_less [of "ref_count d1", where ?'a = nat] by simp
  then have z: "ref_count d1 + 1 = 0 \<longleftrightarrow> n = 255" "n \<noteq> 255 \<Longrightarrow> unat (ref_count d1 + 1) = n + 1"
    using d1(3) by (auto simp: unat_word_ariths word_unat_eq_iff dest: dvd_imp_le)
  have run: "rt_device_open code a oflag s = (if alone \<and> 0 < n then Some (- RT_EBUSY, s1)
      else do {
        let s3 = upd_device a (\<lambda>d. d\<lparr>open_flag := open_flag d OR RT_DEVICE_OFLAG_OPEN, ref_count := ref_count d + 1\<rparr>) s2;
        d3 \<leftarrow> device_at s3 a;
        RT_ASSERT (ref_count d3 \<noteq> 0);
        Some (RT_EOK, s3) })"
    unfolding rt_device_open_def using d i(1) d1(1,4,5) o2 d2(1) by (simp add: conj_commute)
  let ?s3 = "upd_device a (\<lambda>d. d\<lparr>open_flag := open_flag d OR RT_DEVICE_OFLAG_OPEN, ref_count := ref_count d + 1\<rparr>) s2"
  have "used_by a alone (n + 1) ?s3" if "n \<noteq> 255"
    using d2 d1(5) z(2) [OF that] open_kept [of "open_flag d2"] by (simp add: used_by_def)
  then have new: "if n = 255 then rt_device_open code a oflag s = None
      else rt_device_open code a oflag s = Some (RT_EOK, ?s3) \<and> used_by a alone (n + 1) ?s3" if "\<not> (alone \<and> 0 < n)"
    using run d2 z(1) that by simp
  show ?thesis
  proof (cases "alone \<and> 0 < n")
    case True
    with run i(2) show ?thesis by (auto simp del: upd_device_sel)
  next
    case False
    from new [OF False] False show ?thesis by (auto simp del: upd_device_sel)
  qed
qed

lemma close_counts:
  assumes w: "willing code a" and u: "used_by a alone n s"
  shows "if n = 0 then rt_device_close code a s = Some (- RT_ERROR, s)
    else \<exists>s'. rt_device_close code a s = Some (RT_EOK, s') \<and> used_by a alone (n - 1) s'"
proof -
  from u obtain d where d: "device_at s a = Some d" "is_device a s" "unat (ref_count d) = n"
      "open_flag d AND RT_DEVICE_OFLAG_OPEN \<noteq> 0 \<longleftrightarrow> 0 < n" "dev_flag d AND RT_DEVICE_FLAG_STANDALONE \<noteq> 0 \<longleftrightarrow> alone"
    by (auto simp: used_by_def)
  show ?thesis
  proof (cases "n = 0")
    case True
    with d have "ref_count d = 0" by (simp add: unat_eq_zero)
    with True d show ?thesis by (simp add: rt_device_close_def)
  next
    case False
    then have nz: "ref_count d \<noteq> 0" using d(3) by auto
    then have dec: "unat (ref_count d - 1) = n - 1" using d(3) by (simp add: unat_minus_one)
    let ?s1 = "upd_device a (\<lambda>d. d\<lparr>ref_count := ref_count d - 1\<rparr>) s"
    obtain r s2 where c: "(case dev_close d of None \<Rightarrow> (RT_EOK, ?s1) | Some f \<Rightarrow> call_close code f a ?s1) = (r, s2)" by fastforce
    have "answers same_use a ?s1 (call_close code f a ?s1)" for f using w by (simp add: willing_def)
    from after_call [OF this c, of "d\<lparr>ref_count := ref_count d - 1\<rparr>" "d\<lparr>ref_count := ref_count d - 1\<rparr>"] d obtain d2 where
      d2: "r = RT_EOK" "is_device a s2" "device_at s2 a = Some d2" "ref_count d2 = ref_count d - 1"
      "dev_flag d2 AND RT_DEVICE_FLAG_STANDALONE = dev_flag d AND RT_DEVICE_FLAG_STANDALONE" by (auto simp: same_use_def)
    have one: "ref_count d - 1 = 0 \<longleftrightarrow> n = 1" using dec nz False by (auto simp: word_unat_eq_iff)
    have run: "rt_device_close code a s = Some (RT_EOK, if n = 1
        then upd_device a (\<lambda>d. d\<lparr>open_flag := RT_DEVICE_OFLAG_CLOSE\<rparr>) s2 else ?s1)"
      unfolding rt_device_close_def using d(1,2) nz one c d2(1) by simp
    show ?thesis
    proof (cases "n = 1")
      case True
      with d2 d(5) one have "used_by a alone 0 (upd_device a (\<lambda>d. d\<lparr>open_flag := RT_DEVICE_OFLAG_CLOSE\<rparr>) s2)"
        by (simp add: used_by_def)
      with run True show ?thesis by simp
    next
      case n1: False
      with False d dec have "used_by a alone (n - 1) ?s1" by (simp add: used_by_def)
      with run n1 False show ?thesis by simp
    qed
  qed
qed

lemma uses_counted:
  assumes w: "willing code a"
  shows "used_by a alone n s \<Longrightarrow> case count_uses alone n us of
      None \<Rightarrow> run_uses code a us s = None
    | Some (rs, m) \<Rightarrow> \<exists>s'. run_uses code a us s = Some (rs, s') \<and> used_by a alone m s'"
proof (induction us arbitrary: n s)
  case (Cons u us)
  have go: "case map_option (apfst (Cons r)) (count_uses alone m us) of
      None \<Rightarrow> run_uses code a (u # us) s = None
    | Some (rs, m) \<Rightarrow> \<exists>s'. run_uses code a (u # us) s = Some (rs, s') \<and> used_by a alone m s'"
    if "(case u of Open oflag \<Rightarrow> rt_device_open code a oflag s | Close \<Rightarrow> rt_device_close code a s) = Some (r, s1)"
      and "used_by a alone m s1" for r m s1
    using Cons.IH [OF that(2)] that(1) by (auto split: option.splits)
  show ?case
  proof (cases u)
    case (Open oflag)
    with open_counts [OF w Cons.prems, of oflag] go show ?thesis
      by (cases "alone \<and> 0 < n"; cases "n = 255") auto
  next
    case Close
    with close_counts [OF w Cons.prems] go Cons.prems show ?thesis by (cases "n = 0") auto
  qed
qed simp

section \<open>Claims\<close>

text \<open>
  Claim C19 (functional). Any sequence of opens and closes of a device is counted, as long as the driver's init, open and close
  succeed and leave the device registered, its reference count and its mark of being a device of its own, and init its mark
  of being open (they may change the rest, the flags of the open mode included): a device of its own is busy for a second
  user, a close without a user is an error, the device is marked open as long as it has users, and the
  256th open fails an assertion.
\<close>
theorem device_use_counts:
  assumes "willing code a" and "used_by a alone n s"
  shows "case count_uses alone n us of
      None \<Rightarrow> run_uses code a us s = None
    | Some (rs, m) \<Rightarrow> \<exists>s' d. run_uses code a us s = Some (rs, s') \<and> device_at s' a = Some d \<and>
        unat (ref_count d) = m \<and> (open_flag d AND RT_DEVICE_OFLAG_OPEN \<noteq> 0 \<longleftrightarrow> 0 < m)"
  using uses_counted [OF assms, of us] by (auto simp: used_by_def split: option.splits)

text \<open>A device at 100 with functions for everything, registered and not open.\<close>

definition example_device :: "u16 \<Rightarrow> rt_device" where
  "example_device fl = \<lparr>dev_type = 0, dev_flag = fl, open_flag = 0, ref_count = 0, device_id = 0, rx_indicate = None,
     tx_complete = None, dev_init = Some 1, dev_open = Some 2, dev_close = Some 3, dev_read = Some 4, dev_write = Some 5,
     dev_control = Some 6, dev_user_data = 0\<rparr>"

definition device_system :: "u16 \<Rightarrow> devices" where
  "device_system fl = ipc.extend ((example_system (\<lambda>_. None) (\<lambda>_. None) (\<lambda>_. None) (\<lambda>_. None) (\<lambda>_. None) (\<lambda>_. 0))
     \<lparr>objects := [800 \<mapsto> \<lparr>ob_name = ''uart1'', ob_type = 0x89\<rparr>],
      object_container := (\<lambda>c. if c = 9 then [800] else []), rt_object_attach_hook := None, rt_object_detach_hook := None\<rparr>) (devices.fields [800 \<mapsto> example_device fl] 0)"

lemma device_system_sel [simp]:
  "device_at (device_system fl) = [800 \<mapsto> example_device fl]" "is_device 800 (device_system fl)"
  "rt_interrupt_nest (device_system fl) = 0" "rt_object_attach_hook (device_system fl) = None"
  "rt_object_detach_hook (device_system fl) = None" "object_container (device_system fl) 9 = [800]"
  "objects (device_system fl) 800 = Some \<lparr>ob_name = ''uart1'', ob_type = 0x89\<rparr>"
  by (simp_all add: device_system_def ipc.defs devices.defs is_device_def rt_object_get_type_def)

definition plain_driver :: "rt_err \<Rightarrow> 'x devices_scheme dev_code" where
  "plain_driver e = \<lparr>object_code = (\<lambda>f ob s. s), call_init = (\<lambda>f a s. (RT_EOK, s)), call_open = (\<lambda>f a oflag s. (RT_EOK, s)),
     call_close = (\<lambda>f a s. (e, s)), call_read = (\<lambda>f a p b n s. (n, s)), call_write = (\<lambda>f a p b n s. (n, s)),
     call_control = (\<lambda>f a c x s. (RT_EOK, s))\<rparr>"

theorem device_use_counts_witness:
  "\<exists>s'. run_uses (plain_driver RT_EOK) 800 [Close, Open 3, Open 3, Close, Close, Open 1] (device_system RT_DEVICE_FLAG_STANDALONE) =
    Some ([- RT_ERROR, RT_EOK, - RT_EBUSY, RT_EOK, - RT_ERROR, RT_EOK], s')"
proof -
  have "willing (plain_driver RT_EOK :: devices dev_code) 800"
    by (simp add: willing_def plain_driver_def answers_def same_open_def same_use_def)
  moreover have "used_by 800 True 0 (device_system RT_DEVICE_FLAG_STANDALONE)"
    by (simp add: used_by_def) (simp add: example_device_def)
  ultimately show ?thesis
    using device_use_counts [of "plain_driver RT_EOK" 800 True 0 "device_system RT_DEVICE_FLAG_STANDALONE"
      "[Close, Open 3, Open 3, Close, Close, Open 1]"] by auto
qed

text \<open>
  When the driver refuses the last close of a device of its own, the count is zero but the
  device stays marked as open: every later open finds it busy and every later close finds no user, for good.
\<close>
theorem device_close_sticks:
  assumes "is_device a s" and "device_at s a = Some d" and "ref_count d = 1" and "dev_flag d AND RT_DEVICE_FLAG_STANDALONE \<noteq> 0"
    and "activated d" and "open_flag d AND RT_DEVICE_OFLAG_OPEN \<noteq> 0" and "dev_close d = Some f"
    and "\<And>s. call_close code f a s = (e, s)" and "e \<noteq> RT_EOK" and "e \<noteq> - RT_ENOSYS"
  shows "\<exists>s'. rt_device_close code a s = Some (e, s') \<and>
    run_uses code a us s' = Some (map (\<lambda>u. case u of Open _ \<Rightarrow> - RT_EBUSY | Close \<Rightarrow> - RT_ERROR) us, s')"
proof -
  define s1 where "s1 = upd_device a (\<lambda>d. d\<lparr>ref_count := ref_count d - 1\<rparr>) s"
  have c: "rt_device_close code a s = Some (e, s1)"
    using assms(1-3,7-10) by (simp add: rt_device_close_def s1_def)
  have d: "is_device a s1" "device_at s1 a = Some (d\<lparr>ref_count := 0\<rparr>)" using assms(1-3) by (simp_all add: s1_def)
  have "open_init code a (d\<lparr>ref_count := 0\<rparr>) s1 = (RT_EOK, s1)" using assms(5) by (simp add: open_init_def activated_def)
  then have o1: "rt_device_open code a oflag s1 = Some (- RT_EBUSY, s1)" for oflag
    using d assms(4,6) by (simp add: rt_device_open_def)
  have c1: "rt_device_close code a s1 = Some (- RT_ERROR, s1)" using d by (simp add: rt_device_close_def)
  have "run_uses code a us s1 = Some (map (\<lambda>u. case u of Open _ \<Rightarrow> - RT_EBUSY | Close \<Rightarrow> - RT_ERROR) us, s1)"
    by (induction us) (auto simp: o1 c1 split: use_op.splits)
  with c show ?thesis by blast
qed

theorem device_close_sticks_witness:
  "\<exists>s s'. run_uses (plain_driver (- RT_EIO)) 800 [Open 3] (device_system RT_DEVICE_FLAG_STANDALONE) = Some ([RT_EOK], s) \<and>
    rt_device_close (plain_driver (- RT_EIO)) 800 s = Some (- RT_EIO, s') \<and>
    run_uses (plain_driver (- RT_EIO)) 800 [Close, Open 3] s' = Some ([- RT_ERROR, - RT_EBUSY], s')"
proof -
  let ?c = "plain_driver (- RT_EIO) :: devices dev_code"
  define d where "d = example_device 0x18\<lparr>open_flag := 8, ref_count := 1\<rparr>"
  define s1 where "s1 = activate 800 (device_system 8)"
  define s where "s = upd_device 800 (\<lambda>d. d\<lparr>open_flag := open_flag d OR RT_DEVICE_OFLAG_OPEN, ref_count := ref_count d + 1\<rparr>) s1"
  have s1: "device_at s1 800 = Some (example_device 0x18)" "is_device 800 s1"
    by (simp_all add: s1_def activate_def) (simp add: example_device_def)
  have ex: "\<not> activated (example_device 8)" "dev_init (example_device fl) = Some 1" "dev_open (example_device fl) = Some 2"
      "open_flag (example_device fl) = 0" "ref_count (example_device fl) = 0" for fl
    by (simp_all add: example_device_def activated_def)
  have c: "call_init ?c f 800 x = (RT_EOK, x)" "call_open ?c f 800 oflag x = (RT_EOK, x)" for f oflag x by (simp_all add: plain_driver_def)
  have "open_init ?c 800 (example_device 8) (device_system 8) = (RT_EOK, s1)"
    by (simp add: open_init_def ex c s1_def)
  moreover have sd: "device_at s 800 = Some d" using s1 by (simp add: s_def d_def ex)
  ultimately have o1: "rt_device_open ?c 800 3 (device_system 8) = Some (RT_EOK, s)"
    using s1 by (simp add: rt_device_open_def ex c s_def [symmetric] d_def del: upd_device_sel(1))
  have "is_device 800 s" "device_at s 800 = Some d" using s1(2) sd by (simp_all add: s_def)
  moreover have "ref_count d = 1" "dev_flag d AND RT_DEVICE_FLAG_STANDALONE \<noteq> 0" "activated d"
      "open_flag d AND RT_DEVICE_OFLAG_OPEN \<noteq> 0" "dev_close d = Some 3"
    by (simp_all add: d_def example_device_def activated_def)
  moreover have "call_close ?c 3 800 s = (- RT_EIO, s)" for s by (simp add: plain_driver_def)
  ultimately show ?thesis
    using device_close_sticks [of 800 s d 3 ?c "- RT_EIO" "[Close, Open 3]"] o1 by auto
qed

section \<open>The registry\<close>

lemma device_class: "rt_object_get_information 9 = Some 9"
  by (simp add: rt_object_get_information_def object_container_types_def)

lemma find_untouched:
  assumes "ob \<notin> set obs"
  shows "find_by_name (f(ob := x)) name obs = find_by_name f name obs"
  using assms by (induction obs) auto

lemma register_free:
  assumes "rt_device_find (Some name) s = Some None" and "a \<notin> set (object_container s 9)" and "rt_object_attach_hook s = None"
  shows "\<exists>s1. rt_device_register code (Some a) name fl s = Some (RT_EOK, s1) \<and> rt_interrupt_nest s1 = rt_interrupt_nest s \<and>
    object_container s1 = (object_container s)(9 := a # object_container s 9) \<and>
    objects s1 = (objects s)(a \<mapsto> \<lparr>ob_name = name_field name, ob_type = 0x89\<rparr>) \<and>
    rt_object_detach_hook s1 = rt_object_detach_hook s"
  using assms by (simp add: rt_device_register_def rt_object_init_def device_class
      object_link_def rt_object_hook_call_def rt_hw_interrupt_disable_def rt_hw_interrupt_enable_def Let_def)

text \<open>
  A registered device is found by its name, which no second device can then take,
  and unregistering it leaves every search as it was.
\<close>
theorem device_registry:
  assumes "rt_interrupt_nest s = 0" and "rt_object_attach_hook s = None" and "rt_object_detach_hook s = None"
    and "rt_device_find (Some name) s = Some None" and "a \<notin> set (object_container s 9)"
  shows "\<exists>s1 s2. rt_device_register code (Some a) name fl s = Some (RT_EOK, s1) \<and> rt_device_find (Some name) s1 = Some (Some a) \<and>
    rt_device_register code (Some b) name fl' s1 = Some (- RT_ERROR, s1) \<and>
    rt_device_unregister code a s1 = Some (RT_EOK, s2) \<and> (\<forall>n. rt_device_find n s2 = rt_device_find n s)"
proof -
  from register_free [OF assms(4,5,2), of code fl] obtain s1 where
    s1: "rt_device_register code (Some a) name fl s = Some (RT_EOK, s1)" "rt_interrupt_nest s1 = 0"
      "object_container s1 = (object_container s)(9 := a # object_container s 9)"
      "objects s1 = (objects s)(a \<mapsto> \<lparr>ob_name = name_field name, ob_type = 0x89\<rparr>)" "rt_object_detach_hook s1 = None"
    using assms(1,3) by auto
  have f: "rt_device_find (Some name) s1 = Some (Some a)"
    using s1(2-4) by (simp add: rt_device_find_def rt_object_find_def device_class)
  have r: "rt_device_register code (Some b) name fl' s1 = Some (- RT_ERROR, s1)" using f by (simp add: rt_device_register_def)
  let ?s2 = "rt_object_detach (object_code code) a s1"
  have u: "rt_device_unregister code a s1 = Some (RT_EOK, ?s2)"
    using s1(4) by (simp add: rt_device_unregister_def is_device_def rt_object_get_type_def rt_object_is_systemobject_def)
  have o2: "object_container ?s2 9 = object_container s 9" "rt_interrupt_nest ?s2 = 0"
      "\<exists>x. objects ?s2 = (objects s)(a := x)"
    using s1(2-5) by (auto simp: rt_object_detach_def rt_object_hook_call_def object_unlink_def set_object_type_def
        rt_hw_interrupt_disable_def rt_hw_interrupt_enable_def Let_def)
  then have "rt_device_find n ?s2 = rt_device_find n s" for n
    using find_untouched [OF assms(5), of "objects s"] assms(1)
    by (cases n) (auto simp: rt_device_find_def rt_object_find_def device_class)
  with s1(1) f r u show ?thesis by blast
qed

theorem device_registry_witness:
  "\<exists>s1 s2. rt_device_register (plain_driver RT_EOK) (Some 900) ''spi1'' 3 (device_system 8) = Some (RT_EOK, s1) \<and>
    rt_device_find (Some ''spi1'') s1 = Some (Some 900) \<and>
    rt_device_register (plain_driver RT_EOK) (Some 901) ''spi1'' 3 s1 = Some (- RT_ERROR, s1) \<and>
    rt_device_unregister (plain_driver RT_EOK) 900 s1 = Some (RT_EOK, s2) \<and>
    rt_device_find (Some ''uart1'') s2 = Some (Some 800)"
proof -
  have f: "rt_device_find (Some ''spi1'') (device_system 8) = Some None" "rt_device_find (Some ''uart1'') (device_system 8) = Some (Some 800)"
    by (simp_all add: rt_device_find_def rt_object_find_def device_class name_field_def)
  have "900 \<notin> set (object_container (device_system 8) 9)" by simp
  from device_registry [OF device_system_sel(3-5) f(1) this, of "plain_driver RT_EOK" 3 901 3] f(2) show ?thesis by metis
qed

text \<open>
  No device can be destroyed: one that was only created has no type, and one that was
  registered counts as a static object, and either way an assertion of \<^verbatim>\<open>rt_device_destroy\<close> fails.
\<close>
theorem device_destroy_asserts:
  assumes "rt_device_create mem type n s0 = (Some a, s)" and "rt_object_attach_hook s = None"
  shows "rt_device_destroy code a s = None \<and>
    (\<forall>s1. rt_device_register code (Some a) name fl s = Some (RT_EOK, s1) \<longrightarrow> rt_device_destroy code a s1 = None)"
proof
  show "rt_device_destroy code a s = None"
    using assms(1) by (auto simp: rt_device_create_def rt_device_destroy_def is_device_def rt_object_get_type_def
        split: option.splits)
next
  show "\<forall>s1. rt_device_register code (Some a) name fl s = Some (RT_EOK, s1) \<longrightarrow> rt_device_destroy code a s1 = None"
  proof (intro allI impI)
    fix s1
    assume r: "rt_device_register code (Some a) name fl s = Some (RT_EOK, s1)"
    then have "rt_device_find (Some name) s = Some None" "a \<notin> set (object_container s 9)"
      by (auto simp: rt_device_register_def rt_object_init_def device_class
          split: option.splits bind_splits if_splits)
    from register_free [OF this assms(2), of code fl] r show "rt_device_destroy code a s1 = None"
      by (auto simp: rt_device_destroy_def rt_object_is_systemobject_def)
  qed
qed

theorem device_destroy_asserts_witness:
  "\<exists>s s1. rt_device_create (\<lambda>_. Some 900) 5 16 (device_system 8) = (Some 900, s) \<and>
    rt_device_destroy (plain_driver RT_EOK) 900 s = None \<and>
    rt_device_register (plain_driver RT_EOK) (Some 900) ''spi1'' 3 s = Some (RT_EOK, s1) \<and>
    rt_device_destroy (plain_driver RT_EOK) 900 s1 = None"
proof -
  obtain s where c: "rt_device_create (\<lambda>_. Some 900) 5 16 (device_system 8) = (Some 900, s)"
    by (simp add: rt_device_create_def)
  have k: "rt_object_attach_hook s = None" "rt_interrupt_nest s = 0" "object_container s 9 = [800]"
      "objects s 800 = Some \<lparr>ob_name = ''uart1'', ob_type = 0x89\<rparr>"
    using c by (auto simp: rt_device_create_def)
  have "rt_device_find (Some ''spi1'') s = Some None" "900 \<notin> set (object_container s 9)"
    by (simp_all add: rt_device_find_def rt_object_find_def device_class k name_field_def)
  from register_free [OF this k(1)] obtain s1 where
    "rt_device_register (plain_driver RT_EOK) (Some 900) ''spi1'' 3 s = Some (RT_EOK, s1)" by blast
  with c device_destroy_asserts [OF c k(1), of "plain_driver RT_EOK" "''spi1''" 3] show ?thesis by blast
qed

end
