(* ===== verification/Shell.thy ===== *)
theory Shell
  imports Device
begin

text \<open>
  The command shell: \<^verbatim>\<open>msh.c\<close> and \<^verbatim>\<open>shell.c\<close> as they are compiled for the board,
  with a history of five lines, without files, modules and passwords. A line buffer is the list of its bytes, a
  pointer into it an index; an access outside it is \<open>None\<close>. The program's characters are
  unsigned. What \<^verbatim>\<open>rt_kprintf\<close> is given is appended to \<open>printed\<close>; \<^verbatim>\<open>Kprintf\<close> has what
  becomes of it. The commands are a parameter; none of them looks at the line it came from.
\<close>

abbreviation FINSH_ARG_MAX :: nat where "FINSH_ARG_MAX \<equiv> 10"
abbreviation FINSH_CMD_SIZE :: nat where "FINSH_CMD_SIZE \<equiv> 80"
abbreviation FINSH_HISTORY_LINES :: nat where "FINSH_HISTORY_LINES \<equiv> 5"
abbreviation NUL :: char where "NUL \<equiv> CHR 0x00"
abbreviation NL :: char where "NL \<equiv> CHR 0x0A"
abbreviation BS :: char where "BS \<equiv> CHR 0x08"

definition is_blank :: "char \<Rightarrow> bool" where "is_blank c \<longleftrightarrow> c = CHR '' '' \<or> c = CHR 0x09"

section \<open>Strings in a buffer\<close>

definition char_at :: "nat \<Rightarrow> string \<Rightarrow> char option" where
  "char_at i buf = (if i < length buf then Some (buf ! i) else None)"

definition c_string :: "nat \<Rightarrow> string \<Rightarrow> string option" where
  "c_string i buf = (if NUL \<in> set (drop i buf) then Some (takeWhile (\<lambda>c. c \<noteq> NUL) (drop i buf)) else None)"

text \<open>Bytes written from an index on.\<close>

definition put_bytes :: "nat \<Rightarrow> string \<Rightarrow> string \<Rightarrow> string option" where
  "put_bytes i cs buf = (if i + length cs \<le> length buf then Some (take i buf @ cs @ drop (i + length cs) buf) else None)"

definition get_bytes :: "nat \<Rightarrow> nat \<Rightarrow> string \<Rightarrow> string option" where
  "get_bytes i n buf = (if i + n \<le> length buf then Some (take n (drop i buf)) else None)"

section \<open>Words of a line\<close>

text \<open>All loops of \<^verbatim>\<open>msh_split\<close> move the pointer and the position together: \<open>p\<close> is the index, \<open>e\<close> the end.\<close>

function strip_blanks :: "nat \<Rightarrow> nat \<Rightarrow> string \<Rightarrow> (nat \<times> string) option" where
  "strip_blanks p e buf = do {
     c \<leftarrow> char_at p buf;
     if is_blank c \<and> p < e then strip_blanks (Suc p) e (buf[p := NUL]) else Some (p, buf) }"
  by auto
termination by (relation "measure (\<lambda>(p, e, buf). e - p)") auto

function skip_word :: "nat \<Rightarrow> nat \<Rightarrow> string \<Rightarrow> nat option" where
  "skip_word p e buf = do {
     c \<leftarrow> char_at p buf;
     if \<not> is_blank c \<and> p < e then skip_word (Suc p) e buf else Some p }"
  by auto
termination by (relation "measure (\<lambda>(p, e, buf). e - p)") auto

function skip_string :: "nat \<Rightarrow> nat \<Rightarrow> string \<Rightarrow> nat option" where
  "skip_string p e buf = do {
     c \<leftarrow> char_at p buf;
     if c \<noteq> CHR 0x22 \<and> p < e
     then if c = CHR 0x5C
       then do {
         d \<leftarrow> char_at (Suc p) buf;
         if d = CHR 0x22 then skip_string (Suc (Suc p)) e buf else skip_string (Suc p) e buf }
       else skip_string (Suc p) e buf
     else Some p }"
  by auto
termination by (relation "measure (\<lambda>(p, e, buf). e - p)") auto

declare strip_blanks.simps [simp del] skip_word.simps [simp del] skip_string.simps [simp del]

lemma strip_blanks_le: "strip_blanks p e buf = Some (q, buf') \<Longrightarrow> p \<le> q \<and> length buf' = length buf"
proof (induction p e buf rule: strip_blanks.induct)
  case (1 p e buf)
  from "1.prems" show ?case
    by (subst (asm) strip_blanks.simps) (auto split: bind_splits if_splits dest!: "1.IH")
qed

text \<open>The blanks end at the end of the line or before a character that is none.\<close>

lemma strip_blanks_stop: "strip_blanks p e buf = Some (q, buf') \<Longrightarrow> q < e \<Longrightarrow> \<exists>c. char_at q buf' = Some c \<and> \<not> is_blank c"
proof (induction p e buf rule: strip_blanks.induct)
  case (1 p e buf)
  from "1.prems" show ?case
    by (subst (asm) strip_blanks.simps) (auto split: bind_splits if_splits dest!: "1.IH")
qed

lemma skip_string_le: "skip_string p e buf = Some q \<Longrightarrow> p \<le> q"
proof (induction p e buf rule: skip_string.induct)
  case (1 p e buf)
  from "1.prems" show ?case
    by (subst (asm) skip_string.simps) (auto split: bind_splits if_splits dest: "1.IH" Suc_leD)
qed

lemma skip_word_le: "skip_word p e buf = Some q \<Longrightarrow> p \<le> q"
proof (induction p e buf rule: skip_word.induct)
  case (1 p e buf)
  from "1.prems" show ?case
    by (subst (asm) skip_word.simps) (auto split: bind_splits if_splits dest!: "1.IH")
qed

lemma skip_word_less:
  assumes "skip_word p e buf = Some q" and "char_at p buf = Some c" and "\<not> is_blank c" and "p < e"
  shows "p < q"
  using assms skip_word_le [of "p + 1" e buf q] by (subst (asm) skip_word.simps) auto

text \<open>The arguments so far are \<open>argv\<close>; the last result says that there were too many.\<close>

function split_loop :: "nat \<Rightarrow> nat \<Rightarrow> nat list \<Rightarrow> string \<Rightarrow> (nat list \<times> string \<times> bool) option" where
  "split_loop p e argv buf = (if \<not> p < e then Some (argv, buf, False) else do {
     (p1, buf1) \<leftarrow> strip_blanks p e buf;
     if FINSH_ARG_MAX \<le> length argv then Some (argv, buf1, True)
     else if \<not> p1 < e then Some (argv, buf1, False)
     else do {
       c \<leftarrow> char_at p1 buf1;
       if c = CHR 0x22
       then do {
         p2 \<leftarrow> skip_string (p1 + 1) e buf1;
         if \<not> p2 < e then Some (argv @ [p1 + 1], buf1, False)
         else split_loop (p2 + 1) e (argv @ [p1 + 1]) (buf1[p2 := NUL]) }
       else do {
         p2 \<leftarrow> skip_word p1 e buf1;
         if \<not> p2 < e then Some (argv @ [p1], buf1, False) else split_loop p2 e (argv @ [p1]) buf1 } } })"
  by pat_completeness auto
termination
proof (relation "measure (\<lambda>(p, e, argv, buf). e - p)", goal_cases)
  case (2 p e argv buf x p1 buf1 c p2)
  then show ?case using strip_blanks_le [of p e buf p1 buf1] skip_string_le [of "Suc p1" e buf1 p2] by (simp, linarith)
next
  case (3 p e argv buf x p1 buf1 c p2)
  then show ?case using strip_blanks_le [of p e buf p1 buf1] strip_blanks_stop [of p e buf p1 buf1]
      skip_word_less [of p1 e buf1 p2 c] by force
qed simp

declare split_loop.simps [simp del]

section \<open>The state\<close>

datatype input_stat = WAIT_NORMAL | WAIT_SPEC_KEY | WAIT_FUNC_KEY

text \<open>The two modes are bit fields of one bit.\<close>

record finsh_shell =
  input_stat :: input_stat
  echo_mode :: "1 word"
  prompt_mode :: "1 word"
  current_history :: u16
  history_count :: u16
  cmd_history :: "string list"
  shell_line :: string
  line_position :: u16
  line_curpos :: u16
  shell_device :: "nat option"

record finsh_syscall =
  sc_name :: string
  sc_desc :: string
  sc_func :: fptr

text \<open>The shell has an address, that of its semaphore too; a prompt of one's own lies in the heap.\<close>

record finsh = devices +
  shell_at :: "nat option"
  shell :: finsh_shell
  prompt_custom :: "(nat \<times> string) option"
  syscall_table :: "finsh_syscall list"
  printed :: string

record 's finsh_code =
  dev_of :: "'s dev_code"
  sched_of :: "'s scode"
  rx_ind_fptr :: fptr
  thread_entry_fptr :: fptr
  call_cmd :: "fptr \<Rightarrow> string list \<Rightarrow> 's \<Rightarrow> int \<times> 's"

definition put_text :: "string \<Rightarrow> 'x finsh_scheme \<Rightarrow> 'x finsh_scheme" where
  "put_text t s = s\<lparr>printed := printed s @ t\<rparr>"

definition finsh_system_function_init :: "finsh_syscall list \<Rightarrow> 'x finsh_scheme \<Rightarrow> 'x finsh_scheme" where
  "finsh_system_function_init tab s = s\<lparr>syscall_table := tab\<rparr>"

section \<open>Commands\<close>

text \<open>\<^verbatim>\<open>%-16s\<close> cuts a name to 16 characters.\<close>

definition help_line :: "finsh_syscall \<Rightarrow> string" where
  "help_line c = take 16 (sc_name c) @ replicate (16 - length (sc_name c)) (CHR '' '') @ '' - '' @ sc_desc c @ [NL]"

definition msh_help :: "'x finsh_scheme \<Rightarrow> 'x finsh_scheme" where
  "msh_help s = put_text (''RT-Thread shell commands:'' @ [NL] @ concat (map help_line (syscall_table s)) @ [NL]) s"

definition msh_split :: "nat \<Rightarrow> nat \<Rightarrow> string \<Rightarrow> (nat list \<times> string \<times> bool) option" where
  "msh_split cmd n buf = split_loop cmd (cmd + n) [] buf"

definition too_many :: "string list \<Rightarrow> string" where
  "too_many argv = ''Too many args ! We only Use:'' @ [NL] @ concat (map (\<lambda>a. a @ '' '') argv) @ [NL]"

text \<open>\<^verbatim>\<open>strncmp(...) == 0\<close>; the ends of the lists are the final zeros.\<close>

fun same_start :: "nat \<Rightarrow> string \<Rightarrow> string \<Rightarrow> bool" where
  "same_start 0 a b = True"
| "same_start (Suc n) [] b = (b = [] \<or> hd b = NUL)"
| "same_start (Suc n) (c # a) [] = (c = NUL)"
| "same_start (Suc n) (c # a) (d # b) = (c = d \<and> (c = NUL \<or> same_start n a b))"

text \<open>A name that is shorter than the size is read behind its end.\<close>

fun msh_get_cmd :: "string \<Rightarrow> nat \<Rightarrow> finsh_syscall list \<Rightarrow> fptr option option" where
  "msh_get_cmd cmd sz [] = Some None"
| "msh_get_cmd cmd sz (c # tab) =
    (if same_start sz (sc_name c) cmd
     then do { z \<leftarrow> char_at sz (sc_name c @ [NUL]); if z = NUL then Some (Some (sc_func c)) else msh_get_cmd cmd sz tab }
     else msh_get_cmd cmd sz tab)"

text \<open>The result of \<^verbatim>\<open>_msh_exec_cmd\<close> is \<open>None\<close> for its error, and what the command returned otherwise.\<close>

definition msh_exec_cmd :: "'x finsh_scheme finsh_code \<Rightarrow> nat \<Rightarrow> nat \<Rightarrow> string \<Rightarrow> 'x finsh_scheme \<Rightarrow>
    (int option \<times> string \<times> 'x finsh_scheme) option" where
  "msh_exec_cmd code cmd n buf s = do {
     p \<leftarrow> skip_word cmd (cmd + n) buf;
     if p = cmd then Some (None, buf, s)
     else do {
       f \<leftarrow> msh_get_cmd (drop cmd buf) (p - cmd) (syscall_table s);
       (case f of
          None \<Rightarrow> Some (None, buf, s)
        | Some func \<Rightarrow> do {
            (args, buf1, many) \<leftarrow> msh_split cmd n buf;
            argv \<leftarrow> those (map (\<lambda>i. c_string i buf1) args);
            let s1 = (if many then put_text (too_many argv) s else s);
            if argv = [] then Some (None, buf1, s1)
            else let (ret, s2) = call_cmd code func argv s1 in Some (Some ret, buf1, s2) }) } }"

fun trim :: "nat \<Rightarrow> nat \<Rightarrow> string \<Rightarrow> (nat \<times> nat) option" where
  "trim cmd 0 buf = Some (cmd, 0)"
| "trim cmd (Suc n) buf = do {
     c \<leftarrow> char_at cmd buf;
     if is_blank c then trim (Suc cmd) n buf else Some (cmd, Suc n) }"

text \<open>Up to the first space or zero; a tab does not end it.\<close>

definition first_part :: "nat \<Rightarrow> string \<Rightarrow> string option" where
  "first_part i buf = (let rest = drop i buf in
     if \<exists>c \<in> set rest. c = NUL \<or> c = CHR '' '' then Some (takeWhile (\<lambda>c. c \<noteq> NUL \<and> c \<noteq> CHR '' '') rest) else None)"

definition msh_exec :: "'x finsh_scheme finsh_code \<Rightarrow> nat \<Rightarrow> nat \<Rightarrow> string \<Rightarrow> 'x finsh_scheme \<Rightarrow>
    (int \<times> 'x finsh_scheme) option" where
  "msh_exec code cmd n buf s = do {
     (cmd1, n1) \<leftarrow> trim cmd n buf;
     if n1 = 0 then Some (0, s)
     else do {
       (r, buf1, s1) \<leftarrow> msh_exec_cmd code cmd1 n1 buf s;
       (case r of
          Some ret \<Rightarrow> Some (ret, s1)
        | None \<Rightarrow> map_option (\<lambda>name. (- 1, put_text (name @ '': command not found.'' @ [NL]) s1)) (first_part cmd1 buf1)) } }"

section \<open>Completion\<close>

fun str_common :: "string \<Rightarrow> string \<Rightarrow> nat" where
  "str_common (c # a) (d # b) = (if c = d then Suc (str_common a b) else 0)"
| "str_common _ _ = 0"

text \<open>The name and length so far are \<open>name_ptr\<close> and \<open>min_length\<close>; the names found are printed.\<close>

fun complete_loop :: "string \<Rightarrow> string list \<Rightarrow> string option \<Rightarrow> nat \<Rightarrow> string \<Rightarrow> string option \<times> nat \<times> string" where
  "complete_loop prefix [] name_ptr min_length out = (name_ptr, min_length, out)"
| "complete_loop prefix (cmd_name # names) name_ptr min_length out =
    (if same_start (length prefix) prefix cmd_name
     then (let (name, m) = (if min_length = 0 then (cmd_name, length cmd_name) else (the name_ptr, min_length))
           in complete_loop prefix names (Some name) (min m (str_common name cmd_name)) (out @ cmd_name @ [NL]))
     else complete_loop prefix names name_ptr min_length out)"

text \<open>The prefix begins at an index of the buffer; the common start of the names is written over it.\<close>

definition msh_auto_complete :: "nat \<Rightarrow> string \<Rightarrow> 'x finsh_scheme \<Rightarrow> (string \<times> 'x finsh_scheme) option" where
  "msh_auto_complete i buf s = do {
     prefix \<leftarrow> c_string i buf;
     if prefix = [] then Some (buf, msh_help s)
     else (let (name, m, out) = complete_loop prefix (map sc_name (syscall_table s)) None 0 []
           in (case name of
                None \<Rightarrow> Some (buf, put_text out s)
              | Some name \<Rightarrow> map_option (\<lambda>buf1. (buf1, put_text out s)) (put_bytes i (take m name) buf))) }"

section \<open>Settings\<close>

definition finsh_set_prompt :: "(u32 \<Rightarrow> nat option) \<Rightarrow> string option \<Rightarrow> 'x finsh_scheme \<Rightarrow> 'x finsh_scheme" where
  "finsh_set_prompt mem prompt s =
    (let s1 = (case prompt_custom s of None \<Rightarrow> s | Some (a, _) \<Rightarrow> s\<lparr>heap_freed := a # heap_freed s, prompt_custom := None\<rparr>)
     in (case prompt of
          None \<Rightarrow> s1
        | Some t \<Rightarrow> (case mem (of_nat (length t) + 1) of None \<Rightarrow> s1 | Some a \<Rightarrow> s1\<lparr>prompt_custom := Some (a, t)\<rparr>)))"

text \<open>The prompt has room for \<^verbatim>\<open>RT_CONSOLEBUF_SIZE\<close> characters.\<close>

definition finsh_get_prompt :: "'x finsh_scheme \<Rightarrow> string" where
  "finsh_get_prompt s = (if prompt_mode (shell s) = 0 then []
     else (case prompt_custom s of Some (_, t) \<Rightarrow> take 256 t | None \<Rightarrow> ''msh >''))"

definition finsh_get_prompt_mode :: "'x finsh_scheme \<Rightarrow> u32 option" where
  "finsh_get_prompt_mode s = do { RT_ASSERT (shell_at s \<noteq> None); Some (ucast (prompt_mode (shell s))) }"

definition finsh_set_prompt_mode :: "u32 \<Rightarrow> 'x finsh_scheme \<Rightarrow> 'x finsh_scheme option" where
  "finsh_set_prompt_mode mode s = do {
     RT_ASSERT (shell_at s \<noteq> None);
     Some (s\<lparr>shell := (shell s)\<lparr>prompt_mode := ucast mode\<rparr>\<rparr>) }"

definition finsh_set_echo :: "u32 \<Rightarrow> 'x finsh_scheme \<Rightarrow> 'x finsh_scheme option" where
  "finsh_set_echo echo s = do {
     RT_ASSERT (shell_at s \<noteq> None);
     Some (s\<lparr>shell := (shell s)\<lparr>echo_mode := ucast (ucast echo :: u8)\<rparr>\<rparr>) }"

definition finsh_get_echo :: "'x finsh_scheme \<Rightarrow> u32 option" where
  "finsh_get_echo s = do { RT_ASSERT (shell_at s \<noteq> None); Some (ucast (echo_mode (shell s))) }"

section \<open>History\<close>

text \<open>The place of a line in the table of lines.\<close>

definition history_line :: "nat \<Rightarrow> string \<Rightarrow> finsh_shell \<Rightarrow> finsh_shell option" where
  "history_line i cs sh = (if i < length (cmd_history sh) then Some (sh\<lparr>cmd_history := (cmd_history sh)[i := cs]\<rparr>) else None)"

text \<open>What is stored is the typed part of the line; what is compared is the whole buffer.\<close>

definition history_entry :: "finsh_shell \<Rightarrow> string option" where
  "history_entry sh = do {
     text \<leftarrow> get_bytes 0 (unat (line_position sh)) (shell_line sh);
     put_bytes 0 text (replicate FINSH_CMD_SIZE NUL) }"

definition shell_push_history :: "finsh_shell \<Rightarrow> finsh_shell option" where
  "shell_push_history sh = do {
     let n = unat (history_count sh);
     now \<leftarrow> get_bytes 0 FINSH_CMD_SIZE (shell_line sh);
     sh1 \<leftarrow> (if line_position sh = 0 then Some sh
       else if FINSH_HISTORY_LINES \<le> n
       then (if cmd_history sh ! (FINSH_HISTORY_LINES - 1) = now then Some sh
         else do {
           entry \<leftarrow> history_entry sh;
           Some (sh\<lparr>cmd_history := tl (take FINSH_HISTORY_LINES (cmd_history sh)) @ [entry],
             history_count := of_nat FINSH_HISTORY_LINES\<rparr>) })
       else if n \<noteq> 0 \<and> cmd_history sh ! (n - 1) = now then Some sh
       else do {
         entry \<leftarrow> history_entry sh;
         map_option (\<lambda>sh. sh\<lparr>history_count := history_count sh + 1\<rparr>) (history_line n entry sh) });
     Some (sh1\<lparr>current_history := history_count sh1\<rparr>) }"

text \<open>The line and both positions are those of a line of the history; then it is shown.\<close>

definition recall :: "string \<Rightarrow> u16 \<Rightarrow> finsh_shell \<Rightarrow> (string \<times> finsh_shell) option" where
  "recall prompt h sh = do {
     entry \<leftarrow> (if unat h < length (cmd_history sh) then Some (cmd_history sh ! unat h) else None);
     buf \<leftarrow> put_bytes 0 entry (shell_line sh);
     text \<leftarrow> c_string 0 buf;
     Some ([CHR 0x1B] @ ''[2K'' @ [CHR 0x0D] @ prompt @ text,
       sh\<lparr>current_history := h, shell_line := buf, line_position := of_nat (length text),
         line_curpos := of_nat (length text)\<rparr>) }"

definition up_key :: "string \<Rightarrow> finsh_shell \<Rightarrow> (string \<times> finsh_shell) option" where
  "up_key prompt sh = (if 0 < current_history sh then recall prompt (current_history sh - 1) sh
     else Some ([], sh\<lparr>current_history := 0\<rparr>))"

text \<open>The comparison is one of \<^verbatim>\<open>int\<close>: the count less one may be \<open>-1\<close>.\<close>

definition down_key :: "string \<Rightarrow> finsh_shell \<Rightarrow> (string \<times> finsh_shell) option" where
  "down_key prompt sh =
    (if uint (current_history sh) < uint (history_count sh) - 1 then recall prompt (current_history sh + 1) sh
     else if history_count sh \<noteq> 0 then recall prompt (history_count sh - 1) sh
     else Some ([], sh))"

section \<open>The line editor\<close>

definition left_key :: "finsh_shell \<Rightarrow> string \<times> finsh_shell" where
  "left_key sh = (if line_curpos sh \<noteq> 0 then ([BS], sh\<lparr>line_curpos := line_curpos sh - 1\<rparr>) else ([], sh))"

definition right_key :: "finsh_shell \<Rightarrow> (string \<times> finsh_shell) option" where
  "right_key sh = (if line_curpos sh < line_position sh
     then map_option (\<lambda>c. ([c], sh\<lparr>line_curpos := line_curpos sh + 1\<rparr>)) (char_at (unat (line_curpos sh)) (shell_line sh))
     else Some ([], sh))"

text \<open>\<^verbatim>\<open>rt_memmove\<close> within the line: \<open>n\<close> bytes.\<close>

definition move_bytes :: "nat \<Rightarrow> nat \<Rightarrow> nat \<Rightarrow> string \<Rightarrow> string option" where
  "move_bytes dst src n buf = do { cs \<leftarrow> get_bytes src n buf; put_bytes dst cs buf }"

definition backspace_key :: "finsh_shell \<Rightarrow> (string \<times> finsh_shell) option" where
  "backspace_key sh = (if line_curpos sh = 0 then Some ([], sh) else do {
     let pos = line_position sh - 1;
     let cur = line_curpos sh - 1;
     if cur < pos
     then do {
       buf1 \<leftarrow> move_bytes (unat cur) (unat cur + 1) (unat pos - unat cur) (shell_line sh);
       buf2 \<leftarrow> put_bytes (unat pos) [NUL] buf1;
       rest \<leftarrow> c_string (unat cur) buf2;
       Some ([BS] @ rest @ ''  '' @ [BS] @ replicate (unat pos - unat cur + 1) BS,
         sh\<lparr>shell_line := buf2, line_position := pos, line_curpos := cur\<rparr>) }
     else do {
       buf1 \<leftarrow> put_bytes (unat pos) [NUL] (shell_line sh);
       Some ([BS] @ '' '' @ [BS], sh\<lparr>shell_line := buf1, line_position := pos, line_curpos := cur\<rparr>) } })"

text \<open>A line that has become too long is forgotten, not cleared.\<close>

definition normal_key :: "char \<Rightarrow> finsh_shell \<Rightarrow> (string \<times> finsh_shell) option" where
  "normal_key ch sh = do {
     let echo = echo_mode sh = 1;
     let cur = line_curpos sh;
     let pos = (if of_nat FINSH_CMD_SIZE \<le> line_position sh then 0 else line_position sh);
     (buf, out) \<leftarrow> (if cur < pos
       then do {
         buf1 \<leftarrow> move_bytes (unat cur + 1) (unat cur) (unat pos - unat cur) (shell_line sh);
         buf2 \<leftarrow> put_bytes (unat cur) [ch] buf1;
         rest \<leftarrow> c_string (unat cur) buf2;
         Some (buf2, (if echo then rest else []) @ replicate (unat pos - unat cur) BS) }
       else do {
         buf1 \<leftarrow> put_bytes (unat pos) [ch] (shell_line sh);
         Some (buf1, if echo then [ch] else []) });
     let pos1 = pos + 1;
     let cur1 = cur + 1;
     Some (out, sh\<lparr>shell_line := buf, line_position := (if of_nat FINSH_CMD_SIZE \<le> pos1 then 0 else pos1),
       line_curpos := (if of_nat FINSH_CMD_SIZE \<le> pos1 then 0 else cur1)\<rparr>) }"

section \<open>The shell\<close>

definition apply_key :: "(string \<times> finsh_shell) option \<Rightarrow> 'x finsh_scheme \<Rightarrow> 'x finsh_scheme option" where
  "apply_key r s = map_option (\<lambda>(out, sh). put_text out (s\<lparr>shell := sh\<rparr>)) r"

text \<open>The tab key, with \<^verbatim>\<open>shell_auto_complete\<close>.\<close>

definition tab_key :: "'x finsh_scheme \<Rightarrow> 'x finsh_scheme option" where
  "tab_key s = do {
     let s1 = put_text (replicate (unat (line_curpos (shell s))) BS @ [NL]) s;
     (buf, s2) \<leftarrow> msh_auto_complete 0 (shell_line (shell s)) s1;
     text \<leftarrow> c_string 0 buf;
     Some (put_text (finsh_get_prompt s2 @ text) (s2\<lparr>shell := (shell s2)\<lparr>shell_line := buf,
       line_position := of_nat (length text), line_curpos := of_nat (length text)\<rparr>\<rparr>)) }"

definition clear_line :: "finsh_shell \<Rightarrow> finsh_shell" where
  "clear_line sh = sh\<lparr>shell_line := replicate (FINSH_CMD_SIZE + 1) NUL, line_position := 0, line_curpos := 0\<rparr>"

definition enter_key :: "'x finsh_scheme finsh_code \<Rightarrow> 'x finsh_scheme \<Rightarrow> 'x finsh_scheme option" where
  "enter_key code s = do {
     sh \<leftarrow> shell_push_history (shell s);
     let s1 = put_text (if echo_mode sh = 1 then [NL] else []) (s\<lparr>shell := sh\<rparr>);
     (_, s2) \<leftarrow> msh_exec code 0 (unat (line_position sh)) (shell_line sh) s1;
     let s3 = put_text (finsh_get_prompt s2) s2;
     Some (s3\<lparr>shell := clear_line (shell s3)\<rparr>) }"

text \<open>A character outside a key sequence.\<close>

definition plain_char :: "'x finsh_scheme finsh_code \<Rightarrow> char \<Rightarrow> 'x finsh_scheme \<Rightarrow> 'x finsh_scheme option" where
  "plain_char code ch s =
    (if ch = NUL \<or> ch = CHR 0xFF then Some s
     else if ch = CHR 0x09 then tab_key s
     else if ch = CHR 0x7F \<or> ch = BS then apply_key (backspace_key (shell s)) s
     else if ch = CHR 0x0D \<or> ch = NL then enter_key code s
     else apply_key (normal_key ch (shell s)) s)"

definition set_input :: "input_stat \<Rightarrow> 'x finsh_scheme \<Rightarrow> 'x finsh_scheme" where
  "set_input st s = s\<lparr>shell := (shell s)\<lparr>input_stat := st\<rparr>\<rparr>"

text \<open>One round of the loop of \<^verbatim>\<open>finsh_thread_entry\<close>.\<close>

definition finsh_char :: "'x finsh_scheme finsh_code \<Rightarrow> char \<Rightarrow> 'x finsh_scheme \<Rightarrow> 'x finsh_scheme option" where
  "finsh_char code ch s =
    (if ch = CHR 0x1B then Some (set_input WAIT_SPEC_KEY s)
     else (case input_stat (shell s) of
       WAIT_SPEC_KEY \<Rightarrow>
         if ch = CHR 0x5B then Some (set_input WAIT_FUNC_KEY s) else plain_char code ch (set_input WAIT_NORMAL s)
     | WAIT_FUNC_KEY \<Rightarrow>
         (let s1 = set_input WAIT_NORMAL s; prompt = finsh_get_prompt s in
          if ch = CHR 0x41 then apply_key (up_key prompt (shell s1)) s1
          else if ch = CHR 0x42 then apply_key (down_key prompt (shell s1)) s1
          else if ch = CHR 0x44 then apply_key (Some (left_key (shell s1))) s1
          else if ch = CHR 0x43 then apply_key (right_key (shell s1)) s1
          else plain_char code ch s1)
     | WAIT_NORMAL \<Rightarrow> plain_char code ch s))"

fun finsh_input :: "'x finsh_scheme finsh_code \<Rightarrow> string \<Rightarrow> 'x finsh_scheme \<Rightarrow> 'x finsh_scheme option" where
  "finsh_input code [] s = Some s"
| "finsh_input code (ch # chs) s = do { s1 \<leftarrow> finsh_char code ch s; finsh_input code chs s1 }"

section \<open>The device of the shell\<close>

definition finsh_rx_ind :: "'x finsh_scheme finsh_code \<Rightarrow> 'x finsh_scheme \<Rightarrow> (rt_err \<times> 'x finsh_scheme) option" where
  "finsh_rx_ind code s = do {
     a \<leftarrow> shell_at s;
     (_, s1) \<leftarrow> rt_sem_release (sched_of code) a s;
     Some (RT_EOK, s1) }"

text \<open>
  One round of the loop in \<^verbatim>\<open>finsh_getchar\<close>: the character, or a wait for the semaphore. The byte is
  read to the address \<open>buf\<close>.
\<close>

definition finsh_getchar_round :: "'x finsh_scheme finsh_code \<Rightarrow> nat \<Rightarrow> 'x finsh_scheme \<Rightarrow>
    (u8 option \<times> 'x finsh_scheme) option" where
  "finsh_getchar_round code buf s = do {
     a \<leftarrow> shell_at s;
     dev \<leftarrow> shell_device (shell s);
     (n, s1) \<leftarrow> rt_device_read (dev_of code) dev (- 1) buf 1 (s\<lparr>data_bytes := (data_bytes s)(buf := 0)\<rparr>);
     if n = 1 then Some (Some (data_bytes s1 buf), s1)
     else do { (_, s2) \<leftarrow> rt_sem_take (sched_of code) a (- 1) s1; Some (None, s2) } }"

abbreviation FINSH_OFLAGS :: u16 where "FINSH_OFLAGS \<equiv> 0x143"

definition finsh_set_device :: "'x finsh_scheme finsh_code \<Rightarrow> string \<Rightarrow> 'x finsh_scheme \<Rightarrow> 'x finsh_scheme option" where
  "finsh_set_device code name s = do {
     RT_ASSERT (shell_at s \<noteq> None);
     found \<leftarrow> rt_device_find (Some name) s;
     (case found of
        None \<Rightarrow> Some (put_text (''finsh: can not find device: '' @ name @ [NL]) s)
      | Some dev \<Rightarrow>
          if shell_device (shell s) = Some dev then Some s
          else do {
            (r, s1) \<leftarrow> rt_device_open (dev_of code) dev FINSH_OFLAGS s;
            if r \<noteq> RT_EOK then Some s1
            else do {
              s2 \<leftarrow> (case shell_device (shell s1) of
                  None \<Rightarrow> Some s1
                | Some old \<Rightarrow> do {
                    (_, s3) \<leftarrow> rt_device_close (dev_of code) old s1;
                    (_, s4) \<leftarrow> rt_device_set_rx_indicate old None s3;
                    Some s4 });
              let s5 = s2\<lparr>shell := (clear_line (shell s2))\<lparr>shell_device := Some dev\<rparr>\<rparr>;
              (_, s6) \<leftarrow> rt_device_set_rx_indicate dev (Some (rx_ind_fptr code)) s5;
              Some s6 } }) }"

definition finsh_get_device :: "'x finsh_scheme \<Rightarrow> string option" where
  "finsh_get_device s = do {
     RT_ASSERT (shell_at s \<noteq> None);
     dev \<leftarrow> shell_device (shell s);
     map_option ob_name (objects s dev) }"

text \<open>What the thread does before its loop; \<open>console\<close> is the name of the console device, if there is one.\<close>

definition finsh_thread_begin :: "'x finsh_scheme finsh_code \<Rightarrow> string option \<Rightarrow> 'x finsh_scheme \<Rightarrow> 'x finsh_scheme option" where
  "finsh_thread_begin code console s = do {
     let s1 = s\<lparr>shell := (shell s)\<lparr>echo_mode := 1\<rparr>\<rparr>;
     s2 \<leftarrow> (case (shell_device (shell s1), console) of
         (None, Some name) \<Rightarrow> finsh_set_device code name s1
       | _ \<Rightarrow> Some s1);
     Some (put_text (finsh_get_prompt s2) s2) }"

definition shell_zero :: finsh_shell where
  "shell_zero = \<lparr>input_stat = WAIT_NORMAL, echo_mode = 0, prompt_mode = 0, current_history = 0, history_count = 0,
     cmd_history = replicate FINSH_HISTORY_LINES (replicate FINSH_CMD_SIZE NUL),
     shell_line = replicate (FINSH_CMD_SIZE + 1) NUL, line_position = 0, line_curpos = 0, shell_device = None\<rparr>"

text \<open>
  \<open>mem\<close> is the memory of the shell, \<open>tmem\<close> and \<open>stack\<close> that of its thread; \<open>tab\<close> is what the linker
  puts between the ends of the table of commands.
\<close>

definition finsh_system_init :: "'x finsh_scheme finsh_code \<Rightarrow> finsh_syscall list \<Rightarrow> nat option \<Rightarrow> nat option \<Rightarrow> nat option \<Rightarrow>
    'x finsh_scheme \<Rightarrow> (int \<times> 'x finsh_scheme) option" where
  "finsh_system_init code tab mem tmem stack s =
    (let s0 = finsh_system_function_init tab s in
     (case mem of
        None \<Rightarrow> Some (- 1, put_text (''no memory for shell'' @ [NL]) (s0\<lparr>shell_at := None\<rparr>))
      | Some a \<Rightarrow> do {
          (tid, s1) \<leftarrow> rt_thread_create (sched_of code) tmem stack ''tshell'' (thread_entry_fptr code) 0 4096 20 10
             (s0\<lparr>shell_at := Some a, shell := shell_zero\<rparr>);
          (_, s2) \<leftarrow> rt_sem_init (sched_of code) a ''shrx'' 0 0 s1;
          s3 \<leftarrow> finsh_set_prompt_mode 1 s2;
          (case tid of
             None \<Rightarrow> Some (0, s3)
           | Some t \<Rightarrow> map_option (\<lambda>(_, s4). (0, s4)) (rt_thread_startup (sched_of code) t s3)) }))"

end
