(* ===== verification/Shell_Words.thy ===== *)
theory Shell_Words
  imports Shell
begin

text \<open>
  The words of a line: what \<^verbatim>\<open>msh_split\<close> does with pointers and zeros in the buffer, against a
  definition on lists, and the search for a command by its name.
\<close>

section \<open>The specification\<close>

text \<open>A string ends at the next quotation mark that no backslash precedes; the backslash stays.\<close>

fun quoted :: "string \<Rightarrow> string \<times> string" where
  "quoted [] = ([], [])"
| "quoted (c # cs) =
    (if c = CHR 0x22 then ([], c # cs)
     else if c = CHR 0x5C \<and> cs \<noteq> [] \<and> hd cs = CHR 0x22
     then apfst (\<lambda>w. c # CHR 0x22 # w) (quoted (tl cs))
     else apfst (Cons c) (quoted cs))"

lemma quoted_append: "fst (quoted cs) @ snd (quoted cs) = cs"
  by (induction cs rule: quoted.induct) (auto simp: apfst_def map_prod_def split: prod.splits, (metis list.collapse)+)

lemma quoted_length: "length (fst (quoted cs)) + length (snd (quoted cs)) = length cs"
  by (metis length_append quoted_append)

lemma quoted_stop: "snd (quoted cs) \<noteq> [] \<Longrightarrow> hd (snd (quoted cs)) = CHR 0x22"
  by (induction cs rule: quoted.induct) auto

function tokens :: "string \<Rightarrow> string list" where
  "tokens cs = (case dropWhile is_blank cs of
     [] \<Rightarrow> []
   | c # rest \<Rightarrow>
       if c = CHR 0x22 then fst (quoted rest) # tokens (tl (snd (quoted rest)))
       else takeWhile (Not \<circ> is_blank) (c # rest) # tokens (dropWhile (Not \<circ> is_blank) (c # rest)))"
  by pat_completeness auto
termination
proof (relation "measure length", goal_cases)
  case (2 cs c rest)
  then show ?case using quoted_length [of rest] length_dropWhile_le [of is_blank cs] by simp
next
  case (3 cs c rest)
  have "\<not> is_blank c" using 3(1) by (metis hd_dropWhile list.distinct(1) list.sel(1))
  then have "length (dropWhile (Not \<circ> is_blank) (c # rest)) \<le> length rest" by (simp add: length_dropWhile_le)
  also have "\<dots> < length cs" using 3(1) length_dropWhile_le [of is_blank cs] by simp
  finally show ?case by simp
qed simp

declare tokens.simps [simp del]

section \<open>Buffers\<close>

lemma char_at_append [simp]: "char_at (length dn) (dn @ c # rest) = Some c"
  by (simp add: char_at_def)

lemma char_at_append2: "i = length dn \<Longrightarrow> char_at i (dn @ c # rest) = Some c"
  by simp

lemma char_at_next: "char_at (Suc (length dn)) (dn @ c # d # rest) = Some d"
  by (simp add: char_at_def nth_append)

text \<open>What the loops find between a part that is done and the character behind the line.\<close>

lemma strip_blanks_eq:
  "strip_blanks (length dn) (length dn + length rest) (dn @ rest @ z # post) =
    Some (length dn + length (takeWhile is_blank rest),
      dn @ replicate (length (takeWhile is_blank rest)) NUL @ dropWhile is_blank rest @ z # post)"
proof (induction rest arbitrary: dn)
  case Nil
  show ?case by (subst strip_blanks.simps) simp
next
  case (Cons c rest)
  show ?case
  proof (cases "is_blank c")
    case True
    have "strip_blanks (length dn) (length dn + length (c # rest)) (dn @ (c # rest) @ z # post) =
        strip_blanks (length (dn @ [NUL])) (length (dn @ [NUL]) + length rest) ((dn @ [NUL]) @ rest @ z # post)"
      using True by (subst strip_blanks.simps) (simp add: list_update_append)
    with Cons [of "dn @ [NUL]"] True show ?thesis by simp
  next
    case False
    then show ?thesis by (subst strip_blanks.simps) simp
  qed
qed

lemma skip_word_eq:
  "skip_word (length dn) (length dn + length rest) (dn @ rest @ z # post) =
    Some (length dn + length (takeWhile (Not \<circ> is_blank) rest))"
proof (induction rest arbitrary: dn)
  case Nil
  show ?case by (subst skip_word.simps) simp
next
  case (Cons c rest)
  show ?case
  proof (cases "is_blank c")
    case True
    then show ?thesis by (subst skip_word.simps) simp
  next
    case False
    have "skip_word (length dn) (length dn + length (c # rest)) (dn @ (c # rest) @ z # post) =
        skip_word (length (dn @ [c])) (length (dn @ [c]) + length rest) ((dn @ [c]) @ rest @ z # post)"
      using False by (subst skip_word.simps) simp
    with Cons [of "dn @ [c]"] False show ?thesis by simp
  qed
qed

lemma skip_string_eq:
  assumes "z \<noteq> CHR 0x22"
  shows "skip_string (length dn) (length dn + length rest) (dn @ rest @ z # post) =
    Some (length dn + length (fst (quoted rest)))"
proof (induction rest arbitrary: dn rule: quoted.induct)
  case 1
  show ?case by (subst skip_string.simps) simp
next
  case (2 c cs)
  let ?run = "skip_string (length dn) (length dn + length (c # cs)) (dn @ (c # cs) @ z # post)"
  have behind: "char_at (Suc (length dn)) (dn @ c # cs @ z # post) = Some (hd (cs @ [z]))"
    by (cases cs) (simp_all add: char_at_next)
  consider "c = CHR 0x22" | "c = CHR 0x5C \<and> cs \<noteq> [] \<and> hd cs = CHR 0x22"
    | "c \<noteq> CHR 0x22" "\<not> (c = CHR 0x5C \<and> cs \<noteq> [] \<and> hd cs = CHR 0x22)" by blast
  then show ?case
  proof cases
    case 1
    then show ?thesis by (subst skip_string.simps) simp
  next
    case 2
    then obtain cs' where cs: "cs = CHR 0x22 # cs'" by (cases cs) auto
    with 2 behind have "?run = skip_string (length (dn @ [c, CHR 0x22])) (length (dn @ [c, CHR 0x22]) + length cs')
        ((dn @ [c, CHR 0x22]) @ cs' @ z # post)"
      by (subst skip_string.simps) simp
    with "2.IH"(1) [of "dn @ [c, CHR 0x22]"] 2 cs show ?thesis by simp
  next
    case 3
    with behind assms have "?run = skip_string (length (dn @ [c])) (length (dn @ [c]) + length cs) ((dn @ [c]) @ cs @ z # post)"
      by (subst skip_string.simps) (cases cs; simp add: char_at_next)
    with "2.IH"(2) [of "dn @ [c]"] 3 show ?thesis by auto
  qed
qed

section \<open>Splitting\<close>

text \<open>The string that begins at an index, as far as the line goes.\<close>

definition string_from :: "nat \<Rightarrow> string \<Rightarrow> string" where
  "string_from i cs = takeWhile (\<lambda>c. c \<noteq> NUL) (drop i cs)"

text \<open>
  \<open>rest\<close> is split into the strings at \<open>args\<close>; a blank at its start has become a zero, which ends the
  word before it.
\<close>

definition split_into :: "nat \<Rightarrow> nat \<Rightarrow> string \<Rightarrow> nat list \<Rightarrow> string \<Rightarrow> bool" where
  "split_into m room rest args rest' \<longleftrightarrow> length rest' = length rest \<and>
     (\<forall>i \<in> set args. m \<le> i \<and> i \<le> m + length rest) \<and>
     map (\<lambda>i. string_from (i - m) rest') args = take room (tokens rest) \<and>
     (rest \<noteq> [] \<and> is_blank (hd rest) \<longrightarrow> hd rest' = NUL)"

lemma string_from_behind:
  assumes "n + length xs \<le> i"
  shows "string_from (i - n) (xs @ cs) = string_from (i - (n + length xs)) cs"
  using assms by (simp add: string_from_def)

lemma takeWhile_word: "NUL \<notin> set w \<Longrightarrow> takeWhile (\<lambda>c. c \<noteq> NUL) (w @ NUL # t) = w"
  by (induction w) auto

lemma string_from_all: "NUL \<notin> set cs \<Longrightarrow> string_from 0 cs = cs"
  by (auto simp: string_from_def takeWhile_eq_all_conv)

text \<open>One more word in front of a part that is split.\<close>

lemma split_into_Cons:
  assumes "split_into (m + length fore) room after args after'" and "tokens rest = w # tokens after"
    and "m \<le> i" "i \<le> m + length fore" and "string_from (i - m) (fore @ after') = w"
    and "length rest = length fore + length after" and "rest \<noteq> [] \<and> is_blank (hd rest) \<longrightarrow> fore \<noteq> [] \<and> hd fore = NUL"
  shows "split_into m (Suc room) rest (i # args) (fore @ after')"
proof -
  have S: "length after' = length after" "\<forall>i \<in> set args. m + length fore \<le> i \<and> i \<le> m + length fore + length after"
      "map (\<lambda>i. string_from (i - (m + length fore)) after') args = take room (tokens after)"
    using assms(1) by (simp_all add: split_into_def)
  have "map (\<lambda>j. string_from (j - m) (fore @ after')) args = map (\<lambda>j. string_from (j - (m + length fore)) after') args"
    using S(2) by (intro map_cong refl string_from_behind) simp
  then have "map (\<lambda>j. string_from (j - m) (fore @ after')) (i # args) = take (Suc room) (tokens rest)"
    using S(3) assms(2,5) by simp
  moreover have "\<forall>j \<in> set (i # args). m \<le> j \<and> j \<le> m + length rest"
    using S(2) assms(3,4,6) by fastforce
  moreover have "rest \<noteq> [] \<and> is_blank (hd rest) \<longrightarrow> hd (fore @ after') = NUL" using assms(7) by simp
  ultimately show ?thesis using S(1) assms(6) unfolding split_into_def by simp
qed

lemma tokens_blank: "dropWhile is_blank cs = [] \<Longrightarrow> tokens cs = []"
  by (subst tokens.simps) (simp only: list.case)

lemma tokens_quoted: "dropWhile is_blank cs = CHR 0x22 # r \<Longrightarrow> tokens cs = fst (quoted r) # tokens (tl (snd (quoted r)))"
  by (subst tokens.simps) simp

lemma tokens_word:
  "dropWhile is_blank cs = c # r \<Longrightarrow> c \<noteq> CHR 0x22 \<Longrightarrow>
    tokens cs = takeWhile (Not \<circ> is_blank) (c # r) # tokens (dropWhile (Not \<circ> is_blank) (c # r))"
  by (subst tokens.simps) simp

definition splits :: "string \<Rightarrow> string \<Rightarrow> nat list \<Rightarrow> char \<Rightarrow> string \<Rightarrow> bool" where
  "splits dn rest argv z post \<longleftrightarrow> (\<exists>args rest' many.
     split_loop (length dn) (length dn + length rest) argv (dn @ rest @ z # post) = Some (argv @ args, dn @ rest' @ z # post, many) \<and>
     split_into (length dn) (FINSH_ARG_MAX - length argv) rest args rest' \<and> (many \<longrightarrow> FINSH_ARG_MAX \<le> length (argv @ args)))"

text \<open>The loop goes on behind one more word, or has read the last.\<close>

lemma splits_more:
  assumes step: "split_loop (length dn) (length dn + length rest) argv (dn @ rest @ z # post) =
      split_loop (length (dn @ fore)) (length (dn @ fore) + length after) (argv @ [i]) ((dn @ fore) @ after @ z # post)"
    and ih: "splits (dn @ fore) after (argv @ [i]) z post" and room: "length argv < FINSH_ARG_MAX"
    and str: "\<And>args after'. split_into (length (dn @ fore)) (FINSH_ARG_MAX - length (argv @ [i])) after args after' \<Longrightarrow>
      string_from (i - length dn) (fore @ after') = w"
    and cons: "tokens rest = w # tokens after" "length dn \<le> i" "i \<le> length dn + length fore"
      "length rest = length fore + length after" "rest \<noteq> [] \<and> is_blank (hd rest) \<longrightarrow> fore \<noteq> [] \<and> hd fore = NUL"
  shows "splits dn rest argv z post"
proof -
  from ih obtain args after' many where i:
    "split_loop (length (dn @ fore)) (length (dn @ fore) + length after) (argv @ [i]) ((dn @ fore) @ after @ z # post) =
      Some ((argv @ [i]) @ args, (dn @ fore) @ after' @ z # post, many)"
    "split_into (length (dn @ fore)) (FINSH_ARG_MAX - length (argv @ [i])) after args after'"
    "many \<longrightarrow> FINSH_ARG_MAX \<le> length ((argv @ [i]) @ args)"
    unfolding splits_def by blast
  have "split_into (length dn) (Suc (FINSH_ARG_MAX - length (argv @ [i]))) rest (i # args) (fore @ after')"
    using split_into_Cons [OF _ cons(1-3) str [OF i(2)] cons(4,5)] i(2) by simp
  moreover have "Suc (FINSH_ARG_MAX - length (argv @ [i])) = FINSH_ARG_MAX - length argv" using room by simp
  ultimately show ?thesis
    using step i(1,3) unfolding splits_def
    by (intro exI [of _ "i # args"] exI [of _ "fore @ after'"] exI [of _ many]) simp
qed

lemma splits_last:
  assumes "split_loop (length dn) (length dn + length rest) argv (dn @ rest @ z # post) =
      Some (argv @ [i], dn @ rest' @ z # post, False)"
    and "length argv < FINSH_ARG_MAX" "tokens rest = [w]" "string_from (i - length dn) rest' = w"
    and "length rest' = length rest" "length dn \<le> i" "i \<le> length dn + length rest"
    and "rest \<noteq> [] \<and> is_blank (hd rest) \<longrightarrow> hd rest' = NUL"
  shows "splits dn rest argv z post"
  using assms unfolding splits_def split_into_def
  by (intro exI [of _ "[i]"] exI [of _ rest'] exI [of _ False]) (simp add: take_Cons' Suc_diff_le)

text \<open>The first word of what is left, after its blanks: a string or a plain word.\<close>

lemma splits_quoted:
  assumes z: "z \<noteq> CHR 0x22" and no: "NUL \<notin> set r" and room: "length argv < FINSH_ARG_MAX"
    and rest: "rest = bl @ CHR 0x22 # r" and bl: "bl = takeWhile is_blank rest"
    and ih: "\<And>dn argv after. length after < length rest \<Longrightarrow> NUL \<notin> set after \<Longrightarrow> splits dn after argv z post"
  shows "splits dn rest argv z post"
proof -
  define zs where "zs = replicate (length bl) NUL"
  define w where "w = fst (quoted r)"
  let ?dn = "dn @ zs" and ?c = "CHR 0x22"
  have drop: "dropWhile is_blank rest = ?c # r" using rest bl by (metis append_same_eq same_append_eq takeWhile_dropWhile_id)
  have strip: "strip_blanks (length dn) (length dn + length rest) (dn @ rest @ z # post) = Some (length ?dn, ?dn @ ?c # r @ z # post)"
    using drop bl by (simp add: strip_blanks_eq zs_def)
  have len: "length rest = Suc (length zs + length r)" unfolding zs_def using rest by (metis add_Suc_right length_Cons length_append length_replicate)
  then have e: "length dn + length rest = Suc (length ?dn + length r)" by simp
  have head: "rest \<noteq> [] \<and> is_blank (hd rest) \<longrightarrow> zs \<noteq> [] \<and> hd zs = NUL"
    using bl by (cases rest) (auto simp: zs_def)
  have skip: "skip_string (Suc (length ?dn)) (length dn + length rest) (?dn @ ?c # r @ z # post) = Some (Suc (length ?dn) + length w)"
    using skip_string_eq [OF z, of "?dn @ [?c]" r post] by (simp add: e w_def)
  have tok: "tokens rest = w # tokens (tl (snd (quoted r)))" using tokens_quoted drop by (simp add: w_def)
  have at: "char_at (length ?dn) (?dn @ ?c # r @ z # post) = Some ?c" by (rule char_at_append)
  note run = split_loop.simps [of "length dn" "length dn + length rest" argv "dn @ rest @ z # post", unfolded strip]
  show ?thesis
  proof (cases "snd (quoted r)")
    case Nil
    then have w: "w = r" using quoted_append [of r] by (simp add: w_def)
    have last: "split_loop (length dn) (length dn + length rest) argv (dn @ rest @ z # post) =
        Some (argv @ [Suc (length ?dn)], dn @ (zs @ ?c # r) @ z # post, False)"
      using run at skip room e w by (simp add: add.assoc)
    have "string_from (Suc (length ?dn) - length dn) (zs @ ?c # r) = w"
      using no w by (simp add: string_from_def takeWhile_eq_all_conv) metis
    from splits_last [OF last room _ this] show ?thesis
      using tok Nil len head by (simp add: tokens_blank hd_append)
  next
    case (Cons q after)
    then have r: "r = w @ ?c # after" using quoted_stop [of r] quoted_append [of r] by (simp add: w_def)
    define fore where "fore = zs @ ?c # w @ [NUL]"
    have step: "split_loop (length dn) (length dn + length rest) argv (dn @ rest @ z # post) =
        split_loop (length (dn @ fore)) (length (dn @ fore) + length after) (argv @ [Suc (length ?dn)]) ((dn @ fore) @ after @ z # post)"
      using run at skip room e r by (simp add: add.assoc fore_def list_update_append)
    have no_w: "NUL \<notin> set w" "NUL \<notin> set after" using no r by auto
    have str: "string_from (Suc (length ?dn) - length dn) (fore @ after') = w" for after'
      using no_w(1) by (simp add: fore_def string_from_def takeWhile_word)
    have "splits (dn @ fore) after (argv @ [Suc (length ?dn)]) z post" using ih no_w(2) len r by simp
    from splits_more [OF step this room str] show ?thesis
      using tok Cons len head r by (simp add: fore_def hd_append)
  qed
qed

lemma splits_plain:
  assumes no: "NUL \<notin> set rest" and room: "length argv < FINSH_ARG_MAX" and c: "c \<noteq> CHR 0x22"
    and drop: "dropWhile is_blank rest = c # r"
    and ih: "\<And>dn argv after. length after < length rest \<Longrightarrow> NUL \<notin> set after \<Longrightarrow> splits dn after argv z post"
  shows "splits dn rest argv z post"
proof -
  define bl where "bl = takeWhile is_blank rest"
  define w where "w = takeWhile (Not \<circ> is_blank) (c # r)"
  define after where "after = dropWhile (Not \<circ> is_blank) (c # r)"
  define zs where "zs = replicate (length bl) NUL"
  let ?dn = "dn @ zs"
  have "\<not> is_blank c" using drop by (metis hd_dropWhile list.distinct(1) list.sel(1))
  then have w: "w \<noteq> []" "c # r = w @ after" by (auto simp: w_def after_def)
  have rest: "rest = bl @ w @ after" using drop w(2) by (metis bl_def takeWhile_dropWhile_id)
  have strip: "strip_blanks (length dn) (length dn + length rest) (dn @ rest @ z # post) = Some (length ?dn, ?dn @ (w @ after) @ z # post)"
    using drop w(2) by (simp add: strip_blanks_eq zs_def bl_def)
  have len: "length rest = length zs + length w + length after" unfolding zs_def by (metis rest add.assoc length_append length_replicate)
  then have e: "length dn + length rest = length ?dn + length (w @ after)" by simp
  have head: "rest \<noteq> [] \<and> is_blank (hd rest) \<longrightarrow> zs \<noteq> [] \<and> hd zs = NUL"
    by (cases rest) (auto simp: zs_def bl_def)
  have skip: "skip_word (length ?dn) (length dn + length rest) (?dn @ (w @ after) @ z # post) = Some (length ?dn + length w)"
    using skip_word_eq [of ?dn "c # r" z post] by (simp only: e w(2) [symmetric] w_def [symmetric])
  have at: "char_at (length ?dn) (?dn @ (w @ after) @ z # post) = Some c"
    using char_at_append [of ?dn c "r @ z # post"] w(2) by (metis append_Cons append_assoc)
  have no_w: "NUL \<notin> set w" "NUL \<notin> set after" using no rest by auto
  have tok: "tokens rest = w # tokens after" using tokens_word [OF drop c] by (simp add: w_def after_def)
  note run = split_loop.simps [of "length dn" "length dn + length rest" argv "dn @ rest @ z # post", unfolded strip]
  show ?thesis
  proof (cases "after = []")
    case True
    have last: "split_loop (length dn) (length dn + length rest) argv (dn @ rest @ z # post) =
        Some (argv @ [length ?dn], dn @ (zs @ w) @ z # post, False)"
      using run at skip room e w c True by (simp add: add.assoc)
    have "string_from (length ?dn - length dn) (zs @ w) = w"
      using no_w(1) by (simp add: string_from_def takeWhile_eq_all_conv) metis
    from splits_last [OF last room _ this] show ?thesis
      using tok True len head by (simp add: tokens_blank hd_append)
  next
    case False
    define fore where "fore = zs @ w"
    have step: "split_loop (length dn) (length dn + length rest) argv (dn @ rest @ z # post) =
        split_loop (length (dn @ fore)) (length (dn @ fore) + length after) (argv @ [length ?dn]) ((dn @ fore) @ after @ z # post)"
      using run at skip room e w c False by (simp add: add.assoc fore_def)
    have str: "string_from (length ?dn - length dn) (fore @ after') = w" if "split_into m n after args after'" for m n args after'
    proof -
      have "after' \<noteq> []" "hd after' = NUL"
        using that False hd_dropWhile [of "Not \<circ> is_blank" "c # r"] by (auto simp: split_into_def after_def)
      then obtain t where "after' = NUL # t" by (cases after') auto
      then show ?thesis using no_w(1) by (simp add: fore_def string_from_def takeWhile_word)
    qed
    have "splits (dn @ fore) after (argv @ [length ?dn]) z post" using ih len w(1) no_w(2) by simp
    from splits_more [OF step this room str] show ?thesis
      using tok len head by (simp add: fore_def hd_append)
  qed
qed

lemma split_loop_eq:
  assumes "NUL \<notin> set rest" and z: "z \<noteq> CHR 0x22"
  shows "splits dn rest argv z post"
  using assms(1)
proof (induction "length rest" arbitrary: rest dn argv rule: less_induct)
  case less
  define zs where "zs = replicate (length (takeWhile is_blank rest)) NUL"
  define rest2 where "rest2 = dropWhile is_blank rest"
  have rest: "rest = takeWhile is_blank rest @ rest2" by (simp add: rest2_def)
  have len: "length rest = length zs + length rest2" by (metis rest length_append length_replicate zs_def)
  show ?case
  proof (cases "rest = [] \<or> FINSH_ARG_MAX \<le> length argv \<or> rest2 = []")
    case True
    have "rest2 = [] \<Longrightarrow> tokens rest = []" using tokens_blank by (simp only: rest2_def)
    moreover have "rest \<noteq> [] \<and> is_blank (hd rest) \<longrightarrow> hd (zs @ rest2) = NUL"
      by (cases rest) (auto simp: zs_def)
    ultimately have "split_into (length dn) (FINSH_ARG_MAX - length argv) rest [] (zs @ rest2)"
      using True len tokens_blank [of rest] by (auto simp: split_into_def)
    moreover have "strip_blanks (length dn) (length dn + length rest) (dn @ rest @ z # post) =
        Some (length (dn @ zs), dn @ (zs @ rest2) @ z # post)"
      by (simp add: strip_blanks_eq zs_def rest2_def)
    then have "\<exists>many. split_loop (length dn) (length dn + length rest) argv (dn @ rest @ z # post) =
        Some (argv, dn @ (zs @ rest2) @ z # post, many) \<and> (many \<longrightarrow> FINSH_ARG_MAX \<le> length argv)"
      using True len split_loop.simps [of "length dn" "length dn + length rest" argv "dn @ rest @ z # post"]
      by (cases "rest = []") auto
    ultimately show ?thesis unfolding splits_def by (intro exI [of _ "[]"] exI [of _ "zs @ rest2"]) auto
  next
    case False
    then obtain c r where cr: "rest2 = c # r" by (cases rest2) auto
    then have "NUL \<notin> set r" using less.prems rest by (metis UnCI list.set_intros(2) set_append)
    with cr False less rest show ?thesis
      using splits_quoted [OF z, of r argv rest "takeWhile is_blank rest" post dn] splits_plain [of rest argv c r z post dn]
      by (cases "c = CHR 0x22") (simp_all add: rest2_def)
  qed
qed

section \<open>Strings of the result\<close>

lemma takeWhile_NUL: "takeWhile (\<lambda>c. c \<noteq> NUL) (cs @ NUL # post) = takeWhile (\<lambda>c. c \<noteq> NUL) cs"
  by (induction cs) auto

lemma c_string_eq: "j \<le> length cs \<Longrightarrow> c_string (length dn + j) (dn @ cs @ NUL # post) = Some (string_from j cs)"
  by (simp add: c_string_def string_from_def takeWhile_NUL)

lemma msh_split_eq:
  assumes "NUL \<notin> set cmd"
  shows "\<exists>args buf many. msh_split (length pre) (length cmd) (pre @ cmd @ NUL # post) = Some (args, buf, many) \<and>
    map (\<lambda>i. c_string i buf) args = map Some (take FINSH_ARG_MAX (tokens cmd)) \<and>
    (many \<longrightarrow> FINSH_ARG_MAX \<le> length (tokens cmd))"
proof -
  have "splits pre cmd [] NUL post" by (rule split_loop_eq [OF assms]) simp
  then obtain args rest' many where s:
    "split_loop (length pre) (length pre + length cmd) [] (pre @ cmd @ NUL # post) = Some (args, pre @ rest' @ NUL # post, many)"
    "split_into (length pre) FINSH_ARG_MAX cmd args rest'" "many \<longrightarrow> FINSH_ARG_MAX \<le> length args"
    unfolding splits_def by auto
  have "c_string i (pre @ rest' @ NUL # post) = Some (string_from (i - length pre) rest')" if "i \<in> set args" for i
    using s(2) that c_string_eq [of "i - length pre" rest' pre post] by (fastforce simp: split_into_def)
  then have "map (\<lambda>i. c_string i (pre @ rest' @ NUL # post)) args = map Some (map (\<lambda>i. string_from (i - length pre) rest') args)"
    by simp
  also have "\<dots> = map Some (take FINSH_ARG_MAX (tokens cmd))" using s(2) by (simp only: split_into_def)
  finally have m: "map (\<lambda>i. c_string i (pre @ rest' @ NUL # post)) args = map Some (take FINSH_ARG_MAX (tokens cmd))" .
  then have "length args = length (take FINSH_ARG_MAX (tokens cmd))" by (metis length_map)
  with s m show ?thesis by (simp add: msh_split_def)
qed

lemma those_Some: "those (map f xs) = Some ys \<longleftrightarrow> map f xs = map Some ys"
  by (induction xs arbitrary: ys) (auto split: option.splits simp: Cons_eq_map_conv)

section \<open>Finding a command\<close>

definition plain_names :: "finsh_syscall list \<Rightarrow> bool" where
  "plain_names tab \<longleftrightarrow> (\<forall>c \<in> set tab. NUL \<notin> set (sc_name c))"

lemma same_start_word:
  "NUL \<notin> set a \<Longrightarrow> NUL \<notin> set w \<Longrightarrow> same_start (length w) a (w @ rest) \<longleftrightarrow> take (length w) a = w"
proof (induction w arbitrary: a)
  case (Cons d w)
  then show ?case by (cases a) auto
qed simp

lemma msh_get_cmd_eq:
  assumes "plain_names tab" and w: "NUL \<notin> set w"
  shows "msh_get_cmd (w @ rest) (length w) tab = Some (map_option sc_func (find (\<lambda>c. sc_name c = w) tab))"
  using assms(1)
proof (induction tab)
  case (Cons c tab)
  then have no: "NUL \<notin> set (sc_name c)" and ih: "msh_get_cmd (w @ rest) (length w) tab = Some (map_option sc_func (find (\<lambda>c. sc_name c = w) tab))"
    by (simp_all add: plain_names_def)
  show ?case
  proof (cases "take (length w) (sc_name c) = w")
    case True
    then obtain t where t: "sc_name c = w @ t" by (metis append_take_drop_id)
    have "char_at (length w) (sc_name c @ [NUL]) = Some (hd (t @ [NUL]))" by (cases t) (simp_all add: t char_at_def nth_append)
    moreover have "hd (t @ [NUL]) = NUL \<longleftrightarrow> t = []" using no by (cases t) (auto simp: t)
    ultimately show ?thesis using same_start_word [OF no w] True ih t by simp
  next
    case False
    then show ?thesis using same_start_word [OF no w] ih by auto
  qed
qed simp

section \<open>Running a line\<close>

text \<open>What a line means: nothing, a command with its words, or no command.\<close>

definition run_line :: "'x finsh_scheme finsh_code \<Rightarrow> string \<Rightarrow> 'x finsh_scheme \<Rightarrow> 'x finsh_scheme" where
  "run_line code cmd s = (let body = dropWhile is_blank cmd in
     if body = [] then s
     else (case find (\<lambda>c. sc_name c = takeWhile (Not \<circ> is_blank) body) (syscall_table s) of
       None \<Rightarrow> put_text (takeWhile (\<lambda>c. c \<noteq> CHR '' '') body @ '': command not found.'' @ [NL]) s
     | Some c \<Rightarrow> snd (call_cmd code (sc_func c) (tokens cmd) s)))"

lemma tokens_dropWhile: "tokens (dropWhile is_blank cs) = tokens cs"
  by (subst (1 2) tokens.simps) (simp add: dropWhile_idem)

lemma trim_eq:
  "trim (length dn) (length cmd) (dn @ cmd @ NUL # post) =
    Some (length dn + length (takeWhile is_blank cmd), length (dropWhile is_blank cmd))"
proof (induction cmd arbitrary: dn)
  case (Cons c cmd)
  then show ?case using Cons [of "dn @ [c]"] by simp
qed simp

lemma first_part_eq:
  assumes "NUL \<notin> set cmd"
  shows "first_part (length dn) (dn @ cmd @ NUL # post) = Some (takeWhile (\<lambda>c. c \<noteq> CHR '' '') cmd)"
proof -
  have "takeWhile (\<lambda>c. c \<noteq> NUL \<and> c \<noteq> CHR '' '') (cmd @ NUL # post) = takeWhile (\<lambda>c. c \<noteq> CHR '' '') cmd"
    using assms by (induction cmd) auto
  then show ?thesis by (auto simp: first_part_def Let_def)
qed

lemma msh_exec_eq:
  assumes line: "NUL \<notin> set cmd" and names: "plain_names (syscall_table s)" and few: "length (tokens cmd) < FINSH_ARG_MAX"
  shows "\<exists>r. msh_exec code 0 (length cmd) (cmd @ NUL # post) s = Some (r, run_line code cmd s)"
proof -
  define pre where "pre = takeWhile is_blank cmd"
  define body where "body = dropWhile is_blank cmd"
  define w where "w = takeWhile (Not \<circ> is_blank) body"
  have buf: "cmd @ NUL # post = pre @ body @ NUL # post" by (simp add: pre_def body_def)
  have no: "NUL \<notin> set body" "NUL \<notin> set w"
    using line set_dropWhileD [of NUL is_blank cmd] set_takeWhileD [of NUL "Not \<circ> is_blank" body] by (auto simp: body_def w_def)
  have t: "trim 0 (length cmd) (cmd @ NUL # post) = Some (length pre, length body)"
    using trim_eq [of "[]" cmd post] by (simp add: pre_def body_def)
  show ?thesis
  proof (cases "body = []")
    case True
    with t show ?thesis by (simp add: msh_exec_def run_line_def body_def [symmetric])
  next
    case False
    then obtain c b where cb: "body = c # b" "\<not> is_blank c" by (metis body_def hd_dropWhile list.exhaust_sel)
    have skip: "skip_word (length pre) (length pre + length body) (pre @ body @ NUL # post) = Some (length pre + length w)"
      unfolding w_def by (rule skip_word_eq)
    have w0: "w \<noteq> []" using cb by (simp add: w_def)
    have found: "msh_get_cmd (body @ NUL # post) (length w) (syscall_table s) =
        Some (map_option sc_func (find (\<lambda>c. sc_name c = w) (syscall_table s)))"
      using msh_get_cmd_eq [OF names no(2), of "dropWhile (Not \<circ> is_blank) body @ NUL # post"] by (simp add: w_def flip: append_assoc)
    show ?thesis
    proof (cases "find (\<lambda>c. sc_name c = w) (syscall_table s)")
      case None
      then have "msh_exec_cmd code (length pre) (length body) (pre @ body @ NUL # post) s = Some (None, pre @ body @ NUL # post, s)"
        using skip w0 found by (simp add: msh_exec_cmd_def)
      then have "msh_exec code 0 (length cmd) (cmd @ NUL # post) s =
          Some (- 1, put_text (takeWhile (\<lambda>c. c \<noteq> CHR '' '') body @ '': command not found.'' @ [NL]) s)"
        using t buf False first_part_eq [OF no(1), of pre post] by (simp add: msh_exec_def)
      with None False show ?thesis by (simp add: run_line_def body_def [symmetric] w_def [symmetric])
    next
      case (Some f)
      have tok: "tokens body = tokens cmd" unfolding body_def by (rule tokens_dropWhile)
      have "tokens body \<noteq> []" using cb by (subst tokens.simps) simp
      moreover from msh_split_eq [OF no(1), of pre post] obtain args buf1 many where sp:
        "msh_split (length pre) (length body) (pre @ body @ NUL # post) = Some (args, buf1, many)"
        "map (\<lambda>i. c_string i buf1) args = map Some (tokens cmd)" "\<not> many"
        using few tok by auto
      moreover obtain ret s2 where c: "call_cmd code (sc_func f) (tokens cmd) s = (ret, s2)" by fastforce
      ultimately have "msh_exec_cmd code (length pre) (length body) (pre @ body @ NUL # post) s = Some (Some ret, buf1, s2)"
        using skip w0 found Some those_Some [of "\<lambda>i. c_string i buf1" args "tokens cmd"] tok by (simp add: msh_exec_cmd_def)
      then have "msh_exec code 0 (length cmd) (cmd @ NUL # post) s = Some (ret, s2)"
        using t buf False by (simp add: msh_exec_def)
      with Some False c show ?thesis by (simp add: run_line_def body_def [symmetric] w_def [symmetric])
    qed
  qed
qed

end
