(* ===== verification/Shell_Editor.thy ===== *)
theory Shell_Editor
  imports Shell_Words
begin

text \<open>
  The line editor and the history of the shell against a pair of strings, what is before and behind the
  cursor, and a list of lines.
\<close>

section \<open>Bytes\<close>

lemma put_bytes_eq: "length old = length cs \<Longrightarrow> put_bytes (length dn) cs (dn @ old @ rest) = Some (dn @ cs @ rest)"
  by (simp add: put_bytes_def)

lemma put_byte_eq: "put_bytes (length dn) [c] (dn @ d # rest) = Some (dn @ c # rest)"
  using put_bytes_eq [of "[d]" "[c]" dn rest] by simp

lemma get_bytes_eq: "get_bytes (length dn) (length cs) (dn @ cs @ rest) = Some cs"
  by (simp add: get_bytes_def)

lemma move_up_eq: "move_bytes (Suc (length dn)) (length dn) (length cs) (dn @ cs @ d # rest) = Some (dn @ hd (cs @ [d]) # cs @ rest)"
  by (cases cs) (simp_all add: move_bytes_def get_bytes_def put_bytes_def)

lemma move_down_eq: "move_bytes (length dn) (Suc (length dn)) (length cs) (dn @ d # cs @ rest) = Some (dn @ cs @ last (d # cs) # rest)"
  by (cases cs rule: rev_cases) (simp_all add: move_bytes_def get_bytes_def put_bytes_def)

lemma c_string_prefix: "NUL \<notin> set cs \<Longrightarrow> c_string (length dn) (dn @ cs @ NUL # rest) = Some cs"
  by (simp add: c_string_def takeWhile_word)

section \<open>The editor\<close>

datatype ed_key = Type char | Back | To_Left | To_Right

definition plain_key :: "char \<Rightarrow> bool" where
  "plain_key c \<longleftrightarrow> c \<notin> {NUL, CHR 0xFF, CHR 0x09, CHR 0x7F, BS, CHR 0x0D, NL, CHR 0x1B}"

fun key_bytes :: "ed_key \<Rightarrow> string" where
  "key_bytes (Type c) = [c]"
| "key_bytes Back = [BS]"
| "key_bytes To_Left = [CHR 0x1B, CHR 0x5B, CHR 0x44]"
| "key_bytes To_Right = [CHR 0x1B, CHR 0x5B, CHR 0x43]"

fun ed_step :: "ed_key \<Rightarrow> string \<times> string \<Rightarrow> string \<times> string" where
  "ed_step (Type c) (ls, rs) = (ls @ [c], rs)"
| "ed_step Back (ls, rs) = (butlast ls, rs)"
| "ed_step To_Left (ls, rs) = (if ls = [] then (ls, rs) else (butlast ls, last ls # rs))"
| "ed_step To_Right (ls, rs) = (case rs of [] \<Rightarrow> (ls, rs) | c # rs' \<Rightarrow> (ls @ [c], rs'))"

text \<open>The line as it is edited; a line of eighty characters has no meaning here.\<close>

fun ed_run :: "ed_key list \<Rightarrow> string \<times> string \<Rightarrow> (string \<times> string) option" where
  "ed_run [] st = Some st"
| "ed_run (k # ks) st = (let (ls, rs) = ed_step k st in
     if length ls + length rs < FINSH_CMD_SIZE then ed_run ks (ls, rs) else None)"

definition editing :: "string \<Rightarrow> string \<Rightarrow> finsh_shell \<Rightarrow> bool" where
  "editing ls rs sh \<longleftrightarrow> length ls + length rs < FINSH_CMD_SIZE \<and> NUL \<notin> set ls \<and> NUL \<notin> set rs \<and>
     shell_line sh = ls @ rs @ replicate (FINSH_CMD_SIZE + 1 - (length ls + length rs)) NUL \<and>
     unat (line_position sh) = length ls + length rs \<and> unat (line_curpos sh) = length ls"

text \<open>Two shells that differ in the line at most.\<close>

definition same_but_line :: "finsh_shell \<Rightarrow> finsh_shell \<Rightarrow> bool" where
  "same_but_line sh sh' \<longleftrightarrow> (\<exists>l p c. sh' = sh\<lparr>shell_line := l, line_position := p, line_curpos := c\<rparr>)"

lemma same_but_lineI [simp]:
  "same_but_line sh sh" "same_but_line sh (sh\<lparr>line_curpos := c\<rparr>)"
  "same_but_line sh (sh\<lparr>shell_line := l, line_position := p, line_curpos := c\<rparr>)"
  by (cases sh; force simp: same_but_line_def)+

lemma same_but_line_trans: "same_but_line a b \<Longrightarrow> same_but_line b c \<Longrightarrow> same_but_line a c"
  by (fastforce simp: same_but_line_def)

text \<open>Positions are small numbers.\<close>

lemma unat_pos_inc: "unat (p :: u16) = n \<Longrightarrow> n < 1000 \<Longrightarrow> unat (p + 1) = Suc n"
  by (simp add: unat_word_ariths)

lemma unat_pos_dec: "unat (p :: u16) = Suc n \<Longrightarrow> unat (p - 1) = n"
  by (metis diff_Suc_1 nat.distinct(1) unat_0 unat_minus_one)

lemma pos_large: "(80 :: u16) \<le> p \<longleftrightarrow> 80 \<le> unat p"
  by (simp add: word_le_nat_alt)

lemma normal_key_ok:
  assumes e: "editing ls rs sh" and c: "c \<noteq> NUL" and room: "Suc (length ls + length rs) < FINSH_CMD_SIZE"
  shows "\<exists>out sh'. normal_key c sh = Some (out, sh') \<and> editing (ls @ [c]) rs sh' \<and> same_but_line sh sh'"
proof -
  let ?n = "length ls + length rs"
  define z where "z = replicate (FINSH_CMD_SIZE - ?n) NUL"
  have "FINSH_CMD_SIZE + 1 - ?n = Suc (FINSH_CMD_SIZE - ?n)" "FINSH_CMD_SIZE - ?n = Suc (FINSH_CMD_SIZE - 1 - ?n)" using room by simp_all
  then have z: "replicate (FINSH_CMD_SIZE + 1 - ?n) NUL = NUL # z" "z = NUL # tl z" by (simp_all add: z_def)
  have line: "shell_line sh = ls @ rs @ NUL # z" and pos: "unat (line_position sh) = ?n" "unat (line_curpos sh) = length ls"
      and no: "NUL \<notin> set ls" "NUL \<notin> set rs"
    using e z(1) by (simp_all add: editing_def)
  have p: "\<not> (80 :: u16) \<le> line_position sh" "\<not> (80 :: u16) \<le> line_position sh + 1"
      "unat (line_position sh + 1) = Suc ?n" "unat (line_curpos sh + 1) = Suc (length ls)"
    using pos room unat_pos_inc [OF pos(1)] unat_pos_inc [OF pos(2)] by (simp_all add: pos_large)
  have new: "editing (ls @ [c]) rs (sh\<lparr>shell_line := ls @ c # rs @ z, line_position := line_position sh + 1,
      line_curpos := line_curpos sh + 1\<rparr>)"
    using no c room p(3,4) by (simp add: editing_def z_def)
  show ?thesis
  proof (cases "rs = []")
    case True
    then have "\<not> line_curpos sh < line_position sh" using pos by (simp add: word_less_nat_alt)
    moreover have "put_bytes (unat (line_position sh)) [c] (shell_line sh) = Some (ls @ c # z)"
      using put_byte_eq [of ls c NUL z] line pos True by simp
    ultimately have "\<exists>out. normal_key c sh = Some (out, sh\<lparr>shell_line := ls @ c # rs @ z, line_position := line_position sh + 1,
        line_curpos := line_curpos sh + 1\<rparr>)"
      using p True by (simp add: normal_key_def Let_def)
    with new show ?thesis by fastforce
  next
    case False
    then have lt: "line_curpos sh < line_position sh" using pos by (simp add: word_less_nat_alt)
    have "move_bytes (unat (line_curpos sh) + 1) (unat (line_curpos sh)) (unat (line_position sh) - unat (line_curpos sh)) (shell_line sh) =
        Some (ls @ hd (rs @ [NUL]) # rs @ z)"
      using move_up_eq [of ls rs NUL z] line pos by simp
    moreover have "put_bytes (unat (line_curpos sh)) [c] (ls @ hd (rs @ [NUL]) # rs @ z) = Some (ls @ c # rs @ z)"
      using put_byte_eq [of ls c] pos by simp
    moreover have "c_string (unat (line_curpos sh)) (ls @ c # rs @ z) = Some (c # rs)"
      using c_string_prefix [of "c # rs" ls "tl z"] no(2) c pos(2) z(2) by auto
    ultimately have "\<exists>out. normal_key c sh = Some (out, sh\<lparr>shell_line := ls @ c # rs @ z, line_position := line_position sh + 1,
        line_curpos := line_curpos sh + 1\<rparr>)"
      using p lt by (simp add: normal_key_def Let_def)
    with new show ?thesis by fastforce
  qed
qed

lemma backspace_ok:
  assumes e: "editing ls rs sh"
  shows "\<exists>out sh'. backspace_key sh = Some (out, sh') \<and> editing (butlast ls) rs sh' \<and> same_but_line sh sh'"
proof (cases "ls = []")
  case True
  then have "line_curpos sh = 0" using e by (simp add: editing_def unat_eq_zero)
  with e True show ?thesis by (simp add: backspace_key_def)
next
  case False
  define fs where "fs = butlast ls"
  define d where "d = last ls"
  have ls: "ls = fs @ [d]" using False by (simp add: fs_def d_def)
  let ?n = "length fs + length rs"
  define z where "z = replicate (FINSH_CMD_SIZE - ?n) NUL"
  have len: "?n < 79" using e ls by (simp add: editing_def)
  have line: "shell_line sh = fs @ d # rs @ z" and pos: "unat (line_position sh) = Suc ?n" "unat (line_curpos sh) = Suc (length fs)"
      and no: "NUL \<notin> set fs" "NUL \<notin> set rs"
    using e by (simp_all add: editing_def ls z_def)
  note dec = unat_pos_dec [OF pos(1)] unat_pos_dec [OF pos(2)]
  have nz: "line_curpos sh \<noteq> 0" using pos(2) by auto
  have "FINSH_CMD_SIZE + 1 - ?n = Suc (FINSH_CMD_SIZE - ?n)" using len by simp
  then have z: "replicate (FINSH_CMD_SIZE + 1 - ?n) NUL = NUL # z" by (simp add: z_def)
  have new: "editing fs rs (sh\<lparr>shell_line := fs @ rs @ NUL # z, line_position := line_position sh - 1, line_curpos := line_curpos sh - 1\<rparr>)"
    using no len dec z by (simp add: editing_def)
  have put: "put_bytes (unat (line_position sh - 1)) [NUL] (fs @ rs @ x # z) = Some (fs @ rs @ NUL # z)" for x
    using put_byte_eq [of "fs @ rs" NUL x z] dec by simp
  show ?thesis
  proof (cases "rs = []")
    case True
    then have "\<not> line_curpos sh - 1 < line_position sh - 1" using dec by (simp add: word_less_nat_alt)
    then have "\<exists>out. backspace_key sh = Some (out, sh\<lparr>shell_line := fs @ rs @ NUL # z, line_position := line_position sh - 1,
        line_curpos := line_curpos sh - 1\<rparr>)"
      using nz put [of d] line True by (simp add: backspace_key_def Let_def)
    with new show ?thesis unfolding fs_def by fastforce
  next
    case False
    then have "line_curpos sh - 1 < line_position sh - 1" using dec by (simp add: word_less_nat_alt)
    moreover have "move_bytes (unat (line_curpos sh - 1)) (unat (line_curpos sh - 1) + 1)
        (unat (line_position sh - 1) - unat (line_curpos sh - 1)) (shell_line sh) = Some (fs @ rs @ last (d # rs) # z)"
      using move_down_eq [of fs rs d z] line dec by simp
    moreover have "c_string (unat (line_curpos sh - 1)) (fs @ rs @ NUL # z) = Some rs"
      using c_string_prefix [of rs fs z] no(2) dec by simp
    ultimately have "\<exists>out. backspace_key sh = Some (out, sh\<lparr>shell_line := fs @ rs @ NUL # z, line_position := line_position sh - 1,
        line_curpos := line_curpos sh - 1\<rparr>)"
      using nz put [of "last (d # rs)"] by (simp add: backspace_key_def Let_def)
    with new show ?thesis unfolding fs_def by fastforce
  qed
qed

lemma left_ok:
  assumes "editing ls rs sh"
  shows "case ed_step To_Left (ls, rs) of (ls', rs') \<Rightarrow> editing ls' rs' (snd (left_key sh)) \<and> same_but_line sh (snd (left_key sh))"
proof (cases "ls = []")
  case True
  then show ?thesis using assms by (auto simp: left_key_def editing_def unat_eq_zero)
next
  case False
  then obtain fs d where "ls = fs @ [d]" by (metis append_butlast_last_id)
  with assms unat_pos_dec [of "line_curpos sh" "length fs"] show ?thesis by (auto simp: left_key_def editing_def)
qed

lemma right_ok:
  assumes "editing ls rs sh"
  shows "case ed_step To_Right (ls, rs) of (ls', rs') \<Rightarrow>
    \<exists>out sh'. right_key sh = Some (out, sh') \<and> editing ls' rs' sh' \<and> same_but_line sh sh'"
proof (cases rs)
  case Nil
  then show ?thesis using assms by (simp add: right_key_def editing_def word_less_nat_alt)
next
  case (Cons c rs')
  with assms have "char_at (unat (line_curpos sh)) (shell_line sh) = Some c" "line_curpos sh < line_position sh"
    by (simp_all add: editing_def word_less_nat_alt)
  with assms Cons unat_pos_inc [of "line_curpos sh" "length ls"] show ?thesis by (auto simp: right_key_def editing_def)
qed

section \<open>Keys\<close>

lemma put_text_sel [simp]:
  "shell (put_text t s) = shell s" "syscall_table (put_text t s) = syscall_table s" "prompt_custom (put_text t s) = prompt_custom s"
  "printed (put_text t s) = printed s @ t" "shell_at (put_text t s) = shell_at s"
  by (simp_all add: put_text_def)

text \<open>Nothing changes but the line and what is on the screen.\<close>

definition edited :: "'x finsh_scheme \<Rightarrow> 'x finsh_scheme \<Rightarrow> bool" where
  "edited s s' \<longleftrightarrow> (\<exists>sh out. s' = s\<lparr>shell := sh, printed := out\<rparr> \<and> same_but_line (shell s) sh)"

lemma edited_refl [simp]: "edited s s"
  unfolding edited_def by (intro exI [of _ "shell s"] exI [of _ "printed s"]) simp

lemma edited_trans:
  assumes "edited a b" and "edited b c"
  shows "edited a c"
proof -
  from assms obtain sh out sh' out' where "b = a\<lparr>shell := sh, printed := out\<rparr>" "same_but_line (shell a) sh"
    "c = b\<lparr>shell := sh', printed := out'\<rparr>" "same_but_line (shell b) sh'" unfolding edited_def by blast
  then have "c = a\<lparr>shell := sh', printed := out'\<rparr>" "same_but_line (shell a) sh'" by (auto intro: same_but_line_trans)
  then show ?thesis unfolding edited_def by blast
qed

lemma edited_put: "same_but_line (shell s) sh \<Longrightarrow> edited s (put_text t (s\<lparr>shell := sh\<rparr>))"
  unfolding edited_def put_text_def by (intro exI [of _ sh] exI [of _ "printed s @ t"]) simp

lemma edited_input: "edited s s' \<Longrightarrow> input_stat (shell s') = input_stat (shell s)"
  by (auto simp: edited_def same_but_line_def)

lemma finsh_input_append: "finsh_input code (a @ b) s = do { s1 \<leftarrow> finsh_input code a s; finsh_input code b s1 }"
  by (induction a arbitrary: s) (auto split: bind_splits)

lemma normal_input: "input_stat (shell s) = WAIT_NORMAL \<Longrightarrow> set_input WAIT_NORMAL (set_input st s) = s"
  by (simp add: set_input_def)

lemma key_ok:
  assumes e: "editing ls rs (shell s)" and st: "input_stat (shell s) = WAIT_NORMAL" and c: "\<And>c. k = Type c \<Longrightarrow> plain_key c"
    and step: "ed_step k (ls, rs) = (ls', rs')" "length ls' + length rs' < FINSH_CMD_SIZE"
  shows "\<exists>s'. finsh_input code (key_bytes k) s = Some s' \<and> edited s s' \<and> editing ls' rs' (shell s')"
proof -
  have same: "(shell s)\<lparr>input_stat := WAIT_NORMAL\<rparr> = shell s" using st by (cases "shell s") simp
  show ?thesis
  proof (cases k)
    case (Type c)
    with c have p: "plain_key c" "c \<noteq> NUL" by (auto simp: plain_key_def)
    from normal_key_ok [OF e p(2)] step Type obtain out sh where
      "normal_key c (shell s) = Some (out, sh)" "editing ls' rs' sh" "same_but_line (shell s) sh" by auto
    with Type p st show ?thesis
      by (auto simp: finsh_char_def plain_char_def plain_key_def apply_key_def intro: edited_put)
  next
    case Back
    from backspace_ok [OF e] step Back obtain out sh where
      "backspace_key (shell s) = Some (out, sh)" "editing ls' rs' sh" "same_but_line (shell s) sh" by auto
    with Back st show ?thesis
      by (auto simp: finsh_char_def plain_char_def apply_key_def intro: edited_put)
  next
    case To_Left
    from left_ok [OF e] step To_Left have "editing ls' rs' (snd (left_key (shell s)))" "same_but_line (shell s) (snd (left_key (shell s)))"
      by auto
    with To_Left st show ?thesis
      by (auto simp: same finsh_char_def set_input_def apply_key_def case_prod_beta intro: edited_put)
  next
    case To_Right
    from right_ok [OF e] step To_Right obtain out sh where
      "right_key (shell s) = Some (out, sh)" "editing ls' rs' sh" "same_but_line (shell s) sh" by auto
    with To_Right st show ?thesis
      by (auto simp: same finsh_char_def set_input_def apply_key_def intro: edited_put)
  qed
qed

lemma keys_ok:
  assumes "editing ls rs (shell s)" and "input_stat (shell s) = WAIT_NORMAL" and "\<And>c. Type c \<in> set ks \<Longrightarrow> plain_key c"
    and "ed_run ks (ls, rs) = Some (ls', rs')"
  shows "\<exists>s'. finsh_input code (concat (map key_bytes ks)) s = Some s' \<and> edited s s' \<and> editing ls' rs' (shell s')"
  using assms
proof (induction ks arbitrary: ls rs s)
  case Nil
  then show ?case by auto
next
  case (Cons k ks)
  obtain l1 r1 where k: "ed_step k (ls, rs) = (l1, r1)" by fastforce
  with Cons.prems(4) have len: "length l1 + length r1 < FINSH_CMD_SIZE" and more: "ed_run ks (l1, r1) = Some (ls', rs')"
    by (simp_all split: if_splits)
  from key_ok [OF Cons.prems(1,2) _ k len, of code] Cons.prems(3) obtain s1 where
    s1: "finsh_input code (key_bytes k) s = Some s1" "edited s s1" "editing l1 r1 (shell s1)" by auto
  from Cons.IH [OF s1(3) _ _ more] edited_input [OF s1(2)] Cons.prems(2,3) obtain s2 where
    "finsh_input code (concat (map key_bytes ks)) s1 = Some s2" "edited s1 s2" "editing ls' rs' (shell s2)" by auto
  with s1 show ?case by (auto simp: finsh_input_append intro: edited_trans)
qed

text \<open>Typing at the end of the line.\<close>

lemma ed_run_types: "length ls + length cs < FINSH_CMD_SIZE \<Longrightarrow> ed_run (map Type cs) (ls, []) = Some (ls @ cs, [])"
  by (induction cs arbitrary: ls) simp_all

lemma type_ok:
  assumes "editing ls [] (shell s)" and "input_stat (shell s) = WAIT_NORMAL" and "list_all plain_key cs"
    and "length ls + length cs < FINSH_CMD_SIZE"
  shows "\<exists>s'. finsh_input code cs s = Some s' \<and> edited s s' \<and> editing (ls @ cs) [] (shell s')"
proof -
  have "concat (map key_bytes (map Type cs)) = cs" by (induction cs) simp_all
  then show ?thesis
    using keys_ok [OF assms(1,2) _ ed_run_types [OF assms(4)], of code] assms(3) by (auto simp: list_all_iff)
qed

section \<open>The history\<close>

definition padded :: "string \<Rightarrow> string" where
  "padded cs = cs @ replicate (FINSH_CMD_SIZE - length cs) NUL"

definition remembers :: "string list \<Rightarrow> finsh_shell \<Rightarrow> bool" where
  "remembers H sh \<longleftrightarrow> length H \<le> FINSH_HISTORY_LINES \<and> length (cmd_history sh) = FINSH_HISTORY_LINES \<and>
     unat (history_count sh) = length H \<and> (\<forall>i < length H. cmd_history sh ! i = padded (H ! i)) \<and>
     (\<forall>cs \<in> set H. NUL \<notin> set cs \<and> length cs < FINSH_CMD_SIZE)"

text \<open>An empty line and a repeated one are not kept, and only five are.\<close>

definition push :: "string \<Rightarrow> string list \<Rightarrow> string list" where
  "push cs H = (if cs = [] \<or> H \<noteq> [] \<and> last H = cs then H else drop (length H - 4) (H @ [cs]))"

lemma padded_inj:
  assumes "NUL \<notin> set a" "NUL \<notin> set b" "padded a = padded b"
  shows "a = b"
proof -
  have "takeWhile (\<lambda>c. c \<noteq> NUL) (padded cs) = cs" if "NUL \<notin> set cs" for cs
    using that unfolding padded_def by (cases "FINSH_CMD_SIZE - length cs") (simp_all add: takeWhile_word takeWhile_eq_all_conv, metis)
  with assms show ?thesis by metis
qed

lemma padded_length: "length cs \<le> FINSH_CMD_SIZE \<Longrightarrow> length (padded cs) = FINSH_CMD_SIZE"
  by (simp add: padded_def)

lemma line_now:
  assumes "editing ls rs sh"
  shows "get_bytes 0 FINSH_CMD_SIZE (shell_line sh) = Some (padded (ls @ rs))" "history_entry sh = Some (padded (ls @ rs))"
proof -
  have "length ls + length rs < FINSH_CMD_SIZE" using assms by (simp add: editing_def)
  then have "FINSH_CMD_SIZE + 1 - (length ls + length rs) = Suc (FINSH_CMD_SIZE - (length ls + length rs))" by linarith
  then have "shell_line sh = padded (ls @ rs) @ [NUL]" "length (padded (ls @ rs)) = FINSH_CMD_SIZE"
    using assms by (simp_all add: editing_def padded_def replicate_append_same)
  then show "get_bytes 0 FINSH_CMD_SIZE (shell_line sh) = Some (padded (ls @ rs))" by (simp add: get_bytes_def)
  show "history_entry sh = Some (padded (ls @ rs))"
    using assms by (simp add: history_entry_def get_bytes_def put_bytes_def editing_def padded_def)
qed

lemma push_ok:
  assumes e: "editing ls rs sh" and r: "remembers H sh"
  shows "\<exists>hs n. let sh' = sh\<lparr>cmd_history := hs, history_count := n, current_history := n\<rparr> in
    shell_push_history sh = Some sh' \<and> remembers (push (ls @ rs) H) sh'"
proof -
  let ?cs = "ls @ rs"
  have cs: "NUL \<notin> set ?cs" "length ?cs < FINSH_CMD_SIZE" "line_position sh = 0 \<longleftrightarrow> ?cs = []"
    using e by (auto simp: editing_def simp flip: unat_eq_zero)
  have H: "length H \<le> 5" "length (cmd_history sh) = 5" "unat (history_count sh) = length H"
      "\<And>i. i < length H \<Longrightarrow> cmd_history sh ! i = padded (H ! i)" "\<forall>cs \<in> set H. NUL \<notin> set cs \<and> length cs < FINSH_CMD_SIZE"
    using r by (simp_all add: remembers_def)
  have last: "cmd_history sh ! (length H - 1) = padded ?cs \<longleftrightarrow> last H = ?cs" if "H \<noteq> []"
    using H(4) [of "length H - 1"] H(5) that cs(1) padded_inj [of "last H" ?cs] by (auto simp: last_conv_nth)
  consider "?cs = [] \<or> H \<noteq> [] \<and> last H = ?cs" | "?cs \<noteq> []" "H = [] \<or> last H \<noteq> ?cs" "length H = 5"
    | "?cs \<noteq> []" "H = [] \<or> last H \<noteq> ?cs" "length H < 5" using H(1) by linarith
  then show ?thesis
  proof cases
    case 1
    then have "shell_push_history sh = Some (sh\<lparr>current_history := history_count sh\<rparr>)"
      using cs(3) H(1,3) last line_now [OF e] by (cases "length H = 5") (auto simp: shell_push_history_def)
    then show ?thesis using 1 r
      by (intro exI [of _ "cmd_history sh"] exI [of _ "history_count sh"]) (auto simp: push_def remembers_def Let_def)
  next
    case 2
    let ?hs = "tl (take 5 (cmd_history sh)) @ [padded ?cs]"
    have "H \<noteq> []" using 2(3) by auto
    then have "cmd_history sh ! 4 \<noteq> padded ?cs" using last 2 by auto
    then have "shell_push_history sh = Some (sh\<lparr>cmd_history := ?hs, history_count := 5, current_history := 5\<rparr>)"
      using cs(3) H(3) line_now [OF e] 2 by (auto simp: shell_push_history_def)
    moreover have "?hs ! i = padded ((drop 1 (H @ [?cs])) ! i)" if "i < 5" for i
      using that H(2,4) 2(3) by (auto simp: nth_append nth_tl less_Suc_eq)
    ultimately show ?thesis using 2 H cs
      by (intro exI [of _ ?hs] exI [of _ 5]) (auto simp: push_def remembers_def Let_def dest: in_set_dropD)
  next
    case 3
    let ?hs = "(cmd_history sh)[length H := padded ?cs]"
    have "shell_push_history sh = Some (sh\<lparr>cmd_history := ?hs, history_count := history_count sh + 1, current_history := history_count sh + 1\<rparr>)"
      using cs(3) H(2,3) last line_now [OF e] 3 by (auto simp: shell_push_history_def history_line_def Let_def)
    moreover have "unat (history_count sh + 1) = Suc (length H)" using H(1,3) unat_pos_inc [of "history_count sh"] by simp
    ultimately show ?thesis using 3 H cs
      by (intro exI [of _ ?hs] exI [of _ "history_count sh + 1"])
        (auto simp: push_def remembers_def Let_def nth_append nth_list_update less_Suc_eq)
  qed
qed

text \<open>The line that is called back, and where the history then stands.\<close>

lemma recall_ok:
  assumes e: "editing ls rs sh" and r: "remembers H sh" and h: "unat h < length H"
  shows "\<exists>out sh'. recall prompt h sh = Some (out, sh') \<and> editing (H ! unat h) [] sh' \<and>
    same_but_line (sh\<lparr>current_history := h\<rparr>) sh'"
proof -
  let ?cs = "H ! unat h"
  have H: "NUL \<notin> set ?cs" "length ?cs < FINSH_CMD_SIZE" "cmd_history sh ! unat h = padded ?cs" "unat h < length (cmd_history sh)"
    using r h by (auto simp: remembers_def)
  have "drop FINSH_CMD_SIZE (shell_line sh) = [NUL]" "length (shell_line sh) = FINSH_CMD_SIZE + 1"
    using e by (auto simp: editing_def Suc_diff_le)
  then have put: "put_bytes 0 (padded ?cs) (shell_line sh) = Some (padded ?cs @ [NUL])"
    using H(2) padded_length [of ?cs] by (simp add: put_bytes_def)
  have "FINSH_CMD_SIZE + 1 - length ?cs = Suc (FINSH_CMD_SIZE - length ?cs)" using H(2) by linarith
  then have buf: "padded ?cs @ [NUL] = ?cs @ replicate (FINSH_CMD_SIZE + 1 - length ?cs) NUL"
    by (simp add: padded_def replicate_append_same)
  have "c_string 0 (padded ?cs @ [NUL]) = Some ?cs"
    using c_string_prefix [OF H(1), of "[]" "replicate (FINSH_CMD_SIZE - length ?cs) NUL"]
    by (simp add: padded_def replicate_append_same)
  with put H show ?thesis
    by (auto simp: recall_def editing_def buf unat_of_nat same_but_line_def)
qed

lemma remembers_same: "same_but_line sh sh' \<Longrightarrow> remembers H sh' = remembers H sh"
  by (auto simp: same_but_line_def remembers_def)

definition up_bytes :: string where "up_bytes = [CHR 0x1B, CHR 0x5B, CHR 0x41]"

lemma up_ok:
  assumes e: "editing ls rs (shell s)" and st: "input_stat (shell s) = WAIT_NORMAL" and r: "remembers H (shell s)"
    and m: "unat (current_history (shell s)) = Suc m" "m < length H"
  shows "\<exists>s'. finsh_input code up_bytes s = Some s' \<and> editing (H ! m) [] (shell s') \<and> input_stat (shell s') = WAIT_NORMAL \<and>
    remembers H (shell s') \<and> unat (current_history (shell s')) = m"
proof -
  have same: "(shell s)\<lparr>input_stat := WAIT_NORMAL\<rparr> = shell s" using st by (cases "shell s") simp
  let ?h = "current_history (shell s) - 1"
  have h: "unat ?h = m" "0 < current_history (shell s)" using unat_pos_dec [OF m(1)] m(1) by (auto simp: word_less_nat_alt)
  from recall_ok [OF e r, of ?h "finsh_get_prompt (set_input WAIT_FUNC_KEY s)"] h m(2) obtain out sh where
    sh: "recall (finsh_get_prompt (set_input WAIT_FUNC_KEY s)) ?h (shell s) = Some (out, sh)" "editing (H ! m) [] sh"
      "same_but_line ((shell s)\<lparr>current_history := ?h\<rparr>) sh" by auto
  then have "remembers H sh" "input_stat sh = WAIT_NORMAL" "current_history sh = ?h"
    using r st remembers_same [OF sh(3), of H] by (auto simp: same_but_line_def) (simp add: remembers_def)
  with sh h st show ?thesis
    by (auto simp: up_bytes_def finsh_char_def set_input_def same up_key_def apply_key_def)
qed

lemma ups_ok:
  assumes "editing ls rs (shell s)" and "input_stat (shell s) = WAIT_NORMAL" and "remembers H (shell s)"
    and "unat (current_history (shell s)) = m" "m \<le> length H" and "0 < n" "n \<le> m"
  shows "\<exists>s'. finsh_input code (concat (replicate n up_bytes)) s = Some s' \<and> editing (H ! (m - n)) [] (shell s')"
  using assms
proof (induction n arbitrary: ls rs s m)
  case (Suc n)
  then obtain m' where m': "m = Suc m'" by (cases m) auto
  from up_ok [OF Suc.prems(1-3), of m' code] Suc.prems m' obtain s1 where
    s1: "finsh_input code up_bytes s = Some s1" "editing (H ! m') [] (shell s1)" "input_stat (shell s1) = WAIT_NORMAL"
      "remembers H (shell s1)" "unat (current_history (shell s1)) = m'" by auto
  show ?case
  proof (cases "n = 0")
    case True
    with s1 m' show ?thesis by simp
  next
    case False
    with Suc.IH [OF s1(2-5)] Suc.prems m' s1(1) show ?thesis by (auto simp: finsh_input_append)
  qed
qed simp

section \<open>The end of a line\<close>

definition line_done :: "'x finsh_scheme \<Rightarrow> 'x finsh_scheme" where
  "line_done s = (put_text (finsh_get_prompt s) s)\<lparr>shell := clear_line (shell s)\<rparr>"

lemma enter_ok:
  assumes e: "editing ls rs (shell s)" and st: "input_stat (shell s) = WAIT_NORMAL" and r: "remembers H (shell s)"
    and names: "plain_names (syscall_table s)" and few: "length (tokens (ls @ rs)) < FINSH_ARG_MAX"
  shows "\<exists>sh out. finsh_input code [NL] s = Some (line_done (run_line code (ls @ rs) (s\<lparr>shell := sh, printed := out\<rparr>))) \<and>
    remembers (push (ls @ rs) H) sh \<and> input_stat sh = WAIT_NORMAL \<and> current_history sh = history_count sh"
proof -
  let ?cs = "ls @ rs"
  from push_ok [OF e r] obtain hs n where
    p: "shell_push_history (shell s) = Some ((shell s)\<lparr>cmd_history := hs, history_count := n, current_history := n\<rparr>)"
      "remembers (push ?cs H) ((shell s)\<lparr>cmd_history := hs, history_count := n, current_history := n\<rparr>)"
    by (auto simp: Let_def)
  define sh where "sh = (shell s)\<lparr>cmd_history := hs, history_count := n, current_history := n\<rparr>"
  define out where "out = printed s @ (if echo_mode sh = 1 then [NL] else [])"
  let ?s = "s\<lparr>shell := sh, printed := out\<rparr>"
  have "FINSH_CMD_SIZE + 1 - (length ls + length rs) = Suc (FINSH_CMD_SIZE - (length ls + length rs))"
    using e unfolding editing_def by linarith
  then have line: "shell_line sh = ?cs @ NUL # replicate (FINSH_CMD_SIZE - (length ls + length rs)) NUL"
      "unat (line_position sh) = length ?cs" "NUL \<notin> set ?cs"
    using e by (simp_all add: sh_def editing_def)
  have "plain_names (syscall_table ?s)" using names by simp
  from msh_exec_eq [OF line(3) this few, of code] line obtain ret where
    "msh_exec code 0 (unat (line_position sh)) (shell_line sh) ?s = Some (ret, run_line code ?cs ?s)" by metis
  moreover have "put_text (if echo_mode sh = 1 then [NL] else []) (s\<lparr>shell := sh\<rparr>) = ?s" by (simp add: put_text_def out_def)
  ultimately have "enter_key code s = Some (line_done (run_line code ?cs ?s))"
    using p(1) by (simp add: enter_key_def sh_def [symmetric] line_done_def)
  then show ?thesis using p(2) st
    by (intro exI [of _ sh] exI [of _ out]) (simp add: finsh_char_def plain_char_def sh_def [symmetric], simp add: sh_def)
qed

lemma cleared_editing [simp]: "editing [] [] (clear_line sh)" "input_stat (clear_line sh) = input_stat sh"
  "remembers H (clear_line sh) = remembers H sh" "current_history (clear_line sh) = current_history sh"
  "history_count (clear_line sh) = history_count sh"
  by (simp_all add: editing_def clear_line_def remembers_def)

text \<open>A line that is typed on an empty one, edited in any way, and ended.\<close>

lemma edited_line_ok:
  assumes "editing [] [] (shell s)" and "input_stat (shell s) = WAIT_NORMAL" and "remembers H (shell s)"
    and "plain_names (syscall_table s)" and "\<And>c. Type c \<in> set ks \<Longrightarrow> plain_key c" and "ed_run ks ([], []) = Some (ls, rs)"
    and "length (tokens (ls @ rs)) < FINSH_ARG_MAX"
  shows "\<exists>sh out. finsh_input code (concat (map key_bytes ks) @ [NL]) s =
      Some (line_done (run_line code (ls @ rs) (s\<lparr>shell := sh, printed := out\<rparr>))) \<and>
    remembers (push (ls @ rs) H) sh \<and> input_stat sh = WAIT_NORMAL \<and> current_history sh = history_count sh"
proof -
  from keys_ok [OF assms(1,2,5,6), of code] obtain s1 where
    s1: "finsh_input code (concat (map key_bytes ks)) s = Some s1" "edited s s1" "editing ls rs (shell s1)" by blast
  from s1(2) obtain sh out where eq: "s1 = s\<lparr>shell := sh, printed := out\<rparr>" "same_but_line (shell s) sh" by (auto simp: edited_def)
  have r: "remembers H (shell s1)" using assms(3) remembers_same [OF eq(2)] eq(1) by simp
  have st: "input_stat (shell s1) = WAIT_NORMAL" using edited_input [OF s1(2)] assms(2) by simp
  have names: "plain_names (syscall_table s1)" using assms(4) eq(1) by simp
  from enter_ok [OF s1(3) st r names assms(7), of code] s1(1) eq(1) show ?thesis by (auto simp: finsh_input_append)
qed

end
