(* ===== verification/Shell_Behaviour.thy ===== *)
theory Shell_Behaviour
  imports Shell_Editor Device_Behaviour Lpms_Cmd "HOL-Library.Sublist"
begin

text \<open>
  What a user of the shell relies on: an edited line is run as its words, lines come back from the history, the tab
  key completes a name; and what happens when a line grows to eighty characters.
\<close>

section \<open>Completion\<close>

lemma same_start_prefix:
  "NUL \<notin> set a \<Longrightarrow> NUL \<notin> set b \<Longrightarrow> same_start (length a) a b \<longleftrightarrow> prefix a b"
proof (induction a arbitrary: b)
  case (Cons c a)
  then show ?case by (cases b) auto
qed simp

lemma str_common_le: "str_common a b \<le> length a" "str_common a b \<le> length b"
  by (induction a b rule: str_common.induct) auto

lemma str_common_prefix: "k \<le> str_common a b \<Longrightarrow> prefix (take k a) b"
  by (induction a b arbitrary: k rule: str_common.induct) (auto simp: take_Cons' split: if_splits)

lemma str_common_greatest: "prefix q a \<Longrightarrow> prefix q b \<Longrightarrow> length q \<le> str_common a b"
  by (induction a b arbitrary: q rule: str_common.induct) (auto simp: prefix_Cons)

text \<open>After the first name that fits, the length goes down to what all names that fit have in common.\<close>

lemma complete_loop_rest:
  assumes "NUL \<notin> set pre" "pre \<noteq> []" "prefix pre name" "length pre \<le> m" "m \<le> length name"
    and "\<forall>n \<in> set names. NUL \<notin> set n"
  shows "\<exists>m'. complete_loop pre names (Some name) m out =
      (Some name, m', out @ concat (map (\<lambda>n. n @ [NL]) (List.filter (prefix pre) names))) \<and>
    length pre \<le> m' \<and> m' \<le> m \<and> (\<forall>n \<in> set names. prefix pre n \<longrightarrow> prefix (take m' name) n) \<and>
    (\<forall>q. prefix q (take m name) \<and> (\<forall>n \<in> set names. prefix pre n \<longrightarrow> prefix q n) \<longrightarrow> length q \<le> m')"
  using assms
proof (induction names arbitrary: m out)
  case Nil
  then show ?case by (auto dest: prefix_length_le)
next
  case (Cons n names)
  show ?case
  proof (cases "prefix pre n")
    case True
    let ?m = "min m (str_common name n)"
    have pre: "length pre \<le> ?m" using str_common_greatest [OF Cons.prems(3) True] Cons.prems(4) by simp
    have "?m \<le> length name" "\<forall>n \<in> set names. NUL \<notin> set n" using Cons.prems(5,6) by simp_all
    from Cons.IH [OF Cons.prems(1-3) pre this, of "out @ n @ [NL]"] obtain m' where m':
      "complete_loop pre names (Some name) ?m (out @ n @ [NL]) =
        (Some name, m', (out @ n @ [NL]) @ concat (map (\<lambda>n. n @ [NL]) (List.filter (prefix pre) names)))"
      "length pre \<le> m'" "m' \<le> ?m" "\<forall>n \<in> set names. prefix pre n \<longrightarrow> prefix (take m' name) n"
      "\<forall>q. prefix q (take ?m name) \<and> (\<forall>n \<in> set names. prefix pre n \<longrightarrow> prefix q n) \<longrightarrow> length q \<le> m'"
      by blast
    have "m \<noteq> 0" using Cons.prems(2,4) by (cases pre) auto
    then have "complete_loop pre (n # names) (Some name) m out = complete_loop pre names (Some name) ?m (out @ n @ [NL])"
      using True same_start_prefix [of pre n] Cons.prems(1,6) by simp
    moreover have "prefix (take m' name) n" using m'(3) by (intro str_common_prefix) simp
    moreover have "length q \<le> m'" if "prefix q (take m name)" "\<forall>n \<in> set (n # names). prefix pre n \<longrightarrow> prefix q n" for q
    proof -
      have "prefix q name" "length q \<le> m"
        using that(1) take_is_prefix [of m name] prefix_length_le [of q "take m name"] by auto
      moreover have "prefix q n" using that(2) True by simp
      ultimately have "length q \<le> ?m" using str_common_greatest [of q name n] by simp
      then have "prefix q (take ?m name)"
        using \<open>prefix q name\<close> Cons.prems(5) by (intro prefix_length_prefix [OF _ take_is_prefix]) auto
      with m'(5) that(2) show ?thesis by simp
    qed
    ultimately show ?thesis using m' True by (intro exI [of _ m']) auto
  next
    case False
    then have "\<not> same_start (length pre) pre n" using same_start_prefix [of pre n] Cons.prems(1,6) by simp
    with Cons.IH [OF Cons.prems(1-5)] Cons.prems(6) False show ?thesis by auto
  qed
qed

text \<open>The longest start that all names with the prefix have in common.\<close>

definition completes :: "string \<Rightarrow> string list \<Rightarrow> string \<Rightarrow> bool" where
  "completes pre names t \<longleftrightarrow> prefix pre t \<and> (\<forall>n \<in> set names. prefix pre n \<longrightarrow> prefix t n) \<and>
     (\<forall>q. (\<forall>n \<in> set names. prefix pre n \<longrightarrow> prefix q n) \<longrightarrow> prefix q t)"

lemma str_common_self: "str_common a a = length a"
  by (induction a) simp_all

lemma complete_loop_start:
  assumes "NUL \<notin> set pre" "pre \<noteq> []" "\<forall>n \<in> set names. NUL \<notin> set n" "List.filter (prefix pre) names \<noteq> []"
  shows "\<exists>name m. complete_loop pre names None 0 out =
      (Some name, m, out @ concat (map (\<lambda>n. n @ [NL]) (List.filter (prefix pre) names))) \<and> completes pre names (take m name)"
  using assms(3,4)
proof (induction names)
  case (Cons n names)
  then have st: "same_start (length pre) pre n \<longleftrightarrow> prefix pre n" using same_start_prefix [of pre n] assms(1) by simp
  show ?case
  proof (cases "prefix pre n")
    case True
    then have "length pre \<le> length n" "length n \<le> length n" "\<forall>n \<in> set names. NUL \<notin> set n"
      using prefix_length_le [of pre n] Cons.prems(1) by simp_all
    from complete_loop_rest [OF assms(1,2) True this, of "out @ n @ [NL]"] obtain m where m:
      "complete_loop pre names (Some n) (length n) (out @ n @ [NL]) =
        (Some n, m, (out @ n @ [NL]) @ concat (map (\<lambda>n. n @ [NL]) (List.filter (prefix pre) names)))"
      "length pre \<le> m" "m \<le> length n" "\<forall>x \<in> set names. prefix pre x \<longrightarrow> prefix (take m n) x"
      "\<forall>q. prefix q (take (length n) n) \<and> (\<forall>x \<in> set names. prefix pre x \<longrightarrow> prefix q x) \<longrightarrow> length q \<le> m"
      by blast
    have "prefix pre (take m n)"
      using True m(2,3) by (intro prefix_length_prefix [OF _ take_is_prefix]) auto
    moreover have "prefix q (take m n)" if "\<forall>x \<in> set (n # names). prefix pre x \<longrightarrow> prefix q x" for q
      using that True m(3,5) by (intro prefix_length_prefix [OF _ take_is_prefix [of m n]]) auto
    ultimately have "completes pre (n # names) (take m n)"
      using m(4) take_is_prefix [of m n] unfolding completes_def by auto
    moreover have "complete_loop pre (n # names) None 0 out = complete_loop pre names (Some n) (length n) (out @ n @ [NL])"
      using st True by (simp add: str_common_self)
    ultimately show ?thesis using m(1) True by (intro exI [of _ n] exI [of _ m]) simp
  next
    case False
    with Cons st show ?thesis by (auto simp: completes_def)
  qed
qed simp

lemma complete_loop_none:
  assumes "NUL \<notin> set pre" "\<forall>n \<in> set names. NUL \<notin> set n" "List.filter (prefix pre) names = []"
  shows "complete_loop pre names None 0 out = (None, 0, out)"
  using assms(2,3) same_start_prefix [OF assms(1)] by (induction names) (auto split: if_splits)

lemma tab_ok:
  assumes e: "editing ls rs (shell s)" and ne: "ls @ rs \<noteq> []" and names: "plain_names (syscall_table s)"
    and short: "\<And>t. completes (ls @ rs) (map sc_name (syscall_table s)) t \<Longrightarrow> length t < FINSH_CMD_SIZE"
  shows "\<exists>s' t. tab_key s = Some s' \<and> edited s s' \<and> editing t [] (shell s') \<and>
    printed s' = printed s @ replicate (unat (line_curpos (shell s))) BS @ [NL] @
      concat (map (\<lambda>n. n @ [NL]) (List.filter (prefix (ls @ rs)) (map sc_name (syscall_table s)))) @ finsh_get_prompt s @ t \<and>
    (if \<exists>c \<in> set (syscall_table s). prefix (ls @ rs) (sc_name c) then completes (ls @ rs) (map sc_name (syscall_table s)) t else t = ls @ rs)"
proof -
  let ?cs = "ls @ rs" and ?names = "map sc_name (syscall_table s)"
  have line: "shell_line (shell s) = ?cs @ replicate (FINSH_CMD_SIZE + 1 - length ?cs) NUL" "length ?cs < FINSH_CMD_SIZE" "NUL \<notin> set ?cs"
    using e by (simp_all add: editing_def)
  have no: "\<forall>n \<in> set ?names. NUL \<notin> set n" using names by (auto simp: plain_names_def)
  have z: "replicate (FINSH_CMD_SIZE + 1 - length t) NUL = NUL # replicate (FINSH_CMD_SIZE - length t) NUL"
    if "length t < FINSH_CMD_SIZE" for t :: string
  proof -
    from that have "FINSH_CMD_SIZE + 1 - length t = Suc (FINSH_CMD_SIZE - length t)" by linarith
    then show ?thesis by simp
  qed
  have str: "c_string 0 (t @ replicate (FINSH_CMD_SIZE + 1 - length t) NUL) = Some t" if "NUL \<notin> set t" "length t < FINSH_CMD_SIZE" for t
    using c_string_prefix [OF that(1), of "[]"] z [OF that(2)] by simp
  define s1 where "s1 = put_text (replicate (unat (line_curpos (shell s))) BS @ [NL]) s"
  have s1: "shell s1 = shell s" "syscall_table s1 = syscall_table s" by (simp_all add: s1_def)
  have fin: "\<exists>s'. tab_key s = Some s' \<and> edited s s' \<and> editing t [] (shell s') \<and>
      printed s' = printed s @ replicate (unat (line_curpos (shell s))) BS @ [NL] @ out @ finsh_get_prompt s @ t"
    if m: "msh_auto_complete 0 (shell_line (shell s)) s1 = Some (t @ replicate (FINSH_CMD_SIZE + 1 - length t) NUL, put_text out s1)"
      and t: "NUL \<notin> set t" "length t < FINSH_CMD_SIZE" for t out
  proof -
    let ?sh = "(shell s)\<lparr>shell_line := t @ replicate (FINSH_CMD_SIZE + 1 - length t) NUL, line_position := of_nat (length t),
        line_curpos := of_nat (length t)\<rparr>"
    let ?out = "replicate (unat (line_curpos (shell s))) BS @ [NL] @ out @ finsh_get_prompt s @ t"
    have "tab_key s = Some (put_text ?out (s\<lparr>shell := ?sh\<rparr>))"
      using m str [OF t] by (simp add: tab_key_def s1_def [symmetric]) (simp add: s1_def put_text_def finsh_get_prompt_def)
    moreover have "editing t [] ?sh" using t by (simp add: editing_def unat_of_nat)
    moreover have "edited s (put_text ?out (s\<lparr>shell := ?sh\<rparr>))" by (rule edited_put) (rule same_but_lineI(3))
    ultimately show ?thesis by (simp add: put_text_def)
  qed
  show ?thesis
  proof (cases "List.filter (prefix ?cs) ?names = []")
    case True
    then have "msh_auto_complete 0 (shell_line (shell s)) s1 = Some (?cs @ replicate (FINSH_CMD_SIZE + 1 - length ?cs) NUL, put_text [] s1)"
      using complete_loop_none [OF line(3) no True] str [OF line(3,2)] ne line(1) s1 by (auto simp: msh_auto_complete_def)
    from fin [OF this line(3,2)] True show ?thesis by (fastforce simp: filter_empty_conv)
  next
    case False
    let ?out = "concat (map (\<lambda>n. n @ [NL]) (List.filter (prefix ?cs) ?names))"
    from complete_loop_start [OF line(3) ne no False, of "[]"] obtain name m where
      c: "complete_loop ?cs ?names None 0 [] = (Some name, m, ?out)" "completes ?cs ?names (take m name)" by auto
    define t where "t = take m name"
    from c(2) obtain x where x: "t = ?cs @ x" by (auto simp: completes_def t_def prefix_def)
    have len: "length t < FINSH_CMD_SIZE" using short [OF c(2)] by (simp only: t_def)
    from False obtain n where "n \<in> set ?names" "prefix ?cs n" by (auto simp: filter_empty_conv)
    with c(2) no have t0: "NUL \<notin> set t" by (metis completes_def set_mono_prefix subsetD t_def)
    have "put_bytes 0 t (?cs @ replicate (FINSH_CMD_SIZE + 1 - length ?cs) NUL) =
        Some (t @ replicate (FINSH_CMD_SIZE + 1 - length t) NUL)"
      using len x by (simp add: put_bytes_def)
    then have "msh_auto_complete 0 (shell_line (shell s)) s1 = Some (t @ replicate (FINSH_CMD_SIZE + 1 - length t) NUL, put_text ?out s1)"
      using c(1) str [OF line(3,2)] ne line(1) s1 by (auto simp: msh_auto_complete_def t_def)
    from fin [OF this t0 len] False c(2) show ?thesis by (fastforce simp: filter_empty_conv t_def)
  qed
qed

section \<open>Lines that grow too long\<close>

text \<open>Both positions at the end of some bytes of a buffer, whatever lies behind them.\<close>

definition typing :: "string \<Rightarrow> nat \<Rightarrow> finsh_shell \<Rightarrow> bool" where
  "typing buf n sh \<longleftrightarrow> shell_line sh = buf \<and> length buf = FINSH_CMD_SIZE + 1 \<and> n < FINSH_CMD_SIZE \<and>
     unat (line_position sh) = n \<and> unat (line_curpos sh) = n"

lemma type_over:
  assumes t: "typing buf n (shell s)" and st: "input_stat (shell s) = WAIT_NORMAL" and c: "plain_key c"
  shows "\<exists>s'. finsh_char code c s = Some s' \<and> edited s s' \<and>
    typing (buf[n := c]) (if Suc n = FINSH_CMD_SIZE then 0 else Suc n) (shell s')"
proof -
  let ?sh = "shell s"
  have p: "\<not> (80 :: u16) \<le> line_position ?sh" "\<not> line_curpos ?sh < line_position ?sh"
      "unat (line_position ?sh + 1) = Suc n" "unat (line_curpos ?sh + 1) = Suc n"
    using t by (simp_all add: typing_def pos_large word_less_nat_alt unat_pos_inc)
  have "put_bytes (unat (line_position ?sh)) [c] (shell_line ?sh) = Some (buf[n := c])"
    using t by (simp add: typing_def put_bytes_def upd_conv_take_nth_drop)
  then obtain out where k: "normal_key c ?sh = Some (out, ?sh\<lparr>shell_line := buf[n := c],
      line_position := if 80 \<le> line_position ?sh + 1 then 0 else line_position ?sh + 1,
      line_curpos := if 80 \<le> line_position ?sh + 1 then 0 else line_curpos ?sh + 1\<rparr>)" (is "_ = Some (_, ?sh')")
    using p by (simp add: normal_key_def Let_def)
  have "typing (buf[n := c]) (if Suc n = FINSH_CMD_SIZE then 0 else Suc n) ?sh'"
    using t p(3,4) by (auto simp: typing_def pos_large)
  moreover have "finsh_char code c s = Some (put_text out (s\<lparr>shell := ?sh'\<rparr>))"
    using k c st by (auto simp: finsh_char_def plain_char_def plain_key_def apply_key_def)
  moreover have "edited s (put_text out (s\<lparr>shell := ?sh'\<rparr>))" by (rule edited_put) (rule same_but_lineI(3))
  ultimately show ?thesis by auto
qed

lemma types_over:
  assumes "typing buf n (shell s)" and "input_stat (shell s) = WAIT_NORMAL" and "list_all plain_key cs"
    and "n + length cs \<le> FINSH_CMD_SIZE"
  shows "\<exists>s'. finsh_input code cs s = Some s' \<and> edited s s' \<and>
    typing (take n buf @ cs @ drop (n + length cs) buf) (if n + length cs = FINSH_CMD_SIZE then 0 else n + length cs) (shell s')"
  using assms
proof (induction cs arbitrary: buf n s)
  case Nil
  then show ?case by (auto simp: typing_def)
next
  case (Cons c cs)
  then have len: "length buf = FINSH_CMD_SIZE + 1" "n < FINSH_CMD_SIZE" by (simp_all add: typing_def)
  from type_over [OF Cons.prems(1,2), of c code] Cons.prems(3) obtain s1 where
    s1: "finsh_char code c s = Some s1" "edited s s1" "typing (buf[n := c]) (if Suc n = FINSH_CMD_SIZE then 0 else Suc n) (shell s1)"
    by auto
  have eq: "take (Suc n) (buf[n := c]) @ cs @ drop (Suc n + length cs) (buf[n := c]) = take n buf @ (c # cs) @ drop (n + length (c # cs)) buf"
    using len by (simp add: take_Suc_conv_app_nth)
  show ?case
  proof (cases "Suc n = FINSH_CMD_SIZE")
    case True
    with Cons.prems(4) have "cs = []" by simp
    with s1 True eq len show ?thesis by (auto simp: upd_conv_take_nth_drop)
  next
    case False
    have "input_stat (shell s1) = WAIT_NORMAL" using edited_input [OF s1(2)] Cons.prems(2) by simp
    with Cons.IH [of "buf[n := c]" "Suc n" s1] s1(3) False Cons.prems(3,4) obtain s2 where
      "finsh_input code cs s1 = Some s2" "edited s1 s2"
      "typing (take (Suc n) (buf[n := c]) @ cs @ drop (Suc n + length cs) (buf[n := c]))
        (if Suc n + length cs = FINSH_CMD_SIZE then 0 else Suc n + length cs) (shell s2)" by auto
    with s1(1,2) eq show ?thesis by (auto intro: edited_trans)
  qed
qed

text \<open>After eighty characters the shell stands at the start of a line that is still full.\<close>

lemma overlong_ok:
  assumes e: "editing [] [] (shell s)" and st: "input_stat (shell s) = WAIT_NORMAL"
    and junk: "list_all plain_key junk" "length junk = FINSH_CMD_SIZE"
  shows "\<exists>s'. finsh_input code junk s = Some s' \<and> edited s s' \<and> typing (junk @ [NUL]) 0 (shell s')"
proof -
  have "typing (replicate (FINSH_CMD_SIZE + 1) NUL) 0 (shell s)" using e by (simp add: editing_def typing_def)
  from types_over [OF this st junk(1), of code] junk(2) show ?thesis by simp
qed

section \<open>Claims\<close>

text \<open>
  Claim C21 (functional). A line is edited from an empty one with characters, backspace, and the left and right keys, in any
  order, while it stays below eighty characters; its end has fewer than ten words. Then the end of the line
  runs what stands there: the command named by its first word, with the words of the line as arguments, or
  the message that there is none. The line is put into the history and cleared.
\<close>
theorem shell_runs_edited_line:
  assumes "editing [] [] (shell s)" and "input_stat (shell s) = WAIT_NORMAL" and "remembers H (shell s)"
    and "plain_names (syscall_table s)" and "\<And>c. Type c \<in> set ks \<Longrightarrow> plain_key c" and "ed_run ks ([], []) = Some (ls, rs)"
    and "length (tokens (ls @ rs)) < FINSH_ARG_MAX"
  shows "\<exists>sh out. finsh_input code (concat (map key_bytes ks) @ [NL]) s =
      Some (line_done (run_line code (ls @ rs) (s\<lparr>shell := sh, printed := out\<rparr>))) \<and> remembers (push (ls @ rs) H) sh"
  using edited_line_ok [OF assms, of code] by blast

text \<open>A shell at 1000 without history, and one whose commands are requests to LPMS.\<close>

definition fresh_shell :: "finsh_syscall list \<Rightarrow> 'x \<Rightarrow> 'x finsh_scheme" where
  "fresh_shell tab w = finsh.extend (devices.extend (device_system 8) (finsh.fields (Some 1000)
     (shell_zero\<lparr>echo_mode := 1, prompt_mode := 1\<rparr>) None tab [])) w"

lemma fresh_shell_sel [simp]:
  "shell (fresh_shell tab w) = shell_zero\<lparr>echo_mode := 1, prompt_mode := 1\<rparr>" "syscall_table (fresh_shell tab w) = tab"
  "finsh.more (fresh_shell tab w) = w" "prompt_custom (fresh_shell tab w) = None"
  by (simp_all add: fresh_shell_def finsh.defs devices.defs)

lemma fresh_shell_ok [simp]:
  "editing [] [] (shell (fresh_shell tab w))" "input_stat (shell (fresh_shell tab w)) = WAIT_NORMAL"
  "remembers [] (shell (fresh_shell tab w))"
  by (simp_all add: editing_def remembers_def shell_zero_def)

definition lpms_commands :: "finsh_syscall list" where
  "lpms_commands = [\<lparr>sc_name = ''pms_sleep_request'', sc_desc = [], sc_func = 1\<rparr>,
     \<lparr>sc_name = ''pms_sleep_release'', sc_desc = [], sc_func = 2\<rparr>, \<lparr>sc_name = ''pms_busy_clear'', sc_desc = [], sc_func = 3\<rparr>]"

definition lpms_shell :: "('e lpms_world) finsh_scheme finsh_code" where
  "lpms_shell = \<lparr>dev_of = plain_driver RT_EOK,
     sched_of = \<lparr>s_timeout = 0, s_code = (\<lambda>f a s. s), s_code2 = (\<lambda>f a b s. s)\<rparr>, rx_ind_fptr = 0, thread_entry_fptr = 0,
     call_cmd = (\<lambda>f argv s. (0, finsh.more_update
       (if f = 1 then pms_sleep_request argv else if f = 2 then pms_sleep_release argv else pms_busy_clear argv) s))\<rparr>"

lemma lpms_commands_plain: "plain_names lpms_commands"
  by (simp add: plain_names_def lpms_commands_def)

lemma line_done_more [simp]: "finsh.more (line_done s) = finsh.more s"
  by (simp add: line_done_def put_text_def)

theorem shell_runs_edited_line_witness:
  "\<forall>w :: u32 lpms_world. \<exists>s'. finsh_input lpms_shell
      (''pms_sleep_request 1 34'' @ [BS, NL]) (fresh_shell lpms_commands w) = Some s' \<and>
    finsh.more s' = pms_sleep_request [''pms_sleep_request'', ''1'', ''3''] w"
proof
  fix w :: "u32 lpms_world"
  let ?ks = "map Type ''pms_sleep_request 1 34'' @ [Back]" and ?l = "''pms_sleep_request 1 3''"
  have ks: "plain_key c" if "Type c \<in> set ?ks" for c using that by (auto simp: plain_key_def)
  have run: "ed_run ?ks ([], []) = Some (?l, [])" by simp
  have tok: "tokens (?l @ []) = [''pms_sleep_request'', ''1'', ''3'']" by (simp add: tokens.simps is_blank_def)
  from shell_runs_edited_line [OF fresh_shell_ok _ ks run, of lpms_commands w lpms_shell] lpms_commands_plain tok
  obtain sh out where "finsh_input lpms_shell (concat (map key_bytes ?ks) @ [NL]) (fresh_shell lpms_commands w) =
      Some (line_done (run_line lpms_shell ?l ((fresh_shell lpms_commands w)\<lparr>shell := sh, printed := out\<rparr>)))" by auto
  moreover have "finsh.more (run_line lpms_shell ?l ((fresh_shell lpms_commands w)\<lparr>shell := sh, printed := out\<rparr>)) =
      pms_sleep_request [''pms_sleep_request'', ''1'', ''3''] w"
    using tok by (simp add: run_line_def is_blank_def lpms_commands_def lpms_shell_def)
  ultimately show "\<exists>s'. finsh_input lpms_shell (''pms_sleep_request 1 34'' @ [BS, NL]) (fresh_shell lpms_commands w) = Some s' \<and>
      finsh.more s' = pms_sleep_request [''pms_sleep_request'', ''1'', ''3''] w" by simp
qed

text \<open>
  Claim C22 (equivalence). \<^verbatim>\<open>msh_split\<close>, which writes zeros into the line, gives the pointers to the words that
  the definition on lists gives, ten at most, and never reads past the zero behind the line.
\<close>
theorem split_gives_words:
  assumes "NUL \<notin> set cmd"
  shows "\<exists>args buf many. msh_split (length pre) (length cmd) (pre @ cmd @ NUL # post) = Some (args, buf, many) \<and>
    map (\<lambda>i. c_string i buf) args = map Some (take FINSH_ARG_MAX (tokens cmd))"
  using msh_split_eq [OF assms, of pre post] by blast

theorem split_gives_words_witness:
  "\<exists>args buf many. msh_split 0 16 (''set  '' @ [CHR 0x22] @ ''two words'' @ [CHR 0x22, NUL]) = Some (args, buf, many) \<and>
    map (\<lambda>i. c_string i buf) args = [Some ''set'', Some ''two words'']"
proof -
  let ?l = "''set  '' @ [CHR 0x22] @ ''two words'' @ [CHR 0x22]"
  have "tokens ?l = [''set'', ''two words'']" by (simp add: tokens.simps is_blank_def)
  moreover have "NUL \<notin> set ?l" by simp
  ultimately show ?thesis using split_gives_words [of ?l "[]" "[]"] by (simp add: eval_nat_numeral)
qed

text \<open>Commands that leave the shell and its table alone.\<close>

definition keeps_shell :: "'x finsh_scheme finsh_code \<Rightarrow> bool" where
  "keeps_shell code \<longleftrightarrow> (\<forall>f argv s. shell (snd (call_cmd code f argv s)) = shell s \<and>
     syscall_table (snd (call_cmd code f argv s)) = syscall_table s)"

definition short_line :: "string \<Rightarrow> bool" where
  "short_line cs \<longleftrightarrow> list_all plain_key cs \<and> length cs < FINSH_CMD_SIZE \<and> length (tokens cs) < FINSH_ARG_MAX"

definition at_prompt :: "string list \<Rightarrow> 'x finsh_scheme \<Rightarrow> bool" where
  "at_prompt H s \<longleftrightarrow> editing [] [] (shell s) \<and> input_stat (shell s) = WAIT_NORMAL \<and> remembers H (shell s) \<and>
     current_history (shell s) = history_count (shell s) \<and> plain_names (syscall_table s)"

lemma run_line_shell:
  assumes "keeps_shell code"
  shows "shell (run_line code cs s) = shell s" "syscall_table (run_line code cs s) = syscall_table s"
  using assms by (auto simp: run_line_def keeps_shell_def Let_def split: option.splits)

lemma line_at_prompt:
  assumes p: "at_prompt H s" and k: "keeps_shell code" and l: "short_line cs"
  shows "\<exists>s'. finsh_input code (cs @ [NL]) s = Some s' \<and> at_prompt (push cs H) s'"
proof -
  have run: "ed_run (map Type cs) ([], []) = Some (cs, [])" using ed_run_types [of "[]" cs] l by (simp add: short_line_def)
  have bytes: "concat (map key_bytes (map Type cs)) = cs" by (induction cs) simp_all
  have "\<And>c. Type c \<in> set (map Type cs) \<Longrightarrow> plain_key c" using l by (auto simp: short_line_def list_all_iff)
  from edited_line_ok [OF _ _ _ _ this run, of s H code] p l obtain sh out where
    "finsh_input code (cs @ [NL]) s = Some (line_done (run_line code cs (s\<lparr>shell := sh, printed := out\<rparr>)))"
    "remembers (push cs H) sh" "input_stat sh = WAIT_NORMAL" "current_history sh = history_count sh"
    unfolding bytes by (auto simp: at_prompt_def short_line_def)
  then show ?thesis using p run_line_shell [OF k] by (simp add: at_prompt_def line_done_def)
qed

lemma lines_at_prompt:
  assumes "at_prompt H s" and "keeps_shell code" and "list_all short_line ts"
  shows "\<exists>s'. finsh_input code (concat (map (\<lambda>t. t @ [NL]) ts)) s = Some s' \<and> at_prompt (fold push ts H) s'"
  using assms
proof (induction ts arbitrary: H s)
  case (Cons t ts)
  from line_at_prompt [OF Cons.prems(1,2), of t] Cons.prems(3) obtain s1 where
    s1: "finsh_input code (t @ [NL]) s = Some s1" "at_prompt (push t H) s1" by auto
  from Cons.IH [OF s1(2) Cons.prems(2)] Cons.prems(3) obtain s2 where
    "finsh_input code (concat (map (\<lambda>t. t @ [NL]) ts)) s1 = Some s2" "at_prompt (fold push ts (push t H)) s2" by auto
  with s1(1) finsh_input_append [of code "t @ [NL]" "concat (map (\<lambda>t. t @ [NL]) ts)" s] show ?case by simp
qed simp

text \<open>
  Claim C23 (functional). At a prompt any lines are entered, each typed without editing keys, below eighty characters and of fewer
  than ten words, to commands that leave the shell's own state alone. Then the up key brings back the last five of the lines
  that the history held and that were entered, without empty and immediately repeated ones: pressed \<open>n\<close> times it
  shows the \<open>n\<close>th last of them, ready to be edited.
\<close>
theorem history_comes_back:
  assumes "at_prompt H s" and "keeps_shell code" and "list_all short_line ts"
    and "0 < n" and "n \<le> length (fold push ts H)"
  shows "\<exists>s'. finsh_input code (concat (map (\<lambda>t. t @ [NL]) ts) @ concat (replicate n up_bytes)) s = Some s' \<and>
    editing (fold push ts H ! (length (fold push ts H) - n)) [] (shell s')"
proof -
  let ?H = "fold push ts H"
  from lines_at_prompt [OF assms(1-3)] obtain s1 where
    s1: "finsh_input code (concat (map (\<lambda>t. t @ [NL]) ts)) s = Some s1" "at_prompt ?H s1" by blast
  then have e: "editing [] [] (shell s1)" "input_stat (shell s1) = WAIT_NORMAL" "remembers ?H (shell s1)"
      "unat (current_history (shell s1)) = length ?H"
    by (simp_all add: at_prompt_def) (simp add: remembers_def)
  from ups_ok [OF e le_refl assms(4,5), of code] s1(1) show ?thesis by (auto simp: finsh_input_append)
qed

theorem history_comes_back_witness:
  "\<forall>w :: u32 lpms_world. \<exists>s'. finsh_input lpms_shell (''ps'' @ [NL] @ ''free'' @ [NL] @ ''free'' @ [NL] @ up_bytes @ up_bytes)
      (fresh_shell lpms_commands w) = Some s' \<and> editing ''ps'' [] (shell s')"
proof
  fix w :: "u32 lpms_world"
  have k: "keeps_shell (lpms_shell :: u32 lpms_world finsh_scheme finsh_code)" by (simp add: keeps_shell_def lpms_shell_def)
  have p: "at_prompt [] (fresh_shell lpms_commands w)" using lpms_commands_plain by (simp add: at_prompt_def editing_def remembers_def shell_zero_def)
  have l: "list_all short_line [''ps'', ''free'', ''free'']"
    by (simp add: short_line_def plain_key_def tokens.simps is_blank_def)
  have h: "fold push [''ps'', ''free'', ''free''] [] = [''ps'', ''free'']" by (simp add: push_def)
  from history_comes_back [OF p k l, of 2] show "\<exists>s'. finsh_input lpms_shell
      (''ps'' @ [NL] @ ''free'' @ [NL] @ ''free'' @ [NL] @ up_bytes @ up_bytes) (fresh_shell lpms_commands w) = Some s' \<and>
      editing ''ps'' [] (shell s')"
    unfolding h by (simp add: numeral_2_eq_2)
qed

text \<open>
  Claim C36 (functional). With a line that is not empty, the tab key makes the line the longest start that the command names
  beginning with it have in common, if that is shorter than eighty characters, and leaves it as it is when no name begins with
  it; the cursor goes to its end and nothing else of the shell changes. It prints backspaces up to the start of the line, then
  on lines of their own the names that begin with the line, in the order of the table, then the prompt and the new line.
\<close>
theorem tab_completes:
  assumes "editing ls rs (shell s)" and "ls @ rs \<noteq> []" and "input_stat (shell s) = WAIT_NORMAL" and "plain_names (syscall_table s)"
    and "\<And>t. completes (ls @ rs) (map sc_name (syscall_table s)) t \<Longrightarrow> length t < FINSH_CMD_SIZE"
  shows "\<exists>s' t. finsh_input code [CHR 0x09] s = Some s' \<and> edited s s' \<and> editing t [] (shell s') \<and>
    printed s' = printed s @ replicate (unat (line_curpos (shell s))) BS @ [NL] @
      concat (map (\<lambda>n. n @ [NL]) (List.filter (prefix (ls @ rs)) (map sc_name (syscall_table s)))) @ finsh_get_prompt s @ t \<and>
    (if \<exists>c \<in> set (syscall_table s). prefix (ls @ rs) (sc_name c) then completes (ls @ rs) (map sc_name (syscall_table s)) t else t = ls @ rs)"
proof -
  have "finsh_input code [CHR 0x09] s = tab_key s" using assms(3) by (cases "tab_key s") (simp_all add: finsh_char_def plain_char_def)
  with tab_ok [OF assms(1,2,4,5)] show ?thesis by simp
qed

theorem tab_completes_witness:
  "\<forall>w :: u32 lpms_world. \<exists>s s'. finsh_input lpms_shell ''pms_s'' (fresh_shell lpms_commands w) = Some s \<and>
    finsh_input lpms_shell [CHR 0x09] s = Some s' \<and> editing ''pms_sleep_re'' [] (shell s') \<and>
    (\<exists>out. printed s' = out @ ''pms_sleep_request'' @ [NL] @ ''pms_sleep_release'' @ [NL] @ finsh_get_prompt s @ ''pms_sleep_re'')"
proof
  fix w :: "u32 lpms_world"
  let ?names = "map sc_name lpms_commands"
  have comp: "t = ''pms_sleep_re''" if "completes ''pms_s'' ?names t" for t
  proof -
    have "prefix t ''pms_sleep_request''" "prefix t ''pms_sleep_release''"
      using that by (simp_all add: completes_def lpms_commands_def)
    moreover have "prefix ''pms_sleep_re'' t" using that by (simp add: completes_def lpms_commands_def)
    ultimately show ?thesis by (auto simp: prefix_Cons)
  qed
  have "list_all plain_key ''pms_s''" by (simp add: plain_key_def)
  from type_ok [OF fresh_shell_ok(1) [of lpms_commands w] fresh_shell_ok(2) this, of lpms_shell] obtain s where
    s: "finsh_input lpms_shell ''pms_s'' (fresh_shell lpms_commands w) = Some s" "edited (fresh_shell lpms_commands w) s"
      "editing ''pms_s'' [] (shell s)" by auto
  have tab: "syscall_table s = lpms_commands" using s(2) by (auto simp: edited_def)
  have "input_stat (shell s) = WAIT_NORMAL" using edited_input [OF s(2)] by (simp add: shell_zero_def)
  moreover have "length t < FINSH_CMD_SIZE" if "completes (''pms_s'' @ []) (map sc_name (syscall_table s)) t" for t
    using comp [of t] that tab by simp
  moreover have "''pms_s'' @ [] \<noteq> []" "plain_names (syscall_table s)" using lpms_commands_plain tab by simp_all
  ultimately obtain s' t where t1: "finsh_input lpms_shell [CHR 0x09] s = Some s'" "editing t [] (shell s')" and t2:
    "printed s' = printed s @ replicate (unat (line_curpos (shell s))) BS @ [NL] @
      concat (map (\<lambda>n. n @ [NL]) (List.filter (prefix ''pms_s'') ?names)) @ finsh_get_prompt s @ t"
    "if \<exists>c \<in> set lpms_commands. prefix ''pms_s'' (sc_name c) then completes ''pms_s'' ?names t else t = ''pms_s''"
    using tab_completes [OF s(3), of lpms_shell] unfolding tab append_Nil2 by blast
  have "\<exists>c \<in> set lpms_commands. prefix ''pms_s'' (sc_name c)" by (simp add: lpms_commands_def)
  with t2(2) comp have t: "t = ''pms_sleep_re''" by simp
  have names: "concat (map (\<lambda>n. n @ [NL]) (List.filter (prefix ''pms_s'') ?names)) =
      ''pms_sleep_request'' @ [NL] @ ''pms_sleep_release'' @ [NL]" by (simp add: lpms_commands_def)
  have "printed s' = (printed s @ replicate (unat (line_curpos (shell s))) BS @ [NL]) @
      ''pms_sleep_request'' @ [NL] @ ''pms_sleep_release'' @ [NL] @ finsh_get_prompt s @ ''pms_sleep_re''"
    unfolding t2(1) names t by simp
  then show "\<exists>s s'. finsh_input lpms_shell ''pms_s'' (fresh_shell lpms_commands w) = Some s \<and>
      finsh_input lpms_shell [CHR 0x09] s = Some s' \<and> editing ''pms_sleep_re'' [] (shell s') \<and>
      (\<exists>out. printed s' = out @ ''pms_sleep_request'' @ [NL] @ ''pms_sleep_release'' @ [NL] @ finsh_get_prompt s @ ''pms_sleep_re'')"
    using s(1) t1 unfolding t by blast
qed

section \<open>Lines that are too long\<close>

text \<open>
  Claim C37 (bounds). Eighty characters put the shell back to the start of the line without clearing it. If the tab key
  then finds nothing to complete, both the position and the cursor are eighty; one more character goes to the start of the line,
  and the position is one but the cursor eighty-one. After a backspace they are 0 and 80. All this succeeds; the next backspace would move 65456 bytes, from the position, which wraps to 65535, less the cursor, in a line of
  eighty-one, and is what leaves the buffer.
\<close>
theorem overlong_line_corrupts:
  assumes "editing [] [] (shell s)" and "input_stat (shell s) = WAIT_NORMAL" and "plain_names (syscall_table s)"
    and "list_all plain_key junk" and "length junk = FINSH_CMD_SIZE" and "plain_key c"
    and "\<forall>x \<in> set (syscall_table s). \<not> prefix junk (sc_name x)"
  shows "\<exists>s'. finsh_input code (junk @ [CHR 0x09, c, BS]) s = Some s' \<and> input_stat (shell s') = WAIT_NORMAL \<and>
    length (shell_line (shell s')) = 81 \<and> line_position (shell s') = 0 \<and> line_curpos (shell s') = 80 \<and>
    unat (line_position (shell s') - 1) - unat (line_curpos (shell s') - 1) = 65456 \<and>
    finsh_input code [BS] s' = None"
proof -
  from overlong_ok [OF assms(1,2,4,5), of code] obtain s1 where
    s1: "finsh_input code junk s = Some s1" "edited s s1" "typing (junk @ [NUL]) 0 (shell s1)" by blast
  have st: "input_stat (shell s1) = WAIT_NORMAL" "syscall_table s1 = syscall_table s"
    using edited_input [OF s1(2)] assms(2) s1(2) by (auto simp: edited_def)
  have no: "NUL \<notin> set junk" using assms(4) by (auto simp: list_all_iff plain_key_def)
  have line: "shell_line (shell s1) = junk @ [NUL]" using s1(3) by (simp add: typing_def)
  have str: "c_string 0 (junk @ [NUL]) = Some junk" using c_string_prefix [OF no, of "[]" "[]"] by simp
  have "complete_loop junk (map sc_name (syscall_table s)) None 0 [] = (None, 0, [])"
    using assms(3,7) by (intro complete_loop_none no) (auto simp: plain_names_def filter_empty_conv)
  moreover have "junk \<noteq> []" using assms(5) by auto
  ultimately obtain t where tab: "finsh_char code (CHR 0x09) s1 =
      Some (put_text t (s1\<lparr>shell := (shell s1)\<lparr>shell_line := junk @ [NUL], line_position := 80, line_curpos := 80\<rparr>\<rparr>))"
    using st line str assms(5) by (auto simp: finsh_char_def plain_char_def tab_key_def msh_auto_complete_def put_text_def)
  have put: "put_bytes 0 [x] (y # tl junk @ [NUL]) = Some (x # tl junk @ [NUL])" for x y by (simp add: put_bytes_def)
  have put0: "put_bytes 0 [c] (junk @ [NUL]) = Some (c # tl junk @ [NUL])" using \<open>junk \<noteq> []\<close> by (cases junk) (simp_all add: put_bytes_def)
  define sh where "sh = (shell s1)\<lparr>shell_line := junk @ [NUL], line_position := 80, line_curpos := 80\<rparr>"
  have n: "\<exists>out. normal_key c sh = Some (out, sh\<lparr>shell_line := c # tl junk @ [NUL], line_position := 1, line_curpos := 81\<rparr>)"
    unfolding normal_key_def sh_def using put0 by (simp add: Let_def pos_large)
  have b1: "\<exists>out. backspace_key (sh\<lparr>shell_line := c # tl junk @ [NUL], line_position := 1, line_curpos := 81\<rparr>) =
      Some (out, sh\<lparr>shell_line := NUL # tl junk @ [NUL], line_position := 0, line_curpos := 80\<rparr>)"
    unfolding backspace_key_def using put [of NUL c] by (simp add: Let_def)
  have b2: "backspace_key (sh\<lparr>shell_line := NUL # tl junk @ [NUL], line_position := 0, line_curpos := 80\<rparr>) = None"
    using assms(5) by (simp add: backspace_key_def Let_def move_bytes_def get_bytes_def unsigned_minus_1_eq_mask mask_eq_exp_minus_1)
  have char: "finsh_char code d x = apply_key (if d = BS then backspace_key (shell x) else normal_key d (shell x)) x"
    if "d = BS \<or> plain_key d" "input_stat (shell x) = WAIT_NORMAL" for d x
    using that by (auto simp: finsh_char_def plain_char_def plain_key_def)
  have cB: "c \<noteq> BS" using assms(6) by (simp add: plain_key_def)
  from n b1 obtain o1 o2 where "normal_key c sh = Some (o1, sh\<lparr>shell_line := c # tl junk @ [NUL], line_position := 1, line_curpos := 81\<rparr>)"
    "backspace_key (sh\<lparr>shell_line := c # tl junk @ [NUL], line_position := 1, line_curpos := 81\<rparr>) =
      Some (o2, sh\<lparr>shell_line := NUL # tl junk @ [NUL], line_position := 0, line_curpos := 80\<rparr>)" by blast
  moreover define s2 where "s2 = put_text (t @ o1 @ o2) (s1\<lparr>shell :=
      sh\<lparr>shell_line := NUL # tl junk @ [NUL], line_position := 0, line_curpos := 80\<rparr>\<rparr>)"
  ultimately have "finsh_input code [c, BS] (put_text t (s1\<lparr>shell := sh\<rparr>)) = Some s2"
    using st(1) cB assms(6) by (simp add: char apply_key_def) (simp add: char apply_key_def sh_def put_text_def)
  with s1(1) tab have "finsh_input code (junk @ [CHR 0x09, c, BS]) s = Some s2" by (simp add: finsh_input_append sh_def)
  moreover have s2: "shell s2 = sh\<lparr>shell_line := NUL # tl junk @ [NUL], line_position := 0, line_curpos := 80\<rparr>"
    by (simp add: s2_def put_text_def)
  moreover have w: "input_stat (shell s2) = WAIT_NORMAL" using st(1) by (simp add: s2 sh_def)
  moreover have "finsh_input code [BS] s2 = None" using b2 w by (simp add: char apply_key_def s2)
  moreover have "unat (0 - 1 :: u16) - unat (80 - 1 :: u16) = 65456"
    by (simp add: unsigned_minus_1_eq_mask mask_eq_exp_minus_1)
  ultimately show ?thesis using assms(5) by (intro exI [of _ s2]) simp
qed

theorem overlong_line_corrupts_witness:
  "\<forall>w :: u32 lpms_world. \<exists>s'. finsh_input lpms_shell (replicate 80 CHR ''7'' @ [CHR 0x09, CHR ''x'', BS]) (fresh_shell lpms_commands w) = Some s' \<and>
    line_position (shell s') = 0 \<and> line_curpos (shell s') = 80 \<and> finsh_input lpms_shell [BS] s' = None"
proof
  fix w :: "u32 lpms_world"
  have "list_all plain_key (replicate 80 CHR ''7'')" "plain_key (CHR ''x'')" by (simp_all add: plain_key_def list_all_iff)
  moreover have "\<forall>x \<in> set lpms_commands. \<not> prefix (replicate 80 CHR ''7'') (sc_name x)"
    by (auto simp: lpms_commands_def dest: prefix_length_le)
  ultimately show "\<exists>s'. finsh_input lpms_shell (replicate 80 CHR ''7'' @ [CHR 0x09, CHR ''x'', BS]) (fresh_shell lpms_commands w) = Some s' \<and>
    line_position (shell s') = 0 \<and> line_curpos (shell s') = 80 \<and> finsh_input lpms_shell [BS] s' = None"
    using overlong_line_corrupts [OF fresh_shell_ok(1) [of lpms_commands w] fresh_shell_ok(2), of "replicate 80 CHR ''7''" "CHR ''x''" lpms_shell]
      lpms_commands_plain by (simp del: finsh_input.simps) blast
qed

lemma push_some:
  assumes "remembers H sh" and "length (shell_line sh) = FINSH_CMD_SIZE + 1" and "unat (line_position sh) < FINSH_CMD_SIZE"
  shows "\<exists>hs n. shell_push_history sh = Some (sh\<lparr>cmd_history := hs, history_count := n, current_history := n\<rparr>)"
proof -
  have h: "\<exists>e. history_entry sh = Some e" "\<exists>now. get_bytes 0 FINSH_CMD_SIZE (shell_line sh) = Some now"
    using assms(2,3) by (auto simp: history_entry_def get_bytes_def put_bytes_def)
  then obtain e now where "history_entry sh = Some e" "get_bytes 0 FINSH_CMD_SIZE (shell_line sh) = Some now" by blast
  moreover have "\<not> FINSH_HISTORY_LINES \<le> unat (history_count sh) \<Longrightarrow> unat (history_count sh) < length (cmd_history sh)"
    using assms(1) by (simp add: remembers_def)
  moreover have "\<exists>hs n. sh\<lparr>current_history := history_count sh\<rparr> = sh\<lparr>cmd_history := hs, history_count := n, current_history := n\<rparr>"
    by (intro exI [of _ "cmd_history sh"] exI [of _ "history_count sh"]) simp
  ultimately show ?thesis
    by (cases "FINSH_HISTORY_LINES \<le> unat (history_count sh)") (auto simp: shell_push_history_def history_line_def Let_def)
qed

text \<open>Two words at the start of a buffer whose rest is full: the second one runs on.\<close>

lemma exec_runs_on:
  assumes names: "plain_names (syscall_table s)" and f: "find (\<lambda>c. sc_name c = name) (syscall_table s) = Some c"
    and words: "name \<noteq> []" "w \<noteq> []" "\<And>x. x \<in> set (name @ w) \<Longrightarrow> x \<noteq> NUL \<and> \<not> is_blank x \<and> x \<noteq> CHR 0x22"
    and tail: "NUL \<notin> set tail"
  shows "msh_exec code 0 (length (name @ '' '' @ w)) ((name @ '' '' @ w) @ tail @ [NUL]) s =
    Some (call_cmd code (sc_func c) [name, w @ tail] s)"
proof -
  let ?cmd = "name @ '' '' @ w"
  let ?n = "length ?cmd"
  obtain z post where z: "tail @ [NUL] = z # post" by (cases tail) auto
  obtain a name' where a: "name = a # name'" using words(1) by (cases name) auto
  obtain b w' where b: "w = b # w'" using words(2) by (cases w) auto
  have nb: "\<forall>x \<in> set name. (Not \<circ> is_blank) x" "\<forall>x \<in> set w. (Not \<circ> is_blank) x" and no: "NUL \<notin> set name" "NUL \<notin> set w"
    using words(3) by auto
  have blank: "is_blank (CHR '' '')" by (simp add: is_blank_def)
  have skip: "skip_word 0 ?n (?cmd @ tail @ [NUL]) = Some (length name)"
    using skip_word_eq [of "[]" ?cmd z post] nb(1) blank by (simp add: z takeWhile_append)
  have found: "msh_get_cmd (?cmd @ tail @ [NUL]) (length name) (syscall_table s) = Some (Some (sc_func c))"
    using msh_get_cmd_eq [OF names no(1), of "'' '' @ w @ tail @ [NUL]"] f by simp
  let ?buf = "name @ NUL # w @ z # post"
  have strip1: "strip_blanks 0 ?n (?cmd @ z # post) = Some (0, ?cmd @ z # post)"
    using strip_blanks_eq [of "[]" ?cmd z post] nb(1) a by simp
  have strip2: "strip_blanks (length name) ?n (?cmd @ z # post) = Some (Suc (length name), ?buf)"
    using strip_blanks_eq [of name "'' '' @ w" z post] nb(2) b blank by simp
  have skip2: "skip_word (Suc (length name)) ?n ?buf = Some ?n"
    using skip_word_eq [of "name @ [NUL]" w z post] nb(2) by (simp add: takeWhile_eq_all_conv [THEN iffD2])
  have at: "char_at 0 (?cmd @ z # post) = Some a" "char_at (Suc (length name)) ?buf = Some b"
    using char_at_append [of "name @ [NUL]" b "w' @ z # post"] by (simp_all add: a b char_at_def)
  have q: "a \<noteq> CHR 0x22" "b \<noteq> CHR 0x22" using words(3) a b by auto
  have "split_loop (length name) ?n [0] (?cmd @ z # post) = Some ([0, Suc (length name)], ?buf, False)"
    using strip2 skip2 at(2) q(2) b by (subst split_loop.simps) simp
  moreover have "skip_word 0 ?n (?cmd @ z # post) = Some (length name)" using skip by (simp add: z)
  ultimately have split: "msh_split 0 ?n (?cmd @ tail @ [NUL]) = Some ([0, Suc (length name)], ?buf, False)"
    using strip1 at(1) q(1) unfolding msh_split_def by (subst split_loop.simps) (simp add: z)
  have "c_string 0 ?buf = Some name" using c_string_prefix [OF no(1), of "[]"] by simp
  moreover have "c_string (Suc (length name)) ?buf = Some (w @ tail)"
    using c_string_prefix [of "w @ tail" "name @ [NUL]" "[]"] no(2) tail by (simp flip: z)
  ultimately have "msh_exec_cmd code 0 ?n (?cmd @ tail @ [NUL]) s =
      (let (ret, s2) = call_cmd code (sc_func c) [name, w @ tail] s in Some (Some ret, ?buf, s2))"
    using skip found split words(1) by (simp add: msh_exec_cmd_def)
  moreover have "trim 0 ?n (?cmd @ tail @ [NUL]) = Some (0, ?n)" using a nb(1) by (simp add: char_at_def)
  ultimately show ?thesis by (auto simp: msh_exec_def split: prod.splits)
qed

text \<open>
  Claim C38 (error). What is left of a line of eighty characters runs on behind the last word of the next command: the
  command gets an argument that was not typed.
\<close>
theorem overlong_line_runs_on:
  assumes "editing [] [] (shell s)" and "input_stat (shell s) = WAIT_NORMAL" and "remembers H (shell s)" and "plain_names (syscall_table s)"
    and "list_all plain_key junk" and "length junk = FINSH_CMD_SIZE"
    and "find (\<lambda>c. sc_name c = name) (syscall_table s) = Some c" and "name \<noteq> []" and "w \<noteq> []"
    and "\<And>x. x \<in> set (name @ w) \<Longrightarrow> plain_key x \<and> \<not> is_blank x \<and> x \<noteq> CHR 0x22"
    and "length (name @ '' '' @ w) < FINSH_CMD_SIZE"
  shows "\<exists>sh out. finsh_input code (junk @ (name @ '' '' @ w) @ [NL]) s =
    Some (line_done (snd (call_cmd code (sc_func c) [name, w @ drop (length (name @ '' '' @ w)) junk]
      (s\<lparr>shell := sh, printed := out\<rparr>))))"
proof -
  let ?cmd = "name @ '' '' @ w"
  let ?tail = "drop (length ?cmd) junk"
  from overlong_ok [OF assms(1,2,5,6), of code] obtain s1 where
    s1: "finsh_input code junk s = Some s1" "edited s s1" "typing (junk @ [NUL]) 0 (shell s1)" by blast
  have st1: "input_stat (shell s1) = WAIT_NORMAL" using edited_input [OF s1(2)] assms(2) by simp
  have cmd: "list_all plain_key ?cmd" using assms(10) by (auto simp: list_all_iff plain_key_def)
  from types_over [OF s1(3) st1 cmd, of code] assms(11) obtain s2 where
    s2: "finsh_input code ?cmd s1 = Some s2" "edited s1 s2" "typing (?cmd @ drop (length ?cmd) (junk @ [NUL])) (length ?cmd) (shell s2)"
    by auto
  then have ty: "shell_line (shell s2) = ?cmd @ ?tail @ [NUL]" "length (shell_line (shell s2)) = FINSH_CMD_SIZE + 1"
      "unat (line_position (shell s2)) = length ?cmd"
    using assms(6,11) by (simp_all add: typing_def)
  from edited_trans [OF s1(2) s2(2)] obtain sh2 out2 where
    eq: "s2 = s\<lparr>shell := sh2, printed := out2\<rparr>" "same_but_line (shell s) sh2" by (auto simp: edited_def)
  have "remembers H (shell s2)" using remembers_same [OF eq(2)] eq(1) assms(3) by simp
  from push_some [OF this ty(2)] ty(3) assms(11) obtain hs n where
    p: "shell_push_history (shell s2) = Some ((shell s2)\<lparr>cmd_history := hs, history_count := n, current_history := n\<rparr>)" (is "_ = Some ?sh")
    by auto
  let ?s = "put_text (if echo_mode (shell s2) = 1 then [NL] else []) (s2\<lparr>shell := ?sh\<rparr>)"
  have "plain_names (syscall_table ?s)" "find (\<lambda>c. sc_name c = name) (syscall_table ?s) = Some c"
    using assms(4,7) eq(1) by simp_all
  moreover have "NUL \<notin> set ?tail" using assms(5) by (auto simp: list_all_iff plain_key_def dest!: in_set_dropD)
  ultimately have ex: "msh_exec code 0 (length ?cmd) (?cmd @ ?tail @ [NUL]) ?s = Some (call_cmd code (sc_func c) [name, w @ ?tail] ?s)"
    using assms(8-10) by (intro exec_runs_on) (auto simp: plain_key_def)
  obtain ret s3 where c: "call_cmd code (sc_func c) [name, w @ ?tail] ?s = (ret, s3)" by fastforce
  have "enter_key code s2 = Some (line_done s3)"
    using p ex c ty(1,3) by (simp add: enter_key_def line_done_def)
  moreover have "input_stat (shell s2) = WAIT_NORMAL" using edited_input [OF s2(2)] st1 by simp
  ultimately have "finsh_input code [NL] s2 = Some (line_done s3)" by (simp add: finsh_char_def plain_char_def)
  moreover have "\<exists>sh out. ?s = s\<lparr>shell := sh, printed := out\<rparr>" using eq(1) by (auto simp: put_text_def)
  then obtain sh out where "?s = s\<lparr>shell := sh, printed := out\<rparr>" by blast
  with c have "call_cmd code (sc_func c) [name, w @ ?tail] (s\<lparr>shell := sh, printed := out\<rparr>) = (ret, s3)" by simp
  moreover have "finsh_input code (junk @ ?cmd @ [NL]) s = finsh_input code [NL] s2"
    using s1(1) s2(1) finsh_input_append [of code junk "?cmd @ [NL]" s] finsh_input_append [of code ?cmd "[NL]" s1] by (simp only: bind.bind_lunit)
  ultimately show ?thesis by (intro exI [of _ sh] exI [of _ out]) (simp only: snd_conv)
qed

theorem overlong_line_runs_on_witness:
  "\<forall>w :: u32 lpms_world. \<exists>s'. finsh_input lpms_shell (replicate 80 CHR ''7'' @ ''pms_busy_clear 1'' @ [NL])
      (fresh_shell lpms_commands w) = Some s' \<and>
    finsh.more s' = pms_busy_clear [''pms_busy_clear'', CHR ''1'' # replicate 64 CHR ''7''] w"
proof
  fix w :: "u32 lpms_world"
  let ?j = "replicate 80 CHR ''7''" and ?name = "''pms_busy_clear''"
  have junk: "list_all plain_key ?j" "length ?j = FINSH_CMD_SIZE" by (simp_all add: plain_key_def list_all_iff)
  have f: "find (\<lambda>c. sc_name c = ?name) (syscall_table (fresh_shell lpms_commands w)) =
      Some \<lparr>sc_name = ?name, sc_desc = [], sc_func = 3\<rparr>" by (simp add: lpms_commands_def)
  have n: "plain_names (syscall_table (fresh_shell lpms_commands w))" using lpms_commands_plain by simp
  have words: "\<And>x. x \<in> set (?name @ ''1'') \<Longrightarrow> plain_key x \<and> \<not> is_blank x \<and> x \<noteq> CHR 0x22"
    by (auto simp: plain_key_def is_blank_def)
  have d: "drop (length ''pms_busy_clear 1'') ?j = replicate 64 CHR ''7''" "?name @ '' '' @ ''1'' = ''pms_busy_clear 1''"
    "sc_func \<lparr>sc_name = ?name, sc_desc = [], sc_func = 3\<rparr> = 3" by simp_all
  have "?name \<noteq> []" "''1'' \<noteq> []" "length (?name @ '' '' @ ''1'') < FINSH_CMD_SIZE" by simp_all
  then have "\<exists>sh out. finsh_input lpms_shell (?j @ (?name @ '' '' @ ''1'') @ [NL]) (fresh_shell lpms_commands w) =
      Some (line_done (snd (call_cmd lpms_shell (sc_func \<lparr>sc_name = ?name, sc_desc = [], sc_func = 3\<rparr>)
        [?name, ''1'' @ drop (length (?name @ '' '' @ ''1'')) ?j] ((fresh_shell lpms_commands w)\<lparr>shell := sh, printed := out\<rparr>))))"
    by (intro overlong_line_runs_on [OF fresh_shell_ok n junk f] words)
  then obtain sh out where r: "finsh_input lpms_shell (?j @ ''pms_busy_clear 1'' @ [NL]) (fresh_shell lpms_commands w) =
      Some (line_done (snd (call_cmd lpms_shell 3 [?name, ''1'' @ replicate 64 CHR ''7'']
        ((fresh_shell lpms_commands w)\<lparr>shell := sh, printed := out\<rparr>))))" (is "_ = Some (line_done ?s)")
    unfolding d by blast
  have "finsh.more (line_done ?s) = pms_busy_clear [?name, CHR ''1'' # replicate 64 CHR ''7''] w" by (simp add: lpms_shell_def)
  with r show "\<exists>s'. finsh_input lpms_shell (?j @ ''pms_busy_clear 1'' @ [NL]) (fresh_shell lpms_commands w) = Some s' \<and>
      finsh.more s' = pms_busy_clear [''pms_busy_clear'', CHR ''1'' # replicate 64 CHR ''7''] w"
    by blast
qed

end
