(* ===== verification/Work_Queue.thy ===== *)
theory Work_Queue
  imports Ipc
begin

text \<open>
  Work queues (\<^verbatim>\<open>workqueue.c\<close>) and wait queues (\<^verbatim>\<open>waitqueue.c\<close>). The nodes of a list are
  in \<open>node_lists\<close> at the address of its head, a node is named by the structure it lies in; taking
  a node out needs no list, it is in one at most. The worker thread's loop and waiting operations are
  split where the processor is given away and where the function of a work item is called. Soft
  timers are compiled out: the timer of a delayed item fires in the tick interrupt.
\<close>

abbreviation RT_EBUSY :: rt_err where "RT_EBUSY \<equiv> 7"
abbreviation RT_WORK_STATE_PENDING :: u16 where "RT_WORK_STATE_PENDING \<equiv> 1"
abbreviation RT_WORK_STATE_SUBMITTING :: u16 where "RT_WORK_STATE_SUBMITTING \<equiv> 2"
abbreviation RT_TIMER_FLAG_SOFT_TIMER :: u8 where "RT_TIMER_FLAG_SOFT_TIMER \<equiv> 4"
abbreviation RT_WQ_FLAG_CLEAN :: u32 where "RT_WQ_FLAG_CLEAN \<equiv> 0"
abbreviation RT_WQ_FLAG_WAKEUP :: u32 where "RT_WQ_FLAG_WAKEUP \<equiv> 1"

record rt_workqueue =
  work_current :: "nat option"
  work_thread :: nat

record rt_work =
  work_func :: fptr
  work_data :: nat
  work_flags :: u16
  work_type :: u16
  work_queue :: "nat option"

record rt_wqueue_node =
  polling_thread :: nat
  node_wakeup :: fptr
  node_key :: u32

record worker_system = ipc +
  workqueues :: "nat \<Rightarrow> rt_workqueue option"
  works :: "nat \<Rightarrow> rt_work option"
  wait_flag :: "nat \<Rightarrow> u32 option"
  wait_nodes :: "nat \<Rightarrow> rt_wqueue_node option"
  node_lists :: "nat \<Rightarrow> nat list"

text \<open>The addresses of the parts of a queue and of a work item.\<close>

definition work_list :: "nat \<Rightarrow> nat" where "work_list q = q"
definition delayed_list :: "nat \<Rightarrow> nat" where "delayed_list q = q + 8"
definition work_sem :: "nat \<Rightarrow> nat" where "work_sem q = q + 20"
definition work_timer :: "nat \<Rightarrow> nat" where "work_timer w = w + 20"
definition waiting_list :: "nat \<Rightarrow> nat" where "waiting_list q = q + 4"

section \<open>Lists and fields\<close>

definition node_remove :: "nat \<Rightarrow> 'x worker_system_scheme \<Rightarrow> 'x worker_system_scheme" where
  "node_remove n s = s\<lparr>node_lists := (\<lambda>l. remove1 n (node_lists s l))\<rparr>"

definition node_append :: "nat \<Rightarrow> nat \<Rightarrow> 'x worker_system_scheme \<Rightarrow> 'x worker_system_scheme" where
  "node_append l n s = s\<lparr>node_lists := (node_lists s)(l := node_lists s l @ [n])\<rparr>"

definition node_prepend :: "nat \<Rightarrow> nat \<Rightarrow> 'x worker_system_scheme \<Rightarrow> 'x worker_system_scheme" where
  "node_prepend l n s = s\<lparr>node_lists := (node_lists s)(l := n # node_lists s l)\<rparr>"

definition upd_work :: "nat \<Rightarrow> (rt_work \<Rightarrow> rt_work) \<Rightarrow> 'x worker_system_scheme \<Rightarrow> 'x worker_system_scheme" where
  "upd_work w f s = s\<lparr>works := (works s)(w := map_option f (works s w))\<rparr>"

definition set_current :: "nat \<Rightarrow> nat option \<Rightarrow> 'x worker_system_scheme \<Rightarrow> 'x worker_system_scheme" where
  "set_current q c s = s\<lparr>workqueues := (workqueues s)(q := map_option (\<lambda>k. k\<lparr>work_current := c\<rparr>) (workqueues s q))\<rparr>"

definition work_set :: "u16 \<Rightarrow> rt_work \<Rightarrow> rt_work" where
  "work_set m k = k\<lparr>work_flags := work_flags k OR m\<rparr>"

definition work_clear :: "u16 \<Rightarrow> rt_work \<Rightarrow> rt_work" where
  "work_clear m k = k\<lparr>work_flags := work_flags k AND NOT m\<rparr>"

definition rt_work_init :: "nat \<Rightarrow> fptr \<Rightarrow> nat \<Rightarrow> 'x worker_system_scheme \<Rightarrow> 'x worker_system_scheme" where
  "rt_work_init w func data s = s\<lparr>works := (works s)(w \<mapsto>
     \<lparr>work_func = func, work_data = data, work_flags = 0, work_type = 0, work_queue = None\<rparr>)\<rparr>"

section \<open>The worker thread\<close>

text \<open>\<open>fuel\<close> bounds the threads that wait for the end of the item.\<close>

fun completion_loop :: "nat \<Rightarrow> 'x worker_system_scheme scode \<Rightarrow> nat \<Rightarrow> 'x worker_system_scheme \<Rightarrow>
    (rt_err \<times> 'x worker_system_scheme) option" where
  "completion_loop fuel code a s = do {
     (r, s1) \<leftarrow> rt_sem_trytake code a s;
     if r = Returned (- RT_ETIMEOUT)
     then (case fuel of
        0 \<Rightarrow> None
      | Suc fuel' \<Rightarrow> do { (_, s2) \<leftarrow> rt_sem_release code a s1; completion_loop fuel' code a s2 })
     else if r = Returned RT_EOK then Some (RT_EOK, s1)
     else Some (- RT_ERROR, s1) }"

declare completion_loop.simps [simp del]

definition workqueue_work_completion :: "nat \<Rightarrow> 'x worker_system_scheme scode \<Rightarrow> nat \<Rightarrow> 'x worker_system_scheme \<Rightarrow>
    (rt_err \<times> 'x worker_system_scheme) option" where
  "workqueue_work_completion fuel code q s = do {
     (r, s1) \<leftarrow> completion_loop fuel code (work_sem q) (rt_enter_critical s);
     s2 \<leftarrow> rt_exit_critical code s1;
     Some (r, s2) }"

text \<open>
  A round of the loop in \<^verbatim>\<open>_workqueue_thread_entry\<close>: up to the call of the item's function, or to the
  end of the round when there is nothing to do; and what follows the call.
\<close>

definition worker_take :: "'x worker_system_scheme scode \<Rightarrow> nat \<Rightarrow> 'x worker_system_scheme \<Rightarrow>
    (nat option \<times> 'x worker_system_scheme) option" where
  "worker_take code q s = do {
     let (level, s1) = rt_hw_interrupt_disable s;
     (case node_lists s1 (work_list q) of
        [] \<Rightarrow> do {
          t \<leftarrow> rt_thread_self s1;
          (_, s2) \<leftarrow> rt_thread_suspend code t s1;
          s3 \<leftarrow> rt_schedule code (rt_hw_interrupt_enable level s2);
          Some (None, s3) }
      | w # _ \<Rightarrow>
          let s2 = set_current q (Some w) (node_remove w s1);
              s3 = upd_work w (\<lambda>k. (work_clear RT_WORK_STATE_PENDING k)\<lparr>work_queue := None\<rparr>) s2
          in Some (Some w, rt_hw_interrupt_enable level s3)) }"

definition worker_finish :: "nat \<Rightarrow> 'x worker_system_scheme scode \<Rightarrow> nat \<Rightarrow> 'x worker_system_scheme \<Rightarrow>
    'x worker_system_scheme option" where
  "worker_finish fuel code q s = map_option snd (workqueue_work_completion fuel code q (set_current q None s))"

text \<open>\<open>run\<close> is what the function of an item does with the item and its data, when it runs through.\<close>

definition worker_round :: "nat \<Rightarrow> 'x worker_system_scheme scode \<Rightarrow>
    (fptr \<Rightarrow> nat \<Rightarrow> nat \<Rightarrow> 'x worker_system_scheme \<Rightarrow> 'x worker_system_scheme option) \<Rightarrow> nat \<Rightarrow>
    'x worker_system_scheme \<Rightarrow> 'x worker_system_scheme option" where
  "worker_round fuel code run q s = do {
     (r, s1) \<leftarrow> worker_take code q s;
     (case r of None \<Rightarrow> Some s1
      | Some w \<Rightarrow> do {
          k \<leftarrow> works s1 w;
          s2 \<leftarrow> run (work_func k) w (work_data k) s1;
          worker_finish fuel code q s2 }) }"

text \<open>Wake the worker when it has nothing to do; the mask is \<open>level\<close> again.\<close>

definition wake_worker :: "'x worker_system_scheme scode \<Rightarrow> nat \<Rightarrow> u32 \<Rightarrow> 'x worker_system_scheme \<Rightarrow>
    'x worker_system_scheme option" where
  "wake_worker code q level s = do {
     wq \<leftarrow> workqueues s q;
     if work_current wq \<noteq> None then Some (rt_hw_interrupt_enable level s)
     else do {
       th \<leftarrow> threads s (work_thread wq);
       if state_of th = RT_THREAD_SUSPEND
       then do {
         (_, s1) \<leftarrow> rt_thread_resume code (work_thread wq) s;
         rt_schedule code (rt_hw_interrupt_enable level s1) }
       else Some (rt_hw_interrupt_enable level s) } }"

section \<open>Submitting and cancelling\<close>

text \<open>\<open>timeout_fptr\<close> is the address of \<^verbatim>\<open>_delayed_work_timeout_handler\<close>.\<close>

definition workqueue_submit_work :: "'x worker_system_scheme scode \<Rightarrow> fptr \<Rightarrow> nat \<Rightarrow> nat \<Rightarrow> u32 \<Rightarrow>
    'x worker_system_scheme \<Rightarrow> (rt_err \<times> 'x worker_system_scheme) option" where
  "workqueue_submit_work code timeout_fptr q w ticks s = do {
     let (level, s1) = rt_hw_interrupt_disable s;
     let s2 = upd_work w (work_clear RT_WORK_STATE_PENDING) (node_remove w s1);
     k \<leftarrow> works s2 w;
     if ticks = 0
     then do {
       wq \<leftarrow> workqueues s2 q;
       let (err, s3) = (if work_current wq \<noteq> Some w
         then (RT_EOK, upd_work w (\<lambda>k. (work_set RT_WORK_STATE_PENDING k)\<lparr>work_queue := Some q\<rparr>)
                 (node_append (work_list q) w s2))
         else (- RT_EBUSY, s2));
       s4 \<leftarrow> wake_worker code q level s3;
       Some (err, s4) }
     else if ticks < TICK_HALF
     then do {
       s3 \<leftarrow> (if work_flags k AND RT_WORK_STATE_SUBMITTING \<noteq> 0
         then do {
           (_, s3) \<leftarrow> rt_timer_stop (s_code code) (work_timer w) s2;
           (_, _, s4) \<leftarrow> rt_timer_control (work_timer w) 0 ticks s3;
           Some s4 }
         else map_option (upd_work w (work_set RT_WORK_STATE_SUBMITTING))
           (rt_timer_init (s_code code) (work_timer w) ''work'' timeout_fptr w ticks RT_TIMER_FLAG_SOFT_TIMER s2));
       let s4 = node_append (delayed_list q) w (upd_work w (\<lambda>k. k\<lparr>work_queue := Some q\<rparr>) s3);
       (_, s5) \<leftarrow> rt_timer_start (s_code code) (work_timer w) (rt_hw_interrupt_enable level s4);
       Some (RT_EOK, s5) }
     else Some (- RT_ERROR, rt_hw_interrupt_enable level s2) }"

definition rt_workqueue_dowork :: "'x worker_system_scheme scode \<Rightarrow> fptr \<Rightarrow> nat \<Rightarrow> nat \<Rightarrow>
    'x worker_system_scheme \<Rightarrow> (rt_err \<times> 'x worker_system_scheme) option" where
  "rt_workqueue_dowork code timeout_fptr q w = workqueue_submit_work code timeout_fptr q w 0"

definition rt_workqueue_submit_work :: "'x worker_system_scheme scode \<Rightarrow> fptr \<Rightarrow> nat \<Rightarrow> nat \<Rightarrow> u32 \<Rightarrow>
    'x worker_system_scheme \<Rightarrow> (rt_err \<times> 'x worker_system_scheme) option" where
  "rt_workqueue_submit_work = workqueue_submit_work"

definition rt_workqueue_critical_work :: "'x worker_system_scheme scode \<Rightarrow> nat \<Rightarrow> nat \<Rightarrow>
    'x worker_system_scheme \<Rightarrow> (rt_err \<times> 'x worker_system_scheme) option" where
  "rt_workqueue_critical_work code q w s =
    (let (level, s1) = rt_hw_interrupt_disable s
     in map_option (Pair RT_EOK) (wake_worker code q level (node_prepend (work_list q) w (node_remove w s1))))"

definition workqueue_cancel_work :: "'x worker_system_scheme scode \<Rightarrow> nat \<Rightarrow> nat \<Rightarrow>
    'x worker_system_scheme \<Rightarrow> (rt_err \<times> 'x worker_system_scheme) option" where
  "workqueue_cancel_work code q w s = do {
     let (level, s1) = rt_hw_interrupt_disable s;
     let s2 = upd_work w (work_clear RT_WORK_STATE_PENDING) (node_remove w s1);
     k \<leftarrow> works s2 w;
     s3 \<leftarrow> (if work_flags k AND RT_WORK_STATE_SUBMITTING \<noteq> 0
       then do {
         (_, s3) \<leftarrow> rt_timer_stop (s_code code) (work_timer w) s2;
         (_, s4) \<leftarrow> rt_timer_detach (s_code code) (work_timer w) s3;
         Some (upd_work w (work_clear RT_WORK_STATE_SUBMITTING) s4) }
       else Some s2);
     wq \<leftarrow> workqueues s3 q;
     Some (if work_current wq \<noteq> Some w then RT_EOK else - RT_EBUSY,
       rt_hw_interrupt_enable level (upd_work w (\<lambda>k. k\<lparr>work_queue := None\<rparr>) s3)) }"

definition rt_workqueue_cancel_work :: "'x worker_system_scheme scode \<Rightarrow> nat \<Rightarrow> nat \<Rightarrow>
    'x worker_system_scheme \<Rightarrow> (rt_err \<times> 'x worker_system_scheme) option" where
  "rt_workqueue_cancel_work = workqueue_cancel_work"

text \<open>When the item runs, the caller waits for its end; the rest of the wait is that of the semaphore.\<close>

definition rt_workqueue_cancel_work_sync :: "'x worker_system_scheme scode \<Rightarrow> nat \<Rightarrow> nat \<Rightarrow>
    'x worker_system_scheme \<Rightarrow> (rt_err progress \<times> 'x worker_system_scheme) option" where
  "rt_workqueue_cancel_work_sync code q w s = do {
     wq \<leftarrow> workqueues s q;
     if work_current wq = Some w
     then do {
       (p, s1) \<leftarrow> rt_sem_take code (work_sem q) (- 1) s;
       Some (case p of Waiting \<Rightarrow> Waiting | Returned _ \<Rightarrow> Returned RT_EOK, s1) }
     else do { (_, s1) \<leftarrow> workqueue_cancel_work code q w s; Some (Returned RT_EOK, s1) } }"

text \<open>The loops of \<^verbatim>\<open>rt_workqueue_cancel_all_work\<close>; \<open>fuel\<close> bounds the items in the list \<open>l\<close>.\<close>

fun cancel_list :: "nat \<Rightarrow> 'x worker_system_scheme scode \<Rightarrow> nat \<Rightarrow> nat \<Rightarrow> 'x worker_system_scheme \<Rightarrow>
    'x worker_system_scheme option" where
  "cancel_list fuel code q l s = (case node_lists s l of
     [] \<Rightarrow> Some s
   | w # _ \<Rightarrow> (case fuel of
       0 \<Rightarrow> None
     | Suc fuel' \<Rightarrow> do { (_, s1) \<leftarrow> workqueue_cancel_work code q w s; cancel_list fuel' code q l s1 }))"

declare cancel_list.simps [simp del]

definition rt_workqueue_cancel_all_work :: "nat \<Rightarrow> 'x worker_system_scheme scode \<Rightarrow> nat \<Rightarrow>
    'x worker_system_scheme \<Rightarrow> (rt_err \<times> 'x worker_system_scheme) option" where
  "rt_workqueue_cancel_all_work fuel code q s = do {
     s1 \<leftarrow> cancel_list fuel code q (work_list q) (rt_enter_critical s);
     s2 \<leftarrow> cancel_list fuel code q (delayed_list q) s1;
     s3 \<leftarrow> rt_exit_critical code s2;
     Some (RT_EOK, s3) }"

definition delayed_work_timeout_handler :: "'x worker_system_scheme scode \<Rightarrow> nat \<Rightarrow> 'x worker_system_scheme \<Rightarrow>
    'x worker_system_scheme option" where
  "delayed_work_timeout_handler code w s = do {
     k \<leftarrow> works s w;
     RT_ASSERT (work_queue k \<noteq> None);
     q \<leftarrow> work_queue k;
     let (level, s1) = rt_hw_interrupt_disable s;
     (_, s2) \<leftarrow> rt_timer_detach (s_code code) (work_timer w) s1;
     let s3 = node_remove w (upd_work w (work_clear RT_WORK_STATE_SUBMITTING) s2);
     wq \<leftarrow> workqueues s3 q;
     let s4 = (if work_current wq \<noteq> Some w
       then upd_work w (work_set RT_WORK_STATE_PENDING) (node_append (work_list q) w s3) else s3);
     wake_worker code q level s4 }"

section \<open>Creating and destroying\<close>

text \<open>
  \<open>mem\<close>, \<open>tmem\<close> and \<open>stack\<close> are what the allocations return, \<open>entry\<close> is the address of
  \<^verbatim>\<open>_workqueue_thread_entry\<close>. The memory that is released is a result beside the state.
\<close>

definition rt_workqueue_create :: "'x worker_system_scheme scode \<Rightarrow> nat option \<Rightarrow> nat option \<Rightarrow> nat option \<Rightarrow> fptr \<Rightarrow>
    string \<Rightarrow> u16 \<Rightarrow> u8 \<Rightarrow> 'x worker_system_scheme \<Rightarrow> (nat option \<times> nat option \<times> 'x worker_system_scheme) option" where
  "rt_workqueue_create code mem tmem stack entry name sz priority s = (case mem of
     None \<Rightarrow> Some (None, None, s)
   | Some q \<Rightarrow> do {
       let s1 = s\<lparr>node_lists := (node_lists s)(work_list q := [], delayed_list q := []),
                  workqueues := (workqueues s)(q \<mapsto> \<lparr>work_current = None, work_thread = 0\<rparr>)\<rparr>;
       (_, s2) \<leftarrow> rt_sem_init code (work_sem q) ''wqueue'' 0 RT_IPC_FLAG_FIFO s1;
       (tid, s3) \<leftarrow> rt_thread_create code tmem stack name entry q (ucast sz) priority 10 s2;
       (case tid of
          None \<Rightarrow> Some (None, Some q, s3\<lparr>workqueues := (workqueues s3)(q := None)\<rparr>)
        | Some t \<Rightarrow> do {
            (_, s4) \<leftarrow> rt_thread_startup code t (s3\<lparr>workqueues := (workqueues s3)(q \<mapsto> \<lparr>work_current = None, work_thread = t\<rparr>)\<rparr>);
            Some (Some q, None, s4) }) })"

definition rt_workqueue_destroy :: "nat \<Rightarrow> 'x worker_system_scheme scode \<Rightarrow> nat \<Rightarrow> 'x worker_system_scheme \<Rightarrow>
    (rt_err \<times> nat \<times> 'x worker_system_scheme) option" where
  "rt_workqueue_destroy fuel code q s = do {
     (_, s1) \<leftarrow> rt_workqueue_cancel_all_work fuel code q s;
     wq \<leftarrow> workqueues s1 q;
     (_, s2) \<leftarrow> rt_thread_delete code (work_thread wq) s1;
     (_, s3) \<leftarrow> rt_sem_detach fuel code (work_sem q) s2;
     Some (RT_EOK, q, s3\<lparr>workqueues := (workqueues s3)(q := None)\<rparr>) }"

section \<open>Wait queues\<close>

definition rt_wqueue_init :: "nat \<Rightarrow> 'x worker_system_scheme \<Rightarrow> 'x worker_system_scheme" where
  "rt_wqueue_init q s = s\<lparr>wait_flag := (wait_flag s)(q \<mapsto> RT_WQ_FLAG_CLEAN),
     node_lists := (node_lists s)(waiting_list q := [])\<rparr>"

definition rt_wqueue_add :: "nat \<Rightarrow> nat \<Rightarrow> 'x worker_system_scheme \<Rightarrow> 'x worker_system_scheme" where
  "rt_wqueue_add q n s = (let (level, s1) = rt_hw_interrupt_disable s
     in rt_hw_interrupt_enable level (node_append (waiting_list q) n s1))"

definition rt_wqueue_remove :: "nat \<Rightarrow> 'x worker_system_scheme \<Rightarrow> 'x worker_system_scheme" where
  "rt_wqueue_remove n s = (let (level, s1) = rt_hw_interrupt_disable s
     in rt_hw_interrupt_enable level (node_remove n s1))"

definition wqueue_default_wake :: "rt_wqueue_node \<Rightarrow> nat \<Rightarrow> int" where
  "wqueue_default_wake wait key = 0"

text \<open>
  The first node of the list whose function says 0. The functions are a parameter, \<open>default_fptr\<close>
  is the address of the one above; they look at the node and the key and change nothing.
\<close>

record wake_code =
  default_fptr :: fptr
  call_wakeup :: "fptr \<Rightarrow> rt_wqueue_node \<Rightarrow> nat \<Rightarrow> int"

definition says_wake :: "wake_code \<Rightarrow> nat \<Rightarrow> rt_wqueue_node \<Rightarrow> bool" where
  "says_wake wc key n \<longleftrightarrow>
    (if node_wakeup n = default_fptr wc then wqueue_default_wake n key else call_wakeup wc (node_wakeup n) n key) = 0"

fun first_waker :: "wake_code \<Rightarrow> nat \<Rightarrow> (nat \<Rightarrow> rt_wqueue_node option) \<Rightarrow> nat list \<Rightarrow> (nat \<times> rt_wqueue_node) option option" where
  "first_waker wc key nodes [] = Some None"
| "first_waker wc key nodes (a # as) = do {
     n \<leftarrow> nodes a;
     if says_wake wc key n then Some (Some (a, n)) else first_waker wc key nodes as }"

definition rt_wqueue_wakeup :: "'x worker_system_scheme scode \<Rightarrow> wake_code \<Rightarrow> nat \<Rightarrow> nat \<Rightarrow> 'x worker_system_scheme \<Rightarrow>
    'x worker_system_scheme option" where
  "rt_wqueue_wakeup code wc q key s = do {
     let (level, s1) = rt_hw_interrupt_disable s;
     let s2 = s1\<lparr>wait_flag := (wait_flag s1)(q \<mapsto> RT_WQ_FLAG_WAKEUP)\<rparr>;
     found \<leftarrow> first_waker wc key (wait_nodes s2) (node_lists s2 (waiting_list q));
     (case found of
        None \<Rightarrow> Some (rt_hw_interrupt_enable level s2)
      | Some (a, n) \<Rightarrow> do {
          (_, s3) \<leftarrow> rt_thread_resume code (polling_thread n) s2;
          rt_schedule code (rt_hw_interrupt_enable level (rt_wqueue_remove a s3)) }) }"

text \<open>The end of a wait: the flag is cleared, the node leaves the list. The result is always 0.\<close>

definition wqueue_waited :: "nat \<Rightarrow> nat \<Rightarrow> u32 \<Rightarrow> 'x worker_system_scheme \<Rightarrow> 'x worker_system_scheme" where
  "wqueue_waited q node level s =
     rt_wqueue_remove node (rt_hw_interrupt_enable level (s\<lparr>wait_flag := (wait_flag s)(q \<mapsto> RT_WQ_FLAG_CLEAN)\<rparr>))"

definition wqueue_woken :: "nat \<Rightarrow> nat \<Rightarrow> 'x worker_system_scheme \<Rightarrow> (int \<times> 'x worker_system_scheme) option" where
  "wqueue_woken q node s = (let (level, s1) = rt_hw_interrupt_disable s in Some (0, wqueue_waited q node level s1))"

text \<open>\<open>node\<close> is the address of the local \<^verbatim>\<open>__wait\<close>.\<close>

definition rt_wqueue_wait :: "'x worker_system_scheme scode \<Rightarrow> wake_code \<Rightarrow> nat \<Rightarrow> nat \<Rightarrow> int \<Rightarrow> int \<Rightarrow> 'x worker_system_scheme \<Rightarrow>
    (int progress \<times> 'x worker_system_scheme) option" where
  "rt_wqueue_wait code wc q node condition msec s = do {
     RT_ASSERT (rt_interrupt_nest s = 0);
     let tick = rt_tick_from_millisecond msec;
     if condition \<noteq> 0 \<or> tick = 0 then Some (Returned 0, s)
     else do {
       t \<leftarrow> rt_thread_self s;
       let s0 = s\<lparr>wait_nodes := (wait_nodes s)(node \<mapsto>
         \<lparr>polling_thread = t, node_wakeup = default_fptr wc, node_key = 0\<rparr>)\<rparr>;
       let (level, s1) = rt_hw_interrupt_disable s0;
       flag \<leftarrow> wait_flag s1 q;
       if flag = RT_WQ_FLAG_WAKEUP then Some (Returned 0, wqueue_waited q node level s1)
       else do {
         (_, s2) \<leftarrow> rt_thread_suspend code t (rt_wqueue_add q node s1);
         s3 \<leftarrow> (if tick \<noteq> - 1 then start_thread_timer code t tick s2 else Some s2);
         s4 \<leftarrow> rt_schedule code (rt_hw_interrupt_enable level s3);
         go_on t (wqueue_woken q node) s4 } } }"

end
