(* ===== verification/Work_Queue_Behaviour.thy ===== *)
theory Work_Queue_Behaviour
  imports Work_Queue Ipc_Steps Example_System
begin

text \<open>
  A work queue and its worker among other threads: the items run in the order of the list, the worker
  never sleeps over one, who waits for the end of an item is woken, and what a delayed item does that is
  submitted again.
\<close>

section \<open>States that differ in items, lists and locks\<close>

lemma ipc_ok_cong:
  assumes "thread_ok s' = thread_ok s" "rt_current_thread s' = rt_current_thread s" "semaphores s' = semaphores s"
    "mutexes s' = mutexes s" "objects s' = objects s" "threads s' = threads s" "suspend_thread s' = suspend_thread s"
  shows "ipc_ok s' = ipc_ok s"
  unfolding ipc_ok_def sem_ok_def mutex_ok_def alive_def is_sem_def is_mutex_def rt_object_get_type_def assms ..

lemma ipc_ok_upd [simp]:
  "ipc_ok (s\<lparr>works := x\<rparr>) = ipc_ok s" "ipc_ok (s\<lparr>workqueues := y\<rparr>) = ipc_ok s" "ipc_ok (s\<lparr>node_lists := z\<rparr>) = ipc_ok s"
  "ipc_ok (s\<lparr>rt_scheduler_lock_nest := n\<rparr>) = ipc_ok s" "ipc_ok (s\<lparr>primask := m\<rparr>) = ipc_ok s"
  by (intro ipc_ok_cong thread_ok_cong; simp add: hooks_off_def)+

definition awake :: "nat \<Rightarrow> 'x sched_scheme \<Rightarrow> bool" where
  "awake t s \<longleftrightarrow> (\<exists>th. threads s t = Some th \<and> (state_of th = RT_THREAD_READY \<or> state_of th = RT_THREAD_RUNNING))"

text \<open>A thread that waits or can run.\<close>

definition able :: "nat \<Rightarrow> 'x sched_scheme \<Rightarrow> bool" where
  "able t s \<longleftrightarrow> awake t s \<or> (\<exists>th. threads s t = Some th \<and> state_of th = RT_THREAD_SUSPEND)"

lemma awake_cong: "threads s' = threads s \<Longrightarrow> awake t s' = awake t s" "threads s' = threads s \<Longrightarrow> able t s' = able t s"
  by (simp_all add: awake_def able_def)

lemma awake_able: "awake t s \<Longrightarrow> able t s" by (simp add: able_def)

lemma step_awake:
  assumes "sched_step s s'"
  shows "awake t s \<Longrightarrow> awake t s'" and "able t s \<Longrightarrow> able t s'"
proof -
  have "\<exists>th'. threads s' t = Some th' \<and> (state_of th' = state_of th \<or> {state_of th, state_of th'} = {RT_THREAD_READY, RT_THREAD_RUNNING})"
    if "threads s t = Some th" for th using assms that unfolding sched_step_def by blast
  then show "awake t s \<Longrightarrow> awake t s'" "able t s \<Longrightarrow> able t s'" by (fastforce simp: awake_def able_def doubleton_eq_iff)+
qed

text \<open>What the operations on threads keep of the rest.\<close>

definition kept :: "'x worker_system_scheme \<Rightarrow> 'x worker_system_scheme \<Rightarrow> bool" where
  "kept s s' \<longleftrightarrow> ipc_ok s' \<and> (\<forall>t. awake t s \<longrightarrow> awake t s') \<and> (\<forall>t. able t s \<longrightarrow> able t s') \<and>
     semaphores s' = semaphores s \<and> workqueues s' = workqueues s \<and> works s' = works s \<and> node_lists s' = node_lists s"

lemma kept_trans [trans]: "kept s1 s2 \<Longrightarrow> kept s2 s3 \<Longrightarrow> kept s1 s3"
  by (simp add: kept_def)

lemma same_workers:
  assumes "sched.more s' = sched.more s"
  shows "workqueues s' = workqueues s" "works s' = works s" "node_lists s' = node_lists s"
  using assms by (cases s; cases s'; simp)+

lemma schedule_kept:
  assumes "ipc_ok s"
  shows "\<exists>s'. rt_schedule code s = Some s' \<and> kept s s' \<and> suspend_thread s' = suspend_thread s"
proof -
  note K = ipc_okD [OF assms]
  from schedule_move [OF K(1,2), of code] obtain s' where
    s': "rt_schedule code s = Some s'" "thread_move s s'" "sched_step s s'" by blast
  have m: "sched.more s' = sched.more s" using s'(2) by (simp add: thread_move_def)
  have "kept s s'"
    using ipc_ok_move [OF assms s'(2)] step_awake [OF s'(3)] same_workers [OF m] same_ipc(1) [OF m] by (simp add: kept_def)
  with s'(1,3) show ?thesis by (simp add: sched_step_def)
qed

lemma resume_awake:
  assumes ok: "ipc_ok s" and th: "threads s t = Some th" "state_of th = RT_THREAD_SUSPEND"
  shows "\<exists>s1. rt_thread_resume code t s = Some (RT_EOK, s1) \<and> ipc_ok s1 \<and> sched.more s1 = sched.more s \<and> awake t s1 \<and>
    (\<forall>u. awake u s \<longrightarrow> awake u s1) \<and> (\<forall>u. able u s \<longrightarrow> able u s1)"
proof -
  note K = ipc_okD [OF ok]
  from resume_ok [OF K(1) th, of code] obtain s1 where
    s1: "rt_thread_resume code t s = Some (RT_EOK, s1)" "thread_ok s1" "frame s1 s"
      "threads s1 = (threads s)(t \<mapsto> set_stat (back_state s t) th)"
      "suspend_thread s1 = (\<lambda>a. remove1 t (suspend_thread s a))" "rt_current_thread s1 = rt_current_thread s" by blast
  have al: "alive s u \<Longrightarrow> alive s1 u" for u using alive_upd [OF s1(4) _] by (simp add: back_state_def)
  have "thread_move s s1"
    using s1(2,5,6) frameD [OF s1(3)] al set_remove1_subset unfolding thread_move_def by fastforce
  then have "ipc_ok s1" by (rule ipc_ok_move [OF ok])
  moreover have "state_of (set_stat (back_state s t) th) \<in> {RT_THREAD_READY, RT_THREAD_RUNNING}"
    using back_state_values [of s t] by (auto simp: back_state_def)
  then have "awake t s1 \<and> (\<forall>u. awake u s \<longrightarrow> awake u s1) \<and> (\<forall>u. able u s \<longrightarrow> able u s1)"
    by (auto simp: awake_def able_def s1(4))
  ultimately show ?thesis using s1(1) frameD(5) [OF s1(3)] by blast
qed

lemma resume_kept:
  assumes ok: "ipc_ok s" and th: "threads s t = Some th" "state_of th = RT_THREAD_SUSPEND"
  shows "\<exists>s1 s2. rt_thread_resume code t s = Some (RT_EOK, s1) \<and> rt_schedule code (s1\<lparr>primask := m\<rparr>) = Some s2 \<and>
    kept s s2 \<and> awake t s2"
proof -
  from resume_awake [OF assms, of code] obtain s1 where
    s1: "rt_thread_resume code t s = Some (RT_EOK, s1)" "ipc_ok s1" "sched.more s1 = sched.more s"
      "awake t s1" "\<And>u. awake u s \<Longrightarrow> awake u s1" "\<And>u. able u s \<Longrightarrow> able u s1" by blast
  from schedule_kept [of "s1\<lparr>primask := m\<rparr>" code] s1(2) obtain s2 where
    s2: "rt_schedule code (s1\<lparr>primask := m\<rparr>) = Some s2" "kept (s1\<lparr>primask := m\<rparr>) s2" by auto
  have "awake u (s1\<lparr>primask := m\<rparr>) = awake u s1" "able u (s1\<lparr>primask := m\<rparr>) = able u s1" for u by (rule awake_cong; simp)+
  then have "kept s s2" "awake t s2" using s2(2) s1(4-6) same_workers [OF s1(3)] same_ipc(1) [OF s1(3)] by (simp_all add: kept_def)
  with s1(1) s2(1) show ?thesis by blast
qed

section \<open>The end of an item\<close>

lemma trytake_empty:
  assumes "ipc_ok s" and "semaphores s a = Some sem" and "sem_value sem = 0"
  shows "rt_sem_trytake code a s = Some (Returned (- RT_ETIMEOUT), s)"
  using ipc_okD(3) [OF assms(1,2)] ipc_okD(5) [OF assms(1)] assms(2,3)
  by (simp add: rt_sem_trytake_def rt_sem_take_def sem_ok_def irq_defs)

text \<open>A release of a semaphore on which a thread waits.\<close>

lemma release_kept:
  assumes ok: "ipc_ok s" and sem: "semaphores s a = Some sem" and l: "suspend_thread s a = t # ts"
  shows "\<exists>s'. rt_sem_release code a s = Some (RT_EOK, s') \<and> kept s s' \<and> suspend_thread s' a = ts \<and> awake t s'"
proof -
  note S = ipc_okD(3) [OF ok sem, unfolded sem_ok_def]
  let ?s = "s\<lparr>primask := 1\<rparr>"
  from sched_invD(7) [OF thread_okD(2) [OF ipc_okD(1) [OF ok]], of t a] l obtain th where
    th: "threads ?s t = Some th" "state_of th = RT_THREAD_SUSPEND" by auto
  have "ipc_ok ?s" using ok by simp
  from resume_kept [OF this th, of code "primask s"] obtain s1 s2 where
    r: "rt_thread_resume code t ?s = Some (RT_EOK, s1)" "rt_schedule code (s1\<lparr>primask := primask s\<rparr>) = Some s2"
      "kept ?s s2" "awake t s2" by blast
  have run: "rt_sem_release code a s = Some (RT_EOK, s2)"
    using S ipc_okD(5) [OF ok] sem l r(1,2) by (simp add: rt_sem_release_def ipc_list_resume_def irq_defs)
  have "awake u ?s = awake u s" "able u ?s = able u s" for u by (rule awake_cong; simp)+
  then have "kept s s2" using r(3) by (simp add: kept_def)
  moreover have "suspend_thread s2 a = ts" using sem_release_ok [OF ok sem, of code] run l by auto
  ultimately show ?thesis using run r(4) by blast
qed

text \<open>A release that counts up, and the take that follows it.\<close>

lemma count_and_take:
  assumes ok: "ipc_ok s" and sem: "semaphores s a = Some sem" "sem_value sem = 0" and l: "suspend_thread s a = []"
  shows "\<exists>s1. rt_sem_release code a s = Some (RT_EOK, s1) \<and> rt_sem_trytake code a s1 = Some (Returned RT_EOK, s)"
proof -
  note S = ipc_okD(3) [OF ok sem(1), unfolded sem_ok_def]
  let ?s = "set_sem a (sem\<lparr>sem_value := 1\<rparr>) s"
  have rel: "rt_sem_release code a s = Some (RT_EOK, ?s)"
    using S ipc_okD(5) [OF ok] sem l by (simp add: rt_sem_release_def irq_defs) (simp add: set_sem_def)
  have off: "hooks_off ?s" using ipc_okD(5) [OF ok] by (simp add: set_sem_def hooks_off_def)
  have again: "set_sem a (sem\<lparr>sem_value := 0\<rparr>) ?s = s"
    using sem by (cases sem) (simp add: set_sem_def fun_upd_idem)
  have "rt_sem_trytake code a ?s = Some (Returned RT_EOK, s)"
    using S off again by (simp add: rt_sem_trytake_def rt_sem_take_def irq_defs) (simp add: set_sem_def hooks_off_def)
  with rel show ?thesis by blast
qed

lemma completion_loop_ok:
  assumes "ipc_ok s" and "semaphores s a = Some sem" and "sem_value sem = 0" and "length (suspend_thread s a) < fuel"
  shows "\<exists>s'. completion_loop fuel code a s = Some (RT_EOK, s') \<and> kept s s' \<and> suspend_thread s' a = [] \<and>
    (\<forall>t \<in> set (suspend_thread s a). awake t s')"
  using assms
proof (induction "suspend_thread s a" arbitrary: s fuel)
  case Nil
  then obtain n where n: "fuel = Suc n" by (cases fuel) auto
  from count_and_take [OF Nil(2-4) Nil(1) [symmetric], of code] trytake_empty [OF Nil(2-4), of code]
  have "completion_loop fuel code a s = Some (RT_EOK, s)" by (auto simp: n completion_loop.simps)
  with Nil show ?case by (simp add: kept_def)
next
  case (Cons t ts)
  then obtain n where n: "fuel = Suc n" by (cases fuel) auto
  from release_kept [OF Cons(3,4) Cons(2) [symmetric], of code] obtain s1 where
    s1: "rt_sem_release code a s = Some (RT_EOK, s1)" "kept s s1" "suspend_thread s1 a = ts" "awake t s1" by blast
  have "ipc_ok s1" "semaphores s1 a = Some sem" "length (suspend_thread s1 a) < n"
    using s1(2,3) Cons(2,4,6) n by (simp_all add: kept_def flip: Cons(2))
  from Cons(1) [OF s1(3) [symmetric] this(1,2) Cons(5) this(3)] obtain s' where
    s': "completion_loop n code a s1 = Some (RT_EOK, s')" "kept s1 s'" "suspend_thread s' a = []"
      "\<forall>u \<in> set ts. awake u s'" unfolding s1(3) by blast
  have "completion_loop fuel code a s = Some (RT_EOK, s')"
    using trytake_empty [OF Cons(3-5), of code] s1(1) s'(1) by (simp add: n completion_loop.simps [of "Suc n"])
  moreover have "awake t s'" using s'(2) s1(4) by (simp add: kept_def)
  ultimately show ?case using kept_trans [OF s1(2) s'(2)] s'(3,4) by (simp flip: Cons(2))
qed

lemma lock_kept:
  assumes "ipc_ok s"
  shows "kept s (rt_enter_critical s)" "suspend_thread (rt_enter_critical s) = suspend_thread s"
    and "\<exists>s'. rt_exit_critical code s = Some s' \<and> kept s s' \<and> suspend_thread s' = suspend_thread s"
proof -
  have same: "kept s s'" if "ipc_ok s'" "threads s' = threads s" "semaphores s' = semaphores s" "workqueues s' = workqueues s"
    "works s' = works s" "node_lists s' = node_lists s" for s' :: "'a worker_system_scheme"
    using that awake_cong [OF that(2)] by (simp add: kept_def)
  show "suspend_thread (rt_enter_critical s) = suspend_thread s" by (simp add: rt_enter_critical_def irq_defs)
  show "kept s (rt_enter_critical s)" by (rule same) (use assms in \<open>simp_all add: rt_enter_critical_def irq_defs\<close>)
  have low: "kept s (s\<lparr>rt_scheduler_lock_nest := n\<rparr>)" for n by (rule same) (use assms in simp_all)
  have "ipc_ok (s\<lparr>rt_scheduler_lock_nest := n\<rparr>)" for n using assms by simp
  from schedule_kept [OF this, of code] obtain s' where
    s': "rt_schedule code (s\<lparr>rt_scheduler_lock_nest := 0\<rparr>) = Some s'" "kept (s\<lparr>rt_scheduler_lock_nest := 0\<rparr>) s'"
      "suspend_thread s' = suspend_thread (s\<lparr>rt_scheduler_lock_nest := 0\<rparr>)" by blast
  show "\<exists>s'. rt_exit_critical code s = Some s' \<and> kept s s' \<and> suspend_thread s' = suspend_thread s"
    using s' low kept_trans [OF low s'(2)] ipc_okD(2) [OF assms] by (auto simp: rt_exit_critical_def irq_defs Let_def)
qed

lemma work_completion_ok:
  assumes ok: "ipc_ok s" and sem: "semaphores s (work_sem q) = Some sem" "sem_value sem = 0"
    and fuel: "length (suspend_thread s (work_sem q)) < fuel"
  shows "\<exists>s'. workqueue_work_completion fuel code q s = Some (RT_EOK, s') \<and> kept s s' \<and>
    suspend_thread s' (work_sem q) = [] \<and> (\<forall>t \<in> set (suspend_thread s (work_sem q)). awake t s')"
proof -
  note E = lock_kept(1,2) [OF ok]
  then have "ipc_ok (rt_enter_critical s)" "semaphores (rt_enter_critical s) (work_sem q) = Some sem"
    using sem(1) by (simp_all add: kept_def)
  from completion_loop_ok [OF this sem(2), of fuel code] fuel E(2) obtain s1 where
    s1: "completion_loop fuel code (work_sem q) (rt_enter_critical s) = Some (RT_EOK, s1)" "kept (rt_enter_critical s) s1"
      "suspend_thread s1 (work_sem q) = []" "\<forall>t \<in> set (suspend_thread s (work_sem q)). awake t s1" by auto
  from s1(2) have "ipc_ok s1" by (simp add: kept_def)
  from lock_kept(3) [OF this, of code] obtain s2 where
    s2: "rt_exit_critical code s1 = Some s2" "kept s1 s2" "suspend_thread s2 = suspend_thread s1" by blast
  have "workqueue_work_completion fuel code q s = Some (RT_EOK, s2)" using s1(1) s2(1) by (simp add: workqueue_work_completion_def)
  moreover have "\<forall>t \<in> set (suspend_thread s (work_sem q)). awake t s2" using s1(4) s2(2) by (simp add: kept_def)
  ultimately show ?thesis using kept_trans [OF kept_trans [OF E(1) s1(2)] s2(2)] s2(3) s1(3) by simp
qed

section \<open>The queue and its worker\<close>

text \<open>
  The worker waits or can run, and can run when items wait and none runs; nobody is owed the end of an
  item; no item has a timer that runs.
\<close>

definition work_ok :: "nat \<Rightarrow> 'x worker_system_scheme \<Rightarrow> bool" where
  "work_ok q s \<longleftrightarrow> ipc_ok s \<and> (\<exists>wq sem. workqueues s q = Some wq \<and> semaphores s (work_sem q) = Some sem \<and> sem_value sem = 0 \<and>
     able (work_thread wq) s \<and> (node_lists s (work_list q) \<noteq> [] \<longrightarrow> work_current wq = None \<longrightarrow> awake (work_thread wq) s)) \<and>
     (\<forall>w k. works s w = Some k \<longrightarrow> work_flags k AND RT_WORK_STATE_SUBMITTING = 0)"

text \<open>The items that wait, and the one that runs.\<close>

definition work_view :: "nat \<Rightarrow> 'x worker_system_scheme \<Rightarrow> nat list \<times> nat option" where
  "work_view q s = (node_lists s (work_list q), Option.bind (workqueues s q) work_current)"

lemma work_flag_kept:
  "work_flags (work_clear RT_WORK_STATE_PENDING k) AND RT_WORK_STATE_SUBMITTING = work_flags k AND RT_WORK_STATE_SUBMITTING"
  "work_flags (work_set RT_WORK_STATE_PENDING k) AND RT_WORK_STATE_SUBMITTING = work_flags k AND RT_WORK_STATE_SUBMITTING"
proof -
  have "(x AND NOT 1) AND 2 = x AND (2 :: u16)" "(x OR 1) AND 2 = x AND (2 :: u16)" for x
    by (rule bit_word_eqI; auto simp: bit_simps bit_2_iff)+
  then show "work_flags (work_clear RT_WORK_STATE_PENDING k) AND RT_WORK_STATE_SUBMITTING = work_flags k AND RT_WORK_STATE_SUBMITTING"
    "work_flags (work_set RT_WORK_STATE_PENDING k) AND RT_WORK_STATE_SUBMITTING = work_flags k AND RT_WORK_STATE_SUBMITTING"
    by (simp_all add: work_clear_def work_set_def)
qed

text \<open>What a step may change before the worker is woken.\<close>

definition changed :: "nat \<Rightarrow> nat list \<Rightarrow> 'x worker_system_scheme \<Rightarrow> 'x worker_system_scheme \<Rightarrow> bool" where
  "changed q p s s' \<longleftrightarrow> ipc_ok s' \<and> threads s' = threads s \<and> semaphores s' = semaphores s \<and> workqueues s' = workqueues s \<and>
     node_lists s' (work_list q) = p \<and> dom (works s') = dom (works s) \<and>
     (\<forall>w k. works s' w = Some k \<longrightarrow> work_flags k AND RT_WORK_STATE_SUBMITTING = 0)"

lemma wake_worker_ok:
  assumes ok: "work_ok q s" and ch: "changed q p s s1"
  shows "\<exists>s'. wake_worker code q m s1 = Some s' \<and> work_ok q s' \<and>
    work_view q s' = (p, snd (work_view q s)) \<and> dom (works s') = dom (works s)"
proof -
  from ok obtain wq sem where Q: "workqueues s q = Some wq" "semaphores s (work_sem q) = Some sem" "sem_value sem = 0"
    "able (work_thread wq) s" by (auto simp: work_ok_def)
  have C: "ipc_ok s1" "workqueues s1 q = Some wq" "semaphores s1 (work_sem q) = Some sem" "able (work_thread wq) s1"
    using ch Q awake_cong(2) [of s1 s] by (auto simp: changed_def)
  have final: "work_ok q s' \<and> work_view q s' = (p, snd (work_view q s)) \<and> dom (works s') = dom (works s)"
    if "kept s1 s'" "work_current wq = None \<Longrightarrow> awake (work_thread wq) s'" for s'
    using that ch Q C unfolding work_ok_def work_view_def by (auto simp: kept_def changed_def)
  have mask: "kept s1 (s1\<lparr>primask := m\<rparr>)" using C(1) awake_cong [of "s1\<lparr>primask := m\<rparr>" s1] by (simp add: kept_def)
  show ?thesis
  proof (cases "work_current wq = None \<and> (\<exists>th. threads s1 (work_thread wq) = Some th \<and> state_of th = RT_THREAD_SUSPEND)")
    case True
    then obtain th where th: "threads s1 (work_thread wq) = Some th" "state_of th = RT_THREAD_SUSPEND" by blast
    from resume_kept [OF C(1) th, of code m] obtain s2 s3 where
      r: "rt_thread_resume code (work_thread wq) s1 = Some (RT_EOK, s2)" "rt_schedule code (s2\<lparr>primask := m\<rparr>) = Some s3"
        "kept s1 s3" "awake (work_thread wq) s3" by blast
    have "wake_worker code q m s1 = Some s3" using True th r(1,2) C(2) by (simp add: wake_worker_def irq_defs)
    with final [OF r(3)] r(4) show ?thesis by blast
  next
    case False
    then have up: "awake (work_thread wq) s1" if "work_current wq = None" using that C(4) by (auto simp: able_def)
    have "wake_worker code q m s1 = Some (s1\<lparr>primask := m\<rparr>)"
    proof (cases "work_current wq = None")
      case True
      with up obtain th where "threads s1 (work_thread wq) = Some th" by (auto simp: awake_def)
      with False True C(2) show ?thesis by (auto simp: wake_worker_def irq_defs)
    qed (use C(2) in \<open>simp add: wake_worker_def irq_defs\<close>)
    moreover have "awake (work_thread wq) (s1\<lparr>primask := m\<rparr>)" if "work_current wq = None"
      using up [OF that] awake_cong(1) [of "s1\<lparr>primask := m\<rparr>" s1] by simp
    note final [OF mask this]
    ultimately show ?thesis by (intro exI [of _ "s1\<lparr>primask := m\<rparr>"] conjI) simp_all
  qed
qed

text \<open>The same without a wake-up, when no item is added.\<close>

lemma changed_ok:
  assumes ok: "work_ok q s" and ch: "changed q p s s'" and p: "p \<noteq> [] \<Longrightarrow> node_lists s (work_list q) \<noteq> []"
  shows "work_ok q s' \<and> work_view q s' = (p, snd (work_view q s)) \<and> dom (works s') = dom (works s)"
proof -
  from ok obtain wq sem where Q: "workqueues s q = Some wq" "semaphores s (work_sem q) = Some sem" "sem_value sem = 0"
    "able (work_thread wq) s" "node_lists s (work_list q) \<noteq> [] \<longrightarrow> work_current wq = None \<longrightarrow> awake (work_thread wq) s"
    by (auto simp: work_ok_def)
  have "threads s' = threads s" using ch by (simp add: changed_def)
  then show ?thesis using Q p ch awake_cong [of s' s] unfolding work_ok_def work_view_def by (auto simp: changed_def)
qed

lemmas node_defs = node_remove_def node_append_def node_prepend_def upd_work_def irq_defs

lemma submit_ok:
  assumes ok: "work_ok q s" and w: "works s w \<noteq> None" and v: "work_view q s = (p, c)"
  shows "\<exists>s'. rt_workqueue_dowork code tf q w s = Some (if c = Some w then - RT_EBUSY else RT_EOK, s') \<and> work_ok q s' \<and>
    work_view q s' = (if c = Some w then remove1 w p else remove1 w p @ [w], c) \<and> dom (works s') = dom (works s)"
proof -
  from ok obtain wq where wq: "workqueues s q = Some wq" "ipc_ok s" by (auto simp: work_ok_def)
  have c: "c = work_current wq" "p = node_lists s (work_list q)" "snd (work_view q s) = c" using v wq by (simp_all add: work_view_def)
  from w obtain k where k: "works s w = Some k" by auto
  have fl: "work_flags k AND RT_WORK_STATE_SUBMITTING = 0" if "works s w = Some k" for w k using ok that by (auto simp: work_ok_def)
  let ?s2 = "upd_work w (work_clear RT_WORK_STATE_PENDING) (node_remove w (s\<lparr>primask := 1\<rparr>))"
  let ?s3 = "upd_work w (\<lambda>k. (work_set RT_WORK_STATE_PENDING k)\<lparr>work_queue := Some q\<rparr>) (node_append (work_list q) w ?s2)"
  have busy: "changed q (remove1 w p) s ?s2" and free: "changed q (remove1 w p @ [w]) s ?s3"
    using wq(2) fl c(2) work_flag_kept k by (auto simp: changed_def node_defs)
  show ?thesis
    using wake_worker_ok [OF ok busy, of code "primask s"] wake_worker_ok [OF ok free, of code "primask s"] c wq(1) k
    by (cases "c = Some w") (auto simp: rt_workqueue_dowork_def workqueue_submit_work_def node_defs)
qed

lemma urgent_ok:
  assumes ok: "work_ok q s" and v: "work_view q s = (p, c)"
  shows "\<exists>s'. rt_workqueue_critical_work code q w s = Some (RT_EOK, s') \<and> work_ok q s' \<and>
    work_view q s' = (w # remove1 w p, c) \<and> dom (works s') = dom (works s)"
proof -
  have fl: "work_flags k AND RT_WORK_STATE_SUBMITTING = 0" if "works s w = Some k" for w k using ok that by (auto simp: work_ok_def)
  have p: "p = node_lists s (work_list q)" "snd (work_view q s) = c" "ipc_ok s" using v ok by (simp_all add: work_view_def work_ok_def)
  have "changed q (w # remove1 w p) s (node_prepend (work_list q) w (node_remove w (s\<lparr>primask := 1\<rparr>)))"
    using fl p by (auto simp: changed_def node_defs)
  from wake_worker_ok [OF ok this, of code "primask s"] p(2) show ?thesis
    by (auto simp: rt_workqueue_critical_work_def irq_defs)
qed

lemma cancel_ok:
  assumes ok: "work_ok q s" and w: "works s w \<noteq> None" and v: "work_view q s = (p, c)"
  shows "\<exists>s'. rt_workqueue_cancel_work code q w s = Some (if c = Some w then - RT_EBUSY else RT_EOK, s') \<and> work_ok q s' \<and>
    work_view q s' = (remove1 w p, c) \<and> dom (works s') = dom (works s)"
proof -
  from ok obtain wq where wq: "workqueues s q = Some wq" "ipc_ok s" by (auto simp: work_ok_def)
  have c: "c = work_current wq" "p = node_lists s (work_list q)" "snd (work_view q s) = c" using v wq by (simp_all add: work_view_def)
  from w obtain k where k: "works s w = Some k" by auto
  have fl: "work_flags k AND RT_WORK_STATE_SUBMITTING = 0" if "works s w = Some k" for w k using ok that by (auto simp: work_ok_def)
  let ?s2 = "upd_work w (work_clear RT_WORK_STATE_PENDING) (node_remove w (s\<lparr>primask := 1\<rparr>))"
  let ?s3 = "(upd_work w (\<lambda>k. k\<lparr>work_queue := None\<rparr>) ?s2)\<lparr>primask := primask s\<rparr>"
  have ch: "changed q (remove1 w p) s ?s3"
    using wq(2) fl c(2) work_flag_kept k by (auto simp: changed_def node_defs)
  have "rt_workqueue_cancel_work code q w s = Some (if c = Some w then - RT_EBUSY else RT_EOK, ?s3)"
    using fl [OF k] work_flag_kept(1) [of k] k wq(1) c(1)
    by (simp add: rt_workqueue_cancel_work_def workqueue_cancel_work_def node_defs)
  moreover have "node_lists s (work_list q) \<noteq> []" if "remove1 w p \<noteq> []" using that c(2) by auto
  ultimately show ?thesis using changed_ok [OF ok ch] c(3) by blast
qed

lemma take_ok:
  assumes ok: "work_ok q s" and wq: "workqueues s q = Some wq" and run: "running (work_thread wq) s" and v: "work_view q s = (p, None)"
  shows "\<exists>s'. worker_take code q s = Some (if p = [] then None else Some (hd p), s') \<and> work_ok q s' \<and>
    work_view q s' = (tl p, if p = [] then None else Some (hd p)) \<and> dom (works s') = dom (works s)"
proof (cases p)
  case Nil
  let ?t = "work_thread wq" and ?s = "s\<lparr>primask := 1\<rparr>"
  from run obtain th where th: "rt_current_thread s = Some ?t" "threads ?s ?t = Some th" "state_of th = RT_THREAD_RUNNING"
    by (auto simp: running_def)
  from ok obtain sem where Q: "ipc_ok s" "semaphores s (work_sem q) = Some sem" "sem_value sem = 0" "work_current wq = None"
    "node_lists s (work_list q) = []" and fl: "\<forall>w k. works s w = Some k \<longrightarrow> work_flags k AND RT_WORK_STATE_SUBMITTING = 0"
    using wq v Nil by (auto simp: work_ok_def work_view_def)
  have "thread_ok ?s" using ipc_okD(1) [OF Q(1)] by simp
  from suspend_ok [OF this th(2), of code] th(3) obtain s1 where
    s1: "rt_thread_suspend code ?t ?s = Some (RT_EOK, s1)" "thread_ok s1" "frame s1 ?s"
      "threads s1 = (threads ?s)(?t \<mapsto> set_stat RT_THREAD_SUSPEND th)" "suspend_thread s1 = suspend_thread ?s"
      "rt_current_thread s1 = rt_current_thread ?s" by blast
  have m: "sched.more s1 = sched.more s" using frameD(5) [OF s1(3)] by simp
  have "thread_move ?s s1" using s1(2,3,5,6) alive_upd [OF s1(4)] by (intro move_of_frame) auto
  then have ok1: "ipc_ok (s1\<lparr>primask := primask s\<rparr>)" using ipc_ok_move [of ?s s1] Q(1) by simp
  from schedule_kept [OF this, of code] obtain s2 where
    s2: "rt_schedule code (s1\<lparr>primask := primask s\<rparr>) = Some s2" "kept (s1\<lparr>primask := primask s\<rparr>) s2" by blast
  have "able ?t (s1\<lparr>primask := primask s\<rparr>)" using s1(4) by (simp add: able_def)
  then have "work_ok q s2" "work_view q s2 = ([], None)" "works s2 = works s"
    using s2(2) Q fl wq same_workers [OF m] same_ipc(1) [OF m] by (auto simp: work_ok_def work_view_def kept_def)
  moreover have "worker_take code q s = Some (None, s2)"
    using Q(5) th(1) s1(1) s2(1) by (simp add: worker_take_def irq_defs rt_thread_self_def)
  ultimately show ?thesis using Nil by simp
next
  case (Cons w rest)
  let ?f = "\<lambda>k. (work_clear RT_WORK_STATE_PENDING k)\<lparr>work_queue := None\<rparr>"
  let ?s = "(upd_work w ?f (set_current q (Some w) (node_remove w (s\<lparr>primask := 1\<rparr>))))\<lparr>primask := primask s\<rparr>"
  from ok obtain sem where Q: "ipc_ok s" "semaphores s (work_sem q) = Some sem" "sem_value sem = 0" "able (work_thread wq) s"
    and fl: "\<And>w k. works s w = Some k \<Longrightarrow> work_flags k AND RT_WORK_STATE_SUBMITTING = 0"
    using wq by (auto simp: work_ok_def)
  have p: "node_lists s (work_list q) = w # rest" using v Cons by (simp add: work_view_def)
  have t: "threads ?s = threads s" by (simp add: node_defs set_current_def)
  have "ipc_ok ?s" using Q(1) by (simp add: node_defs set_current_def)
  then have "work_ok q ?s"
    using Q wq fl p awake_cong(2) [OF t] work_flag_kept(1) unfolding work_ok_def by (auto simp: node_defs set_current_def)
  moreover have "worker_take code q s = Some (Some w, ?s)" using p by (simp add: worker_take_def irq_defs)
  moreover have "work_view q ?s = (rest, Some w)" "dom (works ?s) = dom (works s)"
    using p wq by (auto simp: work_view_def node_defs set_current_def)
  ultimately show ?thesis using Cons by auto
qed

lemma finish_ok:
  assumes ok: "work_ok q s" and wq: "workqueues s q = Some wq" and run: "running (work_thread wq) s" and v: "work_view q s = (p, c)"
    and fuel: "length (suspend_thread s (work_sem q)) < fuel"
  shows "\<exists>s'. worker_finish fuel code q s = Some s' \<and> work_ok q s' \<and> work_view q s' = (p, None) \<and> dom (works s') = dom (works s)"
proof -
  let ?s = "set_current q None s"
  from ok obtain sem where Q: "ipc_ok s" "semaphores s (work_sem q) = Some sem" "sem_value sem = 0"
    and fl: "\<And>w k. works s w = Some k \<Longrightarrow> work_flags k AND RT_WORK_STATE_SUBMITTING = 0"
    using wq by (auto simp: work_ok_def)
  have "ipc_ok ?s" "semaphores ?s (work_sem q) = Some sem" "length (suspend_thread ?s (work_sem q)) < fuel"
    using Q fuel by (simp_all add: set_current_def)
  from work_completion_ok [OF this(1,2) Q(3) this(3), of code] obtain s' where
    s': "workqueue_work_completion fuel code q ?s = Some (RT_EOK, s')" "kept ?s s'" by blast
  have "awake (work_thread wq) ?s" using run by (auto simp: awake_def running_def set_current_def)
  then have up: "awake (work_thread wq) s'" using s'(2) by (simp add: kept_def)
  have "workqueues s' q = Some (wq\<lparr>work_current := None\<rparr>)" using s'(2) wq by (simp add: kept_def set_current_def)
  then have "work_ok q s'" "work_view q s' = (p, None)" "works s' = works s"
    using s'(2) up awake_able [OF up] Q fl v by (auto simp: work_ok_def work_view_def kept_def set_current_def)
  with s'(1) show ?thesis by (simp add: worker_finish_def)
qed

section \<open>The properties\<close>

text \<open>What happens at a queue, what it answers, and what a list of items with one that runs does.\<close>

datatype work_op = Submit nat | Urgent nat | Cancel nat | Take | Finish | Schedule

datatype answer = Code rt_err | Item "nat option" | Nothing

definition work_do :: "'x worker_system_scheme scode \<Rightarrow> fptr \<Rightarrow> nat \<Rightarrow> work_op \<Rightarrow> 'x worker_system_scheme \<Rightarrow>
    (answer \<times> 'x worker_system_scheme) option" where
  "work_do code tf q op s = (case op of
     Submit w \<Rightarrow> map_option (apfst Code) (rt_workqueue_dowork code tf q w s)
   | Urgent w \<Rightarrow> map_option (apfst Code) (rt_workqueue_critical_work code q w s)
   | Cancel w \<Rightarrow> map_option (apfst Code) (rt_workqueue_cancel_work code q w s)
   | Take \<Rightarrow> map_option (apfst Item) (worker_take code q s)
   | Finish \<Rightarrow> map_option (Pair Nothing) (worker_finish (Suc (length (suspend_thread s (work_sem q)))) code q s)
   | Schedule \<Rightarrow> map_option (Pair Nothing) (rt_schedule code s))"

text \<open>Items have been initialised; the worker takes and finishes items when it is the thread that runs.\<close>

definition may_do :: "nat \<Rightarrow> work_op \<Rightarrow> 'x worker_system_scheme \<Rightarrow> bool" where
  "may_do q op s \<longleftrightarrow> (case op of
     Submit w \<Rightarrow> works s w \<noteq> None | Cancel w \<Rightarrow> works s w \<noteq> None | Urgent w \<Rightarrow> True | Schedule \<Rightarrow> True
   | Take \<Rightarrow> snd (work_view q s) = None \<and> (\<exists>wq. workqueues s q = Some wq \<and> running (work_thread wq) s)
   | Finish \<Rightarrow> snd (work_view q s) \<noteq> None \<and> (\<exists>wq. workqueues s q = Some wq \<and> running (work_thread wq) s))"

fun spec_do :: "work_op \<Rightarrow> nat list \<times> nat option \<Rightarrow> answer \<times> nat list \<times> nat option" where
  "spec_do (Submit w) (p, c) = (if c = Some w then (Code (- RT_EBUSY), remove1 w p, c) else (Code RT_EOK, remove1 w p @ [w], c))"
| "spec_do (Urgent w) (p, c) = (Code RT_EOK, w # remove1 w p, c)"
| "spec_do (Cancel w) (p, c) = (Code (if c = Some w then - RT_EBUSY else RT_EOK), remove1 w p, c)"
| "spec_do Take (p, c) = (if p = [] then (Item None, [], None) else (Item (Some (hd p)), tl p, Some (hd p)))"
| "spec_do Finish (p, c) = (Nothing, p, None)"
| "spec_do Schedule (p, c) = (Nothing, p, c)"

inductive work_run :: "'x worker_system_scheme scode \<Rightarrow> fptr \<Rightarrow> nat \<Rightarrow> 'x worker_system_scheme \<Rightarrow> (work_op \<times> answer) list \<Rightarrow>
    'x worker_system_scheme \<Rightarrow> bool" for code tf q where
  work_run_none: "work_run code tf q s [] s"
| work_run_step: "may_do q op s \<Longrightarrow> work_do code tf q op s = Some (r, s1) \<Longrightarrow> work_run code tf q s1 tr s' \<Longrightarrow>
    work_run code tf q s ((op, r) # tr) s'"

inductive spec_run :: "nat list \<times> nat option \<Rightarrow> (work_op \<times> answer) list \<Rightarrow> nat list \<times> nat option \<Rightarrow> bool" where
  spec_run_none: "spec_run v [] v"
| spec_run_step: "spec_do op v = (r, v1) \<Longrightarrow> spec_run v1 tr v' \<Longrightarrow> spec_run v ((op, r) # tr) v'"

lemma work_do_ok:
  assumes ok: "work_ok q s" and may: "may_do q op s"
  shows "\<exists>r s'. work_do code tf q op s = Some (r, s') \<and> work_ok q s' \<and> spec_do op (work_view q s) = (r, work_view q s')"
proof -
  obtain p c where v: "work_view q s = (p, c)" by fastforce
  show ?thesis
  proof (cases op)
    case (Submit w)
    with may submit_ok [OF ok _ v, of w code tf] v show ?thesis by (fastforce simp: may_do_def work_do_def)
  next
    case (Urgent w)
    with urgent_ok [OF ok v, of code w] v show ?thesis by (auto simp: work_do_def)
  next
    case (Cancel w)
    with may cancel_ok [OF ok _ v, of w code] v show ?thesis by (fastforce simp: may_do_def work_do_def)
  next
    case Take
    with may v obtain wq where "workqueues s q = Some wq" "running (work_thread wq) s" "c = None" by (auto simp: may_do_def)
    with take_ok [OF ok this(1,2), of p code] v Take show ?thesis by (cases p) (auto simp: work_do_def)
  next
    case Finish
    with may obtain wq where "workqueues s q = Some wq" "running (work_thread wq) s" by (auto simp: may_do_def)
    from finish_ok [OF ok this v lessI, of code] v Finish show ?thesis by (auto simp: work_do_def)
  next
    case Schedule
    have "ipc_ok s" using ok by (simp add: work_ok_def)
    from schedule_kept [OF this, of code] obtain s' where s': "rt_schedule code s = Some s'" "kept s s'" by blast
    have "work_ok q s'" "work_view q s' = work_view q s"
      using ok s'(2) by (auto simp: work_ok_def work_view_def kept_def)
    with s'(1) v Schedule show ?thesis by (simp add: work_do_def)
  qed
qed

section \<open>Delayed items\<close>

lemma thread_ok_mono:
  assumes ok: "thread_ok s" and same: "same_lists s' s" "hooks_off s' = hooks_off s"
    and more: "\<And>a. is_thread a s \<Longrightarrow> is_thread a s'" "\<And>a. timer_fine a s \<Longrightarrow> timer_fine a s'"
  shows "thread_ok s'"
  using ok same_lists_inv [OF same(1), of "{}"] same more by (auto simp: thread_ok_def sched_ok_def same_lists_def)

text \<open>The timer at \<open>a\<close> is started, and calls the handler for \<open>w\<close>.\<close>

definition armed :: "fptr \<Rightarrow> nat \<Rightarrow> 'x sched_scheme \<Rightarrow> bool" where
  "armed tf w s \<longleftrightarrow> work_timer w \<in> set (timer_list s) \<and>
     (\<exists>tm. timers s (work_timer w) = Some tm \<and> timeout_func tm = tf \<and> tm_param tm = w)"

lemma armed_cong: "timer_list s' = timer_list s \<Longrightarrow> timers s' = timers s \<Longrightarrow> armed tf w s' = armed tf w s"
  by (simp add: armed_def)

lemma timer_new:
  assumes ok: "thread_ok s" and new: "objects s a = None" "\<And>c. a \<notin> set (object_container s c)" and off: "rt_object_attach_hook s = None"
  shows "\<exists>s'. rt_timer_init code a name tf p ticks fl s = Some s' \<and> thread_ok s' \<and> same_lists s' s \<and> is_timer a s' \<and>
    (\<exists>tm. timers s' a = Some tm \<and> timeout_func tm = tf \<and> tm_param tm = p \<and> init_tick tm = ticks) \<and>
    sched.more s' = sched.more s \<and> (\<forall>b ob. objects s b = Some ob \<longrightarrow> objects s' b = Some ob)"
proof -
  let ?ob = "\<lparr>ob_name = name_field name, ob_type = class_val RT_Object_Class_Timer OR RT_Object_Class_Static\<rparr>"
  let ?s1 = "s\<lparr>objects := (objects s)(a \<mapsto> ?ob),
    object_container := (object_container s)(10 := a # object_container s 10)\<rparr>"
  let ?s2 = "timer_init a tf p ticks fl ?s1"
  have "rt_object_get_information (class_val RT_Object_Class_Timer) = Some 10" by (simp add: rt_object_get_information_def object_container_types_def)
  then have run: "rt_timer_init code a name tf p ticks fl s = Some ?s2"
    using new off by (simp add: rt_timer_init_def rt_object_init_def object_link_def irq_defs)
  have lists: "same_lists ?s2 s" "hooks_off ?s2 = hooks_off s" by (simp_all add: same_lists_def timer_init_def hooks_off_def)
  have "is_thread b ?s2" if "is_thread b s" for b
    using that new(1) by (auto simp: is_thread_def rt_object_get_type_def timer_init_def)
  moreover have "timer_fine b ?s2" if "timer_fine b s" for b
    using that new(1) by (auto simp: timer_fine_def is_timer_def rt_object_get_type_def timer_init_def)
  ultimately have "thread_ok ?s2" by (rule thread_ok_mono [OF ok lists])
  moreover have "is_timer a ?s2" by (simp add: is_timer_def rt_object_get_type_def timer_init_def)
  ultimately show ?thesis using run lists(1) new(1)
    by (intro exI [of _ ?s2]) (auto simp: timer_init_def)
qed

lemma insert_member: "t \<in> set (timer_insert tick n t l)"
  by (induction l) auto

lemma timer_started:
  assumes ok: "thread_ok s" and tm: "is_timer a s" "timers s a = Some tm" "init_tick tm < TICK_HALF"
  shows "\<exists>s'. rt_timer_start code a s = Some (RT_EOK, s') \<and> thread_ok s' \<and> same_lists s' s \<and> frame s' s \<and>
    a \<in> set (timer_list s') \<and> (\<exists>tm'. timers s' a = Some tm' \<and> timeout_func tm' = timeout_func tm \<and> tm_param tm' = tm_param tm)"
proof -
  let ?s2 = "upd_timer a (flag_clear RT_TIMER_FLAG_ACTIVATED) (timer_remove a (s\<lparr>primask := 1\<rparr>))"
  have t2: "timers ?s2 a = Some (flag_clear RT_TIMER_FLAG_ACTIVATED tm)" "rt_object_take_hook ?s2 = None"
    using tm(2) thread_okD(3) [OF ok] by (simp_all add: upd_timer_def timer_remove_def hooks_off_def)
  let ?n = "rt_tick_get ?s2 + init_tick tm"
  let ?s5 = "upd_timer a (flag_or RT_TIMER_FLAG_ACTIVATED) (timer_link ?n a (upd_timer a (\<lambda>tm. tm\<lparr>timeout_tick := ?n\<rparr>) ?s2))"
  let ?s6 = "?s5\<lparr>primask := primask s\<rparr>"
  have run: "rt_timer_start code a s = Some (RT_EOK, ?s6)"
    using t2 tm by (simp add: rt_timer_start_def irq_defs Let_def flag_clear_def)
  have "same_lists ?s5 (s\<lparr>primask := 1\<rparr>)" "frame ?s5 (s\<lparr>primask := 1\<rparr>)"
    by (meson timer_parts same_lists_trans frame_trans)+
  then have same: "same_lists ?s6 s" "frame ?s6 s" by (simp_all add: same_lists_def frame_def hooks_off_def)
  have "a \<in> set (timer_list ?s6)" by (simp add: timer_link_def upd_timer_def insert_member Let_def)
  moreover have "\<exists>tm'. timers ?s6 a = Some tm' \<and> timeout_func tm' = timeout_func tm \<and> tm_param tm' = tm_param tm"
    using tm(2) by (simp add: timer_link_def upd_timer_def timer_remove_def Let_def flag_or_def flag_clear_def)
  ultimately show ?thesis using run same thread_ok_same [OF same] ok by blast
qed

text \<open>A resumption and the scheduler stop the timer of the thread, and no other.\<close>

lemma stop_armed:
  assumes "rt_timer_stop code a s = Some (r, s1)" and "work_timer w \<noteq> a" and "rt_object_put_hook s = None" and "armed tf w s"
  shows "armed tf w s1"
  using assms by (auto simp: rt_timer_stop_def irq_defs upd_timer_def timer_remove_def armed_def split: option.splits if_splits)

lemma insert_armed: "rt_schedule_insert_thread t s = Some s1 \<Longrightarrow> armed tf w s1 = armed tf w s"
  by (auto simp: rt_schedule_insert_thread_def irq_defs upd_thread_def Let_def armed_def split: option.splits if_splits)

lemma resume_armed:
  assumes r: "rt_thread_resume code t s = Some (r, s1)" and other: "work_timer w \<noteq> thread_timer t" and off: "hooks_off s"
    and a: "armed tf w s"
  shows "armed tf w s1"
proof (cases "\<exists>th. threads s t = Some th \<and> state_of th = RT_THREAD_SUSPEND")
  case True
  let ?s2 = "tlist_remove t (s\<lparr>primask := 1\<rparr>)"
  have h: "rt_object_put_hook ?s2 = None" "armed tf w ?s2" using off a by (simp_all add: hooks_off_def tlist_remove_def armed_def)
  have none: "hooks_off ?s2" using off by (simp add: hooks_off_def tlist_remove_def)
  from True r obtain x s3 s4 where
    s3: "rt_timer_stop (s_code code) (thread_timer t) ?s2 = Some (x, s3)" and s4: "rt_schedule_insert_thread t s3 = Some s4"
    and s1: "s1 = rt_object_hook_call (s_code code) (rt_thread_resume_hook s4) t (s4\<lparr>primask := primask s\<rparr>)"
    by (auto simp: rt_thread_resume_def irq_defs split: bind_splits if_splits)
  have "rt_thread_resume_hook s3 = None" using s3 none
    by (auto simp: rt_timer_stop_def irq_defs upd_timer_def timer_remove_def hooks_off_def Let_def split: option.splits if_splits)
  then have "rt_thread_resume_hook s4 = None" using s4
    by (auto simp: rt_schedule_insert_thread_def irq_defs upd_thread_def Let_def split: option.splits if_splits)
  then have "armed tf w s1 = armed tf w s4" by (simp add: s1 armed_def)
  with stop_armed [OF s3 other h] insert_armed [OF s4] show ?thesis by simp
next
  case False
  with r a show ?thesis by (auto simp: rt_thread_resume_def split: bind_splits if_splits)
qed

lemma schedule_outside:
  assumes "ipc_ok s"
  shows "\<exists>s'. rt_schedule code s = Some s' \<and> kept s s' \<and> outside s' = outside s"
proof -
  note K = ipc_okD [OF assms] thread_okD [OF ipc_okD(1) [OF assms]]
  from K(2) obtain c where c: "rt_current_thread s = Some c" by auto
  from sched_invD(10) [OF thread_okD(2) [OF K(1)] c] obtain th where th: "threads s c = Some th" by auto
  from schedule_kept [OF assms, of code] obtain s' where s': "rt_schedule code s = Some s'" "kept s s'" by blast
  have "outside s' = outside s"
    by (rule rt_schedule_cases [OF thread_okD(1) [OF K(1)] c th, of code]) (use s'(1) in auto)
  with s' show ?thesis by blast
qed

lemma wake_armed:
  assumes ok: "ipc_ok s" and wq: "workqueues s q = Some wq" "work_current wq = None" "able (work_thread wq) s"
    and other: "work_timer w \<noteq> thread_timer (work_thread wq)" and a: "armed tf w s"
  shows "\<exists>s'. wake_worker code q m s = Some s' \<and> kept s s' \<and> armed tf w s'"
proof (cases "\<exists>th. threads s (work_thread wq) = Some th \<and> state_of th = RT_THREAD_SUSPEND")
  case True
  then obtain th where th: "threads s (work_thread wq) = Some th" "state_of th = RT_THREAD_SUSPEND" by blast
  from resume_kept [OF ok th, of code m] obtain s1 s2 where
    r: "rt_thread_resume code (work_thread wq) s = Some (RT_EOK, s1)" "rt_schedule code (s1\<lparr>primask := m\<rparr>) = Some s2" "kept s s2"
    by blast
  from resume_awake [OF ok th, of code] r(1) have "ipc_ok (s1\<lparr>primask := m\<rparr>)" by auto
  from schedule_outside [OF this, of code] r(2) have "outside s2 = outside (s1\<lparr>primask := m\<rparr>)" by auto
  from outsideD(6,7) [OF this] have "armed tf w s2 = armed tf w s1" by (intro armed_cong) simp_all
  then have "armed tf w s2" using resume_armed [OF r(1) other ipc_okD(5) [OF ok] a] by simp
  with r th wq show ?thesis by (simp add: wake_worker_def irq_defs)
next
  case False
  with wq(3) obtain th where th: "threads s (work_thread wq) = Some th" "state_of th \<noteq> RT_THREAD_SUSPEND"
    by (auto simp: able_def awake_def)
  have "kept s (s\<lparr>primask := m\<rparr>)" using ok awake_cong [of "s\<lparr>primask := m\<rparr>" s] by (simp add: kept_def)
  moreover have "armed tf w (s\<lparr>primask := m\<rparr>)" using a by (simp add: armed_def)
  ultimately show ?thesis using th wq by (simp add: wake_worker_def irq_defs)
qed

lemma delay_ok:
  assumes ok: "work_ok q s" and k: "works s w = Some k" and new: "objects s (work_timer w) = None"
    "\<And>c. work_timer w \<notin> set (object_container s c)" and off: "rt_object_attach_hook s = None"
    and ticks: "ticks \<noteq> 0" "ticks < TICK_HALF"
  shows "\<exists>s'. rt_workqueue_submit_work code tf q w ticks s = Some (RT_EOK, s') \<and> ipc_ok s' \<and> armed tf w s' \<and>
    threads s' = threads s \<and> workqueues s' = workqueues s \<and> works s' w \<noteq> None \<and>
    node_lists s' (work_list q) = remove1 w (node_lists s (work_list q))"
proof -
  let ?a = "work_timer w"
  let ?s2 = "upd_work w (work_clear RT_WORK_STATE_PENDING) (node_remove w (s\<lparr>primask := 1\<rparr>))"
  have ok2: "ipc_ok ?s2" using ok by (simp add: work_ok_def node_defs)
  have new2: "objects ?s2 ?a = None" "?a \<notin> set (object_container ?s2 c)" "rt_object_attach_hook ?s2 = None" for c
    using new off by (simp_all add: node_defs)
  from timer_new [OF ipc_okD(1) [OF ok2] new2, of "s_code code" "''work''" tf w ticks RT_TIMER_FLAG_SOFT_TIMER]
  obtain s3 tm where s3: "rt_timer_init (s_code code) ?a ''work'' tf w ticks RT_TIMER_FLAG_SOFT_TIMER ?s2 = Some s3"
    "thread_ok s3" "same_lists s3 ?s2" "is_timer ?a s3" "timers s3 ?a = Some tm" "timeout_func tm = tf" "tm_param tm = w"
    "init_tick tm = ticks" "sched.more s3 = sched.more ?s2" "\<forall>b ob. objects ?s2 b = Some ob \<longrightarrow> objects s3 b = Some ob" by blast
  have ok3: "ipc_ok s3"
  proof -
    have "alive s3 t = alive ?s2 t" "rt_current_thread s3 = rt_current_thread ?s2" "suspend_thread s3 = suspend_thread ?s2" for t
      using s3(3) by (simp_all add: same_lists_def alive_def)
    moreover have "rt_object_get_type b s3 = Some x" if "rt_object_get_type b ?s2 = Some x" for b x
      using that s3(10) by (auto simp: rt_object_get_type_def)
    ultimately show ?thesis using ok2 s3(2) same_ipc(1,2) [OF s3(9)] unfolding ipc_ok_def
      by (fastforce simp: sem_ok_def mutex_ok_def is_sem_def is_mutex_def split: option.splits)
  qed
  have work_at: "works ?s2 w = Some (work_clear RT_WORK_STATE_PENDING k)" using k by (simp add: node_defs)
  let ?s4 = "(node_append (delayed_list q) w (upd_work w (\<lambda>k. k\<lparr>work_queue := Some q\<rparr>)
      (upd_work w (work_set RT_WORK_STATE_SUBMITTING) s3)))\<lparr>primask := primask s\<rparr>"
  have ok4: "ipc_ok ?s4" using ok3 by (simp add: node_defs)
  have "is_timer ?a ?s4" "timers ?s4 ?a = Some tm" using s3(4,5) by (simp_all add: node_defs is_timer_def rt_object_get_type_def)
  from timer_started [OF ipc_okD(1) [OF ok4] this, of "s_code code"] s3(8) ticks(2) obtain s5 tm' where
    s5: "rt_timer_start (s_code code) ?a ?s4 = Some (RT_EOK, s5)" "thread_ok s5" "same_lists s5 ?s4" "frame s5 ?s4"
      "?a \<in> set (timer_list s5)" "timers s5 ?a = Some tm'" "timeout_func tm' = timeout_func tm" "tm_param tm' = tm_param tm" by auto
  note m5 = frameD(5) [OF s5(4)]
  have "ipc_ok s5 = ipc_ok ?s4"
    by (rule ipc_ok_cong) (use s5(2,3) ipc_okD(1) [OF ok4] same_ipc(1,2) [OF m5] frameD(3) [OF s5(4)] in
      \<open>simp_all add: same_lists_def\<close>)
  moreover have "armed tf w s5" using s5(5-8) s3(6,7) by (simp add: armed_def)
  moreover have "rt_workqueue_submit_work code tf q w ticks s = Some (RT_EOK, s5)"
    using k ok s3(1) s5(1) ticks work_flag_kept(1) [of k]
    by (simp add: rt_workqueue_submit_work_def workqueue_submit_work_def irq_defs work_ok_def work_at)
  moreover have "threads s5 = threads s" using s5(3) s3(3) by (simp add: same_lists_def node_defs)
  moreover have "workqueues s5 = workqueues s" "works s5 w \<noteq> None" "node_lists s5 (work_list q) = remove1 w (node_lists s (work_list q))"
    using same_workers [OF m5] same_workers [OF s3(9)] k by (simp_all add: node_defs work_list_def delayed_list_def)
  ultimately show ?thesis using ok4 by blast
qed

section \<open>Wait queues\<close>

text \<open>A wake-up that comes before the thread waits is not lost: the wait returns at once and uses it up.\<close>

lemma early_wakeup:
  assumes "rt_interrupt_nest s = 0" and "rt_current_thread s = Some t" and "node_lists s (waiting_list q) = []"
    and "rt_tick_from_millisecond msec \<noteq> 0"
  shows "\<exists>s1 s2. rt_wqueue_wakeup code wc q key s = Some s1 \<and> rt_wqueue_wait code wc q node 0 msec s1 = Some (Returned 0, s2) \<and>
    threads s2 = threads s \<and> wait_flag s2 q = Some RT_WQ_FLAG_CLEAN"
  using assms by (auto simp: rt_wqueue_wakeup_def rt_wqueue_wait_def wqueue_waited_def rt_wqueue_remove_def node_remove_def
      irq_defs rt_thread_self_def)

section \<open>Claims\<close>

text \<open>
  Claim C20 (refinement). Whatever is submitted, submitted urgently, cancelled, taken and finished at a work queue, and
  whichever thread the scheduler picks in between, the answers and the items are those of a list with one item that
  runs: first in, first out, urgent items first, the item that runs refused. Every step that may follow returns, and
  the worker is never suspended while items wait and none runs.
\<close>
theorem work_items_in_order:
  assumes "work_ok q s" and "work_run code tf q s tr s'"
  shows "work_ok q s' \<and> spec_run (work_view q s) tr (work_view q s') \<and>
    (\<forall>op. may_do q op s' \<longrightarrow> work_do code tf q op s' \<noteq> None) \<and>
    (\<forall>wq. workqueues s' q = Some wq \<longrightarrow> node_lists s' (work_list q) \<noteq> [] \<longrightarrow> work_current wq = None \<longrightarrow> awake (work_thread wq) s')"
proof -
  have "work_ok q s' \<and> spec_run (work_view q s) tr (work_view q s')" using assms(2,1)
  proof (induction rule: work_run.induct)
    case (work_run_none s)
    then show ?case by (simp add: spec_run_none)
  next
    case (work_run_step op s r s1 tr s')
    from work_do_ok [OF work_run_step.prems work_run_step.hyps(1), of code tf] work_run_step.hyps(2)
    have "work_ok q s1" "spec_do op (work_view q s) = (r, work_view q s1)" by auto
    with work_run_step.IH show ?case by (blast intro: spec_run_step)
  qed
  moreover from this have "work_do code tf q op s' \<noteq> None" if "may_do q op s'" for op
    using work_do_ok [OF _ that, of code tf] by auto
  ultimately show ?thesis by (auto simp: work_ok_def)
qed

text \<open>A queue at 1000 whose worker is the thread that runs, and two items.\<close>

definition fresh_work :: rt_work where
  "fresh_work = \<lparr>work_func = 1, work_data = 0, work_flags = 0, work_type = 0, work_queue = None\<rparr>"

definition small_work_system :: worker_system where
  "small_work_system = ipc.extend
     (example_system [1020 \<mapsto> \<lparr>sem_flag = 0, sem_value = 0\<rparr>] (\<lambda>_. None) (\<lambda>_. None) (\<lambda>_. None) (\<lambda>_. None) (\<lambda>_. 0))
     (worker_system.fields [1000 \<mapsto> \<lparr>work_current = None, work_thread = 100\<rparr>]
       [2000 \<mapsto> fresh_work, 2100 \<mapsto> fresh_work] (\<lambda>_. None) (\<lambda>_. None) (\<lambda>_. []))"

lemma small_work_truncate: "sched.truncate small_work_system = example_sched"
  by (simp add: small_work_system_def example_system_def sched.defs ipc.defs worker_system.defs)

lemmas small_work_sel [simp] = example_sel [OF small_work_truncate]

lemma small_work_more [simp]:
  "semaphores small_work_system = [1020 \<mapsto> \<lparr>sem_flag = 0, sem_value = 0\<rparr>]" "mutexes small_work_system = (\<lambda>_. None)"
  "workqueues small_work_system = [1000 \<mapsto> \<lparr>work_current = None, work_thread = 100\<rparr>]"
  "works small_work_system = [2000 \<mapsto> fresh_work, 2100 \<mapsto> fresh_work]" "node_lists small_work_system = (\<lambda>_. [])"
  by (simp_all add: small_work_system_def example_system_def sched.defs ipc.defs worker_system.defs)

lemma small_work_ok: "work_ok 1000 small_work_system" "work_view 1000 small_work_system = ([], None)"
    "running 100 small_work_system"
proof -
  have "ipc_ok small_work_system"
    using example_thread_ok [OF small_work_truncate]
    by (auto simp: ipc_ok_def sem_ok_def is_sem_def rt_object_get_type_def example_kernel_def split: if_splits)
  moreover have "awake 100 small_work_system" by (simp add: awake_def plain_thread_def)
  ultimately show "work_ok 1000 small_work_system"
    by (auto simp: work_ok_def work_sem_def awake_able fresh_work_def split: if_splits)
  show "work_view 1000 small_work_system = ([], None)" by (simp add: work_view_def)
  show "running 100 small_work_system" by (simp add: running_def plain_thread_def)
qed

theorem work_items_in_order_witness:
  "\<forall>code. \<exists>s'. work_run code 7 1000 small_work_system [(Submit 2000, Code RT_EOK), (Urgent 2100, Code RT_EOK), (Schedule, Nothing)] s' \<and>
    work_ok 1000 s' \<and> work_view 1000 s' = ([2100, 2000], None)"
proof
  fix code :: "worker_system scode"
  note S = small_work_ok
  have m: "may_do 1000 (Submit 2000) small_work_system" "may_do 1000 (Urgent 2100) s" "may_do 1000 Schedule s" for s :: worker_system
    by (simp_all add: may_do_def)
  from work_do_ok [OF S(1) m(1), of code 7] S(2) obtain s1 where
    s1: "work_do code 7 1000 (Submit 2000) small_work_system = Some (Code RT_EOK, s1)" "work_ok 1000 s1" "work_view 1000 s1 = ([2000], None)"
    by auto
  from work_do_ok [OF s1(2) m(2), of code 7] s1(3) obtain s2 where
    s2: "work_do code 7 1000 (Urgent 2100) s1 = Some (Code RT_EOK, s2)" "work_ok 1000 s2" "work_view 1000 s2 = ([2100, 2000], None)"
    by auto
  from work_do_ok [OF s2(2) m(3), of code 7] s2(3) obtain s3 where
    s3: "work_do code 7 1000 Schedule s2 = Some (Nothing, s3)" "work_view 1000 s3 = ([2100, 2000], None)" by auto
  have run: "work_run code 7 1000 small_work_system [(Submit 2000, Code RT_EOK), (Urgent 2100, Code RT_EOK), (Schedule, Nothing)] s3"
    by (rule work_run_step [OF m(1) s1(1) work_run_step [OF m(2) s2(1) work_run_step [OF m(3) s3(1) work_run_none]]])
  with work_items_in_order [OF S(1) run] s3(2) show "\<exists>s'. work_run code 7 1000 small_work_system
      [(Submit 2000, Code RT_EOK), (Urgent 2100, Code RT_EOK), (Schedule, Nothing)] s' \<and> work_ok 1000 s' \<and> work_view 1000 s' = ([2100, 2000], None)"
    by blast
qed

text \<open>
  Claim C39 (liveness). When the worker has finished an item, every thread that waits for its end
  (\<^verbatim>\<open>rt_workqueue_cancel_work_sync\<close>) is woken: it can run, nobody is left in the list, and the semaphore
  counts no further end.
\<close>
theorem end_of_item_wakes_all:
  assumes "work_ok q s" and "workqueues s q = Some wq" and "running (work_thread wq) s"
  shows "\<exists>s'. worker_finish (Suc (length (suspend_thread s (work_sem q)))) code q s = Some s' \<and> work_ok q s' \<and>
    suspend_thread s' (work_sem q) = [] \<and> (\<forall>t \<in> set (suspend_thread s (work_sem q)). awake t s') \<and>
    semaphores s' = semaphores s"
proof -
  let ?n = "Suc (length (suspend_thread s (work_sem q)))" and ?s = "set_current q None s"
  obtain p c where "work_view q s = (p, c)" by fastforce
  from finish_ok [OF assms this lessI, of code] obtain s' where
    s': "worker_finish ?n code q s = Some s'" "work_ok q s'" by blast
  from assms(1) obtain sem where sem: "ipc_ok ?s" "semaphores ?s (work_sem q) = Some sem" "sem_value sem = 0"
      "suspend_thread ?s = suspend_thread s" "semaphores ?s = semaphores s"
    by (auto simp: work_ok_def set_current_def)
  from work_completion_ok [OF sem(1-3), of ?n code] s'(1) sem(4,5) show ?thesis
    using s' by (auto simp: worker_finish_def kept_def)
qed

text \<open>Thread 200 waits for the end of the item that the worker runs.\<close>

lemma small_work_waiting:
  "\<exists>s :: worker_system. work_ok 1000 s \<and> running 100 s \<and> workqueues s 1000 = Some \<lparr>work_current = None, work_thread = 100\<rparr> \<and> suspend_thread s 1020 = [200]"
proof -
  let ?s = small_work_system
  note S = small_work_ok
  have ok: "thread_ok ?s" using S(1) by (simp add: work_ok_def ipc_ok_def)
  have "threads ?s 200 = Some (plain_thread RT_THREAD_READY 10)" by simp
  from suspend_ok [OF ok this, of undefined] obtain s1 where
    s1: "thread_ok s1" "frame s1 ?s" "threads s1 = (threads ?s)(200 \<mapsto> set_stat RT_THREAD_SUSPEND (plain_thread RT_THREAD_READY 10))"
      "suspend_thread s1 = suspend_thread ?s" "rt_current_thread s1 = rt_current_thread ?s" by auto
  note m = same_workers [OF frameD(5) [OF s1(2)]] same_ipc(1,2) [OF frameD(5) [OF s1(2)]]
  let ?s2 = "s1\<lparr>suspend_thread := (suspend_thread s1)(1020 := [] @ 200 # [])\<rparr>"
  have "sched_inv {} ?s2"
    by (rule sched_inv_wait [OF thread_okD(2) [OF s1(1)]]) (use s1(3,4) in auto)
  moreover have "hooks_off ?s2 = hooks_off s1" by (simp add: hooks_off_def)
  moreover have "is_thread a ?s2 = is_thread a s1" "timer_fine a ?s2 = timer_fine a s1" for a
    by (simp_all add: is_thread_def timer_fine_def is_timer_def rt_object_get_type_def)
  ultimately have t2: "thread_ok ?s2" using s1(1) by (simp add: thread_ok_def sched_ok_def)
  have ob: "objects ?s2 = objects ?s" using frameD(3) [OF s1(2)] by simp
  have "ipc_ok ?s2"
    using t2 s1(5) m(4,5) ob by (auto simp: ipc_ok_def sem_ok_def is_sem_def rt_object_get_type_def example_kernel_def split: if_splits)
  moreover have run: "running 100 ?s2" using s1(3,5) by (simp add: running_def plain_thread_def)
  then have "awake 100 ?s2" by (auto simp: awake_def running_def)
  ultimately have "work_ok 1000 ?s2"
    using S(1) m by (auto simp: work_ok_def work_sem_def awake_able)
  with run m(1) show ?thesis by (intro exI [of _ ?s2]) simp
qed

theorem end_of_item_wakes_all_witness:
  "\<forall>code :: worker_system scode. \<exists>s s'. suspend_thread s 1020 = [200] \<and> worker_finish 2 code 1000 s = Some s' \<and> work_ok 1000 s' \<and>
    suspend_thread s' 1020 = [] \<and> awake 200 s'"
proof
  fix code :: "worker_system scode"
  from small_work_waiting obtain s :: worker_system where s: "work_ok 1000 s" "running 100 s"
    "workqueues s 1000 = Some \<lparr>work_current = None, work_thread = 100\<rparr>" "suspend_thread s 1020 = [200]" by blast
  from end_of_item_wakes_all [OF s(1,3), of code] s(2,4) show "\<exists>s s'. suspend_thread s 1020 = [200] \<and>
      worker_finish 2 code 1000 s = Some s' \<and> work_ok 1000 s' \<and> suspend_thread s' 1020 = [] \<and> awake 200 s'"
    by - (rule exI [of _ s], auto simp: work_sem_def numeral_2_eq_2)
qed

text \<open>
  Claim C40 (error). An item that is submitted with a delay, and then again without one, runs at once, but its timer goes
  on: when the timer fires, its handler finds an item without a queue and the assertion fails in the tick interrupt.
\<close>
theorem delayed_item_asserts:
  assumes "work_ok q s" and "work_view q s = ([], None)" and "works s w \<noteq> None" and "objects s (work_timer w) = None"
    and "\<And>c. work_timer w \<notin> set (object_container s c)" and "rt_object_attach_hook s = None"
    and "ticks \<noteq> 0" and "ticks < TICK_HALF"
  shows "\<exists>s1 s2 s3. rt_workqueue_submit_work code tf q w ticks s = Some (RT_EOK, s1) \<and>
    rt_workqueue_dowork code tf q w s1 = Some (RT_EOK, s2) \<and> worker_take code q s2 = Some (Some w, s3) \<and>
    armed tf w s3 \<and> delayed_work_timeout_handler code w s3 = None"
proof -
  from assms(3) obtain k where k: "works s w = Some k" by auto
  from delay_ok [OF assms(1) k assms(4-8), of code tf] obtain s1 where
    s1: "rt_workqueue_submit_work code tf q w ticks s = Some (RT_EOK, s1)" "ipc_ok s1" "armed tf w s1" "threads s1 = threads s"
      "workqueues s1 = workqueues s" "works s1 w \<noteq> None" "node_lists s1 (work_list q) = remove1 w (node_lists s (work_list q))" by blast
  from assms(1,2) obtain wq where wq: "workqueues s q = Some wq" "work_current wq = None" "able (work_thread wq) s"
      "node_lists s (work_list q) = []" by (auto simp: work_ok_def work_view_def)
  have other: "work_timer w \<noteq> thread_timer (work_thread wq)"
  proof -
    from wq(3) obtain th where "threads s (work_thread wq) = Some th" "state_of th \<noteq> RT_THREAD_CLOSE"
      by (auto simp: able_def awake_def)
    with thread_okD(6) assms(1) have "is_timer (thread_timer (work_thread wq)) s"
      unfolding work_ok_def ipc_ok_def timer_fine_def by blast
    with assms(4) show ?thesis by (auto simp: is_timer_def rt_object_get_type_def)
  qed
  let ?s = "upd_work w (\<lambda>k. (work_set RT_WORK_STATE_PENDING k)\<lparr>work_queue := Some q\<rparr>) (node_append (work_list q) w
      (upd_work w (work_clear RT_WORK_STATE_PENDING) (node_remove w (s1\<lparr>primask := 1\<rparr>))))"
  have "ipc_ok ?s" "workqueues ?s q = Some wq" "armed tf w ?s" and l: "node_lists ?s (work_list q) = [w]" and th: "threads ?s = threads s"
    using s1 wq by (simp_all add: node_defs armed_def)
  moreover have "able (work_thread wq) ?s" using wq(3) awake_cong(2) [OF th] by simp
  ultimately obtain s2 where s2: "wake_worker code q (primask s1) ?s = Some s2" "kept ?s s2" "armed tf w s2"
    using wake_armed [OF _ _ wq(2) _ other, of ?s q tf code "primask s1"] by blast
  have dowork: "rt_workqueue_dowork code tf q w s1 = Some (RT_EOK, s2)"
    using s1(5,6) wq s2(1) by (auto simp: rt_workqueue_dowork_def workqueue_submit_work_def node_defs)
  have n: "node_lists s2 (work_list q) = [w]" and ws: "works s2 w \<noteq> None" using s2(2) l s1(6) by (simp_all add: kept_def) (simp add: node_defs)
  let ?s3 = "(upd_work w (\<lambda>k. (work_clear RT_WORK_STATE_PENDING k)\<lparr>work_queue := None\<rparr>)
      (set_current q (Some w) (node_remove w (s2\<lparr>primask := 1\<rparr>))))\<lparr>primask := primask s2\<rparr>"
  have "worker_take code q s2 = Some (Some w, ?s3)" using n by (simp add: worker_take_def irq_defs)
  moreover have "armed tf w ?s3" using s2(3) by (simp add: armed_def node_defs set_current_def)
  moreover have "delayed_work_timeout_handler code w ?s3 = None"
    using ws by (auto simp: delayed_work_timeout_handler_def node_defs set_current_def)
  ultimately show ?thesis using s1(1) dowork by blast
qed

theorem delayed_item_asserts_witness:
  "\<forall>code. \<exists>s1 s2 s3. rt_workqueue_submit_work code 7 1000 2000 50 small_work_system = Some (RT_EOK, s1) \<and>
    rt_workqueue_dowork code 7 1000 2000 s1 = Some (RT_EOK, s2) \<and> worker_take code 1000 s2 = Some (Some 2000, s3) \<and>
    armed 7 2000 s3 \<and> delayed_work_timeout_handler code 2000 s3 = None"
proof
  fix code :: "worker_system scode"
  have "objects small_work_system (work_timer 2000) = None" "work_timer 2000 \<notin> set (object_container small_work_system c)"
      "rt_object_attach_hook small_work_system = None" for c
    by (simp_all add: work_timer_def example_kernel_def) (simp_all add: small_work_system_def example_system_def example_sched_def
      scheduled_def kernel.defs sched.defs ipc.defs example_kernel_def kernel_zero_def)
  from delayed_item_asserts [OF small_work_ok(1,2) _ this, of 50 code 7] show "\<exists>s1 s2 s3.
      rt_workqueue_submit_work code 7 1000 2000 50 small_work_system = Some (RT_EOK, s1) \<and>
    rt_workqueue_dowork code 7 1000 2000 s1 = Some (RT_EOK, s2) \<and> worker_take code 1000 s2 = Some (Some 2000, s3) \<and>
    armed 7 2000 s3 \<and> delayed_work_timeout_handler code 2000 s3 = None"
    by simp
qed

end
